(* ===== verification/Prelude.thy ===== *)
theory Prelude
  imports Main "HOL-Library.AList"
begin

text \<open>
  Shared vocabulary of the development: Python exceptions as values, the error monad in
  which every raising function of the code is written, the short-circuit connectives over
  results (a Python \<open>and\<close>/\<open>or\<close> chain may raise in the middle), character classes and the
  full-match regular expressions of the code as executable predicates on strings, and the
  lemma collections the component theories use.  A Python \<open>str\<close> is the list of its UTF-8
  bytes.
\<close>

named_theorems pysimps
  \<open>unfolding rules of the error monad and the short-circuit connectives\<close>

section \<open>Exceptions and results\<close>

text \<open>
  \<open>AppError cls code retry\<close> is an exception of one of the application's own classes with its
  stable \<open>code\<close> attribute and its \<open>retryable\<close> flag; the human-readable message is dropped.
  \<open>DatabaseError\<close> is \<open>sqlite3.Error\<close>, which is neither an \<open>OSError\<close> nor a \<open>RuntimeError\<close>.
\<close>

datatype pyexc =
    TypeError
  | ValueError
  | KeyError
  | AssertionError
  | AttributeError
  | OSError
  | DatabaseError
  | TimeoutError
  | RuntimeError
  | OverflowError
  | AppError string string bool

type_synonym 'a res = "pyexc + 'a"

definition bindE :: "'a res \<Rightarrow> ('a \<Rightarrow> 'b res) \<Rightarrow> 'b res" where
  "bindE m f = (case m of Inl e \<Rightarrow> Inl e | Inr x \<Rightarrow> f x)"

definition guardE :: "bool \<Rightarrow> pyexc \<Rightarrow> 'a res \<Rightarrow> 'a res" where
  "guardE bad e k = (if bad then Inl e else k)"

lemma bindE_Inl [simp, pysimps]: "bindE (Inl e) f = Inl e"
  and bindE_Inr [simp, pysimps]: "bindE (Inr x) f = f x"
  by (simp_all add: bindE_def)

lemma bindE_eq_Inr: "bindE m f = Inr y \<longleftrightarrow> (\<exists>x. m = Inr x \<and> f x = Inr y)"
  by (cases m) auto

lemma bindE_eq_Inl: "bindE m f = Inl e \<longleftrightarrow> m = Inl e \<or> (\<exists>x. m = Inr x \<and> f x = Inl e)"
  by (cases m) auto

lemma bindE_assoc: "bindE (bindE m f) g = bindE m (\<lambda>x. bindE (f x) g)"
  by (cases m) auto

lemma guardE_eq_Inr [simp]: "guardE b e k = Inr y \<longleftrightarrow> \<not> b \<and> k = Inr y"
  by (simp add: guardE_def)

lemma guardE_False [simp, pysimps]: "guardE False e k = k"
  and guardE_True [simp, pysimps]: "guardE True e k = Inl e"
  by (simp_all add: guardE_def)

text \<open>A Python \<open>a and b and c\<close> over operands that may raise: left to right, stopping at the
  first false or raising operand; \<open>or\<close> dually.\<close>

fun conjE :: "bool res list \<Rightarrow> bool res" where
  "conjE [] = Inr True"
| "conjE (Inl e # bs) = Inl e"
| "conjE (Inr False # bs) = Inr False"
| "conjE (Inr True # bs) = conjE bs"

fun disjE_list :: "bool res list \<Rightarrow> bool res" where
  "disjE_list [] = Inr False"
| "disjE_list (Inl e # bs) = Inl e"
| "disjE_list (Inr True # bs) = Inr True"
| "disjE_list (Inr False # bs) = disjE_list bs"

definition notE :: "bool res \<Rightarrow> bool res" where
  "notE b = (case b of Inl e \<Rightarrow> Inl e | Inr x \<Rightarrow> Inr (\<not> x))"

definition ifE :: "bool res \<Rightarrow> 'a res \<Rightarrow> 'a res \<Rightarrow> 'a res" where
  "ifE b t e = (case b of Inl x \<Rightarrow> Inl x | Inr c \<Rightarrow> (if c then t else e))"

lemma notE_simps [simp, pysimps]: "notE (Inl e) = Inl e" "notE (Inr b) = Inr (\<not> b)"
  by (simp_all add: notE_def)

lemma ifE_simps [simp, pysimps]: "ifE (Inl x) t e = Inl x" "ifE (Inr c) t e = (if c then t else e)"
  by (simp_all add: ifE_def)

lemma conjE_Cons: "conjE (b # bs) = ifE b (conjE bs) (Inr False)"
  by (cases b; cases "projr b") auto

lemma conjE_True [simp]: "conjE bs = Inr True \<longleftrightarrow> (\<forall>b \<in> set bs. b = Inr True)"
proof (induction bs)
  case (Cons b bs)
  then show ?case by (cases b; cases "projr b") auto
qed simp

lemma conjE_append: "conjE (xs @ ys) = ifE (conjE xs) (conjE ys) (Inr False)"
proof (induction xs)
  case (Cons b bs)
  then show ?case by (cases b; cases "projr b") auto
qed simp

lemma ifE_True: "ifE b t e = Inr True \<longleftrightarrow> (b = Inr True \<and> t = Inr True) \<or> (b = Inr False \<and> e = Inr True)"
  by (cases b) auto

lemma disjE_list_False: "disjE_list bs = Inr False \<longleftrightarrow> (\<forall>b \<in> set bs. b = Inr False)"
proof (induction bs)
  case (Cons b bs)
  then show ?case by (cases b; cases "projr b") auto
qed simp

lemma disjE_list_Inr [simp]: "disjE_list (map Inr bs) = Inr (True \<in> set bs)"
proof (induction bs)
  case (Cons b bs)
  then show ?case by (cases b) auto
qed simp

lemma conjE_Inr [simp]: "conjE (map Inr bs) = Inr (False \<notin> set bs)"
proof (induction bs)
  case (Cons b bs)
  then show ?case by (cases b) auto
qed simp

text \<open>\<open>if cond: return False\<close> in front of the rest of a predicate.\<close>

definition rejectE :: "bool res \<Rightarrow> bool res \<Rightarrow> bool res" where
  "rejectE b k = ifE b (Inr False) k"

lemma rejectE_True [simp]: "rejectE b k = Inr True \<longleftrightarrow> b = Inr False \<and> k = Inr True"
  by (cases b) (auto simp: rejectE_def)

lemma rejectE_simps [pysimps]: "rejectE (Inl e) k = Inl e" "rejectE (Inr c) k = (if c then Inr False else k)"
  by (simp_all add: rejectE_def)

lemma notE_eq [simp]: "notE b = Inr c \<longleftrightarrow> b = Inr (\<not> c)"
  by (cases b) auto

text \<open>An operation on a state may raise after it has changed the state: it returns the outcome
  beside the state.  \<open>tryS\<close> runs a pure raising computation first.\<close>

definition tryS :: "'a res \<Rightarrow> 's \<Rightarrow> ('a \<Rightarrow> 'b res \<times> 's) \<Rightarrow> 'b res \<times> 's" where
  "tryS m s k = (case m of Inl e \<Rightarrow> (Inl e, s) | Inr x \<Rightarrow> k x)"

lemma tryS_simps [simp, pysimps]: "tryS (Inl e) s k = (Inl e, s)" "tryS (Inr x) s k = k x"
  by (simp_all add: tryS_def)

text \<open>One operation after another on the same state; a failure keeps the state it happened in.  \<open>catchS\<close> is an
  \<open>except\<close> clause: the handler runs in that state.\<close>

definition andS :: "'a res \<times> 's \<Rightarrow> ('s \<Rightarrow> 'b res \<times> 's) \<Rightarrow> 'b res \<times> 's" where
  "andS m f = (case m of (Inl e, s) \<Rightarrow> (Inl e, s) | (Inr x, s) \<Rightarrow> f s)"

definition catchS :: "(pyexc \<Rightarrow> bool) \<Rightarrow> 'a res \<times> 's \<Rightarrow> (pyexc \<Rightarrow> 's \<Rightarrow> 'a res \<times> 's) \<Rightarrow> 'a res \<times> 's" where
  "catchS P m h = (case m of (Inl e, s) \<Rightarrow> (if P e then h e s else (Inl e, s)) | (Inr x, s) \<Rightarrow> (Inr x, s))"

lemma andS_simps [simp]: "andS (Inl e, s) f = (Inl e, s)" "andS (Inr x, s) f = f s"
  by (simp_all add: andS_def)

lemma catchS_simps [simp]:
  "catchS P (Inl e, s) h = (if P e then h e s else (Inl e, s))" "catchS P (Inr x, s) h = (Inr x, s)"
  by (simp_all add: catchS_def)

lemma andS_Inr: "andS m f = (Inr x, s') \<longleftrightarrow> (\<exists>y s. m = (Inr y, s) \<and> f s = (Inr x, s'))"
  by (auto simp: andS_def split: sum.splits prod.splits)

lemma tryS_Inr: "tryS m s f = (Inr x, s') \<longleftrightarrow> (\<exists>y. m = Inr y \<and> f y = (Inr x, s'))"
  by (cases m) auto

lemma andS_unitE:
  assumes "andS m f = (Inr x, s')"
  obtains s where "m = (Inr (), s)" "f s = (Inr x, s')"
  using assms by (auto simp: andS_Inr)

text \<open>A \<open>for\<close> loop whose body may raise.\<close>

fun foldE :: "('a \<Rightarrow> 's \<Rightarrow> 's res) \<Rightarrow> 'a list \<Rightarrow> 's \<Rightarrow> 's res" where
  "foldE f [] s = Inr s"
| "foldE f (x # xs) s = bindE (f x s) (foldE f xs)"

lemma foldE_append: "foldE f (xs @ ys) s = bindE (foldE f xs s) (foldE f ys)"
  by (induction xs arbitrary: s) (simp_all add: bindE_def split: sum.splits)

lemma foldE_invariant:
  assumes "foldE f xs s = Inr t" and "P s"
    and "\<And>x s s'. x \<in> set xs \<Longrightarrow> P s \<Longrightarrow> f x s = Inr s' \<Longrightarrow> P s'"
  shows "P t"
  using assms
proof (induction xs arbitrary: s)
  case (Cons x xs)
  then obtain s' where s': "f x s = Inr s'" "foldE f xs s' = Inr t"
    by (auto simp: bindE_eq_Inr)
  have "P s'" using Cons.prems(2,3) s'(1) by auto
  then show ?case using Cons.IH [OF s'(2)] Cons.prems(3) by auto
qed simp

text \<open>Which exceptions a computation can raise.\<close>

definition raises_only :: "pyexc set \<Rightarrow> 'a res \<Rightarrow> bool" where
  "raises_only S m \<longleftrightarrow> (\<forall>e. m = Inl e \<longrightarrow> e \<in> S)"

lemma raises_only_Inr [simp]: "raises_only S (Inr x)"
  and raises_only_Inl [simp]: "raises_only S (Inl e) \<longleftrightarrow> e \<in> S"
  by (simp_all add: raises_only_def)

lemma raises_only_bind [intro!]:
  "raises_only S m \<Longrightarrow> (\<And>x. m = Inr x \<Longrightarrow> raises_only S (f x)) \<Longrightarrow> raises_only S (bindE m f)"
  by (cases m) auto

lemma raises_only_guard [intro!]:
  "(b \<Longrightarrow> e \<in> S) \<Longrightarrow> (\<not> b \<Longrightarrow> raises_only S k) \<Longrightarrow> raises_only S (guardE b e k)"
  by (cases b) auto

lemma raises_only_option [intro!]:
  "raises_only S a \<Longrightarrow> (\<And>x. raises_only S (b x)) \<Longrightarrow> raises_only S (case v of None \<Rightarrow> a | Some x \<Rightarrow> b x)"
  by (cases v) auto

lemma raises_only_fold:
  "(\<And>x s. x \<in> set xs \<Longrightarrow> raises_only S (f x s)) \<Longrightarrow> raises_only S (foldE f xs s)"
  by (induction xs arbitrary: s) auto

lemma raises_only_if [intro]: "raises_only S b \<Longrightarrow> raises_only S t \<Longrightarrow> raises_only S e \<Longrightarrow> raises_only S (ifE b t e)"
  by (cases b) auto

lemma raises_only_conj: "(\<And>b. b \<in> set bs \<Longrightarrow> raises_only S b) \<Longrightarrow> raises_only S (conjE bs)"
  by (induction bs) (auto simp: conjE_Cons)

lemma raises_only_disj: "(\<And>b. b \<in> set bs \<Longrightarrow> raises_only S b) \<Longrightarrow> raises_only S (disjE_list bs)"
proof (induction bs)
  case (Cons b bs)
  have "raises_only S b" "raises_only S (disjE_list bs)" using Cons by simp_all
  then show ?case by (cases b; cases "projr b") auto
qed simp

lemma raises_only_not [simp]: "raises_only S (notE b) = raises_only S b"
  by (cases b) auto

lemma raises_only_mono: "raises_only S m \<Longrightarrow> S \<subseteq> T \<Longrightarrow> raises_only T m"
  by (auto simp: raises_only_def)

section \<open>Character classes and full-match patterns\<close>

definition is_digit :: "char \<Rightarrow> bool" where
  "is_digit c \<longleftrightarrow> 48 \<le> (of_char c :: nat) \<and> (of_char c :: nat) \<le> 57"

definition is_hex :: "char \<Rightarrow> bool" where
  "is_hex c \<longleftrightarrow> is_digit c \<or> (97 \<le> (of_char c :: nat) \<and> (of_char c :: nat) \<le> 102)"

definition is_lower :: "char \<Rightarrow> bool" where
  "is_lower c \<longleftrightarrow> 97 \<le> (of_char c :: nat) \<and> (of_char c :: nat) \<le> 122"

definition is_upper :: "char \<Rightarrow> bool" where
  "is_upper c \<longleftrightarrow> 65 \<le> (of_char c :: nat) \<and> (of_char c :: nat) \<le> 90"

definition is_alnum :: "char \<Rightarrow> bool" where
  "is_alnum c \<longleftrightarrow> is_digit c \<or> is_lower c \<or> is_upper c"

text \<open>\<open>match_classes ps s\<close>: \<open>s\<close> has one character per class of \<open>ps\<close>, in order.\<close>

fun match_classes :: "(char \<Rightarrow> bool) list \<Rightarrow> string \<Rightarrow> bool" where
  "match_classes [] s = (s = [])"
| "match_classes (p # ps) [] = False"
| "match_classes (p # ps) (c # s) = (p c \<and> match_classes ps s)"

lemma match_classes_iff:
  "match_classes ps s \<longleftrightarrow> list_all2 (\<lambda>p c. p c) ps s"
  by (induction ps s rule: match_classes.induct) auto

lemma match_classes_length: "match_classes ps s \<Longrightarrow> length s = length ps"
  by (simp add: match_classes_iff list_all2_lengthD)

text \<open>\<open>hex_n n\<close> is the pattern \<open>[0-9a-f]{n}\<close>.\<close>

definition hex_n :: "nat \<Rightarrow> string \<Rightarrow> bool" where
  "hex_n n s \<longleftrightarrow> length s = n \<and> list_all is_hex s"

text \<open>The lower-case hexadecimal UUID patterns of the code: \<open>uuid_shape\<close> is the canonical
  8-4-4-4-12 form, \<open>uuid_v7\<close> and \<open>uuid_v4\<close> fix the version digit and the variant.\<close>

definition uuid_classes :: "(char \<Rightarrow> bool) \<Rightarrow> (char \<Rightarrow> bool) \<Rightarrow> (char \<Rightarrow> bool) list" where
  "uuid_classes version variant =
     replicate 8 is_hex @ [(=) (CHR ''-'')] @ replicate 4 is_hex @ [(=) (CHR ''-'')] @
     [version] @ replicate 3 is_hex @ [(=) (CHR ''-'')] @ [variant] @ replicate 3 is_hex @
     [(=) (CHR ''-'')] @ replicate 12 is_hex"

definition is_variant_char :: "char \<Rightarrow> bool" where
  "is_variant_char c \<longleftrightarrow> c \<in> {CHR ''8'', CHR ''9'', CHR ''a'', CHR ''b''}"

definition uuid_v7 :: "string \<Rightarrow> bool" where
  "uuid_v7 s = match_classes (uuid_classes ((=) (CHR ''7'')) is_variant_char) s"

definition uuid_v4 :: "string \<Rightarrow> bool" where
  "uuid_v4 s = match_classes (uuid_classes ((=) (CHR ''4'')) is_variant_char) s"

definition uuid_shape :: "string \<Rightarrow> bool" where
  "uuid_shape s = match_classes (uuid_classes is_hex is_hex) s"

lemma match_classes_mono:
  assumes "match_classes ps s" and "list_all2 (\<lambda>p q. \<forall>c. p c \<longrightarrow> q c) ps qs"
  shows "match_classes qs s"
  using assms
proof (induction ps s arbitrary: qs rule: match_classes.induct)
  case (3 p ps c s)
  then show ?case by (cases qs) auto
qed (auto simp: list_all2_Cons1)

lemma uuid_v4_shape: "uuid_v4 s \<Longrightarrow> uuid_shape s"
  unfolding uuid_v4_def uuid_shape_def
  by (erule match_classes_mono)
     (auto simp: uuid_classes_def is_variant_char_def is_hex_def is_digit_def eval_nat_numeral)

section \<open>Decimal text of an integer\<close>

fun nat_digits :: "nat \<Rightarrow> string" where
  "nat_digits n = (if n < 10 then [char_of (48 + n)] else nat_digits (n div 10) @ [char_of (48 + n mod 10)])"

declare nat_digits.simps [simp del]

definition int_text :: "int \<Rightarrow> string" where
  "int_text i = (if i < 0 then CHR ''-'' # nat_digits (nat (- i)) else nat_digits (nat i))"

lemma is_digit_of_nat: "k < 10 \<Longrightarrow> is_digit (char_of (48 + k :: nat))"
  by (simp add: is_digit_def)

lemma nat_digits_digits: "list_all is_digit (nat_digits n)"
proof (induction n rule: nat_digits.induct)
  case (1 n)
  then show ?case
    by (cases "n < 10") (subst nat_digits.simps, simp add: is_digit_of_nat)+
qed

lemma nat_digits_nonempty [simp]: "nat_digits n \<noteq> []"
  by (subst nat_digits.simps) simp

text \<open>\<open>int(text)\<close> on a string of ASCII digits.\<close>

fun digits_value_from :: "nat \<Rightarrow> string \<Rightarrow> nat" where
  "digits_value_from acc [] = acc"
| "digits_value_from acc (c # s) = digits_value_from (10 * acc + (of_char c - 48)) s"

definition digits_value :: "string \<Rightarrow> nat" where
  "digits_value s = digits_value_from 0 s"

lemma digits_value_from_append:
  "digits_value_from acc (s @ t) = digits_value_from (digits_value_from acc s) t"
  by (induction s arbitrary: acc) auto

lemma digits_value_nat_digits [simp]: "digits_value (nat_digits n) = n"
proof (induction n rule: nat_digits.induct)
  case (1 n)
  show ?case
  proof (cases "n < 10")
    case True
    then show ?thesis by (subst nat_digits.simps) (simp add: digits_value_def)
  next
    case False
    then have "digits_value (nat_digits (n div 10)) = n div 10" using 1 by simp
    with False show ?thesis
      by (subst nat_digits.simps) (simp add: digits_value_def digits_value_from_append)
  qed
qed

text \<open>\<open>str.split(sep)\<close> on one character and \<open>str.endswith\<close>.\<close>

fun split_on :: "char \<Rightarrow> string \<Rightarrow> string list" where
  "split_on sep [] = [[]]"
| "split_on sep (c # s) =
     (if c = sep then [] # split_on sep s
      else (case split_on sep s of p # ps \<Rightarrow> (c # p) # ps | [] \<Rightarrow> [[c]]))"

definition ends_with :: "string \<Rightarrow> string \<Rightarrow> bool" where
  "ends_with s t \<longleftrightarrow> length t \<le> length s \<and> drop (length s - length t) s = t"

section \<open>Association lists: Python dictionaries\<close>

text \<open>\<open>d[k] = v\<close> keeps the position of an existing key and appends a new one
  (\<open>AList.update\<close>); \<open>d.pop(k, None)\<close> is \<open>AList.delete\<close>.\<close>

lemma map_of_update [simp]: "map_of (AList.update k v d) = (map_of d)(k \<mapsto> v)"
  by (rule update_conv')

lemma map_of_delete [simp]: "map_of (AList.delete k d) = (map_of d)(k := None)"
  by (rule delete_conv')

lemma keys_update: "set (map fst (AList.update k v d)) = insert k (set (map fst d))"
  by (simp add: dom_update flip: dom_map_of_conv_image_fst) 

lemma keys_delete: "set (map fst (AList.delete k d)) = set (map fst d) - {k}"
  by (simp add: delete_keys)

lemma set_update_subset: "set (AList.update k v d) \<subseteq> insert (k, v) (set d)"
  by (induction d) auto

end
