(* ===== verification/PyJson.thy ===== *)
theory PyJson
  imports Prelude Complex_Main
begin

text \<open>
  The Python values that reach the code from JSON documents: the argument of every function
  the code types as \<open>object\<close> or \<open>Mapping[str, object]\<close>.  A \<open>dict\<close> is an association list
  (insertion order; keys are distinct in a value that comes from Python), a \<open>str\<close> is its UTF-8
  byte list, a \<open>float\<close> is an exact rational, an infinity or a NaN, and \<open>bool\<close> is separate from
  \<open>int\<close>: \<open>type(x) is int\<close> is the constructor \<open>JInt\<close>, \<open>isinstance(x, int)\<close> also admits
  \<open>JBool\<close>.
\<close>

datatype pyfloat = Fin rat | PInf | NInf | NaN

datatype json =
    JNull
  | JBool bool
  | JInt int
  | JFloat pyfloat
  | JStr string
  | JList "json list"
  | JObj "(string \<times> json) list"

type_synonym jobject = "(string \<times> json) list"

text \<open>The elements of a list and the values of a dictionary are smaller than it, for the functions
  that walk a whole document.\<close>

lemma size_json_list [termination_simp]: "x \<in> set xs \<Longrightarrow> size x < Suc (size_list size xs)"
  by (induction xs) auto

lemma size_json_object [termination_simp]:
  "(k, v) \<in> set d \<Longrightarrow> size v < Suc (size_list (size_prod (\<lambda>x. 0) size) d)"
  by (induction d) auto

section \<open>Reading a value\<close>

text \<open>\<open>dict.get(key)\<close>: \<open>None\<close> of Python is \<open>JNull\<close>.\<close>

definition jget :: "jobject \<Rightarrow> string \<Rightarrow> json" where
  "jget d k = (case map_of d k of None \<Rightarrow> JNull | Some v \<Rightarrow> v)"

text \<open>\<open>d[key]\<close>: raises when the key is missing.\<close>

definition jitem :: "jobject \<Rightarrow> string \<Rightarrow> json res" where
  "jitem d k = (case map_of d k of None \<Rightarrow> Inl KeyError | Some v \<Rightarrow> Inr v)"

definition has_keys :: "jobject \<Rightarrow> string list \<Rightarrow> bool" where
  "has_keys d ks \<longleftrightarrow> set (map fst d) = set ks"

fun as_obj :: "json \<Rightarrow> jobject option" where
  "as_obj (JObj d) = Some d"
| "as_obj _ = None"

fun is_obj :: "json \<Rightarrow> bool" where
  "is_obj (JObj d) = True"
| "is_obj _ = False"

fun is_str :: "json \<Rightarrow> bool" where
  "is_str (JStr s) = True"
| "is_str _ = False"

fun is_nonempty_str :: "json \<Rightarrow> bool" where
  "is_nonempty_str (JStr s) = (s \<noteq> [])"
| "is_nonempty_str _ = False"

fun is_int :: "json \<Rightarrow> bool" where
  "is_int (JInt i) = True"
| "is_int _ = False"

fun is_bool :: "json \<Rightarrow> bool" where
  "is_bool (JBool b) = True"
| "is_bool _ = False"

fun int_in :: "json \<Rightarrow> (int \<Rightarrow> bool) \<Rightarrow> bool" where
  "int_in (JInt i) p = p i"
| "int_in _ p = False"

fun str_in :: "json \<Rightarrow> (string \<Rightarrow> bool) \<Rightarrow> bool" where
  "str_in (JStr s) p = p s"
| "str_in _ p = False"

text \<open>\<open>value == text\<close> and \<open>value == number\<close>; Python identifies \<open>10\<close>, \<open>10.0\<close> and, for 0 and 1,
  the booleans.\<close>

definition eq_str :: "json \<Rightarrow> string \<Rightarrow> bool" where
  "eq_str v s \<longleftrightarrow> v = JStr s"

fun eq_num :: "json \<Rightarrow> int \<Rightarrow> bool" where
  "eq_num (JInt i) n = (i = n)"
| "eq_num (JFloat (Fin r)) n = (r = of_int n)"
| "eq_num (JBool b) n = ((if b then 1 else 0) = n)"
| "eq_num _ n = False"

text \<open>\<open>isinstance(value, (int, float)) and not isinstance(value, bool)\<close> with a range test;
  comparisons with a NaN are false.\<close>

fun num_between :: "rat \<Rightarrow> json \<Rightarrow> rat \<Rightarrow> bool" where
  "num_between lo (JInt i) hi = (lo \<le> of_int i \<and> of_int i \<le> hi)"
| "num_between lo (JFloat (Fin r)) hi = (lo \<le> r \<and> r \<le> hi)"
| "num_between lo _ hi = False"

text \<open>\<open>value in {"a", "b"}\<close> on a set literal: a list or a dict is unhashable and raises.\<close>

fun unhashable :: "json \<Rightarrow> bool" where
  "unhashable (JList xs) = True"
| "unhashable (JObj d) = True"
| "unhashable _ = False"

definition in_strs :: "json \<Rightarrow> string list \<Rightarrow> bool" where
  "in_strs v ss \<longleftrightarrow> (\<exists>s \<in> set ss. v = JStr s)"

definition in_set :: "json \<Rightarrow> string list \<Rightarrow> bool res" where
  "in_set v ss = (if unhashable v then Inl TypeError else Inr (in_strs v ss))"

lemma in_set_True: "in_set v ss = Inr True \<longleftrightarrow> (\<exists>s \<in> set ss. v = JStr s)"
  by (auto simp: in_set_def in_strs_def)

lemma in_set_JStr [simp]: "in_set (JStr s) ss = Inr (s \<in> set ss)"
  by (auto simp: in_set_def in_strs_def)

lemma in_set_total: "\<not> unhashable v \<Longrightarrow> in_set v ss = Inr (in_strs v ss)"
  by (simp add: in_set_def)

section \<open>Writing a value\<close>

definition jset :: "string \<Rightarrow> json \<Rightarrow> jobject \<Rightarrow> jobject" where
  "jset k v d = AList.update k v d"

definition jpop :: "string \<Rightarrow> jobject \<Rightarrow> jobject" where
  "jpop k d = AList.delete k d"

lemma jget_jset [simp]: "jget (jset k v d) k' = (if k' = k then v else jget d k')"
  by (simp add: jget_def jset_def)

lemma jget_jpop [simp]: "jget (jpop k d) k' = (if k' = k then JNull else jget d k')"
  by (simp add: jget_def jpop_def)

lemma map_of_jset [simp]: "map_of (jset k v d) = (map_of d)(k \<mapsto> v)"
  by (simp add: jset_def)

lemma map_of_jpop [simp]: "map_of (jpop k d) = (map_of d)(k := None)"
  by (simp add: jpop_def)

lemma keys_jset [simp]: "set (map fst (jset k v d)) = insert k (set (map fst d))"
  unfolding jset_def by (rule keys_update)

lemma keys_jpop [simp]: "set (map fst (jpop k d)) = set (map fst d) - {k}"
  unfolding jpop_def by (rule keys_delete)

lemma fst_image_jset [simp]: "fst ` set (jset k v d) = insert k (fst ` set d)"
  using keys_jset [of k v d] by simp

lemma fst_image_jpop [simp]: "fst ` set (jpop k d) = fst ` set d - {k}"
  using keys_jpop [of k d] by simp

lemma set_jset_subset: "set (jset k v d) \<subseteq> insert (k, v) (set d)"
  unfolding jset_def by (induction d) auto

lemma set_jpop_subset: "set (jpop k d) \<subseteq> set d"
  unfolding jpop_def by (auto simp: AList.delete_eq)

lemma jget_Cons [simp]: "jget ((k, v) # d) k' = (if k' = k then v else jget d k')"
  by (simp add: jget_def)

lemma jget_Nil [simp]: "jget [] k = JNull"
  by (simp add: jget_def)

lemma jget_in_set: "jget d k \<noteq> JNull \<Longrightarrow> (k, jget d k) \<in> set d"
  by (auto simp: jget_def map_of_SomeD split: option.splits)

lemma has_keys_jset [simp]: "k \<in> set ks \<Longrightarrow> has_keys d ks \<Longrightarrow> has_keys (jset k v d) ks"
  by (auto simp: has_keys_def)

lemma has_keys_map_of: "has_keys d ks \<Longrightarrow> k \<in> set ks \<Longrightarrow> map_of d k = Some (jget d k)"
  by (cases "map_of d k") (auto simp: has_keys_def jget_def map_of_eq_None_iff)

lemma jitem_has_keys: "has_keys d ks \<Longrightarrow> k \<in> set ks \<Longrightarrow> jitem d k = Inr (jget d k)"
  by (simp add: jitem_def has_keys_map_of)

section \<open>Python equality of JSON values\<close>

text \<open>Dictionaries compare without their order; numbers compare across types.\<close>

fun num_value :: "json \<Rightarrow> rat option" where
  "num_value (JInt i) = Some (of_int i)"
| "num_value (JBool b) = Some (if b then 1 else 0)"
| "num_value (JFloat (Fin r)) = Some r"
| "num_value _ = None"

definition scalar_eq :: "json \<Rightarrow> json \<Rightarrow> bool" where
  "scalar_eq v w =
     (case (num_value v, num_value w) of
        (Some a, Some b) \<Rightarrow> a = b
      | (None, None) \<Rightarrow> v = w \<and> v \<noteq> JFloat NaN
      | _ \<Rightarrow> False)"

function (sequential) py_eq :: "json \<Rightarrow> json \<Rightarrow> bool" where
  "py_eq (JList xs) w =
     (case w of
        JList ys \<Rightarrow> length xs = length ys \<and> list_all (\<lambda>(x, y). py_eq x y) (zip xs ys)
      | _ \<Rightarrow> False)"
| "py_eq (JObj xs) w =
     (case w of
        JObj ys \<Rightarrow> set (map fst xs) = set (map fst ys) \<and>
          list_all (\<lambda>(k, v). case map_of ys k of None \<Rightarrow> False | Some u \<Rightarrow> py_eq v u) xs
      | _ \<Rightarrow> False)"
| "py_eq v w = scalar_eq v w"
  by pat_completeness auto
termination
  by (relation "measure (\<lambda>(v, w). size v)")
     (auto simp: size_json_object dest!: set_zip_leftD intro: size_json_list)

section \<open>Text\<close>

text \<open>\<open>len(text)\<close> counts code points: the bytes that do not continue a UTF-8 sequence.\<close>

definition is_continuation :: "char \<Rightarrow> bool" where
  "is_continuation c \<longleftrightarrow> 128 \<le> (of_char c :: nat) \<and> (of_char c :: nat) < 192"

definition py_len :: "string \<Rightarrow> nat" where
  "py_len s = length (filter (\<lambda>c. \<not> is_continuation c) s)"

lemma py_len_le: "py_len s \<le> length s"
  by (simp add: py_len_def)

text \<open>\<open>str.casefold\<close>, exact on every string whose folding is ASCII: the ASCII capitals and the
  eleven non-ASCII characters of Unicode that fold to ASCII letters, as UTF-8.\<close>

definition ascii_foldings :: "(nat list \<times> string) list" where
  "ascii_foldings =
     [([0xC5, 0xBF], ''s''), ([0xC3, 0x9F], ''ss''), ([0xE2, 0x84, 0xAA], ''k''),
      ([0xE1, 0xBA, 0x9E], ''ss''), ([0xEF, 0xAC, 0x80], ''ff''), ([0xEF, 0xAC, 0x81], ''fi''),
      ([0xEF, 0xAC, 0x82], ''fl''), ([0xEF, 0xAC, 0x83], ''ffi''), ([0xEF, 0xAC, 0x84], ''ffl''),
      ([0xEF, 0xAC, 0x85], ''st''), ([0xEF, 0xAC, 0x86], ''st'')]"

fun casefold :: "string \<Rightarrow> string" where
  "casefold [] = []"
| "casefold (c # s) =
     (case find (\<lambda>(p, r). take (length p) (map of_char (c # s)) = p) ascii_foldings of
        Some (p, r) \<Rightarrow> r @ casefold (drop (length p - 1) s)
      | None \<Rightarrow> (if is_upper c then char_of (of_char c + 32 :: nat) else c) # casefold s)"

end
