(* ===== verification/Persistence.thy ===== *)
theory Persistence
  imports PyJson "HOL-Library.List_Lexorder" "HOL-Library.Char_ord"
begin

text \<open>
  The document half of \<open>persistence.py\<close>: class \<open>StateDatabase\<close>, its tables \<open>documents\<close>,
  \<open>imports\<close> and \<open>changes\<close>, and the operations that read and write named documents.  SQLite
  itself is a library: a transaction is all or nothing, so an operation either returns the new
  tables or raises and leaves them as they were.  The stored text of a document is
  \<open>json.dumps(value, sort_keys=True)\<close>, which the model keeps as the value with the keys of
  every object sorted (\<open>canon\<close>); equality of texts is equality of these values.
  \<open>json.loads\<close> of a stored text returns exactly that value.
\<close>

section \<open>Canonical JSON\<close>

fun canon :: "json \<Rightarrow> json" where
  "canon (JList xs) = JList (map canon xs)"
| "canon (JObj d) = JObj (sort_key fst (map (\<lambda>(k, v). (k, canon v)) d))"
| "canon v = v"

definition canon_obj :: "jobject \<Rightarrow> jobject" where
  "canon_obj d = sort_key fst (map (\<lambda>(k, v). (k, canon v)) d)"

lemma canon_JObj [simp]: "canon (JObj d) = JObj (canon_obj d)"
  by (simp add: canon_obj_def)

declare canon.simps(2) [simp del]

lemma map_of_filter_key: "map_of (filter (\<lambda>x. fst x = k) d) k = map_of d k"
  by (induction d) auto

lemma map_of_sort_key: "map_of (sort_key fst d) k = map_of d k"
proof -
  have "filter (\<lambda>x. fst x = k) (sort_key fst d) = filter (\<lambda>x. fst x = k) d"
    by (rule sort_key_stable)
  then show ?thesis by (metis map_of_filter_key)
qed

lemma map_of_canon_obj: "map_of (canon_obj d) k = map_option canon (map_of d k)"
  by (simp add: canon_obj_def map_of_sort_key map_of_map)

lemma jget_canon_obj [simp]: "jget (canon_obj d) k = canon (jget d k)"
  by (simp add: jget_def map_of_canon_obj split: option.splits)

lemma set_canon_obj: "set (canon_obj d) = (\<lambda>(k, v). (k, canon v)) ` set d"
  by (simp add: canon_obj_def)

lemma keys_canon_obj [simp]: "fst ` set (canon_obj d) = fst ` set d"
  by (force simp: set_canon_obj image_image)

lemma has_keys_canon_obj [simp]: "has_keys (canon_obj d) ks = has_keys d ks"
  by (simp add: has_keys_def)

lemma canon_obj_Nil [simp]: "canon_obj d = [] \<longleftrightarrow> d = []" "[] = canon_obj d \<longleftrightarrow> d = []"
proof -
  have "length (canon_obj d) = length d" by (simp add: canon_obj_def)
  then show "canon_obj d = [] \<longleftrightarrow> d = []" "[] = canon_obj d \<longleftrightarrow> d = []" by auto
qed

text \<open>A scalar is its own canonical form, and the type of a value is kept.\<close>

lemma canon_scalar [simp]:
  "canon v = JNull \<longleftrightarrow> v = JNull" "canon v = JStr s \<longleftrightarrow> v = JStr s"
  "canon v = JInt i \<longleftrightarrow> v = JInt i" "canon v = JBool b \<longleftrightarrow> v = JBool b"
  by (cases v; simp)+

lemma canon_tests [simp]:
  "is_obj (canon v) = is_obj v" "is_str (canon v) = is_str v" "is_int (canon v) = is_int v"
  "is_bool (canon v) = is_bool v" "is_nonempty_str (canon v) = is_nonempty_str v"
  "int_in (canon v) p = int_in v p" "str_in (canon v) q = str_in v q"
  "unhashable (canon v) = unhashable v" "num_between lo (canon v) hi = num_between lo v hi"
  "eq_num (canon v) n = eq_num v n" "eq_str (canon v) s = eq_str v s"
  by (cases v; simp add: eq_str_def)+

lemma canon_in_strs [simp]: "in_strs (canon v) ss = in_strs v ss"
  by (simp add: in_strs_def)

lemma canon_in_set [simp]: "in_set (canon v) ss = in_set v ss"
  by (simp add: in_set_def)

lemma canon_is_JObj: "canon v = JObj e \<longleftrightarrow> (\<exists>d. v = JObj d \<and> e = canon_obj d)"
  by (cases v) auto

lemma sorted_keys_canon_obj: "sorted (map fst (canon_obj d))"
  by (simp add: canon_obj_def)

lemma canon_obj_idem:
  assumes "\<And>k v. (k, v) \<in> set d \<Longrightarrow> canon (canon v) = canon v"
  shows "canon_obj (canon_obj d) = canon_obj d"
proof -
  have "map (\<lambda>(k, v). (k, canon v)) (canon_obj d) = canon_obj d"
    using assms by (auto simp: set_canon_obj intro!: map_idI)
  moreover have "sort_key fst (canon_obj d) = canon_obj d"
    by (rule sort_key_id_if_sorted) (rule sorted_keys_canon_obj)
  ultimately show ?thesis by (metis canon_obj_def)
qed

lemma canon_idem [simp]: "canon (canon v) = canon v"
proof (induction v rule: canon.induct)
  case (2 d)
  then show ?case by (auto intro!: canon_obj_idem)
qed auto

text \<open>A value with distinct keys and no NaN equals its canonical form in the sense of Python.\<close>

fun plain :: "json \<Rightarrow> bool" where
  "plain (JFloat x) = (x \<noteq> NaN)"
| "plain (JList xs) = list_all plain xs"
| "plain (JObj d) = (distinct (map fst d) \<and> list_all (\<lambda>(k, v). plain v) d)"
| "plain _ = True"

lemma py_eq_canon: "plain v \<Longrightarrow> py_eq (canon v) v"
proof (induction v rule: plain.induct)
  case (2 xs)
  then have "\<forall>x \<in> set xs. py_eq (canon x) x" by (simp add: list_all_iff)
  then show ?case by (auto simp: list_all_iff zip_map1 zip_same_conv_map)
next
  case (3 d)
  then have d: "distinct (map fst d)" and eq: "\<And>k v. (k, v) \<in> set d \<Longrightarrow> py_eq (canon v) v"
    by (auto simp: list_all_iff)
  have "map_of d k = Some v" if "(k, v) \<in> set d" for k v using d that by simp
  with eq show ?case by (force simp: list_all_iff set_canon_obj)
qed (auto simp: scalar_eq_def split: option.splits)

section \<open>The tables\<close>

record document =
  body :: json
  revision :: int
  updated_at :: string

record database =
  documents :: "string \<rightharpoonup> document"
  import_receipts :: "string \<rightharpoonup> string"
  changes :: "(string \<times> int \<times> json \<times> string) list"

definition persistence_error :: pyexc where
  "persistence_error = AppError ''PersistenceError'' '''' False"

definition empty_database :: database where
  "empty_database = \<lparr>documents = Map.empty, import_receipts = Map.empty, changes = []\<rparr>"

text \<open>\<open>initialize_document\<close>: bootstrap defaults, once, with the migration receipt.\<close>

definition initialize_document ::
  "string \<Rightarrow> json \<Rightarrow> string \<Rightarrow> string \<Rightarrow> database \<Rightarrow> database res" where
  "initialize_document name value source now db =
     (if documents db name \<noteq> None then Inr db
      else guardE (import_receipts db name \<noteq> None) persistence_error
        (Inr (db\<lparr>documents := (documents db)(name \<mapsto> \<lparr>body = canon value, revision = 1, updated_at = now\<rparr>),
                 import_receipts := (import_receipts db)(name \<mapsto> source),
                 changes := changes db @ [(name, 1, canon value, now)]\<rparr>)))"

text \<open>\<open>update\<close>: serialised read, transform, write, with its audit record.\<close>

definition db_update ::
  "string \<Rightarrow> (json \<Rightarrow> json res) \<Rightarrow> string \<Rightarrow> database \<Rightarrow> database res" where
  "db_update name transform now db =
     (case documents db name of
        None \<Rightarrow> Inl persistence_error
      | Some old \<Rightarrow> bindE (transform (body old)) (\<lambda>value.
          (if canon value = body old then Inr db
           else Inr (db\<lparr>documents := (documents db)(name \<mapsto>
                          \<lparr>body = canon value, revision = revision old + 1, updated_at = now\<rparr>),
                        changes := changes db @ [(name, revision old + 1, canon value, now)]\<rparr>))))"

text \<open>\<open>get\<close>: a stored document that is not an object is refused.\<close>

definition db_get :: "string \<Rightarrow> database \<Rightarrow> json option res" where
  "db_get name db =
     (case documents db name of
        None \<Rightarrow> Inr None
      | Some row \<Rightarrow> guardE (\<not> is_obj (body row)) persistence_error (Inr (Some (body row))))"

text \<open>\<open>_put_document\<close> and \<open>put\<close>: a document that was imported and is gone is never recreated; an
  unchanged text does not move the revision.\<close>

definition put_document ::
  "string \<Rightarrow> json \<Rightarrow> string \<Rightarrow> bool \<Rightarrow> database \<Rightarrow> database res" where
  "put_document name text now history db =
     (let old = documents db name in
      guardE (old = None \<and> import_receipts db name \<noteq> None) persistence_error
       (if (case old of Some row \<Rightarrow> body row = text | None \<Rightarrow> False) then Inr db
        else
         (let rev = (case old of None \<Rightarrow> 1 | Some row \<Rightarrow> revision row + 1) in
          Inr (db\<lparr>documents := (documents db)(name \<mapsto> \<lparr>body = text, revision = rev, updated_at = now\<rparr>),
                  changes := (if history then changes db @ [(name, rev, text, now)] else changes db)\<rparr>))))"

definition db_put :: "string \<Rightarrow> json \<Rightarrow> string \<Rightarrow> bool \<Rightarrow> database \<Rightarrow> database res" where
  "db_put name value now history db = put_document name (canon value) now history db"

text \<open>\<open>import_json\<close>: the first state and its receipt, together.  \<open>source\<close> is the parsed legacy
  file when it exists, \<open>default\<close> the factory's value.\<close>

definition import_json ::
  "string \<Rightarrow> json option \<Rightarrow> string \<Rightarrow> json \<Rightarrow> (json \<Rightarrow> unit res) \<Rightarrow> string \<Rightarrow> database
     \<Rightarrow> (json \<times> database) res" where
  "import_json name source source_path fallback validate now db =
     (case documents db name of
        Some row \<Rightarrow> Inr (body row, db)
      | None \<Rightarrow>
          guardE (import_receipts db name \<noteq> None) persistence_error
           (let value = (case source of Some v \<Rightarrow> v | None \<Rightarrow> fallback) in
            guardE (\<not> is_obj value) persistence_error
             (bindE (validate value) (\<lambda>_.
               Inr (value, db\<lparr>documents := (documents db)(name \<mapsto>
                                 \<lparr>body = canon value, revision = 1, updated_at = now\<rparr>),
                              import_receipts := (import_receipts db)(name \<mapsto> source_path)\<rparr>)))))"

section \<open>What the operations promise\<close>

lemma db_get_after_put:
  assumes "db_put name (JObj d) now history db = Inr db'"
  shows "db_get name db' = Inr (Some (JObj (canon_obj d)))"
  using assms by (auto simp: db_put_def put_document_def db_get_def Let_def split: if_splits option.splits)

lemma db_put_frame:
  assumes "db_put name v now history db = Inr db'" and "other \<noteq> name"
  shows "documents db' other = documents db other"
  using assms by (auto simp: db_put_def put_document_def Let_def split: if_splits option.splits)

lemma db_put_imports: "db_put name v now history db = Inr db' \<Longrightarrow> import_receipts db' = import_receipts db"
  by (auto simp: db_put_def put_document_def Let_def split: if_splits option.splits)

lemma db_put_total:
  "documents db name \<noteq> None \<or> import_receipts db name = None \<Longrightarrow> \<exists>db'. db_put name v now history db = Inr db'"
  by (auto simp: db_put_def put_document_def Let_def)

text \<open>The contract a component relies on that keeps one object document: what is read back after a
  write, and that a document that can be read can be written.\<close>

locale document_store =
  fixes put :: "jobject \<Rightarrow> 'db \<Rightarrow> 'db res"
    and get :: "'db \<Rightarrow> json option res"
  assumes get_put: "put d s = Inr s' \<Longrightarrow> get s' = Inr (Some (JObj (canon_obj d)))"
    and put_total: "get s = Inr (Some v) \<Longrightarrow> \<exists>s'. put d s = Inr s'"
begin

lemma write_read_cycle:
  assumes "get s = Inr (Some v)"
  obtains s' where "put d s = Inr s'" and "get s' = Inr (Some (JObj (canon_obj d)))"
  using put_total [OF assms] get_put by blast

lemma rewrite_is_last_write:
  assumes "get s = Inr (Some v)" and "put d s = Inr s'" and "put e s' = Inr s''"
  shows "get s'' = Inr (Some (JObj (canon_obj e)))"
  using assms get_put by blast

lemma read_has_sorted_keys:
  assumes "put d s = Inr s'" and "get s' = Inr (Some (JObj e))"
  shows "sorted (map fst e)"
  using get_put [OF assms(1)] assms(2) by (simp add: sorted_keys_canon_obj)

end

interpretation state_documents:
  document_store "\<lambda>d. db_put name (JObj d) now history" "db_get name" for name now history
proof unfold_locales
  fix d s s'
  assume "db_put name (JObj d) now history s = Inr s'"
  then show "db_get name s' = Inr (Some (JObj (canon_obj d)))" by (rule db_get_after_put)
next
  fix s v d
  assume "db_get name s = Inr (Some v)"
  then have "documents s name \<noteq> None" by (auto simp: db_get_def split: option.splits)
  then show "\<exists>s'. db_put name (JObj d) now history s = Inr s'" by (intro db_put_total) simp
qed

text \<open>The audit invariant: the journal of a name that is only written with \<open>history\<close> (or through
  \<open>initialize_document\<close> and \<open>update\<close>) lists its revisions 1, 2, ..., and ends with the stored
  row.\<close>

definition journal :: "string \<Rightarrow> database \<Rightarrow> (int \<times> json) list" where
  "journal name db = map (\<lambda>(n, r, b, t). (r, b)) (filter (\<lambda>(n, r, b, t). n = name) (changes db))"

definition audited :: "string \<Rightarrow> database \<Rightarrow> bool" where
  "audited name db \<longleftrightarrow>
     (let js = journal name db in
      map fst js = map int [1..<Suc (length js)] \<and>
      (case documents db name of
         None \<Rightarrow> js = []
       | Some row \<Rightarrow> js \<noteq> [] \<and> last js = (revision row, body row)))"

lemma journal_snoc_same: "journal name (db\<lparr>changes := changes db @ [(name, r, b, t)]\<rparr>) = journal name db @ [(r, b)]"
  by (simp add: journal_def)

lemma audited_extend:
  assumes "audited name db"
    and "r = (case documents db name of None \<Rightarrow> 1 | Some row \<Rightarrow> revision row + 1)"
  shows "audited name (db\<lparr>documents := (documents db)(name \<mapsto> \<lparr>body = b, revision = r, updated_at = now\<rparr>),
                          changes := changes db @ [(name, r, b, now)]\<rparr>)"
proof -
  let ?js = "journal name db"
  have m: "map fst ?js = map int [1..<Suc (length ?js)]" using assms(1) by (simp add: audited_def Let_def)
  have r: "r = int (Suc (length ?js))"
  proof (cases "documents db name")
    case None
    then show ?thesis using assms by (simp add: audited_def Let_def)
  next
    case (Some row)
    then have ne: "?js \<noteq> []" and l: "last ?js = (revision row, body row)"
      using assms(1) by (auto simp: audited_def Let_def)
    have "revision row = last (map fst ?js)" using ne l by (simp add: last_map)
    also have "\<dots> = int (length ?js)" unfolding m using ne by (cases "length ?js") auto
    finally show ?thesis using assms(2) Some by simp
  qed
  have j: "journal name (db\<lparr>documents := (documents db)(name \<mapsto> \<lparr>body = b, revision = r, updated_at = now\<rparr>),
      changes := changes db @ [(name, r, b, now)]\<rparr>) = ?js @ [(r, b)]"
    by (simp add: journal_def)
  show ?thesis unfolding audited_def Let_def j using m r by simp
qed

lemma audited_initialize:
  assumes "initialize_document name value source now db = Inr db'" and "audited name db"
  shows "audited name db'"
  using assms audited_extend [OF assms(2), of 1 "canon value" now]
  by (auto simp: initialize_document_def guardE_def audited_def journal_def Let_def
      split: if_splits option.splits)

lemma audited_put:
  assumes "db_put name value now True db = Inr db'" and "audited name db"
  shows "audited name db'"
  using assms audited_extend [OF assms(2) refl, of "canon value" now]
  by (auto simp: db_put_def put_document_def guardE_def Let_def split: if_splits)

lemma audited_update:
  assumes "db_update name transform now db = Inr db'" and "audited name db"
  shows "audited name db'"
  using assms audited_extend [OF assms(2) refl, of _ now]
  by (auto simp: db_update_def bindE_eq_Inr split: if_splits option.splits)

end
