(* ===== verification/NetworkState.thy ===== *)
theory NetworkState
  imports Persistence
begin

text \<open>
  \<open>network_state.py\<close>: the durable authority over privileged network changes.  One document,
  \<open>controller\<close>, of the state database holds the desired state, the current and the latest
  transaction, the idempotency receipts, the private work records and the release flags.  The
  validators below are the module's functions in order; they raise \<open>TypeError\<close> where the code
  tests an unhashable value for membership in a set.  The methods of \<open>NetworkStateStore\<close> run
  under its lock, one at a time, and take the database and return it: the private copy they
  edit before validating is never visible.  \<open>sha256_hex\<close> is a parameter of the operations that
  scope an idempotency key.
\<close>

section \<open>Constants\<close>

abbreviation "transaction_schema \<equiv> ''ylx.network-transaction.v1''"
abbreviation "receipt_schema \<equiv> ''ylx.network-transaction-receipt.v1''"
abbreviation "controller_state_schema \<equiv> ''ylx.network-controller-state.v1''"

definition forbidden_persisted_keys :: "string list" where
  "forbidden_persisted_keys =
     [''credential_ref'', ''password'', ''passphrase'', ''psk'', ''secret'', ''token'']"

definition terminal_statuses :: "string list" where
  "terminal_statuses = [''committed'', ''rescued'', ''failed'']"

definition wifi_security :: "string list" where
  "wifi_security = [''open'', ''wpa2-personal'', ''wpa3-personal'', ''wpa2-wpa3-personal'']"

definition transaction_statuses :: "string list" where
  "transaction_statuses = [''accepted'', ''running''] @ terminal_statuses"

definition stage_status :: "(string \<times> string) list" where
  "stage_status =
     [(''accepted'', ''accepted''), (''prepared'', ''running''), (''ap_ready'', ''running''),
      (''activating'', ''running''), (''verifying'', ''running''), (''committed'', ''committed''),
      (''falling_back'', ''running''), (''rescued'', ''rescued''), (''failed'', ''failed''),
      (''forgetting'', ''running''), (''forgotten'', ''committed'')]"

definition transaction_stages :: "string list" where
  "transaction_stages =
     [''accepted'', ''prepared'', ''ap_ready'', ''activating'', ''verifying'', ''committed'',
      ''falling_back'', ''rescued'', ''failed'', ''forgetting'', ''forgotten'']"

definition recovery_actions :: "string list" where
  "recovery_actions =
     [''await_device'', ''reconnect_target_lan'', ''reconnect_rescue_ap'', ''retry'',
      ''service_required'', ''none'']"

definition transaction_error_codes :: "string list" where
  "transaction_error_codes =
     [''rescue_ap_unavailable'', ''credential_rejected'', ''dhcp_timeout'', ''route_lost'',
      ''network_manager_unavailable'', ''concurrency_unsupported'']"

definition state_error :: "string \<Rightarrow> bool \<Rightarrow> pyexc" where
  "state_error code retry = AppError ''NetworkStateError'' code retry"

section \<open>Validators\<close>

fun contains_forbidden_key :: "json \<Rightarrow> bool" where
  "contains_forbidden_key (JObj d) =
     list_ex (\<lambda>(key, item). casefold key \<in> set forbidden_persisted_keys \<or> contains_forbidden_key item) d"
| "contains_forbidden_key (JList xs) = list_ex contains_forbidden_key xs"
| "contains_forbidden_key _ = False"

definition valid_saved_wifi :: "json \<Rightarrow> bool res" where
  "valid_saved_wifi wifi =
     (case wifi of
        JObj w \<Rightarrow> conjE
          [Inr (has_keys w [''ssid'', ''security'', ''credential_state'']),
           Inr (str_in (jget w ''ssid'') (\<lambda>s. 1 \<le> length s \<and> length s \<le> 32)),
           in_set (jget w ''security'') wifi_security,
           in_set (jget w ''credential_state'') [''absent'', ''pending_input'', ''stored''],
           Inr (eq_str (jget w ''security'') ''open'' = eq_str (jget w ''credential_state'') ''absent'')]
      | _ \<Rightarrow> Inr False)"

definition valid_saved_ethernet :: "json \<Rightarrow> bool" where
  "valid_saved_ethernet ethernet =
     (case ethernet of
        JNull \<Rightarrow> True
      | JObj e \<Rightarrow>
          has_keys e [''addressing'', ''static_ipv4''] \<and>
          (if eq_str (jget e ''addressing'') ''dhcp'' then jget e ''static_ipv4'' = JNull
           else if eq_str (jget e ''addressing'') ''static'' then
             (case jget e ''static_ipv4'' of
                JObj s \<Rightarrow> has_keys s [''address'', ''prefix_length'', ''gateway'', ''dns'']
              | _ \<Rightarrow> False)
           else False)
      | _ \<Rightarrow> False)"

definition valid_desired_state :: "json \<Rightarrow> bool res" where
  "valid_desired_state value =
     (case value of
        JObj d \<Rightarrow>
          (let mode = jget d ''mode''; wifi = jget d ''wifi_client''; ethernet = jget d ''ethernet'' in
           rejectE (Inr (\<not> has_keys d [''mode'', ''wifi_client'', ''ethernet'']))
           (rejectE (notE (in_set mode [''hotspot'', ''wifi-client'', ''ethernet-dhcp'', ''ethernet-static'']))
            (rejectE (if eq_str mode ''wifi-client'' then notE (valid_saved_wifi wifi)
                      else Inr (wifi \<noteq> JNull))
             (rejectE (Inr (\<not> valid_saved_ethernet ethernet))
               (Inr (\<not> (eq_str mode ''ethernet-static'' \<and> ethernet = JNull)))))))
      | _ \<Rightarrow> Inr False)"

text \<open>\<open>uuid.UUID(str(value))\<close> followed by the comparison of its canonical text with the value
  accepts exactly the canonical lower-case text.\<close>

definition valid_uuid4 :: "json \<Rightarrow> bool" where
  "valid_uuid4 value = str_in value uuid_v4"

definition valid_boot_id :: "json \<Rightarrow> bool" where
  "valid_boot_id value = (value = JNull \<or> str_in value uuid_shape)"

definition valid_deadline :: "json \<Rightarrow> bool" where
  "valid_deadline value =
     (case value of
        JNull \<Rightarrow> True
      | JObj d \<Rightarrow>
          has_keys d [''time_base'', ''deadline_ns'', ''remaining_seconds''] \<and>
          eq_str (jget d ''time_base'') ''device_monotonic'' \<and>
          int_in (jget d ''deadline_ns'') (\<lambda>i. 0 \<le> i) \<and>
          num_between 0 (jget d ''remaining_seconds'') 10
      | _ \<Rightarrow> False)"

definition valid_rescue :: "json \<Rightarrow> bool" where
  "valid_rescue rescue =
     (case rescue of
        JObj r \<Rightarrow> has_keys r [''ap_validated'', ''fallback_mode'', ''failure_trigger_seconds''] \<and>
          is_bool (jget r ''ap_validated'') \<and> eq_str (jget r ''fallback_mode'') ''hotspot'' \<and>
          eq_num (jget r ''failure_trigger_seconds'') 10
      | _ \<Rightarrow> False)"

definition valid_transaction_error :: "json \<Rightarrow> bool res" where
  "valid_transaction_error error =
     (case error of
        JNull \<Rightarrow> Inr True
      | JObj e \<Rightarrow> conjE
          [Inr (has_keys e [''code'', ''message'', ''retryable'']),
           in_set (jget e ''code'') transaction_error_codes,
           Inr (is_nonempty_str (jget e ''message'')),
           Inr (is_bool (jget e ''retryable''))]
      | _ \<Rightarrow> Inr False)"

definition transaction_keys :: "string list" where
  "transaction_keys =
     [''schema'', ''authority_epoch'', ''source_revision'', ''transaction_id'', ''operation'',
      ''status'', ''stage'', ''desired'', ''accepted_at'', ''updated_at'', ''deadline'',
      ''recovery_action'', ''rescue'', ''error'']"

definition valid_transaction :: "json \<Rightarrow> bool res" where
  "valid_transaction value =
     (case value of
        JObj t \<Rightarrow> conjE
          [Inr (has_keys t transaction_keys),
           Inr (eq_str (jget t ''schema'') transaction_schema),
           Inr (valid_uuid4 (jget t ''authority_epoch'')),
           Inr (int_in (jget t ''source_revision'') (\<lambda>i. 0 \<le> i)),
           Inr (str_in (jget t ''transaction_id'') uuid_v7),
           in_set (jget t ''operation'') [''apply'', ''retry'', ''forget''],
           in_set (jget t ''status'') transaction_statuses,
           in_set (jget t ''stage'') transaction_stages,
           Inr (str_in (jget t ''stage'') (\<lambda>g. map_option JStr (map_of stage_status g) = Some (jget t ''status''))),
           valid_desired_state (jget t ''desired''),
           Inr (is_nonempty_str (jget t ''accepted_at'')),
           Inr (is_nonempty_str (jget t ''updated_at'')),
           Inr (valid_deadline (jget t ''deadline'')),
           in_set (jget t ''recovery_action'') recovery_actions,
           Inr (valid_rescue (jget t ''rescue'')),
           valid_transaction_error (jget t ''error'')]
      | _ \<Rightarrow> Inr False)"

text \<open>\<open>re.fullmatch("[0-9a-f]{64}", str(value))\<close>: besides a string, only an integer has a text
  without other characters.\<close>

fun text_is_hex64 :: "json \<Rightarrow> bool" where
  "text_is_hex64 (JStr s) = hex_n 64 s"
| "text_is_hex64 (JInt i) = hex_n 64 (int_text i)"
| "text_is_hex64 _ = False"

definition valid_receipt_entry :: "json \<Rightarrow> int \<Rightarrow> string \<times> json \<Rightarrow> bool res" where
  "valid_receipt_entry authority_epoch source_revision scope_entry =
     (case scope_entry of (scope, entry) \<Rightarrow>
       (case entry of
          JObj e \<Rightarrow>
            rejectE (Inr (\<not> (hex_n 64 scope \<and> has_keys e [''request_fingerprint'', ''receipt''] \<and>
                             text_is_hex64 (jget e ''request_fingerprint''))))
             (case jget e ''receipt'' of
                JObj r \<Rightarrow> conjE
                  [Inr (has_keys r [''schema'', ''accepted_at'', ''transaction'']),
                   Inr (eq_str (jget r ''schema'') receipt_schema),
                   Inr (is_str (jget r ''accepted_at'')),
                   valid_transaction (jget r ''transaction''),
                   (case jget r ''transaction'' of
                      JObj t \<Rightarrow> Inr
                        (eq_str (jget t ''status'') ''accepted'' \<and>
                         jget t ''authority_epoch'' = authority_epoch \<and>
                         int_in (jget t ''source_revision'') (\<lambda>i. i \<le> source_revision) \<and>
                         jget r ''accepted_at'' = jget t ''accepted_at'')
                    | _ \<Rightarrow> Inr False)]
              | _ \<Rightarrow> Inr False)
        | _ \<Rightarrow> Inr False))"

definition valid_receipts :: "json \<Rightarrow> json \<Rightarrow> int \<Rightarrow> bool res" where
  "valid_receipts value authority_epoch source_revision =
     (case value of
        JObj d \<Rightarrow> conjE (map (valid_receipt_entry authority_epoch source_revision) d)
      | _ \<Rightarrow> Inr False)"

definition state_keys :: "string list" where
  "state_keys =
     [''schema'', ''authority_epoch'', ''source_revision'', ''saved'', ''verified'', ''desired'',
      ''transaction'', ''receipts'', ''work'', ''execution_release'', ''rescue_boot_id'']"

text \<open>A slot of the transaction window: empty, or a valid transaction of this authority with one
  of the given statuses and a revision that has been published.\<close>

definition slot_transaction :: "json \<Rightarrow> bool res" where
  "slot_transaction item = (if item = JNull then Inr True else valid_transaction item)"

definition slot_status :: "json \<Rightarrow> string list \<Rightarrow> bool" where
  "slot_status item statuses =
     (case item of JNull \<Rightarrow> True | JObj t \<Rightarrow> in_strs (jget t ''status'') statuses | _ \<Rightarrow> False)"

definition slot_published :: "json \<Rightarrow> json \<Rightarrow> int \<Rightarrow> bool" where
  "slot_published item authority_epoch source_revision =
     (case item of
        JNull \<Rightarrow> True
      | JObj t \<Rightarrow> jget t ''authority_epoch'' = authority_epoch \<and>
          int_in (jget t ''source_revision'') (\<lambda>i. i \<le> source_revision)
      | _ \<Rightarrow> False)"

definition valid_release :: "json \<Rightarrow> json \<Rightarrow> bool" where
  "valid_release release current =
     (case release of
        JObj e \<Rightarrow>
          list_all (\<lambda>(i, released). uuid_v7 i \<and> is_bool released) e \<and>
          (case current of
             JObj t \<Rightarrow> str_in (jget t ''transaction_id'') (\<lambda>i. has_keys e [i])
           | _ \<Rightarrow> e = [])
      | _ \<Rightarrow> False)"

text \<open>The code's \<open>source_revision >= 0\<close> precedes every use of the revision, which is the integer
  \<open>int_value\<close> there.\<close>

fun int_value :: "json \<Rightarrow> int" where
  "int_value (JInt i) = i"
| "int_value _ = 0"

definition valid_state :: "json \<Rightarrow> bool res" where
  "valid_state value =
     (case value of
        JObj st \<Rightarrow>
          rejectE (Inr (\<not> has_keys st state_keys))
          (case jget st ''transaction'' of
             JObj window \<Rightarrow>
               (let current = jget window ''current''; latest = jget window ''latest'';
                    epoch = jget st ''authority_epoch''; revision = int_value (jget st ''source_revision'') in
                conjE
                  [Inr (has_keys window [''current'', ''latest'']),
                   Inr (eq_str (jget st ''schema'') controller_state_schema),
                   Inr (valid_uuid4 epoch),
                   Inr (int_in (jget st ''source_revision'') (\<lambda>i. 0 \<le> i)),
                   Inr (is_bool (jget st ''saved'')),
                   Inr (is_bool (jget st ''verified'')),
                   Inr (jget st ''verified'' = JBool True \<longrightarrow> jget st ''saved'' = JBool True),
                   valid_desired_state (jget st ''desired''),
                   slot_transaction current,
                   slot_transaction latest,
                   Inr (slot_status current [''accepted'', ''running'']),
                   Inr (slot_status latest terminal_statuses),
                   Inr (slot_published current epoch revision),
                   Inr (slot_published latest epoch revision),
                   valid_receipts (jget st ''receipts'') epoch revision,
                   Inr (is_obj (jget st ''work'')),
                   Inr (is_obj (jget st ''execution_release'')),
                   Inr (valid_boot_id (jget st ''rescue_boot_id'')),
                   Inr (valid_release (jget st ''execution_release'') current),
                   Inr (\<not> contains_forbidden_key (JObj st))])
           | _ \<Rightarrow> Inr False)
      | _ \<Rightarrow> Inr False)"

section \<open>Loading and writing the document\<close>

definition validate :: "jobject \<Rightarrow> unit res" where
  "validate st =
     bindE (valid_state (JObj st)) (\<lambda>ok. if ok then Inr () else Inl (state_error ''state_invalid'' False))"

definition load_locked :: "database \<Rightarrow> jobject res" where
  "load_locked db =
     bindE (db_get ''controller'' db) (\<lambda>found.
       (case found of
          Some (JObj st) \<Rightarrow> bindE (validate st) (\<lambda>_. Inr st)
        | _ \<Rightarrow> Inl (state_error ''state_invalid'' False)))"

text \<open>\<open>put\<close> can raise \<open>OSError\<close> or \<open>sqlite3.Error\<close>, before the commit or after it became durable;
  \<open>_write_locked\<close> then reads the document back, which can fail in its turn, and raises the first exception
  again unless the document is the new one.  A database path that is no regular file is refused with
  \<open>PersistenceError\<close>, which is not caught.\<close>

datatype database_fault = IoFault | SqliteFault

fun fault_error :: "database_fault \<Rightarrow> pyexc" where
  "fault_error IoFault = OSError"
| "fault_error SqliteFault = DatabaseError"

datatype commit_outcome =
    Committed
  | PathRefused
  | RaisedBeforeCommit database_fault "database_fault option"
  | RaisedAfterCommit database_fault "database_fault option"

definition confirm_document ::
  "database_fault \<Rightarrow> database_fault option \<Rightarrow> jobject \<Rightarrow> database \<Rightarrow> unit res" where
  "confirm_document raised reread st db =
     (case reread of
        Some f \<Rightarrow> Inl (fault_error f)
      | None \<Rightarrow>
          bindE (db_get ''controller'' db) (\<lambda>found.
            (case found of
               Some v \<Rightarrow> (if py_eq v (JObj st) then Inr () else Inl (fault_error raised))
             | None \<Rightarrow> Inl (fault_error raised))))"

definition write_locked ::
  "commit_outcome \<Rightarrow> string \<Rightarrow> jobject \<Rightarrow> database \<Rightarrow> unit res \<times> database" where
  "write_locked outcome now st db =
     (case db_put ''controller'' (JObj st) now False db of
        Inl e \<Rightarrow> (Inl e, db)
      | Inr db' \<Rightarrow>
          (case outcome of
             Committed \<Rightarrow> (Inr (), db')
           | PathRefused \<Rightarrow> (Inl (AppError ''PersistenceError'' [] False), db)
           | RaisedBeforeCommit raised reread \<Rightarrow> (confirm_document raised reread st db, db)
           | RaisedAfterCommit raised reread \<Rightarrow> (confirm_document raised reread st db', db')))"

text \<open>\<open>self._validate(state); self._write_locked(state)\<close>, then the result.\<close>

definition store ::
  "commit_outcome \<Rightarrow> string \<Rightarrow> jobject \<Rightarrow> 'a \<Rightarrow> database \<Rightarrow> 'a res \<times> database" where
  "store outcome now st result db =
     tryS (validate st) db (\<lambda>_.
       (case write_locked outcome now st db of
          (Inl e, db') \<Rightarrow> (Inl e, db')
        | (Inr _, db') \<Rightarrow> (Inr result, db')))"

section \<open>The operations of \<open>NetworkStateStore\<close>\<close>

fun obj_or_empty :: "json \<Rightarrow> jobject" where
  "obj_or_empty (JObj d) = d"
| "obj_or_empty _ = []"

definition window_slot :: "jobject \<Rightarrow> string \<Rightarrow> json" where
  "window_slot st slot = jget (obj_or_empty (jget st ''transaction'')) slot"

definition snapshot :: "database \<Rightarrow> json res" where
  "snapshot db =
     bindE (load_locked db) (\<lambda>st. Inr (JObj
       [(''schema'', JStr controller_state_schema),
        (''authority_epoch'', jget st ''authority_epoch''),
        (''source_revision'', jget st ''source_revision''),
        (''saved'', jget st ''saved''),
        (''verified'', jget st ''verified''),
        (''desired'', jget st ''desired''),
        (''transaction'', jget st ''transaction'')]))"

definition scope_of :: "(string \<Rightarrow> string) \<Rightarrow> string \<Rightarrow> string \<Rightarrow> string" where
  "scope_of sha256_hex principal_id idempotency_key =
     sha256_hex (principal_id @ [CHR 0x00] @ idempotency_key)"

text \<open>The receipt stored under a scope, for a request with this fingerprint.\<close>

definition stored_receipt :: "jobject \<Rightarrow> string \<Rightarrow> string \<Rightarrow> json option res" where
  "stored_receipt st scope fingerprint =
     (case jget (obj_or_empty (jget st ''receipts'')) scope of
        JNull \<Rightarrow> Inr None
      | JObj existing \<Rightarrow>
          guardE (\<not> eq_str (jget existing ''request_fingerprint'') fingerprint)
            (state_error ''idempotency_conflict'' False)
            (case jget existing ''receipt'' of
               JObj r \<Rightarrow> Inr (Some (JObj r))
             | _ \<Rightarrow> Inl (state_error ''state_invalid'' False))
      | _ \<Rightarrow> Inl (state_error ''idempotency_conflict'' False))"

definition replay_receipt ::
  "(string \<Rightarrow> string) \<Rightarrow> string \<Rightarrow> string \<Rightarrow> string \<Rightarrow> database \<Rightarrow> json option res" where
  "replay_receipt sha256_hex principal_id idempotency_key fingerprint db =
     bindE (load_locked db) (\<lambda>st.
       stored_receipt st (scope_of sha256_hex principal_id idempotency_key) fingerprint)"

record accept_request =
  operation :: string
  desired :: jobject
  principal_id :: string
  idempotency_key :: string
  request_fingerprint :: string
  transaction_id :: string
  accepted_at :: string
  work :: jobject
  execution_released :: bool
  publish_desired :: bool
  saved :: "bool option"
  verified :: "bool option"

definition accept_input_bad :: "accept_request \<Rightarrow> bool res" where
  "accept_input_bad a = disjE_list
     [Inr (operation a \<notin> {''apply'', ''retry'', ''forget''}),
      notE (valid_desired_state (JObj (desired a))),
      Inr (\<not> uuid_v7 (transaction_id a)),
      Inr (accepted_at a = []),
      Inr (\<not> hex_n 64 (request_fingerprint a)),
      Inr (contains_forbidden_key (JObj (work a))),
      Inr (verified a = Some True \<and> saved a = Some False)]"

definition new_transaction :: "accept_request \<Rightarrow> json \<Rightarrow> int \<Rightarrow> jobject" where
  "new_transaction a epoch next_revision =
     [(''schema'', JStr transaction_schema),
      (''authority_epoch'', epoch),
      (''source_revision'', JInt next_revision),
      (''transaction_id'', JStr (transaction_id a)),
      (''operation'', JStr (operation a)),
      (''status'', JStr ''accepted''),
      (''stage'', JStr ''accepted''),
      (''desired'', JObj (desired a)),
      (''accepted_at'', JStr (accepted_at a)),
      (''updated_at'', JStr (accepted_at a)),
      (''deadline'', JNull),
      (''recovery_action'', JStr ''await_device''),
      (''rescue'', JObj [(''ap_validated'', JBool False), (''fallback_mode'', JStr ''hotspot''),
                         (''failure_trigger_seconds'', JInt 10)]),
      (''error'', JNull)]"

definition new_receipt :: "accept_request \<Rightarrow> jobject \<Rightarrow> jobject" where
  "new_receipt a transaction =
     [(''schema'', JStr receipt_schema), (''accepted_at'', JStr (accepted_at a)),
      (''transaction'', JObj transaction)]"

definition put_field :: "string \<Rightarrow> string \<Rightarrow> json \<Rightarrow> jobject \<Rightarrow> jobject" where
  "put_field field key v st = jset field (JObj (jset key v (obj_or_empty (jget st field)))) st"

definition pop_field :: "string \<Rightarrow> string \<Rightarrow> jobject \<Rightarrow> jobject" where
  "pop_field field key st = jset field (JObj (jpop key (obj_or_empty (jget st field)))) st"

definition set_flag :: "string \<Rightarrow> bool option \<Rightarrow> bool \<Rightarrow> bool \<Rightarrow> jobject \<Rightarrow> jobject" where
  "set_flag key value use_fallback fallback st =
     (case value of
        Some b \<Rightarrow> jset key (JBool b) st
      | None \<Rightarrow> (if use_fallback then jset key (JBool fallback) st else st))"

definition accepted_state :: "accept_request \<Rightarrow> string \<Rightarrow> jobject \<Rightarrow> jobject" where
  "accepted_state a scope st =
     (let next_revision = int_value (jget st ''source_revision'') + 1;
          transaction = new_transaction a (jget st ''authority_epoch'') next_revision;
          receipt = new_receipt a transaction;
          s1 = jset ''source_revision'' (JInt next_revision) st;
          s2 = (if publish_desired a then jset ''desired'' (JObj (desired a)) s1 else s1);
          s3 = set_flag ''saved'' (saved a) (publish_desired a) (eq_str (jget (desired a) ''mode'') ''wifi-client'') s2;
          s4 = set_flag ''verified'' (verified a) (publish_desired a) False s3;
          s5 = put_field ''transaction'' ''current'' (JObj transaction) s4;
          s6 = jset ''execution_release'' (JObj [(transaction_id a, JBool (execution_released a))]) s5;
          s7 = put_field ''receipts'' scope
                 (JObj [(''request_fingerprint'', JStr (request_fingerprint a)), (''receipt'', JObj receipt)]) s6
      in put_field ''work'' (transaction_id a) (JObj (work a)) s7)"

definition accept_transaction ::
  "(string \<Rightarrow> string) \<Rightarrow> accept_request \<Rightarrow> commit_outcome \<Rightarrow> string \<Rightarrow> database
     \<Rightarrow> (json \<times> bool) res \<times> database" where
  "accept_transaction sha256_hex a outcome now db =
     tryS (accept_input_bad a) db (\<lambda>bad.
       if bad then (Inl (state_error ''state_input_invalid'' False), db) else
       let scope = scope_of sha256_hex (principal_id a) (idempotency_key a) in
       tryS (load_locked db) db (\<lambda>st.
         tryS (stored_receipt st scope (request_fingerprint a)) db (\<lambda>existing.
           (case existing of
              Some receipt \<Rightarrow> (Inr (receipt, True), db)
            | None \<Rightarrow>
                if window_slot st ''current'' \<noteq> JNull
                then (Inl (state_error ''controller_busy'' True), db)
                else store outcome now (accepted_state a scope st)
                       (JObj (new_receipt a (new_transaction a (jget st ''authority_epoch'')
                                (int_value (jget st ''source_revision'') + 1))), False) db))))"

definition is_execution_released :: "string \<Rightarrow> database \<Rightarrow> bool res" where
  "is_execution_released tid db =
     bindE (load_locked db) (\<lambda>st. Inr
       (case window_slot st ''current'' of
          JObj current \<Rightarrow> jget current ''transaction_id'' = JStr tid \<and>
            jget (obj_or_empty (jget st ''execution_release'')) tid = JBool True
        | _ \<Rightarrow> False))"

definition boot_needs_reconcile :: "string \<Rightarrow> database \<Rightarrow> bool res" where
  "boot_needs_reconcile boot_id db =
     guardE (\<not> uuid_shape boot_id) (state_error ''state_input_invalid'' False)
       (bindE (load_locked db) (\<lambda>st. Inr (jget st ''rescue_boot_id'' \<noteq> JStr boot_id)))"

definition mark_boot_reconciled ::
  "string \<Rightarrow> commit_outcome \<Rightarrow> string \<Rightarrow> database \<Rightarrow> unit res \<times> database" where
  "mark_boot_reconciled boot_id outcome now db =
     (if \<not> uuid_shape boot_id then (Inl (state_error ''state_input_invalid'' False), db)
      else tryS (load_locked db) db (\<lambda>st.
        if jget st ''rescue_boot_id'' = JStr boot_id then (Inr (), db)
        else store outcome now (jset ''rescue_boot_id'' (JStr boot_id) st) () db))"

definition release_execution ::
  "string \<Rightarrow> commit_outcome \<Rightarrow> string \<Rightarrow> database \<Rightarrow> bool res \<times> database" where
  "release_execution tid outcome now db =
     tryS (load_locked db) db (\<lambda>st.
       (case window_slot st ''current'' of
          JObj current \<Rightarrow>
            (if jget current ''transaction_id'' \<noteq> JStr tid then (Inr False, db)
             else if jget (obj_or_empty (jget st ''execution_release'')) tid \<noteq> JBool True
             then store outcome now (put_field ''execution_release'' tid (JBool True) st) True db
             else (Inr True, db))
        | _ \<Rightarrow> (Inr False, db)))"

definition work_for :: "string \<Rightarrow> database \<Rightarrow> json res" where
  "work_for tid db =
     bindE (load_locked db) (\<lambda>st.
       (case jget (obj_or_empty (jget st ''work'')) tid of
          JObj w \<Rightarrow> Inr (JObj w)
        | _ \<Rightarrow> Inl (state_error ''transaction_not_found'' False)))"

definition managed_profile :: "string \<Rightarrow> bool" where
  "managed_profile s \<longleftrightarrow>
     (\<exists>mode \<in> {''wifi-client'', ''ethernet-dhcp'', ''ethernet-static''}.
        take (length (''rp-ylx-'' @ mode @ ''-'')) s = ''rp-ylx-'' @ mode @ ''-'' \<and>
        hex_n 12 (drop (length (''rp-ylx-'' @ mode @ ''-'')) s))"

definition work_profile :: "json \<Rightarrow> string option" where
  "work_profile w =
     (case w of
        JObj d \<Rightarrow>
          (case jget d ''candidate'' of
             JObj c \<Rightarrow>
               (case jget c ''profile'' of
                  JStr p \<Rightarrow> (if managed_profile p then Some p else None)
                | _ \<Rightarrow> None)
           | _ \<Rightarrow> None)
      | _ \<Rightarrow> None)"

definition retained_profiles :: "database \<Rightarrow> string set res" where
  "retained_profiles db =
     bindE (load_locked db) (\<lambda>st. Inr
       (set (List.map_filter (\<lambda>(i, w). work_profile w) (obj_or_empty (jget st ''work'')))))"

record transition_request =
  to_status :: string
  to_stage :: string
  at_time :: string
  ap_validated :: "bool option"
  to_error :: "jobject option"
  to_desired :: "jobject option"
  to_publish :: bool
  to_deadline :: json
  to_recovery :: string
  to_saved :: "bool option"
  to_verified :: "bool option"
  retain_work :: bool
  clear_all_work :: bool
  remove_work :: "string list"

definition transition_input_bad :: "transition_request \<Rightarrow> bool res" where
  "transition_input_bad r = disjE_list
     [Inr (to_status r \<notin> set transaction_statuses),
      Inr (to_stage r \<notin> set transaction_stages),
      Inr (at_time r = []),
      (case to_desired r of None \<Rightarrow> Inr False | Some d \<Rightarrow> notE (valid_desired_state (JObj d))),
      Inr (\<not> valid_deadline (to_deadline r)),
      Inr (to_recovery r \<notin> set recovery_actions),
      Inr (to_verified r = Some True \<and> to_saved r = Some False)]"

definition moved_transaction :: "transition_request \<Rightarrow> int \<Rightarrow> jobject \<Rightarrow> jobject" where
  "moved_transaction r next_revision current =
     (let c1 = jset ''status'' (JStr (to_status r)) current;
          c2 = jset ''stage'' (JStr (to_stage r)) c1;
          c3 = jset ''updated_at'' (JStr (at_time r)) c2;
          c4 = jset ''source_revision'' (JInt next_revision) c3;
          c5 = jset ''deadline'' (to_deadline r) c4;
          c6 = jset ''recovery_action'' (JStr (to_recovery r)) c5;
          c7 = (case ap_validated r of
                  Some b \<Rightarrow> put_field ''rescue'' ''ap_validated'' (JBool b) c6 | None \<Rightarrow> c6);
          c8 = jset ''error'' (case to_error r of None \<Rightarrow> JNull | Some e \<Rightarrow> JObj e) c7
      in (case to_desired r of Some d \<Rightarrow> jset ''desired'' (JObj d) c8 | None \<Rightarrow> c8))"

definition moved_state :: "string \<Rightarrow> transition_request \<Rightarrow> jobject \<Rightarrow> jobject \<Rightarrow> jobject" where
  "moved_state tid r current st =
     (let next_revision = int_value (jget st ''source_revision'') + 1;
          moved = JObj (moved_transaction r next_revision current);
          s1 = jset ''source_revision'' (JInt next_revision) st;
          s2 = (case to_desired r of
                  Some d \<Rightarrow> (if to_publish r then jset ''desired'' (JObj d) s1 else s1) | None \<Rightarrow> s1);
          s3 = set_flag ''saved'' (to_saved r) False False s2;
          s4 = set_flag ''verified'' (to_verified r) False False s3;
          s5 = (if to_status r \<in> set terminal_statuses then
                  (let t1 = put_field ''transaction'' ''latest'' moved s4;
                       t2 = put_field ''transaction'' ''current'' JNull t1;
                       t3 = pop_field ''execution_release'' tid t2
                   in (if retain_work r then t3 else pop_field ''work'' tid t3))
                else put_field ''transaction'' ''current'' moved s4)
      in (if clear_all_work r then jset ''work'' (JObj []) s5
          else fold (pop_field ''work'') (remove_work r) s5))"

definition transition ::
  "string \<Rightarrow> transition_request \<Rightarrow> commit_outcome \<Rightarrow> string \<Rightarrow> database \<Rightarrow> json res \<times> database" where
  "transition tid r outcome now db =
     tryS (transition_input_bad r) db (\<lambda>bad.
       if bad then (Inl (state_error ''state_input_invalid'' False), db) else
       tryS (load_locked db) db (\<lambda>st.
         (case window_slot st ''current'' of
            JObj current \<Rightarrow>
              (if jget current ''transaction_id'' \<noteq> JStr tid
               then (Inl (state_error ''transaction_not_found'' False), db)
               else store outcome now (moved_state tid r current st)
                      (JObj (moved_transaction r (int_value (jget st ''source_revision'') + 1) current)) db)
          | _ \<Rightarrow> (Inl (state_error ''transaction_not_found'' False), db))))"

definition scan_stamp ::
  "commit_outcome \<Rightarrow> string \<Rightarrow> database \<Rightarrow> (json \<times> int) res \<times> database" where
  "scan_stamp outcome now db =
     tryS (load_locked db) db (\<lambda>st.
       let next_revision = int_value (jget st ''source_revision'') + 1 in
       store outcome now (jset ''source_revision'' (JInt next_revision) st)
         (jget st ''authority_epoch'', next_revision) db)"

section \<open>Opening the store\<close>

text \<open>A document of an older release lacks \<open>execution_release\<close> or \<open>rescue_boot_id\<close>.  \<open>str()\<close> of a
  transaction id that is not a string is no UUID, and the validation that follows refuses it;
  the model uses the empty text for it.\<close>

definition legacy_release :: "jobject \<Rightarrow> json res" where
  "legacy_release st =
     (case map_of st ''transaction'' of
        None \<Rightarrow> Inr (JObj [])
      | Some (JObj w) \<Rightarrow>
          (case jget w ''current'' of
             JObj c \<Rightarrow> bindE (jitem c ''transaction_id'') (\<lambda>i.
               Inr (JObj [((case i of JStr s \<Rightarrow> s | _ \<Rightarrow> []), JBool True)]))
           | _ \<Rightarrow> Inr (JObj []))
      | Some _ \<Rightarrow> Inl AttributeError)"

definition migrate_document :: "jobject \<Rightarrow> jobject res" where
  "migrate_document st =
     bindE (if map_of st ''execution_release'' = None
            then bindE (legacy_release st) (\<lambda>r. Inr (jset ''execution_release'' r st)) else Inr st)
       (\<lambda>s1. Inr (if map_of s1 ''rescue_boot_id'' = None then jset ''rescue_boot_id'' JNull s1 else s1))"

definition validate_import :: "json \<Rightarrow> unit res" where
  "validate_import value = bindE (migrate_document (obj_or_empty value)) validate"

definition initial_state :: "jobject \<Rightarrow> string \<Rightarrow> jobject" where
  "initial_state desired_on_disk fresh_uuid4 =
     (let is_saved = JBool (eq_str (jget desired_on_disk ''mode'') ''wifi-client'') in
      [(''schema'', JStr controller_state_schema),
       (''authority_epoch'', JStr fresh_uuid4),
       (''source_revision'', JInt 0),
       (''saved'', is_saved),
       (''verified'', is_saved),
       (''desired'', JObj desired_on_disk),
       (''transaction'', JObj [(''current'', JNull), (''latest'', JNull)]),
       (''receipts'', JObj []),
       (''work'', JObj []),
       (''execution_release'', JObj []),
       (''rescue_boot_id'', JNull)])"

definition open_store ::
  "json option \<Rightarrow> string \<Rightarrow> jobject \<Rightarrow> string \<Rightarrow> commit_outcome \<Rightarrow> string \<Rightarrow> database
     \<Rightarrow> unit res \<times> database" where
  "open_store legacy_file path desired_on_disk fresh_uuid4 outcome now db =
     tryS (import_json ''controller'' legacy_file path (JObj (initial_state desired_on_disk fresh_uuid4))
             validate_import now db) db (\<lambda>(value, db1).
       let st = obj_or_empty value in
       tryS (migrate_document st) db1 (\<lambda>migrated.
         if migrated = st then tryS (validate st) db1 (\<lambda>_. (Inr (), db1))
         else store outcome now migrated () db1))"

end
