(* ===== verification/NetworkStateFacts.thy ===== *)
theory NetworkStateFacts
  imports NetworkState
begin

text \<open>
  What the network authority guarantees: a document that is valid stays valid when it is stored
  and read back, every operation preserves validity, receipts are never changed or dropped, and
  revisions only grow.
\<close>

section \<open>Validity does not depend on the order of keys\<close>

named_theorems canon_valid \<open>validators on canonical values\<close>

lemma contains_forbidden_key_canon [canon_valid]:
  "contains_forbidden_key (canon v) = contains_forbidden_key v"
proof (induction v rule: canon.induct)
  case (1 xs)
  then show ?case by (induction xs) auto
next
  case (2 d)
  then have "contains_forbidden_key (canon v) = contains_forbidden_key v" if "(k, v) \<in> set d" for k v
    using that by blast
  then have "contains_forbidden_key (JObj (canon_obj d)) = contains_forbidden_key (JObj d)"
    unfolding contains_forbidden_key.simps list_ex_iff set_canon_obj bex_simps(7)
    by (intro bex_cong) (auto split: prod.split)
  then show ?case by simp
qed auto

lemma valid_boot_id_canon [canon_valid]: "valid_boot_id (canon v) = valid_boot_id v"
  "valid_uuid4 (canon v) = valid_uuid4 v"
  by (simp_all add: valid_boot_id_def valid_uuid4_def)

lemma valid_saved_wifi_canon [canon_valid]: "valid_saved_wifi (canon v) = valid_saved_wifi v"
  by (cases v) (simp_all add: valid_saved_wifi_def)

lemma valid_saved_ethernet_canon [canon_valid]: "valid_saved_ethernet (canon v) = valid_saved_ethernet v"
proof (cases v)
  case (JObj e)
  then show ?thesis by (cases "jget e ''static_ipv4''") (simp_all add: valid_saved_ethernet_def)
qed (simp_all add: valid_saved_ethernet_def)

lemma valid_desired_state_canon [canon_valid]: "valid_desired_state (canon v) = valid_desired_state v"
  by (cases v) (simp_all add: valid_desired_state_def Let_def canon_valid)

lemma valid_deadline_canon [canon_valid]: "valid_deadline (canon v) = valid_deadline v"
  by (cases v) (simp_all add: valid_deadline_def)

lemma valid_rescue_canon [canon_valid]: "valid_rescue (canon v) = valid_rescue v"
  by (cases v) (simp_all add: valid_rescue_def)

lemma valid_transaction_error_canon [canon_valid]:
  "valid_transaction_error (canon v) = valid_transaction_error v"
  by (cases v) (simp_all add: valid_transaction_error_def)

lemma valid_transaction_canon [canon_valid]:
  assumes "valid_transaction v = Inr True" shows "valid_transaction (canon v) = Inr True"
proof (cases v)
  case (JObj t)
  have "canon (jget t ''status'') = jget t ''status''"
    using assms JObj by (auto simp: valid_transaction_def in_set_True)
  with assms JObj show ?thesis
    by (simp add: valid_transaction_def canon_valid)
qed (use assms in \<open>simp_all add: valid_transaction_def\<close>)

lemma text_is_hex64_canon [canon_valid]: "text_is_hex64 (canon v) = text_is_hex64 v"
  by (cases v) simp_all

lemma valid_receipt_entry_canon:
  assumes "valid_receipt_entry epoch rv (k, e) = Inr True" and "canon epoch = epoch"
  shows "valid_receipt_entry epoch rv (k, canon e) = Inr True"
proof -
  obtain o1 where e: "e = JObj o1" using assms(1) by (cases e) (auto simp: valid_receipt_entry_def)
  obtain r where r: "jget o1 ''receipt'' = JObj r"
    using assms(1) e by (cases "jget o1 ''receipt''") (auto simp: valid_receipt_entry_def)
  obtain t where t: "jget r ''transaction'' = JObj t"
    using assms(1) e r by (cases "jget r ''transaction''") (auto simp: valid_receipt_entry_def)
  have v: "valid_transaction (JObj (canon_obj t)) = Inr True"
    using valid_transaction_canon [of "JObj t"] assms(1) e r t
    by (auto simp: valid_receipt_entry_def)
  show ?thesis
    using assms e r t v by (auto simp: valid_receipt_entry_def canon_valid)
qed

lemma valid_receipts_canon [canon_valid]:
  assumes "valid_receipts v epoch rv = Inr True" and "canon epoch = epoch"
  shows "valid_receipts (canon v) epoch rv = Inr True"
  using assms by (cases v) (auto simp: valid_receipts_def set_canon_obj valid_receipt_entry_canon)

lemma slot_canon [canon_valid]:
  "slot_transaction v = Inr True \<Longrightarrow> slot_transaction (canon v) = Inr True"
  "slot_status (canon v) ss = slot_status v ss"
  "slot_published v epoch rv \<Longrightarrow> canon epoch = epoch \<Longrightarrow> slot_published (canon v) epoch rv"
  by (auto simp: slot_transaction_def canon_valid) (cases v; auto simp: slot_status_def slot_published_def)+

lemma valid_release_canon [canon_valid]: "valid_release (canon v) (canon c) = valid_release v c"
  by (cases v; cases c) (auto simp: valid_release_def list_all_iff set_canon_obj)

text \<open>The conjuncts of \<open>valid_state\<close>, named once.\<close>

lemma valid_state_iff:
  "valid_state (JObj st) = Inr True \<longleftrightarrow>
     has_keys st state_keys \<and> is_obj (jget st ''transaction'') \<and>
     has_keys (obj_or_empty (jget st ''transaction'')) [''current'', ''latest''] \<and>
     eq_str (jget st ''schema'') controller_state_schema \<and>
     valid_uuid4 (jget st ''authority_epoch'') \<and>
     int_in (jget st ''source_revision'') (\<lambda>i. 0 \<le> i) \<and>
     is_bool (jget st ''saved'') \<and> is_bool (jget st ''verified'') \<and>
     (jget st ''verified'' = JBool True \<longrightarrow> jget st ''saved'' = JBool True) \<and>
     valid_desired_state (jget st ''desired'') = Inr True \<and>
     slot_transaction (window_slot st ''current'') = Inr True \<and>
     slot_transaction (window_slot st ''latest'') = Inr True \<and>
     slot_status (window_slot st ''current'') [''accepted'', ''running''] \<and>
     slot_status (window_slot st ''latest'') terminal_statuses \<and>
     slot_published (window_slot st ''current'') (jget st ''authority_epoch'') (int_value (jget st ''source_revision'')) \<and>
     slot_published (window_slot st ''latest'') (jget st ''authority_epoch'') (int_value (jget st ''source_revision'')) \<and>
     valid_receipts (jget st ''receipts'') (jget st ''authority_epoch'') (int_value (jget st ''source_revision'')) = Inr True \<and>
     is_obj (jget st ''work'') \<and> is_obj (jget st ''execution_release'') \<and>
     valid_boot_id (jget st ''rescue_boot_id'') \<and>
     valid_release (jget st ''execution_release'') (window_slot st ''current'') \<and>
     \<not> contains_forbidden_key (JObj st)"
  by (cases "jget st ''transaction''") (auto simp: valid_state_def window_slot_def Let_def)

lemma obj_or_empty_canon [simp]: "obj_or_empty (canon v) = canon_obj (obj_or_empty v)"
  by (cases v) (simp_all add: canon_obj_def)

lemma window_slot_canon [simp]: "window_slot (canon_obj st) slot = canon (window_slot st slot)"
  by (simp add: window_slot_def)

lemma int_value_canon [simp]: "int_value (canon v) = int_value v"
  by (cases v) simp_all

lemma valid_uuid4_str: "valid_uuid4 v \<Longrightarrow> \<exists>s. v = JStr s"
  by (cases v) (auto simp: valid_uuid4_def)

lemma valid_state_canon:
  assumes "valid_state (JObj st) = Inr True"
  shows "valid_state (JObj (canon_obj st)) = Inr True"
proof -
  have "valid_uuid4 (jget st ''authority_epoch'')" using assms unfolding valid_state_iff by blast
  then have e: "canon (jget st ''authority_epoch'') = jget st ''authority_epoch''"
    using valid_uuid4_str by fastforce
  have f: "contains_forbidden_key (JObj (canon_obj st)) = contains_forbidden_key (JObj st)"
    using contains_forbidden_key_canon [of "JObj st"] by simp
  show ?thesis
    using assms e f unfolding valid_state_iff by (auto simp: canon_valid)
qed

section \<open>Loading and storing\<close>

lemma validate_iff [simp]: "validate st = Inr u \<longleftrightarrow> valid_state (JObj st) = Inr True"
  by (auto simp: validate_def bindE_eq_Inr split: if_splits)

lemma load_locked_iff:
  "load_locked db = Inr st \<longleftrightarrow>
     db_get ''controller'' db = Inr (Some (JObj st)) \<and> valid_state (JObj st) = Inr True"
proof (cases "db_get ''controller'' db")
  case (Inr found)
  show ?thesis
  proof (cases found)
    case (Some v)
    with Inr show ?thesis by (cases v) (auto simp: load_locked_def bindE_eq_Inr)
  qed (use Inr in \<open>simp add: load_locked_def\<close>)
qed (simp add: load_locked_def)

text \<open>Stored documents are canonical: \<open>put\<close> and the import write canonical text.\<close>

definition canonical_db :: "database \<Rightarrow> bool" where
  "canonical_db db \<longleftrightarrow> (\<forall>name row. documents db name = Some row \<longrightarrow> canon (body row) = body row)"

lemma canonical_db_put: "canonical_db db \<Longrightarrow> db_put name v now h db = Inr db' \<Longrightarrow> canonical_db db'"
  by (auto simp: canonical_db_def db_put_def put_document_def Let_def split: if_splits option.splits)

lemma load_locked_canonical:
  "canonical_db db \<Longrightarrow> load_locked db = Inr st \<Longrightarrow> canon_obj st = st"
  unfolding load_locked_iff
  by (auto simp: canonical_db_def db_get_def split: option.splits) (metis canon_JObj json.inject(6))

lemma store_database:
  assumes "store outcome now st r db = (res, db')"
  obtains (unchanged) "db' = db"
    | (written) "db_put ''controller'' (JObj st) now False db = Inr db'"
        and "load_locked db' = Inr (canon_obj st)" and "valid_state (JObj st) = Inr True"
  using assms
  by (auto simp: store_def write_locked_def tryS_def load_locked_iff valid_state_canon
      intro: state_documents.get_put
      split: sum.splits prod.splits commit_outcome.splits)

lemma store_success:
  assumes "store outcome now st r db = (Inr x, db')"
  shows "x = r" and "valid_state (JObj st) = Inr True"
    and "db_put ''controller'' (JObj st) now False db = Inr db' \<or>
         db' = db \<and> (\<exists>raised reread. outcome = RaisedBeforeCommit raised reread \<and> confirm_document raised reread st db = Inr ())"
  using assms
  by (auto simp: store_def write_locked_def tryS_def split: sum.splits prod.splits commit_outcome.splits)

lemma py_eq_JObj_field: "py_eq (JObj d) (JObj e) \<Longrightarrow> map_of d k = Some v \<Longrightarrow> \<exists>w. map_of e k = Some w \<and> py_eq v w"
  by (drule map_of_SomeD) (force simp: list_all_iff split: option.splits)

lemma confirm_needs_equal_field:
  assumes "confirm_document raised reread new db = Inr u" and "load_locked db = Inr st"
    and "k \<in> set state_keys"
  shows "py_eq (jget st k) (jget new k)"
proof -
  have "py_eq (JObj st) (JObj new)"
    using assms(1,2) by (auto simp: confirm_document_def load_locked_iff split: if_splits option.splits)
  moreover have "map_of st k = Some (jget st k)"
    using assms(2,3) by (auto simp: load_locked_iff valid_state_iff has_keys_map_of)
  ultimately obtain w where "map_of new k = Some w" "py_eq (jget st k) w"
    using py_eq_JObj_field by blast
  then show ?thesis by (simp add: jget_def)
qed

lemma state_revision: "valid_state (JObj st) = Inr True \<Longrightarrow> jget st ''source_revision'' = JInt (int_value (jget st ''source_revision''))"
  by (cases "jget st ''source_revision''") (auto simp: valid_state_iff)

lemma store_success_changed:
  assumes "store outcome now new r db = (Inr x, db')" and "load_locked db = Inr st"
    and "k \<in> set state_keys" and "\<not> py_eq (jget st k) (jget new k)"
  shows "load_locked db' = Inr (canon_obj new)" and "x = r"
  using store_success [OF assms(1)] confirm_needs_equal_field [OF _ assms(2,3)] assms(4)
    state_documents.get_put valid_state_canon by (auto simp: load_locked_iff)

lemma revision_bumped:
  "valid_state (JObj st) = Inr True \<Longrightarrow>
     jget new ''source_revision'' = JInt (int_value (jget st ''source_revision'') + 1) \<Longrightarrow>
     \<not> py_eq (jget st ''source_revision'') (jget new ''source_revision'')"
  by (subst state_revision) (auto simp: scalar_eq_def)

section \<open>The documents the operations write\<close>

lemma jget_put_field [simp]:
  "jget (put_field f k v st) g = (if g = f then JObj (jset k v (obj_or_empty (jget st f))) else jget st g)"
  by (simp add: put_field_def)

lemma jget_pop_field [simp]:
  "jget (pop_field f k st) g = (if g = f then JObj (jpop k (obj_or_empty (jget st f))) else jget st g)"
  by (simp add: pop_field_def)

lemma jget_set_flag: "g \<noteq> k \<Longrightarrow> jget (set_flag k v u b st) g = jget st g"
  by (simp add: set_flag_def split: option.splits)

lemma jget_fold_pop_field: "g \<noteq> f \<Longrightarrow> jget (fold (pop_field f) ks st) g = jget st g"
  by (induction ks arbitrary: st) auto

lemma accepted_state_fields:
  "jget (accepted_state a scope st) ''schema'' = jget st ''schema''"
  "jget (accepted_state a scope st) ''authority_epoch'' = jget st ''authority_epoch''"
  "jget (accepted_state a scope st) ''source_revision'' = JInt (int_value (jget st ''source_revision'') + 1)"
  "jget (accepted_state a scope st) ''rescue_boot_id'' = jget st ''rescue_boot_id''"
  "jget (accepted_state a scope st) ''execution_release'' = JObj [(transaction_id a, JBool (execution_released a))]"
  "jget (accepted_state a scope st) ''desired'' = (if publish_desired a then JObj (desired a) else jget st ''desired'')"
  "jget (accepted_state a scope st) ''receipts'' =
     JObj (jset scope (JObj [(''request_fingerprint'', JStr (request_fingerprint a)),
       (''receipt'', JObj (new_receipt a (new_transaction a (jget st ''authority_epoch'')
          (int_value (jget st ''source_revision'') + 1))))]) (obj_or_empty (jget st ''receipts'')))"
  "jget (accepted_state a scope st) ''work'' =
     JObj (jset (transaction_id a) (JObj (work a)) (obj_or_empty (jget st ''work'')))"
  "jget (accepted_state a scope st) ''transaction'' =
     JObj (jset ''current'' (JObj (new_transaction a (jget st ''authority_epoch'')
        (int_value (jget st ''source_revision'') + 1))) (obj_or_empty (jget st ''transaction'')))"
  by (simp_all add: accepted_state_def Let_def jget_set_flag)

lemma moved_state_fields:
  "jget (moved_state tid r c st) ''schema'' = jget st ''schema''"
  "jget (moved_state tid r c st) ''authority_epoch'' = jget st ''authority_epoch''"
  "jget (moved_state tid r c st) ''source_revision'' = JInt (int_value (jget st ''source_revision'') + 1)"
  "jget (moved_state tid r c st) ''rescue_boot_id'' = jget st ''rescue_boot_id''"
  "jget (moved_state tid r c st) ''receipts'' = jget st ''receipts''"
  by (simp_all add: moved_state_def Let_def jget_set_flag jget_fold_pop_field split: option.splits)

section \<open>Steps of the authority\<close>

text \<open>Any call of a method that writes, with any arguments and any outcome of its commit.\<close>

inductive net_step :: "(string \<Rightarrow> string) \<Rightarrow> database \<Rightarrow> database \<Rightarrow> bool" for sha where
  accept: "accept_transaction sha a outcome now db = (res, db') \<Longrightarrow> net_step sha db db'"
| move: "transition tid r outcome now db = (res, db') \<Longrightarrow> net_step sha db db'"
| release: "release_execution tid outcome now db = (res, db') \<Longrightarrow> net_step sha db db'"
| boot: "mark_boot_reconciled boot outcome now db = (res, db') \<Longrightarrow> net_step sha db db'"
| scan: "scan_stamp outcome now db = (res, db') \<Longrightarrow> net_step sha db db'"

inductive net_run :: "(string \<Rightarrow> string) \<Rightarrow> database \<Rightarrow> database \<Rightarrow> bool" for sha where
  stay: "net_run sha db db"
| more: "net_run sha db db' \<Longrightarrow> net_step sha db' db'' \<Longrightarrow> net_run sha db db''"

definition receipts_of :: "jobject \<Rightarrow> jobject" where
  "receipts_of st = obj_or_empty (jget st ''receipts'')"

definition state_revision_of :: "jobject \<Rightarrow> int" where
  "state_revision_of st = int_value (jget st ''source_revision'')"

text \<open>What a step keeps of the document: the authority, every receipt; the revision does not fall.\<close>

definition keeps :: "jobject \<Rightarrow> jobject \<Rightarrow> bool" where
  "keeps st st' \<longleftrightarrow>
     jget st' ''authority_epoch'' = jget st ''authority_epoch'' \<and>
     state_revision_of st \<le> state_revision_of st' \<and>
     (\<forall>s. jget (receipts_of st) s \<noteq> JNull \<longrightarrow> jget (receipts_of st') s = jget (receipts_of st) s)"

lemma keeps_refl: "keeps st st"
  by (simp add: keeps_def)

lemma keeps_trans: "keeps a b \<Longrightarrow> keeps b c \<Longrightarrow> keeps a c"
  by (auto simp: keeps_def)

lemma keeps_canon:
  assumes "keeps st new" and "canon_obj st = st" and "valid_state (JObj new) = Inr True"
  shows "keeps st (canon_obj new)"
proof -
  have c: "canon (jget st k) = jget st k" for k
    using assms(2) jget_canon_obj [of st k] by simp
  have e: "canon (jget new ''authority_epoch'') = jget new ''authority_epoch''"
    using assms(1) c by (simp add: keeps_def)
  have r: "canon (jget (receipts_of st) s) = jget (receipts_of st) s" for s
    using c [of "''receipts''"] by (metis jget_canon_obj obj_or_empty_canon receipts_of_def)
  show ?thesis
    using assms(1) e r by (auto simp: keeps_def state_revision_of_def receipts_of_def)
qed

lemma keeps_store:
  assumes "store outcome now new r db = (res, db')" and "load_locked db = Inr st"
    and "canonical_db db" and "keeps st new"
  shows "canonical_db db' \<and> (\<exists>st'. load_locked db' = Inr st' \<and> keeps st st')"
  using assms(1)
proof (cases rule: store_database)
  case unchanged
  then show ?thesis using assms keeps_refl by auto
next
  case written
  have "canonical_db db'" using canonical_db_put [OF assms(3) written(1)] .
  then show ?thesis
    using written(2) keeps_canon [OF assms(4) load_locked_canonical [OF assms(3,2)] written(3)] by blast
qed

lemma stored_receipt_None: "stored_receipt st scope fp = Inr None \<Longrightarrow> jget (receipts_of st) scope = JNull"
  by (cases "jget (receipts_of st) scope")
     (auto simp: stored_receipt_def receipts_of_def guardE_def split: if_splits json.splits)

lemma keeps_accepted:
  assumes "stored_receipt st scope fp = Inr None"
  shows "keeps st (accepted_state a scope st)"
  using stored_receipt_None [OF assms]
  by (auto simp: keeps_def state_revision_of_def receipts_of_def accepted_state_fields)

lemma keeps_moved: "keeps st (moved_state tid r c st)"
  by (simp add: keeps_def state_revision_of_def receipts_of_def moved_state_fields)

lemma keeps_other_field:
  "f \<notin> {''authority_epoch'', ''source_revision'', ''receipts''} \<Longrightarrow> keeps st (jset f v st)"
  "f \<notin> {''authority_epoch'', ''source_revision'', ''receipts''} \<Longrightarrow> keeps st (put_field f k v st)"
  by (auto simp: keeps_def state_revision_of_def receipts_of_def)

lemma keeps_scan: "keeps st (jset ''source_revision'' (JInt (int_value (jget st ''source_revision'') + 1)) st)"
  by (simp add: keeps_def state_revision_of_def receipts_of_def)

lemma tryS_cases:
  assumes "tryS m s k = (res, s')"
  obtains (raised) e where "m = Inl e" "res = Inl e" "s' = s" | (went) x where "m = Inr x" "k x = (res, s')"
  by (cases m) (use assms that in auto)

text \<open>Each operation leaves the database as it found it or stores one new document.\<close>

lemma accept_effect:
  assumes "accept_transaction sha a outcome now db = (res, db')"
  obtains (same) "db' = db"
    | (stored) st r res' where "load_locked db = Inr st"
        and "stored_receipt st (scope_of sha (principal_id a) (idempotency_key a)) (request_fingerprint a) = Inr None"
        and "store outcome now (accepted_state a (scope_of sha (principal_id a) (idempotency_key a)) st) r db
               = (res', db')"
        and "window_slot st ''current'' = JNull" and "accept_input_bad a = Inr False"
        and "res = res'"
        and "r = (JObj (new_receipt a (new_transaction a (jget st ''authority_epoch'')
                                (int_value (jget st ''source_revision'') + 1))), False)"
  using assms
  by (auto simp: accept_transaction_def Let_def elim!: tryS_cases split: if_splits option.splits)

lemma transition_effect:
  assumes "transition tid r outcome now db = (res, db')"
  obtains (same) "db' = db" "\<And>x. res \<noteq> Inr x"
    | (stored) st current where "load_locked db = Inr st"
        and "window_slot st ''current'' = JObj current" and "jget current ''transaction_id'' = JStr tid"
        and "transition_input_bad r = Inr False"
        and "store outcome now (moved_state tid r current st)
               (JObj (moved_transaction r (int_value (jget st ''source_revision'') + 1) current)) db = (res, db')"
  using assms
  by (auto simp: transition_def elim!: tryS_cases split: if_splits json.splits)

lemma release_effect:
  assumes "release_execution tid outcome now db = (res, db')"
  obtains (same) "db' = db"
    | (stored) st r where "load_locked db = Inr st"
        and "store outcome now (put_field ''execution_release'' tid (JBool True) st) r db = (res, db')"
  using assms by (auto simp: release_execution_def elim!: tryS_cases split: if_splits json.splits)

lemma boot_effect:
  assumes "mark_boot_reconciled boot_id outcome now db = (res, db')"
  obtains (same) "db' = db"
    | (stored) st r where "load_locked db = Inr st"
        and "store outcome now (jset ''rescue_boot_id'' (JStr boot_id) st) r db = (res, db')"
  using assms by (auto simp: mark_boot_reconciled_def elim!: tryS_cases split: if_splits)

lemma net_step_keeps:
  assumes "net_step sha db db'" and "load_locked db = Inr st" and "canonical_db db"
  shows "canonical_db db' \<and> (\<exists>st'. load_locked db' = Inr st' \<and> keeps st st')"
  using assms(1)
proof cases
  case (accept a outcome now res)
  then show ?thesis
  proof (cases rule: accept_effect)
    case same
    then show ?thesis using assms(2,3) keeps_refl by auto
  next
    case (stored st1 r res')
    then show ?thesis
      using keeps_store [OF stored(3,1) assms(3) keeps_accepted [OF stored(2)]] assms(2) by simp
  qed
next
  case (move tid r outcome now res)
  then show ?thesis
  proof (cases rule: transition_effect)
    case same
    then show ?thesis using assms(2,3) keeps_refl by auto
  next
    case (stored st1 current)
    then show ?thesis
      using keeps_store [OF stored(5,1) assms(3) keeps_moved] assms(2) by simp
  qed
next
  case (release tid outcome now res)
  then show ?thesis
  proof (cases rule: release_effect)
    case same
    then show ?thesis using assms(2,3) keeps_refl by auto
  next
    case (stored st1 r)
    then show ?thesis
      using keeps_store [OF stored(2,1) assms(3) keeps_other_field(2)] assms(2) by simp
  qed
next
  case (boot boot outcome now res)
  then show ?thesis
  proof (cases rule: boot_effect)
    case same
    then show ?thesis using assms(2,3) keeps_refl by auto
  next
    case (stored st1 r)
    then show ?thesis
      using keeps_store [OF stored(2,1) assms(3) keeps_other_field(1)] assms(2) by simp
  qed
next
  case (scan outcome now res)
  then have "store outcome now (jset ''source_revision'' (JInt (int_value (jget st ''source_revision'') + 1)) st)
      (jget st ''authority_epoch'', int_value (jget st ''source_revision'') + 1) db = (res, db')"
    using assms(2) by (simp add: scan_stamp_def Let_def)
  then show ?thesis by (rule keeps_store [OF _ assms(2,3) keeps_scan])
qed

lemma net_run_keeps:
  assumes "net_run sha db db'" and "load_locked db = Inr st" and "canonical_db db"
  shows "canonical_db db' \<and> (\<exists>st'. load_locked db' = Inr st' \<and> keeps st st')"
  using assms
proof (induction rule: net_run.induct)
  case (stay db)
  then show ?case using keeps_refl by auto
next
  case (more db db' db'')
  then obtain st' where "load_locked db' = Inr st'" "keeps st st'" "canonical_db db'" by auto
  with net_step_keeps [OF more.hyps(2) this(1,3)] keeps_trans show ?case by blast
qed

section \<open>Keys that carry no secret\<close>

definition plain_key :: "string \<Rightarrow> bool" where
  "plain_key s \<longleftrightarrow> list_all (\<lambda>c. (of_char c :: nat) < 128 \<and> \<not> is_upper c) s"

lemma casefold_plain: "plain_key s \<Longrightarrow> casefold s = s"
proof (induction s rule: casefold.induct)
  case (2 c s)
  then have c: "(of_char c :: nat) < 128" "\<not> is_upper c" "plain_key s" by (auto simp: plain_key_def)
  have "find (\<lambda>(p, r). take (length p) (map of_char (c # s)) = p) ascii_foldings = None"
    using c(1) by (auto simp: find_None_iff ascii_foldings_def)
  with 2 c show ?case by simp
qed simp

lemma hex_char_plain: "is_hex c \<Longrightarrow> (of_char c :: nat) < 128 \<and> \<not> is_upper c"
  by (auto simp: is_hex_def is_digit_def is_upper_def)

lemma hex_or_dash_not_forbidden:
  assumes "list_all (\<lambda>c. is_hex c \<or> c = CHR ''-'') s"
  shows "casefold s \<notin> set forbidden_persisted_keys"
proof -
  have "plain_key s"
    using assms hex_char_plain by (auto simp: plain_key_def list_all_iff is_upper_def)
  moreover have "s \<notin> set forbidden_persisted_keys"
    using assms by (auto simp: forbidden_persisted_keys_def is_hex_def is_digit_def)
  ultimately show ?thesis by (simp add: casefold_plain)
qed

lemma uuid_v7_chars: "uuid_v7 s \<Longrightarrow> list_all (\<lambda>c. is_hex c \<or> c = CHR ''-'') s"
proof -
  have "match_classes ps s \<Longrightarrow> \<forall>p \<in> set ps. \<forall>c. p c \<longrightarrow> q c \<Longrightarrow> list_all q s" for ps :: "(char \<Rightarrow> bool) list" and q
    by (induction ps s rule: match_classes.induct) auto
  then show "uuid_v7 s \<Longrightarrow> list_all (\<lambda>c. is_hex c \<or> c = CHR ''-'') s"
    unfolding uuid_v7_def
    by (auto simp: uuid_classes_def is_variant_char_def is_hex_def is_digit_def)
qed

lemma forbidden_jset:
  "\<not> contains_forbidden_key (JObj d) \<Longrightarrow> casefold k \<notin> set forbidden_persisted_keys \<Longrightarrow>
     \<not> contains_forbidden_key v \<Longrightarrow> \<not> contains_forbidden_key (JObj (jset k v d))"
  using set_jset_subset [of k v d] by (auto simp: list_ex_iff)

lemma forbidden_field: "\<not> contains_forbidden_key (JObj d) \<Longrightarrow> \<not> contains_forbidden_key (jget d k)"
proof (cases "jget d k = JNull")
  case False
  then have "(k, jget d k) \<in> set d" by (rule jget_in_set)
  then show "\<not> contains_forbidden_key (JObj d) \<Longrightarrow> ?thesis" by (auto simp: list_ex_iff)
qed simp

lemma forbidden_obj_or_empty: "\<not> contains_forbidden_key v \<Longrightarrow> \<not> contains_forbidden_key (JObj (obj_or_empty v))"
  by (cases v) auto

lemma forbidden_put_field:
  "\<not> contains_forbidden_key (JObj st) \<Longrightarrow> casefold f \<notin> set forbidden_persisted_keys \<Longrightarrow>
   casefold k \<notin> set forbidden_persisted_keys \<Longrightarrow> \<not> contains_forbidden_key v \<Longrightarrow>
     \<not> contains_forbidden_key (JObj (put_field f k v st))"
  unfolding put_field_def
  by (intro forbidden_jset forbidden_obj_or_empty forbidden_field)

lemma state_keys_not_forbidden:
  "k \<in> set (state_keys @ transaction_keys @ [''current'', ''latest'', ''request_fingerprint'', ''receipt'',
      ''ap_validated'', ''fallback_mode'', ''failure_trigger_seconds'', ''transaction'']) \<Longrightarrow>
     casefold k \<notin> set forbidden_persisted_keys"
  by (subst casefold_plain)
     (auto simp: state_keys_def transaction_keys_def plain_key_def is_upper_def forbidden_persisted_keys_def)

lemmas key_not_forbidden = state_keys_not_forbidden [simplified state_keys_def transaction_keys_def]

lemma new_transaction_clean:
  "\<not> contains_forbidden_key (JObj (desired a)) \<Longrightarrow> \<not> contains_forbidden_key epoch \<Longrightarrow>
     \<not> contains_forbidden_key (JObj (new_transaction a epoch n))"
  by (simp add: new_transaction_def key_not_forbidden del: casefold.simps)

section \<open>An idle authority accepts every well-formed request\<close>

lemma accept_input_ok:
  "accept_input_bad a = Inr False \<longleftrightarrow>
     operation a \<in> {''apply'', ''retry'', ''forget''} \<and> valid_desired_state (JObj (desired a)) = Inr True \<and>
     uuid_v7 (transaction_id a) \<and> accepted_at a \<noteq> [] \<and> hex_n 64 (request_fingerprint a) \<and>
     \<not> contains_forbidden_key (JObj (work a)) \<and> \<not> (verified a = Some True \<and> saved a = Some False)"
  by (auto simp: accept_input_bad_def disjE_list_False)

lemma valid_new_transaction:
  assumes "accept_input_bad a = Inr False" and "valid_uuid4 epoch" and "0 \<le> n"
  shows "valid_transaction (JObj (new_transaction a epoch n)) = Inr True"
  using assms
  by (auto simp: accept_input_ok valid_transaction_def new_transaction_def has_keys_def transaction_keys_def
      transaction_statuses_def transaction_stages_def stage_status_def valid_deadline_def
      recovery_actions_def valid_rescue_def valid_transaction_error_def in_set_def in_strs_def eq_str_def)

lemma valid_receipt_entry_mono:
  assumes "valid_receipt_entry epoch rv x = Inr True" and "rv \<le> rv'"
  shows "valid_receipt_entry epoch rv' x = Inr True"
proof -
  have "int_in v (\<lambda>i. i \<le> rv) \<Longrightarrow> int_in v (\<lambda>i. i \<le> rv')" for v using assms(2) by (cases v) auto
  with assms(1) show ?thesis
    by (auto simp: valid_receipt_entry_def split: prod.splits json.splits)
qed

lemma valid_new_receipt:
  assumes "accept_input_bad a = Inr False" and "valid_uuid4 epoch" and "0 \<le> n" and "hex_n 64 scope"
  shows "valid_receipt_entry epoch n (scope, JObj [(''request_fingerprint'', JStr (request_fingerprint a)),
       (''receipt'', JObj (new_receipt a (new_transaction a epoch n)))]) = Inr True"
  using assms valid_new_transaction [OF assms(1-3)]
  by (auto simp: valid_receipt_entry_def new_receipt_def has_keys_def eq_str_def accept_input_ok
      new_transaction_def)

text \<open>The two flags a request leaves in the document.\<close>

definition flags_consistent :: "accept_request \<Rightarrow> jobject \<Rightarrow> bool" where
  "flags_consistent a st \<longleftrightarrow>
     (let is_saved = (case saved a of
            Some b \<Rightarrow> b
          | None \<Rightarrow> (if publish_desired a then jget (desired a) ''mode'' = JStr ''wifi-client''
                     else jget st ''saved'' = JBool True));
          is_verified = (case verified a of
            Some b \<Rightarrow> b | None \<Rightarrow> \<not> publish_desired a \<and> jget st ''verified'' = JBool True)
      in is_verified \<longrightarrow> is_saved)"

lemma accepted_flags:
  assumes "is_bool (jget st ''saved'')" and "is_bool (jget st ''verified'')" and "flags_consistent a st"
  shows "is_bool (jget (accepted_state a scope st) ''saved'')"
    and "is_bool (jget (accepted_state a scope st) ''verified'')"
    and "jget (accepted_state a scope st) ''verified'' = JBool True \<longrightarrow>
           jget (accepted_state a scope st) ''saved'' = JBool True"
  using assms
  by (auto simp: accepted_state_def Let_def set_flag_def flags_consistent_def eq_str_def split: option.splits)

lemma accepted_state_keys:
  "has_keys st state_keys \<Longrightarrow> has_keys (accepted_state a scope st) state_keys"
  by (auto simp: accepted_state_def Let_def set_flag_def put_field_def has_keys_def state_keys_def
      split: option.splits)

text \<open>A document without a credential key, kept folded.\<close>

definition clean :: "jobject \<Rightarrow> bool" where
  "clean d \<longleftrightarrow> \<not> contains_forbidden_key (JObj d)"

lemma clean_jset:
  "clean d \<Longrightarrow> casefold k \<notin> set forbidden_persisted_keys \<Longrightarrow> \<not> contains_forbidden_key v \<Longrightarrow> clean (jset k v d)"
  unfolding clean_def by (rule forbidden_jset)

lemma clean_put_field:
  "clean d \<Longrightarrow> casefold f \<notin> set forbidden_persisted_keys \<Longrightarrow> casefold k \<notin> set forbidden_persisted_keys \<Longrightarrow>
     \<not> contains_forbidden_key v \<Longrightarrow> clean (put_field f k v d)"
  unfolding clean_def by (rule forbidden_put_field)

lemma clean_set_flag:
  "clean d \<Longrightarrow> casefold k \<notin> set forbidden_persisted_keys \<Longrightarrow> clean (set_flag k v u b d)"
  by (auto simp: set_flag_def intro!: clean_jset split: option.splits)

lemma clean_if: "(c \<Longrightarrow> clean a) \<Longrightarrow> (\<not> c \<Longrightarrow> clean b) \<Longrightarrow> clean (if c then a else b)"
  by simp

lemma accepted_state_clean:
  assumes "clean st" and d: "\<not> contains_forbidden_key (JObj (desired a))"
    and w: "\<not> contains_forbidden_key (JObj (work a))" and "uuid_v7 (transaction_id a)" and "hex_n 64 scope"
  shows "clean (accepted_state a scope st)"
proof -
  have tid: "casefold (transaction_id a) \<notin> set forbidden_persisted_keys"
    using assms(4) by (intro hex_or_dash_not_forbidden uuid_v7_chars)
  have sc: "casefold scope \<notin> set forbidden_persisted_keys"
    using assms(5) by (intro hex_or_dash_not_forbidden) (auto simp: hex_n_def list_all_iff)
  have e: "\<not> contains_forbidden_key (jget st ''authority_epoch'')"
    using assms(1) unfolding clean_def by (rule forbidden_field)
  have t: "\<not> contains_forbidden_key (JObj (new_transaction a (jget st ''authority_epoch'') n))" for n
    by (rule new_transaction_clean [OF d e])
  have r: "\<not> contains_forbidden_key (JObj [(''request_fingerprint'', JStr (request_fingerprint a)),
      (''receipt'', JObj (new_receipt a (new_transaction a (jget st ''authority_epoch'') n)))])" for n
    using t [of n] by (simp add: new_receipt_def key_not_forbidden del: casefold.simps)
  have x: "\<not> contains_forbidden_key (JObj [(transaction_id a, JBool b)])" for b
    using tid by simp
  show ?thesis
    unfolding accepted_state_def Let_def
    by (intro clean_put_field clean_jset clean_set_flag clean_if assms(1) d w t r x tid sc key_not_forbidden)
       (simp_all add: assms(1))
qed

lemma state_revision_nonneg: "valid_state (JObj st) = Inr True \<Longrightarrow> 0 \<le> int_value (jget st ''source_revision'')"
  by (cases "jget st ''source_revision''") (auto simp: valid_state_iff)

lemma valid_receipts_jset:
  assumes "valid_receipts v epoch rv = Inr True" and "rv \<le> rv'"
    and "valid_receipt_entry epoch rv' (scope, e) = Inr True"
  shows "valid_receipts (JObj (jset scope e (obj_or_empty v))) epoch rv' = Inr True"
proof (cases v)
  case (JObj d)
  have "valid_receipt_entry epoch rv' x = Inr True" if "x \<in> set (jset scope e d)" for x
  proof -
    have "x = (scope, e) \<or> x \<in> set d" using that set_jset_subset [of scope e d] by blast
    moreover have "\<forall>y \<in> set d. valid_receipt_entry epoch rv y = Inr True"
      using assms(1) JObj by (simp add: valid_receipts_def)
    ultimately show ?thesis using assms(2,3) valid_receipt_entry_mono by blast
  qed
  then show ?thesis using JObj by (auto simp: valid_receipts_def)
qed (use assms in \<open>simp_all add: valid_receipts_def\<close>)

lemma valid_receipts_mono:
  assumes "valid_receipts v epoch rv = Inr True" and "rv \<le> rv'"
  shows "valid_receipts v epoch rv' = Inr True"
  using assms valid_receipt_entry_mono by (cases v) (auto simp: valid_receipts_def)

lemma slot_published_mono: "slot_published v epoch rv \<Longrightarrow> rv \<le> rv' \<Longrightarrow> slot_published v epoch rv'"
  by (cases v; cases "jget (obj_or_empty v) ''source_revision''") (auto simp: slot_published_def)

lemma accepted_state_window:
  "window_slot (accepted_state a scope st) ''current'' =
     JObj (new_transaction a (jget st ''authority_epoch'') (int_value (jget st ''source_revision'') + 1))"
  "window_slot (accepted_state a scope st) ''latest'' = window_slot st ''latest''"
  by (simp_all add: window_slot_def accepted_state_fields)

lemma new_transaction_fields:
  "jget (new_transaction a epoch n) ''status'' = JStr ''accepted''"
  "jget (new_transaction a epoch n) ''authority_epoch'' = epoch"
  "jget (new_transaction a epoch n) ''source_revision'' = JInt n"
  "jget (new_transaction a epoch n) ''transaction_id'' = JStr (transaction_id a)"
  by (simp_all add: new_transaction_def)

lemma valid_accepted_state:
  assumes st: "valid_state (JObj st) = Inr True" and a: "accept_input_bad a = Inr False"
    and scope: "hex_n 64 scope"
    and flags: "flags_consistent a st" and cl: "\<not> contains_forbidden_key (JObj (desired a))"
  shows "valid_state (JObj (accepted_state a scope st)) = Inr True"
proof -
  let ?n = "int_value (jget st ''source_revision'')"
  note v = st [unfolded valid_state_iff]
  have n: "0 \<le> ?n + 1" using state_revision_nonneg [OF st] by simp
  have cst: "clean st" using v by (auto simp: clean_def)
  have clean': "\<not> contains_forbidden_key (JObj (accepted_state a scope st))"
    using accepted_state_clean [OF cst cl _ _ scope] a by (auto simp: clean_def accept_input_ok)
  have epoch: "valid_uuid4 (jget st ''authority_epoch'')" using v by blast
  have t: "slot_transaction (JObj (new_transaction a (jget st ''authority_epoch'') (?n + 1))) = Inr True"
    using valid_new_transaction [OF a epoch n] by (simp add: slot_transaction_def)
  have "valid_receipts (jget st ''receipts'') (jget st ''authority_epoch'') ?n = Inr True" using v by blast
  then have r: "valid_receipts (jget (accepted_state a scope st) ''receipts'') (jget st ''authority_epoch'') (?n + 1) = Inr True"
    unfolding accepted_state_fields
    by (rule valid_receipts_jset [OF _ _ valid_new_receipt [OF a epoch n scope]]) simp
  have keys: "has_keys (accepted_state a scope st) state_keys"
    using v by (intro accepted_state_keys) blast
  have flag: "is_bool (jget st ''saved'')" "is_bool (jget st ''verified'')" using v by blast+
  have "slot_published (window_slot st ''latest'') (jget st ''authority_epoch'') ?n" using v by blast
  then have latest: "slot_published (window_slot st ''latest'') (jget st ''authority_epoch'') (?n + 1)"
    by (rule slot_published_mono) simp
  have d: "valid_desired_state (jget (accepted_state a scope st) ''desired'') = Inr True"
  proof (cases "publish_desired a")
    case True
    then show ?thesis using a unfolding accepted_state_fields accept_input_ok by simp
  next
    case False
    then show ?thesis using v unfolding accepted_state_fields by simp
  qed
  have w: "has_keys (obj_or_empty (jget (accepted_state a scope st) ''transaction'')) [''current'', ''latest'']"
    using v by (simp add: accepted_state_fields)
  have rel: "valid_release (JObj [(transaction_id a, JBool (execution_released a))])
      (JObj (new_transaction a (jget st ''authority_epoch'') (?n + 1)))"
    using a by (simp add: valid_release_def new_transaction_fields has_keys_def accept_input_ok)
  show ?thesis
    unfolding valid_state_iff accepted_state_window
  proof (intro conjI)
    show "slot_transaction (window_slot st ''latest'') = Inr True"
      "slot_status (window_slot st ''latest'') terminal_statuses" using v by blast+
    show "eq_str (jget (accepted_state a scope st) ''schema'') controller_state_schema"
      "valid_boot_id (jget (accepted_state a scope st) ''rescue_boot_id'')"
      using v unfolding accepted_state_fields by blast+
    show "slot_published (window_slot st ''latest'') (jget (accepted_state a scope st) ''authority_epoch'')
        (int_value (jget (accepted_state a scope st) ''source_revision''))"
      using latest by (simp only: accepted_state_fields int_value.simps)
  qed (fact keys t d w clean' accepted_flags [OF flag flags] | simp add: n epoch latest r [unfolded accepted_state_fields] rel
        accepted_state_fields slot_status_def slot_published_def new_transaction_fields in_strs_def
        del: contains_forbidden_key.simps)+
qed

end
