(* ===== verification/NetworkStateProps.thy ===== *)
theory NetworkStateProps
  imports NetworkStateFacts
begin

text \<open>
  The properties of the network authority, with the concrete documents their witnesses use.
\<close>

section \<open>A concrete authority\<close>

definition ex_uuid4 :: string where
  "ex_uuid4 = ''00000000-0000-4000-8000-000000000000''"

definition ex_tid :: string where
  "ex_tid = ''00000000-0000-7000-8000-000000000001''"

definition ex_sha :: "string \<Rightarrow> string" where
  "ex_sha s = replicate 64 (CHR ''0'')"

definition ex_desired :: jobject where
  "ex_desired = [(''mode'', JStr ''hotspot''), (''wifi_client'', JNull), (''ethernet'', JNull)]"

definition ex_database :: database where
  "ex_database = \<lparr>documents = [''controller'' \<mapsto>
      \<lparr>body = canon (JObj (initial_state ex_desired ex_uuid4)), revision = 1, updated_at = ''t''\<rparr>],
     import_receipts = Map.empty, changes = []\<rparr>"

definition ex_accept :: accept_request where
  "ex_accept = \<lparr>operation = ''apply'', desired = ex_desired, principal_id = ''admin'',
     idempotency_key = ''k1'', request_fingerprint = replicate 64 (CHR ''a''),
     transaction_id = ex_tid, accepted_at = ''2026-01-01T00:00:00Z'', work = [],
     execution_released = True, publish_desired = True, saved = None, verified = None\<rparr>"

lemma ex_uuids: "uuid_v4 ex_uuid4" "uuid_v7 ex_tid"
  by (simp_all add: uuid_v4_def uuid_v7_def ex_uuid4_def ex_tid_def uuid_classes_def is_hex_def is_digit_def
      is_variant_char_def numeral_eq_Suc)

lemma ex_desired_valid: "valid_desired_state (JObj ex_desired) = Inr True"
  by (simp add: valid_desired_state_def ex_desired_def has_keys_def valid_saved_ethernet_def eq_str_def Let_def)

lemma ex_desired_clean: "\<not> contains_forbidden_key (JObj ex_desired)"
proof -
  have "casefold k \<notin> set forbidden_persisted_keys" if "k \<in> {''mode'', ''wifi_client'', ''ethernet''}" for k
    using that by (subst casefold_plain) (auto simp: plain_key_def is_upper_def forbidden_persisted_keys_def)
  then show ?thesis by (simp add: ex_desired_def del: casefold.simps)
qed

section \<open>The first document\<close>

lemma valid_initial_state:
  assumes "uuid_v4 u" and "valid_desired_state (JObj d) = Inr True" and "\<not> contains_forbidden_key (JObj d)"
  shows "valid_state (JObj (initial_state d u)) = Inr True"
proof -
  have c: "\<not> contains_forbidden_key (JObj (initial_state d u))"
    using assms(3) by (simp add: initial_state_def Let_def key_not_forbidden del: casefold.simps)
  show ?thesis
    unfolding valid_state_iff using assms(1,2) c
    by (simp add: initial_state_def Let_def window_slot_def has_keys_def state_keys_def eq_str_def
        valid_uuid4_def slot_transaction_def slot_status_def slot_published_def valid_receipts_def
        valid_boot_id_def valid_release_def del: contains_forbidden_key.simps)
qed

lemma ex_load: "load_locked ex_database = Inr (canon_obj (initial_state ex_desired ex_uuid4))"
  using valid_state_canon [OF valid_initial_state [OF ex_uuids(1) ex_desired_valid ex_desired_clean]]
  by (simp add: load_locked_iff db_get_def ex_database_def)

lemma ex_canonical: "canonical_db ex_database"
  unfolding canonical_db_def ex_database_def by (simp del: canon_JObj)

lemma ex_accept_ok: "accept_input_bad ex_accept = Inr False"
  using ex_desired_valid ex_uuids
  by (simp add: accept_input_ok ex_accept_def hex_n_def is_hex_def is_digit_def list_all_iff)

text \<open>Opening the store on an empty database commits a valid first document with revision 0, no
  transaction and no receipt, under the freshly drawn authority, and leaves its import receipt so
  that a lost document is never silently recreated.\<close>

theorem open_store_fresh:
  assumes "documents db ''controller'' = None" and "import_receipts db ''controller'' = None"
    and "uuid_v4 u" and "valid_desired_state (JObj d) = Inr True" and "\<not> contains_forbidden_key (JObj d)"
  shows "\<exists>db'. open_store None path d u outcome now db = (Inr (), db') \<and>
           load_locked db' = Inr (canon_obj (initial_state d u)) \<and>
           open_store None path d u outcome now (db'\<lparr>documents := (documents db')(''controller'' := None)\<rparr>)
             = (Inl persistence_error, db'\<lparr>documents := (documents db')(''controller'' := None)\<rparr>)"
proof -
  have v: "valid_state (JObj (initial_state d u)) = Inr True"
    by (rule valid_initial_state [OF assms(3-5)])
  have m: "migrate_document (initial_state d u) = Inr (initial_state d u)"
    by (simp add: migrate_document_def initial_state_def Let_def)
  show ?thesis
    using v m assms(1,2) valid_state_canon [OF v]
    by (simp add: open_store_def import_json_def validate_import_def Let_def load_locked_iff db_get_def
        validate_def del: contains_forbidden_key.simps)
qed

theorem open_store_fresh_witness:
  "\<exists>db'. open_store None ''state.json'' ex_desired ex_uuid4 Committed ''t'' empty_database = (Inr (), db') \<and>
     load_locked db' = Inr (canon_obj (initial_state ex_desired ex_uuid4))"
  using open_store_fresh [of empty_database ex_uuid4 ex_desired "''state.json''" Committed "''t''"]
    ex_uuids ex_desired_valid ex_desired_clean
  by (auto simp: empty_database_def)

section \<open>Idempotent acceptance\<close>

lemma is_objI: "JObj d = v \<Longrightarrow> is_obj v"
  by auto

lemma accept_result:
  assumes "accept_transaction sha a outcome now db = (Inr (receipt, replayed), db1)"
    and "canonical_db db" and "load_locked db = Inr st"
  shows "\<exists>st1. load_locked db1 = Inr st1 \<and> canonical_db db1 \<and> keeps st st1 \<and>
           (\<exists>entry. jget (receipts_of st1) (scope_of sha (principal_id a) (idempotency_key a)) = JObj entry \<and>
             jget entry ''request_fingerprint'' = JStr (request_fingerprint a) \<and>
             jget entry ''receipt'' = canon receipt \<and> is_obj receipt)"
proof -
  let ?scope = "scope_of sha (principal_id a) (idempotency_key a)"
  have input: "accept_input_bad a = Inr False"
    using assms(1) by (auto simp: accept_transaction_def elim!: tryS_cases split: if_splits)
  consider (old) r where "stored_receipt st ?scope (request_fingerprint a) = Inr (Some r)"
      "receipt = r" "db1 = db"
    | (new) "stored_receipt st ?scope (request_fingerprint a) = Inr None"
      "store outcome now (accepted_state a ?scope st) (JObj (new_receipt a (new_transaction a
         (jget st ''authority_epoch'') (int_value (jget st ''source_revision'') + 1))), False) db
           = (Inr (receipt, replayed), db1)"
    using assms(1,3) input
    by (auto simp: accept_transaction_def Let_def elim!: tryS_cases split: if_splits option.splits)
  then show ?thesis
  proof cases
    case old
    have "canon r = r"
    proof -
      have "canon (jget (receipts_of st) ?scope) = jget (receipts_of st) ?scope"
        using load_locked_canonical [OF assms(2,3)]
        by (metis jget_canon_obj obj_or_empty_canon receipts_of_def)
      with old(1) show ?thesis
        by (cases "jget (receipts_of st) ?scope")
           (auto simp: stored_receipt_def receipts_of_def split: json.splits,
            metis canon.simps(2) canon_JObj jget_canon_obj)
    qed
    with old show ?thesis
      using assms(2,3) keeps_refl
      by (cases "jget (receipts_of st) ?scope")
         (auto simp: stored_receipt_def receipts_of_def eq_str_def intro: is_objI split: json.splits)
  next
    case new
    have v: "valid_state (JObj st) = Inr True" using assms(3) by (simp add: load_locked_iff)
    note k = keeps_accepted [OF new(1), of a]
    have ch: "\<not> py_eq (jget st ''source_revision'') (jget (accepted_state a ?scope st) ''source_revision'')"
      by (rule revision_bumped [OF v]) (simp add: accepted_state_fields)
    have l: "load_locked db1 = Inr (canon_obj (accepted_state a ?scope st))"
      and r: "receipt = JObj (new_receipt a (new_transaction a
         (jget st ''authority_epoch'') (int_value (jget st ''source_revision'') + 1)))"
      using store_success_changed [OF new(2) assms(3) _ ch] by (auto simp: state_keys_def)
    have "canonical_db db1" using keeps_store [OF new(2) assms(3,2) k] by blast
    moreover have "keeps st (canon_obj (accepted_state a ?scope st))"
      using keeps_canon [OF k load_locked_canonical [OF assms(2,3)]] store_success(2) [OF new(2)] by blast
    ultimately show ?thesis
      using l r by (simp add: receipts_of_def accepted_state_fields)
  qed
qed

lemma receipt_replays:
  assumes "accept_transaction sha a outcome now db = (Inr (receipt, replayed), db1)"
    and "canonical_db db" and "load_locked db = Inr st" and "net_run sha db1 db2"
  shows "replay_receipt sha (principal_id a) (idempotency_key a) fp db2 =
           (if fp = request_fingerprint a then Inr (Some (canon receipt))
            else Inl (state_error ''idempotency_conflict'' False))"
proof -
  obtain st1 entry where st1: "load_locked db1 = Inr st1" "canonical_db db1"
    and entry: "jget (receipts_of st1) (scope_of sha (principal_id a) (idempotency_key a)) = JObj entry"
      "jget entry ''request_fingerprint'' = JStr (request_fingerprint a)"
      "jget entry ''receipt'' = canon receipt" "is_obj receipt"
    using accept_result [OF assms(1-3)] by blast
  obtain st2 where st2: "load_locked db2 = Inr st2" "keeps st1 st2"
    using net_run_keeps [OF assms(4) st1] by blast
  then have "jget (receipts_of st2) (scope_of sha (principal_id a) (idempotency_key a)) = JObj entry"
    using entry(1) by (simp add: keeps_def)
  then show ?thesis
    using st2(1) entry(2-4)
    by (cases receipt) (auto simp: replay_receipt_def stored_receipt_def receipts_of_def eq_str_def)
qed

lemma stored_receipt_canonical:
  assumes "stored_receipt st scope fp = Inr (Some r)" and "canonical_db db" and "load_locked db = Inr st"
  shows "canon r = r"
proof -
  have "canon (jget (receipts_of st) scope) = jget (receipts_of st) scope"
    using load_locked_canonical [OF assms(2,3)]
    by (metis jget_canon_obj obj_or_empty_canon receipts_of_def)
  with assms(1) show ?thesis
    by (cases "jget (receipts_of st) scope")
       (auto simp: stored_receipt_def receipts_of_def split: json.splits,
        metis canon.simps(2) canon_JObj jget_canon_obj)
qed

lemma replay_persists:
  assumes "replay_receipt sha p k fp db = Inr (Some r)" and "canonical_db db" and "load_locked db = Inr st"
    and "net_run sha db db2"
  shows "replay_receipt sha p k fp db2 = Inr (Some r)"
proof -
  obtain st2 where st2: "load_locked db2 = Inr st2" "keeps st st2"
    using net_run_keeps [OF assms(4,3,2)] by blast
  have "stored_receipt st (scope_of sha p k) fp = Inr (Some r)"
    using assms(1,3) by (simp add: replay_receipt_def)
  moreover from this have "jget (receipts_of st) (scope_of sha p k) \<noteq> JNull"
    by (auto simp: stored_receipt_def receipts_of_def)
  ultimately show ?thesis
    using st2 by (simp add: replay_receipt_def keeps_def stored_receipt_def receipts_of_def)
qed

text \<open>Idempotency over time.  Once a request is accepted, then after any further sequence of
  calls on the authority the same principal and idempotency key replay exactly the receipt that
  was returned, and a different request under that key is refused as a conflict.\<close>

theorem accept_then_replay:
  assumes "accept_transaction sha a outcome now db = (Inr (receipt, replayed), db1)"
    and "canonical_db db" and "load_locked db = Inr st" and "net_run sha db1 db2"
  shows "replay_receipt sha (principal_id a) (idempotency_key a) fp db2 =
           (if fp = request_fingerprint a then Inr (Some (canon receipt))
            else Inl (state_error ''idempotency_conflict'' False))"
  by (rule receipt_replays [OF assms])

lemma accept_commits:
  assumes "load_locked db = Inr st" and "window_slot st ''current'' = JNull"
    and "accept_input_bad a = Inr False" and "flags_consistent a st"
    and "\<not> contains_forbidden_key (JObj (desired a))"
    and "hex_n 64 (scope_of sha (principal_id a) (idempotency_key a))"
    and "jget (receipts_of st) (scope_of sha (principal_id a) (idempotency_key a)) = JNull"
  shows "\<exists>db'. accept_transaction sha a Committed now db =
      (Inr (JObj (new_receipt a (new_transaction a (jget st ''authority_epoch'') (state_revision_of st + 1))), False), db')
    \<and> load_locked db' = Inr (canon_obj (accepted_state a (scope_of sha (principal_id a) (idempotency_key a)) st))"
proof -
  let ?new = "accepted_state a (scope_of sha (principal_id a) (idempotency_key a)) st"
  have v: "valid_state (JObj ?new) = Inr True"
    using assms by (intro valid_accepted_state) (simp_all add: load_locked_iff)
  have n: "stored_receipt st (scope_of sha (principal_id a) (idempotency_key a)) (request_fingerprint a) = Inr None"
    using assms(7) by (simp add: stored_receipt_def receipts_of_def)
  have "\<exists>v. db_get ''controller'' db = Inr (Some v)" using assms(1) by (auto simp: load_locked_iff)
  then obtain db' where db': "db_put ''controller'' (JObj ?new) now False db = Inr db'"
    using state_documents.put_total by blast
  have st: "store Committed now ?new r db = (Inr r, db')" for r :: "json \<times> bool"
  proof -
    have val: "validate ?new = Inr ()" using v by simp
    show ?thesis unfolding store_def val write_locked_def using db' by simp
  qed
  have "load_locked db' = Inr (canon_obj ?new)"
    using state_documents.get_put [OF db'] valid_state_canon [OF v] by (simp add: load_locked_iff)
  then show ?thesis
    using assms(1,2,3) n st by (simp add: accept_transaction_def state_revision_of_def Let_def)
qed

text \<open>An idle authority is never stuck.  A well-formed request under an unused key, with
  consistent flags and no credential in its desired state, is accepted by a committing database:
  the answer is a fresh receipt, the request becomes the current transaction at the next revision,
  and its execution release is the requested one.\<close>

theorem idle_accept_succeeds:
  assumes "load_locked db = Inr st" and "window_slot st ''current'' = JNull"
    and "accept_input_bad a = Inr False" and "flags_consistent a st"
    and "\<not> contains_forbidden_key (JObj (desired a))"
    and "hex_n 64 (scope_of sha (principal_id a) (idempotency_key a))"
    and "jget (receipts_of st) (scope_of sha (principal_id a) (idempotency_key a)) = JNull"
  shows "\<exists>db' receipt st'. accept_transaction sha a Committed now db = (Inr (receipt, False), db') \<and>
           load_locked db' = Inr st' \<and>
           jget (obj_or_empty (window_slot st' ''current'')) ''transaction_id'' = JStr (transaction_id a) \<and>
           state_revision_of st' = state_revision_of st + 1 \<and>
           is_execution_released (transaction_id a) db' = Inr (execution_released a)"
proof -
  from accept_commits [OF assms] obtain db' where
    acc: "accept_transaction sha a Committed now db = (Inr (JObj (new_receipt a (new_transaction a
        (jget st ''authority_epoch'') (state_revision_of st + 1))), False), db')"
    and l: "load_locked db' = Inr (canon_obj (accepted_state a (scope_of sha (principal_id a) (idempotency_key a)) st))"
    by blast
  show ?thesis
    by (intro exI conjI, rule acc, rule l)
       (use l in \<open>simp_all add: accepted_state_window new_transaction_fields state_revision_of_def
          accepted_state_fields is_execution_released_def\<close>)
qed

text \<open>The example request is accepted on the example database.\<close>

lemma ex_window: "window_slot (canon_obj (initial_state ex_desired ex_uuid4)) s = JNull"
  unfolding window_slot_canon by (simp add: window_slot_def initial_state_def Let_def)

lemma ex_receipts: "jget (receipts_of (canon_obj (initial_state ex_desired ex_uuid4))) k = JNull"
  unfolding receipts_of_def jget_canon_obj by (simp add: initial_state_def Let_def)

lemma ex_flags: "flags_consistent ex_accept st"
  by (simp add: flags_consistent_def ex_accept_def ex_desired_def)

lemma ex_scope: "hex_n 64 (scope_of ex_sha p k)"
  by (simp add: scope_of_def ex_sha_def hex_n_def is_hex_def is_digit_def list_all_iff)

lemma ex_accept_clean: "\<not> contains_forbidden_key (JObj (desired ex_accept))"
  using ex_desired_clean by (simp add: ex_accept_def del: contains_forbidden_key.simps)

lemmas ex_ready = ex_load ex_window ex_accept_ok ex_flags ex_accept_clean ex_scope ex_receipts

theorem idle_accept_succeeds_witness:
  "\<exists>db' receipt. accept_transaction ex_sha ex_accept Committed ''t'' ex_database = (Inr (receipt, False), db') \<and>
     is_execution_released ex_tid db' = Inr True"
  using idle_accept_succeeds [OF ex_ready, of "''t''"] by (auto simp: ex_accept_def)

theorem accept_then_replay_witness:
  "\<exists>db' receipt. accept_transaction ex_sha ex_accept Committed ''t'' ex_database = (Inr (receipt, False), db') \<and>
     replay_receipt ex_sha ''admin'' ''k1'' (replicate 64 (CHR ''a'')) db' = Inr (Some (canon receipt)) \<and>
     replay_receipt ex_sha ''admin'' ''k1'' [] db' = Inl (state_error ''idempotency_conflict'' False)"
proof -
  obtain db' receipt where acc:
    "accept_transaction ex_sha ex_accept Committed ''t'' ex_database = (Inr (receipt, False), db')"
    using accept_commits [OF ex_ready, of "''t''"] by blast
  show ?thesis
    using acc accept_then_replay [OF acc ex_canonical ex_load net_run.stay]
    by (auto simp: ex_accept_def)
qed

section \<open>Safety of every run\<close>

text \<open>C24: whatever calls the authority receives, with whatever outcome of their commits, its
  document can still be loaded; it keeps its authority epoch, its revision never falls, a verified
  network is a saved one, and no key of the document names a credential.\<close>

theorem authority_invariant:
  assumes "net_run sha db db'" and "canonical_db db" and "load_locked db = Inr st"
  shows "\<exists>st'. load_locked db' = Inr st' \<and>
           jget st' ''authority_epoch'' = jget st ''authority_epoch'' \<and>
           state_revision_of st \<le> state_revision_of st' \<and>
           (jget st' ''verified'' = JBool True \<longrightarrow> jget st' ''saved'' = JBool True) \<and>
           \<not> contains_forbidden_key (JObj st')"
proof -
  obtain st' where st': "load_locked db' = Inr st'" "keeps st st'"
    using net_run_keeps [OF assms(1,3,2)] by blast
  have "valid_state (JObj st') = Inr True" using st'(1) by (simp add: load_locked_iff)
  then show ?thesis using st' unfolding valid_state_iff keeps_def by blast
qed

theorem authority_invariant_witness:
  "\<exists>db'. accept_transaction ex_sha ex_accept (RaisedAfterCommit SqliteFault None) ''t'' ex_database = db' \<and>
     (\<exists>st'. load_locked (snd db') = Inr st' \<and> jget st' ''authority_epoch'' = JStr ex_uuid4 \<and>
        \<not> contains_forbidden_key (JObj st'))"
proof -
  have "net_run ex_sha ex_database (snd (accept_transaction ex_sha ex_accept (RaisedAfterCommit SqliteFault None) ''t'' ex_database))"
    by (rule net_run.more [OF net_run.stay net_step.accept]) (rule prod.collapse [symmetric])
  from authority_invariant [OF this ex_canonical ex_load] show ?thesis
    by (auto simp: initial_state_def Let_def simp del: contains_forbidden_key.simps)
qed

section \<open>The end of a transaction\<close>

lemma fold_pop_work: "jget (fold (pop_field ''work'') ks st) ''transaction'' = jget st ''transaction''"
  by (rule jget_fold_pop_field) simp

lemma moved_state_terminal:
  assumes "to_status r \<in> set terminal_statuses"
  shows "window_slot (moved_state tid r c st) ''current'' = JNull"
    and "window_slot (moved_state tid r c st) ''latest'' =
           JObj (moved_transaction r (int_value (jget st ''source_revision'') + 1) c)"
  using assms
  by (simp_all add: window_slot_def moved_state_def Let_def fold_pop_work)

lemma moved_state_running:
  assumes "to_status r \<notin> set terminal_statuses"
  shows "window_slot (moved_state tid r c st) ''current'' =
           JObj (moved_transaction r (int_value (jget st ''source_revision'') + 1) c)"
    and "window_slot (moved_state tid r c st) ''latest'' = window_slot st ''latest''"
  using assms
  by (simp_all add: window_slot_def moved_state_def Let_def fold_pop_work jget_set_flag split: option.splits)

lemma transition_success:
  assumes "transition tid r outcome now db = (Inr moved, db')" and "load_locked db = Inr st"
  obtains c where "window_slot st ''current'' = JObj c"
    and "moved = JObj (moved_transaction r (int_value (jget st ''source_revision'') + 1) c)"
    and "load_locked db' = Inr (canon_obj (moved_state tid r c st))"
proof (rule transition_effect [OF assms(1)])
  fix st' c
  assume "load_locked db = Inr st'"
  then have [simp]: "st' = st" using assms(2) by simp
  assume stored': "window_slot st' ''current'' = JObj c"
    "store outcome now (moved_state tid r c st')
       (JObj (moved_transaction r (int_value (jget st' ''source_revision'') + 1) c)) db = (Inr moved, db')"
  note stored = stored' [simplified]
  have v: "valid_state (JObj st) = Inr True" using assms(2) by (simp add: load_locked_iff)
  have ch: "\<not> py_eq (jget st ''source_revision'') (jget (moved_state tid r c st) ''source_revision'')"
    by (rule revision_bumped [OF v]) (simp add: moved_state_fields)
  show ?thesis
    using that [OF stored(1)] store_success_changed [OF stored(2) assms(2) _ ch] by (simp add: state_keys_def)
qed auto

text \<open>A transition reports success only when the document in the database carries it.  A
  terminal status retires the transaction: the window has no current transaction, the moved one
  is the latest, its execution is no longer released, and the authority is free for the next
  request; any other status keeps it current.  The revision grows by one either way.\<close>

theorem transition_publishes:
  assumes "transition tid r outcome now db = (Inr moved, db')" and "load_locked db = Inr st"
  shows "\<exists>st'. load_locked db' = Inr st' \<and> state_revision_of st' = state_revision_of st + 1 \<and>
           (if to_status r \<in> set terminal_statuses
            then window_slot st' ''current'' = JNull \<and> window_slot st' ''latest'' = canon moved \<and>
                 is_execution_released tid db' = Inr False
            else window_slot st' ''current'' = canon moved \<and>
                 window_slot st' ''latest'' = canon (window_slot st ''latest''))"
proof -
  obtain c where c: "moved = JObj (moved_transaction r (int_value (jget st ''source_revision'') + 1) c)"
    and l: "load_locked db' = Inr (canon_obj (moved_state tid r c st))"
    by (rule transition_success [OF assms])
  show ?thesis
    using l c
    by (simp add: moved_state_terminal moved_state_running state_revision_of_def moved_state_fields
        is_execution_released_def)
qed

section \<open>A running transaction can always be moved\<close>

lemma valid_transaction_iff:
  "valid_transaction (JObj t) = Inr True \<longleftrightarrow>
     has_keys t transaction_keys \<and> eq_str (jget t ''schema'') transaction_schema \<and>
     valid_uuid4 (jget t ''authority_epoch'') \<and> int_in (jget t ''source_revision'') (\<lambda>i. 0 \<le> i) \<and>
     str_in (jget t ''transaction_id'') uuid_v7 \<and>
     in_set (jget t ''operation'') [''apply'', ''retry'', ''forget''] = Inr True \<and>
     in_set (jget t ''status'') transaction_statuses = Inr True \<and>
     in_set (jget t ''stage'') transaction_stages = Inr True \<and>
     str_in (jget t ''stage'') (\<lambda>g. map_option JStr (map_of stage_status g) = Some (jget t ''status'')) \<and>
     valid_desired_state (jget t ''desired'') = Inr True \<and>
     is_nonempty_str (jget t ''accepted_at'') \<and> is_nonempty_str (jget t ''updated_at'') \<and>
     valid_deadline (jget t ''deadline'') \<and>
     in_set (jget t ''recovery_action'') recovery_actions = Inr True \<and>
     valid_rescue (jget t ''rescue'') \<and> valid_transaction_error (jget t ''error'') = Inr True"
  by (simp add: valid_transaction_def)

text \<open>The fields of a moved transaction.\<close>

lemma moved_schema:
  "jget (moved_transaction r n c) ''schema'' = jget c ''schema''"
  unfolding moved_transaction_def Let_def by (cases "ap_validated r"; cases "to_desired r"; simp)

lemma moved_authority_epoch:
  "jget (moved_transaction r n c) ''authority_epoch'' = jget c ''authority_epoch''"
  unfolding moved_transaction_def Let_def by (cases "ap_validated r"; cases "to_desired r"; simp)

lemma moved_source_revision:
  "jget (moved_transaction r n c) ''source_revision'' = JInt n"
  unfolding moved_transaction_def Let_def by (cases "ap_validated r"; cases "to_desired r"; simp)

lemma moved_transaction_id:
  "jget (moved_transaction r n c) ''transaction_id'' = jget c ''transaction_id''"
  unfolding moved_transaction_def Let_def by (cases "ap_validated r"; cases "to_desired r"; simp)

lemma moved_operation:
  "jget (moved_transaction r n c) ''operation'' = jget c ''operation''"
  unfolding moved_transaction_def Let_def by (cases "ap_validated r"; cases "to_desired r"; simp)

lemma moved_status:
  "jget (moved_transaction r n c) ''status'' = JStr (to_status r)"
  unfolding moved_transaction_def Let_def by (cases "ap_validated r"; cases "to_desired r"; simp)

lemma moved_stage:
  "jget (moved_transaction r n c) ''stage'' = JStr (to_stage r)"
  unfolding moved_transaction_def Let_def by (cases "ap_validated r"; cases "to_desired r"; simp)

lemma moved_desired:
  "jget (moved_transaction r n c) ''desired'' =
     (case to_desired r of Some d \<Rightarrow> JObj d | None \<Rightarrow> jget c ''desired'')"
  unfolding moved_transaction_def Let_def by (cases "ap_validated r"; cases "to_desired r"; simp)

lemma moved_accepted_at:
  "jget (moved_transaction r n c) ''accepted_at'' = jget c ''accepted_at''"
  unfolding moved_transaction_def Let_def by (cases "ap_validated r"; cases "to_desired r"; simp)

lemma moved_updated_at:
  "jget (moved_transaction r n c) ''updated_at'' = JStr (at_time r)"
  unfolding moved_transaction_def Let_def by (cases "ap_validated r"; cases "to_desired r"; simp)

lemma moved_deadline:
  "jget (moved_transaction r n c) ''deadline'' = to_deadline r"
  unfolding moved_transaction_def Let_def by (cases "ap_validated r"; cases "to_desired r"; simp)

lemma moved_recovery_action:
  "jget (moved_transaction r n c) ''recovery_action'' = JStr (to_recovery r)"
  unfolding moved_transaction_def Let_def by (cases "ap_validated r"; cases "to_desired r"; simp)

lemma moved_rescue:
  "jget (moved_transaction r n c) ''rescue'' =
     (case ap_validated r of Some b \<Rightarrow> JObj (jset ''ap_validated'' (JBool b) (obj_or_empty (jget c ''rescue'')))
      | None \<Rightarrow> jget c ''rescue'')"
  unfolding moved_transaction_def Let_def by (cases "ap_validated r"; cases "to_desired r"; simp)

lemma moved_error:
  "jget (moved_transaction r n c) ''error'' = (case to_error r of None \<Rightarrow> JNull | Some e \<Rightarrow> JObj e)"
  unfolding moved_transaction_def Let_def by (cases "ap_validated r"; cases "to_desired r"; simp)

lemmas moved_transaction_fields =
  moved_schema moved_authority_epoch moved_source_revision moved_transaction_id moved_operation moved_status moved_stage moved_desired moved_accepted_at moved_updated_at moved_deadline moved_recovery_action moved_rescue moved_error

lemma moved_transaction_keys:
  "has_keys c transaction_keys \<Longrightarrow> has_keys (moved_transaction r n c) transaction_keys"
  unfolding moved_transaction_def Let_def put_field_def
  by (auto intro!: has_keys_jset simp: transaction_keys_def split: option.splits)

lemma valid_rescue_moved: "valid_rescue v \<Longrightarrow> valid_rescue (JObj (jset ''ap_validated'' (JBool b) (obj_or_empty v)))"
  by (cases v) (auto simp: valid_rescue_def has_keys_def)

lemma transition_input_ok:
  "transition_input_bad r = Inr False \<longleftrightarrow>
     to_status r \<in> set transaction_statuses \<and> to_stage r \<in> set transaction_stages \<and> at_time r \<noteq> [] \<and>
     (\<forall>d. to_desired r = Some d \<longrightarrow> valid_desired_state (JObj d) = Inr True) \<and>
     valid_deadline (to_deadline r) \<and> to_recovery r \<in> set recovery_actions \<and>
     \<not> (to_verified r = Some True \<and> to_saved r = Some False)"
  by (auto simp: transition_input_bad_def disjE_list_False split: option.splits)

lemma valid_moved_transaction:
  assumes "valid_transaction (JObj c) = Inr True" and "transition_input_bad r = Inr False" and "0 \<le> n"
    and "map_of stage_status (to_stage r) = Some (to_status r)"
    and "valid_transaction_error (case to_error r of None \<Rightarrow> JNull | Some e \<Rightarrow> JObj e) = Inr True"
  shows "valid_transaction (JObj (moved_transaction r n c)) = Inr True"
  using assms unfolding valid_transaction_iff transition_input_ok moved_transaction_fields
  by (auto intro: moved_transaction_keys valid_rescue_moved split: option.splits)

text \<open>The two flags a transition leaves in the document.\<close>

definition moved_flags_consistent :: "transition_request \<Rightarrow> jobject \<Rightarrow> bool" where
  "moved_flags_consistent r st \<longleftrightarrow>
     ((case to_verified r of Some b \<Rightarrow> b | None \<Rightarrow> jget st ''verified'' = JBool True) \<longrightarrow>
      (case to_saved r of Some b \<Rightarrow> b | None \<Rightarrow> jget st ''saved'' = JBool True))"

lemma jget_set_flag_same:
  "jget (set_flag k v False b st) k = (case v of Some x \<Rightarrow> JBool x | None \<Rightarrow> jget st k)"
  by (simp add: set_flag_def split: option.splits)

lemma jget_if: "jget (if q then d else e) k = (if q then jget d k else jget e k)"
  by simp

lemma moved_saved:
  "jget (moved_state tid r c st) ''saved'' = (case to_saved r of Some b \<Rightarrow> JBool b | None \<Rightarrow> jget st ''saved'')"
  unfolding moved_state_def Let_def
  by (cases "to_desired r"; simp add: jget_if jget_fold_pop_field jget_set_flag jget_set_flag_same
      split del: if_split cong: if_cong option.case_cong)

lemma moved_verified:
  "jget (moved_state tid r c st) ''verified'' = (case to_verified r of Some b \<Rightarrow> JBool b | None \<Rightarrow> jget st ''verified'')"
  unfolding moved_state_def Let_def
  by (cases "to_desired r"; simp add: jget_if jget_fold_pop_field jget_set_flag jget_set_flag_same
      split del: if_split cong: if_cong option.case_cong)

definition keyed :: "jobject \<Rightarrow> bool" where
  "keyed d \<longleftrightarrow> has_keys d state_keys"

lemma keyed_intros:
  "keyed d \<Longrightarrow> f \<in> set state_keys \<Longrightarrow> keyed (jset f v d)"
  "keyed d \<Longrightarrow> f \<in> set state_keys \<Longrightarrow> keyed (put_field f k v d)"
  "keyed d \<Longrightarrow> f \<in> set state_keys \<Longrightarrow> keyed (pop_field f k d)"
  "keyed d \<Longrightarrow> f \<in> set state_keys \<Longrightarrow> keyed (set_flag f b u x d)"
  "(q \<Longrightarrow> keyed d) \<Longrightarrow> (\<not> q \<Longrightarrow> keyed e) \<Longrightarrow> keyed (if q then d else e)"
  "keyed d \<Longrightarrow> (\<And>y. keyed (g y)) \<Longrightarrow> keyed (case z of Some y \<Rightarrow> g y | None \<Rightarrow> d)"
  by (simp_all add: keyed_def put_field_def pop_field_def set_flag_def split: option.splits)

lemma keyed_fold: "keyed d \<Longrightarrow> keyed (fold (pop_field ''work'') ks d)"
  by (induction ks arbitrary: d) (simp_all add: keyed_intros state_keys_def)

lemma moved_state_keys:
  assumes "keyed st" shows "keyed (moved_state tid r c st)"
  unfolding moved_state_def Let_def
  by (intro keyed_intros keyed_fold assms) (simp_all add: state_keys_def)

lemma forbidden_pop_field:
  "clean d \<Longrightarrow> casefold f \<notin> set forbidden_persisted_keys \<Longrightarrow> clean (pop_field f k d)"
  unfolding pop_field_def
  by (intro clean_jset)
     (use set_jpop_subset forbidden_obj_or_empty [OF forbidden_field] in \<open>fastforce simp: clean_def list_ex_iff\<close>)+

lemma moved_execution_release:
  assumes "jget st ''execution_release'' = JObj e"
  shows "jget (moved_state tid r c st) ''execution_release'' =
     (if to_status r \<in> set terminal_statuses then JObj (jpop tid e) else JObj e)"
  unfolding moved_state_def Let_def
  by (cases "to_desired r"; simp add: assms jget_if jget_fold_pop_field jget_set_flag
      split del: if_split cong: if_cong option.case_cong)

lemma moved_state_desired:
  "jget (moved_state tid r c st) ''desired'' =
     (case to_desired r of Some d \<Rightarrow> (if to_publish r then JObj d else jget st ''desired'') | None \<Rightarrow> jget st ''desired'')"
  unfolding moved_state_def Let_def
  by (cases "to_desired r"; simp add: jget_if jget_fold_pop_field jget_set_flag
      split del: if_split cong: if_cong option.case_cong)

text \<open>The work records stay an object.\<close>

definition has_work :: "jobject \<Rightarrow> bool" where
  "has_work d \<longleftrightarrow> is_obj (jget d ''work'')"

lemma has_work_intros:
  "has_work d \<Longrightarrow> f \<noteq> ''work'' \<Longrightarrow> has_work (jset f v d)"
  "has_work (jset ''work'' (JObj w) d)"
  "has_work d \<Longrightarrow> has_work (put_field f k v d)"
  "has_work d \<Longrightarrow> has_work (pop_field f k d)"
  "has_work d \<Longrightarrow> f \<noteq> ''work'' \<Longrightarrow> has_work (set_flag f b u x d)"
  "(q \<Longrightarrow> has_work d) \<Longrightarrow> (\<not> q \<Longrightarrow> has_work e) \<Longrightarrow> has_work (if q then d else e)"
  "has_work d \<Longrightarrow> (\<And>y. has_work (g y)) \<Longrightarrow> has_work (case z of Some y \<Rightarrow> g y | None \<Rightarrow> d)"
  by (simp_all add: has_work_def set_flag_def split: option.splits)

lemma has_work_fold: "has_work d \<Longrightarrow> has_work (fold (pop_field f) ks d)"
  by (induction ks arbitrary: d) (simp_all add: has_work_intros)

lemma moved_work: "has_work st \<Longrightarrow> has_work (moved_state tid r c st)"
  unfolding moved_state_def Let_def
  by (intro has_work_intros has_work_fold) simp_all

lemma clean_intros:
  "clean d \<Longrightarrow> casefold f \<notin> set forbidden_persisted_keys \<Longrightarrow> clean (jset f (JBool b) d)"
  "clean d \<Longrightarrow> casefold f \<notin> set forbidden_persisted_keys \<Longrightarrow> clean (jset f JNull d)"
  "(\<And>y. z = Some y \<Longrightarrow> clean (g y)) \<Longrightarrow> clean d \<Longrightarrow> clean (case z of Some y \<Rightarrow> g y | None \<Rightarrow> d)"
  by (auto intro: clean_jset split: option.splits)

lemma clean_fold_pop: "clean d \<Longrightarrow> clean (fold (pop_field ''work'') ks d)"
  by (induction ks arbitrary: d) (simp_all add: forbidden_pop_field key_not_forbidden del: casefold.simps)

lemma moved_transaction_clean:
  assumes "clean c" and "\<not> contains_forbidden_key (to_deadline r)"
    and "\<And>d. to_desired r = Some d \<Longrightarrow> clean d" and "\<And>e. to_error r = Some e \<Longrightarrow> clean e"
  shows "clean (moved_transaction r n c)"
  unfolding moved_transaction_def Let_def
  by (intro clean_jset clean_put_field clean_intros(3) assms(1,2) key_not_forbidden)
     (use assms(3,4) in \<open>auto simp: clean_def split: option.splits\<close>)

lemma moved_state_clean:
  assumes "clean st" and "clean (moved_transaction r (int_value (jget st ''source_revision'') + 1) c)"
    and "\<And>d. to_desired r = Some d \<Longrightarrow> clean d"
  shows "clean (moved_state tid r c st)"
  unfolding moved_state_def Let_def
  by (intro clean_if clean_fold_pop clean_jset clean_put_field forbidden_pop_field clean_set_flag
        clean_intros(3) assms(1) key_not_forbidden)
     (use assms(2,3) in \<open>auto simp: clean_def simp del: contains_forbidden_key.simps(1)\<close>, simp)

text \<open>When a requested move is consistent with the state machine of the transaction: its stage
  belongs to its status, its error is well formed, the flags agree and no payload names a
  credential.\<close>

definition move_consistent :: "transition_request \<Rightarrow> jobject \<Rightarrow> bool" where
  "move_consistent r st \<longleftrightarrow>
     map_of stage_status (to_stage r) = Some (to_status r) \<and>
     valid_transaction_error (case to_error r of None \<Rightarrow> JNull | Some e \<Rightarrow> JObj e) = Inr True \<and>
     moved_flags_consistent r st \<and> \<not> contains_forbidden_key (to_deadline r) \<and>
     (\<forall>d. to_desired r = Some d \<longrightarrow> clean d) \<and> (\<forall>e. to_error r = Some e \<longrightarrow> clean e)"

lemma status_split:
  "x \<in> set transaction_statuses \<Longrightarrow> x \<notin> set terminal_statuses \<Longrightarrow> x \<in> {''accepted'', ''running''}"
  by (auto simp: transaction_statuses_def)

lemma moved_state_transaction:
  "jget (moved_state tid r c st) ''transaction'' =
     (let m = JObj (moved_transaction r (int_value (jget st ''source_revision'') + 1) c);
          w = obj_or_empty (jget st ''transaction'')
      in JObj (if to_status r \<in> set terminal_statuses then jset ''current'' JNull (jset ''latest'' m w)
               else jset ''current'' m w))"
  unfolding moved_state_def Let_def
  by (cases "to_desired r"; simp add: jget_if jget_fold_pop_field jget_set_flag if_distrib [of JObj]
      split del: if_split cong: if_cong option.case_cong)

lemma valid_release_popped: "valid_release (JObj e) (JObj c) \<Longrightarrow> jget c ''transaction_id'' = JStr tid \<Longrightarrow> jpop tid e = []"
  unfolding valid_release_def jpop_def AList.delete_eq has_keys_def
  by (force simp: filter_empty_conv)

lemma valid_moved_state:
  assumes st: "valid_state (JObj st) = Inr True" and c: "window_slot st ''current'' = JObj c"
    and tid: "jget c ''transaction_id'' = JStr tid"
    and r: "transition_input_bad r = Inr False" and m: "move_consistent r st"
  shows "valid_state (JObj (moved_state tid r c st)) = Inr True"
proof -
  let ?n = "int_value (jget st ''source_revision'')"
  let ?m = "moved_transaction r (?n + 1) c"
  note v = st [unfolded valid_state_iff]
  have n: "0 \<le> ?n" by (rule state_revision_nonneg [OF st])
  have vc: "valid_transaction (JObj c) = Inr True" using v c by (auto simp: slot_transaction_def)
  have vm: "valid_transaction (JObj ?m) = Inr True"
    using valid_moved_transaction [OF vc r, of "?n + 1"] m n by (simp add: move_consistent_def)
  have ec: "jget c ''authority_epoch'' = jget st ''authority_epoch''"
    using v c by (simp add: slot_published_def)
  have cl: "clean st" using v by (simp add: clean_def)
  have cc: "clean c"
    using forbidden_field [OF forbidden_obj_or_empty [OF forbidden_field [OF cl [unfolded clean_def]]]] c
    unfolding clean_def window_slot_def by metis
  have "clean (moved_state tid r c st)"
    using m by (intro moved_state_clean moved_transaction_clean cl cc) (auto simp: move_consistent_def)
  then have clean': "\<not> contains_forbidden_key (JObj (moved_state tid r c st))" by (simp add: clean_def)
  obtain e where e: "jget st ''execution_release'' = JObj e" using v by (cases "jget st ''execution_release''") auto
  have keys: "has_keys (moved_state tid r c st) state_keys"
    using moved_state_keys v by (simp add: keyed_def)
  have w: "is_obj (jget (moved_state tid r c st) ''work'')"
    using moved_work v by (simp add: has_work_def)
  have rel: "valid_release (JObj e) (JObj c)" using v e c by metis
  have pub: "slot_published v (jget st ''authority_epoch'') ?n \<Longrightarrow>
      slot_published v (jget st ''authority_epoch'') (?n + 1)" for v
    by (erule slot_published_mono) simp
  have rec: "valid_receipts (jget st ''receipts'') (jget st ''authority_epoch'') (?n + 1) = Inr True"
    by (rule valid_receipts_mono) (use v in blast, simp)
  have tw: "window_slot (moved_state tid r c st) s = (if to_status r \<in> set terminal_statuses
      then (if s = ''current'' then JNull else if s = ''latest'' then JObj ?m else window_slot st s)
      else (if s = ''current'' then JObj ?m else window_slot st s))" for s
    by (simp add: window_slot_def moved_state_transaction Let_def)
  have sm: "slot_transaction (JObj ?m) = Inr True" "slot_published (JObj ?m) (jget st ''authority_epoch'') (?n + 1)"
    using vm ec by (simp_all add: slot_transaction_def slot_published_def moved_transaction_fields)
  have old: "slot_transaction (window_slot st ''latest'') = Inr True"
      "slot_status (window_slot st ''latest'') terminal_statuses"
      "slot_published (window_slot st ''latest'') (jget st ''authority_epoch'') (?n + 1)"
    using v pub by blast+
  have empty: "slot_transaction JNull = Inr True" "slot_status JNull ss" "slot_published JNull q k" for ss q k
    by (simp_all add: slot_transaction_def slot_status_def slot_published_def)
  have d: "valid_desired_state (jget (moved_state tid r c st) ''desired'') = Inr True"
    using v r by (auto simp: moved_state_desired transition_input_ok split: option.splits)
  have wk: "has_keys (obj_or_empty (jget (moved_state tid r c st) ''transaction'')) [''current'', ''latest'']"
    using v by (simp add: moved_state_transaction Let_def)
  have relm: "valid_release (jget (moved_state tid r c st) ''execution_release'')
      (window_slot (moved_state tid r c st) ''current'')"
  proof (cases "to_status r \<in> set terminal_statuses")
    case True
    then show ?thesis
      using valid_release_popped [OF rel tid] by (simp add: moved_execution_release [OF e] tw valid_release_def)
  next
    case False
    then show ?thesis
      using rel by (simp add: moved_execution_release [OF e] tw valid_release_def moved_transaction_fields)
  qed
  have obj: "is_obj (jget (moved_state tid r c st) ''execution_release'')"
    by (simp add: moved_execution_release [OF e])
  have st_of: "slot_status (JObj ?m) ss \<longleftrightarrow> to_status r \<in> set ss" for ss
    by (auto simp: slot_status_def moved_transaction_fields in_strs_def)
  have run: "to_status r \<notin> set terminal_statuses \<Longrightarrow> to_status r \<in> set [''accepted'', ''running'']"
    using r status_split by (simp add: transition_input_ok)
  show ?thesis
    unfolding valid_state_iff
  proof (intro conjI)
    show "is_bool (jget (moved_state tid r c st) ''saved'')" "is_bool (jget (moved_state tid r c st) ''verified'')"
      using v by (auto simp: moved_saved moved_verified split: option.splits)
    show "jget (moved_state tid r c st) ''verified'' = JBool True \<longrightarrow> jget (moved_state tid r c st) ''saved'' = JBool True"
      using m by (auto simp: moved_saved moved_verified move_consistent_def moved_flags_consistent_def split: option.splits)
    show "slot_transaction (window_slot (moved_state tid r c st) ''latest'') = Inr True"
      "slot_transaction (window_slot (moved_state tid r c st) ''current'') = Inr True"
      using old sm empty by (simp_all add: tw)
    show "slot_status (window_slot (moved_state tid r c st) ''latest'') terminal_statuses"
      "slot_status (window_slot (moved_state tid r c st) ''current'') [''accepted'', ''running'']"
      using old run st_of empty by (auto simp: tw)
    show "slot_published (window_slot (moved_state tid r c st) ''current'')
        (jget (moved_state tid r c st) ''authority_epoch'') (int_value (jget (moved_state tid r c st) ''source_revision''))"
      "slot_published (window_slot (moved_state tid r c st) ''latest'')
        (jget (moved_state tid r c st) ''authority_epoch'') (int_value (jget (moved_state tid r c st) ''source_revision''))"
      using old sm empty by (simp_all add: tw moved_state_fields)
  qed (fact keys w clean' d wk relm obj | use v rec n in \<open>simp add: moved_state_fields moved_state_transaction Let_def
      del: contains_forbidden_key.simps\<close>)+
qed

lemma transition_commits:
  assumes "load_locked db = Inr st" and "window_slot st ''current'' = JObj c"
    and "jget c ''transaction_id'' = JStr tid"
    and "transition_input_bad r = Inr False" and "move_consistent r st"
  shows "\<exists>db'. transition tid r Committed now db =
      (Inr (JObj (moved_transaction r (state_revision_of st + 1) c)), db') \<and>
      load_locked db' = Inr (canon_obj (moved_state tid r c st))"
proof -
  have v: "valid_state (JObj (moved_state tid r c st)) = Inr True"
    using assms by (intro valid_moved_state) (simp_all add: load_locked_iff)
  have "\<exists>v. db_get ''controller'' db = Inr (Some v)" using assms(1) by (auto simp: load_locked_iff)
  then obtain db' where db': "db_put ''controller'' (JObj (moved_state tid r c st)) now False db = Inr db'"
    using state_documents.put_total by blast
  have val: "validate (moved_state tid r c st) = Inr ()" using v by simp
  have "store Committed now (moved_state tid r c st) x db = (Inr x, db')" for x :: json
    unfolding store_def val write_locked_def using db' by simp
  moreover have "load_locked db' = Inr (canon_obj (moved_state tid r c st))"
    using state_documents.get_put [OF db'] valid_state_canon [OF v] by (simp add: load_locked_iff)
  ultimately show ?thesis
    using assms by (simp add: transition_def state_revision_of_def)
qed

text \<open>A running transaction is never stuck.  A well-formed move that respects the state machine
  succeeds on a committing database, whatever state the rest of the document is in.\<close>

theorem running_transition_succeeds:
  assumes "load_locked db = Inr st" and "window_slot st ''current'' = JObj c"
    and "jget c ''transaction_id'' = JStr tid"
    and "transition_input_bad r = Inr False" and "move_consistent r st"
  shows "\<exists>db'. transition tid r Committed now db =
      (Inr (JObj (moved_transaction r (state_revision_of st + 1) c)), db') \<and>
      load_locked db' = Inr (canon_obj (moved_state tid r c st))"
  by (rule transition_commits [OF assms])

text \<open>The example transaction is moved to its failure.\<close>

definition ex_move :: transition_request where
  "ex_move = \<lparr>to_status = ''failed'', to_stage = ''failed'', at_time = ''2026-01-01T00:00:09Z'',
     ap_validated = Some True, to_error = None, to_desired = None, to_publish = False,
     to_deadline = JNull, to_recovery = ''retry'', to_saved = Some False, to_verified = Some False,
     retain_work = False, clear_all_work = False, remove_work = []\<rparr>"

lemma ex_move_ok: "transition_input_bad ex_move = Inr False" "move_consistent ex_move st"
  by (simp_all add: transition_input_ok ex_move_def transaction_statuses_def terminal_statuses_def
      transaction_stages_def recovery_actions_def valid_deadline_def move_consistent_def stage_status_def
      valid_transaction_error_def moved_flags_consistent_def)

lemma ex_running:
  obtains db1 st c where "accept_transaction ex_sha ex_accept Committed ''t'' ex_database = (Inr (JObj
      (new_receipt ex_accept (new_transaction ex_accept (JStr ex_uuid4) 1)), False), db1)"
    and "load_locked db1 = Inr st" "window_slot st ''current'' = JObj c" "jget c ''transaction_id'' = JStr ex_tid"
proof -
  let ?i = "canon_obj (initial_state ex_desired ex_uuid4)"
  have i: "jget ?i ''authority_epoch'' = JStr ex_uuid4" "state_revision_of ?i + 1 = 1"
    unfolding state_revision_of_def jget_canon_obj by (simp_all add: initial_state_def Let_def)
  obtain db1 where acc: "accept_transaction ex_sha ex_accept Committed ''t'' ex_database = (Inr (JObj
      (new_receipt ex_accept (new_transaction ex_accept (JStr ex_uuid4) 1)), False), db1)"
    and l: "load_locked db1 = Inr (canon_obj (accepted_state ex_accept
        (scope_of ex_sha (principal_id ex_accept) (idempotency_key ex_accept)) ?i))"
    using accept_commits [OF ex_ready, of "''t''"] unfolding i by blast
  show ?thesis
    by (rule that [OF acc l])
       (auto simp: accepted_state_window new_transaction_fields ex_accept_def)
qed

theorem running_transition_succeeds_witness:
  "\<exists>db1 moved db2. fst (accept_transaction ex_sha ex_accept Committed ''t'' ex_database) =
       Inr (JObj (new_receipt ex_accept (new_transaction ex_accept (JStr ex_uuid4) 1)), False) \<and>
     transition ex_tid ex_move Committed ''t'' db1 = (Inr moved, db2)"
proof (rule ex_running)
  fix db1 st c
  assume a: "accept_transaction ex_sha ex_accept Committed ''t'' ex_database = (Inr (JObj
      (new_receipt ex_accept (new_transaction ex_accept (JStr ex_uuid4) 1)), False), db1)"
    and s: "load_locked db1 = Inr st" "window_slot st ''current'' = JObj c" "jget c ''transaction_id'' = JStr ex_tid"
  show ?thesis
    using running_transition_succeeds [OF s ex_move_ok, of "''t''"] a by auto
qed

lemma ex_transition:
  obtains db1 st moved db2 where "load_locked db1 = Inr st"
    and "transition ex_tid ex_move Committed ''t'' db1 = (Inr moved, db2)"
proof (rule ex_running)
  fix db1 st c
  assume s: "load_locked db1 = Inr st" "window_slot st ''current'' = JObj c" "jget c ''transaction_id'' = JStr ex_tid"
  show ?thesis
    using that [OF s(1)] transition_commits [OF s ex_move_ok, of "''t''"] by blast
qed

theorem transition_publishes_witness:
  "\<exists>db1 db2 moved. transition ex_tid ex_move Committed ''t'' db1 = (Inr moved, db2) \<and>
     is_execution_released ex_tid db2 = Inr False"
proof (rule ex_transition)
  fix db1 st moved db2
  assume t: "load_locked db1 = Inr st" "transition ex_tid ex_move Committed ''t'' db1 = (Inr moved, db2)"
  show ?thesis
    using t(2) transition_publishes [OF t(2,1)] by (auto simp: ex_move_def terminal_statuses_def)
qed

end
