(* ===== verification/ContractChecks.thy ===== *)
theory ContractChecks
  imports PyJson
begin

text \<open>
  The small request and status contracts the services share: \<open>capture_timer.py\<close>,
  \<open>camera_focus.py\<close>, \<open>frame_index.py\<close> and \<open>network_validation.py\<close>, each function under its
  own name.  A test \<open>x in {...}\<close> raises \<open>TypeError\<close> on an unhashable value; a test on a tuple
  does not.
\<close>

section \<open>\<open>capture_timer.py\<close>\<close>

definition max_duration_seconds :: int where
  "max_duration_seconds = 86400"

definition valid_timer_settings :: "json \<Rightarrow> bool" where
  "valid_timer_settings value =
     (case value of
        JObj d \<Rightarrow> has_keys d [''enabled'', ''duration_seconds''] \<and> is_bool (jget d ''enabled'') \<and>
          int_in (jget d ''duration_seconds'') (\<lambda>i. 1 \<le> i \<and> i \<le> max_duration_seconds)
      | _ \<Rightarrow> False)"

text \<open>A finite number of exact type \<open>int\<close> or \<open>float\<close> within bounds (\<open>math.isfinite\<close> and the
  comparison).\<close>

definition valid_timer_active :: "json \<Rightarrow> bool" where
  "valid_timer_active active =
     (case active of
        JObj a \<Rightarrow> has_keys a [''session_id'', ''duration_seconds'', ''remaining_seconds''] \<and>
          is_nonempty_str (jget a ''session_id'') \<and>
          (case jget a ''duration_seconds'' of
             JInt n \<Rightarrow> 1 \<le> n \<and> n \<le> max_duration_seconds \<and>
               num_between 0 (jget a ''remaining_seconds'') (of_int n)
           | _ \<Rightarrow> False)
      | _ \<Rightarrow> False)"

definition valid_timer_status :: "json \<Rightarrow> bool" where
  "valid_timer_status value =
     (case value of
        JObj d \<Rightarrow> has_keys d [''schema'', ''settings'', ''active''] \<and>
          eq_str (jget d ''schema'') ''ylx.capture-timer.v1'' \<and> valid_timer_settings (jget d ''settings'') \<and>
          (jget d ''active'' = JNull \<or> valid_timer_active (jget d ''active''))
      | _ \<Rightarrow> False)"

section \<open>\<open>camera_focus.py\<close>\<close>

definition camera_focus_keys :: "string list" where
  "camera_focus_keys =
     [''schema'', ''value'', ''minimum'', ''maximum'', ''step'', ''default'', ''auto_supported'', ''auto_enabled'']"

text \<open>JSON integers have no subclasses but \<open>bool\<close>, so the keyword argument
  \<open>allow_integer_subclasses\<close> makes no difference here.  \<open>%\<close> is the floored remainder of Python,
  which is \<open>mod\<close>; the step is positive where it is reached.\<close>

definition valid_camera_focus_status :: "json \<Rightarrow> bool" where
  "valid_camera_focus_status value =
     (case value of
        JObj d \<Rightarrow> has_keys d camera_focus_keys \<and> eq_str (jget d ''schema'') ''ylx.camera-focus.v1'' \<and>
          (case (jget d ''value'', jget d ''minimum'', jget d ''maximum'', jget d ''step'', jget d ''default'') of
             (JInt v, JInt lo, JInt hi, JInt step, JInt def) \<Rightarrow>
               lo \<le> hi \<and> 0 < step \<and> lo \<le> v \<and> v \<le> hi \<and> (v - lo) mod step = 0 \<and> lo \<le> def \<and> def \<le> hi
           | _ \<Rightarrow> False) \<and>
          is_bool (jget d ''auto_supported'') \<and>
          (jget d ''auto_enabled'' = JNull \<or> is_bool (jget d ''auto_enabled'')) \<and>
          (jget d ''auto_supported'' = JBool False \<longrightarrow> jget d ''auto_enabled'' = JNull)
      | _ \<Rightarrow> False)"

section \<open>\<open>frame_index.py\<close>\<close>

definition frame_record_keys :: "string list" where
  "frame_record_keys =
     [''schema'', ''session_id'', ''frame'', ''source_sequence'', ''host_monotonic_ns'', ''segment_index'',
      ''segment_frame'']"

definition timestamp_audit_keys :: "string list" where
  "timestamp_audit_keys =
     [''schema'', ''v4l2_buffer_flags'', ''host_dequeue_monotonic_ns'', ''timestamp_clock'',
      ''timestamp_source'', ''camera_counter_raw'', ''counter_bits'']"

definition valid_timestamp_audit :: "json \<Rightarrow> bool res" where
  "valid_timestamp_audit audit =
     (case audit of
        JObj a \<Rightarrow> conjE
          [Inr (has_keys a timestamp_audit_keys),
           Inr (eq_str (jget a ''schema'') ''openaria.frame-timestamp-audit.v1''),
           Inr (int_in (jget a ''v4l2_buffer_flags'') (\<lambda>i. 0 \<le> i \<and> i < 2 ^ 32)),
           Inr (int_in (jget a ''host_dequeue_monotonic_ns'') (\<lambda>i. 0 < i)),
           in_set (jget a ''timestamp_clock'') [''v4l2_monotonic'', ''host_monotonic_fallback''],
           in_set (jget a ''timestamp_source'') [''start_of_exposure'', ''end_of_frame'', ''unknown''],
           Inr (eq_num (jget a ''counter_bits'') 24),
           Inr (jget a ''camera_counter_raw'' = JNull \<or>
                int_in (jget a ''camera_counter_raw'') (\<lambda>i. 0 \<le> i \<and> i < 2 ^ 24))]
      | _ \<Rightarrow> Inr False)"

definition valid_frame_record :: "jobject \<Rightarrow> bool res" where
  "valid_frame_record r =
     (if eq_str (jget r ''schema'') ''ylx.frame-index.v1'' then Inr (has_keys r frame_record_keys)
      else if \<not> eq_str (jget r ''schema'') ''ylx.frame-index.v2'' \<or>
              \<not> has_keys r (frame_record_keys @ [''timestamp_audit'']) then Inr False
      else valid_timestamp_audit (jget r ''timestamp_audit''))"

section \<open>\<open>network_validation.py\<close>\<close>

definition network_modes :: "string list" where
  "network_modes = [''hotspot'', ''wifi-client'', ''ethernet-dhcp'', ''ethernet-static'']"

definition request_wifi_security :: "string list" where
  "request_wifi_security = [''open'', ''wpa2-personal'', ''wpa3-personal'', ''wpa2-wpa3-personal'']"

text \<open>\<open>ipaddress.IPv4Address(text)\<close>: four decimal octets of at most three ASCII digits without a
  leading zero.\<close>

definition ipv4_octet :: "string \<Rightarrow> bool" where
  "ipv4_octet s \<longleftrightarrow> s \<noteq> [] \<and> list_all is_digit s \<and> length s \<le> 3 \<and>
     (hd s = CHR ''0'' \<longrightarrow> length s = 1) \<and> digits_value s \<le> 255"

definition ipv4_text :: "string \<Rightarrow> bool" where
  "ipv4_text s \<longleftrightarrow> length (split_on (CHR ''.'') s) = 4 \<and> list_all ipv4_octet (split_on (CHR ''.'') s)"

definition valid_ipv4 :: "json \<Rightarrow> bool" where
  "valid_ipv4 value = str_in value ipv4_text"

definition valid_dns :: "json \<Rightarrow> bool" where
  "valid_dns dns =
     (case dns of
        JList items \<Rightarrow> length items \<le> 3 \<and> list_all valid_ipv4 items \<and> distinct items
      | _ \<Rightarrow> False)"

definition valid_network_static_ipv4 :: "json \<Rightarrow> bool" where
  "valid_network_static_ipv4 value =
     (case value of
        JObj d \<Rightarrow> has_keys d [''address'', ''prefix_length'', ''gateway'', ''dns''] \<and>
          valid_ipv4 (jget d ''address'') \<and>
          int_in (jget d ''prefix_length'') (\<lambda>i. 1 \<le> i \<and> i \<le> 32) \<and>
          (jget d ''gateway'' = JNull \<or> valid_ipv4 (jget d ''gateway'')) \<and>
          valid_dns (jget d ''dns'')
      | _ \<Rightarrow> False)"

definition valid_network_ethernet :: "json \<Rightarrow> bool" where
  "valid_network_ethernet value =
     (case value of
        JObj d \<Rightarrow> has_keys d [''addressing'', ''static_ipv4''] \<and>
          (eq_str (jget d ''addressing'') ''dhcp'' \<and> jget d ''static_ipv4'' = JNull \<or>
           eq_str (jget d ''addressing'') ''static'' \<and> valid_network_static_ipv4 (jget d ''static_ipv4''))
      | _ \<Rightarrow> False)"

definition credential_char :: "char \<Rightarrow> bool" where
  "credential_char c \<longleftrightarrow> is_alnum c \<or> c \<in> {CHR ''_'', CHR ''.'', CHR '':'', CHR ''-''}"

definition network_credential_ref :: "string \<Rightarrow> bool" where
  "network_credential_ref s \<longleftrightarrow>
     take 5 s = ''cred-'' \<and> 5 < length s \<and> list_all credential_char (drop 5 s)"

definition valid_network_apply_wifi_client :: "json \<Rightarrow> bool res" where
  "valid_network_apply_wifi_client value =
     (case value of
        JObj d \<Rightarrow>
          rejectE (Inr (\<not> set [''ssid'', ''security''] \<subseteq> set (map fst d)))
            (let security = jget d ''security'';
                 expected = (if eq_str security ''open'' then [''ssid'', ''security'']
                             else [''ssid'', ''security'', ''credential_ref'']) in
             rejectE (disjE_list [Inr (\<not> has_keys d expected), notE (in_set security request_wifi_security)])
               (Inr (str_in (jget d ''ssid'') (\<lambda>s. 1 \<le> length s \<and> length s \<le> 32) \<and>
                     (eq_str security ''open'' \<or>
                      str_in (jget d ''credential_ref'')
                        (\<lambda>s. 1 \<le> py_len s \<and> py_len s \<le> 128 \<and> network_credential_ref s)))))
      | _ \<Rightarrow> Inr False)"

definition valid_network_apply_desired_state :: "json \<Rightarrow> bool res" where
  "valid_network_apply_desired_state value =
     (case value of
        JObj d \<Rightarrow>
          (let mode = jget d ''mode''; wifi = jget d ''wifi_client''; ethernet = jget d ''ethernet'' in
           rejectE (Inr (\<not> has_keys d [''mode'', ''wifi_client'', ''ethernet'']))
            (rejectE (Inr (\<not> in_strs mode network_modes))
             (rejectE (if eq_str mode ''wifi-client'' then notE (valid_network_apply_wifi_client wifi)
                       else Inr (wifi \<noteq> JNull))
              (rejectE (Inr (ethernet \<noteq> JNull \<and> \<not> valid_network_ethernet ethernet))
                (Inr (\<not> (eq_str mode ''ethernet-static'' \<and> ethernet = JNull)))))))
      | _ \<Rightarrow> Inr False)"

definition valid_network_request :: "string \<Rightarrow> json \<Rightarrow> bool res" where
  "valid_network_request operation body =
     (case body of
        JObj d \<Rightarrow>
          (if operation = ''apply'' then conjE
             [Inr (has_keys d [''schema'', ''desired'']),
              Inr (eq_str (jget d ''schema'') ''ylx.network-apply-request.v1''),
              valid_network_apply_desired_state (jget d ''desired'')]
           else if operation = ''retry'' then Inr
             (has_keys d [''schema'', ''transaction_id''] \<and>
              eq_str (jget d ''schema'') ''ylx.network-retry-request.v1'' \<and>
              str_in (jget d ''transaction_id'') uuid_v7)
           else Inr (has_keys d [''schema''] \<and> eq_str (jget d ''schema'') ''ylx.network-forget-request.v1''))
      | _ \<Rightarrow> Inr False)"

section \<open>What an accepted network request looks like\<close>

lemma str_in_iff: "str_in v p \<longleftrightarrow> (\<exists>s. v = JStr s \<and> p s)"
  by (cases v) auto

lemma valid_network_apply_wifi_client_True:
  "valid_network_apply_wifi_client (JObj d) = Inr True \<longleftrightarrow>
     {''ssid'', ''security''} \<subseteq> set (map fst d) \<and>
     has_keys d (if jget d ''security'' = JStr ''open'' then [''ssid'', ''security'']
                 else [''ssid'', ''security'', ''credential_ref'']) \<and>
     (\<exists>s \<in> set request_wifi_security. jget d ''security'' = JStr s) \<and>
     (\<exists>s. jget d ''ssid'' = JStr s \<and> 1 \<le> length s \<and> length s \<le> 32) \<and>
     (jget d ''security'' = JStr ''open'' \<or>
      (\<exists>c. jget d ''credential_ref'' = JStr c \<and> 1 \<le> py_len c \<and> py_len c \<le> 128 \<and> network_credential_ref c))"
  unfolding valid_network_apply_wifi_client_def
  by (simp add: Let_def disjE_list_False in_set_True eq_str_def str_in_iff del: in_set_JStr)

lemma valid_network_apply_desired_state_True:
  "valid_network_apply_desired_state (JObj d) = Inr True \<longleftrightarrow>
     has_keys d [''mode'', ''wifi_client'', ''ethernet''] \<and>
     (\<exists>m \<in> set network_modes. jget d ''mode'' = JStr m) \<and>
     (if jget d ''mode'' = JStr ''wifi-client'' then valid_network_apply_wifi_client (jget d ''wifi_client'') = Inr True
      else jget d ''wifi_client'' = JNull) \<and>
     (jget d ''ethernet'' = JNull \<or> valid_network_ethernet (jget d ''ethernet'')) \<and>
     \<not> (jget d ''mode'' = JStr ''ethernet-static'' \<and> jget d ''ethernet'' = JNull)"
  unfolding valid_network_apply_desired_state_def
  by (simp add: Let_def in_strs_def eq_str_def)

lemma valid_network_request_apply:
  "valid_network_request ''apply'' (JObj d) = Inr True \<longleftrightarrow>
     has_keys d [''schema'', ''desired''] \<and> jget d ''schema'' = JStr ''ylx.network-apply-request.v1'' \<and>
     valid_network_apply_desired_state (jget d ''desired'') = Inr True"
  by (simp add: valid_network_request_def eq_str_def)

end
