(* ===== verification/NetworkCredentials.thy ===== *)
theory NetworkCredentials
  imports ContractChecks
begin

text \<open>
  \<open>network_credentials.py\<close>: the in-memory store of one-time Wi-Fi credentials.  The entries are
  the dictionary in insertion order; a clock reading is an argument of the operation that takes
  it, and the binary64 addition that computes an expiry is the parameter \<open>later\<close>.  Every method
  that touches the entries runs under the store's lock.  A wiped value is one that is no longer in
  the entries.
\<close>

section \<open>State\<close>

record credential_entry =
  cred_value :: string
  expires_at :: rat
  is_reserved :: bool

record credential_store =
  ttl_seconds :: int
  max_entries :: nat
  entries :: "(string \<times> credential_entry) list"

definition credential_error :: "string \<Rightarrow> pyexc" where
  "credential_error code = AppError ''NetworkCredentialError'' code False"

text \<open>The constructor: an integral TTL between 1 and 120 seconds, a positive capacity.\<close>

definition new_credential_store :: "rat \<Rightarrow> int \<Rightarrow> credential_store res" where
  "new_credential_store ttl capacity =
     guardE (of_int \<lfloor>ttl\<rfloor> \<noteq> ttl \<or> ttl < 1 \<or> 120 < ttl \<or> capacity \<le> 0) ValueError
       (Inr \<lparr>ttl_seconds = \<lfloor>ttl\<rfloor>, max_entries = nat capacity, entries = []\<rparr>)"

section \<open>Operations\<close>

definition purge_expired :: "rat \<Rightarrow> credential_store \<Rightarrow> credential_store" where
  "purge_expired now s = s\<lparr>entries := filter (\<lambda>(r, e). \<not> (expires_at e \<le> now \<and> \<not> is_reserved e)) (entries s)\<rparr>"

definition credential_ok :: "string \<Rightarrow> bool" where
  "credential_ok c \<longleftrightarrow> 8 \<le> length c \<and> length c \<le> 63 \<and> list_all (\<lambda>x. 32 \<le> (of_char x :: nat)) c"

text \<open>The first of the drawn tokens that makes a well-formed, unused reference.\<close>

fun fresh_reference :: "string list \<Rightarrow> (string \<times> credential_entry) list \<Rightarrow> string option" where
  "fresh_reference [] es = None"
| "fresh_reference (token # tokens) es =
     (let ref = ''cred-'' @ token in
      if py_len ref \<le> 128 \<and> network_credential_ref ref \<and> map_of es ref = None then Some ref
      else fresh_reference tokens es)"

definition create ::
  "(rat \<Rightarrow> int \<Rightarrow> rat) \<Rightarrow> string \<Rightarrow> rat \<Rightarrow> (nat \<Rightarrow> string) \<Rightarrow> credential_store \<Rightarrow> string res \<times> credential_store" where
  "create later credential now draw s =
     (if \<not> credential_ok credential then (Inl (credential_error ''credential_invalid''), s)
      else
       (let s1 = purge_expired now s in
        if max_entries s1 \<le> length (entries s1) then (Inl (credential_error ''credential_store_full''), s1)
        else
         (case fresh_reference (map draw [0..<8]) (entries s1) of
            None \<Rightarrow> (Inl (credential_error ''credential_reference_failed''), s1)
          | Some ref \<Rightarrow> (Inr ref, s1\<lparr>entries := AList.update ref
              \<lparr>cred_value = credential, expires_at = later now (ttl_seconds s1), is_reserved = False\<rparr>
              (entries s1)\<rparr>))))"

definition reserve :: "string \<Rightarrow> rat \<Rightarrow> credential_store \<Rightarrow> string res \<times> credential_store" where
  "reserve ref now s =
     (if \<not> network_credential_ref ref then (Inl (credential_error ''credential_ref_invalid''), s)
      else
       (case map_of (entries s) ref of
          None \<Rightarrow> (Inl (credential_error ''credential_ref_invalid''), s)
        | Some e \<Rightarrow>
            if is_reserved e then (Inl (credential_error ''credential_ref_invalid''), s)
            else if expires_at e \<le> now
            then (Inl (credential_error ''credential_ref_expired''), s\<lparr>entries := AList.delete ref (entries s)\<rparr>)
            else (Inr (cred_value e), s\<lparr>entries := AList.update ref (e\<lparr>is_reserved := True\<rparr>) (entries s)\<rparr>)))"

definition commit_reservation :: "string \<Rightarrow> credential_store \<Rightarrow> unit res \<times> credential_store" where
  "commit_reservation ref s =
     (case map_of (entries s) ref of
        None \<Rightarrow> (Inl RuntimeError, s)
      | Some e \<Rightarrow> (if \<not> is_reserved e then (Inl RuntimeError, s)
                  else (Inr (), s\<lparr>entries := AList.delete ref (entries s)\<rparr>)))"

definition release_reservation :: "string \<Rightarrow> rat \<Rightarrow> credential_store \<Rightarrow> credential_store" where
  "release_reservation ref now s =
     (case map_of (entries s) ref of
        None \<Rightarrow> s
      | Some e \<Rightarrow> (if \<not> is_reserved e then s
                  else if expires_at e \<le> now then s\<lparr>entries := AList.delete ref (entries s)\<rparr>
                  else s\<lparr>entries := AList.update ref (e\<lparr>is_reserved := False\<rparr>) (entries s)\<rparr>))"

text \<open>\<open>NetworkCredentialReservation.close\<close>, at the end of the \<open>with\<close> block.\<close>

definition close_reservation :: "bool \<Rightarrow> string \<Rightarrow> rat \<Rightarrow> credential_store \<Rightarrow> credential_store" where
  "close_reservation committed ref now s = (if committed then s else release_reservation ref now s)"

definition consume :: "string \<Rightarrow> rat \<Rightarrow> credential_store \<Rightarrow> string res \<times> credential_store" where
  "consume ref now s =
     (case reserve ref now s of
        (Inl e, s1) \<Rightarrow> (Inl e, s1)
      | (Inr credential, s1) \<Rightarrow>
          (case commit_reservation ref s1 of
             (Inl e, s2) \<Rightarrow> (Inl e, close_reservation False ref now s2)
           | (Inr _, s2) \<Rightarrow> (Inr credential, close_reservation True ref now s2)))"

definition discard :: "string \<Rightarrow> credential_store \<Rightarrow> credential_store" where
  "discard ref s = s\<lparr>entries := AList.delete ref (entries s)\<rparr>"

definition clear :: "credential_store \<Rightarrow> credential_store" where
  "clear s = s\<lparr>entries := []\<rparr>"

section \<open>Any sequence of calls\<close>

datatype credential_call =
    Create string rat "nat \<Rightarrow> string"
  | Reserve string rat
  | Commit string
  | Close bool string rat
  | Consume string rat
  | Discard string
  | Clear

fun perform :: "(rat \<Rightarrow> int \<Rightarrow> rat) \<Rightarrow> credential_call \<Rightarrow> credential_store \<Rightarrow> credential_store" where
  "perform later (Create c now draw) s = snd (create later c now draw s)"
| "perform later (Reserve r now) s = snd (reserve r now s)"
| "perform later (Commit r) s = snd (commit_reservation r s)"
| "perform later (Close b r now) s = close_reservation b r now s"
| "perform later (Consume r now) s = snd (consume r now s)"
| "perform later (Discard r) s = discard r s"
| "perform later Clear s = clear s"

fun issued :: "(rat \<Rightarrow> int \<Rightarrow> rat) \<Rightarrow> credential_call \<Rightarrow> credential_store \<Rightarrow> string option" where
  "issued later (Create c now draw) s = (case fst (create later c now draw s) of Inr r \<Rightarrow> Some r | Inl _ \<Rightarrow> None)"
| "issued later _ s = None"

fun perform_all :: "(rat \<Rightarrow> int \<Rightarrow> rat) \<Rightarrow> credential_call list \<Rightarrow> credential_store \<Rightarrow> credential_store" where
  "perform_all later [] s = s"
| "perform_all later (c # cs) s = perform_all later cs (perform later c s)"

fun never_issues :: "(rat \<Rightarrow> int \<Rightarrow> rat) \<Rightarrow> string \<Rightarrow> credential_call list \<Rightarrow> credential_store \<Rightarrow> bool" where
  "never_issues later r [] s = True"
| "never_issues later r (c # cs) s = (issued later c s \<noteq> Some r \<and> never_issues later r cs (perform later c s))"

section \<open>Invariant\<close>

definition store_ok :: "credential_store \<Rightarrow> bool" where
  "store_ok s \<longleftrightarrow> length (entries s) \<le> max_entries s \<and> distinct (map fst (entries s)) \<and>
     (\<forall>r \<in> set (map fst (entries s)). network_credential_ref r \<and> py_len r \<le> 128)"

lemma fresh_reference_Some:
  "fresh_reference ts es = Some r \<Longrightarrow> map_of es r = None \<and> network_credential_ref r \<and> py_len r \<le> 128"
  by (induction ts) (auto simp: Let_def split: if_splits)

lemma length_update_fresh: "map_of es r = None \<Longrightarrow> length (AList.update r v es) = Suc (length es)"
  by (induction es) auto

lemma length_update_bound: "r \<in> fst ` set es \<Longrightarrow> length (AList.update r v es) = length es"
  by (induction es) auto

lemma length_delete_le: "length (AList.delete r es) \<le> length es"
  by (simp add: AList.delete_eq)

lemma store_ok_delete: "store_ok s \<Longrightarrow> store_ok (s\<lparr>entries := AList.delete r (entries s)\<rparr>)"
  using length_delete_le [of r "entries s"]
  by (simp add: store_ok_def distinct_delete keys_delete del: set_map)

lemma store_ok_touch:
  assumes "store_ok s" and "map_of (entries s) r = Some e"
  shows "store_ok (s\<lparr>entries := AList.update r f (entries s)\<rparr>)"
proof -
  have r: "r \<in> fst ` set (entries s)" using assms(2) by (metis domI dom_map_of_conv_image_fst)
  then have k: "set (map fst (AList.update r f (entries s))) = set (map fst (entries s))"
    unfolding keys_update by auto
  show ?thesis
    using assms(1) r unfolding store_ok_def by (simp add: length_update_bound distinct_update k del: set_map)
qed

lemma store_ok_purge: "store_ok s \<Longrightarrow> store_ok (purge_expired now s)"
  by (auto simp: store_ok_def purge_expired_def distinct_map_filter intro: le_trans [OF length_filter_le])

lemma store_ok_create: "store_ok s \<Longrightarrow> store_ok (snd (create later c now draw s))"
proof -
  assume "store_ok s"
  then have p: "store_ok (purge_expired now s)" by (rule store_ok_purge)
  have i: "store_ok (t\<lparr>entries := AList.update r v (entries t)\<rparr>)"
    if "store_ok t" "fresh_reference ts (entries t) = Some r" "\<not> max_entries t \<le> length (entries t)" for t r v ts
    using that fresh_reference_Some [OF that(2)] unfolding store_ok_def
    by (simp add: length_update_fresh distinct_update keys_update del: set_map)
  show ?thesis using p \<open>store_ok s\<close> i [OF p]
    by (auto simp: create_def Let_def split: option.splits)
qed

lemma store_ok_reserve: "store_ok s \<Longrightarrow> store_ok (snd (reserve r now s))"
  by (auto simp: reserve_def store_ok_delete store_ok_touch split: option.splits)

lemma store_ok_commit: "store_ok s \<Longrightarrow> store_ok (snd (commit_reservation r s))"
  by (auto simp: commit_reservation_def store_ok_delete split: option.splits)

lemma store_ok_close: "store_ok s \<Longrightarrow> store_ok (close_reservation b r now s)"
  by (auto simp: close_reservation_def release_reservation_def store_ok_delete store_ok_touch split: option.splits)

lemma store_ok_consume: "store_ok s \<Longrightarrow> store_ok (snd (consume r now s))"
  using store_ok_reserve [of s r now] store_ok_commit [of "snd (reserve r now s)" r]
  by (auto simp: consume_def store_ok_close split: prod.splits sum.splits)

lemma store_ok_perform: "store_ok s \<Longrightarrow> store_ok (perform later c s)"
  by (cases c)
     (simp_all add: store_ok_create store_ok_reserve store_ok_commit store_ok_close store_ok_consume
        discard_def store_ok_delete, simp add: clear_def store_ok_def)

lemma store_ok_perform_all: "store_ok s \<Longrightarrow> store_ok (perform_all later cs s)"
  by (induction cs arbitrary: s) (simp_all add: store_ok_perform)

section \<open>A reference keeps its credential until it is used\<close>

text \<open>What a later state may still hold under a reference.\<close>

definition same_credential :: "credential_entry \<Rightarrow> credential_entry \<Rightarrow> bool" where
  "same_credential e f \<longleftrightarrow> cred_value f = cred_value e \<and> expires_at f = expires_at e"

definition kept :: "string \<Rightarrow> credential_store \<Rightarrow> credential_store \<Rightarrow> bool" where
  "kept r s t \<longleftrightarrow> (\<forall>f. map_of (entries t) r = Some f \<longrightarrow>
     (\<exists>e. map_of (entries s) r = Some e \<and> same_credential e f))"

lemma kept_refl: "kept r s s"
  by (simp add: kept_def same_credential_def)

lemma kept_trans: "kept r s t \<Longrightarrow> kept r t u \<Longrightarrow> kept r s u"
  by (fastforce simp: kept_def same_credential_def)

lemma kept_delete: "kept r s (s\<lparr>entries := AList.delete q (entries s)\<rparr>)"
  by (simp add: kept_def same_credential_def)

lemma kept_touch:
  "map_of (entries s) q = Some e \<Longrightarrow> same_credential e f \<Longrightarrow> kept r s (s\<lparr>entries := AList.update q f (entries s)\<rparr>)"
  by (auto simp: kept_def same_credential_def)

lemma kept_purge: "store_ok s \<Longrightarrow> kept r s (purge_expired now s)"
  by (auto simp: kept_def store_ok_def purge_expired_def same_credential_def dest!: map_of_SomeD)

lemma kept_other: "r \<noteq> q \<Longrightarrow> kept r s (s\<lparr>entries := AList.update q f (entries s)\<rparr>)"
  by (simp add: kept_def same_credential_def)

lemma kept_create:
  assumes "store_ok s" and "fst (create later c now draw s) \<noteq> Inr r"
  shows "kept r s (snd (create later c now draw s))"
  using assms(2) kept_refl kept_purge [OF assms(1)] kept_trans [OF kept_purge [OF assms(1)] kept_other]
  by (auto simp: create_def Let_def split: option.splits)

lemma kept_reserve: "kept r s (snd (reserve q now s))"
  by (auto simp: reserve_def kept_refl kept_delete same_credential_def intro!: kept_touch split: option.splits)

lemma kept_commit: "kept r s (snd (commit_reservation q s))"
  by (auto simp: commit_reservation_def kept_refl kept_delete split: option.splits)

lemma kept_close: "kept r s (close_reservation b q now s)"
  by (auto simp: close_reservation_def release_reservation_def kept_refl kept_delete same_credential_def
      intro!: kept_touch split: option.splits)

lemma kept_consume: "kept r s (snd (consume q now s))"
proof -
  have "kept r s (snd (commit_reservation q (snd (reserve q now s))))"
    by (rule kept_trans [OF kept_reserve kept_commit])
  then show ?thesis
    using kept_trans [OF _ kept_close] kept_reserve [of r s q now]
    by (auto simp: consume_def split: prod.splits sum.splits)
qed

lemma kept_perform:
  "store_ok s \<Longrightarrow> issued later c s \<noteq> Some r \<Longrightarrow> kept r s (perform later c s)"
  by (cases c)
     (auto simp: kept_reserve kept_commit kept_close kept_consume discard_def kept_delete clear_def
        kept_def [of r s "s\<lparr>entries := []\<rparr>"] intro!: kept_create)

lemma kept_perform_all: "store_ok s \<Longrightarrow> never_issues later r cs s \<Longrightarrow> kept r s (perform_all later cs s)"
proof (induction cs arbitrary: s)
  case (Cons c cs)
  then show ?case
    using kept_trans [OF kept_perform [OF Cons.prems(1), of later c r]] store_ok_perform [OF Cons.prems(1)] by simp
qed (simp add: kept_refl)

lemma reserve_success:
  assumes "reserve r now s = (Inr v, s')"
  obtains e where "map_of (entries s) r = Some e" "\<not> is_reserved e" "now < expires_at e" "v = cred_value e"
    and "s' = s\<lparr>entries := AList.update r (e\<lparr>is_reserved := True\<rparr>) (entries s)\<rparr>"
  using assms by (auto simp: reserve_def split: if_splits option.splits)

lemma reserve_twice:
  assumes "reserve r now s = (Inr v, s')"
  shows "reserve r now' s' = (Inl (credential_error ''credential_ref_invalid''), s')"
proof (rule reserve_success [OF assms])
  fix e
  assume "s' = s\<lparr>entries := AList.update r (e\<lparr>is_reserved := True\<rparr>) (entries s)\<rparr>"
  then have "map_of (entries s') r = Some (e\<lparr>is_reserved := True\<rparr>)" by simp
  then show ?thesis by (simp add: reserve_def)
qed

text \<open>A credential comes back only to its own reference and only in time.  After any later calls
  that do not happen to draw the same token again, a reservation of an issued reference that
  succeeds yields exactly the credential it was issued for, before the TTL has run out.\<close>

theorem credential_comes_back_once_in_time:
  assumes "create later c t draw s = (Inr r, s1)" and "store_ok s"
    and "never_issues later r cs s1" and "reserve r now (perform_all later cs s1) = (Inr v, s2)"
  shows "v = c \<and> now < later t (ttl_seconds s)"
proof -
  have e: "\<exists>e. map_of (entries s1) r = Some e \<and> cred_value e = c \<and> expires_at e = later t (ttl_seconds s)"
    using assms(1) by (auto simp: create_def Let_def purge_expired_def split: if_splits option.splits)
  have "store_ok s1" using store_ok_create [OF assms(2), of later c t draw] assms(1) by simp
  then have "kept r s1 (perform_all later cs s1)" using assms(3) by (rule kept_perform_all)
  then show ?thesis
    using e assms(4) by (auto simp: kept_def same_credential_def elim!: reserve_success)
qed

text \<open>A credential is used at most once.  Once its reservation is committed, no later
  reservation or consumption of the reference succeeds, whatever is called in between, unless the
  token factory draws the same token for a new credential.\<close>

theorem committed_credential_is_spent:
  assumes "commit_reservation r s = (Inr (), s1)" and "store_ok s" and "never_issues later r cs s1"
  shows "\<exists>code. reserve r now (perform_all later cs s1) =
           (Inl (credential_error ''credential_ref_invalid''), perform_all later cs s1) \<and>
         fst (consume r now (perform_all later cs s1)) = Inl (credential_error code)"
proof -
  have n: "map_of (entries s1) r = None"
    using assms(1) by (auto simp: commit_reservation_def split: if_splits option.splits)
  have "store_ok s1" using store_ok_commit [OF assms(2), of r] assms(1) by simp
  then have "kept r s1 (perform_all later cs s1)" using assms(3) by (rule kept_perform_all)
  with n have "map_of (entries (perform_all later cs s1)) r = None"
    by (cases "map_of (entries (perform_all later cs s1)) r") (auto simp: kept_def)
  then show ?thesis by (auto simp: reserve_def consume_def)
qed

text \<open>The store never grows beyond its capacity, and while a reservation is open a second one of
  the same reference is refused, after any calls on a fresh store.\<close>

theorem credential_store_bounded:
  assumes "new_credential_store ttl capacity = Inr s0" and "s = perform_all later cs s0"
  shows "length (entries s) \<le> nat capacity \<and>
    (\<forall>r now v s'. reserve r now s = (Inr v, s') \<longrightarrow>
       (\<forall>now'. reserve r now' s' = (Inl (credential_error ''credential_ref_invalid''), s')))"
proof -
  have s0: "store_ok s0" "max_entries s0 = nat capacity"
    using assms(1) by (auto simp: new_credential_store_def store_ok_def)
  have m: "max_entries (perform later c t) = max_entries t" for c t
    by (cases c) (auto simp: create_def reserve_def commit_reservation_def close_reservation_def
        release_reservation_def consume_def discard_def clear_def purge_expired_def Let_def
        split: option.splits prod.splits sum.splits if_splits)
  have "max_entries (perform_all later cs t) = max_entries t" for t
    by (induction cs arbitrary: t) (simp_all add: m)
  then have "length (entries s) \<le> nat capacity"
    using store_ok_perform_all [OF s0(1), of later cs] s0(2) assms(2) by (simp add: store_ok_def)
  then show ?thesis using reserve_twice by blast
qed

section \<open>Concrete calls\<close>

definition ex_store :: credential_store where
  "ex_store = \<lparr>ttl_seconds = 60, max_entries = 2, entries = []\<rparr>"

definition ex_draw :: "nat \<Rightarrow> string" where
  "ex_draw n = ''T0''"

definition ex_later :: "rat \<Rightarrow> int \<Rightarrow> rat" where
  "ex_later t n = t + of_int n"

lemma ex_ref_ok: "network_credential_ref ''cred-T0''" "py_len ''cred-T0'' = 7"
  by (simp_all add: network_credential_ref_def credential_char_def is_alnum_def is_digit_def is_upper_def
      py_len_def is_continuation_def)

definition ex_issued :: credential_store where
  "ex_issued = ex_store\<lparr>entries := [(''cred-T0'',
     \<lparr>cred_value = ''hunter22'', expires_at = 70, is_reserved = False\<rparr>)]\<rparr>"

lemma ex_create: "create ex_later ''hunter22'' 10 ex_draw ex_store = (Inr ''cred-T0'', ex_issued)"
proof -
  have d: "map ex_draw [0..<8] = ''T0'' # map ex_draw [1..<8]"
    by (simp add: upt_rec ex_draw_def)
  have "fresh_reference (map ex_draw [0..<8]) [] = Some ''cred-T0''"
    unfolding d using ex_ref_ok by simp
  then show ?thesis
    by (simp add: create_def credential_ok_def ex_store_def ex_issued_def purge_expired_def ex_later_def)
qed

lemma ex_store_ok: "store_ok ex_store" "store_ok ex_issued"
  using ex_ref_ok by (simp_all add: store_ok_def ex_store_def ex_issued_def)

definition ex_reserved :: credential_store where
  "ex_reserved = snd (reserve ''cred-T0'' 11 ex_issued)"

lemma ex_reserve: "reserve ''cred-T0'' 11 ex_issued = (Inr ''hunter22'', ex_reserved)"
  using ex_ref_ok by (simp add: ex_reserved_def reserve_def ex_issued_def)

theorem credential_comes_back_once_in_time_witness:
  "''hunter22'' = ''hunter22'' \<and> (11::rat) < ex_later 10 60"
  using credential_comes_back_once_in_time [OF ex_create ex_store_ok(1), of "[]" 11] ex_reserve
  by (simp add: ex_store_def)

theorem committed_credential_is_spent_witness:
  "\<exists>s1. commit_reservation ''cred-T0'' ex_reserved = (Inr (), s1) \<and>
     fst (reserve ''cred-T0'' 12 s1) = Inl (credential_error ''credential_ref_invalid'')"
proof -
  have ok: "store_ok ex_reserved"
    unfolding ex_reserved_def by (rule store_ok_reserve [OF ex_store_ok(2)])
  obtain s1 where c: "commit_reservation ''cred-T0'' ex_reserved = (Inr (), s1)"
    using ex_ref_ok by (simp add: commit_reservation_def ex_reserved_def reserve_def ex_issued_def)
  show ?thesis
    using committed_credential_is_spent [OF c ok, of ex_later "[]" 12] c by auto
qed

theorem credential_store_bounded_witness:
  "length (entries (perform_all ex_later [Create ''hunter22'' 10 ex_draw] ex_store)) \<le> 2"
proof -
  have "new_credential_store 60 2 = Inr ex_store"
    by (simp add: new_credential_store_def guardE_def ex_store_def)
  from credential_store_bounded [OF this refl, of ex_later "[Create ''hunter22'' 10 ex_draw]"]
  show ?thesis by simp
qed

end
