(* ===== verification/ClockSync.thy ===== *)
theory ClockSync
  imports PyJson
begin

text \<open>
  \<open>clock_sync.py\<close>: setting the wall clock of an offline device from an authenticated client.
  The readings a call takes of the clocks, of NTP and of the token generator are the fields of a
  \<open>clock_reading\<close>, in the order the code takes them; setting the system clock is the third
  component of the result of \<open>sync\<close>.  Both methods run under the synchronizer's lock.
\<close>

section \<open>Requests and responses\<close>

definition min_client_unix_ms :: int where "min_client_unix_ms = 1704067200000"
definition max_client_unix_ms :: int where "max_client_unix_ms = 4102444800000"
definition challenge_ttl_ms :: int where "challenge_ttl_ms = 5000"

definition clock_error :: "string \<Rightarrow> pyexc" where
  "clock_error code = AppError ''ClockSyncError'' code False"

definition valid_clock_request :: "json \<Rightarrow> bool" where
  "valid_clock_request body =
     (case body of
        JObj d \<Rightarrow> has_keys d [''schema'', ''challenge'', ''unix_time_ms''] \<and>
          eq_str (jget d ''schema'') ''ylx.clock-sync-request.v1'' \<and>
          str_in (jget d ''challenge'') (hex_n 32) \<and>
          int_in (jget d ''unix_time_ms'') (\<lambda>t. min_client_unix_ms \<le> t \<and> t < max_client_unix_ms)
      | _ \<Rightarrow> False)"

definition valid_clock_response :: "json \<Rightarrow> bool" where
  "valid_clock_response body =
     (case body of
        JObj d \<Rightarrow>
          has_keys d [''schema'', ''source'', ''unix_time_ms'', ''challenge'', ''expires_in_ms'', ''applied''] \<and>
          eq_str (jget d ''schema'') ''ylx.clock-status.v1'' \<and>
          in_strs (jget d ''source'') [''ntp'', ''client'', ''unsynchronized''] \<and>
          int_in (jget d ''unix_time_ms'') (\<lambda>t. 0 \<le> t) \<and>
          is_bool (jget d ''applied'') \<and>
          (jget d ''applied'' = JBool True \<longrightarrow> eq_str (jget d ''source'') ''client'') \<and>
          is_int (jget d ''expires_in_ms'') \<and>
          (str_in (jget d ''challenge'') (hex_n 32) \<and> eq_str (jget d ''source'') ''unsynchronized'' \<and>
             jget d ''expires_in_ms'' = JInt challenge_ttl_ms \<or>
           jget d ''challenge'' = JNull \<and> in_strs (jget d ''source'') [''ntp'', ''client''] \<and>
             jget d ''expires_in_ms'' = JInt 0)
      | _ \<Rightarrow> False)"

section \<open>The synchronizer\<close>

record clock_sync =
  challenges :: "(string \<times> (string \<times> int \<times> int)) list"
  client_reference :: "(int \<times> int) option"

definition initial_sync :: clock_sync where
  "initial_sync = \<lparr>challenges = [], client_reference = None\<rparr>"

record clock_reading =
  received_mono :: int
  ntp :: "bool res"
  source_wall :: int
  source_mono :: int
  now_mono :: int
  token :: string
  issue_wall :: int
  check_wall :: int
  apply_wall :: int
  settime :: "unit res"
  reference_mono :: int
  reference_wall :: int
  response_wall :: int

definition clock_source :: "clock_reading \<Rightarrow> clock_sync \<Rightarrow> string res \<times> clock_sync" where
  "clock_source r s =
     tryS (ntp r) s (\<lambda>synchronized.
       if synchronized then (Inr ''ntp'', s) else
       (case client_reference s of
          Some (mono0, wall) \<Rightarrow>
            if \<bar>source_wall r - wall - (source_mono r - mono0)\<bar> < 2000000000 then (Inr ''client'', s)
            else (Inr ''unsynchronized'', s\<lparr>client_reference := None\<rparr>)
        | None \<Rightarrow> (Inr ''unsynchronized'', s)))"

definition clock_response :: "string \<Rightarrow> string option \<Rightarrow> bool \<Rightarrow> int \<Rightarrow> json" where
  "clock_response source challenge applied wall = JObj
     [(''schema'', JStr ''ylx.clock-status.v1''),
      (''source'', JStr source),
      (''unix_time_ms'', JInt (wall div 1000000)),
      (''challenge'', (case challenge of Some c \<Rightarrow> JStr c | None \<Rightarrow> JNull)),
      (''expires_in_ms'', JInt (case challenge of Some c \<Rightarrow> (if c = [] then 0 else challenge_ttl_ms) | None \<Rightarrow> 0)),
      (''applied'', JBool applied)]"

definition in_ttl :: "int \<Rightarrow> int \<Rightarrow> bool" where
  "in_ttl now issued \<longleftrightarrow> 0 \<le> now - issued \<and> now - issued < challenge_ttl_ms * 1000000"

text \<open>The challenge table of \<open>status\<close>: expired ones out, the oldest out when 64 remain, the new one in.\<close>

definition issue_challenge ::
  "string \<Rightarrow> clock_reading \<Rightarrow> (string \<times> (string \<times> int \<times> int)) list \<Rightarrow> (string \<times> (string \<times> int \<times> int)) list" where
  "issue_challenge pid r cs =
     (let live = filter (\<lambda>(k, (p, issued, w)). in_ttl (now_mono r) issued) cs;
          room = (if 64 \<le> length live then tl live else live)
      in AList.update (token r) (pid, now_mono r, issue_wall r) room)"

definition status :: "string \<Rightarrow> clock_reading \<Rightarrow> clock_sync \<Rightarrow> json res \<times> clock_sync" where
  "status pid r s =
     (case clock_source r s of
        (Inl e, s1) \<Rightarrow> (Inl e, s1)
      | (Inr source, s1) \<Rightarrow>
          if source \<noteq> ''unsynchronized'' then (Inr (clock_response source None False (response_wall r)), s1)
          else (Inr (clock_response source (Some (token r)) False (response_wall r)),
                s1\<lparr>challenges := issue_challenge pid r (challenges s1)\<rparr>))"

definition text_value :: "json \<Rightarrow> string" where
  "text_value v = (case v of JStr s \<Rightarrow> s | _ \<Rightarrow> [])"

definition int_of_json :: "json \<Rightarrow> int" where
  "int_of_json v = (case v of JInt i \<Rightarrow> i | _ \<Rightarrow> 0)"

text \<open>\<open>sync\<close>.  The challenge leaves the table before anything else is decided; the time the request
  spent in the process is added to the client's time.\<close>

definition sync :: "string \<Rightarrow> json \<Rightarrow> clock_reading \<Rightarrow> clock_sync \<Rightarrow> json res \<times> clock_sync \<times> int option" where
  "sync pid body r s =
     (if \<not> valid_clock_request body then (Inl (clock_error ''invalid_request''), s, None) else
      let d = (case body of JObj d \<Rightarrow> d | _ \<Rightarrow> []);
          key = text_value (jget d ''challenge'');
          s1 = s\<lparr>challenges := AList.delete key (challenges s)\<rparr> in
      (case map_of (challenges s) key of
         None \<Rightarrow> (Inl (clock_error ''clock_challenge_expired''), s1, None)
       | Some (owner, issued, original_wall) \<Rightarrow>
           if owner \<noteq> pid then (Inl (clock_error ''clock_challenge_expired''), s1, None) else
           (case clock_source r s1 of
              (Inl e, s2) \<Rightarrow> (Inl e, s2, None)
            | (Inr source, s2) \<Rightarrow>
                if source \<noteq> ''unsynchronized''
                then (Inr (clock_response source None False (response_wall r)), s2, None)
                else if \<not> in_ttl (now_mono r) issued
                then (Inl (clock_error ''clock_challenge_expired''), s2, None)
                else if \<bar>check_wall r - original_wall - (now_mono r - issued)\<bar> > 1000000000
                then (Inl (clock_error ''clock_changed''), s2, None)
                else
                 (let target = int_of_json (jget d ''unix_time_ms'') * 1000000 + now_mono r - received_mono r;
                      applied = \<bar>apply_wall r - target\<bar> > 1000000000;
                      done_state = s2\<lparr>client_reference := Some (reference_mono r, reference_wall r), challenges := []\<rparr>;
                      answer = Inr (clock_response ''client'' None applied (response_wall r)) in
                  if \<not> applied then (answer, done_state, None)
                  else (case settime r of
                          Inl e \<Rightarrow> (Inl (if e = OSError then clock_error ''clock_set_failed'' else e), s2, None)
                        | Inr _ \<Rightarrow> (answer, done_state, Some target))))))"

section \<open>Runs\<close>

datatype clock_call = Status string clock_reading | Sync string json clock_reading

fun call :: "clock_call \<Rightarrow> clock_sync \<Rightarrow> clock_sync" where
  "call (Status p r) s = snd (status p r s)"
| "call (Sync p b r) s = fst (snd (sync p b r s))"

fun calls :: "clock_call list \<Rightarrow> clock_sync \<Rightarrow> clock_sync" where
  "calls [] s = s"
| "calls (c # cs) s = calls cs (call c s)"

text \<open>The challenges a run hands out, and those it takes back from their owner.\<close>

fun issues :: "clock_call \<Rightarrow> clock_sync \<Rightarrow> (string \<times> string \<times> int) list" where
  "issues (Status p r) s = (if fst (clock_source r s) = Inr ''unsynchronized'' then [(token r, p, now_mono r)] else [])"
| "issues (Sync p b r) s = []"

fun redeems :: "clock_call \<Rightarrow> clock_sync \<Rightarrow> (string \<times> string \<times> int) list" where
  "redeems (Status p r) s = []"
| "redeems (Sync p b r) s =
     (case b of
        JObj d \<Rightarrow>
          (case map_of (challenges s) (text_value (jget d ''challenge'')) of
             Some (owner, issued, w) \<Rightarrow>
               (if valid_clock_request b \<and> owner = p then [(text_value (jget d ''challenge''), p, issued)] else [])
           | None \<Rightarrow> [])
      | _ \<Rightarrow> [])"

fun log_of :: "(clock_call \<Rightarrow> clock_sync \<Rightarrow> 'a list) \<Rightarrow> clock_call list \<Rightarrow> clock_sync \<Rightarrow> 'a list" where
  "log_of f [] s = []"
| "log_of f (c # cs) s = f c s @ log_of f cs (call c s)"

section \<open>The challenge table\<close>

definition table_ok :: "clock_sync \<Rightarrow> bool" where
  "table_ok s \<longleftrightarrow> distinct (map fst (challenges s)) \<and> length (challenges s) \<le> 64"

lemma clock_source_challenges [simp]: "challenges (snd (clock_source r s)) = challenges s"
  by (cases "ntp r") (auto simp: clock_source_def split: option.splits)

lemma clock_source_state: "clock_source r s = (x, s1) \<Longrightarrow> challenges s1 = challenges s"
  using clock_source_challenges [of r s] by simp

lemma map_of_sublist:
  "distinct (map fst cs) \<Longrightarrow> set ds \<subseteq> set cs \<Longrightarrow> map_of ds k = Some v \<Longrightarrow> map_of cs k = Some v"
  by (auto dest!: map_of_SomeD)

lemma set_tl_subset: "set (tl xs) \<subseteq> set xs"
  by (cases xs) auto

lemma length_update_le: "length (AList.update k v cs) \<le> Suc (length cs)"
  by (induction cs) auto

lemma issue_challenge_ok:
  assumes "distinct (map fst cs)" and "length cs \<le> 64"
  shows "distinct (map fst (issue_challenge p r cs)) \<and> length (issue_challenge p r cs) \<le> 64"
proof -
  let ?live = "filter (\<lambda>(k, (p, issued, w)). in_ttl (now_mono r) issued) cs"
  have l: "length ?live \<le> 64" using assms(2) le_trans [OF length_filter_le] by blast
  have d: "distinct (map fst ?live)" using assms(1) by (rule distinct_map_filter)
  then have "distinct (map fst (if 64 \<le> length ?live then tl ?live else ?live))"
    by (cases ?live) auto
  moreover have "length (if 64 \<le> length ?live then tl ?live else ?live) \<le> 63" using l by auto
  ultimately show ?thesis
    unfolding issue_challenge_def Let_def
    using length_update_le [of "token r" "(p, now_mono r, issue_wall r)" "if 64 \<le> length ?live then tl ?live else ?live"]
    by (simp add: distinct_update)
qed

lemma issue_challenge_lookup:
  assumes "distinct (map fst cs)" and "map_of (issue_challenge p r cs) k = Some v"
  shows "k = token r \<and> v = (p, now_mono r, issue_wall r) \<or> k \<noteq> token r \<and> map_of cs k = Some v"
proof (cases "k = token r")
  case False
  let ?live = "filter (\<lambda>(k, (p, issued, w)). in_ttl (now_mono r) issued) cs"
  have "map_of (if 64 \<le> length ?live then tl ?live else ?live) k = Some v"
    using assms(2) False by (simp add: issue_challenge_def Let_def)
  moreover have "set (if 64 \<le> length ?live then tl ?live else ?live) \<subseteq> set cs"
    using set_tl_subset [of ?live] filter_is_subset [of _ cs] by (auto split: if_splits)
  ultimately show ?thesis using map_of_sublist [OF assms(1)] False by blast
qed (use assms(2) in \<open>simp add: issue_challenge_def Let_def\<close>)

lemma status_challenges:
  "challenges (snd (status p r s)) = (if fst (clock_source r s) = Inr ''unsynchronized''
     then issue_challenge p r (challenges s) else challenges s)"
  by (auto simp: status_def clock_source_state split: prod.splits sum.splits)

lemma sync_challenges:
  "challenges (fst (snd (sync p b r s))) = challenges s \<and> \<not> valid_clock_request b \<or>
   challenges (fst (snd (sync p b r s))) = [] \<or>
   (\<exists>d. b = JObj d \<and> challenges (fst (snd (sync p b r s))) = AList.delete (text_value (jget d ''challenge'')) (challenges s))"
proof (cases "valid_clock_request b")
  case True
  then obtain d where "b = JObj d" by (cases b) (auto simp: valid_clock_request_def)
  with True show ?thesis
    by (auto simp: sync_def Let_def dest: clock_source_state
        split: option.splits prod.splits sum.splits)
qed (simp add: sync_def)

lemma table_ok_call: "table_ok s \<Longrightarrow> table_ok (call c s)"
proof (cases c)
  case (Status p r)
  then show "table_ok s \<Longrightarrow> ?thesis"
    using issue_challenge_ok [of "challenges s" p r] by (simp add: table_ok_def status_challenges)
next
  case (Sync p b r)
  have len: "length (AList.delete k (challenges s)) \<le> length (challenges s)" for k by (simp add: AList.delete_eq)
  then show "table_ok s \<Longrightarrow> ?thesis"
    using sync_challenges [of p b r s] Sync
    by (auto simp: table_ok_def distinct_delete intro: order.trans [OF len])
qed

lemma table_ok_calls: "table_ok s \<Longrightarrow> table_ok (calls cs s)"
  by (induction cs arbitrary: s) (simp_all add: table_ok_call)

text \<open>Whatever is asked, at most 64 challenges are outstanding, under distinct tokens.\<close>

theorem challenge_table_bounded:
  "length (challenges (calls cs initial_sync)) \<le> 64 \<and> distinct (map fst (challenges (calls cs initial_sync)))"
  using table_ok_calls [of initial_sync cs] by (simp add: table_ok_def initial_sync_def)

section \<open>Every challenge is redeemed at most once\<close>

definition held :: "clock_sync \<Rightarrow> string \<times> string \<times> int \<Rightarrow> nat" where
  "held s x = (case x of (tok, p, issued) \<Rightarrow>
     (case map_of (challenges s) tok of
        Some (q, i, w) \<Rightarrow> (if q = p \<and> i = issued then 1 else 0) | None \<Rightarrow> 0))"

lemma held_le: "held s x \<le> 1"
  by (auto simp: held_def split: prod.splits option.splits)

lemma held_status:
  assumes "table_ok s"
  shows "held (snd (status p r s)) x \<le> held s x + count_list (issues (Status p r) s) x"
proof (cases "fst (clock_source r s) = Inr ''unsynchronized''")
  case True
  obtain tok q i where x: "x = (tok, q, i)" by (cases x)
  have d: "distinct (map fst (challenges s))" using assms by (simp add: table_ok_def)
  show ?thesis
  proof (cases "map_of (issue_challenge p r (challenges s)) tok")
    case None
    then show ?thesis using True x by (simp add: held_def status_challenges)
  next
    case (Some v)
    then show ?thesis
      using True x issue_challenge_lookup [OF d Some]
      by (auto simp: held_def status_challenges split: prod.splits)
  qed
qed (simp add: held_def status_challenges split: prod.splits)

lemma held_sync: "count_list (redeems (Sync p b r) s) x + held (fst (snd (sync p b r s))) x \<le> held s x"
proof (cases "valid_clock_request b")
  case True
  then obtain d where d: "b = JObj d" by (cases b) (auto simp: valid_clock_request_def)
  obtain tok q i where x: "x = (tok, q, i)" by (cases x)
  let ?k = "text_value (jget d ''challenge'')"
  have c: "challenges (fst (snd (sync p b r s))) = [] \<or> challenges (fst (snd (sync p b r s))) = AList.delete ?k (challenges s)"
    using sync_challenges [of p b r s] True d by auto
  show ?thesis
  proof (cases "tok = ?k")
    case True
    then have "held (fst (snd (sync p b r s))) x = 0" using c x by (auto simp: held_def)
    then show ?thesis using True x d by (auto simp: held_def split: option.splits prod.splits)
  next
    case False
    then have "count_list (redeems (Sync p b r) s) x = 0" using x d by (auto split: option.splits prod.splits)
    moreover have "held (fst (snd (sync p b r s))) x \<le> held s x" using c x False by (auto simp: held_def)
    ultimately show ?thesis by simp
  qed
next
  case False
  then show ?thesis by (auto simp: sync_def split: json.splits option.splits prod.splits)
qed

lemma held_call:
  assumes "table_ok s"
  shows "count_list (redeems c s) x + held (call c s) x \<le> held s x + count_list (issues c s) x"
proof (cases c)
  case (Status p r)
  then show ?thesis using held_status [OF assms, of p r x] by simp
next
  case (Sync p b r)
  then show ?thesis using held_sync [of p b r s x] by simp
qed

lemma redeemed_le_issued:
  "table_ok s \<Longrightarrow> count_list (log_of redeems cs s) x + held (calls cs s) x \<le> held s x + count_list (log_of issues cs s) x"
proof (induction cs arbitrary: s)
  case (Cons c cs)
  from Cons.IH [OF table_ok_call [OF Cons.prems], of c] held_call [OF Cons.prems, of c x]
  show ?case by simp
qed simp

text \<open>A challenge is redeemed only by the principal it was issued to, and never more often than it
  was issued: over any sequence of calls, the requests that got past the challenge check with a
  given token, owner and issue time are at most the status answers that handed it out.\<close>

theorem challenges_are_single_use:
  "count_list (log_of redeems cs initial_sync) x \<le> count_list (log_of issues cs initial_sync) x"
  using redeemed_le_issued [of initial_sync cs x]
  by (simp add: table_ok_def initial_sync_def held_def split: prod.splits)

section \<open>When the system clock is set\<close>

text \<open>The system clock is set only for a well-formed request of an allowed date whose challenge was
  issued to the same principal less than five monotonic seconds before, while neither NTP nor an
  earlier client rules the clock and the wall clock has not jumped since; it is set to the client's
  time plus the processing time, only when it is more than a second off, and every outstanding
  challenge is void afterwards.\<close>

theorem clock_set_only_when_due:
  assumes "sync pid body r s = (res, s', Some target)"
  shows "\<exists>d issued original t.
     body = JObj d \<and> jget d ''unix_time_ms'' = JInt t \<and> min_client_unix_ms \<le> t \<and> t < max_client_unix_ms \<and>
     map_of (challenges s) (text_value (jget d ''challenge'')) = Some (pid, issued, original) \<and>
     0 \<le> now_mono r - issued \<and> now_mono r - issued < 5000000000 \<and>
     ntp r = Inr False \<and>
     \<bar>check_wall r - original - (now_mono r - issued)\<bar> \<le> 1000000000 \<and>
     target = t * 1000000 + (now_mono r - received_mono r) \<and> 1000000000 < \<bar>apply_wall r - target\<bar> \<and>
     res = Inr (clock_response ''client'' None True (response_wall r)) \<and>
     challenges s' = [] \<and> client_reference s' = Some (reference_mono r, reference_wall r)"
proof -
  have v: "valid_clock_request body" using assms by (auto simp: sync_def split: if_splits)
  then obtain d where d: "body = JObj d" by (cases body) (auto simp: valid_clock_request_def)
  obtain t where t: "jget d ''unix_time_ms'' = JInt t" "min_client_unix_ms \<le> t" "t < max_client_unix_ms"
    using v d by (cases "jget d ''unix_time_ms''") (auto simp: valid_clock_request_def)
  have n: "clock_source r u = (Inr ''unsynchronized'', w) \<Longrightarrow> ntp r = Inr False" for u w
    by (cases "ntp r") (auto simp: clock_source_def split: if_splits)
  show ?thesis
    using assms v d t
    by (auto simp: sync_def Let_def in_ttl_def challenge_ttl_ms_def int_of_json_def dest!: n
        split: if_splits option.splits prod.splits sum.splits)
qed

text \<open>Every answer of both operations is a response the contract accepts, when the token is 32
  hexadecimal digits and the wall clock is not before 1970.\<close>

theorem clock_answers_conform:
  assumes "hex_n 32 (token r)" and "0 \<le> response_wall r"
  shows "(fst (status pid r s) = Inr v \<longrightarrow> valid_clock_response v) \<and>
         (fst (sync pid body r s) = Inr w \<longrightarrow> valid_clock_response w)"
proof -
  have ne: "token r \<noteq> []" using assms(1) by (auto simp: hex_n_def)
  have quiet: "valid_clock_response (clock_response src None b (response_wall r))"
    if "src \<in> {''ntp'', ''client''}" "b \<longrightarrow> src = ''client''" for src b
    using that assms(2)
    by (cases "src = ''ntp''")
       (simp_all add: valid_clock_response_def clock_response_def has_keys_def eq_str_def in_strs_def)
  have offer: "valid_clock_response (clock_response ''unsynchronized'' (Some (token r)) False (response_wall r))"
    using assms ne
    by (simp add: valid_clock_response_def clock_response_def has_keys_def eq_str_def in_strs_def)
  have src: "x \<in> {''ntp'', ''client''}" if "clock_source r u = (Inr x, u')" "x \<noteq> ''unsynchronized''" for x u u'
    using that by (cases "ntp r") (auto simp: clock_source_def split: if_splits option.splits)
  have "valid_clock_response v" if "fst (status pid r s) = Inr v"
  proof (cases "clock_source r s")
    case (Pair x u)
    show ?thesis
    proof (cases x)
      case (Inr source)
      show ?thesis
        using that Pair Inr offer quiet [OF src [OF Pair [unfolded Inr]], of False]
        by (cases "source = ''unsynchronized''") (auto simp: status_def)
    qed (use that Pair in \<open>simp add: status_def\<close>)
  qed
  moreover have "valid_clock_response w" if w: "fst (sync pid body r s) = Inr w"
  proof -
    have done_: "valid_clock_response (clock_response ''client'' None b (response_wall r))" for b
      by (rule quiet) simp_all
    consider (known) source u u' where "clock_source r u = (Inr source, u')" "source \<noteq> ''unsynchronized''"
        "w = clock_response source None False (response_wall r)"
      | (set) b where "w = clock_response ''client'' None b (response_wall r)"
      using w
      by (auto simp: sync_def Let_def split: prod.splits sum.splits if_splits option.splits)
    then show ?thesis
    proof cases
      case known
      then show ?thesis using quiet [OF src [OF known(1,2)], of False] by simp
    qed (simp add: done_)
  qed
  ultimately show ?thesis by blast
qed

section \<open>Concrete readings\<close>

definition ex_reading :: clock_reading where
  "ex_reading = \<lparr>received_mono = 1000, ntp = Inr False, source_wall = 0, source_mono = 0, now_mono = 2000,
     token = replicate 32 (CHR ''a''), issue_wall = 5, check_wall = 5, apply_wall = 7, settime = Inr (),
     reference_mono = 3000, reference_wall = 1704067200000001000, response_wall = 1704067200000002000\<rparr>"

definition ex_clock_body :: json where
  "ex_clock_body = JObj [(''schema'', JStr ''ylx.clock-sync-request.v1''),
     (''challenge'', JStr (replicate 32 (CHR ''a''))), (''unix_time_ms'', JInt 1704067200000)]"

lemma ex_clock_body_ok: "valid_clock_request ex_clock_body"
  by (simp add: valid_clock_request_def ex_clock_body_def has_keys_def eq_str_def hex_n_def is_hex_def
      is_digit_def list_all_iff min_client_unix_ms_def max_client_unix_ms_def insert_commute)

definition ex_offered :: clock_sync where
  "ex_offered = snd (status ''op'' ex_reading initial_sync)"

lemma ex_sync_sets: "\<exists>res s'. sync ''op'' ex_clock_body ex_reading ex_offered = (res, s', Some 1704067200000001000)"
  using ex_clock_body_ok
  by (simp add: sync_def Let_def ex_clock_body_def ex_offered_def status_def clock_source_def ex_reading_def
      initial_sync_def issue_challenge_def text_value_def int_of_json_def in_ttl_def challenge_ttl_ms_def)

theorem clock_set_only_when_due_witness:
  "\<exists>d issued. ex_clock_body = JObj d \<and> map_of (challenges ex_offered) (text_value (jget d ''challenge'')) =
     Some (''op'', issued, 5) \<and> 0 \<le> 2000 - issued"
proof -
  obtain res s' where "sync ''op'' ex_clock_body ex_reading ex_offered = (res, s', Some 1704067200000001000)"
    using ex_sync_sets by blast
  from clock_set_only_when_due [OF this] show ?thesis
    by (auto simp: ex_reading_def ex_offered_def status_def clock_source_def initial_sync_def
        issue_challenge_def in_ttl_def challenge_ttl_ms_def ex_clock_body_def text_value_def)
qed

theorem clock_answers_conform_witness:
  "\<exists>v. fst (status ''op'' ex_reading initial_sync) = Inr v \<and> valid_clock_response v"
proof -
  have "hex_n 32 (token ex_reading)" "0 \<le> response_wall ex_reading"
    by (simp_all add: ex_reading_def hex_n_def is_hex_def is_digit_def list_all_iff)
  note c = clock_answers_conform [OF this, of "''op''" initial_sync]
  have "\<exists>v. fst (status ''op'' ex_reading initial_sync) = Inr v"
    by (simp add: status_def clock_source_def ex_reading_def initial_sync_def)
  then show ?thesis using c by blast
qed

end
