(* ===== verification/NetworkControl.thy ===== *)
theory NetworkControl
  imports NetworkStateProps NetworkCredentials ClockSync
begin

text \<open>
  \<open>network_control.py\<close>: the privileged controller in front of the authority.  The request and
  response contracts are its functions in order; \<open>accept_apply\<close>, \<open>accept_retry\<close> and
  \<open>accept_forget\<close> are the three mutations.  The controller is one record: the database of the
  authority, the credential store, the candidate connections NetworkManager holds, and the work
  queue.  What the code calls outside this file (the operation lock, the preparation and the removal
  of a NetworkManager profile, the saved candidate of a mode, the clock readings, the drawn
  transaction id, the outcome of the commit) is a field of the call's environment.
\<close>

section \<open>Requests\<close>

abbreviation "control_request_schema \<equiv> ''ylx.network-control-request.v1''"
abbreviation "control_response_schema \<equiv> ''ylx.network-control-response.v1''"

definition mutation_operations :: "string list" where
  "mutation_operations = [''apply'', ''retry'', ''forget'']"

definition root_operations :: "string list" where
  "root_operations = [''create_credential'', ''health'', ''scan'', ''status'', ''clock_status'', ''clock_sync'']"

definition secret_field_names :: "string list" where
  "secret_field_names = [''password'', ''psk'', ''secret'', ''token'']"

definition response_secret_field_names :: "string list" where
  "response_secret_field_names = secret_field_names @ [''credential'', ''passphrase'']"

definition error_response :: "string \<Rightarrow> string \<Rightarrow> string option \<Rightarrow> bool \<Rightarrow> jobject" where
  "error_response code message opn retryable =
     [(''schema'', JStr control_response_schema), (''ok'', JBool False),
      (''error'', JObj [(''code'', JStr code), (''message'', JStr message)]),
      (''retryable'', JBool retryable)] @
     (case opn of Some o1 \<Rightarrow> [(''operation'', JStr o1)] | None \<Rightarrow> [])"

fun contains_inline_secret :: "json \<Rightarrow> bool" where
  "contains_inline_secret (JObj d) =
     list_ex (\<lambda>(key, item). casefold key \<in> set secret_field_names \<or> contains_inline_secret item) d"
| "contains_inline_secret (JList xs) = list_ex contains_inline_secret xs"
| "contains_inline_secret _ = False"

definition visible_char :: "char \<Rightarrow> bool" where
  "visible_char c \<longleftrightarrow> 0x21 \<le> (of_char c :: nat) \<and> (of_char c :: nat) \<le> 0x7E"

text \<open>Every character of an accepted text is ASCII, so its length is its number of bytes.\<close>

definition valid_idempotency_key :: "json \<Rightarrow> bool" where
  "valid_idempotency_key value = str_in value (\<lambda>s. 1 \<le> length s \<and> length s \<le> 128 \<and>
     list_all (\<lambda>c. c \<noteq> CHR '' '' \<and> visible_char c) s)"

definition valid_principal_id :: "json \<Rightarrow> bool" where
  "valid_principal_id value = str_in value (\<lambda>s. 1 \<le> length s \<and> length s \<le> 128 \<and> list_all visible_char s)"

definition valid_credential_body :: "json \<Rightarrow> bool" where
  "valid_credential_body bd =
     (case bd of
        JObj b \<Rightarrow> has_keys b [''schema'', ''passphrase''] \<and>
          eq_str (jget b ''schema'') ''ylx.network-credential-request.v1'' \<and>
          str_in (jget b ''passphrase'') credential_ok
      | _ \<Rightarrow> False)"

definition valid_control_request :: "string \<Rightarrow> jobject \<Rightarrow> bool res" where
  "valid_control_request opn r =
     (if opn \<in> {''clock_status'', ''clock_sync''} then
        Inr (has_keys r [''schema'', ''operation'', ''principal_id'', ''body''] \<and>
             valid_principal_id (jget r ''principal_id'') \<and>
             (if opn = ''clock_status'' then jget r ''body'' = JObj [] else valid_clock_request (jget r ''body'')))
      else if opn \<in> {''health'', ''scan'', ''status''} then Inr (has_keys r [''schema'', ''operation''])
      else if opn = ''create_credential'' then
        Inr (has_keys r [''schema'', ''operation'', ''principal_id'', ''body''] \<and>
             valid_principal_id (jget r ''principal_id'') \<and> valid_credential_body (jget r ''body''))
      else conjE
        [Inr (has_keys r [''schema'', ''operation'', ''principal_id'', ''idempotency_key'', ''body'']),
         Inr (valid_principal_id (jget r ''principal_id'')),
         Inr (valid_idempotency_key (jget r ''idempotency_key'')),
         valid_network_request opn (jget r ''body'')])"

text \<open>The text that is hashed is determined by the canonical value; \<open>digest\<close> is the SHA-256 of its
  rendering.\<close>

definition request_fingerprint_of :: "(json \<Rightarrow> string) \<Rightarrow> string \<Rightarrow> jobject \<Rightarrow> string" where
  "request_fingerprint_of digest opn bd =
     digest (canon (JObj [(''operation'', JStr opn), (''body'', JObj bd)]))"

section \<open>Responses\<close>

fun response_contains_secret_field :: "json \<Rightarrow> bool" where
  "response_contains_secret_field (JObj d) =
     list_ex (\<lambda>(key, item). casefold key \<in> set response_secret_field_names \<or> response_contains_secret_field item) d"
| "response_contains_secret_field (JList xs) = list_ex response_contains_secret_field xs"
| "response_contains_secret_field _ = False"

definition json_strs :: "string list \<Rightarrow> json" where
  "json_strs ss = JList (map JStr ss)"

definition disabled_reasons :: "string list" where
  "disabled_reasons =
     [''not_enabled'', ''auth_profile_unavailable'', ''controller_unavailable'', ''network_manager_unavailable'',
      ''rescue_ap_not_validated'', ''capture_active'', ''recovery_required'', ''maintenance_window_closed'',
      ''unsupported_concurrency'']"

definition valid_capability :: "json \<Rightarrow> bool res" where
  "valid_capability value =
     (case value of
        JObj d \<Rightarrow> conjE
          [Inr (has_keys d [''enabled'', ''disabled_reason'', ''operations'', ''idempotency_key_required'',
                  ''secret_handling'', ''active_state_policy'']),
           Inr (is_bool (jget d ''enabled'')),
           (if jget d ''enabled'' = JBool True then Inr (jget d ''disabled_reason'' = JNull)
            else in_set (jget d ''disabled_reason'') disabled_reasons),
           Inr (jget d ''operations'' = json_strs [''apply'', ''retry'', ''forget'']),
           Inr (jget d ''idempotency_key_required'' = JBool True),
           Inr (eq_str (jget d ''secret_handling'') ''opaque_credential_reference_only''),
           Inr (eq_str (jget d ''active_state_policy'') ''idle_only'')]
      | _ \<Rightarrow> Inr False)"

definition bad_scan_entry :: "json \<Rightarrow> bool res" where
  "bad_scan_entry entry =
     (case entry of
        JObj e \<Rightarrow>
          (if \<not> has_keys e [''ssid'', ''hidden'', ''security'', ''signal_dbm'', ''credential_required'']
           then Inr True
           else
            (let ssid = jget e ''ssid''; hidden = jget e ''hidden''; security = jget e ''security'' in
             disjE_list
              [Inr (\<not> is_bool hidden),
               notE (in_set security wifi_security),
               Inr (\<not> int_in (jget e ''signal_dbm'') (\<lambda>i. - 127 \<le> i \<and> i \<le> 0)),
               Inr (\<not> is_bool (jget e ''credential_required'')),
               Inr (jget e ''credential_required'' \<noteq> JBool (\<not> eq_str security ''open'')),
               Inr (hidden = JBool True \<and> ssid \<noteq> JNull),
               Inr (hidden \<noteq> JBool True \<and> \<not> str_in ssid (\<lambda>s. 1 \<le> length s \<and> length s \<le> 32))]))
      | _ \<Rightarrow> Inr True)"

definition valid_scan_body :: "(json \<Rightarrow> bool) \<Rightarrow> json \<Rightarrow> bool res" where
  "valid_scan_body uuid_text value =
     (case value of
        JObj d \<Rightarrow>
          (case jget d ''networks'' of
             JList networks \<Rightarrow>
               rejectE (Inr (\<not> has_keys d [''schema'', ''authority_epoch'', ''source_revision'', ''scanned_at'', ''networks'']))
               (rejectE (Inr (\<not> uuid_text (jget d ''authority_epoch'')))
                (rejectE (Inr (256 < length networks))
                 (rejectE (disjE_list (map bad_scan_entry networks))
                   (Inr (eq_str (jget d ''schema'') ''ylx.network-scan.v1'' \<and> valid_uuid4 (jget d ''authority_epoch'') \<and>
                         int_in (jget d ''source_revision'') (\<lambda>i. 0 \<le> i) \<and> is_nonempty_str (jget d ''scanned_at''))))))
           | _ \<Rightarrow> Inr False)
      | _ \<Rightarrow> Inr False)"

text \<open>The bodies of the successful answers.  \<open>uuid_text\<close> says which values \<open>uuid.UUID(str(value))\<close>
  parses, \<open>instant\<close> is \<open>_parse_timestamp\<close> in seconds.\<close>

definition valid_health_answer :: "jobject \<Rightarrow> bool" where
  "valid_health_answer r \<longleftrightarrow> has_keys r [''schema'', ''ok'', ''operation'', ''capabilities''] \<and>
     (case jget r ''capabilities'' of
        JObj c \<Rightarrow> has_keys c [''mutation_enabled'', ''operations'', ''secret_handling''] \<and>
          is_bool (jget c ''mutation_enabled'') \<and>
          jget c ''operations'' = json_strs [''apply'', ''forget'', ''retry''] \<and>
          eq_str (jget c ''secret_handling'') ''opaque_credential_reference_only''
      | _ \<Rightarrow> False)"

definition answer_keys :: "string list" where
  "answer_keys = [''schema'', ''ok'', ''operation'', ''status'', ''body'']"

definition valid_credential_answer :: "(string \<Rightarrow> rat option) \<Rightarrow> jobject \<Rightarrow> bool" where
  "valid_credential_answer instant r \<longleftrightarrow>
     has_keys r answer_keys \<and> eq_num (jget r ''status'') 201 \<and>
     (case jget r ''body'' of
        JObj b \<Rightarrow>
          has_keys b [''schema'', ''credential_ref'', ''issued_at'', ''expires_at'', ''ttl_seconds'', ''single_use''] \<and>
          eq_str (jget b ''schema'') ''ylx.network-credential-receipt.v1'' \<and>
          str_in (jget b ''credential_ref'') network_credential_ref \<and>
          int_in (jget b ''ttl_seconds'') (\<lambda>t. 1 \<le> t \<and> t \<le> 120) \<and>
          jget b ''single_use'' = JBool True \<and>
          (case (jget b ''issued_at'', jget b ''expires_at'') of
             (JStr i, JStr e) \<Rightarrow>
               (case (instant i, instant e) of
                  (Some i', Some e') \<Rightarrow> e' - i' = of_int (int_value (jget b ''ttl_seconds''))
                | _ \<Rightarrow> False)
           | _ \<Rightarrow> False)
      | _ \<Rightarrow> False)"

definition published_in :: "jobject \<Rightarrow> json \<Rightarrow> bool" where
  "published_in b item =
     (case item of
        JNull \<Rightarrow> True
      | JObj t \<Rightarrow> jget t ''authority_epoch'' = jget b ''authority_epoch'' \<and>
          int_value (jget t ''source_revision'') \<le> int_value (jget b ''source_revision'')
      | _ \<Rightarrow> False)"

definition valid_status_answer :: "jobject \<Rightarrow> bool res" where
  "valid_status_answer r =
     rejectE (Inr (\<not> (has_keys r answer_keys \<and> eq_num (jget r ''status'') 200)))
      (case jget r ''body'' of
         JObj b \<Rightarrow>
           conjE
            ([Inr (has_keys b [''schema'', ''authority_epoch'', ''source_revision'', ''saved'', ''verified'',
                     ''desired'', ''transaction'', ''capability'']),
              Inr (eq_str (jget b ''schema'') ''ylx.network-controller-status.v1''),
              Inr (valid_uuid4 (jget b ''authority_epoch'')),
              Inr (int_in (jget b ''source_revision'') (\<lambda>i. 0 \<le> i)),
              Inr (is_bool (jget b ''saved'')),
              Inr (is_bool (jget b ''verified'')),
              Inr (jget b ''verified'' = JBool True \<longrightarrow> jget b ''saved'' = JBool True),
              valid_desired_state (jget b ''desired'')] @
             (case jget b ''transaction'' of
                JObj w \<Rightarrow>
                  [Inr (has_keys w [''current'', ''latest'']),
                   slot_transaction (jget w ''current''),
                   slot_transaction (jget w ''latest''),
                   Inr (published_in b (jget w ''current'')),
                   Inr (published_in b (jget w ''latest'')),
                   valid_capability (jget b ''capability'')]
              | _ \<Rightarrow> [Inr False]))
       | _ \<Rightarrow> Inr False)"

definition valid_mutation_answer :: "jobject \<Rightarrow> bool res" where
  "valid_mutation_answer r =
     rejectE (Inr (\<not> (has_keys r (answer_keys @ [''replayed'']) \<and> eq_num (jget r ''status'') 202)))
      (case jget r ''body'' of
         JObj b \<Rightarrow> conjE
           [Inr (has_keys b [''schema'', ''accepted_at'', ''transaction'']),
            Inr (eq_str (jget b ''schema'') receipt_schema),
            valid_transaction (jget b ''transaction''),
            Inr (py_eq (jget b ''accepted_at'') (jget (obj_or_empty (jget b ''transaction'')) ''accepted_at'')),
            Inr (is_bool (jget r ''replayed''))]
       | _ \<Rightarrow> Inr False)"

text \<open>\<open>operation in {...}\<close> comes first, on a value that may be unhashable.\<close>

definition valid_controller_success ::
  "(json \<Rightarrow> bool) \<Rightarrow> (string \<Rightarrow> rat option) \<Rightarrow> jobject \<Rightarrow> bool res" where
  "valid_controller_success uuid_text instant r =
     (let v = jget r ''operation'' in
      guardE (unhashable v) TypeError
       (if in_strs v [''clock_status'', ''clock_sync''] then
          Inr (has_keys r answer_keys \<and> eq_num (jget r ''status'') 200 \<and> valid_clock_response (jget r ''body''))
        else if eq_str v ''health'' then Inr (valid_health_answer r)
        else if eq_str v ''create_credential'' then Inr (valid_credential_answer instant r)
        else if eq_str v ''status'' then valid_status_answer r
        else if eq_str v ''scan'' then
          rejectE (Inr (\<not> (has_keys r answer_keys \<and> eq_num (jget r ''status'') 200)))
            (valid_scan_body uuid_text (jget r ''body''))
        else if in_strs v mutation_operations then valid_mutation_answer r
        else Inr False))"

definition rejected_response :: jobject where
  "rejected_response = error_response ''response_invalid'' ''network-control response was rejected'' None False"

definition valid_failure :: "jobject \<Rightarrow> bool" where
  "valid_failure r \<longleftrightarrow>
     has_keys r ([''schema'', ''ok'', ''error'', ''retryable''] @
       (if map_of r ''operation'' = None then [] else [''operation''])) \<and>
     (case jget r ''error'' of
        JObj e \<Rightarrow> has_keys e [''code'', ''message''] \<and> is_str (jget e ''code'') \<and> is_str (jget e ''message'')
      | _ \<Rightarrow> False) \<and> is_bool (jget r ''retryable'')"

definition seal_response ::
  "(json \<Rightarrow> bool) \<Rightarrow> (string \<Rightarrow> rat option) \<Rightarrow> jobject \<Rightarrow> jobject res" where
  "seal_response uuid_text instant r =
     (if \<not> eq_str (jget r ''schema'') control_response_schema \<or> \<not> is_bool (jget r ''ok'') then Inr rejected_response
      else bindE (if jget r ''ok'' = JBool False then Inr (valid_failure r)
                  else valid_controller_success uuid_text instant r) (\<lambda>valid.
        Inr (if \<not> valid \<or> response_contains_secret_field (JObj r) then rejected_response else r)))"

end
