(* ===== verification/NetworkMutations.thy ===== *)
theory NetworkMutations
  imports NetworkControl
begin

text \<open>
  The mutations of \<open>network_control.py\<close>: the normalisation of a requested network, the three
  acceptors and the entry point \<open>handle_control_request\<close>.
\<close>

section \<open>Normalising a requested network\<close>

text \<open>\<open>str(value)\<close> of a value the request contract has made a string.\<close>

definition text_of :: "json \<Rightarrow> string" where
  "text_of v = (case v of JStr s \<Rightarrow> s | _ \<Rightarrow> [])"

definition wifi_desired :: "jobject \<Rightarrow> jobject \<Rightarrow> string option \<Rightarrow> (jobject \<times> jobject option) res" where
  "wifi_desired d wifi credential =
     bindE (jitem wifi ''ssid'') (\<lambda>ssid. bindE (jitem wifi ''security'') (\<lambda>security.
       guardE (text_of security \<noteq> ''open'' \<and> credential = None) (credential_error ''credential_ref_invalid'')
        (let config = [(''mode'', JStr ''wifi-client''), (''ssid'', JStr (text_of ssid)),
                       (''security'', JStr (text_of security))];
             config1 = (case credential of Some c \<Rightarrow> jset ''psk'' (JStr c) config | None \<Rightarrow> config) in
         Inr ([(''mode'', JStr ''wifi-client''),
               (''wifi_client'', JObj
                  [(''ssid'', JStr (text_of ssid)), (''security'', JStr (text_of security)),
                   (''credential_state'', JStr (if text_of security = ''open'' then ''absent'' else ''stored''))]),
               (''ethernet'', jget d ''ethernet'')], Some config1))))"

definition static_desired :: "jobject \<Rightarrow> string \<Rightarrow> (jobject \<times> jobject option) res" where
  "static_desired d mode =
     (case jget d ''ethernet'' of
        JObj ethernet \<Rightarrow>
          bindE (jitem ethernet ''static_ipv4'') (\<lambda>static.
            (case static of
               JObj s \<Rightarrow>
                 bindE (jitem s ''address'') (\<lambda>address. bindE (jitem s ''prefix_length'') (\<lambda>prefix.
                 bindE (jitem s ''dns'') (\<lambda>dns.
                   (let config = [(''mode'', JStr mode),
                          (''address'', JStr (text_of address @ ''/'' @ int_text (int_value prefix))), (''dns'', dns)];
                        config1 = (if jget s ''gateway'' \<noteq> JNull then jset ''gateway'' (jget s ''gateway'') config
                                   else config) in
                    Inr ([(''mode'', JStr mode), (''wifi_client'', JNull), (''ethernet'', JObj ethernet)],
                         Some config1)))))
             | _ \<Rightarrow> Inl AssertionError))
      | _ \<Rightarrow> Inl AssertionError)"

definition desired_and_config :: "jobject \<Rightarrow> string option \<Rightarrow> (jobject \<times> jobject option) res" where
  "desired_and_config d credential =
     bindE (jitem d ''mode'') (\<lambda>m.
       (let mode = text_of m in
        if mode = ''wifi-client'' then
          bindE (jitem d ''wifi_client'') (\<lambda>w.
            (case w of JObj wifi \<Rightarrow> wifi_desired d wifi credential | _ \<Rightarrow> Inl AssertionError))
        else if mode = ''hotspot'' then
          Inr ([(''mode'', JStr mode), (''wifi_client'', JNull), (''ethernet'', JNull)], None)
        else if mode = ''ethernet-dhcp'' then
          Inr ([(''mode'', JStr mode), (''wifi_client'', JNull),
                (''ethernet'', JObj [(''addressing'', JStr ''dhcp''), (''static_ipv4'', JNull)])],
               Some [(''mode'', JStr mode)])
        else static_desired d mode))"

section \<open>The controller\<close>

record network_controller =
  nc_db :: database
  nc_credentials :: credential_store
  nc_clock :: clock_sync
  nc_candidates :: "json list"
  nc_closed :: bool
  nc_defers :: bool
  nc_deferred :: "string list"
  nc_queued :: "string list"
  nc_queue :: "string list"
  nc_pending :: nat

record call_env =
  env_tid :: string
  env_accepted_at :: string
  env_lock :: "unit res"
  env_reserve_clock :: rat
  env_close_clock :: rat
  env_prepare :: "jobject \<Rightarrow> json res"
  env_discards :: bool
  env_saved_candidate :: "string \<Rightarrow> json res"
  env_commit :: commit_outcome
  env_db_now :: string
  env_digest :: "json \<Rightarrow> string"
  env_sha :: "string \<Rightarrow> string"
  env_reading :: clock_reading
  env_networks :: "json res"
  env_scanned_at :: string
  env_draw :: "nat \<Rightarrow> string"
  env_later :: "rat \<Rightarrow> int \<Rightarrow> rat"
  env_issued :: "string \<times> string"
  env_message :: "pyexc \<Rightarrow> string"
  env_uuid_text :: "json \<Rightarrow> bool"
  env_instant :: "string \<Rightarrow> rat option"

definition enqueue :: "string \<Rightarrow> 'a network_controller_scheme \<Rightarrow> 'a network_controller_scheme" where
  "enqueue tid nc =
     (if nc_closed nc \<or> tid \<in> set (nc_queued nc) then nc
      else nc\<lparr>nc_queued := nc_queued nc @ [tid], nc_queue := nc_queue nc @ [tid], nc_pending := nc_pending nc + 1\<rparr>)"

definition schedule :: "string \<Rightarrow> network_controller \<Rightarrow> network_controller" where
  "schedule tid nc =
     (if nc_defers nc then nc\<lparr>nc_deferred := List.insert tid (nc_deferred nc)\<rparr> else enqueue tid nc)"

definition accepted_response :: "string \<Rightarrow> json \<Rightarrow> bool \<Rightarrow> jobject" where
  "accepted_response opn receipt replayed =
     [(''schema'', JStr control_response_schema), (''ok'', JBool True), (''operation'', JStr opn),
      (''status'', JInt 202), (''body'', receipt), (''replayed'', JBool replayed)]"

text \<open>\<open>except (NetworkError, NetworkStateError, OSError)\<close>.\<close>

fun network_failure :: "pyexc \<Rightarrow> bool" where
  "network_failure OSError = True"
| "network_failure TimeoutError = True"
| "network_failure (AppError cls code retry) = (cls \<in> {''NetworkError'', ''NetworkStateError''})"
| "network_failure _ = False"

definition drop_candidate :: "call_env \<Rightarrow> pyexc \<Rightarrow> json option \<Rightarrow> network_controller \<Rightarrow> network_controller" where
  "drop_candidate env e candidate nc =
     (case candidate of
        Some c \<Rightarrow> (if network_failure e \<and> env_discards env then nc\<lparr>nc_candidates := remove1 c (nc_candidates nc)\<rparr> else nc)
      | None \<Rightarrow> nc)"

definition leave_reservation :: "bool \<Rightarrow> string option \<Rightarrow> call_env \<Rightarrow> network_controller \<Rightarrow> network_controller" where
  "leave_reservation committed ref env nc =
     (case ref of
        Some r \<Rightarrow> nc\<lparr>nc_credentials := close_reservation committed r (env_close_clock env) (nc_credentials nc)\<rparr>
      | None \<Rightarrow> nc)"

definition commit_ref :: "string option \<Rightarrow> network_controller \<Rightarrow> unit res \<times> network_controller" where
  "commit_ref ref nc =
     (case ref of
        None \<Rightarrow> (Inr (), nc)
      | Some r \<Rightarrow> (case commit_reservation r (nc_credentials nc) of
                    (outcome, cs) \<Rightarrow> (outcome, nc\<lparr>nc_credentials := cs\<rparr>)))"

definition apply_work :: "json option \<Rightarrow> jobject \<Rightarrow> jobject" where
  "apply_work candidate des =
     (case candidate of
        None \<Rightarrow> [(''kind'', JStr ''rescue''), (''desired'', JObj des)]
      | Some c \<Rightarrow> [(''kind'', JStr ''candidate''), (''candidate'', c), (''desired'', JObj des)])"

definition pending_input :: "jobject \<Rightarrow> jobject" where
  "pending_input des =
     (case jget des ''wifi_client'' of
        JObj w \<Rightarrow> (if \<not> eq_str (jget w ''security'') ''open''
                  then jset ''wifi_client'' (JObj (jset ''credential_state'' (JStr ''pending_input'') w)) des else des)
      | _ \<Rightarrow> des)"

definition apply_acceptance :: "call_env \<Rightarrow> string \<Rightarrow> string \<Rightarrow> string \<Rightarrow> bool \<Rightarrow> json option \<Rightarrow> jobject \<Rightarrow> accept_request" where
  "apply_acceptance env pid key fingerprint released candidate des =
     \<lparr>operation = ''apply'', desired = pending_input des, principal_id = pid, idempotency_key = key,
      request_fingerprint = fingerprint, transaction_id = env_tid env, accepted_at = env_accepted_at env,
      work = apply_work candidate des, execution_released = released, publish_desired = True,
      saved = None, verified = None\<rparr>"

text \<open>The part of \<open>_accept_apply\<close> inside the reservation, from the normalisation on.\<close>

definition finish_apply ::
  "call_env \<Rightarrow> string \<Rightarrow> string \<Rightarrow> string \<Rightarrow> jobject \<Rightarrow> (string \<times> string) option \<Rightarrow> network_controller
     \<Rightarrow> jobject res \<times> network_controller" where
  "finish_apply env pid key fingerprint d reservation nc =
     (let ref = map_option fst reservation in
      case desired_and_config d (map_option snd reservation) of
        Inl e \<Rightarrow> (Inl e, leave_reservation False ref env nc)
      | Inr (des, config) \<Rightarrow>
        (case (case config of None \<Rightarrow> Inr None | Some c \<Rightarrow> bindE (env_prepare env c) (\<lambda>v. Inr (Some v))) of
           Inl e \<Rightarrow> (Inl e, leave_reservation False ref env nc)
         | Inr candidate \<Rightarrow>
           (let nc1 = nc\<lparr>nc_candidates := nc_candidates nc @ (case candidate of Some c \<Rightarrow> [c] | None \<Rightarrow> [])\<rparr> in
            case accept_transaction (env_sha env)
                   (apply_acceptance env pid key fingerprint (\<not> nc_defers nc) candidate des)
                   (env_commit env) (env_db_now env) (nc_db nc1) of
              (Inl e, db) \<Rightarrow>
                (Inl e, drop_candidate env e candidate (leave_reservation False ref env (nc1\<lparr>nc_db := db\<rparr>)))
            | (Inr (receipt, replayed), db) \<Rightarrow>
                (case commit_ref ref (nc1\<lparr>nc_db := db\<rparr>) of
                   (Inl e, nc2) \<Rightarrow> (Inl e, drop_candidate env e candidate (leave_reservation False ref env nc2))
                 | (Inr _, nc2) \<Rightarrow>
                     (Inr (accepted_response ''apply'' receipt replayed),
                      schedule (env_tid env) (leave_reservation True ref env nc2))))))"

definition protected_wifi :: "jobject \<Rightarrow> bool" where
  "protected_wifi d \<longleftrightarrow> eq_str (jget d ''mode'') ''wifi-client'' \<and>
     (case jget d ''wifi_client'' of JObj w \<Rightarrow> \<not> eq_str (jget w ''security'') ''open'' | _ \<Rightarrow> False)"

definition busy :: pyexc where
  "busy = state_error ''controller_busy'' True"

text \<open>The common beginning of the three acceptors: refuse when closed, replay a stored receipt, take
  the operation lock, refuse while a transaction is active.\<close>

definition begin_mutation ::
  "string \<Rightarrow> call_env \<Rightarrow> jobject \<Rightarrow> network_controller
     \<Rightarrow> (string \<Rightarrow> string \<Rightarrow> string \<Rightarrow> jobject \<Rightarrow> jobject \<Rightarrow> jobject res \<times> network_controller)
     \<Rightarrow> jobject res \<times> network_controller" where
  "begin_mutation opn env request nc k =
     (let pid = text_of (jget request ''principal_id'');
          key = text_of (jget request ''idempotency_key'') in
      case jget request ''body'' of
        JObj bd \<Rightarrow>
          (let fingerprint = request_fingerprint_of (env_digest env) opn bd in
           if nc_closed nc then (Inl RuntimeError, nc) else
           tryS (replay_receipt (env_sha env) pid key fingerprint (nc_db nc)) nc (\<lambda>replay.
             (case replay of
                Some receipt \<Rightarrow> (Inr (accepted_response opn receipt True), nc)
              | None \<Rightarrow>
                  tryS (env_lock env) nc (\<lambda>_.
                  tryS (load_locked (nc_db nc)) nc (\<lambda>st.
                    if window_slot st ''current'' \<noteq> JNull then (Inl busy, nc)
                    else k pid key fingerprint bd st)))))
      | _ \<Rightarrow> (Inl AssertionError, nc))"

text \<open>The part of \<open>_accept_apply\<close> after its checks: the reservation of the credential and what runs under
  it.\<close>

definition new_apply ::
  "call_env \<Rightarrow> string \<Rightarrow> string \<Rightarrow> string \<Rightarrow> jobject \<Rightarrow> network_controller \<Rightarrow> jobject res \<times> network_controller" where
  "new_apply env pid key fingerprint bd nc =
     tryS (jitem bd ''desired'') nc (\<lambda>v.
       (case v of
          JObj d \<Rightarrow>
            (if protected_wifi d then
               (let ref = text_of (jget (obj_or_empty (jget d ''wifi_client'')) ''credential_ref'') in
                case reserve ref (env_reserve_clock env) (nc_credentials nc) of
                  (Inl e, cs) \<Rightarrow> (Inl e, nc\<lparr>nc_credentials := cs\<rparr>)
                | (Inr credential, cs) \<Rightarrow>
                    finish_apply env pid key fingerprint d (Some (ref, credential)) (nc\<lparr>nc_credentials := cs\<rparr>))
             else finish_apply env pid key fingerprint d None nc)
        | _ \<Rightarrow> (Inl AssertionError, nc)))"

definition accept_apply :: "call_env \<Rightarrow> jobject \<Rightarrow> network_controller \<Rightarrow> jobject res \<times> network_controller" where
  "accept_apply env request nc =
     begin_mutation ''apply'' env request nc (\<lambda>pid key fingerprint bd st. new_apply env pid key fingerprint bd nc)"

text \<open>An acceptor without a reservation: accept, answer, schedule.\<close>

definition submit :: "string \<Rightarrow> call_env \<Rightarrow> accept_request \<Rightarrow> network_controller \<Rightarrow> jobject res \<times> network_controller" where
  "submit opn env a nc =
     (case accept_transaction (env_sha env) a (env_commit env) (env_db_now env) (nc_db nc) of
        (Inl e, db) \<Rightarrow> (Inl e, nc\<lparr>nc_db := db\<rparr>)
      | (Inr (receipt, replayed), db) \<Rightarrow>
          (Inr (accepted_response opn receipt replayed), schedule (env_tid env) (nc\<lparr>nc_db := db\<rparr>)))"

fun bool_of :: "json \<Rightarrow> bool option" where
  "bool_of (JBool b) = Some b"
| "bool_of _ = None"

definition string_items :: "json \<Rightarrow> json list" where
  "string_items v = (case v of JList xs \<Rightarrow> filter is_str xs | _ \<Rightarrow> [])"

definition not_retryable :: pyexc where
  "not_retryable = state_error ''transaction_not_retryable'' False"

text \<open>The work of the retried transaction without what belonged to its old execution; a fallback
  record turns into a candidate, projected from the saved network when it kept none.\<close>

definition retry_work :: "call_env \<Rightarrow> string \<Rightarrow> jobject \<Rightarrow> jobject \<Rightarrow> jobject res" where
  "retry_work env source_id source des =
     (let w = jpop ''rescue_deadline'' (jpop ''rescue_ready'' source) in
      bindE
       (if eq_str (jget w ''kind'') ''fallback'' then
          bindE (case jget w ''candidate'' of
                   JObj c \<Rightarrow> Inr w
                 | _ \<Rightarrow>
                     (case bindE (jitem des ''mode'') (\<lambda>m. env_saved_candidate env (text_of m)) of
                        Inr c \<Rightarrow> Inr (jset ''candidate'' c w)
                      | Inl KeyError \<Rightarrow> Inl not_retryable
                      | Inl (AppError cls code r) \<Rightarrow>
                          Inl (if cls = ''NetworkError'' then not_retryable else AppError cls code r)
                      | Inl e \<Rightarrow> Inl e))
           (\<lambda>w1. Inr (jpop ''fallback_error'' (jset ''kind'' (JStr ''candidate'') w1)))
        else Inr w)
       (\<lambda>w2. Inr (jset ''cleanup_work_ids''
          (JList (JStr source_id # string_items (jget source ''cleanup_work_ids''))) w2)))"

definition accept_retry :: "call_env \<Rightarrow> jobject \<Rightarrow> network_controller \<Rightarrow> jobject res \<times> network_controller" where
  "accept_retry env request nc =
     begin_mutation ''retry'' env request nc (\<lambda>pid key fingerprint bd st.
       (let source_id = text_of (jget bd ''transaction_id''); latest = window_slot st ''latest'' in
        if \<not> (case latest of JObj l \<Rightarrow> eq_str (jget l ''transaction_id'') source_id | _ \<Rightarrow> False)
        then (Inl (state_error ''transaction_not_found'' False), nc)
        else if \<not> in_strs (jget (obj_or_empty latest) ''status'') [''rescued'', ''failed'']
        then (Inl not_retryable, nc)
        else tryS (work_for source_id (nc_db nc)) nc (\<lambda>source_work.
          (case jget (obj_or_empty source_work) ''desired'' of
             JObj des \<Rightarrow>
               tryS (retry_work env source_id (obj_or_empty source_work) des) nc (\<lambda>w.
                 submit ''retry'' env
                   \<lparr>operation = ''retry'', desired = des, principal_id = pid, idempotency_key = key,
                    request_fingerprint = fingerprint, transaction_id = env_tid env,
                    accepted_at = env_accepted_at env, work = w, execution_released = \<not> nc_defers nc,
                    publish_desired = \<not> eq_str (jget (obj_or_empty source_work) ''kind'') ''forget'',
                    saved = bool_of (jget st ''saved''), verified = bool_of (jget st ''verified'')\<rparr> nc)
           | _ \<Rightarrow> (Inl not_retryable, nc)))))"

definition hotspot_desired :: jobject where
  "hotspot_desired = [(''mode'', JStr ''hotspot''), (''wifi_client'', JNull), (''ethernet'', JNull)]"

definition accept_forget :: "call_env \<Rightarrow> jobject \<Rightarrow> network_controller \<Rightarrow> jobject res \<times> network_controller" where
  "accept_forget env request nc =
     begin_mutation ''forget'' env request nc (\<lambda>pid key fingerprint bd st.
       submit ''forget'' env
         \<lparr>operation = ''forget'', desired = hotspot_desired, principal_id = pid, idempotency_key = key,
          request_fingerprint = fingerprint, transaction_id = env_tid env, accepted_at = env_accepted_at env,
          work = [(''kind'', JStr ''forget''), (''desired'', JObj hotspot_desired)],
          execution_released = \<not> nc_defers nc, publish_desired = False,
          saved = bool_of (jget st ''saved''), verified = bool_of (jget st ''verified'')\<rparr> nc)"

section \<open>The other operations and the entry point\<close>

definition capability :: json where
  "capability = JObj
     [(''enabled'', JBool True), (''disabled_reason'', JNull),
      (''operations'', json_strs [''apply'', ''retry'', ''forget'']),
      (''idempotency_key_required'', JBool True),
      (''secret_handling'', JStr ''opaque_credential_reference_only''),
      (''active_state_policy'', JStr ''idle_only'')]"

definition controller_status :: "database \<Rightarrow> json res" where
  "controller_status db =
     bindE (load_locked db) (\<lambda>st. Inr (JObj
       [(''schema'', JStr ''ylx.network-controller-status.v1''),
        (''authority_epoch'', jget st ''authority_epoch''),
        (''source_revision'', jget st ''source_revision''),
        (''saved'', jget st ''saved''), (''verified'', jget st ''verified''),
        (''desired'', jget st ''desired''), (''transaction'', jget st ''transaction''),
        (''capability'', capability)]))"

definition scan_networks :: "call_env \<Rightarrow> network_controller \<Rightarrow> json res \<times> network_controller" where
  "scan_networks env nc =
     tryS (env_lock env) nc (\<lambda>_. tryS (env_networks env) nc (\<lambda>networks.
       (case scan_stamp (env_commit env) (env_db_now env) (nc_db nc) of
          (Inl e, db) \<Rightarrow> (Inl e, nc\<lparr>nc_db := db\<rparr>)
        | (Inr (epoch, number), db) \<Rightarrow>
            (Inr (JObj [(''schema'', JStr ''ylx.network-scan.v1''), (''authority_epoch'', epoch),
                        (''source_revision'', JInt number), (''scanned_at'', JStr (env_scanned_at env)),
                        (''networks'', networks)]), nc\<lparr>nc_db := db\<rparr>))))"

definition plain_answer :: "string \<Rightarrow> int \<Rightarrow> json \<Rightarrow> jobject" where
  "plain_answer opn code bd =
     [(''schema'', JStr control_response_schema), (''ok'', JBool True), (''operation'', JStr opn),
      (''status'', JInt code), (''body'', bd)]"

definition health_answer :: "bool \<Rightarrow> jobject" where
  "health_answer enabled =
     [(''schema'', JStr control_response_schema), (''ok'', JBool True), (''operation'', JStr ''health''),
      (''capabilities'', JObj
         [(''mutation_enabled'', JBool enabled), (''operations'', json_strs [''apply'', ''forget'', ''retry'']),
          (''secret_handling'', JStr ''opaque_credential_reference_only'')])]"

definition credential_receipt :: "call_env \<Rightarrow> string \<Rightarrow> int \<Rightarrow> json" where
  "credential_receipt env ref ttl = JObj
     [(''schema'', JStr ''ylx.network-credential-receipt.v1''), (''credential_ref'', JStr ref),
      (''issued_at'', JStr (fst (env_issued env))), (''expires_at'', JStr (snd (env_issued env))),
      (''ttl_seconds'', JInt ttl), (''single_use'', JBool True)]"

definition handle_validated ::
  "call_env \<Rightarrow> string \<Rightarrow> jobject \<Rightarrow> network_controller \<Rightarrow> jobject res \<times> network_controller" where
  "handle_validated env opn request nc =
     (let pid = text_of (jget request ''principal_id'') in
      if opn = ''clock_status'' then
        (case ClockSync.status pid (env_reading env) (nc_clock nc) of
           (Inl e, c) \<Rightarrow> (Inl e, nc\<lparr>nc_clock := c\<rparr>)
         | (Inr v, c) \<Rightarrow> (Inr (plain_answer opn 200 v), nc\<lparr>nc_clock := c\<rparr>))
      else if opn = ''clock_sync'' then
        tryS (env_lock env) nc (\<lambda>_.
          (case sync pid (jget request ''body'') (env_reading env) (nc_clock nc) of
             (Inl e, c, t) \<Rightarrow> (Inl e, nc\<lparr>nc_clock := c\<rparr>)
           | (Inr v, c, t) \<Rightarrow> (Inr (plain_answer opn 200 v), nc\<lparr>nc_clock := c\<rparr>)))
      else if opn = ''health'' then (Inr (health_answer True), nc)
      else if opn = ''status'' then
        tryS (controller_status (nc_db nc)) nc (\<lambda>v. (Inr (plain_answer opn 200 v), nc))
      else if opn = ''scan'' then
        (case scan_networks env nc of
           (Inl e, nc1) \<Rightarrow> (Inl e, nc1) | (Inr v, nc1) \<Rightarrow> (Inr (plain_answer opn 200 v), nc1))
      else if opn = ''create_credential'' then
        (case create (env_later env) (text_of (jget (obj_or_empty (jget request ''body'')) ''passphrase''))
                (env_reserve_clock env) (env_draw env) (nc_credentials nc) of
           (Inl e, cs) \<Rightarrow> (Inl e, nc\<lparr>nc_credentials := cs\<rparr>)
         | (Inr ref, cs) \<Rightarrow> (Inr (plain_answer opn 201 (credential_receipt env ref (ttl_seconds cs))),
                            nc\<lparr>nc_credentials := cs\<rparr>))
      else if opn = ''apply'' then accept_apply env request nc
      else if opn = ''retry'' then accept_retry env request nc
      else if opn = ''forget'' then accept_forget env request nc
      else (Inr (error_response ''operation_not_implemented'' ''network-control operation is not implemented''
                   (Some opn) True), nc))"

definition credential_message :: "string \<Rightarrow> string" where
  "credential_message code =
     (if code = ''credential_ref_invalid'' then ''credential reference is invalid or already consumed''
      else if code = ''credential_ref_expired'' then ''credential reference has expired''
      else if code = ''credential_invalid'' then ''Wi-Fi credential is invalid''
      else if code = ''credential_store_full'' then ''credential store is temporarily full''
      else if code = ''credential_reference_failed'' then ''credential reference could not be allocated''
      else ''credential operation failed'')"

definition failed_closed :: "string \<Rightarrow> jobject" where
  "failed_closed opn = error_response ''controller_failure'' ''network controller failed closed'' (Some opn) True"

text \<open>The \<open>except\<close> clauses in order.  \<open>TimeoutError\<close> is an \<open>OSError\<close>, the application's own classes
  are \<open>RuntimeError\<close>s; \<open>None\<close> is an exception that escapes.\<close>

fun failure_answer :: "call_env \<Rightarrow> string \<Rightarrow> pyexc \<Rightarrow> jobject option" where
  "failure_answer env opn (AppError cls code retry) = Some
     (if cls = ''ClockSyncError'' then error_response code (env_message env (AppError cls code retry)) (Some opn) True
      else if cls = ''NetworkCredentialError'' then
        error_response code (credential_message code) (Some opn) (code = ''credential_store_full'')
      else if cls = ''NetworkStateError'' then
        error_response code ''network transaction could not be accepted'' (Some opn) retry
      else if cls = ''NetworkError'' then
        error_response code (if code = ''capture_active'' then ''capture is active; network mutation was not started''
                             else ''NetworkManager operation failed'') (Some opn) True
      else failed_closed opn)"
| "failure_answer env opn OSError = Some (failed_closed opn)"
| "failure_answer env opn TimeoutError = Some (failed_closed opn)"
| "failure_answer env opn RuntimeError = Some (failed_closed opn)"
| "failure_answer env opn ValueError = Some (failed_closed opn)"
| "failure_answer env opn _ = None"

text \<open>\<open>handle_control_request\<close> with an enabled controller.  \<open>operation not in SUPPORTED_OPERATIONS\<close> and
  \<open>valid_network_request\<close> raise \<open>TypeError\<close> on an unhashable value.\<close>

definition handle_control_request ::
  "call_env \<Rightarrow> json \<Rightarrow> network_controller \<Rightarrow> jobject res \<times> network_controller" where
  "handle_control_request env request nc =
     (case request of
        JObj r \<Rightarrow>
          (if \<not> eq_str (jget r ''schema'') control_request_schema
           then (Inr (error_response ''request_invalid'' ''unsupported network-control request schema'' None False), nc)
           else tryS (in_set (jget r ''operation'') (mutation_operations @ root_operations)) nc (\<lambda>supported.
             if \<not> supported
             then (Inr (error_response ''operation_invalid'' ''unsupported network-control operation'' None False), nc)
             else
              (let opn = text_of (jget r ''operation'') in
               if opn \<in> set mutation_operations \<and> contains_inline_secret request
               then (Inr (error_response ''inline_secret_rejected''
                 ''network-control requests must use credential_ref, not inline secret material'' (Some opn) False), nc)
               else tryS (valid_control_request opn r) nc (\<lambda>valid.
                 if \<not> valid
                 then (Inr (error_response ''request_invalid'' ''network-control request shape is invalid'' None False), nc)
                 else
                  (case handle_validated env opn r nc of
                     (Inr answer, nc1) \<Rightarrow> (seal_response (env_uuid_text env) (env_instant env) answer, nc1)
                   | (Inl e, nc1) \<Rightarrow>
                       (case failure_answer env opn e of
                          None \<Rightarrow> (Inl e, nc1)
                        | Some answer \<Rightarrow> (seal_response (env_uuid_text env) (env_instant env) answer, nc1)))))))
      | _ \<Rightarrow> (Inr (error_response ''request_invalid'' ''request must be a JSON object'' None False), nc))"

end
