(* ===== verification/NetworkMutationProps.thy ===== *)
theory NetworkMutationProps
  imports NetworkMutations "HOL-Library.Multiset"
begin

text \<open>
  What the privileged controller promises across its components: a validated request normalises to
  a state the authority accepts, a failed request leaves neither a candidate connection nor a spent
  credential behind, and no answer carries a secret field.
\<close>

section \<open>Normalisation\<close>

lemma valid_ethernet_saved: "valid_network_ethernet v \<Longrightarrow> valid_saved_ethernet v"
  by (cases v; cases "jget (obj_or_empty v) ''static_ipv4''")
     (auto simp: valid_network_ethernet_def valid_saved_ethernet_def eq_str_def valid_network_static_ipv4_def)

lemma valid_ethernet_static:
  assumes "valid_network_ethernet (JObj e)" and "jget e ''static_ipv4'' = JObj s"
  shows "has_keys s [''address'', ''prefix_length'', ''gateway'', ''dns'']"
    and "has_keys e [''addressing'', ''static_ipv4'']"
  using assms by (auto simp: valid_network_ethernet_def valid_network_static_ipv4_def)

lemma wifi_desired_ok:
  assumes "valid_network_apply_wifi_client (JObj w) = Inr True"
    and "jget w ''security'' = JStr ''open'' \<or> credential \<noteq> None"
  obtains ssid sec cfg where "wifi_desired d w credential =
      Inr ([(''mode'', JStr ''wifi-client''),
            (''wifi_client'', JObj [(''ssid'', JStr ssid), (''security'', JStr sec),
               (''credential_state'', JStr (if sec = ''open'' then ''absent'' else ''stored''))]),
            (''ethernet'', jget d ''ethernet'')], Some cfg)"
    and "1 \<le> length ssid" "length ssid \<le> 32" "sec \<in> set wifi_security"
proof -
  note v = assms(1) [unfolded valid_network_apply_wifi_client_True]
  obtain sec where sec: "jget w ''security'' = JStr sec" "sec \<in> set request_wifi_security" using v by auto
  obtain ssid where ssid: "jget w ''ssid'' = JStr ssid" "1 \<le> length ssid" "length ssid \<le> 32" using v by auto
  have i: "jitem w ''ssid'' = Inr (JStr ssid)" "jitem w ''security'' = Inr (JStr sec)"
    using v ssid sec by (auto simp: jitem_has_keys split: if_splits)
  have "sec \<in> set wifi_security" using sec by (simp add: request_wifi_security_def wifi_security_def)
  then show ?thesis
    using that i ssid sec assms(2) by (auto simp: wifi_desired_def text_of_def Let_def guardE_def)
qed

lemma valid_wifi_desired:
  assumes "1 \<le> length ssid" "length ssid \<le> 32" "sec \<in> set wifi_security"
    and "st \<in> {''absent'', ''pending_input'', ''stored''}" and "sec = ''open'' \<longleftrightarrow> st = ''absent''"
    and "v = JNull \<or> valid_network_ethernet v"
  shows "valid_desired_state (JObj [(''mode'', JStr ''wifi-client''),
      (''wifi_client'', JObj [(''ssid'', JStr ssid), (''security'', JStr sec), (''credential_state'', JStr st)]),
      (''ethernet'', v)]) = Inr True"
  using assms valid_ethernet_saved [of v]
  by (auto simp: valid_desired_state_def has_keys_def eq_str_def valid_saved_wifi_def Let_def
      valid_saved_ethernet_def [of JNull])

lemma pending_input_wifi:
  "pending_input [(''mode'', JStr ''wifi-client''),
      (''wifi_client'', JObj [(''ssid'', a), (''security'', JStr sec), (''credential_state'', b)]), (''ethernet'', v)] =
    [(''mode'', JStr ''wifi-client''),
      (''wifi_client'', JObj [(''ssid'', a), (''security'', JStr sec),
         (''credential_state'', if sec = ''open'' then b else JStr ''pending_input'')]), (''ethernet'', v)]"
  by (simp add: pending_input_def eq_str_def jset_def)

lemma pending_input_other: "jget des ''wifi_client'' = JNull \<Longrightarrow> pending_input des = des"
  by (simp add: pending_input_def)

lemma static_desired_ok:
  assumes "valid_network_ethernet (jget d ''ethernet'')" and "jget d ''ethernet'' \<noteq> JNull"
  shows "if eq_str (jget (obj_or_empty (jget d ''ethernet'')) ''addressing'') ''dhcp''
         then static_desired d mode = Inl AssertionError
         else (\<exists>cfg. static_desired d mode =
           Inr ([(''mode'', JStr mode), (''wifi_client'', JNull), (''ethernet'', jget d ''ethernet'')], Some cfg))"
proof (cases "jget d ''ethernet''")
  case (JObj e)
  have k: "has_keys e [''addressing'', ''static_ipv4'']"
    using assms(1) JObj by (auto simp: valid_network_ethernet_def)
  have i: "jitem e ''static_ipv4'' = Inr (jget e ''static_ipv4'')"
    using k by (simp add: jitem_has_keys)
  show ?thesis
  proof (cases "eq_str (jget e ''addressing'') ''dhcp''")
    case True
    then have "jget e ''static_ipv4'' = JNull" using assms(1) JObj by (auto simp: valid_network_ethernet_def eq_str_def)
    then show ?thesis using JObj i True by (simp add: static_desired_def)
  next
    case False
    then have v: "valid_network_static_ipv4 (jget e ''static_ipv4'')"
      using assms(1) JObj by (auto simp: valid_network_ethernet_def)
    then obtain s where s: "jget e ''static_ipv4'' = JObj s" by (cases "jget e ''static_ipv4''") (auto simp: valid_network_static_ipv4_def)
    have "has_keys s [''address'', ''prefix_length'', ''gateway'', ''dns'']"
      using v s by (simp add: valid_network_static_ipv4_def)
    then show ?thesis using JObj i s False by (simp add: static_desired_def jitem_has_keys Let_def)
  qed
qed (use assms in \<open>simp_all add: valid_network_ethernet_def\<close>)

lemma valid_plain_desired:
  "valid_desired_state (JObj [(''mode'', JStr ''hotspot''), (''wifi_client'', JNull), (''ethernet'', JNull)]) = Inr True"
  "valid_desired_state (JObj [(''mode'', JStr ''ethernet-dhcp''), (''wifi_client'', JNull),
     (''ethernet'', JObj [(''addressing'', JStr ''dhcp''), (''static_ipv4'', JNull)])]) = Inr True"
  by (simp_all add: valid_desired_state_def Let_def has_keys_def eq_str_def valid_saved_ethernet_def)

text \<open>The two contracts fit, with one gap.  A validated apply request normalises, with the credential
  its network needs, to a desired state that the authority accepts, both as it is and with the
  credential marked as pending, and of the requested mode; only a static Ethernet mode that carries
  DHCP addressing passes the request contract and then fails an assertion.\<close>

theorem validated_request_normalises:
  assumes "valid_network_request ''apply'' (JObj r) = Inr True" and "jget r ''desired'' = JObj d"
    and "protected_wifi d \<Longrightarrow> credential \<noteq> None"
  shows "if jget d ''mode'' = JStr ''ethernet-static'' \<and>
            eq_str (jget (obj_or_empty (jget d ''ethernet'')) ''addressing'') ''dhcp''
         then desired_and_config d credential = Inl AssertionError
         else (\<exists>des cfg. desired_and_config d credential = Inr (des, cfg) \<and>
           valid_desired_state (JObj des) = Inr True \<and> valid_desired_state (JObj (pending_input des)) = Inr True \<and>
           jget des ''mode'' = jget d ''mode'' \<and> (cfg = None \<longleftrightarrow> jget d ''mode'' = JStr ''hotspot''))"
proof -
  note v = assms(1) [unfolded valid_network_request_apply assms(2) valid_network_apply_desired_state_True]
  obtain m where m: "jget d ''mode'' = JStr m" "m \<in> set network_modes" using v by auto
  have jm: "jitem d ''mode'' = Inr (JStr m)" "jitem d ''wifi_client'' = Inr (jget d ''wifi_client'')"
    using v m by (auto simp: jitem_has_keys)
  consider (wifi) "m = ''wifi-client''" | (hotspot) "m = ''hotspot''" | (dhcp) "m = ''ethernet-dhcp''"
    | (static) "m = ''ethernet-static''"
    using m(2) by (auto simp: network_modes_def)
  then show ?thesis
  proof cases
    case wifi
    have vw: "valid_network_apply_wifi_client (jget d ''wifi_client'') = Inr True" using v m wifi by simp
    then obtain w where w: "jget d ''wifi_client'' = JObj w"
      by (cases "jget d ''wifi_client''") (simp_all add: valid_network_apply_wifi_client_def)
    have "jget w ''security'' = JStr ''open'' \<or> credential \<noteq> None"
      using assms(3) m wifi w by (auto simp: protected_wifi_def eq_str_def)
    from wifi_desired_ok [OF vw [unfolded w] this, of d] obtain ssid sec cfg where
      des: "wifi_desired d w credential =
        Inr ([(''mode'', JStr ''wifi-client''),
            (''wifi_client'', JObj [(''ssid'', JStr ssid), (''security'', JStr sec),
               (''credential_state'', JStr (if sec = ''open'' then ''absent'' else ''stored''))]),
            (''ethernet'', jget d ''ethernet'')], Some cfg)"
      and s: "1 \<le> length ssid" "length ssid \<le> 32" "sec \<in> set wifi_security" by blast
    have e: "jget d ''ethernet'' = JNull \<or> valid_network_ethernet (jget d ''ethernet'')" using v by blast
    show ?thesis
      using des valid_wifi_desired [OF s _ _ e] jm m wifi w
      by (cases "sec = ''open''") (simp_all add: desired_and_config_def text_of_def pending_input_wifi)
  next
    case static
    have e: "valid_network_ethernet (jget d ''ethernet'')" "jget d ''ethernet'' \<noteq> JNull" using v m static by auto
    have vd: "valid_desired_state (JObj [(''mode'', JStr ''ethernet-static''), (''wifi_client'', JNull),
        (''ethernet'', jget d ''ethernet'')]) = Inr True"
      using valid_ethernet_saved [OF e(1)] e(2) by (simp add: valid_desired_state_def has_keys_def eq_str_def)
    show ?thesis
      using static_desired_ok [OF e, of "''ethernet-static''"] jm m static vd
      by (auto simp: desired_and_config_def text_of_def pending_input_other split: if_splits)
  qed (use jm m valid_plain_desired in \<open>simp_all add: desired_and_config_def text_of_def pending_input_other Let_def\<close>)
qed

definition ex_static_request :: jobject where
  "ex_static_request = [(''schema'', JStr ''ylx.network-apply-request.v1''),
     (''desired'', JObj [(''mode'', JStr ''ethernet-static''), (''wifi_client'', JNull),
        (''ethernet'', JObj [(''addressing'', JStr ''dhcp''), (''static_ipv4'', JNull)])])]"

theorem validated_request_normalises_witness:
  "valid_network_request ''apply'' (JObj ex_static_request) = Inr True \<and>
   desired_and_config (obj_or_empty (jget ex_static_request ''desired'')) None = Inl AssertionError"
proof -
  have v: "valid_network_request ''apply'' (JObj ex_static_request) = Inr True"
    by (simp add: ex_static_request_def valid_network_request_apply valid_network_apply_desired_state_True
        has_keys_def network_modes_def valid_network_ethernet_def eq_str_def)
  show ?thesis
    using v validated_request_normalises [OF v, of _ None]
    by (simp add: ex_static_request_def protected_wifi_def eq_str_def)
qed

section \<open>A failed request leaves nothing behind\<close>

text \<open>A credential that has not expired by the time the call ends.\<close>

definition live_credentials_kept :: "rat \<Rightarrow> credential_store \<Rightarrow> credential_store \<Rightarrow> bool" where
  "live_credentials_kept t s s' \<longleftrightarrow>
     (\<forall>r e. map_of (entries s) r = Some e \<and> t < expires_at e \<longrightarrow> map_of (entries s') r = Some e)"

lemma live_kept_refl: "live_credentials_kept t s s"
  by (simp add: live_credentials_kept_def)

lemma release_after_reserve:
  assumes "reserve r now s = (Inr v, s')"
  shows "live_credentials_kept t s (close_reservation False r t s')"
  using assms
  by (auto simp: live_credentials_kept_def close_reservation_def release_reservation_def
      elim!: reserve_success split: if_splits)

lemma failed_reserve:
  assumes "reserve r now s = (Inl e, s')" and "now \<le> t"
  shows "live_credentials_kept t s s'"
  using assms by (auto simp: live_credentials_kept_def reserve_def split: if_splits option.splits)

text \<open>What a failing call of the acceptor must not change.\<close>

definition nothing_left :: "rat \<Rightarrow> network_controller \<Rightarrow> network_controller \<Rightarrow> bool" where
  "nothing_left t nc nc' \<longleftrightarrow>
     mset (nc_candidates nc') = mset (nc_candidates nc) \<and>
     live_credentials_kept t (nc_credentials nc) (nc_credentials nc') \<and>
     nc_deferred nc' = nc_deferred nc \<and> nc_queue nc' = nc_queue nc \<and> nc_queued nc' = nc_queued nc \<and>
     nc_pending nc' = nc_pending nc"

lemma nothing_left_refl: "nothing_left t nc nc"
  by (simp add: nothing_left_def live_kept_refl)

definition reservation_open :: "call_env \<Rightarrow> network_controller \<Rightarrow> (string \<times> string) option \<Rightarrow> network_controller \<Rightarrow> bool" where
  "reservation_open env nc reservation nc1 \<longleftrightarrow>
     (case reservation of
        None \<Rightarrow> nc1 = nc
      | Some (ref, c) \<Rightarrow> reserve ref (env_reserve_clock env) (nc_credentials nc) = (Inr c, nc_credentials nc1) \<and>
          nc1 = nc\<lparr>nc_credentials := nc_credentials nc1\<rparr>)"

lemma leave_open_reservation:
  assumes "reservation_open env nc reservation nc1"
  shows "nothing_left (env_close_clock env) nc (leave_reservation False (map_option fst reservation) env nc1)"
proof (cases reservation)
  case None
  then show ?thesis using assms by (simp add: reservation_open_def leave_reservation_def nothing_left_refl)
next
  case (Some rc)
  obtain ref c where rc: "rc = (ref, c)" by (cases rc)
  have r: "reserve ref (env_reserve_clock env) (nc_credentials nc) = (Inr c, nc_credentials nc1)"
    and n: "nc1 = nc\<lparr>nc_credentials := nc_credentials nc1\<rparr>"
    using assms Some rc by (simp_all add: reservation_open_def)
  have "nc_candidates nc1 = nc_candidates nc" "nc_deferred nc1 = nc_deferred nc" "nc_queue nc1 = nc_queue nc"
    "nc_queued nc1 = nc_queued nc" "nc_pending nc1 = nc_pending nc"
    by (subst n, simp)+
  then show ?thesis
    using release_after_reserve [OF r, of "env_close_clock env"] Some rc
    by (simp add: leave_reservation_def nothing_left_def)
qed

lemma leave_reservation_update:
  "leave_reservation b ref env (nc\<lparr>nc_candidates := cs, nc_db := db\<rparr>) =
     (leave_reservation b ref env nc)\<lparr>nc_candidates := cs, nc_db := db\<rparr>"
  by (simp add: leave_reservation_def split: option.splits)

lemma finish_apply_failure:
  assumes "finish_apply env pid key fp d reservation nc1 = (Inl e, nc')"
    and "reservation_open env nc reservation nc1" and "network_failure e" and "env_discards env"
  shows "nothing_left (env_close_clock env) nc nc'"
proof -
  let ?left = "leave_reservation False (map_option fst reservation) env nc1"
  note l = leave_open_reservation [OF assms(2)]
  have q: "nc_candidates ?left = nc_candidates nc1"
    by (simp add: leave_reservation_def split: option.splits)
  have commit: "\<not> network_failure e'" if "commit_ref ref n = (Inl e', n')" for ref n n' e'
    using that by (auto simp: commit_ref_def commit_reservation_def split: option.splits if_splits)
  show ?thesis
  proof (cases "desired_and_config d (map_option snd reservation)")
    case (Inl x)
    then show ?thesis using assms(1) l by (simp add: finish_apply_def Let_def)
  next
    case (Inr p)
    obtain des config where p: "p = (des, config)" by (cases p)
    let ?prep = "case config of None \<Rightarrow> Inr None | Some c \<Rightarrow> bindE (env_prepare env c) (\<lambda>v. Inr (Some v))"
    show ?thesis
    proof (cases ?prep)
      case (Inl x)
      then show ?thesis using assms(1) l Inr p by (simp add: finish_apply_def Let_def)
    next
      case prep: (Inr candidate)
      obtain r db where acc: "accept_transaction (env_sha env)
          (apply_acceptance env pid key fp (\<not> nc_defers nc1) candidate des) (env_commit env) (env_db_now env) (nc_db nc1) = (r, db)"
        by fastforce
      show ?thesis
      proof (cases r)
        case (Inl x)
        have "nc' = drop_candidate env e candidate
            (?left\<lparr>nc_candidates := nc_candidates nc1 @ (case candidate of Some c \<Rightarrow> [c] | None \<Rightarrow> []), nc_db := db\<rparr>)"
          using assms(1) Inr p prep acc Inl by (auto simp: finish_apply_def Let_def leave_reservation_update)
        then show ?thesis
          using l q assms(3,4) by (cases candidate) (auto simp: drop_candidate_def nothing_left_def)
      next
        case r: (Inr x)
        have False
          using assms(1,3) Inr p prep acc r commit
          by (auto simp: finish_apply_def Let_def split: prod.splits sum.splits)
        then show ?thesis ..
      qed
    qed
  qed
qed

lemma begin_mutation_failure:
  assumes "begin_mutation opn env request nc k = (Inl e, nc')"
  obtains "nc' = nc" | pid key fp bd st where "k pid key fp bd st = (Inl e, nc')"
  using assms
  by (auto simp: begin_mutation_def Let_def elim!: tryS_cases split: json.splits if_splits option.splits)

lemma new_apply_failure:
  assumes "new_apply env pid key fp bd nc = (Inl e, nc')"
  obtains (early) "nc' = nc"
    | (reserve) ref cs where "reserve ref (env_reserve_clock env) (nc_credentials nc) = (Inl e, cs)"
        "nc' = nc\<lparr>nc_credentials := cs\<rparr>"
    | (finish) d reservation nc1 where "finish_apply env pid key fp d reservation nc1 = (Inl e, nc')"
        "reservation_open env nc reservation nc1"
proof -
  show thesis
  proof (cases "jitem bd ''desired''")
    case (Inr v)
    show thesis
    proof (cases v)
      case (JObj d)
      let ?ref = "text_of (jget (obj_or_empty (jget d ''wifi_client'')) ''credential_ref'')"
      obtain r cs where rc: "NetworkCredentials.reserve ?ref (env_reserve_clock env) (nc_credentials nc) = (r, cs)" by fastforce
      show thesis
      proof (cases "protected_wifi d")
        case True
        show thesis
        proof (cases r)
          case (Inl x)
          then show thesis using assms [unfolded new_apply_def] Inr JObj True rc reserve by (simp add: Let_def)
        next
          case (Inr c)
          then show thesis
            using assms [unfolded new_apply_def] \<open>jitem bd ''desired'' = Inr v\<close> JObj True rc
              finish [of d "Some (?ref, c)" "nc\<lparr>nc_credentials := cs\<rparr>"]
            by (simp add: Let_def reservation_open_def)
        qed
      next
        case False
        then show thesis using assms [unfolded new_apply_def] Inr JObj finish [of d None nc] by (simp add: reservation_open_def)
      qed
    qed (use assms Inr early in \<open>simp_all add: new_apply_def\<close>)
  qed (use assms early in \<open>simp add: new_apply_def\<close>)
qed

text \<open>C25: A network request that fails leaves nothing behind, for the failures that \<open>_accept_apply\<close> cleans up after.  When it
  ends in a \<open>NetworkError\<close>, a \<open>NetworkStateError\<close> or an operating-system error, the discarding of the prepared
  connection itself works, and the clock of the credential store does not run backwards between the
  reservation and its release, then the candidate connections are the ones from before, every credential that
  has not meanwhile expired can still be used, and nothing was scheduled.  An exception that is none of these, an
  error of sqlite in the write of the database above all, leaves the prepared connection behind
  (\<open>sqlite_error_leaves_the_connection\<close>).\<close>

theorem failed_apply_leaves_nothing:
  assumes "accept_apply env request nc = (Inl e, nc')" and "network_failure e" and "env_discards env"
    and "env_reserve_clock env \<le> env_close_clock env"
  shows "nothing_left (env_close_clock env) nc nc'"
proof -
  show ?thesis
  proof (rule begin_mutation_failure [OF assms(1) [unfolded accept_apply_def]])
    fix pid key fp bd st
    assume "new_apply env pid key fp bd nc = (Inl e, nc')"
    then show ?thesis
    proof (cases rule: new_apply_failure)
      case (reserve ref cs)
      then show ?thesis using failed_reserve [OF reserve(1) assms(4)] by (simp add: nothing_left_def)
    next
      case (finish d reservation nc1)
      then show ?thesis by (rule finish_apply_failure [OF _ _ assms(2,3)])
    qed (simp add: nothing_left_refl)
  qed (simp add: nothing_left_refl)
qed

lemma sqlite_error_leaves_the_connection:
  assumes "desired_and_config d (map_option snd reservation) = Inr (des, Some cfg)" and "env_prepare env cfg = Inr c"
    and "accept_transaction (env_sha env) (apply_acceptance env pid key fp (\<not> nc_defers nc) (Some c) des)
      (env_commit env) (env_db_now env) (nc_db nc) = (Inl DatabaseError, db)"
  shows "\<exists>nc'. finish_apply env pid key fp d reservation nc = (Inl DatabaseError, nc') \<and> nc_candidates nc' = nc_candidates nc @ [c]"
  using assms by (simp add: finish_apply_def Let_def drop_candidate_def leave_reservation_def split: option.split)

text \<open>A protected Wi-Fi whose candidate cannot be prepared.\<close>

definition ex_env :: call_env where
  "ex_env = \<lparr>env_tid = ex_tid, env_accepted_at = ''2026-01-01T00:00:00Z'', env_lock = Inr (),
     env_reserve_clock = 11, env_close_clock = 12,
     env_prepare = (\<lambda>c. Inl (AppError ''NetworkError'' ''reload_failed'' False)), env_discards = True,
     env_saved_candidate = (\<lambda>m. Inl KeyError), env_commit = Committed, env_db_now = ''t'',
     env_digest = (\<lambda>v. replicate 64 (CHR ''a'')), env_sha = ex_sha, env_reading = ex_reading,
     env_networks = Inr (JList []), env_scanned_at = ''t'', env_draw = ex_draw, env_later = ex_later,
     env_issued = (''t'', ''u''), env_message = (\<lambda>e. []), env_uuid_text = (\<lambda>v. True), env_instant = (\<lambda>s. None)\<rparr>"

definition ex_controller :: network_controller where
  "ex_controller = \<lparr>nc_db = ex_database, nc_credentials = ex_issued, nc_clock = initial_sync, nc_candidates = [],
     nc_closed = False, nc_defers = False, nc_deferred = [], nc_queued = [], nc_queue = [], nc_pending = 0\<rparr>"

definition ex_apply_request :: jobject where
  "ex_apply_request = [(''schema'', JStr control_request_schema), (''operation'', JStr ''apply''),
     (''principal_id'', JStr ''admin''), (''idempotency_key'', JStr ''k1''),
     (''body'', JObj [(''schema'', JStr ''ylx.network-apply-request.v1''),
        (''desired'', JObj [(''mode'', JStr ''wifi-client''),
           (''wifi_client'', JObj [(''ssid'', JStr ''net''), (''security'', JStr ''wpa2-personal''),
              (''credential_ref'', JStr ''cred-T0'')]),
           (''ethernet'', JNull)])])]"

lemma ex_no_receipt: "replay_receipt ex_sha p k fp ex_database = Inr None"
  using ex_load ex_receipts by (simp add: replay_receipt_def stored_receipt_def receipts_of_def [symmetric])

lemma ex_failed_apply:
  "\<exists>nc'. accept_apply ex_env ex_apply_request ex_controller = (Inl (AppError ''NetworkError'' ''reload_failed'' False), nc')"
  using ex_no_receipt ex_load ex_window ex_ref_ok
  by (simp add: accept_apply_def begin_mutation_def new_apply_def ex_apply_request_def ex_controller_def ex_env_def
      Let_def text_of_def jitem_def protected_wifi_def eq_str_def reserve_def ex_issued_def
      finish_apply_def desired_and_config_def wifi_desired_def)

theorem failed_apply_leaves_nothing_witness:
  "\<exists>nc'. accept_apply ex_env ex_apply_request ex_controller =
       (Inl (AppError ''NetworkError'' ''reload_failed'' False), nc') \<and>
     map_of (entries (nc_credentials nc')) ''cred-T0'' = map_of (entries ex_issued) ''cred-T0''"
proof -
  obtain nc' where f: "accept_apply ex_env ex_apply_request ex_controller =
      (Inl (AppError ''NetworkError'' ''reload_failed'' False), nc')"
    using ex_failed_apply by blast
  have "nothing_left (env_close_clock ex_env) ex_controller nc'"
    by (rule failed_apply_leaves_nothing [OF f]) (simp_all add: ex_env_def)
  then show ?thesis
    using f by (auto simp: nothing_left_def live_credentials_kept_def ex_env_def ex_controller_def ex_issued_def)
qed

section \<open>Sealed answers\<close>

lemma error_response_clean:
  "\<not> response_contains_secret_field (JObj (error_response code message opn r))"
proof -
  have k: "casefold k \<notin> set response_secret_field_names"
    if "k \<in> {''schema'', ''ok'', ''error'', ''code'', ''message'', ''retryable'', ''operation''}" for k
    using that
    by (subst casefold_plain) (auto simp: plain_key_def is_upper_def response_secret_field_names_def secret_field_names_def)
  show ?thesis
    by (simp add: error_response_def k del: casefold.simps split: option.splits)
qed

text \<open>What occurs in a JSON value at any depth, independently of how the controller searches.\<close>

inductive part_of :: "json \<Rightarrow> json \<Rightarrow> bool" where
  whole: "part_of v v"
| member: "part_of (JObj d) v \<Longrightarrow> (k, item) \<in> set d \<Longrightarrow> part_of item v"
| element: "part_of (JList xs) v \<Longrightarrow> x \<in> set xs \<Longrightarrow> part_of x v"

lemma clean_parts: "part_of u v \<Longrightarrow> \<not> response_contains_secret_field v \<Longrightarrow> \<not> response_contains_secret_field u"
  by (induction rule: part_of.induct) (auto simp: list_ex_iff simp del: casefold.simps)

lemma clean_names:
  assumes "\<not> response_contains_secret_field (JObj d)" and "(k, item) \<in> set d"
  shows "casefold k \<notin> {''password'', ''psk'', ''secret'', ''token'', ''credential'', ''passphrase''}"
  using assms by (auto simp: list_ex_iff response_secret_field_names_def secret_field_names_def simp del: casefold.simps)

lemma answer_clean:
  assumes "handle_control_request env request nc = (Inr answer, nc')"
  shows "\<not> response_contains_secret_field (JObj answer)"
proof -
  have s: "\<not> response_contains_secret_field (JObj v)" if "seal_response u i r = Inr v" for u i r v
    using that error_response_clean
    by (auto simp: seal_response_def rejected_response_def bindE_eq_Inr simp del: response_contains_secret_field.simps
        split: if_splits)
  show ?thesis
    using assms s error_response_clean
    by (auto simp: handle_control_request_def Let_def simp del: response_contains_secret_field.simps
        elim!: tryS_cases split: json.splits if_splits prod.splits sum.splits option.splits)
qed

text \<open>C30: No answer has a secret field.  Whatever the request and whatever happens while it is handled, no object that
  occurs in an answer of the entry point, at any depth of objects and lists, has a field whose name, up to case,
  is password, psk, secret, token, credential or passphrase.\<close>

theorem answers_carry_no_secret:
  assumes "handle_control_request env request nc = (Inr answer, nc')"
    and "part_of (JObj d) (JObj answer)" and "(k, item) \<in> set d"
  shows "casefold k \<notin> {''password'', ''psk'', ''secret'', ''token'', ''credential'', ''passphrase''}"
  by (rule clean_names [OF clean_parts [OF assms(2) answer_clean [OF assms(1)]] assms(3)])

definition ex_inline_secret :: jobject where
  "ex_inline_secret = (''psk'', JStr ''hunter22'') # ex_apply_request"

theorem answers_carry_no_secret_witness:
  "\<exists>answer problem. fst (handle_control_request ex_env (JObj ex_inline_secret) ex_controller) = Inr answer \<and>
     part_of (JObj problem) (JObj answer) \<and> (''code'', JStr ''inline_secret_rejected'') \<in> set problem \<and>
     casefold ''code'' \<notin> {''password'', ''psk'', ''secret'', ''token'', ''credential'', ''passphrase''}"
proof -
  have "casefold ''psk'' = ''psk''" by (rule casefold_plain) (simp add: plain_key_def is_upper_def)
  then have i: "contains_inline_secret (JObj ex_inline_secret)"
    by (simp add: ex_inline_secret_def secret_field_names_def del: casefold.simps)
  have f: "jget ex_inline_secret ''schema'' = JStr control_request_schema" "jget ex_inline_secret ''operation'' = JStr ''apply''"
    by (simp_all add: ex_inline_secret_def ex_apply_request_def)
  have h: "handle_control_request ex_env (JObj ex_inline_secret) ex_controller =
      (Inr (error_response ''inline_secret_rejected''
        ''network-control requests must use credential_ref, not inline secret material'' (Some ''apply'') False), ex_controller)"
    unfolding handle_control_request_def
    using i f by (simp add: eq_str_def mutation_operations_def text_of_def del: contains_inline_secret.simps)
  define answer where "answer = error_response ''inline_secret_rejected''
        ''network-control requests must use credential_ref, not inline secret material'' (Some ''apply'') False"
  obtain problem where e: "(''error'', JObj problem) \<in> set answer" "(''code'', JStr ''inline_secret_rejected'') \<in> set problem"
    by (simp add: answer_def error_response_def)
  have p: "part_of (JObj problem) (JObj answer)" by (rule part_of.member [OF part_of.whole e(1)])
  show ?thesis
    using h p e answers_carry_no_secret [OF h [folded answer_def] p e(2)] by (metis answer_def fst_conv)
qed

section \<open>Idempotency of the whole controller\<close>

lemma leave_schedule_db [simp]:
  "nc_db (schedule tid nc) = nc_db nc" "nc_db (leave_reservation b ref env nc) = nc_db nc"
  by (simp_all add: schedule_def enqueue_def leave_reservation_def split: option.splits)

lemma commit_ref_db: "commit_ref ref nc = (x, nc1) \<Longrightarrow> nc_db nc1 = nc_db nc"
  by (auto simp: commit_ref_def split: option.splits prod.splits)

lemma finish_apply_success:
  assumes "finish_apply env pid key fp d reservation nc = (Inr answer, nc1)"
  obtains a receipt replayed where
    "accept_transaction (env_sha env) a (env_commit env) (env_db_now env) (nc_db nc) = (Inr (receipt, replayed), nc_db nc1)"
    and "principal_id a = pid" "idempotency_key a = key" "request_fingerprint a = fp"
    and "answer = accepted_response ''apply'' receipt replayed"
  using assms
  by (auto simp: finish_apply_def Let_def apply_acceptance_def dest!: commit_ref_db
      split: sum.splits prod.splits option.splits intro: that)

lemma new_apply_success:
  assumes "new_apply env pid key fp bd nc = (Inr answer, nc1)"
  obtains a receipt replayed where
    "accept_transaction (env_sha env) a (env_commit env) (env_db_now env) (nc_db nc) = (Inr (receipt, replayed), nc_db nc1)"
    and "principal_id a = pid" "idempotency_key a = key" "request_fingerprint a = fp"
    and "answer = accepted_response ''apply'' receipt replayed"
  using assms
  by (auto simp: new_apply_def Let_def elim!: tryS_cases finish_apply_success
      split: json.splits if_splits prod.splits sum.splits intro: that)

text \<open>C29: applying a network is idempotent end to end.  Whatever happens to the authority after an apply was
  answered, the same request under the same principal and key is answered by the receipt of the
  first one, marked as replayed, and changes nothing: no credential, candidate, revision or work.\<close>

theorem apply_is_idempotent:
  assumes "accept_apply env request nc = (Inr answer, nc1)"
    and "canonical_db (nc_db nc)" and "load_locked (nc_db nc) = Inr st"
    and "net_run (env_sha env) (nc_db nc1) (nc_db nc2)" and "\<not> nc_closed nc2"
    and "env_sha env2 = env_sha env" and "env_digest env2 = env_digest env"
  shows "\<exists>receipt replayed. answer = accepted_response ''apply'' receipt replayed \<and>
           accept_apply env2 request nc2 = (Inr (accepted_response ''apply'' (canon receipt) True), nc2)"
proof -
  let ?pid = "text_of (jget request ''principal_id'')"
  let ?key = "text_of (jget request ''idempotency_key'')"
  obtain bd where bd: "jget request ''body'' = JObj bd"
    using assms(1) by (cases "jget request ''body''") (auto simp: accept_apply_def begin_mutation_def)
  let ?fp = "request_fingerprint_of (env_digest env) ''apply'' bd"
  have "\<exists>receipt replayed. answer = accepted_response ''apply'' receipt replayed \<and>
      replay_receipt (env_sha env) ?pid ?key ?fp (nc_db nc2) = Inr (Some (canon receipt))"
  proof (cases "replay_receipt (env_sha env) ?pid ?key ?fp (nc_db nc)")
    case (Inl e)
    then show ?thesis using assms(1) bd by (simp add: accept_apply_def begin_mutation_def Let_def split: if_splits)
  next
    case (Inr found)
    show ?thesis
    proof (cases found)
      case (Some r)
      then have "answer = accepted_response ''apply'' r True" "nc1 = nc"
        using assms(1) bd Inr by (auto simp: accept_apply_def begin_mutation_def Let_def split: if_splits)
      moreover have "canon r = r"
        using Inr Some assms(3) stored_receipt_canonical [OF _ assms(2,3)] by (simp add: replay_receipt_def)
      ultimately show ?thesis
        using replay_persists [OF Inr [unfolded Some] assms(2,3)] assms(4) by auto
    next
      case None
      then have "new_apply env ?pid ?key ?fp bd nc = (Inr answer, nc1)"
        using assms(1) bd Inr
        by (auto simp: accept_apply_def begin_mutation_def Let_def elim!: tryS_cases split: if_splits)
      from new_apply_success [OF this] obtain a receipt replayed where
        acc: "accept_transaction (env_sha env) a (env_commit env) (env_db_now env) (nc_db nc) = (Inr (receipt, replayed), nc_db nc1)"
        and a: "principal_id a = ?pid" "idempotency_key a = ?key" "request_fingerprint a = ?fp"
        and ans: "answer = accepted_response ''apply'' receipt replayed" by blast
      show ?thesis
        using receipt_replays [OF acc assms(2-4), of ?fp] a ans by auto
    qed
  qed
  then show ?thesis
    using bd assms(5-7) by (auto simp: accept_apply_def begin_mutation_def Let_def)
qed

text \<open>An open network is applied and asked for again.\<close>

definition ex_env_ok :: call_env where
  "ex_env_ok = ex_env\<lparr>env_prepare := (\<lambda>c. Inr (JObj []))\<rparr>"

definition ex_open_request :: jobject where
  "ex_open_request = [(''schema'', JStr control_request_schema), (''operation'', JStr ''apply''),
     (''principal_id'', JStr ''admin''), (''idempotency_key'', JStr ''k1''),
     (''body'', JObj [(''schema'', JStr ''ylx.network-apply-request.v1''),
        (''desired'', JObj [(''mode'', JStr ''hotspot''), (''wifi_client'', JNull), (''ethernet'', JNull)])])]"

lemma ex_open_normalises:
  "desired_and_config [(''mode'', JStr ''hotspot''), (''wifi_client'', JNull), (''ethernet'', JNull)] None =
     Inr (ex_desired, None)" "pending_input ex_desired = ex_desired"
  by (simp_all add: desired_and_config_def text_of_def jitem_def Let_def ex_desired_def pending_input_def)

definition ex_acceptance :: accept_request where
  "ex_acceptance = apply_acceptance ex_env_ok ''admin'' ''k1'' (replicate 64 (CHR ''a'')) True None ex_desired"

lemma ex_acceptance_ok: "accept_input_bad ex_acceptance = Inr False"
proof -
  have k: "casefold ''kind'' \<notin> set forbidden_persisted_keys"
    by (subst casefold_plain) (simp_all add: plain_key_def is_upper_def forbidden_persisted_keys_def)
  have "\<not> contains_forbidden_key (JObj (apply_work None ex_desired))"
    using ex_desired_clean k by (simp add: apply_work_def key_not_forbidden del: casefold.simps)
  then show ?thesis
    using ex_desired_valid ex_uuids
    by (simp add: accept_input_ok ex_acceptance_def apply_acceptance_def ex_open_normalises ex_env_ok_def ex_env_def
        hex_n_def is_hex_def is_digit_def list_all_iff del: contains_forbidden_key.simps)
qed

lemma ex_acceptance_ready:
  "flags_consistent ex_acceptance st" "\<not> contains_forbidden_key (JObj (desired ex_acceptance))"
  using ex_desired_clean
  by (simp_all add: flags_consistent_def ex_acceptance_def apply_acceptance_def ex_open_normalises
      del: contains_forbidden_key.simps)

lemma ex_apply:
  "\<exists>receipt nc1. accept_apply ex_env_ok ex_open_request ex_controller =
     (Inr (accepted_response ''apply'' receipt False), nc1) \<and> \<not> nc_closed nc1"
proof -
  obtain db1 receipt where acc:
    "accept_transaction ex_sha ex_acceptance Committed ''t'' ex_database = (Inr (receipt, False), db1)"
    using accept_commits [OF ex_load ex_window ex_acceptance_ok ex_acceptance_ready ex_scope ex_receipts, of "''t''"]
    by blast
  show ?thesis
    using acc ex_no_receipt ex_load ex_window ex_open_normalises
    by (simp add: accept_apply_def begin_mutation_def new_apply_def ex_open_request_def ex_controller_def
        ex_env_ok_def ex_env_def Let_def text_of_def jitem_def protected_wifi_def eq_str_def
        finish_apply_def request_fingerprint_of_def ex_acceptance_def commit_ref_def leave_reservation_def
        schedule_def enqueue_def) blast
qed

theorem apply_is_idempotent_witness:
  "\<exists>receipt nc1. accept_apply ex_env_ok ex_open_request ex_controller =
       (Inr (accepted_response ''apply'' receipt False), nc1) \<and>
     accept_apply ex_env ex_open_request nc1 = (Inr (accepted_response ''apply'' (canon receipt) True), nc1)"
proof -
  obtain receipt nc1 where a: "accept_apply ex_env_ok ex_open_request ex_controller =
      (Inr (accepted_response ''apply'' receipt False), nc1)" "\<not> nc_closed nc1"
    using ex_apply by blast
  have db: "canonical_db (nc_db ex_controller)" "load_locked (nc_db ex_controller) = Inr (canon_obj (initial_state ex_desired ex_uuid4))"
    using ex_canonical ex_load by (simp_all add: ex_controller_def)
  show ?thesis
    using apply_is_idempotent [OF a(1) db net_run.stay a(2), of ex_env] a(1)
    by (auto simp: ex_env_ok_def ex_env_def accepted_response_def)
qed

end
