(* ===== verification/RecordingButton.thy ===== *)
theory RecordingButton
  imports ClockSync
begin

text \<open>
  \<open>recording_button.py\<close> and \<open>recording_indicator.py\<close>: the physical button that starts and stops a
  recording, and the status LED.  A time is a value of a linear order with the code's binary64
  subtraction as the parameter \<open>sub\<close>; \<open>float("-inf")\<close> is \<open>None\<close>.  The device API is a parameter:
  what it answers to a path and a body.
\<close>

section \<open>Configuration\<close>

definition gpio_pins :: "int list" where
  "gpio_pins = [3, 5, 7, 8, 10, 11, 12, 13, 15, 16, 18, 19, 21, 22, 23, 24, 26, 27, 28, 29, 31, 32, 33,
     35, 36, 37, 38, 40]"

record button_config =
  enabled :: json
  physical_pin :: json
  active_low :: json
  debounce_ms :: json
  cooldown_ms :: json
  poll_ms :: json
  request_timeout_ms :: json
  status_led :: json
  status_led_inverted :: json

definition default_config :: button_config where
  "default_config = \<lparr>enabled = JBool True, physical_pin = JInt 37, active_low = JBool False,
     debounce_ms = JInt 80, cooldown_ms = JInt 1000, poll_ms = JInt 20, request_timeout_ms = JInt 5000,
     status_led = JStr ''ACT'', status_led_inverted = JBool False\<rparr>"

definition led_name :: "string \<Rightarrow> bool" where
  "led_name s \<longleftrightarrow> 1 \<le> length s \<and> length s \<le> 64 \<and>
     list_all (\<lambda>c. is_alnum c \<or> c \<in> {CHR ''_'', CHR '':'', CHR ''-''}) s"

definition int_of :: "json \<Rightarrow> int" where
  "int_of v = (case v of JInt i \<Rightarrow> i | _ \<Rightarrow> 0)"

text \<open>\<open>__post_init__\<close>: the checks in order; all of them raise \<open>ValueError\<close>.\<close>

definition check_config :: "button_config \<Rightarrow> button_config res" where
  "check_config c =
     guardE (\<not> is_bool (enabled c) \<or> \<not> is_bool (active_low c)) ValueError
     (guardE (\<not> is_bool (status_led_inverted c)) ValueError
     (guardE (\<not> int_in (physical_pin c) (\<lambda>p. p \<in> set gpio_pins)) ValueError
     (guardE (status_led c \<noteq> JNull \<and> \<not> str_in (status_led c) led_name) ValueError
     (guardE (\<not> (int_in (debounce_ms c) (\<lambda>v. 20 \<le> v \<and> v \<le> 1000) \<and>
                  int_in (cooldown_ms c) (\<lambda>v. 100 \<le> v \<and> v \<le> 10000) \<and>
                  int_in (poll_ms c) (\<lambda>v. 5 \<le> v \<and> v \<le> 100) \<and>
                  int_in (request_timeout_ms c) (\<lambda>v. 100 \<le> v \<and> v \<le> 10000))) ValueError
     (guardE (int_of (poll_ms c) > int_of (debounce_ms c) \<or> int_of (cooldown_ms c) < int_of (debounce_ms c)) ValueError
       (Inr c))))))"

text \<open>\<open>load_button_config\<close>: the fields present in the document override the defaults; \<open>None\<close> is a
  document that is not JSON.\<close>

definition config_fields :: "string list" where
  "config_fields = [''enabled'', ''physical_pin'', ''active_low'', ''debounce_ms'', ''cooldown_ms'', ''poll_ms'',
     ''request_timeout_ms'', ''status_led'', ''status_led_inverted'']"

definition field_or :: "jobject \<Rightarrow> string \<Rightarrow> json \<Rightarrow> json" where
  "field_or d k v = (case map_of d k of Some x \<Rightarrow> x | None \<Rightarrow> v)"

definition load_button_config :: "nat \<Rightarrow> json option \<Rightarrow> button_config res" where
  "load_button_config octets parsed =
     guardE (8192 < octets) ValueError
      (case parsed of
         Some (JObj d) \<Rightarrow>
           guardE (\<not> set (map fst d) \<subseteq> set config_fields) ValueError
             (check_config \<lparr>enabled = field_or d ''enabled'' (enabled default_config),
                physical_pin = field_or d ''physical_pin'' (physical_pin default_config),
                active_low = field_or d ''active_low'' (active_low default_config),
                debounce_ms = field_or d ''debounce_ms'' (debounce_ms default_config),
                cooldown_ms = field_or d ''cooldown_ms'' (cooldown_ms default_config),
                poll_ms = field_or d ''poll_ms'' (poll_ms default_config),
                request_timeout_ms = field_or d ''request_timeout_ms'' (request_timeout_ms default_config),
                status_led = field_or d ''status_led'' (status_led default_config),
                status_led_inverted = field_or d ''status_led_inverted'' (status_led_inverted default_config)\<rparr>)
       | _ \<Rightarrow> Inl ValueError)"

section \<open>Debouncing\<close>

record 't debounced =
  candidate :: "bool option"
  candidate_since :: 't
  armed :: bool
  last_press :: "'t option"

definition disarm :: "'t \<Rightarrow> 't debounced \<Rightarrow> 't debounced" where
  "disarm zero b = b\<lparr>candidate := None, candidate_since := zero, armed := False\<rparr>"

definition new_button :: "'t \<Rightarrow> 't debounced" where
  "new_button zero = \<lparr>candidate = None, candidate_since = zero, armed = False, last_press = None\<rparr>"

definition update ::
  "('t \<Rightarrow> 't \<Rightarrow> 't::linorder) \<Rightarrow> 't \<Rightarrow> 't \<Rightarrow> bool \<Rightarrow> 't \<Rightarrow> 't debounced \<Rightarrow> bool \<times> 't debounced" where
  "update sub debounce cooldown pressed now b =
     (if Some pressed \<noteq> candidate b then (False, b\<lparr>candidate := Some pressed, candidate_since := now\<rparr>)
      else if sub now (candidate_since b) < debounce then (False, b)
      else if \<not> pressed then (False, b\<lparr>armed := True\<rparr>)
      else if armed b then
        (let b1 = b\<lparr>armed := False\<rparr> in
         if (case last_press b of None \<Rightarrow> True | Some t \<Rightarrow> cooldown \<le> sub now t)
         then (True, b1\<lparr>last_press := Some now\<rparr>) else (False, b1))
      else (False, b))"

section \<open>The device API client\<close>

definition button_error :: pyexc where
  "button_error = AppError ''ButtonError'' '''' False"

type_synonym api = "string \<Rightarrow> jobject option \<Rightarrow> jobject option res"

definition capture_snapshot :: "api \<Rightarrow> jobject res" where
  "capture_snapshot api =
     bindE (api ''/capture/status'' None) (\<lambda>status.
       (case status of
          None \<Rightarrow> Inl button_error
        | Some d \<Rightarrow>
            guardE (\<not> eq_str (jget d ''schema'') ''ylx.capture-status.v4'') button_error
             (case jget d ''snapshot'' of
                JObj s \<Rightarrow> guardE (\<not> eq_str (jget s ''schema'') ''ylx.capture-snapshot-event.v4'') button_error (Inr s)
              | _ \<Rightarrow> Inl button_error)))"

text \<open>The commands one press sends, and what the press returns.\<close>

definition stop_body :: jobject where
  "stop_body = [(''schema'', JStr ''ylx.capture-stop.v2''), (''reason'', JStr ''user'')]"

definition start_body :: jobject where
  "start_body = [(''schema'', JStr ''ylx.capture-start.v2''), (''mode'', JStr ''production''),
     (''take'', JObj [(''kind'', JStr ''new'')])]"

definition handle_press :: "api \<Rightarrow> string option res \<times> (string \<times> jobject) list" where
  "handle_press api =
     (case capture_snapshot api of
        Inl e \<Rightarrow> (Inl e, [])
      | Inr snapshot \<Rightarrow>
          let state = jget snapshot ''device_state'' in
          if eq_str state ''recording'' then
            (bindE (api ''/capture/stop'' (Some stop_body)) (\<lambda>_. Inr (Some ''stop'')), [(''/capture/stop'', stop_body)])
          else if \<not> eq_str state ''idle'' then (Inr None, [])
          else
           (case api ''/clock'' None of
              Inl e \<Rightarrow> (Inl e, [])
            | Inr clock \<Rightarrow>
                (case clock of
                   None \<Rightarrow> (Inl button_error, [])
                 | Some d \<Rightarrow>
                     if \<not> valid_clock_response (JObj d) \<or> \<not> in_strs (jget d ''source'') [''ntp'', ''client'']
                     then (Inl button_error, [])
                     else (bindE (api ''/capture/start'' (Some start_body)) (\<lambda>_. Inr (Some ''start'')),
                           [(''/capture/start'', start_body)]))))"

section \<open>The polling loop\<close>

text \<open>One pass per sample of the pin: its level and the monotonic time.  A press sends its commands; a
  press that raises one of the caught exceptions is logged; the button is disarmed in every case.
  The loop ends when the samples do, when a level is neither 0 nor 1, or with an exception that is
  not caught.  The log of a run lists the times of the accepted presses with their commands.\<close>

definition caught :: "pyexc \<Rightarrow> bool" where
  "caught e \<longleftrightarrow> e \<in> {OSError, TimeoutError, ValueError, button_error}"

type_synonym 't press = "'t \<times> (string \<times> jobject) list"

fun run_button ::
  "('t \<Rightarrow> 't \<Rightarrow> 't::linorder) \<Rightarrow> 't \<Rightarrow> 't \<Rightarrow> 't \<Rightarrow> bool \<Rightarrow> bool \<Rightarrow> (int \<times> 't \<times> api) list \<Rightarrow> 't debounced
     \<Rightarrow> unit res \<times> 't press list" where
  "run_button sub zero debounce cooldown low monitor [] b = (Inr (), [])"
| "run_button sub zero debounce cooldown low monitor ((level, now, api) # samples) b =
     (if level \<notin> {0, 1} then (Inl button_error, [])
      else if monitor then run_button sub zero debounce cooldown low monitor samples b
      else
       (case update sub debounce cooldown ((level = 1) \<noteq> low) now b of
          (False, b1) \<Rightarrow> run_button sub zero debounce cooldown low monitor samples b1
        | (True, b1) \<Rightarrow>
            (case handle_press api of
               (outcome, commands) \<Rightarrow>
                 if (case outcome of Inl e \<Rightarrow> \<not> caught e | Inr _ \<Rightarrow> False)
                 then (Inl (projl outcome), [(now, commands)])
                 else (case run_button sub zero debounce cooldown low monitor samples (disarm zero b1) of
                         (res, later) \<Rightarrow> (res, (now, commands) # later)))))"

section \<open>\<open>recording_indicator.py\<close>\<close>

definition indicator_pattern :: "jobject \<Rightarrow> string" where
  "indicator_pattern snapshot =
     (let state = jget snapshot ''device_state'' in
      if eq_str state ''recording'' then ''recording''
      else if eq_str state ''finalizing'' then ''saving''
      else if eq_str state ''idle'' \<and> jget snapshot ''retained_unsuccessful'' = JNull then ''idle''
      else ''error'')"

text \<open>The LED object and the log of what it wrote to its sysfs files.\<close>

record status_led_state =
  inverted :: bool
  maximum :: int
  previous_brightness :: int
  previous_trigger :: string
  previous_delays :: "(string \<times> string) list"
  shown :: "string option"
  owned :: bool

text \<open>\<open>__init__\<close> on the texts of the files: the active trigger is the bracketed word.\<close>

definition open_led ::
  "bool \<Rightarrow> int \<Rightarrow> int \<Rightarrow> string list \<Rightarrow> (string \<Rightarrow> string) \<Rightarrow> status_led_state res" where
  "open_led polarity max_brightness brightness triggers delay_text =
     (let active = map (\<lambda>v. butlast (tl v)) (filter (\<lambda>v. v \<noteq> [] \<and> hd v = CHR ''['') triggers);
          supported = map (\<lambda>v. rev (dropWhile (\<lambda>c. c \<in> {CHR ''['', CHR '']''})
            (rev (dropWhile (\<lambda>c. c \<in> {CHR ''['', CHR '']''}) v)))) triggers in
      guardE (length active \<noteq> 1 \<or> max_brightness < 1 \<or> ''timer'' \<notin> set supported) ValueError
        (Inr \<lparr>inverted = polarity, maximum = max_brightness, previous_brightness = brightness,
              previous_trigger = hd active,
              previous_delays = (if hd active = ''timer''
                then [(''delay_on'', delay_text ''delay_on''), (''delay_off'', delay_text ''delay_off'')] else []),
              shown = None, owned = False\<rparr>))"

definition led_show :: "string \<Rightarrow> status_led_state \<Rightarrow> (status_led_state \<times> (string \<times> string) list) res" where
  "led_show pattern led =
     guardE (pattern \<notin> {''idle'', ''recording'', ''saving'', ''error''}) ValueError
      (Inr (if Some pattern = shown led then (led, [])
       else
        (let led1 = led\<lparr>owned := True, shown := Some pattern\<rparr>;
             first = (''trigger'', ''none'') in
         if pattern \<in> {''saving'', ''error''} then
           (let delay = int_text (if pattern = ''saving'' then 500 else 125) in
            (led1, [first, (''brightness'', int_text (maximum led)), (''trigger'', ''timer''),
                    (''delay_on'', delay), (''delay_off'', delay)]))
         else
           (led1, [first, (''brightness'',
              int_text (if (pattern = ''recording'') \<noteq> inverted led then maximum led else 0))]))))"

definition led_restore :: "status_led_state \<Rightarrow> status_led_state \<times> (string \<times> string) list" where
  "led_restore led =
     (if \<not> owned led then (led, [])
      else (led\<lparr>owned := False\<rparr>,
            [(''trigger'', ''none''), (''brightness'', int_text (previous_brightness led)),
             (''trigger'', previous_trigger led)] @ previous_delays led))"

text \<open>\<open>run_indicator\<close> once the LED is open: one answer of the device per poll.  An exception of the
  client shows \<open>error\<close>; the LED is given back at the end.\<close>

definition polled_pattern :: "jobject res \<Rightarrow> string" where
  "polled_pattern answer = (case answer of Inr s \<Rightarrow> indicator_pattern s | Inl e \<Rightarrow> ''error'')"

fun run_indicator :: "jobject res list \<Rightarrow> status_led_state \<Rightarrow> (string \<times> string) list" where
  "run_indicator [] led = snd (led_restore led)"
| "run_indicator (answer # answers) led =
     (case led_show (polled_pattern answer) led of
        Inl e \<Rightarrow> snd (led_restore led)
      | Inr (led1, writes) \<Rightarrow> writes @ run_indicator answers led1)"

section \<open>Presses are debounced and rate-limited\<close>

lemma update_cases:
  assumes "update sub d c p now b = (accepted, b1)"
  shows "if accepted then p \<and> armed b \<and> candidate b = Some True \<and> \<not> sub now (candidate_since b) < d \<and>
           last_press b1 = Some now \<and> (\<forall>t. last_press b = Some t \<longrightarrow> c \<le> sub now t)
         else last_press b1 = last_press b"
  using assms by (auto simp: update_def Let_def split: if_splits option.splits)

text \<open>Consecutive times of a list, each at least \<open>c\<close> after the one before.\<close>

fun spaced :: "('t \<Rightarrow> 't \<Rightarrow> 't::linorder) \<Rightarrow> 't \<Rightarrow> 't list \<Rightarrow> bool" where
  "spaced sub c (x # y # zs) = (c \<le> sub y x \<and> spaced sub c (y # zs))"
| "spaced sub c _ = True"

definition after_last :: "'t debounced \<Rightarrow> 't list \<Rightarrow> 't list" where
  "after_last b ts = (case last_press b of None \<Rightarrow> ts | Some t \<Rightarrow> t # ts)"

lemma spaced_run:
  "run_button sub zero d c low mon samples b = (res, presses) \<Longrightarrow> spaced sub c (after_last b (map fst presses))"
proof (induction samples arbitrary: b presses res)
  case Nil
  then show ?case by (simp add: after_last_def split: option.splits)
next
  case (Cons x samples)
  obtain level now api where x: "x = (level, now, api)" by (cases x)
  obtain ok b1 where u: "update sub d c ((level = 1) \<noteq> low) now b = (ok, b1)" by fastforce
  note step = update_cases [OF u]
  show ?case
  proof (cases "level \<notin> {0, 1} \<or> mon \<or> \<not> ok")
    case True
    then consider "presses = []" | b' where "run_button sub zero d c low mon samples b' = (res, presses)"
        "last_press b' = last_press b"
      using Cons.prems x u step by (auto split: if_splits)
    then show ?thesis
    proof cases
      case (2 b')
      then show ?thesis using Cons.IH by (metis after_last_def)
    qed (simp add: after_last_def split: option.splits)
  next
    case False
    obtain outcome commands where h: "handle_press api = (outcome, commands)" by fastforce
    obtain r later where rest: "run_button sub zero d c low mon samples (disarm zero b1) = (r, later)" by fastforce
    from Cons.IH [OF rest] have "spaced sub c (now # map fst later)"
      using False step by (simp add: after_last_def disarm_def)
    with Cons.prems x u h rest False step show ?thesis
      by (auto simp: after_last_def split: if_splits option.splits)
  qed
qed

text \<open>Whatever the pin does and however the commands end, two accepted presses of a run are
  consecutive in time at least the cooldown apart.\<close>

theorem presses_respect_cooldown:
  assumes "run_button sub zero d c low mon samples (new_button zero) = (res, presses)"
  shows "spaced sub c (map fst presses)"
  using spaced_run [OF assms] by (simp add: after_last_def new_button_def)

text \<open>A stretch of samples of one level that lasts the debounce time.\<close>

definition stretch :: "('t \<Rightarrow> 't \<Rightarrow> 't::linorder) \<Rightarrow> 't \<Rightarrow> bool \<Rightarrow> (bool \<times> 't) list \<Rightarrow> bool" where
  "stretch sub d p zs \<longleftrightarrow> zs \<noteq> [] \<and> (\<forall>z \<in> set zs. fst z = p) \<and> \<not> sub (snd (last zs)) (snd (hd zs)) < d"

text \<open>The state of the debouncer after a list of samples, whatever it answered.\<close>

fun settle :: "('t \<Rightarrow> 't \<Rightarrow> 't::linorder) \<Rightarrow> 't \<Rightarrow> 't \<Rightarrow> (bool \<times> 't) list \<Rightarrow> 't debounced \<Rightarrow> 't debounced" where
  "settle sub d c [] b = b"
| "settle sub d c ((p, t) # h) b = settle sub d c h (snd (update sub d c p t b))"

lemma settle_snoc: "settle sub d c (h @ [(p, t)]) b = snd (update sub d c p t (settle sub d c h b))"
  by (induction h arbitrary: b) auto

definition remembers :: "('t \<Rightarrow> 't \<Rightarrow> 't::linorder) \<Rightarrow> 't \<Rightarrow> (bool \<times> 't) list \<Rightarrow> 't debounced \<Rightarrow> bool" where
  "remembers sub d h b \<longleftrightarrow>
     (\<forall>p. candidate b = Some p \<longrightarrow> (\<exists>xs ys. h = xs @ ys \<and> ys \<noteq> [] \<and> (\<forall>y \<in> set ys. fst y = p) \<and>
        snd (hd ys) = candidate_since b)) \<and>
     (armed b \<longrightarrow> (\<exists>xs rs ys. h = xs @ rs @ ys \<and> stretch sub d False rs))"

lemma remembers_update:
  assumes "remembers sub d h b"
  shows "remembers sub d (h @ [(p, t)]) (snd (update sub d c p t b))"
proof -
  let ?b = "snd (update sub d c p t b)"
  have cand: "candidate ?b = Some p"
    by (auto simp: update_def Let_def split: option.splits)
  have since: "candidate_since ?b = (if candidate b = Some p then candidate_since b else t)"
    by (auto simp: update_def Let_def split: option.splits)
  have one: "\<exists>xs ys. h @ [(p, t)] = xs @ ys \<and> ys \<noteq> [] \<and> (\<forall>y \<in> set ys. fst y = p) \<and> snd (hd ys) = candidate_since ?b"
  proof (cases "candidate b = Some p")
    case True
    then obtain xs ys where "h = xs @ ys" "ys \<noteq> []" "\<forall>y \<in> set ys. fst y = p" "snd (hd ys) = candidate_since b"
      using assms by (auto simp: remembers_def)
    then show ?thesis using True since by (intro exI [of _ xs] exI [of _ "ys @ [(p, t)]"]) auto
  next
    case False
    then show ?thesis using since by (intro exI [of _ h] exI [of _ "[(p, t)]"]) auto
  qed
  have "\<exists>xs rs ys. h @ [(p, t)] = xs @ rs @ ys \<and> stretch sub d False rs" if a: "armed ?b"
  proof (cases "armed b")
    case True
    then obtain xs rs ys where "h = xs @ rs @ ys" "stretch sub d False rs" using assms by (auto simp: remembers_def)
    then show ?thesis by (intro exI [of _ xs] exI [of _ rs] exI [of _ "ys @ [(p, t)]"]) simp
  next
    case False
    then have p: "\<not> p" "candidate b = Some p" "\<not> sub t (candidate_since b) < d"
      using a by (auto simp: update_def Let_def split: if_splits option.splits)
    then obtain xs ys where ys: "h = xs @ ys" "ys \<noteq> []" "\<forall>y \<in> set ys. fst y = p" "snd (hd ys) = candidate_since b"
      using assms by (auto simp: remembers_def)
    then have "stretch sub d False (ys @ [(p, t)])" using p by (auto simp: stretch_def)
    then show ?thesis using ys by (intro exI [of _ xs] exI [of _ "ys @ [(p, t)]"] exI [of _ "[]"]) simp
  qed
  then show ?thesis using one cand by (simp add: remembers_def)
qed

lemma remembers_settle: "remembers sub d h (settle sub d c h (disarm zero b))"
proof (induction h rule: rev_induct)
  case Nil
  then show ?case by (simp add: remembers_def disarm_def)
next
  case (snoc x h)
  then show ?case using remembers_update [OF snoc, of "fst x" "snd x" c] by (cases x) (simp add: settle_snoc)
qed

text \<open>A press is accepted only after the button, since it was last disarmed, was released for the
  whole debounce time and then held for the whole debounce time: a stuck or bouncing contact, and
  anything pressed during a slow request, never starts or stops a recording.\<close>

theorem press_needs_stable_release:
  assumes "update sub d c p now (settle sub d c h (disarm zero b)) = (True, b')"
  shows "p \<and> (\<exists>xs rs ys. h = xs @ rs @ ys \<and> stretch sub d False rs) \<and>
         (\<exists>xs ps. h @ [(True, now)] = xs @ ps \<and> stretch sub d True ps)"
proof -
  let ?s = "settle sub d c h (disarm zero b)"
  note u = update_cases [OF assms]
  have r: "remembers sub d h ?s" by (rule remembers_settle)
  obtain xs ys where "h = xs @ ys" "ys \<noteq> []" "\<forall>y \<in> set ys. fst y = True" "snd (hd ys) = candidate_since ?s"
    using r u unfolding remembers_def by fastforce
  then have "h @ [(True, now)] = xs @ (ys @ [(True, now)])" "stretch sub d True (ys @ [(True, now)])"
    using u by (auto simp: stretch_def)
  then show ?thesis using r u unfolding remembers_def by auto
qed

section \<open>What a press sends\<close>

text \<open>One press sends at most one command.  It sends the stop only while the device reports
  recording, the start only while it reports idle and its clock answer is valid and rests on NTP or
  on a client, and nothing in any other state, on any invalid answer or on any failure.\<close>

theorem press_commands:
  "snd (handle_press api) = [] \<or>
   (\<exists>snapshot. capture_snapshot api = Inr snapshot \<and>
     (snd (handle_press api) = [(''/capture/stop'', stop_body)] \<and> jget snapshot ''device_state'' = JStr ''recording'' \<or>
      snd (handle_press api) = [(''/capture/start'', start_body)] \<and> jget snapshot ''device_state'' = JStr ''idle'' \<and>
        (\<exists>clock. api ''/clock'' None = Inr (Some clock) \<and> valid_clock_response (JObj clock) \<and>
           jget clock ''challenge'' = JNull)))"
proof (cases "capture_snapshot api")
  case (Inr snapshot)
  have v: "valid_clock_response (JObj d) \<Longrightarrow> in_strs (jget d ''source'') [''ntp'', ''client''] \<Longrightarrow> jget d ''challenge'' = JNull" for d
    by (auto simp: valid_clock_response_def in_strs_def eq_str_def)
  show ?thesis
    using Inr v by (auto simp: handle_press_def Let_def eq_str_def split: sum.splits option.splits)
qed (simp add: handle_press_def)

section \<open>Concrete samples\<close>

definition ex_api :: api where
  "ex_api path b = Inl OSError"

definition ex_samples :: "(int \<times> int \<times> api) list" where
  "ex_samples = [(0, 0, ex_api), (0, 80, ex_api), (1, 100, ex_api), (1, 180, ex_api), (0, 200, ex_api),
     (0, 280, ex_api), (1, 300, ex_api), (1, 400, ex_api)]"

lemma ex_press: "handle_press ex_api = (Inl OSError, [])"
  by (simp add: handle_press_def capture_snapshot_def ex_api_def)

lemma ex_presses: "run_button (-) 0 80 1000 False False ex_samples (new_button 0) = (Inr (), [(180, [])])"
  by (simp add: ex_samples_def update_def new_button_def disarm_def Let_def ex_press caught_def)

theorem presses_respect_cooldown_witness:
  "spaced (-) 1000 (map fst [(180 :: int, [] :: (string \<times> jobject) list)])"
  by (rule presses_respect_cooldown [OF ex_presses])

definition ex_history :: "(bool \<times> int) list" where
  "ex_history = [(False, 0), (False, 80), (True, 100)]"

lemma ex_accepted: "\<exists>b'. update (-) 80 1000 True 180 (settle (-) 80 1000 ex_history (disarm 0 (new_button 0))) = (True, b')"
  by (simp add: ex_history_def update_def new_button_def disarm_def Let_def)

theorem press_needs_stable_release_witness:
  "\<exists>xs rs ys. ex_history = xs @ rs @ ys \<and> stretch (-) 80 False rs"
proof -
  obtain b' where "update (-) 80 1000 True 180 (settle (-) 80 1000 ex_history (disarm 0 (new_button 0))) = (True, b')"
    using ex_accepted by blast
  from press_needs_stable_release [OF this] show ?thesis by blast
qed

end
