(* ===== verification/AudioJournal.thy ===== *)
theory AudioJournal
  imports PyJson "HOL-Library.Sublist"
begin

text \<open>
  \<open>recording/audio_journal.py\<close>: reading the prefix of the audio journal that an atomic checkpoint
  header names.  A file is the bytes it had when it was read, with the identities and sizes the
  three \<open>stat\<close> calls saw; \<open>parse\<close> is \<open>json.loads\<close> on one row and \<open>hash\<close> the hexadecimal SHA-256 of
  the bytes digested so far, so that a copy of the digest is a copy of those bytes.  Every check
  that fails raises \<open>ValueError\<close>.
\<close>

section \<open>Scalars\<close>

abbreviation "journal_schema \<equiv> ''openaria.audio-checkpoint.v3''"

definition max_journal_bytes :: nat where "max_journal_bytes = 268435456"
definition max_row_bytes :: nat where "max_row_bytes = 16777216"

definition journal_int :: "bool \<Rightarrow> json \<Rightarrow> int res" where
  "journal_int positive v =
     (case v of
        JInt i \<Rightarrow> guardE (i < (if positive then 1 else 0) \<or> 2 ^ 64 - 1 < i) ValueError (Inr i)
      | _ \<Rightarrow> Inl ValueError)"

fun journal_ints :: "json list \<Rightarrow> int list res" where
  "journal_ints [] = Inr []"
| "journal_ints (v # vs) = bindE (journal_int False v) (\<lambda>i. bindE (journal_ints vs) (\<lambda>is. Inr (i # is)))"

definition anchor_of :: "json \<Rightarrow> int list res" where
  "anchor_of v =
     (case v of JList xs \<Rightarrow> guardE (length xs \<noteq> 5) ValueError (journal_ints xs) | _ \<Rightarrow> Inl ValueError)"

text \<open>\<open>_reobserved_point\<close>; \<open>//\<close> is the floored division.\<close>

definition bridge_bad :: "int list \<Rightarrow> bool" where
  "bridge_bad p \<longleftrightarrow>
     (case p of
        [position, raw, mono0, before, after] \<Rightarrow>
          \<not> (0 < position \<and> 0 < raw \<and> 0 < mono0 \<and> 0 < before \<and> 0 < after) \<or>
          \<not> (raw \<le> before \<and> before \<le> after) \<or> after - before > 1000000 \<or> after - raw > 20000000 \<or>
          raw + mono0 - (before + after) div 2 \<le> 0
      | _ \<Rightarrow> True)"

definition reobserved_point :: "int list \<Rightarrow> int list \<Rightarrow> unit res" where
  "reobserved_point f l =
     guardE (bridge_bad f \<or> bridge_bad l) ValueError
     (guardE (l ! 2 \<le> f ! 2 \<or> l ! 3 \<le> f ! 4) ValueError
      (let span = (l ! 3 + l ! 4) - (f ! 3 + f ! 4);
           uncertainty = (l ! 4 - l ! 3) + (f ! 4 - f ! 3) in
       guardE (\<bar>2 * (l ! 2 - f ! 2) - span\<bar> * 100 > span + uncertainty * 100) ValueError (Inr ())))"

section \<open>The reader\<close>

record journal_reader =
  offset :: nat
  digested :: string
  sequence :: int
  anchor_count :: int
  segment_count :: int
  sample_count :: int
  last_anchor :: "int list option"
  file_id :: "(int \<times> int) option"

definition new_reader :: journal_reader where
  "new_reader = \<lparr>offset = 0, digested = [], sequence = 0, anchor_count = 0, segment_count = 0,
     sample_count = 0, last_anchor = None, file_id = None\<rparr>"

record journal_file =
  content :: string
  opened :: "(int \<times> int) \<times> nat"
  closing :: "(int \<times> int) \<times> nat"
  named :: "(int \<times> int) \<times> nat"
  symlinked :: bool

text \<open>The working copy of one \<open>read\<close>: the counters and what the rows listed.\<close>

record row_state =
  rs_sequence :: int
  rs_anchors :: int
  rs_segments :: int
  rs_samples :: int
  rs_previous :: "int list option"
  rs_points :: "int list list"
  rs_listed :: "json list"

section \<open>Rows\<close>

definition point_step :: "json \<Rightarrow> row_state \<Rightarrow> row_state res" where
  "point_step v s =
     bindE (anchor_of v) (\<lambda>p.
       guardE (case rs_previous s of None \<Rightarrow> False | Some q \<Rightarrow> p ! 0 \<le> q ! 0 \<or> p ! 1 \<le> q ! 1) ValueError
         (Inr (s\<lparr>rs_previous := Some p, rs_points := rs_points s @ [p], rs_anchors := rs_anchors s + 1\<rparr>)))"

definition pad5 :: "int \<Rightarrow> string" where
  "pad5 i = (let d = int_text i in replicate (5 - length d) (CHR ''0'') @ d)"

definition segment_path :: "int \<Rightarrow> string" where
  "segment_path index = ''audio/audio_'' @ pad5 index @ ''.wav''"

definition segment_step :: "json \<Rightarrow> row_state \<Rightarrow> row_state res" where
  "segment_step v s =
     (case v of
        JObj d \<Rightarrow>
          guardE (\<not> has_keys d [''index'', ''path'', ''start_sample'', ''end_sample'']) ValueError
          (bindE (journal_int False (jget d ''index'')) (\<lambda>index.
           bindE (journal_int False (jget d ''start_sample'')) (\<lambda>start.
           bindE (journal_int False (jget d ''end_sample'')) (\<lambda>stop.
             guardE (index \<noteq> rs_segments s \<or> start \<noteq> rs_samples s \<or> stop \<le> start \<or>
                     \<not> eq_str (jget d ''path'') (segment_path index)) ValueError
               (Inr (s\<lparr>rs_listed := rs_listed s @ [JObj d], rs_segments := rs_segments s + 1,
                       rs_samples := stop\<rparr>))))))
      | _ \<Rightarrow> Inl ValueError)"

definition row_step :: "json \<Rightarrow> row_state \<Rightarrow> row_state res" where
  "row_step row s =
     (case row of
        JObj d \<Rightarrow>
          guardE (\<not> has_keys d [''sequence'', ''anchors'', ''segments'']) ValueError
          (bindE (journal_int False (jget d ''sequence'')) (\<lambda>n.
             guardE (n \<noteq> rs_sequence s) ValueError
              (case (jget d ''anchors'', jget d ''segments'') of
                 (JList points, JList segs) \<Rightarrow>
                   bindE (foldE point_step points (s\<lparr>rs_sequence := rs_sequence s + 1\<rparr>)) (foldE segment_step segs)
               | _ \<Rightarrow> Inl ValueError)))
      | _ \<Rightarrow> Inl ValueError)"

text \<open>\<open>readline(limit)\<close>.\<close>

definition first_line :: "string \<Rightarrow> string" where
  "first_line bytes = (let w = takeWhile (\<lambda>c. c \<noteq> CHR 0x0A) bytes in
     if length w < length bytes then w @ [CHR 0x0A] else w)"

definition read_line :: "nat \<Rightarrow> string \<Rightarrow> string" where
  "read_line limit bytes = take limit (first_line bytes)"

definition bad_line :: "nat \<Rightarrow> string \<Rightarrow> bool" where
  "bad_line remaining raw \<longleftrightarrow> raw = [] \<or> last raw \<noteq> CHR 0x0A \<or> length raw > min remaining max_row_bytes"

text \<open>The \<open>while remaining\<close> loop.\<close>

function read_rows ::
  "(string \<Rightarrow> json option) \<Rightarrow> nat \<Rightarrow> string \<Rightarrow> row_state \<Rightarrow> row_state res" where
  "read_rows parse remaining bytes s =
     (if remaining = 0 then Inr s
      else
       (let raw = read_line (min remaining max_row_bytes + 1) bytes in
        if bad_line remaining raw then Inl ValueError
        else
         (case parse raw of
            None \<Rightarrow> Inl ValueError
          | Some row \<Rightarrow> bindE (row_step row s) (read_rows parse (remaining - length raw) (drop (length raw) bytes)))))"
  by pat_completeness auto
termination
  by (relation "measure (\<lambda>(p, remaining, b, s). remaining)") (auto simp: bad_line_def)

declare read_rows.simps [simp del]

section \<open>\<open>read\<close>\<close>

definition head_counters :: "string list" where
  "head_counters = [''journal_records'', ''anchor_count'', ''segment_count'', ''sample_count'',
     ''thread_started_monotonic_ns'', ''period_frames'', ''buffer_frames'', ''queue_capacity_frames'',
     ''queue_peak_frames'', ''max_write_ns'']"

definition start_rows :: "journal_reader \<Rightarrow> row_state" where
  "start_rows r = \<lparr>rs_sequence = sequence r, rs_anchors = anchor_count r, rs_segments = segment_count r,
     rs_samples = sample_count r, rs_previous = last_anchor r, rs_points = [], rs_listed = []\<rparr>"

text \<open>The last anchor of the header: the same point with a later host bracket, a new later point, or
  the last journalled one.\<close>

definition close_anchors :: "json \<Rightarrow> row_state \<Rightarrow> int list list res" where
  "close_anchors head_last s =
     (if head_last = JNull then Inr (rs_points s)
      else bindE (anchor_of head_last) (\<lambda>l.
        (case rs_previous s of
           None \<Rightarrow> Inr (rs_points s @ [l])
         | Some p \<Rightarrow>
             if l \<noteq> p \<and> take 2 l = take 2 p then bindE (reobserved_point p l) (\<lambda>_. Inr (rs_points s))
             else if l \<noteq> p then
               guardE (l ! 0 \<le> p ! 0 \<or> l ! 1 \<le> p ! 1) ValueError (Inr (rs_points s @ [l]))
             else Inr (rs_points s))))"

definition read_journal ::
  "(string \<Rightarrow> json option) \<Rightarrow> (string \<Rightarrow> string) \<Rightarrow> journal_file \<Rightarrow> jobject \<Rightarrow> journal_reader
     \<Rightarrow> (jobject \<times> journal_reader) res" where
  "read_journal parse hash file head r =
     guardE (\<not> eq_str (jget head ''schema'') journal_schema) ValueError
     (bindE (journal_int True (jget head ''journal_bytes'')) (\<lambda>e.
      (let stop = nat e in
       guardE (\<not> (offset r \<le> stop \<and> stop \<le> max_journal_bytes)) ValueError
       (guardE (\<not> str_in (jget head ''journal_sha256'') (hex_n 64)) ValueError
       (bindE (journal_ints (map (jget head) head_counters)) (\<lambda>_.
        guardE (symlinked file) ValueError
        (guardE (snd (opened file) < stop \<or> (file_id r \<noteq> None \<and> file_id r \<noteq> Some (fst (opened file)))) ValueError
        (bindE (read_rows parse (stop - offset r) (drop (offset r) (content file)) (start_rows r)) (\<lambda>s.
         (let digest = digested r @ take (stop - offset r) (drop (offset r) (content file)) in
          guardE (fst (opened file) \<noteq> fst (closing file) \<or> fst (closing file) \<noteq> fst (named file) \<or>
                  min (snd (closing file)) (snd (named file)) < stop) ValueError
          (guardE (jget head ''journal_sha256'' \<noteq> JStr (hash digest) \<or>
                   jget head ''journal_records'' \<noteq> JInt (rs_sequence s) \<or>
                   jget head ''anchor_count'' \<noteq> JInt (rs_anchors s) \<or>
                   jget head ''segment_count'' \<noteq> JInt (rs_segments s) \<or>
                   jget head ''sample_count'' \<noteq> JInt (rs_samples s)) ValueError
          (bindE (close_anchors (jget head ''last_anchor'') s) (\<lambda>points.
            Inr (jset ''segments'' (JList (rs_listed s))
                  (jset ''anchors'' (JList (map (\<lambda>p. JList (map JInt p)) points))
                    (jset ''schema'' (JStr ''openaria.audio-checkpoint.v2'') head)),
                 \<lparr>offset = stop, digested = digest, sequence = rs_sequence s, anchor_count = rs_anchors s,
                  segment_count = rs_segments s, sample_count = rs_samples s, last_anchor = rs_previous s,
                  file_id = Some (fst (opened file))\<rparr>))))))))))))))"

section \<open>Lines\<close>

abbreviation "newline \<equiv> CHR 0x0A"

lemma first_line_split:
  assumes "newline \<notin> set w"
  shows "first_line (w @ newline # rest) = w @ [newline]"
proof -
  have "takeWhile (\<lambda>c. c \<noteq> newline) (w @ newline # rest) = w"
    using assms by (subst takeWhile_append2) auto
  then show ?thesis by (simp add: first_line_def Let_def)
qed

lemma good_line:
  assumes "\<not> bad_line m (read_line (min m max_row_bytes + 1) b)"
  obtains w rest where "b = w @ newline # rest" "newline \<notin> set w"
    and "read_line (min m max_row_bytes + 1) b = w @ [newline]" "Suc (length w) \<le> min m max_row_bytes"
proof -
  let ?w = "takeWhile (\<lambda>c. c \<noteq> newline) b"
  let ?raw = "read_line (min m max_row_bytes + 1) b"
  have ok: "?raw \<noteq> []" "last ?raw = newline" "length ?raw \<le> min m max_row_bytes"
    using assms by (auto simp: bad_line_def)
  have raw: "?raw = first_line b" using ok(3) by (auto simp: read_line_def)
  have nw: "newline \<notin> set ?w" by (auto dest: set_takeWhileD)
  have "length ?w < length b"
  proof (rule ccontr)
    assume "\<not> length ?w < length b"
    then have "first_line b = ?w" by (simp add: first_line_def Let_def)
    then show False using ok(1,2) raw nw by (metis last_in_set)
  qed
  then have f: "first_line b = ?w @ [newline]" by (simp add: first_line_def Let_def)
  have d: "dropWhile (\<lambda>c. c \<noteq> newline) b \<noteq> []"
  proof
    assume "dropWhile (\<lambda>c. c \<noteq> newline) b = []"
    then have "?w = b" using takeWhile_dropWhile_id [of "\<lambda>c. c \<noteq> newline" b] by simp
    with \<open>length ?w < length b\<close> show False by simp
  qed
  then have "dropWhile (\<lambda>c. c \<noteq> newline) b = newline # tl (dropWhile (\<lambda>c. c \<noteq> newline) b)"
    using hd_dropWhile [OF d] by (cases "dropWhile (\<lambda>c. c \<noteq> newline) b") auto
  then have b: "b = ?w @ newline # tl (dropWhile (\<lambda>c. c \<noteq> newline) b)"
    using takeWhile_dropWhile_id [of "\<lambda>c. c \<noteq> newline" b] by metis
  have r: "?raw = ?w @ [newline]" using raw f by simp
  have "Suc (length ?w) \<le> min m max_row_bytes" using ok(3) r by simp
  then show ?thesis by (rule that [OF b nw r])
qed

lemma good_line_intro:
  assumes "newline \<notin> set w" and "Suc (length w) \<le> min m max_row_bytes"
  shows "read_line (min m max_row_bytes + 1) (w @ newline # rest) = w @ [newline]"
    and "\<not> bad_line m (w @ [newline])"
  using assms by (simp_all add: read_line_def first_line_split bad_line_def min_def split: if_splits)

text \<open>One committed row at the head of the bytes.\<close>

lemma read_rows_Inr:
  assumes "read_rows parse m b s = Inr t" and "m \<noteq> 0"
  obtains w rest row u where "b = w @ newline # rest" "newline \<notin> set w" "Suc (length w) \<le> min m max_row_bytes"
    and "parse (w @ [newline]) = Some row" "row_step row s = Inr u"
    and "read_rows parse (m - Suc (length w)) rest u = Inr t"
proof -
  let ?raw = "read_line (min m max_row_bytes + 1) b"
  have ok: "\<not> bad_line m ?raw" using assms by (subst (asm) read_rows.simps) (auto simp: Let_def split: if_splits)
  from good_line [OF this] obtain w rest where w: "b = w @ newline # rest" "newline \<notin> set w"
    "?raw = w @ [newline]" "Suc (length w) \<le> min m max_row_bytes" by blast
  show ?thesis
    using assms ok w that [OF w(1,2,4)]
    by (subst (asm) read_rows.simps) (auto simp: Let_def bindE_eq_Inr split: option.splits)
qed

lemma read_rows_line:
  assumes "newline \<notin> set w" and "Suc (length w) \<le> min m max_row_bytes"
    and "parse (w @ [newline]) = Some row" and "row_step row s = Inr u"
  shows "read_rows parse m (w @ newline # rest) s = read_rows parse (m - Suc (length w)) rest u"
  using assms good_line_intro (1) [OF assms(1,2), where rest = rest] good_line_intro (2) [OF assms(1,2)]
  by (subst read_rows.simps) (auto simp: Let_def)

text \<open>Reading a prefix and then the rest is reading the whole; bytes past the boundary do not matter.\<close>

lemma read_rows_append:
  "read_rows parse m b s = Inr t \<Longrightarrow> read_rows parse (m + n) b s = read_rows parse n (drop m b) t"
proof (induction m arbitrary: b s rule: less_induct)
  case (less m)
  show ?case
  proof (cases "m = 0")
    case True
    then show ?thesis using less.prems by (simp add: read_rows.simps [of parse 0])
  next
    case False
    from read_rows_Inr [OF less.prems this] obtain w rest row u where
      w: "b = w @ newline # rest" "newline \<notin> set w" "Suc (length w) \<le> min m max_row_bytes"
        "parse (w @ [newline]) = Some row" "row_step row s = Inr u"
        "read_rows parse (m - Suc (length w)) rest u = Inr t" by blast
    have "m - Suc (length w) + n = m + n - Suc (length w)" "m - Suc (length w) < m" using w(3) False by auto
    then have "read_rows parse (m + n - Suc (length w)) rest u = read_rows parse n (drop (m - Suc (length w)) rest) t"
      using less.IH [OF _ w(6)] by simp
    moreover have "drop m b = drop (m - Suc (length w)) rest"
      using w(1,3) by (cases m) (auto simp: drop_Cons')
    moreover have "Suc (length w) \<le> min (m + n) max_row_bytes" using w(3) by simp
    ultimately show ?thesis using read_rows_line [where w = w and parse = parse and rest = rest and row = row and m = "m + n", OF w(2) _ w(4,5)] w(1) by simp
  qed
qed

lemma read_rows_prefix:
  "read_rows parse m b s = Inr t \<Longrightarrow> take m b = take m b' \<Longrightarrow> read_rows parse m b' s = Inr t"
proof (induction m arbitrary: b b' s rule: less_induct)
  case (less m)
  show ?case
  proof (cases "m = 0")
    case True
    then show ?thesis using less.prems by (simp add: read_rows.simps [of parse 0])
  next
    case False
    from read_rows_Inr [OF less.prems(1) this] obtain w rest row u where
      w: "b = w @ newline # rest" "newline \<notin> set w" "Suc (length w) \<le> min m max_row_bytes"
        "parse (w @ [newline]) = Some row" "row_step row s = Inr u"
        "read_rows parse (m - Suc (length w)) rest u = Inr t" by blast
    define k where "k = m - Suc (length w)"
    have m: "m = Suc (length w) + k" using w(3) k_def by simp
    have "take (Suc (length w) + k) b = (w @ [newline]) @ take k rest" using w(1) by simp
    then have e: "take (Suc (length w) + k) b' = (w @ [newline]) @ take k rest" using less.prems(2) m by simp
    have "take (Suc (length w)) b' = w @ [newline]"
      using arg_cong [OF e, of "take (Suc (length w))"] by simp
    then have b': "b' = w @ newline # drop (Suc (length w)) b'"
      using append_take_drop_id [of "Suc (length w)" b'] by simp
    have tk: "take k rest = take k (drop (Suc (length w)) b')"
      using arg_cong [OF e, of "drop (Suc (length w))"] by (simp add: take_drop add.commute)
    have "k < m" using m by simp
    then have "read_rows parse k (drop (Suc (length w)) b') u = Inr t"
      using less.IH [OF _ _ tk] w(6) unfolding k_def by blast
    then have "read_rows parse m (w @ newline # drop (Suc (length w)) b') s = Inr t"
      using read_rows_line [where w = w and parse = parse and rest = "drop (Suc (length w)) b'" and row = row, OF w(2,3,4,5)] k_def by simp
    then show ?thesis using b' by simp
  qed
qed

section \<open>What the rows listed does not influence how they are read\<close>

definition shift :: "int list list \<Rightarrow> json list \<Rightarrow> row_state \<Rightarrow> row_state" where
  "shift ps ss s = s\<lparr>rs_points := ps @ rs_points s, rs_listed := ss @ rs_listed s\<rparr>"

abbreviation shifted :: "int list list \<Rightarrow> json list \<Rightarrow> row_state res \<Rightarrow> row_state res" where
  "shifted ps ss m \<equiv> bindE m (\<lambda>t. Inr (shift ps ss t))"

lemma point_step_shift: "point_step v (shift ps ss s) = shifted ps ss (point_step v s)"
  by (cases "anchor_of v") (auto simp: point_step_def shift_def guardE_def)

lemma segment_step_shift: "segment_step v (shift ps ss s) = shifted ps ss (segment_step v s)"
proof (cases v)
  case (JObj d)
  then show ?thesis
    by (cases "journal_int False (jget d ''index'')"; cases "journal_int False (jget d ''start_sample'')";
        cases "journal_int False (jget d ''end_sample'')")
       (auto simp: segment_step_def shift_def guardE_def)
qed (simp_all add: segment_step_def)

lemma foldE_shift:
  assumes "\<And>v s. f v (shift ps ss s) = shifted ps ss (f v s)"
  shows "foldE f vs (shift ps ss s) = shifted ps ss (foldE f vs s)"
  by (induction vs arbitrary: s) (simp_all add: assms bindE_assoc)

lemma row_step_shift: "row_step v (shift ps ss s) = shifted ps ss (row_step v s)"
proof (cases v)
  case (JObj d)
  have start: "\<And>n. (shift ps ss s)\<lparr>rs_sequence := n\<rparr> = shift ps ss (s\<lparr>rs_sequence := n\<rparr>)"
    by (simp add: shift_def)
  have seq: "rs_sequence (shift ps ss s) = rs_sequence s" by (simp add: shift_def)
  show ?thesis
    unfolding JObj row_step_def json.case seq
    by (cases "journal_int False (jget d ''sequence'')"; cases "jget d ''anchors''"; cases "jget d ''segments''")
       (simp_all add: guardE_def start foldE_shift [of point_step, OF point_step_shift]
          foldE_shift [of segment_step, OF segment_step_shift] bindE_assoc)
qed (simp_all add: row_step_def)

lemma read_rows_shift: "read_rows parse m b s = Inr t \<Longrightarrow> read_rows parse m b (shift ps ss s) = Inr (shift ps ss t)"
proof (induction m arbitrary: b s rule: less_induct)
  case (less m)
  show ?case
  proof (cases "m = 0")
    case True
    then show ?thesis using less.prems by (simp add: read_rows.simps [of parse 0])
  next
    case False
    from read_rows_Inr [OF less.prems this] obtain w rest row u where
      w: "b = w @ newline # rest" "newline \<notin> set w" "Suc (length w) \<le> min m max_row_bytes"
        "parse (w @ [newline]) = Some row" "row_step row s = Inr u"
        "read_rows parse (m - Suc (length w)) rest u = Inr t" by blast
    have r: "row_step row (shift ps ss s) = Inr (shift ps ss u)" using w(5) by (simp add: row_step_shift)
    show ?thesis
      using less.IH [OF _ w(6)] read_rows_line [where w = w and parse = parse and rest = rest and row = row, OF w(2,3,4) r] w(1) False by simp
  qed
qed

section \<open>What an accepted read means\<close>

text \<open>A successful read, as one conjunction: the header, the file, the rows and the closing anchor.\<close>

definition head_ok :: "jobject \<Rightarrow> nat \<Rightarrow> bool" where
  "head_ok head stop \<longleftrightarrow>
     eq_str (jget head ''schema'') journal_schema \<and>
     (\<exists>e. journal_int True (jget head ''journal_bytes'') = Inr e \<and> stop = nat e) \<and>
     stop \<le> max_journal_bytes \<and> str_in (jget head ''journal_sha256'') (hex_n 64) \<and>
     (\<exists>is. journal_ints (map (jget head) head_counters) = Inr is)"

definition file_ok :: "journal_file \<Rightarrow> nat \<Rightarrow> bool" where
  "file_ok file stop \<longleftrightarrow>
     \<not> symlinked file \<and> stop \<le> snd (opened file) \<and>
     fst (opened file) = fst (closing file) \<and> fst (closing file) = fst (named file) \<and>
     stop \<le> min (snd (closing file)) (snd (named file))"

definition counts_ok :: "(string \<Rightarrow> string) \<Rightarrow> jobject \<Rightarrow> string \<Rightarrow> row_state \<Rightarrow> bool" where
  "counts_ok hash head digest s \<longleftrightarrow>
     jget head ''journal_sha256'' = JStr (hash digest) \<and>
     jget head ''journal_records'' = JInt (rs_sequence s) \<and>
     jget head ''anchor_count'' = JInt (rs_anchors s) \<and>
     jget head ''segment_count'' = JInt (rs_segments s) \<and>
     jget head ''sample_count'' = JInt (rs_samples s)"

definition journal_answer :: "jobject \<Rightarrow> row_state \<Rightarrow> int list list \<Rightarrow> jobject" where
  "journal_answer head s points =
     jset ''segments'' (JList (rs_listed s))
       (jset ''anchors'' (JList (map (\<lambda>p. JList (map JInt p)) points))
         (jset ''schema'' (JStr ''openaria.audio-checkpoint.v2'') head))"

definition advanced :: "journal_file \<Rightarrow> nat \<Rightarrow> string \<Rightarrow> row_state \<Rightarrow> journal_reader" where
  "advanced file stop digest s =
     \<lparr>offset = stop, digested = digest, sequence = rs_sequence s, anchor_count = rs_anchors s,
      segment_count = rs_segments s, sample_count = rs_samples s, last_anchor = rs_previous s,
      file_id = Some (fst (opened file))\<rparr>"

abbreviation digest_after :: "journal_file \<Rightarrow> nat \<Rightarrow> journal_reader \<Rightarrow> string" where
  "digest_after file stop r \<equiv> digested r @ take (stop - offset r) (drop (offset r) (content file))"

lemma read_journal_Inr:
  "read_journal parse hash file head r = Inr (out, r') \<longleftrightarrow>
     (\<exists>stop s points. head_ok head stop \<and> offset r \<le> stop \<and> file_ok file stop \<and>
        (file_id r = None \<or> file_id r = Some (fst (opened file))) \<and>
        read_rows parse (stop - offset r) (drop (offset r) (content file)) (start_rows r) = Inr s \<and>
        counts_ok hash head (digest_after file stop r) s \<and>
        close_anchors (jget head ''last_anchor'') s = Inr points \<and>
        out = journal_answer head s points \<and> r' = advanced file stop (digest_after file stop r) s)"
  (is "?l = ?r")
proof
  assume ?l
  then obtain e nums s points where
    h: "eq_str (jget head ''schema'') journal_schema" "journal_int True (jget head ''journal_bytes'') = Inr e"
      "offset r \<le> nat e" "nat e \<le> max_journal_bytes" "str_in (jget head ''journal_sha256'') (hex_n 64)"
      "journal_ints (map (jget head) head_counters) = Inr nums" "\<not> symlinked file"
      "\<not> (snd (opened file) < nat e \<or> (file_id r \<noteq> None \<and> file_id r \<noteq> Some (fst (opened file))))"
    and rows: "read_rows parse (nat e - offset r) (drop (offset r) (content file)) (start_rows r) = Inr s"
    and f: "\<not> (fst (opened file) \<noteq> fst (closing file) \<or> fst (closing file) \<noteq> fst (named file) \<or>
        min (snd (closing file)) (snd (named file)) < nat e)"
    and c: "\<not> (jget head ''journal_sha256'' \<noteq> JStr (hash (digest_after file (nat e) r)) \<or>
        jget head ''journal_records'' \<noteq> JInt (rs_sequence s) \<or>
        jget head ''anchor_count'' \<noteq> JInt (rs_anchors s) \<or>
        jget head ''segment_count'' \<noteq> JInt (rs_segments s) \<or>
        jget head ''sample_count'' \<noteq> JInt (rs_samples s))"
    and cl: "close_anchors (jget head ''last_anchor'') s = Inr points"
    and out: "out = journal_answer head s points" "r' = advanced file (nat e) (digest_after file (nat e) r) s"
    unfolding read_journal_def Let_def journal_answer_def advanced_def bindE_eq_Inr guardE_eq_Inr
      sum.inject prod.inject not_not de_Morgan_disj by (elim exE conjE) blast
  have "head_ok head (nat e)" using h by (auto simp: head_ok_def)
  moreover have "file_ok file (nat e)" using h(7,8) f by (auto simp: file_ok_def)
  moreover have "counts_ok hash head (digest_after file (nat e) r) s" using c by (simp add: counts_ok_def)
  moreover have "file_id r = None \<or> file_id r = Some (fst (opened file))" using h(8) by blast
  ultimately show ?r using h(3) rows cl out by (intro exI conjI)
next
  show "?r \<Longrightarrow> ?l"
    unfolding read_journal_def Let_def head_ok_def file_ok_def counts_ok_def journal_answer_def advanced_def
    by (auto simp: bindE_eq_Inr not_less not_le)
qed

section \<open>Tiling and ordering\<close>

text \<open>\<open>tiles vs i a j b\<close>: the listed segments are numbered from \<open>i\<close> to \<open>j\<close>, each under its own path,
  each nonempty, and together they cover the samples from \<open>a\<close> to \<open>b\<close> without gap or overlap.\<close>

fun tiles :: "json list \<Rightarrow> int \<Rightarrow> int \<Rightarrow> int \<Rightarrow> int \<Rightarrow> bool" where
  "tiles [] i a j b \<longleftrightarrow> i = j \<and> a = b"
| "tiles (JObj d # vs) i a j b \<longleftrightarrow>
     jget d ''index'' = JInt i \<and> jget d ''path'' = JStr (segment_path i) \<and> jget d ''start_sample'' = JInt a \<and>
     (case jget d ''end_sample'' of JInt e \<Rightarrow> a < e \<and> tiles vs (i + 1) e j b | _ \<Rightarrow> False)"
| "tiles _ i a j b \<longleftrightarrow> False"

lemma tiles_snoc:
  assumes "tiles vs i a j b" and "jget d ''index'' = JInt j" "jget d ''path'' = JStr (segment_path j)"
    and "jget d ''start_sample'' = JInt b" "jget d ''end_sample'' = JInt e" "b < e"
  shows "tiles (vs @ [JObj d]) i a (j + 1) e"
  using assms
  by (induction vs i a j b rule: tiles.induct) (auto split: json.splits)

definition after :: "int list \<Rightarrow> int list \<Rightarrow> bool" where
  "after p q \<longleftrightarrow> p ! 0 < q ! 0 \<and> p ! 1 < q ! 1"

lemma after_trans: "after p q \<Longrightarrow> after q r \<Longrightarrow> after p r"
  by (auto simp: after_def)

definition known :: "int list option \<Rightarrow> row_state \<Rightarrow> int list list" where
  "known q s = (case q of None \<Rightarrow> [] | Some p \<Rightarrow> [p]) @ rs_points s"

definition rows_ok :: "journal_reader \<Rightarrow> row_state \<Rightarrow> bool" where
  "rows_ok r s \<longleftrightarrow>
     tiles (rs_listed s) (segment_count r) (sample_count r) (rs_segments s) (rs_samples s) \<and>
     sorted_wrt after (known (last_anchor r) s) \<and>
     rs_previous s = (if known (last_anchor r) s = [] then None else Some (last (known (last_anchor r) s)))"

lemma sorted_wrt_snoc_last:
  assumes "sorted_wrt after ps" and "ps \<noteq> [] \<Longrightarrow> after (last ps) q"
  shows "sorted_wrt after (ps @ [q])"
proof (cases ps rule: rev_cases)
  case (snoc qs l)
  then show ?thesis using assms by (auto simp: sorted_wrt_append intro: after_trans)
qed simp

lemma journal_int_eq: "journal_int p v = Inr i \<Longrightarrow> v = JInt i"
  by (cases v) (auto simp: journal_int_def)

lemma rows_ok_point:
  assumes "rows_ok r s" and "point_step v s = Inr t"
  shows "rows_ok r t"
proof -
  from assms(2) obtain p where p: "anchor_of v = Inr p"
    "\<forall>q. rs_previous s = Some q \<longrightarrow> after q p"
    and t: "t = s\<lparr>rs_previous := Some p, rs_points := rs_points s @ [p], rs_anchors := rs_anchors s + 1\<rparr>"
    by (auto simp: point_step_def bindE_eq_Inr after_def not_le split: option.splits)
  have k: "known q t = known q s @ [p]" for q by (simp add: known_def t)
  have "sorted_wrt after (known (last_anchor r) s @ [p])"
    by (rule sorted_wrt_snoc_last) (use assms(1) p(2) in \<open>auto simp: rows_ok_def\<close>)
  then show ?thesis using assms(1) by (simp add: rows_ok_def k) (simp add: t)
qed

lemma rows_ok_segment:
  assumes "rows_ok r s" and "segment_step v s = Inr t"
  shows "rows_ok r t"
proof -
  from assms(2) obtain d stop where d: "v = JObj d" "jget d ''index'' = JInt (rs_segments s)"
    "jget d ''start_sample'' = JInt (rs_samples s)" "jget d ''end_sample'' = JInt stop" "rs_samples s < stop"
    "jget d ''path'' = JStr (segment_path (rs_segments s))"
    and t: "t = s\<lparr>rs_listed := rs_listed s @ [JObj d], rs_segments := rs_segments s + 1, rs_samples := stop\<rparr>"
    by (cases v) (auto simp: segment_step_def bindE_eq_Inr eq_str_def dest!: journal_int_eq)
  have "known q t = known q s" for q by (simp add: known_def t)
  then show ?thesis
    using assms(1) tiles_snoc [OF _ d(2,6,3,4,5)] by (simp add: rows_ok_def) (simp add: t)
qed

lemma rows_ok_row:
  assumes "rows_ok r s" and "row_step v s = Inr t"
  shows "rows_ok r t"
proof -
  from assms(2) obtain points segs u where
    u: "foldE point_step points (s\<lparr>rs_sequence := rs_sequence s + 1\<rparr>) = Inr u" "foldE segment_step segs u = Inr t"
    by (cases v) (auto simp: row_step_def bindE_eq_Inr split: json.splits)
  have "rows_ok r (s\<lparr>rs_sequence := rs_sequence s + 1\<rparr>)"
    using assms(1) by (simp add: rows_ok_def known_def)
  then have "rows_ok r u" by (rule foldE_invariant [OF u(1)]) (rule rows_ok_point)
  then show ?thesis by (rule foldE_invariant [OF u(2)]) (rule rows_ok_segment)
qed

lemma read_rows_invariant:
  assumes "read_rows parse m b s = Inr t" and "P s"
    and step: "\<And>v s u. P s \<Longrightarrow> row_step v s = Inr u \<Longrightarrow> P u"
  shows "P t"
  using assms(1,2)
proof (induction m arbitrary: b s rule: less_induct)
  case (less m)
  show ?case
  proof (cases "m = 0")
    case True
    then show ?thesis using less.prems by (simp add: read_rows.simps [of parse 0])
  next
    case False
    from read_rows_Inr [OF less.prems(1) this] obtain w rest row u where
      w: "b = w @ newline # rest" "newline \<notin> set w" "Suc (length w) \<le> min m max_row_bytes"
        "parse (w @ [newline]) = Some row" "row_step row s = Inr u"
        "read_rows parse (m - Suc (length w)) rest u = Inr t" by blast
    have "m - Suc (length w) < m" using False by simp
    then show ?thesis using less.IH [OF _ w(6) step [OF less.prems(2) w(5)]] by blast
  qed
qed

lemma rows_ok_start: "rows_ok r (start_rows r)"
  by (simp add: rows_ok_def start_rows_def known_def split: option.splits)

lemma rows_ok_read: "read_rows parse m b (start_rows r) = Inr t \<Longrightarrow> rows_ok r t"
  using read_rows_invariant [of parse m b "start_rows r" t "rows_ok r"] rows_ok_start rows_ok_row by blast

lemma close_anchors_sorted:
  assumes "rows_ok r s" and "close_anchors v s = Inr points"
  shows "sorted_wrt after points" and "\<exists>extra. points = rs_points s @ extra"
proof -
  have s: "sorted_wrt after (rs_points s)"
    using assms(1) by (auto simp: rows_ok_def known_def sorted_wrt_append)
  have l: "rs_points s \<noteq> [] \<Longrightarrow> rs_previous s = Some (last (rs_points s))"
    using assms(1) by (auto simp: rows_ok_def known_def)
  have "points = rs_points s \<or> (\<exists>p. points = rs_points s @ [p] \<and> (\<forall>q. rs_previous s = Some q \<longrightarrow> after q p))"
    using assms(2)
    by (auto simp: close_anchors_def bindE_eq_Inr after_def not_le split: if_splits option.splits)
  with l have "points = rs_points s \<or> (\<exists>p. points = rs_points s @ [p] \<and> (rs_points s \<noteq> [] \<longrightarrow> after (last (rs_points s)) p))"
    by blast
  then show "sorted_wrt after points" and "\<exists>extra. points = rs_points s @ extra"
    using s by (auto intro: sorted_wrt_snoc_last)
qed

lemma close_anchors_shift:
  "close_anchors v s = Inr points \<Longrightarrow> close_anchors v (shift ps ss s) = Inr (ps @ points)"
  by (auto simp: close_anchors_def shift_def bindE_eq_Inr split: if_splits option.splits)

section \<open>Reading in pieces\<close>

lemma read_rows_length: "read_rows parse m b s = Inr t \<Longrightarrow> m \<le> length b"
proof (induction m arbitrary: b s rule: less_induct)
  case (less m)
  show ?case
  proof (cases "m = 0")
    case False
    from read_rows_Inr [OF less.prems(1) this] obtain w rest row u where
      w: "b = w @ newline # rest" "newline \<notin> set w" "Suc (length w) \<le> min m max_row_bytes"
        "parse (w @ [newline]) = Some row" "row_step row s = Inr u"
        "read_rows parse (m - Suc (length w)) rest u = Inr t" by blast
    have "m - Suc (length w) < m" using False by simp
    then have "m - Suc (length w) \<le> length rest" using less.IH [OF _ w(6)] by blast
    then show ?thesis using w(1) by simp
  qed simp
qed

definition listed_segments :: "jobject \<Rightarrow> json list" where
  "listed_segments out = (case jget out ''segments'' of JList vs \<Rightarrow> vs | _ \<Rightarrow> [])"

lemma listed_segments_answer [simp]: "listed_segments (journal_answer head s points) = rs_listed s"
  by (simp add: listed_segments_def journal_answer_def)

lemma start_rows_advanced:
  "s = shift (rs_points s) (rs_listed s) (start_rows (advanced file stop digest s))"
  by (simp add: shift_def start_rows_def advanced_def)

lemma two_reads_are_one:
  assumes first: "read_journal parse hash f1 h1 r = Inr (o1, r1)"
    and second: "read_journal parse hash f2 h2 r1 = Inr (o2, r2)"
    and app: "take (offset r1) (content f2) = take (offset r1) (content f1)"
  shows "\<exists>out. read_journal parse hash f2 h2 r = Inr (out, r2) \<and>
           listed_segments out = listed_segments o1 @ listed_segments o2"
proof -
  from first obtain e1 s1 p1 where a: "offset r \<le> e1" "file_id r = None \<or> file_id r = Some (fst (opened f1))"
      "read_rows parse (e1 - offset r) (drop (offset r) (content f1)) (start_rows r) = Inr s1"
      "o1 = journal_answer h1 s1 p1" "r1 = advanced f1 e1 (digest_after f1 e1 r) s1"
    by (auto simp: read_journal_Inr)
  from second obtain e2 s2 p2 where b: "head_ok h2 e2" "offset r1 \<le> e2" "file_ok f2 e2"
      "file_id r1 = None \<or> file_id r1 = Some (fst (opened f2))"
      "read_rows parse (e2 - offset r1) (drop (offset r1) (content f2)) (start_rows r1) = Inr s2"
      "counts_ok hash h2 (digest_after f2 e2 r1) s2" "close_anchors (jget h2 ''last_anchor'') s2 = Inr p2"
      "o2 = journal_answer h2 s2 p2" "r2 = advanced f2 e2 (digest_after f2 e2 r1) s2"
    by (auto simp: read_journal_Inr)
  have off: "offset r1 = e1" "fst (opened f1) = fst (opened f2)" using b(4) a(5) by (auto simp: advanced_def)
  let ?n1 = "e1 - offset r" and ?n2 = "e2 - e1"
  let ?c = "drop (offset r) (content f2)"
  let ?s = "shift (rs_points s1) (rs_listed s1) s2"
  have same: "take ?n1 (drop (offset r) (content f1)) = take ?n1 ?c"
    using arg_cong [OF app, of "drop (offset r)"] off(1) by (simp add: drop_take)
  have "read_rows parse ?n1 ?c (start_rows r) = Inr s1" by (rule read_rows_prefix [OF a(3) same])
  then have "read_rows parse (?n1 + ?n2) ?c (start_rows r) = read_rows parse ?n2 (drop ?n1 ?c) s1"
    by (rule read_rows_append)
  moreover have n: "?n1 + ?n2 = e2 - offset r" "drop ?n1 ?c = drop e1 (content f2)"
    using a(1) b(2) off(1) by auto
  moreover have "read_rows parse ?n2 (drop e1 (content f2)) s1 = Inr ?s"
    using read_rows_shift [OF b(5), of "rs_points s1" "rs_listed s1"] off(1)
      start_rows_advanced [of s1 f1 e1 "digest_after f1 e1 r"] a(5) by simp
  ultimately have rows: "read_rows parse (e2 - offset r) ?c (start_rows r) = Inr ?s" by simp
  have digest: "digest_after f2 e2 r1 = digest_after f2 e2 r"
  proof -
    have "take (?n1 + ?n2) ?c = take ?n1 ?c @ take ?n2 (drop ?n1 ?c)" by (rule take_add)
    then show ?thesis using a(5) off(1) n same by (simp add: advanced_def)
  qed
  have cl: "close_anchors (jget h2 ''last_anchor'') ?s = Inr (rs_points s1 @ p2)"
    by (rule close_anchors_shift [OF b(7)])
  have counts: "counts_ok hash h2 (digest_after f2 e2 r) ?s" using b(6) digest by (simp add: counts_ok_def shift_def)
  have r2: "r2 = advanced f2 e2 (digest_after f2 e2 r) ?s" using b(9) digest by (simp add: advanced_def shift_def)
  have "offset r \<le> e2" using a(1) b(2) off(1) by simp
  moreover have "file_id r = None \<or> file_id r = Some (fst (opened f2))" using a(2) off(2) by simp
  ultimately have "read_journal parse hash f2 h2 r = Inr (journal_answer h2 ?s (rs_points s1 @ p2), r2)"
    using b(1,3) rows counts cl r2 unfolding read_journal_Inr by blast
  then show ?thesis using a(4) b(8) by (auto simp: shift_def)
qed

fun read_sequence ::
  "(string \<Rightarrow> json option) \<Rightarrow> (string \<Rightarrow> string) \<Rightarrow> (journal_file \<times> jobject) list \<Rightarrow> journal_reader
     \<Rightarrow> (jobject list \<times> journal_reader) res" where
  "read_sequence parse hash [] r = Inr ([], r)"
| "read_sequence parse hash ((file, head) # reads) r =
     bindE (read_journal parse hash file head r) (\<lambda>(out, r').
       bindE (read_sequence parse hash reads r') (\<lambda>(outs, r''). Inr (out # outs, r'')))"

lemma offset_within: "read_journal parse hash file head r = Inr (out, r') \<Longrightarrow> offset r \<le> length (content file) \<Longrightarrow> offset r' \<le> length (content file)"
  by (auto simp: read_journal_Inr advanced_def dest!: read_rows_length)

lemma read_sequence_is_one_read:
  assumes "read_sequence parse hash (reads @ [(file, head)]) r = Inr (outs, r')"
    and "sorted_wrt prefix (map (content \<circ> fst) (reads @ [(file, head)]))"
    and "\<forall>(f, h) \<in> set (reads @ [(file, head)]). offset r \<le> length (content f)"
  shows "\<exists>out. read_journal parse hash file head r = Inr (out, r') \<and>
           listed_segments out = concat (map listed_segments outs)"
  using assms
proof (induction reads arbitrary: r outs)
  case Nil
  then show ?case by (auto simp: bindE_eq_Inr)
next
  case (Cons x reads)
  obtain f h where x: "x = (f, h)" by (cases x)
  from Cons.prems(1) obtain o1 r1 os where r: "read_journal parse hash f h r = Inr (o1, r1)"
    "read_sequence parse hash (reads @ [(file, head)]) r1 = Inr (os, r')" "outs = o1 # os"
    by (auto simp: x bindE_eq_Inr)
  have pre: "\<forall>(g, k) \<in> set (reads @ [(file, head)]). prefix (content f) (content g)"
    using Cons.prems(2) x by auto
  have off: "offset r1 \<le> length (content f)"
    using offset_within [OF r(1)] Cons.prems(3) x by auto
  have "\<forall>(g, k) \<in> set (reads @ [(file, head)]). offset r1 \<le> length (content g)"
    using pre off by (auto dest!: prefix_length_le)
  moreover have "sorted_wrt prefix (map (content \<circ> fst) (reads @ [(file, head)]))" using Cons.prems(2) by (simp add: comp_def)
  ultimately obtain o2 where o2: "read_journal parse hash file head r1 = Inr (o2, r')"
    "listed_segments o2 = concat (map listed_segments os)"
    using Cons.IH [OF r(2)] by blast
  have "prefix (content f) (content file)" using pre by simp
  then have "take (offset r1) (content file) = take (offset r1) (content f)"
    using off by (auto simp: prefix_def)
  from two_reads_are_one [OF r(1) o2(1) this] show ?case using o2(2) r(3) by auto
qed

section \<open>Properties\<close>

text \<open>C32: Live compaction reads the journal checkpoint by checkpoint, each committed byte once;
  recovery reads the whole prefix with a fresh reader.  On an append-only file the two agree: when a
  sequence of reads succeeds, one fresh read up to the last header succeeds, leaves the reader in
  the very same state, and lists exactly the segments the pieces listed, in order.\<close>

theorem incremental_reads_are_one_read:
  assumes "read_sequence parse hash (reads @ [(file, head)]) new_reader = Inr (outs, r)"
    and "sorted_wrt prefix (map (content \<circ> fst) (reads @ [(file, head)]))"
  shows "\<exists>out. read_journal parse hash file head new_reader = Inr (out, r) \<and>
           listed_segments out = concat (map listed_segments outs)"
  by (rule read_sequence_is_one_read [OF assms]) (simp add: new_reader_def split: prod.split)

definition example_segment :: "int \<Rightarrow> int \<Rightarrow> int \<Rightarrow> json" where
  "example_segment i a b = JObj [(''index'', JInt i), (''path'', JStr (segment_path i)),
     (''start_sample'', JInt a), (''end_sample'', JInt b)]"

definition example_row :: "int \<Rightarrow> json list \<Rightarrow> json list \<Rightarrow> json" where
  "example_row n anchors segments = JObj [(''sequence'', JInt n), (''anchors'', JList anchors), (''segments'', JList segments)]"

definition example_parse :: "string \<Rightarrow> json option" where
  "example_parse line =
     (if line = ''a'' @ [newline] then
        Some (example_row 0 [JList (map JInt [480, 100, 200, 110, 120])] [example_segment 0 0 480])
      else if line = ''b'' @ [newline] then Some (example_row 1 [] [example_segment 1 480 960]) else None)"

definition example_hash :: "string \<Rightarrow> string" where
  "example_hash s = replicate (64 - length s) (CHR ''0'') @ replicate (length s) (CHR ''f'')"

lemma example_hash_hex: "length s \<le> 64 \<Longrightarrow> hex_n 64 (example_hash s)"
  by (auto simp: hex_n_def example_hash_def list_all_iff is_hex_def is_digit_def)

definition example_head :: "nat \<Rightarrow> string \<Rightarrow> int \<Rightarrow> int \<Rightarrow> int \<Rightarrow> int \<Rightarrow> jobject" where
  "example_head bytes digest records anchors segments samples =
     [(''schema'', JStr journal_schema), (''journal_bytes'', JInt (int bytes)),
      (''journal_sha256'', JStr (example_hash digest)), (''journal_records'', JInt records),
      (''anchor_count'', JInt anchors), (''segment_count'', JInt segments), (''sample_count'', JInt samples),
      (''thread_started_monotonic_ns'', JInt 1), (''period_frames'', JInt 480), (''buffer_frames'', JInt 1920),
      (''queue_capacity_frames'', JInt 9600), (''queue_peak_frames'', JInt 480), (''max_write_ns'', JInt 5)]"

definition example_file :: "string \<Rightarrow> journal_file" where
  "example_file bytes = \<lparr>content = bytes, opened = ((1, 2), length bytes), closing = ((1, 2), length bytes),
     named = ((1, 2), length bytes), symlinked = False\<rparr>"

abbreviation "bytes1 \<equiv> ''a'' @ [newline]"
abbreviation "bytes2 \<equiv> ''a'' @ [newline] @ ''b'' @ [newline] @ ''tail''"

lemma row_a: "row_step (example_row 0 [JList (map JInt [480, 100, 200, 110, 120])] [example_segment 0 0 480]) (start_rows new_reader) =
    Inr \<lparr>rs_sequence = 1, rs_anchors = 1, rs_segments = 1, rs_samples = 480, rs_previous = Some [480, 100, 200, 110, 120],
      rs_points = [[480, 100, 200, 110, 120]], rs_listed = [example_segment 0 0 480]\<rparr>"
  by (simp add: row_step_def example_row_def example_segment_def start_rows_def new_reader_def has_keys_def jget_def
      journal_int_def point_step_def anchor_of_def segment_step_def eq_str_def insert_commute)

lemma row_b: "rs_sequence s = 1 \<Longrightarrow> rs_segments s = 1 \<Longrightarrow> rs_samples s = 480 \<Longrightarrow>
    row_step (example_row 1 [] [example_segment 1 480 960]) s =
    Inr (s\<lparr>rs_sequence := 2, rs_segments := 2, rs_samples := 960, rs_listed := rs_listed s @ [example_segment 1 480 960]\<rparr>)"
  by (simp add: row_step_def example_row_def example_segment_def has_keys_def jget_def
      journal_int_def segment_step_def eq_str_def insert_commute)

definition example_reader :: journal_reader where
  "example_reader = \<lparr>offset = 2, digested = bytes1, sequence = 1, anchor_count = 1, segment_count = 1,
     sample_count = 480, last_anchor = Some [480, 100, 200, 110, 120], file_id = Some (1, 2)\<rparr>"

lemmas example_eval = read_journal_def example_file_def example_head_def jget_def eq_str_def journal_int_def
  max_journal_bytes_def head_counters_def example_hash_hex new_reader_def close_anchors_def example_reader_def Let_def

lemma example_read_a:
  "\<exists>out. read_journal example_parse example_hash (example_file bytes1) (example_head 2 bytes1 1 1 1 480) new_reader
     = Inr (out, example_reader)"
proof -
  have "read_rows example_parse 2 bytes1 (start_rows new_reader) =
      Inr \<lparr>rs_sequence = 1, rs_anchors = 1, rs_segments = 1, rs_samples = 480, rs_previous = Some [480, 100, 200, 110, 120],
      rs_points = [[480, 100, 200, 110, 120]], rs_listed = [example_segment 0 0 480]\<rparr>"
    using read_rows_line [where w = "''a''" and m = 2 and rest = "[]" and parse = example_parse
        and row = "example_row 0 [JList (map JInt [480, 100, 200, 110, 120])] [example_segment 0 0 480]", OF _ _ _ row_a]
    by (simp add: max_row_bytes_def example_parse_def read_rows.simps [of _ 0])
  then show ?thesis
    by (simp add: example_eval)
qed

definition example_reader2 :: journal_reader where
  "example_reader2 = \<lparr>offset = 4, digested = ''a'' @ [newline] @ ''b'' @ [newline], sequence = 2, anchor_count = 1, segment_count = 2,
     sample_count = 960, last_anchor = Some [480, 100, 200, 110, 120], file_id = Some (1, 2)\<rparr>"

lemma example_read_b:
  "\<exists>out. read_journal example_parse example_hash (example_file bytes2)
     (example_head 4 (''a'' @ [newline] @ ''b'' @ [newline]) 2 1 2 960) example_reader = Inr (out, example_reader2)"
proof -
  have "read_rows example_parse 2 (''b'' @ [newline] @ ''tail'') (start_rows example_reader) =
      Inr ((start_rows example_reader)\<lparr>rs_sequence := 2, rs_segments := 2, rs_samples := 960,
        rs_listed := [example_segment 1 480 960]\<rparr>)"
    using read_rows_line [where w = "''b''" and m = 2 and rest = "''tail''" and parse = example_parse
        and row = "example_row 1 [] [example_segment 1 480 960]" and s = "start_rows example_reader", OF _ _ _ row_b]
    by (simp add: max_row_bytes_def example_parse_def read_rows.simps [of _ 0] start_rows_def example_reader_def)
  then show ?thesis
    by (simp add: example_eval start_rows_def example_reader2_def)
qed

theorem incremental_reads_are_one_read_witness:
  "\<exists>out. read_journal example_parse example_hash (example_file bytes2)
       (example_head 4 (''a'' @ [newline] @ ''b'' @ [newline]) 2 1 2 960) new_reader = Inr (out, example_reader2)"
proof -
  obtain o1 o2 where "read_sequence example_parse example_hash
      ([(example_file bytes1, example_head 2 bytes1 1 1 1 480)] @
       [(example_file bytes2, example_head 4 (''a'' @ [newline] @ ''b'' @ [newline]) 2 1 2 960)]) new_reader =
      Inr ([o1, o2], example_reader2)"
    using example_read_a example_read_b by auto
  from incremental_reads_are_one_read [OF this] show ?thesis
    by (auto simp: example_file_def)
qed

lemma accepted_read:
  assumes "read_journal parse hash file head r = Inr (out, r')"
    and dig: "digested r = take (offset r) (content file)"
  shows "jget head ''journal_sha256'' = JStr (hash (take (offset r') (content file)))"
    and "digested r' = take (offset r') (content file)"
    and "tiles (listed_segments out) (segment_count r) (sample_count r) (segment_count r') (sample_count r')"
    and "\<exists>points. jget out ''anchors'' = JList (map (\<lambda>p. JList (map JInt p)) points) \<and> sorted_wrt after points"
    and "read_journal parse hash (file\<lparr>content := take (offset r') (content file) @ tail\<rparr>) head r = Inr (out, r')"
proof -
  from assms(1) obtain stop s points where a: "head_ok head stop" "offset r \<le> stop" "file_ok file stop"
      "file_id r = None \<or> file_id r = Some (fst (opened file))"
    and rows: "read_rows parse (stop - offset r) (drop (offset r) (content file)) (start_rows r) = Inr s"
    and c: "counts_ok hash head (digest_after file stop r) s"
    and cl: "close_anchors (jget head ''last_anchor'') s = Inr points"
    and out: "out = journal_answer head s points" "r' = advanced file stop (digest_after file stop r) s"
    unfolding read_journal_Inr by blast
  have stop: "offset r' = stop" using out(2) by (simp add: advanced_def)
  have d: "digest_after file stop r = take stop (content file)"
    using take_add [of "offset r" "stop - offset r" "content file"] dig a(2) by simp
  show "jget head ''journal_sha256'' = JStr (hash (take (offset r') (content file)))"
    using c d stop by (simp add: counts_ok_def)
  show "digested r' = take (offset r') (content file)" using out(2) d by (simp add: advanced_def)
  have ok: "rows_ok r s" by (rule rows_ok_read [OF rows])
  then show "tiles (listed_segments out) (segment_count r) (sample_count r) (segment_count r') (sample_count r')"
    by (simp add: out advanced_def rows_ok_def)
  have "jget out ''anchors'' = JList (map (\<lambda>p. JList (map JInt p)) points)" by (simp add: out journal_answer_def)
  then show "\<exists>points. jget out ''anchors'' = JList (map (\<lambda>p. JList (map JInt p)) points) \<and> sorted_wrt after points"
    using close_anchors_sorted (1) [OF ok cl] by blast
  let ?f = "file\<lparr>content := take (offset r') (content file) @ tail\<rparr>"
  have same: "take (stop - offset r) (drop (offset r) (content file)) = take (stop - offset r) (drop (offset r) (content ?f))"
  proof (cases "stop = offset r")
    case False
    then have "stop \<le> length (content file)" using read_rows_length [OF rows] a(2) by simp
    then show ?thesis using a(2) stop by (simp add: drop_take)
  qed simp
  have "file_ok ?f stop" using a(3) by (simp add: file_ok_def)
  moreover have "digest_after ?f stop r = digest_after file stop r" using same by simp
  moreover have "r' = advanced ?f stop (digest_after ?f stop r) s" using out(2) same by (simp add: advanced_def)
  moreover have "file_id r = None \<or> file_id r = Some (fst (opened ?f))" using a(4) by simp
  ultimately show "read_journal parse hash ?f head r = Inr (out, r')"
    using a(1,2) c cl out(1) read_rows_prefix [OF rows same] unfolding read_journal_Inr by metis
qed

text \<open>What one accepted read proves about the file, whatever was read before.  The header's digest is
  that of all the bytes up to the published boundary; the listed segments tile the new samples: they
  continue the numbering, each under the path its number gives, each nonempty and starting where the
  one before ends; the anchors handed on advance strictly in both sample position and raw time; and
  bytes past the boundary are never evidence: with any other tail the read gives the same result.\<close>

theorem accepted_read_is_sound:
  assumes "read_journal parse hash file head r = Inr (out, r')"
    and "digested r = take (offset r) (content file)"
  shows "jget head ''journal_sha256'' = JStr (hash (take (offset r') (content file))) \<and>
    digested r' = take (offset r') (content file) \<and>
    tiles (listed_segments out) (segment_count r) (sample_count r) (segment_count r') (sample_count r') \<and>
    (\<exists>points. jget out ''anchors'' = JList (map (\<lambda>p. JList (map JInt p)) points) \<and> sorted_wrt after points) \<and>
    (\<forall>tail. read_journal parse hash (file\<lparr>content := take (offset r') (content file) @ tail\<rparr>) head r = Inr (out, r'))"
  by (intro conjI allI) (rule accepted_read [OF assms])+

theorem accepted_read_is_sound_witness:
  "\<exists>out. read_journal example_parse example_hash (example_file bytes2)
       (example_head 4 (''a'' @ [newline] @ ''b'' @ [newline]) 2 1 2 960) example_reader = Inr (out, example_reader2) \<and>
     tiles (listed_segments out) 1 480 2 960"
proof -
  obtain out where out: "read_journal example_parse example_hash (example_file bytes2)
       (example_head 4 (''a'' @ [newline] @ ''b'' @ [newline]) 2 1 2 960) example_reader = Inr (out, example_reader2)"
    using example_read_b by blast
  have "tiles (listed_segments out) 1 480 2 960"
    using accepted_read_is_sound [OF out]
    by (simp add: example_file_def example_reader_def example_reader2_def)
  with out show ?thesis by blast
qed

end
