(* ===== verification/PyText.thy ===== *)
theory PyText
  imports Prelude
begin

text \<open>
  Text files as the code reads them: a \<open>str\<close> is its UTF-8 byte list, so decoding is the check that the
  bytes are well formed, opening in text mode translates the line ends, and \<open>splitlines\<close> and \<open>strip\<close>
  work on the byte sequences of the characters Python treats as line boundaries and as white space.
\<close>

definition byte :: "char \<Rightarrow> nat" where
  "byte c = of_char c"

definition between :: "nat \<Rightarrow> char \<Rightarrow> nat \<Rightarrow> bool" where
  "between lo c hi \<longleftrightarrow> lo \<le> byte c \<and> byte c \<le> hi"

abbreviation "trailing c \<equiv> between 0x80 c 0xBF"

section \<open>UTF-8\<close>

text \<open>The strict decoder: shortest forms only, no surrogates, nothing above U+10FFFF.\<close>

fun utf8_valid :: "string \<Rightarrow> bool" where
  "utf8_valid [] = True"
| "utf8_valid (a # s) =
     (if byte a < 0x80 then utf8_valid s
      else
       (case s of
          [] \<Rightarrow> False
        | b # s2 \<Rightarrow>
            if between 0xC2 a 0xDF then trailing b \<and> utf8_valid s2
            else
             (case s2 of
                [] \<Rightarrow> False
              | c # s3 \<Rightarrow>
                  if between 0xE0 a 0xEF then
                    (if byte a = 0xE0 then between 0xA0 b 0xBF else if byte a = 0xED then between 0x80 b 0x9F else trailing b) \<and>
                    trailing c \<and> utf8_valid s3
                  else
                   (case s3 of
                      [] \<Rightarrow> False
                    | d # s4 \<Rightarrow>
                        between 0xF0 a 0xF4 \<and>
                        (if byte a = 0xF0 then between 0x90 b 0xBF else if byte a = 0xF4 then between 0x80 b 0x8F else trailing b) \<and>
                        trailing c \<and> trailing d \<and> utf8_valid s4))))"

section \<open>Lines\<close>

fun universal_newlines :: "string \<Rightarrow> string" where
  "universal_newlines [] = []"
| "universal_newlines (c # s) =
     (if c = CHR 0x0D then CHR 0x0A # (case s of d # t \<Rightarrow> if d = CHR 0x0A then universal_newlines t else universal_newlines s | [] \<Rightarrow> [])
      else c # universal_newlines s)"

text \<open>How many bytes the line boundary (the white space) at the head of the text has, 0 when there is none.\<close>

fun line_break :: "string \<Rightarrow> nat" where
  "line_break [] = 0"
| "line_break (a # s) =
     (if a = CHR 0x0D then (case s of b # _ \<Rightarrow> if b = CHR 0x0A then 2 else 1 | [] \<Rightarrow> 1)
      else if between 0x0A a 0x0C \<or> between 0x1C a 0x1E then 1
      else
       (case s of
          [] \<Rightarrow> 0
        | b # t \<Rightarrow>
            if byte a = 0xC2 \<and> byte b = 0x85 then 2
            else (case t of [] \<Rightarrow> 0 | c # _ \<Rightarrow> if byte a = 0xE2 \<and> byte b = 0x80 \<and> between 0xA8 c 0xA9 then 3 else 0)))"

function split_lines :: "string \<Rightarrow> string \<Rightarrow> string list" where
  "split_lines acc [] = (if acc = [] then [] else [acc])"
| "split_lines acc (c # s) =
     (if line_break (c # s) = 0 then split_lines (acc @ [c]) s
      else acc # split_lines [] (drop (line_break (c # s) - 1) s))"
  by pat_completeness auto
termination by (relation "measure (\<lambda>(acc, s). length s)") auto

definition splitlines :: "string \<Rightarrow> string list" where
  "splitlines text = split_lines [] text"

fun space_width :: "string \<Rightarrow> nat" where
  "space_width [] = 0"
| "space_width (a # s) =
     (if between 0x09 a 0x0D \<or> between 0x1C a 0x20 then 1
      else
       (case s of
          [] \<Rightarrow> 0
        | b # t \<Rightarrow>
            if byte a = 0xC2 \<and> (byte b = 0x85 \<or> byte b = 0xA0) then 2
            else
             (case t of
                [] \<Rightarrow> 0
              | c # _ \<Rightarrow>
                  if (byte a = 0xE1 \<and> byte b = 0x9A \<and> byte c = 0x80) \<or>
                     (byte a = 0xE2 \<and> byte b = 0x80 \<and> (between 0x80 c 0x8A \<or> between 0xA8 c 0xA9 \<or> byte c = 0xAF)) \<or>
                     (byte a = 0xE2 \<and> byte b = 0x81 \<and> byte c = 0x9F) \<or>
                     (byte a = 0xE3 \<and> byte b = 0x80 \<and> byte c = 0x80)
                  then 3 else 0)))"

text \<open>\<open>not line.strip()\<close>.\<close>

function is_blank :: "string \<Rightarrow> bool" where
  "is_blank [] = True"
| "is_blank (c # s) = (space_width (c # s) \<noteq> 0 \<and> is_blank (drop (space_width (c # s) - 1) s))"
  by pat_completeness auto
termination by (relation "measure length") auto

section \<open>POSIX paths\<close>

fun join_on :: "string \<Rightarrow> string list \<Rightarrow> string" where
  "join_on sep [] = []"
| "join_on sep [p] = p"
| "join_on sep (p # ps) = p @ sep @ join_on sep ps"

text \<open>\<open>PurePosixPath(text)\<close>: whether it is absolute, its components without the empty and \<open>.\<close> ones,
  and \<open>as_posix\<close> of a relative path.\<close>

definition path_absolute :: "string \<Rightarrow> bool" where
  "path_absolute s \<longleftrightarrow> s \<noteq> [] \<and> hd s = CHR ''/''"

definition path_parts :: "string \<Rightarrow> string list" where
  "path_parts s = filter (\<lambda>p. p \<noteq> [] \<and> p \<noteq> ''.'') (split_on (CHR ''/'') s)"

definition path_text :: "string \<Rightarrow> string" where
  "path_text s = (if path_parts s = [] then ''.'' else join_on ''/'' (path_parts s))"

text \<open>The relative POSIX paths the code calls safe: canonical, with no parent component.\<close>

definition posix_safe :: "string \<Rightarrow> bool" where
  "posix_safe s \<longleftrightarrow> \<not> path_absolute s \<and> ''..'' \<notin> set (path_parts s) \<and> path_text s = s"

lemma split_on_nonempty [simp]: "split_on sep s \<noteq> []"
  by (induction s) (auto split: list.splits)

lemma join_split: "join_on [sep] (split_on sep s) = s"
proof (induction s)
  case (Cons c s)
  then show ?case by (cases "split_on sep s"; cases "tl (split_on sep s)") auto
qed simp

lemma split_on_free: "p \<in> set (split_on sep s) \<Longrightarrow> sep \<notin> set p"
  by (induction s arbitrary: p) (auto split: list.splits if_splits)

lemma line_break_le: "line_break s \<le> length s"
  by (cases s rule: line_break.cases) (auto split: list.splits)

end
