(* ===== verification/FrameStream.thy ===== *)
theory FrameStream
  imports Prelude "HOL-Library.Sublist"
begin

text \<open>
  \<open>contracts/frame_stream.py\<close>: the binary framing of the left and right eye streams.  A stream is
  the bytes it still holds; \<open>iter_frames\<close> is a generator, so its model returns the payloads it
  yielded beside the way it ended: exhausted (\<open>Inr ()\<close>) or with a \<open>FrameStreamError\<close>.
\<close>

definition magic :: string where
  "magic = ''YLXFRM0'' @ [CHR 0x0A]"

definition max_frame_bytes :: nat where
  "max_frame_bytes = 67108864"

definition frame_stream_error :: pyexc where
  "frame_stream_error = AppError ''FrameStreamError'' '''' False"

text \<open>\<open>struct.Struct(">I")\<close>: four bytes, most significant first.\<close>

definition pack_length :: "nat \<Rightarrow> string" where
  "pack_length n = map char_of [n div 16777216 mod 256, n div 65536 mod 256, n div 256 mod 256, n mod (256 :: nat)]"

fun unpack_big :: "nat \<Rightarrow> string \<Rightarrow> nat" where
  "unpack_big acc [] = acc"
| "unpack_big acc (c # cs) = unpack_big (256 * acc + of_char c) cs"

definition unpack_length :: "string \<Rightarrow> nat" where
  "unpack_length bytes = unpack_big 0 bytes"

definition bad_length :: "nat \<Rightarrow> bool" where
  "bad_length n \<longleftrightarrow> n = 0 \<or> n > max_frame_bytes"

definition encode_frame :: "string \<Rightarrow> string res" where
  "encode_frame payload =
     guardE (payload = [] \<or> length payload > max_frame_bytes) frame_stream_error
       (Inr (pack_length (length payload) @ payload))"

definition write_header :: "string \<Rightarrow> string" where
  "write_header stream = stream @ magic"

definition write_frame :: "string \<Rightarrow> string \<Rightarrow> string res" where
  "write_frame stream payload = bindE (encode_frame payload) (\<lambda>bytes. Inr (stream @ bytes))"

function read_frames :: "string \<Rightarrow> string list \<times> unit res" where
  "read_frames stream =
     (if stream = [] then ([], Inr ())
      else if length stream < 4 then ([], Inl frame_stream_error)
      else
        let n = unpack_length (take 4 stream); payload = take n (drop 4 stream) in
        if bad_length n then ([], Inl frame_stream_error)
        else if length payload \<noteq> n then ([], Inl frame_stream_error)
        else (let (ps, out) = read_frames (drop n (drop 4 stream)) in (payload # ps, out)))"
  by pat_completeness auto
termination by (relation "measure length") auto

declare read_frames.simps [simp del]

definition iter_frames :: "string \<Rightarrow> string list \<times> unit res" where
  "iter_frames stream =
     (if take (length magic) stream \<noteq> magic then ([], Inl frame_stream_error)
      else read_frames (drop (length magic) stream))"

section \<open>Lengths\<close>

lemma length_pack [simp]: "length (pack_length n) = 4"
  by (simp add: pack_length_def)

lemma unpack_pack:
  assumes "n < 4294967296"
  shows "unpack_length (pack_length n) = n"
proof -
  have "n div 16777216 mod 256 = n div 16777216" using assms by simp
  moreover have "256 * (n div 16777216) + n div 65536 mod 256 = n div 65536"
    using mult_div_mod_eq [of 256 "n div 65536"] by (simp add: div_mult2_eq [symmetric])
  moreover have "256 * (n div 65536) + n div 256 mod 256 = n div 256"
    using mult_div_mod_eq [of 256 "n div 256"] by (simp add: div_mult2_eq [symmetric])
  moreover have "256 * (n div 256) + n mod 256 = n" by simp
  ultimately show ?thesis by (simp add: unpack_length_def pack_length_def)
qed

lemma pack_unpack:
  assumes "length s = 4"
  shows "pack_length (unpack_length s) = s"
proof -
  obtain a b c d where s: "s = [a, b, c, d]"
    using assms by (auto simp: eval_nat_numeral length_Suc_conv)
  have *: "of_char x < (256 :: nat)" for x :: char by simp
  define x y z w where xyz: "x = (of_char a :: nat)" "y = (of_char b :: nat)" "z = (of_char c :: nat)" "w = (of_char d :: nat)"
  have l: "x < 256" "y < 256" "z < 256" "w < 256" using * xyz by simp_all
  have m: "(256 * k + v) mod 256 = v" "(256 * k + v) div 256 = k" if "v < 256" for k v :: nat
    using that by simp_all
  let ?n = "256 * (256 * (256 * x + y) + z) + w"
  have "?n mod 256 = w" "?n div 256 = 256 * (256 * x + y) + z" using l(4) by (rule m)+
  moreover from this have "?n div 65536 = 256 * x + y"
    using m(2) [OF l(3), of "256 * x + y"] div_mult2_eq [of ?n 256 256] by simp
  moreover from this have "?n div 16777216 = x"
    using m(2) [OF l(2), of x] div_mult2_eq [of ?n 65536 256] by simp
  moreover have "(256 * (256 * x + y) + z) mod 256 = z" "(256 * x + y) mod 256 = y" "x mod 256 = x"
    by (simp_all only: m(1) [OF l(3)] m(1) [OF l(2)] mod_less [OF l(1)])
  ultimately have "map char_of [?n div 16777216 mod 256, ?n div 65536 mod 256, ?n div 256 mod 256, ?n mod (256 :: nat)] =
      map char_of [x, y, z, w]" by (simp only:)
  then show ?thesis by (simp add: pack_length_def unpack_length_def s xyz)
qed

section \<open>One frame\<close>

definition frame_ok :: "string \<Rightarrow> bool" where
  "frame_ok p \<longleftrightarrow> p \<noteq> [] \<and> length p \<le> max_frame_bytes"

definition framed :: "string list \<Rightarrow> string" where
  "framed ps = concat (map (\<lambda>p. pack_length (length p) @ p) ps)"

lemma framed_simps [simp]: "framed [] = []" "framed (p # ps) = pack_length (length p) @ p @ framed ps"
  by (simp_all add: framed_def)

lemma encode_frame_Inr: "encode_frame p = Inr bytes \<longleftrightarrow> frame_ok p \<and> bytes = framed [p]"
  by (auto simp: encode_frame_def frame_ok_def)

lemma read_frames_Nil [simp]: "read_frames [] = ([], Inr ())"
  by (simp add: read_frames.simps)

lemma read_frames_short: "0 < length b \<Longrightarrow> length b < 4 \<Longrightarrow> read_frames b = ([], Inl frame_stream_error)"
  by (subst read_frames.simps) auto

lemma read_frames_header:
  assumes "n < 4294967296"
  shows "read_frames (pack_length n @ rest) =
     (if bad_length n \<or> length rest < n then ([], Inl frame_stream_error)
      else (take n rest # fst (read_frames (drop n rest)), snd (read_frames (drop n rest))))"
proof -
  have "pack_length n \<noteq> []" using length_pack [of n] by (metis list.size(3) zero_neq_numeral)
  then show ?thesis
    using unpack_pack [OF assms]
    by (subst read_frames.simps) (auto simp: Let_def min_def split: prod.split)
qed

lemma frame_ok_bound: "frame_ok p \<Longrightarrow> length p < 4294967296" "frame_ok p \<Longrightarrow> \<not> bad_length (length p)"
  by (auto simp: frame_ok_def max_frame_bytes_def bad_length_def)

lemma read_frames_ok:
  assumes "frame_ok p"
  shows "read_frames (pack_length (length p) @ rest) =
     (if length rest < length p then ([], Inl frame_stream_error)
      else (take (length p) rest # fst (read_frames (drop (length p) rest)), snd (read_frames (drop (length p) rest))))"
  using read_frames_header [OF frame_ok_bound(1) [OF assms]] frame_ok_bound(2) [OF assms] by simp

lemma read_frames_framed: "\<forall>p \<in> set ps. frame_ok p \<Longrightarrow> read_frames (framed ps) = (ps, Inr ())"
  by (induction ps) (simp_all add: read_frames_ok)

lemma read_frames_Inr: "read_frames b = (ps, Inr ()) \<Longrightarrow> b = framed ps \<and> (\<forall>p \<in> set ps. frame_ok p)"
proof (induction b arbitrary: ps rule: read_frames.induct)
  case (1 stream)
  show ?case
  proof (cases "stream = []")
    case False
    let ?n = "unpack_length (take 4 stream)"
    have l: "4 \<le> length stream" using 1(2) False read_frames_short [of stream] by (cases "length stream < 4") auto
    then have p: "stream = pack_length ?n @ drop 4 stream" by (simp add: pack_unpack)
    have n: "\<not> bad_length ?n" "length (take ?n (drop 4 stream)) = ?n"
      using 1(2) False l by (subst (asm) read_frames.simps; auto simp: Let_def split: if_splits)+
    obtain qs where qs: "ps = take ?n (drop 4 stream) # qs" "read_frames (drop ?n (drop 4 stream)) = (qs, Inr ())"
      using 1(2) False l n by (subst (asm) read_frames.simps) (auto simp: Let_def split: prod.splits)
    have "drop ?n (drop 4 stream) = framed qs \<and> (\<forall>p \<in> set qs. frame_ok p)"
      using 1(1) [OF False _ refl refl n(1)] l n(2) qs(2) by simp
    moreover have "frame_ok (take ?n (drop 4 stream))"
      using n by (auto simp: frame_ok_def bad_length_def)
    moreover have "drop 4 stream = take ?n (drop 4 stream) @ drop ?n (drop 4 stream)"
      by (rule append_take_drop_id [symmetric])
    ultimately show ?thesis using p qs(1) n(2) by (metis framed_simps(2) set_ConsD)
  qed (use 1 in simp)
qed

lemma iter_frames_Inr:
  "iter_frames b = (ps, Inr ()) \<longleftrightarrow> b = magic @ framed ps \<and> (\<forall>p \<in> set ps. frame_ok p)"
proof
  assume "iter_frames b = (ps, Inr ())"
  then have "take (length magic) b = magic" "read_frames (drop (length magic) b) = (ps, Inr ())"
    by (auto simp: iter_frames_def split: if_splits)
  then show "b = magic @ framed ps \<and> (\<forall>p \<in> set ps. frame_ok p)"
    using read_frames_Inr append_take_drop_id [of "length magic" b] by force
qed (auto simp: iter_frames_def read_frames_framed)

section \<open>Truncation\<close>

lemma read_frames_truncated:
  "\<forall>p \<in> set ps. frame_ok p \<Longrightarrow> prefix (fst (read_frames (take n (framed ps)))) ps"
proof (induction ps arbitrary: n)
  case (Cons p ps)
  have ok: "frame_ok p" using Cons.prems by simp
  show ?case
  proof (cases "n < 4")
    case True
    then have "length (take n (framed (p # ps))) < 4" by (simp del: framed_simps)
    then have "fst (read_frames (take n (framed (p # ps)))) = []"
      using read_frames_short [of "take n (framed (p # ps))"] read_frames_Nil
      by (metis fst_conv length_greater_0_conv)
    then show ?thesis by simp
  next
    case False
    then have f: "take n (framed (p # ps)) = pack_length (length p) @ take (n - 4) (p @ framed ps)" by simp
    show ?thesis
    proof (cases "n - 4 < length p")
      case True
      then have "length (take (n - 4) (p @ framed ps)) < length p" by simp
      then show ?thesis unfolding f by (simp add: read_frames_ok [OF ok] del: length_take take_append)
    next
      case long: False
      then have "take (n - 4) (p @ framed ps) = p @ take (n - 4 - length p) (framed ps)" by simp
      then show ?thesis unfolding f using Cons by (simp add: read_frames_ok [OF ok])
    qed
  qed
qed simp

section \<open>Properties\<close>

definition write_stream :: "string list \<Rightarrow> string res" where
  "write_stream ps = foldE (\<lambda>p s. write_frame s p) ps (write_header [])"

lemma write_frames_Inr: "foldE (\<lambda>p s. write_frame s p) ps s = Inr t \<longleftrightarrow> t = s @ framed ps \<and> (\<forall>p \<in> set ps. frame_ok p)"
proof (induction ps arbitrary: s)
  case (Cons p ps)
  then show ?case by (auto simp: bindE_eq_Inr write_frame_def encode_frame_Inr)
qed auto

lemma write_stream_Inr: "write_stream ps = Inr t \<longleftrightarrow> t = magic @ framed ps \<and> (\<forall>p \<in> set ps. frame_ok p)"
  by (simp add: write_stream_def write_header_def write_frames_Inr)

text \<open>C35: The framing is a bijection: the reader reads a stream to its end without an error, yielding
  the payloads \<open>ps\<close>, exactly when writing the header and then the frames of \<open>ps\<close> succeeds and
  produces that very stream.\<close>

theorem frames_round_trip: "iter_frames stream = (ps, Inr ()) \<longleftrightarrow> write_stream ps = Inr stream"
  by (simp add: iter_frames_Inr write_stream_Inr)

text \<open>A stream cut off anywhere, as a crash leaves it, never yields a wrong frame: the reader
  returns a prefix of the frames that were written, and it ends without an error only when the cut
  is at a frame boundary.\<close>

theorem truncated_stream_is_a_prefix:
  assumes "write_stream ps = Inr stream" and "iter_frames (take n stream) = (qs, out)"
  shows "prefix qs ps \<and> (out = Inr () \<longrightarrow> write_stream qs = Inr (take n stream))"
proof
  have ok: "stream = magic @ framed ps" "\<forall>p \<in> set ps. frame_ok p" using assms(1) by (simp_all add: write_stream_Inr)
  show "prefix qs ps"
  proof (cases "n < length magic")
    case True
    then have "take (length magic) (take n stream) \<noteq> magic" using ok(1)
      by (metis length_take less_irrefl_nat min.absorb3 min_less_iff_conj take_all_iff nle_le)
    then show ?thesis using assms(2) by (simp add: iter_frames_def)
  next
    case False
    then have "iter_frames (take n stream) = read_frames (take (n - length magic) (framed ps))"
      using ok(1) by (simp add: iter_frames_def)
    then have "read_frames (take (n - length magic) (framed ps)) = (qs, out)" using assms(2) by simp
    then show ?thesis using read_frames_truncated [OF ok(2), of "n - length magic"] by simp
  qed
  show "out = Inr () \<longrightarrow> write_stream qs = Inr (take n stream)"
    using assms(2) by (auto simp: iter_frames_Inr write_stream_Inr)
qed

theorem truncated_stream_is_a_prefix_witness:
  "write_stream [''ab'', ''cde''] = Inr (magic @ framed [''ab'', ''cde'']) \<and>
   iter_frames (take 17 (magic @ framed [''ab'', ''cde''])) = ([''ab''], Inl frame_stream_error) \<and>
   prefix [''ab''] [''ab'', ''cde'']"
proof -
  have w: "write_stream [''ab'', ''cde''] = Inr (magic @ framed [''ab'', ''cde''])"
    by (simp add: write_stream_Inr frame_ok_def max_frame_bytes_def)
  have i: "iter_frames (take 17 (magic @ framed [''ab'', ''cde''])) = ([''ab''], Inl frame_stream_error)"
    by (simp add: iter_frames_def magic_def framed_def pack_length_def read_frames.simps unpack_length_def bad_length_def
        max_frame_bytes_def)
  show ?thesis using w i truncated_stream_is_a_prefix [OF w i] by blast
qed

end
