(* ===== verification/SessionFormat.thy ===== *)
theory SessionFormat
  imports PyJson PyText FrameStream
begin

text \<open>
  \<open>contracts/session.py\<close>: the validator of a complete v0 recording-session directory.  The directory
  is the name of the root and the files below it; \<open>loads\<close> stands for \<open>json.loads\<close>, with the exceptions it
  documents (\<open>JSONDecodeError\<close>, a \<open>ValueError\<close> for an integer of more than 4,300 digits, a \<open>RecursionError\<close> for a
  text that is nested too deeply), \<open>instant\<close> for \<open>datetime.fromisoformat\<close> (whether the value is aware, and the
  instant; None: \<open>ValueError\<close>) and \<open>hash\<close> for the hexadecimal SHA-256.  A \<open>SessionValidationError\<close> keeps
  its stable code; its location and message are dropped.
\<close>

section \<open>Scalars\<close>

definition session_error :: "string \<Rightarrow> pyexc" where
  "session_error code = AppError ''SessionValidationError'' code False"

abbreviation failE :: "bool \<Rightarrow> string \<Rightarrow> 'a res \<Rightarrow> 'a res" where
  "failE bad code k \<equiv> guardE bad (session_error code) k"

abbreviation "session_format \<equiv> ''ylx.recording-session.v0''"
abbreviation "state_format \<equiv> ''ylx.recording-session-state.v0''"
abbreviation "frame_format \<equiv> ''ylx.frame.v0''"
abbreviation "imu_format \<equiv> ''ylx.imu.v0''"
abbreviation "diagnostic_format \<equiv> ''ylx.diagnostic.v0''"

definition role_paths :: "(string \<times> string) list" where
  "role_paths =
     [(''session.metadata'', ''session.json''), (''video.left'', ''video/left.bin''),
      (''video.right'', ''video/right.bin''), (''frames.timeline'', ''frames.ndjson''),
      (''imu.samples'', ''imu.ndjson''), (''diagnostics.events'', ''diagnostics.ndjson'')]"

definition role_media_types :: "(string \<times> string) list" where
  "role_media_types =
     [(''session.metadata'', ''application/json''), (''video.left'', ''application/vnd.ylx.frame-stream''),
      (''video.right'', ''application/vnd.ylx.frame-stream''), (''frames.timeline'', ''application/x-ndjson''),
      (''imu.samples'', ''application/x-ndjson''), (''diagnostics.events'', ''application/x-ndjson'')]"

definition strict_object :: "json \<Rightarrow> string list \<Rightarrow> jobject res" where
  "strict_object v required =
     (case v of
        JObj d \<Rightarrow>
          failE (\<not> set required \<subseteq> set (map fst d)) ''missing_field''
          (failE (\<not> set (map fst d) \<subseteq> set required) ''unknown_field'' (Inr d))
      | _ \<Rightarrow> Inl (session_error ''invalid_type''))"

definition non_negative_int :: "json \<Rightarrow> int res" where
  "non_negative_int v =
     (case v of JInt i \<Rightarrow> failE (i < 0) ''invalid_value'' (Inr i) | _ \<Rightarrow> Inl (session_error ''invalid_value''))"

text \<open>\<open>float(value)\<close> of an integer that rounds beyond the largest double overflows; a NaN is not \<open><= 0\<close>.\<close>

definition positive_number :: "json \<Rightarrow> unit res" where
  "positive_number v =
     (case v of
        JInt i \<Rightarrow> failE (i \<le> 0) ''invalid_value'' (guardE (2 ^ 1024 - 2 ^ 970 \<le> i) OverflowError (Inr ()))
      | JFloat (Fin r) \<Rightarrow> failE (r \<le> 0) ''invalid_value'' (Inr ())
      | JFloat NInf \<Rightarrow> Inl (session_error ''invalid_value'')
      | JFloat PInf \<Rightarrow> Inr ()
      | JFloat NaN \<Rightarrow> Inr ()
      | _ \<Rightarrow> Inl (session_error ''invalid_value''))"

text \<open>\<open>str(uuid.UUID(value)) == value\<close> holds exactly for the canonical lower-case form.\<close>

definition session_uuid :: "json \<Rightarrow> string res" where
  "session_uuid v =
     (case v of JStr s \<Rightarrow> failE (\<not> uuid_shape s) ''invalid_value'' (Inr s) | _ \<Rightarrow> Inl (session_error ''invalid_value''))"

definition utc_text :: "string \<Rightarrow> string" where
  "utc_text s = concat (map (\<lambda>c. if c = CHR ''Z'' then ''+00:00'' else [c]) s)"

definition timestamp :: "(string \<Rightarrow> (bool \<times> int) option) \<Rightarrow> json \<Rightarrow> (bool \<times> int) res" where
  "timestamp instant v =
     (case v of
        JStr s \<Rightarrow>
          failE (\<not> (ends_with s ''Z'' \<or> ends_with s ''+00:00'')) ''invalid_value''
            (case instant (utc_text s) of None \<Rightarrow> Inl (session_error ''invalid_value'') | Some t \<Rightarrow> Inr t)
      | _ \<Rightarrow> Inl (session_error ''invalid_value''))"

text \<open>\<open>a < b\<close> on \<open>datetime\<close>s: an aware and a naive one do not compare.\<close>

definition earlier :: "bool \<times> int \<Rightarrow> bool \<times> int \<Rightarrow> bool res" where
  "earlier a b = guardE (fst a \<noteq> fst b) TypeError (Inr (snd a < snd b))"

definition safe_path :: "json \<Rightarrow> string res" where
  "safe_path v =
     (case v of
        JStr s \<Rightarrow>
          failE (s = [] \<or> CHR 0x5C \<in> set s) ''unsafe_path''
          (failE (path_absolute s \<or> ''..'' \<in> set (path_parts s)) ''unsafe_path''
          (failE (path_text s \<noteq> s) ''unsafe_path'' (Inr s)))
      | _ \<Rightarrow> Inl (session_error ''unsafe_path''))"

section \<open>Files\<close>

text \<open>A file or link that a path names: \<open>file_lookup\<close> is the outcome of \<open>resolve(strict=True)\<close>, which may be refused
  (a component without permission or that is no directory) or run into a loop of symbolic links
  (\<open>RuntimeError\<close> in Python 3.11 and 3.12); such a file is not readable either.\<close>

datatype lookup = Resolved | LookupRefused | SymlinkLoop

record session_file =
  file_bytes :: string
  file_plain :: bool
  file_readable :: bool
  file_lookup :: lookup

record session_root =
  root_name :: string
  root_files :: "(string \<times> session_file) list"

definition read_text :: "session_file \<Rightarrow> string option" where
  "read_text f =
     (if file_readable f \<and> utf8_valid (file_bytes f) then Some (universal_newlines (file_bytes f)) else None)"

datatype loaded = Loaded json | NotJson | LongNumber | TooDeep

text \<open>\<open>json.loads\<close> under \<open>except json.JSONDecodeError\<close>: its other two exceptions escape.\<close>

definition parse_json :: "(string \<Rightarrow> loaded) \<Rightarrow> string \<Rightarrow> string \<Rightarrow> json res" where
  "parse_json loads code text =
     (case loads text of
        Loaded v \<Rightarrow> Inr v
      | NotJson \<Rightarrow> Inl (session_error code)
      | LongNumber \<Rightarrow> Inl ValueError
      | TooDeep \<Rightarrow> Inl RuntimeError)"

definition session_json :: "(string \<Rightarrow> loaded) \<Rightarrow> session_file option \<Rightarrow> jobject res" where
  "session_json loads file =
     (case file of
        None \<Rightarrow> Inl (session_error ''missing_file'')
      | Some f \<Rightarrow>
         (case read_text f of
            None \<Rightarrow> Inl (session_error ''invalid_json'')
          | Some text \<Rightarrow>
              bindE (parse_json loads ''invalid_json'' text) (\<lambda>v.
                (case v of JObj d \<Rightarrow> Inr d | _ \<Rightarrow> Inl (session_error ''invalid_type'')))))"

definition ndjson_line :: "(string \<Rightarrow> loaded) \<Rightarrow> string \<Rightarrow> string \<Rightarrow> string \<Rightarrow> jobject res" where
  "ndjson_line loads expected_format session_id line =
     failE (is_blank line) ''invalid_ndjson''
      (bindE (parse_json loads ''invalid_ndjson'' line) (\<lambda>v.
        (case v of
           JObj d \<Rightarrow>
             failE (\<not> eq_str (jget d ''format'') expected_format) ''unsupported_version''
             (failE (\<not> eq_str (jget d ''session_id'') session_id) ''identity_mismatch'' (Inr d))
         | _ \<Rightarrow> Inl (session_error ''invalid_ndjson''))))"

fun ndjson_lines :: "(string \<Rightarrow> loaded) \<Rightarrow> string \<Rightarrow> string \<Rightarrow> string list \<Rightarrow> jobject list res" where
  "ndjson_lines loads fmt session_id [] = Inr []"
| "ndjson_lines loads fmt session_id (line # ls) =
     bindE (ndjson_line loads fmt session_id line) (\<lambda>d.
     bindE (ndjson_lines loads fmt session_id ls) (\<lambda>ds. Inr (d # ds)))"

definition ndjson :: "(string \<Rightarrow> loaded) \<Rightarrow> string \<Rightarrow> string \<Rightarrow> session_file \<Rightarrow> jobject list res" where
  "ndjson loads fmt session_id f =
     (case read_text f of
        None \<Rightarrow> Inl (session_error ''invalid_ndjson'')
      | Some text \<Rightarrow> ndjson_lines loads fmt session_id (splitlines text))"

section \<open>The frame timeline\<close>

definition frame_keys :: "string list" where
  "frame_keys = [''format'', ''session_id'', ''sequence'', ''source_sequence'', ''host_monotonic_ns'']"

record frame_cursor =
  fc_index :: int
  fc_source :: int
  fc_time :: int

definition frame_step :: "jobject \<Rightarrow> frame_cursor \<Rightarrow> frame_cursor res" where
  "frame_step d c =
     bindE (strict_object (JObj d) frame_keys) (\<lambda>item.
     bindE (non_negative_int (jget item ''sequence'')) (\<lambda>n.
     failE (n \<noteq> fc_index c) ''count_mismatch''
     (bindE (non_negative_int (jget item ''source_sequence'')) (\<lambda>source.
      bindE (non_negative_int (jget item ''host_monotonic_ns'')) (\<lambda>host_time.
      failE (source \<le> fc_source c) ''non_monotonic''
      (failE (host_time \<le> fc_time c) ''non_monotonic''
        (Inr \<lparr>fc_index = fc_index c + 1, fc_source = source, fc_time = host_time\<rparr>)))))))"

definition validate_frames :: "jobject list \<Rightarrow> unit res" where
  "validate_frames records =
     bindE (foldE frame_step records \<lparr>fc_index = 0, fc_source = -1, fc_time = -1\<rparr>) (\<lambda>_. Inr ())"

section \<open>The IMU records\<close>

definition raw_axis :: "json \<Rightarrow> bool" where
  "raw_axis v = int_in v (\<lambda>i. -32768 \<le> i \<and> i \<le> 32767)"

definition raw_vector :: "json \<Rightarrow> unit res" where
  "raw_vector v =
     (case v of
        JList xs \<Rightarrow> failE (length xs \<noteq> 3) ''invalid_value'' (failE (\<not> list_all raw_axis xs) ''invalid_value'' (Inr ()))
      | _ \<Rightarrow> Inl (session_error ''invalid_value''))"

definition imu_keys :: "string list" where
  "imu_keys = [''format'', ''session_id'', ''sequence'', ''packet_sequence'', ''sample_index'',
     ''device_timestamp_raw'', ''device_ticks'', ''host_read_start_ns'', ''host_read_end_ns'',
     ''host_monotonic_ns'', ''raw'', ''sync'']"

record imu_cursor =
  ic_sequence :: int
  ic_packet :: int
  ic_index :: int
  ic_raw :: int
  ic_ticks :: int
  ic_time :: int
  ic_interval :: "int \<times> int"

definition no_imu :: imu_cursor where
  "no_imu = \<lparr>ic_sequence = -1, ic_packet = -1, ic_index = -1, ic_raw = -1, ic_ticks = -1, ic_time = -1,
     ic_interval = (-1, -1)\<rparr>"

text \<open>The scalar fields of one record, in the order the code reads them.\<close>

definition imu_scalars :: "jobject \<Rightarrow> imu_cursor res" where
  "imu_scalars item =
     bindE (non_negative_int (jget item ''sequence'')) (\<lambda>seq.
     bindE (non_negative_int (jget item ''packet_sequence'')) (\<lambda>packet.
     bindE (non_negative_int (jget item ''sample_index'')) (\<lambda>index.
     failE (index \<noteq> 0 \<and> index \<noteq> 1) ''invalid_value''
     (bindE (non_negative_int (jget item ''device_timestamp_raw'')) (\<lambda>raw.
     failE (raw \<ge> 2 ^ 24) ''invalid_value''
     (bindE (non_negative_int (jget item ''device_ticks'')) (\<lambda>ticks.
     failE (ticks mod 2 ^ 24 \<noteq> raw) ''invalid_value''
     (bindE (non_negative_int (jget item ''host_read_start_ns'')) (\<lambda>start.
     bindE (non_negative_int (jget item ''host_read_end_ns'')) (\<lambda>stop.
     bindE (non_negative_int (jget item ''host_monotonic_ns'')) (\<lambda>host.
     failE (stop < start \<or> \<not> (start \<le> host \<and> host \<le> stop)) ''invalid_value''
       (Inr \<lparr>ic_sequence = seq, ic_packet = packet, ic_index = index, ic_raw = raw, ic_ticks = ticks,
             ic_time = host, ic_interval = (start, stop)\<rparr>))))))))))))"

definition imu_order :: "imu_cursor \<Rightarrow> imu_cursor \<Rightarrow> unit res" where
  "imu_order c n =
     failE (ic_sequence n \<le> ic_sequence c) ''non_monotonic''
     (failE (ic_packet n < ic_packet c) ''non_monotonic''
     (if ic_packet n = ic_packet c then
        failE (ic_index n \<le> ic_index c \<or> ic_raw n \<noteq> ic_raw c \<or> ic_ticks n \<noteq> ic_ticks c \<or>
               ic_time n \<noteq> ic_time c \<or> ic_interval n \<noteq> ic_interval c) ''packet_mismatch'' (Inr ())
      else
        failE (0 \<le> ic_packet c \<and> (ic_ticks n \<le> ic_ticks c \<or> ic_time n \<le> ic_time c)) ''non_monotonic'' (Inr ())))"

definition imu_sync :: "jobject \<Rightarrow> unit res" where
  "imu_sync sync =
     bindE (in_set (jget sync ''quality'') [''good'', ''degraded'', ''insufficient'']) (\<lambda>known.
     failE (\<not> known) ''invalid_value''
     (if eq_str (jget sync ''quality'') ''insufficient'' then
        failE (jget sync ''offset_ns'' \<noteq> JNull \<or> jget sync ''residual_ns'' \<noteq> JNull) ''invalid_value'' (Inr ())
      else
        failE (\<not> is_int (jget sync ''offset_ns'') \<or> \<not> int_in (jget sync ''residual_ns'') (\<lambda>i. 0 \<le> i)) ''invalid_value''
          (Inr ())))"

definition imu_step :: "jobject \<Rightarrow> imu_cursor \<Rightarrow> imu_cursor res" where
  "imu_step d c =
     bindE (strict_object (JObj d) imu_keys) (\<lambda>item.
     bindE (imu_scalars item) (\<lambda>n.
     bindE (imu_order c n) (\<lambda>_.
     bindE (strict_object (jget item ''raw'') [''accelerometer'', ''gyroscope'']) (\<lambda>raw.
     bindE (raw_vector (jget raw ''accelerometer'')) (\<lambda>_.
     bindE (raw_vector (jget raw ''gyroscope'')) (\<lambda>_.
     bindE (strict_object (jget item ''sync'') [''offset_ns'', ''residual_ns'', ''quality'']) (\<lambda>sync.
     bindE (imu_sync sync) (\<lambda>_. Inr n))))))))"

definition validate_imu :: "jobject list \<Rightarrow> unit res" where
  "validate_imu records = bindE (foldE imu_step records no_imu) (\<lambda>_. Inr ())"

section \<open>The diagnostics\<close>

definition diagnostic_keys :: "string list" where
  "diagnostic_keys = [''format'', ''session_id'', ''monotonic_ns'', ''severity'', ''code'', ''message'', ''count'']"

definition diagnostic_step :: "jobject \<Rightarrow> string list \<times> int \<Rightarrow> (string list \<times> int) res" where
  "diagnostic_step d s =
     (case s of (codes, previous) \<Rightarrow>
      bindE (strict_object (JObj d) diagnostic_keys) (\<lambda>item.
      bindE (non_negative_int (jget item ''monotonic_ns'')) (\<lambda>time.
      failE (time < previous) ''non_monotonic''
      (bindE (in_set (jget item ''severity'') [''info'', ''warning'', ''error'']) (\<lambda>known.
       failE (\<not> known) ''invalid_value''
       (failE (\<not> is_nonempty_str (jget item ''code'')) ''invalid_value''
       (failE (\<not> is_nonempty_str (jget item ''message'')) ''invalid_value''
       (bindE (non_negative_int (jget item ''count'')) (\<lambda>_.
         (case jget item ''code'' of JStr code \<Rightarrow> Inr (List.insert code codes, time) | _ \<Rightarrow> Inr (codes, time)))))))))))"

definition validate_diagnostics :: "jobject list \<Rightarrow> string list res" where
  "validate_diagnostics records = bindE (foldE diagnostic_step records ([], -1)) (\<lambda>(codes, _). Inr codes)"

section \<open>The manifest\<close>

definition check_time :: "(string \<Rightarrow> (bool \<times> int) option) \<Rightarrow> json \<Rightarrow> unit res" where
  "check_time instant v =
     bindE (strict_object v [''started_at'', ''ended_at'']) (\<lambda>time.
     bindE (timestamp instant (jget time ''ended_at'')) (\<lambda>ended.
     bindE (timestamp instant (jget time ''started_at'')) (\<lambda>started.
     bindE (earlier ended started) (\<lambda>bad. failE bad ''invalid_value'' (Inr ())))))"

definition check_device :: "json \<Rightarrow> unit res" where
  "check_device v =
     bindE (strict_object v [''id'', ''software_version'']) (\<lambda>device.
     failE (\<not> list_all (\<lambda>k. is_nonempty_str (jget device k)) [''id'', ''software_version'']) ''invalid_value'' (Inr ()))"

definition check_video :: "json \<Rightarrow> unit res" where
  "check_video v =
     bindE (strict_object v [''width'', ''height'', ''fps'', ''encoding'', ''coordinate_frame'']) (\<lambda>video.
     bindE (non_negative_int (jget video ''width'')) (\<lambda>width.
     bindE (non_negative_int (jget video ''height'')) (\<lambda>height.
     failE (width = 0 \<or> height = 0) ''invalid_value''
     (bindE (positive_number (jget video ''fps'')) (\<lambda>_.
      failE (\<not> is_nonempty_str (jget video ''encoding'')) ''invalid_value''
      (failE (\<not> eq_str (jget video ''coordinate_frame'') ''opencv_optical'') ''invalid_value'' (Inr ())))))))"

definition check_range :: "jobject \<Rightarrow> string \<Rightarrow> string \<Rightarrow> unit res" where
  "check_range ranges name unit =
     bindE (strict_object (jget ranges name) [''full_scale'', ''unit'']) (\<lambda>configured.
     bindE (positive_number (jget configured ''full_scale'')) (\<lambda>_.
     failE (\<not> eq_str (jget configured ''unit'') unit) ''invalid_value'' (Inr ())))"

definition check_imu_config :: "json \<Rightarrow> unit res" where
  "check_imu_config v =
     bindE (strict_object v [''coordinate_frame'', ''device_tick_hz'', ''ranges'']) (\<lambda>config.
     failE (\<not> eq_str (jget config ''coordinate_frame'') ''opencv_optical'') ''invalid_value''
     (bindE (if jget config ''device_tick_hz'' = JNull then Inr () else positive_number (jget config ''device_tick_hz'')) (\<lambda>_.
      if jget config ''ranges'' = JNull then Inr ()
      else
        bindE (strict_object (jget config ''ranges'') [''accelerometer'', ''gyroscope'']) (\<lambda>ranges.
        bindE (check_range ranges ''accelerometer'' ''g'') (\<lambda>_.
        check_range ranges ''gyroscope'' ''degree_per_second'')))))"

definition check_clock :: "json \<Rightarrow> unit res" where
  "check_clock v =
     bindE (strict_object v [''domain'', ''unit'']) (\<lambda>clock.
     failE (\<not> (eq_str (jget clock ''domain'') ''host_monotonic'' \<and> eq_str (jget clock ''unit'') ''nanosecond''))
       ''invalid_value'' (Inr ()))"

definition check_capture :: "json \<Rightarrow> unit res" where
  "check_capture v =
     bindE (strict_object v [''video'', ''imu'', ''clock'']) (\<lambda>capture.
     bindE (check_video (jget capture ''video'')) (\<lambda>_.
     bindE (check_imu_config (jget capture ''imu'')) (\<lambda>_.
     check_clock (jget capture ''clock''))))"

definition count_keys :: "string list" where
  "count_keys = [''frames'', ''imu_samples'', ''diagnostics'', ''dropped_frames'', ''dropped_imu_samples'']"

record session_counts =
  sc_frames :: int
  sc_imu :: int
  sc_diagnostics :: int
  sc_dropped_frames :: int
  sc_dropped_imu :: int

definition check_counts :: "json \<Rightarrow> session_counts res" where
  "check_counts v =
     bindE (strict_object v count_keys) (\<lambda>counts.
     bindE (non_negative_int (jget counts ''frames'')) (\<lambda>f.
     bindE (non_negative_int (jget counts ''imu_samples'')) (\<lambda>i.
     bindE (non_negative_int (jget counts ''diagnostics'')) (\<lambda>d.
     bindE (non_negative_int (jget counts ''dropped_frames'')) (\<lambda>df.
     bindE (non_negative_int (jget counts ''dropped_imu_samples'')) (\<lambda>di.
       Inr \<lparr>sc_frames = f, sc_imu = i, sc_diagnostics = d, sc_dropped_frames = df, sc_dropped_imu = di\<rparr>))))))"

section \<open>The artifacts\<close>

text \<open>\<open>by_role\<close> with what is used of it, the declared record count and the file; \<open>seen_paths\<close>.\<close>

record artifact_table =
  at_roles :: "(string \<times> (int \<times> session_file)) list"
  at_paths :: "string list"

definition role_name :: "json \<Rightarrow> (string \<times> string) list \<Rightarrow> string res" where
  "role_name v roles =
     (if unhashable v then Inl TypeError
      else (case v of JStr s \<Rightarrow> failE (map_of roles s = None) ''invalid_role'' (Inr s)
            | _ \<Rightarrow> Inl (session_error ''invalid_role'')))"

definition artifact_step ::
  "(string \<Rightarrow> string) \<Rightarrow> session_root \<Rightarrow> json \<Rightarrow> artifact_table \<Rightarrow> artifact_table res" where
  "artifact_step hash dir v t =
     bindE (strict_object v [''role'', ''path'', ''media_type'', ''bytes'', ''sha256'', ''records'']) (\<lambda>artifact.
     bindE (role_name (jget artifact ''role'') role_paths) (\<lambda>role.
     failE (map_of (at_roles t) role \<noteq> None) ''duplicate_role''
     (bindE (safe_path (jget artifact ''path'')) (\<lambda>relative.
      failE (relative \<in> set (at_paths t)) ''duplicate_path''
      (failE (map_of role_paths role \<noteq> Some relative \<or>
              \<not> eq_str (jget artifact ''media_type'') (the (map_of role_media_types role))) ''role_mismatch''
      (case map_of (root_files dir) relative of
         None \<Rightarrow> Inl (session_error ''missing_file'')
       | Some f \<Rightarrow>
           guardE (file_lookup f = LookupRefused) OSError
           (guardE (file_lookup f = SymlinkLoop) RuntimeError
           (failE (\<not> file_plain f) ''unsafe_path''
           (bindE (non_negative_int (jget artifact ''bytes'')) (\<lambda>expected_bytes.
            bindE (non_negative_int (jget artifact ''records'')) (\<lambda>expected_records.
            failE (int (length (file_bytes f)) \<noteq> expected_bytes) ''size_mismatch''
            (failE (\<not> str_in (jget artifact ''sha256'') (hex_n 64)) ''invalid_value''
            (guardE (\<not> file_readable f) OSError
            (failE (\<not> eq_str (jget artifact ''sha256'') (hash (file_bytes f))) ''digest_mismatch''
              (Inr \<lparr>at_roles = (role, (expected_records, f)) # at_roles t, at_paths = relative # at_paths t\<rparr>)))))))))))))))"

definition check_artifacts :: "(string \<Rightarrow> string) \<Rightarrow> session_root \<Rightarrow> json \<Rightarrow> artifact_table res" where
  "check_artifacts hash dir v =
     (case v of
        JList artifacts \<Rightarrow>
          bindE (foldE (artifact_step hash dir) artifacts \<lparr>at_roles = [], at_paths = []\<rparr>) (\<lambda>t.
          failE (set (map fst (at_roles t)) \<noteq> set (map fst role_paths)) ''missing_role'' (Inr t))
      | _ \<Rightarrow> Inl (session_error ''invalid_type''))"

definition role_records :: "artifact_table \<Rightarrow> string \<Rightarrow> int" where
  "role_records t role = fst (the (map_of (at_roles t) role))"

definition role_file :: "artifact_table \<Rightarrow> string \<Rightarrow> session_file" where
  "role_file t role = snd (the (map_of (at_roles t) role))"

section \<open>The contents\<close>

definition check_state ::
  "(string \<Rightarrow> loaded) \<Rightarrow> (string \<Rightarrow> (bool \<times> int) option) \<Rightarrow> string \<Rightarrow> artifact_table \<Rightarrow> unit res" where
  "check_state loads instant session_id t =
     bindE (session_json loads (Some (role_file t ''session.metadata''))) (\<lambda>d.
     bindE (strict_object (JObj d) [''format'', ''session_id'', ''state'', ''started_at'', ''updated_at'', ''failure'']) (\<lambda>state.
     failE (\<not> eq_str (jget state ''format'') state_format) ''unsupported_version''
     (failE (\<not> eq_str (jget state ''session_id'') session_id) ''identity_mismatch''
     (failE (\<not> eq_str (jget state ''state'') ''sealed'' \<or> jget state ''failure'' \<noteq> JNull) ''not_sealed''
     (bindE (timestamp instant (jget state ''started_at'')) (\<lambda>_.
      bindE (timestamp instant (jget state ''updated_at'')) (\<lambda>_.
      failE (role_records t ''session.metadata'' \<noteq> 1) ''count_mismatch'' (Inr ()))))))))"

definition expected_records :: "session_counts \<Rightarrow> (string \<times> int) list" where
  "expected_records c =
     [(''video.left'', sc_frames c), (''video.right'', sc_frames c), (''frames.timeline'', sc_frames c),
      (''imu.samples'', sc_imu c), (''diagnostics.events'', sc_diagnostics c)]"

definition check_stream :: "artifact_table \<Rightarrow> session_counts \<Rightarrow> string \<Rightarrow> unit res" where
  "check_stream t c role =
     (case iter_frames (file_bytes (role_file t role)) of
        (payloads, Inl e) \<Rightarrow> Inl (session_error ''invalid_frame_stream'')
      | (payloads, Inr _) \<Rightarrow> failE (int (length payloads) \<noteq> sc_frames c) ''count_mismatch'' (Inr ()))"

definition check_contents ::
  "(string \<Rightarrow> loaded) \<Rightarrow> string \<Rightarrow> artifact_table \<Rightarrow> session_counts \<Rightarrow> unit res" where
  "check_contents loads session_id t c =
     bindE (ndjson loads frame_format session_id (role_file t ''frames.timeline'')) (\<lambda>frames.
     bindE (ndjson loads imu_format session_id (role_file t ''imu.samples'')) (\<lambda>imu.
     bindE (ndjson loads diagnostic_format session_id (role_file t ''diagnostics.events'')) (\<lambda>diagnostics.
     bindE (validate_frames frames) (\<lambda>_.
     bindE (validate_imu imu) (\<lambda>_.
     bindE (validate_diagnostics diagnostics) (\<lambda>codes.
     failE (\<not> list_all (\<lambda>(role, n). role_records t role = n) (expected_records c)) ''count_mismatch''
     (failE (int (length frames) \<noteq> sc_frames c \<or> int (length imu) \<noteq> sc_imu c) ''count_mismatch''
     (failE (int (length diagnostics) \<noteq> sc_diagnostics c) ''count_mismatch''
     (bindE (check_stream t c ''video.left'') (\<lambda>_.
      bindE (check_stream t c ''video.right'') (\<lambda>_.
      failE (sc_dropped_frames c \<noteq> 0 \<and> ''frame_dropped'' \<notin> set codes) ''unreported_loss''
      (failE (sc_dropped_imu c \<noteq> 0 \<and> ''imu_dropped'' \<notin> set codes) ''unreported_loss'' (Inr ())))))))))))))"

definition manifest_keys :: "string list" where
  "manifest_keys = [''format'', ''state'', ''session_id'', ''time'', ''device'', ''capture'', ''counts'', ''artifacts'']"

definition validate_session ::
  "(string \<Rightarrow> loaded) \<Rightarrow> (string \<Rightarrow> (bool \<times> int) option) \<Rightarrow> (string \<Rightarrow> string)
     \<Rightarrow> session_root \<Rightarrow> bool \<Rightarrow> jobject res" where
  "validate_session loads instant hash dir allow_partial =
     (let is_partial = ends_with (root_name dir) ''.partial'' in
      failE (is_partial \<and> \<not> allow_partial) ''not_sealed''
      (bindE (session_json loads (map_of (root_files dir) ''manifest.json'')) (\<lambda>d.
       bindE (strict_object (JObj d) manifest_keys) (\<lambda>manifest.
       failE (\<not> eq_str (jget manifest ''format'') session_format) ''unsupported_version''
       (failE (\<not> eq_str (jget manifest ''state'') ''sealed'') ''not_sealed''
       (bindE (session_uuid (jget manifest ''session_id'')) (\<lambda>session_id.
        failE (root_name dir \<noteq> (if is_partial then session_id @ ''.partial'' else session_id)) ''identity_mismatch''
        (bindE (check_time instant (jget manifest ''time'')) (\<lambda>_.
         bindE (check_device (jget manifest ''device'')) (\<lambda>_.
         bindE (check_capture (jget manifest ''capture'')) (\<lambda>_.
         bindE (check_counts (jget manifest ''counts'')) (\<lambda>counts.
         bindE (check_artifacts hash dir (jget manifest ''artifacts'')) (\<lambda>t.
         bindE (check_state loads instant session_id t) (\<lambda>_.
         bindE (check_contents loads session_id t counts) (\<lambda>_. Inr manifest)))))))))))))))"

end
