(* ===== verification/SessionFacts.thy ===== *)
theory SessionFacts
  imports SessionFormat
begin

text \<open>
  What the session validator guarantees: the loops over the NDJSON records against declarative
  specifications of a frame timeline and of a sequence of IMU records, the meaning of an accepted
  directory, and the exceptions it can raise.
\<close>

section \<open>Exceptions\<close>

definition session_codes :: "string list" where
  "session_codes = [''missing_file'', ''invalid_json'', ''invalid_type'', ''missing_field'', ''unknown_field'',
     ''invalid_value'', ''unsafe_path'', ''invalid_ndjson'', ''unsupported_version'', ''identity_mismatch'',
     ''count_mismatch'', ''non_monotonic'', ''packet_mismatch'', ''not_sealed'', ''invalid_role'',
     ''duplicate_role'', ''duplicate_path'', ''role_mismatch'', ''size_mismatch'', ''digest_mismatch'',
     ''missing_role'', ''invalid_frame_stream'', ''unreported_loss'']"

text \<open>What can escape: a number or a nesting that \<open>json.loads\<close> refuses, and a loop of links, only if there is one.\<close>

definition session_exceptions :: "(string \<Rightarrow> loaded) \<Rightarrow> session_root \<Rightarrow> pyexc set" where
  "session_exceptions loads dir = session_error ` set session_codes \<union> {TypeError, OverflowError, OSError} \<union>
     {e. e = ValueError \<and> (\<exists>text. loads text = LongNumber)} \<union>
     {e. e = RuntimeError \<and> ((\<exists>text. loads text = TooDeep) \<or> (\<exists>(path, f) \<in> set (root_files dir). file_lookup f = SymlinkLoop))}"

lemma session_exceptions [simp]:
  "TypeError \<in> session_exceptions loads dir" "OverflowError \<in> session_exceptions loads dir"
  "OSError \<in> session_exceptions loads dir"
  "code \<in> set session_codes \<Longrightarrow> session_error code \<in> session_exceptions loads dir"
  by (simp_all add: session_exceptions_def)

lemma session_escapes:
  "loads text = LongNumber \<Longrightarrow> ValueError \<in> session_exceptions loads dir"
  "loads text = TooDeep \<Longrightarrow> RuntimeError \<in> session_exceptions loads dir"
  "map_of (root_files dir) path = Some f \<Longrightarrow> file_lookup f = SymlinkLoop \<Longrightarrow> RuntimeError \<in> session_exceptions loads dir"
  by (auto simp: session_exceptions_def dest: map_of_SomeD)

abbreviation "session_raises loads dir m \<equiv> raises_only (session_exceptions loads dir) m"

lemma code_in [simp]:
  "''missing_file'' \<in> set session_codes" "''invalid_json'' \<in> set session_codes" "''invalid_type'' \<in> set session_codes"
  "''missing_field'' \<in> set session_codes" "''unknown_field'' \<in> set session_codes" "''invalid_value'' \<in> set session_codes"
  "''unsafe_path'' \<in> set session_codes" "''invalid_ndjson'' \<in> set session_codes" "''unsupported_version'' \<in> set session_codes"
  "''identity_mismatch'' \<in> set session_codes" "''count_mismatch'' \<in> set session_codes" "''non_monotonic'' \<in> set session_codes"
  "''packet_mismatch'' \<in> set session_codes" "''not_sealed'' \<in> set session_codes" "''invalid_role'' \<in> set session_codes"
  "''duplicate_role'' \<in> set session_codes" "''duplicate_path'' \<in> set session_codes" "''role_mismatch'' \<in> set session_codes"
  "''size_mismatch'' \<in> set session_codes" "''digest_mismatch'' \<in> set session_codes" "''missing_role'' \<in> set session_codes"
  "''invalid_frame_stream'' \<in> set session_codes" "''unreported_loss'' \<in> set session_codes"
  by (simp_all add: session_codes_def)

named_theorems raise_facts \<open>each function of the validator raises only the listed exceptions\<close>

lemma strict_object_raises [raise_facts]: "session_raises loads dir (strict_object v ks)"
  by (cases v) (auto simp: strict_object_def)

lemma scalar_raises [raise_facts]:
  "session_raises loads dir (non_negative_int v)" "session_raises loads dir (session_uuid v)" "session_raises loads dir (safe_path v)"
  "session_raises loads dir (raw_vector v)" "session_raises loads dir (in_set v ss)" "session_raises loads dir (role_name v roles)"
  by (cases v; auto simp: non_negative_int_def session_uuid_def safe_path_def raw_vector_def in_set_def role_name_def)+

lemma positive_number_raises [raise_facts]: "session_raises loads dir (positive_number v)"
proof (cases v)
  case (JFloat f)
  then show ?thesis by (cases f) (auto simp: positive_number_def)
qed (auto simp: positive_number_def)

lemma timestamp_raises [raise_facts]: "session_raises loads dir (timestamp instant v)" "session_raises loads dir (earlier a b)"
  by (cases v; auto simp: timestamp_def earlier_def split: option.split)+

lemma parse_json_raises [raise_facts]: "code \<in> set session_codes \<Longrightarrow> session_raises loads dir (parse_json loads code text)"
  by (auto simp: parse_json_def intro: session_escapes split: loaded.split)

lemma session_json_raises [raise_facts]: "session_raises loads dir (session_json loads f)"
  by (auto simp: session_json_def intro: raise_facts split: option.splits json.splits)

lemma ndjson_line_raises: "session_raises loads dir (ndjson_line loads fmt sid line)"
  by (auto simp: ndjson_line_def intro: raise_facts split: json.splits)

lemma ndjson_lines_raises: "session_raises loads dir (ndjson_lines loads fmt sid ls)"
  by (induction ls) (auto intro: ndjson_line_raises)

lemma ndjson_raises [raise_facts]: "session_raises loads dir (ndjson loads fmt sid f)"
  by (auto simp: ndjson_def ndjson_lines_raises split: option.splits)

lemma frame_step_raises: "session_raises loads dir (frame_step d c)"
  by (auto simp: frame_step_def intro: raise_facts)

lemma imu_raises [raise_facts]: "session_raises loads dir (imu_scalars d)" "session_raises loads dir (imu_order c n)" "session_raises loads dir (imu_sync d)"
  by (auto simp: imu_scalars_def imu_order_def imu_sync_def intro: raise_facts)

lemma imu_step_raises: "session_raises loads dir (imu_step d c)"
  by (auto simp: imu_step_def intro: raise_facts)

lemma diagnostic_step_raises: "session_raises loads dir (diagnostic_step d s)"
  by (auto simp: diagnostic_step_def intro: raise_facts split: prod.split json.split)

lemma validators_raise [raise_facts]:
  "session_raises loads dir (validate_frames ds)" "session_raises loads dir (validate_imu ds)" "session_raises loads dir (validate_diagnostics ds)"
  by (auto simp: validate_frames_def validate_imu_def validate_diagnostics_def
      intro: raises_only_fold frame_step_raises imu_step_raises diagnostic_step_raises split: prod.split)

lemma manifest_raises [raise_facts]:
  "session_raises loads dir (check_time instant v)" "session_raises loads dir (check_device v)" "session_raises loads dir (check_video v)"
  "session_raises loads dir (check_range ranges name unit)" "session_raises loads dir (check_clock v)" "session_raises loads dir (check_counts v)"
  by (auto simp: check_time_def check_device_def check_video_def check_range_def check_clock_def check_counts_def
      intro: raise_facts)

lemma check_imu_config_raises [raise_facts]: "session_raises loads dir (check_imu_config v)"
  by (auto simp: check_imu_config_def intro: raise_facts)

lemma check_capture_raises [raise_facts]: "session_raises loads dir (check_capture v)"
  by (auto simp: check_capture_def intro: raise_facts)

lemma artifact_step_raises: "session_raises loads dir (artifact_step hash dir v t)"
proof -
  have link: "RuntimeError \<in> session_exceptions loads dir" if "map_of (root_files dir) p = Some f" "file_lookup f = SymlinkLoop" for p f
    by (rule session_escapes(3) [OF that])
  have found: "raises_only S (case v of None \<Rightarrow> a | Some x \<Rightarrow> b x)"
    if "raises_only S a" "\<And>x. v = Some x \<Longrightarrow> raises_only S (b x)" for S v and a :: "'b res" and b :: "'c \<Rightarrow> 'b res"
    using that by (cases v) simp_all
  show ?thesis by (auto simp: artifact_step_def link intro: raise_facts intro!: found del: raises_only_option)
qed

lemma check_artifacts_raises [raise_facts]: "session_raises loads dir (check_artifacts hash dir v)"
  by (cases v) (auto simp: check_artifacts_def intro: raises_only_fold artifact_step_raises)

lemma contents_raise [raise_facts]:
  "session_raises loads dir (check_state loads instant sid t)" "session_raises loads dir (check_stream t c role)"
  by (auto simp: check_state_def check_stream_def intro: raise_facts split: prod.split sum.split)

lemma check_contents_raises [raise_facts]: "session_raises loads dir (check_contents loads sid t c)"
  by (auto simp: check_contents_def intro: raise_facts)

lemma validate_session_raises: "session_raises loads dir (validate_session loads instant hash dir p)"
  by (auto simp: validate_session_def Let_def intro: raise_facts)

section \<open>The frame timeline\<close>

definition jint :: "jobject \<Rightarrow> string \<Rightarrow> int" where
  "jint d k = (case jget d k of JInt i \<Rightarrow> i | _ \<Rightarrow> 0)"

lemma strict_object_Inr: "strict_object v ks = Inr d \<longleftrightarrow> v = JObj d \<and> has_keys d ks"
  by (cases v) (auto simp: strict_object_def has_keys_def)

lemma non_negative_int_Inr: "non_negative_int v = Inr i \<longleftrightarrow> v = JInt i \<and> 0 \<le> i"
  by (cases v) (auto simp: non_negative_int_def)

definition frame_record_ok :: "jobject \<Rightarrow> bool" where
  "frame_record_ok d \<longleftrightarrow> has_keys d frame_keys \<and>
     list_all (\<lambda>k. int_in (jget d k) (\<lambda>i. 0 \<le> i)) [''sequence'', ''source_sequence'', ''host_monotonic_ns'']"

definition frame_before :: "jobject \<Rightarrow> jobject \<Rightarrow> bool" where
  "frame_before d e \<longleftrightarrow> jint d ''source_sequence'' < jint e ''source_sequence'' \<and>
     jint d ''host_monotonic_ns'' < jint e ''host_monotonic_ns''"

text \<open>A frame timeline: record \<open>i\<close> is well formed and numbered \<open>i\<close>, and source numbers and host times
  increase strictly.\<close>

definition timeline_ok :: "jobject list \<Rightarrow> bool" where
  "timeline_ok ds \<longleftrightarrow> list_all frame_record_ok ds \<and> map (\<lambda>d. jint d ''sequence'') ds = map int [0..<length ds] \<and>
     sorted_wrt frame_before ds"

lemma int_in_iff: "int_in v p \<longleftrightarrow> (\<exists>i. v = JInt i \<and> p i)"
  by (cases v) auto

lemma frame_step_Inr:
  "frame_step d c = Inr c' \<longleftrightarrow> frame_record_ok d \<and> jint d ''sequence'' = fc_index c \<and>
     fc_source c < jint d ''source_sequence'' \<and> fc_time c < jint d ''host_monotonic_ns'' \<and>
     c' = \<lparr>fc_index = fc_index c + 1, fc_source = jint d ''source_sequence'', fc_time = jint d ''host_monotonic_ns''\<rparr>"
  by (auto simp: frame_step_def bindE_eq_Inr strict_object_Inr non_negative_int_Inr frame_record_ok_def int_in_iff
      jint_def not_le)

lemma frames_fold_Inr:
  "(\<exists>c'. foldE frame_step ds c = Inr c') \<longleftrightarrow>
     list_all frame_record_ok ds \<and> map (\<lambda>d. jint d ''sequence'') ds = map (\<lambda>k. fc_index c + int k) [0..<length ds] \<and>
     sorted_wrt frame_before ds \<and>
     list_all (\<lambda>d. fc_source c < jint d ''source_sequence'' \<and> fc_time c < jint d ''host_monotonic_ns'') ds"
proof (induction ds arbitrary: c)
  case (Cons d ds)
  define c1 where "c1 = \<lparr>fc_index = fc_index c + 1, fc_source = jint d ''source_sequence'', fc_time = jint d ''host_monotonic_ns''\<rparr>"
  have l: "(\<exists>c'. foldE frame_step (d # ds) c = Inr c') \<longleftrightarrow>
      (frame_record_ok d \<and> jint d ''sequence'' = fc_index c \<and> fc_source c < jint d ''source_sequence'' \<and>
       fc_time c < jint d ''host_monotonic_ns'') \<and> (\<exists>c'. foldE frame_step ds c1 = Inr c')"
    by (auto simp: bindE_eq_Inr frame_step_Inr c1_def)
  have m: "map (\<lambda>k. fc_index c1 + int k) [0..<length ds] = map (\<lambda>k. fc_index c + int (Suc k)) [0..<length ds]"
    by (simp add: c1_def)
  have u: "map (\<lambda>k. fc_index c + int k) [0..<length (d # ds)] = fc_index c # map (\<lambda>k. fc_index c + int (Suc k)) [0..<length ds]"
    by (simp add: map_upt_Suc del: upt_Suc)
  show ?case
    unfolding l Cons.IH m u
    by (auto simp: c1_def frame_before_def [abs_def] list_all_iff)
qed simp

lemma validate_frames_Inr: "validate_frames ds = Inr () \<longleftrightarrow> timeline_ok ds"
proof -
  have "validate_frames ds = Inr () \<longleftrightarrow> (\<exists>c'. foldE frame_step ds \<lparr>fc_index = 0, fc_source = -1, fc_time = -1\<rparr> = Inr c')"
    by (simp add: validate_frames_def bindE_eq_Inr)
  moreover have "list_all frame_record_ok ds \<Longrightarrow>
      list_all (\<lambda>d. -1 < jint d ''source_sequence'' \<and> -1 < jint d ''host_monotonic_ns'') ds"
    by (auto simp: list_all_iff frame_record_ok_def int_in_iff jint_def)
  ultimately show ?thesis unfolding frames_fold_Inr timeline_ok_def by auto
qed

section \<open>The IMU records\<close>

definition imu_cursor_of :: "jobject \<Rightarrow> imu_cursor" where
  "imu_cursor_of d = \<lparr>ic_sequence = jint d ''sequence'', ic_packet = jint d ''packet_sequence'', ic_index = jint d ''sample_index'',
     ic_raw = jint d ''device_timestamp_raw'', ic_ticks = jint d ''device_ticks'', ic_time = jint d ''host_monotonic_ns'',
     ic_interval = (jint d ''host_read_start_ns'', jint d ''host_read_end_ns'')\<rparr>"

text \<open>One well-formed record, and how two records of a session, the first earlier, are related.\<close>

definition imu_cursor_ok :: "imu_cursor \<Rightarrow> bool" where
  "imu_cursor_ok n \<longleftrightarrow> 0 \<le> ic_sequence n \<and> 0 \<le> ic_packet n \<and> ic_index n \<in> {0, 1} \<and> 0 \<le> ic_raw n \<and> ic_raw n < 2 ^ 24 \<and>
     0 \<le> ic_ticks n \<and> ic_ticks n mod 2 ^ 24 = ic_raw n \<and> 0 \<le> fst (ic_interval n) \<and>
     fst (ic_interval n) \<le> ic_time n \<and> ic_time n \<le> snd (ic_interval n)"

definition imu_record_ok :: "jobject \<Rightarrow> bool" where
  "imu_record_ok d \<longleftrightarrow> has_keys d imu_keys \<and> imu_cursor_ok (imu_cursor_of d) \<and>
     list_all (\<lambda>k. is_int (jget d k)) [''sequence'', ''packet_sequence'', ''sample_index'', ''device_timestamp_raw'',
       ''device_ticks'', ''host_read_start_ns'', ''host_read_end_ns'', ''host_monotonic_ns''] \<and>
     (case (jget d ''raw'', jget d ''sync'') of
        (JObj raw, JObj sync) \<Rightarrow>
          has_keys raw [''accelerometer'', ''gyroscope''] \<and> raw_vector (jget raw ''accelerometer'') = Inr () \<and>
          raw_vector (jget raw ''gyroscope'') = Inr () \<and>
          has_keys sync [''offset_ns'', ''residual_ns'', ''quality''] \<and> imu_sync sync = Inr ()
      | _ \<Rightarrow> False)"

definition same_packet :: "imu_cursor \<Rightarrow> imu_cursor \<Rightarrow> bool" where
  "same_packet c n \<longleftrightarrow> ic_packet n = ic_packet c \<and> ic_index c < ic_index n \<and> ic_raw n = ic_raw c \<and> ic_ticks n = ic_ticks c \<and>
     ic_time n = ic_time c \<and> ic_interval n = ic_interval c"

definition later_packet :: "imu_cursor \<Rightarrow> imu_cursor \<Rightarrow> bool" where
  "later_packet c n \<longleftrightarrow> ic_packet c < ic_packet n \<and> ic_ticks c < ic_ticks n \<and> ic_time c < ic_time n"

definition imu_before :: "imu_cursor \<Rightarrow> imu_cursor \<Rightarrow> bool" where
  "imu_before c n \<longleftrightarrow> ic_sequence c < ic_sequence n \<and> (same_packet c n \<or> later_packet c n)"

lemma imu_before_trans: "imu_before a b \<Longrightarrow> imu_before b c \<Longrightarrow> imu_before a c"
  by (auto simp: imu_before_def same_packet_def later_packet_def)

lemma imu_order_Inr: "0 \<le> ic_packet c \<Longrightarrow> imu_order c n = Inr () \<longleftrightarrow> imu_before c n"
  by (auto simp: imu_order_def imu_before_def same_packet_def later_packet_def not_le not_less)

lemma imu_order_first: "imu_cursor_ok n \<Longrightarrow> imu_order no_imu n = Inr ()"
  by (auto simp: imu_order_def no_imu_def imu_cursor_ok_def)

lemma imu_scalars_Inr:
  "imu_scalars d = Inr n \<longleftrightarrow> n = imu_cursor_of d \<and> imu_cursor_ok n \<and>
     list_all (\<lambda>k. is_int (jget d k)) [''sequence'', ''packet_sequence'', ''sample_index'', ''device_timestamp_raw'',
       ''device_ticks'', ''host_read_start_ns'', ''host_read_end_ns'', ''host_monotonic_ns'']"
proof -
  have i: "is_int v \<longleftrightarrow> (\<exists>i. v = JInt i)" for v by (cases v) auto
  show ?thesis
    by (auto simp: imu_scalars_def bindE_eq_Inr non_negative_int_Inr imu_cursor_of_def imu_cursor_ok_def jint_def i
        not_le not_less)
qed

lemma imu_step_Inr: "imu_step d c = Inr n \<longleftrightarrow> imu_record_ok d \<and> n = imu_cursor_of d \<and> imu_order c n = Inr ()"
  by (auto simp: imu_step_def bindE_eq_Inr strict_object_Inr imu_scalars_Inr imu_record_ok_def split: json.splits)

text \<open>The records of a session.\<close>

definition imu_sequence_ok :: "jobject list \<Rightarrow> bool" where
  "imu_sequence_ok ds \<longleftrightarrow> list_all imu_record_ok ds \<and> sorted_wrt imu_before (map imu_cursor_of ds)"

lemma imu_fold_Inr:
  assumes "0 \<le> ic_packet c"
  shows "(\<exists>n. foldE imu_step ds c = Inr n) \<longleftrightarrow>
     list_all imu_record_ok ds \<and> sorted_wrt imu_before (map imu_cursor_of ds) \<and> list_all (\<lambda>d. imu_before c (imu_cursor_of d)) ds"
  using assms
proof (induction ds arbitrary: c)
  case (Cons d ds)
  let ?n = "imu_cursor_of d"
  have l: "(\<exists>n. foldE imu_step (d # ds) c = Inr n) \<longleftrightarrow>
      imu_record_ok d \<and> imu_before c ?n \<and> (\<exists>n. foldE imu_step ds ?n = Inr n)"
    using Cons.prems by (auto simp: bindE_eq_Inr imu_step_Inr imu_order_Inr)
  have n: "imu_record_ok d \<Longrightarrow> 0 \<le> ic_packet ?n" by (simp add: imu_record_ok_def imu_cursor_ok_def)
  show ?case
    unfolding l using Cons.IH [OF n] by (auto simp: list_all_iff intro: imu_before_trans)
qed simp

lemma validate_imu_Inr: "validate_imu ds = Inr () \<longleftrightarrow> imu_sequence_ok ds"
proof (cases ds)
  case (Cons d rest)
  let ?n = "imu_cursor_of d"
  have "validate_imu ds = Inr () \<longleftrightarrow> imu_record_ok d \<and> (\<exists>n. foldE imu_step rest ?n = Inr n)"
    by (auto simp: validate_imu_def Cons bindE_eq_Inr imu_step_Inr imu_order_first imu_record_ok_def)
  moreover have "imu_record_ok d \<Longrightarrow> 0 \<le> ic_packet ?n" by (simp add: imu_record_ok_def imu_cursor_ok_def)
  ultimately show ?thesis
    using imu_fold_Inr [of ?n rest] by (auto simp: imu_sequence_ok_def Cons list_all_iff)
qed (simp add: validate_imu_def imu_sequence_ok_def)

lemma packet_at_most_two:
  assumes "imu_sequence_ok ds"
  shows "length (filter (\<lambda>d. jint d ''packet_sequence'' = p) ds) \<le> 2"
proof -
  let ?f = "filter (\<lambda>d. jint d ''packet_sequence'' = p) ds"
  have s: "sorted_wrt (\<lambda>d e. imu_before (imu_cursor_of d) (imu_cursor_of e)) ?f"
    using assms by (intro sorted_wrt_filter) (simp add: imu_sequence_ok_def sorted_wrt_map)
  have idx: "jint d ''sample_index'' \<in> {0, 1}" if "d \<in> set ?f" for d
    using assms that by (auto simp: imu_sequence_ok_def list_all_iff imu_record_ok_def imu_cursor_ok_def imu_cursor_of_def)
  have lt: "jint (?f ! i) ''sample_index'' < jint (?f ! j) ''sample_index''" if "i < j" "j < length ?f" for i j
  proof -
    have p: "jint (?f ! k) ''packet_sequence'' = p" if "k < length ?f" for k
      using nth_mem [OF that] by simp
    have "imu_before (imu_cursor_of (?f ! i)) (imu_cursor_of (?f ! j))" using s that by (simp add: sorted_wrt_iff_nth_less)
    then show ?thesis using p [of i] p [of j] that
      by (auto simp: imu_before_def same_packet_def later_packet_def imu_cursor_of_def)
  qed
  show ?thesis
  proof (rule ccontr)
    assume "\<not> length ?f \<le> 2"
    then have l: "0 < length ?f" "1 < length ?f" "2 < length ?f" by linarith+
    have "jint (?f ! 0) ''sample_index'' \<ge> 0" "jint (?f ! 2) ''sample_index'' \<le> 1"
      using idx [OF nth_mem [OF l(1)]] idx [OF nth_mem [OF l(3)]] by auto
    moreover have "jint (?f ! 0) ''sample_index'' < jint (?f ! 1) ''sample_index''" by (rule lt) (use l in simp_all)
    moreover have "jint (?f ! 1) ''sample_index'' < jint (?f ! 2) ''sample_index''" by (rule lt) (use l in simp_all)
    ultimately show False by linarith
  qed
qed

section \<open>Diagnostics\<close>

lemma diagnostic_codes:
  assumes "foldE diagnostic_step ds (codes, t) = Inr (codes', t')"
  shows "set codes' = set codes \<union> {c. \<exists>d \<in> set ds. jget d ''code'' = JStr c}"
  using assms
proof (induction ds arbitrary: codes t)
  case (Cons d ds)
  then obtain s where s: "diagnostic_step d (codes, t) = Inr s" "foldE diagnostic_step ds s = Inr (codes', t')"
    by (auto simp: bindE_eq_Inr)
  obtain codes1 t1 where p: "s = (codes1, t1)" by (cases s)
  have "is_nonempty_str (jget d ''code'')"
    using s(1) unfolding diagnostic_step_def prod.case bindE_eq_Inr strict_object_Inr guardE_eq_Inr by blast
  then obtain c where c: "jget d ''code'' = JStr c" by (cases "jget d ''code''") auto
  then have "codes1 = List.insert c codes"
    using s(1) p by (clarsimp simp: diagnostic_step_def bindE_eq_Inr strict_object_Inr)
  then have "set codes1 = insert c (set codes)" by simp
  moreover have "set codes' = set codes1 \<union> {c. \<exists>d \<in> set ds. jget d ''code'' = JStr c}"
    using Cons.IH [of codes1 t1] s(2) p by simp
  ultimately show ?case using c by auto
qed simp

lemma validate_diagnostics_codes:
  "validate_diagnostics ds = Inr codes \<Longrightarrow> set codes = {c. \<exists>d \<in> set ds. jget d ''code'' = JStr c}"
  by (auto simp: validate_diagnostics_def bindE_eq_Inr dest!: diagnostic_codes)

section \<open>A complete session\<close>

text \<open>What \<open>validate_session\<close> promises of a directory it accepts, without its order of checks.\<close>

definition artifact_holds :: "(string \<Rightarrow> string) \<Rightarrow> session_root \<Rightarrow> string \<times> string \<Rightarrow> json \<Rightarrow> bool" where
  "artifact_holds hash dir rp v \<longleftrightarrow>
     (\<exists>d f. v = JObj d \<and> jget d ''role'' = JStr (fst rp) \<and> jget d ''path'' = JStr (snd rp) \<and>
        map_of (root_files dir) (snd rp) = Some f \<and> file_plain f \<and> file_readable f \<and>
        jget d ''bytes'' = JInt (int (length (file_bytes f))) \<and> jget d ''sha256'' = JStr (hash (file_bytes f)))"

definition artifact_file :: "session_root \<Rightarrow> string \<Rightarrow> session_file" where
  "artifact_file dir path = the (map_of (root_files dir) path)"

definition complete_session ::
  "(string \<Rightarrow> loaded) \<Rightarrow> (string \<Rightarrow> string) \<Rightarrow> session_root \<Rightarrow> jobject \<Rightarrow> bool" where
  "complete_session loads hash dir m \<longleftrightarrow>
     (\<exists>sid counts artifacts frames imu diagnostics.
        jget m ''session_id'' = JStr sid \<and> uuid_shape sid \<and> root_name dir \<in> {sid, sid @ ''.partial''} \<and>
        jget m ''state'' = JStr ''sealed'' \<and>
        jget m ''counts'' = JObj counts \<and> jget m ''artifacts'' = JList artifacts \<and>
        length artifacts = length role_paths \<and>
        (\<forall>rp \<in> set role_paths. \<exists>v \<in> set artifacts. artifact_holds hash dir rp v) \<and>
        ndjson loads frame_format sid (artifact_file dir ''frames.ndjson'') = Inr frames \<and>
        ndjson loads imu_format sid (artifact_file dir ''imu.ndjson'') = Inr imu \<and>
        ndjson loads diagnostic_format sid (artifact_file dir ''diagnostics.ndjson'') = Inr diagnostics \<and>
        timeline_ok frames \<and> imu_sequence_ok imu \<and>
        jint counts ''frames'' = int (length frames) \<and> jint counts ''imu_samples'' = int (length imu) \<and>
        jint counts ''diagnostics'' = int (length diagnostics) \<and>
        (\<forall>path \<in> {''video/left.bin'', ''video/right.bin''}. \<exists>ps. length ps = length frames \<and>
           write_stream ps = Inr (file_bytes (artifact_file dir path))) \<and>
        (jint counts ''dropped_frames'' = 0 \<or> (\<exists>d \<in> set diagnostics. jget d ''code'' = JStr ''frame_dropped'')) \<and>
        (jint counts ''dropped_imu_samples'' = 0 \<or> (\<exists>d \<in> set diagnostics. jget d ''code'' = JStr ''imu_dropped'')))"

text \<open>The artifact loop.\<close>

definition table_ok :: "(string \<Rightarrow> string) \<Rightarrow> session_root \<Rightarrow> json list \<Rightarrow> artifact_table \<Rightarrow> bool" where
  "table_ok hash dir vs t \<longleftrightarrow>
     length (at_roles t) = length vs \<and> distinct (map fst (at_roles t)) \<and>
     (\<forall>(role, n, f) \<in> set (at_roles t). \<exists>path. map_of role_paths role = Some path \<and>
        map_of (root_files dir) path = Some f \<and> (\<exists>v \<in> set vs. artifact_holds hash dir (role, path) v))"

lemma safe_path_Inr: "safe_path v = Inr s \<Longrightarrow> v = JStr s"
  by (cases v) (auto simp: safe_path_def)

lemma role_name_Inr: "role_name v roles = Inr s \<Longrightarrow> v = JStr s"
  by (cases v) (auto simp: role_name_def)

lemma artifact_step_Inr:
  assumes "artifact_step hash dir v t = Inr t'"
  obtains d role path n f where "v = JObj d" "artifact_holds hash dir (role, path) v" "map_of (at_roles t) role = None"
    "map_of role_paths role = Some path" "map_of (root_files dir) path = Some f"
    "t' = \<lparr>at_roles = (role, (n, f)) # at_roles t, at_paths = path # at_paths t\<rparr>"
proof -
  from assms obtain d role path where c: "v = JObj d" "role_name (jget d ''role'') role_paths = Inr role"
      "\<not> map_of (at_roles t) role \<noteq> None" "safe_path (jget d ''path'') = Inr path"
      "\<not> (map_of role_paths role \<noteq> Some path \<or>
          \<not> eq_str (jget d ''media_type'') (the (map_of role_media_types role)))"
    and k: "(case map_of (root_files dir) path of
         None \<Rightarrow> Inl (session_error ''missing_file'')
       | Some f \<Rightarrow>
           guardE (file_lookup f = LookupRefused) OSError
           (guardE (file_lookup f = SymlinkLoop) RuntimeError
           (failE (\<not> file_plain f) ''unsafe_path''
           (bindE (non_negative_int (jget d ''bytes'')) (\<lambda>expected_bytes.
            bindE (non_negative_int (jget d ''records'')) (\<lambda>expected_records.
            failE (int (length (file_bytes f)) \<noteq> expected_bytes) ''size_mismatch''
            (failE (\<not> str_in (jget d ''sha256'') (hex_n 64)) ''invalid_value''
            (guardE (\<not> file_readable f) OSError
            (failE (\<not> eq_str (jget d ''sha256'') (hash (file_bytes f))) ''digest_mismatch''
              (Inr \<lparr>at_roles = (role, (expected_records, f)) # at_roles t, at_paths = path # at_paths t\<rparr>)))))))))) = Inr t'"
    unfolding artifact_step_def bindE_eq_Inr strict_object_Inr guardE_eq_Inr
    by blast
  have d: "v = JObj d" "jget d ''role'' = JStr role" "jget d ''path'' = JStr path"
      "map_of (at_roles t) role = None" "map_of role_paths role = Some path"
    using c role_name_Inr safe_path_Inr by blast+
  from k obtain f n where f: "map_of (root_files dir) path = Some f" "file_plain f" "file_readable f"
      "jget d ''bytes'' = JInt (int (length (file_bytes f)))" "jget d ''sha256'' = JStr (hash (file_bytes f))"
      "t' = \<lparr>at_roles = (role, (n, f)) # at_roles t, at_paths = path # at_paths t\<rparr>"
    by (auto simp: bindE_eq_Inr non_negative_int_Inr eq_str_def split: option.splits)
  have "artifact_holds hash dir (role, path) v" using d f by (auto simp: artifact_holds_def)
  then show thesis using that d f by blast
qed

lemma table_ok_step:
  assumes "table_ok hash dir vs t" and "artifact_step hash dir v t = Inr t'"
  shows "table_ok hash dir (vs @ [v]) t'"
  using assms(2)
proof (rule artifact_step_Inr)
  fix d role path n f
  assume "artifact_holds hash dir (role, path) v" "map_of (at_roles t) role = None" "map_of role_paths role = Some path"
    "map_of (root_files dir) path = Some f" "t' = \<lparr>at_roles = (role, (n, f)) # at_roles t, at_paths = path # at_paths t\<rparr>"
  then show ?thesis using assms(1) by (fastforce simp: table_ok_def map_of_eq_None_iff)
qed

lemma table_ok_fold:
  "foldE (artifact_step hash dir) vs t = Inr t' \<Longrightarrow> table_ok hash dir us t \<Longrightarrow> table_ok hash dir (us @ vs) t'"
proof (induction vs arbitrary: us t)
  case (Cons v vs)
  then obtain t1 where t1: "artifact_step hash dir v t = Inr t1" "foldE (artifact_step hash dir) vs t1 = Inr t'"
    by (auto simp: bindE_eq_Inr)
  show ?case using Cons.IH [OF t1(2) table_ok_step [OF Cons.prems(2) t1(1)]] by simp
qed simp

lemma check_artifacts_ok:
  assumes "check_artifacts hash dir v = Inr t"
  obtains vs where "v = JList vs" "table_ok hash dir vs t" "set (map fst (at_roles t)) = set (map fst role_paths)"
proof -
  from assms obtain vs where "v = JList vs"
      "foldE (artifact_step hash dir) vs \<lparr>at_roles = [], at_paths = []\<rparr> = Inr t"
      "set (map fst (at_roles t)) = set (map fst role_paths)"
    by (cases v) (auto simp: check_artifacts_def bindE_eq_Inr)
  moreover have "table_ok hash dir [] \<lparr>at_roles = [], at_paths = []\<rparr>" by (simp add: table_ok_def)
  ultimately show thesis using that table_ok_fold [of hash dir vs _ t "[]"] by simp
qed

lemma table_role:
  assumes "table_ok hash dir vs t" and "set (map fst (at_roles t)) = set (map fst role_paths)"
    and "(role, path) \<in> set role_paths"
  shows "role_file t role = artifact_file dir path" and "\<exists>v \<in> set vs. artifact_holds hash dir (role, path) v"
proof -
  have d: "map_of role_paths role = Some path"
    using assms(3) by (auto simp: role_paths_def)
  have "role \<in> set (map fst (at_roles t))" using assms(2,3) by force
  then obtain n f where m: "map_of (at_roles t) role = Some (n, f)"
    by (cases "map_of (at_roles t) role") (auto simp: map_of_eq_None_iff)
  then have "(role, n, f) \<in> set (at_roles t)" by (rule map_of_SomeD)
  then have "map_of (root_files dir) path = Some f" "\<exists>v \<in> set vs. artifact_holds hash dir (role, path) v"
    using assms(1) d by (fastforce simp: table_ok_def)+
  then show "role_file t role = artifact_file dir path" "\<exists>v \<in> set vs. artifact_holds hash dir (role, path) v"
    using m by (simp_all add: role_file_def artifact_file_def)
qed

lemma table_length:
  assumes "table_ok hash dir vs t" and "set (map fst (at_roles t)) = set (map fst role_paths)"
  shows "length vs = length role_paths"
proof -
  have "distinct (map fst role_paths)" by (simp add: role_paths_def)
  then have "length (map fst (at_roles t)) = length (map fst role_paths)"
    using assms distinct_card [of "map fst (at_roles t)"] distinct_card [of "map fst role_paths"]
    by (simp add: table_ok_def del: length_map)
  then show ?thesis using assms(1) by (simp add: table_ok_def)
qed

end
