(* ===== verification/SessionProps.thy ===== *)
theory SessionProps
  imports SessionFacts
begin

text \<open>The properties of the session validator, with a concrete directory it accepts.\<close>

lemma ex_unit: "(\<exists>x :: unit. P x) \<longleftrightarrow> P ()"
  by (metis (full_types) old.unit.exhaust)

lemma check_stream_Inr:
  assumes "check_stream t c role = Inr ()"
  shows "\<exists>ps. int (length ps) = sc_frames c \<and> write_stream ps = Inr (file_bytes (role_file t role))"
proof -
  obtain ps out where i: "iter_frames (file_bytes (role_file t role)) = (ps, out)"
    by (cases "iter_frames (file_bytes (role_file t role))")
  with assms have "out = Inr ()" "int (length ps) = sc_frames c"
    by (auto simp: check_stream_def split: sum.splits)
  with i show ?thesis by (auto simp: iter_frames_Inr write_stream_Inr)
qed

lemma check_counts_Inr:
  assumes "check_counts v = Inr c"
  obtains d where "v = JObj d" "jint d ''frames'' = sc_frames c" "jint d ''imu_samples'' = sc_imu c"
    "jint d ''diagnostics'' = sc_diagnostics c" "jint d ''dropped_frames'' = sc_dropped_frames c"
    "jint d ''dropped_imu_samples'' = sc_dropped_imu c"
  using assms
  by (auto simp: check_counts_def bindE_eq_Inr strict_object_Inr non_negative_int_Inr jint_def)

lemma check_contents_Inr:
  assumes "check_contents loads sid t c = Inr ()"
  obtains frames imu diagnostics codes where
    "ndjson loads frame_format sid (role_file t ''frames.timeline'') = Inr frames"
    "ndjson loads imu_format sid (role_file t ''imu.samples'') = Inr imu"
    "ndjson loads diagnostic_format sid (role_file t ''diagnostics.events'') = Inr diagnostics"
    "validate_frames frames = Inr ()" "validate_imu imu = Inr ()" "validate_diagnostics diagnostics = Inr codes"
    "int (length frames) = sc_frames c" "int (length imu) = sc_imu c" "int (length diagnostics) = sc_diagnostics c"
    "check_stream t c ''video.left'' = Inr ()" "check_stream t c ''video.right'' = Inr ()"
    "sc_dropped_frames c = 0 \<or> ''frame_dropped'' \<in> set codes" "sc_dropped_imu c = 0 \<or> ''imu_dropped'' \<in> set codes"
  using assms unfolding check_contents_def bindE_eq_Inr guardE_eq_Inr ex_unit not_not de_Morgan_disj de_Morgan_conj by blast

lemma validate_session_Inr:
  assumes "validate_session loads instant hash dir p = Inr m"
  obtains sid c t where "has_keys m manifest_keys" "jget m ''state'' = JStr ''sealed''" "jget m ''session_id'' = JStr sid" "uuid_shape sid"
    "root_name dir \<in> {sid, sid @ ''.partial''}" "p \<or> root_name dir = sid" "check_counts (jget m ''counts'') = Inr c"
    "check_artifacts hash dir (jget m ''artifacts'') = Inr t" "check_contents loads sid t c = Inr ()"
proof -
  from assms obtain sid c t where *: "has_keys m manifest_keys" "eq_str (jget m ''state'') ''sealed''"
      "session_uuid (jget m ''session_id'') = Inr sid"
      "root_name dir = (if ends_with (root_name dir) ''.partial'' then sid @ ''.partial'' else sid)"
      "ends_with (root_name dir) ''.partial'' \<Longrightarrow> p"
      "check_counts (jget m ''counts'') = Inr c" "check_artifacts hash dir (jget m ''artifacts'') = Inr t"
      "check_contents loads sid t c = Inr ()"
    unfolding validate_session_def Let_def bindE_eq_Inr guardE_eq_Inr strict_object_Inr ex_unit not_not
      json.inject sum.inject by blast
  moreover have "jget m ''session_id'' = JStr sid" "uuid_shape sid"
    using *(3) by (cases "jget m ''session_id''"; auto simp: session_uuid_def)+
  ultimately show thesis using that [of sid c t] by (auto simp: eq_str_def split: if_splits)
qed

lemma accepted_is_complete:
  assumes "validate_session loads instant hash dir p = Inr m"
  shows "complete_session loads hash dir m"
proof -
  from validate_session_Inr [OF assms] obtain sid c t where
    m: "jget m ''state'' = JStr ''sealed''" "jget m ''session_id'' = JStr sid" "uuid_shape sid" "root_name dir \<in> {sid, sid @ ''.partial''}"
    and c: "check_counts (jget m ''counts'') = Inr c" and a: "check_artifacts hash dir (jget m ''artifacts'') = Inr t"
    and k: "check_contents loads sid t c = Inr ()" by metis
  from check_counts_Inr [OF c] obtain counts where counts: "jget m ''counts'' = JObj counts"
    "jint counts ''frames'' = sc_frames c" "jint counts ''imu_samples'' = sc_imu c" "jint counts ''diagnostics'' = sc_diagnostics c"
    "jint counts ''dropped_frames'' = sc_dropped_frames c" "jint counts ''dropped_imu_samples'' = sc_dropped_imu c" by metis
  from check_artifacts_ok [OF a] obtain vs where vs: "jget m ''artifacts'' = JList vs" "table_ok hash dir vs t"
    "set (map fst (at_roles t)) = set (map fst role_paths)" by metis
  note tf = table_role (1) [OF vs(2,3)]
  have holds: "\<forall>rp \<in> set role_paths. \<exists>v \<in> set vs. artifact_holds hash dir rp v"
    using table_role (2) [OF vs(2,3)] by auto
  have files: "role_file t ''frames.timeline'' = artifact_file dir ''frames.ndjson''"
    "role_file t ''imu.samples'' = artifact_file dir ''imu.ndjson''"
    "role_file t ''diagnostics.events'' = artifact_file dir ''diagnostics.ndjson''"
    "role_file t ''video.left'' = artifact_file dir ''video/left.bin''"
    "role_file t ''video.right'' = artifact_file dir ''video/right.bin''"
    by (rule tf; simp add: role_paths_def)+
  from check_contents_Inr [OF k] obtain frames imu diagnostics codes where n:
    "ndjson loads frame_format sid (role_file t ''frames.timeline'') = Inr frames"
    "ndjson loads imu_format sid (role_file t ''imu.samples'') = Inr imu"
    "ndjson loads diagnostic_format sid (role_file t ''diagnostics.events'') = Inr diagnostics"
    and v: "validate_frames frames = Inr ()" "validate_imu imu = Inr ()" "validate_diagnostics diagnostics = Inr codes"
    and l: "int (length frames) = sc_frames c" "int (length imu) = sc_imu c" "int (length diagnostics) = sc_diagnostics c"
    and s: "check_stream t c ''video.left'' = Inr ()" "check_stream t c ''video.right'' = Inr ()"
    and d: "sc_dropped_frames c = 0 \<or> ''frame_dropped'' \<in> set codes" "sc_dropped_imu c = 0 \<or> ''imu_dropped'' \<in> set codes"
    by metis
  have streams: "\<forall>path \<in> {''video/left.bin'', ''video/right.bin''}. \<exists>ps. length ps = length frames \<and>
      write_stream ps = Inr (file_bytes (artifact_file dir path))"
    using check_stream_Inr [OF s(1)] check_stream_Inr [OF s(2)] unfolding files l(1) [symmetric] of_nat_eq_iff by simp
  have codes: "set codes = {x. \<exists>e \<in> set diagnostics. jget e ''code'' = JStr x}"
    by (rule validate_diagnostics_codes [OF v(3)])
  show ?thesis
    unfolding complete_session_def
  proof (intro exI conjI)
    show "jint counts ''dropped_frames'' = 0 \<or> (\<exists>e \<in> set diagnostics. jget e ''code'' = JStr ''frame_dropped'')"
      using d(1) counts codes by simp
    show "jint counts ''dropped_imu_samples'' = 0 \<or> (\<exists>e \<in> set diagnostics. jget e ''code'' = JStr ''imu_dropped'')"
      using d(2) counts codes by simp
    show "jint counts ''frames'' = int (length frames)" by (rule trans [OF counts(2) l(1) [symmetric]])
    show "jint counts ''imu_samples'' = int (length imu)" by (rule trans [OF counts(3) l(2) [symmetric]])
    show "jint counts ''diagnostics'' = int (length diagnostics)" by (rule trans [OF counts(4) l(3) [symmetric]])
    show "length vs = length role_paths" by (rule table_length [OF vs(2,3)])
  qed (use m counts vs(1) holds n files l v streams validate_frames_Inr validate_imu_Inr in simp_all)
qed

section \<open>A directory that is accepted\<close>

definition sample_id :: string where
  "sample_id = ''01234567-89ab-7cde-8f01-23456789abcd''"

definition sample_hash :: "string \<Rightarrow> string" where
  "sample_hash s = replicate 64 (CHR ''a'')"

definition sample_instant :: "string \<Rightarrow> (bool \<times> int) option" where
  "sample_instant s = Some (True, int (length s))"

definition sample_artifact :: "string \<Rightarrow> string \<Rightarrow> string \<Rightarrow> nat \<Rightarrow> int \<Rightarrow> json" where
  "sample_artifact role path media bytes records =
     JObj [(''role'', JStr role), (''path'', JStr path), (''media_type'', JStr media), (''bytes'', JInt (int bytes)),
       (''sha256'', JStr (replicate 64 (CHR ''a''))), (''records'', JInt records)]"

definition sample_manifest :: jobject where
  "sample_manifest =
     [(''format'', JStr session_format), (''state'', JStr ''sealed''), (''session_id'', JStr sample_id),
      (''time'', JObj [(''started_at'', JStr ''2026-01-01T00:00:00Z''), (''ended_at'', JStr ''2026-01-01T00:00:01Z'')]),
      (''device'', JObj [(''id'', JStr ''ylx''), (''software_version'', JStr ''1'')]),
      (''capture'', JObj
        [(''video'', JObj [(''width'', JInt 640), (''height'', JInt 480), (''fps'', JInt 30), (''encoding'', JStr ''mjpeg''),
            (''coordinate_frame'', JStr ''opencv_optical'')]),
         (''imu'', JObj [(''coordinate_frame'', JStr ''opencv_optical''), (''device_tick_hz'', JNull), (''ranges'', JNull)]),
         (''clock'', JObj [(''domain'', JStr ''host_monotonic''), (''unit'', JStr ''nanosecond'')])]),
      (''counts'', JObj [(''frames'', JInt 1), (''imu_samples'', JInt 0), (''diagnostics'', JInt 2),
         (''dropped_frames'', JInt 0), (''dropped_imu_samples'', JInt 0)]),
      (''artifacts'', JList
        [sample_artifact ''session.metadata'' ''session.json'' ''application/json'' 1 1,
         sample_artifact ''video.left'' ''video/left.bin'' ''application/vnd.ylx.frame-stream'' 13 1,
         sample_artifact ''video.right'' ''video/right.bin'' ''application/vnd.ylx.frame-stream'' 13 1,
         sample_artifact ''frames.timeline'' ''frames.ndjson'' ''application/x-ndjson'' 2 1,
         sample_artifact ''imu.samples'' ''imu.ndjson'' ''application/x-ndjson'' 0 0,
         sample_artifact ''diagnostics.events'' ''diagnostics.ndjson'' ''application/x-ndjson'' 4 2])]"

definition sample_state :: jobject where
  "sample_state =
     [(''format'', JStr state_format), (''session_id'', JStr sample_id), (''state'', JStr ''sealed''),
      (''started_at'', JStr ''2026-01-01T00:00:00Z''), (''updated_at'', JStr ''2026-01-01T00:00:01Z''), (''failure'', JNull)]"

definition sample_frame :: jobject where
  "sample_frame = [(''format'', JStr frame_format), (''session_id'', JStr sample_id), (''sequence'', JInt 0),
     (''source_sequence'', JInt 7), (''host_monotonic_ns'', JInt 1000)]"

definition sample_diagnostic :: "string \<Rightarrow> jobject" where
  "sample_diagnostic code = [(''format'', JStr diagnostic_format), (''session_id'', JStr sample_id), (''monotonic_ns'', JInt 5),
     (''severity'', JStr ''info''), (''code'', JStr code), (''message'', JStr ''x''), (''count'', JInt 1)]"

definition sample_loads :: "string \<Rightarrow> loaded" where
  "sample_loads text =
     (if text = ''M'' then Loaded (JObj sample_manifest) else if text = ''S'' then Loaded (JObj sample_state)
      else if text = ''F'' then Loaded (JObj sample_frame)
      else if text = ''A'' then Loaded (JObj (sample_diagnostic ''recording_started''))
      else if text = ''B'' then Loaded (JObj (sample_diagnostic ''recording_complete'')) else NotJson)"

definition plain :: "string \<Rightarrow> session_file" where
  "plain bytes = \<lparr>file_bytes = bytes, file_plain = True, file_readable = True, file_lookup = Resolved\<rparr>"

definition sample_events :: string where
  "sample_events = ''A'' @ [CHR 0x0A] @ ''B'' @ [CHR 0x0A]"

definition sample_stream :: string where
  "sample_stream = magic @ framed [''j'']"

definition sample_root :: session_root where
  "sample_root = \<lparr>root_name = sample_id, root_files =
     [(''manifest.json'', plain ''M''), (''session.json'', plain ''S''), (''video/left.bin'', plain sample_stream),
      (''video/right.bin'', plain sample_stream), (''frames.ndjson'', plain (''F'' @ [CHR 0x0A])), (''imu.ndjson'', plain []),
      (''diagnostics.ndjson'', plain sample_events)]\<rparr>"

lemmas sample_defs = sample_root_def sample_manifest_def sample_state_def sample_frame_def sample_artifact_def plain_def

lemma sample_texts:
  "utf8_valid ''M''" "utf8_valid ''S''" "utf8_valid (''F'' @ [CHR 0x0A])" "utf8_valid []"
  "universal_newlines ''M'' = ''M''" "universal_newlines ''S'' = ''S''" "universal_newlines (''F'' @ [CHR 0x0A]) = ''F'' @ [CHR 0x0A]"
  "splitlines (''F'' @ [CHR 0x0A]) = [''F'']" "splitlines [] = []" "\<not> is_blank ''F''" "\<not> is_blank ''A''" "\<not> is_blank ''B''"
  "utf8_valid sample_events" "universal_newlines sample_events = sample_events" "splitlines sample_events = [''A'', ''B'']"
  by (simp_all add: byte_def splitlines_def between_def sample_events_def)

lemma sample_uuid: "uuid_shape sample_id" "\<not> ends_with sample_id ''.partial''"
  by (simp_all add: sample_id_def uuid_shape_def uuid_classes_def is_hex_def is_digit_def eval_nat_numeral ends_with_def)

lemma sample_paths:
  "posix_safe p" if "p \<in> {''session.json'', ''video/left.bin'', ''video/right.bin'', ''frames.ndjson'', ''imu.ndjson'', ''diagnostics.ndjson''}"
  using that by (auto simp: posix_safe_def path_absolute_def path_parts_def path_text_def)

lemma sample_streams: "iter_frames sample_stream = ([''j''], Inr ())" "length sample_stream = 13"
  by (simp_all add: iter_frames_Inr sample_stream_def frame_ok_def max_frame_bytes_def magic_def)

lemma sample_hex: "hex_n 64 (replicate 64 (CHR ''a''))"
  by (auto simp: hex_n_def list_all_iff is_hex_def is_digit_def)

lemma sample_table:
  "\<exists>t. check_artifacts sample_hash (sample_root\<lparr>root_name := n\<rparr>) (jget sample_manifest ''artifacts'') = Inr t \<and>
     at_roles t = [(''diagnostics.events'', (2, plain sample_events)), (''imu.samples'', (0, plain [])),
       (''frames.timeline'', (1, plain (''F'' @ [CHR 0x0A]))), (''video.right'', (1, plain sample_stream)),
       (''video.left'', (1, plain sample_stream)), (''session.metadata'', (1, plain ''S''))]"
  using sample_streams(2) sample_hex
  by (simp add: check_artifacts_def sample_manifest_def sample_artifact_def artifact_step_def strict_object_def
      role_name_def role_paths_def role_media_types_def safe_path_def path_absolute_def path_parts_def path_text_def
      non_negative_int_def eq_str_def sample_root_def plain_def sample_hash_def sample_events_def insert_commute)

lemma sample_frames: "validate_frames [sample_frame] = Inr ()"
  by (simp add: validate_frames_def frame_step_def strict_object_def sample_frame_def frame_keys_def non_negative_int_def
      insert_commute)

lemma sample_diagnostics:
  "validate_diagnostics [sample_diagnostic ''recording_started'', sample_diagnostic ''recording_complete''] =
     Inr [''recording_complete'', ''recording_started'']"
  by (simp add: validate_diagnostics_def diagnostic_step_def strict_object_def sample_diagnostic_def diagnostic_keys_def
      non_negative_int_def in_set_def in_strs_def insert_commute List.insert_def)

lemma sample_contents:
  assumes "at_roles t = [(''diagnostics.events'', (2, plain sample_events)), (''imu.samples'', (0, plain [])),
       (''frames.timeline'', (1, plain (''F'' @ [CHR 0x0A]))), (''video.right'', (1, plain sample_stream)),
       (''video.left'', (1, plain sample_stream)), (''session.metadata'', (1, plain ''S''))]"
  shows "check_contents sample_loads sample_id t \<lparr>sc_frames = 1, sc_imu = 0, sc_diagnostics = 2, sc_dropped_frames = 0, sc_dropped_imu = 0\<rparr> = Inr ()"
    and "check_state sample_loads sample_instant sample_id t = Inr ()"
proof -
  have f: "ndjson sample_loads frame_format sample_id (plain (''F'' @ [CHR 0x0A])) = Inr [sample_frame]"
    using sample_texts by (simp add: ndjson_def read_text_def plain_def ndjson_line_def sample_loads_def parse_json_def sample_frame_def eq_str_def)
  have e: "ndjson sample_loads fmt sample_id (plain []) = Inr []" for fmt
    using sample_texts by (simp add: ndjson_def read_text_def plain_def)
  have d: "ndjson sample_loads diagnostic_format sample_id (plain sample_events) =
      Inr [sample_diagnostic ''recording_started'', sample_diagnostic ''recording_complete'']"
    using sample_texts by (simp add: ndjson_def read_text_def plain_def ndjson_line_def sample_loads_def parse_json_def sample_diagnostic_def eq_str_def)
  show "check_contents sample_loads sample_id t \<lparr>sc_frames = 1, sc_imu = 0, sc_diagnostics = 2, sc_dropped_frames = 0, sc_dropped_imu = 0\<rparr> = Inr ()"
    using f e d sample_frames sample_streams(1) sample_diagnostics
    by (simp add: check_contents_def assms role_file_def role_records_def expected_records_def check_stream_def validate_imu_def) (simp add: plain_def)
  show "check_state sample_loads sample_instant sample_id t = Inr ()"
    using sample_texts
    by (simp add: check_state_def session_json_def assms role_file_def role_records_def read_text_def plain_def sample_loads_def parse_json_def
        sample_state_def strict_object_def eq_str_def timestamp_def ends_with_def sample_instant_def insert_commute)
qed

lemma sample_accepted_at:
  assumes "n = (if p then sample_id @ ''.partial'' else sample_id)"
  shows "validate_session sample_loads sample_instant sample_hash (sample_root\<lparr>root_name := n\<rparr>) p = Inr sample_manifest"
proof -
  obtain t where t: "check_artifacts sample_hash (sample_root\<lparr>root_name := n\<rparr>) (jget sample_manifest ''artifacts'') = Inr t"
    "at_roles t = [(''diagnostics.events'', (2, plain sample_events)), (''imu.samples'', (0, plain [])),
       (''frames.timeline'', (1, plain (''F'' @ [CHR 0x0A]))), (''video.right'', (1, plain sample_stream)),
       (''video.left'', (1, plain sample_stream)), (''session.metadata'', (1, plain ''S''))]"
    using sample_table by blast
  have name: "ends_with n ''.partial'' = p" "n = (if p then sample_id @ ''.partial'' else sample_id)"
    "(p \<longrightarrow> n = sample_id @ ''.partial'') \<and> (\<not> p \<longrightarrow> n = sample_id)"
    using assms sample_uuid(2) by (cases p; simp add: ends_with_def)+
  have mf: "session_json sample_loads (map_of (root_files (sample_root\<lparr>root_name := n\<rparr>)) ''manifest.json'') = Inr sample_manifest"
    using sample_texts by (simp add: session_json_def sample_root_def read_text_def plain_def sample_loads_def parse_json_def)
  have keys: "strict_object (JObj sample_manifest) manifest_keys = Inr sample_manifest"
    by (simp add: strict_object_def sample_manifest_def manifest_keys_def insert_commute)
  have head: "jget sample_manifest ''format'' = JStr session_format" "jget sample_manifest ''state'' = JStr ''sealed''"
    "session_uuid (jget sample_manifest ''session_id'') = Inr sample_id"
    using sample_uuid by (simp_all add: sample_manifest_def session_uuid_def)
  have tm: "check_time sample_instant (jget sample_manifest ''time'') = Inr ()"
    by (simp add: sample_manifest_def check_time_def strict_object_def timestamp_def ends_with_def sample_instant_def
        earlier_def utc_text_def insert_commute)
  have dev: "check_device (jget sample_manifest ''device'') = Inr ()"
    by (simp add: sample_manifest_def check_device_def strict_object_def)
  have cap: "check_capture (jget sample_manifest ''capture'') = Inr ()"
    by (simp add: sample_manifest_def check_capture_def check_video_def check_imu_config_def check_clock_def strict_object_def
        non_negative_int_def positive_number_def eq_str_def insert_commute)
  have cnt: "check_counts (jget sample_manifest ''counts'') =
      Inr \<lparr>sc_frames = 1, sc_imu = 0, sc_diagnostics = 2, sc_dropped_frames = 0, sc_dropped_imu = 0\<rparr>"
    by (simp add: sample_manifest_def check_counts_def count_keys_def strict_object_def non_negative_int_def insert_commute)
  show ?thesis
    by (simp add: validate_session_def Let_def name(1) mf [simplified] keys head tm dev cap cnt t(1) sample_contents [OF t(2)]
        eq_str_def) (rule name(3))
qed

lemma sample_accepted:
  "validate_session sample_loads sample_instant sample_hash sample_root False = Inr sample_manifest"
  using sample_accepted_at [of sample_id False] by (simp add: sample_root_def)

section \<open>Properties\<close>

text \<open>The loop that checks the frame timeline accepts exactly the declared specification: record \<open>i\<close>
  has exactly the five fields and number \<open>i\<close>, and source sequence and host time increase strictly
  from every record to every later one.\<close>

theorem frame_loop_is_timeline: "validate_frames ds = Inr () \<longleftrightarrow> timeline_ok ds"
  by (rule validate_frames_Inr)

text \<open>The loop that checks the IMU records accepts exactly the sequences in which every record is well
  formed and any two records are ordered: the sequence number grows, and the later record either
  shares the packet (next sample index, the same device time and host read interval) or belongs to a later
  packet with a later device tick and a later host time.  A packet then has at most two records.\<close>

theorem imu_loop_is_ordered:
  "validate_imu ds = Inr () \<longleftrightarrow>
     imu_sequence_ok ds \<and> (\<forall>p. length (filter (\<lambda>d. jint d ''packet_sequence'' = p) ds) \<le> 2)"
  using validate_imu_Inr packet_at_most_two by blast

text \<open>C23: An accepted directory is a complete session: its name is its session id; each of the six roles has
  one artifact, a readable regular file inside the root with the declared size and SHA-256; the counts are
  the numbers of records really present; the timeline and the IMU records satisfy their
  specifications; both video files are well-formed frame streams with one payload per frame record;
  and a nonzero loss count is backed by a diagnostic.\<close>

theorem accepted_session_is_complete:
  assumes "validate_session loads instant hash dir partial = Inr m"
  shows "complete_session loads hash dir m"
  by (rule accepted_is_complete [OF assms])

theorem accepted_session_is_complete_witness:
  "validate_session sample_loads sample_instant sample_hash sample_root False = Inr sample_manifest \<and>
   complete_session sample_loads sample_hash sample_root sample_manifest"
  using sample_accepted accepted_session_is_complete [OF sample_accepted] by blast

text \<open>C36: Every failure of the validator is a \<open>SessionValidationError\<close> with one of 23 stable codes, or one of five
  exceptions that escape it: \<open>TypeError\<close> (an unhashable role, quality or severity; timestamps that do not
  compare), \<open>OverflowError\<close> (an integer rate beyond the doubles), \<open>OSError\<close> (an artifact that cannot be resolved or
  read), \<open>ValueError\<close> (a number that \<open>json.loads\<close> refuses to convert) and \<open>RuntimeError\<close> (a JSON text nested too
  deeply, or an artifact that is a loop of symbolic links).  The last two need such a text or such a link: where
  every text is read without them and every file resolves, only the first three remain.\<close>

theorem validator_failures_are_coded:
  assumes "validate_session loads instant hash dir partial = Inl e"
  shows "((\<exists>code \<in> set session_codes. e = session_error code) \<or>
      e \<in> {TypeError, OverflowError, OSError, ValueError, RuntimeError}) \<and>
    (e = ValueError \<longrightarrow> (\<exists>text. loads text = LongNumber)) \<and>
    (e = RuntimeError \<longrightarrow> (\<exists>text. loads text = TooDeep) \<or> (\<exists>(path, f) \<in> set (root_files dir). file_lookup f = SymlinkLoop))"
  using validate_session_raises [of loads dir instant hash partial] assms
  by (auto simp: raises_only_def session_exceptions_def session_error_def)

text \<open>A manifest that \<open>json.loads\<close> refuses to convert.\<close>

theorem validator_failures_are_coded_witness:
  "validate_session (\<lambda>text. LongNumber) sample_instant sample_hash sample_root False = Inl ValueError \<and>
   validate_session sample_loads sample_instant sample_hash (sample_root\<lparr>root_name := ''x.partial''\<rparr>) False =
     Inl (session_error ''not_sealed'') \<and>
   ((\<exists>code \<in> set session_codes. session_error ''not_sealed'' = session_error code) \<or>
     session_error ''not_sealed'' \<in> {TypeError, OverflowError, OSError, ValueError, RuntimeError})"
proof -
  have n: "validate_session sample_loads sample_instant sample_hash (sample_root\<lparr>root_name := ''x.partial''\<rparr>) False =
     Inl (session_error ''not_sealed'')"
    by (simp add: validate_session_def ends_with_def)
  have "validate_session (\<lambda>text. LongNumber) sample_instant sample_hash sample_root False = Inl ValueError"
    using sample_texts(1) sample_uuid(2)
    by (simp add: validate_session_def session_json_def parse_json_def sample_root_def read_text_def plain_def
        del: utf8_valid.simps)
  then show ?thesis using n validator_failures_are_coded [OF n] by blast
qed

section \<open>Where the code accepts or raises more than it says\<close>

lemma nan_is_a_positive_number: "positive_number (JFloat NaN) = Inr () \<and> positive_number (JFloat PInf) = Inr ()"
  by (simp add: positive_number_def)

lemma unhashable_quality_escapes: "imu_sync [(''quality'', JList [])] = Inl TypeError"
  by (simp add: imu_sync_def in_set_def)

end
