(* ===== verification/ImuSource.thy ===== *)
theory ImuSource
  imports Prelude Complex_Main "HOL-Library.Word"
begin

text \<open>
  \<open>imu/uvc_xu.py\<close>: the extension-unit transport of the IMU.  A reply of the camera driver is an
  argument; the requests that reach the driver are recorded in the state, so that the policy on them is a
  statement about runs.  The clock readings and replies of a polling loop are the list of the polls
  it gets to see; the loop is still polling (None) when the list ends.
\<close>

definition imu_error :: "string \<Rightarrow> bool \<Rightarrow> pyexc" where
  "imu_error code retryable = AppError ''ImuError'' code retryable"

definition packet_bytes :: nat where "packet_bytes = 27"
definition uvc_get_cur :: int where "uvc_get_cur = 0x81"
definition uvc_get_len :: int where "uvc_get_len = 0x85"
definition uvc_cs_interface :: nat where "uvc_cs_interface = 0x24"
definition uvc_extension_unit :: nat where "uvc_extension_unit = 0x06"
definition generic_xu_payload_max :: int where "generic_xu_payload_max = 256"
definition known_imu_unit :: int where "known_imu_unit = 3"
definition xu_selector :: int where "xu_selector = 1"
definition denied_get_cur_selectors :: "(int \<times> int) list" where "denied_get_cur_selectors = [(4, 10), (4, 15)]"

text \<open>\<open>UUID(XU_GUID).bytes_le\<close> of D5C2F42C-1808-4D9F-BE56-753E271C9244.\<close>

definition xu_guid_bytes :: string where
  "xu_guid_bytes = map char_of [0x2C, 0xF4, 0xC2, 0xD5, 0x08, 0x18, 0x9F, 0x4D, 0xBE, 0x56, 0x75, 0x3E, 0x27, 0x1C, 0x92, 0x44 :: nat]"

section \<open>The policy on requests\<close>

definition is_get_request :: "int \<Rightarrow> bool" where
  "is_get_request query \<longleftrightarrow> bit query 7"

definition validate_control_query :: "int \<Rightarrow> int \<Rightarrow> int \<Rightarrow> int \<Rightarrow> unit res" where
  "validate_control_query unit_id selector query sz =
     guardE (\<not> (1 \<le> unit_id \<and> unit_id \<le> 0xFF) \<or> \<not> (1 \<le> selector \<and> selector \<le> 0xFF) \<or> \<not> (0 \<le> query \<and> query \<le> 0xFF)) ValueError
     (guardE (sz \<le> 0 \<or> sz > 0xFFFF) ValueError
     (guardE (\<not> is_get_request query) (imu_error ''xu_query_denied'' False)
     (guardE (query = uvc_get_cur \<and> (unit_id, selector) \<in> set denied_get_cur_selectors) (imu_error ''xu_query_denied'' False)
     (if query = uvc_get_cur \<and> (unit_id, selector) = (known_imu_unit, xu_selector) then
        guardE (sz \<noteq> int packet_bytes) (imu_error ''xu_query_denied'' False) (Inr ())
      else
        guardE (sz > generic_xu_payload_max) (imu_error ''xu_query_denied'' False) (Inr ())))))"

section \<open>Descriptors\<close>

abbreviation byte_at :: "string \<Rightarrow> nat \<Rightarrow> nat" where
  "byte_at s i \<equiv> of_char (s ! i)"

text \<open>The bytes from \<open>offset\<close> on.\<close>

function parse_units :: "string \<Rightarrow> (nat \<times> string) list res" where
  "parse_units rest =
     (if rest = [] then Inr []
      else guardE (length rest < 2) (imu_error ''xu_descriptor_invalid'' False)
       (let n = byte_at rest 0 in
        if n < 2 \<or> n > length rest then Inl (imu_error ''xu_descriptor_invalid'' False)
        else
          bindE (parse_units (drop n rest)) (\<lambda>units.
            if byte_at rest 1 = uvc_cs_interface \<and> n \<ge> 20 \<and> byte_at rest 2 = uvc_extension_unit
            then Inr ((byte_at rest 3, take 16 (drop 4 rest)) # units) else Inr units)))"
  by pat_completeness auto
termination by (relation "measure length") auto

declare parse_units.simps [simp del]

definition parse_uvc_extension_units :: "string \<Rightarrow> (nat \<times> string) list res" where
  "parse_uvc_extension_units descriptors = parse_units descriptors"

definition find_uvc_xu_unit :: "string \<Rightarrow> string \<Rightarrow> nat res" where
  "find_uvc_xu_unit descriptors target =
     guardE (length target \<noteq> 16) ValueError
     (bindE (parse_uvc_extension_units descriptors) (\<lambda>units.
       let matches = map fst (filter (\<lambda>(u, candidate). candidate = target) units) in
       guardE (matches = []) (imu_error ''xu_not_found'' False)
       (guardE (length matches \<noteq> 1) (imu_error ''xu_ambiguous'' False) (Inr (hd matches)))))"

text \<open>\<open>parents\<close>: the \<open>descriptors\<close> file of the resolved device directory and of each of its parents, None where
  it cannot be read; no list at all when the class entry does not resolve.\<close>

fun search_parents :: "string option list \<Rightarrow> string \<Rightarrow> nat res" where
  "search_parents [] target = Inl (imu_error ''xu_not_found'' False)"
| "search_parents (None # ps) target = search_parents ps target"
| "search_parents (Some descriptors # ps) target =
     (case find_uvc_xu_unit descriptors target of
        Inr u \<Rightarrow> Inr u
      | Inl e \<Rightarrow> if e = imu_error ''xu_not_found'' False then search_parents ps target else Inl e)"

definition discover_uvc_xu_unit :: "string option list option \<Rightarrow> string \<Rightarrow> nat res" where
  "discover_uvc_xu_unit parents target =
     (case parents of None \<Rightarrow> Inl (imu_error ''xu_discovery_unavailable'' False) | Some ps \<Rightarrow> search_parents ps target)"

section \<open>The source\<close>

type_synonym xu_request = "int \<times> int \<times> int \<times> int"

record uvc_source =
  us_unit :: int
  us_selector :: int
  us_last :: "string option"
  us_closed :: bool
  us_fd_open :: bool
  us_issued :: "xu_request list"

text \<open>What \<open>_query_control\<close> did: an \<open>OSError\<close>, the module's own failure or the bytes.\<close>

definition query ::
  "int \<Rightarrow> int \<Rightarrow> string \<Rightarrow> string res \<Rightarrow> uvc_source \<Rightarrow> string res \<times> uvc_source" where
  "query request sz error_code reply s =
     tryS (validate_control_query (us_unit s) (us_selector s) request sz) s (\<lambda>_.
       ((case reply of
           Inr payload \<Rightarrow> Inr payload
         | Inl OSError \<Rightarrow> Inl (if error_code = ''disconnected'' then imu_error ''disconnected'' True else imu_error error_code False)
         | Inl TimeoutError \<Rightarrow> Inl (if error_code = ''disconnected'' then imu_error ''disconnected'' True else imu_error error_code False)
         | Inl e \<Rightarrow>
             if error_code = ''disconnected'' \<and> (\<exists>r \<in> {False, True}. e = imu_error ''xu_query_failed'' r)
             then Inl (imu_error ''disconnected'' True) else Inl e),
        s\<lparr>us_issued := us_issued s @ [(us_unit s, us_selector s, request, sz)]\<rparr>))"

definition little_endian :: "string \<Rightarrow> nat" where
  "little_endian s = foldr (\<lambda>c n. of_char c + 256 * n) s 0"

text \<open>The constructor, after the unit is known: \<open>opened\<close> is the outcome of opening the device node, \<open>reply\<close>
  the answer to the length request.\<close>

definition open_source ::
  "int \<Rightarrow> int \<Rightarrow> rat \<Rightarrow> unit res \<Rightarrow> string res \<Rightarrow> unit res \<times> uvc_source" where
  "open_source unit_id selector stale_poll_interval opened reply =
     (let s = \<lparr>us_unit = unit_id, us_selector = selector, us_last = None, us_closed = False, us_fd_open = False, us_issued = []\<rparr> in
      if \<not> (1 \<le> unit_id \<and> unit_id \<le> 0xFF) \<or> \<not> (1 \<le> selector \<and> selector \<le> 0xFF) then (Inl ValueError, s)
      else if stale_poll_interval < 0 then (Inl ValueError, s)
      else tryS opened s (\<lambda>_.
       (case query uvc_get_len 2 ''xu_query_failed'' reply (s\<lparr>us_fd_open := True\<rparr>) of (answer, s1) \<Rightarrow>
         (case bindE answer (\<lambda>declared.
             guardE (length declared \<noteq> 2) (imu_error ''xu_query_failed'' False)
             (guardE (little_endian declared \<noteq> packet_bytes) (imu_error ''unsupported_packet_length'' False) (Inr ()))) of
            Inr u \<Rightarrow> (Inr (), s1)
          | Inl e \<Rightarrow> (Inl e, s1\<lparr>us_closed := True, us_fd_open := False\<rparr>)))))"

record imu_packet_read =
  payload :: string
  host_read_start_ns :: int
  host_read_end_ns :: int
  lost_packets :: int

definition packet_read :: "string \<Rightarrow> int \<Rightarrow> int \<Rightarrow> int \<Rightarrow> imu_packet_read res" where
  "packet_read bytes start stop lost =
     guardE (start < 0 \<or> stop < start \<or> lost < 0) ValueError
       (Inr \<lparr>payload = bytes, host_read_start_ns = start, host_read_end_ns = stop, lost_packets = lost\<rparr>)"

fun poll_loop ::
  "int \<Rightarrow> (int \<times> string res \<times> int) list \<Rightarrow> uvc_source \<Rightarrow> (imu_packet_read res \<times> uvc_source) option" where
  "poll_loop deadline [] s = None"
| "poll_loop deadline ((start, reply, stop) # polls) s =
     (case query uvc_get_cur (int packet_bytes) ''disconnected'' reply s of
        (Inl e, s1) \<Rightarrow> Some (Inl e, s1)
      | (Inr bytes, s1) \<Rightarrow>
          if length bytes \<noteq> packet_bytes then Some (Inl (imu_error ''invalid_packet_length'' False), s1)
          else if us_last s1 \<noteq> Some bytes then Some (packet_read bytes start stop 0, s1\<lparr>us_last := Some bytes\<rparr>)
          else if deadline \<le> stop then Some (Inl TimeoutError, s1)
          else poll_loop deadline polls s1)"

definition read_packet ::
  "int \<Rightarrow> rat \<Rightarrow> (int \<times> string res \<times> int) list \<Rightarrow> uvc_source \<Rightarrow> (imu_packet_read res \<times> uvc_source) option" where
  "read_packet now timeout polls s =
     (if timeout \<le> 0 then Some (Inl ValueError, s)
      else if us_closed s then Some (Inl (imu_error ''invalid_state'' False), s)
      else poll_loop (now + \<lfloor>timeout * 1000000000\<rfloor>) polls s)"

definition close_source :: "uvc_source \<Rightarrow> uvc_source" where
  "close_source s = (if us_closed s then s else s\<lparr>us_closed := True, us_fd_open := False\<rparr>)"

section \<open>What reaches the driver\<close>

definition allowed_request :: "xu_request \<Rightarrow> bool" where
  "allowed_request r \<longleftrightarrow>
     (case r of (u, sel, q, sz) \<Rightarrow>
        is_get_request q \<and> 1 \<le> u \<and> u \<le> 255 \<and> 1 \<le> sel \<and> sel \<le> 255 \<and> 1 \<le> sz \<and> sz \<le> generic_xu_payload_max \<and>
        \<not> (q = uvc_get_cur \<and> (u, sel) \<in> set denied_get_cur_selectors) \<and>
        (q = uvc_get_cur \<and> u = known_imu_unit \<and> sel = xu_selector \<longrightarrow> sz = int packet_bytes))"

lemma validate_control_query_Inr: "validate_control_query u sel q sz = Inr () \<Longrightarrow> allowed_request (u, sel, q, sz)"
  by (auto simp: validate_control_query_def allowed_request_def packet_bytes_def generic_xu_payload_max_def
      split: if_splits)

definition issued_ok :: "uvc_source \<Rightarrow> bool" where
  "issued_ok s \<longleftrightarrow> list_all allowed_request (us_issued s)"

lemma query_issued: "issued_ok s \<Longrightarrow> query r sz c reply s = (x, s1) \<Longrightarrow> issued_ok s1"
  by (cases "validate_control_query (us_unit s) (us_selector s) r sz")
     (auto simp: query_def issued_ok_def dest: validate_control_query_Inr)

lemma query_keeps: "query r sz c reply s = (x, s1) \<Longrightarrow> us_closed s1 = us_closed s \<and> us_fd_open s1 = us_fd_open s \<and> us_last s1 = us_last s"
  by (cases "validate_control_query (us_unit s) (us_selector s) r sz") (auto simp: query_def)

lemma poll_loop_issued: "poll_loop d polls s = Some (x, s1) \<Longrightarrow> issued_ok s \<Longrightarrow> issued_ok s1"
proof (induction d polls s rule: poll_loop.induct)
  case (2 d start reply stop polls s)
  obtain y t where q: "query uvc_get_cur (int packet_bytes) ''disconnected'' reply s = (y, t)" by fastforce
  have "issued_ok t" by (rule query_issued [OF 2(3) q])
  then show ?case using 2(1,2) q by (auto simp: issued_ok_def split: sum.splits if_splits)
qed simp

text \<open>The runs of a source.\<close>

inductive source_run :: "uvc_source \<Rightarrow> bool" where
  opened: "open_source u sel interval node reply = (x, s) \<Longrightarrow> source_run s"
| read: "source_run s \<Longrightarrow> read_packet now timeout polls s = Some (x, t) \<Longrightarrow> source_run t"
| closed: "source_run s \<Longrightarrow> source_run (close_source s)"

lemma open_source_issued: "open_source u sel interval node reply = (x, s) \<Longrightarrow> issued_ok s \<and> (us_closed s \<longrightarrow> \<not> us_fd_open s)"
proof -
  assume o: "open_source u sel interval node reply = (x, s)"
  let ?s = "\<lparr>us_unit = u, us_selector = sel, us_last = None, us_closed = False, us_fd_open = True, us_issued = []\<rparr>"
  obtain y t where q: "query uvc_get_len 2 ''xu_query_failed'' reply ?s = (y, t)" by fastforce
  have "issued_ok t" by (rule query_issued [OF _ q]) (simp add: issued_ok_def)
  moreover have "us_closed t = False" using query_keeps [OF q] by simp
  ultimately show ?thesis using o q
    by (cases node) (auto simp: open_source_def Let_def issued_ok_def split: if_splits sum.splits)
qed

lemma source_run_safe: "source_run s \<Longrightarrow> issued_ok s"
proof (induction rule: source_run.induct)
  case (opened u sel interval node reply x s)
  then show ?case using open_source_issued by blast
next
  case (read s now timeout polls x t)
  then show ?case using poll_loop_issued by (auto simp: read_packet_def split: if_splits)
next
  case (closed s)
  then show ?case by (simp add: close_source_def issued_ok_def)
qed

text \<open>The loop ends: at the first poll past the deadline at the latest.\<close>

lemma poll_loop_ends: "\<exists>(a, r, b) \<in> set polls. d \<le> b \<Longrightarrow> poll_loop d polls s \<noteq> None"
proof (induction d polls s rule: poll_loop.induct)
  case (2 d start reply stop polls s)
  then show ?case by (auto split: sum.splits prod.splits)
qed simp

lemma poll_loop_fresh:
  "poll_loop d polls s = Some (Inr p, t) \<Longrightarrow> length (payload p) = packet_bytes \<and> us_last s \<noteq> Some (payload p) \<and> us_last t = Some (payload p) \<and>
     0 \<le> host_read_start_ns p \<and> host_read_start_ns p \<le> host_read_end_ns p"
proof (induction d polls s rule: poll_loop.induct)
  case (2 d start reply stop polls s)
  obtain y t1 where q: "query uvc_get_cur (int packet_bytes) ''disconnected'' reply s = (y, t1)" by fastforce
  show ?case using 2(1) [OF q [symmetric]] 2(2) q query_keeps [OF q]
    by (auto simp: packet_read_def guardE_def split: sum.splits if_splits)
qed simp

end
