(* ===== verification/ImuPipeline.thy ===== *)
theory ImuPipeline
  imports PyJson ImuSource
begin

text \<open>
  The IMU pipeline above its transport: decoding of a 27-byte packet (\<open>imu/protocol.py\<close>), unwrapping of the
  24-bit device time and the fit of the device clock (\<open>imu/time_sync.py\<close>), the collector
  (\<open>imu/collector.py\<close>), the records (\<open>imu/models.py\<close>) and the adapter of the native
  collector (\<open>imu/native.py\<close>).  Floating-point arithmetic is exact rational arithmetic followed by
  a rounding \<open>fl\<close>, and \<open>fsum\<close> adds a list of doubles: both are arguments, and overflow to infinity
  is left out.
\<close>

section \<open>Packets\<close>

record vector3 =
  vx :: int
  vy :: int
  vz :: int

definition int16_ok :: "int \<Rightarrow> bool" where
  "int16_ok v \<longleftrightarrow> -32768 \<le> v \<and> v \<le> 32767"

definition raw_vector3 :: "int \<Rightarrow> int \<Rightarrow> int \<Rightarrow> vector3 res" where
  "raw_vector3 x y z = guardE (\<not> list_all int16_ok [x, y, z]) ValueError (Inr \<lparr>vx = x, vy = y, vz = z\<rparr>)"

record decoded_sample =
  ds_index :: int
  ds_accelerometer :: vector3
  ds_gyroscope :: vector3

record decoded_packet =
  dp_timestamp :: int
  dp_samples :: "decoded_sample list"

text \<open>\<open>struct.Struct(">12h")\<close>: signed 16-bit numbers, most significant byte first.\<close>

definition axis_word :: "char \<Rightarrow> char \<Rightarrow> 16 word" where
  "axis_word a b = word_of_nat (256 * of_char a + of_char b)"

fun axes :: "string \<Rightarrow> int list" where
  "axes (a # b # s) = sint (axis_word a b) # axes s"
| "axes _ = []"

fun big_endian :: "nat \<Rightarrow> string \<Rightarrow> nat" where
  "big_endian acc [] = acc"
| "big_endian acc (c # s) = big_endian (256 * acc + of_char c) s"

definition decode_sample :: "int list \<Rightarrow> nat \<Rightarrow> decoded_sample res" where
  "decode_sample xs index =
     (let axis = (\<lambda>k. xs ! (index * 6 + k)) in
      bindE (raw_vector3 (axis 0) (axis 1) (axis 2)) (\<lambda>accel.
      bindE (raw_vector3 (axis 3) (axis 4) (axis 5)) (\<lambda>gyro.
        Inr \<lparr>ds_index = int index, ds_accelerometer = accel, ds_gyroscope = gyro\<rparr>)))"

definition decode_packet :: "string \<Rightarrow> decoded_packet res" where
  "decode_packet bytes =
     guardE (length bytes \<noteq> packet_bytes) (imu_error ''invalid_packet_length'' False)
     (bindE (decode_sample (axes (drop 3 bytes)) 0) (\<lambda>s0.
      bindE (decode_sample (axes (drop 3 bytes)) 1) (\<lambda>s1.
        Inr \<lparr>dp_timestamp = int (big_endian 0 (take 3 bytes)), dp_samples = [s0, s1]\<rparr>)))"

section \<open>Unwrapping\<close>

definition device_timestamp_modulus :: int where
  "device_timestamp_modulus = 16777216"

record unwrapper =
  uw_modulus :: int
  uw_last :: "(int \<times> int) option"

definition new_unwrapper :: "int \<Rightarrow> unwrapper res" where
  "new_unwrapper m = guardE (m \<le> 2) ValueError (Inr \<lparr>uw_modulus = m, uw_last = None\<rparr>)"

definition unwrap :: "bool \<Rightarrow> int \<Rightarrow> unwrapper \<Rightarrow> int res \<times> unwrapper" where
  "unwrap allow_repeated raw u =
     (if raw < 0 \<or> raw \<ge> uw_modulus u then (Inl (imu_error ''invalid_timestamp'' False), u)
      else
       (case uw_last u of
          None \<Rightarrow> (Inr raw, u\<lparr>uw_last := Some (raw, raw)\<rparr>)
        | Some (last_raw, unwrapped) \<Rightarrow>
           (let delta = (raw - last_raw) mod uw_modulus u in
            if delta = 0 then
              (if allow_repeated then (Inr unwrapped, u) else (Inl (imu_error ''timestamp_stalled'' True), u))
            else if delta > uw_modulus u div 2 then (Inl (imu_error ''timestamp_regression'' True), u)
            else (Inr (unwrapped + delta), u\<lparr>uw_last := Some (raw, unwrapped + delta)\<rparr>))))"

section \<open>The clock fit\<close>

record sync_point =
  sp_ticks :: int
  sp_host :: int
  sp_uncertainty :: int

record float_ops =
  fl :: "rat \<Rightarrow> rat"
  fsum :: "rat list \<Rightarrow> rat"

record sync_estimate =
  se_offset :: "int option"
  se_residual :: "int option"
  se_quality :: string
  se_points :: nat

record synchronizer =
  sy_expected_hz :: "rat option"
  sy_minimum :: nat
  sy_window :: nat
  sy_good_residual :: int
  sy_good_drift :: rat
  sy_points :: "sync_point list"
  sy_last_host :: "int option"

definition new_synchronizer :: "rat option \<Rightarrow> nat \<Rightarrow> nat \<Rightarrow> int \<Rightarrow> rat \<Rightarrow> synchronizer res" where
  "new_synchronizer hz minimum window good_residual good_drift =
     guardE (case hz of None \<Rightarrow> False | Some h \<Rightarrow> h \<le> 0) ValueError
     (guardE (minimum < 2 \<or> window < minimum) ValueError
       (Inr \<lparr>sy_expected_hz = hz, sy_minimum = minimum, sy_window = window, sy_good_residual = good_residual,
             sy_good_drift = good_drift, sy_points = [], sy_last_host = None\<rparr>))"

definition insufficient :: "nat \<Rightarrow> sync_estimate" where
  "insufficient n = \<lparr>se_offset = None, se_residual = None, se_quality = ''insufficient'', se_points = n\<rparr>"

text \<open>\<open>round\<close> of a double: to the nearest integer, ties to even.\<close>

definition round_half_even :: "rat \<Rightarrow> int" where
  "round_half_even r =
     (let f = \<lfloor>r\<rfloor>; d = r - of_int f in
      if d < 1 / 2 then f else if d > 1 / 2 then f + 1 else if even f then f else f + 1)"

definition fit_means :: "float_ops \<Rightarrow> sync_point list \<Rightarrow> rat \<times> rat" where
  "fit_means fo ps =
     (fl fo (of_int (sum_list (map sp_ticks ps)) / of_nat (length ps)),
      fl fo (of_int (sum_list (map sp_host ps)) / of_nat (length ps)))"

definition fit_denominator :: "float_ops \<Rightarrow> sync_point list \<Rightarrow> rat" where
  "fit_denominator fo ps =
     (let mx = fst (fit_means fo ps); dev = (\<lambda>p. fl fo (fl fo (of_int (sp_ticks p)) - mx)) in
      fsum fo (map (\<lambda>p. fl fo (dev p * dev p)) ps))"

definition fit_scale :: "float_ops \<Rightarrow> sync_point list \<Rightarrow> rat" where
  "fit_scale fo ps =
     (let mx = fst (fit_means fo ps); my = snd (fit_means fo ps) in
      fl fo (fsum fo (map (\<lambda>p. fl fo (fl fo (fl fo (of_int (sp_ticks p)) - mx) * fl fo (fl fo (of_int (sp_host p)) - my))) ps)
             / fit_denominator fo ps))"

definition fit_offset :: "float_ops \<Rightarrow> sync_point list \<Rightarrow> rat" where
  "fit_offset fo ps = fl fo (snd (fit_means fo ps) - fl fo (fit_scale fo ps * fst (fit_means fo ps)))"

definition fit_residual :: "float_ops \<Rightarrow> sync_point list \<Rightarrow> rat" where
  "fit_residual fo ps =
     Max (set (map (\<lambda>p. \<bar>fl fo (fl fo (of_int (sp_host p)) -
       fl fo (fit_offset fo ps + fl fo (fit_scale fo ps * fl fo (of_int (sp_ticks p)))))\<bar>) ps))"

definition total_residual :: "float_ops \<Rightarrow> sync_point list \<Rightarrow> int" where
  "total_residual fo ps = \<lceil>fl fo (fit_residual fo ps + fl fo (of_int (Max (set (map sp_uncertainty ps)))))\<rceil>"

definition drift_excessive :: "float_ops \<Rightarrow> synchronizer \<Rightarrow> bool" where
  "drift_excessive fo s =
     (case sy_expected_hz s of
        None \<Rightarrow> False
      | Some hz \<Rightarrow> \<bar>fl fo (fl fo (fl fo (fl fo (1000000000 / fit_scale fo (sy_points s)) / hz) - 1) * 1000000)\<bar> > sy_good_drift s)"

definition estimate :: "float_ops \<Rightarrow> synchronizer \<Rightarrow> sync_estimate res" where
  "estimate fo s =
     (let ps = sy_points s; n = length ps in
      if n < sy_minimum s then Inr (insufficient n)
      else if fit_denominator fo ps = 0 then Inr (insufficient n)
      else guardE (fit_scale fo ps \<le> 0) (imu_error ''invalid_clock_fit'' False)
       (Inr \<lparr>se_offset = Some (round_half_even (fit_offset fo ps)), se_residual = Some (total_residual fo ps),
             se_quality = (if total_residual fo ps > sy_good_residual s \<or> drift_excessive fo s then ''degraded'' else ''good''),
             se_points = n\<rparr>))"

text \<open>\<open>deque(maxlen=w).append\<close> drops from the left.\<close>

definition push :: "nat \<Rightarrow> 'a \<Rightarrow> 'a list \<Rightarrow> 'a list" where
  "push w x xs = drop (Suc (length xs) - w) (xs @ [x])"

definition add_point :: "float_ops \<Rightarrow> int \<Rightarrow> int \<Rightarrow> int \<Rightarrow> synchronizer \<Rightarrow> sync_estimate res \<times> synchronizer" where
  "add_point fo ticks start stop s =
     (if ticks < 0 \<or> start < 0 \<or> stop < start then (Inl (imu_error ''invalid_time_evidence'' False), s)
      else
       (let host = (start + stop) div 2 in
        if sy_points s \<noteq> [] \<and> (ticks < sp_ticks (last (sy_points s)) \<or>
             (case sy_last_host s of None \<Rightarrow> False | Some h \<Rightarrow> host \<le> h))
        then (Inl (imu_error ''non_monotonic_time'' True), s)
        else
         (let s1 = s\<lparr>sy_last_host := Some host\<rparr> in
          if sy_points s \<noteq> [] \<and> ticks = sp_ticks (last (sy_points s)) then (Inr (insufficient (length (sy_points s))), s1)
          else
           (let s2 = s1\<lparr>sy_points := push (sy_window s) \<lparr>sp_ticks = ticks, sp_host = host, sp_uncertainty = (stop - start) div 2\<rparr> (sy_points s)\<rparr> in
            (estimate fo s2, s2)))))"

section \<open>The collector\<close>

record imu_sample =
  is_sequence :: int
  is_packet :: int
  is_index :: int
  is_timestamp :: int
  is_ticks :: int
  is_start :: int
  is_end :: int
  is_host :: int
  is_accelerometer :: vector3
  is_gyroscope :: vector3
  is_offset :: "int option"
  is_residual :: "int option"
  is_quality :: string

record imu_observation =
  io_samples :: "imu_sample list"
  io_dropped :: int

record collector =
  co_unwrapper :: unwrapper
  co_synchronizer :: synchronizer
  co_packet :: int
  co_sample :: int
  co_closed :: bool

definition new_collector :: "synchronizer \<Rightarrow> collector" where
  "new_collector s = \<lparr>co_unwrapper = \<lparr>uw_modulus = device_timestamp_modulus, uw_last = None\<rparr>, co_synchronizer = s,
     co_packet = 0, co_sample = 0, co_closed = False\<rparr>"

definition close_collector :: "collector \<Rightarrow> collector" where
  "close_collector c = c\<lparr>co_closed := True\<rparr>"

definition sample_of ::
  "collector \<Rightarrow> imu_packet_read \<Rightarrow> int \<Rightarrow> int \<Rightarrow> sync_estimate \<Rightarrow> decoded_sample \<Rightarrow> int \<Rightarrow> imu_sample" where
  "sample_of c r raw ticks e d n =
     \<lparr>is_sequence = n, is_packet = co_packet c + lost_packets r, is_index = ds_index d, is_timestamp = raw, is_ticks = ticks,
      is_start = host_read_start_ns r, is_end = host_read_end_ns r,
      is_host = (host_read_start_ns r + host_read_end_ns r) div 2,
      is_accelerometer = ds_accelerometer d, is_gyroscope = ds_gyroscope d,
      is_offset = se_offset e, is_residual = se_residual e, is_quality = se_quality e\<rparr>"

text \<open>The exceptions of the \<open>try\<close> block: a timeout, another \<open>OSError\<close>, an \<open>ImuError\<close>; the others pass
  without closing the collector.\<close>

definition read_failure :: "pyexc \<Rightarrow> collector \<Rightarrow> imu_observation res \<times> collector" where
  "read_failure e c =
     (case e of
        TimeoutError \<Rightarrow> (Inl (imu_error ''sensor_stalled'' True), close_collector c)
      | OSError \<Rightarrow> (Inl (imu_error ''disconnected'' True), close_collector c)
      | AppError cls code retry \<Rightarrow> (Inl e, if cls = ''ImuError'' then close_collector c else c)
      | _ \<Rightarrow> (Inl e, c))"

definition collector_read ::
  "float_ops \<Rightarrow> rat \<Rightarrow> imu_packet_read res \<Rightarrow> collector \<Rightarrow> imu_observation res \<times> collector" where
  "collector_read fo timeout got c =
     (if timeout \<le> 0 then (Inl ValueError, c)
      else if co_closed c then (Inl (imu_error ''invalid_state'' False), c)
      else
       (case bindE got (\<lambda>r. bindE (decode_packet (payload r)) (\<lambda>p. Inr (r, p))) of
          Inl e \<Rightarrow> read_failure e c
        | Inr (r, p) \<Rightarrow>
           (case unwrap True (dp_timestamp p) (co_unwrapper c) of
              (Inl e, u) \<Rightarrow> read_failure e (c\<lparr>co_unwrapper := u\<rparr>)
            | (Inr ticks, u) \<Rightarrow>
               (let c1 = c\<lparr>co_unwrapper := u\<rparr> in
                case add_point fo ticks (host_read_start_ns r) (host_read_end_ns r) (co_synchronizer c) of
                  (Inl e, s) \<Rightarrow> read_failure e (c1\<lparr>co_synchronizer := s\<rparr>)
                | (Inr est, s) \<Rightarrow>
                   (let dropped = lost_packets r * 2;
                        first = co_sample c + dropped;
                        samples = map (\<lambda>(d, n). sample_of c r (dp_timestamp p) ticks est d n)
                          (zip (dp_samples p) (map (\<lambda>k. first + int k) [0..<length (dp_samples p)])) in
                    (Inr \<lparr>io_samples = samples, io_dropped = dropped\<rparr>,
                     c1\<lparr>co_synchronizer := s, co_packet := co_packet c + lost_packets r + 1,
                        co_sample := first + int (length (dp_samples p))\<rparr>))))))"

section \<open>Records\<close>

definition json_option :: "int option \<Rightarrow> json" where
  "json_option v = (case v of None \<Rightarrow> JNull | Some i \<Rightarrow> JInt i)"

definition vector_list :: "vector3 \<Rightarrow> json" where
  "vector_list v = JList [JInt (vx v), JInt (vy v), JInt (vz v)]"

definition as_record :: "imu_sample \<Rightarrow> string \<Rightarrow> jobject" where
  "as_record s session_id =
     [(''format'', JStr ''ylx.imu.v0''), (''session_id'', JStr session_id), (''sequence'', JInt (is_sequence s)),
      (''packet_sequence'', JInt (is_packet s)), (''sample_index'', JInt (is_index s)),
      (''device_timestamp_raw'', JInt (is_timestamp s)), (''device_ticks'', JInt (is_ticks s)),
      (''host_read_start_ns'', JInt (is_start s)), (''host_read_end_ns'', JInt (is_end s)),
      (''host_monotonic_ns'', JInt (is_host s)),
      (''raw'', JObj [(''accelerometer'', vector_list (is_accelerometer s)), (''gyroscope'', vector_list (is_gyroscope s))]),
      (''sync'', JObj [(''offset_ns'', json_option (is_offset s)), (''residual_ns'', json_option (is_residual s)),
         (''quality'', JStr (is_quality s))])]"

section \<open>The native adapter\<close>

definition native_error :: pyexc where
  "native_error = imu_error ''invalid_native_observation'' False"

definition native_int :: "json \<Rightarrow> int res" where
  "native_int v = (case v of JInt i \<Rightarrow> Inr i | _ \<Rightarrow> Inl native_error)"

definition native_optional :: "json \<Rightarrow> int option res" where
  "native_optional v = (if v = JNull then Inr None else bindE (native_int v) (\<lambda>i. Inr (Some i)))"

definition native_dict :: "json \<Rightarrow> jobject res" where
  "native_dict v = (case v of JObj d \<Rightarrow> Inr d | _ \<Rightarrow> Inl native_error)"

definition native_vector :: "json \<Rightarrow> vector3 res" where
  "native_vector v =
     (case v of JList [JInt x, JInt y, JInt z] \<Rightarrow> raw_vector3 x y z | _ \<Rightarrow> Inl native_error)"

definition native_sample :: "json \<Rightarrow> imu_sample res" where
  "native_sample v =
     bindE (native_dict v) (\<lambda>item.
     bindE (native_dict (jget item ''raw'')) (\<lambda>raw.
     bindE (native_dict (jget item ''sync'')) (\<lambda>sync.
     (case jget sync ''quality'' of
        JStr quality \<Rightarrow>
          guardE (quality \<notin> {''insufficient'', ''good'', ''degraded''}) native_error
          (bindE (native_int (jget item ''sequence'')) (\<lambda>n.
           bindE (native_int (jget item ''packet_sequence'')) (\<lambda>packet.
           bindE (native_int (jget item ''sample_index'')) (\<lambda>index.
           bindE (native_int (jget item ''device_timestamp_raw'')) (\<lambda>ts.
           bindE (native_int (jget item ''device_ticks'')) (\<lambda>ticks.
           bindE (native_int (jget item ''host_read_start_ns'')) (\<lambda>start.
           bindE (native_int (jget item ''host_read_end_ns'')) (\<lambda>stop.
           bindE (native_int (jget item ''host_monotonic_ns'')) (\<lambda>host.
           bindE (native_vector (jget raw ''accelerometer'')) (\<lambda>accel.
           bindE (native_vector (jget raw ''gyroscope'')) (\<lambda>gyro.
           bindE (native_optional (jget sync ''offset_ns'')) (\<lambda>off.
           bindE (native_optional (jget sync ''residual_ns'')) (\<lambda>res.
             Inr \<lparr>is_sequence = n, is_packet = packet, is_index = index, is_timestamp = ts, is_ticks = ticks,
                  is_start = start, is_end = stop, is_host = host, is_accelerometer = accel, is_gyroscope = gyro,
                  is_offset = off, is_residual = res, is_quality = quality\<rparr>)))))))))))))
      | _ \<Rightarrow> Inl native_error))))"

definition decode_native_imu_observation :: "json \<Rightarrow> imu_observation res" where
  "decode_native_imu_observation v =
     bindE (native_dict v) (\<lambda>item.
     (case jget item ''samples'' of
        JList [a, b] \<Rightarrow>
          bindE (native_sample a) (\<lambda>s0. bindE (native_sample b) (\<lambda>s1.
          bindE (native_int (jget item ''dropped_samples'')) (\<lambda>n.
            Inr \<lparr>io_samples = [s0, s1], io_dropped = n\<rparr>)))
      | _ \<Rightarrow> Inl native_error))"

end
