(* ===== verification/ImuFacts.thy ===== *)
theory ImuFacts
  imports SessionFacts ImuPipeline
begin

text \<open>
  Facts of the IMU pipeline: decoding loses nothing, unwrapping recovers the device ticks, and the
  records of a collector are exactly what the session validator demands as long as the device
  timestamp advances with every packet.
\<close>

section \<open>Decoding\<close>

lemma int16_sint [simp]: "int16_ok (sint (w :: 16 word))"
  using sint_greater_eq [of w] sint_lt [of w] by (simp add: int16_ok_def)

lemma axes_length: "length (axes s) = length s div 2"
  by (induction s rule: axes.induct) auto

lemma axes_int16: "x \<in> set (axes s) \<Longrightarrow> int16_ok x"
  by (induction s rule: axes.induct) auto

lemma byte_digits: "b < 256 \<Longrightarrow> d < 256 \<Longrightarrow> 256 * a + b = 256 * c + (d :: nat) \<Longrightarrow> a = c \<and> b = d"
proof -
  assume b: "b < 256" and d: "d < 256" and e: "256 * a + b = 256 * c + d"
  have "a = (256 * a + b) div 256" "c = (256 * c + d) div 256" using b d by simp_all
  then have "a = c" using e by simp
  then show ?thesis using e by simp
qed

lemma byte_carry: "n < 256 \<Longrightarrow> 256 * a + n + 1 \<le> (a + 1) * (256 :: nat)"
  by simp

lemma char_bound: "of_char c < (256 :: nat)"
  by simp

lemma axis_word_inj:
  assumes "sint (axis_word a b) = sint (axis_word c d)"
  shows "a = c \<and> b = d"
proof -
  have w: "axis_word a b = axis_word c d" using assms by (simp add: signed_word_eqI)
  have u: "unat (axis_word x y) = 256 * of_char x + of_char y" for x y
  proof -
    have "of_char x < (256 :: nat)" "of_char y < (256 :: nat)" by simp_all
    then have "256 * of_char x + of_char y < (65536 :: nat)" by linarith
    then show ?thesis unfolding axis_word_def
      by (subst unsigned_of_nat) (simp add: take_bit_nat_eq_self)
  qed
  have e: "256 * of_char a + of_char b = (256 * of_char c + of_char d :: nat)" using u [of a b] u [of c d] w by simp
  then show ?thesis using byte_digits [OF char_bound char_bound e] by simp
qed

lemma axes_inj: "length s = length t \<Longrightarrow> even (length s) \<Longrightarrow> axes s = axes t \<Longrightarrow> s = t"
proof (induction s arbitrary: t rule: axes.induct)
  case (1 a b s)
  obtain c d u where t: "t = c # d # u" using 1(2) by (cases t; cases "tl t") auto
  have "sint (axis_word a b) = sint (axis_word c d)" using 1(4) t by simp
  then have "a = c \<and> b = d" by (rule axis_word_inj)
  then show ?case using 1 t by simp
qed auto

lemma big_endian_inj: "length s = length t \<Longrightarrow> big_endian acc s = big_endian acc' t \<Longrightarrow> acc = acc' \<and> s = t"
proof (induction s arbitrary: t acc acc')
  case (Cons c s)
  obtain d u where t: "t = d # u" using Cons.prems(1) by (cases t) auto
  have "256 * acc + of_char c = 256 * acc' + of_char d \<and> s = u" using Cons.IH [of u] Cons.prems t by simp
  then show ?case using byte_digits [OF char_bound char_bound] t by auto
qed simp

lemma big_endian_bound: "big_endian acc s < (acc + 1) * 256 ^ length s"
proof (induction s arbitrary: acc)
  case (Cons c s)
  have "256 * acc + of_char c + 1 \<le> (acc + 1) * (256 :: nat)" by (rule byte_carry [OF char_bound])
  then have "(256 * acc + of_char c + 1) * 256 ^ length s \<le> (acc + 1) * 256 * 256 ^ length s" by (rule mult_right_mono) simp
  with Cons [of "256 * acc + of_char c"] have "big_endian (256 * acc + of_char c) s < (acc + 1) * 256 * 256 ^ length s"
    by (rule less_le_trans)
  then show ?case by (simp add: algebra_simps)
qed simp

lemma decode_sample_Inr:
  assumes "length xs = 12" "\<And>x. x \<in> set xs \<Longrightarrow> int16_ok x" "k < 2"
  shows "decode_sample xs k = Inr \<lparr>ds_index = int k,
     ds_accelerometer = \<lparr>vx = xs ! (k * 6), vy = xs ! (k * 6 + 1), vz = xs ! (k * 6 + 2)\<rparr>,
     ds_gyroscope = \<lparr>vx = xs ! (k * 6 + 3), vy = xs ! (k * 6 + 4), vz = xs ! (k * 6 + 5)\<rparr>\<rparr>"
proof -
  have "int16_ok (xs ! (k * 6 + j))" if "j < 6" for j
    using assms that by (intro assms(2) nth_mem) simp
  from this [of 0] this [of 1] this [of 2] this [of 3] this [of 4] this [of 5]
  show ?thesis by (simp add: decode_sample_def Let_def raw_vector3_def)
qed

definition packet_of :: "string \<Rightarrow> decoded_packet" where
  "packet_of bytes = \<lparr>dp_timestamp = int (big_endian 0 (take 3 bytes)),
     dp_samples = map (\<lambda>k. projr (decode_sample (axes (drop 3 bytes)) k)) [0, 1]\<rparr>"

lemma decode_packet_Inr: "length bytes = packet_bytes \<Longrightarrow> decode_packet bytes = Inr (packet_of bytes)"
  using axes_int16 by (simp add: decode_packet_def packet_bytes_def decode_sample_Inr axes_length packet_of_def)

lemma decode_packet_eq: "decode_packet bytes = Inr p \<longleftrightarrow> length bytes = packet_bytes \<and> p = packet_of bytes"
  by (cases "length bytes = packet_bytes") (auto simp: decode_packet_Inr, simp add: decode_packet_def)

lemma list12: "length xs = 12 \<Longrightarrow> xs = map ((!) xs) [0, 1, 2, 3, 4, 5, 6, 7, 8, 9, 10, 11]"
proof -
  assume l: "length xs = 12"
  have "xs = map ((!) xs) [0..<length xs]" by (simp add: map_nth)
  also have "[0..<length xs] = [0, 1, 2, 3, 4, 5, 6, 7, 8, 9, 10, 11]" unfolding l by (simp add: upt_rec)
  finally show ?thesis .
qed

lemma packet_of_inj:
  assumes "length s = packet_bytes" "length t = packet_bytes" "packet_of s = packet_of t"
  shows "s = t"
proof -
  have len: "length (axes (drop 3 s)) = 12" "length (axes (drop 3 t)) = 12" using assms(1,2) by (simp_all add: axes_length packet_bytes_def)
  have "big_endian 0 (take 3 s) = big_endian 0 (take 3 t)" using assms(3) by (simp add: packet_of_def)
  then have 1: "take 3 s = take 3 t" using big_endian_inj [of "take 3 s" "take 3 t" 0 0] assms(1,2) by simp
  have "axes (drop 3 s) ! k = axes (drop 3 t) ! k" if "k < 12" for k
  proof -
    have "k = 0 \<or> k = 1 \<or> k = 2 \<or> k = 3 \<or> k = 4 \<or> k = 5 \<or> k = 6 \<or> k = 7 \<or> k = 8 \<or> k = 9 \<or> k = 10 \<or> k = 11"
      using that by presburger
    then show ?thesis
      using assms(3) decode_sample_Inr [OF len(1) axes_int16] decode_sample_Inr [OF len(2) axes_int16]
      by (elim disjE) (simp_all add: packet_of_def eval_nat_numeral)
  qed
  then have "axes (drop 3 s) = axes (drop 3 t)" using len by (simp add: list_eq_iff_nth_eq)
  then have "drop 3 s = drop 3 t" using axes_inj [of "drop 3 s" "drop 3 t"] assms(1,2) by (simp add: packet_bytes_def)
  with 1 show ?thesis by (metis append_take_drop_id)
qed

section \<open>Unwrapping\<close>

fun unwrap_all :: "bool \<Rightarrow> int list \<Rightarrow> unwrapper \<Rightarrow> int list res" where
  "unwrap_all rep [] u = Inr []"
| "unwrap_all rep (raw # raws) u =
     (case unwrap rep raw u of
        (Inl e, u') \<Rightarrow> Inl e
      | (Inr t, u') \<Rightarrow> bindE (unwrap_all rep raws u') (\<lambda>ts. Inr (t # ts)))"

text \<open>The true device ticks advance, by at most half the modulus from one reading to the next.\<close>

fun advances :: "int \<Rightarrow> int \<Rightarrow> int list \<Rightarrow> bool" where
  "advances m t [] \<longleftrightarrow> True"
| "advances m t (t' # ts) \<longleftrightarrow> t \<le> t' \<and> t' - t \<le> m div 2 \<and> advances m t' ts"

lemma unwrap_step:
  assumes "2 < m" "t \<le> t'" "t' - t \<le> m div 2"
  shows "unwrap True (t' mod m) \<lparr>uw_modulus = m, uw_last = Some (t mod m, t - k)\<rparr> =
     (Inr (t' - k), \<lparr>uw_modulus = m, uw_last = Some (t' mod m, t' - k)\<rparr>)"
proof -
  have d: "(t' mod m - t mod m) mod m = t' - t"
  proof -
    have "(t' mod m - t mod m) mod m = (t' - t) mod m" by (simp add: mod_diff_eq)
    also have "\<dots> = t' - t" using assms by simp
    finally show ?thesis .
  qed
  have r: "\<not> (t' mod m < 0 \<or> t' mod m \<ge> m)" using pos_mod_sign [of m t'] pos_mod_bound [of m t'] assms(1) by linarith
  show ?thesis
  proof (cases "t' = t")
    case True
    then show ?thesis using r d by (simp add: unwrap_def)
  next
    case False
    then show ?thesis using d assms(2,3) unfolding unwrap_def unwrapper.simps if_not_P [OF r] by simp
  qed
qed

lemma unwrap_all_from:
  assumes "2 < m"
  shows "advances m t ts \<Longrightarrow>
     unwrap_all True (map (\<lambda>x. x mod m) ts) \<lparr>uw_modulus = m, uw_last = Some (t mod m, t - k)\<rparr> = Inr (map (\<lambda>x. x - k) ts)"
  by (induction ts arbitrary: t) (simp_all add: unwrap_step [OF assms])

lemma unwrap_first: "2 < m \<Longrightarrow> unwrap True (t mod m) \<lparr>uw_modulus = m, uw_last = None\<rparr> =
     (Inr (t mod m), \<lparr>uw_modulus = m, uw_last = Some (t mod m, t - (t - t mod m))\<rparr>)"
  by (simp add: unwrap_def not_less not_le)

lemma unwrap_recovers:
  assumes "new_unwrapper m = Inr u" and "advances m t ts"
  shows "unwrap_all True (map (\<lambda>x. x mod m) (t # ts)) u = Inr (map (\<lambda>x. x - (t - t mod m)) (t # ts))"
proof -
  have m: "2 < m" "u = \<lparr>uw_modulus = m, uw_last = None\<rparr>" using assms(1) by (auto simp: new_unwrapper_def)
  show ?thesis
    unfolding list.map unwrap_all.simps m(2) unwrap_first [OF m(1)] prod.case sum.case unwrap_all_from [OF m(1) assms(2)]
    by simp
qed

section \<open>The clock fit\<close>

text \<open>The only thing needed of the rounding: it keeps nonnegative numbers nonnegative.\<close>

definition rounding_ok :: "float_ops \<Rightarrow> bool" where
  "rounding_ok fo \<longleftrightarrow> (\<forall>r. 0 \<le> r \<longrightarrow> 0 \<le> fl fo r)"

definition points_ok :: "synchronizer \<Rightarrow> bool" where
  "points_ok s \<longleftrightarrow> 2 \<le> sy_window s \<and> 2 \<le> sy_minimum s \<and> length (sy_points s) \<le> sy_window s \<and>
     list_all (\<lambda>p. 0 \<le> sp_uncertainty p) (sy_points s)"

definition sync_sound :: "sync_estimate \<Rightarrow> bool" where
  "sync_sound e \<longleftrightarrow>
     (if se_quality e = ''insufficient'' then se_offset e = None \<and> se_residual e = None
      else se_quality e \<in> {''good'', ''degraded''} \<and> se_offset e \<noteq> None \<and> (\<exists>r. se_residual e = Some r \<and> 0 \<le> r))"

lemma insufficient_sound [simp]: "sync_sound (insufficient n)"
  by (simp add: sync_sound_def insufficient_def)

lemma total_residual_nonneg:
  assumes "rounding_ok fo" and "ps \<noteq> []" and "list_all (\<lambda>p. 0 \<le> sp_uncertainty p) ps"
  shows "0 \<le> total_residual fo ps"
proof -
  have "0 \<le> fit_residual fo ps"
    unfolding fit_residual_def using assms(2) by (intro Max_ge_iff [THEN iffD2]) (auto simp: ex_in_conv)
  moreover have "0 \<le> Max (set (map sp_uncertainty ps))"
  proof -
    obtain q where q: "q \<in> set ps" using assms(2) by (cases ps) auto
    have "0 \<le> sp_uncertainty q" using q assms(3) by (simp add: list_all_iff)
    also have "sp_uncertainty q \<le> Max (set (map sp_uncertainty ps))" using q by (intro Max_ge) auto
    finally show ?thesis .
  qed
  then have "0 \<le> fl fo (of_int (Max (set (map sp_uncertainty ps))))" using assms(1) by (simp add: rounding_ok_def)
  ultimately have "0 \<le> fl fo (fit_residual fo ps + fl fo (of_int (Max (set (map sp_uncertainty ps)))))"
    using assms(1) by (simp add: rounding_ok_def)
  then show ?thesis by (simp add: total_residual_def)
qed

lemma estimate_sound:
  assumes "rounding_ok fo" "points_ok s" "estimate fo s = Inr e"
  shows "sync_sound e"
proof (cases "length (sy_points s) < sy_minimum s \<or> fit_denominator fo (sy_points s) = 0")
  case True
  then show ?thesis using assms(3) by (auto simp: estimate_def Let_def split: if_splits)
next
  case False
  then have "sy_points s \<noteq> []" using assms(2) by (auto simp: points_ok_def)
  then have "0 \<le> total_residual fo (sy_points s)"
    using total_residual_nonneg assms(1,2) by (simp add: points_ok_def)
  then show ?thesis using False assms(3) by (auto simp: estimate_def Let_def sync_sound_def split: if_splits)
qed

lemma set_push: "set (push w x xs) \<subseteq> insert x (set xs)"
  using set_drop_subset [of "Suc (length xs) - w" "xs @ [x]"] by (simp add: push_def)

lemma length_push: "length xs \<le> w \<Longrightarrow> length (push w x xs) \<le> w"
  by (simp add: push_def)

lemma last_push: "0 < w \<Longrightarrow> push w x xs \<noteq> [] \<and> last (push w x xs) = x"
  by (simp add: push_def last_drop)

lemma add_point_ok:
  assumes "rounding_ok fo" "points_ok s" "add_point fo ticks start stop s = (Inr e, t)"
  shows "points_ok t" and "sync_sound e" and "sy_points t \<noteq> []" and "sp_ticks (last (sy_points t)) = ticks"
    and "sy_last_host t = Some ((start + stop) div 2)"
    and "sy_points s \<noteq> [] \<Longrightarrow> \<forall>h. sy_last_host s = Some h \<longrightarrow> h < (start + stop) div 2"
    and "0 \<le> start" "start \<le> stop" "0 \<le> ticks"
proof -
  have g: "0 \<le> ticks" "0 \<le> start" "start \<le> stop"
    "sy_points s = [] \<or> \<not> (ticks < sp_ticks (last (sy_points s)) \<or>
             (case sy_last_host s of None \<Rightarrow> False | Some h \<Rightarrow> (start + stop) div 2 \<le> h))"
    using assms(3) by (auto simp: add_point_def Let_def split: if_splits)
  show "0 \<le> start" "start \<le> stop" "0 \<le> ticks" using g by simp_all
  show "sy_points s \<noteq> [] \<Longrightarrow> \<forall>h. sy_last_host s = Some h \<longrightarrow> h < (start + stop) div 2"
    using g(4) by (auto split: option.splits)
  have "points_ok t \<and> sync_sound e \<and> sy_points t \<noteq> [] \<and> sp_ticks (last (sy_points t)) = ticks \<and>
      sy_last_host t = Some ((start + stop) div 2)"
  proof (cases "sy_points s \<noteq> [] \<and> ticks = sp_ticks (last (sy_points s))")
    case True
    then show ?thesis using assms(2,3) g by (auto simp: add_point_def Let_def points_ok_def split: if_splits)
  next
    case False
    let ?p = "\<lparr>sp_ticks = ticks, sp_host = (start + stop) div 2, sp_uncertainty = (stop - start) div 2\<rparr>"
    let ?t = "s\<lparr>sy_last_host := Some ((start + stop) div 2), sy_points := push (sy_window s) ?p (sy_points s)\<rparr>"
    have t: "estimate fo ?t = Inr e" "t = ?t"
      using assms(3) g False by (auto simp: add_point_def Let_def split: if_splits)
    have "points_ok ?t"
      using assms(2) g set_push [of "sy_window s" ?p "sy_points s"] length_push [of "sy_points s" "sy_window s" ?p]
      by (fastforce simp: points_ok_def list_all_iff)
    then show ?thesis using t estimate_sound [OF assms(1) _ t(1)] last_push [of "sy_window s" ?p "sy_points s"] assms(2)
      by (auto simp: points_ok_def)
  qed
  then show "points_ok t" "sync_sound e" "sy_points t \<noteq> []" "sp_ticks (last (sy_points t)) = ticks"
    "sy_last_host t = Some ((start + stop) div 2)" by simp_all
qed

section \<open>The collector\<close>

definition timestamp_of :: "imu_packet_read \<Rightarrow> int" where
  "timestamp_of r = int (big_endian 0 (take 3 (payload r)))"

text \<open>A read that went through the constructor of \<open>ImuPacketRead\<close>.\<close>

definition read_ok :: "imu_packet_read \<Rightarrow> bool" where
  "read_ok r \<longleftrightarrow> 0 \<le> host_read_start_ns r \<and> host_read_start_ns r \<le> host_read_end_ns r \<and> 0 \<le> lost_packets r"

lemma read_ok_iff: "read_ok r \<longleftrightarrow> (\<exists>b x y l. packet_read b x y l = Inr r)"
proof
  assume "read_ok r"
  then have "packet_read (payload r) (host_read_start_ns r) (host_read_end_ns r) (lost_packets r) = Inr r"
    by (simp add: packet_read_def read_ok_def)
  then show "\<exists>b x y l. packet_read b x y l = Inr r" by blast
qed (auto simp: packet_read_def read_ok_def)

fun collect ::
  "float_ops \<Rightarrow> imu_packet_read list \<Rightarrow> collector \<Rightarrow> (imu_observation list \<times> collector) res" where
  "collect fo [] c = Inr ([], c)"
| "collect fo (r # rs) c =
     (case collector_read fo 1 (Inr r) c of
        (Inl e, c') \<Rightarrow> Inl e
      | (Inr obs, c') \<Rightarrow> bindE (collect fo rs c') (\<lambda>(os, c''). Inr (obs # os, c'')))"

definition records_of :: "string \<Rightarrow> imu_observation list \<Rightarrow> jobject list" where
  "records_of sid os = concat (map (\<lambda>obs. map (\<lambda>s. as_record s sid) (io_samples obs)) os)"

definition vector_ok :: "vector3 \<Rightarrow> bool" where
  "vector_ok v \<longleftrightarrow> int16_ok (vx v) \<and> int16_ok (vy v) \<and> int16_ok (vz v)"

lemma packet_samples:
  assumes "length b = packet_bytes"
  obtains d0 d1 where "dp_samples (packet_of b) = [d0, d1]" "ds_index d0 = 0" "ds_index d1 = 1"
    "vector_ok (ds_accelerometer d0)" "vector_ok (ds_gyroscope d0)" "vector_ok (ds_accelerometer d1)" "vector_ok (ds_gyroscope d1)"
proof -
  have len: "length (axes (drop 3 b)) = 12" using assms by (simp add: axes_length packet_bytes_def)
  have i: "int16_ok (axes (drop 3 b) ! k)" if "k < 12" for k
    by (rule axes_int16 [OF nth_mem]) (use that len in simp)
  let ?x = "axes (drop 3 b)"
  let ?d = "\<lambda>k. \<lparr>ds_index = int k, ds_accelerometer = \<lparr>vx = ?x ! (k * 6), vy = ?x ! (k * 6 + 1), vz = ?x ! (k * 6 + 2)\<rparr>,
     ds_gyroscope = \<lparr>vx = ?x ! (k * 6 + 3), vy = ?x ! (k * 6 + 4), vz = ?x ! (k * 6 + 5)\<rparr>\<rparr>"
  show thesis
    by (rule that [of "?d 0" "?d 1"])
       (simp_all add: packet_of_def decode_sample_Inr [OF len axes_int16] vector_ok_def i)
qed

text \<open>One successful read.\<close>

definition sample_pair ::
  "collector \<Rightarrow> imu_packet_read \<Rightarrow> int \<Rightarrow> sync_estimate \<Rightarrow> decoded_sample \<Rightarrow> decoded_sample \<Rightarrow> imu_sample list" where
  "sample_pair c r ticks e d0 d1 =
     [sample_of c r (timestamp_of r) ticks e d0 (co_sample c + lost_packets r * 2),
      sample_of c r (timestamp_of r) ticks e d1 (co_sample c + lost_packets r * 2 + 1)]"

lemma collector_read_Inr:
  assumes "collector_read fo 1 (Inr r) c = (Inr obs, c')"
  obtains ticks u e s d0 d1 where
    "length (payload r) = packet_bytes" "unwrap True (timestamp_of r) (co_unwrapper c) = (Inr ticks, u)"
    "add_point fo ticks (host_read_start_ns r) (host_read_end_ns r) (co_synchronizer c) = (Inr e, s)"
    "io_samples obs = sample_pair c r ticks e d0 d1" "ds_index d0 = 0" "ds_index d1 = 1"
    "vector_ok (ds_accelerometer d0)" "vector_ok (ds_gyroscope d0)" "vector_ok (ds_accelerometer d1)" "vector_ok (ds_gyroscope d1)"
    "c' = c\<lparr>co_unwrapper := u, co_synchronizer := s, co_packet := co_packet c + lost_packets r + 1,
       co_sample := co_sample c + lost_packets r * 2 + 2\<rparr>"
proof -
  have len: "length (payload r) = packet_bytes"
  proof (rule ccontr)
    assume "length (payload r) \<noteq> packet_bytes"
    then show False using assms
      by (simp add: collector_read_def decode_packet_def read_failure_def imu_error_def split: if_splits)
  qed
  have nf: "read_failure x d \<noteq> (Inr obs, c')" for x d by (auto simp: read_failure_def split: pyexc.splits)
  obtain d0 d1 where d: "dp_samples (packet_of (payload r)) = [d0, d1]" "ds_index d0 = 0" "ds_index d1 = 1"
    "vector_ok (ds_accelerometer d0)" "vector_ok (ds_gyroscope d0)" "vector_ok (ds_accelerometer d1)" "vector_ok (ds_gyroscope d1)"
    using packet_samples [OF len] by blast
  have ts: "dp_timestamp (packet_of (payload r)) = timestamp_of r" by (simp add: packet_of_def timestamp_of_def)
  obtain x u where u: "unwrap True (timestamp_of r) (co_unwrapper c) = (x, u)" by fastforce
  note a = assms [unfolded collector_read_def bindE_Inr decode_packet_Inr [OF len] sum.case prod.case ts u]
  obtain ticks where x: "x = Inr ticks" using a nf by (cases x) (auto split: if_splits)
  obtain y s where s: "add_point fo ticks (host_read_start_ns r) (host_read_end_ns r) (co_synchronizer c) = (y, s)" by fastforce
  obtain e where y: "y = Inr e" using a nf by (cases y) (auto simp: x s Let_def split: if_splits)
  have p: "obs = \<lparr>io_samples = sample_pair c r ticks e d0 d1, io_dropped = lost_packets r * 2\<rparr>"
      "c' = c\<lparr>co_unwrapper := u, co_synchronizer := s, co_packet := co_packet c + lost_packets r + 1,
       co_sample := co_sample c + lost_packets r * 2 + 2\<rparr>"
    using a by (auto simp: x s y d(1) Let_def sample_pair_def upt_rec split: if_splits)
  show thesis by (rule that [of ticks u e s d0 d1]) (use len u x s y p d in simp_all)
qed

text \<open>The record of a sample is well formed.\<close>

lemma vector_list_ok: "vector_ok v \<Longrightarrow> raw_vector (vector_list v) = Inr ()"
  by (simp add: vector_ok_def raw_vector_def vector_list_def raw_axis_def int16_ok_def)

lemma imu_sync_record:
  "sync_sound e \<Longrightarrow> imu_sync [(''offset_ns'', json_option (se_offset e)), (''residual_ns'', json_option (se_residual e)),
     (''quality'', JStr (se_quality e))] = Inr ()"
  by (auto simp: sync_sound_def imu_sync_def json_option_def eq_str_def split: if_splits)

lemma cursor_of_record [simp]:
  "imu_cursor_of (as_record s sid) = \<lparr>ic_sequence = is_sequence s, ic_packet = is_packet s, ic_index = is_index s,
     ic_raw = is_timestamp s, ic_ticks = is_ticks s, ic_time = is_host s, ic_interval = (is_start s, is_end s)\<rparr>"
  by (simp add: imu_cursor_of_def as_record_def jint_def)

lemma record_ok:
  assumes "imu_cursor_ok (imu_cursor_of (as_record s sid))" "vector_ok (is_accelerometer s)" "vector_ok (is_gyroscope s)"
    and "imu_sync [(''offset_ns'', json_option (is_offset s)), (''residual_ns'', json_option (is_residual s)),
     (''quality'', JStr (is_quality s))] = Inr ()"
  shows "imu_record_ok (as_record s sid)"
  using assms(1) vector_list_ok [OF assms(2)] vector_list_ok [OF assms(3)] assms(4)
  unfolding imu_record_ok_def
  by (simp add: has_keys_def imu_keys_def del: cursor_of_record) (simp add: as_record_def has_keys_def insert_commute)

text \<open>The state of the collector after its last record \<open>n\<close>.\<close>

definition collector_at :: "collector \<Rightarrow> imu_cursor option \<Rightarrow> bool" where
  "collector_at c n \<longleftrightarrow>
     uw_modulus (co_unwrapper c) = device_timestamp_modulus \<and> points_ok (co_synchronizer c) \<and>
     0 \<le> co_packet c \<and> 0 \<le> co_sample c \<and>
     (case n of
        None \<Rightarrow> uw_last (co_unwrapper c) = None
      | Some m \<Rightarrow> uw_last (co_unwrapper c) = Some (ic_raw m, ic_ticks m) \<and> ic_packet m < co_packet c \<and>
          ic_sequence m < co_sample c \<and> sy_points (co_synchronizer c) \<noteq> [] \<and>
          sy_last_host (co_synchronizer c) = Some (ic_time m) \<and> ic_ticks m mod device_timestamp_modulus = ic_raw m)"

lemma new_collector_at: "new_synchronizer hz a b g d = Inr sy \<Longrightarrow> collector_at (new_collector sy) None"
  by (auto simp: new_synchronizer_def collector_at_def new_collector_def points_ok_def)

lemma unwrap_Inr:
  assumes "unwrap True raw u = (Inr ticks, u')" and "uw_modulus u = m" and "2 < m"
    and "\<And>r t. uw_last u = Some (r, t) \<Longrightarrow> t mod m = r"
  shows "uw_modulus u' = m" "uw_last u' = Some (raw, ticks)" "ticks mod m = raw" "0 \<le> raw" "raw < m"
    "\<And>r t. uw_last u = Some (r, t) \<Longrightarrow> (if r = raw then ticks = t else t < ticks)"
proof -
  have g: "0 \<le> raw" "raw < m" using assms(1,2) by (auto simp: unwrap_def split: if_splits)
  then show "0 \<le> raw" "raw < m" by simp_all
  have "uw_modulus u' = m \<and> uw_last u' = Some (raw, ticks) \<and> ticks mod m = raw \<and>
      (\<forall>r t. uw_last u = Some (r, t) \<longrightarrow> (if r = raw then ticks = t else t < ticks))"
  proof (cases "uw_last u")
    case None
    then show ?thesis using assms(1,2) g by (auto simp: unwrap_def)
  next
    case (Some x)
    obtain r t where x: "x = (r, t)" by (cases x)
    have r: "t mod m = r" using assms(4) Some x by simp
    let ?d = "(raw - r) mod m"
    have d0: "?d \<noteq> 0 \<Longrightarrow> 0 < ?d" using pos_mod_sign [of m "raw - r"] assms(3) by linarith
    have rr: "0 \<le> r" "r < m" using r assms(3) by auto
    have z: "?d = 0 \<longleftrightarrow> r = raw"
    proof
      assume "?d = 0"
      then have "raw mod m = r mod m" by (simp add: mod_eq_dvd_iff dvd_eq_mod_eq_0)
      then show "r = raw" using g rr by simp
    qed simp
    have "(t + ?d) mod m = raw"
    proof -
      have "(t + ?d) mod m = (t mod m + (raw - r)) mod m" by (simp add: mod_simps)
      then show ?thesis using r g by simp
    qed
    then show ?thesis using assms(1,2) g Some x r z d0 by (auto simp: unwrap_def Let_def split: if_splits)
  qed
  then show "uw_modulus u' = m" "uw_last u' = Some (raw, ticks)" "ticks mod m = raw"
    "\<And>r t. uw_last u = Some (r, t) \<Longrightarrow> (if r = raw then ticks = t else t < ticks)" by blast+
qed

lemma collector_step:
  assumes "rounding_ok fo" "collector_at c n" "read_ok r" "collector_read fo 1 (Inr r) c = (Inr obs, c')"
  obtains s0 s1 where "io_samples obs = [s0, s1]" "imu_record_ok (as_record s0 sid)" "imu_record_ok (as_record s1 sid)"
    "imu_before (imu_cursor_of (as_record s0 sid)) (imu_cursor_of (as_record s1 sid))"
    "ic_raw (imu_cursor_of (as_record s1 sid)) = timestamp_of r"
    "collector_at c' (Some (imu_cursor_of (as_record s1 sid)))"
    "\<forall>m. n = Some m \<longrightarrow> (imu_before m (imu_cursor_of (as_record s0 sid)) \<longleftrightarrow> ic_raw m \<noteq> timestamp_of r)"
proof -
  obtain ticks u e s d0 d1 where "length (payload r) = packet_bytes"
    and u: "unwrap True (timestamp_of r) (co_unwrapper c) = (Inr ticks, u)"
    and a: "add_point fo ticks (host_read_start_ns r) (host_read_end_ns r) (co_synchronizer c) = (Inr e, s)"
    and io: "io_samples obs = sample_pair c r ticks e d0 d1" and d: "ds_index d0 = 0" "ds_index d1 = 1"
    and v: "vector_ok (ds_accelerometer d0)" "vector_ok (ds_gyroscope d0)" "vector_ok (ds_accelerometer d1)" "vector_ok (ds_gyroscope d1)"
    and c': "c' = c\<lparr>co_unwrapper := u, co_synchronizer := s, co_packet := co_packet c + lost_packets r + 1,
       co_sample := co_sample c + lost_packets r * 2 + 2\<rparr>"
    by (rule collector_read_Inr [OF assms(4)])
  let ?M = device_timestamp_modulus
  have M: "2 < ?M" by (simp add: device_timestamp_modulus_def)
  have last: "t mod ?M = q" if "uw_last (co_unwrapper c) = Some (q, t)" for q t
    using assms(2) that by (auto simp: collector_at_def split: option.splits)
  have mod: "uw_modulus (co_unwrapper c) = ?M" using assms(2) by (simp add: collector_at_def)
  note U = unwrap_Inr [OF u mod M last]
  have pts: "points_ok (co_synchronizer c)" using assms(2) by (simp add: collector_at_def)
  note A = add_point_ok [OF assms(1) pts a]
  let ?h = "(host_read_start_ns r + host_read_end_ns r) div 2"
  have h: "host_read_start_ns r \<le> ?h" "?h \<le> host_read_end_ns r" using A(8) by simp_all
  define s0 where "s0 = sample_of c r (timestamp_of r) ticks e d0 (co_sample c + lost_packets r * 2)"
  define s1 where "s1 = sample_of c r (timestamp_of r) ticks e d1 (co_sample c + lost_packets r * 2 + 1)"
  have nn: "0 \<le> co_packet c" "0 \<le> co_sample c" "0 \<le> lost_packets r" using assms(2,3) by (simp_all add: collector_at_def read_ok_def)
  have cur: "imu_cursor_ok (imu_cursor_of (as_record s0 sid))" "imu_cursor_ok (imu_cursor_of (as_record s1 sid))"
    using U(3-5) A(7-9) h nn d by (simp_all add: s0_def s1_def sample_of_def imu_cursor_ok_def device_timestamp_modulus_def)
  have va: "vector_ok (is_accelerometer s0)" "vector_ok (is_gyroscope s0)" "vector_ok (is_accelerometer s1)" "vector_ok (is_gyroscope s1)"
    using v by (simp_all add: s0_def s1_def sample_of_def)
  have est: "is_offset s0 = se_offset e" "is_residual s0 = se_residual e" "is_quality s0 = se_quality e"
    "is_offset s1 = se_offset e" "is_residual s1 = se_residual e" "is_quality s1 = se_quality e"
    by (simp_all add: s0_def s1_def sample_of_def)
  have ok: "imu_record_ok (as_record s0 sid)"
    by (rule record_ok [OF cur(1) va(1,2)]) (simp only: est imu_sync_record [OF A(2)])
  have ok1: "imu_record_ok (as_record s1 sid)"
    by (rule record_ok [OF cur(2) va(3,4)]) (simp only: est imu_sync_record [OF A(2)])
  have before: "imu_before m (imu_cursor_of (as_record s0 sid)) \<longleftrightarrow> ic_raw m \<noteq> timestamp_of r" if "n = Some m" for m
  proof -
    have l: "uw_last (co_unwrapper c) = Some (ic_raw m, ic_ticks m)" "ic_packet m < co_packet c" "ic_sequence m < co_sample c"
      "sy_points (co_synchronizer c) \<noteq> []" "sy_last_host (co_synchronizer c) = Some (ic_time m)"
      using assms(2) that by (simp_all add: collector_at_def)
    have "ic_time m < ?h" using A(6) [OF l(4)] l(5) by simp
    then show ?thesis
      using U(6) [OF _ l(1)] l(1,2,3) nn by (auto simp: imu_before_def later_packet_def same_packet_def s0_def sample_of_def split: if_splits)
  qed
  show thesis
  proof (rule that [of s0 s1])
    show "collector_at c' (Some (imu_cursor_of (as_record s1 sid)))"
      using U(1-3) A(1,3,5) nn by (simp add: collector_at_def c' s1_def sample_of_def)
    show "imu_before (imu_cursor_of (as_record s0 sid)) (imu_cursor_of (as_record s1 sid))"
      using d by (simp add: imu_before_def same_packet_def s0_def s1_def sample_of_def)
  qed (use io ok ok1 before in \<open>simp_all add: sample_pair_def s0_def [symmetric] s1_def [symmetric]\<close>, simp add: s1_def sample_of_def)
qed

text \<open>A whole run.\<close>

lemma imu_before_successively: "sorted_wrt imu_before xs \<longleftrightarrow> successively imu_before xs"
  by (rule successively_conv_sorted_wrt [symmetric]) (rule transpI, rule imu_before_trans)

definition cursors :: "string \<Rightarrow> imu_observation list \<Rightarrow> imu_cursor list" where
  "cursors sid os = map imu_cursor_of (records_of sid os)"

definition after_cursor :: "imu_cursor option \<Rightarrow> imu_cursor list" where
  "after_cursor n = (case n of None \<Rightarrow> [] | Some m \<Rightarrow> [m])"

lemma collect_records:
  assumes "rounding_ok fo"
  shows "collect fo rs c = Inr (os, c') \<Longrightarrow> collector_at c n \<Longrightarrow> list_all read_ok rs \<Longrightarrow>
     list_all imu_record_ok (records_of sid os) \<and>
     (successively imu_before (after_cursor n @ cursors sid os) \<longleftrightarrow>
      distinct_adj (map ic_raw (after_cursor n) @ map timestamp_of rs))"
proof (induction rs arbitrary: c n os)
  case Nil
  then show ?case by (auto simp: records_of_def cursors_def after_cursor_def split: option.splits)
next
  case (Cons r rs)
  obtain obs c1 os1 where step: "collector_read fo 1 (Inr r) c = (Inr obs, c1)" "collect fo rs c1 = Inr (os1, c')" "os = obs # os1"
    using Cons.prems(1) by (auto simp: bindE_eq_Inr split: prod.splits sum.splits)
  have ro: "read_ok r" "list_all read_ok rs" using Cons.prems(3) by simp_all
  obtain s0 s1 where s: "io_samples obs = [s0, s1]" "imu_record_ok (as_record s0 sid)" "imu_record_ok (as_record s1 sid)"
    "imu_before (imu_cursor_of (as_record s0 sid)) (imu_cursor_of (as_record s1 sid))"
    "ic_raw (imu_cursor_of (as_record s1 sid)) = timestamp_of r"
    "collector_at c1 (Some (imu_cursor_of (as_record s1 sid)))"
    "\<forall>m. n = Some m \<longrightarrow> (imu_before m (imu_cursor_of (as_record s0 sid)) \<longleftrightarrow> ic_raw m \<noteq> timestamp_of r)"
    by (rule collector_step [where sid = sid, OF assms Cons.prems(2) ro(1) step(1)])
  let ?n0 = "imu_cursor_of (as_record s0 sid)" and ?n1 = "imu_cursor_of (as_record s1 sid)"
  have recs: "records_of sid os = as_record s0 sid # as_record s1 sid # records_of sid os1"
    by (simp add: records_of_def step(3) s(1))
  note IH = Cons.IH [OF step(2) s(6) ro(2)]
  have tail: "successively imu_before (?n1 # cursors sid os1) \<longleftrightarrow> distinct_adj (timestamp_of r # map timestamp_of rs)"
    using IH s(5) by (simp add: after_cursor_def del: cursor_of_record)
  have cur: "cursors sid os = ?n0 # ?n1 # cursors sid os1" by (simp add: cursors_def recs del: cursor_of_record)
  show ?case
  proof (cases n)
    case None
    then show ?thesis using IH recs s(2,3,4) tail
      by (simp add: cur after_cursor_def del: cursor_of_record)
  next
    case (Some m)
    then show ?thesis using IH recs s(2,3,4) s(7) Some tail
      by (simp add: cur after_cursor_def distinct_adj_Cons [of "ic_raw m"] del: cursor_of_record)
  qed
qed

lemma collected_session_iff:
  assumes "rounding_ok fo" and "new_synchronizer hz minimum window residual drift = Inr sy"
    and "list_all read_ok rs" and "collect fo rs (new_collector sy) = Inr (os, c)"
  shows "imu_sequence_ok (records_of sid os) \<longleftrightarrow> distinct_adj (map timestamp_of rs)"
  using collect_records [OF assms(1,4) new_collector_at [OF assms(2)] assms(3), of sid]
  by (simp add: imu_sequence_ok_def imu_before_successively after_cursor_def cursors_def)

end
