(* ===== verification/ImuProps.thy ===== *)
theory ImuProps
  imports ImuFacts SessionProps
begin

text \<open>The properties of the IMU pipeline, from the transport to the records of a session.\<close>

text \<open>Whatever is done with a source (opening it, reading, closing, in any order and with any replies),
  only requests the policy admits reach the driver: GET requests of 1 to 256 bytes to units and
  selectors that fit in a byte, never a GET_CUR of a denied selector, and the known IMU control only with
  its exact packet length.\<close>

theorem only_admitted_requests_reach_the_driver:
  assumes "source_run s"
  shows "\<forall>r \<in> set (us_issued s). allowed_request r"
  using source_run_safe [OF assms] by (simp add: issued_ok_def list_all_iff)

definition zero_packet :: "nat \<Rightarrow> string" where
  "zero_packet t = map char_of [0, 0, t] @ replicate 24 (char_of (0 :: nat))"

theorem only_admitted_requests_reach_the_driver_witness:
  "\<exists>s. source_run s \<and> us_issued s = [(3, 1, uvc_get_len, 2), (3, 1, uvc_get_cur, 27)] \<and>
     (\<forall>r \<in> set (us_issued s). allowed_request r)"
proof -
  let ?s = "\<lparr>us_unit = 3, us_selector = 1, us_last = None, us_closed = False, us_fd_open = True,
     us_issued = [(3, 1, uvc_get_len, 2)]\<rparr>"
  let ?t = "?s\<lparr>us_last := Some (zero_packet 1), us_issued := [(3, 1, uvc_get_len, 2), (3, 1, uvc_get_cur, 27)]\<rparr>"
  have "open_source 3 1 (1 / 1000) (Inr ()) (Inr (map char_of [27, 0 :: nat])) = (Inr (), ?s)"
    by (simp add: open_source_def query_def validate_control_query_def is_get_request_def uvc_get_len_def uvc_get_cur_def
        generic_xu_payload_max_def little_endian_def packet_bytes_def bit_iff_odd)
  then have s: "source_run ?s" by (rule source_run.opened)
  have "read_packet 0 1 [(5, Inr (zero_packet 1), 6)] ?s = Some (packet_read (zero_packet 1) 5 6 0, ?t)"
    by (simp add: read_packet_def query_def validate_control_query_def is_get_request_def uvc_get_len_def uvc_get_cur_def
        generic_xu_payload_max_def packet_bytes_def bit_iff_odd denied_get_cur_selectors_def zero_packet_def
        known_imu_unit_def xu_selector_def)
  then have t: "source_run ?t" by (rule source_run.read [OF s])
  show ?thesis using only_admitted_requests_reach_the_driver [OF t] t by (intro exI [of _ ?t]) simp
qed

text \<open>C37: A read of the source returns: once a poll ends at or after the deadline the loop has stopped, at
  that poll or before.  A packet it returns is 27 bytes long, differs from the packet returned before it, and is
  remembered as the last one, with a well-ordered read interval.\<close>

theorem source_read_returns:
  assumes "\<exists>(a, reply, b) \<in> set polls. now + \<lfloor>timeout * 1000000000\<rfloor> \<le> b"
  shows "\<exists>out t. read_packet now timeout polls s = Some (out, t) \<and>
     (\<forall>p. out = Inr p \<longrightarrow> length (payload p) = packet_bytes \<and> us_last s \<noteq> Some (payload p) \<and> us_last t = Some (payload p) \<and>
        0 \<le> host_read_start_ns p \<and> host_read_start_ns p \<le> host_read_end_ns p)"
proof (cases "timeout \<le> 0 \<or> us_closed s")
  case True
  then show ?thesis by (auto simp: read_packet_def)
next
  case False
  then obtain out t where "read_packet now timeout polls s = Some (out, t)"
      "poll_loop (now + \<lfloor>timeout * 1000000000\<rfloor>) polls s = Some (out, t)"
    using poll_loop_ends [OF assms, of s] by (auto simp: read_packet_def)
  then show ?thesis using poll_loop_fresh by blast
qed

theorem source_read_returns_witness:
  "\<exists>out t. read_packet 0 (1 / 1000000000) [(0, Inl OSError, 2)]
     \<lparr>us_unit = 3, us_selector = 1, us_last = None, us_closed = False, us_fd_open = True, us_issued = []\<rparr> = Some (out, t)"
  using source_read_returns [of "[(0, Inl OSError, 2)]" 0 "1 / 1000000000"] by fastforce

text \<open>Every 27-byte packet decodes, without a range error of its axes, and two packets decode alike only
  if they are the same bytes: no bit of the six axes of the two samples or of the timestamp is lost.\<close>

theorem packet_decoding_is_faithful:
  assumes "length a = packet_bytes" and "length b = packet_bytes"
  shows "decode_packet a = Inr (packet_of a) \<and> (decode_packet a = decode_packet b \<longleftrightarrow> a = b)"
  using decode_packet_Inr [OF assms(1)] decode_packet_Inr [OF assms(2)] packet_of_inj [OF assms] by auto

theorem packet_decoding_is_faithful_witness:
  "decode_packet (zero_packet 1) \<noteq> decode_packet (zero_packet 2)"
proof -
  have "length (zero_packet 1) = packet_bytes" "length (zero_packet 2) = packet_bytes" "zero_packet 1 \<noteq> zero_packet 2"
    by (simp_all add: zero_packet_def packet_bytes_def)
  then show ?thesis using packet_decoding_is_faithful by blast
qed

text \<open>Unwrapping recovers the device clock.  If the true tick counts of successive packets never decrease and
  grow by at most half the modulus, then from their residues alone the unwrapper returns exactly those
  counts, shifted by the multiple of the modulus that preceded the first one.\<close>

theorem unwrapping_recovers_ticks:
  assumes "new_unwrapper m = Inr u" and "advances m t ts"
  shows "unwrap_all True (map (\<lambda>x. x mod m) (t # ts)) u = Inr (map (\<lambda>x. x - (t - t mod m)) (t # ts))"
  by (rule unwrap_recovers [OF assms])

theorem unwrapping_recovers_ticks_witness:
  "unwrap_all True (map (\<lambda>x. x mod device_timestamp_modulus) [16777300, 16777305, 25165913])
     \<lparr>uw_modulus = device_timestamp_modulus, uw_last = None\<rparr> = Inr [84, 89, 8388697]"
proof -
  have n: "new_unwrapper device_timestamp_modulus = Inr \<lparr>uw_modulus = device_timestamp_modulus, uw_last = None\<rparr>"
    by (simp add: new_unwrapper_def device_timestamp_modulus_def)
  have a: "advances device_timestamp_modulus 16777300 [16777305, 25165913]"
    by (simp add: device_timestamp_modulus_def)
  show ?thesis using unwrapping_recovers_ticks [OF n a] by (simp add: device_timestamp_modulus_def)
qed

text \<open>The records of a collector are accepted by the session validator exactly when no two successive
  packets carry the same device timestamp.  Decoding, unwrapping, the clock fit, the sequence
  numbers over lost packets and the host intervals never break the record format; but the collector lets
  a repeated timestamp through, since several packets may belong to one video frame, and the validator
  then rejects the whole session, because a new packet must advance the device ticks.\<close>

theorem collected_records_are_valid_iff_timestamps_advance:
  assumes "rounding_ok fo" and "new_synchronizer hz minimum window residual drift = Inr sy"
    and "list_all read_ok reads" and "collect fo reads (new_collector sy) = Inr (os, c)"
  shows "validate_imu (records_of sid os) = Inr () \<longleftrightarrow> distinct_adj (map timestamp_of reads)"
  using collected_session_iff [OF assms, of sid] validate_imu_Inr by blast

definition exact_floats :: float_ops where
  "exact_floats = \<lparr>fl = (\<lambda>r. r), fsum = sum_list\<rparr>"

definition example_reads :: "nat \<Rightarrow> imu_packet_read list" where
  "example_reads t =
     [\<lparr>payload = zero_packet 1, host_read_start_ns = 10, host_read_end_ns = 20, lost_packets = 0\<rparr>,
      \<lparr>payload = zero_packet t, host_read_start_ns = 30, host_read_end_ns = 40, lost_packets = 1\<rparr>]"

lemma zero_packet_length: "length (zero_packet t) = packet_bytes"
  by (simp add: zero_packet_def packet_bytes_def)

lemma zero_packet_timestamp: "t < 256 \<Longrightarrow> dp_timestamp (packet_of (zero_packet t)) = int t"
  by (simp add: packet_of_def zero_packet_def)

definition example_sync :: synchronizer where
  "example_sync = \<lparr>sy_expected_hz = None, sy_minimum = 3, sy_window = 64, sy_good_residual = 1000000, sy_good_drift = 2000,
     sy_points = [], sy_last_host = None\<rparr>"

definition example_point :: sync_point where
  "example_point = \<lparr>sp_ticks = 1, sp_host = 15, sp_uncertainty = 5\<rparr>"

definition example_collector :: collector where
  "example_collector = \<lparr>co_unwrapper = \<lparr>uw_modulus = device_timestamp_modulus, uw_last = Some (1, 1)\<rparr>,
     co_synchronizer = example_sync\<lparr>sy_points := [example_point], sy_last_host := Some 15\<rparr>, co_packet = 1, co_sample = 2, co_closed = False\<rparr>"

lemma two_samples: "length b = packet_bytes \<Longrightarrow> length (dp_samples (packet_of b)) = 2"
  by (simp add: packet_of_def)

lemma example_first:
  "\<exists>obs. collector_read exact_floats 1 (Inr (hd (example_reads t))) (new_collector example_sync) = (Inr obs, example_collector)"
proof -
  have u: "unwrap True 1 \<lparr>uw_modulus = device_timestamp_modulus, uw_last = None\<rparr> =
      (Inr 1, \<lparr>uw_modulus = device_timestamp_modulus, uw_last = Some (1, 1)\<rparr>)"
    by (simp add: unwrap_def device_timestamp_modulus_def)
  have a: "add_point exact_floats 1 10 20 example_sync =
      (Inr (insufficient 1), example_sync\<lparr>sy_points := [example_point], sy_last_host := Some 15\<rparr>)"
    by (simp add: add_point_def example_sync_def estimate_def push_def Let_def example_point_def)
  show ?thesis
    by (simp add: collector_read_def example_reads_def decode_packet_Inr [OF zero_packet_length] zero_packet_timestamp
        new_collector_def u a two_samples [OF zero_packet_length] Let_def example_collector_def)
qed

lemma example_second:
  assumes "t = 1 \<or> t = 2"
  shows "\<exists>obs c. collector_read exact_floats 1 (Inr (example_reads t ! 1)) example_collector = (Inr obs, c)"
proof -
  obtain u where u: "unwrap True (int t) \<lparr>uw_modulus = device_timestamp_modulus, uw_last = Some (1, 1)\<rparr> = (Inr (int t), u)"
    using assms by (auto simp: unwrap_def device_timestamp_modulus_def)
  obtain e s where a: "add_point exact_floats (int t) 30 40 (example_sync\<lparr>sy_points := [example_point], sy_last_host := Some 15\<rparr>) = (Inr e, s)"
    using assms by (auto simp: add_point_def example_sync_def estimate_def push_def Let_def example_point_def)
  have "t < 256" using assms by auto
  then show ?thesis
    by (simp add: collector_read_def example_reads_def decode_packet_Inr [OF zero_packet_length] zero_packet_timestamp
        example_collector_def u a Let_def)
qed

lemma collect_two:
  "collector_read fo 1 (Inr r0) c = (Inr o1, c1) \<Longrightarrow> collector_read fo 1 (Inr r1) c1 = (Inr o2, c2) \<Longrightarrow>
     collect fo [r0, r1] c = Inr ([o1, o2], c2)"
  by simp

lemma example_collects:
  assumes "t = 1 \<or> t = 2"
  shows "\<exists>os c. collect exact_floats (example_reads t) (new_collector example_sync) = Inr (os, c)"
proof -
  have e: "example_reads t = [hd (example_reads t), example_reads t ! 1]" by (simp add: example_reads_def)
  obtain o1 where 1: "collector_read exact_floats 1 (Inr (hd (example_reads t))) (new_collector example_sync) = (Inr o1, example_collector)"
    using example_first by blast
  obtain o2 c where 2: "collector_read exact_floats 1 (Inr (example_reads t ! 1)) example_collector = (Inr o2, c)"
    using example_second [OF assms] by blast
  show ?thesis by (subst e) (use collect_two [OF 1 2] in blast)
qed

theorem collected_records_are_valid_iff_timestamps_advance_witness:
  "(\<exists>os c. collect exact_floats (example_reads 2) (new_collector example_sync) = Inr (os, c) \<and> validate_imu (records_of sample_id os) = Inr ()) \<and>
   (\<exists>os c. collect exact_floats (example_reads 1) (new_collector example_sync) = Inr (os, c) \<and> validate_imu (records_of sample_id os) \<noteq> Inr ())"
proof -
  have f: "rounding_ok exact_floats" by (simp add: rounding_ok_def exact_floats_def)
  have s: "new_synchronizer None 3 64 1000000 2000 = Inr example_sync" by (simp add: new_synchronizer_def example_sync_def)
  have r: "list_all read_ok (example_reads t)" for t by (simp add: example_reads_def read_ok_def)
  have t: "distinct_adj (map timestamp_of (example_reads 2))" "\<not> distinct_adj (map timestamp_of (example_reads 1))"
    by (simp_all add: example_reads_def timestamp_of_def zero_packet_def)
  note iff = collected_records_are_valid_iff_timestamps_advance [OF f s r, where sid = sample_id]
  obtain o1 c1 where 1: "collect exact_floats (example_reads 1) (new_collector example_sync) = Inr (o1, c1)"
    using example_collects [of 1] by auto
  obtain o2 c2 where 2: "collect exact_floats (example_reads 2) (new_collector example_sync) = Inr (o2, c2)"
    using example_collects [of 2] by auto
  have "validate_imu (records_of sample_id o2) = Inr ()" "validate_imu (records_of sample_id o1) \<noteq> Inr ()"
    using iff [OF 1] iff [OF 2] t by simp_all
  with 1 2 show ?thesis by blast
qed

end
