(* ===== verification/Deletion.thy ===== *)
theory Deletion
  imports PyJson "HOL-Library.Multiset"
begin

text \<open>
  \<open>recording/deletion.py\<close>: the preflight over every sealed recording and the removal of the selected
  ones, a recording before the one it continues.  A root directory is what its listing shows; what
  \<open>inspect_device_session_directory\<close> returned for an entry (the manifest's session id, the identity of the
  recording it continues, its number within the take, and the manifest bytes) is part of the listing.
  \<open>hash\<close> is the hexadecimal SHA-256, and \<open>fate\<close> says how the removal of each recording went.
\<close>

section \<open>The request\<close>

fun valid_items :: "string list \<Rightarrow> json list \<Rightarrow> bool" where
  "valid_items seen [] = True"
| "valid_items seen (v # vs) =
     (case v of
        JObj d \<Rightarrow>
          has_keys d [''session_id'', ''manifest_sha256''] \<and>
          (case (jget d ''session_id'', jget d ''manifest_sha256'') of
             (JStr sid, JStr digest) \<Rightarrow> uuid_v7 sid \<and> hex_n 64 digest \<and> sid \<notin> set seen \<and> valid_items (sid # seen) vs
           | _ \<Rightarrow> False)
      | _ \<Rightarrow> False)"

definition valid_delete_request :: "json \<Rightarrow> bool" where
  "valid_delete_request v =
     (case v of
        JObj d \<Rightarrow>
          has_keys d [''schema'', ''sessions''] \<and>
          (case jget d ''sessions'' of
             JList items \<Rightarrow>
               eq_str (jget d ''schema'') ''ylx.session-delete-request.v1'' \<and>
               1 \<le> length items \<and> length items \<le> 200 \<and> valid_items [] items
           | _ \<Rightarrow> False)
      | _ \<Rightarrow> False)"

section \<open>Preflight\<close>

type_synonym inode = "int \<times> int \<times> int"

record sealed_manifest =
  sm_session_id :: string
  sm_continuation_of :: "string option"
  sm_sequence :: int

record listed_entry =
  le_name :: string
  le_symlink :: bool
  le_identity :: "inode res"
  le_inspected :: "(sealed_manifest \<times> string) res"

record candidate =
  ca_root :: nat
  ca_identity :: inode
  ca_manifest :: sealed_manifest
  ca_payload :: string

definition provider_error :: "string \<Rightarrow> pyexc" where
  "provider_error code = AppError ''ProviderError'' code False"

text \<open>The exceptions of the inner \<open>try\<close>: \<open>OSError\<close> (a timeout is one), \<open>DeviceRecordingError\<close>, \<open>ValueError\<close>,
  \<open>KeyError\<close>; all become the same error, the others pass.\<close>

fun unsafe_entry :: "pyexc \<Rightarrow> bool" where
  "unsafe_entry OSError = True"
| "unsafe_entry TimeoutError = True"
| "unsafe_entry ValueError = True"
| "unsafe_entry KeyError = True"
| "unsafe_entry (AppError cls code retry) = (cls = ''DeviceRecordingError'')"
| "unsafe_entry _ = False"

definition inspect_entry :: "nat \<Rightarrow> listed_entry \<Rightarrow> (string \<times> candidate) list \<Rightarrow> (string \<times> candidate) res" where
  "inspect_entry k e cs =
     guardE (le_symlink e) ValueError
     (bindE (le_identity e) (\<lambda>identity.
      bindE (le_inspected e) (\<lambda>(manifest, bytes).
      guardE (sm_session_id manifest \<noteq> le_name e \<or> le_name e \<in> set (map fst cs)) ValueError
        (Inr (le_name e, \<lparr>ca_root = k, ca_identity = identity, ca_manifest = manifest, ca_payload = bytes\<rparr>)))))"

definition scan_entry :: "nat \<Rightarrow> listed_entry \<Rightarrow> (string \<times> candidate) list \<Rightarrow> (string \<times> candidate) list res" where
  "scan_entry k e cs =
     (if \<not> uuid_v7 (le_name e) then Inr cs
      else
       (case inspect_entry k e cs of
          Inr c \<Rightarrow> Inr (cs @ [c])
        | Inl x \<Rightarrow> Inl (if unsafe_entry x then provider_error ''catalog_unavailable'' else x)))"

fun scan_roots :: "nat \<Rightarrow> listed_entry list res list \<Rightarrow> (string \<times> candidate) list \<Rightarrow> (string \<times> candidate) list res" where
  "scan_roots k [] cs = Inr cs"
| "scan_roots k (r # rs) cs =
     bindE r (\<lambda>entries. bindE (foldE (scan_entry k) entries cs) (scan_roots (Suc k) rs))"

definition check_expected :: "(string \<Rightarrow> string) \<Rightarrow> (string \<times> candidate) list \<Rightarrow> string \<times> string \<Rightarrow> unit \<Rightarrow> unit res" where
  "check_expected hash cs e u =
     (case map_of cs (fst e) of
        None \<Rightarrow> Inl (provider_error ''not_found'')
      | Some c \<Rightarrow> guardE (hash (ca_payload c) \<noteq> snd e) (provider_error ''manifest_changed'') (Inr ()))"

definition left_behind :: "(string \<times> string) list \<Rightarrow> string \<times> candidate \<Rightarrow> bool" where
  "left_behind expected c \<longleftrightarrow>
     (case sm_continuation_of (ca_manifest (snd c)) of None \<Rightarrow> False | Some p \<Rightarrow> p \<in> set (map fst expected)) \<and>
     fst c \<notin> set (map fst expected)"

definition preflight ::
  "(string \<Rightarrow> string) \<Rightarrow> listed_entry list res list \<Rightarrow> (string \<times> string) list \<Rightarrow> (string \<times> candidate) list res" where
  "preflight hash roots expected =
     bindE (scan_roots 0 roots []) (\<lambda>cs.
     bindE (foldE (check_expected hash cs) expected ()) (\<lambda>_.
     guardE (\<exists>c \<in> set cs. left_behind expected c) (provider_error ''continuation_required'') (Inr cs)))"

section \<open>Removal\<close>

definition take_sequence :: "(string \<times> candidate) list \<Rightarrow> string \<Rightarrow> int" where
  "take_sequence cs name = sm_sequence (ca_manifest (the (map_of cs name)))"

text \<open>\<open>sorted(expected, key=sequence, reverse=True)\<close>: descending, equal keys in their order.\<close>

definition removal_order :: "(string \<times> candidate) list \<Rightarrow> (string \<times> string) list \<Rightarrow> string list" where
  "removal_order cs expected = sort_key (\<lambda>name. - take_sequence cs name) (map fst expected)"

text \<open>The \<open>stat\<close> raised, found another inode or mode; \<open>rmtree\<close> raised; the directory was removed but its parent
  could not be synced; all went well.\<close>

datatype removal = StatFailed | Found "inode" "unit res" "unit res"

fun remove_all ::
  "(string \<times> candidate) list \<Rightarrow> (string \<Rightarrow> removal) \<Rightarrow> string list \<Rightarrow> string list \<times> string list" where
  "remove_all cs fate [] = ([], [])"
| "remove_all cs fate (n # ns) =
     (case fate n of
        StatFailed \<Rightarrow> ([], n # ns)
      | Found identity rmtree sync \<Rightarrow>
          if identity \<noteq> ca_identity (the (map_of cs n)) then ([], n # ns)
          else (case rmtree of
                  Inl e \<Rightarrow> ([], n # ns)
                | Inr _ \<Rightarrow>
                   (case sync of
                      Inl e \<Rightarrow> ([n], ns)
                    | Inr _ \<Rightarrow> (let (deleted, failures) = remove_all cs fate ns in (n # deleted, failures)))))"

record delete_result =
  dr_deleted :: "string list"
  dr_failed :: "string list"

definition delete_recordings ::
  "(string \<Rightarrow> string) \<Rightarrow> listed_entry list res list \<Rightarrow> (string \<times> string) list \<Rightarrow> (string \<Rightarrow> removal) \<Rightarrow> delete_result res" where
  "delete_recordings hash roots expected fate =
     bindE (preflight hash roots expected) (\<lambda>cs.
       (case remove_all cs fate (removal_order cs expected) of (deleted, failures) \<Rightarrow>
         Inr \<lparr>dr_deleted = deleted, dr_failed = failures\<rparr>))"

section \<open>Facts\<close>

lemma remove_all_split: "remove_all cs fate ns = (ds, fs) \<Longrightarrow> ds @ fs = ns"
proof (induction ns arbitrary: ds fs)
  case (Cons n ns)
  then show ?case by (auto simp: Let_def split: removal.splits if_splits sum.splits prod.splits)
qed simp

lemma scan_entry_keys:
  assumes "scan_entry k e cs = Inr cs'" and "distinct (map fst cs)" and "\<forall>(n, c) \<in> set cs. sm_session_id (ca_manifest c) = n"
  shows "distinct (map fst cs') \<and> (\<forall>(n, c) \<in> set cs'. sm_session_id (ca_manifest c) = n)"
  using assms
  by (auto simp: scan_entry_def inspect_entry_def bindE_eq_Inr split: if_splits sum.splits prod.splits)

definition scanned :: "(string \<times> candidate) list \<Rightarrow> bool" where
  "scanned cs \<longleftrightarrow> distinct (map fst cs) \<and> (\<forall>(n, c) \<in> set cs. sm_session_id (ca_manifest c) = n)"

lemma scan_roots_ok: "scan_roots k rs cs = Inr cs' \<Longrightarrow> scanned cs \<Longrightarrow> scanned cs'"
proof (induction k rs cs rule: scan_roots.induct)
  case (2 k r rs cs)
  then obtain entries cs1 where r: "r = Inr entries" "foldE (scan_entry k) entries cs = Inr cs1" "scan_roots (Suc k) rs cs1 = Inr cs'"
    by (auto simp: bindE_eq_Inr)
  have "scanned cs1"
    by (rule foldE_invariant [where P = scanned, OF r(2) 2(3)]) (use scan_entry_keys in \<open>auto simp: scanned_def\<close>)
  then show ?case using 2(1) r by simp
qed simp

lemma check_expected_all:
  "foldE (check_expected hash cs) es u = Inr v \<Longrightarrow> (n, d) \<in> set es \<Longrightarrow> \<exists>c. map_of cs n = Some c \<and> hash (ca_payload c) = d"
  by (induction es arbitrary: u) (auto simp: bindE_eq_Inr check_expected_def split: option.splits)

lemma preflight_Inr:
  assumes "preflight hash roots expected = Inr cs"
  shows "scanned cs" and "\<And>n d. (n, d) \<in> set expected \<Longrightarrow> \<exists>c. map_of cs n = Some c \<and> hash (ca_payload c) = d"
    and "\<And>c. c \<in> set cs \<Longrightarrow> \<not> left_behind expected c" and "scan_roots 0 roots [] = Inr cs"
proof -
  have s: "scan_roots 0 roots [] = Inr cs" "\<exists>u. foldE (check_expected hash cs) expected () = Inr u"
    "\<not> (\<exists>c \<in> set cs. left_behind expected c)"
    using assms by (auto simp: preflight_def bindE_eq_Inr)
  show "scan_roots 0 roots [] = Inr cs" by (rule s(1))
  show "scanned cs" by (rule scan_roots_ok [OF s(1)]) (simp add: scanned_def)
  show "\<And>n d. (n, d) \<in> set expected \<Longrightarrow> \<exists>c. map_of cs n = Some c \<and> hash (ca_payload c) = d"
    using check_expected_all s(2) by blast
  show "\<And>c. c \<in> set cs \<Longrightarrow> \<not> left_behind expected c" using s(3) by blast
qed

text \<open>Where continuations count upwards.\<close>

definition continuations_count_up :: "(string \<times> candidate) list \<Rightarrow> bool" where
  "continuations_count_up cs \<longleftrightarrow>
     (\<forall>(n, c) \<in> set cs. \<forall>(m, p) \<in> set cs. sm_continuation_of (ca_manifest c) = Some m \<longrightarrow>
        sm_sequence (ca_manifest p) < sm_sequence (ca_manifest c))"

lemma map_of_scanned: "scanned cs \<Longrightarrow> (n, c) \<in> set cs \<Longrightarrow> map_of cs n = Some c"
  by (simp add: scanned_def map_of_is_SomeI)

lemma sorted_desc_prefix:
  fixes f :: "'a \<Rightarrow> int"
  assumes "ds @ fs = sort_key (\<lambda>x. - f x) xs" "x \<in> set ds" "y \<in> set xs" "f x < f y"
  shows "y \<in> set ds"
proof (rule ccontr)
  assume "y \<notin> set ds"
  have "set (ds @ fs) = set xs" using assms(1) by simp
  then have "y \<in> set fs" using \<open>y \<notin> set ds\<close> assms(3) by auto
  have "sorted (map (\<lambda>x. - f x) (ds @ fs))" unfolding assms(1) by simp
  then have "- f x \<le> - f y" using assms(2) \<open>y \<in> set fs\<close> by (auto simp: sorted_append)
  then show False using assms(4) by simp
qed

lemma delete_recordings_Inr:
  assumes "delete_recordings hash roots expected fate = Inr r"
  obtains cs where "preflight hash roots expected = Inr cs" "scan_roots 0 roots [] = Inr cs"
    "remove_all cs fate (removal_order cs expected) = (dr_deleted r, dr_failed r)"
proof -
  from assms obtain cs where p: "preflight hash roots expected = Inr cs"
    and r: "(case remove_all cs fate (removal_order cs expected) of (deleted, failures) \<Rightarrow>
         Inr \<lparr>dr_deleted = deleted, dr_failed = failures\<rparr>) = (Inr r :: delete_result res)"
    unfolding delete_recordings_def bindE_eq_Inr by blast
  obtain ds fs where "remove_all cs fate (removal_order cs expected) = (ds, fs)" by fastforce
  with p r have cs: "preflight hash roots expected = Inr cs"
    "remove_all cs fate (removal_order cs expected) = (dr_deleted r, dr_failed r)" by auto
  then show thesis using that preflight_Inr(4) [OF cs(1)] by blast
qed

lemma remove_all_deleted:
  "remove_all cs fate ns = (ds, fs) \<Longrightarrow> n \<in> set ds \<Longrightarrow> \<exists>sync. fate n = Found (ca_identity (the (map_of cs n))) (Inr ()) sync"
proof (induction ns arbitrary: ds fs)
  case (Cons k ns)
  then show ?case by (fastforce simp: Let_def split: removal.splits if_splits sum.splits prod.splits)
qed simp

lemma delete_keeps_chains:
  assumes "delete_recordings hash roots expected fate = Inr r"
    and "scan_roots 0 roots [] = Inr cs" and "continuations_count_up cs"
    and "(n, c) \<in> set cs" "sm_continuation_of (ca_manifest c) = Some m" "m \<in> set (dr_deleted r)"
  shows "n \<in> set (dr_deleted r)"
proof -
  define ds fs where r: "ds = dr_deleted r" "fs = dr_failed r"
  obtain cs' where "preflight hash roots expected = Inr cs'" "scan_roots 0 roots [] = Inr cs'"
    "remove_all cs' fate (removal_order cs' expected) = (dr_deleted r, dr_failed r)"
    by (rule delete_recordings_Inr [OF assms(1)])
  then have p: "preflight hash roots expected = Inr cs" and ds: "remove_all cs fate (removal_order cs expected) = (ds, fs)"
    using assms(2) r by simp_all
  have split: "ds @ fs = removal_order cs expected" by (rule remove_all_split [OF ds])
  have "set (ds @ fs) = set (map fst expected)" unfolding split by (simp add: removal_order_def)
  then have m: "m \<in> set (map fst expected)" using assms(6) r by auto
  then have n: "n \<in> set (map fst expected)"
    using preflight_Inr(3) [OF p assms(4)] assms(5) by (auto simp: left_behind_def)
  obtain q where q: "map_of cs m = Some q" using preflight_Inr(2) [OF p] m by fastforce
  have c: "map_of cs n = Some c" by (rule map_of_scanned [OF preflight_Inr(1) [OF p] assms(4)])
  have "sm_sequence (ca_manifest q) < sm_sequence (ca_manifest c)"
    using assms(3,4,5) map_of_SomeD [OF q] by (auto simp: continuations_count_up_def)
  then have "take_sequence cs m < take_sequence cs n" using q c by (simp add: take_sequence_def)
  then have "n \<in> set ds"
    using sorted_desc_prefix [of ds fs "take_sequence cs" "map fst expected" m n] split assms(6) r n
    by (simp add: removal_order_def)
  then show ?thesis by (simp add: r)
qed

section \<open>Properties\<close>

text \<open>C28: Whatever goes wrong during the removal, a deleted recording never leaves behind a recording that
  continues it: the preflight refuses a selection that omits a continuation, and the removal goes
  from the last of a take to the first, so that at the point where it stops every continuation of a deleted
  recording is already deleted.\<close>

theorem no_orphaned_continuation:
  assumes "delete_recordings hash roots expected fate = Inr r"
    and "scan_roots 0 roots [] = Inr cs" and "continuations_count_up cs"
  shows "\<forall>(n, c) \<in> set cs. \<forall>m. sm_continuation_of (ca_manifest c) = Some m \<and> m \<in> set (dr_deleted r) \<longrightarrow> n \<in> set (dr_deleted r)"
  using delete_keeps_chains [OF assms] by blast

text \<open>The answer accounts for the request: deleted and failed recordings together are the requested ones, each
  once; every one of them was found with the manifest digest the caller confirmed, exactly one
  candidate per name; and each deleted one was, when it was removed, still the directory the preflight saw.\<close>

theorem deletion_accounts_for_the_request:
  assumes "delete_recordings hash roots expected fate = Inr r" and "distinct (map fst expected)"
  shows "mset (dr_deleted r @ dr_failed r) = mset (map fst expected) \<and> distinct (dr_deleted r @ dr_failed r) \<and>
    (\<exists>cs. scan_roots 0 roots [] = Inr cs \<and> distinct (map fst cs) \<and>
       (\<forall>(n, d) \<in> set expected. \<exists>c. map_of cs n = Some c \<and> hash (ca_payload c) = d) \<and>
       (\<forall>n \<in> set (dr_deleted r). \<exists>c sync. map_of cs n = Some c \<and> fate n = Found (ca_identity c) (Inr ()) sync))"
proof -
  obtain cs where cs: "preflight hash roots expected = Inr cs" "scan_roots 0 roots [] = Inr cs"
    "remove_all cs fate (removal_order cs expected) = (dr_deleted r, dr_failed r)"
    by (rule delete_recordings_Inr [OF assms(1)])
  have split: "dr_deleted r @ dr_failed r = removal_order cs expected" by (rule remove_all_split [OF cs(3)])
  have found: "\<exists>c. map_of cs n = Some c \<and> hash (ca_payload c) = d" if "(n, d) \<in> set expected" for n d
    by (rule preflight_Inr(2) [OF cs(1) that])
  have "\<exists>c sync. map_of cs n = Some c \<and> fate n = Found (ca_identity c) (Inr ()) sync" if "n \<in> set (dr_deleted r)" for n
  proof -
    have "n \<in> set (removal_order cs expected)" using that split by (metis Un_iff set_append)
    then obtain d where "(n, d) \<in> set expected" by (auto simp: removal_order_def)
    then show ?thesis using found remove_all_deleted [OF cs(3) that] by fastforce
  qed
  moreover have "distinct (map fst cs)" using preflight_Inr(1) [OF cs(1)] by (simp add: scanned_def)
  moreover have "mset (dr_deleted r @ dr_failed r) = mset (map fst expected)" unfolding split by (simp add: removal_order_def)
  moreover have "distinct (dr_deleted r @ dr_failed r)" unfolding split using assms(2) by (simp add: removal_order_def)
  ultimately show ?thesis using cs(2) found by blast
qed

text \<open>A take of two recordings: the second continues the first.\<close>

definition first_id :: string where "first_id = ''01234567-89ab-7cde-8f01-23456789abcd''"
definition second_id :: string where "second_id = ''11234567-89ab-7cde-8f01-23456789abcd''"

definition entry_of :: "string \<Rightarrow> string option \<Rightarrow> int \<Rightarrow> int \<Rightarrow> listed_entry" where
  "entry_of name previous n inode = \<lparr>le_name = name, le_symlink = False, le_identity = Inr (1, inode, 16877),
     le_inspected = Inr (\<lparr>sm_session_id = name, sm_continuation_of = previous, sm_sequence = n\<rparr>, name)\<rparr>"

definition two_roots :: "listed_entry list res list" where
  "two_roots = [Inr [entry_of first_id None 1 10, entry_of second_id (Some first_id) 2 20]]"

definition cand :: "string \<Rightarrow> string option \<Rightarrow> int \<Rightarrow> int \<Rightarrow> candidate" where
  "cand name previous n inode = \<lparr>ca_root = 0, ca_identity = (1, inode, 16877),
     ca_manifest = \<lparr>sm_session_id = name, sm_continuation_of = previous, sm_sequence = n\<rparr>, ca_payload = name\<rparr>"

definition sync_fails :: "string \<Rightarrow> removal" where
  "sync_fails name = Found (1, if name = first_id then 10 else 20, 16877) (Inr ()) (Inl OSError)"

lemma ids: "uuid_v7 first_id" "uuid_v7 second_id" "first_id \<noteq> second_id"
  by (simp_all add: first_id_def second_id_def uuid_v7_def uuid_classes_def is_hex_def is_digit_def is_variant_char_def
      eval_nat_numeral)

lemma two_scan: "scan_roots 0 two_roots [] =
    Inr [(first_id, cand first_id None 1 10), (second_id, cand second_id (Some first_id) 2 20)]"
  using ids by (simp add: two_roots_def scan_entry_def inspect_entry_def entry_of_def cand_def)

lemma two_deleted:
  "delete_recordings (\<lambda>s. s) two_roots [(first_id, first_id), (second_id, second_id)] sync_fails =
     Inr \<lparr>dr_deleted = [second_id], dr_failed = [first_id]\<rparr>"
  using ids
  by (simp add: delete_recordings_def preflight_def two_scan check_expected_def left_behind_def removal_order_def
      take_sequence_def cand_def sync_fails_def)

definition all_well :: "string \<Rightarrow> removal" where
  "all_well name = Found (1, if name = first_id then 10 else 20, 16877) (Inr ()) (Inr ())"

lemma both_deleted:
  "delete_recordings (\<lambda>s. s) two_roots [(first_id, first_id), (second_id, second_id)] all_well =
     Inr \<lparr>dr_deleted = [second_id, first_id], dr_failed = []\<rparr>"
  using ids
  by (simp add: delete_recordings_def preflight_def two_scan check_expected_def left_behind_def removal_order_def
      take_sequence_def cand_def all_well_def)

theorem no_orphaned_continuation_witness:
  "delete_recordings (\<lambda>s. s) two_roots [(first_id, first_id), (second_id, second_id)] all_well =
     Inr \<lparr>dr_deleted = [second_id, first_id], dr_failed = []\<rparr> \<and>
   sm_continuation_of (ca_manifest (cand second_id (Some first_id) 2 20)) = Some first_id \<and> second_id \<in> set [second_id, first_id]"
proof -
  have "continuations_count_up [(first_id, cand first_id None 1 10), (second_id, cand second_id (Some first_id) 2 20)]"
    using ids by (simp add: continuations_count_up_def cand_def)
  from no_orphaned_continuation [OF both_deleted two_scan this] show ?thesis using both_deleted by (simp add: cand_def)
qed

theorem deletion_accounts_for_the_request_witness:
  "mset ([second_id] @ [first_id]) = mset [first_id, second_id]"
  using deletion_accounts_for_the_request [OF two_deleted] ids by auto

end
