(* ===== verification/SessionRecorder.thy ===== *)
theory SessionRecorder
  imports SessionFormat ImuPipeline
begin

text \<open>
  \<open>recording/session.py\<close>: the recorder of one v0 session.  Producers submit frames and IMU observations
  into a bounded queue, the writer thread persists them one by one, and \<open>stop\<close> seals, validates and
  publishes the directory.  Submissions hold the state lock, so an execution is a sequence of
  submissions and writer steps; a submission that waits for room is one that happens after the writer steps
  it waited for.  The world is the record \<open>rec_env\<close>: how each low-level write went, the clocks, the JSON
  printer and parser, the digest, and whether each file-system call succeeded.  The metrics and payload
  leases do not influence what is recorded and are left out; human-readable messages are
  replaced by ASCII words or left empty.
\<close>

section \<open>Data\<close>

datatype lifecycle = NewRecorder | Recording | Stopping | SealedState | FailedState | InterruptedState

record frame_obs =
  fb_left :: string
  fb_right :: string
  fb_source :: int
  fb_host :: int
  fb_dropped_before :: int

datatype rec_event = FrameEvent frame_obs | ImuEvent imu_observation

record rec_config =
  cf_device_id :: string
  cf_software_version :: string
  cf_width :: int
  cf_height :: int
  cf_fps :: json
  cf_encoding :: string
  cf_tick_hz :: json
  cf_ranges :: json

text \<open>\<open>value <= 0\<close> on a number.\<close>

fun nonpositive :: "json \<Rightarrow> bool" where
  "nonpositive (JInt i) = (i \<le> 0)"
| "nonpositive (JFloat (Fin r)) = (r \<le> 0)"
| "nonpositive (JFloat NInf) = True"
| "nonpositive _ = False"

definition valid_config :: "rec_config \<Rightarrow> unit res" where
  "valid_config c =
     guardE (cf_device_id c = [] \<or> cf_software_version c = [] \<or> cf_width c \<le> 0 \<or> cf_height c \<le> 0 \<or>
             nonpositive (cf_fps c) \<or> cf_encoding c = []) ValueError
     (guardE (cf_tick_hz c \<noteq> JNull \<and> nonpositive (cf_tick_hz c)) ValueError (Inr ()))"

datatype write_outcome = Wrote | Short nat | Raised

record rec_env =
  ev_write :: "nat \<Rightarrow> write_outcome"
  ev_monotonic :: "nat \<Rightarrow> int"
  ev_line :: "jobject \<Rightarrow> string"
  ev_pretty :: "jobject \<Rightarrow> string"
  ev_loads :: "string \<Rightarrow> loaded"
  ev_instant :: "string \<Rightarrow> (bool \<times> int) option"
  ev_hash :: "string \<Rightarrow> string"

record recorder =
  rc_config :: rec_config
  rc_capacity :: nat
  rc_state :: lifecycle
  rc_session :: string
  rc_started :: string
  rc_queue :: "rec_event list"
  rc_error :: bool
  rc_files :: "(string \<times> string) list"
  rc_writes :: nat
  rc_frames :: int
  rc_imu :: int
  rc_diagnostics :: int
  rc_dropped_frames :: int
  rc_source_gaps :: int
  rc_rejected :: int
  rc_dropped_imu :: int
  rc_partial :: bool
  rc_state_file :: "string option"
  rc_manifest_file :: "string option"
  rc_published :: bool

definition recording_error :: "string \<Rightarrow> bool \<Rightarrow> pyexc" where
  "recording_error code retryable = AppError ''RecordingError'' code retryable"

definition new_recorder :: "rec_config \<Rightarrow> nat \<Rightarrow> bool \<Rightarrow> recorder res" where
  "new_recorder c capacity negative_timeout =
     guardE (capacity = 0 \<or> negative_timeout) ValueError
      (Inr \<lparr>rc_config = c, rc_capacity = capacity, rc_state = NewRecorder, rc_session = [], rc_started = [], rc_queue = [],
            rc_error = False, rc_files = [], rc_writes = 0, rc_frames = 0, rc_imu = 0, rc_diagnostics = 0,
            rc_dropped_frames = 0, rc_source_gaps = 0, rc_rejected = 0, rc_dropped_imu = 0,
            rc_partial = False, rc_state_file = None, rc_manifest_file = None, rc_published = False\<rparr>)"

section \<open>Writing\<close>

definition append_file :: "string \<Rightarrow> string \<Rightarrow> (string \<times> string) list \<Rightarrow> (string \<times> string) list" where
  "append_file role bytes files = AList.update role (the (map_of files role) @ bytes) files"

text \<open>\<open>_write\<close>: a short write leaves what it wrote.\<close>

definition write_role :: "rec_env \<Rightarrow> string \<Rightarrow> string \<Rightarrow> recorder \<Rightarrow> unit res \<times> recorder" where
  "write_role env role bytes r =
     (let r1 = r\<lparr>rc_writes := Suc (rc_writes r)\<rparr> in
      case ev_write env (rc_writes r) of
        Raised \<Rightarrow> (Inl OSError, r1)
      | Short n \<Rightarrow>
          if n = length bytes then (Inr (), r1\<lparr>rc_files := append_file role bytes (rc_files r)\<rparr>)
          else (Inl OSError, r1\<lparr>rc_files := append_file role (take n bytes) (rc_files r)\<rparr>)
      | Wrote \<Rightarrow> (Inr (), r1\<lparr>rc_files := append_file role bytes (rc_files r)\<rparr>))"

definition diagnostic_record :: "string \<Rightarrow> int \<Rightarrow> string \<Rightarrow> string \<Rightarrow> string \<Rightarrow> int \<Rightarrow> jobject" where
  "diagnostic_record sid ns severity code message count =
     [(''format'', JStr diagnostic_format), (''session_id'', JStr sid), (''monotonic_ns'', JInt ns),
      (''severity'', JStr severity), (''code'', JStr code), (''message'', JStr message), (''count'', JInt count)]"

definition write_diagnostic ::
  "rec_env \<Rightarrow> string \<Rightarrow> string \<Rightarrow> string \<Rightarrow> int \<Rightarrow> recorder \<Rightarrow> unit res \<times> recorder" where
  "write_diagnostic env severity code message count r =
     andS (write_role env ''diagnostics.events''
             (ev_line env (diagnostic_record (rc_session r) (ev_monotonic env (rc_writes r)) severity code message count)) r)
       (\<lambda>r. (Inr (), r\<lparr>rc_diagnostics := rc_diagnostics r + 1\<rparr>))"

definition frame_record :: "string \<Rightarrow> int \<Rightarrow> frame_obs \<Rightarrow> jobject" where
  "frame_record sid n f =
     [(''format'', JStr frame_format), (''session_id'', JStr sid), (''sequence'', JInt n),
      (''source_sequence'', JInt (fb_source f)), (''host_monotonic_ns'', JInt (fb_host f))]"

definition persist_frame :: "rec_env \<Rightarrow> frame_obs \<Rightarrow> recorder \<Rightarrow> unit res \<times> recorder" where
  "persist_frame env f r =
     tryS (encode_frame (fb_left f)) r (\<lambda>left.
     andS (write_role env ''video.left'' left r) (\<lambda>r.
     tryS (encode_frame (fb_right f)) r (\<lambda>right.
     andS (write_role env ''video.right'' right r) (\<lambda>r.
     andS (write_role env ''frames.timeline'' (ev_line env (frame_record (rc_session r) (rc_frames r) f)) r) (\<lambda>r.
       (Inr (), r\<lparr>rc_frames := rc_frames r + 1\<rparr>))))))"

fun persist_samples :: "rec_env \<Rightarrow> imu_sample list \<Rightarrow> recorder \<Rightarrow> unit res \<times> recorder" where
  "persist_samples env [] r = (Inr (), r)"
| "persist_samples env (s # ss) r =
     andS (write_role env ''imu.samples'' (ev_line env (as_record s (rc_session r))) r) (\<lambda>r.
       persist_samples env ss (r\<lparr>rc_imu := rc_imu r + 1\<rparr>))"

definition persist :: "rec_env \<Rightarrow> rec_event \<Rightarrow> recorder \<Rightarrow> unit res \<times> recorder" where
  "persist env e r =
     (case e of FrameEvent f \<Rightarrow> persist_frame env f r | ImuEvent obs \<Rightarrow> persist_samples env (io_samples obs) r)"

text \<open>One turn of \<open>_writer_loop\<close>: after an error the rest of the queue is thrown away.\<close>

definition writer_step :: "rec_env \<Rightarrow> recorder \<Rightarrow> recorder" where
  "writer_step env r =
     (case rc_queue r of
        [] \<Rightarrow> r
      | e # es \<Rightarrow>
         (let r1 = r\<lparr>rc_queue := es\<rparr> in
          if rc_error r then r1
          else (case persist env e r1 of (Inr _, r2) \<Rightarrow> r2 | (Inl x, r2) \<Rightarrow> r2\<lparr>rc_error := True\<rparr>)))"

section \<open>Submitting\<close>

definition unavailable :: "recorder \<Rightarrow> unit res" where
  "unavailable r =
     guardE (rc_state r \<noteq> Recording) (recording_error ''invalid_state'' False)
     (guardE (rc_error r) (recording_error ''write_failed'' False) (Inr ()))"

definition submit_frame :: "frame_obs \<Rightarrow> recorder \<Rightarrow> bool res \<times> recorder" where
  "submit_frame f r =
     tryS (unavailable r) r (\<lambda>_.
      (let r1 = r\<lparr>rc_dropped_frames := rc_dropped_frames r + fb_dropped_before f,
                  rc_source_gaps := rc_source_gaps r + fb_dropped_before f\<rparr> in
       if length (rc_queue r) < rc_capacity r then (Inr True, r1\<lparr>rc_queue := rc_queue r @ [FrameEvent f]\<rparr>)
       else (Inr False, r1\<lparr>rc_dropped_frames := rc_dropped_frames r1 + 1, rc_rejected := rc_rejected r + 1\<rparr>)))"

definition submit_imu :: "imu_observation \<Rightarrow> recorder \<Rightarrow> bool res \<times> recorder" where
  "submit_imu obs r =
     tryS (unavailable r) r (\<lambda>_.
      (let r1 = r\<lparr>rc_dropped_imu := rc_dropped_imu r + io_dropped obs\<rparr> in
       if length (rc_queue r) < rc_capacity r then (Inr True, r1\<lparr>rc_queue := rc_queue r @ [ImuEvent obs]\<rparr>)
       else (Inr False, r1\<lparr>rc_dropped_imu := rc_dropped_imu r1 + int (length (io_samples obs))\<rparr>)))"

section \<open>Starting\<close>

definition session_state :: "string \<Rightarrow> string \<Rightarrow> json \<Rightarrow> string \<Rightarrow> string \<Rightarrow> jobject" where
  "session_state sid state failure started updated =
     [(''format'', JStr state_format), (''session_id'', JStr sid), (''state'', JStr state),
      (''started_at'', JStr started), (''updated_at'', JStr updated), (''failure'', failure)]"

definition failure_object :: "string \<Rightarrow> string \<Rightarrow> json" where
  "failure_object code message = JObj [(''code'', JStr code), (''message'', JStr message)]"

text \<open>\<open>_mark_failed\<close>: \<open>updated\<close> is the time, \<open>written\<close> whether the atomic write of \<open>session.json\<close> succeeded;
  the message is cut to 1000 characters by the caller of the model.\<close>

definition mark_failed ::
  "rec_env \<Rightarrow> lifecycle \<Rightarrow> string \<Rightarrow> string \<Rightarrow> string \<Rightarrow> string \<Rightarrow> bool \<Rightarrow> recorder \<Rightarrow> recorder" where
  "mark_failed env state state_name code message updated written r =
     (let r1 = r\<lparr>rc_state := state\<rparr> in
      if \<not> rc_partial r \<or> \<not> written then r1
      else r1\<lparr>rc_state_file := Some (ev_pretty env (session_state (rc_session r) state_name (failure_object code message) (rc_started r) updated))\<rparr>)"

definition open_files :: "(string \<times> string) list" where
  "open_files = [(''video.left'', []), (''video.right'', []), (''frames.timeline'', []), (''imu.samples'', []), (''diagnostics.events'', [])]"

text \<open>How far the creation of the directories, of \<open>session.json\<close> and of the five files got.\<close>

datatype creation = NothingMade | DirectoryMade | StateMade | AllMade

definition start_body :: "rec_env \<Rightarrow> creation \<Rightarrow> string \<Rightarrow> recorder \<Rightarrow> unit res \<times> recorder" where
  "start_body env created updated r =
     (let r1 = r\<lparr>rc_partial := created \<noteq> NothingMade\<rparr>;
          r2 = r1\<lparr>rc_state_file := Some (ev_pretty env (session_state (rc_session r) ''recording'' JNull (rc_started r) updated))\<rparr> in
      case created of
        NothingMade \<Rightarrow> (Inl OSError, r1)
      | DirectoryMade \<Rightarrow> (Inl OSError, r1)
      | StateMade \<Rightarrow> (Inl OSError, r2)
      | AllMade \<Rightarrow>
        andS (write_role env ''video.left'' magic (r2\<lparr>rc_files := open_files\<rparr>)) (\<lambda>r.
        andS (write_role env ''video.right'' magic r) (\<lambda>r.
        write_diagnostic env ''info'' ''recording_started'' ''started'' 1 r)))"

text \<open>\<open>is_dir\<close>: the root is a directory; \<open>exists\<close>: the session's directory already exists; \<open>now\<close>
  and \<open>updated\<close> are the two clock readings, \<open>marked\<close> whether a failure could be written to \<open>session.json\<close>.\<close>

definition start ::
  "rec_env \<Rightarrow> bool \<Rightarrow> string \<Rightarrow> bool \<Rightarrow> string \<Rightarrow> string \<Rightarrow> creation \<Rightarrow> bool \<Rightarrow> recorder \<Rightarrow> unit res \<times> recorder" where
  "start env is_dir selected exists now updated created marked r =
     (if rc_state r \<noteq> NewRecorder then (Inl (recording_error ''invalid_state'' False), r)
      else if \<not> is_dir then (Inl (recording_error ''storage_unavailable'' False), r)
      else if \<not> uuid_shape selected then (Inl (recording_error ''invalid_session_id'' False), r)
      else
       (let r1 = r\<lparr>rc_session := selected\<rparr> in
        if exists then (Inl (recording_error ''session_exists'' False), r1)
        else
         (case start_body env created updated (r1\<lparr>rc_started := now\<rparr>) of
            (Inr _, r2) \<Rightarrow> (Inr (), r2\<lparr>rc_state := Recording\<rparr>)
          | (Inl e, r2) \<Rightarrow>
              (Inl (recording_error ''start_failed'' False),
               mark_failed env FailedState ''failed'' ''start_failed'' [] updated marked r2))))"

section \<open>Sealing\<close>

definition artifact_of :: "rec_env \<Rightarrow> string \<Rightarrow> string \<Rightarrow> string \<Rightarrow> string \<Rightarrow> int \<Rightarrow> json" where
  "artifact_of env role path media bytes records =
     JObj [(''role'', JStr role), (''path'', JStr path), (''media_type'', JStr media), (''bytes'', JInt (int (length bytes))),
       (''sha256'', JStr (ev_hash env bytes)), (''records'', JInt records)]"

definition rc_bytes :: "recorder \<Rightarrow> string \<Rightarrow> string" where
  "rc_bytes r role = the (map_of (rc_files r) role)"

definition artifacts_of :: "rec_env \<Rightarrow> recorder \<Rightarrow> json list" where
  "artifacts_of env r =
     [artifact_of env ''session.metadata'' ''session.json'' ''application/json'' (the (rc_state_file r)) 1,
      artifact_of env ''video.left'' ''video/left.bin'' ''application/vnd.ylx.frame-stream'' (rc_bytes r ''video.left'') (rc_frames r),
      artifact_of env ''video.right'' ''video/right.bin'' ''application/vnd.ylx.frame-stream'' (rc_bytes r ''video.right'') (rc_frames r),
      artifact_of env ''frames.timeline'' ''frames.ndjson'' ''application/x-ndjson'' (rc_bytes r ''frames.timeline'') (rc_frames r),
      artifact_of env ''imu.samples'' ''imu.ndjson'' ''application/x-ndjson'' (rc_bytes r ''imu.samples'') (rc_imu r),
      artifact_of env ''diagnostics.events'' ''diagnostics.ndjson'' ''application/x-ndjson'' (rc_bytes r ''diagnostics.events'')
        (rc_diagnostics r)]"

definition manifest_of :: "rec_env \<Rightarrow> recorder \<Rightarrow> string \<Rightarrow> jobject" where
  "manifest_of env r ended =
     [(''format'', JStr session_format), (''state'', JStr ''sealed''), (''session_id'', JStr (rc_session r)),
      (''time'', JObj [(''started_at'', JStr (rc_started r)), (''ended_at'', JStr ended)]),
      (''device'', JObj [(''id'', JStr (cf_device_id (rc_config r))), (''software_version'', JStr (cf_software_version (rc_config r)))]),
      (''capture'', JObj
        [(''video'', JObj [(''width'', JInt (cf_width (rc_config r))), (''height'', JInt (cf_height (rc_config r))),
            (''fps'', cf_fps (rc_config r)), (''encoding'', JStr (cf_encoding (rc_config r))),
            (''coordinate_frame'', JStr ''opencv_optical'')]),
         (''imu'', JObj [(''coordinate_frame'', JStr ''opencv_optical''), (''device_tick_hz'', cf_tick_hz (rc_config r)),
            (''ranges'', cf_ranges (rc_config r))]),
         (''clock'', JObj [(''domain'', JStr ''host_monotonic''), (''unit'', JStr ''nanosecond'')])]),
      (''counts'', JObj [(''frames'', JInt (rc_frames r)), (''imu_samples'', JInt (rc_imu r)),
         (''diagnostics'', JInt (rc_diagnostics r)), (''dropped_frames'', JInt (rc_dropped_frames r)),
         (''dropped_imu_samples'', JInt (rc_dropped_imu r))]),
      (''artifacts'', JList (artifacts_of env r))]"

definition regular :: "string \<Rightarrow> session_file" where
  "regular bytes = \<lparr>file_bytes = bytes, file_plain = True, file_readable = True, file_lookup = Resolved\<rparr>"

definition directory_of :: "string \<Rightarrow> recorder \<Rightarrow> session_root" where
  "directory_of ext r = \<lparr>root_name = rc_session r @ ext, root_files =
     (case rc_manifest_file r of None \<Rightarrow> [] | Some m \<Rightarrow> [(''manifest.json'', regular m)]) @
     (case rc_state_file r of None \<Rightarrow> [] | Some m \<Rightarrow> [(''session.json'', regular m)]) @
     map (\<lambda>(role, path). (path, regular (rc_bytes r role))) (tl role_paths)\<rparr>"

text \<open>How far publishing got: the rename did not happen, it happened but the parent directory could not be
  synchronised, or both succeeded.\<close>

datatype publication = NotRenamed | RenamedOnly | Renamed

text \<open>What \<open>stop\<close> depends on besides the state: how many queued events the writer handles before the 10 s
  join gives up, whether each file operation succeeds, the time, and the caller's hook.\<close>

record stop_env =
  sp_handled :: nat
  sp_synced :: bool
  sp_ended :: string
  sp_state_written :: bool
  sp_manifest_written :: bool
  sp_hook :: "unit res"
  sp_publication :: publication
  sp_unlinked :: bool
  sp_mark_written :: bool

definition drain :: "rec_env \<Rightarrow> nat \<Rightarrow> recorder \<Rightarrow> recorder" where
  "drain env n r =
     (let r1 = (writer_step env ^^ min n (length (rc_queue r))) r in
      if rc_queue r1 \<noteq> [] then r1\<lparr>rc_error := True\<rparr> else r1)"

definition report_loss :: "rec_env \<Rightarrow> int \<Rightarrow> string \<Rightarrow> recorder \<Rightarrow> unit res \<times> recorder" where
  "report_loss env n code r = (if n = 0 then (Inr (), r) else write_diagnostic env ''warning'' code ''loss'' n r)"

definition loss_diagnostics :: "rec_env \<Rightarrow> recorder \<Rightarrow> unit res \<times> recorder" where
  "loss_diagnostics env r =
     andS (report_loss env (rc_dropped_frames r) ''frame_dropped'' r) (\<lambda>r.
     andS (report_loss env (rc_source_gaps r) ''source_frame_gap'' r) (\<lambda>r.
     andS (report_loss env (rc_rejected r) ''frame_queue_rejected'' r) (\<lambda>r.
     andS (report_loss env (rc_dropped_imu r) ''imu_dropped'' r) (\<lambda>r.
     write_diagnostic env ''info'' ''recording_complete'' ''complete'' 1 r))))"

definition state_sealed :: "rec_env \<Rightarrow> stop_env \<Rightarrow> recorder \<Rightarrow> recorder" where
  "state_sealed env se r =
     r\<lparr>rc_state_file := Some (ev_pretty env (session_state (rc_session r) ''sealed'' JNull (rc_started r) (sp_ended se)))\<rparr>"

definition manifest_written :: "rec_env \<Rightarrow> stop_env \<Rightarrow> recorder \<Rightarrow> recorder" where
  "manifest_written env se r = r\<lparr>rc_manifest_file := Some (ev_pretty env (manifest_of env r (sp_ended se)))\<rparr>"

definition seal :: "rec_env \<Rightarrow> stop_env \<Rightarrow> recorder \<Rightarrow> unit res \<times> recorder" where
  "seal env se r =
     andS (loss_diagnostics env r) (\<lambda>r.
      if \<not> sp_synced se then (Inl OSError, r)
      else if \<not> sp_state_written se then (Inl OSError, r)
      else if \<not> sp_manifest_written se then (Inl OSError, state_sealed env se r)
      else
       (let sealed = manifest_written env se (state_sealed env se r) in
        tryS (validate_session (ev_loads env) (ev_instant env) (ev_hash env) (directory_of ''.partial'' sealed) True) sealed
          (\<lambda>_. (Inr (), sealed))))"

text \<open>The manifest is removed and \<open>session.json\<close> says what happened; a failing removal is ignored.\<close>

definition withdraw :: "rec_env \<Rightarrow> stop_env \<Rightarrow> lifecycle \<Rightarrow> string \<Rightarrow> string \<Rightarrow> recorder \<Rightarrow> recorder" where
  "withdraw env se state name code r =
     mark_failed env state name code [] (sp_ended se) (sp_mark_written se)
       (if sp_unlinked se then r\<lparr>rc_manifest_file := None\<rparr> else r)"

definition hook_code :: "pyexc \<Rightarrow> string" where
  "hook_code e = (case e of AppError cls code retry \<Rightarrow> code | _ \<Rightarrow> ''pre_publish_failed'')"

definition publish_session :: "rec_env \<Rightarrow> stop_env \<Rightarrow> recorder \<Rightarrow> unit res \<times> recorder" where
  "publish_session env se r =
     (case sp_publication se of
        NotRenamed \<Rightarrow> (Inl (recording_error ''seal_failed'' False), withdraw env se FailedState ''failed'' ''seal_failed'' r)
      | RenamedOnly \<Rightarrow> (Inl (recording_error ''seal_failed'' False),
          r\<lparr>rc_state := FailedState, rc_partial := False, rc_published := True\<rparr>)
      | Renamed \<Rightarrow> (Inr (), r\<lparr>rc_state := SealedState, rc_partial := False, rc_published := True\<rparr>))"

definition stop :: "rec_env \<Rightarrow> stop_env \<Rightarrow> recorder \<Rightarrow> unit res \<times> recorder" where
  "stop env se r =
     (if rc_state r = SealedState then (Inr (), r)
      else if rc_state r \<noteq> Recording then (Inl (recording_error ''invalid_state'' False), r)
      else
       (let r1 = drain env (sp_handled se) (r\<lparr>rc_state := Stopping\<rparr>) in
        if rc_error r1 then
          (Inl (recording_error ''write_failed'' False),
           mark_failed env FailedState ''failed'' ''write_failed'' [] (sp_ended se) (sp_mark_written se) r1)
        else
         (case seal env se r1 of
            (Inl e, r2) \<Rightarrow>
              (Inl (recording_error ''seal_failed'' False), withdraw env se FailedState ''failed'' ''seal_failed'' r2)
          | (Inr _, r2) \<Rightarrow>
             (case sp_hook se of
                Inl e \<Rightarrow> (Inl e, withdraw env se InterruptedState ''interrupted'' (hook_code e) r2)
              | Inr _ \<Rightarrow> publish_session env se r2))))"

definition abort :: "rec_env \<Rightarrow> stop_env \<Rightarrow> string \<Rightarrow> string \<Rightarrow> recorder \<Rightarrow> unit res \<times> recorder" where
  "abort env se code message r =
     (if rc_state r = SealedState \<or> rc_state r = FailedState then (Inr (), r)
      else if rc_state r \<noteq> Recording \<and> rc_state r \<noteq> Stopping then (Inl (recording_error ''invalid_state'' False), r)
      else
       (let r1 = drain env (sp_handled se) (r\<lparr>rc_state := Stopping\<rparr>);
            r2 = (if rc_files r1 = [] then r1 else snd (write_diagnostic env ''error'' code message 1 r1)) in
        (Inr (), mark_failed env InterruptedState ''interrupted'' code message (sp_ended se) (sp_mark_written se) r2)))"

end
