(* ===== verification/RecorderProps.thy ===== *)
theory RecorderProps
  imports SessionRecorder SessionProps
begin

text \<open>
  The recorder of a session: an execution up to \<open>stop\<close> as a history of submissions interleaved with writer
  steps, the contents of the files as a function of what was accepted, and what sealing, failing and
  aborting leave behind.
\<close>

section \<open>Executions\<close>

text \<open>The history lists every submission with whether it was accepted.\<close>

type_synonym history = "(rec_event \<times> bool) list"

inductive recording :: "rec_env \<Rightarrow> recorder \<Rightarrow> history \<Rightarrow> bool" for env where
  started: "new_recorder c capacity neg = Inr r0 \<Longrightarrow> start env is_dir sid exists now updated created marked r0 = (Inr (), r) \<Longrightarrow>
     recording env r []"
| frame: "recording env r h \<Longrightarrow> submit_frame f r = (Inr ok, r') \<Longrightarrow> recording env r' (h @ [(FrameEvent f, ok)])"
| imu: "recording env r h \<Longrightarrow> submit_imu obs r = (Inr ok, r') \<Longrightarrow> recording env r' (h @ [(ImuEvent obs, ok)])"
| writer: "recording env r h \<Longrightarrow> recording env (writer_step env r) h"

inductive_cases submit_cases: "recording env r (h @ [x])"

definition accepted :: "history \<Rightarrow> rec_event list" where
  "accepted h = map fst (filter snd h)"

fun frames_in :: "rec_event list \<Rightarrow> frame_obs list" where
  "frames_in [] = []"
| "frames_in (FrameEvent f # es) = f # frames_in es"
| "frames_in (ImuEvent obs # es) = frames_in es"

fun samples_in :: "rec_event list \<Rightarrow> imu_sample list" where
  "samples_in [] = []"
| "samples_in (FrameEvent f # es) = samples_in es"
| "samples_in (ImuEvent obs # es) = io_samples obs @ samples_in es"

lemma frames_in_append [simp]: "frames_in (xs @ ys) = frames_in xs @ frames_in ys"
  by (induction xs rule: frames_in.induct) auto

lemma samples_in_append [simp]: "samples_in (xs @ ys) = samples_in xs @ samples_in ys"
  by (induction xs rule: samples_in.induct) auto

text \<open>What the five files hold when the events \<open>es\<close> are written.\<close>

definition frame_lines :: "rec_env \<Rightarrow> string \<Rightarrow> frame_obs list \<Rightarrow> string" where
  "frame_lines env sid fs = concat (map (\<lambda>(n, f). ev_line env (frame_record sid (int n) f)) (enumerate 0 fs))"

definition sample_lines :: "rec_env \<Rightarrow> string \<Rightarrow> imu_sample list \<Rightarrow> string" where
  "sample_lines env sid ss = concat (map (\<lambda>s. ev_line env (as_record s sid)) ss)"

definition media_ok :: "rec_env \<Rightarrow> rec_event list \<Rightarrow> recorder \<Rightarrow> bool" where
  "media_ok env es r \<longleftrightarrow>
     map_of (rc_files r) ''video.left'' = Some (magic @ framed (map fb_left (frames_in es))) \<and>
     map_of (rc_files r) ''video.right'' = Some (magic @ framed (map fb_right (frames_in es))) \<and>
     map_of (rc_files r) ''frames.timeline'' = Some (frame_lines env (rc_session r) (frames_in es)) \<and>
     map_of (rc_files r) ''imu.samples'' = Some (sample_lines env (rc_session r) (samples_in es)) \<and>
     rc_frames r = int (length (frames_in es)) \<and> rc_imu r = int (length (samples_in es))"

lemma frame_lines_snoc: "frame_lines env sid (fs @ [f]) = frame_lines env sid fs @ ev_line env (frame_record sid (int (length fs)) f)"
  by (simp add: frame_lines_def enumerate_append_eq)

lemma sample_lines_append: "sample_lines env sid (ss @ ts) = sample_lines env sid ss @ sample_lines env sid ts"
  by (simp add: sample_lines_def)

section \<open>Writing\<close>

lemma write_role_Inr:
  "write_role env role bytes r = (Inr (), r') \<Longrightarrow>
     r' = r\<lparr>rc_writes := Suc (rc_writes r), rc_files := append_file role bytes (rc_files r)\<rparr>"
  by (auto simp: write_role_def Let_def split: write_outcome.splits if_splits)

lemma map_of_append_file [simp]:
  "map_of (append_file role bytes fs) = (map_of fs)(role \<mapsto> the (map_of fs role) @ bytes)"
  by (simp add: append_file_def)

text \<open>Fields an event does not touch.\<close>

definition same_frame :: "recorder \<Rightarrow> recorder \<Rightarrow> bool" where
  "same_frame r s \<longleftrightarrow> rc_config s = rc_config r \<and> rc_capacity s = rc_capacity r \<and> rc_state s = rc_state r \<and>
     rc_session s = rc_session r \<and> rc_started s = rc_started r \<and> rc_queue s = rc_queue r \<and> rc_error s = rc_error r \<and>
     rc_dropped_frames s = rc_dropped_frames r \<and> rc_source_gaps s = rc_source_gaps r \<and> rc_rejected s = rc_rejected r \<and>
     rc_dropped_imu s = rc_dropped_imu r \<and> rc_partial s = rc_partial r \<and> rc_state_file s = rc_state_file r \<and>
     rc_manifest_file s = rc_manifest_file r \<and> rc_published s = rc_published r"

lemma same_frame_refl [simp]: "same_frame r r"
  by (simp add: same_frame_def)

lemma same_frame_trans: "same_frame a b \<Longrightarrow> same_frame b c \<Longrightarrow> same_frame a c"
  by (simp add: same_frame_def)

lemma write_role_same: "same_frame r (snd (write_role env role bytes r))"
  by (auto simp: write_role_def Let_def same_frame_def split: write_outcome.splits)

lemma andS_same: "same_frame r (snd m) \<Longrightarrow> (\<And>s. same_frame r s \<Longrightarrow> same_frame r (snd (f s))) \<Longrightarrow> same_frame r (snd (andS m f))"
  by (auto simp: andS_def split: sum.splits prod.splits)

lemma write_same: "same_frame r s \<Longrightarrow> same_frame r (snd (write_role env role bytes s))"
  by (rule same_frame_trans [OF _ write_role_same])

lemma tryS_same: "same_frame r s \<Longrightarrow> (\<And>x. same_frame r (snd (f x))) \<Longrightarrow> same_frame r (snd (tryS m s f))"
  by (cases m) auto

lemma same_frame_counters [simp]:
  "same_frame r (s\<lparr>rc_frames := k\<rparr>) = same_frame r s" "same_frame r (s\<lparr>rc_imu := k\<rparr>) = same_frame r s"
  "same_frame r (s\<lparr>rc_diagnostics := k\<rparr>) = same_frame r s"
  by (simp_all add: same_frame_def)

lemma write_diagnostic_same: "same_frame r s \<Longrightarrow> same_frame r (snd (write_diagnostic env sev code msg n s))"
  unfolding write_diagnostic_def by (rule andS_same, erule write_same) simp

lemma persist_samples_same: "same_frame r s \<Longrightarrow> same_frame r (snd (persist_samples env ss s))"
proof (induction ss arbitrary: s)
  case (Cons x ss)
  show ?case unfolding persist_samples.simps by (rule andS_same, rule write_same, rule Cons.prems, rule Cons.IH) simp
qed simp

lemma persist_frame_same: "same_frame r (snd (persist_frame env f r))"
  unfolding persist_frame_def
  by (rule tryS_same, simp, rule andS_same, rule write_same, simp, rule tryS_same, assumption, rule andS_same, erule write_same,
      rule andS_same, erule write_same, simp)

lemma persist_same: "same_frame r (snd (persist env e r))"
  by (cases e) (simp_all add: persist_def persist_frame_same persist_samples_same)

lemma persist_frame_media:
  assumes "media_ok env es r" and "persist_frame env f r = (Inr (), r')"
  shows "media_ok env (es @ [FrameEvent f]) r'"
proof -
  have files: "rc_files r' = append_file ''frames.timeline'' (ev_line env (frame_record (rc_session r) (rc_frames r) f))
      (append_file ''video.right'' (framed [fb_right f]) (append_file ''video.left'' (framed [fb_left f]) (rc_files r)))"
    and n: "rc_frames r' = rc_frames r + 1" "rc_imu r' = rc_imu r" "rc_session r' = rc_session r"
    using assms(2)
    by (auto simp: persist_frame_def tryS_Inr andS_Inr encode_frame_Inr dest!: write_role_Inr simp del: framed_simps)
  have fr: "framed (xs @ [x]) = framed xs @ framed [x]" for xs x by (simp add: framed_def)
  show ?thesis
    using assms(1) n by (simp add: media_ok_def files fr frame_lines_snoc del: framed_simps)
qed

lemma media_ok_cong: "frames_in es = frames_in es' \<Longrightarrow> samples_in es = samples_in es' \<Longrightarrow> media_ok env es r \<longleftrightarrow> media_ok env es' r"
  by (simp add: media_ok_def)

definition single :: "imu_sample \<Rightarrow> rec_event" where
  "single s = ImuEvent \<lparr>io_samples = [s], io_dropped = 0\<rparr>"

lemma singles: "frames_in (map single ss) = []" "samples_in (map single ss) = ss"
  by (induction ss) (simp_all add: single_def)

lemma persist_samples_media:
  "media_ok env es r \<Longrightarrow> persist_samples env ss r = (Inr (), r') \<Longrightarrow> media_ok env (es @ map single ss) r'"
proof (induction ss arbitrary: es r)
  case (Cons s ss)
  let ?r1 = "r\<lparr>rc_writes := Suc (rc_writes r),
    rc_files := append_file ''imu.samples'' (ev_line env (as_record s (rc_session r))) (rc_files r), rc_imu := rc_imu r + 1\<rparr>"
  have p: "persist_samples env ss ?r1 = (Inr (), r')"
    using Cons.prems(2) by (auto simp: andS_Inr dest!: write_role_Inr)
  have "media_ok env (es @ [single s]) ?r1"
    using Cons.prems(1) by (simp add: media_ok_def single_def sample_lines_append) (simp add: sample_lines_def)
  from Cons.IH [OF this p] show ?case by simp
qed simp

lemma persist_media:
  assumes "media_ok env es r" and "persist env e r = (Inr (), r')"
  shows "media_ok env (es @ [e]) r'"
proof (cases e)
  case (FrameEvent f)
  then show ?thesis using persist_frame_media assms by (simp add: persist_def)
next
  case (ImuEvent obs)
  then have "media_ok env (es @ map single (io_samples obs)) r'"
    using persist_samples_media assms by (simp add: persist_def)
  then show ?thesis by (subst media_ok_cong) (auto simp: ImuEvent singles)
qed

section \<open>The invariant of a recording\<close>

definition gaps :: "history \<Rightarrow> int" where
  "gaps h = sum_list (map (\<lambda>(e, ok). case e of FrameEvent f \<Rightarrow> fb_dropped_before f | ImuEvent obs \<Rightarrow> 0) h)"

definition rejected :: "history \<Rightarrow> int" where
  "rejected h = sum_list (map (\<lambda>(e, ok). case e of FrameEvent f \<Rightarrow> (if ok then 0 else 1) | ImuEvent obs \<Rightarrow> 0) h)"

definition lost_samples :: "history \<Rightarrow> int" where
  "lost_samples h = sum_list (map (\<lambda>(e, ok). case e of FrameEvent f \<Rightarrow> 0
     | ImuEvent obs \<Rightarrow> io_dropped obs + (if ok then 0 else int (length (io_samples obs)))) h)"

definition losses_ok :: "recorder \<Rightarrow> history \<Rightarrow> bool" where
  "losses_ok r h \<longleftrightarrow> rc_source_gaps r = gaps h \<and> rc_rejected r = rejected h \<and>
     rc_dropped_frames r = gaps h + rejected h \<and> rc_dropped_imu r = lost_samples h"

definition media_inv :: "rec_env \<Rightarrow> recorder \<Rightarrow> rec_event list \<Rightarrow> bool" where
  "media_inv env r acc \<longleftrightarrow> (\<not> rc_error r \<longrightarrow> (\<exists>es. acc = es @ rc_queue r \<and> media_ok env es r))"

lemma losses_snoc:
  "gaps (h @ [(FrameEvent f, ok)]) = gaps h + fb_dropped_before f" "gaps (h @ [(ImuEvent obs, ok)]) = gaps h"
  "rejected (h @ [(FrameEvent f, ok)]) = rejected h + (if ok then 0 else 1)" "rejected (h @ [(ImuEvent obs, ok)]) = rejected h"
  "lost_samples (h @ [(FrameEvent f, ok)]) = lost_samples h"
  "lost_samples (h @ [(ImuEvent obs, ok)]) = lost_samples h + io_dropped obs + (if ok then 0 else int (length (io_samples obs)))"
  "accepted (h @ [(e, ok)]) = accepted h @ (if ok then [e] else [])"
  by (simp_all add: gaps_def rejected_def lost_samples_def accepted_def)

lemma writer_step_media: "media_inv env r acc \<Longrightarrow> media_inv env (writer_step env r) acc"
proof (cases "rc_queue r")
  case (Cons e es)
  assume inv: "media_inv env r acc"
  obtain x s where p: "persist env e (r\<lparr>rc_queue := es\<rparr>) = (x, s)" by fastforce
  have same: "same_frame (r\<lparr>rc_queue := es\<rparr>) s" using persist_same [of "r\<lparr>rc_queue := es\<rparr>" env e] p by simp
  show ?thesis
  proof (cases "rc_error r \<or> (\<exists>y. x = Inl y)")
    case True
    then show ?thesis using p same by (auto simp: writer_step_def Cons media_inv_def Let_def same_frame_def)
  next
    case False
    then have x: "x = Inr ()" by (cases x) auto
    obtain ws where ws: "acc = ws @ e # es" "media_ok env ws r" using inv False Cons by (auto simp: media_inv_def)
    have "media_ok env ws (r\<lparr>rc_queue := es\<rparr>)" using ws(2) by (simp add: media_ok_def)
    from persist_media [OF this p [unfolded x]] have "media_ok env (ws @ [e]) s" .
    then show ?thesis using False p x same ws(1) by (auto simp: writer_step_def Cons media_inv_def Let_def same_frame_def)
  qed
qed (simp add: writer_step_def)

lemma writer_step_same: "\<exists>es err. same_frame (r\<lparr>rc_queue := es, rc_error := err\<rparr>) (writer_step env r)"
proof (cases "rc_queue r")
  case Nil
  then show ?thesis by (intro exI [of _ "[]"] exI [of _ "rc_error r"]) (simp add: writer_step_def same_frame_def)
next
  case (Cons e es)
  obtain x s where p: "persist env e (r\<lparr>rc_queue := es\<rparr>) = (x, s)" by fastforce
  have "same_frame (r\<lparr>rc_queue := es\<rparr>) s" using persist_same [of "r\<lparr>rc_queue := es\<rparr>" env e] p by simp
  then show ?thesis
    by (intro exI [of _ es] exI [of _ "rc_error (writer_step env r)"])
       (auto simp: writer_step_def Cons Let_def p same_frame_def split: sum.split)
qed

lemma submit_frame_Inr:
  "submit_frame f r = (Inr ok, r') \<longleftrightarrow> rc_state r = Recording \<and> \<not> rc_error r \<and> ok = (length (rc_queue r) < rc_capacity r) \<and>
     r' = (if ok then r\<lparr>rc_dropped_frames := rc_dropped_frames r + fb_dropped_before f,
              rc_source_gaps := rc_source_gaps r + fb_dropped_before f, rc_queue := rc_queue r @ [FrameEvent f]\<rparr>
           else r\<lparr>rc_dropped_frames := rc_dropped_frames r + fb_dropped_before f + 1,
              rc_source_gaps := rc_source_gaps r + fb_dropped_before f, rc_rejected := rc_rejected r + 1\<rparr>)"
  by (auto simp: submit_frame_def unavailable_def tryS_Inr Let_def)

lemma submit_imu_Inr:
  "submit_imu obs r = (Inr ok, r') \<longleftrightarrow> rc_state r = Recording \<and> \<not> rc_error r \<and> ok = (length (rc_queue r) < rc_capacity r) \<and>
     r' = (if ok then r\<lparr>rc_dropped_imu := rc_dropped_imu r + io_dropped obs, rc_queue := rc_queue r @ [ImuEvent obs]\<rparr>
           else r\<lparr>rc_dropped_imu := rc_dropped_imu r + io_dropped obs + int (length (io_samples obs))\<rparr>)"
  by (auto simp: submit_imu_def unavailable_def tryS_Inr Let_def)

definition recording_inv :: "rec_env \<Rightarrow> recorder \<Rightarrow> history \<Rightarrow> bool" where
  "recording_inv env r h \<longleftrightarrow> rc_state r = Recording \<and> losses_ok r h \<and> media_inv env r (accepted h) \<and>
     length (rc_queue r) \<le> rc_capacity r \<and> rc_manifest_file r = None \<and> \<not> rc_published r"

lemma media_ok_frame: "same_frame r s \<Longrightarrow> rc_files s = rc_files r \<Longrightarrow> rc_frames s = rc_frames r \<Longrightarrow> rc_imu s = rc_imu r \<Longrightarrow>
    media_ok env es s \<longleftrightarrow> media_ok env es r"
  by (simp add: media_ok_def same_frame_def)

lemma start_body_Inr:
  assumes "start_body env created updated r = (Inr (), r')"
  shows "\<exists>line state n. r' = r\<lparr>rc_partial := True, rc_state_file := Some state, rc_writes := n, rc_diagnostics := rc_diagnostics r + 1,
     rc_files := append_file ''diagnostics.events'' line (append_file ''video.right'' magic (append_file ''video.left'' magic open_files))\<rparr>"
proof -
  have c: "created = AllMade" using assms by (cases created) (auto simp: start_body_def Let_def)
  define r2 where "r2 = r\<lparr>rc_partial := True,
    rc_state_file := Some (ev_pretty env (session_state (rc_session r) ''recording'' JNull (rc_started r) updated)), rc_files := open_files\<rparr>"
  obtain r3 r4 where w: "write_role env ''video.left'' magic r2 = (Inr (), r3)" "write_role env ''video.right'' magic r3 = (Inr (), r4)"
    "write_diagnostic env ''info'' ''recording_started'' ''started'' 1 r4 = (Inr (), r')"
    using assms by (auto simp: start_body_def Let_def c andS_Inr r2_def)
  obtain line r5 where d: "write_role env ''diagnostics.events'' line r4 = (Inr (), r5)" "r' = r5\<lparr>rc_diagnostics := rc_diagnostics r5 + 1\<rparr>"
    using w(3) by (auto simp: write_diagnostic_def andS_Inr)
  show ?thesis
    unfolding d(2) write_role_Inr [OF d(1)] write_role_Inr [OF w(2)] write_role_Inr [OF w(1)] r2_def
    by (intro exI [of _ line]
          exI [of _ "ev_pretty env (session_state (rc_session r) ''recording'' JNull (rc_started r) updated)"]
          exI [of _ "Suc (Suc (Suc (rc_writes r)))"]) simp
qed

lemma started_inv:
  assumes "new_recorder c capacity neg = Inr r0" "start env is_dir sid exists now updated created marked r0 = (Inr (), r)"
  shows "recording_inv env r []"
proof -
  obtain r2 where b: "start_body env created updated (r0\<lparr>rc_session := sid, rc_started := now\<rparr>) = (Inr (), r2)"
    "r = r2\<lparr>rc_state := Recording\<rparr>"
    using assms(2) by (auto simp: start_def Let_def split: if_splits sum.splits prod.splits)
  from start_body_Inr [OF b(1)] obtain line state n where r2: "r2 = r0\<lparr>rc_session := sid, rc_started := now, rc_partial := True,
     rc_state_file := Some state, rc_writes := n, rc_diagnostics := rc_diagnostics r0 + 1,
     rc_files := append_file ''diagnostics.events'' line (append_file ''video.right'' magic (append_file ''video.left'' magic open_files))\<rparr>"
    by auto
  have r0: "rc_queue r0 = []" "rc_frames r0 = 0" "rc_imu r0 = 0" "rc_dropped_frames r0 = 0" "rc_source_gaps r0 = 0" "rc_rejected r0 = 0"
    "rc_dropped_imu r0 = 0" "rc_manifest_file r0 = None" "\<not> rc_published r0"
    using assms(1) by (auto simp: new_recorder_def)
  have media: "media_ok env [] r" unfolding b(2) r2 media_ok_def
    by (simp add: r0 open_files_def frame_lines_def sample_lines_def)
  show ?thesis
    using r0 media by (auto simp: recording_inv_def losses_ok_def media_inv_def accepted_def gaps_def rejected_def lost_samples_def b(2) r2)
qed

lemma writer_inv: "recording_inv env r h \<Longrightarrow> recording_inv env (writer_step env r) h"
proof -
  assume inv: "recording_inv env r h"
  obtain es err where s: "same_frame (r\<lparr>rc_queue := es, rc_error := err\<rparr>) (writer_step env r)" using writer_step_same by blast
  have q: "rc_queue (writer_step env r) = es" using s by (simp add: same_frame_def)
  have "length (rc_queue (writer_step env r)) \<le> length (rc_queue r)"
  proof (cases "rc_queue r")
    case (Cons e es')
    obtain x s where p: "persist env e (r\<lparr>rc_queue := es'\<rparr>) = (x, s)" by fastforce
    have "same_frame (r\<lparr>rc_queue := es'\<rparr>) s" using persist_same [of "r\<lparr>rc_queue := es'\<rparr>" env e] p by simp
    then show ?thesis by (auto simp: writer_step_def Cons Let_def p same_frame_def split: sum.split)
  qed (simp add: writer_step_def)
  then show ?thesis
    using inv s q writer_step_media [of env r "accepted h"] by (simp add: recording_inv_def losses_ok_def same_frame_def)
qed

lemma recording_invariant: "recording env r h \<Longrightarrow> recording_inv env r h"
proof (induction rule: recording.induct)
  case (started c capacity neg r0 is_dir sid exists now updated created marked r)
  then show ?case by (rule started_inv)
next
  case (frame r h f ok r')
  then show ?case
    by (auto simp: submit_frame_Inr recording_inv_def losses_ok_def losses_snoc media_inv_def media_ok_def)
next
  case (imu r h obs ok r')
  then show ?case
    by (auto simp: submit_imu_Inr recording_inv_def losses_ok_def losses_snoc media_inv_def media_ok_def)
next
  case (writer r h)
  then show ?case using writer_inv by blast
qed

section \<open>Stopping\<close>

lemma writer_steps_media: "media_inv env r acc \<Longrightarrow> media_inv env ((writer_step env ^^ n) r) acc"
  by (induction n) (simp_all add: writer_step_media)

lemma writer_steps_same: "\<exists>es err. same_frame (r\<lparr>rc_queue := es, rc_error := err\<rparr>) ((writer_step env ^^ n) r)"
proof (induction n)
  case 0
  then show ?case by (intro exI [of _ "rc_queue r"] exI [of _ "rc_error r"]) simp
next
  case (Suc n)
  then obtain es err where 1: "same_frame (r\<lparr>rc_queue := es, rc_error := err\<rparr>) ((writer_step env ^^ n) r)" by blast
  obtain fs err' where 2: "same_frame (((writer_step env ^^ n) r)\<lparr>rc_queue := fs, rc_error := err'\<rparr>) (writer_step env ((writer_step env ^^ n) r))"
    using writer_step_same by blast
  show ?case using 1 2 by (intro exI [of _ fs] exI [of _ err']) (simp add: same_frame_def)
qed

lemma drain_ok:
  assumes "media_inv env r acc" and "\<not> rc_error (drain env n r)"
  shows "media_ok env acc (drain env n r)" and "\<exists>es err. same_frame (r\<lparr>rc_queue := es, rc_error := err\<rparr>) (drain env n r)"
    and "rc_queue (drain env n r) = []"
proof -
  let ?k = "min n (length (rc_queue r))"
  have d: "drain env n r = (writer_step env ^^ ?k) r" "rc_queue ((writer_step env ^^ ?k) r) = []"
    using assms(2) by (auto simp: drain_def Let_def split: if_splits)
  then show "rc_queue (drain env n r) = []" by simp
  show "media_ok env acc (drain env n r)"
    using writer_steps_media [OF assms(1), of ?k] d assms(2) by (auto simp: media_inv_def)
  show "\<exists>es err. same_frame (r\<lparr>rc_queue := es, rc_error := err\<rparr>) (drain env n r)"
    unfolding d(1) by (rule writer_steps_same)
qed

lemma drain_same: "rc_published (drain env n (r\<lparr>rc_state := x\<rparr>)) = rc_published r"
  "rc_manifest_file (drain env n (r\<lparr>rc_state := x\<rparr>)) = rc_manifest_file r"
  using writer_steps_same [where r = "r\<lparr>rc_state := x\<rparr>" and env = env and n = "min n (length (rc_queue r))"]
  by (auto simp: drain_def Let_def same_frame_def)

text \<open>The diagnostics of the end touch only the diagnostics file.\<close>

definition media_same :: "recorder \<Rightarrow> recorder \<Rightarrow> bool" where
  "media_same r s \<longleftrightarrow> same_frame r s \<and> rc_frames s = rc_frames r \<and> rc_imu s = rc_imu r \<and>
     (\<forall>role. role \<noteq> ''diagnostics.events'' \<longrightarrow> map_of (rc_files s) role = map_of (rc_files r) role)"

lemma media_same_trans: "media_same a b \<Longrightarrow> media_same b c \<Longrightarrow> media_same a c"
  by (auto simp: media_same_def intro: same_frame_trans)

lemma media_same_refl [simp]: "media_same r r"
  by (simp add: media_same_def)

lemma write_diagnostic_media: "write_diagnostic env sev code msg n r = (Inr (), s) \<Longrightarrow> media_same r s"
proof -
  assume w: "write_diagnostic env sev code msg n r = (Inr (), s)"
  have "same_frame r s" using write_diagnostic_same [of r r env sev code msg n] w by simp
  then show ?thesis using w by (auto simp: write_diagnostic_def andS_Inr media_same_def dest!: write_role_Inr)
qed

lemma report_media: "report_loss env n code r = (Inr (), s) \<Longrightarrow> media_same r s"
  by (cases "n = 0") (auto simp: report_loss_def dest: write_diagnostic_media)

lemma loss_diagnostics_media: "loss_diagnostics env r = (Inr (), s) \<Longrightarrow> media_same r s"
  unfolding loss_diagnostics_def
proof (elim andS_unitE)
  fix a b c d
  assume "report_loss env (rc_dropped_frames r) ''frame_dropped'' r = (Inr (), a)"
    "report_loss env (rc_source_gaps a) ''source_frame_gap'' a = (Inr (), b)"
    "report_loss env (rc_rejected b) ''frame_queue_rejected'' b = (Inr (), c)"
    "report_loss env (rc_dropped_imu c) ''imu_dropped'' c = (Inr (), d)"
    "write_diagnostic env ''info'' ''recording_complete'' ''complete'' 1 d = (Inr (), s)"
  from this(1-4) [THEN report_media] this(5) [THEN write_diagnostic_media] show "media_same r s"
    by (meson media_same_trans)
qed

lemma seal_Inr:
  assumes "seal env se r = (Inr (), s)"
  obtains t m where "media_same r t" "s = manifest_written env se (state_sealed env se t)"
    "validate_session (ev_loads env) (ev_instant env) (ev_hash env) (directory_of ''.partial'' s) True = Inr m"
proof -
  from assms [unfolded seal_def] obtain t where t: "loss_diagnostics env r = (Inr (), t)"
    and k: "(if \<not> sp_synced se then (Inl OSError, t)
      else if \<not> sp_state_written se then (Inl OSError, t)
      else if \<not> sp_manifest_written se then (Inl OSError, state_sealed env se t)
      else
       (let sealed = manifest_written env se (state_sealed env se t) in
        tryS (validate_session (ev_loads env) (ev_instant env) (ev_hash env) (directory_of ''.partial'' sealed) True) sealed
          (\<lambda>_. (Inr (), sealed)))) = (Inr (), s)"
    by (rule andS_unitE)
  define sealed where "sealed = manifest_written env se (state_sealed env se t)"
  define v where "v = validate_session (ev_loads env) (ev_instant env) (ev_hash env) (directory_of ''.partial'' sealed) True"
  have "tryS v sealed (\<lambda>_. (Inr (), sealed)) = (Inr (), s)"
    using k unfolding Let_def sealed_def [symmetric] v_def [symmetric] by (simp split: if_split_asm)
  then obtain m where "v = Inr m" "s = sealed" by (cases v) auto
  then show thesis using that [OF loss_diagnostics_media [OF t]] by (simp add: v_def sealed_def)
qed

lemma report_loss_same: "same_frame r s \<Longrightarrow> same_frame r (snd (report_loss env n code s))"
  by (simp add: report_loss_def write_diagnostic_same)

lemma loss_diagnostics_same: "same_frame r (snd (loss_diagnostics env r))"
  unfolding loss_diagnostics_def
  by (intro andS_same; (rule report_loss_same write_diagnostic_same)?; (assumption | rule same_frame_refl)?)

lemma seal_unpublished: "seal env se r = (x, s) \<Longrightarrow> rc_published s = rc_published r"
proof -
  assume s: "seal env se r = (x, s)"
  obtain y t where d: "loss_diagnostics env r = (y, t)" by fastforce
  have "rc_published t = rc_published r" using loss_diagnostics_same [of r env] d by (simp add: same_frame_def)
  then show ?thesis
    using s unfolding seal_def d Let_def
    by (cases y; cases "validate_session (ev_loads env) (ev_instant env) (ev_hash env)
          (directory_of ''.partial'' (manifest_written env se (state_sealed env se t))) True")
       (auto simp: state_sealed_def manifest_written_def split: if_split_asm)
qed

lemma mark_failed_fields [simp]:
  "rc_state (mark_failed env state name code msg now ok r) = state"
  "rc_published (mark_failed env state name code msg now ok r) = rc_published r"
  "rc_manifest_file (mark_failed env state name code msg now ok r) = rc_manifest_file r"
  by (simp_all add: mark_failed_def Let_def)

lemma withdraw_fields [simp]:
  "rc_state (withdraw env se state name code r) = state"
  "rc_published (withdraw env se state name code r) = rc_published r"
  "rc_manifest_file (withdraw env se state name code r) = (if sp_unlinked se then None else rc_manifest_file r)"
  by (simp_all add: withdraw_def)

lemma stop_refused:
  "rc_state r \<in> {FailedState, InterruptedState} \<Longrightarrow> stop env se r = (Inl (recording_error ''invalid_state'' False), r)"
  by (auto simp: stop_def)

lemma stop_Inr:
  assumes "stop env se r = (Inr (), r')" and "rc_state r = Recording"
  obtains r1 r2 where "r1 = drain env (sp_handled se) (r\<lparr>rc_state := Stopping\<rparr>)" "\<not> rc_error r1" "seal env se r1 = (Inr (), r2)"
    "r' = r2\<lparr>rc_state := SealedState, rc_partial := False, rc_published := True\<rparr>"
proof -
  define r1 where "r1 = drain env (sp_handled se) (r\<lparr>rc_state := Stopping\<rparr>)"
  obtain x r2 where s: "seal env se r1 = (x, r2)" by fastforce
  have st: "(if rc_error r1 then
          (Inl (recording_error ''write_failed'' False),
           mark_failed env FailedState ''failed'' ''write_failed'' [] (sp_ended se) (sp_mark_written se) r1)
        else
         (case x of
            Inl e \<Rightarrow> (Inl (recording_error ''seal_failed'' False), withdraw env se FailedState ''failed'' ''seal_failed'' r2)
          | Inr _ \<Rightarrow>
             (case sp_hook se of
                Inl e \<Rightarrow> (Inl e, withdraw env se InterruptedState ''interrupted'' (hook_code e) r2)
              | Inr _ \<Rightarrow> publish_session env se r2))) = (Inr (), r')"
    using assms(1) unfolding stop_def assms(2) Let_def r1_def [symmetric] s by (simp cong: if_cong)
  have e: "\<not> rc_error r1" using st by (cases "rc_error r1") simp_all
  obtain u where x: "x = Inr u" using st e by (cases x) simp_all
  obtain v where h: "sp_hook se = Inr v" using st e x by (cases "sp_hook se") simp_all
  have "publish_session env se r2 = (Inr (), r')" using st e x h by simp
  then have "r' = r2\<lparr>rc_state := SealedState, rc_partial := False, rc_published := True\<rparr>"
    by (cases "sp_publication se") (simp_all add: publish_session_def)
  then show thesis using that [OF r1_def e] s x by simp
qed

section \<open>A concrete recording\<close>

text \<open>One stereo frame is recorded, and the session is sealed.\<close>

definition run_env :: rec_env where
  "run_env = \<lparr>ev_write = (\<lambda>_. Wrote), ev_monotonic = (\<lambda>_. 5),
     ev_line = (\<lambda>d. (if jget d ''format'' = JStr frame_format then ''F''
       else if jget d ''code'' = JStr ''recording_started'' then ''A'' else ''B'') @ [CHR 0x0A]),
     ev_pretty = (\<lambda>d. if jget d ''format'' = JStr session_format then ''M'' else ''S''),
     ev_loads = sample_loads, ev_instant = sample_instant, ev_hash = sample_hash\<rparr>"

definition run_config :: rec_config where
  "run_config = \<lparr>cf_device_id = ''ylx'', cf_software_version = ''1'', cf_width = 640, cf_height = 480, cf_fps = JInt 30,
     cf_encoding = ''mjpeg'', cf_tick_hz = JNull, cf_ranges = JNull\<rparr>"

definition run_frame :: frame_obs where
  "run_frame = \<lparr>fb_left = ''j'', fb_right = ''j'', fb_source = 7, fb_host = 1000, fb_dropped_before = 0\<rparr>"

definition run_stop :: stop_env where
  "run_stop = \<lparr>sp_handled = 5, sp_synced = True, sp_ended = ''2026-01-01T00:00:01Z'', sp_state_written = True,
     sp_manifest_written = True, sp_hook = Inr (), sp_publication = Renamed, sp_unlinked = True, sp_mark_written = True\<rparr>"

definition run_new :: recorder where
  "run_new = \<lparr>rc_config = run_config, rc_capacity = 4, rc_state = NewRecorder, rc_session = [], rc_started = [], rc_queue = [],
     rc_error = False, rc_files = [], rc_writes = 0, rc_frames = 0, rc_imu = 0, rc_diagnostics = 0,
     rc_dropped_frames = 0, rc_source_gaps = 0, rc_rejected = 0, rc_dropped_imu = 0,
     rc_partial = False, rc_state_file = None, rc_manifest_file = None, rc_published = False\<rparr>"

definition run_started :: recorder where
  "run_started = run_new\<lparr>rc_state := Recording, rc_session := sample_id, rc_started := ''2026-01-01T00:00:00Z'', rc_partial := True,
     rc_state_file := Some ''S'', rc_writes := 3, rc_diagnostics := 1,
     rc_files := [(''video.left'', magic), (''video.right'', magic), (''frames.timeline'', []), (''imu.samples'', []),
       (''diagnostics.events'', ''A'' @ [CHR 0x0A])]\<rparr>"

definition run_sealed :: recorder where
  "run_sealed = run_started\<lparr>rc_state := SealedState, rc_partial := False, rc_published := True, rc_frames := 1, rc_writes := 7,
     rc_diagnostics := 2, rc_manifest_file := Some ''M'',
     rc_files := [(''video.left'', sample_stream), (''video.right'', sample_stream), (''frames.timeline'', ''F'' @ [CHR 0x0A]),
       (''imu.samples'', []), (''diagnostics.events'', sample_events)]\<rparr>"

lemmas run_defs = run_env_def run_config_def run_frame_def run_stop_def run_new_def run_started_def run_sealed_def

lemma run_starts:
  "new_recorder run_config 4 False = Inr run_new"
  "start run_env True sample_id False ''2026-01-01T00:00:00Z'' ''2026-01-01T00:00:00Z'' AllMade True run_new = (Inr (), run_started)"
  using sample_uuid(1)
  by (simp_all add: new_recorder_def run_defs start_def start_body_def write_role_def write_diagnostic_def append_file_def
      open_files_def diagnostic_record_def session_state_def)

lemma run_recording: "recording run_env (run_started\<lparr>rc_queue := [FrameEvent run_frame]\<rparr>) ([] @ [(FrameEvent run_frame, True)])"
  by (rule recording.frame [OF recording.started [OF run_starts]])
     (simp add: submit_frame_def unavailable_def run_defs)

definition run_written :: recorder where
  "run_written = run_started\<lparr>rc_state := Stopping, rc_frames := 1, rc_writes := 6,
    rc_files := [(''video.left'', sample_stream), (''video.right'', sample_stream), (''frames.timeline'', ''F'' @ [CHR 0x0A]),
       (''imu.samples'', []), (''diagnostics.events'', ''A'' @ [CHR 0x0A])]\<rparr>"

definition run_validated :: recorder where
  "run_validated = run_sealed\<lparr>rc_state := Stopping, rc_partial := True, rc_published := False\<rparr>"

lemma run_drains: "drain run_env 5 (run_started\<lparr>rc_queue := [FrameEvent run_frame], rc_state := Stopping\<rparr>) = run_written"
proof -
  have "encode_frame ''j'' = Inr (framed [''j''])"
    by (simp add: encode_frame_Inr frame_ok_def max_frame_bytes_def)
  then have step: "writer_step run_env (run_started\<lparr>rc_queue := [FrameEvent run_frame], rc_state := Stopping\<rparr>) = run_written"
    by (simp add: writer_step_def Let_def persist_def persist_frame_def run_defs write_role_def append_file_def frame_record_def
        run_written_def sample_stream_def del: framed_simps)
  then show ?thesis by (simp add: drain_def Let_def) (simp add: run_written_def run_defs)
qed

lemma run_seals: "seal run_env (run_stop\<lparr>sp_hook := hook\<rparr>) run_written = (Inr (), run_validated)"
proof -
  have root: "directory_of ''.partial'' run_validated = sample_root\<lparr>root_name := sample_id @ ''.partial''\<rparr>"
    by (simp add: directory_of_def run_validated_def run_defs regular_def plain_def sample_root_def role_paths_def rc_bytes_def)
  have diag: "loss_diagnostics run_env run_written = (Inr (), run_written\<lparr>rc_writes := 7, rc_diagnostics := 2,
      rc_files := rc_files run_sealed\<rparr>)"
    by (simp add: loss_diagnostics_def report_loss_def run_written_def run_defs write_diagnostic_def write_role_def append_file_def
        diagnostic_record_def sample_events_def)
  have "manifest_written run_env (run_stop\<lparr>sp_hook := hook\<rparr>) (state_sealed run_env (run_stop\<lparr>sp_hook := hook\<rparr>)
      (run_written\<lparr>rc_writes := 7, rc_diagnostics := 2, rc_files := rc_files run_sealed\<rparr>)) = run_validated"
    by (simp add: manifest_written_def state_sealed_def run_written_def run_validated_def run_defs session_state_def manifest_of_def)
  then show ?thesis
    using sample_accepted_at [of "sample_id @ ''.partial''" True]
    by (simp add: seal_def diag Let_def root) (simp add: run_defs)
qed

lemma run_stops:
  "stop run_env run_stop (run_started\<lparr>rc_queue := [FrameEvent run_frame]\<rparr>) = (Inr (), run_sealed)"
  "stop run_env (run_stop\<lparr>sp_hook := Inl KeyError\<rparr>) (run_started\<lparr>rc_queue := [FrameEvent run_frame]\<rparr>) =
     (Inl KeyError, run_validated\<lparr>rc_state := InterruptedState, rc_manifest_file := None\<rparr>)"
proof -
  have *: "rc_state (run_started\<lparr>rc_queue := [FrameEvent run_frame]\<rparr>) = Recording" "sp_handled run_stop = 5"
    "\<not> rc_error run_written" "sp_hook run_stop = Inr ()" "publish_session run_env run_stop run_validated = (Inr (), run_sealed)"
    "run_stop\<lparr>sp_hook := Inr ()\<rparr> = run_stop"
    "withdraw run_env (run_stop\<lparr>sp_hook := Inl KeyError\<rparr>) InterruptedState ''interrupted'' (hook_code KeyError) run_validated =
       run_validated\<lparr>rc_state := InterruptedState, rc_manifest_file := None\<rparr>"
    by (simp_all add: run_written_def run_defs publish_session_def run_validated_def withdraw_def mark_failed_def Let_def
        session_state_def failure_object_def)
  show "stop run_env run_stop (run_started\<lparr>rc_queue := [FrameEvent run_frame]\<rparr>) = (Inr (), run_sealed)"
    using *(1-5) run_seals [of "Inr ()", unfolded *(6)] by (simp add: stop_def Let_def run_drains)
  show "stop run_env (run_stop\<lparr>sp_hook := Inl KeyError\<rparr>) (run_started\<lparr>rc_queue := [FrameEvent run_frame]\<rparr>) =
     (Inl KeyError, run_validated\<lparr>rc_state := InterruptedState, rc_manifest_file := None\<rparr>)"
    using * run_seals [of "Inl KeyError"] by (simp add: stop_def Let_def run_drains)
qed

text \<open>C3: A stopped recording is exactly what was accepted.  Whatever the interleaving of submissions with the
  writer, when \<open>stop\<close> returns the session is published, the validated directory is a complete
  session, each video file is the magic followed by the frames of the accepted observations in order,
  the timeline and the IMU file have one line per accepted frame and sample, and the manifest's counters are
  those numbers; the frames counted as dropped are the source gaps plus the rejected frames, and the
  samples counted as dropped are the reported losses plus the rejected ones.\<close>

theorem recorder_seals_what_it_accepted:
  assumes "recording env r h" and "stop env se r = (Inr (), r')"
  shows "rc_published r' \<and> rc_state r' = SealedState \<and>
    (\<exists>m. complete_session (ev_loads env) (ev_hash env) (directory_of ''.partial'' r') m) \<and>
    media_ok env (accepted h) r' \<and> rc_dropped_frames r' = gaps h + rejected h \<and> rc_dropped_imu r' = lost_samples h"
proof -
  have inv: "recording_inv env r h" by (rule recording_invariant [OF assms(1)])
  then have rec: "rc_state r = Recording" by (simp add: recording_inv_def)
  from stop_Inr [OF assms(2) rec] obtain r1 r2 where
    r1: "r1 = drain env (sp_handled se) (r\<lparr>rc_state := Stopping\<rparr>)" "\<not> rc_error r1" "seal env se r1 = (Inr (), r2)"
    and r': "r' = r2\<lparr>rc_state := SealedState, rc_partial := False, rc_published := True\<rparr>" by blast
  from seal_Inr [OF r1(3)] obtain t m where t: "media_same r1 t" "r2 = manifest_written env se (state_sealed env se t)"
    and m: "validate_session (ev_loads env) (ev_instant env) (ev_hash env) (directory_of ''.partial'' r2) True = Inr m" by blast
  have inv0: "media_inv env (r\<lparr>rc_state := Stopping\<rparr>) (accepted h)"
    using inv by (simp add: recording_inv_def media_inv_def media_ok_def)
  note d = drain_ok [OF inv0, of "sp_handled se", folded r1(1), OF r1(2)]
  have media: "media_ok env (accepted h) r2"
    using d(1) t by (simp add: media_ok_def media_same_def same_frame_def manifest_written_def state_sealed_def)
  have "losses_ok r1 h"
    using d(2) inv by (auto simp: recording_inv_def losses_ok_def same_frame_def)
  then have loss: "losses_ok r2 h"
    using t by (simp add: losses_ok_def media_same_def same_frame_def manifest_written_def state_sealed_def)
  have dir: "directory_of ''.partial'' r' = directory_of ''.partial'' r2" by (simp add: r' directory_of_def rc_bytes_def)
  show ?thesis
    using accepted_is_complete [OF m] media loss unfolding dir by (auto simp: r' media_ok_def losses_ok_def)
qed

theorem recorder_seals_what_it_accepted_witness:
  "accepted [(FrameEvent run_frame, True)] = [FrameEvent run_frame] \<and> rc_published run_sealed \<and>
   media_ok run_env (accepted [(FrameEvent run_frame, True)]) run_sealed \<and>
   map_of (rc_files run_sealed) ''video.left'' = Some (magic @ framed [''j''])"
  using recorder_seals_what_it_accepted [OF run_recording run_stops(1)]
  by (simp add: accepted_def media_ok_def run_frame_def)

text \<open>C38: A failed \<open>stop\<close> is final and withdraws the manifest where it can.  The recorder ends failed or
  interrupted; the session is published only when the rename had succeeded and merely the parent directory
  could not be synchronised; a manifest is left behind only when the session was so published or when
  removing the manifest failed (the code ignores that error); the error is
  one of the two coded recording errors unless the caller's hook raised it; and a second \<open>stop\<close> is
  refused.\<close>

theorem failed_stop_withdraws_the_manifest:
  assumes "recording env r h" and "stop env se r = (Inl e, r')"
  shows "rc_state r' \<in> {FailedState, InterruptedState} \<and>
    (rc_published r' \<longrightarrow> sp_publication se = RenamedOnly) \<and>
    (rc_manifest_file r' \<noteq> None \<longrightarrow> rc_published r' \<or> \<not> sp_unlinked se) \<and>
    (sp_hook se = Inl e \<or> e \<in> {recording_error ''write_failed'' False, recording_error ''seal_failed'' False}) \<and>
    stop env se' r' = (Inl (recording_error ''invalid_state'' False), r')"
proof -
  have inv: "recording_inv env r h" by (rule recording_invariant [OF assms(1)])
  define r1 where "r1 = drain env (sp_handled se) (r\<lparr>rc_state := Stopping\<rparr>)"
  have 1: "\<not> rc_published r1" "rc_manifest_file r1 = None"
    using drain_same [where env = env and r = r and n = "sp_handled se"] inv by (simp_all add: r1_def recording_inv_def)
  obtain x r2 where s: "seal env se r1 = (x, r2)" by fastforce
  have 2: "\<not> rc_published r2" using seal_unpublished [OF s] 1 by simp
  consider (writing) "rc_error r1" "e = recording_error ''write_failed'' False"
      "r' = mark_failed env FailedState ''failed'' ''write_failed'' [] (sp_ended se) (sp_mark_written se) r1"
    | (sealing) "e = recording_error ''seal_failed'' False" "r' = withdraw env se FailedState ''failed'' ''seal_failed'' r2"
    | (hook) "sp_hook se = Inl e" "r' = withdraw env se InterruptedState ''interrupted'' (hook_code e) r2"
    | (publish) "publish_session env se r2 = (Inl e, r')"
    using assms(2) inv unfolding stop_def Let_def r1_def [symmetric] s recording_inv_def
    by (cases "rc_error r1"; cases x; cases "sp_hook se") simp_all
  then show ?thesis
  proof cases
    case writing
    then show ?thesis using 1 by (simp add: stop_refused)
  next
    case sealing
    then show ?thesis using 2 by (simp add: stop_refused)
  next
    case hook
    then show ?thesis using 2 by (simp add: stop_refused)
  next
    case publish
    then show ?thesis using 2
      by (cases "sp_publication se")
         (auto simp: publish_session_def stop_refused)
  qed
qed

theorem failed_stop_withdraws_the_manifest_witness:
  "stop run_env run_stop (run_validated\<lparr>rc_state := InterruptedState, rc_manifest_file := None\<rparr>) =
     (Inl (recording_error ''invalid_state'' False), run_validated\<lparr>rc_state := InterruptedState, rc_manifest_file := None\<rparr>)"
  using failed_stop_withdraws_the_manifest [OF run_recording run_stops(2)] by blast

end
