(* ===== verification/NetworkExecution.thy ===== *)
theory NetworkExecution
  imports NetworkMutations
begin

text \<open>
  The worker of \<open>network_control.py\<close>: how an accepted transaction is executed, falls back to the rescue
  access point, and ends.  The world is \<open>exec_env\<close>: how the \<open>n\<close>-th database write went, the clocks,
  and what NetworkManager (\<open>activate_network_candidate\<close>, \<open>commit_network_candidate\<close>,
  \<open>rescue_network\<close>, \<open>forget_network_client_profiles\<close>) and the operation lock answered.  The state records each
  call of NetworkManager with its answer, in the order of the calls; log events are left out.
\<close>

section \<open>The worker's state\<close>

record exec_env =
  xe_now :: "nat \<Rightarrow> string"
  xe_outcome :: "nat \<Rightarrow> commit_outcome"
  xe_db_now :: "nat \<Rightarrow> string"
  xe_lock :: "unit res"
  xe_boot :: string
  xe_clock :: "nat \<Rightarrow> int"
  xe_round :: "rat \<Rightarrow> rat"
  xe_rescue :: "nat \<Rightarrow> int option \<Rightarrow> unit res"
  xe_activate :: "jobject \<Rightarrow> int \<Rightarrow> unit res"
  xe_adopt :: "jobject \<Rightarrow> unit res"
  xe_forget :: "unit res"

text \<open>The controller, how often the worker moved a transaction and called \<open>rescue_network\<close>, the local
  variable \<open>rescue_deadline_ns\<close>, and the calls made so far with their answers.\<close>

datatype manager_call =
    RescueCall "int option"
  | ActivateCall jobject int
  | AdoptCall jobject
  | ForgetCall

record execution = network_controller +
  ex_moves :: nat
  ex_rescues :: nat
  ex_deadline :: "int option"
  ex_calls :: "(manager_call \<times> unit res) list"

definition called :: "manager_call \<Rightarrow> unit res \<Rightarrow> execution \<Rightarrow> unit res \<times> execution" where
  "called c answer x = (answer, x\<lparr>ex_calls := ex_calls x @ [(c, answer)]\<rparr>)"

definition network_error :: "string \<Rightarrow> pyexc" where
  "network_error code = AppError ''NetworkError'' code False"

fun is_network_error :: "pyexc \<Rightarrow> bool" where
  "is_network_error (AppError cls code retry) = (cls = ''NetworkError'')"
| "is_network_error _ = False"

fun is_state_error :: "pyexc \<Rightarrow> bool" where
  "is_state_error (AppError cls code retry) = (cls = ''NetworkStateError'')"
| "is_state_error _ = False"

text \<open>\<open>exc if isinstance(exc, NetworkError) else NetworkError("network_manager_unavailable")\<close>, by its code.\<close>

fun failure_code :: "pyexc \<Rightarrow> string" where
  "failure_code (AppError cls code retry) = (if cls = ''NetworkError'' then code else ''network_manager_unavailable'')"
| "failure_code _ = ''network_manager_unavailable''"

section \<open>Moving a transaction\<close>

definition plain_move :: "string \<Rightarrow> string \<Rightarrow> transition_request" where
  "plain_move stt stage =
     \<lparr>to_status = stt, to_stage = stage, at_time = [], ap_validated = None, to_error = None, to_desired = None,
      to_publish = False, to_deadline = JNull, to_recovery = ''await_device'', to_saved = None, to_verified = None,
      retain_work = True, clear_all_work = False, remove_work = []\<rparr>"

definition move :: "exec_env \<Rightarrow> string \<Rightarrow> transition_request \<Rightarrow> execution \<Rightarrow> json res \<times> execution" where
  "move env tid r x =
     (case transition tid (r\<lparr>at_time := xe_now env (ex_moves x)\<rparr>) (xe_outcome env (ex_moves x)) (xe_db_now env (ex_moves x)) (nc_db x) of
        (moved, db) \<Rightarrow> (moved, x\<lparr>nc_db := db, ex_moves := Suc (ex_moves x)\<rparr>))"

definition rescue :: "exec_env \<Rightarrow> int option \<Rightarrow> execution \<Rightarrow> unit res \<times> execution" where
  "rescue env deadline x =
     called (RescueCall deadline) (xe_rescue env (ex_rescues x) deadline) (x\<lparr>ex_rescues := Suc (ex_rescues x)\<rparr>)"

definition error_code_of :: "string \<Rightarrow> string" where
  "error_code_of code =
     (let mapped = (case map_of [(''wifi_auth_failed'', ''credential_rejected''), (''network_timeout'', ''dhcp_timeout''),
          (''default_route_missing'', ''route_lost''), (''rescue_failed'', ''rescue_ap_unavailable''),
          (''rescue_unconfigured'', ''rescue_ap_unavailable'')] code of Some c \<Rightarrow> c | None \<Rightarrow> code) in
      if mapped \<in> set transaction_error_codes then mapped else ''network_manager_unavailable'')"

definition error_messages :: "(string \<times> string) list" where
  "error_messages =
     [(''rescue_ap_unavailable'', ''rescue AP could not be validated''),
      (''credential_rejected'', ''Wi-Fi credential was rejected''),
      (''dhcp_timeout'', ''network activation exceeded the ten second deadline''),
      (''route_lost'', ''the candidate did not establish a default route''),
      (''network_manager_unavailable'', ''NetworkManager could not apply the candidate''),
      (''concurrency_unsupported'', ''requested network concurrency is unsupported'')]"

definition transaction_error :: "string \<Rightarrow> jobject" where
  "transaction_error code =
     [(''code'', JStr (error_code_of code)), (''message'', JStr (the (map_of error_messages (error_code_of code)))),
      (''retryable'', JBool True)]"

section \<open>Falling back\<close>

definition finish_fallback :: "exec_env \<Rightarrow> string \<Rightarrow> string \<Rightarrow> bool \<Rightarrow> execution \<Rightarrow> unit res \<times> execution" where
  "finish_fallback env tid code recovered x =
     catchS is_state_error
       (andS (move env tid ((plain_move (if recovered then ''rescued'' else ''failed'') (if recovered then ''rescued'' else ''failed''))
           \<lparr>ap_validated := Some recovered, to_error := Some (transaction_error code),
            to_recovery := (if recovered then ''reconnect_rescue_ap'' else ''service_required'')\<rparr>) x) (\<lambda>x. (Inr (), x)))
       (\<lambda>_ x. (Inr (), x))"

definition fallback_transaction :: "exec_env \<Rightarrow> string \<Rightarrow> string \<Rightarrow> int option \<Rightarrow> execution \<Rightarrow> unit res \<times> execution" where
  "fallback_transaction env tid code deadline x =
     andS (catchS is_state_error (andS (move env tid (plain_move ''running'' ''falling_back'') x) (\<lambda>x. (Inr (), x)))
             (\<lambda>_ x. (Inr (), x)))
      (\<lambda>x. (case rescue env deadline x of
              (Inr _, x1) \<Rightarrow> finish_fallback env tid code True x1
            | (Inl e, x1) \<Rightarrow> if is_network_error e then finish_fallback env tid code False x1 else (Inl e, x1)))"

text \<open>\<open>except (NetworkError, NetworkStateError)\<close> of the two executions.\<close>

definition or_fall_back :: "exec_env \<Rightarrow> string \<Rightarrow> unit res \<times> execution \<Rightarrow> unit res \<times> execution" where
  "or_fall_back env tid m =
     catchS (\<lambda>e. is_network_error e \<or> is_state_error e) m
       (\<lambda>e x. fallback_transaction env tid (failure_code e) (ex_deadline x) x)"

section \<open>Executing\<close>

definition execute_forget :: "exec_env \<Rightarrow> string \<Rightarrow> jobject \<Rightarrow> execution \<Rightarrow> unit res \<times> execution" where
  "execute_forget env tid w x =
     (let wanted = (case jget w ''desired'' of JObj d \<Rightarrow> d | _ \<Rightarrow> hotspot_desired) in
      or_fall_back env tid
       (andS (move env tid (plain_move ''running'' ''forgetting'') (x\<lparr>ex_deadline := None\<rparr>)) (\<lambda>x.
        andS (called ForgetCall (xe_forget env) x) (\<lambda>x.
        andS (move env tid ((plain_move ''committed'' ''forgotten'')
            \<lparr>ap_validated := Some True, to_desired := Some wanted, to_publish := True, to_recovery := ''reconnect_rescue_ap'',
             to_saved := Some False, to_verified := Some False, retain_work := False, clear_all_work := True\<rparr>)
            (x\<lparr>nc_credentials := clear (nc_credentials x)\<rparr>)) (\<lambda>x. (Inr (), x))))))"

definition rescue_deadline :: "exec_env \<Rightarrow> jobject \<Rightarrow> int option res" where
  "rescue_deadline env w =
     (case jget w ''rescue_deadline'' of
        JNull \<Rightarrow> Inr None
      | JObj d \<Rightarrow>
          (case (jget d ''boot_id'', jget d ''deadline_ns'') of
             (JStr boot, JInt n) \<Rightarrow>
               guardE (\<not> has_keys d [''time_base'', ''boot_id'', ''deadline_ns''] \<or>
                       \<not> eq_str (jget d ''time_base'') ''device_monotonic'' \<or> n < 0) (state_error ''state_invalid'' False)
                 (Inr (if boot \<noteq> xe_boot env then None else Some n))
           | _ \<Rightarrow> Inl (state_error ''state_invalid'' False))
      | _ \<Rightarrow> Inl (state_error ''state_invalid'' False))"

definition deadline_object :: "int \<Rightarrow> json \<Rightarrow> json" where
  "deadline_object ns remaining =
     JObj [(''time_base'', JStr ''device_monotonic''), (''deadline_ns'', JInt ns), (''remaining_seconds'', remaining)]"

definition remaining_seconds :: "exec_env \<Rightarrow> int \<Rightarrow> int \<Rightarrow> rat" where
  "remaining_seconds env deadline observed = max 0 (min 10 (xe_round env (of_int (deadline - observed) / 1000000000)))"

text \<open>The branch \<open>kind == "candidate"\<close>: activation has ten seconds, the rescue five more.\<close>

definition run_candidate :: "exec_env \<Rightarrow> string \<Rightarrow> jobject \<Rightarrow> execution \<Rightarrow> unit res \<times> execution" where
  "run_candidate env tid w x =
     (case jget w ''candidate'' of
        JObj c \<Rightarrow>
          (let deadline = xe_clock env 0 + 10000000000 in
           andS (move env tid ((plain_move ''running'' ''activating'')
               \<lparr>ap_validated := Some False, to_deadline := deadline_object deadline (JInt 10)\<rparr>)
               (x\<lparr>ex_deadline := Some (deadline + 5000000000)\<rparr>)) (\<lambda>x.
           andS (called (ActivateCall c deadline) (xe_activate env c deadline) x) (\<lambda>x.
             if deadline \<le> xe_clock env 1 then (Inl (network_error ''network_timeout''), x)
             else
              andS (move env tid ((plain_move ''running'' ''verifying'')
                  \<lparr>ap_validated := Some False,
                   to_deadline := deadline_object deadline (JFloat (Fin (remaining_seconds env deadline (xe_clock env 1))))\<rparr>) x) (\<lambda>x.
              called (AdoptCall c) (xe_adopt env c) x))))
      | _ \<Rightarrow> (Inl (network_error ''candidate_invalid''), x))"

text \<open>The branch \<open>kind in {"fallback", "rescue"}\<close>.\<close>

definition run_rescue :: "exec_env \<Rightarrow> string \<Rightarrow> execution \<Rightarrow> unit res \<times> execution" where
  "run_rescue env tid x =
     andS (rescue env (ex_deadline x) x) (\<lambda>x.
     andS (move env tid ((plain_move ''running'' ''ap_ready'')\<lparr>ap_validated := Some True\<rparr>) x) (\<lambda>x. (Inr (), x)))"

definition default_fallback_error :: jobject where
  "default_fallback_error =
     [(''code'', JStr ''route_lost''), (''message'', JStr ''the verified client remained unhealthy for ten seconds''),
      (''retryable'', JBool True)]"

definition run_fallback :: "exec_env \<Rightarrow> string \<Rightarrow> jobject \<Rightarrow> jobject \<Rightarrow> execution \<Rightarrow> unit res \<times> execution" where
  "run_fallback env tid w wanted x =
     (let error = (case jget w ''fallback_error'' of JObj e \<Rightarrow> e | _ \<Rightarrow> default_fallback_error) in
      andS (move env tid ((plain_move ''running'' ''falling_back'')
          \<lparr>ap_validated := Some True, to_desired := Some wanted, to_publish := True\<rparr>) x) (\<lambda>x.
      andS (move env tid ((plain_move ''rescued'' ''rescued'')
          \<lparr>ap_validated := Some True, to_desired := Some wanted, to_publish := True, to_error := Some error,
           to_recovery := ''reconnect_rescue_ap''\<rparr>) x) (\<lambda>x. (Inr (), x))))"

definition cleanup_ids :: "jobject \<Rightarrow> string list" where
  "cleanup_ids w = map text_of (string_items (jget w ''cleanup_work_ids''))"

definition commit_move :: "json \<Rightarrow> jobject \<Rightarrow> jobject \<Rightarrow> transition_request" where
  "commit_move kind w wanted =
     (let is_wifi = eq_str (jget wanted ''mode'') ''wifi-client'' in
      (plain_move ''committed'' ''committed'')
        \<lparr>ap_validated := Some (eq_str kind ''rescue''),
         to_recovery := (if eq_str kind ''candidate'' then ''reconnect_target_lan'' else ''reconnect_rescue_ap''),
         to_saved := Some is_wifi, to_verified := Some is_wifi, retain_work := False, remove_work := cleanup_ids w\<rparr>)"

definition run_work :: "exec_env \<Rightarrow> string \<Rightarrow> jobject \<Rightarrow> jobject \<Rightarrow> execution \<Rightarrow> unit res \<times> execution" where
  "run_work env tid w wanted x =
     tryS (rescue_deadline env w) x (\<lambda>deadline.
     andS (move env tid ((plain_move ''running'' ''prepared'')\<lparr>to_desired := Some wanted, to_publish := True\<rparr>)
             (x\<lparr>ex_deadline := deadline\<rparr>)) (\<lambda>x.
       (let kind = jget w ''kind'' in
        tryS (in_set kind [''fallback'', ''rescue'']) x (\<lambda>rescuing.
        andS (if rescuing then run_rescue env tid x else (Inr (), x)) (\<lambda>x.
          if eq_str kind ''fallback'' then run_fallback env tid w wanted x
          else
           andS (if eq_str kind ''candidate'' then run_candidate env tid w x
                 else if eq_str kind ''rescue'' then (Inr (), x)
                 else (Inl (network_error ''candidate_invalid''), x)) (\<lambda>x.
           andS (move env tid (commit_move kind w wanted) x) (\<lambda>x. (Inr (), x))))))))"

definition execute_locked :: "exec_env \<Rightarrow> string \<Rightarrow> execution \<Rightarrow> unit res \<times> execution" where
  "execute_locked env tid x =
     tryS (work_for tid (nc_db x)) x (\<lambda>v.
       (let w = obj_or_empty v in
        if eq_str (jget w ''kind'') ''forget'' then execute_forget env tid w x
        else
         tryS (case jget w ''desired'' of
                 JObj d \<Rightarrow> Inr d
               | _ \<Rightarrow> bindE (load_locked (nc_db x)) (\<lambda>st. Inr (obj_or_empty (jget st ''desired'')))) x (\<lambda>wanted.
           or_fall_back env tid (run_work env tid w wanted (x\<lparr>ex_deadline := None\<rparr>)))))"

definition execute :: "exec_env \<Rightarrow> string \<Rightarrow> execution \<Rightarrow> unit res \<times> execution" where
  "execute env tid x = tryS (xe_lock env) x (\<lambda>_. execute_locked env tid x)"

text \<open>\<open>except (KeyError, OSError, RuntimeError, TypeError, ValueError)\<close> of the worker loop; the application's
  errors are runtime errors, a timeout is an \<open>OSError\<close>; \<open>sqlite3.Error\<close> is none of them.\<close>

fun worker_catches :: "pyexc \<Rightarrow> bool" where
  "worker_catches DatabaseError = False"
| "worker_catches AssertionError = False"
| "worker_catches AttributeError = False"
| "worker_catches OverflowError = False"
| "worker_catches _ = True"

text \<open>One turn of \<open>_worker_loop\<close>; an exception that is not caught ends the thread.\<close>

definition worker_turn :: "exec_env \<Rightarrow> execution \<Rightarrow> unit res \<times> execution" where
  "worker_turn env x =
     (case nc_queue x of
        [] \<Rightarrow> (Inr (), x)
      | tid # rest \<Rightarrow>
         (case catchS worker_catches (execute env tid (x\<lparr>nc_queue := rest\<rparr>))
                 (\<lambda>_ x. fallback_transaction env tid ''network_manager_unavailable'' None x) of
            (outcome, x1) \<Rightarrow> (outcome, x1\<lparr>nc_queued := removeAll tid (nc_queued x1), nc_pending := nc_pending x1 - 1\<rparr>)))"

end
