(* ===== verification/NetworkHealth.thy ===== *)
theory NetworkHealth
  imports NetworkExecution
begin

text \<open>
  The transactions the controller of \<open>network_control.py\<close> starts itself: the health monitor that gives a client
  network up after its grace period, and the reconciliation at start-up; and the release of an execution
  once its answer has been delivered.  The read-only probes of NetworkManager and the locks are arguments, and so
  is the conversion of nanoseconds to the nearest double number of seconds.  The throttling of log events is
  left out.
\<close>

section \<open>Transactions of the controller itself\<close>

record system_env =
  se_tid :: string
  se_stamp :: string
  se_db_now :: string
  se_outcome :: commit_outcome
  se_sha :: "string \<Rightarrow> string"
  se_digest :: "json \<Rightarrow> string"

definition system_request :: "system_env \<Rightarrow> string \<Rightarrow> jobject \<Rightarrow> jobject \<Rightarrow> bool option \<Rightarrow> bool option \<Rightarrow> accept_request" where
  "system_request env reason wanted w saved_flag verified_flag =
     \<lparr>operation = ''retry'', desired = wanted, principal_id = ''system-network-controller'',
      idempotency_key = ''system-'' @ reason @ ''-'' @ se_tid env,
      request_fingerprint = se_digest env (JObj [(''reason'', JStr reason), (''desired'', JObj wanted)]),
      transaction_id = se_tid env, accepted_at = se_stamp env, work = w, execution_released = True, publish_desired = True,
      saved = saved_flag, verified = verified_flag\<rparr>"

definition accept_system ::
  "system_env \<Rightarrow> string \<Rightarrow> jobject \<Rightarrow> jobject \<Rightarrow> jobject \<Rightarrow> database \<Rightarrow> string res \<times> database" where
  "accept_system env reason wanted w st db =
     (case accept_transaction (se_sha env)
             (system_request env reason wanted w (bool_of (jget st ''saved'')) (bool_of (jget st ''verified'')))
             (se_outcome env) (se_db_now env) db of
        (Inl e, db') \<Rightarrow> (Inl e, db')
      | (Inr (receipt, replayed), db') \<Rightarrow>
          (Inr (if replayed then
                  (case jget (obj_or_empty receipt) ''transaction'' of
                     JObj t \<Rightarrow> text_of (jget t ''transaction_id'') | _ \<Rightarrow> se_tid env)
                else se_tid env), db'))"

definition gave_up :: "json \<Rightarrow> bool" where
  "gave_up latest \<longleftrightarrow> (case latest of JObj l \<Rightarrow> in_strs (jget l ''status'') [''rescued'', ''failed''] | _ \<Rightarrow> False)"

section \<open>The health monitor\<close>

record health_env =
  he_system :: system_env
  he_probe :: "unit res"
  he_healthy :: "string \<Rightarrow> bool res"
  he_now :: int
  he_seconds :: "int \<Rightarrow> rat"
  he_grace :: rat
  he_lock :: "unit res"
  he_candidate :: "string \<Rightarrow> json res"
  he_boot :: string

text \<open>The controller with \<open>_health_failure_started_ns\<close> and \<open>_health_fallback_latched\<close>.\<close>

record monitor = network_controller +
  hm_started :: "int option"
  hm_latched :: bool

fun capture_active :: "pyexc \<Rightarrow> bool" where
  "capture_active (AppError cls code retry) = (cls = ''NetworkError'' \<and> code = ''capture_active'')"
| "capture_active _ = False"

definition mode_of :: "jobject \<Rightarrow> string" where
  "mode_of st = text_of (jget (obj_or_empty (jget st ''desired'')) ''mode'')"

definition fallback_work :: "health_env \<Rightarrow> jobject \<Rightarrow> json option \<Rightarrow> jobject \<Rightarrow> int \<Rightarrow> jobject" where
  "fallback_work env wanted candidate error started =
     [(''kind'', JStr ''fallback''), (''desired'', JObj wanted), (''cleanup_work_ids'', JList []),
      (''fallback_error'', JObj error),
      (''rescue_deadline'', JObj [(''time_base'', JStr ''device_monotonic''), (''boot_id'', JStr (he_boot env)),
         (''deadline_ns'', JInt (started + 15000000000))])] @
     (case candidate of Some c \<Rightarrow> [(''candidate'', c)] | None \<Rightarrow> [])"

text \<open>The part of \<open>_monitor_once\<close> under the submit lock.\<close>

definition intervene :: "health_env \<Rightarrow> int \<Rightarrow> monitor \<Rightarrow> unit res \<times> monitor" where
  "intervene env started m =
     (if nc_closed m then (Inr (), m)
      else tryS (load_locked (nc_db m)) m (\<lambda>st.
       if window_slot st ''current'' \<noteq> JNull then (Inr (), m\<lparr>hm_started := None\<rparr>)
       else
       (case he_lock env of
          Inl e \<Rightarrow> if capture_active e then (Inr (), m\<lparr>hm_started := None\<rparr>) else (Inl e, m)
        | Inr _ \<Rightarrow>
          tryS (case he_candidate env (mode_of st) of
                  Inr c \<Rightarrow> Inr (Some c, default_fallback_error)
                | Inl e \<Rightarrow> if is_network_error e then Inr (None, transaction_error (failure_code e)) else Inl e) m
           (\<lambda>(candidate, error).
             (let wanted = obj_or_empty (jget st ''desired'') in
              case accept_system (he_system env) ''health-timeout'' wanted (fallback_work env wanted candidate error started) st (nc_db m) of
                (Inl e, db) \<Rightarrow> (Inl e, m\<lparr>nc_db := db\<rparr>)
              | (Inr tid, db) \<Rightarrow> (Inr (), enqueue tid (m\<lparr>nc_db := db, hm_latched := True, hm_started := None\<rparr>)))))))"

definition degraded :: "health_env \<Rightarrow> jobject \<Rightarrow> monitor \<Rightarrow> unit res \<times> monitor" where
  "degraded env st m =
     (if hm_latched m \<or> gave_up (window_slot st ''latest'') then (Inr (), m\<lparr>hm_latched := True\<rparr>)
      else
       (case hm_started m of
          None \<Rightarrow> (Inr (), m\<lparr>hm_started := Some (he_now env)\<rparr>)
        | Some started \<Rightarrow>
            if he_seconds env (he_now env - started) < he_grace env then (Inr (), m) else intervene env started m))"

definition monitor_once :: "health_env \<Rightarrow> monitor \<Rightarrow> unit res \<times> monitor" where
  "monitor_once env m =
     tryS (load_locked (nc_db m)) m (\<lambda>st.
       if window_slot st ''current'' \<noteq> JNull then (Inr (), m\<lparr>hm_started := None\<rparr>)
       else if mode_of st = ''hotspot'' \<or> jget st ''saved'' \<noteq> JBool True then (Inr (), m\<lparr>hm_started := None, hm_latched := False\<rparr>)
       else
        (case he_probe env of
           Inl e \<Rightarrow>
             if capture_active e then (Inr (), m\<lparr>hm_started := None\<rparr>)
             else if is_network_error e then degraded env st m else (Inl e, m)
         | Inr _ \<Rightarrow>
            (case he_healthy env (mode_of st) of
               Inr True \<Rightarrow> (Inr (), m\<lparr>hm_started := None, hm_latched := False\<rparr>)
             | Inr False \<Rightarrow> degraded env st m
             | Inl e \<Rightarrow> if is_network_error e then degraded env st m else (Inl e, m))))"

section \<open>Start-up\<close>

record boot_env =
  be_exec :: exec_env
  be_system :: system_env
  be_mark :: commit_outcome
  be_lock :: "nat \<Rightarrow> unit res"
  be_healthy :: "string \<Rightarrow> bool res"
  be_candidate :: "string \<Rightarrow> json res"

text \<open>\<open>_retained_retry_work\<close>: \<open>except (KeyError, NetworkStateError)\<close> around \<open>work_for\<close>.\<close>

definition retained_retry_work :: "jobject \<Rightarrow> database \<Rightarrow> jobject option res" where
  "retained_retry_work st db =
     (if \<not> gave_up (window_slot st ''latest'') then Inr None
      else
       (let latest_id = text_of (jget (obj_or_empty (window_slot st ''latest'')) ''transaction_id'') in
        case work_for latest_id db of
          Inl e \<Rightarrow> if e = KeyError \<or> is_state_error e then Inr None else Inl e
        | Inr v \<Rightarrow>
           (case (jget (obj_or_empty v) ''candidate'', jget (obj_or_empty v) ''desired'') of
              (JObj c, JObj d) \<Rightarrow> Inr (Some
                [(''kind'', JStr ''candidate''), (''candidate'', JObj c), (''desired'', JObj d),
                 (''cleanup_work_ids'', JList (JStr latest_id # string_items (jget (obj_or_empty v) ''cleanup_work_ids'')))])
            | _ \<Rightarrow> Inr None)))"

definition projected_work :: "jobject \<Rightarrow> json \<Rightarrow> database \<Rightarrow> jobject res" where
  "projected_work st candidate db =
     (let latest_id = text_of (jget (obj_or_empty (window_slot st ''latest'')) ''transaction_id'') in
      bindE (if \<not> gave_up (window_slot st ''latest'') then Inr []
             else (case work_for latest_id db of
                     Inl e \<Rightarrow> if is_state_error e then Inr [JStr latest_id] else Inl e
                   | Inr v \<Rightarrow> Inr (JStr latest_id # string_items (jget (obj_or_empty v) ''cleanup_work_ids''))))
       (\<lambda>ids. Inr [(''kind'', JStr ''candidate''), (''candidate'', candidate), (''desired'', jget st ''desired''),
                   (''cleanup_work_ids'', JList ids)]))"

definition boot_rescue :: "boot_env \<Rightarrow> nat \<Rightarrow> execution \<Rightarrow> unit res \<times> execution" where
  "boot_rescue env k x = tryS (be_lock env k) x (\<lambda>_. rescue (be_exec env) None x)"

definition boot_submit :: "boot_env \<Rightarrow> jobject \<Rightarrow> jobject \<Rightarrow> execution \<Rightarrow> unit res \<times> execution" where
  "boot_submit env st w x =
     (case accept_system (be_system env) ''boot-reconcile'' (obj_or_empty (jget w ''desired'')) w st (nc_db x) of
        (Inl e, db) \<Rightarrow> (Inl e, x\<lparr>nc_db := db\<rparr>)
      | (Inr tid, db) \<Rightarrow> execute (be_exec env) tid (x\<lparr>nc_db := db\<rparr>))"

definition boot_retry :: "boot_env \<Rightarrow> jobject \<Rightarrow> bool \<Rightarrow> execution \<Rightarrow> unit res \<times> execution" where
  "boot_retry env st new_boot x =
     tryS (if new_boot then retained_retry_work st (nc_db x) else Inr None) x (\<lambda>kept.
       (case kept of
          Some w \<Rightarrow> boot_submit env st w x
        | None \<Rightarrow>
           (case bindE (be_lock env 2) (\<lambda>_. be_candidate env (mode_of st)) of
              Inl e \<Rightarrow> if is_network_error e then boot_rescue env 3 x else (Inl e, x)
            | Inr c \<Rightarrow> tryS (projected_work st c (nc_db x)) x (\<lambda>w. boot_submit env st w x))))"

definition boot_reconcile :: "boot_env \<Rightarrow> execution \<Rightarrow> unit res \<times> execution" where
  "boot_reconcile env x =
     tryS (load_locked (nc_db x)) x (\<lambda>st.
     tryS (boot_needs_reconcile (xe_boot (be_exec env)) (nc_db x)) x (\<lambda>new_boot.
       (case mark_boot_reconciled (xe_boot (be_exec env)) (be_mark env) (se_db_now (be_system env)) (nc_db x) of
          (Inl e, db) \<Rightarrow> (Inl e, x\<lparr>nc_db := db\<rparr>)
        | (Inr _, db) \<Rightarrow>
           (let x1 = x\<lparr>nc_db := db\<rparr>;
                go_on = (if mode_of st = ''hotspot'' \<or> gave_up (window_slot st ''latest'') \<and> \<not> new_boot
                         then boot_rescue env 1 x1 else boot_retry env st new_boot x1) in
            if window_slot st ''current'' \<noteq> JNull then (Inr (), x1)
            else
             (case bindE (be_lock env 0) (\<lambda>_. be_healthy env (mode_of st)) of
                Inr True \<Rightarrow> (Inr (), x1)
              | Inr False \<Rightarrow> go_on
              | Inl e \<Rightarrow> if is_network_error e then go_on else (Inl e, x1))))))"

section \<open>Releasing an execution\<close>

definition answered_transaction :: "jobject \<Rightarrow> string option" where
  "answered_transaction response =
     (if jget response ''ok'' \<noteq> JBool True then None
      else
       (case jget response ''operation'' of
          JStr opn \<Rightarrow>
            if opn \<notin> set mutation_operations then None
            else (case jget (obj_or_empty (jget (obj_or_empty (jget response ''body'')) ''transaction'')) ''transaction_id'' of
                    JStr tid \<Rightarrow> Some tid | _ \<Rightarrow> None)
        | _ \<Rightarrow> None))"

text \<open>\<open>release_response\<close>: the answer was delivered, the deferred execution may start.\<close>

definition release_response :: "commit_outcome \<Rightarrow> string \<Rightarrow> jobject \<Rightarrow> network_controller \<Rightarrow> unit res \<times> network_controller" where
  "release_response outcome now response nc =
     (case answered_transaction response of
        None \<Rightarrow> (Inr (), nc)
      | Some tid \<Rightarrow>
         if tid \<notin> set (nc_deferred nc) then (Inr (), nc)
         else
          (case release_execution tid outcome now (nc_db nc) of
             (Inl e, db) \<Rightarrow> (Inl e, nc\<lparr>nc_db := db\<rparr>)
           | (Inr released, db) \<Rightarrow>
              (let nc1 = nc\<lparr>nc_db := db, nc_deferred := removeAll tid (nc_deferred nc)\<rparr> in
               (Inr (), if released then enqueue tid nc1 else nc1))))"

text \<open>\<open>start\<close>, once the threads run: a transaction that survived a restart is queued when its answer had been
  delivered, and deferred otherwise.\<close>

definition resume :: "network_controller \<Rightarrow> unit res \<times> network_controller" where
  "resume nc =
     tryS (load_locked (nc_db nc)) nc (\<lambda>st.
       (case window_slot st ''current'' of
          JObj current \<Rightarrow>
           (let tid = text_of (jget current ''transaction_id'') in
            tryS (is_execution_released tid (nc_db nc)) nc (\<lambda>released.
              (Inr (), if released then enqueue tid nc else nc\<lparr>nc_deferred := List.insert tid (nc_deferred nc)\<rparr>)))
        | _ \<Rightarrow> (Inr (), nc)))"

end
