(* ===== verification/NetworkExecutionProps.thy ===== *)
theory NetworkExecutionProps
  imports NetworkExecution "HOL-Library.Sublist"
begin

text \<open>
  The worker: every transaction it takes ends, whatever NetworkManager answers, and an outcome that
  reports success has been earned, whatever the database does.
\<close>

section \<open>What moving a transaction can raise\<close>

lemma raises_in_set [simp]: "TypeError \<in> S \<Longrightarrow> raises_only S (in_set v ss)"
  by (simp add: in_set_def)

lemma raises_reject [intro!]: "raises_only S b \<Longrightarrow> raises_only S k \<Longrightarrow> raises_only S (rejectE b k)"
  by (cases b) (auto simp: rejectE_def)

lemma raises_desired: "raises_only {TypeError} (valid_desired_state v)"
proof -
  have "raises_only {TypeError} (valid_saved_wifi w)" for w
    by (cases w) (auto simp: valid_saved_wifi_def intro!: raises_only_conj)
  then show ?thesis by (cases v) (auto simp: valid_desired_state_def Let_def)
qed

lemma raises_error: "raises_only {TypeError} (valid_transaction_error v)"
  by (cases v) (auto simp: valid_transaction_error_def intro!: raises_only_conj)

lemma raises_transaction: "raises_only {TypeError} (valid_transaction v)"
  by (cases v) (auto simp: valid_transaction_def raises_desired raises_error intro!: raises_only_conj)

lemma raises_receipts: "raises_only {TypeError} (valid_receipts v e n)"
proof -
  have "raises_only {TypeError} (valid_receipt_entry e n p)" for p
    unfolding valid_receipt_entry_def
    by (cases p; rename_tac s en; case_tac en)
       (auto simp: raises_transaction split: json.split intro!: raises_only_conj)
  then show ?thesis by (cases v) (auto simp: valid_receipts_def intro!: raises_only_conj)
qed

lemma raises_state: "raises_only {TypeError} (valid_state v)"
proof -
  have slot: "raises_only {TypeError} (slot_transaction w)" for w
    by (simp add: slot_transaction_def raises_transaction)
  show ?thesis
    by (cases v) (auto simp: valid_state_def Let_def slot raises_desired raises_receipts split: json.split
        intro!: raises_only_conj)
qed

lemma raises_input: "raises_only {TypeError} (transition_input_bad r)"
  unfolding transition_input_bad_def
  by (intro raises_only_disj) (auto simp: raises_desired split: option.split)

lemma transition_refused:
  assumes "transition tid r Committed now db = (Inl e, db')" and "load_locked db = Inr st"
  shows "db' = db" and "worker_catches e"
proof -
  have "db' = db \<and> worker_catches e"
  proof (cases "transition_input_bad r")
    case (Inl e')
    then have "e' = TypeError" using raises_input [of r] by simp
    then show ?thesis using assms(1) Inl by (auto simp: transition_def)
  next
    case (Inr bad)
    have refused: "db' = db \<and> worker_catches e"
      if s: "store Committed now s x db = (Inl e, db')" for s and x :: json
    proof (cases "valid_state (JObj s)")
      case (Inl e')
      then have "e' = TypeError" using raises_state [of "JObj s"] by simp
      then show ?thesis using s Inl by (auto simp: store_def validate_def)
    next
      case (Inr ok)
      have "\<exists>v. db_get ''controller'' db = Inr (Some v)" using assms(2) by (auto simp: load_locked_iff)
      then obtain db1 where "db_put ''controller'' (JObj s) now False db = Inr db1"
        using state_documents.put_total by blast
      then show ?thesis using s Inr by (cases ok) (auto simp: store_def write_locked_def validate_def state_error_def)
    qed
    show ?thesis
    proof (cases "bad \<or> (\<forall>c. window_slot st ''current'' \<noteq> JObj c)")
      case True
      then show ?thesis using assms Inr by (cases bad) (auto simp: transition_def state_error_def split: json.splits)
    next
      case False
      then obtain c where c: "\<not> bad" "window_slot st ''current'' = JObj c" by auto
      show ?thesis
        using assms Inr c refused
        by (cases "jget c ''transaction_id'' = JStr tid") (auto simp: transition_def state_error_def)
    qed
  qed
  then show "db' = db" "worker_catches e" by simp_all
qed

section \<open>The way to the end\<close>

definition running_now :: "string \<Rightarrow> execution \<Rightarrow> bool" where
  "running_now tid x \<longleftrightarrow> (\<exists>st c. load_locked (nc_db x) = Inr st \<and> window_slot st ''current'' = JObj c \<and>
     jget c ''transaction_id'' = JStr tid)"

definition settled :: "string \<Rightarrow> string set \<Rightarrow> execution \<Rightarrow> bool" where
  "settled tid outcomes x \<longleftrightarrow> (\<exists>st l. load_locked (nc_db x) = Inr st \<and> window_slot st ''current'' = JNull \<and>
     window_slot st ''latest'' = JObj l \<and> jget l ''transaction_id'' = JStr tid \<and> jget l ''status'' \<in> JStr ` outcomes)"

definition well_behaved :: "exec_env \<Rightarrow> bool" where
  "well_behaved env \<longleftrightarrow> (\<forall>n. xe_outcome env n = Committed \<and> xe_now env n \<noteq> []) \<and>
     (\<forall>n d e. xe_rescue env n d = Inl e \<longrightarrow> is_network_error e) \<and>
     (\<forall>c d e. xe_activate env c d = Inl e \<longrightarrow> worker_catches e) \<and> (\<forall>c e. xe_adopt env c = Inl e \<longrightarrow> worker_catches e) \<and>
     (\<forall>e. xe_forget env = Inl e \<longrightarrow> worker_catches e) \<and> (\<forall>e. xe_lock env = Inl e \<longrightarrow> worker_catches e)"

text \<open>A step either goes on to \<open>Q\<close> or raises something the worker catches, with the transaction still running.\<close>

definition goes :: "string \<Rightarrow> (execution \<Rightarrow> bool) \<Rightarrow> 'a res \<times> execution \<Rightarrow> bool" where
  "goes tid Q m \<longleftrightarrow> (case m of (Inl e, x) \<Rightarrow> running_now tid x \<and> worker_catches e | (Inr _, x) \<Rightarrow> Q x)"

lemma goes_simps [simp]: "goes tid Q (Inr y, x) = Q x" "goes tid Q (Inl e, x) = (running_now tid x \<and> worker_catches e)"
  by (simp_all add: goes_def)

lemma goes_andS: "goes tid P m \<Longrightarrow> (\<And>x. P x \<Longrightarrow> goes tid Q (f x)) \<Longrightarrow> goes tid Q (andS m f)"
  by (cases m; cases "fst m") auto

lemma goes_tryS:
  "running_now tid x \<Longrightarrow> (\<And>e. m = Inl e \<Longrightarrow> worker_catches e) \<Longrightarrow> (\<And>y. m = Inr y \<Longrightarrow> goes tid Q (f y)) \<Longrightarrow> goes tid Q (tryS m x f)"
  by (cases m) auto

lemma running_frame [simp]:
  "running_now tid (x\<lparr>ex_deadline := d\<rparr>) = running_now tid x" "running_now tid (x\<lparr>ex_rescues := k\<rparr>) = running_now tid x"
  "running_now tid (x\<lparr>ex_calls := cl\<rparr>) = running_now tid x"
  "running_now tid (x\<lparr>nc_credentials := cs\<rparr>) = running_now tid x" "running_now tid (x\<lparr>nc_queue := q\<rparr>) = running_now tid x"
  by (simp_all add: running_now_def)

lemma running_called [simp]: "running_now tid (snd (called c answer x)) = running_now tid x"
  by (simp add: called_def)

lemma goes_called:
  "running_now tid x \<Longrightarrow> (\<And>e. answer = Inl e \<Longrightarrow> worker_catches e) \<Longrightarrow> goes tid (running_now tid) (called c answer x)"
  by (cases answer) (simp_all add: called_def)

lemma move_goes:
  assumes "well_behaved env" and "running_now tid x"
  shows "goes tid (if to_status r \<in> set terminal_statuses then settled tid {to_status r} else running_now tid) (move env tid r x)"
proof -
  define r' where "r' = r\<lparr>at_time := xe_now env (ex_moves x)\<rparr>"
  obtain st c where st: "load_locked (nc_db x) = Inr st" "window_slot st ''current'' = JObj c" "jget c ''transaction_id'' = JStr tid"
    using assms(2) by (auto simp: running_now_def)
  obtain res db where t: "transition tid r' Committed (xe_db_now env (ex_moves x)) (nc_db x) = (res, db)" by fastforce
  have m: "move env tid r x = (res, x\<lparr>nc_db := db, ex_moves := Suc (ex_moves x)\<rparr>)"
    using assms(1) t by (simp add: move_def r'_def well_behaved_def)
  show ?thesis
  proof (cases res)
    case (Inl e)
    then show ?thesis using transition_refused [OF t [unfolded Inl] st(1)] st m by (auto simp: running_now_def)
  next
    case (Inr moved)
    obtain c' where c': "window_slot st ''current'' = JObj c'"
      and l: "load_locked db = Inr (canon_obj (moved_state tid r' c' st))"
      using transition_success [OF t [unfolded Inr] st(1)] by metis
    have s: "to_status r' = to_status r" by (simp add: r'_def)
    show ?thesis
    proof (cases "to_status r \<in> set terminal_statuses")
      case True
      then show ?thesis
        using l c' st(2,3) by (simp add: m Inr settled_def moved_state_terminal s moved_transaction_fields)
    next
      case False
      then show ?thesis
        using l c' st(2,3) by (simp add: m Inr running_now_def moved_state_running s moved_transaction_fields)
    qed
  qed
qed

lemma move_on: "well_behaved env \<Longrightarrow> running_now tid x \<Longrightarrow> to_status r = ''running'' \<Longrightarrow> goes tid (running_now tid) (move env tid r x)"
  using move_goes [of env tid x r] by (simp add: terminal_statuses_def)

lemma move_end:
  assumes "well_behaved env" and "running_now tid x" and "to_status r \<in> outcomes" and "outcomes \<subseteq> set terminal_statuses"
  shows "goes tid (settled tid outcomes) (andS (move env tid r x) (\<lambda>x. (Inr (), x)))"
proof (rule goes_andS)
  show "goes tid (settled tid {to_status r}) (move env tid r x)" using move_goes [OF assms(1,2), of r] assms(3,4) by auto
  show "goes tid (settled tid outcomes) (Inr (), x)" if "settled tid {to_status r} x" for x
    using that assms(3) by (auto simp: settled_def)
qed

section \<open>Falling back always ends the transaction\<close>

lemma error_code_known: "error_code_of code \<in> set transaction_error_codes"
  by (simp add: error_code_of_def Let_def transaction_error_codes_def)

lemma error_message: "c \<in> set transaction_error_codes \<Longrightarrow> \<exists>m. map_of error_messages c = Some m \<and> m \<noteq> []"
  by (auto simp: error_messages_def transaction_error_codes_def)

lemma transaction_error_ok:
  "valid_transaction_error (JObj (transaction_error code)) = Inr True" "clean (transaction_error code)"
proof -
  obtain m where m: "map_of error_messages (error_code_of code) = Some m" "m \<noteq> []"
    using error_message [OF error_code_known] by blast
  show "valid_transaction_error (JObj (transaction_error code)) = Inr True"
    using m error_code_known by (simp add: valid_transaction_error_def transaction_error_def has_keys_def)
  show "clean (transaction_error code)"
  proof -
    have "casefold k \<notin> set forbidden_persisted_keys" if "k \<in> {''code'', ''message'', ''retryable''}" for k
      using that by (subst casefold_plain) (auto simp: plain_key_def is_upper_def forbidden_persisted_keys_def)
    then show ?thesis by (simp add: clean_def transaction_error_def del: casefold.simps)
  qed
qed

lemma move_succeeds:
  assumes "well_behaved env" and "running_now tid x" and "transition_input_bad (r\<lparr>at_time := ''t''\<rparr>) = Inr False"
    and "map_of stage_status (to_stage r) = Some (to_status r)" and "to_saved r = None" "to_verified r = None"
    and "to_desired r = None" and "to_deadline r = JNull"
    and "to_error r = None \<or> to_error r = Some (transaction_error code)"
  shows "\<exists>m x'. move env tid r x = (Inr m, x') \<and>
    (if to_status r \<in> set terminal_statuses then settled tid {to_status r} x' else running_now tid x') \<and> ex_rescues x' = ex_rescues x"
proof -
  define r' where "r' = r\<lparr>at_time := xe_now env (ex_moves x)\<rparr>"
  obtain st c where st: "load_locked (nc_db x) = Inr st" "window_slot st ''current'' = JObj c" "jget c ''transaction_id'' = JStr tid"
    using assms(2) by (auto simp: running_now_def)
  have now: "xe_now env (ex_moves x) \<noteq> []" "xe_outcome env (ex_moves x) = Committed" using assms(1) by (simp_all add: well_behaved_def)
  have i: "transition_input_bad r' = Inr False"
    using assms(3) now(1) by (simp add: transition_input_ok r'_def)
  have "jget st ''verified'' = JBool True \<longrightarrow> jget st ''saved'' = JBool True"
    using st(1) by (simp add: load_locked_iff valid_state_iff)
  then have c: "move_consistent r' st"
    using assms(4-9) transaction_error_ok
    by (auto simp: move_consistent_def moved_flags_consistent_def r'_def valid_transaction_error_def)
  obtain db' where "transition tid r' Committed (xe_db_now env (ex_moves x)) (nc_db x) =
      (Inr (JObj (moved_transaction r' (state_revision_of st + 1) c)), db')"
    using transition_commits [OF st i c] by blast
  then have m: "move env tid r x = (Inr (JObj (moved_transaction r' (state_revision_of st + 1) c)), x\<lparr>nc_db := db', ex_moves := Suc (ex_moves x)\<rparr>)"
    using now by (simp add: move_def r'_def)
  with move_goes [OF assms(1,2), of r] show ?thesis by (simp split: if_split_asm)
qed

lemma finish_fallback_ends:
  assumes "well_behaved env" and "running_now tid x"
  shows "\<exists>x'. finish_fallback env tid code recovered x = (Inr (), x') \<and>
    settled tid {if recovered then ''rescued'' else ''failed''} x'"
proof -
  define s where "s = (if recovered then ''rescued'' else ''failed'')"
  define r where "r = (plain_move s s)\<lparr>ap_validated := Some recovered, to_error := Some (transaction_error code),
            to_recovery := (if recovered then ''reconnect_rescue_ap'' else ''service_required'')\<rparr>"
  have f: "to_status r = s" "to_stage r = s" "to_saved r = None" "to_verified r = None" "to_desired r = None" "to_deadline r = JNull"
    "to_error r = None \<or> to_error r = Some (transaction_error code)" "s \<in> set terminal_statuses"
    "map_of stage_status s = Some s"
    by (simp_all add: r_def plain_move_def s_def terminal_statuses_def stage_status_def)
  have i: "transition_input_bad (r\<lparr>at_time := ''t''\<rparr>) = Inr False"
    by (simp add: transition_input_ok r_def s_def plain_move_def transaction_statuses_def terminal_statuses_def transaction_stages_def
        recovery_actions_def valid_deadline_def)
  obtain m x' where "move env tid r x = (Inr m, x')" "settled tid {s} x'"
    using move_succeeds [OF assms i _ f(3-7)] f by auto
  then show ?thesis by (simp add: finish_fallback_def r_def s_def)
qed

lemma fallback_ends:
  assumes "well_behaved env" and "running_now tid x"
  shows "\<exists>x'. fallback_transaction env tid code deadline x = (Inr (), x') \<and> settled tid {''rescued'', ''failed''} x'"
proof -
  have "transition_input_bad ((plain_move ''running'' ''falling_back'')\<lparr>at_time := ''t''\<rparr>) = Inr False"
    by (simp add: transition_input_ok plain_move_def transaction_statuses_def transaction_stages_def
        recovery_actions_def valid_deadline_def)
  from move_succeeds [OF assms this, of code] obtain m x1 where
    m: "move env tid (plain_move ''running'' ''falling_back'') x = (Inr m, x1)" "running_now tid x1"
    by (auto simp: plain_move_def stage_status_def terminal_statuses_def)
  let ?x2 = "x1\<lparr>ex_rescues := Suc (ex_rescues x1),
      ex_calls := ex_calls x1 @ [(RescueCall deadline, xe_rescue env (ex_rescues x1) deadline)]\<rparr>"
  have r: "running_now tid ?x2" using m(2) by simp
  obtain x3 x4 where e: "finish_fallback env tid code True ?x2 = (Inr (), x3)" "settled tid {''rescued''} x3"
    "finish_fallback env tid code False ?x2 = (Inr (), x4)" "settled tid {''failed''} x4"
    using finish_fallback_ends [OF assms(1) r, of code True] finish_fallback_ends [OF assms(1) r, of code False] by auto
  have w: "\<And>e. xe_rescue env (ex_rescues x1) deadline = Inl e \<Longrightarrow> is_network_error e"
    using assms(1) by (simp add: well_behaved_def)
  have s: "settled tid {''rescued'', ''failed''} x3" "settled tid {''rescued'', ''failed''} x4"
    using e by (auto simp: settled_def)
  show ?thesis
    using w e s by (cases "xe_rescue env (ex_rescues x1) deadline") (simp_all add: fallback_transaction_def m(1) rescue_def called_def)
qed

section \<open>Every execution ends\<close>

lemma settled_mono: "settled tid A x \<Longrightarrow> A \<subseteq> B \<Longrightarrow> settled tid B x"
  by (auto simp: settled_def)

lemma goes_mono: "goes tid (settled tid A) m \<Longrightarrow> A \<subseteq> B \<Longrightarrow> goes tid (settled tid B) m"
  by (cases m; cases "fst m") (auto intro: settled_mono)

lemma or_fall_back_goes:
  assumes "well_behaved env" and "goes tid (settled tid A) m" and "{''rescued'', ''failed''} \<subseteq> A"
  shows "goes tid (settled tid A) (or_fall_back env tid m)"
proof (cases m)
  case (Pair res x)
  show ?thesis
  proof (cases res)
    case (Inl e)
    then have "running_now tid x" "worker_catches e" using assms(2) Pair by simp_all
    moreover obtain x' where "fallback_transaction env tid (failure_code e) (ex_deadline x) x = (Inr (), x')"
      "settled tid {''rescued'', ''failed''} x'"
      using fallback_ends [OF assms(1) calculation(1)] by blast
    ultimately show ?thesis using settled_mono [OF _ assms(3)] Pair Inl by (simp add: or_fall_back_def)
  qed (use assms(2) Pair in \<open>simp add: or_fall_back_def\<close>)
qed

lemma run_candidate_goes:
  assumes "well_behaved env" and "running_now tid x"
  shows "goes tid (running_now tid) (run_candidate env tid w x)"
proof (cases "jget w ''candidate''")
  case (JObj c)
  have calls: "\<And>d e. xe_activate env c d = Inl e \<Longrightarrow> worker_catches e" "\<And>e. xe_adopt env c = Inl e \<Longrightarrow> worker_catches e"
    using assms(1) by (auto simp: well_behaved_def)
  show ?thesis
    unfolding run_candidate_def JObj Let_def json.case
    by (rule goes_andS [OF move_on [OF assms(1)]], simp add: assms(2), simp add: plain_move_def,
        rule goes_andS [OF goes_called], assumption, erule calls,
        simp add: network_error_def,
        intro impI goes_andS [OF move_on [OF assms(1)]] goes_called, assumption,
        simp add: plain_move_def, assumption, erule calls)
qed (use assms(2) in \<open>simp_all add: run_candidate_def network_error_def\<close>)

lemma run_rescue_goes:
  assumes "well_behaved env" and "running_now tid x"
  shows "goes tid (running_now tid) (run_rescue env tid x)"
proof -
  have r: "goes tid (running_now tid) (rescue env d x)" for d
  proof (cases "xe_rescue env (ex_rescues x) d")
    case (Inl e)
    then have "is_network_error e" using assms(1) by (simp add: well_behaved_def)
    then show ?thesis using assms(2) Inl by (cases e) (simp_all add: rescue_def called_def)
  qed (use assms(2) in \<open>simp add: rescue_def called_def\<close>)
  show ?thesis
    unfolding run_rescue_def
    by (rule goes_andS [OF r], rule goes_andS [OF move_on [OF assms(1)]], assumption, simp add: plain_move_def, simp)
qed

lemma run_work_goes:
  assumes "well_behaved env" and "running_now tid x"
  shows "goes tid (settled tid {''committed'', ''rescued''}) (run_work env tid w wanted x)"
proof -
  have ends: "goes tid (settled tid {''committed'', ''rescued''}) (andS (move env tid r x) (\<lambda>x. (Inr (), x)))"
    if "running_now tid x" "to_status r \<in> {''committed'', ''rescued''}" for r x
    by (rule move_end [OF assms(1) that]) (auto simp: terminal_statuses_def)
  have fb: "goes tid (settled tid {''committed'', ''rescued''}) (run_fallback env tid w wanted x)" if "running_now tid x" for x
    unfolding run_fallback_def Let_def
    by (rule goes_andS [OF move_on [OF assms(1) that]], simp add: plain_move_def, rule ends, assumption, simp add: plain_move_def)
  have last: "goes tid (settled tid {''committed'', ''rescued''}) (andS (if eq_str kind ''candidate'' then run_candidate env tid w x
                 else if eq_str kind ''rescue'' then (Inr (), x) else (Inl (network_error ''candidate_invalid''), x))
                 (\<lambda>x. andS (move env tid (commit_move kind w wanted) x) (\<lambda>x. (Inr (), x))))" if "running_now tid x" for kind x
  proof (rule goes_andS [where P = "running_now tid"])
    show "goes tid (running_now tid) (if eq_str kind ''candidate'' then run_candidate env tid w x
                 else if eq_str kind ''rescue'' then (Inr (), x) else (Inl (network_error ''candidate_invalid''), x))"
      using that run_candidate_goes [OF assms(1) that] by (simp add: network_error_def)
  qed (rule ends, assumption, simp add: commit_move_def plain_move_def Let_def)
  show ?thesis
    unfolding run_work_def Let_def
  proof (rule goes_tryS [OF assms(2)])
    fix e assume "rescue_deadline env w = Inl e"
    then show "worker_catches e"
      by (auto simp: rescue_deadline_def state_error_def guardE_def split: json.splits if_splits)
  next
    fix d
    show "goes tid (settled tid {''committed'', ''rescued''})
       (andS (move env tid ((plain_move ''running'' ''prepared'')\<lparr>to_desired := Some wanted, to_publish := True\<rparr>)
             (x\<lparr>ex_deadline := d\<rparr>)) (\<lambda>x. tryS (in_set (jget w ''kind'') [''fallback'', ''rescue'']) x (\<lambda>rescuing.
        andS (if rescuing then run_rescue env tid x else (Inr (), x)) (\<lambda>x.
          if eq_str (jget w ''kind'') ''fallback'' then run_fallback env tid w wanted x
          else
           andS (if eq_str (jget w ''kind'') ''candidate'' then run_candidate env tid w x
                 else if eq_str (jget w ''kind'') ''rescue'' then (Inr (), x)
                 else (Inl (network_error ''candidate_invalid''), x)) (\<lambda>x.
           andS (move env tid (commit_move (jget w ''kind'') w wanted) x) (\<lambda>x. (Inr (), x)))))))"
    proof (rule goes_andS [OF move_on [OF assms(1)]])
      fix y assume y: "running_now tid y"
      show "goes tid (settled tid {''committed'', ''rescued''}) (tryS (in_set (jget w ''kind'') [''fallback'', ''rescue'']) y (\<lambda>rescuing.
        andS (if rescuing then run_rescue env tid y else (Inr (), y)) (\<lambda>x.
          if eq_str (jget w ''kind'') ''fallback'' then run_fallback env tid w wanted x
          else
           andS (if eq_str (jget w ''kind'') ''candidate'' then run_candidate env tid w x
                 else if eq_str (jget w ''kind'') ''rescue'' then (Inr (), x)
                 else (Inl (network_error ''candidate_invalid''), x)) (\<lambda>x.
           andS (move env tid (commit_move (jget w ''kind'') w wanted) x) (\<lambda>x. (Inr (), x))))))"
      proof (rule goes_tryS [OF y])
        show "worker_catches e" if "in_set (jget w ''kind'') [''fallback'', ''rescue''] = Inl e" for e
          using that by (auto simp: in_set_def split: if_splits)
      qed (rule goes_andS [where P = "running_now tid"], use y run_rescue_goes [OF assms(1) y] in simp, simp add: fb last)
    qed (use assms(2) in \<open>simp_all add: plain_move_def\<close>)
  qed
qed

lemma execute_forget_goes:
  assumes "well_behaved env" and "running_now tid x"
  shows "goes tid (settled tid (set terminal_statuses)) (execute_forget env tid w x)"
  unfolding execute_forget_def Let_def
proof (rule or_fall_back_goes [OF assms(1)])
  have call: "\<And>e. xe_forget env = Inl e \<Longrightarrow> worker_catches e" using assms(1) by (simp add: well_behaved_def)
  show "goes tid (settled tid (set terminal_statuses))
     (andS (move env tid (plain_move ''running'' ''forgetting'') (x\<lparr>ex_deadline := None\<rparr>)) (\<lambda>x.
        andS (called ForgetCall (xe_forget env) x) (\<lambda>x.
        andS (move env tid ((plain_move ''committed'' ''forgotten'')
            \<lparr>ap_validated := Some True, to_desired := Some (case jget w ''desired'' of JObj d \<Rightarrow> d | _ \<Rightarrow> hotspot_desired),
             to_publish := True, to_recovery := ''reconnect_rescue_ap'',
             to_saved := Some False, to_verified := Some False, retain_work := False, clear_all_work := True\<rparr>)
            (x\<lparr>nc_credentials := clear (nc_credentials x)\<rparr>)) (\<lambda>x. (Inr (), x)))))"
    by (rule goes_andS [OF move_on [OF assms(1)]], simp add: assms(2), simp add: plain_move_def,
        rule goes_andS [OF goes_called], assumption, erule call, rule move_end [OF assms(1)], simp,
        simp add: plain_move_def terminal_statuses_def, simp add: terminal_statuses_def)
qed (simp add: terminal_statuses_def)

lemma execute_goes:
  assumes "well_behaved env" and "running_now tid x"
  shows "goes tid (settled tid (set terminal_statuses)) (execute env tid x)"
proof -
  obtain st where st: "load_locked (nc_db x) = Inr st" using assms(2) by (auto simp: running_now_def)
  have run: "goes tid (settled tid (set terminal_statuses)) (or_fall_back env tid (run_work env tid w wanted (x\<lparr>ex_deadline := None\<rparr>)))"
    for w wanted
  proof (rule or_fall_back_goes [OF assms(1)])
    have "goes tid (settled tid {''committed'', ''rescued''}) (run_work env tid w wanted (x\<lparr>ex_deadline := None\<rparr>))"
      by (rule run_work_goes [OF assms(1)]) (simp add: assms(2))
    then show "goes tid (settled tid (set terminal_statuses)) (run_work env tid w wanted (x\<lparr>ex_deadline := None\<rparr>))"
      by (rule goes_mono) (simp add: terminal_statuses_def)
  qed (simp add: terminal_statuses_def)
  have locked: "goes tid (settled tid (set terminal_statuses)) (execute_locked env tid x)"
    unfolding execute_locked_def Let_def
  proof (rule goes_tryS [OF assms(2)])
    show "worker_catches e" if "work_for tid (nc_db x) = Inl e" for e
      using that st by (auto simp: work_for_def state_error_def split: json.splits)
  next
    fix v
    show "goes tid (settled tid (set terminal_statuses))
        (if eq_str (jget (obj_or_empty v) ''kind'') ''forget'' then execute_forget env tid (obj_or_empty v) x
         else tryS (case jget (obj_or_empty v) ''desired'' of
                 JObj d \<Rightarrow> Inr d
               | _ \<Rightarrow> bindE (load_locked (nc_db x)) (\<lambda>st. Inr (obj_or_empty (jget st ''desired'')))) x (\<lambda>wanted.
           or_fall_back env tid (run_work env tid (obj_or_empty v) wanted (x\<lparr>ex_deadline := None\<rparr>))))"
      using run st execute_forget_goes [OF assms] by (cases "jget (obj_or_empty v) ''desired''") simp_all
  qed
  show ?thesis
    unfolding execute_def
    by (rule goes_tryS [OF assms(2) _ locked]) (use assms(1) in \<open>auto simp: well_behaved_def\<close>)
qed

lemma turn_ends:
  assumes "well_behaved env" and "nc_queue x = tid # rest" and "running_now tid x"
  shows "\<exists>x'. worker_turn env x = (Inr (), x') \<and> settled tid (set terminal_statuses) x' \<and> tid \<notin> set (nc_queued x')"
proof -
  have r: "running_now tid (x\<lparr>nc_queue := rest\<rparr>)" using assms(3) by simp
  obtain res y where e: "execute env tid (x\<lparr>nc_queue := rest\<rparr>) = (res, y)" by fastforce
  have g: "goes tid (settled tid (set terminal_statuses)) (res, y)" using execute_goes [OF assms(1) r] e by simp
  have frame: "settled tid A (z\<lparr>nc_queued := q, nc_pending := k\<rparr>) = settled tid A z" for A z q k
    by (simp add: settled_def)
  show ?thesis
  proof (cases res)
    case (Inl err)
    then have y: "running_now tid y" "worker_catches err" using g by simp_all
    obtain x' where "fallback_transaction env tid ''network_manager_unavailable'' None y = (Inr (), x')"
      "settled tid {''rescued'', ''failed''} x'"
      using fallback_ends [OF assms(1) y(1)] by blast
    then show ?thesis using y(2) Inl e settled_mono [of tid _ x' "set terminal_statuses"]
      by (simp add: worker_turn_def assms(2) frame terminal_statuses_def)
  next
    case (Inr u)
    then show ?thesis using g e by (simp add: worker_turn_def assms(2) frame)
  qed
qed

section \<open>Reported outcomes are earned\<close>

text \<open>What must have happened before a transaction with the work \<open>w\<close> may be reported: \<open>made\<close> are the calls
  of NetworkManager that a turn has made, with their answers.\<close>

definition rescue_answered :: "(manager_call \<times> unit res) list \<Rightarrow> bool" where
  "rescue_answered made \<longleftrightarrow> (\<exists>deadline. (RescueCall deadline, Inr ()) \<in> set made)"

definition earned :: "exec_env \<Rightarrow> jobject \<Rightarrow> (manager_call \<times> unit res) list \<Rightarrow> bool" where
  "earned env w made \<longleftrightarrow>
     jget w ''kind'' = JStr ''forget'' \<and> (ForgetCall, Inr ()) \<in> set made \<or>
     jget w ''kind'' = JStr ''rescue'' \<and> rescue_answered made \<or>
     jget w ''kind'' = JStr ''candidate'' \<and>
       (\<exists>c. jget w ''candidate'' = JObj c \<and> xe_clock env 1 < xe_clock env 0 + 10000000000 \<and>
            subseq [(ActivateCall c (xe_clock env 0 + 10000000000), Inr ()), (AdoptCall c, Inr ())] made)"

text \<open>The calls of a state since there were \<open>n\<close> of them.\<close>

definition since :: "nat \<Rightarrow> execution \<Rightarrow> (manager_call \<times> unit res) list" where
  "since n x = List.drop n (ex_calls x)"

lemma rescue_answered_append [intro]: "rescue_answered made \<Longrightarrow> rescue_answered (made @ later)"
  by (auto simp: rescue_answered_def)

lemma earned_append [intro]: "earned env w made \<Longrightarrow> earned env w (made @ later)"
  by (auto simp: earned_def intro: list_emb_append2)

text \<open>The latest transaction, if it is \<open>tid\<close>, reports nothing that did not happen in the turn.\<close>

definition truthful :: "exec_env \<Rightarrow> jobject \<Rightarrow> string \<Rightarrow> nat \<Rightarrow> execution \<Rightarrow> bool" where
  "truthful env w tid n x \<longleftrightarrow> n \<le> length (ex_calls x) \<and> (\<forall>st l. load_locked (nc_db x) = Inr st \<longrightarrow> window_slot st ''latest'' = JObj l \<longrightarrow>
     jget l ''transaction_id'' = JStr tid \<longrightarrow>
     (jget l ''status'' = JStr ''committed'' \<longrightarrow> earned env w (since n x)) \<and>
     (jget l ''status'' = JStr ''rescued'' \<longrightarrow> rescue_answered (since n x)))"

lemma since_frame [simp]:
  "since n (x\<lparr>ex_deadline := d\<rparr>) = since n x" "since n (x\<lparr>ex_rescues := k\<rparr>) = since n x" "since n (x\<lparr>ex_moves := k\<rparr>) = since n x"
  "since n (x\<lparr>nc_credentials := cs\<rparr>) = since n x" "since n (x\<lparr>nc_queue := q\<rparr>) = since n x" "since n (x\<lparr>nc_db := db\<rparr>) = since n x"
  "since n (x\<lparr>nc_queued := q\<rparr>) = since n x" "since n (x\<lparr>nc_pending := p\<rparr>) = since n x"
  by (simp_all add: since_def)

lemma truthful_frame [simp]:
  "truthful env w tid n (x\<lparr>ex_deadline := d\<rparr>) = truthful env w tid n x" "truthful env w tid n (x\<lparr>ex_rescues := k\<rparr>) = truthful env w tid n x"
  "truthful env w tid n (x\<lparr>nc_credentials := cs\<rparr>) = truthful env w tid n x" "truthful env w tid n (x\<lparr>nc_queue := q\<rparr>) = truthful env w tid n x"
  by (simp_all add: truthful_def)

lemma since_called: "n \<le> length (ex_calls x) \<Longrightarrow> since n (snd (called c a x)) = since n x @ [(c, a)]"
  by (simp add: since_def called_def)

lemma called_truthful: "truthful env w tid n x \<Longrightarrow> truthful env w tid n (snd (called c a x))"
  by (auto simp: truthful_def since_called) (auto simp: called_def)

lemma move_calls [simp]: "ex_calls (snd (move env tid r x)) = ex_calls x" "since n (snd (move env tid r x)) = since n x"
  by (simp_all add: move_def split: prod.split)

lemma move_result: "move env tid r x = (y, s) \<Longrightarrow> ex_calls s = ex_calls x" "move env tid r x = (y, s) \<Longrightarrow> since n s = since n x"
  by (metis move_calls snd_conv)+

lemma transition_loads:
  assumes "transition tid r outcome now db = (res, db')"
  shows "db' = db \<or> (\<exists>st c. load_locked db = Inr st \<and> load_locked db' = Inr (canon_obj (moved_state tid r c st)))"
  using assms by (rule transition_effect) (auto elim!: store_database)

lemma move_truthful:
  assumes "truthful env w tid n x" and "to_status r = ''committed'' \<Longrightarrow> earned env w (since n x)"
    and "to_status r = ''rescued'' \<Longrightarrow> rescue_answered (since n x)"
  shows "truthful env w tid n (snd (move env tid r x))"
proof -
  define r' where "r' = r\<lparr>at_time := xe_now env (ex_moves x)\<rparr>"
  obtain res db where t: "transition tid r' (xe_outcome env (ex_moves x)) (xe_db_now env (ex_moves x)) (nc_db x) = (res, db)" by fastforce
  have m: "snd (move env tid r x) = x\<lparr>nc_db := db, ex_moves := Suc (ex_moves x)\<rparr>" using t by (simp add: move_def r'_def)
  have s: "to_status r' = to_status r" by (simp add: r'_def)
  from transition_loads [OF t] consider "db = nc_db x" |
    st c where "load_locked (nc_db x) = Inr st" "load_locked db = Inr (canon_obj (moved_state tid r' c st))" by blast
  then show ?thesis
  proof cases
    case 1
    then show ?thesis using assms(1) by (simp add: m truthful_def)
  next
    case (2 st c)
    show ?thesis
    proof (cases "to_status r \<in> set terminal_statuses")
      case True
      then have "window_slot (canon_obj (moved_state tid r' c st)) ''latest'' =
          canon (JObj (moved_transaction r' (int_value (jget st ''source_revision'') + 1) c))"
        by (simp add: moved_state_terminal s)
      then show ?thesis using 2(2) assms by (auto simp: m truthful_def moved_transaction_fields s)
    next
      case False
      then have l: "window_slot (canon_obj (moved_state tid r' c st)) ''latest'' = canon (window_slot st ''latest'')"
        by (simp add: moved_state_running s)
      show ?thesis
      proof (cases "window_slot st ''latest''")
        case (JObj l0)
        then show ?thesis using 2 assms(1) l by (simp add: m truthful_def)
      qed (use 2 l assms(1) in \<open>simp_all add: m truthful_def\<close>)
    qed
  qed
qed

lemma andS_snd: "P (snd m) \<Longrightarrow> (\<And>y s. m = (Inr y, s) \<Longrightarrow> P s \<Longrightarrow> P (snd (f s))) \<Longrightarrow> P (snd (andS m f))"
  by (cases m; cases "fst m") auto

lemma catchS_snd: "P (snd m) \<Longrightarrow> (\<And>e s. P s \<Longrightarrow> P (snd (h e s))) \<Longrightarrow> P (snd (catchS c m h))"
  by (cases m; cases "fst m") auto

lemma tryS_snd: "P s \<Longrightarrow> (\<And>y. m = Inr y \<Longrightarrow> P (snd (f y))) \<Longrightarrow> P (snd (tryS m s f))"
  by (cases m) auto

lemmas truthful_steps = andS_snd [where P = "truthful env w tid n" for env w tid n] catchS_snd [where P = "truthful env w tid n" for env w tid n]
  tryS_snd [where P = "truthful env w tid n" for env w tid n] move_truthful

lemma rescue_truthful: "truthful env w tid n x \<Longrightarrow> truthful env w tid n (snd (rescue env d x))"
  unfolding rescue_def by (intro called_truthful) simp

lemma rescue_success: "rescue env d x = (Inr u, y) \<Longrightarrow> n \<le> length (ex_calls x) \<Longrightarrow> rescue_answered (since n y)"
  by (auto simp: rescue_def called_def since_def rescue_answered_def)

lemma truthful_calls: "truthful env w tid n x \<Longrightarrow> n \<le> length (ex_calls x)"
  by (simp add: truthful_def)

lemma finish_fallback_truthful:
  "truthful env w tid n x \<Longrightarrow> (recovered \<Longrightarrow> rescue_answered (since n x)) \<Longrightarrow>
    truthful env w tid n (snd (finish_fallback env tid code recovered x))"
  unfolding finish_fallback_def
  by (intro truthful_steps) (auto simp: plain_move_def split: if_splits)

lemma fallback_truthful:
  assumes "truthful env w tid n x"
  shows "truthful env w tid n (snd (fallback_transaction env tid code deadline x))"
  unfolding fallback_transaction_def
proof (rule truthful_steps(1))
  show "truthful env w tid n (snd (catchS is_state_error (andS (move env tid (plain_move ''running'' ''falling_back'') x) (\<lambda>x. (Inr (), x)))
             (\<lambda>_ x. (Inr (), x))))"
    by (intro truthful_steps assms) (simp_all add: plain_move_def)
next
  fix y assume y: "truthful env w tid n y"
  obtain a z where r: "rescue env deadline y = (a, z)" by fastforce
  have z: "truthful env w tid n z" using rescue_truthful [OF y, of deadline] r by simp
  show "truthful env w tid n (snd (case rescue env deadline y of
              (Inr _, x1) \<Rightarrow> finish_fallback env tid code True x1
            | (Inl e, x1) \<Rightarrow> if is_network_error e then finish_fallback env tid code False x1 else (Inl e, x1)))"
    using z finish_fallback_truthful [OF z, of _ code] rescue_success [OF _ truthful_calls [OF y]] r
    by (cases a) auto
qed

lemma or_fall_back_truthful: "truthful env w tid n (snd m) \<Longrightarrow> truthful env w tid n (snd (or_fall_back env tid m))"
  unfolding or_fall_back_def by (rule truthful_steps(2), assumption, rule fallback_truthful)

lemma called_Inr: "called c a x = (Inr y, s) \<longleftrightarrow> a = Inr y \<and> s = x\<lparr>ex_calls := ex_calls x @ [(c, a)]\<rparr>"
  by (auto simp: called_def)

lemma run_candidate_earned:
  assumes "run_candidate env tid w x = (Inr y, s)" and "jget w ''kind'' = JStr ''candidate''" and "n \<le> length (ex_calls x)"
  shows "earned env w (since n s)"
proof (cases "jget w ''candidate''")
  case (JObj c)
  define d where "d = xe_clock env 0 + 10000000000"
  define r where "r = plain_move ''running'' ''verifying''\<lparr>ap_validated := Some False,
                   to_deadline := deadline_object d (JFloat (Fin (remaining_seconds env d (xe_clock env 1))))\<rparr>"
  obtain u x1 where a: "move env tid (plain_move ''running'' ''activating''
               \<lparr>ap_validated := Some False, to_deadline := deadline_object d (JInt 10)\<rparr>)
               (x\<lparr>ex_deadline := Some (d + 5000000000)\<rparr>) = (Inr u, x1)"
    "andS (called (ActivateCall c d) (xe_activate env c d) x1) (\<lambda>x.
        if d \<le> xe_clock env 1 then (Inl (network_error ''network_timeout''), x)
        else andS (move env tid r x) (\<lambda>x. called (AdoptCall c) (xe_adopt env c) x)) = (Inr y, s)"
    using assms(1) unfolding run_candidate_def JObj Let_def json.case d_def [symmetric] r_def [symmetric] andS_Inr by blast
  define x2 where "x2 = x1\<lparr>ex_calls := ex_calls x1 @ [(ActivateCall c d, Inr ())]\<rparr>"
  have b: "xe_clock env 1 < d" "andS (move env tid r x2) (\<lambda>x. called (AdoptCall c) (xe_adopt env c) x) = (Inr y, s)"
    using a(2) by (auto simp: andS_Inr called_Inr x2_def split: if_split_asm)
  then obtain x3 where c: "ex_calls x3 = ex_calls x2" "s = x3\<lparr>ex_calls := ex_calls x3 @ [(AdoptCall c, Inr ())]\<rparr>"
    by (auto simp: andS_Inr called_Inr dest: move_result)
  have "ex_calls x1 = ex_calls x" using move_result(1) [OF a(1)] by simp
  then have "since n s = since n x @ [(ActivateCall c d, Inr ()), (AdoptCall c, Inr ())]"
    using c assms(3) by (simp add: since_def x2_def)
  then show ?thesis using assms(2) JObj b(1) by (auto simp: earned_def d_def intro: list_emb_append2)
qed (use assms(1) in \<open>simp_all add: run_candidate_def\<close>)

lemma run_candidate_truthful: "truthful env w tid n x \<Longrightarrow> truthful env w tid n (snd (run_candidate env tid v x))"
  unfolding run_candidate_def Let_def
  by (cases "jget v ''candidate''")
     (simp_all, (intro truthful_steps called_truthful impI conjI; (simp add: plain_move_def)?; assumption?)+)

lemma run_rescue_truthful: "truthful env w tid n x \<Longrightarrow> truthful env w tid n (snd (run_rescue env tid x))"
  unfolding run_rescue_def
  by (intro truthful_steps rescue_truthful) (simp_all add: plain_move_def)

lemma run_rescue_answered:
  assumes "run_rescue env tid x = (Inr y, s)" and "n \<le> length (ex_calls x)"
  shows "rescue_answered (since n s)"
proof -
  obtain u s1 v where "rescue env (ex_deadline x) x = (Inr u, s1)"
    and m: "move env tid (plain_move ''running'' ''ap_ready''\<lparr>ap_validated := Some True\<rparr>) s1 = (Inr v, s)"
    using assms(1) by (auto simp: run_rescue_def andS_Inr)
  then have "rescue_answered (since n s1)" using rescue_success assms(2) by blast
  then show ?thesis by (simp add: move_result(2) [OF m])
qed

lemma run_fallback_truthful:
  "truthful env w tid n x \<Longrightarrow> rescue_answered (since n x) \<Longrightarrow> truthful env w tid n (snd (run_fallback env tid v wanted x))"
  unfolding run_fallback_def Let_def
  by (intro truthful_steps) (auto simp: plain_move_def dest: move_result(2) [where n = n])

lemma run_work_truthful:
  assumes "truthful env w tid n x"
  shows "truthful env w tid n (snd (run_work env tid w wanted x))"
proof -
  let ?kind = "jget w ''kind''"
  have commit: "truthful env w tid n (snd (andS (if eq_str ?kind ''candidate'' then run_candidate env tid w y
                 else if eq_str ?kind ''rescue'' then (Inr (), y) else (Inl (network_error ''candidate_invalid''), y))
                 (\<lambda>x. andS (move env tid (commit_move ?kind w wanted) x) (\<lambda>x. (Inr (), x)))))"
    if y: "truthful env w tid n y" and r: "eq_str ?kind ''rescue'' \<Longrightarrow> rescue_answered (since n y)" for y
  proof (rule truthful_steps(1))
    show "truthful env w tid n (snd (if eq_str ?kind ''candidate'' then run_candidate env tid w y
                 else if eq_str ?kind ''rescue'' then (Inr (), y) else (Inl (network_error ''candidate_invalid''), y)))"
      using y run_candidate_truthful [OF y] by simp
  next
    fix u s
    assume m: "(if eq_str ?kind ''candidate'' then run_candidate env tid w y
                 else if eq_str ?kind ''rescue'' then (Inr (), y) else (Inl (network_error ''candidate_invalid''), y)) = (Inr u, s)"
      and s: "truthful env w tid n s"
    have "earned env w (since n s)"
    proof (cases "eq_str ?kind ''candidate''")
      case True
      then show ?thesis using m run_candidate_earned [OF _ _ truthful_calls [OF y]] by (simp add: eq_str_def)
    next
      case False
      then have "eq_str ?kind ''rescue''" "s = y" using m by (simp_all split: if_split_asm)
      then show ?thesis using r by (simp add: earned_def eq_str_def)
    qed
    then show "truthful env w tid n (snd (andS (move env tid (commit_move ?kind w wanted) s) (\<lambda>x. (Inr (), x))))"
      by (intro truthful_steps s) (simp_all add: commit_move_def plain_move_def Let_def)
  qed
  show ?thesis
    unfolding run_work_def Let_def
  proof (rule truthful_steps(3) [OF assms], rule truthful_steps(1), goal_cases)
    case (1 d)
    show ?case
      by (rule move_truthful) (simp_all add: assms plain_move_def)
  next
    case (2 d y s)
    then have s: "truthful env w tid n s" by simp
    show ?case
    proof (rule truthful_steps(3) [OF s])
    fix rescuing
    assume k: "in_set ?kind [''fallback'', ''rescue''] = Inr rescuing"
    show "truthful env w tid n (snd (andS (if rescuing then run_rescue env tid s else (Inr (), s)) (\<lambda>x.
          if eq_str ?kind ''fallback'' then run_fallback env tid w wanted x
          else
           andS (if eq_str ?kind ''candidate'' then run_candidate env tid w x
                 else if eq_str ?kind ''rescue'' then (Inr (), x)
                 else (Inl (network_error ''candidate_invalid''), x)) (\<lambda>x.
           andS (move env tid (commit_move ?kind w wanted) x) (\<lambda>x. (Inr (), x))))))"
    proof (rule truthful_steps(1))
      show "truthful env w tid n (snd (if rescuing then run_rescue env tid s else (Inr (), s)))"
        using s run_rescue_truthful [OF s] by simp
    next
      fix u z
      assume z: "(if rescuing then run_rescue env tid s else (Inr (), s)) = (Inr u, z)" "truthful env w tid n z"
      have r: "rescue_answered (since n z)" if "?kind \<in> {JStr ''fallback'', JStr ''rescue''}"
      proof -
        have rescuing using k that by auto
        then show ?thesis using z(1) run_rescue_answered [OF _ truthful_calls [OF s], of env tid u z] by simp
      qed
      show "truthful env w tid n (snd (if eq_str ?kind ''fallback'' then run_fallback env tid w wanted z
          else
           andS (if eq_str ?kind ''candidate'' then run_candidate env tid w z
                 else if eq_str ?kind ''rescue'' then (Inr (), z)
                 else (Inl (network_error ''candidate_invalid''), z)) (\<lambda>x.
           andS (move env tid (commit_move ?kind w wanted) x) (\<lambda>x. (Inr (), x)))))"
        using commit [OF z(2)] run_fallback_truthful [OF z(2)] r by (simp add: eq_str_def)
    qed
    qed
  qed
qed

lemma execute_forget_truthful:
  assumes "truthful env w tid n x" and "jget w ''kind'' = JStr ''forget''"
  shows "truthful env w tid n (snd (execute_forget env tid w x))"
  unfolding execute_forget_def Let_def
proof (rule or_fall_back_truthful, rule truthful_steps(1), goal_cases)
  case 1
  show ?case by (rule move_truthful) (simp_all add: assms(1) plain_move_def)
next
  case (2 y s)
  then have s: "truthful env w tid n s" by simp
  show ?case
  proof (rule truthful_steps(1) [OF called_truthful [OF s]])
    fix u z
    assume "called ForgetCall (xe_forget env) s = (Inr u, z)" and z: "truthful env w tid n z"
    then have "(ForgetCall, Inr ()) \<in> set (since n z)"
      using truthful_calls [OF s] by (auto simp: called_Inr since_def)
    then show "truthful env w tid n (snd (andS (move env tid (plain_move ''committed'' ''forgotten''
            \<lparr>ap_validated := Some True, to_desired := Some (case jget w ''desired'' of JObj d \<Rightarrow> d | _ \<Rightarrow> hotspot_desired),
             to_publish := True, to_recovery := ''reconnect_rescue_ap'',
             to_saved := Some False, to_verified := Some False, retain_work := False, clear_all_work := True\<rparr>)
            (z\<lparr>nc_credentials := clear (nc_credentials z)\<rparr>)) (\<lambda>x. (Inr (), x))))"
      using assms(2) z by (intro truthful_steps) (simp_all add: plain_move_def earned_def)
  qed
qed

lemma turn_truthful:
  assumes "truthful env w tid n x" and "nc_queue x = tid # rest" and "work_for tid (nc_db x) = Inr (JObj w)"
  shows "truthful env w tid n (snd (worker_turn env x))"
proof -
  have "truthful env w tid n (snd (execute_locked env tid (x\<lparr>nc_queue := rest\<rparr>)))"
    unfolding execute_locked_def Let_def
    using assms(1,3) execute_forget_truthful
    by (auto simp: eq_str_def intro!: truthful_steps(3) or_fall_back_truthful run_work_truthful)
  then have "truthful env w tid n (snd (catchS worker_catches (execute env tid (x\<lparr>nc_queue := rest\<rparr>))
                 (\<lambda>_ x. fallback_transaction env tid ''network_manager_unavailable'' None x)))"
    unfolding execute_def using assms(1)
    by (intro truthful_steps(2,3) fallback_truthful) simp_all
  then show ?thesis
    by (cases "catchS worker_catches (execute env tid (x\<lparr>nc_queue := rest\<rparr>))
                 (\<lambda>_ x. fallback_transaction env tid ''network_manager_unavailable'' None x)")
       (simp add: worker_turn_def assms(2) truthful_def)
qed

section \<open>Properties\<close>


text \<open>C6: Reported outcomes are earned by calls of the same turn, whatever fails and however the writes of the database
  behave: each may commit, fail before its commit or fail after it, with an operating-system error or with an
  error of sqlite, which the worker does not catch.  When a turn of the worker leaves its transaction as the
  latest one and it was not before, the status \<open>committed\<close> means that NetworkManager did the work in calls that
  this turn made: it forgot the profiles, or the rescue access point answered, or it activated this candidate
  with the deadline ten seconds after the start, which had not passed when it answered, and adopted it
  afterwards; and the status \<open>rescued\<close> means that a call of this turn for the rescue access point succeeded.\<close>

theorem outcomes_are_earned:
  assumes "nc_queue x = tid # rest" and "work_for tid (nc_db x) = Inr (JObj w)"
    and "load_locked (nc_db x) = Inr st" and "jget (obj_or_empty (window_slot st ''latest'')) ''transaction_id'' \<noteq> JStr tid"
    and "worker_turn env x = (res, x')" and "load_locked (nc_db x') = Inr st'" and "window_slot st' ''latest'' = JObj l"
    and "jget l ''transaction_id'' = JStr tid"
  shows "(jget l ''status'' = JStr ''committed'' \<longrightarrow> earned env w (since (length (ex_calls x)) x')) \<and>
    (jget l ''status'' = JStr ''rescued'' \<longrightarrow> rescue_answered (since (length (ex_calls x)) x'))"
proof -
  have "truthful env w tid (length (ex_calls x)) x" using assms(3,4) by (auto simp: truthful_def)
  from turn_truthful [OF this assms(1,2)] have "truthful env w tid (length (ex_calls x)) x'" by (simp add: assms(5))
  then show ?thesis using assms(6-8) by (simp add: truthful_def)
qed

text \<open>A world in which every call to NetworkManager fails.\<close>

definition dead_network :: exec_env where
  "dead_network = \<lparr>xe_now = (\<lambda>_. ''2026-01-01T00:00:09Z''), xe_outcome = (\<lambda>_. Committed), xe_db_now = (\<lambda>_. ''t''), xe_lock = Inr (),
     xe_boot = [], xe_clock = int, xe_round = (\<lambda>q. q), xe_rescue = (\<lambda>_ _. Inl (network_error ''rescue_failed'')),
     xe_activate = (\<lambda>_ _. Inl (network_error ''wifi_auth_failed'')), xe_adopt = (\<lambda>_. Inl (network_error ''x'')),
     xe_forget = Inl (network_error ''x'')\<rparr>"

definition waiting :: "database \<Rightarrow> execution" where
  "waiting db = \<lparr>nc_db = db, nc_credentials = ex_store, nc_clock = initial_sync, nc_candidates = [], nc_closed = False,
     nc_defers = False, nc_deferred = [], nc_queued = [ex_tid], nc_queue = [ex_tid], nc_pending = 1,
     ex_moves = 0, ex_rescues = 0, ex_deadline = None, ex_calls = []\<rparr>"

lemma dead_network_well_behaved: "well_behaved dead_network" "\<not> earned dead_network [] made"
  by (auto simp: well_behaved_def dead_network_def network_error_def earned_def)

lemma ex_waiting:
  obtains db st c where "fst (accept_transaction ex_sha ex_accept Committed ''t'' ex_database) =
       Inr (JObj (new_receipt ex_accept (new_transaction ex_accept (JStr ex_uuid4) 1)), False)"
    and "load_locked db = Inr st" "window_slot st ''current'' = JObj c" "jget c ''transaction_id'' = JStr ex_tid"
    and "work_for ex_tid db = Inr (JObj [])" "window_slot st ''latest'' = JNull"
proof -
  let ?i = "canon_obj (initial_state ex_desired ex_uuid4)"
  have i: "jget ?i ''authority_epoch'' = JStr ex_uuid4" "state_revision_of ?i + 1 = 1"
    unfolding state_revision_of_def jget_canon_obj by (simp_all add: initial_state_def Let_def)
  obtain db1 where acc: "accept_transaction ex_sha ex_accept Committed ''t'' ex_database = (Inr (JObj
      (new_receipt ex_accept (new_transaction ex_accept (JStr ex_uuid4) 1)), False), db1)"
    and l: "load_locked db1 = Inr (canon_obj (accepted_state ex_accept
        (scope_of ex_sha (principal_id ex_accept) (idempotency_key ex_accept)) ?i))"
    using accept_commits [OF ex_ready, of "''t''"] unfolding i by blast
  have w: "jget (obj_or_empty (jget (accepted_state ex_accept scope ?i) ''work'')) ex_tid = JObj []" for scope
    by (simp add: accepted_state_def Let_def put_field_def ex_accept_def)
  have lt: "window_slot (accepted_state ex_accept scope ?i) ''latest'' = JNull" for scope
    unfolding accepted_state_window by (rule ex_window)
  have tid: "transaction_id ex_accept = ex_tid" by (simp add: ex_accept_def)
  let ?a = "accepted_state ex_accept (scope_of ex_sha (principal_id ex_accept) (idempotency_key ex_accept)) ?i"
  show ?thesis
  proof (rule that [of db1, OF _ l])
    show "window_slot (canon_obj ?a) ''current'' =
        JObj (canon_obj (new_transaction ex_accept (jget ?i ''authority_epoch'') (int_value (jget ?i ''source_revision'') + 1)))"
      by (simp add: accepted_state_window)
    show "jget (canon_obj (new_transaction ex_accept (jget ?i ''authority_epoch'') (int_value (jget ?i ''source_revision'') + 1)))
        ''transaction_id'' = JStr ex_tid"
      by (simp add: new_transaction_fields tid)
    show "work_for ex_tid db1 = Inr (JObj [])" using w by (simp add: work_for_def l)
    show "window_slot (canon_obj ?a) ''latest'' = JNull" using lt by simp
  qed (simp add: acc)
qed


theorem outcomes_are_earned_witness:
  "\<exists>db x' st' l. worker_turn dead_network (waiting db) = (Inr (), x') \<and> load_locked (nc_db x') = Inr st' \<and>
     window_slot st' ''latest'' = JObj l \<and> jget l ''transaction_id'' = JStr ex_tid \<and>
     jget l ''status'' \<in> {JStr ''rescued'', JStr ''failed''}"
proof (rule ex_waiting)
  fix db st c
  assume d: "load_locked db = Inr st" "window_slot st ''current'' = JObj c" "jget c ''transaction_id'' = JStr ex_tid"
    "work_for ex_tid db = Inr (JObj [])" "window_slot st ''latest'' = JNull"
  have w: "nc_queue (waiting db) = ex_tid # []" "load_locked (nc_db (waiting db)) = Inr st"
    "work_for ex_tid (nc_db (waiting db)) = Inr (JObj [])" "running_now ex_tid (waiting db)"
    "jget (obj_or_empty (window_slot st ''latest'')) ''transaction_id'' \<noteq> JStr ex_tid"
    using d by (simp_all add: waiting_def running_now_def)
  obtain x' where t: "worker_turn dead_network (waiting db) = (Inr (), x')" "settled ex_tid (set terminal_statuses) x'"
    using turn_ends [OF dead_network_well_behaved(1) w(1,4)] by blast
  obtain st' l where s: "load_locked (nc_db x') = Inr st'" "window_slot st' ''latest'' = JObj l" "jget l ''transaction_id'' = JStr ex_tid"
    "jget l ''status'' \<in> JStr ` set terminal_statuses"
    using t(2) by (auto simp: settled_def)
  have "jget l ''status'' \<in> {JStr ''rescued'', JStr ''failed''}"
    using outcomes_are_earned [OF w(1,3,2,5) t(1) s(1-3)] s(4) dead_network_well_behaved(2) by (auto simp: terminal_statuses_def)
  then show ?thesis using t(1) s by blast
qed

end
