(* ===== verification/NetworkHealthProps.thy ===== *)
theory NetworkHealthProps
  imports NetworkHealth NetworkExecutionProps
begin

text \<open>When the controller may act on its own.\<close>

section \<open>Runs of the monitor\<close>

text \<open>A poll that gives no reason to count towards a fallback.\<close>

definition calm :: "health_env \<Rightarrow> monitor \<Rightarrow> bool" where
  "calm e m \<longleftrightarrow> (\<exists>st. load_locked (nc_db m) = Inr st \<and>
     (window_slot st ''current'' \<noteq> JNull \<or> mode_of st = ''hotspot'' \<or> jget st ''saved'' \<noteq> JBool True \<or>
      (\<exists>x. he_probe e = Inl x \<and> capture_active x) \<or> he_probe e = Inr () \<and> he_healthy e (mode_of st) = Inr True))"

text \<open>The polls so far, each with the controller it saw; between polls everything but the monitor's own two fields may
  change.\<close>

inductive polled :: "(health_env \<times> monitor) list \<Rightarrow> monitor \<Rightarrow> bool" where
  fresh: "hm_started m = None \<Longrightarrow> polled [] m"
| poll: "polled ps m \<Longrightarrow> monitor_once e m = (r, m') \<Longrightarrow> polled (ps @ [(e, m)]) m'"
| other: "polled ps m \<Longrightarrow> hm_started m' = hm_started m \<Longrightarrow> hm_latched m' = hm_latched m \<Longrightarrow> polled ps m'"

lemma enqueue_started [simp]: "hm_started (enqueue tid m) = hm_started m" "hm_latched (enqueue tid m) = hm_latched m"
  "nc_db (enqueue tid m) = nc_db m"
  by (simp_all add: enqueue_def)

lemma intervene_cases:
  assumes "intervene e started m = (r, m')"
  obtains (idle) "m' = m" | (reset) "m' = m\<lparr>hm_started := None\<rparr>"
    | (failed) db x where "he_lock e = Inr ()" "m' = m\<lparr>nc_db := db\<rparr>" "r = Inl x"
    | (accepted) tid db where "he_lock e = Inr ()" "m' = enqueue tid (m\<lparr>nc_db := db, hm_latched := True, hm_started := None\<rparr>)"
proof -
  have "m' = m \<or> m' = m\<lparr>hm_started := None\<rparr> \<or> (\<exists>db x. he_lock e = Inr () \<and> m' = m\<lparr>nc_db := db\<rparr> \<and> r = Inl x) \<or>
     (\<exists>tid db. he_lock e = Inr () \<and> m' = enqueue tid (m\<lparr>nc_db := db, hm_latched := True, hm_started := None\<rparr>))"
  proof (cases "load_locked (nc_db m)")
    case (Inl x)
    then show ?thesis using assms by (simp add: intervene_def split: if_split_asm)
  next
    case (Inr st)
    show ?thesis
    proof (cases "nc_closed m \<or> window_slot st ''current'' \<noteq> JNull")
      case True
      then show ?thesis using assms Inr by (simp add: intervene_def split: if_split_asm)
    next
      case False
      define found where "found = (case he_candidate e (mode_of st) of
                  Inr c \<Rightarrow> Inr (Some c, default_fallback_error)
                | Inl x \<Rightarrow> if is_network_error x then Inr (None, transaction_error (failure_code x)) else Inl x)"
      have i: "intervene e started m = (case he_lock e of
          Inl x \<Rightarrow> if capture_active x then (Inr (), m\<lparr>hm_started := None\<rparr>) else (Inl x, m)
        | Inr _ \<Rightarrow> tryS found m (\<lambda>(candidate, error).
             (let wanted = obj_or_empty (jget st ''desired'') in
              case accept_system (he_system e) ''health-timeout'' wanted (fallback_work e wanted candidate error started) st (nc_db m) of
                (Inl x, db) \<Rightarrow> (Inl x, m\<lparr>nc_db := db\<rparr>)
              | (Inr tid, db) \<Rightarrow> (Inr (), enqueue tid (m\<lparr>nc_db := db, hm_latched := True, hm_started := None\<rparr>)))))"
        unfolding intervene_def found_def using False Inr by simp
      show ?thesis
      proof (cases "he_lock e")
        case (Inl x)
        then show ?thesis using assms i by (cases "capture_active x") simp_all
      next
        case lock: (Inr u)
        show ?thesis
        proof (cases found)
          case (Inl x)
          then show ?thesis using assms i lock by simp
        next
          case (Inr p)
          obtain candidate error where p: "p = (candidate, error)" by fastforce
          obtain a db where a: "accept_system (he_system e) ''health-timeout'' (obj_or_empty (jget st ''desired''))
              (fallback_work e (obj_or_empty (jget st ''desired'')) candidate error started) st (nc_db m) = (a, db)" by fastforce
          show ?thesis using assms i lock Inr p a by (cases a) (auto simp: Let_def)
        qed
      qed
    qed
  qed
  then show thesis using that by blast
qed

lemma intervene_started: "intervene e started m = (r, m') \<Longrightarrow> hm_started m' = Some t \<Longrightarrow> hm_started m = Some t"
  by (erule intervene_cases) auto

lemma degraded_started:
  assumes "degraded e st m = (r, m')" and "hm_started m' = Some t"
  shows "hm_started m = Some t \<or> hm_started m = None \<and> he_now e = t"
proof (cases "hm_latched m \<or> gave_up (window_slot st ''latest'')")
  case True
  then show ?thesis using assms by (auto simp: degraded_def)
next
  case False
  show ?thesis
  proof (cases "hm_started m")
    case None
    then show ?thesis using assms False by (auto simp: degraded_def)
  next
    case (Some s)
    define early where "early \<longleftrightarrow> he_seconds e (he_now e - s) < he_grace e"
    have "(if early then (Inr (), m) else intervene e s m) = (r, m')"
      using assms(1) False unfolding degraded_def Some early_def by (simp only: if_False option.case)
    then have "m' = m \<or> intervene e s m = (r, m')" by (cases early) auto
    then show ?thesis using assms(2) intervene_started [of e s m r m' t] by auto
  qed
qed

text \<open>A poll that is not calm and finds a document goes through \<open>degraded\<close> or changes nothing.\<close>

lemma monitor_cases:
  assumes "monitor_once e m = (r, m')"
  obtains (cleared) "hm_started m' = None" "nc_db m' = nc_db m" "nc_queue m' = nc_queue m"
    | (same) "\<not> calm e m" "m' = m"
    | (counts) st where "\<not> calm e m" "load_locked (nc_db m) = Inr st" "degraded e st m = (r, m')"
proof (cases "load_locked (nc_db m)")
  case (Inl x)
  have "\<not> calm e m" by (simp add: calm_def Inl)
  moreover have "m' = m" using assms unfolding monitor_once_def Inl tryS_simps by simp
  ultimately show ?thesis by (rule that(2))
next
  case (Inr st)
  show ?thesis
  proof (cases "calm e m")
    case True
    then consider "window_slot st ''current'' \<noteq> JNull"
      | "window_slot st ''current'' = JNull" "mode_of st = ''hotspot'' \<or> jget st ''saved'' \<noteq> JBool True"
      | x where "window_slot st ''current'' = JNull" "\<not> (mode_of st = ''hotspot'' \<or> jget st ''saved'' \<noteq> JBool True)"
          "he_probe e = Inl x" "capture_active x"
      | "window_slot st ''current'' = JNull" "\<not> (mode_of st = ''hotspot'' \<or> jget st ''saved'' \<noteq> JBool True)"
          "he_probe e = Inr ()" "he_healthy e (mode_of st) = Inr True"
      using Inr unfolding calm_def by auto
    then have "hm_started m' = None \<and> nc_db m' = nc_db m \<and> nc_queue m' = nc_queue m"
      by cases (use assms Inr in \<open>auto simp: monitor_once_def\<close>)
    then show ?thesis using that(1) by blast
  next
    case False
    then have c: "window_slot st ''current'' = JNull" "mode_of st \<noteq> ''hotspot''" "jget st ''saved'' = JBool True"
      "\<And>x. he_probe e = Inl x \<Longrightarrow> \<not> capture_active x" "he_probe e = Inr () \<Longrightarrow> he_healthy e (mode_of st) \<noteq> Inr True"
      using Inr by (auto simp: calm_def)
    have "m' = m \<or> degraded e st m = (r, m')"
    proof (cases "he_probe e")
      case (Inl x)
      then show ?thesis using assms Inr c by (simp add: monitor_once_def split: if_split_asm)
    next
      case (Inr u)
      then show ?thesis
        using assms \<open>load_locked (nc_db m) = Inr st\<close> c
        by (cases "he_healthy e (mode_of st)") (auto simp: monitor_once_def split: if_split_asm bool.split_asm)
    qed
    then show ?thesis using that(2,3) False Inr by blast
  qed
qed

lemma polled_since:
  "polled ps m \<Longrightarrow> hm_started m = Some t \<Longrightarrow>
     \<exists>before e0 m0 after. ps = before @ (e0, m0) # after \<and> he_now e0 = t \<and> (\<forall>(e, m) \<in> set ((e0, m0) # after). \<not> calm e m)"
proof (induction arbitrary: t rule: polled.induct)
  case (poll ps m e r m')
  have since: "\<exists>before e0 m0 after. ps @ [(e, m)] = before @ (e0, m0) # after \<and> he_now e0 = t \<and>
      (\<forall>(e, m) \<in> set ((e0, m0) # after). \<not> calm e m)" if s: "hm_started m = Some t" and q: "\<not> calm e m"
  proof -
    obtain before e0 m0 after where "ps = before @ (e0, m0) # after" "he_now e0 = t" "\<forall>(e, m) \<in> set ((e0, m0) # after). \<not> calm e m"
      using poll.IH [OF s] by blast
    then show ?thesis using q by (intro exI [of _ before] exI [of _ e0] exI [of _ m0] exI [of _ "after @ [(e, m)]"]) auto
  qed
  from poll.hyps(2) show ?case
  proof (cases rule: monitor_cases)
    case cleared
    then show ?thesis using poll.prems by simp
  next
    case same
    then show ?thesis using since poll.prems by simp
  next
    case (counts st)
    from degraded_started [OF counts(3) poll.prems] show ?thesis
    proof
      assume "hm_started m = Some t"
      then show ?thesis by (rule since) (rule counts(1))
    next
      assume "hm_started m = None \<and> he_now e = t"
      then show ?thesis using counts(1) by (intro exI [of _ ps] exI [of _ e] exI [of _ m] exI [of _ "[]"]) simp
    qed
  qed
qed auto

lemma degraded_effect:
  assumes "degraded e st m = (r, m')" and "nc_db m' \<noteq> nc_db m \<or> nc_queue m' \<noteq> nc_queue m"
  obtains t where "hm_started m = Some t" "he_grace e \<le> he_seconds e (he_now e - t)" "\<not> hm_latched m"
    "\<not> gave_up (window_slot st ''latest'')" "he_lock e = Inr ()" "hm_latched m' \<and> hm_started m' = None \<or> (\<exists>x. r = Inl x)"
proof -
  from assms have d: "\<not> hm_latched m" "\<not> gave_up (window_slot st ''latest'')" by (auto simp: degraded_def)
  then obtain t where t: "hm_started m = Some t" using assms by (cases "hm_started m") (auto simp: degraded_def)
  then have i: "he_grace e \<le> he_seconds e (he_now e - t)" "intervene e t m = (r, m')"
    using assms d by (auto simp: degraded_def split: if_split_asm)
  from i(2) have "he_lock e = Inr () \<and> (hm_latched m' \<and> hm_started m' = None \<or> (\<exists>x. r = Inl x))"
    by (cases rule: intervene_cases) (use assms(2) in auto)
  then show thesis using that t i d by blast
qed

section \<open>Properties\<close>

text \<open>C39: The monitor gives a network up only after its grace period.  When a poll changes the document or queues a
  transaction, then since some earlier poll, at least the grace period ago, no poll found the network healthy, a
  recording in progress, another transaction, or a mode that needs no monitoring; no fallback was
  latched and the last transaction had not already given up; the operation lock was free; and afterwards
  either the latch is set and the clock reset, or the error is reported.\<close>

theorem fallback_needs_the_grace_period:
  assumes "polled ps m" and "monitor_once e m = (r, m')" and "nc_db m' \<noteq> nc_db m \<or> nc_queue m' \<noteq> nc_queue m"
  shows "\<exists>before e0 m0 after st. ps = before @ (e0, m0) # after \<and> he_grace e \<le> he_seconds e (he_now e - he_now e0) \<and>
    (\<forall>(e, m) \<in> set ((e0, m0) # after @ [(e, m)]). \<not> calm e m) \<and>
    load_locked (nc_db m) = Inr st \<and> \<not> hm_latched m \<and> \<not> gave_up (window_slot st ''latest'') \<and> he_lock e = Inr () \<and>
    (hm_latched m' \<and> hm_started m' = None \<or> (\<exists>x. r = Inl x))"
  using assms(2)
proof (cases rule: monitor_cases)
  case (counts st)
  obtain t where t: "hm_started m = Some t" "he_grace e \<le> he_seconds e (he_now e - t)" "\<not> hm_latched m"
    "\<not> gave_up (window_slot st ''latest'')" "he_lock e = Inr ()" "hm_latched m' \<and> hm_started m' = None \<or> (\<exists>x. r = Inl x)"
    by (rule degraded_effect [OF counts(3) assms(3)])
  obtain before e0 m0 after where p: "ps = before @ (e0, m0) # after" "he_now e0 = t"
    "\<forall>(e, m) \<in> set ((e0, m0) # after). \<not> calm e m"
    using polled_since [OF assms(1) t(1)] by blast
  then show ?thesis using t counts by (intro exI [of _ before] exI [of _ e0] exI [of _ m0] exI [of _ after] exI [of _ st]) auto
qed (use assms(3) in auto)

text \<open>A restart within the same boot neither repeats a failed attempt nor disturbs a running one.  When the boot
  was already reconciled and the last transaction was rescued or failed, or when a transaction is still
  active, the reconciliation leaves the document as it is (a first reconciliation only records the boot);
  the last outcome stays and at most the rescue access point is brought up again.\<close>

theorem restart_keeps_the_outcome:
  assumes "load_locked (nc_db x) = Inr st" and "boot_reconcile env x = (r, x')"
    and "gave_up (window_slot st ''latest'') \<and> jget st ''rescue_boot_id'' = JStr (xe_boot (be_exec env)) \<or>
         window_slot st ''current'' \<noteq> JNull"
  shows "(nc_db x' = nc_db x \<or> nc_db x' = snd (mark_boot_reconciled (xe_boot (be_exec env)) (be_mark env) (se_db_now (be_system env)) (nc_db x))) \<and>
    (jget st ''rescue_boot_id'' = JStr (xe_boot (be_exec env)) \<longrightarrow> nc_db x' = nc_db x) \<and>
    ex_moves x' = ex_moves x \<and> ex_rescues x' \<le> ex_rescues x + 1"
proof -
  define boot where "boot = xe_boot (be_exec env)"
  have same: "mark_boot_reconciled boot oc now db = (q, db') \<Longrightarrow> load_locked db = Inr st \<Longrightarrow> jget st ''rescue_boot_id'' = JStr boot \<Longrightarrow> db' = db"
    for oc now db q db' by (auto simp: mark_boot_reconciled_def split: if_split_asm)
  show ?thesis
  proof (cases "boot_needs_reconcile boot (nc_db x)")
    case (Inl e)
    then show ?thesis using assms(1,2) by (simp add: boot_reconcile_def boot_def)
  next
    case (Inr new_boot)
    have nb: "jget st ''rescue_boot_id'' = JStr boot \<Longrightarrow> \<not> new_boot"
      using Inr assms(1) by (auto simp: boot_needs_reconcile_def guardE_def split: if_split_asm)
    obtain q db where mark: "mark_boot_reconciled boot (be_mark env) (se_db_now (be_system env)) (nc_db x) = (q, db)" by fastforce
    define x1 where "x1 = x\<lparr>nc_db := db\<rparr>"
    have rescue: "boot_rescue env k x1 = (r', y) \<Longrightarrow> nc_db y = db \<and> ex_moves y = ex_moves x \<and> ex_rescues y \<le> ex_rescues x + 1" for k r' y
      by (cases "be_lock env k") (auto simp: boot_rescue_def rescue_def called_def x1_def)
    have x': "nc_db x' = db \<and> ex_moves x' = ex_moves x \<and> ex_rescues x' \<le> ex_rescues x + 1"
    proof (cases q)
      case (Inl e)
      then show ?thesis using assms(1,2) Inr mark by (auto simp: boot_reconcile_def boot_def)
    next
      case q: (Inr u)
      define go_on where "go_on = (if mode_of st = ''hotspot'' \<or> gave_up (window_slot st ''latest'') \<and> \<not> new_boot
                         then boot_rescue env 1 x1 else boot_retry env st new_boot x1)"
      have b: "boot_reconcile env x = (if window_slot st ''current'' \<noteq> JNull then (Inr (), x1)
            else
             (case bindE (be_lock env 0) (\<lambda>_. be_healthy env (mode_of st)) of
                Inr True \<Rightarrow> (Inr (), x1)
              | Inr False \<Rightarrow> go_on
              | Inl e \<Rightarrow> if is_network_error e then go_on else (Inl e, x1)))"
        unfolding boot_reconcile_def Let_def boot_def [symmetric] assms(1) Inr tryS_simps mark q prod.case sum.case x1_def go_on_def by simp
      show ?thesis
      proof (cases "window_slot st ''current'' \<noteq> JNull")
        case True
        then show ?thesis using b assms(2) by (auto simp: x1_def)
      next
        case False
        then have "go_on = boot_rescue env 1 x1" using assms(3) nb by (simp add: go_on_def boot_def)
        then have "x' = x1 \<or> boot_rescue env 1 x1 = (r, x')"
          using b assms(2) False
          by (cases "bindE (be_lock env 0) (\<lambda>_. be_healthy env (mode_of st))") (auto split: if_split_asm bool.split_asm)
        then show ?thesis using rescue by (auto simp: x1_def)
      qed
    qed
    then show ?thesis using same [OF mark assms(1)] mark by (simp add: boot_def)
  qed
qed

section \<open>Witnesses\<close>

definition client_desired :: jobject where
  "client_desired = [(''mode'', JStr ''wifi-client''),
     (''wifi_client'', JObj [(''ssid'', JStr ''lab''), (''security'', JStr ''open''), (''credential_state'', JStr ''absent'')]),
     (''ethernet'', JNull)]"

definition client_state :: jobject where
  "client_state = canon_obj (initial_state client_desired ex_uuid4)"

definition client_database :: database where
  "client_database = \<lparr>documents = [''controller'' \<mapsto> \<lparr>body = JObj client_state, revision = 1, updated_at = ''t''\<rparr>],
     import_receipts = Map.empty, changes = []\<rparr>"

text \<open>NetworkManager does not answer.\<close>

definition silent :: "int \<Rightarrow> health_env" where
  "silent now = \<lparr>he_system = \<lparr>se_tid = ex_tid, se_stamp = ''2026-01-01T00:00:00Z'', se_db_now = ''t'', se_outcome = Committed,
       se_sha = ex_sha, se_digest = (\<lambda>_. replicate 64 (CHR ''a''))\<rparr>,
     he_probe = Inr (), he_healthy = (\<lambda>_. Inl (network_error ''network_timeout'')), he_now = now,
     he_seconds = (\<lambda>n. of_int n / 1000000000), he_grace = 10, he_lock = Inr (),
     he_candidate = (\<lambda>_. Inl (network_error ''network_timeout'')), he_boot = ''boot''\<rparr>"

definition watching :: "int option \<Rightarrow> monitor" where
  "watching started = \<lparr>nc_db = client_database, nc_credentials = ex_store, nc_clock = initial_sync, nc_candidates = [],
     nc_closed = False, nc_defers = False, nc_deferred = [], nc_queued = [], nc_queue = [], nc_pending = 0,
     hm_started = started, hm_latched = False\<rparr>"

lemma not_forbidden:
  "k \<in> {''mode'', ''wifi_client'', ''ethernet'', ''ssid'', ''security'', ''credential_state'', ''kind'', ''desired'', ''cleanup_work_ids'',
     ''fallback_error'', ''rescue_deadline'', ''time_base'', ''boot_id'', ''deadline_ns'', ''code'', ''message'', ''retryable''} \<Longrightarrow>
   casefold k \<notin> set forbidden_persisted_keys"
  by (subst casefold_plain) (auto simp: plain_key_def is_upper_def forbidden_persisted_keys_def)

lemma client_valid: "valid_desired_state (JObj client_desired) = Inr True" "\<not> contains_forbidden_key (JObj client_desired)"
  by (simp add: valid_desired_state_def client_desired_def has_keys_def valid_saved_ethernet_def valid_saved_wifi_def
      wifi_security_def eq_str_def Let_def)
     (simp add: client_desired_def not_forbidden del: casefold.simps)

lemma client_load: "load_locked client_database = Inr client_state"
  using valid_state_canon [OF valid_initial_state [OF ex_uuids(1) client_valid]]
  by (simp add: load_locked_iff db_get_def client_database_def client_state_def)

lemma client_fields:
  "window_slot client_state k = JNull" "mode_of client_state = ''wifi-client''" "jget client_state ''saved'' = JBool True"
  "jget client_state ''verified'' = JBool True" "obj_or_empty (jget client_state ''desired'') = canon_obj client_desired"
  "receipts_of client_state = []"
  by (simp_all add: client_state_def mode_of_def receipts_of_def)
     (simp_all add: initial_state_def Let_def client_desired_def eq_str_def window_slot_def text_of_def)

lemma first_poll: "monitor_once (silent 0) (watching None) = (Inr (), watching (Some 0))"
  by (simp add: monitor_once_def watching_def silent_def client_load client_fields degraded_def gave_up_def network_error_def)

lemma second_poll:
  "\<exists>m'. monitor_once (silent 10000000000) (watching (Some 0)) = (Inr (), m') \<and> nc_queue m' = [ex_tid]"
proof -
  let ?e = "silent 10000000000"
  define w where "w = fallback_work ?e (canon_obj client_desired) None (transaction_error ''network_timeout'') 0"
  define a where "a = system_request (he_system ?e) ''health-timeout'' (canon_obj client_desired) w (Some True) (Some True)"
  have v: "valid_desired_state (JObj (canon_obj client_desired)) = Inr True" "\<not> contains_forbidden_key (JObj (canon_obj client_desired))"
    using client_valid valid_desired_state_canon [of "JObj client_desired"] contains_forbidden_key_canon [of "JObj client_desired"] by simp_all
  have clean: "\<not> contains_forbidden_key (JObj w)"
    using v(2) by (simp add: w_def fallback_work_def transaction_error_def not_forbidden del: casefold.simps)
  have ok: "accept_input_bad a = Inr False"
    using v(1) clean ex_uuids
    by (simp add: accept_input_ok a_def system_request_def silent_def hex_n_def is_hex_def is_digit_def list_all_iff
        del: contains_forbidden_key.simps)
  have f: "flags_consistent a client_state" by (simp add: flags_consistent_def a_def system_request_def)
  have d: "\<not> contains_forbidden_key (JObj (desired a))" using v(2) by (simp add: a_def system_request_def)
  have r: "jget (receipts_of client_state) (scope_of ex_sha (principal_id a) (idempotency_key a)) = JNull"
    by (simp add: client_fields)
  obtain db' receipt where acc: "accept_transaction ex_sha a Committed ''t'' client_database = (Inr (receipt, False), db')"
    using accept_commits [OF client_load client_fields(1) ok f d ex_scope r, of "''t''"] by blast
  have s: "accept_system (he_system ?e) ''health-timeout'' (canon_obj client_desired) w client_state client_database = (Inr ex_tid, db')"
    using acc by (simp add: accept_system_def a_def client_fields) (simp add: silent_def)
  have "intervene ?e 0 (watching (Some 0)) =
      (Inr (), enqueue ex_tid ((watching (Some 0))\<lparr>nc_db := db', hm_latched := True, hm_started := None\<rparr>))"
    using s by (simp add: intervene_def watching_def client_load client_fields w_def silent_def network_error_def)
  moreover have "monitor_once ?e (watching (Some 0)) = intervene ?e 0 (watching (Some 0))"
    by (simp add: monitor_once_def watching_def silent_def client_load client_fields degraded_def gave_up_def network_error_def)
  ultimately show ?thesis by (simp add: enqueue_def watching_def)
qed

theorem fallback_needs_the_grace_period_witness:
  "\<exists>m' before e0 m0 after. monitor_once (silent 10000000000) (watching (Some 0)) = (Inr (), m') \<and> nc_queue m' = [ex_tid] \<and>
     [(silent 0, watching None)] = before @ (e0, m0) # after \<and> he_seconds (silent 0) (10000000000 - he_now e0) \<ge> 10"
proof -
  obtain m' where m: "monitor_once (silent 10000000000) (watching (Some 0)) = (Inr (), m')" "nc_queue m' = [ex_tid]"
    using second_poll by blast
  have p: "polled ([] @ [(silent 0, watching None)]) (watching (Some 0))"
    by (rule polled.poll [OF polled.fresh first_poll]) (simp add: watching_def)
  have c: "nc_db m' \<noteq> nc_db (watching (Some 0)) \<or> nc_queue m' \<noteq> nc_queue (watching (Some 0))"
    using m(2) by (simp add: watching_def)
  from fallback_needs_the_grace_period [OF p m(1) c] m show ?thesis by (simp add: silent_def) blast
qed

theorem restart_keeps_the_outcome_witness:
  "\<exists>db r x'. boot_reconcile \<lparr>be_exec = dead_network, be_system = he_system (silent 0), be_mark = Committed, be_lock = (\<lambda>_. Inr ()),
      be_healthy = (\<lambda>_. Inr False), be_candidate = (\<lambda>_. Inl OSError)\<rparr> (waiting db) = (r, x') \<and>
     fst (accept_transaction ex_sha ex_accept Committed ''t'' ex_database) =
       Inr (JObj (new_receipt ex_accept (new_transaction ex_accept (JStr ex_uuid4) 1)), False) \<and> ex_moves x' = 0"
proof (rule ex_waiting)
  fix db st c
  assume d: "fst (accept_transaction ex_sha ex_accept Committed ''t'' ex_database) =
       Inr (JObj (new_receipt ex_accept (new_transaction ex_accept (JStr ex_uuid4) 1)), False)"
    "load_locked db = Inr st" "window_slot st ''current'' = JObj c"
  define env where "env = \<lparr>be_exec = dead_network, be_system = he_system (silent 0), be_mark = Committed, be_lock = (\<lambda>_. Inr ()),
      be_healthy = (\<lambda>_. Inr False), be_candidate = (\<lambda>_. Inl OSError)\<rparr>"
  obtain r x' where b: "boot_reconcile env (waiting db) = (r, x')" by fastforce
  have l: "load_locked (nc_db (waiting db)) = Inr st" using d(2) by (simp add: waiting_def)
  have "ex_moves x' = ex_moves (waiting db)"
    using restart_keeps_the_outcome [OF l b] d(3) by simp
  then show ?thesis using b d(1) unfolding env_def by (auto simp: waiting_def)
qed

end
