(* ===== verification/EventContracts.thy ===== *)
theory EventContracts
  imports ContractChecks
begin

text \<open>
  The contracts of \<open>api/events.py\<close>: what a capture event, a capture status, a device descriptor,
  a session page and a retained outcome may look like, and the projections from the daemon's own
  version to the requested API version.  A validator returns \<open>Inr ()\<close> or the exception of the
  code; \<open>event_formats\<close> holds what the code takes from third parties: the format checker and the
  two JSON-schema validators of \<open>jsonschema\<close>, and \<open>datetime.fromisoformat\<close> as an instant.
\<close>

record event_formats =
  ef_date_time :: "string \<Rightarrow> bool"
  ef_recording_state :: "json \<Rightarrow> bool"
  ef_diagnostic :: "json \<Rightarrow> bool"
  ef_instant :: "string \<Rightarrow> int res"

definition invalid_source_event :: pyexc where
  "invalid_source_event = AppError ''InvalidSourceEvent'' [] False"

text \<open>\<open>if bad: raise InvalidSourceEvent\<close>.\<close>

definition reject_event :: "bool \<Rightarrow> unit res" where
  "reject_event bad = (if bad then Inl invalid_source_event else Inr ())"

definition andE :: "unit res \<Rightarrow> unit res \<Rightarrow> unit res" where
  "andE a b = bindE a (\<lambda>_. b)"

lemma reject_event_Inr [simp]: "reject_event bad = Inr () \<longleftrightarrow> \<not> bad"
  and reject_event_Inl [simp]: "reject_event bad = Inl e \<longleftrightarrow> bad \<and> e = invalid_source_event"
  by (auto simp: reject_event_def)

lemma andE_Inr [simp]: "andE a b = Inr () \<longleftrightarrow> a = Inr () \<and> b = Inr ()"
  by (cases a) (auto simp: andE_def)

lemma andE_Inl: "andE a b = Inl e \<longleftrightarrow> a = Inl e \<or> (a = Inr () \<and> b = Inl e)"
  by (cases a) (auto simp: andE_def)

lemma raises_only_andE [intro!]: "raises_only S a \<Longrightarrow> raises_only S b \<Longrightarrow> raises_only S (andE a b)"
  by (cases a) (auto simp: andE_def)

lemma raises_only_reject [simp]: "invalid_source_event \<in> S \<Longrightarrow> raises_only S (reject_event bad)"
  by (simp add: reject_event_def)

section \<open>The closed key sets and the vocabularies\<close>

definition source_event_keys :: "string list" where
  "source_event_keys =
     [''authority_epoch'', ''source_revision'', ''type'', ''occurred_at'', ''session_id'', ''data'']"

definition source_event_types :: "string list" where
  "source_event_types = [''snapshot'', ''state'', ''progress'', ''diagnostic'', ''safe_swap'']"

definition snapshot_keys :: "string list" where
  "snapshot_keys = [''schema'', ''device_state'', ''active_recording'', ''retained_unsuccessful'', ''runtime'']"

definition state_keys :: "string list" where
  "state_keys = [''schema'', ''state'', ''volume_id'', ''generation_id'']"

definition progress_keys :: "string list" where
  "progress_keys =
     [''schema'', ''phase'', ''elapsed_seconds'', ''completed_units'', ''total_units'', ''unit'']"

definition runtime_base_keys :: "string list" where
  "runtime_base_keys =
     [''observed_at'', ''connection_method'', ''temperature_celsius'', ''network'', ''live_imu'']"

definition runtime_source_keys :: "string list" where
  "runtime_source_keys =
     [''observed_at'', ''connection_method'', ''temperature_celsius'', ''network'', ''live_imu'',
      ''camera'', ''camera_focus'']"

definition capture_active_states :: "string list" where
  "capture_active_states = [''recording'', ''finalizing'', ''encoding'', ''verifying'']"

definition capture_device_states :: "string list" where
  "capture_device_states = ''idle'' # capture_active_states @ [''blocked'']"

definition capture_terminal_states :: "string list" where
  "capture_terminal_states = [''recoverable'', ''failed'', ''abandoned'']"

definition capture_recording_states :: "string list" where
  "capture_recording_states = capture_active_states @ capture_terminal_states"

definition calibration_disabled_reasons :: "string list" where
  "calibration_disabled_reasons =
     [''capture_source_unsupported'', ''storage_unavailable'', ''hardware_unavailable'',
      ''maintenance_or_capture_busy'']"

definition safe_swap_v3_keys :: "string list" where
  "safe_swap_v3_keys =
     [''schema'', ''session_id'', ''volume_id'', ''generation_id'', ''manifest_id'', ''manifest_sha256'',
      ''sealed_at'', ''released_at'', ''release_state'', ''open_handle_count'']"

definition verification_diagnostic_codes :: "string list" where
  "verification_diagnostic_codes =
     [''artifact_digest_mismatch'', ''artifact_invalid'', ''manifest_invalid'', ''verification_failed'',
      ''recording_interrupted'']"

definition supported_api_versions :: "string list" where
  "supported_api_versions = [''v2'', ''v3'', ''v4'']"

definition legacy_api_versions :: "string list" where
  "legacy_api_versions = [''v2'', ''v3'']"

section \<open>Versions and their schemas\<close>

definition event_schema_version :: "string \<Rightarrow> string res" where
  "event_schema_version v = (if v \<notin> set supported_api_versions then Inl ValueError else Inr v)"

definition source_or_api_version :: "string \<Rightarrow> unit res" where
  "source_or_api_version v =
     (if v \<noteq> ''source'' then bindE (event_schema_version v) (\<lambda>_. Inr ()) else Inr ())"

definition capture_status_schema :: "string \<Rightarrow> string res" where
  "capture_status_schema v =
     bindE (source_or_api_version v)
       (\<lambda>_. Inr (if v = ''v4'' then ''ylx.capture-status.v4'' else ''ylx.capture-status.v2''))"

definition capture_snapshot_schema :: "string \<Rightarrow> string res" where
  "capture_snapshot_schema v =
     bindE (source_or_api_version v)
       (\<lambda>_. Inr (if v = ''v4'' then ''ylx.capture-snapshot-event.v4'' else ''ylx.capture-snapshot-event.v2''))"

definition runtime_keys :: "string \<Rightarrow> string list res" where
  "runtime_keys v =
     bindE (source_or_api_version v)
       (\<lambda>_. Inr (if v \<in> set legacy_api_versions then runtime_base_keys else runtime_source_keys))"

section \<open>Values\<close>

fun is_number :: "json \<Rightarrow> bool" where
  "is_number (JInt i) = True"
| "is_number (JFloat (Fin r)) = True"
| "is_number _ = False"

text \<open>\<open>not number(value) or value < 0\<close>, negated.\<close>

fun nonnegative_number :: "json \<Rightarrow> bool" where
  "nonnegative_number (JInt i) = (0 \<le> i)"
| "nonnegative_number (JFloat (Fin r)) = (0 \<le> r)"
| "nonnegative_number _ = False"

fun finite_json :: "json \<Rightarrow> bool" where
  "finite_json (JFloat x) = (case x of Fin r \<Rightarrow> True | _ \<Rightarrow> False)"
| "finite_json (JObj d) = list_all (\<lambda>(k, v). finite_json v) d"
| "finite_json (JList xs) = list_all finite_json xs"
| "finite_json _ = True"

definition validate_finite_json :: "json \<Rightarrow> unit res" where
  "validate_finite_json v = reject_event (\<not> finite_json v)"

definition bounded_string :: "json \<Rightarrow> nat \<Rightarrow> bool" where
  "bounded_string v n = str_in v (\<lambda>s. 1 \<le> py_len s \<and> py_len s \<le> n)"

definition sha256_text :: "json \<Rightarrow> bool" where
  "sha256_text v = str_in v (hex_n 64)"

text \<open>The pattern \<open>RFC3339_DATE_TIME\<close>: nineteen fixed places, an optional fraction, the zone.\<close>

definition rfc3339_places :: "(char \<Rightarrow> bool) list" where
  "rfc3339_places =
     replicate 4 is_digit @ [(=) (CHR ''-'')] @ replicate 2 is_digit @ [(=) (CHR ''-'')] @
     replicate 2 is_digit @ [\<lambda>c. c = CHR ''T'' \<or> c = CHR ''t''] @
     replicate 2 is_digit @ [(=) (CHR '':'')] @ replicate 2 is_digit @ [(=) (CHR '':'')] @ replicate 2 is_digit"

definition rfc3339_zone :: "string \<Rightarrow> bool" where
  "rfc3339_zone s \<longleftrightarrow> s = ''Z'' \<or> s = ''z'' \<or>
     match_classes
       [\<lambda>c. c = CHR ''+'' \<or> c = CHR ''-'', is_digit, is_digit, (=) (CHR '':''), is_digit, is_digit] s"

fun rfc3339_rest :: "string \<Rightarrow> bool" where
  "rfc3339_rest [] = False"
| "rfc3339_rest (c # s) =
     (if c = CHR ''.'' then takeWhile is_digit s \<noteq> [] \<and> rfc3339_zone (dropWhile is_digit s)
      else rfc3339_zone (c # s))"

definition rfc3339_shape :: "string \<Rightarrow> bool" where
  "rfc3339_shape s \<longleftrightarrow> match_classes rfc3339_places (take 19 s) \<and> rfc3339_rest (drop 19 s)"

definition date_time :: "event_formats \<Rightarrow> json \<Rightarrow> bool" where
  "date_time F v = str_in v (\<lambda>s. rfc3339_shape s \<and> ef_date_time F s)"

definition date_time_value :: "event_formats \<Rightarrow> json \<Rightarrow> int res" where
  "date_time_value F v =
     (if \<not> date_time F v then Inl invalid_source_event
      else (case v of JStr s \<Rightarrow> ef_instant F s | _ \<Rightarrow> Inl AssertionError))"

section \<open>Network, sensor and camera status\<close>

definition network_interface_states :: "string list" where
  "network_interface_states =
     [''disabled'', ''disconnected'', ''starting'', ''connecting'', ''connected'', ''active'', ''degraded'',
      ''failed'', ''unavailable'']"

definition valid_addresses :: "json \<Rightarrow> bool" where
  "valid_addresses v =
     (case v of JList xs \<Rightarrow> list_all (\<lambda>a. bounded_string a 64) xs \<and> distinct xs | _ \<Rightarrow> False)"

definition validate_network_interface :: "json \<Rightarrow> unit res" where
  "validate_network_interface v =
     (case v of
        JObj d \<Rightarrow>
          andE (reject_event (\<not> has_keys d [''state'', ''interface'', ''addresses'', ''peer_or_ssid'']))
          (andE (reject_event (\<not> in_strs (jget d ''state'') network_interface_states))
          (andE (reject_event (jget d ''interface'' \<noteq> JNull \<and>
                   \<not> str_in (jget d ''interface'')
                       (\<lambda>s. 1 \<le> py_len s \<and> py_len s \<le> 64 \<and> s \<noteq> [] \<and> list_all credential_char s)))
          (andE (reject_event (\<not> valid_addresses (jget d ''addresses'')))
          (andE (reject_event (jget d ''peer_or_ssid'' \<noteq> JNull \<and> \<not> bounded_string (jget d ''peer_or_ssid'') 128))
            (reject_event (in_strs (jget d ''state'') [''connected'', ''active'', ''degraded''] \<and>
               (\<not> is_str (jget d ''interface'') \<or> jget d ''addresses'' = JList [])))))))
      | _ \<Rightarrow> Inl invalid_source_event)"

definition validate_network :: "json \<Rightarrow> unit res" where
  "validate_network v =
     (case v of
        JObj d \<Rightarrow>
          andE (reject_event (\<not> has_keys d [''ap'', ''wifi_client'', ''wired'', ''default_route'']))
          (andE (validate_network_interface (jget d ''ap''))
          (andE (validate_network_interface (jget d ''wifi_client''))
          (andE (validate_network_interface (jget d ''wired''))
            (reject_event (\<not> in_strs (jget d ''default_route'') [''wifi_client'', ''wired'', ''none''])))))
      | _ \<Rightarrow> Inl invalid_source_event)"

definition validate_raw_vector :: "json \<Rightarrow> unit res" where
  "validate_raw_vector v =
     (case v of
        JObj d \<Rightarrow> reject_event (\<not> has_keys d [''x'', ''y'', ''z''] \<or>
                    \<not> list_all (\<lambda>(k, x). int_in x (\<lambda>i. - 32768 \<le> i \<and> i \<le> 32767)) d)
      | _ \<Rightarrow> Inl invalid_source_event)"

definition valid_live_imu_clock :: "json \<Rightarrow> bool" where
  "valid_live_imu_clock v =
     (case v of
        JObj c \<Rightarrow> has_keys c [''time_base'', ''timestamp_ns''] \<and> eq_str (jget c ''time_base'') ''host_monotonic'' \<and>
          int_in (jget c ''timestamp_ns'') (\<lambda>i. 0 \<le> i)
      | _ \<Rightarrow> False)"

definition validate_live_imu_raw :: "json \<Rightarrow> unit res" where
  "validate_live_imu_raw v =
     (case v of
        JObj r \<Rightarrow>
          andE (reject_event (\<not> has_keys r [''units'', ''accelerometer'', ''gyroscope''] \<or>
                  \<not> eq_str (jget r ''units'') ''raw_int16''))
          (andE (validate_raw_vector (jget r ''accelerometer''))
                (validate_raw_vector (jget r ''gyroscope'')))
      | _ \<Rightarrow> Inl invalid_source_event)"

definition valid_live_imu_sync :: "json \<Rightarrow> bool" where
  "valid_live_imu_sync v =
     (case v of
        JObj y \<Rightarrow> has_keys y [''quality''] \<and> in_strs (jget y ''quality'') [''insufficient'', ''good'', ''degraded'']
      | _ \<Rightarrow> False)"

definition validate_live_imu :: "json \<Rightarrow> unit res" where
  "validate_live_imu v =
     (case v of
        JObj d \<Rightarrow>
          andE (reject_event (\<not> has_keys d [''session_id'', ''clock'', ''raw'', ''sync'']))
          (andE (reject_event (jget d ''session_id'' \<noteq> JNull \<and> \<not> str_in (jget d ''session_id'') uuid_v7))
          (andE (reject_event (\<not> valid_live_imu_clock (jget d ''clock'')))
          (andE (validate_live_imu_raw (jget d ''raw''))
            (reject_event (\<not> valid_live_imu_sync (jget d ''sync''))))))
      | _ \<Rightarrow> Inl invalid_source_event)"

definition validate_camera_focus :: "json \<Rightarrow> unit res" where
  "validate_camera_focus v =
     (case v of
        JObj d \<Rightarrow> andE (reject_event (\<not> has_keys d camera_focus_keys))
                       (reject_event (\<not> valid_camera_focus_status v))
      | _ \<Rightarrow> Inl invalid_source_event)"

text \<open>The state is looked up in a set literal, so a list or a dictionary raises there.\<close>

definition validate_camera_connection :: "json \<Rightarrow> unit res" where
  "validate_camera_connection v =
     (case v of
        JObj d \<Rightarrow>
          bindE (disjE_list
                  [Inr (\<not> has_keys d [''schema'', ''state'']),
                   Inr (\<not> eq_str (jget d ''schema'') ''ylx.camera-connection.v1''),
                   notE (in_set (jget d ''state'') [''connected'', ''disconnected''])])
            reject_event
      | _ \<Rightarrow> Inl invalid_source_event)"

definition validate_runtime :: "event_formats \<Rightarrow> string \<Rightarrow> json \<Rightarrow> unit res" where
  "validate_runtime F v rt =
     (case rt of
        JObj d \<Rightarrow>
          bindE (runtime_keys v) (\<lambda>keys.
          andE (reject_event (\<not> has_keys d keys))
          (andE (reject_event (\<not> date_time F (jget d ''observed_at'')))
          (andE (reject_event (\<not> in_strs (jget d ''connection_method'')
                   [''wifi_ap'', ''wifi_client'', ''ethernet_direct'', ''ethernet_lan'', ''offline'']))
          (andE (reject_event (\<not> num_between (- 40) (jget d ''temperature_celsius'') 125))
          (andE (validate_network (jget d ''network''))
          (andE (reject_event (v \<in> set legacy_api_versions \<and> jget d ''live_imu'' \<noteq> JNull))
          (andE (if v \<notin> set legacy_api_versions \<and> jget d ''live_imu'' \<noteq> JNull
                 then validate_live_imu (jget d ''live_imu'') else Inr ())
          (andE (if v \<notin> set legacy_api_versions then validate_camera_connection (jget d ''camera'') else Inr ())
                (if ''camera_focus'' \<in> set (map fst d) \<and> jget d ''camera_focus'' \<noteq> JNull
                 then validate_camera_focus (jget d ''camera_focus'') else Inr ())))))))))
      | _ \<Rightarrow> Inl invalid_source_event)"

definition validate_live_imu_relation :: "string \<Rightarrow> json \<Rightarrow> json \<Rightarrow> unit res" where
  "validate_live_imu_relation v rt active_session =
     (if v \<in> set legacy_api_versions then Inr ()
      else (case rt of
        JObj d \<Rightarrow>
          bindE (jitem d ''live_imu'') (\<lambda>live.
            (case live of
               JNull \<Rightarrow> Inr ()
             | JObj l \<Rightarrow> reject_event (\<not> py_eq (jget l ''session_id'') active_session)
             | _ \<Rightarrow> Inl invalid_source_event))
      | _ \<Rightarrow> Inl invalid_source_event))"

end
