(* ===== verification/EventValidators.thy ===== *)
theory EventValidators
  imports EventContracts
begin

text \<open>
  The validators of whole documents of \<open>api/events.py\<close> (source event, capture status, device
  descriptor, session page, retained outcome) over the parts of \<open>EventContracts\<close>, and the
  projections to the requested API version.
\<close>

section \<open>Recordings and snapshots\<close>

definition validate_recording_state :: "event_formats \<Rightarrow> json \<Rightarrow> unit res" where
  "validate_recording_state F v =
     andE (validate_finite_json v) (reject_event (\<not> ef_recording_state F v))"

text \<open>\<open>a != b\<close> of Python on two JSON values.\<close>

definition py_ne :: "json \<Rightarrow> json \<Rightarrow> bool" where
  "py_ne a b \<longleftrightarrow> \<not> py_eq a b"

definition check_recording_authority :: "jobject \<Rightarrow> json \<Rightarrow> json \<Rightarrow> unit res" where
  "check_recording_authority st epoch revision =
     bindE (disjE_list
       [bindE (jitem st ''authority_epoch'') (\<lambda>a. Inr (py_ne a epoch)),
        bindE (jitem st ''state_revision'') (\<lambda>r. Inr (py_ne r revision))]) reject_event"

definition validate_snapshot_recording ::
  "event_formats \<Rightarrow> string list \<Rightarrow> json \<Rightarrow> json \<Rightarrow> json \<Rightarrow> json \<Rightarrow> unit res" where
  "validate_snapshot_recording F expected epoch revision session v =
     (case v of
        JObj d \<Rightarrow>
          andE (reject_event (\<not> has_keys d [''generation_id'', ''recording_state'']))
          (andE (reject_event (\<not> str_in (jget d ''generation_id'') uuid_v4))
            (case jget d ''recording_state'' of
               JObj st \<Rightarrow>
                 andE (reject_event (\<not> in_strs (jget st ''state'') expected))
                 (andE (validate_recording_state F (JObj st))
                 (andE (check_recording_authority st epoch revision)
                   (reject_event (session \<noteq> JNull \<and> py_ne (jget st ''session_id'') session))))
             | _ \<Rightarrow> Inl invalid_source_event))
      | _ \<Rightarrow> Inl invalid_source_event)"

definition require_session_id :: "json \<Rightarrow> unit res" where
  "require_session_id v = reject_event (\<not> str_in v uuid_v7)"

text \<open>\<open>active["recording_state"].get("session_id")\<close> where all three have the expected type.\<close>

definition active_session :: "json \<Rightarrow> json" where
  "active_session v =
     (case v of
        JObj a \<Rightarrow> (case jget a ''recording_state'' of
          JObj st \<Rightarrow> (case jget st ''session_id'' of JStr s \<Rightarrow> JStr s | _ \<Rightarrow> JNull)
        | _ \<Rightarrow> JNull)
      | _ \<Rightarrow> JNull)"

definition validate_snapshot_data ::
  "event_formats \<Rightarrow> string \<Rightarrow> json \<Rightarrow> json \<Rightarrow> json \<Rightarrow> jobject \<Rightarrow> unit res" where
  "validate_snapshot_data F v epoch revision session d =
     bindE (source_or_api_version v) (\<lambda>_.
     bindE (if \<not> has_keys d snapshot_keys then Inl invalid_source_event else capture_snapshot_schema v) (\<lambda>schema.
     andE (reject_event (\<not> eq_str (jget d ''schema'') schema))
     (andE (reject_event (\<not> in_strs (jget d ''device_state'') capture_device_states))
     (let ds = jget d ''device_state''; active = jget d ''active_recording'';
          retained = jget d ''retained_unsuccessful''; is_active = in_strs ds capture_active_states in
      andE (if is_active
            then andE (require_session_id session)
                (andE (validate_snapshot_recording F (case ds of JStr s \<Rightarrow> [s] | _ \<Rightarrow> []) epoch revision session active)
                  (reject_event (retained \<noteq> JNull)))
            else reject_event (active \<noteq> JNull))
      (andE (if retained \<noteq> JNull
             then andE (reject_event (\<not> eq_str ds ''idle''))
                    (validate_snapshot_recording F capture_terminal_states epoch revision JNull retained)
             else Inr ())
      (andE (validate_runtime F v (jget d ''runtime''))
        (validate_live_imu_relation v (jget d ''runtime'')
           (if is_active then active_session active else JNull))))))))"

section \<open>Event data\<close>

definition validate_state_data :: "jobject \<Rightarrow> unit res" where
  "validate_state_data d =
     andE (reject_event (\<not> has_keys d state_keys \<or> \<not> eq_str (jget d ''schema'') ''ylx.capture-state-event.v2''))
     (andE (reject_event (\<not> in_strs (jget d ''state'') capture_recording_states))
     (andE (reject_event (\<not> str_in (jget d ''volume_id'') uuid_v4))
       (reject_event (\<not> str_in (jget d ''generation_id'') uuid_v4))))"

definition validate_progress_data :: "jobject \<Rightarrow> unit res" where
  "validate_progress_data d =
     andE (reject_event (\<not> has_keys d progress_keys \<or>
             \<not> eq_str (jget d ''schema'') ''ylx.capture-progress-event.v2''))
     (andE (reject_event (\<not> in_strs (jget d ''phase'') capture_active_states))
     (andE (reject_event (\<not> in_strs (jget d ''unit'') [''frames'', ''bytes'', ''artifacts'', ''checks'']))
     (andE (reject_event (\<not> nonnegative_number (jget d ''elapsed_seconds'')))
     (andE (reject_event (\<not> int_in (jget d ''completed_units'') (\<lambda>i. 0 \<le> i)))
       (reject_event (jget d ''total_units'' \<noteq> JNull \<and> \<not> int_in (jget d ''total_units'') (\<lambda>i. 0 \<le> i)))))))"

definition validate_diagnostic :: "event_formats \<Rightarrow> json \<Rightarrow> unit res" where
  "validate_diagnostic F v = andE (validate_finite_json v) (reject_event (\<not> ef_diagnostic F v))"

definition validate_diagnostic_event_data :: "event_formats \<Rightarrow> jobject \<Rightarrow> unit res" where
  "validate_diagnostic_event_data F d =
     andE (reject_event (\<not> has_keys d [''schema'', ''diagnostic''] \<or>
             \<not> eq_str (jget d ''schema'') ''ylx.capture-diagnostic-event.v2''))
       (validate_diagnostic F (jget d ''diagnostic''))"

definition safe_swap_string_fields :: "string list" where
  "safe_swap_string_fields =
     [''session_id'', ''volume_id'', ''generation_id'', ''manifest_id'', ''manifest_sha256'', ''sealed_at'',
      ''released_at'', ''release_state'']"

definition validate_safe_swap_v3_receipt :: "event_formats \<Rightarrow> jobject \<Rightarrow> unit res" where
  "validate_safe_swap_v3_receipt F r =
     andE (validate_finite_json (JObj r))
     (andE (reject_event (\<not> has_keys r safe_swap_v3_keys))
     (andE (reject_event (\<not> eq_str (jget r ''schema'') ''ylx.safe-swap-receipt.v3'' \<or>
              \<not> list_all (\<lambda>k. is_str (jget r k)) safe_swap_string_fields))
       (reject_event
         (\<not> str_in (jget r ''session_id'') uuid_v7 \<or>
          \<not> str_in (jget r ''volume_id'') uuid_v4 \<or>
          \<not> str_in (jget r ''generation_id'') uuid_v4 \<or>
          \<not> str_in (jget r ''manifest_id'') uuid_v7 \<or>
          \<not> sha256_text (jget r ''manifest_sha256'') \<or>
          \<not> in_strs (jget r ''release_state'') [''unmounted'', ''device-released''] \<or>
          \<not> date_time F (jget r ''sealed_at'') \<or>
          \<not> date_time F (jget r ''released_at'') \<or>
          \<not> int_in (jget r ''open_handle_count'') (\<lambda>i. i = 0)))))"

text \<open>The data of an event of a known type.\<close>

definition validate_event_data :: "event_formats \<Rightarrow> jobject \<Rightarrow> jobject \<Rightarrow> unit res" where
  "validate_event_data F ev d =
     (let session = jget ev ''session_id''; type = jget ev ''type'' in
      if eq_str type ''snapshot'' then
        validate_snapshot_data F ''source'' (jget ev ''authority_epoch'') (jget ev ''source_revision'') session d
      else if eq_str type ''state'' then andE (require_session_id session) (validate_state_data d)
      else if eq_str type ''progress'' then andE (require_session_id session) (validate_progress_data d)
      else if eq_str type ''diagnostic'' then validate_diagnostic_event_data F d
      else andE (require_session_id session)
             (andE (validate_safe_swap_v3_receipt F d)
               (reject_event (py_ne (jget d ''session_id'') session))))"

definition validate_source_event :: "event_formats \<Rightarrow> jobject \<Rightarrow> unit res" where
  "validate_source_event F ev =
     andE (validate_finite_json (JObj ev))
     (andE (reject_event (\<not> has_keys ev source_event_keys))
     (andE (reject_event (\<not> str_in (jget ev ''authority_epoch'') uuid_v4))
     (andE (reject_event (\<not> int_in (jget ev ''source_revision'') (\<lambda>i. 0 \<le> i)))
     (andE (reject_event (\<not> in_strs (jget ev ''type'') source_event_types))
     (andE (reject_event (\<not> date_time F (jget ev ''occurred_at'')))
     (andE (reject_event (jget ev ''session_id'' \<noteq> JNull \<and> \<not> str_in (jget ev ''session_id'') uuid_v7))
       (case jget ev ''data'' of
          JObj d \<Rightarrow> validate_event_data F ev d
        | _ \<Rightarrow> Inl invalid_source_event)))))))"

definition capture_status_keys :: "string list" where
  "capture_status_keys = [''schema'', ''authority_epoch'', ''source_revision'', ''snapshot'']"

definition status_session :: "jobject \<Rightarrow> json" where
  "status_session snap =
     (case jget snap ''active_recording'' of
        JObj a \<Rightarrow> (case jget a ''recording_state'' of JObj st \<Rightarrow> jget st ''session_id'' | _ \<Rightarrow> JNull)
      | _ \<Rightarrow> JNull)"

definition validate_capture_status :: "event_formats \<Rightarrow> string \<Rightarrow> json \<Rightarrow> unit res" where
  "validate_capture_status F v st =
     andE (source_or_api_version v)
     (andE (validate_finite_json st)
       (case st of
          JObj d \<Rightarrow>
            andE (reject_event (\<not> has_keys d capture_status_keys))
            (bindE (capture_status_schema v) (\<lambda>schema.
              andE (reject_event
                (\<not> eq_str (jget d ''schema'') schema \<or>
                 \<not> str_in (jget d ''authority_epoch'') uuid_v4 \<or>
                 \<not> int_in (jget d ''source_revision'') (\<lambda>i. 0 \<le> i)))
              (case jget d ''snapshot'' of
                 JObj snap \<Rightarrow>
                   validate_snapshot_data F v (jget d ''authority_epoch'') (jget d ''source_revision'')
                     (status_session snap) snap
               | _ \<Rightarrow> Inl invalid_source_event)))
        | _ \<Rightarrow> Inl invalid_source_event))"

section \<open>Projections\<close>

definition project_runtime :: "string \<Rightarrow> jobject \<Rightarrow> jobject" where
  "project_runtime v rt =
     (if v \<in> set legacy_api_versions then jpop ''camera_focus'' (jpop ''camera'' (jset ''live_imu'' JNull rt))
      else rt)"

definition with_runtime :: "string \<Rightarrow> jobject \<Rightarrow> jobject" where
  "with_runtime v d =
     (case jget d ''runtime'' of JObj rt \<Rightarrow> jset ''runtime'' (JObj (project_runtime v rt)) d | _ \<Rightarrow> d)"

definition project_snapshot_data :: "string \<Rightarrow> jobject \<Rightarrow> jobject res" where
  "project_snapshot_data v d =
     bindE (if eq_str (jget d ''schema'') ''ylx.capture-snapshot-event.v2''
            then bindE (capture_snapshot_schema v) (\<lambda>s. Inr (jset ''schema'' (JStr s) d)) else Inr d)
       (\<lambda>d. Inr (with_runtime v d))"

definition project_capture_status :: "string \<Rightarrow> json \<Rightarrow> json res" where
  "project_capture_status v st =
     bindE (event_schema_version v) (\<lambda>_.
     (case st of
        JObj d \<Rightarrow>
          bindE (if eq_str (jget d ''schema'') ''ylx.capture-status.v2''
                 then bindE (capture_status_schema v) (\<lambda>s. Inr (jset ''schema'' (JStr s) d)) else Inr d) (\<lambda>d.
          (case jget d ''snapshot'' of
             JObj snap \<Rightarrow> bindE (project_snapshot_data v snap) (\<lambda>snap. Inr (JObj (jset ''snapshot'' (JObj snap) d)))
           | _ \<Rightarrow> Inr (JObj d)))
      | _ \<Rightarrow> Inr st))"

definition project_device_descriptor :: "string \<Rightarrow> json \<Rightarrow> json res" where
  "project_device_descriptor v descriptor =
     bindE (event_schema_version v)
       (\<lambda>_. Inr (case descriptor of JObj d \<Rightarrow> JObj (with_runtime v d) | _ \<Rightarrow> descriptor))"

definition project_source_event :: "string \<Rightarrow> jobject \<Rightarrow> jobject res" where
  "project_source_event v ev =
     bindE (event_schema_version v) (\<lambda>_.
     (if eq_str (jget ev ''type'') ''snapshot'' then
        (case jget ev ''data'' of
           JObj d \<Rightarrow> bindE (project_snapshot_data v d) (\<lambda>d. Inr (jset ''data'' (JObj d) ev))
         | _ \<Rightarrow> Inr ev)
      else Inr ev))"

end
