(* ===== verification/ReplayLog.thy ===== *)
theory ReplayLog
  imports Prelude
begin

text \<open>
  The interface of the two replay buffers behind the server-sent event streams
  (\<open>EventReplayBuffer\<close> of \<open>api/events.py\<close> and \<open>_NetworkEventReplayBuffer\<close> of \<open>api/gateway.py\<close>): a
  \<open>deque\<close> with \<open>maxlen\<close> whose elements carry strictly increasing delivery identifiers.  A provider
  promises how an append changes the deque; everything a reader relies on follows here once.
\<close>

section \<open>\<open>collections.deque(maxlen=n)\<close>\<close>

definition deque_append :: "nat \<Rightarrow> 'a list \<Rightarrow> 'a \<Rightarrow> 'a list" where
  "deque_append n xs x = drop (length (xs @ [x]) - n) (xs @ [x])"

lemma deque_append_length: "length xs \<le> n \<Longrightarrow> 0 < n \<Longrightarrow> length (deque_append n xs x) \<le> n"
  by (simp add: deque_append_def)

lemma deque_append_set: "set (deque_append n xs x) \<subseteq> insert x (set xs)"
  unfolding deque_append_def using set_drop_subset [of "length (xs @ [x]) - n" "xs @ [x]"] by auto

lemma deque_append_last: "0 < n \<Longrightarrow> deque_append n xs x \<noteq> [] \<and> last (deque_append n xs x) = x"
  by (cases n) (auto simp: deque_append_def)

text \<open>The deque is the end of everything that was ever appended.\<close>

lemma deque_append_suffix:
  assumes "xs = drop (length l - n) l"
  shows "deque_append n xs x = drop (length (l @ [x]) - n) (l @ [x])"
proof (cases "length l \<le> n")
  case True
  then show ?thesis using assms by (auto simp: deque_append_def)
next
  case False
  have "length xs = n" using assms False by simp
  then show ?thesis using assms False by (cases n) (auto simp: deque_append_def Suc_diff_le Suc_diff_Suc not_le)
qed

section \<open>The interface\<close>

locale replay_log =
  fixes ident :: "'e \<Rightarrow> nat"
    and entries :: "'s \<Rightarrow> 'e list"
    and next_ident :: "'s \<Rightarrow> nat"
    and room :: "'s \<Rightarrow> nat"
    and add_entry :: "'e \<Rightarrow> 's \<Rightarrow> 's"
  assumes add_entries: "entries (add_entry e s) = deque_append (room s) (entries s) e"
    and add_next: "next_ident (add_entry e s) = next_ident s + 1"
    and add_room: "room (add_entry e s) = room s"
begin

definition ordered :: "'s \<Rightarrow> bool" where
  "ordered s \<longleftrightarrow> 0 < room s \<and> length (entries s) \<le> room s \<and> sorted_wrt (<) (map ident (entries s)) \<and>
     (\<forall>e \<in> set (entries s). ident e < next_ident s)"

definition newer :: "nat \<Rightarrow> 's \<Rightarrow> 'e list" where
  "newer c s = filter (\<lambda>e. c < ident e) (entries s)"

lemma add_ordered:
  assumes "ordered s" and "ident e = next_ident s"
  shows "ordered (add_entry e s)"
proof -
  have "sorted_wrt (<) (map ident (entries s @ [e]))"
    using assms by (auto simp: ordered_def sorted_wrt_append)
  then have "sorted_wrt (<) (map ident (deque_append (room s) (entries s) e))"
    unfolding deque_append_def by (metis drop_map sorted_wrt_drop)
  moreover have "\<forall>x \<in> set (deque_append (room s) (entries s) e). ident x < next_ident s + 1"
    using deque_append_set [of "room s" "entries s" e] assms by (fastforce simp: ordered_def)
  ultimately show ?thesis
    using assms(1) by (simp add: ordered_def add_entries add_next add_room deque_append_length)
qed

text \<open>A reader whose cursor is still in the deque gets exactly what was appended after it.\<close>

lemma newer_complete:
  assumes "ordered s" and "entries s = pre @ e # post"
  shows "newer (ident e) s = post"
proof -
  have "\<forall>x \<in> set pre. ident x < ident e" and "\<forall>x \<in> set post. ident e < ident x"
    using assms by (auto simp: ordered_def sorted_wrt_append)
  then show ?thesis
    using assms(2) by (auto simp: newer_def filter_empty_conv intro!: filter_True)
qed

lemma newer_none: "ordered s \<Longrightarrow> next_ident s \<le> Suc c \<Longrightarrow> newer c s = []"
  by (force simp: ordered_def newer_def filter_empty_conv)

lemma ident_unique:
  assumes "ordered s" and "a \<in> set (entries s)" and "b \<in> set (entries s)" and "ident a = ident b"
  shows "a = b"
proof -
  have "distinct (map ident (entries s))"
    using assms(1) by (auto simp: ordered_def strict_sorted_iff)
  then show ?thesis using assms(2-4) by (auto simp: distinct_map dest: inj_onD)
qed

text \<open>A log that numbers its entries without a hole, so that a cursor is an index.\<close>

definition dense :: "'s \<Rightarrow> bool" where
  "dense s \<longleftrightarrow> length (entries s) < next_ident s \<and>
     map ident (entries s) = [next_ident s - length (entries s)..<next_ident s]"

lemma add_dense:
  assumes "dense s" and "ident e = next_ident s"
  shows "dense (add_entry e s)"
proof -
  let ?n = "next_ident s" and ?l = "length (entries s)"
  have "map ident (entries s @ [e]) = [?n - ?l..<Suc ?n]"
    using assms by (simp add: dense_def)
  then have "map ident (deque_append (room s) (entries s) e) =
    drop (Suc ?l - room s) [?n - ?l..<Suc ?n]"
    unfolding deque_append_def by (metis drop_map length_append_singleton)
  moreover have "?l < ?n" using assms(1) by (simp add: dense_def)
  ultimately have "map ident (deque_append (room s) (entries s) e) =
      [?n - ?l + (Suc ?l - room s)..<Suc ?n]"
    by (simp add: drop_upt)
  moreover have "length (deque_append (room s) (entries s) e) = Suc ?l - (Suc ?l - room s)"
    by (simp add: deque_append_def)
  moreover have "?n - ?l + (Suc ?l - room s) = Suc ?n - (Suc ?l - (Suc ?l - room s))"
    using \<open>?l < ?n\<close> by auto
  ultimately show ?thesis
    using \<open>?l < ?n\<close> by (auto simp: dense_def add_entries add_next)
qed

lemma dense_ident:
  assumes "dense s" and "i < length (entries s)"
  shows "ident (entries s ! i) = next_ident s - length (entries s) + i"
proof -
  have "ident (entries s ! i) = map ident (entries s) ! i" using assms(2) by simp
  also have "\<dots> = [next_ident s - length (entries s)..<next_ident s] ! i"
    using assms(1) by (simp add: dense_def)
  also have "\<dots> = next_ident s - length (entries s) + i"
    using assms by (subst nth_upt) (auto simp: dense_def)
  finally show ?thesis .
qed

lemma dense_ordered:
  assumes "dense s" and "0 < room s" and "length (entries s) \<le> room s"
  shows "ordered s"
proof -
  have "\<forall>x \<in> ident ` set (entries s). x < next_ident s"
    using assms(1) by (metis atLeastLessThan_iff dense_def set_map set_upt)
  then show ?thesis using assms by (auto simp: ordered_def dense_def)
qed

end

end
