(* ===== verification/EventReplay.thy ===== *)
theory EventReplay
  imports EventValidators ReplayLog
begin

text \<open>
  \<open>EventReplayBuffer\<close> of \<open>api/events.py\<close>: the daemon's source events get delivery identifiers and
  a bounded replay window.  An operation returns its outcome beside the buffer; the snapshot
  callback, the JSON printer and what other threads publish during a wait are arguments.  The
  methods hold the buffer's lock throughout, so each is one step.
\<close>

record buffered_event =
  bv_id :: nat
  bv_source :: jobject
  bv_resync :: bool

record replay_buffer =
  rb_capacity :: nat
  rb_events :: "buffered_event list"
  rb_next :: nat

record sse_event =
  sv_id :: nat
  sv_version :: string
  sv_source :: jobject

definition new_buffer :: "int \<Rightarrow> replay_buffer res" where
  "new_buffer capacity =
     (if capacity < 1 then Inl ValueError
      else Inr \<lparr>rb_capacity = nat capacity, rb_events = [], rb_next = 1\<rparr>)"

definition invalid_cursor :: pyexc where
  "invalid_cursor = AppError ''InvalidEventCursor'' [] False"

definition unsupported_version :: pyexc where
  "unsupported_version = AppError ''UnsupportedEventVersion'' [] False"

section \<open>Publishing\<close>

definition append_event :: "buffered_event \<Rightarrow> replay_buffer \<Rightarrow> replay_buffer" where
  "append_event e buf =
     buf\<lparr>rb_events := deque_append (rb_capacity buf) (rb_events buf) e, rb_next := rb_next buf + 1\<rparr>"

definition publish_locked ::
  "event_formats \<Rightarrow> jobject \<Rightarrow> bool \<Rightarrow> replay_buffer \<Rightarrow> buffered_event res \<times> replay_buffer" where
  "publish_locked F source resync buf =
     tryS (andE (validate_source_event F source)
            (reject_event (resync \<and> \<not> eq_str (jget source ''type'') ''snapshot''))) buf
       (\<lambda>_. let e = \<lparr>bv_id = rb_next buf, bv_source = source, bv_resync = resync\<rparr> in
            (Inr e, append_event e buf))"

definition publish :: "event_formats \<Rightarrow> jobject \<Rightarrow> replay_buffer \<Rightarrow> string res \<times> replay_buffer" where
  "publish F source buf =
     (case publish_locked F source False buf of
        (Inl e, b) \<Rightarrow> (Inl e, b)
      | (Inr ev, b) \<Rightarrow> (Inr (nat_digits (bv_id ev)), b))"

section \<open>Reading\<close>

definition for_version :: "string \<Rightarrow> buffered_event \<Rightarrow> sse_event res" where
  "for_version v e =
     (if v = ''v2'' \<and> eq_str (jget (bv_source e) ''type'') ''safe_swap'' then Inl unsupported_version
      else bindE (project_source_event v (bv_source e))
             (\<lambda>p. Inr \<lparr>sv_id = bv_id e, sv_version = v, sv_source = p\<rparr>))"

definition next_revision :: "json \<Rightarrow> json" where
  "next_revision r = (case r of JInt i \<Rightarrow> JInt (i + 1) | _ \<Rightarrow> JNull)"

text \<open>What the code asks of two consecutive events where the second is not a resynchronisation.\<close>

definition linked :: "jobject \<Rightarrow> jobject \<Rightarrow> bool" where
  "linked p c \<longleftrightarrow>
     py_eq (jget c ''authority_epoch'') (jget p ''authority_epoch'') \<and>
     (eq_str (jget c ''type'') ''progress'' \<and>
      py_eq (jget c ''source_revision'') (jget p ''source_revision'') \<and>
      py_eq (jget c ''session_id'') (jget p ''session_id'') \<or>
      py_eq (jget c ''source_revision'') (next_revision (jget p ''source_revision'')))"

fun source_is_contiguous :: "buffered_event list \<Rightarrow> bool" where
  "source_is_contiguous (p # c # es) =
     ((bv_resync c \<or> linked (bv_source p) (bv_source c)) \<and> source_is_contiguous (c # es))"
| "source_is_contiguous _ = True"

fun for_versions :: "string \<Rightarrow> buffered_event list \<Rightarrow> sse_event list res" where
  "for_versions v [] = Inr []"
| "for_versions v (e # es) =
     bindE (for_version v e) (\<lambda>s. bindE (for_versions v es) (\<lambda>ss. Inr (s # ss)))"

text \<open>Publish the callback's snapshot and answer with it alone.\<close>

definition resync_with ::
  "event_formats \<Rightarrow> string \<Rightarrow> jobject res \<Rightarrow> replay_buffer \<Rightarrow> sse_event list res \<times> replay_buffer" where
  "resync_with F v snapshot buf =
     tryS snapshot buf (\<lambda>source.
       (case publish_locked F source True buf of
          (Inl e, b) \<Rightarrow> (Inl e, b)
        | (Inr ev, b) \<Rightarrow> (bindE (for_version v ev) (\<lambda>s. Inr [s]), b)))"

definition as_delivery :: "'a res \<times> 's \<Rightarrow> 'a option res \<times> 's" where
  "as_delivery m = (bindE (fst m) (\<lambda>x. Inr (Some x)), snd m)"

definition events_after_locked ::
  "event_formats \<Rightarrow> string \<Rightarrow> jobject res \<Rightarrow> int \<Rightarrow> replay_buffer \<Rightarrow> sse_event list option res \<times> replay_buffer" where
  "events_after_locked F v snapshot cursor buf =
     (let es = rb_events buf in
      if es = [] \<or> cursor < int (bv_id (hd es)) \<or> int (bv_id (last es)) < cursor
      then as_delivery (resync_with F v snapshot buf)
      else let i = nat (cursor - int (bv_id (hd es))) in
        if length es \<le> i \<or> int (bv_id (es ! i)) \<noteq> cursor then as_delivery (resync_with F v snapshot buf)
        else if drop (i + 1) es = [] then (Inr None, buf)
        else if \<not> source_is_contiguous (drop i es) then as_delivery (resync_with F v snapshot buf)
        else (bindE (for_versions v (drop (i + 1) es)) (\<lambda>ss. Inr (Some ss)), buf))"

text \<open>\<open>int(text)\<close> refuses more than 4300 digits.\<close>

definition parse_cursor :: "string option \<Rightarrow> int option res" where
  "parse_cursor last_event_id =
     (case last_event_id of
        None \<Rightarrow> Inr None
      | Some s \<Rightarrow>
          if s = [] \<or> \<not> list_all is_digit s then Inl invalid_cursor
          else if 4300 < length s then Inl invalid_cursor
          else Inr (Some (int (digits_value s))))"

definition replay ::
  "event_formats \<Rightarrow> string \<Rightarrow> jobject res \<Rightarrow> string option \<Rightarrow> replay_buffer \<Rightarrow> sse_event list res \<times> replay_buffer" where
  "replay F api_version snapshot last_event_id buf =
     tryS (event_schema_version api_version) buf (\<lambda>v.
     tryS (parse_cursor last_event_id) buf (\<lambda>cursor.
       (case cursor of
          None \<Rightarrow> resync_with F v snapshot buf
        | Some c \<Rightarrow>
            (case events_after_locked F v snapshot c buf of
               (Inl e, b) \<Rightarrow> (Inl e, b)
             | (Inr None, b) \<Rightarrow> (Inr [], b)
             | (Inr (Some ss), b) \<Rightarrow> (Inr ss, b)))))"

text \<open>One turn of the waiting loop: whether the caller cancelled, the time left when nothing new
  was found, and what other threads published before the condition woke this one.\<close>

record wait_turn =
  wt_cancelled :: bool
  wt_remaining :: rat
  wt_between :: "(jobject \<times> bool) list"

fun published :: "event_formats \<Rightarrow> (jobject \<times> bool) list \<Rightarrow> replay_buffer \<Rightarrow> replay_buffer" where
  "published F [] buf = buf"
| "published F ((source, resync) # rest) buf =
     published F rest (snd (publish_locked F source resync buf))"

text \<open>\<open>None\<close>: still waiting when the given turns are used up.\<close>

fun wait_loop ::
  "event_formats \<Rightarrow> string \<Rightarrow> jobject res \<Rightarrow> int \<Rightarrow> wait_turn list \<Rightarrow> replay_buffer \<Rightarrow>
     (sse_event list res \<times> replay_buffer) option" where
  "wait_loop F v snapshot cursor [] buf = None"
| "wait_loop F v snapshot cursor (t # ts) buf =
     (if wt_cancelled t then Some (Inr [], buf)
      else (case events_after_locked F v snapshot cursor buf of
         (Inl e, b) \<Rightarrow> Some (Inl e, b)
       | (Inr (Some ss), b) \<Rightarrow> Some (Inr ss, b)
       | (Inr None, b) \<Rightarrow>
           if wt_remaining t \<le> 0 then Some (Inr [], b)
           else wait_loop F v snapshot cursor ts (published F (wt_between t) b)))"

definition wait_after ::
  "event_formats \<Rightarrow> string \<Rightarrow> jobject res \<Rightarrow> json \<Rightarrow> rat \<Rightarrow> wait_turn list \<Rightarrow> replay_buffer \<Rightarrow>
     (sse_event list res \<times> replay_buffer) option" where
  "wait_after F api_version snapshot delivery_id timeout turns buf =
     (if \<not> int_in delivery_id (\<lambda>i. 0 \<le> i) then Some (Inl invalid_cursor, buf)
      else if timeout < 0 then Some (Inl ValueError, buf)
      else (case event_schema_version api_version of
         Inl e \<Rightarrow> Some (Inl e, buf)
       | Inr v \<Rightarrow> wait_loop F v snapshot (case delivery_id of JInt i \<Rightarrow> i | _ \<Rightarrow> 0) turns buf))"

section \<open>The wire form\<close>

fun put_all :: "jobject \<Rightarrow> jobject \<Rightarrow> jobject" where
  "put_all [] d = d"
| "put_all ((k, v) # rest) d = put_all rest (jset k v d)"

definition type_text :: "jobject \<Rightarrow> string" where
  "type_text d = (case jget d ''type'' of JStr s \<Rightarrow> s | _ \<Rightarrow> [])"

definition encode_event :: "(json \<Rightarrow> string) \<Rightarrow> sse_event \<Rightarrow> string" where
  "encode_event dumps e =
     (let delivery_id = nat_digits (sv_id e);
          payload = put_all (sv_source e)
            [(''schema'', JStr (''ylx.capture-event.'' @ sv_version e)), (''sse_delivery_id'', JStr delivery_id)];
          data = dumps (JObj payload) in
      ''id: '' @ delivery_id @ [CHR 0x0A] @ ''event: '' @ type_text (sv_source e) @ [CHR 0x0A] @
      ''data: '' @ data @ [CHR 0x0A, CHR 0x0A])"

definition heartbeat_comment :: string where
  "heartbeat_comment = '': heartbeat'' @ [CHR 0x0A, CHR 0x0A]"

section \<open>The buffer as a replay log\<close>

interpretation eb: replay_log bv_id rb_events rb_next rb_capacity append_event
  by unfold_locales (simp_all add: append_event_def)

definition good_buffer :: "replay_buffer \<Rightarrow> bool" where
  "good_buffer buf \<longleftrightarrow> 0 < rb_capacity buf \<and> length (rb_events buf) \<le> rb_capacity buf \<and> eb.dense buf \<and>
     (\<forall>e \<in> set (rb_events buf). bv_resync e \<longrightarrow> eq_str (jget (bv_source e) ''type'') ''snapshot'')"

lemma good_buffer_ordered: "good_buffer buf \<Longrightarrow> eb.ordered buf"
  by (auto simp: good_buffer_def intro: eb.dense_ordered)

lemma new_buffer_good: "new_buffer capacity = Inr buf \<Longrightarrow> good_buffer buf"
  by (auto simp: new_buffer_def good_buffer_def eb.dense_def split: if_splits)

lemma publish_locked_Inr:
  "publish_locked F source resync buf = (Inr e, buf') \<longleftrightarrow>
     validate_source_event F source = Inr () \<and>
     (resync \<longrightarrow> eq_str (jget source ''type'') ''snapshot'') \<and>
     e = \<lparr>bv_id = rb_next buf, bv_source = source, bv_resync = resync\<rparr> \<and> buf' = append_event e buf"
  by (auto simp: publish_locked_def tryS_def Let_def andE_Inl split: sum.splits)

lemma publish_locked_Inl: "publish_locked F source resync buf = (Inl x, buf') \<Longrightarrow> buf' = buf"
  by (auto simp: publish_locked_def tryS_def Let_def split: sum.splits)

lemma append_event_good:
  assumes "good_buffer buf" and "bv_id e = rb_next buf"
    and "bv_resync e \<Longrightarrow> eq_str (jget (bv_source e) ''type'') ''snapshot''"
  shows "good_buffer (append_event e buf)"
proof -
  have "set (rb_events (append_event e buf)) \<subseteq> insert e (set (rb_events buf))"
    using deque_append_set by (fastforce simp: append_event_def)
  moreover have "eb.dense (append_event e buf)"
    using assms(1,2) by (auto simp: good_buffer_def intro: eb.add_dense)
  moreover have "length (rb_events (append_event e buf)) \<le> rb_capacity (append_event e buf)"
    and "0 < rb_capacity (append_event e buf)"
    using assms(1) by (simp_all add: good_buffer_def append_event_def deque_append_length)
  ultimately show ?thesis
    using assms(1,3) unfolding good_buffer_def by blast
qed

lemma publish_locked_good:
  assumes "publish_locked F source resync buf = (r, buf')" and "good_buffer buf"
  shows "good_buffer buf'"
proof (cases r)
  case (Inl x)
  then show ?thesis using assms publish_locked_Inl by blast
next
  case (Inr e)
  then show ?thesis
    using assms by (auto simp: publish_locked_Inr intro!: append_event_good)
qed

section \<open>A stream of the gateway\<close>

text \<open>Every buffer the daemon can reach: created, then published to.\<close>

inductive reachable_buffer :: "event_formats \<Rightarrow> replay_buffer \<Rightarrow> bool" for F where
  created: "new_buffer capacity = Inr buf \<Longrightarrow> reachable_buffer F buf"
| published: "reachable_buffer F buf \<Longrightarrow> publish_locked F source resync buf = (r, buf') \<Longrightarrow> reachable_buffer F buf'"

lemma reachable_buffer_good: "reachable_buffer F buf \<Longrightarrow> good_buffer buf"
  by (induction rule: reachable_buffer.induct) (auto intro: new_buffer_good publish_locked_good)

text \<open>\<open>_capture_events\<close> of \<open>api/gateway.py\<close> for one connection: replay from the client's
  \<open>Last-Event-ID\<close>, then wait after the last delivered identifier, again and again, while other
  threads publish.  The last two arguments are the cursor and everything delivered so far.\<close>

definition stream_cursor :: "int \<Rightarrow> sse_event list \<Rightarrow> int" where
  "stream_cursor c delivered = (if delivered = [] then c else int (sv_id (last delivered)))"

definition start_cursor :: "string option \<Rightarrow> int" where
  "start_cursor last_event_id = (case last_event_id of None \<Rightarrow> 0 | Some s \<Rightarrow> int (digits_value s))"

inductive stream ::
  "event_formats \<Rightarrow> string \<Rightarrow> string option \<Rightarrow> replay_buffer \<Rightarrow> int \<Rightarrow> sse_event list \<Rightarrow> bool"
  for F v start where
  opened: "reachable_buffer F buf \<Longrightarrow> replay F v snapshot start buf = (Inr new, buf') \<Longrightarrow>
    stream F v start buf' (stream_cursor (start_cursor start) new) new"
| elsewhere: "stream F v start buf c old \<Longrightarrow> publish_locked F source resync buf = (r, buf') \<Longrightarrow>
    stream F v start buf' c old"
| waited: "stream F v start buf c old \<Longrightarrow>
    wait_after F v snapshot (JInt c) timeout turns buf = Some (Inr new, buf') \<Longrightarrow>
    stream F v start buf' (stream_cursor c new) (old @ new)"

end
