(* ===== verification/ResourceContracts.thy ===== *)
theory ResourceContracts
  imports EventValidators
begin

text \<open>
  The provider resources \<open>api/events.py\<close> validates before the gateway serves them: the device
  descriptor, the session page (closed items, no repeated session, newest first) and the retained
  outcome.
\<close>

section \<open>Device descriptor\<close>

definition is_device_label :: "string \<Rightarrow> bool" where
  "is_device_label s \<longleftrightarrow> take 4 s = ''YLX-'' \<and> length s = 12 \<and>
     list_all (\<lambda>c. is_digit c \<or> (65 \<le> (of_char c :: nat) \<and> (of_char c :: nat) \<le> 70)) (drop 4 s)"

definition validate_recording_device :: "json \<Rightarrow> unit res" where
  "validate_recording_device v =
     (case v of
        JObj d \<Rightarrow>
          andE (reject_event (\<not> has_keys d [''device_id'', ''device_label'']))
          (andE (reject_event (\<not> str_in (jget d ''device_id'') uuid_v4 \<or> \<not> is_str (jget d ''device_label'')))
            (reject_event (\<not> str_in (jget d ''device_label'') is_device_label)))
      | _ \<Rightarrow> Inl invalid_source_event)"

definition validate_build :: "json \<Rightarrow> unit res" where
  "validate_build v =
     (case v of
        JObj d \<Rightarrow>
          andE (reject_event (\<not> has_keys d [''package_version'', ''commit'', ''build_id'']))
            (reject_event
              (\<not> bounded_string (jget d ''package_version'') 64 \<or>
               \<not> str_in (jget d ''commit'') (\<lambda>s. 40 \<le> length s \<and> length s \<le> 64 \<and> list_all is_hex s) \<or>
               \<not> bounded_string (jget d ''build_id'') 128))
      | _ \<Rightarrow> Inl invalid_source_event)"

definition capability_keys :: "string \<Rightarrow> string list" where
  "capability_keys v =
     [''capture'', ''preview'', ''range_download'', ''network_mutation''] @
     (if v = ''v4'' then [''calibration_capture'', ''session_list'', ''session_detail'', ''artifact_download'',
                        ''capture_status'', ''session_deletion'']
      else [])"

definition validate_calibration_capability :: "json \<Rightarrow> unit res" where
  "validate_calibration_capability v =
     (case v of
        JObj c \<Rightarrow>
          andE (reject_event (\<not> has_keys c [''supported'', ''enabled'', ''disabled_reason'', ''required_video_layout'']))
            (let enabled = jget c ''enabled''; reason = jget c ''disabled_reason'' in
             reject_event
               (\<not> is_bool (jget c ''supported'') \<or> \<not> is_bool enabled \<or>
                \<not> eq_str (jget c ''required_video_layout'') ''split-eyes'' \<or>
                (enabled = JBool True \<and> (jget c ''supported'' \<noteq> JBool True \<or> reason \<noteq> JNull)) \<or>
                (enabled = JBool False \<and> \<not> in_strs reason calibration_disabled_reasons)))
      | _ \<Rightarrow> Inl invalid_source_event)"

definition validate_capabilities :: "string \<Rightarrow> json \<Rightarrow> unit res" where
  "validate_capabilities v cap =
     (case cap of
        JObj d \<Rightarrow>
          andE (reject_event (\<not> has_keys d (capability_keys v)))
          (andE (reject_event
             (\<not> is_bool (jget d ''capture'') \<or> \<not> is_bool (jget d ''preview'') \<or>
              jget d ''range_download'' \<noteq> JBool True \<or>
              \<not> is_bool (jget d ''network_mutation'') \<or>
              (v \<noteq> ''v4'' \<and> jget d ''network_mutation'' \<noteq> JBool False) \<or>
              (v = ''v4'' \<and>
                (jget d ''session_list'' \<noteq> JBool True \<or> jget d ''session_detail'' \<noteq> JBool True \<or>
                 jget d ''artifact_download'' \<noteq> JBool True \<or> jget d ''capture_status'' \<noteq> JBool True \<or>
                 \<not> is_bool (jget d ''session_deletion'')))))
            (if v \<noteq> ''v4'' then Inr () else validate_calibration_capability (jget d ''calibration_capture'')))
      | _ \<Rightarrow> Inl invalid_source_event)"

definition validate_device_storage :: "json \<Rightarrow> unit res" where
  "validate_device_storage v =
     (case v of
        JObj d \<Rightarrow>
          andE (reject_event (\<not> has_keys d [''volume_id'', ''total_bytes'', ''available_bytes'', ''writable'']))
            (reject_event
              ((jget d ''volume_id'' \<noteq> JNull \<and> \<not> str_in (jget d ''volume_id'') uuid_v4) \<or>
               \<not> int_in (jget d ''total_bytes'') (\<lambda>i. 0 \<le> i) \<or>
               \<not> int_in (jget d ''available_bytes'') (\<lambda>i. 0 \<le> i) \<or>
               \<not> is_bool (jget d ''writable'') \<or>
               (jget d ''volume_id'' = JNull \<and>
                 (jget d ''total_bytes'' \<noteq> JInt 0 \<or> jget d ''available_bytes'' \<noteq> JInt 0 \<or>
                  jget d ''writable'' = JBool True))))
      | _ \<Rightarrow> Inl invalid_source_event)"

definition device_descriptor_keys :: "string list" where
  "device_descriptor_keys =
     [''schema'', ''device'', ''hardware_fingerprint'', ''api_version'', ''build'', ''security_profile'',
      ''capabilities'', ''storage'', ''runtime'']"

definition is_sha256_uri :: "string \<Rightarrow> bool" where
  "is_sha256_uri s \<longleftrightarrow> take 7 s = ''sha256:'' \<and> hex_n 64 (drop 7 s)"

definition remove_v :: "string \<Rightarrow> string" where
  "remove_v s = (case s of [] \<Rightarrow> [] | c # t \<Rightarrow> if c = CHR ''v'' then t else s)"

definition validate_device_descriptor :: "event_formats \<Rightarrow> string \<Rightarrow> string \<Rightarrow> json \<Rightarrow> unit res" where
  "validate_device_descriptor F v profile descriptor =
     andE (validate_finite_json descriptor)
       (case descriptor of
          JObj d \<Rightarrow>
            andE (reject_event (\<not> has_keys d device_descriptor_keys))
            (andE (reject_event
               (v \<notin> set supported_api_versions \<or>
                \<not> eq_str (jget d ''schema'') (''ylx.device.'' @ v) \<or>
                \<not> eq_str (jget d ''api_version'') (remove_v v @ ''.0'') \<or>
                \<not> eq_str (jget d ''security_profile'') profile \<or>
                profile \<notin> {''customer'', ''lab''} \<or>
                \<not> str_in (jget d ''hardware_fingerprint'') is_sha256_uri))
            (andE (validate_recording_device (jget d ''device''))
            (andE (validate_build (jget d ''build''))
            (andE (validate_capabilities v (jget d ''capabilities''))
            (andE (validate_device_storage (jget d ''storage''))
              (validate_runtime F v (jget d ''runtime'')))))))
        | _ \<Rightarrow> Inl invalid_source_event)"

section \<open>Session pages\<close>

definition valid_verification_diagnostic :: "string \<Rightarrow> json \<Rightarrow> bool" where
  "valid_verification_diagnostic v item =
     (if v = ''v4'' then
        (case item of
           JObj d \<Rightarrow> has_keys d [''code'', ''summary''] \<and>
             in_strs (jget d ''code'') verification_diagnostic_codes \<and> bounded_string (jget d ''summary'') 512
         | _ \<Rightarrow> False)
      else bounded_string item 512)"

definition valid_validator :: "json \<Rightarrow> bool" where
  "valid_validator v =
     (case v of
        JObj d \<Rightarrow> has_keys d [''name'', ''version'', ''build_sha256''] \<and> bounded_string (jget d ''name'') 128 \<and>
          bounded_string (jget d ''version'') 64 \<and> sha256_text (jget d ''build_sha256'')
      | _ \<Rightarrow> False)"

definition validate_gateway_verification :: "event_formats \<Rightarrow> string \<Rightarrow> json \<Rightarrow> unit res" where
  "validate_gateway_verification F v g =
     (case g of
        JObj d \<Rightarrow>
          andE (reject_event (\<not> has_keys d
                 [''actor'', ''validator'', ''manifest_sha256'', ''verified_at'', ''verdict'', ''diagnostics'']))
            (case jget d ''diagnostics'' of
               JList ds \<Rightarrow>
                 andE (reject_event
                   (\<not> valid_validator (jget d ''validator'') \<or> \<not> eq_str (jget d ''actor'') ''gateway'' \<or>
                    \<not> sha256_text (jget d ''manifest_sha256'') \<or>
                    \<not> date_time F (jget d ''verified_at'') \<or>
                    \<not> in_strs (jget d ''verdict'') [''usable'', ''unusable''] \<or>
                    (eq_str (jget d ''verdict'') ''unusable'' \<and> ds = [])))
                   (reject_event (\<not> list_all (valid_verification_diagnostic v) ds))
             | _ \<Rightarrow> Inl invalid_source_event)
      | _ \<Rightarrow> Inl invalid_source_event)"

definition session_summary_keys :: "string list" where
  "session_summary_keys =
     [''session_id'', ''producer_outcome'', ''take_id'', ''take_sequence'', ''continuation_of'', ''display_name'',
      ''device'', ''started_at'', ''ended_at'', ''duration_seconds'', ''total_bytes'', ''verification'']"

definition validate_session_summary :: "event_formats \<Rightarrow> string option \<Rightarrow> string \<Rightarrow> json \<Rightarrow> unit res" where
  "validate_session_summary F take_id v summary =
     (case summary of
        JObj d \<Rightarrow>
          andE (reject_event (\<not> has_keys d session_summary_keys))
          (andE (reject_event
             (\<not> str_in (jget d ''session_id'') uuid_v7 \<or>
              \<not> eq_str (jget d ''producer_outcome'') ''sealed'' \<or>
              \<not> str_in (jget d ''take_id'') uuid_v7 \<or>
              (case take_id of None \<Rightarrow> False | Some t \<Rightarrow> \<not> eq_str (jget d ''take_id'') t) \<or>
              \<not> int_in (jget d ''take_sequence'') (\<lambda>i. 1 \<le> i) \<or>
              (jget d ''continuation_of'' \<noteq> JNull \<and> \<not> str_in (jget d ''continuation_of'') uuid_v7) \<or>
              \<not> bounded_string (jget d ''display_name'') 160 \<or>
              \<not> date_time F (jget d ''started_at'') \<or>
              \<not> date_time F (jget d ''ended_at'') \<or>
              \<not> nonnegative_number (jget d ''duration_seconds'') \<or>
              \<not> int_in (jget d ''total_bytes'') (\<lambda>i. 0 \<le> i)))
          (andE (validate_recording_device (jget d ''device''))
            (if jget d ''verification'' \<noteq> JNull
             then validate_gateway_verification F v (jget d ''verification'') else Inr ())))
      | _ \<Rightarrow> Inl invalid_source_event)"

definition validate_session_discovery_diagnostic :: "event_formats \<Rightarrow> json \<Rightarrow> unit res" where
  "validate_session_discovery_diagnostic F v =
     (case v of
        JObj d \<Rightarrow>
          andE (reject_event (\<not> has_keys d [''quarantine_id'', ''code'', ''observed_at'', ''message'']))
            (reject_event
              (\<not> str_in (jget d ''quarantine_id'') uuid_v4 \<or>
               \<not> in_strs (jget d ''code'')
                   [''manifest_unreadable'', ''unsupported_schema'', ''manifest_invalid'', ''manifest_not_sealed''] \<or>
               \<not> date_time F (jget d ''observed_at'') \<or>
               \<not> bounded_string (jget d ''message'') 512))
      | _ \<Rightarrow> Inl invalid_source_event)"

text \<open>Python compares \<open>(datetime, str)\<close> pairs lexicographically; strings by code point, which is
  the order of their UTF-8 bytes.\<close>

fun str_le :: "string \<Rightarrow> string \<Rightarrow> bool" where
  "str_le [] t = True"
| "str_le (c # s) [] = False"
| "str_le (c # s) (d # t) =
     ((of_char c :: nat) < of_char d \<or> (c = d \<and> str_le s t))"

definition order_le :: "int \<times> string \<Rightarrow> int \<times> string \<Rightarrow> bool" where
  "order_le a b \<longleftrightarrow> fst a < fst b \<or> (fst a = fst b \<and> str_le (snd a) (snd b))"

text \<open>\<open>(instant, session_id)\<close> of a valid item.\<close>

definition item_order :: "event_formats \<Rightarrow> json \<Rightarrow> (int \<times> string) res" where
  "item_order F item =
     (case item of
        JObj d \<Rightarrow> bindE (date_time_value F (jget d ''started_at'')) (\<lambda>t.
          (case jget d ''session_id'' of JStr s \<Rightarrow> Inr (t, s) | _ \<Rightarrow> Inl TypeError))
      | _ \<Rightarrow> Inl TypeError)"

definition item_session :: "json \<Rightarrow> json" where
  "item_session item = (case item of JObj d \<Rightarrow> jget d ''session_id'' | _ \<Rightarrow> JNull)"

fun mapE :: "('a \<Rightarrow> 'b res) \<Rightarrow> 'a list \<Rightarrow> 'b list res" where
  "mapE f [] = Inr []"
| "mapE f (x # xs) = bindE (f x) (\<lambda>y. bindE (mapE f xs) (\<lambda>ys. Inr (y # ys)))"

fun eachE :: "('a \<Rightarrow> unit res) \<Rightarrow> 'a list \<Rightarrow> unit res" where
  "eachE f [] = Inr ()"
| "eachE f (x # xs) = andE (f x) (eachE f xs)"

definition validate_session_list ::
  "event_formats \<Rightarrow> int \<Rightarrow> string option \<Rightarrow> string \<Rightarrow> json \<Rightarrow> unit res" where
  "validate_session_list F limit take_id v resource =
     andE (validate_finite_json resource)
       (case resource of
          JObj d \<Rightarrow>
            andE (reject_event (v \<notin> set supported_api_versions \<or>
                    \<not> has_keys d ([''schema'', ''items'', ''diagnostics'', ''next_cursor''] @
                                  (if v = ''v4'' then [''catalog_revision''] else []))))
              (case (jget d ''items'', jget d ''diagnostics'') of
                 (JList items, JList diagnostics) \<Rightarrow>
                   andE (reject_event
                     (\<not> eq_str (jget d ''schema'')
                         (if v = ''v4'' then ''ylx.session-list.v3'' else ''ylx.session-list.v2'') \<or>
                      (v = ''v4'' \<and> \<not> str_in (jget d ''catalog_revision'') is_sha256_uri) \<or>
                      limit < int (length items) + int (length diagnostics) \<or>
                      (jget d ''next_cursor'' \<noteq> JNull \<and> \<not> is_nonempty_str (jget d ''next_cursor''))))
                   (andE (eachE (validate_session_summary F take_id v) items)
                   (andE (reject_event (\<not> distinct (map item_session items)))
                   (andE (bindE (mapE (item_order F) items)
                           (\<lambda>order. reject_event (\<not> sorted_wrt (\<lambda>a b. order_le b a) order)))
                     (eachE (validate_session_discovery_diagnostic F) diagnostics))))
               | _ \<Rightarrow> Inl invalid_source_event)
        | _ \<Rightarrow> Inl invalid_source_event)"

definition validate_retained_outcome :: "event_formats \<Rightarrow> string \<Rightarrow> json \<Rightarrow> unit res" where
  "validate_retained_outcome F session resource =
     andE (validate_finite_json resource)
       (case resource of
          JObj d \<Rightarrow>
            andE (reject_event (\<not> has_keys d [''schema'', ''authority_epoch'', ''source_revision'', ''outcome'']))
            (andE (reject_event
               (\<not> eq_str (jget d ''schema'') ''ylx.retained-unsuccessful-session-resource.v2'' \<or>
                \<not> str_in (jget d ''authority_epoch'') uuid_v4 \<or>
                \<not> int_in (jget d ''source_revision'') (\<lambda>i. 0 \<le> i)))
              (validate_snapshot_recording F [''recoverable'', ''failed'', ''abandoned'']
                 (jget d ''authority_epoch'') (jget d ''source_revision'') (JStr session) (jget d ''outcome'')))
        | _ \<Rightarrow> Inl invalid_source_event)"

definition validate_admitted_summary :: "event_formats \<Rightarrow> json \<Rightarrow> unit res" where
  "validate_admitted_summary F v =
     andE (validate_finite_json v) (validate_session_summary F None ''v4'' v)"

end
