(* ===== verification/EventProps.thy ===== *)
theory EventProps
  imports EventReplay ResourceContracts
begin

text \<open>
  What the event contracts and the replay buffer guarantee: a projected status is valid at the
  requested version, the buffer implements an unbounded log, and a stream never skips an event
  silently.
\<close>

section \<open>The buffer refines an unbounded log\<close>

text \<open>\<open>l\<close> is everything ever published, oldest first.\<close>

definition holds_log :: "replay_buffer \<Rightarrow> buffered_event list \<Rightarrow> bool" where
  "holds_log buf l \<longleftrightarrow> 0 < rb_capacity buf \<and> rb_events buf = drop (length l - rb_capacity buf) l \<and>
     map bv_id l = [1..<Suc (length l)] \<and> rb_next buf = Suc (length l)"

datatype answer = Wait | Deliver "buffered_event list" | Resync

text \<open>What a reader of the log at cursor \<open>c\<close> is owed.\<close>

definition log_answer :: "nat \<Rightarrow> buffered_event list \<Rightarrow> int \<Rightarrow> answer" where
  "log_answer cap l c =
     (if c < 1 \<or> c \<le> int (length l) - int cap \<or> int (length l) < c then Resync
      else if c = int (length l) then Wait
      else if source_is_contiguous (drop (nat c - 1) l) then Deliver (drop (nat c) l)
      else Resync)"

lemma holds_log_ident:
  assumes "holds_log buf l" and "i < length l"
  shows "bv_id (l ! i) = Suc i"
proof -
  have "bv_id (l ! i) = map bv_id l ! i" using assms(2) by simp
  also have "\<dots> = [1..<Suc (length l)] ! i" using assms(1) by (simp add: holds_log_def)
  also have "\<dots> = Suc i" using assms(2) by (subst nth_upt) auto
  finally show ?thesis .
qed

lemma holds_log_append:
  assumes "holds_log buf l" and "bv_id e = rb_next buf"
  shows "holds_log (append_event e buf) (l @ [e])"
proof -
  have "deque_append (rb_capacity buf) (rb_events buf) e =
      drop (length (l @ [e]) - rb_capacity buf) (l @ [e])"
    by (rule deque_append_suffix) (use assms(1) in \<open>simp add: holds_log_def\<close>)
  then show ?thesis using assms by (simp add: holds_log_def append_event_def)
qed

lemma reachable_holds_log: "reachable_buffer F buf \<Longrightarrow> \<exists>l. holds_log buf l"
proof (induction rule: reachable_buffer.induct)
  case (created capacity buf)
  then have "holds_log buf []" by (auto simp: new_buffer_def holds_log_def split: if_splits)
  then show ?case by blast
next
  case (published buf source resync r buf')
  then obtain l where l: "holds_log buf l" by blast
  show ?case
  proof (cases r)
    case (Inl x)
    then show ?thesis using l published publish_locked_Inl by blast
  next
    case (Inr e)
    then have "holds_log buf' (l @ [e])"
      using published l by (auto simp: publish_locked_Inr intro!: holds_log_append)
    then show ?thesis by blast
  qed
qed

lemma window_answer:
  assumes "holds_log buf l" and "\<not> (c < 1 \<or> c \<le> int (length l) - int (rb_capacity buf) \<or> int (length l) < c)"
  defines "es \<equiv> rb_events buf" and "k \<equiv> length l - rb_capacity buf"
  shows "es \<noteq> []" and "bv_id (hd es) = Suc k" and "bv_id (last es) = length l"
    and "nat (c - int (bv_id (hd es))) = nat c - 1 - k" and "nat c - 1 - k < length es"
    and "int (bv_id (es ! (nat c - 1 - k))) = c"
    and "drop (nat c - 1 - k) es = drop (nat c - 1) l"
    and "drop (nat c - 1 - k + 1) es = drop (nat c) l"
proof -
  have es: "es = drop k l" and cap: "0 < rb_capacity buf" using assms by (auto simp: holds_log_def)
  have k: "k < length l" "k \<le> nat c - 1" "nat c \<le> length l" "1 \<le> nat c" using assms(2) cap by (auto simp: k_def)
  show "es \<noteq> []" using k es by simp
  show hd: "bv_id (hd es) = Suc k" using k es holds_log_ident [OF assms(1) k(1)] by (simp add: hd_drop_conv_nth)
  show "bv_id (last es) = length l"
  proof -
    have "last es = l ! (length l - 1)" using k(1) es by (simp add: last_conv_nth)
    then show ?thesis using holds_log_ident [OF assms(1), of "length l - 1"] k(1) by auto
  qed
  show "nat (c - int (bv_id (hd es))) = nat c - 1 - k" using hd k by linarith
  show "nat c - 1 - k < length es" using k es by simp
  have "es ! (nat c - 1 - k) = l ! (nat c - 1)" using k es by simp
  then show "int (bv_id (es ! (nat c - 1 - k))) = c"
    using holds_log_ident [OF assms(1), of "nat c - 1"] k by simp
  show "drop (nat c - 1 - k) es = drop (nat c - 1) l" using k es by simp
  have "nat c - 1 - k + 1 + k = nat c" using k by simp
  then show "drop (nat c - 1 - k + 1) es = drop (nat c) l" using es by (metis drop_drop)
qed

lemma outside_answer:
  assumes "holds_log buf l" and "c < 1 \<or> c \<le> int (length l) - int (rb_capacity buf) \<or> int (length l) < c"
  shows "rb_events buf = [] \<or> c < int (bv_id (hd (rb_events buf))) \<or> int (bv_id (last (rb_events buf))) < c"
proof (cases "l = []")
  case False
  define k where "k = length l - rb_capacity buf"
  have k: "k < length l" and es: "rb_events buf = drop k l"
    using assms(1) False by (auto simp: holds_log_def k_def)
  have "bv_id (hd (rb_events buf)) = Suc k"
    using k es holds_log_ident [OF assms(1) k] by (simp add: hd_drop_conv_nth)
  moreover have "bv_id (last (rb_events buf)) = length l"
    using k es holds_log_ident [OF assms(1), of "length l - 1"] by (auto simp: last_conv_nth)
  ultimately show ?thesis using assms(2) by (auto simp: k_def)
qed (use assms(1) in \<open>simp add: holds_log_def\<close>)

text \<open>C5: reading the bounded buffer answers as the unbounded log of everything ever published
  does: everything after the cursor when the cursor is in the window and the revisions connect,
  nothing yet when the cursor is the newest event, one fresh snapshot otherwise.\<close>

theorem replay_refines_log:
  assumes "holds_log buf l"
  shows "events_after_locked F v snapshot c buf =
    (case log_answer (rb_capacity buf) l c of
       Wait \<Rightarrow> (Inr None, buf)
     | Deliver es \<Rightarrow> (bindE (for_versions v es) (\<lambda>ss. Inr (Some ss)), buf)
     | Resync \<Rightarrow> as_delivery (resync_with F v snapshot buf))"
proof (cases "c < 1 \<or> c \<le> int (length l) - int (rb_capacity buf) \<or> int (length l) < c")
  case True
  then show ?thesis
    using outside_answer [OF assms True] by (simp add: events_after_locked_def log_answer_def Let_def)
next
  case False
  note w = window_answer [OF assms False]
  have "c \<le> int (length l)" "1 \<le> c" using False by auto
  then have at_end: "drop (nat c) l = [] \<longleftrightarrow> c = int (length l)" by auto
  have inside: "\<not> (rb_events buf = [] \<or> c < int (bv_id (hd (rb_events buf))) \<or>
      int (bv_id (last (rb_events buf))) < c)"
    using w(1,2,3) False by auto
  show ?thesis
    unfolding events_after_locked_def log_answer_def Let_def
    by (simp only: if_not_P [OF inside] if_not_P [OF False] w(4,6,7,8) at_end w(5) [folded not_le])
       simp
qed

section \<open>A stream has no silent gap\<close>

definition is_snapshot :: "jobject \<Rightarrow> bool" where
  "is_snapshot d \<longleftrightarrow> eq_str (jget d ''type'') ''snapshot''"

text \<open>\<open>c\<close> may follow \<open>p\<close> in a stream.\<close>

definition follows :: "sse_event \<Rightarrow> sse_event \<Rightarrow> bool" where
  "follows p c \<longleftrightarrow> sv_id p < sv_id c \<and>
     (is_snapshot (sv_source c) \<or> sv_id c = Suc (sv_id p) \<and> linked (sv_source p) (sv_source c))"

lemma project_source_event_keeps:
  assumes "project_source_event v s = Inr p" and "k \<noteq> ''data''"
  shows "jget p k = jget s k"
  using assms
  by (auto simp: project_source_event_def bindE_eq_Inr split: if_splits json.splits)

lemma for_version_keeps:
  assumes "for_version v e = Inr s"
  shows "sv_id s = bv_id e" and "k \<noteq> ''data'' \<Longrightarrow> jget (sv_source s) k = jget (bv_source e) k"
  using assms project_source_event_keeps
  by (auto simp: for_version_def bindE_eq_Inr split: if_splits)

lemma for_version_linked:
  assumes "for_version v p = Inr p'" and "for_version v c = Inr c'"
  shows "linked (sv_source p') (sv_source c') = linked (bv_source p) (bv_source c)"
  by (simp add: linked_def for_version_keeps [OF assms(1)] for_version_keeps [OF assms(2)])

lemma for_version_snapshot:
  "for_version v e = Inr s \<Longrightarrow> is_snapshot (sv_source s) = eq_str (jget (bv_source e) ''type'') ''snapshot''"
  by (simp add: is_snapshot_def for_version_keeps)

lemma for_versions_Inr: "for_versions v es = Inr ss \<longleftrightarrow> list_all2 (\<lambda>e s. for_version v e = Inr s) es ss"
  by (induction es arbitrary: ss) (auto simp: bindE_eq_Inr list_all2_Cons1)

lemma contiguous_follows:
  assumes "source_is_contiguous (e # es)" and "for_version v e = Inr s"
    and "list_all2 (\<lambda>e s. for_version v e = Inr s) es ss"
    and "\<forall>x \<in> set es. bv_resync x \<longrightarrow> eq_str (jget (bv_source x) ''type'') ''snapshot''"
    and "successively (\<lambda>a b. bv_id b = Suc (bv_id a)) (e # es)"
  shows "successively follows (s # ss)"
  using assms
proof (induction es arbitrary: e s ss)
  case (Cons e' es)
  then obtain s' ss' where ss: "ss = s' # ss'" and s': "for_version v e' = Inr s'"
    and rest: "list_all2 (\<lambda>e s. for_version v e = Inr s) es ss'"
    by (auto simp: list_all2_Cons1)
  have "follows s s'"
    using Cons.prems s'
    by (auto simp: follows_def for_version_keeps(1) for_version_snapshot for_version_linked)
  moreover have "successively follows (s' # ss')"
    using Cons.prems s' rest by (intro Cons.IH) auto
  ultimately show ?case using ss by simp
qed simp

lemma resync_with_Inr:
  assumes "resync_with F v snapshot buf = (Inr new, buf')"
  obtains e s where "new = [s]" "for_version v e = Inr s" "is_snapshot (sv_source s)"
    "bv_id e = rb_next buf" "buf' = append_event e buf"
  using assms
  by (auto simp: resync_with_def tryS_def publish_locked_Inr bindE_eq_Inr for_version_snapshot
      split: sum.splits prod.splits)

lemma events_after_Some:
  assumes "events_after_locked F v snapshot c buf = (Inr (Some new), buf')"
  shows "resync_with F v snapshot buf = (Inr new, buf') \<or>
    (buf' = buf \<and> (\<exists>pre e post. rb_events buf = pre @ e # post \<and> post \<noteq> [] \<and> int (bv_id e) = c \<and>
       source_is_contiguous (e # post) \<and> for_versions v post = Inr new))"
proof -
  let ?es = "rb_events buf" and ?i = "nat (c - int (bv_id (hd (rb_events buf))))"
  have sync: "as_delivery m = (Inr (Some new), buf') \<Longrightarrow> m = (Inr new, buf')" for m :: "sse_event list res \<times> replay_buffer"
    by (cases m) (auto simp: as_delivery_def bindE_eq_Inr)
  show ?thesis
  proof (cases "?i < length ?es \<and> int (bv_id (?es ! ?i)) = c \<and> drop (?i + 1) ?es \<noteq> [] \<and>
      source_is_contiguous (drop ?i ?es) \<and> resync_with F v snapshot buf \<noteq> (Inr new, buf')")
    case True
    then have "drop ?i ?es = ?es ! ?i # drop (?i + 1) ?es" by (simp add: Cons_nth_drop_Suc)
    moreover have "?es = take ?i ?es @ ?es ! ?i # drop (?i + 1) ?es" using True by (simp add: id_take_nth_drop)
    moreover have "for_versions v (drop (?i + 1) ?es) = Inr new" "buf' = buf"
      using assms True sync by (auto simp: events_after_locked_def Let_def bindE_eq_Inr split: if_splits)
    ultimately show ?thesis using True by metis
  next
    case False
    then show ?thesis
      using assms sync by (auto simp: events_after_locked_def Let_def split: if_splits)
  qed
qed

lemma events_after_None: "events_after_locked F v snapshot c buf = (Inr None, buf') \<Longrightarrow> buf' = buf"
  by (auto simp: events_after_locked_def Let_def as_delivery_def bindE_eq_Inr split: if_splits)

text \<open>The invariant of one stream.\<close>

definition stream_inv :: "string \<Rightarrow> string option \<Rightarrow> replay_buffer \<Rightarrow> int \<Rightarrow> sse_event list \<Rightarrow> bool" where
  "stream_inv v start buf c old \<longleftrightarrow>
     good_buffer buf \<and> successively follows old \<and>
     (if old = [] then c = start_cursor start \<and> start \<noteq> None
      else c = int (sv_id (last old)) \<and> sv_id (last old) < rb_next buf \<and>
        (\<forall>e \<in> set (rb_events buf). bv_id e = sv_id (last old) \<longrightarrow> for_version v e = Inr (last old)) \<and>
        (is_snapshot (sv_source (hd old)) \<or> int (sv_id (hd old)) = start_cursor start + 1))"

lemma stream_inv_publish:
  assumes "stream_inv v start buf c old" and "publish_locked F source resync buf = (r, buf')"
  shows "stream_inv v start buf' c old"
proof (cases r)
  case (Inl x)
  then show ?thesis using assms publish_locked_Inl by blast
next
  case (Inr e)
  then have e: "bv_id e = rb_next buf" "buf' = append_event e buf"
    using assms(2) by (auto simp: publish_locked_Inr)
  have "set (rb_events buf') \<subseteq> insert e (set (rb_events buf))"
    using deque_append_set by (fastforce simp: e(2) append_event_def)
  moreover have "rb_next buf' = Suc (rb_next buf)" by (simp add: e(2) append_event_def)
  moreover have "good_buffer buf'"
    using assms by (auto simp: stream_inv_def intro: publish_locked_good)
  ultimately show ?thesis
    using assms(1) e(1) by (fastforce simp: stream_inv_def split: if_splits)
qed

lemma stream_inv_resync:
  assumes "good_buffer buf" and "successively follows old"
    and "old \<noteq> [] \<Longrightarrow> sv_id (last old) < rb_next buf \<and>
      (is_snapshot (sv_source (hd old)) \<or> int (sv_id (hd old)) = start_cursor start + 1)"
    and "resync_with F v snapshot buf = (Inr new, buf')"
  shows "stream_inv v start buf' (stream_cursor c new) (old @ new)"
proof -
  obtain e s where e: "new = [s]" "for_version v e = Inr s" "is_snapshot (sv_source s)"
    "bv_id e = rb_next buf" "buf' = append_event e buf"
    using assms(4) by (rule resync_with_Inr)
  have id: "sv_id s = rb_next buf" using e(2,4) by (simp add: for_version_keeps)
  have "good_buffer buf'"
    using assms(1) e by (auto intro!: append_event_good simp: for_version_snapshot)
  moreover have "successively follows (old @ [s])"
    using assms(2,3) id e(3) by (auto simp: successively_append_iff follows_def)
  moreover have "for_version v x = Inr s" if "x \<in> set (rb_events buf')" "bv_id x = sv_id s" for x
  proof -
    have "x = e \<or> x \<in> set (rb_events buf)"
      using that(1) deque_append_set by (fastforce simp: e(5) append_event_def)
    moreover have "\<forall>x \<in> set (rb_events buf). bv_id x < rb_next buf"
      using good_buffer_ordered [OF assms(1)] by (simp add: eb.ordered_def)
    ultimately show ?thesis using that(2) id e(2) by auto
  qed
  moreover have "rb_next buf' = Suc (rb_next buf)" by (simp add: e(5) append_event_def)
  ultimately show ?thesis
    using e(1,3) id assms(3) by (auto simp: stream_inv_def stream_cursor_def hd_append)
qed

lemma dense_successively:
  assumes "eb.dense buf"
  shows "successively (\<lambda>a b. bv_id b = Suc (bv_id a)) (rb_events buf)"
  using assms by (auto simp: successively_conv_nth eb.dense_ident)

lemma stream_inv_after:
  assumes "stream_inv v start buf c old"
    and "events_after_locked F v snapshot c buf = (Inr (Some new), buf')"
  shows "stream_inv v start buf' (stream_cursor c new) (old @ new)"
  using events_after_Some [OF assms(2)]
proof
  assume "resync_with F v snapshot buf = (Inr new, buf')"
  then show ?thesis
    using assms(1) by (intro stream_inv_resync) (auto simp: stream_inv_def split: if_splits)
next
  assume "buf' = buf \<and> (\<exists>pre e post. rb_events buf = pre @ e # post \<and> post \<noteq> [] \<and> int (bv_id e) = c \<and>
    source_is_contiguous (e # post) \<and> for_versions v post = Inr new)"
  then obtain pre e post where buf: "buf' = buf" and es: "rb_events buf = pre @ e # post" and post: "post \<noteq> []"
    and c: "int (bv_id e) = c" and cont: "source_is_contiguous (e # post)"
    and new: "list_all2 (\<lambda>e s. for_version v e = Inr s) post new"
    by (auto simp: for_versions_Inr)
  have good: "good_buffer buf" using assms(1) by (simp add: stream_inv_def)
  have succ: "successively (\<lambda>a b. bv_id b = Suc (bv_id a)) (e # post)"
    using good dense_successively [of buf] es by (simp add: good_buffer_def successively_append_iff)
  have sync: "\<forall>x \<in> set post. bv_resync x \<longrightarrow> eq_str (jget (bv_source x) ''type'') ''snapshot''"
    using good es by (simp add: good_buffer_def)
  have "new \<noteq> []" using new post by auto
  have final: "for_version v (last post) = Inr (last new)"
    using new post \<open>new \<noteq> []\<close> by (simp add: last_conv_nth list_all2_conv_all_nth)
  have last_in: "last post \<in> set (rb_events buf)" using es post by simp
  have unique: "for_version v x = Inr (last new)" if "x \<in> set (rb_events buf)" "bv_id x = sv_id (last new)" for x
  proof -
    have "bv_id x = bv_id (last post)" using that(2) final by (simp add: for_version_keeps)
    then have "x = last post"
      by (rule eb.ident_unique [OF good_buffer_ordered [OF good] that(1) last_in])
    then show ?thesis using final by simp
  qed
  have bound: "sv_id (last new) < rb_next buf"
    using good_buffer_ordered [OF good] last_in final by (auto simp: eb.ordered_def for_version_keeps)
  have chain: "successively follows (s # new)" if "for_version v e = Inr s" for s
    using contiguous_follows [OF cont that new sync succ] .
  have inner: "successively follows new"
  proof -
    obtain p post' s new' where pc: "post = p # post'" "new = s # new'" "for_version v p = Inr s"
      and "list_all2 (\<lambda>e s. for_version v e = Inr s) post' new'"
      using new post by (cases post) (auto simp: list_all2_Cons1)
    then show ?thesis
      using cont succ sync by (auto intro!: contiguous_follows [of p post'])
  qed
  have first: "sv_id (hd new) = Suc (bv_id e)"
    using new post succ by (cases post) (auto simp: list_all2_Cons1 for_version_keeps)
  show ?thesis
  proof (cases "old = []")
    case True
    then show ?thesis
      using assms(1) good inner \<open>new \<noteq> []\<close> bound unique first c
      by (simp add: stream_inv_def stream_cursor_def buf)
  next
    case False
    then have "for_version v e = Inr (last old)"
      using assms(1) c es by (auto simp: stream_inv_def)
    then have "successively follows (last old # new)" by (rule chain)
    then have "successively follows (old @ new)"
      using assms(1) False \<open>new \<noteq> []\<close>
      by (auto simp: stream_inv_def successively_append_iff successively_Cons)
    then show ?thesis
      using assms(1) good False \<open>new \<noteq> []\<close> bound unique
      by (simp add: stream_inv_def stream_cursor_def buf)
  qed
qed

lemma stream_inv_published:
  "stream_inv v start buf c old \<Longrightarrow> stream_inv v start (published F ps buf) c old"
proof (induction F ps buf rule: published.induct)
  case (2 F source resync rest buf)
  then show ?case
    using stream_inv_publish [OF 2(2)] by (metis prod.collapse published.simps(2))
qed simp

lemma stream_inv_wait:
  "wait_loop F v snapshot c turns buf = Some (Inr new, buf') \<Longrightarrow> stream_inv v start buf c old \<Longrightarrow>
     stream_inv v start buf' (stream_cursor c new) (old @ new)"
proof (induction turns arbitrary: buf)
  case (Cons t ts)
  have stay: "stream_inv v start buf (stream_cursor c []) (old @ [])"
    using Cons.prems(2) by (simp add: stream_cursor_def)
  show ?case
  proof (cases "wt_cancelled t")
    case True
    then show ?thesis using Cons.prems(1) stay by simp
  next
    case False
    obtain r b where r: "events_after_locked F v snapshot c buf = (r, b)" by fastforce
    consider (failed) e where "r = Inl e" | (some) ss where "r = Inr (Some ss)" | (none) "r = Inr None"
      by (cases r) (auto simp: not_None_eq [symmetric])
    then show ?thesis
    proof cases
      case some
      then show ?thesis
        using Cons.prems False r stream_inv_after [OF Cons.prems(2)] by simp
    next
      case none
      then have b: "b = buf" using r events_after_None by blast
      show ?thesis
        using Cons.prems(1) False r none b stay
          Cons.IH [of "published F (wt_between t) buf"] stream_inv_published [OF Cons.prems(2)]
        by (auto split: if_splits)
    qed (use Cons.prems False r in simp)
  qed
qed simp

lemma stream_inv_opened:
  assumes "reachable_buffer F buf" and "replay F v snapshot start buf = (Inr new, buf')"
  shows "stream_inv v start buf' (stream_cursor (start_cursor start) new) new"
proof -
  have good: "good_buffer buf" using assms(1) by (rule reachable_buffer_good)
  obtain cursor where v: "event_schema_version v = Inr v" and cursor: "parse_cursor start = Inr cursor"
    using assms(2)
    by (auto simp: replay_def tryS_def event_schema_version_def split: sum.splits if_splits)
  show ?thesis
  proof (cases start)
    case None
    then have "resync_with F v snapshot buf = (Inr new, buf')"
      using assms(2) v by (simp add: replay_def parse_cursor_def)
    then show ?thesis using stream_inv_resync [OF good, of "[]"] by simp
  next
    case (Some s)
    then have c: "cursor = Some (start_cursor start)"
      using cursor by (auto simp: parse_cursor_def start_cursor_def split: if_splits)
    have inv: "stream_inv v start buf (start_cursor start) []"
      using good Some by (simp add: stream_inv_def)
    show ?thesis
    proof (cases "fst (events_after_locked F v snapshot (start_cursor start) buf) = Inr None")
      case True
      then have "new = []" "buf' = buf"
        using assms(2) v cursor c events_after_None
        by (auto simp: replay_def split: prod.splits sum.splits option.splits)
      then show ?thesis using inv by (simp add: stream_cursor_def)
    next
      case False
      then have "events_after_locked F v snapshot (start_cursor start) buf = (Inr (Some new), buf')"
        using assms(2) v cursor c
        by (auto simp: replay_def split: prod.splits sum.splits option.splits)
      then show ?thesis using stream_inv_after [OF inv] by simp
    qed
  qed
qed

lemma stream_invariant: "stream F v start buf c old \<Longrightarrow> stream_inv v start buf c old"
proof (induction rule: stream.induct)
  case (waited buf c old snapshot timeout turns new buf')
  then have "wait_loop F v snapshot c turns buf = Some (Inr new, buf')"
    by (auto simp: wait_after_def event_schema_version_def split: if_splits sum.splits)
  then show ?case using waited.IH by (rule stream_inv_wait)
qed (auto intro: stream_inv_opened stream_inv_publish)

text \<open>C27: a stream has no silent gap: each delivered event is a fresh snapshot or has the next
  delivery identifier and connects to its predecessor's revision, identifiers grow, and the
  first event is a snapshot or the one right after the client's \<open>Last-Event-ID\<close>.\<close>

theorem stream_has_no_silent_gap:
  assumes "stream F v start buf c events"
  shows "successively follows events \<and>
    (events = [] \<or> is_snapshot (sv_source (hd events)) \<or> int (sv_id (hd events)) = start_cursor start + 1)"
  using stream_invariant [OF assms] by (auto simp: stream_inv_def split: if_splits)

section \<open>Projections keep a document valid\<close>

lemma finite_json_get: "finite_json (JObj d) \<Longrightarrow> finite_json (jget d k)"
proof (cases "jget d k = JNull")
  case False
  then show "finite_json (JObj d) \<Longrightarrow> finite_json (jget d k)"
    using jget_in_set by (fastforce simp: list_all_iff)
qed simp

lemma finite_json_jset: "finite_json (JObj d) \<Longrightarrow> finite_json x \<Longrightarrow> finite_json (JObj (jset k x d))"
  using set_jset_subset [of k x d] by (fastforce simp: list_all_iff)

lemma finite_json_jpop: "finite_json (JObj d) \<Longrightarrow> finite_json (JObj (jpop k d))"
  using set_jpop_subset [of k d] by (fastforce simp: list_all_iff)

lemma source_or_api_version_Inr: "source_or_api_version v = Inr () \<longleftrightarrow> v = ''source'' \<or> v \<in> set supported_api_versions"
  by (auto simp: source_or_api_version_def event_schema_version_def)

lemmas version_defs = source_or_api_version_def event_schema_version_def capture_status_schema_def
  capture_snapshot_schema_def runtime_keys_def supported_api_versions_def legacy_api_versions_def

lemma finite_project_runtime: "finite_json (JObj rt) \<Longrightarrow> finite_json (JObj (project_runtime v rt))"
  unfolding project_runtime_def by (simp add: finite_json_jset finite_json_jpop del: finite_json.simps(2))

lemma project_runtime_valid:
  assumes "validate_runtime F ''source'' (JObj rt) = Inr ()" and "v \<in> set supported_api_versions"
  shows "validate_runtime F v (JObj (project_runtime v rt)) = Inr ()"
proof (cases "v \<in> set legacy_api_versions")
  case True
  have keys: "has_keys rt runtime_source_keys"
    using assms(1) by (simp add: validate_runtime_def version_defs)
  have "has_keys (project_runtime v rt) runtime_base_keys"
    using keys True
    by (auto simp: has_keys_def project_runtime_def runtime_base_keys_def runtime_source_keys_def)
  moreover have "''camera_focus'' \<notin> fst ` set (project_runtime v rt)"
    using True by (simp add: project_runtime_def)
  moreover have "jget (project_runtime v rt) ''live_imu'' = JNull"
    and "k \<notin> {''live_imu'', ''camera'', ''camera_focus''} \<Longrightarrow> jget (project_runtime v rt) k = jget rt k" for k
    using True by (simp_all add: project_runtime_def)
  ultimately show ?thesis
    using assms True by (auto simp: validate_runtime_def version_defs)
next
  case False
  then have "v = ''v4''" using assms(2) by (auto simp: version_defs)
  then show ?thesis using assms(1) by (simp add: validate_runtime_def project_runtime_def version_defs)
qed

lemma project_relation_valid:
  assumes "validate_live_imu_relation ''source'' (JObj rt) a = Inr ()" and "v \<in> set supported_api_versions"
  shows "validate_live_imu_relation v (JObj (project_runtime v rt)) a = Inr ()"
  using assms by (auto simp: validate_live_imu_relation_def project_runtime_def version_defs)

lemma validate_runtime_obj: "validate_runtime F v rt = Inr () \<Longrightarrow> \<exists>d. rt = JObj d"
  by (cases rt) (simp_all add: validate_runtime_def)

lemma project_snapshot_valid:
  assumes "validate_snapshot_data F ''source'' epoch revision session d = Inr ()"
    and "v \<in> set supported_api_versions"
  shows "\<exists>d'. project_snapshot_data v d = Inr d' \<and> validate_snapshot_data F v epoch revision session d' = Inr () \<and>
    jget d' ''active_recording'' = jget d ''active_recording'' \<and>
    (finite_json (JObj d) \<longrightarrow> finite_json (JObj d'))"
proof -
  let ?schema = "if v = ''v4'' then ''ylx.capture-snapshot-event.v4'' else ''ylx.capture-snapshot-event.v2''"
  have schema: "capture_snapshot_schema v = Inr ?schema" and ok: "source_or_api_version v = Inr ()"
    using assms(2) by (auto simp: version_defs)
  have sd: "jget d ''schema'' = JStr ''ylx.capture-snapshot-event.v2''" and keys: "has_keys d snapshot_keys"
    using assms(1) by (auto simp: validate_snapshot_data_def version_defs eq_str_def split: if_splits)
  have "validate_runtime F ''source'' (jget d ''runtime'') = Inr ()"
    using assms(1) keys by (auto simp: validate_snapshot_data_def version_defs Let_def)
  then obtain rt where rt: "jget d ''runtime'' = JObj rt" by (auto dest: validate_runtime_obj)
  define d' where "d' = jset ''runtime'' (JObj (project_runtime v rt)) (jset ''schema'' (JStr ?schema) d)"
  have "project_snapshot_data v d = Inr d'"
    using sd rt schema by (simp add: project_snapshot_data_def with_runtime_def d'_def eq_str_def)
  moreover have "validate_snapshot_data F v epoch revision session d' = Inr ()"
  proof -
    have k: "has_keys d' snapshot_keys" using keys by (simp add: d'_def snapshot_keys_def)
    show ?thesis
      using assms keys schema ok rt k project_runtime_valid project_relation_valid
      by (simp add: validate_snapshot_data_def Let_def d'_def eq_str_def version_defs split del: if_split)
  qed
  moreover have "finite_json (JObj d) \<Longrightarrow> finite_json (JObj d')"
    using finite_json_get [of d "''runtime''"] rt
    by (simp add: d'_def finite_json_jset finite_project_runtime del: finite_json.simps(2))
  ultimately show ?thesis by (intro exI [of _ d']) (simp add: d'_def)
qed

text \<open>C40: a capture status valid in the daemon's own version projects, and its projection is valid,
  at every supported API version; in particular a v2 or v3 client never sees the camera or the
  live sensor values.\<close>

theorem projected_status_valid:
  assumes "validate_capture_status F ''source'' st = Inr ()" and "v \<in> set supported_api_versions"
  shows "\<exists>p. project_capture_status v st = Inr p \<and> validate_capture_status F v p = Inr ()"
proof -
  obtain d where st: "st = JObj d" and fin: "finite_json (JObj d)" and keys: "has_keys d capture_status_keys"
    and schema: "jget d ''schema'' = JStr ''ylx.capture-status.v2''"
    using assms(1)
    by (cases st) (auto simp: validate_capture_status_def validate_finite_json_def version_defs eq_str_def)
  have snap: "\<exists>snap. jget d ''snapshot'' = JObj snap"
    using assms(1) keys
    by (cases "jget d ''snapshot''") (auto simp: st validate_capture_status_def version_defs)
  then obtain snap where snap: "jget d ''snapshot'' = JObj snap" by blast
  have "validate_snapshot_data F ''source'' (jget d ''authority_epoch'') (jget d ''source_revision'')
      (status_session snap) snap = Inr ()"
    using assms(1) keys snap by (simp add: st validate_capture_status_def version_defs)
  from project_snapshot_valid [OF this assms(2)] obtain snap' where
    snap': "project_snapshot_data v snap = Inr snap'"
    and valid: "validate_snapshot_data F v (jget d ''authority_epoch'') (jget d ''source_revision'')
        (status_session snap) snap' = Inr ()"
    and active: "jget snap' ''active_recording'' = jget snap ''active_recording''"
    and fin': "finite_json (JObj snap) \<longrightarrow> finite_json (JObj snap')" by blast
  let ?schema = "if v = ''v4'' then ''ylx.capture-status.v4'' else ''ylx.capture-status.v2''"
  have sv: "capture_status_schema v = Inr ?schema" "event_schema_version v = Inr v" "source_or_api_version v = Inr ()"
    using assms(2) by (auto simp: version_defs)
  define d' where "d' = jset ''snapshot'' (JObj snap') (jset ''schema'' (JStr ?schema) d)"
  have "project_capture_status v st = Inr (JObj d')"
    using st schema snap snap' sv by (simp add: project_capture_status_def d'_def eq_str_def)
  moreover have "validate_capture_status F v (JObj d') = Inr ()"
  proof -
    have "finite_json (JObj d')"
      using fin fin' finite_json_get [OF fin, of "''snapshot''"] snap
      by (simp add: d'_def finite_json_jset del: finite_json.simps(2))
    moreover have "has_keys d' capture_status_keys" using keys by (simp add: d'_def capture_status_keys_def)
    moreover have "status_session snap' = status_session snap" using active by (simp add: status_session_def)
    ultimately show ?thesis
      using assms(1) valid sv keys
      by (simp add: st validate_capture_status_def validate_finite_json_def d'_def eq_str_def version_defs
          split del: if_split del: finite_json.simps(2))
  qed
  ultimately show ?thesis by blast
qed

section \<open>Concrete documents\<close>

definition sample_formats :: event_formats where
  "sample_formats = \<lparr>ef_date_time = (\<lambda>s. True), ef_recording_state = (\<lambda>v. True), ef_diagnostic = (\<lambda>v. True),
     ef_instant = (\<lambda>s. Inr 0)\<rparr>"

definition sample_interface :: json where
  "sample_interface = JObj [(''state'', JStr ''active''), (''interface'', JStr ''wlan0''),
     (''addresses'', JList [JStr ''10.42.0.1/24'']), (''peer_or_ssid'', JNull)]"

definition sample_network :: json where
  "sample_network = JObj [(''ap'', sample_interface), (''wifi_client'', sample_interface),
     (''wired'', sample_interface), (''default_route'', JStr ''none'')]"

definition sample_time :: json where
  "sample_time = JStr ''2026-01-02T03:04:05Z''"

definition sample_runtime :: json where
  "sample_runtime = JObj [(''observed_at'', sample_time), (''connection_method'', JStr ''wifi_ap''),
     (''temperature_celsius'', JInt 40), (''network'', sample_network), (''live_imu'', JNull),
     (''camera'', JObj [(''schema'', JStr ''ylx.camera-connection.v1''), (''state'', JStr ''connected'')]),
     (''camera_focus'', JNull)]"

definition sample_epoch :: json where
  "sample_epoch = JStr ''0a1b2c3d-0000-4000-8000-000000000001''"

definition sample_snapshot_data :: json where
  "sample_snapshot_data = JObj [(''schema'', JStr ''ylx.capture-snapshot-event.v2''), (''device_state'', JStr ''idle''),
     (''active_recording'', JNull), (''retained_unsuccessful'', JNull), (''runtime'', sample_runtime)]"

definition sample_snapshot :: jobject where
  "sample_snapshot = [(''authority_epoch'', sample_epoch), (''source_revision'', JInt 7), (''type'', JStr ''snapshot''),
     (''occurred_at'', sample_time), (''session_id'', JNull), (''data'', sample_snapshot_data)]"

definition sample_diagnostic :: jobject where
  "sample_diagnostic = [(''authority_epoch'', sample_epoch), (''source_revision'', JInt 8), (''type'', JStr ''diagnostic''),
     (''occurred_at'', sample_time), (''session_id'', JNull),
     (''data'', JObj [(''schema'', JStr ''ylx.capture-diagnostic-event.v2''), (''diagnostic'', JNull)])]"

definition sample_status :: json where
  "sample_status = JObj [(''schema'', JStr ''ylx.capture-status.v2''), (''authority_epoch'', sample_epoch),
     (''source_revision'', JInt 7), (''snapshot'', sample_snapshot_data)]"

lemma sample_snapshot_ok: "validate_source_event sample_formats sample_snapshot = Inr ()"
  by code_simp

lemma sample_diagnostic_ok: "validate_source_event sample_formats sample_diagnostic = Inr ()"
  by code_simp

lemma sample_status_ok: "validate_capture_status sample_formats ''source'' sample_status = Inr ()"
  by code_simp

theorem projected_status_valid_witness:
  "\<exists>p. project_capture_status ''v2'' sample_status = Inr p \<and> validate_capture_status sample_formats ''v2'' p = Inr ()"
  using projected_status_valid [OF sample_status_ok, of "''v2''"] by (simp add: supported_api_versions_def)

text \<open>A buffer with room for two after three events.\<close>

definition sample_log :: "buffered_event list" where
  "sample_log =
     [\<lparr>bv_id = 1, bv_source = sample_snapshot, bv_resync = True\<rparr>,
      \<lparr>bv_id = 2, bv_source = sample_snapshot, bv_resync = False\<rparr>,
      \<lparr>bv_id = 3, bv_source = sample_diagnostic, bv_resync = False\<rparr>]"

definition sample_buffer :: replay_buffer where
  "sample_buffer = \<lparr>rb_capacity = 2, rb_events = drop 1 sample_log, rb_next = 4\<rparr>"

lemma sample_delivery:
  "log_answer 2 sample_log 2 = Deliver [\<lparr>bv_id = 3, bv_source = sample_diagnostic, bv_resync = False\<rparr>]"
  by (simp add: log_answer_def sample_log_def linked_def sample_snapshot_def sample_diagnostic_def scalar_eq_def
      next_revision_def sample_epoch_def eq_str_def)

theorem replay_refines_log_witness:
  "events_after_locked sample_formats ''v4'' (Inl KeyError) 2 sample_buffer =
     (bindE (for_versions ''v4'' [\<lparr>bv_id = 3, bv_source = sample_diagnostic, bv_resync = False\<rparr>]) (\<lambda>ss. Inr (Some ss)),
      sample_buffer)"
proof -
  have "holds_log sample_buffer sample_log"
    by (simp add: holds_log_def sample_buffer_def sample_log_def upt_rec)
  from replay_refines_log [OF this, of sample_formats "''v4''" "Inl KeyError" 2] sample_delivery
  show ?thesis by (simp add: sample_buffer_def)
qed

definition sample_first :: sse_event where
  "sample_first = \<lparr>sv_id = 1, sv_version = ''v3'',
     sv_source = (case project_source_event ''v3'' sample_snapshot of Inr p \<Rightarrow> p | Inl e \<Rightarrow> [])\<rparr>"

definition sample_second :: sse_event where
  "sample_second = \<lparr>sv_id = 2, sv_version = ''v3'', sv_source = sample_diagnostic\<rparr>"

lemma sample_stream:
  "\<exists>buf. stream sample_formats ''v3'' None buf 2 [sample_first, sample_second]"
proof -
  define b0 where "b0 = \<lparr>rb_capacity = 2, rb_events = [], rb_next = 1\<rparr>"
  define e1 where "e1 = \<lparr>bv_id = 1, bv_source = sample_snapshot, bv_resync = True\<rparr>"
  define e2 where "e2 = \<lparr>bv_id = 2, bv_source = sample_diagnostic, bv_resync = False\<rparr>"
  define b1 where "b1 = \<lparr>rb_capacity = 2, rb_events = [e1], rb_next = 2\<rparr>"
  define b2 where "b2 = \<lparr>rb_capacity = 2, rb_events = [e1, e2], rb_next = 3\<rparr>"
  have "isl (project_source_event ''v3'' sample_snapshot) = False" by code_simp
  then have proj: "\<exists>p. project_source_event ''v3'' sample_snapshot = Inr p"
    by (cases "project_source_event ''v3'' sample_snapshot") simp_all
  have first: "for_version ''v3'' e1 = Inr sample_first"
    using proj by (auto simp: for_version_def e1_def sample_first_def sample_snapshot_def eq_str_def)
  have second: "for_version ''v3'' e2 = Inr sample_second"
    by (simp add: for_version_def e2_def sample_second_def sample_diagnostic_def eq_str_def project_source_event_def
        event_schema_version_def supported_api_versions_def)
  have "new_buffer 2 = Inr b0" by (simp add: new_buffer_def b0_def)
  then have reach: "reachable_buffer sample_formats b0" by (rule reachable_buffer.created)
  have p1: "publish_locked sample_formats sample_snapshot True b0 = (Inr e1, b1)"
    unfolding publish_locked_Inr using sample_snapshot_ok
    by (simp add: e1_def b0_def b1_def append_event_def deque_append_def sample_snapshot_def eq_str_def)
  have "replay sample_formats ''v3'' (Inr sample_snapshot) None b0 = (Inr [sample_first], b1)"
    using p1 first
    by (simp add: replay_def event_schema_version_def supported_api_versions_def parse_cursor_def resync_with_def)
  from stream.opened [OF reach this]
  have s1: "stream sample_formats ''v3'' None b1 1 [sample_first]"
    by (simp add: stream_cursor_def sample_first_def)
  have p2: "publish_locked sample_formats sample_diagnostic False b1 = (Inr e2, b2)"
    unfolding publish_locked_Inr using sample_diagnostic_ok
    by (simp add: e2_def b1_def b2_def append_event_def deque_append_def)
  from stream.elsewhere [OF s1 p2] have s2: "stream sample_formats ''v3'' None b2 1 [sample_first]" .
  have "linked sample_snapshot sample_diagnostic"
    by (simp add: linked_def sample_snapshot_def sample_diagnostic_def scalar_eq_def next_revision_def
        sample_epoch_def eq_str_def)
  then have "events_after_locked sample_formats ''v3'' (Inl KeyError) 1 b2 = (Inr (Some [sample_second]), b2)"
    using second by (simp add: events_after_locked_def b2_def Let_def e1_def e2_def)
  then have "wait_after sample_formats ''v3'' (Inl KeyError) (JInt 1) 5 [\<lparr>wt_cancelled = False, wt_remaining = 5, wt_between = []\<rparr>] b2 =
      Some (Inr [sample_second], b2)"
    by (simp add: wait_after_def event_schema_version_def supported_api_versions_def)
  from stream.waited [OF s2 this] show ?thesis by (auto simp: stream_cursor_def sample_second_def)
qed

theorem stream_has_no_silent_gap_witness:
  "\<exists>buf. stream sample_formats ''v3'' None buf 2 [sample_first, sample_second] \<and> follows sample_first sample_second"
  using sample_stream stream_has_no_silent_gap by fastforce

text \<open>A camera state that cannot be hashed makes the validator raise \<open>TypeError\<close>.\<close>

theorem unhashable_camera_state_escapes:
  "validate_camera_connection (JObj [(''schema'', JStr ''ylx.camera-connection.v1''), (''state'', JList [])]) = Inl TypeError"
  by code_simp

end
