(* ===== verification/GatewayNetwork.thy ===== *)
theory GatewayNetwork
  imports ContractChecks NetworkState
begin

text \<open>
  The network answers \<open>api/gateway.py\<close> accepts from the device daemon before it serves them: the
  static methods \<open>GatewayHandler._valid_network_*\<close> in the order of the file.  \<open>read_iso\<close> stands for
  \<open>datetime.fromisoformat\<close>: \<open>None\<close> when it raises, otherwise whether the result is aware and its
  instant in seconds.
\<close>

type_synonym iso_reader = "string \<Rightarrow> (bool \<times> rat) option"

section \<open>Texts\<close>

definition lower_ascii :: "string \<Rightarrow> string" where
  "lower_ascii s = map (\<lambda>c. if is_upper c then char_of (of_char c + 32 :: nat) else c) s"

text \<open>\<open>uuid.UUID(value)\<close> has version 4 and its canonical text is the value in lower case.\<close>

definition gateway_uuid4 :: "json \<Rightarrow> bool" where
  "gateway_uuid4 v = str_in v (\<lambda>s. uuid_v4 (lower_ascii s))"

definition with_utc_offset :: "string \<Rightarrow> string" where
  "with_utc_offset s = concat (map (\<lambda>c. if c = CHR ''Z'' then ''+00:00'' else [c]) s)"

definition gateway_datetime :: "iso_reader \<Rightarrow> json \<Rightarrow> bool" where
  "gateway_datetime read_iso v =
     str_in v (\<lambda>s. s \<noteq> [] \<and> (case read_iso (with_utc_offset s) of None \<Rightarrow> False | Some (aware, t) \<Rightarrow> aware))"

definition network_token :: "string \<Rightarrow> bool" where
  "network_token s \<longleftrightarrow> 1 \<le> length s \<and> length s \<le> 64 \<and> list_all credential_char s"

definition mdns_token :: "string \<Rightarrow> bool" where
  "mdns_token s \<longleftrightarrow> 1 \<le> length s \<and> length s \<le> 128 \<and>
     list_all (\<lambda>c. is_alnum c \<or> c \<in> {CHR ''_'', CHR ''.'', CHR ''-''}) s"

definition gateway_interface_states :: "string list" where
  "gateway_interface_states =
     [''disabled'', ''disconnected'', ''starting'', ''connecting'', ''connected'', ''active'', ''degraded'',
      ''failed'', ''unavailable'']"

definition gateway_disabled_reasons :: "string list" where
  "gateway_disabled_reasons =
     [''not_enabled'', ''auth_profile_unavailable'', ''controller_unavailable'',
      ''network_manager_unavailable'', ''rescue_ap_not_validated'', ''capture_active'', ''recovery_required'',
      ''maintenance_window_closed'', ''unsupported_concurrency'']"

definition gateway_stage_status :: "(string \<times> string) list" where
  "gateway_stage_status =
     [(''accepted'', ''accepted''), (''prepared'', ''running''), (''ap_ready'', ''running''),
      (''activating'', ''running''), (''verifying'', ''running''), (''committed'', ''committed''),
      (''falling_back'', ''running''), (''rescued'', ''rescued''), (''failed'', ''failed''),
      (''forgetting'', ''running''), (''forgotten'', ''committed'')]"

section \<open>Desired and observed state\<close>

definition gateway_desired_wifi :: "json \<Rightarrow> bool res" where
  "gateway_desired_wifi v =
     (case v of
        JObj d \<Rightarrow>
          rejectE (Inr (\<not> has_keys d [''ssid'', ''security'', ''credential_state'']))
            (conjE
              [Inr (str_in (jget d ''ssid'') (\<lambda>s. 1 \<le> length s \<and> length s \<le> 32)),
               in_set (jget d ''security'') request_wifi_security,
               in_set (jget d ''credential_state'') [''absent'', ''pending_input'', ''stored''],
               Inr (eq_str (jget d ''security'') ''open'' = eq_str (jget d ''credential_state'') ''absent'')])
      | _ \<Rightarrow> Inr False)"

definition gateway_desired_state :: "json \<Rightarrow> bool res" where
  "gateway_desired_state v =
     (case v of
        JObj d \<Rightarrow>
          (let mode = jget d ''mode''; wifi = jget d ''wifi_client''; ethernet = jget d ''ethernet'' in
           rejectE (Inr (\<not> has_keys d [''mode'', ''wifi_client'', ''ethernet'']))
            (rejectE (Inr (\<not> in_strs mode network_modes))
             (rejectE (if wifi \<noteq> JNull then notE (gateway_desired_wifi wifi) else Inr False)
              (rejectE (Inr (ethernet \<noteq> JNull \<and> \<not> valid_network_ethernet ethernet))
                (Inr (\<not> (eq_str mode ''wifi-client'' \<and> wifi = JNull \<or>
                          eq_str mode ''ethernet-static'' \<and> ethernet = JNull)))))))
      | _ \<Rightarrow> Inr False)"

definition distinct_texts :: "json \<Rightarrow> (string \<Rightarrow> bool) \<Rightarrow> bool" where
  "distinct_texts v p =
     (case v of JList xs \<Rightarrow> list_all (\<lambda>x. str_in x p) xs \<and> distinct xs | _ \<Rightarrow> False)"

definition gateway_interface :: "json \<Rightarrow> bool res" where
  "gateway_interface v =
     (case v of
        JObj d \<Rightarrow>
          (let state = jget d ''state''; interface = jget d ''interface''; addresses = jget d ''addresses'';
               peer = jget d ''peer_or_ssid'' in
           rejectE (Inr (\<not> has_keys d [''state'', ''interface'', ''addresses'', ''peer_or_ssid'']))
            (rejectE (disjE_list
                [notE (in_set state gateway_interface_states),
                 Inr (interface \<noteq> JNull \<and> \<not> str_in interface network_token),
                 Inr (\<not> distinct_texts addresses (\<lambda>a. a \<noteq> [])),
                 Inr (peer \<noteq> JNull \<and> \<not> str_in peer (\<lambda>p. 1 \<le> py_len p \<and> py_len p \<le> 128))])
              (Inr (\<not> (in_strs state [''connected'', ''active'', ''degraded''] \<and>
                       (interface = JNull \<or> addresses = JList []))))))
      | _ \<Rightarrow> Inr False)"

definition gateway_mdns :: "json \<Rightarrow> bool" where
  "gateway_mdns v =
     (case v of
        JObj d \<Rightarrow>
          has_keys d [''hostname'', ''service'', ''aliases'', ''port''] \<and>
          str_in (jget d ''hostname'') (\<lambda>s. mdns_token s \<and> ends_with s ''.local'') \<and>
          str_in (jget d ''service'') mdns_token \<and>
          (case jget d ''aliases'' of
             JList xs \<Rightarrow> length xs \<le> 16 \<and> distinct_texts (jget d ''aliases'') mdns_token
           | _ \<Rightarrow> False) \<and>
          int_in (jget d ''port'') (\<lambda>i. 1 \<le> i \<and> i \<le> 65535)
      | _ \<Rightarrow> False)"

definition gateway_device :: "json \<Rightarrow> bool" where
  "gateway_device v =
     (case v of
        JObj d \<Rightarrow> has_keys d [''interface'', ''type'', ''state''] \<and>
          list_all (\<lambda>k. str_in (jget d k) network_token) [''interface'', ''type'', ''state'']
      | _ \<Rightarrow> False)"

definition device_interface :: "json \<Rightarrow> json" where
  "device_interface v = (case v of JObj d \<Rightarrow> jget d ''interface'' | _ \<Rightarrow> JNull)"

definition gateway_devices :: "json \<Rightarrow> bool" where
  "gateway_devices v =
     (case v of
        JList ds \<Rightarrow> length ds \<le> 64 \<and> list_all gateway_device ds \<and> distinct (map device_interface ds)
      | _ \<Rightarrow> False)"

definition gateway_observed_state :: "json \<Rightarrow> bool res" where
  "gateway_observed_state v =
     (case v of
        JObj d \<Rightarrow>
          rejectE (Inr (\<not> has_keys d [''ap'', ''wifi_client'', ''wired'', ''default_route'', ''mdns'', ''devices'']))
            (conjE
              [gateway_interface (jget d ''ap''),
               gateway_interface (jget d ''wifi_client''),
               gateway_interface (jget d ''wired''),
               in_set (jget d ''default_route'') [''wifi_client'', ''wired'', ''none''],
               Inr (gateway_mdns (jget d ''mdns'')),
               Inr (gateway_devices (jget d ''devices''))])
      | _ \<Rightarrow> Inr False)"

section \<open>Capabilities\<close>

definition mutation_operation_list :: json where
  "mutation_operation_list = JList [JStr ''apply'', JStr ''retry'', JStr ''forget'']"

definition gateway_mutation_capability :: "json \<Rightarrow> bool res" where
  "gateway_mutation_capability v =
     (case v of
        JObj d \<Rightarrow>
          rejectE (Inr (\<not> has_keys d [''enabled'', ''disabled_reason'', ''operations'',
                     ''idempotency_key_required'', ''secret_handling'', ''active_state_policy'']))
            (conjE
              [Inr (is_bool (jget d ''enabled'')),
               (if jget d ''enabled'' = JBool True then Inr (jget d ''disabled_reason'' = JNull)
                else in_set (jget d ''disabled_reason'') gateway_disabled_reasons),
               Inr (jget d ''operations'' = mutation_operation_list),
               Inr (jget d ''idempotency_key_required'' = JBool True),
               Inr (eq_str (jget d ''secret_handling'') ''opaque_credential_reference_only''),
               Inr (eq_str (jget d ''active_state_policy'') ''idle_only'')])
      | _ \<Rightarrow> Inr False)"

definition gateway_concurrency_capability :: "json \<Rightarrow> bool res" where
  "gateway_concurrency_capability v =
     (case v of
        JObj d \<Rightarrow>
          conjE
            [Inr (has_keys d [''rescue_ap_required'', ''same_phy_ap_sta'',
                    ''exclusive_client_failure_timeout_seconds'', ''max_managed_interfaces'', ''max_ap_interfaces'']),
             Inr (jget d ''rescue_ap_required'' = JBool True),
             in_set (jget d ''same_phy_ap_sta'') [''supported'', ''unsupported'', ''unverified''],
             Inr (eq_num (jget d ''exclusive_client_failure_timeout_seconds'') 10),
             Inr (int_in (jget d ''max_managed_interfaces'') (\<lambda>i. 0 \<le> i \<and> i \<le> 8)),
             Inr (int_in (jget d ''max_ap_interfaces'') (\<lambda>i. 0 \<le> i \<and> i \<le> 8))]
      | _ \<Rightarrow> Inr False)"

section \<open>Transactions\<close>

definition gateway_transaction_error :: "json \<Rightarrow> bool res" where
  "gateway_transaction_error v =
     (case v of
        JObj d \<Rightarrow>
          conjE
            [Inr (has_keys d [''code'', ''message'', ''retryable'']),
             in_set (jget d ''code'') transaction_error_codes,
             Inr (str_in (jget d ''message'') (\<lambda>s. 1 \<le> py_len s \<and> py_len s \<le> 512)),
             Inr (is_bool (jget d ''retryable''))]
      | _ \<Rightarrow> Inr False)"

text \<open>The cross-field rules of a transaction whose fields are valid.\<close>

definition consistent_transaction :: "jobject \<Rightarrow> bool" where
  "consistent_transaction t \<longleftrightarrow>
     (let status = jget t ''status''; error = jget t ''error''; deadline = jget t ''deadline'' in
      \<not> ((in_strs status [''accepted'', ''running'', ''committed''] \<and> error \<noteq> JNull) \<or>
         (in_strs status [''rescued'', ''failed''] \<and> error = JNull) \<or>
         (in_strs status terminal_statuses \<and> deadline \<noteq> JNull) \<or>
         (in_strs (jget t ''stage'') [''activating'', ''verifying''] \<and> deadline = JNull) \<or>
         (eq_str status ''rescued'' \<and> \<not> eq_str (jget t ''recovery_action'') ''reconnect_rescue_ap'')))"

definition gateway_transaction :: "iso_reader \<Rightarrow> json \<Rightarrow> bool res" where
  "gateway_transaction read_iso v =
     (case v of
        JObj t \<Rightarrow>
          rejectE (Inr (\<not> has_keys t transaction_keys))
          (rejectE (notE (conjE
              [Inr (eq_str (jget t ''schema'') transaction_schema),
               Inr (gateway_uuid4 (jget t ''authority_epoch'')),
               Inr (int_in (jget t ''source_revision'') (\<lambda>i. 0 \<le> i)),
               Inr (str_in (jget t ''transaction_id'') uuid_v7),
               Inr (in_strs (jget t ''operation'') [''apply'', ''retry'', ''forget'']),
               in_set (jget t ''status'') transaction_statuses,
               in_set (jget t ''stage'') transaction_stages,
               Inr (str_in (jget t ''stage'')
                     (\<lambda>g. map_option JStr (map_of gateway_stage_status g) = Some (jget t ''status''))),
               gateway_desired_state (jget t ''desired''),
               Inr (gateway_datetime read_iso (jget t ''accepted_at'')),
               Inr (gateway_datetime read_iso (jget t ''updated_at'')),
               Inr (valid_deadline (jget t ''deadline'')),
               in_set (jget t ''recovery_action'') recovery_actions,
               Inr (valid_rescue (jget t ''rescue'')),
               (if jget t ''error'' = JNull then Inr True else gateway_transaction_error (jget t ''error''))]))
            (Inr (consistent_transaction t)))
      | _ \<Rightarrow> Inr False)"

definition gateway_transaction_window :: "iso_reader \<Rightarrow> json \<Rightarrow> bool res" where
  "gateway_transaction_window read_iso v =
     (case v of
        JObj w \<Rightarrow>
          conjE
            [Inr (has_keys w [''current'', ''latest'']),
             (if jget w ''current'' = JNull then Inr True else gateway_transaction read_iso (jget w ''current'')),
             (if jget w ''latest'' = JNull then Inr True else gateway_transaction read_iso (jget w ''latest''))]
      | _ \<Rightarrow> Inr False)"

definition gateway_receipt :: "iso_reader \<Rightarrow> json \<Rightarrow> bool res" where
  "gateway_receipt read_iso v =
     (case v of
        JObj r \<Rightarrow>
          conjE
            [Inr (has_keys r [''schema'', ''accepted_at'', ''transaction'']),
             Inr (eq_str (jget r ''schema'') receipt_schema),
             Inr (gateway_datetime read_iso (jget r ''accepted_at'')),
             gateway_transaction read_iso (jget r ''transaction''),
             (case jget r ''transaction'' of
                JObj t \<Rightarrow> Inr (eq_str (jget t ''status'') ''accepted'' \<and>
                            jget r ''accepted_at'' = jget t ''accepted_at'')
              | _ \<Rightarrow> Inr False)]
      | _ \<Rightarrow> Inr False)"

section \<open>Status, scan and credential receipt\<close>

definition network_status_keys :: "string list" where
  "network_status_keys =
     [''schema'', ''authority_epoch'', ''source_revision'', ''observed_at'', ''saved'', ''verified'', ''desired'',
      ''observed'', ''transaction'', ''mutation_capability'', ''concurrency_capability'']"

definition gateway_status :: "iso_reader \<Rightarrow> json \<Rightarrow> bool res" where
  "gateway_status read_iso v =
     (case v of
        JObj d \<Rightarrow>
          rejectE (Inr (\<not> has_keys d network_status_keys))
           (let w = (case jget d ''transaction'' of JObj w \<Rightarrow> w | _ \<Rightarrow> []);
                epoch = jget d ''authority_epoch''; revision = int_value (jget d ''source_revision'') in
            conjE
             [Inr (eq_str (jget d ''schema'') ''ylx.network-status.v1''),
              Inr (gateway_uuid4 epoch),
              Inr (int_in (jget d ''source_revision'') (\<lambda>i. 0 \<le> i)),
              Inr (gateway_datetime read_iso (jget d ''observed_at'')),
              Inr (is_bool (jget d ''saved'')),
              Inr (is_bool (jget d ''verified'')),
              Inr (jget d ''verified'' \<noteq> JBool True \<or> jget d ''saved'' = JBool True),
              gateway_desired_state (jget d ''desired''),
              gateway_observed_state (jget d ''observed''),
              gateway_transaction_window read_iso (jget d ''transaction''),
              Inr (slot_published (jget w ''current'') epoch revision),
              Inr (slot_published (jget w ''latest'') epoch revision),
              Inr (slot_status (jget w ''current'') [''accepted'', ''running'']),
              gateway_mutation_capability (jget d ''mutation_capability''),
              gateway_concurrency_capability (jget d ''concurrency_capability'')])
      | _ \<Rightarrow> Inr False)"

definition gateway_bad_scan_entry :: "json \<Rightarrow> bool res" where
  "gateway_bad_scan_entry v =
     (case v of
        JObj e \<Rightarrow>
          (if \<not> has_keys e [''ssid'', ''hidden'', ''security'', ''signal_dbm'', ''credential_required'']
           then Inr True
           else
            (let ssid = jget e ''ssid''; hidden = jget e ''hidden''; security = jget e ''security'' in
             disjE_list
              [Inr (\<not> is_bool hidden),
               notE (in_set security request_wifi_security),
               Inr (\<not> int_in (jget e ''signal_dbm'') (\<lambda>i. - 127 \<le> i \<and> i \<le> 0)),
               Inr (\<not> is_bool (jget e ''credential_required'')),
               Inr (jget e ''credential_required'' \<noteq> JBool (\<not> eq_str security ''open'')),
               Inr (hidden = JBool True \<and> ssid \<noteq> JNull),
               Inr (hidden \<noteq> JBool True \<and> \<not> str_in ssid (\<lambda>s. 1 \<le> length s \<and> length s \<le> 32))]))
      | _ \<Rightarrow> Inr True)"

definition gateway_scan :: "iso_reader \<Rightarrow> json \<Rightarrow> bool res" where
  "gateway_scan read_iso v =
     (case v of
        JObj d \<Rightarrow>
          rejectE (Inr (\<not> has_keys d [''schema'', ''authority_epoch'', ''source_revision'', ''scanned_at'', ''networks'']))
          (case jget d ''networks'' of
             JList networks \<Rightarrow>
               rejectE (Inr (256 < length networks))
               (rejectE (disjE_list (map gateway_bad_scan_entry networks))
                 (Inr (eq_str (jget d ''schema'') ''ylx.network-scan.v1'' \<and>
                       gateway_uuid4 (jget d ''authority_epoch'') \<and>
                       int_in (jget d ''source_revision'') (\<lambda>i. 0 \<le> i) \<and>
                       gateway_datetime read_iso (jget d ''scanned_at''))))
           | _ \<Rightarrow> Inr False)
      | _ \<Rightarrow> Inr False)"

definition gateway_instant :: "iso_reader \<Rightarrow> json \<Rightarrow> rat" where
  "gateway_instant read_iso v =
     (case v of JStr s \<Rightarrow> (case read_iso (with_utc_offset s) of Some (aware, t) \<Rightarrow> t | None \<Rightarrow> 0) | _ \<Rightarrow> 0)"

definition gateway_credential_receipt :: "iso_reader \<Rightarrow> json \<Rightarrow> bool" where
  "gateway_credential_receipt read_iso v =
     (case v of
        JObj d \<Rightarrow>
          has_keys d [''schema'', ''credential_ref'', ''issued_at'', ''expires_at'', ''ttl_seconds'', ''single_use''] \<and>
          eq_str (jget d ''schema'') ''ylx.network-credential-receipt.v1'' \<and>
          str_in (jget d ''credential_ref'')
            (\<lambda>s. 1 \<le> py_len s \<and> py_len s \<le> 128 \<and> network_credential_ref s) \<and>
          gateway_datetime read_iso (jget d ''issued_at'') \<and>
          gateway_datetime read_iso (jget d ''expires_at'') \<and>
          int_in (jget d ''ttl_seconds'') (\<lambda>i. 1 \<le> i \<and> i \<le> 120) \<and>
          jget d ''single_use'' = JBool True \<and>
          gateway_instant read_iso (jget d ''expires_at'') - gateway_instant read_iso (jget d ''issued_at'') =
            of_int (int_value (jget d ''ttl_seconds''))
      | _ \<Rightarrow> False)"

end
