(* ===== verification/NetworkEvents.thy ===== *)
theory NetworkEvents
  imports GatewayNetwork ReplayLog EventReplay
begin

text \<open>
  \<open>_NetworkEventReplayBuffer\<close> of \<open>api/gateway.py\<close>: network statuses observed by the gateway's
  streams become numbered events, a transaction when the status announces one and a snapshot
  otherwise.  A status is a document that passed \<open>GatewayHandler._valid_network_status\<close>, so its
  epoch is text and its revision an integer.
\<close>

record net_event =
  ne_id :: nat
  ne_source :: jobject

record net_log =
  nl_capacity :: nat
  nl_events :: "net_event list"
  nl_next :: nat
  nl_last :: "jobject option"
  nl_retired :: "string list"

definition new_net_log :: "int \<Rightarrow> int option \<Rightarrow> nat \<Rightarrow> net_log res" where
  "new_net_log capacity initial random_id =
     (if capacity < 1 then Inl ValueError
      else if (case initial of None \<Rightarrow> False | Some i \<Rightarrow> i < 1) then Inl ValueError
      else Inr \<lparr>nl_capacity = nat capacity, nl_events = [],
             nl_next = (case initial of None \<Rightarrow> random_id | Some i \<Rightarrow> nat i), nl_last = None, nl_retired = []\<rparr>)"

section \<open>Statuses\<close>

definition epoch_text :: "jobject \<Rightarrow> string" where
  "epoch_text st = (case jget st ''authority_epoch'' of JStr s \<Rightarrow> s | _ \<Rightarrow> [])"

definition revision_number :: "jobject \<Rightarrow> int" where
  "revision_number st = (case jget st ''source_revision'' of JInt i \<Rightarrow> i | _ \<Rightarrow> 0)"

datatype status_change = New | Stale | Projection | Same | NewAuthority

definition projection_fields :: "string list" where
  "projection_fields =
     [''saved'', ''verified'', ''desired'', ''observed'', ''transaction'', ''mutation_capability'',
      ''concurrency_capability'']"

definition status_relation :: "jobject \<Rightarrow> net_log \<Rightarrow> status_change" where
  "status_relation st lg =
     (case nl_last lg of
        None \<Rightarrow> New
      | Some prev \<Rightarrow>
          if epoch_text st = epoch_text prev then
            (if revision_number st < revision_number prev then Stale
             else if revision_number prev < revision_number st then New
             else if list_ex (\<lambda>f. py_ne (jget st f) (jget prev f)) projection_fields then Projection
             else Same)
          else if epoch_text st \<in> set (nl_retired lg) then Stale
          else NewAuthority)"

section \<open>Publishing\<close>

text \<open>\<open>a or b\<close> of Python.\<close>

fun truthy :: "json \<Rightarrow> bool" where
  "truthy JNull = False"
| "truthy (JBool b) = b"
| "truthy (JInt i) = (i \<noteq> 0)"
| "truthy (JFloat x) = (x \<noteq> Fin 0)"
| "truthy (JStr s) = (s \<noteq> [])"
| "truthy (JList xs) = (xs \<noteq> [])"
| "truthy (JObj d) = (d \<noteq> [])"

text \<open>The transaction of a status that is announced at exactly the status's revision.\<close>

definition announced :: "jobject \<Rightarrow> jobject option" where
  "announced st =
     (case jget st ''transaction'' of
        JObj w \<Rightarrow>
          (case (if truthy (jget w ''current'') then jget w ''current'' else jget w ''latest'') of
             JObj t \<Rightarrow>
               if py_eq (jget t ''authority_epoch'') (jget st ''authority_epoch'') \<and>
                  py_eq (jget t ''source_revision'') (jget st ''source_revision'')
               then Some t else None
           | _ \<Rightarrow> None)
      | _ \<Rightarrow> None)"

definition net_source :: "jobject \<Rightarrow> bool \<Rightarrow> jobject" where
  "net_source st force =
     (case (if force then None else announced st) of
        Some t \<Rightarrow>
          [(''authority_epoch'', jget st ''authority_epoch''), (''source_revision'', jget st ''source_revision''),
           (''occurred_at'', jget t ''updated_at''), (''type'', JStr ''transaction''),
           (''transaction_id'', jget t ''transaction_id''), (''data'', JObj t)]
      | None \<Rightarrow>
          [(''authority_epoch'', jget st ''authority_epoch''), (''source_revision'', jget st ''source_revision''),
           (''occurred_at'', jget st ''observed_at''), (''type'', JStr ''snapshot''),
           (''transaction_id'', JNull), (''data'', JObj st)])"

definition append_net :: "net_event \<Rightarrow> net_log \<Rightarrow> net_log" where
  "append_net e lg =
     lg\<lparr>nl_events := deque_append (nl_capacity lg) (nl_events lg) e, nl_next := nl_next lg + 1\<rparr>"

definition remember_status :: "jobject \<Rightarrow> net_log \<Rightarrow> net_log" where
  "remember_status st lg =
     (let retired = (case nl_last lg of
            None \<Rightarrow> nl_retired lg
          | Some prev \<Rightarrow> if epoch_text prev \<noteq> epoch_text st then epoch_text prev # nl_retired lg else nl_retired lg) in
      lg\<lparr>nl_last := Some st, nl_retired := retired\<rparr>)"

definition net_publish :: "jobject \<Rightarrow> bool \<Rightarrow> net_log \<Rightarrow> net_event \<times> net_log" where
  "net_publish st force lg =
     (let e = \<lparr>ne_id = nl_next lg, ne_source = net_source st force\<rparr> in (e, remember_status st (append_net e lg)))"

definition net_snapshot :: "jobject \<Rightarrow> nat option \<Rightarrow> net_log \<Rightarrow> net_event \<times> net_log" where
  "net_snapshot st after lg =
     (let chosen = (case nl_last lg of
            Some prev \<Rightarrow> if status_relation st lg \<in> {Same, Stale} then prev else st
          | None \<Rightarrow> st);
          lg1 = (case after of
            Some c \<Rightarrow> if nl_next lg \<le> c then lg\<lparr>nl_next := c + 1\<rparr> else lg
          | None \<Rightarrow> lg) in
      net_publish chosen True lg1)"

text \<open>What an observation publishes, at most one event.\<close>

definition net_observe :: "jobject \<Rightarrow> net_log \<Rightarrow> net_event list \<times> net_log" where
  "net_observe st lg =
     (let rel = status_relation st lg in
      if rel \<in> {Same, Stale} then ([], lg)
      else (case net_publish st (rel \<in> {NewAuthority, Projection}) lg of (e, lg') \<Rightarrow> ([e], lg')))"

section \<open>Reading\<close>

definition contains_cursor :: "net_event list \<Rightarrow> nat \<Rightarrow> bool" where
  "contains_cursor es c \<longleftrightarrow> list_ex (\<lambda>e. ne_id e = c) es"

definition net_newer :: "nat \<Rightarrow> net_log \<Rightarrow> net_event list" where
  "net_newer c lg = filter (\<lambda>e. c < ne_id e) (nl_events lg)"

definition net_events_after :: "nat \<Rightarrow> jobject \<Rightarrow> net_log \<Rightarrow> net_event list \<times> net_log" where
  "net_events_after c st lg =
     (if \<not> contains_cursor (nl_events lg) c then
        (case net_snapshot st (Some c) lg of (e, lg') \<Rightarrow> ([e], lg'))
      else let lg' = snd (net_observe st lg) in (net_newer c lg', lg'))"

definition net_replay :: "nat option \<Rightarrow> jobject \<Rightarrow> net_log \<Rightarrow> net_event list \<times> net_log" where
  "net_replay cursor st lg =
     (case cursor of
        None \<Rightarrow> (case net_snapshot st None lg of (e, lg') \<Rightarrow> ([e], lg'))
      | Some c \<Rightarrow> net_events_after c st lg)"

definition encode_net_event :: "(json \<Rightarrow> string) \<Rightarrow> net_event \<Rightarrow> string" where
  "encode_net_event dumps e =
     (let delivery_id = nat_digits (ne_id e);
          payload = put_all (ne_source e)
            [(''schema'', JStr ''ylx.network-event.v1''), (''sse_delivery_id'', JStr delivery_id)] in
      ''id: '' @ delivery_id @ [CHR 0x0A] @ ''event: '' @ type_text (ne_source e) @ [CHR 0x0A] @
      ''data: '' @ dumps (JObj payload) @ [CHR 0x0A, CHR 0x0A])"

section \<open>The log as a replay log\<close>

interpretation nl: replay_log ne_id nl_events nl_next nl_capacity append_net
  by unfold_locales (simp_all add: append_net_def)

lemma remember_status_keeps [simp]:
  "nl_events (remember_status st lg) = nl_events lg" "nl_next (remember_status st lg) = nl_next lg"
  "nl_capacity (remember_status st lg) = nl_capacity lg" "nl_last (remember_status st lg) = Some st"
  by (simp_all add: remember_status_def Let_def)

lemma ordered_remember [simp]: "nl.ordered (remember_status st lg) = nl.ordered lg"
  by (simp add: nl.ordered_def)

lemma publish_ordered: "nl.ordered lg \<Longrightarrow> nl.ordered (snd (net_publish st force lg))"
  by (simp add: net_publish_def Let_def nl.add_ordered)

lemma ordered_skip: "nl.ordered lg \<Longrightarrow> nl_next lg \<le> n \<Longrightarrow> nl.ordered (lg\<lparr>nl_next := n\<rparr>)"
  by (fastforce simp: nl.ordered_def)

lemma snapshot_ordered: "nl.ordered lg \<Longrightarrow> nl.ordered (snd (net_snapshot st after lg))"
  by (auto simp: net_snapshot_def Let_def intro!: publish_ordered ordered_skip split: option.split)

lemma observe_ordered: "nl.ordered lg \<Longrightarrow> nl.ordered (snd (net_observe st lg))"
  using publish_ordered by (auto simp: net_observe_def Let_def split: prod.split) (metis snd_conv)+

lemma new_net_log_ordered: "new_net_log capacity initial random_id = Inr lg \<Longrightarrow> nl.ordered lg"
  by (auto simp: new_net_log_def nl.ordered_def split: if_splits)

section \<open>A reader misses nothing\<close>

lemma newer_is_newer: "net_newer c lg = nl.newer c lg"
  by (simp add: net_newer_def nl.newer_def)

lemma deque_append_newer:
  assumes "nl.ordered lg" and "nl_events lg = pre @ e # post" and "ne_id x = nl_next lg"
  shows "net_newer (ne_id e) (append_net x lg) = post @ [x]"
proof -
  have room: "0 < nl_capacity lg" and len: "length (nl_events lg) \<le> nl_capacity lg"
    and below: "ne_id e < nl_next lg"
    using assms(1,2) by (auto simp: nl.ordered_def)
  have ord: "nl.ordered (append_net x lg)" by (rule nl.add_ordered [OF assms(1,3)])
  show ?thesis
  proof (cases "length (nl_events lg) = nl_capacity lg \<and> pre = []")
    case True
    then have cap: "nl_capacity lg = Suc (length post)" using assms(2) by auto
    have "nl_events (append_net x lg) = post @ [x]"
      using assms(2) True by (simp add: append_net_def deque_append_def cap)
    moreover have "\<forall>y \<in> set post. ne_id e < ne_id y" using assms(1,2) by (auto simp: nl.ordered_def sorted_wrt_append)
    ultimately show ?thesis using below assms(3) by (simp add: net_newer_def)
  next
    case False
    then have "length (nl_events lg @ [x]) - nl_capacity lg \<le> length pre"
      using len assms(2) by (cases pre) auto
    then have "nl_events (append_net x lg) =
        drop (length (nl_events lg @ [x]) - nl_capacity lg) pre @ e # post @ [x]"
      using assms(2) by (simp add: append_net_def deque_append_def)
    then show ?thesis using nl.newer_complete [OF ord] by (simp only: newer_is_newer)
  qed
qed

text \<open>A reader whose cursor is still buffered receives exactly what was published after it,
  including what this very observation publishes; any other reader receives one fresh snapshot whose
  identifier is beyond its cursor.\<close>

theorem network_reader_is_complete:
  assumes "nl.ordered lg" and "net_events_after c st lg = (events, lg')"
  shows "if contains_cursor (nl_events lg) c
    then \<exists>pre e post. nl_events lg = pre @ e # post \<and> ne_id e = c \<and> events = post @ fst (net_observe st lg)
    else \<exists>e. events = [e] \<and> c < ne_id e \<and> jget (ne_source e) ''type'' = JStr ''snapshot''"
proof (cases "contains_cursor (nl_events lg) c")
  case True
  then obtain pre e post where l: "nl_events lg = pre @ e # post" and e: "ne_id e = c"
    by (auto simp: contains_cursor_def list_ex_iff dest: split_list)
  have events: "events = net_newer c (snd (net_observe st lg))"
    using assms(2) True by (auto simp: net_events_after_def Let_def)
  have "events = post @ fst (net_observe st lg)"
  proof (cases "status_relation st lg \<in> {Same, Stale}")
    case True
    then show ?thesis
      using events nl.newer_complete [OF assms(1) l] e by (simp add: net_observe_def Let_def newer_is_newer)
  next
    case False
    define x where "x = \<lparr>ne_id = nl_next lg, ne_source = net_source st (status_relation st lg \<in> {NewAuthority, Projection})\<rparr>"
    have "net_observe st lg = ([x], remember_status st (append_net x lg))"
      using False by (simp add: net_observe_def Let_def net_publish_def x_def)
    moreover have "net_newer c (remember_status st (append_net x lg)) = net_newer c (append_net x lg)"
      by (simp add: net_newer_def)
    moreover have "net_newer c (append_net x lg) = post @ [x]"
      using deque_append_newer [OF assms(1) l, of x] e by (simp add: x_def)
    ultimately show ?thesis using events by simp
  qed
  then show ?thesis using True l e by auto
next
  case False
  obtain e where e: "net_snapshot st (Some c) lg = (e, lg')" "events = [e]"
    using assms(2) False by (auto simp: net_events_after_def split: prod.splits)
  then have "c < ne_id e" "jget (ne_source e) ''type'' = JStr ''snapshot''"
    by (auto simp: net_snapshot_def net_publish_def net_source_def Let_def split: if_splits)
  then show ?thesis using False e by simp
qed

section \<open>The log never goes back\<close>

text \<open>Every event ever published, with the log after it; \<open>op\<close> is one of the four operations.\<close>

inductive net_history :: "net_log \<Rightarrow> net_event list \<Rightarrow> bool" where
  start: "new_net_log capacity initial random_id = Inr lg \<Longrightarrow> net_history lg []"
| observed: "net_history lg es \<Longrightarrow> net_observe st lg = (new, lg') \<Longrightarrow> net_history lg' (es @ new)"
| resynced: "net_history lg es \<Longrightarrow> net_snapshot st after lg = (e, lg') \<Longrightarrow> net_history lg' (es @ [e])"

definition event_epoch :: "net_event \<Rightarrow> string" where
  "event_epoch e = epoch_text (ne_source e)"

definition event_revision :: "net_event \<Rightarrow> int" where
  "event_revision e = revision_number (ne_source e)"

definition history_inv :: "net_log \<Rightarrow> net_event list \<Rightarrow> bool" where
  "history_inv lg es \<longleftrightarrow>
     distinct (remdups_adj (map event_epoch es)) \<and>
     sorted_wrt (\<lambda>a b. event_epoch a = event_epoch b \<longrightarrow> event_revision a \<le> event_revision b) es \<and>
     (case nl_last lg of
        None \<Rightarrow> es = [] \<and> nl_retired lg = []
      | Some st \<Rightarrow> es \<noteq> [] \<and> event_epoch (last es) = epoch_text st \<and> epoch_text st \<notin> set (nl_retired lg) \<and>
          (\<forall>e \<in> set es. event_epoch e = epoch_text st \<and> event_revision e \<le> revision_number st \<or>
             event_epoch e \<in> set (nl_retired lg)))"

lemma published_event:
  assumes "net_publish st force lg = (e, lg')"
  shows "event_epoch e = epoch_text st" and "event_revision e = revision_number st" and "lg' = remember_status st (append_net e lg)"
  using assms
  by (auto simp: net_publish_def Let_def net_source_def event_epoch_def event_revision_def epoch_text_def
      revision_number_def split: option.splits)

text \<open>A status may be published after \<open>lg\<close>: the same authority not going back, or a fresh one.\<close>

definition advances :: "jobject \<Rightarrow> net_log \<Rightarrow> bool" where
  "advances st lg \<longleftrightarrow>
     (case nl_last lg of
        None \<Rightarrow> True
      | Some prev \<Rightarrow> (if epoch_text st = epoch_text prev then revision_number prev \<le> revision_number st
                    else epoch_text st \<notin> set (nl_retired lg)))"

lemma remdups_adj_snoc:
  "xs \<noteq> [] \<Longrightarrow> remdups_adj (xs @ [x]) = (if last xs = x then remdups_adj xs else remdups_adj xs @ [x])"
  by (cases xs rule: rev_cases) (simp_all add: remdups_adj_append_two)

lemma history_publish:
  assumes inv: "history_inv lg es" and adv: "advances st lg" and pub: "net_publish st force lg = (e, lg')"
  shows "history_inv lg' (es @ [e])"
proof (cases "nl_last lg")
  case None
  then show ?thesis
    using inv published_event [OF pub]
    by (simp add: history_inv_def remember_status_def append_net_def Let_def)
next
  case (Some prev)
  have es: "es \<noteq> []" and last: "event_epoch (last es) = epoch_text prev" and fresh: "epoch_text prev \<notin> set (nl_retired lg)"
    and all: "\<forall>x \<in> set es. event_epoch x = epoch_text prev \<and> event_revision x \<le> revision_number prev \<or>
             event_epoch x \<in> set (nl_retired lg)"
    and dist: "distinct (remdups_adj (map event_epoch es))"
    and sorted: "sorted_wrt (\<lambda>a b. event_epoch a = event_epoch b \<longrightarrow> event_revision a \<le> event_revision b) es"
    using inv Some by (simp_all add: history_inv_def)
  have e: "event_epoch e = epoch_text st" "event_revision e = revision_number st"
    and lg': "lg' = remember_status st (append_net e lg)" using published_event [OF pub] by simp_all
  have last_map: "last (map event_epoch es) = epoch_text prev" using es last by (simp add: last_map)
  show ?thesis
  proof (cases "epoch_text st = epoch_text prev")
    case True
    have "revision_number prev \<le> revision_number st" using adv Some True by (simp add: advances_def)
    then have "\<forall>x \<in> set es. event_epoch x = event_epoch e \<longrightarrow> event_revision x \<le> event_revision e"
      and "\<forall>x \<in> set es. event_epoch x = epoch_text st \<and> event_revision x \<le> revision_number st \<or> event_epoch x \<in> set (nl_retired lg)"
      using all e True fresh by fastforce+
    moreover have "nl_retired lg' = nl_retired lg"
      using Some True by (simp add: lg' remember_status_def append_net_def Let_def)
    moreover have "distinct (remdups_adj (map event_epoch (es @ [e])))"
      using dist es last_map e True by (simp add: remdups_adj_snoc)
    ultimately show ?thesis
      using sorted e True fresh by (simp add: history_inv_def lg' sorted_wrt_append)
  next
    case False
    then have new: "epoch_text st \<notin> set (nl_retired lg)" using adv Some by (simp add: advances_def)
    have retired: "nl_retired lg' = epoch_text prev # nl_retired lg"
      using Some False by (simp add: lg' remember_status_def append_net_def Let_def)
    have other: "\<forall>x \<in> set es. event_epoch x \<noteq> epoch_text st" using all new False by force
    then have "epoch_text st \<notin> set (remdups_adj (map event_epoch es))" by auto
    then have "distinct (remdups_adj (map event_epoch (es @ [e])))"
      using dist es last_map e False by (simp add: remdups_adj_snoc)
    moreover have "sorted_wrt (\<lambda>a b. event_epoch a = event_epoch b \<longrightarrow> event_revision a \<le> event_revision b) (es @ [e])"
      using sorted other e by (simp add: sorted_wrt_append)
    moreover have "\<forall>x \<in> set (es @ [e]). event_epoch x = epoch_text st \<and> event_revision x \<le> revision_number st \<or>
        event_epoch x \<in> set (nl_retired lg')"
      using all e retired by auto
    moreover have "nl_last lg' = Some st" by (simp add: lg')
    ultimately show ?thesis using e new False retired by (simp add: history_inv_def)
  qed
qed

lemma fresh_status_advances: "status_relation st lg \<notin> {Same, Stale} \<Longrightarrow> advances st lg"
  by (auto simp: status_relation_def advances_def split: option.splits if_splits)

lemma history_observe:
  assumes "history_inv lg es" and "net_observe st lg = (new, lg')"
  shows "history_inv lg' (es @ new)"
  using assms history_publish [OF assms(1) fresh_status_advances]
  by (auto simp: net_observe_def Let_def split: if_splits prod.splits)

lemma history_snapshot:
  assumes "history_inv lg es" and "net_snapshot st after lg = (e, lg')"
  shows "history_inv lg' (es @ [e])"
proof -
  define chosen where "chosen = (case nl_last lg of
      Some prev \<Rightarrow> if status_relation st lg \<in> {Same, Stale} then prev else st | None \<Rightarrow> st)"
  define lg1 where "lg1 = (case after of
      Some c \<Rightarrow> if nl_next lg \<le> c then lg\<lparr>nl_next := c + 1\<rparr> else lg | None \<Rightarrow> lg)"
  have same: "nl_last lg1 = nl_last lg" "nl_retired lg1 = nl_retired lg"
    by (simp_all add: lg1_def split: option.split)
  have "advances chosen lg"
    using fresh_status_advances [of st lg]
    by (auto simp: chosen_def advances_def split: option.splits if_splits)
  then have "advances chosen lg1" by (simp only: advances_def same)
  moreover have "history_inv lg1 es" using assms(1) by (simp only: history_inv_def same)
  moreover have "net_publish chosen True lg1 = (e, lg')"
    using assms(2) by (simp add: net_snapshot_def Let_def chosen_def [symmetric] lg1_def [symmetric])
  ultimately show ?thesis by (intro history_publish)
qed

text \<open>Over any run, the published events of one authority form one block, within which the
  revision never decreases: a status of an authority that was replaced, or of an older revision, is
  never published again.\<close>

theorem network_log_never_goes_back:
  assumes "net_history lg es"
  shows "distinct (remdups_adj (map event_epoch es)) \<and>
    sorted_wrt (\<lambda>a b. event_epoch a = event_epoch b \<longrightarrow> event_revision a \<le> event_revision b) es"
proof -
  have "history_inv lg es"
    using assms
  proof (induction rule: net_history.induct)
    case (start capacity initial random_id lg)
    then show ?case by (auto simp: new_net_log_def history_inv_def split: if_splits)
  qed (auto intro: history_observe history_snapshot)
  then show ?thesis by (simp add: history_inv_def)
qed

section \<open>Concrete runs\<close>

definition sample_net_status :: "string \<Rightarrow> int \<Rightarrow> jobject" where
  "sample_net_status authority n =
     [(''authority_epoch'', JStr authority), (''source_revision'', JInt n), (''observed_at'', JStr ''now'')]"

definition sample_net_log :: net_log where
  "sample_net_log = \<lparr>nl_capacity = 2, nl_events = [\<lparr>ne_id = 5, ne_source = net_source (sample_net_status ''a'' 1) True\<rparr>],
     nl_next = 6, nl_last = Some (sample_net_status ''a'' 1), nl_retired = []\<rparr>"

theorem network_reader_is_complete_witness:
  "\<exists>e. fst (net_events_after 5 (sample_net_status ''a'' 2) sample_net_log) = [e] \<and> ne_id e = 6"
proof -
  have "nl.ordered sample_net_log" by (simp add: nl.ordered_def sample_net_log_def)
  from network_reader_is_complete [OF this prod.collapse [symmetric], of 5 "sample_net_status ''a'' 2"]
  have "fst (net_events_after 5 (sample_net_status ''a'' 2) sample_net_log) =
      fst (net_observe (sample_net_status ''a'' 2) sample_net_log)"
    by (auto simp: contains_cursor_def sample_net_log_def Cons_eq_append_conv)
  then show ?thesis
    by (simp add: net_observe_def status_relation_def sample_net_log_def sample_net_status_def net_publish_def
        epoch_text_def revision_number_def Let_def)
qed

theorem network_log_never_goes_back_witness:
  "\<exists>lg es. net_history lg es \<and> map event_epoch es = [''a'', ''b'', ''b''] \<and> distinct (remdups_adj (map event_epoch es))"
proof -
  define l0 where "l0 = \<lparr>nl_capacity = 2, nl_events = [], nl_next = 5, nl_last = None, nl_retired = []\<rparr>"
  have "new_net_log 2 (Some 5) 0 = Inr l0" by (simp add: new_net_log_def l0_def)
  then have h0: "net_history l0 []" by (rule net_history.start)
  obtain e1 l1 where 1: "net_observe (sample_net_status ''a'' 9) l0 = ([e1], l1)" "event_epoch e1 = ''a''"
    "nl_last l1 = Some (sample_net_status ''a'' 9)" "nl_retired l1 = []"
    by (simp add: net_observe_def Let_def net_publish_def status_relation_def l0_def remember_status_def
        append_net_def net_source_def announced_def sample_net_status_def event_epoch_def epoch_text_def)
  obtain e2 l2 where 2: "net_observe (sample_net_status ''b'' 1) l1 = ([e2], l2)" "event_epoch e2 = ''b''"
    "nl_last l2 = Some (sample_net_status ''b'' 1)" "nl_retired l2 = [''a'']"
    using 1(3,4)
    by (simp add: net_observe_def Let_def net_publish_def status_relation_def remember_status_def
        append_net_def net_source_def announced_def sample_net_status_def event_epoch_def epoch_text_def)
  obtain e3 l3 where 3: "net_snapshot (sample_net_status ''a'' 10) None l2 = (e3, l3)" "event_epoch e3 = ''b''"
    using 2(3,4)
    by (simp add: net_snapshot_def Let_def net_publish_def status_relation_def net_source_def sample_net_status_def
        event_epoch_def epoch_text_def)
  have "net_history l3 (((([] @ [e1]) @ [e2]) @ [e3]))"
    using net_history.resynced [OF net_history.observed [OF net_history.observed [OF h0 1(1)] 2(1)] 3(1)] .
  then show ?thesis
    using 1 2 3 network_log_never_goes_back by fastforce
qed

end
