(* ===== verification/Ipv4Text.thy ===== *)
theory Ipv4Text
  imports ContractChecks
begin

text \<open>
  The part of Python's \<open>ipaddress\<close> module that \<open>network.py\<close> uses, on numbers below \<open>2 ^ 32\<close>:
  \<open>IPv4Address(text)\<close> and \<open>IPv4Interface(text)\<close> as partial functions, \<open>str\<close> of both, and the
  network of an interface.
\<close>

section \<open>Reading\<close>

fun octets_value :: "string list \<Rightarrow> nat \<Rightarrow> nat" where
  "octets_value [] acc = acc"
| "octets_value (w # ws) acc = octets_value ws (256 * acc + digits_value w)"

definition ipv4_address :: "string \<Rightarrow> nat option" where
  "ipv4_address s = (if ipv4_text s then Some (octets_value (split_on (CHR ''.'') s) 0) else None)"

text \<open>The mask of an interface is a prefix length, a netmask or a hostmask.\<close>

definition netmask :: "nat \<Rightarrow> nat" where
  "netmask p = 2 ^ 32 - 2 ^ (32 - p)"

definition hostmask :: "nat \<Rightarrow> nat" where
  "hostmask p = 2 ^ (32 - p) - 1"

definition mask_prefix :: "string \<Rightarrow> nat option" where
  "mask_prefix s =
     (if s \<noteq> [] \<and> list_all is_digit s \<and> digits_value s \<le> 32 then Some (digits_value s)
      else (case ipv4_address s of
              None \<Rightarrow> None
            | Some m \<Rightarrow>
                (case find (\<lambda>p. netmask p = m) [0..<33] of
                   Some p \<Rightarrow> Some p
                 | None \<Rightarrow> find (\<lambda>p. hostmask p = m) [0..<33])))"

definition ipv4_interface :: "string \<Rightarrow> (nat \<times> nat) option" where
  "ipv4_interface s =
     (case split_on (CHR ''/'') s of
        [a] \<Rightarrow> map_option (\<lambda>n. (n, 32)) (ipv4_address a)
      | [a, m] \<Rightarrow>
          (case (ipv4_address a, mask_prefix m) of
             (Some n, Some p) \<Rightarrow> Some (n, p)
           | _ \<Rightarrow> None)
      | _ \<Rightarrow> None)"

section \<open>Writing\<close>

definition ipv4_string :: "nat \<Rightarrow> string" where
  "ipv4_string n =
     nat_digits (n div 2 ^ 24 mod 256) @ ''.'' @ nat_digits (n div 2 ^ 16 mod 256) @ ''.'' @
     nat_digits (n div 2 ^ 8 mod 256) @ ''.'' @ nat_digits (n mod 256)"

definition interface_string :: "nat \<times> nat \<Rightarrow> string" where
  "interface_string i = ipv4_string (fst i) @ ''/'' @ nat_digits (snd i)"

section \<open>The network of an interface\<close>

definition network_address :: "nat \<times> nat \<Rightarrow> nat" where
  "network_address i = fst i - fst i mod 2 ^ (32 - snd i)"

definition broadcast_address :: "nat \<times> nat \<Rightarrow> nat" where
  "broadcast_address i = network_address i + hostmask (snd i)"

definition in_network :: "nat \<Rightarrow> nat \<times> nat \<Rightarrow> bool" where
  "in_network n i \<longleftrightarrow> network_address i \<le> n \<and> n \<le> broadcast_address i"

definition networks_overlap :: "nat \<times> nat \<Rightarrow> nat \<times> nat \<Rightarrow> bool" where
  "networks_overlap i j \<longleftrightarrow>
     in_network (network_address j) i \<or> in_network (broadcast_address j) i \<or>
     in_network (network_address i) j \<or> in_network (broadcast_address i) j"

text \<open>\<open>is_link_local\<close> (169.254/16), \<open>is_loopback\<close> (127/8), \<open>is_multicast\<close> (224/4) and
  \<open>is_unspecified\<close>.\<close>

definition special_address :: "nat \<Rightarrow> bool" where
  "special_address n \<longleftrightarrow>
     n div 2 ^ 16 = 169 * 256 + 254 \<or> n div 2 ^ 24 = 127 \<or> n div 2 ^ 28 = 14 \<or> n = 0"

section \<open>Reading back what was written\<close>

lemma zero_digit [simp]: "k < 10 \<Longrightarrow> char_of (48 + k :: nat) = CHR ''0'' \<longleftrightarrow> k = 0"
  by (auto simp: char_of_eq_iff take_bit_eq_mod)

lemma nat_digits_octet:
  assumes "n < 256"
  shows "ipv4_octet (nat_digits n)"
proof -
  have "length (nat_digits n) \<le> 3 \<and> (hd (nat_digits n) = CHR ''0'' \<longrightarrow> length (nat_digits n) = 1)"
  proof -
    consider "n < 10" | "10 \<le> n \<and> n < 100" | "100 \<le> n" by linarith
    then show ?thesis
    proof cases
      case 1
      then have "nat_digits n = [char_of (48 + n)]" by (subst nat_digits.simps) simp
      then show ?thesis by simp
    next
      case 2
      then have "n div 10 < 10" "n div 10 \<noteq> 0" by auto
      then show ?thesis using 2
        by (auto simp: nat_digits.simps [of n] nat_digits.simps [of "n div 10"])
    next
      case 3
      then have "n div 10 div 10 < 10" "n div 10 div 10 \<noteq> 0" "10 \<le> n div 10" using assms by auto
      then show ?thesis using 3
        by (auto simp: nat_digits.simps [of n] nat_digits.simps [of "n div 10"]
            nat_digits.simps [of "n div 10 div 10"])
    qed
  qed
  then show ?thesis
    using assms by (simp add: ipv4_octet_def nat_digits_digits digits_value_nat_digits)
qed

lemma split_on_fresh: "c \<notin> set s \<Longrightarrow> split_on c s = [s]"
  by (induction s) auto

lemma split_on_append: "c \<notin> set s \<Longrightarrow> split_on c (s @ c # t) = s # split_on c t"
  by (induction s) auto

lemma nat_digits_no: "\<not> is_digit c \<Longrightarrow> c \<notin> set (nat_digits n)"
  using nat_digits_digits [of n] by (auto simp: list_all_iff)

lemma split_ipv4_string:
  "split_on (CHR ''.'') (ipv4_string n) =
     [nat_digits (n div 2 ^ 24 mod 256), nat_digits (n div 2 ^ 16 mod 256), nat_digits (n div 2 ^ 8 mod 256),
      nat_digits (n mod 256)]"
proof -
  have fresh: "CHR ''.'' \<notin> set (nat_digits k)" for k by (rule nat_digits_no) (simp add: is_digit_def)
  show ?thesis
    unfolding ipv4_string_def by (simp add: split_on_append [OF fresh] split_on_fresh [OF fresh])
qed

lemma ipv4_string_text: "ipv4_text (ipv4_string n)"
  unfolding ipv4_text_def split_ipv4_string by (simp add: nat_digits_octet)

lemma four_octets:
  fixes n :: nat
  shows "n = 256 * a + r0 \<Longrightarrow> a = 256 * b + r1 \<Longrightarrow> b = 256 * c + r2 \<Longrightarrow> d = c \<Longrightarrow>
    256 * (256 * (256 * d + r2) + r1) + r0 = n"
  by simp

lemma ipv4_roundtrip:
  assumes "n < 2 ^ 32"
  shows "ipv4_address (ipv4_string n) = Some n"
proof -
  have "256 * (256 * (256 * (n div 2 ^ 24 mod 256) + n div 2 ^ 16 mod 256) + n div 2 ^ 8 mod 256) + n mod 256 = n"
  proof -
    have "n = 256 * (n div 2 ^ 8) + n mod 256"
      and "n div 2 ^ 8 = 256 * (n div 2 ^ 16) + n div 2 ^ 8 mod 256"
      and "n div 2 ^ 16 = 256 * (n div 2 ^ 24) + n div 2 ^ 16 mod 256"
      using mult_div_mod_eq [of 256 n] mult_div_mod_eq [of 256 "n div 2 ^ 8"] mult_div_mod_eq [of 256 "n div 2 ^ 16"]
      by (simp_all add: div_mult2_eq [symmetric])
    moreover have "n div 2 ^ 24 mod 256 = n div 2 ^ 24" using assms by simp
    ultimately show ?thesis by (rule four_octets)
  qed
  then show ?thesis
    by (simp only: ipv4_address_def split_ipv4_string ipv4_string_text if_True octets_value.simps
        digits_value_nat_digits mult_0_right add_0)
qed

lemma interface_roundtrip:
  assumes "n < 2 ^ 32" and "p \<le> 32"
  shows "ipv4_interface (interface_string (n, p)) = Some (n, p)"
proof -
  have "CHR ''/'' \<notin> set (nat_digits k)" for k by (rule nat_digits_no) (simp add: is_digit_def)
  then have fresh: "CHR ''/'' \<notin> set (ipv4_string n)" "CHR ''/'' \<notin> set (nat_digits p)"
    by (auto simp: ipv4_string_def)
  have "split_on (CHR ''/'') (interface_string (n, p)) = [ipv4_string n, nat_digits p]"
    unfolding interface_string_def by (simp add: split_on_append [OF fresh(1)] split_on_fresh [OF fresh(2)])
  moreover have "mask_prefix (nat_digits p) = Some p"
    using assms(2) by (simp add: mask_prefix_def nat_digits_digits digits_value_nat_digits)
  ultimately show ?thesis by (simp add: ipv4_interface_def ipv4_roundtrip [OF assms(1)])
qed

lemma octet_bound: "ipv4_octet s \<Longrightarrow> digits_value s < 256"
  by (simp add: ipv4_octet_def)

lemma length_four: "length xs = 4 \<Longrightarrow> \<exists>a b c d. xs = [a, b, c, d]"
  by (auto simp: eval_nat_numeral length_Suc_conv)

lemma ipv4_address_bound:
  assumes "ipv4_address s = Some n"
  shows "n < 2 ^ 32"
proof -
  have octets: "ipv4_text s" and n: "n = octets_value (split_on (CHR ''.'') s) 0"
    using assms by (auto simp: ipv4_address_def split: if_splits)
  then obtain a b c d where w: "split_on (CHR ''.'') s = [a, b, c, d]"
    using octets length_four unfolding ipv4_text_def by blast
  then have "digits_value a < 256" "digits_value b < 256" "digits_value c < 256" "digits_value d < 256"
    using octets by (simp_all add: ipv4_text_def octet_bound)
  then show ?thesis by (simp add: n w)
qed

lemma mask_prefix_bound: "mask_prefix s = Some p \<Longrightarrow> p \<le> 32"
  by (auto simp: mask_prefix_def find_Some_iff split: if_splits option.splits)

lemma ipv4_interface_bound:
  assumes "ipv4_interface s = Some (n, p)"
  shows "n < 2 ^ 32" and "p \<le> 32"
  using assms
  by (auto simp: ipv4_interface_def split: list.splits option.splits dest: ipv4_address_bound mask_prefix_bound)

end
