(* ===== verification/NetworkScan.thy ===== *)
theory NetworkScan
  imports NetworkControl GatewayNetwork ResourceContracts PyText "HOL-Library.Multiset"
begin

text \<open>
  The Wi-Fi scan of \<open>network.py\<close>: \<open>nmcli\<close>'s terse output (an argument) becomes a closed,
  credential-free list, strongest network first.  The text functions are exact on the ASCII
  columns \<open>SECURITY\<close> and \<open>SIGNAL\<close>; the network name is any UTF-8 text.
\<close>

record nmcli_result =
  nm_returncode :: int
  nm_stdout :: string
  nm_stderr :: string

definition nm_error :: "string \<Rightarrow> pyexc" where
  "nm_error code = AppError ''NetworkError'' code False"

section \<open>The columns\<close>

fun split_terse_from :: "string list \<Rightarrow> string \<Rightarrow> bool \<Rightarrow> string \<Rightarrow> string list option" where
  "split_terse_from cols current escaped [] = (if escaped then None else Some (cols @ [current]))"
| "split_terse_from cols current escaped (c # s) =
     (if escaped then split_terse_from cols (current @ [c]) False s
      else if c = CHR 0x5C then split_terse_from cols current True s
      else if c = CHR '':'' then split_terse_from (cols @ [current]) [] False s
      else split_terse_from cols (current @ [c]) False s)"

definition split_nmcli_terse :: "string \<Rightarrow> string list option" where
  "split_nmcli_terse line = split_terse_from [] [] False line"

fun contains :: "string \<Rightarrow> string \<Rightarrow> bool" where
  "contains p [] = (p = [])"
| "contains p (c # s) = (take (length p) (c # s) = p \<or> contains p s)"

definition is_ascii_space :: "char \<Rightarrow> bool" where
  "is_ascii_space c \<longleftrightarrow> (9 \<le> (of_char c :: nat) \<and> (of_char c :: nat) \<le> 13) \<or>
     (28 \<le> (of_char c :: nat) \<and> (of_char c :: nat) \<le> 32)"

definition strip_ascii :: "string \<Rightarrow> string" where
  "strip_ascii s = rev (dropWhile is_ascii_space (rev (dropWhile is_ascii_space s)))"

definition upper_ascii :: "string \<Rightarrow> string" where
  "upper_ascii s = map (\<lambda>c. if is_lower c then char_of (of_char c - 32 :: nat) else c) s"

definition scan_security :: "string \<Rightarrow> string option" where
  "scan_security raw =
     (let normalized = upper_ascii (strip_ascii raw);
          has_wpa3 = contains ''WPA3'' normalized \<or> contains ''SAE'' normalized;
          has_wpa2 = contains ''WPA2'' normalized \<or> contains ''WPA1'' normalized \<or> normalized = ''WPA'' in
      if normalized = [] \<or> normalized = ''--'' then Some ''open''
      else if list_ex (\<lambda>m. contains m normalized) [''802.1X'', ''ENTERPRISE'', ''EAP'', ''WEP''] then None
      else if has_wpa2 \<and> has_wpa3 then Some ''wpa2-wpa3-personal''
      else if has_wpa3 then Some ''wpa3-personal''
      else if has_wpa2 then Some ''wpa2-personal''
      else None)"

text \<open>\<open>int(text)\<close> on ASCII text: blanks around, a sign, digits with single underscores between.\<close>

definition int_digits :: "string \<Rightarrow> int option" where
  "int_digits s =
     (if list_all (\<lambda>w. w \<noteq> [] \<and> list_all is_digit w) (split_on (CHR ''_'') s) \<and> length s \<le> 4300
      then Some (int (digits_value (filter is_digit s))) else None)"

definition int_of_text :: "string \<Rightarrow> int option" where
  "int_of_text raw =
     (case strip_ascii raw of
        [] \<Rightarrow> None
      | c # s \<Rightarrow> (if c = CHR ''-'' then map_option uminus (int_digits s)
                 else if c = CHR ''+'' then int_digits s else int_digits (c # s)))"

text \<open>\<open>round(percent / 2 - 100)\<close>, to the even neighbour of a half.\<close>

definition signal_dbm :: "int \<Rightarrow> int" where
  "signal_dbm p = (let f = p div 2 - 100 in if even p \<or> even f then f else f + 1)"

section \<open>The list\<close>

definition scanned_entry :: "string list \<Rightarrow> ((json \<times> string) \<times> jobject) option" where
  "scanned_entry cols =
     (case cols of
        [ssid_value, raw_security, raw_signal] \<Rightarrow>
          (case int_of_text raw_signal of
             None \<Rightarrow> None
           | Some percent \<Rightarrow>
               let hidden = (ssid_value = []); ssid = (if hidden then JNull else JStr ssid_value) in
               (case scan_security raw_security of
                  None \<Rightarrow> None
                | Some security \<Rightarrow>
                    if \<not> (0 \<le> percent \<and> percent \<le> 100) \<or>
                       (\<not> hidden \<and> (\<not> (1 \<le> length ssid_value \<and> length ssid_value \<le> 32) \<or>
                                   list_ex (\<lambda>c. (of_char c :: nat) < 32) ssid_value))
                    then None
                    else Some ((ssid, security),
                      [(''ssid'', ssid), (''hidden'', JBool hidden), (''security'', JStr security),
                       (''signal_dbm'', JInt (signal_dbm percent)),
                       (''credential_required'', JBool (security \<noteq> ''open''))])))
      | _ \<Rightarrow> None)"

definition entry_dbm :: "jobject \<Rightarrow> int" where
  "entry_dbm e = int_value (jget e ''signal_dbm'')"

type_synonym strongest = "((json \<times> string) \<times> jobject) list"

definition keep_strongest :: "string \<Rightarrow> strongest \<Rightarrow> strongest" where
  "keep_strongest line best =
     (case Option.bind (split_nmcli_terse line) scanned_entry of
        None \<Rightarrow> best
      | Some (key, entry) \<Rightarrow>
          (case map_of best key of
             None \<Rightarrow> AList.update key entry best
           | Some previous \<Rightarrow>
               if entry_dbm previous < entry_dbm entry then AList.update key entry best else best))"

text \<open>The sort key: strongest first, hidden networks last, then name and security.\<close>

definition entry_name :: "jobject \<Rightarrow> string" where
  "entry_name e = (case jget e ''ssid'' of JStr s \<Rightarrow> s | _ \<Rightarrow> [])"

definition entry_security :: "jobject \<Rightarrow> string" where
  "entry_security e = (case jget e ''security'' of JStr s \<Rightarrow> s | _ \<Rightarrow> [])"

definition scan_le :: "jobject \<Rightarrow> jobject \<Rightarrow> bool" where
  "scan_le a b \<longleftrightarrow>
     (if entry_dbm a \<noteq> entry_dbm b then entry_dbm b < entry_dbm a
      else if (jget a ''ssid'' = JNull) \<noteq> (jget b ''ssid'' = JNull) then jget b ''ssid'' = JNull
      else if entry_name a \<noteq> entry_name b then str_le (entry_name a) (entry_name b)
      else str_le (entry_security a) (entry_security b))"

fun insert_by :: "('a \<Rightarrow> 'a \<Rightarrow> bool) \<Rightarrow> 'a \<Rightarrow> 'a list \<Rightarrow> 'a list" where
  "insert_by le x [] = [x]"
| "insert_by le x (y # ys) = (if le x y then x # y # ys else y # insert_by le x ys)"

definition sort_by :: "('a \<Rightarrow> 'a \<Rightarrow> bool) \<Rightarrow> 'a list \<Rightarrow> 'a list" where
  "sort_by le xs = foldr (insert_by le) xs []"

definition scan_wifi_networks :: "nmcli_result res \<Rightarrow> jobject list res" where
  "scan_wifi_networks answer =
     bindE answer (\<lambda>r.
       if nm_returncode r \<noteq> 0 then Inl (nm_error ''network_scan_failed'')
       else Inr (take 256 (sort_by scan_le
              (map snd (fold keep_strongest (splitlines (nm_stdout r)) [])))))"

section \<open>Every listed network is acceptable\<close>

definition listed_network :: "jobject \<Rightarrow> bool" where
  "listed_network e \<longleftrightarrow>
     (\<exists>ssid security dbm. e =
        [(''ssid'', ssid), (''hidden'', JBool (ssid = JNull)), (''security'', JStr security),
         (''signal_dbm'', JInt dbm), (''credential_required'', JBool (security \<noteq> ''open''))] \<and>
        security \<in> set wifi_security \<and> - 127 \<le> dbm \<and> dbm \<le> 0 \<and>
        (ssid = JNull \<or> str_in ssid (\<lambda>s. 1 \<le> length s \<and> length s \<le> 32)))"

lemma scan_security_known: "scan_security raw = Some s \<Longrightarrow> s \<in> set wifi_security"
  by (auto simp: scan_security_def Let_def wifi_security_def split: if_splits)

lemma signal_dbm_range: "0 \<le> p \<Longrightarrow> p \<le> 100 \<Longrightarrow> - 127 \<le> signal_dbm p \<and> signal_dbm p \<le> 0"
  by (auto simp: signal_dbm_def Let_def)

lemma scanned_entry_listed:
  assumes "scanned_entry cols = Some (key, e)"
  shows "listed_network e \<and> key = (jget e ''ssid'', entry_security e)"
  using assms
  by (auto simp: scanned_entry_def listed_network_def entry_security_def Let_def dest!: scan_security_known
      signal_dbm_range split: list.splits option.splits if_splits)

definition good_kept :: "strongest \<Rightarrow> bool" where
  "good_kept best \<longleftrightarrow> distinct (map fst best) \<and>
     (\<forall>(key, e) \<in> set best. listed_network e \<and> key = (jget e ''ssid'', entry_security e))"

lemma good_kept_update:
  assumes "good_kept best" and "scanned_entry cols = Some (key, e)"
  shows "good_kept (AList.update key e best)"
  unfolding good_kept_def
proof (intro conjI ballI)
  show "distinct (map fst (AList.update key e best))"
    using assms(1) by (simp add: good_kept_def distinct_update)
next
  fix x assume "x \<in> set (AList.update key e best)"
  then have "x = (key, e) \<or> x \<in> set best" using set_update_subset by fast
  then show "case x of (key, e) \<Rightarrow> listed_network e \<and> key = (jget e ''ssid'', entry_security e)"
    using assms(1) scanned_entry_listed [OF assms(2)] by (auto simp: good_kept_def)
qed

lemma good_kept_step: "good_kept best \<Longrightarrow> good_kept (keep_strongest line best)"
  by (auto simp: keep_strongest_def good_kept_update split: option.splits bind_splits)

lemma good_kept_fold: "good_kept best \<Longrightarrow> good_kept (fold keep_strongest lines best)"
  by (induction lines arbitrary: best) (auto intro: good_kept_step)

lemma insert_by_mset: "mset (insert_by le x ys) = add_mset x (mset ys)"
  by (induction ys) auto

lemma sort_by_mset: "mset (sort_by le xs) = mset xs"
  by (induction xs) (auto simp: sort_by_def insert_by_mset)

lemma insert_by_sorted:
  assumes "\<And>a b. le a b \<or> le b a" and "\<And>a b c. le a b \<Longrightarrow> le b c \<Longrightarrow> le a c"
  shows "sorted_wrt le ys \<Longrightarrow> sorted_wrt le (insert_by le x ys)"
proof (induction ys)
  case (Cons y ys)
  have "set (insert_by le x ys) = insert x (set ys)"
    by (metis insert_by_mset set_mset_add_mset_insert set_mset_mset)
  then show ?case using Cons assms by auto
qed simp

lemma sort_by_sorted:
  assumes "\<And>a b. le a b \<or> le b a" and "\<And>a b c. le a b \<Longrightarrow> le b c \<Longrightarrow> le a c"
  shows "sorted_wrt le (sort_by le xs)"
proof (induction xs)
  case (Cons x xs)
  then show ?case using insert_by_sorted [OF assms] by (simp add: sort_by_def)
qed (simp add: sort_by_def)

lemma str_le_total: "str_le s t \<or> str_le t s"
  by (induction s t rule: str_le.induct) (auto simp: not_less_iff_gr_or_eq)

lemma str_le_trans: "str_le s t \<Longrightarrow> str_le t u \<Longrightarrow> str_le s u"
proof (induction s t arbitrary: u rule: str_le.induct)
  case (3 c s d t)
  then show ?case by (cases u) auto
qed auto

lemma str_le_antisym: "str_le s t \<Longrightarrow> str_le t s \<Longrightarrow> s = t"
  by (induction s t rule: str_le.induct) (auto, case_tac t, auto)

lemma scan_le_total: "scan_le a b \<or> scan_le b a"
  using str_le_total by (auto simp: scan_le_def)

lemma scan_le_trans:
  assumes ab: "scan_le a b" and bc: "scan_le b c"
  shows "scan_le a c"
proof (cases "entry_dbm a = entry_dbm b \<and> entry_dbm b = entry_dbm c")
  case dbm: True
  show ?thesis
  proof (cases "(jget a ''ssid'' = JNull) = (jget b ''ssid'' = JNull) \<and> (jget b ''ssid'' = JNull) = (jget c ''ssid'' = JNull)")
    case null: True
    have names: "str_le (entry_name a) (entry_name b)" "str_le (entry_name b) (entry_name c)"
      using ab bc dbm null str_le_total [of "entry_name b" "entry_name b"]
      by (auto simp: scan_le_def split: if_split_asm)
    show ?thesis
    proof (cases "entry_name a = entry_name c")
      case True
      then have "entry_name a = entry_name b" using names str_le_antisym by metis
      then show ?thesis
        using ab bc dbm null True str_le_trans [of "entry_security a" "entry_security b"]
        by (simp add: scan_le_def)
    next
      case False
      then show ?thesis using dbm null names str_le_trans by (simp add: scan_le_def)
    qed
  next
    case False
    have "jget a ''ssid'' = JNull \<longrightarrow> jget b ''ssid'' = JNull" "jget b ''ssid'' = JNull \<longrightarrow> jget c ''ssid'' = JNull"
      using ab bc dbm by (auto simp: scan_le_def split: if_split_asm)
    then show ?thesis using False dbm by (auto simp: scan_le_def)
  qed
next
  case False
  have "entry_dbm b \<le> entry_dbm a" "entry_dbm c \<le> entry_dbm b"
    using ab bc by (auto simp: scan_le_def split: if_split_asm)
  then show ?thesis using False by (auto simp: scan_le_def)
qed

lemma listed_network_ok:
  assumes "listed_network e"
  shows "gateway_bad_scan_entry (JObj e) = Inr False" and "bad_scan_entry (JObj e) = Inr False"
proof -
  obtain ssid security dbm where e: "e =
      [(''ssid'', ssid), (''hidden'', JBool (ssid = JNull)), (''security'', JStr security),
       (''signal_dbm'', JInt dbm), (''credential_required'', JBool (security \<noteq> ''open''))]"
    and security: "security \<in> set wifi_security" and dbm: "- 127 \<le> dbm" "dbm \<le> 0"
    and ssid: "ssid = JNull \<or> str_in ssid (\<lambda>s. 1 \<le> length s \<and> length s \<le> 32)"
    using assms by (auto simp: listed_network_def)
  have known: "security \<in> set request_wifi_security"
    using security by (simp add: wifi_security_def request_wifi_security_def)
  have keys: "has_keys e [''ssid'', ''hidden'', ''security'', ''signal_dbm'', ''credential_required'']"
    by (simp add: e has_keys_def)
  show "gateway_bad_scan_entry (JObj e) = Inr False"
    unfolding gateway_bad_scan_entry_def using known keys dbm ssid by (simp add: e eq_str_def disjE_list_False)
  show "bad_scan_entry (JObj e) = Inr False"
    unfolding bad_scan_entry_def using security keys dbm ssid by (simp add: e eq_str_def disjE_list_False)
qed

text \<open>Whatever \<open>nmcli\<close> prints, a scan lists at most 256 networks, strongest first and each
  name and security once, and both the controller's and the gateway's validator accept every
  entry.\<close>

theorem scan_is_acceptable:
  assumes "scan_wifi_networks answer = Inr networks"
  shows "length networks \<le> 256 \<and> sorted_wrt (\<lambda>a b. entry_dbm b \<le> entry_dbm a) networks \<and>
    distinct (map (\<lambda>e. (jget e ''ssid'', entry_security e)) networks) \<and>
    list_all (\<lambda>e. gateway_bad_scan_entry (JObj e) = Inr False \<and> bad_scan_entry (JObj e) = Inr False) networks"
proof -
  have "good_kept []" by (simp add: good_kept_def)
  then obtain best where best: "good_kept best" and n: "networks = take 256 (sort_by scan_le (map snd best))"
    using assms good_kept_fold by (auto simp: scan_wifi_networks_def bindE_eq_Inr split: if_splits)
  let ?all = "sort_by scan_le (map snd best)" and ?key = "\<lambda>e. (jget e ''ssid'', entry_security e)"
  have set: "set ?all = set (map snd best)" by (metis set_mset_mset sort_by_mset)
  then have listed: "\<forall>e \<in> set networks. listed_network e"
    using best set_take_subset [of 256 ?all] by (fastforce simp: n good_kept_def)
  have "map ?key (map snd best) = map fst best"
    using best by (auto simp: good_kept_def)
  then have "distinct (map ?key (map snd best))" using best unfolding good_kept_def by (simp only: simp_thms)
  moreover have "mset (map ?key (map snd best)) = mset (map ?key ?all)"
    by (simp only: mset_map sort_by_mset)
  ultimately have "distinct (map ?key ?all)" using mset_eq_imp_distinct_iff by blast
  then have distinct: "distinct (map ?key networks)" by (simp add: n take_map [symmetric])
  have "sorted_wrt scan_le networks"
    unfolding n by (intro sorted_wrt_take sort_by_sorted scan_le_total) (rule scan_le_trans)
  then have sorted: "sorted_wrt (\<lambda>a b. entry_dbm b \<le> entry_dbm a) networks"
    by (rule sorted_wrt_mono_rel [rotated]) (auto simp: scan_le_def split: if_splits)
  have "length networks \<le> 256" by (simp add: n)
  moreover have "list_all (\<lambda>e. gateway_bad_scan_entry (JObj e) = Inr False \<and> bad_scan_entry (JObj e) = Inr False) networks"
    using listed listed_network_ok unfolding list_all_iff by blast
  ultimately show ?thesis using sorted distinct by blast
qed

section \<open>Reading back what \<open>nmcli\<close> escaped\<close>

definition escape_field :: "string \<Rightarrow> string" where
  "escape_field s = concat (map (\<lambda>c. if c = CHR 0x5C \<or> c = CHR '':'' then [CHR 0x5C, c] else [c]) s)"

fun terse_line :: "string list \<Rightarrow> string" where
  "terse_line [] = []"
| "terse_line [f] = escape_field f"
| "terse_line (f # fs) = escape_field f @ CHR '':'' # terse_line fs"

lemma split_escaped:
  "split_terse_from cols current False (escape_field f @ rest) = split_terse_from cols (current @ f) False rest"
  by (induction f arbitrary: current) (simp_all add: escape_field_def)

lemma split_terse_line:
  "fs \<noteq> [] \<Longrightarrow> split_terse_from cols [] False (terse_line fs) = Some (cols @ fs)"
proof (induction fs arbitrary: cols rule: terse_line.induct)
  case (2 f)
  then show ?case using split_escaped [of cols "[]" f "[]"] by simp
next
  case (3 f g fs)
  then show ?case by (simp add: split_escaped)
qed simp

text \<open>The terse splitter inverts \<open>nmcli\<close>'s escaping of colons and backslashes, so that a
  network name with either is read back exactly.\<close>

theorem terse_roundtrip:
  assumes "cols \<noteq> []"
  shows "split_nmcli_terse (terse_line cols) = Some cols"
  using split_terse_line [OF assms] by (simp add: split_nmcli_terse_def)

section \<open>Concrete scans\<close>

definition sample_scan :: nmcli_result where
  "sample_scan = \<lparr>nm_returncode = 0, nm_stdout = ''Lab:WPA2:60'' @ [CHR 0x0A] @ ''Lab:WPA2:81'' @ [CHR 0x0A], nm_stderr = []\<rparr>"

definition sample_network_list :: "jobject list" where
  "sample_network_list =
     [[(''ssid'', JStr ''Lab''), (''hidden'', JBool False), (''security'', JStr ''wpa2-personal''),
       (''signal_dbm'', JInt (- 60)), (''credential_required'', JBool True)]]"

lemma sample_scan_result: "scan_wifi_networks (Inr sample_scan) = Inr sample_network_list"
  by code_simp

theorem scan_is_acceptable_witness:
  "scan_wifi_networks (Inr sample_scan) = Inr sample_network_list \<and> length sample_network_list \<le> 256"
  using sample_scan_result scan_is_acceptable [OF sample_scan_result] by blast

theorem terse_roundtrip_witness:
  "split_nmcli_terse (terse_line [''a:b'', [CHR 0x5C], []]) = Some [''a:b'', [CHR 0x5C], []]"
  using terse_roundtrip [of "[''a:b'', [CHR 0x5C], []]"] by simp

end
