(* ===== verification/NetworkConfig.thy ===== *)
theory NetworkConfig
  imports Ipv4Text NetworkScan
begin

text \<open>
  \<open>network.py\<close> from a requested configuration to the NetworkManager profile: \<open>_validate_config\<close>
  returns the normalised configuration, \<open>_network_manager_profile\<close> prints it as a key file.  A
  configuration is the JSON object the code receives; \<open>uuid5\<close> stands for
  \<open>str(uuid.uuid5(NAMESPACE_DNS, \<sqdot>))\<close>.
\<close>

section \<open>Validation\<close>

definition config_error :: pyexc where
  "config_error = nm_error ''config_invalid''"

definition supported_modes :: "string list" where
  "supported_modes = [''hotspot'', ''wifi-client'', ''ethernet-dhcp'', ''ethernet-static'']"

definition printable_text :: "string \<Rightarrow> bool" where
  "printable_text s \<longleftrightarrow> s \<noteq> [] \<and> list_all (\<lambda>c. 32 \<le> (of_char c :: nat)) s"

definition text_field :: "jobject \<Rightarrow> string \<Rightarrow> string res" where
  "text_field config name =
     (case jget config name of
        JStr s \<Rightarrow> (if printable_text s then Inr s else Inl config_error)
      | _ \<Rightarrow> Inl config_error)"

definition jget_default :: "jobject \<Rightarrow> string \<Rightarrow> json \<Rightarrow> json" where
  "jget_default d k other = (case map_of d k of None \<Rightarrow> other | Some v \<Rightarrow> v)"

definition wifi_ssid :: "jobject \<Rightarrow> string res" where
  "wifi_ssid config =
     bindE (text_field config ''ssid'') (\<lambda>s. guardE (32 < length s) config_error (Inr s))"

definition wifi_psk :: "jobject \<Rightarrow> string res" where
  "wifi_psk config =
     bindE (text_field config ''psk'')
       (\<lambda>s. guardE (\<not> (8 \<le> length s \<and> length s \<le> 63)) config_error (Inr s))"

definition client_config :: "jobject \<Rightarrow> jobject res" where
  "client_config config =
     bindE (wifi_ssid config) (\<lambda>ssid.
       let security = jget_default config ''security'' (JStr ''wpa2-personal'') in
       if \<not> in_strs security wifi_security then Inl config_error
       else
        (let base = [(''mode'', JStr ''wifi-client''), (''ssid'', JStr ssid), (''security'', security)] in
         if eq_str security ''open'' then
           guardE (''psk'' \<in> set (map fst config)) config_error (Inr base)
         else bindE (wifi_psk config) (\<lambda>psk. Inr (base @ [(''psk'', JStr psk)]))))"

text \<open>\<open>str(ipaddress.IPv4Address(item))\<close>: an integer, and so a boolean, is an address too.\<close>

fun dns_item :: "json \<Rightarrow> string option" where
  "dns_item (JStr s) = map_option ipv4_string (ipv4_address s)"
| "dns_item (JInt i) = (if 0 \<le> i \<and> i < 2 ^ 32 then Some (ipv4_string (nat i)) else None)"
| "dns_item (JBool b) = Some (ipv4_string (if b then 1 else 0))"
| "dns_item _ = None"

definition static_address :: "jobject \<Rightarrow> (nat \<times> nat) res" where
  "static_address config =
     bindE (text_field config ''address'') (\<lambda>s.
       (case ipv4_interface s of
          None \<Rightarrow> Inl config_error
        | Some i \<Rightarrow>
            if special_address (fst i) \<or> networks_overlap i (10 * 2 ^ 24 + 42 * 2 ^ 16, 24) then Inl config_error
            else Inr i))"

definition static_gateway :: "jobject \<Rightarrow> nat \<times> nat \<Rightarrow> string option res" where
  "static_gateway config i =
     (if jget config ''gateway'' = JNull then Inr None
      else bindE (text_field config ''gateway'') (\<lambda>s.
        (case ipv4_address s of
           None \<Rightarrow> Inl config_error
         | Some g \<Rightarrow>
             if \<not> in_network g i \<or> g = network_address i \<or> g = broadcast_address i then Inl config_error
             else Inr (Some (ipv4_string g)))))"

definition static_dns :: "jobject \<Rightarrow> string list res" where
  "static_dns config =
     (case jget_default config ''dns'' (JList []) of
        JList xs \<Rightarrow>
          if 3 < length xs then Inl config_error
          else (case those (map dns_item xs) of None \<Rightarrow> Inl config_error | Some ss \<Rightarrow> Inr ss)
      | _ \<Rightarrow> Inl config_error)"

definition static_config :: "jobject \<Rightarrow> jobject res" where
  "static_config config =
     bindE (static_address config) (\<lambda>i.
     bindE (static_gateway config i) (\<lambda>gateway.
     bindE (static_dns config) (\<lambda>dns.
       Inr ([(''mode'', JStr ''ethernet-static''), (''address'', JStr (interface_string i))] @
            (case gateway of None \<Rightarrow> [] | Some g \<Rightarrow> [(''gateway'', JStr g)]) @
            [(''dns'', JList (map JStr dns))]))))"

definition allowed_fields :: "string \<Rightarrow> string list" where
  "allowed_fields mode =
     (if mode = ''hotspot'' then [''mode'', ''ssid'', ''psk'']
      else if mode = ''wifi-client'' then [''mode'', ''ssid'', ''security'', ''psk'']
      else if mode = ''ethernet-dhcp'' then [''mode'']
      else [''mode'', ''address'', ''gateway'', ''dns''])"

definition config_mode :: "jobject \<Rightarrow> string" where
  "config_mode config = (case jget config ''mode'' of JStr m \<Rightarrow> m | _ \<Rightarrow> [])"

definition validate_config :: "jobject \<Rightarrow> jobject res" where
  "validate_config config =
     (let mode = config_mode config in
      if \<not> in_strs (jget config ''mode'') supported_modes then Inl config_error
      else
        bindE (if mode = ''hotspot'' then
                 bindE (text_field config ''ssid'') (\<lambda>ssid.
                 bindE (text_field config ''psk'') (\<lambda>psk.
                   guardE (32 < length ssid) config_error
                    (guardE (\<not> (8 \<le> length psk \<and> length psk \<le> 63)) config_error
                      (Inr [(''mode'', JStr mode), (''ssid'', JStr ssid), (''psk'', JStr psk)]))))
               else if mode = ''wifi-client'' then client_config config
               else if mode = ''ethernet-dhcp'' then Inr [(''mode'', JStr mode)]
               else static_config config)
          (\<lambda>normalized.
            guardE (\<not> set (map fst config) \<subseteq> set (allowed_fields mode)) config_error (Inr normalized)))"

section \<open>The NetworkManager profile\<close>

definition interface_of :: "string \<Rightarrow> string" where
  "interface_of mode = (if mode \<in> {''hotspot'', ''wifi-client''} then ''wlan0'' else ''eth0'')"

text \<open>\<open>rp-ylx-\<close>, the mode, and the first twelve digits of the request's digest.\<close>

definition profile_name :: "(string \<Rightarrow> string) \<Rightarrow> string \<Rightarrow> string \<Rightarrow> string" where
  "profile_name sha256_hex request_id mode =
     ''rp-ylx-'' @ mode @ ''-'' @ take 12 (sha256_hex request_id)"

definition valid_saved_profile :: "json \<Rightarrow> string option" where
  "valid_saved_profile v =
     (case v of
        JStr s \<Rightarrow>
          (let n = length s - 13; middle = drop 7 (take n s) in
           if take 7 s = ''rp-ylx-'' \<and> 21 \<le> length s \<and> list_all (\<lambda>c. is_lower c \<or> c = CHR ''-'') middle \<and>
              s ! n = CHR ''-'' \<and> list_all is_hex (drop (n + 1) s)
           then Some s else None)
      | _ \<Rightarrow> None)"

definition keyfile_string :: "string \<Rightarrow> string" where
  "keyfile_string s =
     (let rendered = concat (map (\<lambda>c. if c = CHR 0x5C then [CHR 0x5C, CHR 0x5C] else [c]) s);
          body = dropWhile ((=) (CHR '' '')) rendered in
      concat (replicate (length rendered - length body) [CHR 0x5C, CHR ''s'']) @ body)"

definition config_text :: "jobject \<Rightarrow> string \<Rightarrow> string" where
  "config_text config k = (case jget config k of JStr s \<Rightarrow> s | _ \<Rightarrow> [])"

definition wifi_lines :: "jobject \<Rightarrow> string \<Rightarrow> string list" where
  "wifi_lines config mode =
     [''[wifi]'', ''mode='' @ (if mode = ''hotspot'' then ''ap'' else ''infrastructure''),
      ''ssid='' @ keyfile_string (config_text config ''ssid''), []] @
     (let security = (if mode = ''hotspot'' then ''wpa2-personal'' else config_text config ''security'') in
      if security = ''open'' then []
      else [''[wifi-security]'',
            ''key-mgmt='' @ (if security = ''wpa3-personal'' then ''sae'' else ''wpa-psk''),
            ''psk='' @ keyfile_string (config_text config ''psk''), []])"

definition config_dns :: "jobject \<Rightarrow> string list" where
  "config_dns config =
     (case jget config ''dns'' of JList xs \<Rightarrow> map (\<lambda>x. case x of JStr s \<Rightarrow> s | _ \<Rightarrow> []) xs | _ \<Rightarrow> [])"

definition ipv4_lines :: "jobject \<Rightarrow> string \<Rightarrow> string list" where
  "ipv4_lines config mode =
     ''[ipv4]'' #
     (if mode = ''hotspot'' then [''method=shared'', ''address1=10.42.0.1/24'', ''never-default=true'']
      else if mode \<in> {''wifi-client'', ''ethernet-dhcp''} then [''method=auto'', ''may-fail=false'', ''route-metric=600'']
      else
       (let gateway = config_text config ''gateway''; dns = config_dns config in
        [''method=manual'',
         ''address1='' @ config_text config ''address'' @ (if gateway = [] then [] else '','' @ gateway)] @
        (if dns = [] then [] else [''dns='' @ join_on '';'' dns @ '';'']) @
        [if jget config ''gateway'' = JNull then ''never-default=true'' else ''never-default=false'']))"

definition profile_lines :: "(string \<Rightarrow> string) \<Rightarrow> string \<Rightarrow> jobject \<Rightarrow> string list" where
  "profile_lines uuid5 name config =
     (let mode = config_mode config; interface = interface_of mode in
      [''[connection]'', ''id='' @ name, ''uuid='' @ uuid5 (''rp-ylx.network.'' @ name),
       ''type='' @ (if interface = ''wlan0'' then ''wifi'' else ''ethernet''),
       ''interface-name='' @ interface,
       ''autoconnect='' @ (if mode \<in> {''wifi-client'', ''hotspot''} then ''false'' else ''true''),
       ''autoconnect-priority='' @
         (if mode = ''hotspot'' then ''100'' else if mode = ''wifi-client'' then ''800'' else ''900''),
       []] @
      (if mode \<in> {''hotspot'', ''wifi-client''} then wifi_lines config mode else []) @
      ipv4_lines config mode @ [[], ''[ipv6]'', ''method=disabled'', []])"

definition network_manager_profile :: "(string \<Rightarrow> string) \<Rightarrow> string \<Rightarrow> jobject \<Rightarrow> string" where
  "network_manager_profile uuid5 name config = join_on [CHR 0x0A] (profile_lines uuid5 name config)"

section \<open>Normalising twice changes nothing\<close>

lemma text_field_Inr: "text_field config name = Inr s \<longleftrightarrow> jget config name = JStr s \<and> printable_text s"
  by (auto simp: text_field_def split: json.splits if_splits)

lemma printable_ascii: "s \<noteq> [] \<Longrightarrow> list_all (\<lambda>c. is_digit c \<or> c = CHR ''.'' \<or> c = CHR ''/'') s \<Longrightarrow> printable_text s"
  by (auto simp: printable_text_def list_all_iff is_digit_def)

lemma nat_digits_printable: "list_all (\<lambda>c. is_digit c \<or> c = CHR ''.'' \<or> c = CHR ''/'') (nat_digits n)"
  using nat_digits_digits [of n] by (auto simp: list_all_iff)

lemma ipv4_string_printable: "printable_text (ipv4_string n)" and interface_string_printable: "printable_text (interface_string i)"
  by (intro printable_ascii; simp add: ipv4_string_def interface_string_def nat_digits_printable)+

lemma dns_item_roundtrip: "dns_item x = Some s \<Longrightarrow> dns_item (JStr s) = Some s"
  using ipv4_roundtrip ipv4_address_bound
  by (cases x rule: dns_item.cases) (auto split: if_splits)

lemma those_map_roundtrip:
  "those (map f xs) = Some ss \<Longrightarrow> (\<And>x s. f x = Some s \<Longrightarrow> f (g s) = Some s) \<Longrightarrow>
     those (map f (map g ss)) = Some ss \<and> length ss = length xs"
  by (induction xs arbitrary: ss) (auto split: option.splits)

lemma static_address_facts:
  assumes "static_address config = Inr i"
  shows "\<exists>s. ipv4_interface s = Some i" and "\<not> special_address (fst i)"
    and "\<not> networks_overlap i (10 * 2 ^ 24 + 42 * 2 ^ 16, 24)"
proof -
  obtain s where r: "(case ipv4_interface s of None \<Rightarrow> Inl config_error
      | Some i \<Rightarrow> if special_address (fst i) \<or> networks_overlap i (10 * 2 ^ 24 + 42 * 2 ^ 16, 24)
          then Inl config_error else Inr i) = Inr i"
    using assms unfolding static_address_def bindE_eq_Inr by blast
  then obtain k where "ipv4_interface s = Some k" by (cases "ipv4_interface s") auto
  then show "\<exists>s. ipv4_interface s = Some i" and "\<not> special_address (fst i)"
    and "\<not> networks_overlap i (10 * 2 ^ 24 + 42 * 2 ^ 16, 24)"
    using r by (auto split: if_split_asm)
qed

lemma static_address_Inr:
  assumes "static_address config = Inr i" and "jget n ''address'' = JStr (interface_string i)"
  shows "static_address n = Inr i"
proof -
  obtain s where s: "ipv4_interface s = Some i" using static_address_facts(1) [OF assms(1)] by blast
  have ok: "\<not> (special_address (fst i) \<or> networks_overlap i (10 * 2 ^ 24 + 42 * 2 ^ 16, 24))"
    using static_address_facts(2,3) [OF assms(1)] by simp
  obtain a p where i: "i = (a, p)" by (cases i)
  have "ipv4_interface (interface_string i) = Some i"
    using interface_roundtrip ipv4_interface_bound s unfolding i by blast
  moreover have "text_field n ''address'' = Inr (interface_string i)"
    by (simp add: text_field_Inr assms(2) interface_string_printable)
  ultimately show ?thesis using ok by (simp add: static_address_def)
qed

lemma static_gateway_Inr:
  assumes "static_gateway config i = Inr g"
    and "jget n ''gateway'' = (case g of None \<Rightarrow> JNull | Some t \<Rightarrow> JStr t)"
  shows "static_gateway n i = Inr g"
proof (cases g)
  case None
  then show ?thesis using assms(2) by (simp add: static_gateway_def)
next
  case (Some t)
  then obtain s a where a: "ipv4_address s = Some a" "t = ipv4_string a"
    "\<not> (\<not> in_network a i \<or> a = network_address i \<or> a = broadcast_address i)"
    using assms(1) by (auto simp: static_gateway_def bindE_eq_Inr split: option.splits if_splits)
  have "ipv4_address t = Some a" using a ipv4_roundtrip ipv4_address_bound by blast
  moreover have "text_field n ''gateway'' = Inr t"
    using assms(2) Some by (simp add: text_field_Inr a(2) ipv4_string_printable)
  ultimately show ?thesis using a Some assms(2) by (simp add: static_gateway_def)
qed

lemma static_dns_Inr:
  assumes "static_dns config = Inr ss" and "map_of n ''dns'' = Some (JList (map JStr ss))"
  shows "static_dns n = Inr ss"
proof -
  obtain xs where xs: "length xs \<le> 3" "those (map dns_item xs) = Some ss"
    using assms(1)
    by (cases "jget_default config ''dns'' (JList [])") (auto simp: static_dns_def not_less split: if_splits option.splits)
  have "those (map dns_item (map JStr ss)) = Some ss \<and> length ss = length xs"
    using those_map_roundtrip [OF xs(2)] dns_item_roundtrip by blast
  then show ?thesis using xs(1) assms(2) by (simp add: static_dns_def jget_default_def)
qed

lemma static_config_stable:
  assumes "static_config config = Inr n"
  shows "static_config n = Inr n \<and> config_mode n = ''ethernet-static'' \<and>
    set (map fst n) \<subseteq> set (allowed_fields ''ethernet-static'')"
proof -
  obtain i g ss where a: "static_address config = Inr i" and g: "static_gateway config i = Inr g"
    and d: "static_dns config = Inr ss"
    and n: "n = [(''mode'', JStr ''ethernet-static''), (''address'', JStr (interface_string i))] @
            (case g of None \<Rightarrow> [] | Some g \<Rightarrow> [(''gateway'', JStr g)]) @ [(''dns'', JList (map JStr ss))]"
    using assms by (auto simp: static_config_def bindE_eq_Inr)
  have "static_address n = Inr i" by (rule static_address_Inr [OF a]) (simp add: n)
  moreover have "static_gateway n i = Inr g"
    by (rule static_gateway_Inr [OF g]) (simp add: n split: option.split)
  moreover have "static_dns n = Inr ss"
    by (rule static_dns_Inr [OF d]) (simp add: n split: option.split)
  ultimately have "static_config n = Inr n" using n by (simp add: static_config_def)
  then show ?thesis by (auto simp: n config_mode_def allowed_fields_def split: option.splits)
qed

lemma wifi_ssid_Inr: "wifi_ssid c = Inr s \<longleftrightarrow> jget c ''ssid'' = JStr s \<and> printable_text s \<and> length s \<le> 32"
  by (auto simp: wifi_ssid_def bindE_eq_Inr text_field_Inr)

lemma wifi_psk_Inr:
  "wifi_psk c = Inr s \<longleftrightarrow> jget c ''psk'' = JStr s \<and> printable_text s \<and> 8 \<le> length s \<and> length s \<le> 63"
  by (auto simp: wifi_psk_def bindE_eq_Inr text_field_Inr)

lemma client_config_shape:
  assumes "client_config config = Inr n"
  obtains ssid security psk where "printable_text ssid" "length ssid \<le> 32" "security \<in> set wifi_security"
    "security \<noteq> ''open'' \<Longrightarrow> printable_text psk \<and> 8 \<le> length psk \<and> length psk \<le> 63"
    "n = [(''mode'', JStr ''wifi-client''), (''ssid'', JStr ssid), (''security'', JStr security)] @
         (if security = ''open'' then [] else [(''psk'', JStr psk)])"
  using assms
  by (auto simp: client_config_def bindE_eq_Inr Let_def wifi_ssid_Inr wifi_psk_Inr in_strs_def eq_str_def
      split: if_splits)

lemma client_config_stable:
  assumes "client_config config = Inr n"
  shows "client_config n = Inr n \<and> config_mode n = ''wifi-client'' \<and>
    set (map fst n) \<subseteq> set (allowed_fields ''wifi-client'')"
  using assms
proof (rule client_config_shape)
  fix ssid security psk
  assume n: "n = [(''mode'', JStr ''wifi-client''), (''ssid'', JStr ssid), (''security'', JStr security)] @
         (if security = ''open'' then [] else [(''psk'', JStr psk)])"
    and ok: "printable_text ssid" "length ssid \<le> 32" "security \<in> set wifi_security"
    "security \<noteq> ''open'' \<Longrightarrow> printable_text psk \<and> 8 \<le> length psk \<and> length psk \<le> 63"
  have "wifi_ssid n = Inr ssid" using ok by (simp add: wifi_ssid_Inr n)
  moreover have "security \<noteq> ''open'' \<Longrightarrow> wifi_psk n = Inr psk" using ok by (simp add: wifi_psk_Inr n)
  moreover have "jget_default n ''security'' (JStr ''wpa2-personal'') = JStr security"
    by (simp add: jget_default_def n)
  moreover have "in_strs (JStr security) wifi_security" using ok by (simp add: in_strs_def)
  ultimately have "client_config n = Inr n"
    by (simp add: client_config_def Let_def eq_str_def) (simp add: n)
  then show ?thesis by (simp add: n config_mode_def allowed_fields_def)
qed

text \<open>Validating an already normalised configuration returns it unchanged: normalisation is
  canonical, whatever spelling of the mask, the addresses or the defaults the request used.\<close>

theorem normalised_config_is_stable:
  assumes "validate_config config = Inr n"
  shows "validate_config n = Inr n"
proof -
  define mode where "mode = config_mode config"
  have known: "in_strs (jget config ''mode'') supported_modes"
    using assms by (auto simp: validate_config_def Let_def split: if_splits)
  consider (hotspot) "mode = ''hotspot''" | (client) "mode = ''wifi-client''" | (dhcp) "mode = ''ethernet-dhcp''"
    | (static) "mode = ''ethernet-static''"
    using known by (auto simp: in_strs_def supported_modes_def mode_def config_mode_def)
  then show ?thesis
  proof cases
    case hotspot
    then show ?thesis
      using assms known
      by (auto simp: validate_config_def Let_def mode_def [symmetric] bindE_eq_Inr text_field_Inr)
         (auto simp: config_mode_def in_strs_def supported_modes_def text_field_Inr bindE_eq_Inr allowed_fields_def)
  next
    case client
    then have "client_config config = Inr n"
      using assms known by (auto simp: validate_config_def Let_def mode_def [symmetric] bindE_eq_Inr)
    from client_config_stable [OF this] show ?thesis
      by (auto simp: validate_config_def Let_def in_strs_def supported_modes_def config_mode_def bindE_eq_Inr
          split: json.splits)
  next
    case dhcp
    then show ?thesis
      using assms known
      by (auto simp: validate_config_def Let_def mode_def [symmetric] bindE_eq_Inr)
         (auto simp: config_mode_def in_strs_def supported_modes_def allowed_fields_def)
  next
    case static
    then have "static_config config = Inr n"
      using assms known by (auto simp: validate_config_def Let_def mode_def [symmetric] bindE_eq_Inr)
    from static_config_stable [OF this] show ?thesis
      by (auto simp: validate_config_def Let_def in_strs_def supported_modes_def config_mode_def bindE_eq_Inr
          split: json.splits)
  qed
qed

theorem normalised_config_is_stable_witness:
  "validate_config [(''mode'', JStr ''wifi-client''), (''ssid'', JStr ''Lab''), (''security'', JStr ''open'')] =
     Inr [(''mode'', JStr ''wifi-client''), (''ssid'', JStr ''Lab''), (''security'', JStr ''open'')]"
proof -
  have "validate_config [(''security'', JStr ''open''), (''mode'', JStr ''wifi-client''), (''ssid'', JStr ''Lab'')] =
     Inr [(''mode'', JStr ''wifi-client''), (''ssid'', JStr ''Lab''), (''security'', JStr ''open'')]"
    by code_simp
  then show ?thesis by (rule normalised_config_is_stable)
qed

end
