(* ===== verification/NetworkProfile.thy ===== *)
theory NetworkProfile
  imports NetworkConfig
begin

text \<open>
  What the NetworkManager profile printed by \<open>network.py\<close> determines.  No value of a configuration breaks the
  lines of the file, every backslash in it belongs to one of the two escapes of the key file format that the
  program uses (\<open>\s\<close> for a leading blank and \<open>\\\<close>), and the text determines the configuration.  How NetworkManager
  itself interprets a value, an SSID that looks like a list of bytes for one, is not stated.
\<close>

section \<open>A left inverse of the printer\<close>

text \<open>The functions of this section only serve the proof that the text determines the configuration: they undo
  what the program prints and model no other program.\<close>

fun unescape :: "string \<Rightarrow> string" where
  "unescape (c # d # s) =
     (if c = CHR 0x5C \<and> d = CHR ''s'' then CHR '' '' # unescape s
      else if c = CHR 0x5C \<and> d = CHR 0x5C then d # unescape s
      else c # unescape (d # s))"
| "unescape s = s"

definition entry_of :: "string \<Rightarrow> string \<Rightarrow> string \<times> string \<times> string" where
  "entry_of sect l =
     (sect, takeWhile ((\<noteq>) (CHR ''='')) l, unescape (dropWhile ((=) (CHR '' '')) (tl (dropWhile ((\<noteq>) (CHR ''='')) l))))"

fun line_entries :: "string \<Rightarrow> string list \<Rightarrow> (string \<times> string \<times> string) list" where
  "line_entries sect [] = []"
| "line_entries sect (l # ls) =
     (if l = [] then line_entries sect ls
      else if hd l = CHR ''['' then line_entries (butlast (tl l)) ls
      else entry_of sect l # line_entries sect ls)"

definition printed_entries :: "string \<Rightarrow> (string \<times> string \<times> string) list" where
  "printed_entries t = line_entries [] (split_on (CHR 0x0A) t)"

section \<open>What a profile says\<close>

definition in_section :: "string \<Rightarrow> (string \<times> string) list \<Rightarrow> (string \<times> string \<times> string) list" where
  "in_section sect kvs = map (\<lambda>(k, v). (sect, k, v)) kvs"

definition wifi_entries :: "jobject \<Rightarrow> (string \<times> string \<times> string) list" where
  "wifi_entries config =
     (let hotspot = (config_mode config = ''hotspot'');
          security = (if hotspot then ''wpa2-personal'' else config_text config ''security'') in
      in_section ''wifi'' [(''mode'', if hotspot then ''ap'' else ''infrastructure''), (''ssid'', config_text config ''ssid'')] @
      (if security = ''open'' then []
       else in_section ''wifi-security''
         [(''key-mgmt'', if security = ''wpa3-personal'' then ''sae'' else ''wpa-psk''), (''psk'', config_text config ''psk'')]))"

definition ipv4_entries :: "jobject \<Rightarrow> (string \<times> string) list" where
  "ipv4_entries config =
     (let mode = config_mode config in
      if mode = ''hotspot'' then [(''method'', ''shared''), (''address1'', ''10.42.0.1/24''), (''never-default'', ''true'')]
      else if mode \<in> {''wifi-client'', ''ethernet-dhcp''}
      then [(''method'', ''auto''), (''may-fail'', ''false''), (''route-metric'', ''600'')]
      else
       [(''method'', ''manual''),
        (''address1'', config_text config ''address'' @
          (if config_text config ''gateway'' = [] then [] else '','' @ config_text config ''gateway''))] @
       (if config_dns config = [] then [] else [(''dns'', join_on '';'' (config_dns config) @ '';'')]) @
       [(''never-default'', if jget config ''gateway'' = JNull then ''true'' else ''false'')])"

definition profile_entries :: "(string \<Rightarrow> string) \<Rightarrow> string \<Rightarrow> jobject \<Rightarrow> (string \<times> string \<times> string) list" where
  "profile_entries uuid5 name config =
     (let mode = config_mode config; wifi = (mode \<in> {''hotspot'', ''wifi-client''}) in
      in_section ''connection''
        [(''id'', name), (''uuid'', uuid5 (''rp-ylx.network.'' @ name)), (''type'', if wifi then ''wifi'' else ''ethernet''),
         (''interface-name'', if wifi then ''wlan0'' else ''eth0''), (''autoconnect'', if wifi then ''false'' else ''true''),
         (''autoconnect-priority'', if mode = ''hotspot'' then ''100'' else if mode = ''wifi-client'' then ''800'' else ''900'')] @
      (if wifi then wifi_entries config else []) @
      in_section ''ipv4'' (ipv4_entries config) @ in_section ''ipv6'' [(''method'', ''disabled'')])"

section \<open>Escaping\<close>

definition escape :: "string \<Rightarrow> string" where
  "escape s = concat (map (\<lambda>c. if c = CHR 0x5C then [CHR 0x5C, CHR 0x5C] else [c]) s)"

lemma unescape_Cons: "c \<noteq> CHR 0x5C \<Longrightarrow> unescape (c # t) = c # unescape t"
  by (cases t) auto

lemma unescape_escape: "unescape (escape s) = s"
proof (induction s)
  case (Cons c s)
  show ?case
  proof (cases "c = CHR 0x5C")
    case True
    then show ?thesis using Cons by (simp add: escape_def)
  next
    case False
    then show ?thesis using Cons unescape_Cons by (simp add: escape_def)
  qed
qed (simp add: escape_def)

lemma escape_blanks: "escape (replicate k (CHR '' '') @ t) = replicate k (CHR '' '') @ escape t"
  by (induction k) (simp_all add: escape_def)

lemma escape_start: "t = [] \<or> hd t \<noteq> CHR '' '' \<Longrightarrow> dropWhile ((=) (CHR '' '')) (escape t) = escape t"
  by (cases t) (auto simp: escape_def)

lemma unescape_blanks:
  "unescape (concat (replicate k [CHR 0x5C, CHR ''s'']) @ t) = replicate k (CHR '' '') @ unescape t"
  by (induction k) simp_all

lemma blanks_split: "\<exists>k t. s = replicate k (CHR '' '') @ t \<and> (t = [] \<or> hd t \<noteq> CHR '' '')"
proof (induction s)
  case (Cons c s)
  then obtain k t where s: "s = replicate k (CHR '' '') @ t" "t = [] \<or> hd t \<noteq> CHR '' ''" by blast
  show ?case
  proof (cases "c = CHR '' ''")
    case True
    then have "c # s = replicate (Suc k) (CHR '' '') @ t" using s by simp
    then show ?thesis using s(2) by blast
  next
    case False
    then have "c # s = replicate 0 (CHR '' '') @ (c # s) \<and> hd (c # s) \<noteq> CHR '' ''" by simp
    then show ?thesis by blast
  qed
qed simp

lemma keyfile_string_form:
  obtains k t where "s = replicate k (CHR '' '') @ t" "t = [] \<or> hd t \<noteq> CHR '' ''"
    "keyfile_string s = concat (replicate k [CHR 0x5C, CHR ''s'']) @ escape t"
proof -
  obtain k t where s: "s = replicate k (CHR '' '') @ t" and t: "t = [] \<or> hd t \<noteq> CHR '' ''"
    using blanks_split by blast
  have "dropWhile ((=) (CHR '' '')) (escape s) = escape t"
    unfolding s escape_blanks using escape_start [OF t] by (simp add: dropWhile_append)
  then have "keyfile_string s = concat (replicate k [CHR 0x5C, CHR ''s'']) @ escape t"
    by (simp add: keyfile_string_def Let_def escape_def [symmetric]) (simp add: s escape_blanks)
  then show ?thesis using that s t by blast
qed

lemma keyfile_string_read: "unescape (dropWhile ((=) (CHR '' '')) (keyfile_string s)) = s"
proof (rule keyfile_string_form [of s])
  fix k t
  assume s: "s = replicate k (CHR '' '') @ t" and t: "t = [] \<or> hd t \<noteq> CHR '' ''"
    and f: "keyfile_string s = concat (replicate k [CHR 0x5C, CHR ''s'']) @ escape t"
  have "dropWhile ((=) (CHR '' '')) (keyfile_string s) = keyfile_string s"
    using escape_start [OF t] f by (cases k) simp_all
  then show ?thesis using s f by (simp add: unescape_blanks unescape_escape)
qed

lemma keyfile_string_line: "CHR 0x0A \<notin> set s \<Longrightarrow> CHR 0x0A \<notin> set (keyfile_string s)"
proof (rule keyfile_string_form [of s])
  fix k t
  assume "s = replicate k (CHR '' '') @ t" and "keyfile_string s = concat (replicate k [CHR 0x5C, CHR ''s'']) @ escape t"
    and "CHR 0x0A \<notin> set s"
  then show ?thesis by (auto simp: escape_def)
qed

lemma unescape_plain: "CHR 0x5C \<notin> set s \<Longrightarrow> unescape s = s"
  by (induction s rule: unescape.induct) auto

section \<open>The profile reads back as the configuration\<close>

lemma split_join_lines:
  "ls \<noteq> [] \<Longrightarrow> \<forall>l \<in> set ls. c \<notin> set l \<Longrightarrow> split_on c (join_on [c] ls) = ls"
proof (induction "[c]" ls rule: join_on.induct)
  case (2 l)
  then have "c \<notin> set l" by simp
  then show ?case by (induction l) auto
next
  case (3 l m ls)
  then have "c \<notin> set l" and IH: "split_on c (join_on [c] (m # ls)) = m # ls" by simp_all
  then show ?case by (induction l) auto
qed simp

definition safe_text :: "string \<Rightarrow> bool" where
  "safe_text s \<longleftrightarrow> CHR 0x0A \<notin> set s \<and> CHR 0x5C \<notin> set s \<and> (s = [] \<or> hd s \<noteq> CHR '' '')"

lemma safe_read: "safe_text s \<Longrightarrow> unescape (dropWhile ((=) (CHR '' '')) s) = s"
  by (cases s) (auto simp: safe_text_def intro!: unescape_plain)

lemma safe_char_class:
  assumes "list_all p s" and "\<And>c. p c \<Longrightarrow> c \<noteq> CHR 0x0A \<and> c \<noteq> CHR 0x5C \<and> c \<noteq> CHR '' ''"
  shows "safe_text s"
  using assms by (cases s) (auto simp: safe_text_def list_all_iff)

lemma safe_digits: "safe_text (nat_digits n)"
  by (rule safe_char_class [OF nat_digits_digits]) (auto simp: is_digit_def)

lemma safe_append: "safe_text s \<Longrightarrow> safe_text t \<Longrightarrow> safe_text (s @ t)"
  by (cases s) (auto simp: safe_text_def)

lemma safe_literal [simp]: "safe_text []" "safe_text ''.''" "safe_text ''/''" "safe_text '',''" "safe_text '';''"
  by (simp_all add: safe_text_def)

lemma safe_ipv4_string: "safe_text (ipv4_string n)" and safe_interface_string: "safe_text (interface_string i)"
  by (simp_all only: ipv4_string_def interface_string_def safe_append safe_digits safe_literal)

lemma safe_Cons: "safe_text t \<Longrightarrow> c \<noteq> CHR 0x0A \<Longrightarrow> c \<noteq> CHR 0x5C \<Longrightarrow> c \<noteq> CHR '' '' \<Longrightarrow> safe_text (c # t)"
  by (simp add: safe_text_def)

lemma at_equals:
  assumes "CHR ''='' \<notin> set k"
  shows "takeWhile ((\<noteq>) (CHR ''='')) (k @ CHR ''='' # v) = k"
    and "dropWhile ((\<noteq>) (CHR ''='')) (k @ CHR ''='' # v) = CHR ''='' # v"
  using assms by (induction k) auto

text \<open>The printable lines of a profile, each read alone.\<close>

lemma entry_plain:
  assumes "CHR ''='' \<notin> set k" and "safe_text v"
  shows "entry_of sect (k @ CHR ''='' # v) = (sect, k, v)"
  using safe_read [OF assms(2)] by (simp add: entry_of_def at_equals [OF assms(1)])

lemma entry_keyfile:
  assumes "CHR ''='' \<notin> set k"
  shows "entry_of sect (k @ CHR ''='' # keyfile_string v) = (sect, k, v)"
  using keyfile_string_read by (simp add: entry_of_def at_equals [OF assms])

lemmas entry_ssid = entry_keyfile [where k = "''ssid''", simplified]
  and entry_psk = entry_keyfile [where k = "''psk''", simplified]
  and entry_id = entry_plain [where k = "''id''", simplified]
  and entry_uuid = entry_plain [where k = "''uuid''", simplified]
  and entry_address = entry_plain [where k = "''address1''", simplified]
  and entry_dns = entry_plain [where k = "''dns''", simplified]

text \<open>A profile whose variable parts have no newline, no escape and no leading blank reads back.\<close>

lemma join_safe: "\<forall>s \<in> set ss. safe_text s \<Longrightarrow> safe_text (join_on '';'' ss)"
  by (induction "'';''" ss rule: join_on.induct) (auto intro!: safe_append safe_Cons)

abbreviation one_line :: "string \<Rightarrow> bool" where
  "one_line s \<equiv> CHR 0x0A \<notin> set s"

lemma safe_one_line: "safe_text s \<Longrightarrow> one_line s"
  by (simp add: safe_text_def)

lemma wifi_one_line:
  assumes "one_line (config_text config ''ssid'')" and "one_line (config_text config ''psk'')"
  shows "list_all one_line (wifi_lines config mode)"
  using assms keyfile_string_line unfolding wifi_lines_def Let_def by simp

definition address_value :: "jobject \<Rightarrow> string" where
  "address_value config = config_text config ''address'' @
     (if config_text config ''gateway'' = [] then [] else '','' @ config_text config ''gateway'')"

definition dns_value :: "jobject \<Rightarrow> string" where
  "dns_value config = join_on '';'' (config_dns config) @ '';''"

lemma ipv4_one_line:
  assumes "one_line (address_value config)" and "one_line (dns_value config)"
  shows "list_all one_line (ipv4_lines config mode)"
  using assms unfolding ipv4_lines_def Let_def address_value_def [symmetric] dns_value_def [symmetric] by simp

lemma profile_one_line:
  assumes "one_line name" and "one_line (uuid5 (''rp-ylx.network.'' @ name))"
    and "list_all one_line (wifi_lines config (config_mode config))"
    and "list_all one_line (ipv4_lines config (config_mode config))"
  shows "list_all one_line (profile_lines uuid5 name config)"
  using assms unfolding profile_lines_def Let_def by (simp add: interface_of_def)

lemma wifi_reads_back:
  "line_entries sect (wifi_lines config (config_mode config) @ ls) =
     wifi_entries config @ line_entries
       (if config_mode config \<noteq> ''hotspot'' \<and> config_text config ''security'' = ''open'' then ''wifi'' else ''wifi-security'') ls"
  unfolding wifi_lines_def wifi_entries_def Let_def
  by (simp add: in_section_def entry_ssid entry_psk) (simp add: entry_of_def)

lemma ipv4_reads_back:
  assumes "safe_text (address_value config)" and "safe_text (dns_value config)"
  shows "line_entries sect (ipv4_lines config (config_mode config) @ ls) =
    in_section ''ipv4'' (ipv4_entries config) @ line_entries ''ipv4'' ls"
  unfolding ipv4_lines_def ipv4_entries_def Let_def address_value_def [symmetric] dns_value_def [symmetric]
  using assms by (simp add: in_section_def entry_address entry_dns) (simp add: entry_of_def)

lemma connection_reads_back:
  assumes "safe_text name" and "safe_text (uuid5 (''rp-ylx.network.'' @ name))"
  shows "line_entries [] (profile_lines uuid5 name config) =
    take 6 (profile_entries uuid5 name config) @
    line_entries ''connection''
      ((if config_mode config \<in> {''hotspot'', ''wifi-client''} then wifi_lines config (config_mode config) else []) @
       ipv4_lines config (config_mode config) @ [[], ''[ipv6]'', ''method=disabled'', []])"
  unfolding profile_lines_def profile_entries_def Let_def interface_of_def
  using assms by (simp add: in_section_def entry_id entry_uuid) (simp add: entry_of_def)

lemma profile_lines_stand:
  assumes "safe_text name" and "safe_text (uuid5 (''rp-ylx.network.'' @ name))"
    and "one_line (config_text config ''ssid'')" and "one_line (config_text config ''psk'')"
    and "safe_text (address_value config)" and "safe_text (dns_value config)"
  shows "split_on (CHR 0x0A) (network_manager_profile uuid5 name config) = profile_lines uuid5 name config"
proof -
  have "\<forall>l \<in> set (profile_lines uuid5 name config). one_line l"
    unfolding list_all_iff [symmetric]
    by (intro profile_one_line wifi_one_line ipv4_one_line safe_one_line assms)
  moreover have "profile_lines uuid5 name config \<noteq> []" by (simp add: profile_lines_def Let_def)
  ultimately show ?thesis
    unfolding network_manager_profile_def by (intro split_join_lines)
qed

lemma profile_reads_back:
  assumes "safe_text name" and "safe_text (uuid5 (''rp-ylx.network.'' @ name))"
    and "one_line (config_text config ''ssid'')" and "one_line (config_text config ''psk'')"
    and "safe_text (address_value config)" and "safe_text (dns_value config)"
  shows "printed_entries (network_manager_profile uuid5 name config) = profile_entries uuid5 name config"
proof -
  have "line_entries [] (profile_lines uuid5 name config) = profile_entries uuid5 name config"
    unfolding connection_reads_back [where ?uuid5.0 = uuid5, OF assms(1,2)]
    by (simp add: wifi_reads_back ipv4_reads_back [OF assms(5,6)])
       (simp add: profile_entries_def in_section_def entry_of_def)
  then show ?thesis by (simp add: printed_entries_def profile_lines_stand [where ?uuid5.0 = uuid5, OF assms])
qed

section \<open>Validated configurations\<close>

lemma printable_one_line: "printable_text s \<Longrightarrow> one_line s"
  by (auto simp: printable_text_def list_all_iff)

lemma config_dns_strings: "jget config ''dns'' = JList (map JStr ss) \<Longrightarrow> config_dns config = ss"
  by (simp add: config_dns_def comp_def)

lemma dns_item_safe: "dns_item x = Some s \<Longrightarrow> safe_text s"
  by (cases x rule: dns_item.cases) (auto simp: safe_ipv4_string split: if_splits)

lemma those_all: "those (map f xs) = Some ss \<Longrightarrow> (\<And>x s. f x = Some s \<Longrightarrow> P s) \<Longrightarrow> \<forall>s \<in> set ss. P s"
  by (induction xs arbitrary: ss) (auto split: option.splits)

lemma static_gateway_safe: "static_gateway config i = Inr (Some g) \<Longrightarrow> safe_text g"
  by (auto simp: static_gateway_def bindE_eq_Inr safe_ipv4_string split: option.splits if_splits)

lemma static_dns_safe: "static_dns config = Inr ss \<Longrightarrow> \<forall>s \<in> set ss. safe_text s"
  using those_all [where f = dns_item and P = safe_text] dns_item_safe
  by (cases "jget_default config ''dns'' (JList [])") (auto simp: static_dns_def split: if_splits option.splits)

lemma static_values_safe:
  assumes "static_config config = Inr n"
  shows "safe_text (address_value n) \<and> safe_text (dns_value n) \<and> config_text n ''ssid'' = [] \<and> config_text n ''psk'' = []"
proof -
  obtain i g ss where g: "static_gateway config i = Inr g" and d: "static_dns config = Inr ss"
    and n: "n = [(''mode'', JStr ''ethernet-static''), (''address'', JStr (interface_string i))] @
            (case g of None \<Rightarrow> [] | Some g \<Rightarrow> [(''gateway'', JStr g)]) @ [(''dns'', JList (map JStr ss))]"
    using assms by (auto simp: static_config_def bindE_eq_Inr)
  have "config_dns n = ss" by (rule config_dns_strings) (simp add: n split: option.split)
  then have "safe_text (dns_value n)"
    using static_dns_safe [OF d] by (auto simp: dns_value_def intro!: safe_append join_safe)
  moreover have "safe_text (address_value n)"
    using static_gateway_safe [of config i] g
    by (auto simp: address_value_def config_text_def n safe_interface_string split: option.splits
        intro!: safe_append safe_Cons)
  ultimately show ?thesis by (simp add: n config_text_def split: option.split)
qed

lemma validated_values_safe:
  assumes "validate_config config = Inr n"
  shows "one_line (config_text n ''ssid'') \<and> one_line (config_text n ''psk'') \<and>
    safe_text (address_value n) \<and> safe_text (dns_value n)"
proof -
  have plain: "safe_text (address_value n)" "safe_text (dns_value n)"
    if "jget n ''address'' = JNull" "jget n ''gateway'' = JNull" "jget n ''dns'' = JNull"
    using that by (simp_all add: address_value_def dns_value_def config_text_def config_dns_def)
  have known: "in_strs (jget config ''mode'') supported_modes"
    using assms by (auto simp: validate_config_def Let_def split: if_splits)
  consider (hotspot) "config_mode config = ''hotspot''" | (client) "config_mode config = ''wifi-client''"
    | (dhcp) "config_mode config = ''ethernet-dhcp''" | (static) "config_mode config = ''ethernet-static''"
    using known by (auto simp: in_strs_def supported_modes_def config_mode_def)
  then show ?thesis
  proof cases
    case hotspot
    then obtain ssid psk where "n = [(''mode'', JStr ''hotspot''), (''ssid'', JStr ssid), (''psk'', JStr psk)]"
      and "printable_text ssid" "printable_text psk"
      using assms known by (auto simp: validate_config_def Let_def bindE_eq_Inr text_field_Inr)
    then show ?thesis using plain by (simp add: config_text_def printable_one_line)
  next
    case client
    then have "client_config config = Inr n"
      using assms known by (auto simp: validate_config_def Let_def bindE_eq_Inr)
    then show ?thesis
      by (rule client_config_shape) (use plain in \<open>auto simp: config_text_def printable_one_line\<close>)
  next
    case dhcp
    then have "n = [(''mode'', JStr ''ethernet-dhcp'')]"
      using assms known by (auto simp: validate_config_def Let_def bindE_eq_Inr)
    then show ?thesis using plain by (simp add: config_text_def)
  next
    case static
    then have "static_config config = Inr n"
      using assms known by (auto simp: validate_config_def Let_def bindE_eq_Inr)
    from static_values_safe [OF this] show ?thesis by simp
  qed
qed

lemma saved_profile_safe:
  assumes "valid_saved_profile (JStr name) = Some name"
  shows "safe_text name"
proof -
  let ?n = "length name - 13"
  have l: "21 \<le> length name" and p: "take 7 name = ''rp-ylx-''"
    and m: "list_all (\<lambda>c. is_lower c \<or> c = CHR ''-'') (drop 7 (take ?n name))"
    and d: "name ! ?n = CHR ''-''" and h: "list_all is_hex (drop (?n + 1) name)"
    using assms by (auto simp: valid_saved_profile_def Let_def split: if_splits)
  have "take ?n name = take 7 name @ drop 7 (take ?n name)"
    using append_take_drop_id [of 7 "take ?n name"] l by (simp add: min_absorb1)
  moreover have "drop ?n name = name ! ?n # drop (?n + 1) name" using l by (simp add: Cons_nth_drop_Suc)
  ultimately have parts: "name = take 7 name @ drop 7 (take ?n name) @ name ! ?n # drop (?n + 1) name"
    by (metis append_assoc append_take_drop_id)
  have "list_all (\<lambda>c. is_lower c \<or> is_hex c \<or> c = CHR ''-'') (take 7 name)"
    by (simp add: p is_lower_def)
  then have "list_all (\<lambda>c. is_lower c \<or> is_hex c \<or> c = CHR ''-'') name"
    by (subst parts) (use m d h in \<open>auto simp: list_all_iff\<close>)
  then show ?thesis by (rule safe_char_class) (auto simp: is_lower_def is_hex_def is_digit_def)
qed

lemma uuid_shape_chars: "uuid_shape s \<Longrightarrow> list_all (\<lambda>c. is_hex c \<or> c = CHR ''-'') s"
  by (auto simp: uuid_shape_def uuid_classes_def eval_nat_numeral match_classes_iff list_all2_Cons1)

section \<open>The text determines the configuration\<close>

text \<open>Every backslash starts one of the two escapes, and a value does not begin with a blank.\<close>

fun escapes_ok :: "string \<Rightarrow> bool" where
  "escapes_ok [] = True"
| "escapes_ok (c # s) =
     (if c = CHR 0x5C then (case s of [] \<Rightarrow> False | d # t \<Rightarrow> d \<in> {CHR ''s'', CHR 0x5C} \<and> escapes_ok t)
      else escapes_ok s)"

definition well_escaped :: "string \<Rightarrow> bool" where
  "well_escaped l \<longleftrightarrow> escapes_ok l \<and>
     (case dropWhile ((\<noteq>) (CHR ''='')) l of _ # c # s \<Rightarrow> c \<noteq> CHR '' '' | _ \<Rightarrow> True)"

lemma escapes_plain: "CHR 0x5C \<notin> set s \<Longrightarrow> escapes_ok (s @ t) = escapes_ok t"
  by (induction s) auto

lemma escapes_no_backslash: "CHR 0x5C \<notin> set s \<Longrightarrow> escapes_ok s"
  using escapes_plain [of s "[]"] by simp

lemma escapes_escape: "escapes_ok (escape s)"
  by (induction s) (simp_all add: escape_def)

lemma escapes_blanks: "escapes_ok (concat (replicate k [CHR 0x5C, CHR ''s'']) @ t) = escapes_ok t"
  by (induction k) simp_all

lemma keyfile_string_escapes: "escapes_ok (keyfile_string s)" "keyfile_string s = [] \<or> hd (keyfile_string s) \<noteq> CHR '' ''"
proof -
  obtain k t where t: "t = [] \<or> hd t \<noteq> CHR '' ''" "keyfile_string s = concat (replicate k [CHR 0x5C, CHR ''s'']) @ escape t"
    using keyfile_string_form [of s] by metis
  show "escapes_ok (keyfile_string s)" by (simp add: t(2) escapes_blanks escapes_escape)
  show "keyfile_string s = [] \<or> hd (keyfile_string s) \<noteq> CHR '' ''"
    using t by (cases k; cases t) (auto simp: escape_def)
qed

lemma well_escaped_entry:
  assumes "CHR ''='' \<notin> set k" "CHR 0x5C \<notin> set k" "escapes_ok v" "v = [] \<or> hd v \<noteq> CHR '' ''"
  shows "well_escaped (k @ CHR ''='' # v)"
  using assms by (cases v) (simp_all add: well_escaped_def at_equals escapes_plain)

lemma well_escaped_safe: "CHR ''='' \<notin> set k \<Longrightarrow> CHR 0x5C \<notin> set k \<Longrightarrow> safe_text v \<Longrightarrow> well_escaped (k @ CHR ''='' # v)"
  by (rule well_escaped_entry) (auto simp: safe_text_def escapes_no_backslash)

lemmas escaped_entries =
  well_escaped_entry [where k = "''ssid''", simplified] well_escaped_entry [where k = "''psk''", simplified]
  well_escaped_safe [where k = "''id''", simplified] well_escaped_safe [where k = "''uuid''", simplified]
  well_escaped_safe [where k = "''address1''", simplified] well_escaped_safe [where k = "''dns''", simplified]

lemma wifi_well_escaped: "list_all well_escaped (wifi_lines config mode)"
  unfolding wifi_lines_def Let_def
  by (simp add: escaped_entries keyfile_string_escapes) (simp add: well_escaped_def)

lemma ipv4_well_escaped:
  assumes "safe_text (address_value config)" and "safe_text (dns_value config)"
  shows "list_all well_escaped (ipv4_lines config mode)"
  unfolding ipv4_lines_def Let_def address_value_def [symmetric] dns_value_def [symmetric]
  by (simp add: escaped_entries assms) (simp add: well_escaped_def)

lemma profile_well_escaped:
  assumes "safe_text name" and "safe_text (uuid5 (''rp-ylx.network.'' @ name))"
    and "safe_text (address_value config)" and "safe_text (dns_value config)"
  shows "list_all well_escaped (profile_lines uuid5 name config)"
  unfolding profile_lines_def Let_def interface_of_def
  using assms(2) by (simp add: escaped_entries assms wifi_well_escaped ipv4_well_escaped) (simp add: well_escaped_def)

lemma list_eq_heads: "x # xs = y # ys \<Longrightarrow> x = y" "x # xs = y # ys \<Longrightarrow> xs = ys"
  by simp_all

lemma validated_shape:
  assumes "validate_config config = Inr n"
  obtains (hotspot) ssid psk where "n = [(''mode'', JStr ''hotspot''), (''ssid'', JStr ssid), (''psk'', JStr psk)]"
  | (client) ssid sec psk where "sec \<in> set wifi_security"
      "n = [(''mode'', JStr ''wifi-client''), (''ssid'', JStr ssid), (''security'', JStr sec)] @
           (if sec = ''open'' then [] else [(''psk'', JStr psk)])"
  | (dhcp) "n = [(''mode'', JStr ''ethernet-dhcp'')]"
  | (static) i g ss where "static_gateway config i = Inr g" "static_dns config = Inr ss"
      "n = [(''mode'', JStr ''ethernet-static''), (''address'', JStr (interface_string i))] @
            (case g of None \<Rightarrow> [] | Some g \<Rightarrow> [(''gateway'', JStr g)]) @ [(''dns'', JList (map JStr ss))]"
proof -
  have known: "in_strs (jget config ''mode'') supported_modes"
    using assms by (auto simp: validate_config_def Let_def split: if_splits)
  consider "config_mode config = ''hotspot''" | "config_mode config = ''wifi-client''"
    | "config_mode config = ''ethernet-dhcp''" | "config_mode config = ''ethernet-static''"
    using known by (auto simp: in_strs_def supported_modes_def config_mode_def)
  then show thesis
  proof cases
    case 1
    then show thesis using assms known hotspot by (auto simp: validate_config_def Let_def bindE_eq_Inr)
  next
    case 2
    then have "client_config config = Inr n" using assms known by (auto simp: validate_config_def Let_def bindE_eq_Inr)
    then show thesis by (rule client_config_shape) (rule client)
  next
    case 3
    then show thesis using assms known dhcp by (auto simp: validate_config_def Let_def bindE_eq_Inr)
  next
    case 4
    then have "static_config config = Inr n" using assms known by (auto simp: validate_config_def Let_def bindE_eq_Inr)
    then show thesis using static by (auto simp: static_config_def bindE_eq_Inr)
  qed
qed

definition same_fields :: "jobject \<Rightarrow> jobject \<Rightarrow> bool" where
  "same_fields n n' \<longleftrightarrow> (\<forall>k. k \<noteq> ''security'' \<longrightarrow> jget n k = jget n' k) \<and>
     (\<forall>sec \<in> {''open'', ''wpa3-personal''}. jget n ''security'' = JStr sec \<longleftrightarrow> jget n' ''security'' = JStr sec)"

lemma plain_separators:
  "CHR '','' \<notin> set (ipv4_string a)" "CHR '';'' \<notin> set (ipv4_string a)" "ipv4_string a \<noteq> []" "CHR '','' \<notin> set (interface_string i)"
proof -
  have d: "c \<notin> set (nat_digits n)" if "\<not> is_digit c" for c n
    using nat_digits_digits [of n] that by (auto simp: list_all_iff)
  have c: "\<not> is_digit (CHR '','')" "\<not> is_digit (CHR '';'')" by (simp_all add: is_digit_def)
  show "CHR '','' \<notin> set (ipv4_string a)" "CHR '';'' \<notin> set (ipv4_string a)" "ipv4_string a \<noteq> []" "CHR '','' \<notin> set (interface_string i)"
    by (simp_all add: ipv4_string_def interface_string_def d [OF c(1)] d [OF c(2)])
qed

lemma gateway_text: "static_gateway config i = Inr (Some g) \<Longrightarrow> CHR '','' \<notin> set g \<and> g \<noteq> []"
  using plain_separators by (auto simp: static_gateway_def bindE_eq_Inr split: option.splits if_splits)

lemma dns_text: "static_dns config = Inr ss \<Longrightarrow> \<forall>s \<in> set ss. CHR '';'' \<notin> set s"
proof -
  assume d: "static_dns config = Inr ss"
  have item: "dns_item x = Some s \<Longrightarrow> CHR '';'' \<notin> set s" for x s
    using plain_separators(2) by (cases x rule: dns_item.cases) (auto split: if_splits)
  obtain xs where "those (map dns_item xs) = Some ss"
    using d by (cases "jget_default config ''dns'' (JList [])") (auto simp: static_dns_def split: if_splits option.splits)
  then show ?thesis using item by (rule those_all)
qed

lemma dns_join_inject:
  assumes "join_on '';'' ss = join_on '';'' ts" and "ss \<noteq> []" "ts \<noteq> []"
    and "\<forall>s \<in> set ss. CHR '';'' \<notin> set s" and "\<forall>s \<in> set ts. CHR '';'' \<notin> set s"
  shows "ss = ts"
  by (rule trans [OF split_join_lines [OF assms(2,4), symmetric]])
     (subst assms(1), rule split_join_lines [OF assms(3,5)])

lemma comma_inject:
  assumes "a @ (if g = [] then [] else CHR '','' # g) = b @ (if h = [] then [] else CHR '','' # h)"
    and "CHR '','' \<notin> set a" "CHR '','' \<notin> set b"
  shows "a = b \<and> g = h"
proof -
  have cut: "takeWhile ((\<noteq>) (CHR '','')) (x @ (if y = [] then [] else CHR '','' # y)) = x" if "CHR '','' \<notin> set x" for x y
    using that by (induction x) auto
  have "a = b" using cut [OF assms(2), of g] cut [OF assms(3), of h] assms(1) by simp
  then show ?thesis using assms(1) by (auto split: if_splits)
qed

lemma static_entries_determine:
  assumes n: "n = [(''mode'', JStr ''ethernet-static''), (''address'', JStr a)] @
            (case g of None \<Rightarrow> [] | Some t \<Rightarrow> [(''gateway'', JStr t)]) @ [(''dns'', JList (map JStr ss))]"
    and n': "n' = [(''mode'', JStr ''ethernet-static''), (''address'', JStr a')] @
            (case g' of None \<Rightarrow> [] | Some t \<Rightarrow> [(''gateway'', JStr t)]) @ [(''dns'', JList (map JStr ss'))]"
    and e: "ipv4_entries n = ipv4_entries n'"
    and t: "\<And>t. g = Some t \<Longrightarrow> t \<noteq> []" "\<And>t. g' = Some t \<Longrightarrow> t \<noteq> []"
    and c: "CHR '','' \<notin> set a" "CHR '','' \<notin> set a'"
    and d: "\<forall>s \<in> set ss. CHR '';'' \<notin> set s" "\<forall>s \<in> set ss'. CHR '';'' \<notin> set s"
  shows "n = n'"
proof -
  define gt where "gt = (case g of None \<Rightarrow> [] | Some t \<Rightarrow> t)"
  define gt' where "gt' = (case g' of None \<Rightarrow> [] | Some t \<Rightarrow> t)"
  have f: "config_mode n = ''ethernet-static''" "config_text n ''address'' = a" "config_text n ''gateway'' = gt" "config_dns n = ss"
    "config_mode n' = ''ethernet-static''" "config_text n' ''address'' = a'" "config_text n' ''gateway'' = gt'" "config_dns n' = ss'"
    unfolding n n' gt_def gt'_def by (simp_all add: config_mode_def config_text_def config_dns_def comp_def split: option.split)
  have "a @ (if gt = [] then [] else CHR '','' # gt) = a' @ (if gt' = [] then [] else CHR '','' # gt')"
    and "ss = [] \<longleftrightarrow> ss' = []" and "ss \<noteq> [] \<Longrightarrow> join_on '';'' ss = join_on '';'' ss'"
    using e unfolding ipv4_entries_def f Let_def by (auto split: if_splits)
  then have "a = a'" "gt = gt'" "ss = ss'" using comma_inject c dns_join_inject d by blast+
  moreover have "g = g'" using t calculation(2) by (auto simp: gt_def gt'_def split: option.splits)
  ultimately show ?thesis by (simp add: n n')
qed

lemma uuid_shape_safe: "uuid_shape s \<Longrightarrow> safe_text s"
  by (drule uuid_shape_chars, erule safe_char_class) (auto simp: is_hex_def is_digit_def)

lemmas entries_simps = profile_entries_def wifi_entries_def in_section_def Let_def config_mode_def config_text_def
  same_fields_def wifi_security_def

lemma entries_determine:
  assumes "validate_config config = Inr n" and "validate_config config' = Inr n'"
    and "profile_entries uuid5 name n = profile_entries uuid5 name' n'"
  shows "name = name' \<and> same_fields n n'"
proof (rule conjI)
  show "name = name'" using assms(3) by (simp add: profile_entries_def in_section_def Let_def)
  show "same_fields n n'"
  using assms(1)
  proof (cases rule: validated_shape)
    case hotspot
    show ?thesis
      using assms(2) by (cases rule: validated_shape) (use assms(3) hotspot in \<open>auto simp: entries_simps split: option.splits\<close>)
  next
    case client
    show ?thesis
      using assms(2) by (cases rule: validated_shape) (use assms(3) client in \<open>auto simp: entries_simps split: if_splits option.splits\<close>)
  next
    case dhcp
    show ?thesis
      using assms(2)
      by (cases rule: validated_shape) (use assms(3) dhcp in \<open>auto simp: entries_simps ipv4_entries_def split: option.splits\<close>)
  next
    case n: (static i g ss)
    show ?thesis
      using assms(2)
    proof (cases rule: validated_shape)
      case n': (static i' g' ss')
      have m: "config_mode n = ''ethernet-static''" "config_mode n' = ''ethernet-static''"
        by (simp_all add: n(3) n'(3) config_mode_def)
      have e: "ipv4_entries n = ipv4_entries n'"
        using assms(3) by (simp add: profile_entries_def in_section_def Let_def m inj_on_def)
      have "n = n'"
        by (rule static_entries_determine [OF n(3) n'(3) e])
           (use gateway_text n(1) n'(1) dns_text [OF n(2)] dns_text [OF n'(2)] in \<open>simp_all add: plain_separators\<close>)
      then show ?thesis by (simp add: same_fields_def)
    qed (use assms(3) n(3) in \<open>auto simp: entries_simps ipv4_entries_def split: option.splits\<close>)
  qed
qed

text \<open>C31: A network name, passphrase or address cannot reach beyond its own value in the NetworkManager profile.  For
  an accepted configuration, under a saved profile name of the program's shape and a UUID of the canonical
  shape, the lines of the printed file are exactly the lines the program lays out, whatever the values; in every
  line each backslash starts one of the two escapes of the program and no value begins with a blank; and the text
  determines what was configured: a profile with the same text has the same name and was printed for a
  configuration with the same fields, up to the two security modes that are both printed as \<open>wpa-psk\<close>.\<close>

theorem profile_cannot_be_injected:
  assumes "validate_config config = Inr n" and "valid_saved_profile (JStr name) = Some name"
    and "uuid_shape (uuid5 (''rp-ylx.network.'' @ name))"
  shows "split_on (CHR 0x0A) (network_manager_profile uuid5 name n) = profile_lines uuid5 name n \<and>
    (\<forall>l \<in> set (profile_lines uuid5 name n). well_escaped l) \<and>
    (\<forall>config' n' name'. validate_config config' = Inr n' \<and> valid_saved_profile (JStr name') = Some name' \<and>
       uuid_shape (uuid5 (''rp-ylx.network.'' @ name')) \<and>
       network_manager_profile uuid5 name' n' = network_manager_profile uuid5 name n \<longrightarrow> name' = name \<and> same_fields n' n)"
proof (intro conjI allI impI)
  have safe: "safe_text m" "safe_text (uuid5 (''rp-ylx.network.'' @ m))"
    if "valid_saved_profile (JStr m) = Some m" "uuid_shape (uuid5 (''rp-ylx.network.'' @ m))" for m
    using saved_profile_safe [OF that(1)] uuid_shape_safe [OF that(2)] by simp_all
  have reads: "split_on (CHR 0x0A) (network_manager_profile uuid5 m v) = profile_lines uuid5 m v"
    "printed_entries (network_manager_profile uuid5 m v) = profile_entries uuid5 m v"
    if "validate_config c = Inr v" "valid_saved_profile (JStr m) = Some m" "uuid_shape (uuid5 (''rp-ylx.network.'' @ m))" for c v m
    using validated_values_safe [OF that(1)] by (intro profile_lines_stand profile_reads_back safe [OF that(2,3)]; blast)+
  show "split_on (CHR 0x0A) (network_manager_profile uuid5 name n) = profile_lines uuid5 name n"
    by (rule reads(1) [OF assms])
  show "\<forall>l \<in> set (profile_lines uuid5 name n). well_escaped l"
    unfolding list_all_iff [symmetric]
    by (rule profile_well_escaped) (use safe [OF assms(2,3)] validated_values_safe [OF assms(1)] in auto)
  fix config' n' name'
  assume "validate_config config' = Inr n' \<and> valid_saved_profile (JStr name') = Some name' \<and>
       uuid_shape (uuid5 (''rp-ylx.network.'' @ name')) \<and>
       network_manager_profile uuid5 name' n' = network_manager_profile uuid5 name n"
  then have c: "validate_config config' = Inr n'" "valid_saved_profile (JStr name') = Some name'"
    "uuid_shape (uuid5 (''rp-ylx.network.'' @ name'))" "network_manager_profile uuid5 name' n' = network_manager_profile uuid5 name n"
    by blast+
  have "profile_entries uuid5 name' n' = profile_entries uuid5 name n"
    by (metis reads(2) [OF c(1-3)] reads(2) [OF assms] c(4))
  then have "name' = name \<and> same_fields n' n" by (rule entries_determine [OF c(1) assms(1)])
  then show "name' = name" "same_fields n' n" by simp_all
qed

definition sample_config :: jobject where
  "sample_config = [(''mode'', JStr ''wifi-client''), (''ssid'', JStr ('' lab'' @ [CHR 0x5C])),
     (''security'', JStr ''wpa2-personal''), (''psk'', JStr ''=secret[=]'')]"

theorem profile_cannot_be_injected_witness:
  "(''ssid='' @ [CHR 0x5C] @ ''slab'' @ [CHR 0x5C, CHR 0x5C]) \<in> set (split_on (CHR 0x0A) (network_manager_profile
     (\<lambda>n. ''0a1b2c3d-0000-5000-8000-000000000001'') ''rp-ylx-wifi-client-0123456789ab'' sample_config))"
proof -
  have "validate_config sample_config = Inr sample_config" by code_simp
  moreover have "valid_saved_profile (JStr ''rp-ylx-wifi-client-0123456789ab'') = Some ''rp-ylx-wifi-client-0123456789ab''"
    by code_simp
  moreover have "uuid_shape ((\<lambda>n. ''0a1b2c3d-0000-5000-8000-000000000001'') (''rp-ylx.network.'' @ ''rp-ylx-wifi-client-0123456789ab''))"
    by code_simp
  ultimately have "split_on (CHR 0x0A) (network_manager_profile
      (\<lambda>n. ''0a1b2c3d-0000-5000-8000-000000000001'') ''rp-ylx-wifi-client-0123456789ab'' sample_config) =
    profile_lines (\<lambda>n. ''0a1b2c3d-0000-5000-8000-000000000001'') ''rp-ylx-wifi-client-0123456789ab'' sample_config"
    by (rule profile_cannot_be_injected [THEN conjunct1])
  then show ?thesis
    by (simp add: profile_lines_def wifi_lines_def keyfile_string_def config_mode_def config_text_def sample_config_def Let_def
        eval_nat_numeral)
qed

end
