(* ===== verification/NetworkStatusView.thy ===== *)
theory NetworkStatusView
  imports NetworkConfig
begin

text \<open>
  The status \<open>network.py\<close> projects for the Device API: the device table of \<open>nmcli\<close>, the desired
  state of the saved configuration, and \<open>network_status_v1\<close>, which asks the privileged controller
  and falls back to the files when it does not answer.  \<open>str_of\<close> stands for \<open>str\<close> of a value that is
  not a string; the files and the controller's answer are arguments.
\<close>

section \<open>The device table\<close>

definition nm_device :: "string \<Rightarrow> json list" where
  "nm_device line =
     (let ws = split_on (CHR '':'') line in
      (case ws of
         a # b # c # rest \<Rightarrow>
           [JObj [(''interface'', JStr a), (''type'', JStr b), (''state'', JStr (join_on '':'' (c # rest)))]]
       | _ \<Rightarrow> []))"

definition is_wifi_device :: "json \<Rightarrow> bool" where
  "is_wifi_device d = (case d of JObj x \<Rightarrow> eq_str (jget x ''type'') ''wifi'' | _ \<Rightarrow> False)"

definition mdns_record :: jobject where
  "mdns_record =
     [(''hostname'', JStr ''rp-ylx.local''), (''service'', JStr ''_ylx-capture._tcp''),
      (''aliases'', JList [JStr ''_http._tcp'']), (''port'', JInt 8080)]"

definition network_status :: "nmcli_result res \<Rightarrow> jobject res" where
  "network_status answer =
     bindE answer (\<lambda>r.
       if nm_returncode r \<noteq> 0 then Inl (nm_error ''network_status_failed'')
       else
        (let devices = concat (map nm_device (splitlines (nm_stdout r))) in
         Inr [(''format'', JStr ''ylx.network-status.v0''),
              (''capabilities'', JObj
                [(''modes'', JList (map JStr supported_modes)), (''wifi_interface'', JStr ''wlan0''),
                 (''ethernet_interface'', JStr ''eth0''),
                 (''second_wifi'', JBool (1 < length (filter is_wifi_device devices)))]),
              (''mdns'', JObj mdns_record), (''devices'', JList devices)]))"

section \<open>The desired state of a saved configuration\<close>

definition py_str :: "(json \<Rightarrow> string) \<Rightarrow> json \<Rightarrow> string" where
  "py_str str_of v = (case v of JStr s \<Rightarrow> s | _ \<Rightarrow> str_of v)"

definition network_static_ipv4 :: "(json \<Rightarrow> string) \<Rightarrow> jobject \<Rightarrow> json" where
  "network_static_ipv4 str_of config =
     (case map_of config ''address'' of
        None \<Rightarrow> JNull
      | Some a \<Rightarrow>
          (case ipv4_interface (py_str str_of a) of
             None \<Rightarrow> JNull
           | Some (n, p) \<Rightarrow> JObj
               [(''address'', JStr (ipv4_string n)), (''prefix_length'', JInt (int p)),
                (''gateway'', (case jget config ''gateway'' of JStr g \<Rightarrow> JStr g | _ \<Rightarrow> JNull)),
                (''dns'', JList (case jget config ''dns'' of
                            JList xs \<Rightarrow> map (\<lambda>x. JStr (py_str str_of x)) xs | _ \<Rightarrow> []))]))"

definition desired_record :: "json \<Rightarrow> json \<Rightarrow> json \<Rightarrow> jobject" where
  "desired_record mode wifi ethernet = [(''mode'', mode), (''wifi_client'', wifi), (''ethernet'', ethernet)]"

definition desired_state_from_config :: "(json \<Rightarrow> string) \<Rightarrow> jobject option \<Rightarrow> jobject" where
  "desired_state_from_config str_of config =
     (case config of
        None \<Rightarrow> desired_record (JStr ''hotspot'') JNull JNull
      | Some c \<Rightarrow>
          if \<not> in_strs (jget c ''mode'') supported_modes then desired_record (JStr ''hotspot'') JNull JNull
          else
           (let mode = config_mode c in
            if mode = ''wifi-client'' then
              (let given = jget_default c ''security'' (JStr ''wpa2-personal'');
                   security = (if in_strs given wifi_security then given else JStr ''wpa2-personal'') in
               desired_record (JStr mode)
                 (JObj [(''ssid'', (case jget c ''ssid'' of JStr s \<Rightarrow> JStr s | _ \<Rightarrow> JStr [])),
                        (''security'', security),
                        (''credential_state'', JStr (if eq_str security ''open'' then ''absent'' else ''stored''))])
                 JNull)
            else if mode = ''ethernet-dhcp'' then
              desired_record (JStr mode) JNull (JObj [(''addressing'', JStr ''dhcp''), (''static_ipv4'', JNull)])
            else if mode = ''ethernet-static'' then
              desired_record (JStr mode) JNull
                (JObj [(''addressing'', JStr ''static''), (''static_ipv4'', network_static_ipv4 str_of c)])
            else desired_record (JStr mode) JNull JNull))"

text \<open>The first of the saved records (Wi-Fi, Ethernet, rescue) with a configuration decides.\<close>

fun desired_state_from_disk :: "(json \<Rightarrow> string) \<Rightarrow> jobject option res list \<Rightarrow> jobject res" where
  "desired_state_from_disk str_of [] = Inr (desired_state_from_config str_of None)"
| "desired_state_from_disk str_of (f # fs) =
     bindE f (\<lambda>found.
       (case found of
          None \<Rightarrow> desired_state_from_disk str_of fs
        | Some r \<Rightarrow> (case jget r ''config'' of
            JObj c \<Rightarrow> Inr (desired_state_from_config str_of (Some c))
          | _ \<Rightarrow> desired_state_from_disk str_of fs)))"

definition fallback_saved_state :: "jobject option res \<Rightarrow> bool res" where
  "fallback_saved_state wifi =
     bindE wifi (\<lambda>found. Inr (case found of None \<Rightarrow> False | Some r \<Rightarrow> eq_str (jget r ''mode'') ''wifi-client''))"

section \<open>\<open>network_status_v1\<close>\<close>

definition controller_projection ::
  "(json \<Rightarrow> bool) \<Rightarrow> (string \<Rightarrow> rat option) \<Rightarrow> jobject option \<Rightarrow> jobject option res" where
  "controller_projection uuid_text instant answer =
     (case answer of
        None \<Rightarrow> Inr None
      | Some r \<Rightarrow> bindE (seal_response uuid_text instant r) (\<lambda>sealed.
          Inr (if jget sealed ''ok'' \<noteq> JBool True \<or> \<not> eq_str (jget sealed ''operation'') ''status'' then None
               else (case jget sealed ''body'' of JObj b \<Rightarrow> Some b | _ \<Rightarrow> None))))"

definition network_observed_state :: "jobject \<Rightarrow> jobject \<Rightarrow> jobject res" where
  "network_observed_state runtime legacy =
     (case jget runtime ''network'' of
        JObj network \<Rightarrow>
          (case (jget legacy ''mdns'', jget legacy ''devices'') of
             (JObj mdns, JList devices) \<Rightarrow>
               Inr (jset ''devices'' (JList devices) (jset ''mdns'' (JObj mdns) network))
           | _ \<Rightarrow> Inl (nm_error ''network_status_failed''))
      | _ \<Rightarrow> Inl (nm_error ''runtime_network_unavailable''))"

definition disabled_capability :: jobject where
  "disabled_capability =
     [(''enabled'', JBool False), (''disabled_reason'', JStr ''controller_unavailable''),
      (''operations'', mutation_operation_list), (''idempotency_key_required'', JBool True),
      (''secret_handling'', JStr ''opaque_credential_reference_only''), (''active_state_policy'', JStr ''idle_only'')]"

text \<open>What the status takes from the files: saved flag, desired state; \<open>NetworkError\<close> means none.\<close>

definition fallback_view ::
  "(json \<Rightarrow> string) \<Rightarrow> jobject option res \<Rightarrow> jobject option res \<Rightarrow> jobject option res \<Rightarrow> bool \<times> jobject" where
  "fallback_view str_of wifi ethernet rescue =
     (case bindE (fallback_saved_state wifi) (\<lambda>saved.
             bindE (desired_state_from_disk str_of [wifi, ethernet, rescue]) (\<lambda>d. Inr (saved, d))) of
        Inl e \<Rightarrow> (False, desired_state_from_config str_of None)
      | Inr v \<Rightarrow> v)"

definition status_document ::
  "json \<Rightarrow> json \<Rightarrow> json \<Rightarrow> json \<Rightarrow> json \<Rightarrow> json \<Rightarrow> json \<Rightarrow> json \<Rightarrow> json \<Rightarrow> bool \<Rightarrow> jobject" where
  "status_document epoch_v revision_v observed_at is_saved is_verified desired_v observed_v window capability_v second_wifi =
     [(''schema'', JStr ''ylx.network-status.v1''), (''authority_epoch'', epoch_v), (''source_revision'', revision_v),
      (''observed_at'', observed_at), (''saved'', is_saved), (''verified'', is_verified), (''desired'', desired_v),
      (''observed'', observed_v), (''transaction'', window), (''mutation_capability'', capability_v),
      (''concurrency_capability'', JObj
        [(''rescue_ap_required'', JBool True), (''same_phy_ap_sta'', JStr ''unverified''),
         (''exclusive_client_failure_timeout_seconds'', JInt 10),
         (''max_managed_interfaces'', JInt (if second_wifi then 2 else 1)), (''max_ap_interfaces'', JInt 1)])]"

record status_files =
  sf_wifi :: "jobject option res"
  sf_ethernet :: "jobject option res"
  sf_rescue :: "jobject option res"

definition network_status_v1 ::
  "(json \<Rightarrow> string) \<Rightarrow> string \<Rightarrow> string \<Rightarrow> jobject option res \<Rightarrow> status_files \<Rightarrow> jobject \<Rightarrow> jobject \<Rightarrow> jobject res" where
  "network_status_v1 str_of now fallback_epoch controller files legacy runtime =
     (case jget legacy ''capabilities'' of
        JObj capabilities \<Rightarrow>
          (let second_wifi = (jget capabilities ''second_wifi'' = JBool True);
               observed_at = (if is_nonempty_str (jget runtime ''observed_at'') then jget runtime ''observed_at'' else JStr now) in
           bindE controller (\<lambda>found.
             (case found of
                None \<Rightarrow>
                  (let (is_saved, d) = fallback_view str_of (sf_wifi files) (sf_ethernet files) (sf_rescue files) in
                   bindE (network_observed_state runtime legacy) (\<lambda>observed.
                     Inr (status_document (JStr fallback_epoch) (JInt 0) observed_at (JBool is_saved) (JBool is_saved)
                       (JObj d) (JObj observed) (JObj [(''current'', JNull), (''latest'', JNull)])
                       (JObj disabled_capability) second_wifi)))
              | Some b \<Rightarrow>
                  bindE (network_observed_state runtime legacy) (\<lambda>observed.
                    Inr (status_document (jget b ''authority_epoch'') (jget b ''source_revision'') observed_at
                      (jget b ''saved'') (jget b ''verified'') (jget b ''desired'') (JObj observed)
                      (jget b ''transaction'') (jget b ''capability'') second_wifi)))))
      | _ \<Rightarrow> Inl (nm_error ''network_status_failed''))"

section \<open>What the gateway makes of it\<close>

definition safe_config :: "jobject \<Rightarrow> jobject" where
  "safe_config config = filter (\<lambda>(k, v). k \<noteq> ''psk'') config"

lemma valid_ipv4_string: "valid_ipv4 (JStr (ipv4_string n))"
  by (simp add: valid_ipv4_def ipv4_string_text)

lemma desired_record_ok:
  assumes "m \<in> set network_modes"
    and "wifi = JNull \<or> gateway_desired_wifi wifi = Inr True"
    and "ethernet = JNull \<or> valid_network_ethernet ethernet"
    and "m = ''wifi-client'' \<Longrightarrow> wifi \<noteq> JNull" and "m = ''ethernet-static'' \<Longrightarrow> ethernet \<noteq> JNull"
  shows "gateway_desired_state (JObj (desired_record (JStr m) wifi ethernet)) = Inr True"
  using assms
  by (auto simp: gateway_desired_state_def desired_record_def Let_def has_keys_def in_strs_def eq_str_def)

lemma static_dns_texts: "static_dns config = Inr ss \<Longrightarrow> length ss \<le> 3 \<and> (\<forall>s \<in> set ss. valid_ipv4 (JStr s))"
proof -
  assume a: "static_dns config = Inr ss"
  then obtain xs where xs: "length xs \<le> 3" "those (map dns_item xs) = Some ss"
    by (cases "jget_default config ''dns'' (JList [])") (auto simp: static_dns_def not_less split: if_splits option.splits)
  have item: "valid_ipv4 (JStr s)" if "dns_item x = Some s" for x s
    using that by (cases x rule: dns_item.cases) (auto simp: valid_ipv4_string split: if_splits)
  have "those (map dns_item ys) = Some ts \<Longrightarrow> length ts = length ys \<and> (\<forall>s \<in> set ts. valid_ipv4 (JStr s))" for ys ts
    using item by (induction ys arbitrary: ts) (auto split: option.splits)
  then show ?thesis using xs by auto
qed

lemma overlap_everything: "networks_overlap (n, 0) (10 * 2 ^ 24 + 42 * 2 ^ 16, 24)" if "n < 2 ^ 32"
  using that by (simp add: networks_overlap_def in_network_def network_address_def broadcast_address_def hostmask_def)

lemma gateway_wifi_ok:
  assumes "security \<in> set wifi_security" and "1 \<le> length ssid" and "length ssid \<le> 32"
  shows "gateway_desired_wifi (JObj [(''ssid'', JStr ssid), (''security'', JStr security),
    (''credential_state'', JStr (if security = ''open'' then ''absent'' else ''stored''))]) = Inr True"
  using assms
  by (simp add: gateway_desired_wifi_def has_keys_def eq_str_def wifi_security_def request_wifi_security_def)

lemma printable_nonempty: "printable_text s \<Longrightarrow> 1 \<le> length s"
  by (cases s) (auto simp: printable_text_def)

lemma static_view_ok:
  assumes "static_config config = Inr n" and "distinct (config_dns n)"
  shows "gateway_desired_state (JObj (desired_state_from_config str_of (Some (safe_config n)))) = Inr True"
proof -
  obtain i g ss where a: "static_address config = Inr i" and g: "static_gateway config i = Inr g"
    and d: "static_dns config = Inr ss"
    and n: "n = [(''mode'', JStr ''ethernet-static''), (''address'', JStr (interface_string i))] @
            (case g of None \<Rightarrow> [] | Some g \<Rightarrow> [(''gateway'', JStr g)]) @ [(''dns'', JList (map JStr ss))]"
    using assms(1) by (auto simp: static_config_def bindE_eq_Inr)
  obtain k p where i: "i = (k, p)" by (cases i)
  have bounds: "k < 2 ^ 32" "p \<le> 32" and free: "\<not> networks_overlap i (10 * 2 ^ 24 + 42 * 2 ^ 16, 24)"
    using static_address_facts [OF a] ipv4_interface_bound unfolding i by blast+
  have "1 \<le> p" using overlap_everything [OF bounds(1)] free by (cases p) (auto simp: i)
  have safe: "safe_config n = n" by (simp add: safe_config_def n split: option.split)
  have dns: "config_dns n = ss" by (simp add: config_dns_def n comp_def split: option.split)
  have reads: "map_of n ''address'' = Some (JStr (interface_string i))"
    "jget n ''gateway'' = (case g of None \<Rightarrow> JNull | Some g \<Rightarrow> JStr g)" "jget n ''dns'' = JList (map JStr ss)"
    "jget n ''mode'' = JStr ''ethernet-static''"
    by (simp_all add: n split: option.split)
  have "valid_ipv4 (JStr t)" if "g = Some t" for t
    using g that by (auto simp: static_gateway_def bindE_eq_Inr valid_ipv4_string split: option.splits if_splits)
  moreover have "valid_dns (JList (map JStr ss))"
    using static_dns_texts [OF d] assms(2) dns by (auto simp: valid_dns_def list_all_iff distinct_map inj_on_def)
  moreover have "ipv4_interface (interface_string i) = Some (k, p)"
    using interface_roundtrip bounds by (simp add: i)
  ultimately have "valid_network_static_ipv4 (network_static_ipv4 str_of n)"
    using \<open>1 \<le> p\<close> bounds reads
    by (auto simp: network_static_ipv4_def py_str_def valid_network_static_ipv4_def has_keys_def valid_ipv4_string
        comp_def split: option.splits)
  then have "valid_network_ethernet (JObj [(''addressing'', JStr ''static''), (''static_ipv4'', network_static_ipv4 str_of n)])"
    by (simp add: valid_network_ethernet_def has_keys_def eq_str_def)
  then show ?thesis
    unfolding safe using reads
    by (auto simp: desired_state_from_config_def in_strs_def supported_modes_def config_mode_def network_modes_def
        intro!: desired_record_ok)
qed

text \<open>A configuration that \<open>_validate_config\<close> accepted shows, without its passphrase, as a desired
  state the gateway accepts, provided its name servers are distinct.\<close>

lemma saved_desired_ok:
  assumes "validate_config config = Inr n" and "distinct (config_dns n)"
  shows "gateway_desired_state (JObj (desired_state_from_config str_of (Some (safe_config n)))) = Inr True"
proof -
  have known: "in_strs (jget config ''mode'') supported_modes"
    using assms(1) by (auto simp: validate_config_def Let_def split: if_splits)
  consider (hotspot) "config_mode config = ''hotspot''" | (client) "config_mode config = ''wifi-client''"
    | (dhcp) "config_mode config = ''ethernet-dhcp''" | (static) "config_mode config = ''ethernet-static''"
    using known by (auto simp: in_strs_def supported_modes_def config_mode_def)
  then show ?thesis
  proof cases
    case hotspot
    then obtain ssid psk where "n = [(''mode'', JStr ''hotspot''), (''ssid'', JStr ssid), (''psk'', JStr psk)]"
      using assms(1) known by (auto simp: validate_config_def Let_def bindE_eq_Inr)
    then show ?thesis
      by (auto simp: safe_config_def desired_state_from_config_def in_strs_def supported_modes_def config_mode_def
          network_modes_def intro!: desired_record_ok)
  next
    case client
    then have "client_config config = Inr n"
      using assms(1) known by (auto simp: validate_config_def Let_def bindE_eq_Inr)
    then obtain ssid security psk where n: "n = [(''mode'', JStr ''wifi-client''), (''ssid'', JStr ssid),
        (''security'', JStr security)] @ (if security = ''open'' then [] else [(''psk'', JStr psk)])"
      and ok: "printable_text ssid" "length ssid \<le> 32" "security \<in> set wifi_security"
      by (rule client_config_shape)
    have "safe_config n = [(''mode'', JStr ''wifi-client''), (''ssid'', JStr ssid), (''security'', JStr security)]"
      by (simp add: safe_config_def n)
    then show ?thesis
      using ok gateway_wifi_ok [OF ok(3) printable_nonempty [OF ok(1)] ok(2)]
      by (auto simp: desired_state_from_config_def in_strs_def supported_modes_def config_mode_def eq_str_def
          jget_default_def network_modes_def Let_def intro!: desired_record_ok)
  next
    case dhcp
    then have "n = [(''mode'', JStr ''ethernet-dhcp'')]"
      using assms(1) known by (auto simp: validate_config_def Let_def bindE_eq_Inr)
    then show ?thesis
      by (auto simp: safe_config_def desired_state_from_config_def in_strs_def supported_modes_def config_mode_def
          network_modes_def valid_network_ethernet_def has_keys_def eq_str_def intro!: desired_record_ok)
  next
    case static
    then have "static_config config = Inr n"
      using assms(1) known by (auto simp: validate_config_def Let_def bindE_eq_Inr)
    then show ?thesis using assms(2) by (rule static_view_ok)
  qed
qed

definition saved_record :: "jobject \<Rightarrow> bool" where
  "saved_record r \<longleftrightarrow>
     (\<exists>config n. validate_config config = Inr n \<and> distinct (config_dns n) \<and> jget r ''config'' = JObj (safe_config n))"

definition saved_file :: "jobject option res \<Rightarrow> bool" where
  "saved_file f \<longleftrightarrow> (case f of Inr (Some r) \<Rightarrow> saved_record r | _ \<Rightarrow> True)"

lemma hotspot_desired_ok: "gateway_desired_state (JObj (desired_state_from_config str_of None)) = Inr True"
  by (auto simp: desired_state_from_config_def network_modes_def intro!: desired_record_ok)

lemma disk_desired_ok:
  "list_all saved_file fs \<Longrightarrow> desired_state_from_disk str_of fs = Inr d \<Longrightarrow> gateway_desired_state (JObj d) = Inr True"
proof (induction fs)
  case Nil
  then show ?case using hotspot_desired_ok by auto
next
  case (Cons f fs)
  obtain found where f: "f = Inr found" using Cons.prems(2) by (auto simp: bindE_eq_Inr)
  show ?case
  proof (cases found)
    case None
    then show ?thesis using Cons f by simp
  next
    case (Some r)
    then obtain config n where "validate_config config = Inr n" "distinct (config_dns n)"
      and r: "jget r ''config'' = JObj (safe_config n)"
      using Cons.prems(1) f by (auto simp: saved_file_def saved_record_def)
    then have "gateway_desired_state (JObj (desired_state_from_config str_of (Some (safe_config n)))) = Inr True"
      using saved_desired_ok by blast
    then show ?thesis using Cons.prems(2) f Some r by simp
  qed
qed

lemma fallback_desired_ok:
  assumes "saved_file wifi" and "saved_file ethernet" and "saved_file rescue"
    and "fallback_view str_of wifi ethernet rescue = (is_saved, d)"
  shows "gateway_desired_state (JObj d) = Inr True"
proof -
  have fs: "list_all saved_file [wifi, ethernet, rescue]" using assms(1-3) by simp
  show ?thesis
    using assms(4) disk_desired_ok [OF fs] hotspot_desired_ok
    by (auto simp: fallback_view_def bindE_eq_Inr simp del: desired_state_from_disk.simps split: sum.splits)
qed

lemma ascii_len:
  assumes "list_all credential_char s"
  shows "py_len s = length s"
proof -
  have "\<not> is_continuation c" if "c \<in> set s" for c
    using assms that
    by (auto simp: list_all_iff credential_char_def is_alnum_def is_digit_def is_lower_def is_upper_def is_continuation_def)
  then have "filter (\<lambda>c. \<not> is_continuation c) s = s" by (simp add: filter_id_conv)
  then show ?thesis by (simp add: py_len_def)
qed

lemma bounded_nonempty: "bounded_string v n \<Longrightarrow> str_in v (\<lambda>s. s \<noteq> [])"
proof (cases v)
  case (JStr s)
  then show "bounded_string v n \<Longrightarrow> str_in v (\<lambda>s. s \<noteq> [])"
    by (cases s) (simp_all add: bounded_string_def py_len_def)
qed (simp_all add: bounded_string_def)

lemma interface_ok:
  assumes "validate_network_interface v = Inr ()"
  shows "gateway_interface v = Inr True"
proof -
  obtain d where v: "v = JObj d"
    using assms by (cases v) (simp_all add: validate_network_interface_def)
  have keys: "has_keys d [''state'', ''interface'', ''addresses'', ''peer_or_ssid'']"
    and state: "in_strs (jget d ''state'') network_interface_states"
    and interface: "jget d ''interface'' = JNull \<or>
      str_in (jget d ''interface'') (\<lambda>s. 1 \<le> py_len s \<and> py_len s \<le> 64 \<and> s \<noteq> [] \<and> list_all credential_char s)"
    and addresses: "valid_addresses (jget d ''addresses'')"
    and peer: "jget d ''peer_or_ssid'' = JNull \<or> bounded_string (jget d ''peer_or_ssid'') 128"
    and usable: "\<not> (in_strs (jget d ''state'') [''connected'', ''active'', ''degraded''] \<and>
       (\<not> is_str (jget d ''interface'') \<or> jget d ''addresses'' = JList []))"
    using assms by (simp_all add: v validate_network_interface_def)
  have "in_set (jget d ''state'') gateway_interface_states = Inr True"
    using state unfolding in_set_True in_strs_def network_interface_states_def gateway_interface_states_def .
  moreover have "jget d ''interface'' = JNull \<or> str_in (jget d ''interface'') network_token"
    using interface ascii_len by (auto simp: str_in_iff network_token_def)
  moreover have "distinct_texts (jget d ''addresses'') (\<lambda>a. a \<noteq> [])"
    using addresses bounded_nonempty
    by (auto simp: valid_addresses_def distinct_texts_def list_all_iff split: json.splits)
  moreover have "jget d ''peer_or_ssid'' = JNull \<or>
      str_in (jget d ''peer_or_ssid'') (\<lambda>p. 1 \<le> py_len p \<and> py_len p \<le> 128)"
    using peer by (simp add: bounded_string_def)
  moreover have "\<not> (in_strs (jget d ''state'') [''connected'', ''active'', ''degraded''] \<and>
      (jget d ''interface'' = JNull \<or> jget d ''addresses'' = JList []))"
    using usable by auto
  ultimately show ?thesis
    using keys unfolding v gateway_interface_def json.case Let_def rejectE_True disjE_list_False
    by simp
qed

lemma network_ok:
  assumes "validate_network (JObj d) = Inr ()" and "gateway_devices devices"
  shows "gateway_observed_state
    (JObj (jset ''devices'' devices (jset ''mdns'' (JObj mdns_record) d))) = Inr True"
proof -
  have keys: "has_keys d [''ap'', ''wifi_client'', ''wired'', ''default_route'']"
    and parts: "validate_network_interface (jget d ''ap'') = Inr ()"
      "validate_network_interface (jget d ''wifi_client'') = Inr ()" "validate_network_interface (jget d ''wired'') = Inr ()"
    and route: "in_strs (jget d ''default_route'') [''wifi_client'', ''wired'', ''none'']"
    using assms(1) by (simp_all add: validate_network_def)
  have "gateway_mdns (JObj mdns_record)" by code_simp
  moreover have "in_set (jget d ''default_route'') [''wifi_client'', ''wired'', ''none''] = Inr True"
    using route unfolding in_set_True in_strs_def .
  moreover have "has_keys (jset ''devices'' devices (jset ''mdns'' (JObj mdns_record) d))
      [''ap'', ''wifi_client'', ''wired'', ''default_route'', ''mdns'', ''devices'']"
    using keys by (auto simp: has_keys_def)
  ultimately show ?thesis
    using assms(2) parts [THEN interface_ok] by (simp add: gateway_observed_state_def)
qed

lemma lower_uuid: "uuid_v4 s \<Longrightarrow> gateway_uuid4 (JStr s)"
proof -
  assume u: "uuid_v4 s"
  have "list_all (\<lambda>c. is_hex c \<or> c = CHR ''-'') s"
    using uuid_v4_shape [OF u]
    by (auto simp: uuid_shape_def uuid_classes_def eval_nat_numeral match_classes_iff list_all2_Cons1)
  then have "lower_ascii s = s"
    unfolding lower_ascii_def by (intro map_idI) (auto simp: list_all_iff is_hex_def is_digit_def is_upper_def)
  then show ?thesis using u by (simp add: gateway_uuid4_def)
qed

lemma capability_ok: "gateway_mutation_capability (JObj disabled_capability) = Inr True"
  by code_simp

lemma window_ok:
  "gateway_transaction_window read_iso (JObj [(''current'', JNull), (''latest'', JNull)]) = Inr True"
  by (simp add: gateway_transaction_window_def has_keys_def)

text \<open>Without the privileged controller, the status that \<open>network.py\<close> builds from the saved
  files and the validated runtime is one the gateway serves, when the saved configurations came
  from \<open>_validate_config\<close> with distinct name servers and \<open>nmcli\<close>'s device table is plain.\<close>

theorem fallback_status_is_served:
  assumes "network_status_v1 str_of now fallback_epoch (Inr None) files legacy runtime = Inr st"
    and "network_status answer = Inr legacy" and "gateway_devices (jget legacy ''devices'')"
    and "validate_network (jget runtime ''network'') = Inr ()"
    and "saved_file (sf_wifi files)" and "saved_file (sf_ethernet files)" and "saved_file (sf_rescue files)"
    and "uuid_v4 fallback_epoch"
    and "gateway_datetime read_iso (if is_nonempty_str (jget runtime ''observed_at'') then jget runtime ''observed_at'' else JStr now)"
  shows "gateway_status read_iso (JObj st) = Inr True"
proof -
  obtain is_saved d where view: "fallback_view str_of (sf_wifi files) (sf_ethernet files) (sf_rescue files) = (is_saved, d)"
    by fastforce
  obtain network where network: "jget runtime ''network'' = JObj network"
    using assms(4) by (cases "jget runtime ''network''") (simp_all add: validate_network_def)
  obtain devices where devices: "jget legacy ''devices'' = JList devices"
    and mdns: "jget legacy ''mdns'' = JObj mdns_record"
    using assms(2) by (auto simp: network_status_def bindE_eq_Inr Let_def split: if_splits)
  define observed where "observed = jset ''devices'' (JList devices) (jset ''mdns'' (JObj mdns_record) network)"
  have seen: "network_observed_state runtime legacy = Inr observed"
    by (simp add: network_observed_state_def network devices mdns observed_def)
  obtain second_wifi observed_at where st: "st = status_document (JStr fallback_epoch) (JInt 0) observed_at (JBool is_saved)
      (JBool is_saved) (JObj d) (JObj observed) (JObj [(''current'', JNull), (''latest'', JNull)])
      (JObj disabled_capability) second_wifi" and now: "gateway_datetime read_iso observed_at"
    using assms(1,9) by (auto simp: network_status_v1_def Let_def view seen split: json.splits)
  have "gateway_desired_state (JObj d) = Inr True" using assms(5-7) view by (rule fallback_desired_ok)
  moreover have "gateway_observed_state (JObj observed) = Inr True"
    unfolding observed_def using network_ok assms(3,4) network devices by metis
  ultimately show ?thesis
    unfolding st status_document_def
    using lower_uuid [OF assms(8)] capability_ok window_ok now
    by (simp add: gateway_status_def network_status_keys_def has_keys_def eq_str_def Let_def slot_published_def
        slot_status_def gateway_concurrency_capability_def)
qed

text \<open>\<open>nmcli\<close> reports a connection it does not manage as \<open>connected (externally)\<close>; the gateway then
  refuses the whole device table.\<close>

theorem external_connection_is_refused:
  "\<not> gateway_devices (JList (nm_device ''docker0:bridge:connected (externally)''))"
  by code_simp

text \<open>Repeated name servers pass the configuration check but not the gateway's.\<close>

theorem repeated_dns_is_refused:
  "static_dns [(''dns'', JList [JStr ''1.1.1.1'', JStr ''1.1.1.1''])] = Inr [''1.1.1.1'', ''1.1.1.1''] \<and>
   \<not> valid_dns (JList [JStr ''1.1.1.1'', JStr ''1.1.1.1''])"
proof -
  have "nat_digits 1 = ''1''" by (subst nat_digits.simps) (simp add: char_of_eq_iff)
  then have one: "ipv4_string 16843009 = ''1.1.1.1''" by (simp add: ipv4_string_def)
  then have "ipv4_address ''1.1.1.1'' = Some 16843009"
    using ipv4_roundtrip [of 16843009] by simp
  then show ?thesis by (simp add: static_dns_def jget_default_def one valid_dns_def)
qed

section \<open>A concrete status\<close>

definition sample_nmcli :: nmcli_result where
  "sample_nmcli = \<lparr>nm_returncode = 0, nm_stdout = ''wlan0:wifi:connected'' @ [CHR 0x0A] @ ''eth0:ethernet:unavailable'',
     nm_stderr = []\<rparr>"

definition sample_status_runtime :: jobject where
  "sample_status_runtime =
     (let port = JObj [(''state'', JStr ''disconnected''), (''interface'', JNull), (''addresses'', JList []), (''peer_or_ssid'', JNull)] in
      [(''observed_at'', JStr ''2026-01-02T03:04:05+00:00''),
       (''network'', JObj [(''ap'', port), (''wifi_client'', port), (''wired'', port), (''default_route'', JStr ''none'')])])"

definition sample_lkg :: jobject where
  "sample_lkg = [(''mode'', JStr ''wifi-client''), (''config'', JObj [(''mode'', JStr ''wifi-client''), (''ssid'', JStr ''Lab''),
     (''security'', JStr ''open'')])]"

definition sample_files :: status_files where
  "sample_files = \<lparr>sf_wifi = Inr (Some sample_lkg), sf_ethernet = Inr None, sf_rescue = Inr None\<rparr>"

lemma sample_lkg_saved: "saved_record sample_lkg"
proof -
  define c where "c = [(''mode'', JStr ''wifi-client''), (''ssid'', JStr ''Lab''), (''security'', JStr ''open'')]"
  have "validate_config c = Inr c" unfolding c_def by code_simp
  moreover have "distinct (config_dns c)" by (simp add: c_def config_dns_def)
  moreover have "jget sample_lkg ''config'' = JObj (safe_config c)" by (simp add: sample_lkg_def safe_config_def c_def)
  ultimately show ?thesis unfolding saved_record_def by blast
qed

theorem fallback_status_is_served_witness:
  "\<exists>st. jget st ''saved'' = JBool True \<and> gateway_status (\<lambda>s. Some (True, 0)) (JObj st) = Inr True"
proof -
  obtain legacy where legacy: "network_status (Inr sample_nmcli) = Inr legacy"
    and devices: "jget legacy ''devices'' = JList (concat (map nm_device (splitlines (nm_stdout sample_nmcli))))"
    and caps: "\<exists>c. jget legacy ''capabilities'' = JObj c" and mdns: "jget legacy ''mdns'' = JObj mdns_record"
    by (simp add: network_status_def Let_def sample_nmcli_def)
  have ok: "gateway_devices (JList (concat (map nm_device (splitlines (nm_stdout sample_nmcli)))))" by code_simp
  have net: "validate_network (jget sample_status_runtime ''network'') = Inr ()" by code_simp
  have files: "saved_file (sf_wifi sample_files)" "saved_file (sf_ethernet sample_files)" "saved_file (sf_rescue sample_files)"
    by (simp_all add: saved_file_def sample_files_def sample_lkg_saved)
  have view: "\<exists>d. fallback_view (\<lambda>v. []) (sf_wifi sample_files) (sf_ethernet sample_files) (sf_rescue sample_files) = (True, d)"
    by (simp add: fallback_view_def fallback_saved_state_def sample_files_def sample_lkg_def eq_str_def)
  obtain st where st: "network_status_v1 (\<lambda>v. []) [] ''0a1b2c3d-0000-4000-8000-000000000001'' (Inr None) sample_files
      legacy sample_status_runtime = Inr st" and "jget st ''saved'' = JBool True"
    using caps view mdns devices
    by (auto simp: network_status_v1_def Let_def network_observed_state_def status_document_def sample_status_runtime_def)
  moreover have "gateway_status (\<lambda>s. Some (True, 0)) (JObj st) = Inr True"
  proof (rule fallback_status_is_served [OF st legacy _ net files])
    show "gateway_devices (jget legacy ''devices'')" using ok devices by simp
    show "uuid_v4 ''0a1b2c3d-0000-4000-8000-000000000001''" by code_simp
  qed (simp add: gateway_datetime_def sample_status_runtime_def Let_def)
  ultimately show ?thesis by blast
qed

end
