(* ===== verification/CaptureLedger.thy ===== *)
theory CaptureLedger
  imports Persistence EventValidators Deletion
begin

text \<open>
  The durable command receipts of \<open>recording/coordinator.py\<close> and the capture half of
  \<open>StateDatabase\<close> in \<open>persistence.py\<close>.  A receipt is what the daemon answered to one
  idempotent command; the table \<open>capture_commands\<close> keeps one row per scope (principal, operation,
  idempotency key) in the order of its row ids.  A row holds either the printed form of a receipt
  or quarantined text.  \<open>json.loads\<close> and \<open>json.dumps\<close> on quarantined text are arguments; a SQLite
  transaction either commits as a whole or raises and changes nothing.
\<close>

type_synonym scope = "string \<times> string \<times> string"

datatype row_text = Printed json | Verbatim string

record capture_store =
  cs_tables :: database
  cs_rows :: "(scope \<times> row_text) list"

record json_text =
  jt_loads :: "string \<Rightarrow> json option"
  jt_dumps :: "json \<Rightarrow> string"

section \<open>Scopes\<close>

definition scope_json :: "scope \<Rightarrow> json" where
  "scope_json s = (case s of (p, opn, key) \<Rightarrow> JList [JStr p, JStr opn, JStr key])"

definition proper_scope :: "scope \<Rightarrow> bool" where
  "proper_scope s \<longleftrightarrow> (case s of (p, opn, key) \<Rightarrow> p \<noteq> [] \<and> opn \<noteq> [] \<and> key \<noteq> [])"

definition parse_scope :: "json \<Rightarrow> scope option" where
  "parse_scope v =
     (case v of
        JList [JStr p, JStr opn, JStr key] \<Rightarrow>
          if proper_scope (p, opn, key) then Some (p, opn, key) else None
      | _ \<Rightarrow> None)"

lemma parse_scope_json [simp]: "proper_scope s \<Longrightarrow> parse_scope (scope_json s) = Some s"
  by (cases s) (simp add: parse_scope_def scope_json_def)

lemma parse_scope_proper: "parse_scope v = Some s \<Longrightarrow> proper_scope s \<and> v = scope_json s"
  by (auto simp: parse_scope_def scope_json_def split: json.splits list.splits if_splits)

definition item_scope :: "jobject \<Rightarrow> json list" where
  "item_scope d = [jget d ''principal_id'', jget d ''operation'', jget d ''idempotency_key'']"

section \<open>put_capture_state\<close>

definition read_quarantined :: "json \<Rightarrow> (scope \<times> row_text option) res" where
  "read_quarantined entry =
     (case entry of
        JObj d \<Rightarrow>
          (case parse_scope (jget d ''scope'') of
             None \<Rightarrow> Inl persistence_error
           | Some s \<Rightarrow> Inr (s, case jget d ''receipt'' of
               JNull \<Rightarrow> None | JStr t \<Rightarrow> Some (Verbatim t) | v \<Rightarrow> Some (Printed v)))
      | _ \<Rightarrow> Inl persistence_error)"

fun mapE :: "('a \<Rightarrow> 'b res) \<Rightarrow> 'a list \<Rightarrow> 'b list res" where
  "mapE f [] = Inr []"
| "mapE f (x # xs) = bindE (f x) (\<lambda>y. bindE (mapE f xs) (\<lambda>ys. Inr (y # ys)))"

definition quarantined_entries :: "jobject \<Rightarrow> (scope \<times> row_text option) list res" where
  "quarantined_entries value =
     (case map_of value ''invalid_commands'' of
        None \<Rightarrow> Inr []
      | Some (JList entries) \<Rightarrow> mapE read_quarantined entries
      | Some _ \<Rightarrow> Inl persistence_error)"

definition compact_value :: "(scope \<times> row_text option) list \<Rightarrow> jobject \<Rightarrow> jobject" where
  "compact_value entries value =
     (if map_of value ''invalid_commands'' = None then value
      else jset ''invalid_commands'' (JList (map (\<lambda>(s, e). JObj [(''scope'', scope_json s)]) entries)) value)"

text \<open>\<open>INSERT OR IGNORE\<close>, \<open>INSERT OR REPLACE\<close> and \<open>DELETE\<close> on the rows of \<open>capture_commands\<close>; a
  replaced row gets a new, largest row id.\<close>

definition insert_ignore :: "scope \<times> row_text \<Rightarrow> (scope \<times> row_text) list \<Rightarrow> (scope \<times> row_text) list" where
  "insert_ignore row rows = (if fst row \<in> fst ` set rows then rows else rows @ [row])"

definition insert_replace :: "scope \<times> row_text \<Rightarrow> (scope \<times> row_text) list \<Rightarrow> (scope \<times> row_text) list" where
  "insert_replace row rows = filter (\<lambda>r. fst r \<noteq> fst row) rows @ [row]"

definition delete_rows :: "scope list \<Rightarrow> (scope \<times> row_text) list \<Rightarrow> (scope \<times> row_text) list" where
  "delete_rows ss rows = filter (\<lambda>r. fst r \<notin> set ss) rows"

definition evidence_rows :: "(scope \<times> row_text option) list \<Rightarrow> (scope \<times> row_text) list" where
  "evidence_rows entries = concat (map (\<lambda>(s, e). case e of None \<Rightarrow> [] | Some t \<Rightarrow> [(s, t)]) entries)"

definition put_capture_state ::
  "string \<Rightarrow> jobject \<Rightarrow> (scope \<times> jobject) list \<Rightarrow> scope list \<Rightarrow> jobject option \<Rightarrow> capture_store
     \<Rightarrow> capture_store res" where
  "put_capture_state now value commands removed focus db =
     bindE (quarantined_entries value) (\<lambda>entries.
       let quarantined = map fst entries in
       guardE (list_ex (\<lambda>c. fst c \<in> set quarantined) commands) persistence_error
        (bindE (put_document ''capture'' (canon (JObj (compact_value entries value))) now False (cs_tables db))
          (\<lambda>tables.
            let rows1 = fold insert_ignore (evidence_rows entries) (cs_rows db);
                rows2 = delete_rows (filter (\<lambda>s. s \<notin> set quarantined) removed) rows1;
                rows3 = fold (\<lambda>(s, c). insert_replace (s, Printed (canon (JObj c)))) commands rows2 in
            bindE (case focus of
                     None \<Rightarrow> Inr tables
                   | Some f \<Rightarrow> put_document ''camera_focus'' (canon (JObj f)) now True tables)
              (\<lambda>tables'. Inr \<lparr>cs_tables = tables', cs_rows = rows3\<rparr>))))"

section \<open>capture_state\<close>

definition row_item :: "json_text \<Rightarrow> row_text \<Rightarrow> json option" where
  "row_item J t = (case t of Printed v \<Rightarrow> Some v | Verbatim s \<Rightarrow> jt_loads J s)"

definition row_evidence :: "json_text \<Rightarrow> row_text \<Rightarrow> string" where
  "row_evidence J t = (case t of Printed v \<Rightarrow> jt_dumps J v | Verbatim s \<Rightarrow> s)"

definition read_row ::
  "json_text \<Rightarrow> scope \<times> row_text \<Rightarrow> json list \<times> json list \<Rightarrow> (json list \<times> json list) res" where
  "read_row J row acc =
     (case (row, acc) of ((s, t), (items, invalid)) \<Rightarrow>
        guardE (\<not> proper_scope s) persistence_error
         (case row_item J t of
            Some (JObj d) \<Rightarrow>
              if JList (item_scope d) = scope_json s then Inr (items @ [JObj d], invalid)
              else Inr (items, invalid @ [JObj [(''scope'', scope_json s), (''receipt'', JStr (row_evidence J t))]])
          | _ \<Rightarrow>
              Inr (items, invalid @ [JObj [(''scope'', scope_json s), (''receipt'', JStr (row_evidence J t))]])))"

definition capture_state :: "json_text \<Rightarrow> capture_store \<Rightarrow> jobject res" where
  "capture_state J db =
     (case documents (cs_tables db) ''capture'' of
        None \<Rightarrow> Inl persistence_error
      | Some row \<Rightarrow>
          (case body row of
             JObj value \<Rightarrow>
               if map_of value ''commands'' \<noteq> None then Inr value
               else
                 (case (case map_of value ''invalid_commands'' of None \<Rightarrow> JList [] | Some v \<Rightarrow> v) of
                    JList invalid \<Rightarrow>
                      bindE (foldE (read_row J) (cs_rows db) ([], invalid)) (\<lambda>(items, invalid').
                        let value' = jset ''commands'' (JList items) value in
                        Inr (if invalid' = [] then value'
                             else jset ''invalid_commands'' (JList invalid') value'))
                  | _ \<Rightarrow> Inl persistence_error)
           | _ \<Rightarrow> Inl persistence_error))"

section \<open>Receipts\<close>

text \<open>A receipt is compared by object identity in the code; \<open>ct_id\<close> is that identity.\<close>

record answer =
  an_status :: int
  an_body :: json
  an_replayed :: bool

record receipt =
  ct_id :: nat
  ct_canonical :: string
  ct_answer :: answer

definition receipt_document :: "scope \<Rightarrow> receipt \<Rightarrow> jobject" where
  "receipt_document s r =
     (case s of (p, opn, key) \<Rightarrow>
        [(''principal_id'', JStr p), (''operation'', JStr opn), (''idempotency_key'', JStr key),
         (''canonical_body'', JStr (ct_canonical r)), (''status'', JInt (an_status (ct_answer r))),
         (''body'', an_body (ct_answer r))])"

lemma item_scope_document [simp]: "JList (item_scope (receipt_document s r)) = scope_json s"
  by (cases s) (simp add: item_scope_def receipt_document_def scope_json_def)

subsection \<open>_validated_command_receipt\<close>

definition receipt_keys :: "string list" where
  "receipt_keys = [''principal_id'', ''operation'', ''idempotency_key'', ''canonical_body'', ''status'', ''body'']"

definition failed_session :: "json \<Rightarrow> string option" where
  "failed_session v =
     (case v of
        JObj d \<Rightarrow>
          if has_keys d [''session_id'', ''error''] \<and> is_nonempty_str (jget d ''error'')
          then (case jget d ''session_id'' of JStr s \<Rightarrow> Some s | _ \<Rightarrow> None) else None
      | _ \<Rightarrow> None)"

definition text_of :: "json \<Rightarrow> string" where
  "text_of v = (case v of JStr s \<Rightarrow> s | _ \<Rightarrow> [])"

definition requested_sessions :: "json \<Rightarrow> string list" where
  "requested_sessions request =
     (case request of
        JObj d \<Rightarrow>
          (case jget d ''sessions'' of
             JList items \<Rightarrow> map (\<lambda>v. case v of JObj e \<Rightarrow> text_of (jget e ''session_id'') | _ \<Rightarrow> []) items
           | _ \<Rightarrow> [])
      | _ \<Rightarrow> [])"

definition valid_delete_answer :: "json \<Rightarrow> json \<Rightarrow> bool" where
  "valid_delete_answer request answer_body =
     (valid_delete_request request \<and>
      (case answer_body of
         JObj d \<Rightarrow>
           has_keys d [''schema'', ''deleted_session_ids'', ''failed_sessions''] \<and>
           eq_str (jget d ''schema'') ''ylx.session-delete-result.v1'' \<and>
           (case (jget d ''deleted_session_ids'', jget d ''failed_sessions'') of
              (JList gone, JList failures) \<Rightarrow>
                list_all is_str gone \<and> list_all (\<lambda>f. failed_session f \<noteq> None) failures \<and>
                (let sessions = map text_of gone @ map (\<lambda>f. the (failed_session f)) failures in
                 distinct sessions \<and> set sessions = set (requested_sessions request))
            | _ \<Rightarrow> False)
       | _ \<Rightarrow> False))"

definition rejected_receipt :: "'a res" where
  "rejected_receipt = Inl ValueError"

text \<open>The body a receipt of an operation may have; a status document that is not valid raises what
  its validator raises.\<close>

definition valid_answer_body :: "event_formats \<Rightarrow> json \<Rightarrow> string \<Rightarrow> int \<Rightarrow> json \<Rightarrow> unit res" where
  "valid_answer_body F request opn status_code answer_body =
     (if (opn = ''start'' \<or> opn = ''stop'') \<and> status_code = 202 then validate_capture_status F ''source'' answer_body
      else if opn = ''stop'' \<and> status_code = 204 \<and> answer_body = JNull then Inr ()
      else if opn = ''set_camera_focus'' \<and> status_code = 200 then
        (if valid_camera_focus_status answer_body then Inr () else rejected_receipt)
      else if opn = ''delete'' \<and> status_code = 200 then
        (if valid_delete_answer request answer_body then Inr () else rejected_receipt)
      else rejected_receipt)"

definition validated_receipt :: "json_text \<Rightarrow> event_formats \<Rightarrow> jobject \<Rightarrow> (string \<times> answer) res" where
  "validated_receipt J F item =
     (if \<not> has_keys item receipt_keys then rejected_receipt
      else
        (case (jget item ''canonical_body'', jget item ''operation'') of
           (JStr canonical_text, JStr opn) \<Rightarrow>
             if canonical_text = [] then rejected_receipt
             else
               (case jt_loads J canonical_text of
                  Some (JObj request) \<Rightarrow>
                    if \<not> finite_json (JObj request) \<or> \<not> finite_json (jget item ''body'') then rejected_receipt
                    else
                      (case jget item ''status'' of
                         JInt code \<Rightarrow>
                           bindE (valid_answer_body F (JObj request) opn code (jget item ''body''))
                             (\<lambda>_. Inr (canonical_text,
                                \<lparr>an_status = code, an_body = jget item ''body'', an_replayed = False\<rparr>))
                       | _ \<Rightarrow> rejected_receipt)
                | _ \<Rightarrow> rejected_receipt)
         | _ \<Rightarrow> rejected_receipt))"

section \<open>The ledger in memory\<close>

text \<open>The fields of \<open>CaptureCoordinator\<close> that \<open>_persist_local_state\<close> works on.  \<open>lg_focus\<close> is
  \<open>_focus_to_persist\<close> with its identity.\<close>

type_synonym receipts = "(scope \<times> receipt) list"

record ledger =
  lg_commands :: receipts
  lg_persisted :: receipts
  lg_invalid :: "(scope \<times> json) list"
  lg_write_seq :: nat
  lg_persisted_seq :: nat
  lg_focus :: "(nat \<times> jobject) option"
  lg_persisted_focus :: "(nat \<times> jobject) option"
  lg_stop_commit :: "scope option"
  lg_fresh :: nat

definition new_ledger :: ledger where
  "new_ledger = \<lparr>lg_commands = [], lg_persisted = [], lg_invalid = [], lg_write_seq = 0, lg_persisted_seq = 0,
     lg_focus = None, lg_persisted_focus = None, lg_stop_commit = None, lg_fresh = 0\<rparr>"

definition remembered :: "nat" where
  "remembered = 1024"

text \<open>\<open>_cache_command\<close>: the oldest receipts beyond 1024 are forgotten.\<close>

definition cache_command :: "scope \<Rightarrow> string \<Rightarrow> answer \<Rightarrow> ledger \<Rightarrow> ledger" where
  "cache_command s canonical_text a lg =
     (let cs = AList.update s \<lparr>ct_id = lg_fresh lg, ct_canonical = canonical_text, ct_answer = a\<rparr> (lg_commands lg) in
      lg\<lparr>lg_commands := drop (length cs - remembered) cs, lg_fresh := lg_fresh lg + 1\<rparr>)"

text \<open>\<open>_persist_local_state\<close>: a snapshot under the command lock, and later its write.\<close>

record pending_write =
  pw_seq :: nat
  pw_value :: jobject
  pw_commands :: receipts
  pw_focus :: "(nat \<times> jobject) option"
  pw_stop :: "scope option"

definition invalid_entries :: "(scope \<times> json) list \<Rightarrow> json" where
  "invalid_entries inv_cs =
     JList (map (\<lambda>(s, r). JObj ((''scope'', scope_json s) # (if r = JNull then [] else [(''receipt'', r)]))) inv_cs)"

definition take_snapshot :: "jobject \<Rightarrow> ledger \<Rightarrow> pending_write \<times> ledger" where
  "take_snapshot lifecycle lg =
     (let n = lg_write_seq lg + 1 in
      (\<lparr>pw_seq = n,
        pw_value = (''schema'', JStr ''ylx.capture-coordinator-state.v1'') #
          (''invalid_commands'', invalid_entries (lg_invalid lg)) # lifecycle,
        pw_commands = lg_commands lg, pw_focus = lg_focus lg, pw_stop = lg_stop_commit lg\<rparr>,
       lg\<lparr>lg_write_seq := n\<rparr>))"

definition same_receipt :: "receipt option \<Rightarrow> receipt \<Rightarrow> bool" where
  "same_receipt p r = (case p of None \<Rightarrow> False | Some q \<Rightarrow> ct_id q = ct_id r)"

definition new_receipts :: "receipts \<Rightarrow> receipts \<Rightarrow> (scope \<times> jobject) list" where
  "new_receipts persisted commands =
     map (\<lambda>(s, r). (s, receipt_document s r))
       (filter (\<lambda>(s, r). \<not> same_receipt (map_of persisted s) r) commands)"

definition dropped_scopes :: "receipts \<Rightarrow> receipts \<Rightarrow> scope list" where
  "dropped_scopes persisted commands = filter (\<lambda>s. s \<notin> fst ` set commands) (map fst persisted)"

definition same_focus :: "(nat \<times> jobject) option \<Rightarrow> (nat \<times> jobject) option \<Rightarrow> bool" where
  "same_focus a b \<longleftrightarrow> map_option fst a = map_option fst b"

definition focus_to_write :: "pending_write \<Rightarrow> ledger \<Rightarrow> jobject option" where
  "focus_to_write w lg =
     (case pw_focus w of
        None \<Rightarrow> None
      | Some f \<Rightarrow> if same_focus (pw_focus w) (lg_persisted_focus lg) then None else Some (snd f))"

text \<open>\<open>fault\<close> is what SQLite raised, if it did.\<close>

definition write_snapshot ::
  "string \<Rightarrow> pyexc option \<Rightarrow> pending_write \<Rightarrow> ledger \<times> capture_store \<Rightarrow> unit res \<times> ledger \<times> capture_store" where
  "write_snapshot now fault w s =
     (case s of (lg, db) \<Rightarrow>
        if pw_seq w \<le> lg_persisted_seq lg then (Inr (), lg, db)
        else tryS (case fault of
                     Some e \<Rightarrow> Inl e
                   | None \<Rightarrow>
                       put_capture_state now (pw_value w) (new_receipts (lg_persisted lg) (pw_commands w))
                         (dropped_scopes (lg_persisted lg) (pw_commands w)) (focus_to_write w lg) db) (lg, db)
               (\<lambda>db'. (Inr (),
                  lg\<lparr>lg_persisted_focus := pw_focus w, lg_persisted := pw_commands w,
                     lg_persisted_seq := pw_seq w,
                     lg_stop_commit :=
                       (if pw_stop w \<noteq> None \<and> lg_stop_commit lg = pw_stop w \<and>
                           jget (pw_value w) ''active_session'' = JNull then None
                        else lg_stop_commit lg),
                     lg_invalid := map (\<lambda>(s, r). (s, JNull)) (lg_invalid lg)\<rparr>, db')))"

section \<open>Restoring the receipts\<close>

text \<open>The quarantined identities and the receipts of \<open>_restore_local_state\<close>.\<close>

definition restore_invalid :: "json \<Rightarrow> (scope \<times> json) list \<Rightarrow> (scope \<times> json) list res" where
  "restore_invalid entry acc =
     (case entry of
        JObj d \<Rightarrow>
          (case parse_scope (jget d ''scope'') of
             Some s \<Rightarrow> Inr (AList.update s (jget d ''receipt'') acc)
           | None \<Rightarrow> Inl persistence_error)
      | _ \<Rightarrow> Inl persistence_error)"

definition restore_command :: "json_text \<Rightarrow> event_formats \<Rightarrow> json \<Rightarrow> ledger \<Rightarrow> ledger res" where
  "restore_command J F item lg =
     (case item of
        JObj d \<Rightarrow>
          (case parse_scope (JList (item_scope d)) of
             None \<Rightarrow> Inl persistence_error
           | Some s \<Rightarrow>
               (case validated_receipt J F d of
                  Inl e \<Rightarrow>
                    Inr (lg\<lparr>lg_invalid := AList.update s (JStr (jt_dumps J item)) (lg_invalid lg),
                           lg_commands := AList.delete s (lg_commands lg)\<rparr>)
                | Inr (c, a) \<Rightarrow>
                    Inr (if s \<in> fst ` set (lg_invalid lg) then lg
                         else lg\<lparr>lg_commands :=
                                   AList.update s \<lparr>ct_id = lg_fresh lg, ct_canonical = c, ct_answer = a\<rparr> (lg_commands lg),
                                 lg_fresh := lg_fresh lg + 1\<rparr>)))
      | _ \<Rightarrow> Inl persistence_error)"

definition restore_receipts :: "json_text \<Rightarrow> event_formats \<Rightarrow> jobject \<Rightarrow> ledger \<Rightarrow> ledger res" where
  "restore_receipts J F persisted lg =
     (case (case map_of persisted ''invalid_commands'' of None \<Rightarrow> JList [] | Some v \<Rightarrow> v) of
        JList entries \<Rightarrow>
          bindE (foldE restore_invalid entries (lg_invalid lg)) (\<lambda>bad.
            (case map_of persisted ''commands'' of
               None \<Rightarrow> Inr (lg\<lparr>lg_invalid := bad\<rparr>)
             | Some (JList items) \<Rightarrow>
                 foldE (restore_command J F) (drop (length items - remembered) items) (lg\<lparr>lg_invalid := bad\<rparr>)
             | Some _ \<Rightarrow> Inl persistence_error))
      | _ \<Rightarrow> Inl persistence_error)"

end
