(* ===== verification/CaptureCoordinator.thy ===== *)
theory CaptureCoordinator
  imports CaptureLedger
begin

text \<open>
  The state and the command side of \<open>CaptureCoordinator\<close> (\<open>recording/coordinator.py\<close>): persisting,
  status, idempotent commands and the start of a recording.  The recorder, the media sources, the
  mounted volume and the clocks answer through arguments.  A plan stands for the pair of fields
  \<open>_active\<close> and \<open>_active_plan\<close>, which the code always writes together; plans are compared by their
  fresh session id.  Each function is one critical section of the command lock.
\<close>

section \<open>State\<close>

record plan =
  pl_session :: string
  pl_volume :: string
  pl_generation :: string
  pl_mode :: string
  pl_name :: string
  pl_take :: string
  pl_sequence :: int
  pl_continues :: "string option"

record admission =
  ad_volume :: string
  ad_generation :: string
  ad_device :: int
  ad_mount :: string

record failure =
  fl_code :: string
  fl_message :: string

record coordinator =
  co_ledger :: ledger
  co_store :: capture_store
  co_epoch :: string
  co_revision :: int
  co_admission :: "admission option"
  co_binding :: json
  co_released :: bool
  co_media_lost :: bool
  co_closing :: bool
  co_active :: "plan option"
  co_recovery :: json
  co_retained :: jobject
  co_stop :: "scope option"
  co_acceptance :: "scope option"
  co_worker :: "nat option"
  co_reason :: json
  co_failing :: "plan option"
  co_projection :: "jobject option"
  co_uncommitted :: "plan option"
  co_source_failure :: "failure option"
  co_cached :: "jobject option"
  co_swap :: "jobject option"
  co_swap_failure :: "jobject option"
  co_swap_resource :: "jobject option"
  co_swap_staged :: "jobject option"
  co_swap_clear :: bool
  co_open :: int
  co_lease :: bool
  co_timer :: "(plan \<times> rat \<times> int) option"
  co_workers :: nat

definition device_error :: "string \<Rightarrow> pyexc" where
  "device_error code = AppError ''DeviceRecordingError'' code False"

definition provider_fault :: "string \<Rightarrow> bool \<Rightarrow> pyexc" where
  "provider_fault code retry = AppError ''ProviderError'' code retry"

definition or_null :: "jobject option \<Rightarrow> json" where
  "or_null d = (case d of None \<Rightarrow> JNull | Some x \<Rightarrow> JObj x)"

text \<open>\<open>_next_revision\<close>.\<close>

definition next_capture_revision :: "coordinator \<Rightarrow> coordinator" where
  "next_capture_revision co = co\<lparr>co_revision := co_revision co + 1\<rparr>"

section \<open>Persisting\<close>

definition binding_of :: "admission \<Rightarrow> json" where
  "binding_of a =
     JObj [(''volume_id'', JStr (ad_volume a)), (''generation_id'', JStr (ad_generation a)),
           (''device'', JInt (ad_device a)), (''mount_identity'', JStr (ad_mount a))]"

definition active_identity :: "coordinator \<Rightarrow> json" where
  "active_identity co =
     (case co_active co of
        None \<Rightarrow> co_recovery co
      | Some p \<Rightarrow>
          JObj [(''session_id'', JStr (pl_session p)), (''volume_id'', JStr (pl_volume p)),
                (''generation_id'', JStr (pl_generation p))])"

definition lifecycle_value :: "coordinator \<Rightarrow> jobject" where
  "lifecycle_value co =
     [(''authority_epoch'', JStr (co_epoch co)), (''source_revision'', JInt (co_revision co)),
      (''volume_binding'', co_binding co), (''active_session'', active_identity co),
      (''retained'', JObj (co_retained co)),
      (''pending_safe_swap'', if co_swap_staged co \<noteq> None then JNull else or_null (co_swap co)),
      (''pending_safe_swap_failure'',
         if co_swap_staged co \<noteq> None \<or> co_swap_clear co then JNull else or_null (co_swap_failure co)),
      (''safe_swap_resource'', or_null (if co_swap_staged co \<noteq> None then co_swap_staged co else co_swap_resource co))]"

text \<open>\<open>_local_state_write\<close>: the snapshot of the state, and the binding it remembers.\<close>

definition local_state_write :: "coordinator \<Rightarrow> pending_write \<times> coordinator" where
  "local_state_write co =
     (let co1 = (case co_admission co of None \<Rightarrow> co | Some a \<Rightarrow> co\<lparr>co_binding := binding_of a\<rparr>) in
      case take_snapshot (lifecycle_value co1) (co_ledger co1) of (w, lg) \<Rightarrow> (w, co1\<lparr>co_ledger := lg\<rparr>))"

definition write_state :: "string \<Rightarrow> pyexc option \<Rightarrow> pending_write \<Rightarrow> coordinator \<Rightarrow> unit res \<times> coordinator" where
  "write_state now fault w co =
     (case write_snapshot now fault w (co_ledger co, co_store co) of
        (r, lg, db) \<Rightarrow> (r, co\<lparr>co_ledger := lg, co_store := db\<rparr>))"

text \<open>\<open>_persist_local_state\<close> with nothing in between, as where the caller holds the command lock.\<close>

definition persist_state :: "string \<Rightarrow> pyexc option \<Rightarrow> coordinator \<Rightarrow> unit res \<times> coordinator" where
  "persist_state now fault co = (case local_state_write co of (w, co1) \<Rightarrow> write_state now fault w co1)"

definition remember_answer :: "scope \<Rightarrow> string \<Rightarrow> answer \<Rightarrow> coordinator \<Rightarrow> coordinator" where
  "remember_answer s c a co = co\<lparr>co_ledger := cache_command s c a (co_ledger co)\<rparr>"

section \<open>Status\<close>

text \<open>What the recorder, the hardware and the clocks show when a status is read.\<close>

record status_view =
  vw_recording :: "jobject option"
  vw_phase :: string
  vw_storage :: "(json \<times> json \<times> json) option"
  vw_runtime :: jobject
  vw_live_imu :: json

definition with_storage :: "status_view \<Rightarrow> jobject \<Rightarrow> jobject" where
  "with_storage V st =
     (case vw_storage V of
        None \<Rightarrow> st
      | Some (remaining, mount_status, writable) \<Rightarrow>
          jset ''storage''
            (JObj (jset ''writable'' writable (jset ''status'' mount_status (jset ''remaining_bytes'' remaining
               (case jget st ''storage'' of JObj d \<Rightarrow> d | _ \<Rightarrow> []))))) st)"

definition projected_state :: "status_view \<Rightarrow> coordinator \<Rightarrow> jobject option" where
  "projected_state V co =
     (case co_projection co of
        Some p \<Rightarrow> Some p
      | None \<Rightarrow>
          (case vw_recording V of
             None \<Rightarrow> None
           | Some st \<Rightarrow> Some (if eq_str (jget st ''state'') ''recording'' then with_storage V st else st)))"

definition int_of :: "json \<Rightarrow> int" where
  "int_of v = (case v of JInt i \<Rightarrow> i | _ \<Rightarrow> 0)"

text \<open>The newest retained outcome of this authority at the current revision.\<close>

definition visible_outcome :: "coordinator \<Rightarrow> json" where
  "visible_outcome co =
     (case find (\<lambda>(s, v). case v of
              JObj d \<Rightarrow>
                (case jget d ''recording_state'' of
                   JObj st \<Rightarrow> eq_str (jget st ''authority_epoch'') (co_epoch co) \<and>
                     eq_num (jget st ''state_revision'') (co_revision co)
                 | _ \<Rightarrow> False)
            | _ \<Rightarrow> False) (rev (co_retained co)) of
        None \<Rightarrow> JNull
      | Some (s, v) \<Rightarrow> v)"

text \<open>\<open>_recording_snapshot\<close> of an admitted volume; it remembers the progress it showed.\<close>

definition recording_snapshot ::
  "status_view \<Rightarrow> coordinator \<Rightarrow> (int \<times> string \<times> json \<times> json) \<times> coordinator" where
  "recording_snapshot V co =
     (case co_active co of
        Some p \<Rightarrow>
          (case projected_state V co of
             None \<Rightarrow> ((co_revision co, ''blocked'', JNull, JNull), co)
           | Some st \<Rightarrow>
               ((int_of (jget st ''state_revision''), text_of (jget st ''state''),
                 JObj [(''generation_id'', JStr (pl_generation p)), (''recording_state'', JObj st)], JNull),
                if co_projection co = None then co\<lparr>co_cached := Some st\<rparr> else co))
      | None \<Rightarrow> ((co_revision co, ''idle'', JNull, visible_outcome co), co))"

definition shown_imu :: "status_view \<Rightarrow> json \<Rightarrow> coordinator \<Rightarrow> json" where
  "shown_imu V active co =
     (case vw_live_imu V of
        JObj d \<Rightarrow>
          if (active = JNull \<or> co_projection co \<noteq> None \<or> (co_active co \<noteq> None \<and> vw_phase V = ''sealed'')) \<and>
             jget d ''session_id'' \<noteq> JNull
          then JNull else JObj d
      | v \<Rightarrow> v)"

definition capture_status :: "status_view \<Rightarrow> coordinator \<Rightarrow> json \<times> coordinator" where
  "capture_status V co =
     (case recording_snapshot V co of
        ((rev_no, device_state, active, retained), co1) \<Rightarrow>
          (JObj [(''schema'', JStr ''ylx.capture-status.v2''), (''authority_epoch'', JStr (co_epoch co1)),
                 (''source_revision'', JInt rev_no),
                 (''snapshot'', JObj [(''schema'', JStr ''ylx.capture-snapshot-event.v2''),
                    (''device_state'', JStr device_state), (''active_recording'', active),
                    (''retained_unsuccessful'', retained),
                    (''runtime'', JObj (jset ''live_imu'' (shown_imu V active co1) (vw_runtime V)))])], co1))"

section \<open>Idempotent commands\<close>

record capture_command =
  cc_principal :: string
  cc_key :: string
  cc_body :: jobject
  cc_canonical :: string

definition command_scope :: "string \<Rightarrow> capture_command \<Rightarrow> scope" where
  "command_scope opn cmd = (cc_principal cmd, opn, cc_key cmd)"

definition require_valid_receipt :: "scope \<Rightarrow> coordinator \<Rightarrow> unit res" where
  "require_valid_receipt s co =
     guardE (s \<in> fst ` set (lg_invalid (co_ledger co))) (provider_fault ''command_receipt_invalid'' False) (Inr ())"

definition durable_receipt :: "scope \<Rightarrow> receipt \<Rightarrow> coordinator \<Rightarrow> bool" where
  "durable_receipt s r co = same_receipt (map_of (lg_persisted (co_ledger co)) s) r"

definition replayed :: "answer \<Rightarrow> answer" where
  "replayed a = a\<lparr>an_replayed := True\<rparr>"

definition stopping :: "coordinator \<Rightarrow> bool" where
  "stopping co \<longleftrightarrow> co_stop co \<noteq> None \<or> lg_stop_commit (co_ledger co) \<noteq> None \<or> co_acceptance co \<noteq> None"

definition idempotent ::
  "string \<Rightarrow> capture_command \<Rightarrow> (coordinator \<Rightarrow> answer res \<times> coordinator) \<Rightarrow> string \<Rightarrow> pyexc option \<Rightarrow> coordinator
     \<Rightarrow> answer res \<times> coordinator" where
  "idempotent opn cmd execute now fault co =
     (let s = command_scope opn cmd; previous = map_of (lg_commands (co_ledger co)) s in
      tryS (require_valid_receipt s co) co (\<lambda>_.
        if stopping co \<and> (case previous of None \<Rightarrow> True | Some r \<Rightarrow> \<not> durable_receipt s r co)
        then (Inl (provider_fault ''capture_busy'' True), co)
        else (case previous of
          Some r \<Rightarrow>
            if ct_canonical r \<noteq> cc_canonical cmd then (Inl (provider_fault ''idempotency_conflict'' False), co)
            else if durable_receipt s r co then (Inr (replayed (ct_answer r)), co)
            else andS (persist_state now fault co) (\<lambda>co1. (Inr (replayed (ct_answer r)), co1))
        | None \<Rightarrow>
            if co_failing co \<noteq> None \<or> co_projection co \<noteq> None \<or> co_worker co \<noteq> None \<or> co_closing co
            then (Inl (provider_fault ''capture_busy'' False), co)
            else (case execute co of
                (Inl e, co1) \<Rightarrow> (Inl e, co1)
              | (Inr a, co1) \<Rightarrow>
                  andS (persist_state now fault (remember_answer s (cc_canonical cmd) a co1)) (\<lambda>co2. (Inr a, co2))))))"

section \<open>Checkpoints of the recorder\<close>

definition storage_error :: "pyexc \<Rightarrow> bool" where
  "storage_error e \<longleftrightarrow> e \<in> {OSError, TimeoutError, DatabaseError} \<or> (\<exists>c r. e = AppError ''PersistenceError'' c r)"

definition recording_state_changed ::
  "plan \<Rightarrow> jobject \<Rightarrow> string \<Rightarrow> pyexc option \<Rightarrow> coordinator \<Rightarrow> unit res \<times> coordinator" where
  "recording_state_changed p st now fault co =
     (let recovering = co_active co = Some p \<and> co_failing co \<noteq> None;
          co1 = (if co_active co = Some p then co\<lparr>co_cached := Some st\<rparr> else co) in
      catchS (\<lambda>e. storage_error e \<and> recovering) (persist_state now fault co1) (\<lambda>e co2. (Inr (), co2)))"

text \<open>The recorder reports each of its states through the coordinator's revision counter and state
  sink; a checkpoint is the reported document, the time, and what SQLite raised.\<close>

record checkpoint =
  cp_state :: jobject
  cp_now :: string
  cp_fault :: "pyexc option"

fun report_states :: "plan \<Rightarrow> checkpoint list \<Rightarrow> coordinator \<Rightarrow> unit res \<times> coordinator" where
  "report_states p [] co = (Inr (), co)"
| "report_states p (c # cs) co =
     (let co1 = next_capture_revision co in
      andS (recording_state_changed p (jset ''state_revision'' (JInt (co_revision co1)) (cp_state c)) (cp_now c) (cp_fault c) co1)
        (report_states p cs))"

section \<open>The volume\<close>

text \<open>\<open>mp_mounted\<close> is \<open>None\<close> when looking at the mount point raised; \<open>mp_cached\<close> says that a capacity
  younger than a quarter of a second is at hand, \<open>mp_capacity\<close> what reading it anew would do.\<close>

record mount_probe =
  mp_mounted :: "bool option"
  mp_cached :: bool
  mp_capacity :: "unit res"

definition check_generation ::
  "(coordinator \<Rightarrow> admission res \<times> coordinator) \<Rightarrow> mount_probe \<Rightarrow> string option \<Rightarrow> bool \<Rightarrow> coordinator
     \<Rightarrow> unit res \<times> coordinator" where
  "check_generation admit probe gen force co =
     (case (case co_admission co of Some a \<Rightarrow> (Inr a, co) | None \<Rightarrow> admit co) of
        (Inl e, co1) \<Rightarrow> (Inl e, co1)
      | (Inr a, co1) \<Rightarrow>
          if gen \<noteq> None \<and> gen \<noteq> Some (ad_generation a) then (Inl (device_error ''stale_generation''), co1)
          else if co_released co1 then (Inl (device_error ''volume_released''), co1)
          else if co_media_lost co1 then (Inl (device_error ''media_lost''), co1)
          else
            (case mp_mounted probe of
               None \<Rightarrow> (Inl (device_error ''media_lost''), co1)
             | Some mounted \<Rightarrow>
                 if \<not> mounted then (Inl (device_error ''media_lost''), co1\<lparr>co_media_lost := True\<rparr>)
                 else if \<not> force \<and> mp_cached probe then (Inr (), co1)
                 else (case mp_capacity probe of
                     Inr u \<Rightarrow> (Inr (), co1)
                   | Inl e \<Rightarrow>
                       if e = device_error ''media_lost'' then (Inl e, co1\<lparr>co_media_lost := True\<rparr>)
                       else if e = OSError then (Inl (device_error ''media_lost''), co1)
                       else (Inl e, co1))))"

section \<open>Starting a recording\<close>

text \<open>\<open>en_previous\<close> is the take of the sealed session that is to be continued, if there is one;
  \<open>en_recover\<close> is the deferred recovery of unfinished sessions with the check after it.\<close>

record start_env =
  en_timer_valid :: bool
  en_timer :: "int option"
  en_calibration :: bool
  en_camera :: "unit res"
  en_lease :: "unit res"
  en_network :: "jobject option"
  en_admit :: "coordinator \<Rightarrow> admission res \<times> coordinator"
  en_probe :: mount_probe
  en_reserve :: "unit res"
  en_recover :: "coordinator \<Rightarrow> unit res \<times> coordinator"
  en_previous :: "string \<Rightarrow> (string \<times> int) option"
  en_take_id :: string
  en_session_id :: string
  en_label :: string
  en_monotonic :: rat
  en_states :: "checkpoint list"
  en_started :: "unit res"
  en_recorder_phase :: string
  en_fail_states :: "checkpoint list"
  en_failed_state :: "jobject option"
  en_now :: string
  en_fault :: "pyexc option"
  en_view :: status_view

definition network_idle :: "jobject option \<Rightarrow> unit res" where
  "network_idle response =
     (case response of
        None \<Rightarrow> Inl (provider_fault ''network_state_unavailable'' True)
      | Some r \<Rightarrow>
          (case (case jget r ''body'' of JObj b \<Rightarrow> jget b ''transaction'' | _ \<Rightarrow> JNull) of
             JObj transaction \<Rightarrow>
               if jget r ''ok'' = JBool True \<and> eq_str (jget r ''operation'') ''status'' \<and> eq_num (jget r ''status'') 200 \<and>
                  map_of transaction ''current'' \<noteq> None
               then guardE (jget transaction ''current'' \<noteq> JNull) (provider_fault ''network_mutation_active'' True) (Inr ())
               else Inl (provider_fault ''network_state_unavailable'' True)
           | _ \<Rightarrow> Inl (provider_fault ''network_state_unavailable'' True)))"

text \<open>A device error becomes a provider error with the same code; others pass.\<close>

definition as_provider :: "bool \<Rightarrow> 'a res \<times> 's \<Rightarrow> 'a res \<times> 's" where
  "as_provider retry m =
     catchS (\<lambda>e. \<exists>c r. e = AppError ''DeviceRecordingError'' c r) m
       (\<lambda>e s. (Inl (case e of AppError cls c r \<Rightarrow> provider_fault c retry | x \<Rightarrow> x), s))"

definition requested_take :: "start_env \<Rightarrow> jobject \<Rightarrow> (string \<times> int \<times> string option) res" where
  "requested_take E cmd_body =
     (case jget cmd_body ''take'' of
        JObj tk \<Rightarrow>
          if eq_str (jget tk ''kind'') ''continue'' \<and> jget tk ''continuation_of'' \<noteq> JNull then
            (case en_previous E (text_of (jget tk ''continuation_of'')) of
               Some (take_id, n) \<Rightarrow> Inr (take_id, n + 1, Some (text_of (jget tk ''continuation_of'')))
             | None \<Rightarrow> Inl (provider_fault ''continuation_not_found'' False))
          else Inr (en_take_id E, 1, None)
      | _ \<Rightarrow> Inl (provider_fault ''invalid_request'' False))"

definition planned :: "start_env \<Rightarrow> jobject \<Rightarrow> admission \<Rightarrow> string \<times> int \<times> string option \<Rightarrow> plan" where
  "planned E cmd_body a chosen =
     (case chosen of (take_id, n, continued) \<Rightarrow>
        \<lparr>pl_session = en_session_id E, pl_volume = ad_volume a, pl_generation = ad_generation a,
         pl_mode = text_of (jget cmd_body ''mode''),
         pl_name = (case jget cmd_body ''display_name'' of JStr s \<Rightarrow> s | _ \<Rightarrow> en_label E),
         pl_take = take_id, pl_sequence = n, pl_continues = continued\<rparr>)"

definition claim_recording :: "plan \<Rightarrow> coordinator \<Rightarrow> coordinator" where
  "claim_recording p co =
     co\<lparr>co_active := Some p, co_cached := None, co_source_failure := None, co_swap_resource := None,
        co_swap := None, co_swap_failure := None\<rparr>"

text \<open>\<open>getattr(error, "code", fallback)\<close>: an application error without a code has the empty one.\<close>

definition error_code :: "string \<Rightarrow> pyexc \<Rightarrow> string" where
  "error_code fallback e = (case e of AppError cls c r \<Rightarrow> if c = [] then fallback else c | x \<Rightarrow> fallback)"

text \<open>The exception handler around the recorder's and the sources' start.\<close>

definition abandon_start :: "start_env \<Rightarrow> plan \<Rightarrow> pyexc \<Rightarrow> coordinator \<Rightarrow> answer res \<times> coordinator" where
  "abandon_start E p e co =
     andS (if en_recorder_phase E = ''recording'' \<or> en_recorder_phase E = ''finalizing''
           then report_states p (en_fail_states E) co else (Inr (), co)) (\<lambda>co1.
       let co2 = (case en_failed_state E of
              None \<Rightarrow> co1
            | Some st \<Rightarrow> co1\<lparr>co_retained := jset (pl_session p)
                (JObj [(''generation_id'', JStr (pl_generation p)), (''recording_state'', JObj st)]) (co_retained co1)\<rparr>);
           co3 = co2\<lparr>co_active := None, co_timer := None\<rparr> in
       andS (persist_state (en_now E) (en_fault E) co3) (\<lambda>co4.
         (Inl (provider_fault (error_code ''source_start_failed'' e) False), co4)))"

definition run_recording :: "start_env \<Rightarrow> plan \<Rightarrow> coordinator \<Rightarrow> answer res \<times> coordinator" where
  "run_recording E p co =
     (case andS (report_states p (en_states E) (claim_recording p co)) (\<lambda>co1. (en_started E, co1)) of
        (Inl e, co1) \<Rightarrow> abandon_start E p e co1
      | (Inr u, co1) \<Rightarrow>
          (let co2 = co1\<lparr>co_timer := map_option (\<lambda>d. (p, en_monotonic E + of_int d, d)) (en_timer E)\<rparr> in
           case capture_status (en_view E) co2 of
             (doc, co3) \<Rightarrow> (Inr \<lparr>an_status = 202, an_body = doc, an_replayed = False\<rparr>, co3)))"

definition start_with_lease :: "start_env \<Rightarrow> jobject \<Rightarrow> coordinator \<Rightarrow> answer res \<times> coordinator" where
  "start_with_lease E cmd_body co =
     tryS (network_idle (en_network E)) co (\<lambda>_.
       (case as_provider True (case co_admission co of Some a \<Rightarrow> (Inr a, co) | None \<Rightarrow> en_admit E co) of
          (Inl e, co1) \<Rightarrow> (Inl e, co1)
        | (Inr a, co1) \<Rightarrow>
            if jget cmd_body ''volume_id'' \<noteq> JNull \<and> \<not> eq_str (jget cmd_body ''volume_id'') (ad_volume a)
            then (Inl (provider_fault ''volume_mismatch'' False), co1)
            else
              andS (as_provider False
                     (andS (check_generation (en_admit E) (en_probe E) None True co1) (\<lambda>co2.
                      tryS (en_reserve E) co2 (\<lambda>_. en_recover E co2)))) (\<lambda>co2.
              tryS (requested_take E cmd_body) co2 (\<lambda>chosen.
                run_recording E (planned E cmd_body a chosen) co2))))"

definition release_lease :: "coordinator \<Rightarrow> coordinator" where
  "release_lease co = co\<lparr>co_lease := False\<rparr>"

definition start_recording :: "start_env \<Rightarrow> jobject \<Rightarrow> coordinator \<Rightarrow> answer res \<times> coordinator" where
  "start_recording E cmd_body co =
     (if \<not> en_timer_valid E then (Inl (provider_fault ''invalid_timer_settings'' False), co)
      else if co_active co \<noteq> None then (Inl (provider_fault ''capture_busy'' False), co)
      else if eq_str (jget cmd_body ''mode'') ''calibration'' \<and> \<not> en_calibration E
        then (Inl (provider_fault ''calibration_unavailable'' False), co)
      else
        tryS (en_camera E) co (\<lambda>_.
        tryS (if co_lease co then Inl (provider_fault ''network_state_unavailable'' True) else en_lease E) co (\<lambda>_.
          (case start_with_lease E cmd_body (co\<lparr>co_lease := True\<rparr>) of
             (Inl e, co1) \<Rightarrow> (Inl e, if co_active co1 = None then release_lease co1 else co1)
           | (Inr a, co1) \<Rightarrow> (Inr a, co1)))))"

definition start_capture ::
  "start_env \<Rightarrow> capture_command \<Rightarrow> string \<Rightarrow> pyexc option \<Rightarrow> coordinator \<Rightarrow> answer res \<times> coordinator" where
  "start_capture E cmd now fault co = idempotent ''start'' cmd (start_recording E (cc_body cmd)) now fault co"

end
