(* ===== verification/CaptureStop.thy ===== *)
theory CaptureStop
  imports CaptureCoordinator
begin

text \<open>
  Stopping a recording (\<open>recording/coordinator.py\<close>): the durable acceptance of a stop request, the
  owner that finishes it, recording failures, and the safe-swap handoff of the volume.  Each
  function up to the last section is one critical section of the command lock; the flows put them
  together, and \<open>between\<close> is what other threads do to the coordinator at a named point between two
  sections.
\<close>

section \<open>A completed stop whose receipt is not yet durable\<close>

definition stop_scope :: "capture_command \<Rightarrow> scope" where
  "stop_scope cmd = command_scope ''stop'' cmd"

definition stop_reason :: "capture_command \<Rightarrow> json" where
  "stop_reason cmd = jget (cc_body cmd) ''reason''"

definition for_swap :: "capture_command \<Rightarrow> bool" where
  "for_swap cmd \<longleftrightarrow> eq_str (stop_reason cmd) ''safe_swap''"

definition answer_snapshot :: "answer \<Rightarrow> jobject option" where
  "answer_snapshot a =
     (case an_body a of
        JObj d \<Rightarrow> (case jget d ''snapshot'' of JObj s \<Rightarrow> Some s | _ \<Rightarrow> None)
      | _ \<Rightarrow> None)"

definition accepted_session :: "answer \<Rightarrow> json option" where
  "accepted_session a =
     (case answer_snapshot a of
        None \<Rightarrow> None
      | Some s \<Rightarrow>
          (case jget s ''active_recording'' of
             JObj r \<Rightarrow> Some (case jget r ''recording_state'' of JObj st \<Rightarrow> jget st ''session_id'' | _ \<Rightarrow> JNull)
           | _ \<Rightarrow> None))"

definition idle_answer :: "answer \<Rightarrow> bool" where
  "idle_answer a \<longleftrightarrow>
     (case answer_snapshot a of Some s \<Rightarrow> eq_str (jget s ''device_state'') ''idle'' | None \<Rightarrow> False)"

definition completed_stop :: "capture_command \<Rightarrow> answer option \<Rightarrow> coordinator \<Rightarrow> bool" where
  "completed_stop cmd result co \<longleftrightarrow>
     co_active co = None \<and>
     (if for_swap cmd then
        (case result of Some a \<Rightarrow> an_status a = 204 | None \<Rightarrow> False) \<and> co_swap co = None \<and>
        co_swap_resource co \<noteq> None \<and> co_released co
      else lg_stop_commit (co_ledger co) \<noteq> None \<or>
        (case result of Some a \<Rightarrow> idle_answer a | None \<Rightarrow> False))"

definition stop_busy :: "coordinator \<Rightarrow> bool" where
  "stop_busy co \<longleftrightarrow>
     co_stop co \<noteq> None \<or> co_failing co \<noteq> None \<or> co_worker co \<noteq> None \<or> co_acceptance co \<noteq> None"

text \<open>\<open>_retry_completed_stop_receipt\<close> up to the commit: \<open>Some\<close> answer claims the stop slot.\<close>

definition claim_replay :: "capture_command \<Rightarrow> coordinator \<Rightarrow> answer option res \<times> coordinator" where
  "claim_replay cmd co =
     (let s = stop_scope cmd; previous = map_of (lg_commands (co_ledger co)) s;
          result = map_option ct_answer previous in
      tryS (require_valid_receipt s co) co (\<lambda>_.
        if lg_stop_commit (co_ledger co) = None \<and> (case previous of None \<Rightarrow> True | Some r \<Rightarrow> durable_receipt s r co)
        then (Inr None, co)
        else if \<not> completed_stop cmd result co then (Inr None, co)
        else if (case previous of None \<Rightarrow> False | Some r \<Rightarrow> ct_canonical r \<noteq> cc_canonical cmd)
        then (Inl (provider_fault ''idempotency_conflict'' False), co)
        else if co_closing co \<or> stop_busy co then (Inl (provider_fault ''capture_busy'' True), co)
        else (Inr (Some (case result of
                 Some a \<Rightarrow> replayed a | None \<Rightarrow> \<lparr>an_status = 204, an_body = JNull, an_replayed = False\<rparr>)),
              co\<lparr>co_stop := Some s\<rparr>)))"

definition leave_stop :: "scope \<Rightarrow> coordinator \<Rightarrow> coordinator" where
  "leave_stop s co = (if co_stop co = Some s then co\<lparr>co_stop := None\<rparr> else co)"

definition clear_stop_commit :: "scope option \<Rightarrow> coordinator \<Rightarrow> coordinator" where
  "clear_stop_commit c co =
     (if lg_stop_commit (co_ledger co) = c then co\<lparr>co_ledger := (co_ledger co)\<lparr>lg_stop_commit := None\<rparr>\<rparr> else co)"

section \<open>Accepting a stop request\<close>

text \<open>What is left to do outside the lock once a request was prepared: commit the receipt and
  release or take back the worker.\<close>

record acceptance =
  ac_scope :: scope
  ac_result :: answer
  ac_persist :: bool
  ac_retry :: bool
  ac_old :: receipts
  ac_worker :: "nat option"
  ac_handoff :: bool

datatype prepared = Ready answer | Commit acceptance

definition plain_answer :: "int \<Rightarrow> json \<Rightarrow> answer" where
  "plain_answer code doc = \<lparr>an_status = code, an_body = doc, an_replayed = False\<rparr>"

text \<open>\<open>_prepare_stop_receipt_commit\<close>.\<close>

definition prepare_receipt :: "capture_command \<Rightarrow> answer \<Rightarrow> bool \<Rightarrow> coordinator \<Rightarrow> prepared res \<times> coordinator" where
  "prepare_receipt cmd a retry co =
     (let s = stop_scope cmd; co1 = (if retry then co else remember_answer s (cc_canonical cmd) a co) in
      (Inr (Commit \<lparr>ac_scope = s, ac_result = a, ac_persist = True, ac_retry = retry,
                    ac_old = lg_commands (co_ledger co), ac_worker = None, ac_handoff = False\<rparr>),
       co1\<lparr>co_acceptance := Some s\<rparr>))"

text \<open>Starting the worker thread; \<open>spawn\<close> is what \<open>Thread.start\<close> raised.\<close>

definition worker_error :: "pyexc \<Rightarrow> pyexc" where
  "worker_error e = (if e = RuntimeError then provider_fault ''stop_worker_unavailable'' True else e)"

text \<open>\<open>_request_pending_safe_swap\<close>: resume the handoff of an already sealed recording.\<close>

definition prepare_handoff ::
  "status_view \<Rightarrow> unit res \<Rightarrow> unit res \<Rightarrow> capture_command \<Rightarrow> answer option \<Rightarrow> coordinator
     \<Rightarrow> prepared res \<times> coordinator" where
  "prepare_handoff V lease spawn cmd replay co =
     (let s = stop_scope cmd in
      case (case replay of
          Some a \<Rightarrow> (replayed a, co)
        | None \<Rightarrow> (case capture_status V co of (doc, co1) \<Rightarrow> (plain_answer 202 doc, co1))) of
        (a, co1) \<Rightarrow>
          tryS (if co_lease co1 then Inl (provider_fault ''network_state_unavailable'' True) else lease) co1 (\<lambda>_.
          (case spawn of
             Inl e \<Rightarrow> (Inl (worker_error e), co1\<lparr>co_lease := False\<rparr>)
           | Inr u \<Rightarrow>
               (let co2 = (if replay = None then remember_answer s (cc_canonical cmd) a co1 else co1) in
                (Inr (Commit \<lparr>ac_scope = s, ac_result = a,
                       ac_persist = (replay = None \<or> co_swap_failure co1 \<noteq> None), ac_retry = False,
                       ac_old = lg_commands (co_ledger co1), ac_worker = Some (co_workers co1), ac_handoff = True\<rparr>),
                 co2\<lparr>co_lease := True, co_worker := Some (co_workers co1), co_workers := co_workers co1 + 1,
                     co_reason := JStr ''safe_swap'', co_stop := Some s,
                     co_swap_clear := (co_swap_failure co1 \<noteq> None), co_acceptance := Some s\<rparr>)))))"

text \<open>The worker that stops the active recording; \<open>rearmed\<close> is the receipt that already accepted it.\<close>

definition prepare_worker ::
  "status_view \<Rightarrow> unit res \<Rightarrow> capture_command \<Rightarrow> answer option \<Rightarrow> coordinator \<Rightarrow> prepared res \<times> coordinator" where
  "prepare_worker V spawn cmd rearmed co =
     (let s = stop_scope cmd in
      case (case rearmed of
          Some a \<Rightarrow> (replayed a, co)
        | None \<Rightarrow> (case capture_status V co of (doc, co1) \<Rightarrow> (plain_answer 202 doc, co1))) of
        (a, co1) \<Rightarrow>
          (case spawn of
             Inl e \<Rightarrow> (Inl (worker_error e), co1\<lparr>co_stop := None, co_worker := None, co_reason := JNull\<rparr>)
           | Inr u \<Rightarrow>
               (let co2 = (if rearmed = None then remember_answer s (cc_canonical cmd) a co1 else co1) in
                (Inr (Commit \<lparr>ac_scope = s, ac_result = a, ac_persist = (rearmed = None), ac_retry = False,
                       ac_old = lg_commands (co_ledger co1), ac_worker = Some (co_workers co1), ac_handoff = False\<rparr>),
                 co2\<lparr>co_stop := Some s, co_worker := Some (co_workers co1), co_workers := co_workers co1 + 1,
                     co_reason := JStr (text_of (stop_reason cmd)), co_acceptance := Some s\<rparr>))))"

definition names_session :: "answer \<Rightarrow> json \<Rightarrow> bool" where
  "names_session a sid \<longleftrightarrow> (case accepted_session a of Some v \<Rightarrow> py_eq v sid | None \<Rightarrow> False)"

definition unfinished_failure :: "answer \<Rightarrow> coordinator \<Rightarrow> bool" where
  "unfinished_failure a co \<longleftrightarrow>
     (case co_active co of
        None \<Rightarrow> False
      | Some p \<Rightarrow>
          co_uncommitted co = Some p \<and> co_worker co = None \<and> co_stop co = None \<and> co_failing co = None \<and>
          an_status a = 202 \<and> names_session a (JStr (pl_session p)))"

record stop_env =
  sq_view :: status_view
  sq_lease :: "unit res"
  sq_spawn :: "unit res"
  sq_admit :: "coordinator \<Rightarrow> admission res \<times> coordinator"

text \<open>The part of \<open>_prepare_stop_request\<close> after a remembered receipt was dealt with.\<close>

definition prepare_new_stop ::
  "stop_env \<Rightarrow> capture_command \<Rightarrow> answer option \<Rightarrow> coordinator \<Rightarrow> prepared res \<times> coordinator" where
  "prepare_new_stop E cmd rearmed co =
     (if co_stop co \<noteq> None \<and> co_active co = None then (Inl (provider_fault ''capture_busy'' True), co)
      else if co_worker co \<noteq> None then
        (if stop_reason cmd \<noteq> co_reason co then (Inl (provider_fault ''stop_intent_conflict'' True), co)
         else (case capture_status (sq_view E) co of (doc, co1) \<Rightarrow> prepare_receipt cmd (plain_answer 202 doc) False co1))
      else if co_stop co \<noteq> None \<or> co_failing co \<noteq> None then (Inl (provider_fault ''capture_busy'' True), co)
      else if co_active co = None then
        (if for_swap cmd \<and> co_swap co \<noteq> None
         then prepare_handoff (sq_view E) (sq_lease E) (sq_spawn E) cmd None co
         else (case as_provider True (case co_admission co of Some a \<Rightarrow> (Inr a, co) | None \<Rightarrow> sq_admit E co) of
             (Inl e, co1) \<Rightarrow> (Inl e, co1)
           | (Inr a, co1) \<Rightarrow> prepare_receipt cmd (plain_answer 204 JNull) False co1))
      else if for_swap cmd \<and> co_open co \<noteq> 0 then (Inl (provider_fault ''safe_swap_blocked'' True), co)
      else prepare_worker (sq_view E) (sq_spawn E) cmd rearmed co)"

definition prepare_stop :: "stop_env \<Rightarrow> capture_command \<Rightarrow> coordinator \<Rightarrow> prepared res \<times> coordinator" where
  "prepare_stop E cmd co =
     (let s = stop_scope cmd in
      if co_closing co then (Inl (provider_fault ''capture_busy'' True), co)
      else tryS (require_valid_receipt s co) co (\<lambda>_.
        (case map_of (lg_commands (co_ledger co)) s of
           None \<Rightarrow>
             if co_acceptance co \<noteq> None then (Inl (provider_fault ''capture_busy'' True), co)
             else prepare_new_stop E cmd None co
         | Some r \<Rightarrow>
             if ct_canonical r \<noteq> cc_canonical cmd then (Inl (provider_fault ''idempotency_conflict'' False), co)
             else if co_acceptance co \<noteq> None then
               (if durable_receipt s r co then (Inr (Ready (replayed (ct_answer r))), co)
                else (Inl (provider_fault ''capture_busy'' True), co))
             else if \<not> durable_receipt s r co then
               (if co_stop co \<noteq> None \<or> (co_active co = None \<and> (\<not> for_swap cmd \<or> co_swap co = None))
                then (Inl (provider_fault ''capture_busy'' True), co)
                else prepare_receipt cmd (ct_answer r) True co)
             else if for_swap cmd \<and> co_worker co = None \<and>
                     (case co_swap co of None \<Rightarrow> False | Some w \<Rightarrow> names_session (ct_answer r) (jget w ''session_id''))
             then prepare_handoff (sq_view E) (sq_lease E) (sq_spawn E) cmd (Some (ct_answer r)) co
             else if unfinished_failure (ct_answer r) co then prepare_new_stop E cmd (Some (ct_answer r)) co
             else (Inr (Ready (replayed (ct_answer r))), co))))"

text \<open>\<open>_finish_stop_acceptance\<close>: the two ways it ends.\<close>

definition accept_stop :: "acceptance \<Rightarrow> coordinator \<Rightarrow> coordinator" where
  "accept_stop ac co =
     (let co1 = (if ac_handoff ac then co\<lparr>co_swap_failure := None, co_swap_clear := False\<rparr> else co) in
      co1\<lparr>co_acceptance := None\<rparr>)"

definition take_back :: "acceptance \<Rightarrow> coordinator \<Rightarrow> coordinator" where
  "take_back ac co =
     (let co1 = co\<lparr>co_ledger := (co_ledger co)\<lparr>lg_commands := ac_old ac\<rparr>\<rparr> in
      if ac_handoff ac then
        co1\<lparr>co_swap_clear := False, co_worker := None, co_reason := JNull, co_stop := None, co_lease := False\<rparr>
      else if ac_worker ac \<noteq> None then co1\<lparr>co_stop := None, co_worker := None, co_reason := JNull\<rparr>
      else co1)"

section \<open>Failures of the active recording\<close>

text \<open>What happens around a stop: the sources, the recorder, the database and the other threads.
  \<open>fe_fault\<close> and \<open>fe_between\<close> are indexed by the point of the program.\<close>

record sealed =
  sd_manifest_id :: string
  sd_sha256 :: string
  sd_sealed_at :: string

datatype stop_outcome = Sealed sealed | Refused failure | Crashed pyexc

record finish_env =
  fe_sources :: "failure option"
  fe_states :: "checkpoint list"
  fe_refusal :: "pyexc \<Rightarrow> failure"
  fe_outcome :: stop_outcome
  fe_fail_states :: "checkpoint list"
  fe_fail_raised :: "unit res"
  fe_failed_state :: "jobject option"
  fe_prefix :: "(string \<times> string) option"
  fe_device :: "string \<times> string"
  fe_handles :: int
  fe_manifest :: "unit res"
  fe_formats :: event_formats
  fe_now :: string
  fe_fault :: "string \<Rightarrow> pyexc option"
  fe_between :: "string \<Rightarrow> coordinator \<Rightarrow> coordinator"
  fe_view :: status_view

definition persist_at :: "finish_env \<Rightarrow> string \<Rightarrow> coordinator \<Rightarrow> unit res \<times> coordinator" where
  "persist_at E point co =
     (case local_state_write co of
        (w, co1) \<Rightarrow> write_state (fe_now E) (fe_fault E point) w (fe_between E point co1))"

text \<open>\<open>_local_failure_state\<close>.\<close>

definition failure_diagnostic :: "failure \<Rightarrow> string \<Rightarrow> bool \<Rightarrow> json" where
  "failure_diagnostic f now recoverable =
     JObj [(''code'', JStr (fl_code f)), (''severity'', JStr ''error''), (''message'', JStr (fl_message f)),
           (''at'', JStr now), (''recoverable'', JBool recoverable)]"

definition local_failure_state ::
  "string \<times> string \<Rightarrow> string \<Rightarrow> plan \<Rightarrow> failure \<Rightarrow> bool \<Rightarrow> bool \<Rightarrow> coordinator \<Rightarrow> jobject" where
  "local_failure_state device now p f media_lost recoverable co =
     [(''schema'', JStr ''ylx.recording-state.v1''),
      (''state'', JStr (if media_lost then ''recoverable'' else ''failed'')),
      (''authority_epoch'', JStr (co_epoch co)), (''state_revision'', JInt (co_revision co)),
      (''updated_at'', JStr now), (''session_id'', JStr (pl_session p)), (''take_id'', JStr (pl_take p)),
      (''display_name'', JStr (pl_name p)),
      (''device'', JObj [(''device_id'', JStr (fst device)), (''device_label'', JStr (snd device))]),
      (''storage'', JObj [(''volume_id'', JStr (pl_volume p)),
         (''status'', JStr (if media_lost then ''media_lost'' else ''mounted'')),
         (''writable'', JBool False), (''remaining_bytes'', JNull)]),
      (''progress'', JObj [(''elapsed_seconds'', JFloat (Fin 0)), (''captured_frames'', JInt 0), (''bytes_written'', JInt 0)]),
      (''diagnostics'', JList [failure_diagnostic f now recoverable])]"

definition media_failure :: "failure \<Rightarrow> bool" where
  "media_failure f \<longleftrightarrow> fl_code f = ''media_lost''"

definition with_diagnostic :: "json \<Rightarrow> jobject \<Rightarrow> jobject" where
  "with_diagnostic d st =
     jset ''diagnostics'' (JList ((case jget st ''diagnostics'' of JList ds \<Rightarrow> ds | _ \<Rightarrow> []) @ [d])) st"

text \<open>The claiming section of \<open>_retain_active_failure\<close>: a failure during a stop is left to the owner
  of the stop; otherwise the recorder is reserved and the failing state is shown at once.\<close>

definition claim_failure ::
  "string \<times> string \<Rightarrow> string \<Rightarrow> failure \<Rightarrow> plan \<Rightarrow> bool \<Rightarrow> coordinator \<Rightarrow> failure option \<times> coordinator" where
  "claim_failure device now f p from_stop co =
     (if co_active co \<noteq> Some p \<or> co_failing co \<noteq> None \<or> co_uncommitted co = Some p then (None, co)
      else if co_stop co \<noteq> None \<and> \<not> from_stop then
        (None, co\<lparr>co_source_failure := Some (case co_source_failure co of Some g \<Rightarrow> g | None \<Rightarrow> f)\<rparr>)
      else
        (let g = (case co_source_failure co of Some g \<Rightarrow> g | None \<Rightarrow> f);
             co1 = co\<lparr>co_source_failure := None\<rparr>;
             (projection, co2) =
               (case co_cached co1 of
                  None \<Rightarrow> (let c = next_capture_revision co1 in
                            (local_failure_state device now p g False (media_failure g) c, c))
                | Some st \<Rightarrow> (with_diagnostic (failure_diagnostic g now (media_failure g)) st, co1));
             co3 = next_capture_revision co2 in
         (Some g, co3\<lparr>co_projection := Some (jset ''updated_at'' (JStr now)
              (jset ''state_revision'' (JInt (co_revision co3)) (jset ''state'' (JStr ''finalizing'') projection))),
            co_failing := Some p\<rparr>)))"

text \<open>\<open>_record_saved_prefix\<close>.\<close>

definition record_saved_prefix :: "string \<Rightarrow> string \<times> string \<Rightarrow> coordinator \<Rightarrow> coordinator" where
  "record_saved_prefix sid prefix co =
     (case map_of (co_retained co) sid of
        Some (JObj outcome) \<Rightarrow>
          (case jget outcome ''recording_state'' of
             JObj st \<Rightarrow>
               (case jget st ''diagnostics'' of
                  JList ds \<Rightarrow>
                    if list_ex (\<lambda>d. case d of JObj x \<Rightarrow> eq_str (jget x ''code'') ''recording_prefix_saved'' | _ \<Rightarrow> False) ds
                    then co
                    else
                      (let co1 = next_capture_revision co;
                           note_saved = JObj [(''code'', JStr ''recording_prefix_saved''), (''severity'', JStr ''info''),
                             (''message'', JStr (fst prefix)), (''at'', JStr (snd prefix)), (''recoverable'', JBool False)];
                           st1 = jset ''updated_at'' (JStr (snd prefix)) (jset ''state_revision'' (JInt (co_revision co1))
                             (jset ''authority_epoch'' (JStr (co_epoch co1)) (jset ''diagnostics'' (JList (ds @ [note_saved])) st))) in
                       co1\<lparr>co_retained := jset sid (JObj (jset ''recording_state'' (JObj st1) outcome)) (co_retained co1)\<rparr>)
                | _ \<Rightarrow> co)
           | _ \<Rightarrow> co)
      | _ \<Rightarrow> co)"

definition terminal_state :: "jobject option \<Rightarrow> bool" where
  "terminal_state st \<longleftrightarrow>
     (case st of None \<Rightarrow> False | Some d \<Rightarrow> in_strs (jget d ''state'') [''recoverable'', ''failed'', ''abandoned''])"

text \<open>The locked section of \<open>_finish_active_failure\<close>: the outcome is retained.\<close>

definition retain_outcome :: "finish_env \<Rightarrow> plan \<Rightarrow> failure \<Rightarrow> coordinator \<Rightarrow> coordinator" where
  "retain_outcome E p f co =
     (let (st, co1) =
            (if terminal_state (fe_failed_state E) then (the (fe_failed_state E), co)
             else (let c = next_capture_revision co in
                   (local_failure_state (fe_device E) (fe_now E) p f (media_failure f) (media_failure f) c, c)));
          co2 = co1\<lparr>co_retained := jset (pl_session p)
            (JObj [(''generation_id'', JStr (pl_generation p)), (''recording_state'', JObj st)]) (co_retained co1)\<rparr>;
          co3 = (case fe_prefix E of
              Some prefix \<Rightarrow> if media_failure f then co2 else record_saved_prefix (pl_session p) prefix co2
            | None \<Rightarrow> co2) in
      co3\<lparr>co_uncommitted := Some p\<rparr>)"

text \<open>\<open>_commit_active_failure\<close>: its locked section, and the whole.\<close>

definition settle_failure :: "plan \<Rightarrow> coordinator \<Rightarrow> unit res \<times> coordinator" where
  "settle_failure p co =
     (if co_active co \<noteq> Some p \<or> co_uncommitted co \<noteq> Some p then (Inl AssertionError, co)
      else (Inr (),
        co\<lparr>co_uncommitted := None, co_projection := (if co_failing co = None then None else co_projection co),
           co_active := None, co_timer := None, co_cached := None,
           co_lease := (if co_stop co = None then False else co_lease co)\<rparr>))"

definition commit_failure :: "finish_env \<Rightarrow> plan \<Rightarrow> coordinator \<Rightarrow> unit res \<times> coordinator" where
  "commit_failure E p co = andS (persist_at E ''failure'' co) (\<lambda>co1. settle_failure p (fe_between E ''settle'' co1))"

definition finish_failure :: "finish_env \<Rightarrow> plan \<Rightarrow> failure \<Rightarrow> coordinator \<Rightarrow> unit res \<times> coordinator" where
  "finish_failure E p f co =
     andS (andS (report_states p (fe_fail_states E) co) (\<lambda>co1. (fe_fail_raised E, co1)))
       (\<lambda>co1. commit_failure E p (retain_outcome E p f (fe_between E ''failed'' co1)))"

text \<open>\<open>_retain_active_failure\<close> in the thread of its caller; the last section always runs.\<close>

definition unclaim_failure :: "plan \<Rightarrow> coordinator \<Rightarrow> coordinator" where
  "unclaim_failure p co =
     co\<lparr>co_failing := None, co_projection := (if co_uncommitted co = Some p then co_projection co else None)\<rparr>"

definition retain_failure :: "finish_env \<Rightarrow> failure \<Rightarrow> plan \<Rightarrow> bool \<Rightarrow> coordinator \<Rightarrow> unit res \<times> coordinator" where
  "retain_failure E f p from_stop co =
     (case claim_failure (fe_device E) (fe_now E) f p from_stop co of
        (None, co1) \<Rightarrow> (Inr (), co1)
      | (Some g, co1) \<Rightarrow>
          (case finish_failure E p g (fe_between E ''claimed'' co1) of
             (r, co2) \<Rightarrow> (r, unclaim_failure p (fe_between E ''recovered'' co2))))"

section \<open>Handing the volume over\<close>

text \<open>\<open>_publish_safe_swap\<close>: no handle may be open, the receipt is staged, persisted, and only then
  shown.  \<open>fe_handles\<close> counts the handles of the recorder, the sources and the catalog.\<close>

definition swap_receipt :: "string \<Rightarrow> jobject \<Rightarrow> jobject" where
  "swap_receipt now w =
     (''schema'', JStr ''ylx.safe-swap-receipt.v3'') # w @
     [(''released_at'', JStr now), (''release_state'', JStr ''device-released''), (''open_handle_count'', JInt 0)]"

definition swap_document :: "string \<Rightarrow> jobject \<Rightarrow> jobject" where
  "swap_document now w =
     [(''schema'', JStr ''ylx.safe-swap-receipt-resource.v3''), (''receipt'', JObj (swap_receipt now w))]"

definition pending_handoff :: "finish_env \<Rightarrow> coordinator \<Rightarrow> jobject res" where
  "pending_handoff E co =
     (case co_swap co of
        None \<Rightarrow> Inl (provider_fault ''safe_swap_not_pending'' False)
      | Some w \<Rightarrow> guardE (fe_handles E + co_open co \<noteq> 0) (provider_fault ''safe_swap_blocked'' True) (Inr w))"

definition stage_receipt :: "finish_env \<Rightarrow> jobject \<Rightarrow> coordinator \<Rightarrow> unit res \<times> coordinator" where
  "stage_receipt E w co =
     (if co_swap co \<noteq> Some w then (Inl (provider_fault ''capture_state_changed'' False), co)
      else tryS (validate_safe_swap_v3_receipt (fe_formats E) (swap_receipt (fe_now E) w)) co (\<lambda>_.
        (Inr (), next_capture_revision (co\<lparr>co_swap_staged := Some (swap_document (fe_now E) w)\<rparr>))))"

definition show_receipt :: "finish_env \<Rightarrow> jobject \<Rightarrow> coordinator \<Rightarrow> coordinator" where
  "show_receipt E w co =
     next_capture_revision (co\<lparr>co_released := True, co_swap_resource := Some (swap_document (fe_now E) w),
       co_swap := None, co_swap_failure := None, co_swap_staged := None\<rparr>)"

definition unstage_receipt :: "pyexc \<Rightarrow> coordinator \<Rightarrow> unit res \<times> coordinator" where
  "unstage_receipt e co =
     (Inl (if storage_error e then provider_fault ''safe_swap_publish_failed'' True else e), co\<lparr>co_swap_staged := None\<rparr>)"

definition publish_safe_swap :: "finish_env \<Rightarrow> coordinator \<Rightarrow> unit res \<times> coordinator" where
  "publish_safe_swap E co =
     tryS (pending_handoff E co) co (\<lambda>w.
     tryS (fe_manifest E) (fe_between E ''manifest'' co) (\<lambda>_.
     andS (stage_receipt E w (fe_between E ''manifest'' co)) (\<lambda>co1.
       (case persist_at E ''receipt'' co1 of
          (Inl e, co2) \<Rightarrow> unstage_receipt e (fe_between E ''unstage'' co2)
        | (Inr u, co2) \<Rightarrow> (Inr (), show_receipt E w (fe_between E ''show'' co2))))))"

section \<open>The owner of a stop\<close>

datatype stage = Leave "answer res" | Device failure

definition still_owned :: "plan \<Rightarrow> coordinator \<Rightarrow> stage option" where
  "still_owned p co =
     (case co_source_failure co of
        Some f \<Rightarrow> Some (Device f)
      | None \<Rightarrow>
          if co_active co \<noteq> Some p then Some (Leave (Inl (provider_fault ''capture_state_changed'' True))) else None)"

definition handoff_intent :: "plan \<Rightarrow> sealed \<Rightarrow> jobject" where
  "handoff_intent p sd =
     [(''session_id'', JStr (pl_session p)), (''volume_id'', JStr (pl_volume p)),
      (''generation_id'', JStr (pl_generation p)), (''manifest_id'', JStr (sd_manifest_id sd)),
      (''manifest_sha256'', JStr (sd_sha256 sd)), (''sealed_at'', JStr (sd_sealed_at sd))]"

text \<open>The section that ends the recording: the answer of an ordinary stop is made here.\<close>

definition end_recording ::
  "finish_env \<Rightarrow> capture_command \<Rightarrow> scope \<Rightarrow> plan \<Rightarrow> sealed \<Rightarrow> bool \<Rightarrow> coordinator \<Rightarrow> answer \<times> coordinator" where
  "end_recording E cmd s p sd remember co =
     (let co1 = next_capture_revision (co\<lparr>co_active := None, co_timer := None\<rparr>) in
      if for_swap cmd then (plain_answer 204 JNull, co1\<lparr>co_swap := Some (handoff_intent p sd)\<rparr>)
      else
        (case capture_status (fe_view E) co1 of
           (doc, co2) \<Rightarrow>
             (let a = plain_answer 202 doc;
                  co3 = (if remember then remember_answer s (cc_canonical cmd) a co2 else co2) in
              (a, co3\<lparr>co_ledger := (co_ledger co3)\<lparr>lg_stop_commit := Some s\<rparr>\<rparr>))))"

definition remember_at ::
  "finish_env \<Rightarrow> string \<Rightarrow> bool \<Rightarrow> capture_command \<Rightarrow> scope \<Rightarrow> answer \<Rightarrow> coordinator \<Rightarrow> answer res \<times> coordinator" where
  "remember_at E point remember cmd s a co =
     (if remember then andS (persist_at E point (remember_answer s (cc_canonical cmd) a co)) (\<lambda>co1. (Inr a, co1))
      else (Inr a, co))"

text \<open>After the recording has ended: the durable commit, and for a safe swap the handoff.\<close>

definition commit_stop ::
  "finish_env \<Rightarrow> capture_command \<Rightarrow> scope \<Rightarrow> bool \<Rightarrow> answer \<Rightarrow> coordinator \<Rightarrow> answer res \<times> coordinator" where
  "commit_stop E cmd s remember a co =
     andS (persist_at E ''stop'' co) (\<lambda>co1.
       if for_swap cmd then
         andS (publish_safe_swap E (fe_between E ''publish'' co1)) (\<lambda>co2.
           remember_at E ''answer'' remember cmd s a (fe_between E ''published'' co2))
       else (Inr a, release_lease (clear_stop_commit (Some s) (fe_between E ''committed'' co1))))"

text \<open>The stages of \<open>_finish_stop_capture\<close> up to the sealed recorder; \<open>Inl\<close> leaves early.\<close>

definition seal_recording :: "finish_env \<Rightarrow> plan \<Rightarrow> coordinator \<Rightarrow> (stage + sealed) \<times> coordinator" where
  "seal_recording E p co =
     (case co_source_failure co of
        Some f \<Rightarrow> (Inl (Device f), co)
      | None \<Rightarrow>
          (case report_states p (fe_states E) co of
             (Inl e, co1) \<Rightarrow> (Inl (Device (fe_refusal E e)), co1)
           | (Inr u, co1) \<Rightarrow>
               (case fe_outcome E of
                  Refused f \<Rightarrow> (Inl (Device f), co1)
                | Crashed e \<Rightarrow> (Inl (Leave (Inl e)), co1)
                | Sealed sd \<Rightarrow>
                    (let co2 = fe_between E ''sealed'' co1 in
                     case still_owned p co2 of
                       Some x \<Rightarrow> (Inl x, co2)
                     | None \<Rightarrow>
                         (let co3 = fe_between E ''catalog'' co2 in
                          case still_owned p co3 of Some x \<Rightarrow> (Inl x, co3) | None \<Rightarrow> (Inr sd, co3))))))"

definition finish_body ::
  "finish_env \<Rightarrow> capture_command \<Rightarrow> scope \<Rightarrow> plan \<Rightarrow> bool \<Rightarrow> coordinator \<Rightarrow> answer res \<times> coordinator" where
  "finish_body E cmd s p remember co =
     (case fe_sources E of
        Some f \<Rightarrow>
          andS (retain_failure E f p True co) (\<lambda>co1. (Inl (provider_fault ''source_stop_failed'' False), co1))
      | None \<Rightarrow>
          (let co1 = fe_between E ''sources'' co in
           if co_uncommitted co1 = Some p then
             andS (commit_failure E p co1) (\<lambda>co2.
               remember_at E ''answer'' remember cmd s (plain_answer 204 JNull) (fe_between E ''published'' co2))
           else
             (case seal_recording E p co1 of
                (Inl (Leave r), co2) \<Rightarrow> (r, co2)
              | (Inl (Device f), co2) \<Rightarrow>
                  andS (retain_failure E f p True co2) (\<lambda>co3. (Inl (provider_fault (fl_code f) False), co3))
              | (Inr sd, co2) \<Rightarrow>
                  (case end_recording E cmd s p sd remember co2 of
                     (a, co3) \<Rightarrow> commit_stop E cmd s remember a co3))))"

text \<open>The \<open>finally\<close> section.\<close>

definition leave_finish :: "scope \<Rightarrow> coordinator \<Rightarrow> coordinator" where
  "leave_finish s co =
     (let co1 = (if co_stop co = Some s then co\<lparr>co_stop := None, co_source_failure := None\<rparr> else co) in
      if co_active co1 = None then release_lease co1 else co1)"

definition finish_stop ::
  "finish_env \<Rightarrow> capture_command \<Rightarrow> scope \<Rightarrow> plan \<Rightarrow> bool \<Rightarrow> coordinator \<Rightarrow> answer res \<times> coordinator" where
  "finish_stop E cmd s p remember co =
     (case finish_body E cmd s p remember co of (r, co1) \<Rightarrow> (r, leave_finish s (fe_between E ''leave'' co1)))"

section \<open>The worker\<close>

text \<open>\<open>_record_safe_swap_failure\<close>.\<close>

definition swap_failures :: "string list" where
  "swap_failures = [''safe_swap_unverified'', ''safe_swap_publish_failed'', ''safe_swap_blocked'', ''safe_swap_resume_failed'']"

definition note_swap_failure :: "jobject \<Rightarrow> pyexc \<Rightarrow> coordinator \<Rightarrow> coordinator" where
  "note_swap_failure w e co =
     (if co_swap co \<noteq> Some w then co
      else
        (let code = error_code ''safe_swap_resume_failed'' e;
             shown = (if code \<in> set swap_failures then code else ''safe_swap_resume_failed'') in
         next_capture_revision (co\<lparr>co_swap_failure :=
           Some [(''session_id'', jget w ''session_id''), (''manifest_sha256'', jget w ''manifest_sha256''),
                 (''code'', JStr shown)]\<rparr>)))"

definition record_swap_failure :: "finish_env \<Rightarrow> jobject \<Rightarrow> pyexc \<Rightarrow> coordinator \<Rightarrow> coordinator" where
  "record_swap_failure E w e co =
     (if co_swap co \<noteq> Some w then co else snd (persist_at E ''swap-failure'' (note_swap_failure w e co)))"

definition leave_worker :: "nat \<Rightarrow> coordinator \<Rightarrow> coordinator" where
  "leave_worker me co = (if co_worker co = Some me then co\<lparr>co_worker := None, co_reason := JNull\<rparr> else co)"

definition unexpected_failure :: "pyexc \<Rightarrow> failure" where
  "unexpected_failure e = \<lparr>fl_code = ''stop_finalization_failed'', fl_message = error_code [] e\<rparr>"

text \<open>The \<open>finish\<close> closure of \<open>_prepare_stop_request\<close>, once its gate is open.\<close>

definition stop_worker ::
  "finish_env \<Rightarrow> nat \<Rightarrow> capture_command \<Rightarrow> scope \<Rightarrow> plan \<Rightarrow> coordinator \<Rightarrow> coordinator" where
  "stop_worker E me cmd s p co =
     (if co_worker co \<noteq> Some me then co
      else
        (case finish_stop E cmd s p False co of
           (Inr a, co1) \<Rightarrow> leave_worker me (fe_between E ''ended'' co1)
         | (Inl e, co1) \<Rightarrow>
             (let co2 = fe_between E ''failed-stop'' co1;
                  co3 = (if co_active co2 = Some p then snd (retain_failure E (unexpected_failure e) p True co2)
                         else (case co_swap co2 of
                             Some w \<Rightarrow>
                               if for_swap cmd \<and> eq_str (jget w ''session_id'') (pl_session p)
                               then record_swap_failure E w e co2 else co2
                           | None \<Rightarrow> co2)) in
              leave_worker me (fe_between E ''ended'' co3))))"

text \<open>The \<open>finish\<close> closure of \<open>_request_pending_safe_swap\<close>.\<close>

definition handoff_worker :: "finish_env \<Rightarrow> nat \<Rightarrow> jobject \<Rightarrow> coordinator \<Rightarrow> coordinator" where
  "handoff_worker E me w co =
     (if co_worker co \<noteq> Some me then co
      else
        (let co1 = (case publish_safe_swap E co of
               (Inr u, c) \<Rightarrow> c
             | (Inl e, c) \<Rightarrow> record_swap_failure E w e (fe_between E ''failed-stop'' c));
             co2 = fe_between E ''ended'' co1 in
         if co_worker co2 = Some me
         then co2\<lparr>co_worker := None, co_reason := JNull, co_stop := None, co_lease := False\<rparr> else co2))"

section \<open>Accepting, as a flow\<close>

text \<open>\<open>_finish_stop_acceptance\<close>: persist outside the lock, then open the gate or take back; a source
  failure that was left to the owner that never ran is claimed then, and finished by a thread of its
  own.  After a retried receipt (\<open>ac_retry\<close>) the request is made again.\<close>

definition finish_acceptance :: "finish_env \<Rightarrow> acceptance \<Rightarrow> coordinator \<Rightarrow> answer res \<times> coordinator" where
  "finish_acceptance E ac co =
     (case (if ac_persist ac then persist_at E ''accept'' co else (Inr (), co)) of
        (Inr u, co1) \<Rightarrow> (Inr (ac_result ac), accept_stop ac (fe_between E ''accepted'' co1))
      | (Inl e, co1) \<Rightarrow>
          (let co2 = take_back ac (fe_between E ''refused'' co1);
               co3 = (case (co_source_failure co2, co_active co2) of
                   (Some f, Some p) \<Rightarrow> snd (claim_failure (fe_device E) (fe_now E) f p False co2)
                 | _ \<Rightarrow> co2) in
           (Inl e, co3\<lparr>co_acceptance := None\<rparr>)))"

section \<open>Readers\<close>

text \<open>\<open>_acquire_representation\<close>, and its release (once per handle).\<close>

definition acquire_representation ::
  "(coordinator \<Rightarrow> admission res \<times> coordinator) \<Rightarrow> mount_probe \<Rightarrow> coordinator \<Rightarrow> unit res \<times> coordinator" where
  "acquire_representation admit probe co =
     (if co_released co \<or> co_swap co \<noteq> None \<or> eq_str (co_reason co) ''safe_swap''
      then (Inl (provider_fault ''volume_releasing'' True), co)
      else andS (as_provider True (check_generation admit probe None False co))
             (\<lambda>co1. (Inr (), co1\<lparr>co_open := co_open co1 + 1\<rparr>)))"

definition release_representation :: "coordinator \<Rightarrow> coordinator" where
  "release_representation co = co\<lparr>co_open := co_open co - 1\<rparr>"

end
