(* ===== verification/CaptureControls.thy ===== *)
theory CaptureControls
  imports CaptureStop ImuPipeline
begin

text \<open>
  What else acts on the capture coordinator (\<open>recording/coordinator.py\<close>): the capture timer
  (\<open>capture_timer.py\<close>), the storage reserve (\<open>backing_storage.py\<close>), failures reported by the sources
  and the medium, the synchronous stop with its waiting, deletions, and the shutdown; and what it
  shows of its state.  Clocks, the file system and the other threads are arguments; log events are
  dropped.
\<close>

section \<open>The capture timer\<close>

definition default_timer :: jobject where
  "default_timer = [(''enabled'', JBool False), (''duration_seconds'', JInt 600)]"

definition timer_limit :: int where
  "timer_limit = 86400"

definition valid_timer_settings :: "json \<Rightarrow> bool" where
  "valid_timer_settings v =
     (case v of
        JObj d \<Rightarrow>
          has_keys d [''enabled'', ''duration_seconds''] \<and> is_bool (jget d ''enabled'') \<and>
          int_in (jget d ''duration_seconds'') (\<lambda>n. 1 \<le> n \<and> n \<le> timer_limit)
      | _ \<Rightarrow> False)"

definition valid_timer_status :: "json \<Rightarrow> bool" where
  "valid_timer_status v =
     (case v of
        JObj d \<Rightarrow>
          has_keys d [''schema'', ''settings'', ''active''] \<and> eq_str (jget d ''schema'') ''ylx.capture-timer.v1'' \<and>
          valid_timer_settings (jget d ''settings'') \<and>
          (case jget d ''active'' of
             JNull \<Rightarrow> True
           | JObj a \<Rightarrow>
               has_keys a [''session_id'', ''duration_seconds'', ''remaining_seconds''] \<and>
               is_nonempty_str (jget a ''session_id'') \<and>
               int_in (jget a ''duration_seconds'') (\<lambda>n. 1 \<le> n \<and> n \<le> timer_limit) \<and>
               (case jget a ''duration_seconds'' of
                  JInt n \<Rightarrow> num_between 0 (jget a ''remaining_seconds'') (of_int n)
                | _ \<Rightarrow> False)
           | _ \<Rightarrow> False)
      | _ \<Rightarrow> False)"

text \<open>\<open>max(0.0, min(duration, deadline - now))\<close>: the duration stays an integer.\<close>

definition remaining_seconds :: "int \<Rightarrow> rat \<Rightarrow> json" where
  "remaining_seconds duration left =
     (if left < of_int duration then JFloat (Fin (if 0 < left then left else 0))
      else if 0 < duration then JInt duration else JFloat (Fin 0))"

definition require_timer_settings :: "json \<Rightarrow> unit res" where
  "require_timer_settings settings =
     guardE (\<not> valid_timer_settings settings) (provider_fault ''invalid_timer_settings'' False) (Inr ())"

definition capture_timer_status :: "json \<Rightarrow> rat \<Rightarrow> coordinator \<Rightarrow> json res" where
  "capture_timer_status settings now co =
     bindE (require_timer_settings settings) (\<lambda>_.
       Inr (JObj [(''schema'', JStr ''ylx.capture-timer.v1''), (''settings'', settings),
         (''active'', case co_timer co of
            Some (p, deadline, duration) \<Rightarrow>
              if co_active co = Some p
              then JObj [(''session_id'', JStr (pl_session p)), (''duration_seconds'', JInt duration),
                         (''remaining_seconds'', remaining_seconds duration (deadline - now))]
              else JNull
          | None \<Rightarrow> JNull)]))"

text \<open>\<open>set_capture_timer\<close>: the settings are published once SQLite has them; \<open>fault\<close> is what it raised.\<close>

definition set_capture_timer ::
  "json \<Rightarrow> string \<Rightarrow> pyexc option \<Rightarrow> rat \<Rightarrow> json \<times> coordinator \<Rightarrow> json res \<times> json \<times> coordinator" where
  "set_capture_timer settings now fault clock s =
     (case s of (old, co) \<Rightarrow>
        tryS (guardE (\<not> valid_timer_settings settings) (provider_fault ''invalid_request'' False) (Inr ())) s (\<lambda>_.
        if co_active co \<noteq> None \<or> co_closing co \<or> co_stop co \<noteq> None \<or> co_worker co \<noteq> None \<or> co_failing co \<noteq> None
        then (Inl (provider_fault ''capture_busy'' False), s)
        else tryS (case fault of Some e \<Rightarrow> Inl e | None \<Rightarrow> put_document ''capture_timer'' (canon settings) now True (cs_tables (co_store co))) s
          (\<lambda>tables.
             let co1 = co\<lparr>co_store := (co_store co)\<lparr>cs_tables := tables\<rparr>\<rparr> in
             (capture_timer_status settings clock co1, settings, co1))))"

text \<open>\<open>enforce_capture_timer\<close>: the session whose time is up.\<close>

definition timer_due :: "rat \<Rightarrow> coordinator \<Rightarrow> string option" where
  "timer_due now co =
     (case co_timer co of
        Some (p, deadline, duration) \<Rightarrow>
          if co_active co \<noteq> Some p \<or> co_closing co \<or> co_projection co \<noteq> None \<or> now < deadline then None
          else Some (pl_session p)
      | None \<Rightarrow> None)"

section \<open>The storage reserve\<close>

text \<open>\<open>backing_capacity\<close>: the hosts of a loop device, tightest budget first.  A layer says what \<open>stat\<close>
  and the loop node of one path answered.\<close>

datatype backing = Gone | Block | Regular int int | Other

record layer =
  ly_device :: "(int \<times> int) option"
  ly_node :: "string option option"
  ly_backing :: "string \<Rightarrow> backing"

definition removed_newline :: "string \<Rightarrow> string" where
  "removed_newline s = (if s \<noteq> [] \<and> last s = CHR 0x0A then butlast s else s)"

definition storage_unavailable :: pyexc where
  "storage_unavailable = device_error ''storage_unavailable''"

definition tighter :: "(int \<times> int) option \<Rightarrow> int \<times> int \<Rightarrow> int \<times> int" where
  "tighter acc a = (case acc of None \<Rightarrow> a | Some b \<Rightarrow> (min (fst b) (fst a), min (snd b) (snd a)))"

fun backing_walk ::
  "(string \<Rightarrow> layer) \<Rightarrow> nat \<Rightarrow> string \<Rightarrow> (int \<times> int) list \<Rightarrow> (int \<times> int) option \<Rightarrow> (int \<times> int) option res" where
  "backing_walk look 0 current seen acc = Inl storage_unavailable"
| "backing_walk look (Suc fuel) current seen acc =
     (let l = look current in
      case ly_device l of
        None \<Rightarrow> Inl storage_unavailable
      | Some dev \<Rightarrow>
          if dev \<in> set seen then Inl storage_unavailable
          else
            (case ly_node l of
               None \<Rightarrow> Inl storage_unavailable
             | Some None \<Rightarrow> if fst dev = 7 then Inl storage_unavailable else Inr acc
             | Some (Some raw) \<Rightarrow>
                 (let path = removed_newline raw in
                  if path = [] \<or> hd path \<noteq> CHR ''/'' \<or> CHR 0x0A \<in> set path then Inl storage_unavailable
                  else
                    (case ly_backing l path of
                       Gone \<Rightarrow> Inl storage_unavailable
                     | Block \<Rightarrow> Inr acc
                     | Other \<Rightarrow> Inl storage_unavailable
                     | Regular free_bytes free_inodes \<Rightarrow>
                         backing_walk look fuel path (dev # seen) (Some (tighter acc (free_bytes, free_inodes)))))))"

definition backing_capacity :: "(string \<Rightarrow> layer) \<Rightarrow> string \<Rightarrow> (int \<times> int) option res" where
  "backing_capacity look mountpoint = backing_walk look 8 mountpoint [] None"

definition require_backing_reserve :: "(string \<Rightarrow> layer) \<Rightarrow> string \<Rightarrow> int \<Rightarrow> int \<Rightarrow> unit res" where
  "require_backing_reserve look mountpoint least_bytes least_inodes =
     bindE (backing_capacity look mountpoint) (\<lambda>capacity.
       case capacity of
         None \<Rightarrow> Inr ()
       | Some (free_bytes, free_inodes) \<Rightarrow>
           guardE (free_bytes < least_bytes) (device_error ''insufficient_space'')
             (guardE (free_inodes < least_inodes) (device_error ''insufficient_inodes'') (Inr ())))"

definition require_capture_reserve ::
  "(string \<Rightarrow> layer) \<Rightarrow> string \<Rightarrow> int \<Rightarrow> int \<Rightarrow> int \<times> int \<Rightarrow> unit res" where
  "require_capture_reserve look mountpoint least_bytes least_inodes free =
     bindE (require_backing_reserve look mountpoint least_bytes least_inodes) (\<lambda>_.
       guardE (fst free < least_bytes) (device_error ''insufficient_space'')
         (guardE (snd free < least_inodes) (device_error ''insufficient_inodes'') (Inr ())))"

text \<open>Why a recording must stop, if it must: the volume's budget and the tightest budget of its hosts.\<close>

definition reserve_reason :: "int \<Rightarrow> int \<Rightarrow> int \<times> int \<Rightarrow> (int \<times> int) option res \<Rightarrow> string option" where
  "reserve_reason least_bytes least_inodes free host =
     (let low = (\<lambda>(b, i). b < least_bytes \<or> i < least_inodes) in
      case host of
        Inl e \<Rightarrow> Some ''backing_capacity_unavailable''
      | Inr h \<Rightarrow>
          if \<not> low free \<and> (case h of None \<Rightarrow> True | Some b \<Rightarrow> \<not> low b) then None
          else if fst free < least_bytes then Some ''volume_bytes_low''
          else if snd free < least_inodes then Some ''volume_inodes_low''
          else if (case h of None \<Rightarrow> False | Some b \<Rightarrow> fst b < least_bytes) then Some ''backing_bytes_low''
          else Some ''backing_inodes_low'')"

text \<open>\<open>enforce_storage_reserve\<close> up to the stop: \<open>probe\<close> is the capacity of the volume, \<open>host\<close> that of its
  hosts, and \<open>between\<close> what other threads do while they are read.\<close>

definition reserve_watch :: "coordinator \<Rightarrow> (plan \<times> admission) option res" where
  "reserve_watch co =
     (case co_active co of
        None \<Rightarrow> Inr None
      | Some p \<Rightarrow>
          if co_closing co \<or> co_stop co \<noteq> None \<or> co_projection co \<noteq> None then Inr None
          else
            (case co_admission co of
               None \<Rightarrow> Inr None
             | Some a \<Rightarrow>
                 if co_released co then Inl (device_error ''volume_released'')
                 else if co_media_lost co then Inl (device_error ''media_lost'')
                 else Inr (Some (p, a))))"

definition reserve_check ::
  "int \<Rightarrow> int \<Rightarrow> (int \<times> int) res \<Rightarrow> (int \<times> int) option res \<Rightarrow> (coordinator \<Rightarrow> coordinator) \<Rightarrow> coordinator
     \<Rightarrow> (string \<times> string) option res \<times> coordinator" where
  "reserve_check least_bytes least_inodes probe host between co =
     tryS (reserve_watch co) co (\<lambda>watched.
       case watched of
         None \<Rightarrow> (Inr None, co)
       | Some (p, a) \<Rightarrow>
           (let co1 = between co in
            case probe of
              Inl e \<Rightarrow>
                if co_active co1 \<noteq> Some p \<or> co_admission co1 \<noteq> Some a then (Inr None, co1)
                else (Inl e, if e = device_error ''media_lost'' then co1\<lparr>co_media_lost := True\<rparr> else co1)
            | Inr free \<Rightarrow>
                if co_active co1 \<noteq> Some p \<or> co_admission co1 \<noteq> Some a \<or> co_closing co1 \<or> co_stop co1 \<noteq> None \<or>
                   co_failing co1 \<noteq> None
                then (Inr None, co1)
                else (Inr (map_option (\<lambda>reason. (pl_session p, reason))
                        (reserve_reason least_bytes least_inodes free host)), co1)))"

section \<open>Failures reported from outside\<close>

text \<open>\<open>_source_failure\<close> and \<open>report_media_loss\<close>, up to \<open>_retain_active_failure\<close>.\<close>

definition source_failure :: "string \<Rightarrow> plan option \<Rightarrow> coordinator \<Rightarrow> plan option" where
  "source_failure generation expected co =
     (case co_active co of
        None \<Rightarrow> None
      | Some p \<Rightarrow>
          if pl_generation p \<noteq> generation \<or> (expected \<noteq> None \<and> expected \<noteq> Some p) then None else Some p)"

definition report_media_loss :: "string \<Rightarrow> admission \<Rightarrow> coordinator \<Rightarrow> plan option res \<times> coordinator" where
  "report_media_loss generation a co =
     (if generation \<noteq> ad_generation a then (Inl (device_error ''stale_generation''), co)
      else
        (case co_active co of
           None \<Rightarrow> (Inr None, co)
         | Some p \<Rightarrow> (Inr (Some p), co\<lparr>co_media_lost := True\<rparr>)))"

end
