(* ===== verification/CaptureWaits.thy ===== *)
theory CaptureWaits
  imports CaptureControls
begin

text \<open>
  The callers of the capture coordinator that wait (\<open>recording/coordinator.py\<close>): the synchronous stop
  of the timer, the storage monitor and the recording button, deletions, the shutdown, and the
  resources that show an outcome.  A waiter is described by its turns: one turn is one pass of the
  loop under the command lock, and what other threads did while it slept is an argument.
\<close>

section \<open>What is shown\<close>

definition capture_snapshot_event :: "status_view \<Rightarrow> string \<Rightarrow> coordinator \<Rightarrow> json \<times> coordinator" where
  "capture_snapshot_event V now co =
     (case capture_status V co of
        (doc, co1) \<Rightarrow>
          (let snapshot = (case doc of JObj d \<Rightarrow> jget d ''snapshot'' | _ \<Rightarrow> JNull);
               active = (case snapshot of JObj s \<Rightarrow> jget s ''active_recording'' | _ \<Rightarrow> JNull);
               session = (case active of JObj a \<Rightarrow> (case jget a ''recording_state'' of JObj st \<Rightarrow> jget st ''session_id'' | _ \<Rightarrow> JNull)
                          | _ \<Rightarrow> JNull) in
           (JObj [(''authority_epoch'', JStr (co_epoch co1)),
                  (''source_revision'', case doc of JObj d \<Rightarrow> jget d ''source_revision'' | _ \<Rightarrow> JNull),
                  (''type'', JStr ''snapshot''), (''occurred_at'', JStr now), (''session_id'', session), (''data'', snapshot)],
            co1)))"

definition capture_recording_progress :: "status_view \<Rightarrow> coordinator \<Rightarrow> (string \<times> int \<times> json) \<times> coordinator" where
  "capture_recording_progress V co =
     (case recording_snapshot V co of
        ((rev_no, device_state, active, retained), co1) \<Rightarrow>
          ((co_epoch co1, rev_no, case active of JObj a \<Rightarrow> jget a ''recording_state'' | _ \<Rightarrow> JNull), co1))"

definition retained_unsuccessful_outcome :: "string \<Rightarrow> coordinator \<Rightarrow> json" where
  "retained_unsuccessful_outcome sid co =
     (if (case co_active co of Some p \<Rightarrow> pl_session p = sid | None \<Rightarrow> False) then JNull
      else
        (case map_of (co_retained co) sid of
           Some (JObj outcome) \<Rightarrow>
             (case jget outcome ''recording_state'' of
                JObj st \<Rightarrow>
                  JObj [(''schema'', JStr ''ylx.retained-unsuccessful-session-resource.v2''),
                        (''authority_epoch'', jget st ''authority_epoch''), (''source_revision'', jget st ''state_revision''),
                        (''outcome'', JObj outcome)]
              | _ \<Rightarrow> JNull)
         | _ \<Rightarrow> JNull))"

definition current_safe_swap_receipt :: "coordinator \<Rightarrow> json res" where
  "current_safe_swap_receipt co =
     (case (co_swap co, co_swap_failure co) of
        (Some w, Some f) \<Rightarrow> Inl (provider_fault (text_of (jget f ''code'')) True)
      | _ \<Rightarrow> Inr (or_null (co_swap_resource co)))"

definition artifact_io_state :: "string \<Rightarrow> coordinator \<Rightarrow> string option" where
  "artifact_io_state recorder_state co =
     (if co_projection co \<noteq> None then Some ''finalizing''
      else if co_active co \<noteq> None then Some recorder_state
      else if co_released co \<or> co_swap co \<noteq> None then Some ''device-released''
      else None)"

subsection \<open>The latest IMU sample\<close>

record imu_receipt =
  ir_session :: "string option"
  ir_sample :: imu_sample
  ir_received :: rat

definition sample_key :: "imu_sample \<Rightarrow> int \<times> int \<times> int \<times> int \<times> int" where
  "sample_key s = (is_sequence s, is_packet s, is_index s, is_timestamp s, is_host s)"

definition vector_json :: "vector3 \<Rightarrow> json" where
  "vector_json v = JObj [(''x'', JInt (vx v)), (''y'', JInt (vy v)), (''z'', JInt (vz v))]"

definition live_imu_from_sample :: "string option \<Rightarrow> imu_sample \<Rightarrow> json" where
  "live_imu_from_sample session s =
     JObj [(''session_id'', case session of None \<Rightarrow> JNull | Some sid \<Rightarrow> JStr sid),
           (''clock'', JObj [(''time_base'', JStr ''host_monotonic''), (''timestamp_ns'', JInt (is_host s))]),
           (''raw'', JObj [(''units'', JStr ''raw_int16''), (''accelerometer'', vector_json (is_accelerometer s)),
                         (''gyroscope'', vector_json (is_gyroscope s))]),
           (''sync'', JObj [(''quality'', JStr (is_quality s))])]"

definition imu_stale_seconds :: rat where
  "imu_stale_seconds = 2"

definition fresh_live_imu :: "imu_receipt option \<Rightarrow> string option \<Rightarrow> rat \<Rightarrow> (string option \<times> imu_sample) option" where
  "fresh_live_imu latest session now =
     (case latest of
        None \<Rightarrow> None
      | Some r \<Rightarrow>
          if ir_session r \<noteq> session then None
          else if now - ir_received r > imu_stale_seconds then None
          else Some (ir_session r, ir_sample r))"

definition store_latest_imu :: "string option \<Rightarrow> imu_sample \<Rightarrow> rat \<Rightarrow> imu_receipt option \<Rightarrow> imu_receipt" where
  "store_latest_imu session s observed latest =
     (case latest of
        Some c \<Rightarrow>
          if ir_session c = session \<and> (sample_key (ir_sample c) = sample_key s \<or> observed < ir_received c) then c
          else \<lparr>ir_session = session, ir_sample = s, ir_received = observed\<rparr>
      | None \<Rightarrow> \<lparr>ir_session = session, ir_sample = s, ir_received = observed\<rparr>)"

definition recording_session :: "coordinator \<Rightarrow> string option" where
  "recording_session co = map_option pl_session (co_active co)"

definition live_imu_snapshot :: "imu_receipt option \<Rightarrow> rat \<Rightarrow> coordinator \<Rightarrow> json" where
  "live_imu_snapshot latest now co =
     (case fresh_live_imu latest (recording_session co) now of
        None \<Rightarrow> JNull
      | Some (session, s) \<Rightarrow> live_imu_from_sample session s)"

section \<open>The synchronous stop\<close>

datatype turn = Sleep | Proceed | Settled answer | Recommit answer | Resume | Finish plan

text \<open>\<open>_remember_command\<close> while the command lock is held.\<close>

definition remember_settled ::
  "string \<Rightarrow> pyexc option \<Rightarrow> capture_command \<Rightarrow> answer \<Rightarrow> coordinator \<Rightarrow> turn res \<times> coordinator" where
  "remember_settled now fault cmd a co =
     andS (persist_state now fault (remember_answer (stop_scope cmd) (cc_canonical cmd) a co)) (\<lambda>co1. (Inr (Settled a), co1))"

record wait_env =
  wa_admit :: "coordinator \<Rightarrow> admission res \<times> coordinator"
  wa_lease :: "unit res"
  wa_now :: string
  wa_fault :: "pyexc option"

definition claim_stop :: "capture_command \<Rightarrow> coordinator \<Rightarrow> coordinator" where
  "claim_stop cmd co = co\<lparr>co_stop := Some (stop_scope cmd)\<rparr>"

definition take_stop :: "wait_env \<Rightarrow> capture_command \<Rightarrow> coordinator \<Rightarrow> turn res \<times> coordinator" where
  "take_stop E cmd co =
     (case as_provider True (case co_admission co of Some a \<Rightarrow> (Inr a, co) | None \<Rightarrow> wa_admit E co) of
        (Inl e, co1) \<Rightarrow> (Inl e, co1)
      | (Inr a, co1) \<Rightarrow>
          (case co_active co1 of
             Some p \<Rightarrow> (Inr (Finish p), claim_stop cmd co1)
           | None \<Rightarrow>
               if for_swap cmd \<and> co_swap co1 \<noteq> None
               then tryS (if co_lease co1 then Inl (provider_fault ''network_state_unavailable'' True) else wa_lease E) co1
                      (\<lambda>_. (Inr Resume, claim_stop cmd (co1\<lparr>co_lease := True\<rparr>)))
               else remember_settled (wa_now E) (wa_fault E) cmd (plain_answer 204 JNull) co1))"

definition stop_turn ::
  "wait_env \<Rightarrow> capture_command \<Rightarrow> string option \<Rightarrow> plan option \<Rightarrow> coordinator \<Rightarrow> turn res \<times> coordinator" where
  "stop_turn E cmd expected requested co =
     (if expected \<noteq> None \<and> map_option pl_session (co_active co) \<noteq> expected then (Inr (Settled (plain_answer 204 JNull)), co)
      else tryS (require_valid_receipt (stop_scope cmd) co) co (\<lambda>_.
        (case map_of (lg_commands (co_ledger co)) (stop_scope cmd) of
           Some r \<Rightarrow>
             if ct_canonical r \<noteq> cc_canonical cmd then (Inl (provider_fault ''idempotency_conflict'' False), co)
             else if durable_receipt (stop_scope cmd) r co then (Inr (Settled (replayed (ct_answer r))), co)
             else if stop_busy co then (Inr Sleep, co)
             else (Inr (Recommit (replayed (ct_answer r))), claim_stop cmd co)
         | None \<Rightarrow>
             if co_active co \<noteq> None \<and> co_active co \<noteq> requested then
               (if for_swap cmd then (Inl (provider_fault ''capture_state_changed'' False), co)
                else remember_settled (wa_now E) (wa_fault E) cmd (plain_answer 204 JNull) co)
             else if stop_busy co then (Inr Sleep, co)
             else take_stop E cmd co)))"

text \<open>The turns of one waiter: between two of them the other threads act.  \<open>None\<close> is a waiter that
  still sleeps.\<close>

fun stop_turns ::
  "(coordinator \<Rightarrow> turn res \<times> coordinator) \<Rightarrow> (coordinator \<Rightarrow> coordinator) list \<Rightarrow> coordinator
     \<Rightarrow> (turn res \<times> coordinator) option" where
  "stop_turns pass fs co =
     (case pass co of
        (Inr Sleep, co1) \<Rightarrow> (case fs of [] \<Rightarrow> None | f # fs' \<Rightarrow> stop_turns pass fs' (f co1))
      | m \<Rightarrow> Some m)"

text \<open>\<open>_commit_stop_replay\<close>, and the waiting form of \<open>_retry_completed_stop_receipt\<close>.\<close>

definition commit_replay :: "finish_env \<Rightarrow> scope \<Rightarrow> answer \<Rightarrow> coordinator \<Rightarrow> answer res \<times> coordinator" where
  "commit_replay E s a co =
     (let pending = lg_stop_commit (co_ledger co) in
      case andS (persist_at E ''replay'' co) (\<lambda>co1. (Inr a, clear_stop_commit pending (fe_between E ''replayed'' co1))) of
        (r, co2) \<Rightarrow> (r, leave_stop s (fe_between E ''leave'' co2)))"

definition retry_turn :: "capture_command \<Rightarrow> coordinator \<Rightarrow> turn res \<times> coordinator" where
  "retry_turn cmd co =
     (case claim_replay cmd co of
        (Inl e, co1) \<Rightarrow>
          if e = provider_fault ''capture_busy'' True \<and> \<not> co_closing co then (Inr Sleep, co1) else (Inl e, co1)
      | (Inr None, co1) \<Rightarrow> (Inr Proceed, co1)
      | (Inr (Some a), co1) \<Rightarrow> (Inr (Recommit a), co1))"

text \<open>What follows the claim: the replayed receipt is committed, a pending handoff resumed, or the
  recording finished by this thread.\<close>

definition resume_handoff :: "finish_env \<Rightarrow> capture_command \<Rightarrow> coordinator \<Rightarrow> answer res \<times> coordinator" where
  "resume_handoff E cmd co =
     (case andS (publish_safe_swap E co) (\<lambda>co1.
             remember_at E ''answer'' True cmd (stop_scope cmd) (plain_answer 204 JNull) (fe_between E ''published'' co1)) of
        (r, co2) \<Rightarrow>
          (let co3 = fe_between E ''leave'' co2 in
           (r, if co_stop co3 = Some (stop_scope cmd) then release_lease (co3\<lparr>co_stop := None\<rparr>) else co3)))"

definition run_stop :: "finish_env \<Rightarrow> capture_command \<Rightarrow> turn res \<times> coordinator \<Rightarrow> answer res \<times> coordinator" where
  "run_stop E cmd m =
     (case m of
        (Inl e, co) \<Rightarrow> (Inl e, co)
      | (Inr Sleep, co) \<Rightarrow> (Inl AssertionError, co)
      | (Inr Proceed, co) \<Rightarrow> (Inl AssertionError, co)
      | (Inr (Settled a), co) \<Rightarrow> (Inr a, co)
      | (Inr (Recommit a), co) \<Rightarrow> commit_replay E (stop_scope cmd) a (fe_between E ''claimed'' co)
      | (Inr Resume, co) \<Rightarrow> resume_handoff E cmd (fe_between E ''claimed'' co)
      | (Inr (Finish p), co) \<Rightarrow> finish_stop E cmd (stop_scope cmd) p True (fe_between E ''claimed'' co))"

definition stop_now ::
  "wait_env \<Rightarrow> finish_env \<Rightarrow> capture_command \<Rightarrow> string option \<Rightarrow> (coordinator \<Rightarrow> coordinator) list \<Rightarrow> coordinator
     \<Rightarrow> (answer res \<times> coordinator) option" where
  "stop_now W E cmd expected fs co =
     map_option (run_stop E cmd) (stop_turns (stop_turn W cmd expected (co_active co)) fs co)"

text \<open>\<open>stop_capture\<close>: without an expected session a completed stop whose receipt is not durable is
  committed first, and answered by it when it is the same command.  \<open>before_stop\<close> is that part: it answers
  (\<open>Inl\<close>), leaves the state in which the stop reads the active recording (\<open>Inr\<close>), or still waits (\<open>None\<close>).\<close>

definition before_stop ::
  "finish_env \<Rightarrow> capture_command \<Rightarrow> string option \<Rightarrow> (coordinator \<Rightarrow> coordinator) list \<Rightarrow> coordinator
     \<Rightarrow> (answer res \<times> coordinator + coordinator) option" where
  "before_stop E cmd expected gs co =
     (if expected \<noteq> None then Some (Inr co)
      else
        (case stop_turns (retry_turn cmd) gs co of
           None \<Rightarrow> None
         | Some (Inr Proceed, co1) \<Rightarrow> Some (Inr (fe_between E ''retried'' co1))
         | Some (Inr (Recommit a), co1) \<Rightarrow>
             (case commit_replay E (stop_scope cmd) a (fe_between E ''claimed'' co1) of
                (Inl e, co2) \<Rightarrow> Some (Inl (Inl e, co2))
              | (Inr b, co2) \<Rightarrow>
                  if map_of (lg_commands (co_ledger co1)) (stop_scope cmd) \<noteq> None then Some (Inl (Inr b, co2))
                  else Some (Inr (fe_between E ''retried'' co2)))
         | Some m \<Rightarrow> Some (Inl (run_stop E cmd m))))"

definition stop_capture ::
  "wait_env \<Rightarrow> finish_env \<Rightarrow> capture_command \<Rightarrow> string option \<Rightarrow> (coordinator \<Rightarrow> coordinator) list
     \<Rightarrow> (coordinator \<Rightarrow> coordinator) list \<Rightarrow> coordinator \<Rightarrow> (answer res \<times> coordinator) option" where
  "stop_capture W E cmd expected gs fs co =
     (case before_stop E cmd expected gs co of
        None \<Rightarrow> None
      | Some (Inl m) \<Rightarrow> Some m
      | Some (Inr co1) \<Rightarrow> stop_now W E cmd expected fs co1)"

section \<open>Deletions and shutdown\<close>

text \<open>What refuses a deletion; \<open>verifying\<close> and \<open>catalog_busy\<close> are the catalogue's locks.\<close>

definition deletion_admitted ::
  "(coordinator \<Rightarrow> admission res \<times> coordinator) \<Rightarrow> mount_probe \<Rightarrow> bool \<Rightarrow> bool \<Rightarrow> coordinator \<Rightarrow> unit res \<times> coordinator" where
  "deletion_admitted admit probe verifying catalog_busy co =
     (if co_active co \<noteq> None \<or> co_stop co \<noteq> None then (Inl (provider_fault ''capture_busy'' False), co)
      else if co_released co \<or> co_swap co \<noteq> None then (Inl (provider_fault ''volume_releasing'' False), co)
      else if co_open co \<noteq> 0 then (Inl (provider_fault ''download_busy'' False), co)
      else if verifying then (Inl (provider_fault ''verification_cancelling'' True), co)
      else andS (as_provider False (check_generation admit probe None True co)) (\<lambda>co1.
        if catalog_busy then (Inl (provider_fault ''catalog_busy'' True), co1) else (Inr (), co1)))"

text \<open>\<open>_forget_deleted_outcomes\<close>.\<close>

definition forget_outcomes :: "string list \<Rightarrow> coordinator \<Rightarrow> coordinator" where
  "forget_outcomes gone co =
     (let removed = filter (\<lambda>s. s \<in> set gone) (map fst (co_retained co)) in
      if removed = [] then co
      else
        (let shown = (if co_active co = None then visible_outcome co else JNull);
             co1 = co\<lparr>co_retained := filter (\<lambda>(s, v). s \<notin> set removed) (co_retained co)\<rparr> in
         case shown of
           JObj o' \<Rightarrow>
             (case jget o' ''recording_state'' of
                JObj st \<Rightarrow> if in_strs (jget st ''session_id'') removed then next_capture_revision co1 else co1
              | _ \<Rightarrow> co1)
         | _ \<Rightarrow> co1))"

definition delete_sessions ::
  "(coordinator \<Rightarrow> admission res \<times> coordinator) \<Rightarrow> mount_probe \<Rightarrow> bool \<Rightarrow> bool \<Rightarrow> (jobject \<Rightarrow> (json \<times> string list) res) \<Rightarrow>
     capture_command \<Rightarrow> string \<Rightarrow> pyexc option \<Rightarrow> coordinator \<Rightarrow> answer res \<times> coordinator" where
  "delete_sessions admit probe verifying catalog_busy remove cmd now fault co =
     (if \<not> valid_delete_request (JObj (cc_body cmd)) then (Inl (provider_fault ''invalid_request'' False), co)
      else idempotent ''delete'' cmd (\<lambda>co0.
        andS (deletion_admitted admit probe verifying catalog_busy co0) (\<lambda>co1.
          tryS (remove (cc_body cmd)) co1 (\<lambda>(doc, gone).
            (Inr (plain_answer 200 doc), forget_outcomes gone co1)))) now fault co)"

text \<open>\<open>_close_capture\<close>: it waits until nobody owns anything, aborts the recording, keeps its outcome and
  gives everything back.  \<open>state\<close> is what the aborted recorder shows.\<close>

definition begin_close :: "coordinator \<Rightarrow> coordinator" where
  "begin_close co = co\<lparr>co_closing := True\<rparr>"

definition close_waits :: "bool \<Rightarrow> coordinator \<Rightarrow> bool" where
  "close_waits verifying co \<longleftrightarrow> stop_busy co \<or> verifying"

definition close_claim :: "coordinator \<Rightarrow> coordinator" where
  "close_claim co = (if co_active co = None then co else co\<lparr>co_stop := Some (''internal'', ''close'', ''shutdown'')\<rparr>)"

definition close_end :: "jobject option \<Rightarrow> string \<Rightarrow> pyexc option \<Rightarrow> bool \<Rightarrow> coordinator \<Rightarrow> unit res \<times> coordinator" where
  "close_end state now fault had_active co =
     (let co1 = (if \<not> had_active then co
            else
              (let held = (case (state, co_active co) of
                  (Some st, Some p) \<Rightarrow> co\<lparr>co_retained := jset (pl_session p)
                      (JObj [(''generation_id'', JStr (pl_generation p)), (''recording_state'', JObj st)]) (co_retained co)\<rparr>
                | _ \<Rightarrow> co) in
               held\<lparr>co_active := None, co_timer := None, co_uncommitted := None, co_projection := None\<rparr>));
          (r, co2) = persist_state now fault co1 in
      (r, release_lease (co2\<lparr>co_stop := None\<rparr>)))"

definition close_capture ::
  "(coordinator \<Rightarrow> coordinator) \<Rightarrow> unit res \<Rightarrow> jobject option \<Rightarrow> string \<Rightarrow> pyexc option \<Rightarrow> coordinator \<Rightarrow> unit res \<times> coordinator" where
  "close_capture aborting abort state now fault co =
     (let co1 = close_claim co; co2 = aborting co1 in
      case (if co_active co = None then Inr () else abort) of
        Inl e \<Rightarrow> (Inl e, release_lease (co2\<lparr>co_stop := None\<rparr>))
      | Inr u \<Rightarrow> close_end state now fault (co_active co \<noteq> None) co2)"

end
