(* ===== verification/LedgerRuns.thy ===== *)
theory LedgerRuns
  imports CaptureLedger
begin

text \<open>
  The receipt ledger under concurrency: snapshots are taken under the command lock and written later
  in any order, writes may fail, receipts are cached, rolled back and forgotten in between.  The
  runs are an inductive step relation; the invariant says that the stored document and rows are
  those of the newest snapshot that reached the database.
\<close>

section \<open>Rows as a map\<close>

lemma map_of_snoc: "map_of (rows @ [(k, v)]) s =
    (case map_of rows s of None \<Rightarrow> if s = k then Some v else None | Some x \<Rightarrow> Some x)"
  by (simp add: map_add_def split: option.splits)

lemma map_of_filter_fst: "map_of (filter (\<lambda>r. P (fst r)) rows) s = (if P s then map_of rows s else None)"
  by (induction rows) auto

lemma map_of_insert_ignore:
  "map_of (insert_ignore (k, v) rows) s =
     (if s = k \<and> map_of rows s = None then Some v else map_of rows s)"
proof -
  have "k \<in> fst ` set rows \<longleftrightarrow> map_of rows k \<noteq> None" by (simp add: map_of_eq_None_iff)
  then show ?thesis
    by (simp add: insert_ignore_def map_add_def split: option.splits) auto
qed

lemma map_of_insert_replace [simp]:
  "map_of (insert_replace (k, v) rows) s = (if s = k then Some v else map_of rows s)"
  unfolding insert_replace_def fst_conv
  by (simp add: map_add_def map_of_filter_fst [of "\<lambda>x. x \<noteq> k"] split: option.splits)

lemma map_of_delete_rows [simp]:
  "map_of (delete_rows ss rows) s = (if s \<in> set ss then None else map_of rows s)"
  unfolding delete_rows_def by (auto simp: map_of_filter_fst [of "\<lambda>x. x \<notin> set ss"])

lemma fold_insert_ignore_keeps:
  "map_of rows s = Some v \<Longrightarrow> map_of (fold insert_ignore es rows) s = Some v"
  by (induction es arbitrary: rows) (auto simp: map_of_insert_ignore)

lemma fold_insert_ignore_other:
  "s \<notin> fst ` set es \<Longrightarrow> map_of (fold insert_ignore es rows) s = map_of rows s"
  by (induction es arbitrary: rows) (auto simp: map_of_insert_ignore)

lemma fold_insert_replace:
  "distinct (map fst cs) \<Longrightarrow>
   map_of (fold (\<lambda>(s, c). insert_replace (s, f c)) cs rows) s =
     (case map_of cs s of Some c \<Rightarrow> Some (f c) | None \<Rightarrow> map_of rows s)"
proof (induction cs arbitrary: rows)
  case (Cons x cs)
  obtain k c where x: "x = (k, c)" by (cases x)
  have "map_of cs k = None" if "s = k" using Cons.prems x that by (simp add: map_of_eq_None_iff)
  then show ?case using Cons x by (auto split: option.splits)
qed simp

lemma distinct_insert_ignore: "distinct (map fst rows) \<Longrightarrow> distinct (map fst (insert_ignore row rows))"
  by (auto simp: insert_ignore_def)

lemma distinct_insert_replace: "distinct (map fst rows) \<Longrightarrow> distinct (map fst (insert_replace row rows))"
  by (auto simp: insert_replace_def distinct_map filter_map intro: inj_on_subset)

section \<open>One write\<close>

lemma mapE_map: "(\<And>x. x \<in> set xs \<Longrightarrow> f (g x) = Inr (h x)) \<Longrightarrow> mapE f (map g xs) = Inr (map h xs)"
  by (induction xs) auto

definition entry_evidence :: "json \<Rightarrow> row_text option" where
  "entry_evidence r = (case r of JNull \<Rightarrow> None | JStr t \<Rightarrow> Some (Verbatim t) | v \<Rightarrow> Some (Printed v))"

lemma quarantined_entries_written:
  assumes "\<And>s r. (s, r) \<in> set bad \<Longrightarrow> proper_scope s"
  shows "quarantined_entries (x # (''invalid_commands'', invalid_entries bad) # life) =
           (if fst x = ''invalid_commands'' then quarantined_entries [x]
            else Inr (map (\<lambda>(s, r). (s, entry_evidence r)) bad))"
proof -
  have "mapE read_quarantined (map (\<lambda>(s, r). JObj ((''scope'', scope_json s) # (if r = JNull then [] else [(''receipt'', r)]))) bad)
      = Inr (map (\<lambda>(s, r). (s, entry_evidence r)) bad)"
    using assms by (intro mapE_map) (auto simp: read_quarantined_def entry_evidence_def split: json.splits)
  then show ?thesis by (auto simp: quarantined_entries_def invalid_entries_def)
qed

lemma new_receipts_keys: "fst ` set (new_receipts persisted commands) \<subseteq> fst ` set commands"
  by (force simp: new_receipts_def)

lemma distinct_new_receipts:
  "distinct (map fst commands) \<Longrightarrow> distinct (map fst (new_receipts persisted commands))"
proof -
  assume d: "distinct (map fst commands)"
  have "map fst (new_receipts persisted commands) =
      map fst (filter (\<lambda>(s, r). \<not> same_receipt (map_of persisted s) r) commands)"
    by (simp add: new_receipts_def case_prod_unfold)
  then show ?thesis using d by (metis distinct_map_filter)
qed

lemma map_of_new_receipts:
  assumes "distinct (map fst commands)"
  shows "map_of (new_receipts persisted commands) s =
    (case map_of commands s of
       None \<Rightarrow> None
     | Some r \<Rightarrow> if same_receipt (map_of persisted s) r then None else Some (receipt_document s r))"
  using assms
proof (induction commands)
  case (Cons x commands)
  obtain k r where x: "x = (k, r)" by (cases x)
  have "map_of commands k = None" using Cons.prems x by (simp add: map_of_eq_None_iff)
  then show ?case using Cons x by (auto simp: new_receipts_def split: option.splits)
qed (simp add: new_receipts_def)

lemma dropped_scopes_set:
  "set (dropped_scopes persisted commands) = fst ` set persisted - fst ` set commands"
  by (auto simp: dropped_scopes_def)


lemma same_receipt_iff: "same_receipt p r \<longleftrightarrow> (\<exists>q. p = Some q \<and> ct_id q = ct_id r)"
  by (auto simp: same_receipt_def split: option.splits)

definition printed :: "scope \<Rightarrow> receipt \<Rightarrow> row_text" where
  "printed s r = Printed (canon (JObj (receipt_document s r)))"

text \<open>What one committed write leaves in the rows: the delta against what was persisted is the whole
  snapshot, provided receipts with the same identity are the same receipt.\<close>

definition delta_rows ::
  "(scope \<times> row_text option) list \<Rightarrow> receipts \<Rightarrow> receipts \<Rightarrow> (scope \<times> row_text) list \<Rightarrow> (scope \<times> row_text) list" where
  "delta_rows entries persisted commands rows =
     fold (\<lambda>(s, c). insert_replace (s, Printed (canon (JObj c)))) (new_receipts persisted commands)
       (delete_rows (filter (\<lambda>s. s \<notin> set (map fst entries)) (dropped_scopes persisted commands))
         (fold insert_ignore (evidence_rows entries) rows))"

lemma evidence_rows_keys: "fst ` set (evidence_rows entries) \<subseteq> fst ` set entries"
  by (force simp: evidence_rows_def split: option.splits)

lemma delta_rows_is_overwrite:
  assumes dist: "distinct (map fst commands)"
    and same: "\<And>s r q. map_of commands s = Some r \<Longrightarrow> map_of persisted s = Some q \<Longrightarrow> ct_id q = ct_id r \<Longrightarrow> q = r"
    and rows: "\<And>s q. map_of persisted s = Some q \<Longrightarrow> map_of rows s = Some (printed s q)"
    and s: "s \<notin> fst ` set entries"
  shows "map_of (delta_rows entries persisted commands rows) s =
    (case map_of commands s of
       Some r \<Rightarrow> Some (printed s r)
     | None \<Rightarrow> if map_of persisted s = None then map_of rows s else None)"
proof -
  let ?ignored = "fold insert_ignore (evidence_rows entries) rows"
  have e: "map_of ?ignored s = map_of rows s"
    using s evidence_rows_keys by (intro fold_insert_ignore_other) blast
  have p: "s \<in> fst ` set persisted \<longleftrightarrow> map_of persisted s \<noteq> None" by (simp add: map_of_eq_None_iff)
  have c: "s \<in> fst ` set commands \<longleftrightarrow> map_of commands s \<noteq> None" by (simp add: map_of_eq_None_iff)
  have d: "map_of (delete_rows (filter (\<lambda>s. s \<notin> set (map fst entries)) (dropped_scopes persisted commands)) ?ignored) s
      = (if map_of persisted s \<noteq> None \<and> map_of commands s = None then None else map_of rows s)"
    using s by (simp add: dropped_scopes_set e p c)
  show ?thesis
    unfolding delta_rows_def
    by (subst fold_insert_replace [OF distinct_new_receipts [OF dist]], subst d, subst map_of_new_receipts [OF dist])
       (use same [of s] rows [of s] in \<open>auto simp: same_receipt_iff printed_def split: option.splits\<close>)
qed

lemma delta_rows_keeps_evidence:
  assumes "distinct (map fst commands)" and "s \<in> fst ` set entries" and "s \<notin> fst ` set commands"
    and "map_of rows s = Some t"
  shows "map_of (delta_rows entries persisted commands rows) s = Some t"
proof -
  have "map_of commands s = None" using assms(3) by (simp add: map_of_eq_None_iff)
  then show ?thesis
    unfolding delta_rows_def
    using assms fold_insert_ignore_keeps [OF assms(4), of "evidence_rows entries"]
    by (simp add: fold_insert_replace [OF distinct_new_receipts] map_of_new_receipts)
qed

lemma distinct_delta_rows:
  "distinct (map fst rows) \<Longrightarrow> distinct (map fst (delta_rows entries persisted commands rows))"
proof -
  assume d: "distinct (map fst rows)"
  have i: "distinct (map fst (fold insert_ignore es rows))" for es
    using d by (induction es arbitrary: rows) (auto simp: distinct_insert_ignore)
  have r: "distinct (map fst rs) \<Longrightarrow> distinct (map fst (fold (\<lambda>(s, c). insert_replace (s, f c)) cs rs))" for cs f rs
    by (induction cs arbitrary: rs) (auto simp: distinct_insert_replace)
  show ?thesis
    unfolding delta_rows_def delete_rows_def by (intro r distinct_map_filter i)
qed

section \<open>Runs\<close>

text \<open>\<open>sy_waiting\<close> are the snapshots whose write is still to come; \<open>sy_taken\<close> and \<open>sy_made\<close> record
  every snapshot and every receipt there has been.\<close>

record ledger_system =
  sy_ledger :: ledger
  sy_store :: capture_store
  sy_waiting :: "pending_write set"
  sy_taken :: "pending_write set"
  sy_made :: "(scope \<times> receipt) set"

definition lifecycle_fields :: "jobject \<Rightarrow> bool" where
  "lifecycle_fields life \<longleftrightarrow> {''schema'', ''invalid_commands'', ''commands''} \<inter> fst ` set life = {}"

inductive ledger_step :: "ledger_system \<Rightarrow> ledger_system \<Rightarrow> bool" where
  snapshot: "lifecycle_fields life \<Longrightarrow> take_snapshot life (sy_ledger s) = (w, lg) \<Longrightarrow>
    ledger_step s (s\<lparr>sy_ledger := lg, sy_waiting := insert w (sy_waiting s), sy_taken := insert w (sy_taken s)\<rparr>)"
| written: "w \<in> sy_waiting s \<Longrightarrow> write_snapshot now fault w (sy_ledger s, sy_store s) = (r, lg, db) \<Longrightarrow>
    ledger_step s (s\<lparr>sy_ledger := lg, sy_store := db, sy_waiting := sy_waiting s - {w}\<rparr>)"
| cache: "sc \<notin> fst ` set (lg_invalid (sy_ledger s)) \<Longrightarrow> proper_scope sc \<Longrightarrow>
    ledger_step s (s\<lparr>sy_ledger := cache_command sc c a (sy_ledger s),
      sy_made := insert (sc, \<lparr>ct_id = lg_fresh (sy_ledger s), ct_canonical = c, ct_answer = a\<rparr>) (sy_made s)\<rparr>)"
| rollback: "set cs \<subseteq> sy_made s \<Longrightarrow> distinct (map fst cs) \<Longrightarrow>
    ledger_step s (s\<lparr>sy_ledger := (sy_ledger s)\<lparr>lg_commands := cs\<rparr>\<rparr>)"
| note_focus: "ledger_step s (s\<lparr>sy_ledger := (sy_ledger s)\<lparr>lg_focus := f, lg_stop_commit := c\<rparr>\<rparr>)"

definition ledger_start :: "ledger_system \<Rightarrow> bool" where
  "ledger_start s \<longleftrightarrow>
     (let lg = sy_ledger s in
      sy_waiting s = {} \<and> sy_taken s = {} \<and> sy_made s = set (lg_commands lg) \<and>
      lg_persisted lg = [] \<and> lg_write_seq lg = 0 \<and> lg_persisted_seq lg = 0 \<and>
      distinct (map fst (lg_commands lg)) \<and>
      fst ` set (lg_commands lg) \<inter> fst ` set (lg_invalid lg) = {} \<and>
      list_all (\<lambda>x. proper_scope (fst x)) (lg_invalid lg) \<and>
      inj_on (ct_id \<circ> snd) (set (lg_commands lg)) \<and>
      list_all (\<lambda>x. ct_id (snd x) < lg_fresh lg \<and> proper_scope (fst x)) (lg_commands lg) \<and>
      list_all (\<lambda>x. proper_scope (fst x)) (cs_rows (sy_store s)) \<and>
      distinct (map fst (cs_rows (sy_store s))) \<and>
      documents (cs_tables (sy_store s)) ''capture'' \<noteq> None)"

abbreviation ledger_runs :: "ledger_system \<Rightarrow> ledger_system \<Rightarrow> bool" where
  "ledger_runs \<equiv> ledger_step\<^sup>*\<^sup>*"

text \<open>The document a snapshot becomes: its value with the quarantined identities compacted.\<close>

definition stored_value :: "scope list \<Rightarrow> pending_write \<Rightarrow> json" where
  "stored_value qs w =
     canon (JObj (jset ''invalid_commands'' (JList (map (\<lambda>s. JObj [(''scope'', scope_json s)]) qs)) (pw_value w)))"

definition well_written :: "scope list \<Rightarrow> pending_write \<Rightarrow> bool" where
  "well_written qs w \<longleftrightarrow>
     (\<exists>life bad. lifecycle_fields life \<and> map fst bad = qs \<and>
        pw_value w = (''schema'', JStr ''ylx.capture-coordinator-state.v1'') #
          (''invalid_commands'', invalid_entries bad) # life)"

definition holds_snapshot :: "scope list \<Rightarrow> pending_write \<Rightarrow> capture_store \<Rightarrow> bool" where
  "holds_snapshot qs w db \<longleftrightarrow>
     map_option body (documents (cs_tables db) ''capture'') = Some (stored_value qs w) \<and>
     (\<forall>s r. map_of (pw_commands w) s = Some r \<longrightarrow> map_of (cs_rows db) s = Some (printed s r))"

text \<open>The parts of the invariant: identities, known receipts, snapshots, rows, and the newest write.\<close>

definition ids_ok :: "scope list \<Rightarrow> nat \<Rightarrow> (scope \<times> receipt) set \<Rightarrow> bool" where
  "ids_ok qs fresh made \<longleftrightarrow>
     inj_on (ct_id \<circ> snd) made \<and> (\<forall>x \<in> made. ct_id (snd x) < fresh \<and> fst x \<notin> set qs \<and> proper_scope (fst x))"

definition known :: "(scope \<times> receipt) set \<Rightarrow> receipts \<Rightarrow> bool" where
  "known made cs \<longleftrightarrow> set cs \<subseteq> made \<and> distinct (map fst cs)"

definition snapshots_ok :: "scope list \<Rightarrow> nat \<Rightarrow> (scope \<times> receipt) set \<Rightarrow> pending_write set \<Rightarrow> bool" where
  "snapshots_ok qs n made taken \<longleftrightarrow>
     inj_on pw_seq taken \<and>
     (\<forall>w \<in> taken. known made (pw_commands w) \<and> well_written qs w \<and> 0 < pw_seq w \<and> pw_seq w \<le> n)"

definition rows_ok :: "scope list \<Rightarrow> (scope \<rightharpoonup> row_text) \<Rightarrow> receipts \<Rightarrow> (scope \<times> row_text) list \<Rightarrow> bool" where
  "rows_ok qs rows0 persisted rows \<longleftrightarrow>
     distinct (map fst rows) \<and> list_all (\<lambda>x. proper_scope (fst x)) rows \<and>
     (\<forall>sc. (case map_of persisted sc of
         Some r \<Rightarrow> map_of rows sc = Some (printed sc r)
       | None \<Rightarrow> sc \<notin> set qs \<longrightarrow> map_of rows sc = None \<or> map_of rows sc = rows0 sc)) \<and>
     (\<forall>sc \<in> set qs. rows0 sc \<noteq> None \<longrightarrow> map_of rows sc = rows0 sc)"

definition newest_ok :: "scope list \<Rightarrow> nat \<Rightarrow> pending_write set \<Rightarrow> receipts \<Rightarrow> capture_store \<Rightarrow> bool" where
  "newest_ok qs n taken persisted db \<longleftrightarrow>
     documents (cs_tables db) ''capture'' \<noteq> None \<and>
     (if n = 0 then persisted = []
      else \<exists>w \<in> taken. pw_seq w = n \<and> persisted = pw_commands w \<and> holds_snapshot qs w db)"

definition ledger_inv :: "scope list \<Rightarrow> (scope \<rightharpoonup> row_text) \<Rightarrow> ledger_system \<Rightarrow> bool" where
  "ledger_inv qs rows0 s \<longleftrightarrow>
     (let lg = sy_ledger s in
      map fst (lg_invalid lg) = qs \<and> list_all proper_scope qs \<and>
      ids_ok qs (lg_fresh lg) (sy_made s) \<and>
      known (sy_made s) (lg_commands lg) \<and> known (sy_made s) (lg_persisted lg) \<and>
      snapshots_ok qs (lg_write_seq lg) (sy_made s) (sy_taken s) \<and> sy_waiting s \<subseteq> sy_taken s \<and>
      rows_ok qs rows0 (lg_persisted lg) (cs_rows (sy_store s)) \<and>
      newest_ok qs (lg_persisted_seq lg) (sy_taken s) (lg_persisted lg) (sy_store s))"

lemma ledger_inv_start:
  "ledger_start s \<Longrightarrow> ledger_inv (map fst (lg_invalid (sy_ledger s))) (map_of (cs_rows (sy_store s))) s"
  by (auto simp: ledger_start_def ledger_inv_def Let_def list_all_iff ids_ok_def known_def snapshots_ok_def
      rows_ok_def newest_ok_def)

lemma known_mono: "known made cs \<Longrightarrow> made \<subseteq> made' \<Longrightarrow> known made' cs"
  by (auto simp: known_def)

lemma snapshots_ok_mono: "snapshots_ok qs n made taken \<Longrightarrow> n \<le> n' \<Longrightarrow> made \<subseteq> made' \<Longrightarrow> snapshots_ok qs n' made' taken"
  unfolding snapshots_ok_def by (meson known_mono order_trans)

lemma rows_okD:
  "rows_ok qs rows0 p rows \<Longrightarrow> map_of p sc = Some r \<Longrightarrow> map_of rows sc = Some (printed sc r)"
  "rows_ok qs rows0 p rows \<Longrightarrow> map_of p sc = None \<Longrightarrow> sc \<notin> set qs \<Longrightarrow> map_of rows sc = None \<or> map_of rows sc = rows0 sc"
  unfolding rows_ok_def by (metis (mono_tags, lifting) option.simps(4,5))+

lemma newest_ok_mono: "newest_ok qs n taken p db \<Longrightarrow> taken \<subseteq> taken' \<Longrightarrow> newest_ok qs n taken' p db"
  by (auto simp: newest_ok_def split: if_splits)

lemma put_document_body:
  "put_document name t now h db = Inr db' \<Longrightarrow> map_option body (documents db' name) = Some t"
  by (auto simp: put_document_def Let_def split: if_splits option.splits)

lemma put_document_other:
  "put_document name t now h db = Inr db' \<Longrightarrow> other \<noteq> name \<Longrightarrow> documents db' other = documents db other"
  by (auto simp: put_document_def Let_def split: if_splits option.splits)

definition entries_of :: "(scope \<times> json) list \<Rightarrow> (scope \<times> row_text option) list" where
  "entries_of bad = map (\<lambda>(s, r). (s, entry_evidence r)) bad"

lemma entries_of_keys [simp]: "map fst (entries_of bad) = map fst bad" "fst ` set (entries_of bad) = fst ` set bad"
  by (auto simp: entries_of_def case_prod_unfold image_image)

lemma written_entries:
  assumes "list_all proper_scope (map fst bad)" and "lifecycle_fields life"
    and "v = (''schema'', x) # (''invalid_commands'', invalid_entries bad) # life"
  shows "quarantined_entries v = Inr (entries_of bad)"
    and "compact_value (entries_of bad) v =
      jset ''invalid_commands'' (JList (map (\<lambda>s. JObj [(''scope'', scope_json s)]) (map fst bad))) v"
proof -
  have "proper_scope s" if "(s, r) \<in> set bad" for s r using assms(1) that by (auto simp: list_all_iff)
  then show "quarantined_entries v = Inr (entries_of bad)"
    using quarantined_entries_written [of bad "(''schema'', x)" life] assms(3) by (simp add: entries_of_def)
  have "map (\<lambda>(s, e). JObj [(''scope'', scope_json s)]) (entries_of bad) =
      map (\<lambda>s. JObj [(''scope'', scope_json s)]) (map fst bad)"
    by (simp add: entries_of_def case_prod_unfold)
  then show "compact_value (entries_of bad) v =
      jset ''invalid_commands'' (JList (map (\<lambda>s. JObj [(''scope'', scope_json s)]) (map fst bad))) v"
    using assms(3) by (simp add: compact_value_def)
qed

lemma put_capture_state_shape:
  assumes v: "list_all proper_scope (map fst bad)" "lifecycle_fields life"
      "pw_value w = (''schema'', x) # (''invalid_commands'', invalid_entries bad) # life"
    and put: "put_capture_state now (pw_value w) (new_receipts p (pw_commands w)) (dropped_scopes p (pw_commands w)) f db
      = Inr db'"
  shows "map_option body (documents (cs_tables db') ''capture'') = Some (stored_value (map fst bad) w)"
    and "cs_rows db' = delta_rows (entries_of bad) p (pw_commands w) (cs_rows db)"
proof -
  let ?doc = "canon (JObj (compact_value (entries_of bad) (pw_value w)))"
  have doc: "stored_value (map fst bad) w = ?doc"
    unfolding stored_value_def by (subst written_entries(2) [OF v]) simp
  obtain t1 t2 where t1: "put_document ''capture'' ?doc now False (cs_tables db) = Inr t1"
    and t2: "(case f of None \<Rightarrow> Inr t1 | Some f \<Rightarrow> put_document ''camera_focus'' (canon (JObj f)) now True t1) = Inr t2"
    and db': "db' = \<lparr>cs_tables = t2, cs_rows = delta_rows (entries_of bad) p (pw_commands w) (cs_rows db)\<rparr>"
    using put unfolding put_capture_state_def written_entries(1) [OF v] Let_def bindE_Inr delta_rows_def
    by (auto simp only: guardE_eq_Inr bindE_eq_Inr)
  have "documents t2 ''capture'' = documents t1 ''capture''"
    using t2 by (cases f) (auto dest: put_document_other [where other = "''capture''"])
  then show "map_option body (documents (cs_tables db') ''capture'') = Some (stored_value (map fst bad) w)"
    using put_document_body [OF t1] db' doc by simp
  show "cs_rows db' = delta_rows (entries_of bad) p (pw_commands w) (cs_rows db)" using db' by simp
qed

text \<open>The cases of a write: it was overtaken, it failed, or it committed.\<close>

lemma write_snapshot_cases:
  assumes "write_snapshot now fault w (lg, db) = (r, lg', db')"
  obtains (overtaken) "pw_seq w \<le> lg_persisted_seq lg" "r = Inr ()" "lg' = lg" "db' = db"
  | (failed) e where "lg_persisted_seq lg < pw_seq w" "r = Inl e" "lg' = lg" "db' = db"
  | (committed) f where "lg_persisted_seq lg < pw_seq w" "r = Inr ()"
      "put_capture_state now (pw_value w) (new_receipts (lg_persisted lg) (pw_commands w))
         (dropped_scopes (lg_persisted lg) (pw_commands w)) f db = Inr db'"
      "lg_persisted lg' = pw_commands w" "lg_persisted_seq lg' = pw_seq w"
      "map fst (lg_invalid lg') = map fst (lg_invalid lg)" "lg_commands lg' = lg_commands lg"
      "lg_fresh lg' = lg_fresh lg" "lg_write_seq lg' = lg_write_seq lg"
proof (cases "pw_seq w \<le> lg_persisted_seq lg")
  case True
  then have "r = Inr ()" "lg' = lg" "db' = db" using assms by (auto simp: write_snapshot_def)
  with True show ?thesis by (rule overtaken)
next
  case False
  define out where "out = (case fault of
     Some e \<Rightarrow> Inl e
   | None \<Rightarrow> put_capture_state now (pw_value w) (new_receipts (lg_persisted lg) (pw_commands w))
        (dropped_scopes (lg_persisted lg) (pw_commands w)) (focus_to_write w lg) db)"
  show ?thesis
  proof (cases out)
    case (Inl e)
    then have "r = Inl e" "lg' = lg" "db' = db"
      using assms False by (auto simp: write_snapshot_def out_def)
    moreover have "lg_persisted_seq lg < pw_seq w" using False by simp
    ultimately show ?thesis by (intro failed)
  next
    case (Inr db'')
    then have "fault = None" by (cases fault) (simp_all add: out_def)
    with Inr show ?thesis
      using assms False
      by (intro committed [of "focus_to_write w lg"])
         (auto simp: write_snapshot_def out_def case_prod_unfold)
  qed
qed

lemma list_all_fst: "list_all (\<lambda>x. P (fst x)) xs \<longleftrightarrow> (\<forall>s \<in> fst ` set xs. P s)"
  by (auto simp: list_all_iff)

lemma rows_proper_write:
  assumes "list_all (\<lambda>x. proper_scope (fst x)) rows" and "list_all proper_scope (map fst entries)"
    and "list_all (\<lambda>x. proper_scope (fst x)) commands"
  shows "list_all (\<lambda>x. proper_scope (fst x)) (delta_rows entries persisted commands rows)"
proof -
  have i: "list_all (\<lambda>x. proper_scope (fst x)) rs \<Longrightarrow> list_all (\<lambda>x. proper_scope (fst x)) es \<Longrightarrow>
      list_all (\<lambda>x. proper_scope (fst x)) (fold insert_ignore es rs)" for es rs
    by (induction es arbitrary: rs) (auto simp: insert_ignore_def)
  have r: "list_all (\<lambda>x. proper_scope (fst x)) rs \<Longrightarrow> list_all (\<lambda>x. proper_scope (fst x)) cs \<Longrightarrow>
      list_all (\<lambda>x. proper_scope (fst x)) (fold (\<lambda>(s, c). insert_replace (s, f c)) cs rs)" for cs rs and f :: "jobject \<Rightarrow> row_text"
  proof (induction cs arbitrary: rs)
    case (Cons x cs)
    obtain k c where x: "x = (k, c)" by (cases x)
    have "list_all (\<lambda>x. proper_scope (fst x)) (insert_replace (k, f c) rs)"
      using Cons.prems x by (auto simp: insert_replace_def list_all_iff)
    moreover have "list_all (\<lambda>x. proper_scope (fst x)) cs" using Cons.prems(2) by simp
    ultimately have "list_all (\<lambda>x. proper_scope (fst x))
        (fold (\<lambda>(s, c). insert_replace (s, f c)) cs (insert_replace (k, f c) rs))" by (rule Cons.IH)
    then show ?case by (simp add: x)
  qed simp
  have e: "\<forall>s \<in> fst ` set entries. proper_scope s" using assms(2) by (simp add: list_all_iff)
  have ev: "list_all (\<lambda>x. proper_scope (fst x)) (evidence_rows entries)"
    unfolding list_all_fst by (rule ballI) (rule bspec [OF e subsetD [OF evidence_rows_keys]])
  have new: "list_all (\<lambda>x. proper_scope (fst x)) (new_receipts persisted commands)"
    unfolding list_all_fst
    by (rule ballI) (rule bspec [OF assms(3) [unfolded list_all_fst] subsetD [OF new_receipts_keys]])
  have keep: "list_all P (filter Q xs)" if "list_all P xs" for P Q and xs :: "(scope \<times> row_text) list"
    using that by (simp add: list_all_iff)
  show ?thesis
    unfolding delta_rows_def delete_rows_def by (rule r [OF keep [OF i [OF assms(1) ev]] new])
qed

text \<open>The invariant, step by step.\<close>

lemma inv_snapshot:
  assumes inv: "ledger_inv qs rows0 s" and life: "lifecycle_fields life"
    and take: "take_snapshot life (sy_ledger s) = (w, lg)"
  shows "ledger_inv qs rows0
    (s\<lparr>sy_ledger := lg, sy_waiting := insert w (sy_waiting s), sy_taken := insert w (sy_taken s)\<rparr>)"
proof -
  let ?n = "lg_write_seq (sy_ledger s)"
  have w: "pw_seq w = Suc ?n" "pw_commands w = lg_commands (sy_ledger s)"
      "pw_value w = (''schema'', JStr ''ylx.capture-coordinator-state.v1'') #
        (''invalid_commands'', invalid_entries (lg_invalid (sy_ledger s))) # life"
    and lg: "lg = (sy_ledger s)\<lparr>lg_write_seq := Suc ?n\<rparr>"
    using take by (auto simp: take_snapshot_def Let_def)
  have well: "well_written qs w"
    using w(3) life inv unfolding well_written_def ledger_inv_def Let_def by blast
  have old: "snapshots_ok qs ?n (sy_made s) (sy_taken s)" and k: "known (sy_made s) (pw_commands w)"
    using inv w(2) by (simp_all add: ledger_inv_def Let_def)
  then have "Suc ?n \<noteq> pw_seq v" if "v \<in> sy_taken s" for v using that by (fastforce simp: snapshots_ok_def)
  then have "snapshots_ok qs (Suc ?n) (sy_made s) (insert w (sy_taken s))"
    using old k well w(1) unfolding snapshots_ok_def
    by (simp add: inj_on_insert le_SucI image_iff)
  then show ?thesis
    using inv newest_ok_mono [OF _ subset_insertI] by (simp add: ledger_inv_def Let_def lg subset_insertI2 insert_mono)
qed

lemma inv_rollback:
  assumes "ledger_inv qs rows0 s" and "set cs \<subseteq> sy_made s" and "distinct (map fst cs)"
  shows "ledger_inv qs rows0 (s\<lparr>sy_ledger := (sy_ledger s)\<lparr>lg_commands := cs\<rparr>\<rparr>)"
  using assms by (simp add: ledger_inv_def Let_def known_def)

lemma inv_note_focus:
  "ledger_inv qs rows0 s \<Longrightarrow> ledger_inv qs rows0 (s\<lparr>sy_ledger := (sy_ledger s)\<lparr>lg_focus := f, lg_stop_commit := c\<rparr>\<rparr>)"
  by (simp add: ledger_inv_def Let_def)

lemma known_cached:
  assumes "known made cs"
  shows "known (insert (sc, r) made) (drop n (AList.update sc r cs))"
proof -
  let ?cs = "AList.update sc r cs"
  have "distinct (map fst ?cs)" using assms by (simp add: known_def distinct_update)
  then have "distinct (map fst (drop n ?cs))" by (metis distinct_drop drop_map)
  then show ?thesis
    using assms set_update_subset [of sc r cs] set_drop_subset [of n ?cs] unfolding known_def by blast
qed

lemma inv_cache:
  assumes inv: "ledger_inv qs rows0 s" and sc: "sc \<notin> fst ` set (lg_invalid (sy_ledger s))" "proper_scope sc"
  shows "ledger_inv qs rows0 (s\<lparr>sy_ledger := cache_command sc c a (sy_ledger s),
      sy_made := insert (sc, \<lparr>ct_id = lg_fresh (sy_ledger s), ct_canonical = c, ct_answer = a\<rparr>) (sy_made s)\<rparr>)"
proof -
  let ?lg = "sy_ledger s"
  let ?r = "\<lparr>ct_id = lg_fresh ?lg, ct_canonical = c, ct_answer = a\<rparr>"
  let ?made = "insert (sc, ?r) (sy_made s)"
  have q: "sc \<notin> set qs" using inv sc(1) by (auto simp: ledger_inv_def Let_def)
  have parts: "ids_ok qs (lg_fresh ?lg) (sy_made s)" "known (sy_made s) (lg_commands ?lg)"
      "known (sy_made s) (lg_persisted ?lg)" "snapshots_ok qs (lg_write_seq ?lg) (sy_made s) (sy_taken s)"
    using inv by (simp_all add: ledger_inv_def Let_def)
  have ids: "ids_ok qs (Suc (lg_fresh ?lg)) ?made"
    using parts(1) q sc(2) by (fastforce simp: ids_ok_def inj_on_def)
  have snaps: "snapshots_ok qs (lg_write_seq ?lg) ?made (sy_taken s)"
    by (rule snapshots_ok_mono [OF parts(4)]) auto
  have pers: "known ?made (lg_persisted ?lg)" by (rule known_mono [OF parts(3)]) auto
  show ?thesis
    using inv ids snaps pers known_cached [OF parts(2)]
    by (simp add: ledger_inv_def Let_def cache_command_def)
qed

lemma inv_write:
  assumes inv: "ledger_inv qs rows0 s" and w: "w \<in> sy_waiting s"
    and wr: "write_snapshot now fault w (sy_ledger s, sy_store s) = (r, lg, db)"
  shows "ledger_inv qs rows0 (s\<lparr>sy_ledger := lg, sy_store := db, sy_waiting := sy_waiting s - {w}\<rparr>)"
  using wr
proof (cases rule: write_snapshot_cases)
  case overtaken
  then show ?thesis using inv by (auto simp: ledger_inv_def Let_def)
next
  case (failed e)
  then show ?thesis using inv by (auto simp: ledger_inv_def Let_def)
next
  case (committed f)
  let ?lg = "sy_ledger s"
  have taken: "w \<in> sy_taken s" using inv w by (auto simp: ledger_inv_def Let_def)
  have parts: "ids_ok qs (lg_fresh ?lg) (sy_made s)" "known (sy_made s) (lg_persisted ?lg)"
      "list_all proper_scope qs" "known (sy_made s) (pw_commands w)" "well_written qs w" "0 < pw_seq w"
      "rows_ok qs rows0 (lg_persisted ?lg) (cs_rows (sy_store s))"
    using inv taken by (simp_all add: ledger_inv_def Let_def snapshots_ok_def)
  obtain life bad where v: "list_all proper_scope (map fst bad)" "lifecycle_fields life"
      "pw_value w = (''schema'', JStr ''ylx.capture-coordinator-state.v1'') # (''invalid_commands'', invalid_entries bad) # life"
    and qs: "qs = map fst bad"
    using parts(3,5) unfolding well_written_def by blast
  note shape = put_capture_state_shape [OF v committed(3)]
  have fresh: "sc \<notin> set qs" if "(sc, x) \<in> sy_made s" for sc x using parts(1) that by (fastforce simp: ids_ok_def)
  have same: "q = x" if "map_of (pw_commands w) sc = Some x" "map_of (lg_persisted ?lg) sc = Some q" "ct_id q = ct_id x" for sc x q
  proof -
    have "(sc, x) \<in> sy_made s" "(sc, q) \<in> sy_made s"
      using that(1,2) parts(2,4) by (auto simp: known_def dest!: map_of_SomeD)
    moreover have "inj_on (ct_id \<circ> snd) (sy_made s)" using parts(1) by (simp add: ids_ok_def)
    ultimately have "(sc, q) = (sc, x)" using that(3) by (intro inj_onD [of "ct_id \<circ> snd"]) auto
    then show ?thesis by simp
  qed
  have rows: "map_of (cs_rows (sy_store s)) sc = Some (printed sc q)" if "map_of (lg_persisted ?lg) sc = Some q" for sc q
    using rows_okD(1) [OF parts(7) that] .
  have dist: "distinct (map fst (pw_commands w))" using parts(4) by (simp add: known_def)
  have new: "map_of (cs_rows db) sc = (case map_of (pw_commands w) sc of
       Some r \<Rightarrow> Some (printed sc r)
     | None \<Rightarrow> if map_of (lg_persisted ?lg) sc = None then map_of (cs_rows (sy_store s)) sc else None)"
    if "sc \<notin> set qs" for sc
    unfolding shape(2) using that qs same rows by (intro delta_rows_is_overwrite [OF dist]) auto
  have cmd: "sc \<notin> set qs" if "map_of (pw_commands w) sc = Some x" for sc x
    using that fresh [of sc x] parts(4) by (auto simp: known_def dest!: map_of_SomeD)
  have ev: "map_of (cs_rows db) sc = rows0 sc" if q: "sc \<in> set qs" and r: "rows0 sc \<noteq> None" for sc
  proof -
    have "map_of (cs_rows (sy_store s)) sc = rows0 sc" using parts(7) q r by (simp add: rows_ok_def)
    moreover obtain t where "rows0 sc = Some t" using r by (cases "rows0 sc") auto
    moreover have "sc \<notin> fst ` set (pw_commands w)" using cmd q by (metis map_of_eq_None_iff option.exhaust)
    ultimately show ?thesis
      unfolding shape(2) using q qs by (simp add: delta_rows_keeps_evidence [OF dist])
  qed
  have "rows_ok qs rows0 (pw_commands w) (cs_rows db)"
    unfolding rows_ok_def
  proof (intro conjI allI ballI impI)
    show "distinct (map fst (cs_rows db))"
      unfolding shape(2) using parts(7) by (intro distinct_delta_rows) (simp add: rows_ok_def)
    show "case map_of (pw_commands w) sc of Some r \<Rightarrow> map_of (cs_rows db) sc = Some (printed sc r)
        | None \<Rightarrow> sc \<notin> set qs \<longrightarrow> map_of (cs_rows db) sc = None \<or> map_of (cs_rows db) sc = rows0 sc" for sc
    proof (cases "map_of (pw_commands w) sc")
      case None
      then show ?thesis using new [of sc] rows_okD(2) [OF parts(7), of sc] by auto
    next
      case (Some x)
      then show ?thesis using new [OF cmd [OF Some]] by simp
    qed
    show "list_all (\<lambda>x. proper_scope (fst x)) (cs_rows db)"
      unfolding shape(2)
      using parts(1,3,4,7) qs by (intro rows_proper_write) (auto simp: rows_ok_def ids_ok_def known_def list_all_iff)
  qed (use ev in blast)
  moreover have "newest_ok qs (pw_seq w) (sy_taken s) (pw_commands w) db"
  proof -
    have "holds_snapshot qs w db"
      unfolding holds_snapshot_def using shape(1) qs new cmd by auto
    moreover have "documents (cs_tables db) ''capture'' \<noteq> None" using shape(1) by auto
    ultimately show ?thesis unfolding newest_ok_def using taken parts(6) by auto
  qed
  ultimately show ?thesis
    using inv committed parts(4) by (auto simp: ledger_inv_def Let_def)
qed

lemma ledger_inv_step: "ledger_step s t \<Longrightarrow> ledger_inv qs rows0 s \<Longrightarrow> ledger_inv qs rows0 t"
  by (induction rule: ledger_step.induct)
     (auto intro: inv_snapshot inv_write inv_cache inv_rollback inv_note_focus)

lemma ledger_inv_runs: "ledger_runs s t \<Longrightarrow> ledger_inv qs rows0 s \<Longrightarrow> ledger_inv qs rows0 t"
  by (induction rule: rtranclp_induct) (auto intro: ledger_inv_step)

end
