(* ===== verification/LedgerProps.thy ===== *)
theory LedgerProps
  imports LedgerRuns
begin

text \<open>
  What the receipt ledger promises: a persist that returns has made its snapshot or a newer one
  durable, and a restart finds the receipts again.
\<close>

section \<open>Restoring\<close>

definition scope_of_item :: "json \<Rightarrow> scope option" where
  "scope_of_item item = (case item of JObj d \<Rightarrow> parse_scope (JList (item_scope d)) | _ \<Rightarrow> None)"

definition agrees :: "string \<Rightarrow> answer \<Rightarrow> receipt option \<Rightarrow> bool" where
  "agrees c a r \<longleftrightarrow> (\<exists>i. r = Some \<lparr>ct_id = i, ct_canonical = c, ct_answer = a\<rparr>)"

lemma restore_command_step:
  assumes "scope_of_item item = Some s"
  obtains lg' where "restore_command J F item lg = Inr lg'"
    and "\<And>s'. s' \<noteq> s \<Longrightarrow> map_of (lg_commands lg') s' = map_of (lg_commands lg) s'"
    and "fst ` set (lg_invalid lg) \<subseteq> fst ` set (lg_invalid lg')"
    and "fst ` set (lg_invalid lg') \<subseteq> insert s (fst ` set (lg_invalid lg))"
    and "\<And>d c a. item = JObj d \<Longrightarrow> validated_receipt J F d = Inr (c, a) \<Longrightarrow> s \<notin> fst ` set (lg_invalid lg) \<Longrightarrow>
           agrees c a (map_of (lg_commands lg') s)"
proof -
  obtain d where d: "item = JObj d" and s: "parse_scope (JList (item_scope d)) = Some s"
    using assms by (auto simp: scope_of_item_def split: json.splits)
  have keys: "fst ` set (AList.update s v xs) = insert s (fst ` set xs)" for v and xs :: "(scope \<times> json) list"
    using keys_update [of s v xs] by simp
  show ?thesis
  proof (cases "validated_receipt J F d")
    case (Inl e)
    then show ?thesis
      by (intro that [of "lg\<lparr>lg_invalid := AList.update s (JStr (jt_dumps J item)) (lg_invalid lg),
            lg_commands := AList.delete s (lg_commands lg)\<rparr>"])
         (use d s in \<open>auto simp: restore_command_def keys\<close>)
  next
    case (Inr ca)
    obtain c a where ca: "ca = (c, a)" by (cases ca)
    show ?thesis
      by (rule that [of "if s \<in> fst ` set (lg_invalid lg) then lg
            else lg\<lparr>lg_commands := AList.update s \<lparr>ct_id = lg_fresh lg, ct_canonical = c, ct_answer = a\<rparr> (lg_commands lg),
                    lg_fresh := lg_fresh lg + 1\<rparr>"])
         (use d s Inr ca in \<open>auto simp: restore_command_def agrees_def\<close>)
  qed
qed

lemma restore_commands_fold:
  assumes "list_all (\<lambda>v. scope_of_item v \<noteq> None) items" and "distinct (map scope_of_item items)"
  shows "\<exists>lg'. foldE (restore_command J F) items lg = Inr lg' \<and>
    fst ` set (lg_invalid lg) \<subseteq> fst ` set (lg_invalid lg') \<and>
    (\<forall>s. Some s \<notin> scope_of_item ` set items \<longrightarrow> map_of (lg_commands lg') s = map_of (lg_commands lg) s) \<and>
    (\<forall>d s c a. JObj d \<in> set items \<longrightarrow> scope_of_item (JObj d) = Some s \<longrightarrow> validated_receipt J F d = Inr (c, a) \<longrightarrow>
       s \<notin> fst ` set (lg_invalid lg) \<longrightarrow> agrees c a (map_of (lg_commands lg') s))"
  using assms
proof (induction items arbitrary: lg)
  case (Cons item items)
  then obtain s where s: "scope_of_item item = Some s" by auto
  obtain lg1 where lg1: "restore_command J F item lg = Inr lg1"
      "\<And>s'. s' \<noteq> s \<Longrightarrow> map_of (lg_commands lg1) s' = map_of (lg_commands lg) s'"
      "fst ` set (lg_invalid lg) \<subseteq> fst ` set (lg_invalid lg1)"
      "fst ` set (lg_invalid lg1) \<subseteq> insert s (fst ` set (lg_invalid lg))"
      "\<And>d c a. item = JObj d \<Longrightarrow> validated_receipt J F d = Inr (c, a) \<Longrightarrow> s \<notin> fst ` set (lg_invalid lg) \<Longrightarrow>
         agrees c a (map_of (lg_commands lg1) s)"
    using restore_command_step [OF s, of J F lg] by metis
  obtain lg2 where lg2: "foldE (restore_command J F) items lg1 = Inr lg2"
      "fst ` set (lg_invalid lg1) \<subseteq> fst ` set (lg_invalid lg2)"
      "\<forall>s. Some s \<notin> scope_of_item ` set items \<longrightarrow> map_of (lg_commands lg2) s = map_of (lg_commands lg1) s"
      "\<forall>d s c a. JObj d \<in> set items \<longrightarrow> scope_of_item (JObj d) = Some s \<longrightarrow> validated_receipt J F d = Inr (c, a) \<longrightarrow>
         s \<notin> fst ` set (lg_invalid lg1) \<longrightarrow> agrees c a (map_of (lg_commands lg2) s)"
    using Cons.IH [of lg1] Cons.prems by auto
  have new: "Some s \<notin> scope_of_item ` set items" using Cons.prems(2) s by auto
  have "agrees c a (map_of (lg_commands lg2) s')"
    if "JObj d \<in> set (item # items)" "scope_of_item (JObj d) = Some s'" "validated_receipt J F d = Inr (c, a)"
       "s' \<notin> fst ` set (lg_invalid lg)" for d s' c a
  proof (cases "JObj d = item")
    case True
    then have "s' = s" using that(2) s by simp
    moreover have "map_of (lg_commands lg2) s = map_of (lg_commands lg1) s" using lg2(3) new by blast
    ultimately show ?thesis using lg1(5) [of d c a] True that(3,4) by simp
  next
    case False
    then have mem: "JObj d \<in> set items" using that(1) by simp
    then have "s' \<noteq> s" using new that(2) by (metis image_eqI)
    then have "s' \<notin> fst ` set (lg_invalid lg1)" using lg1(4) that(4) by blast
    then show ?thesis using lg2(4) mem that(2,3) by blast
  qed
  moreover have "map_of (lg_commands lg2) s' = map_of (lg_commands lg) s'"
    if "Some s' \<notin> scope_of_item ` set (item # items)" for s'
  proof -
    have "s' \<noteq> s" "Some s' \<notin> scope_of_item ` set items" using that s by auto
    then have "map_of (lg_commands lg2) s' = map_of (lg_commands lg1) s'" using lg2(3) by blast
    then show ?thesis using lg1(2) [OF \<open>s' \<noteq> s\<close>] by simp
  qed
  ultimately show ?case
    using lg1(1,3) lg2(1,2) by (intro exI [of _ lg2]) auto
qed simp

definition entry_scope :: "json \<Rightarrow> scope option" where
  "entry_scope v = (case v of JObj d \<Rightarrow> parse_scope (jget d ''scope'') | _ \<Rightarrow> None)"

lemma restore_invalid_fold:
  assumes "list_all (\<lambda>v. entry_scope v \<noteq> None) entries"
  shows "\<exists>bad. foldE restore_invalid entries acc = Inr bad \<and>
    fst ` set bad = fst ` set acc \<union> the ` entry_scope ` set entries"
  using assms
proof (induction entries arbitrary: acc)
  case (Cons v entries)
  then obtain d s where d: "v = JObj d" "parse_scope (jget d ''scope'') = Some s"
    by (auto simp: entry_scope_def split: json.splits)
  have keys: "fst ` set (AList.update s x xs) = insert s (fst ` set xs)" for x and xs :: "(scope \<times> json) list"
    using keys_update [of s x xs] by simp
  obtain bad where "foldE restore_invalid entries (AList.update s (jget d ''receipt'') acc) = Inr bad"
      "fst ` set bad = insert s (fst ` set acc) \<union> the ` entry_scope ` set entries"
    using Cons.IH [of "AList.update s (jget d ''receipt'') acc"] Cons.prems keys by auto
  moreover have "restore_invalid v acc = Inr (AList.update s (jget d ''receipt'') acc)" "entry_scope v = Some s"
    using d by (simp_all add: restore_invalid_def entry_scope_def)
  ultimately show ?case by auto
qed simp

lemma read_rows:
  assumes "list_all (\<lambda>x. proper_scope (fst x)) rows" and "distinct (map fst rows)"
  shows "\<exists>items bad. foldE (read_row J) rows (xs, ys) = Inr (xs @ items, ys @ bad) \<and>
    list_all (\<lambda>v. scope_of_item v \<noteq> None) items \<and> distinct (map scope_of_item items) \<and>
    list_all (\<lambda>v. entry_scope v \<noteq> None) bad \<and> length items \<le> length rows \<and>
    scope_of_item ` set items \<subseteq> Some ` fst ` set rows \<and> entry_scope ` set bad \<subseteq> Some ` fst ` set rows \<and>
    scope_of_item ` set items \<inter> entry_scope ` set bad = {} \<and>
    (\<forall>s t d. (s, t) \<in> set rows \<longrightarrow> row_item J t = Some (JObj d) \<longrightarrow> JList (item_scope d) = scope_json s \<longrightarrow>
       JObj d \<in> set items)"
  using assms
proof (induction rows arbitrary: xs ys)
  case (Cons row rows)
  obtain s t where row: "row = (s, t)" by (cases row)
  have proper: "proper_scope s" and fresh: "s \<notin> fst ` set rows" using Cons.prems row by auto
  define good where "good = (\<exists>d. row_item J t = Some (JObj d) \<and> JList (item_scope d) = scope_json s)"
  show ?case
  proof (cases good)
    case True
    then obtain d where d: "row_item J t = Some (JObj d)" "JList (item_scope d) = scope_json s"
      by (auto simp: good_def)
    have sd: "scope_of_item (JObj d) = Some s" using d(2) proper by (simp add: scope_of_item_def)
    obtain items bad where ih: "foldE (read_row J) rows (xs @ [JObj d], ys) = Inr ((xs @ [JObj d]) @ items, ys @ bad)"
        "list_all (\<lambda>v. scope_of_item v \<noteq> None) items" "distinct (map scope_of_item items)"
        "list_all (\<lambda>v. entry_scope v \<noteq> None) bad" "length items \<le> length rows"
        "scope_of_item ` set items \<subseteq> Some ` fst ` set rows" "entry_scope ` set bad \<subseteq> Some ` fst ` set rows"
        "scope_of_item ` set items \<inter> entry_scope ` set bad = {}"
        "\<forall>s t d. (s, t) \<in> set rows \<longrightarrow> row_item J t = Some (JObj d) \<longrightarrow> JList (item_scope d) = scope_json s \<longrightarrow>
           JObj d \<in> set items"
      using Cons.IH [of "xs @ [JObj d]" ys] Cons.prems by auto
    have s: "Some s \<notin> scope_of_item ` set items" "Some s \<notin> entry_scope ` set bad" using ih(6,7) fresh by blast+
    have step: "read_row J row (xs, ys) = Inr (xs @ [JObj d], ys)"
      using d proper by (simp add: read_row_def row)
    show ?thesis
      by (rule exI [of _ "JObj d # items"], rule exI [of _ bad])
         (use ih s sd step d row in \<open>cases s; auto simp: image_iff\<close>)
  next
    case False
    define e where "e = JObj [(''scope'', scope_json s), (''receipt'', JStr (row_evidence J t))]"
    have es: "entry_scope e = Some s" using proper by (simp add: entry_scope_def e_def)
    obtain items bad where ih: "foldE (read_row J) rows (xs, ys @ [e]) = Inr (xs @ items, (ys @ [e]) @ bad)"
        "list_all (\<lambda>v. scope_of_item v \<noteq> None) items" "distinct (map scope_of_item items)"
        "list_all (\<lambda>v. entry_scope v \<noteq> None) bad" "length items \<le> length rows"
        "scope_of_item ` set items \<subseteq> Some ` fst ` set rows" "entry_scope ` set bad \<subseteq> Some ` fst ` set rows"
        "scope_of_item ` set items \<inter> entry_scope ` set bad = {}"
        "\<forall>s t d. (s, t) \<in> set rows \<longrightarrow> row_item J t = Some (JObj d) \<longrightarrow> JList (item_scope d) = scope_json s \<longrightarrow>
           JObj d \<in> set items"
      using Cons.IH [of xs "ys @ [e]"] Cons.prems by auto
    have s: "Some s \<notin> scope_of_item ` set items" "Some s \<notin> entry_scope ` set bad" using ih(6,7) fresh by blast+
    have step: "read_row J row (xs, ys) = Inr (xs, ys @ [e])"
      using False proper unfolding good_def e_def
      by (auto simp: read_row_def row split: option.splits json.splits)
    show ?thesis
      by (rule exI [of _ items], rule exI [of _ "e # bad"])
         (use ih s es step False row in \<open>cases s; auto simp: good_def\<close>)
  qed
qed simp

lemma validated_receipt_answer:
  assumes "validated_receipt J F d = Inr (c, a)"
  shows "jget d ''canonical_body'' = JStr c" and "jget d ''status'' = JInt (an_status a)"
    and "a = \<lparr>an_status = an_status a, an_body = jget d ''body'', an_replayed = False\<rparr>"
  using assms
  by (auto simp: validated_receipt_def rejected_receipt_def bindE_eq_Inr split: if_splits json.splits option.splits)

lemma canon_scope_json [simp]: "canon (scope_json s) = scope_json s"
  by (cases s) (simp add: scope_json_def)

lemma stored_lifecycle:
  assumes "well_written qs w" and "list_all proper_scope qs"
  obtains d entries where "stored_value qs w = JObj d" "map_of d ''commands'' = None"
    and "map_of d ''invalid_commands'' = Some (JList entries)"
    and "list_all (\<lambda>v. entry_scope v \<noteq> None) entries" "the ` entry_scope ` set entries = set qs"
proof -
  let ?marks = "map (\<lambda>s. JObj [(''scope'', scope_json s)]) qs"
  let ?v = "jset ''invalid_commands'' (JList ?marks) (pw_value w)"
  obtain life bad where life: "lifecycle_fields life"
    and v: "pw_value w = (''schema'', JStr ''ylx.capture-coordinator-state.v1'') # (''invalid_commands'', invalid_entries bad) # life"
    using assms(1) unfolding well_written_def by blast
  have "map_of life ''commands'' = None" using life by (auto simp: lifecycle_fields_def map_of_eq_None_iff)
  then have c: "map_of (canon_obj ?v) ''commands'' = None" by (simp add: map_of_canon_obj v)
  have i: "map_of (canon_obj ?v) ''invalid_commands'' = Some (JList (map canon ?marks))"
    by (simp add: map_of_canon_obj)
  have e: "entry_scope (canon (JObj [(''scope'', scope_json s)])) = Some s" if "s \<in> set qs" for s
    using that assms(2) by (simp add: entry_scope_def list_all_iff)
  have "list_all (\<lambda>v. entry_scope v \<noteq> None) (map canon ?marks)" using e by (auto simp: list_all_iff)
  moreover have "the ` entry_scope ` set (map canon ?marks) = set qs" using e by (force simp: image_image)
  ultimately show ?thesis
    by (intro that [of "canon_obj ?v" "map canon ?marks"]) (use c i in \<open>simp_all add: stored_value_def\<close>)
qed

text \<open>The rows a restart takes up: the last 1,024 in the order of the table.\<close>

definition newest_rows :: "'a list \<Rightarrow> 'a list" where
  "newest_rows rows = drop (length rows - remembered) rows"

lemma set_newest_rows: "set (newest_rows rows) \<subseteq> set rows"
  by (simp add: newest_rows_def set_drop_subset)

lemma read_newest:
  assumes "list_all (\<lambda>x. proper_scope (fst x)) rows" and "distinct (map fst rows)"
    and "foldE (read_row J) rows (xs, ys) = Inr (xs @ items, bad)"
    and "(s, t) \<in> set (newest_rows rows)" and "row_item J t = Some (JObj d)" and "JList (item_scope d) = scope_json s"
  shows "JObj d \<in> set (drop (length items - remembered) items)"
proof -
  let ?a = "take (length rows - remembered) rows" and ?b = "newest_rows rows"
  have ok: "list_all (\<lambda>x. proper_scope (fst x)) ?a" "distinct (map fst ?a)"
    "list_all (\<lambda>x. proper_scope (fst x)) ?b" "distinct (map fst ?b)"
  proof -
    have sub: "set ?a \<subseteq> set rows" "set ?b \<subseteq> set rows" by (rule set_take_subset, rule set_newest_rows)
    show "list_all (\<lambda>x. proper_scope (fst x)) ?a" "list_all (\<lambda>x. proper_scope (fst x)) ?b"
      using assms(1) sub unfolding list_all_iff by blast+
    show "distinct (map fst ?a)" by (rule distinct_take [OF assms(2), of "length rows - remembered", unfolded take_map])
    show "distinct (map fst ?b)"
      unfolding newest_rows_def by (rule distinct_drop [OF assms(2), of "length rows - remembered", unfolded drop_map])
  qed
  obtain ia ba where a: "foldE (read_row J) ?a (xs, ys) = Inr (xs @ ia, ys @ ba)"
    using read_rows [OF ok(1,2), of J xs ys] by (elim exE conjE) (rule that)
  obtain ib bb where b: "foldE (read_row J) ?b (xs @ ia, ys @ ba) = Inr ((xs @ ia) @ ib, (ys @ ba) @ bb)"
      "length ib \<le> length ?b" "JObj d \<in> set ib"
  proof -
    obtain ib bb where i: "foldE (read_row J) ?b (xs @ ia, ys @ ba) = Inr ((xs @ ia) @ ib, (ys @ ba) @ bb)" "length ib \<le> length ?b"
        "\<forall>s t d. (s, t) \<in> set ?b \<longrightarrow> row_item J t = Some (JObj d) \<longrightarrow> JList (item_scope d) = scope_json s \<longrightarrow> JObj d \<in> set ib"
      using read_rows [OF ok(3,4), of J "xs @ ia" "ys @ ba"] by (elim exE conjE) (rule that)
    show ?thesis by (rule that [OF i(1,2)]) (use i(3) assms(4-6) in blast)
  qed
  have "foldE (read_row J) (?a @ ?b) (xs, ys) = Inr (xs @ ia @ ib, ys @ ba @ bb)"
    unfolding foldE_append using a b(1) by simp
  then have items: "items = ia @ ib" using assms(3) by (simp add: newest_rows_def)
  have "length ib \<le> remembered" using b(2) by (simp add: newest_rows_def)
  then have "length items - remembered \<le> length ia" unfolding items by simp
  then show ?thesis using b(3) unfolding items by simp
qed

lemma restart_from:
  assumes doc: "map_option body (documents (cs_tables db) ''capture'') = Some (JObj value)"
      "map_of value ''commands'' = None" "map_of value ''invalid_commands'' = Some (JList entries)"
      "list_all (\<lambda>v. entry_scope v \<noteq> None) entries"
    and rows: "list_all (\<lambda>x. proper_scope (fst x)) (cs_rows db)" "distinct (map fst (cs_rows db))"
  shows "\<exists>value' lg. capture_state J db = Inr value' \<and> restore_receipts J F value' new_ledger = Inr lg \<and>
    the ` entry_scope ` set entries \<subseteq> fst ` set (lg_invalid lg) \<and>
    (\<forall>sc d c a. (sc, Printed (JObj d)) \<in> set (newest_rows (cs_rows db)) \<longrightarrow> JList (item_scope d) = scope_json sc \<longrightarrow>
       sc \<notin> the ` entry_scope ` set entries \<longrightarrow> validated_receipt J F d = Inr (c, a) \<longrightarrow>
       agrees c a (map_of (lg_commands lg) sc))"
proof -
  obtain items bad where r: "foldE (read_row J) (cs_rows db) ([], entries) = Inr (items, entries @ bad)"
      "list_all (\<lambda>v. scope_of_item v \<noteq> None) items" "distinct (map scope_of_item items)"
      "list_all (\<lambda>v. entry_scope v \<noteq> None) bad" "length items \<le> length (cs_rows db)"
      "scope_of_item ` set items \<inter> entry_scope ` set bad = {}"
      "\<forall>s t d. (s, t) \<in> set (cs_rows db) \<longrightarrow> row_item J t = Some (JObj d) \<longrightarrow> JList (item_scope d) = scope_json s \<longrightarrow>
         JObj d \<in> set items"
    using read_rows [OF rows(1,2), of J "[]" entries] by auto
  let ?v = "jset ''commands'' (JList items) value"
  define value' where "value' = (if entries @ bad = [] then ?v else jset ''invalid_commands'' (JList (entries @ bad)) ?v)"
  have load: "capture_state J db = Inr value'"
    using doc r(1) unfolding value'_def by (auto simp: capture_state_def Let_def)
  have v': "map_of value' ''invalid_commands'' = Some (JList (entries @ bad))" "map_of value' ''commands'' = Some (JList items)"
    using doc(3) by (auto simp: value'_def)
  obtain inv_cs where inv_cs: "foldE restore_invalid (entries @ bad) [] = Inr inv_cs"
      "fst ` set inv_cs = the ` entry_scope ` set (entries @ bad)"
  proof -
    have "list_all (\<lambda>v. entry_scope v \<noteq> None) (entries @ bad)" using doc(4) r(4) by simp
    then show ?thesis using restore_invalid_fold [of "entries @ bad" "[]"] that by auto
  qed
  let ?items = "drop (length items - remembered) items"
  have taken: "list_all (\<lambda>v. scope_of_item v \<noteq> None) ?items" "distinct (map scope_of_item ?items)"
  proof -
    show "list_all (\<lambda>v. scope_of_item v \<noteq> None) ?items" using r(2) in_set_dropD unfolding list_all_iff by fast
    show "distinct (map scope_of_item ?items)" using distinct_drop [OF r(3)] unfolding drop_map .
  qed
  obtain lg where lg: "foldE (restore_command J F) ?items (new_ledger\<lparr>lg_invalid := inv_cs\<rparr>) = Inr lg"
      "fst ` set inv_cs \<subseteq> fst ` set (lg_invalid lg)"
      "\<forall>d s c a. JObj d \<in> set ?items \<longrightarrow> scope_of_item (JObj d) = Some s \<longrightarrow> validated_receipt J F d = Inr (c, a) \<longrightarrow>
         s \<notin> fst ` set inv_cs \<longrightarrow> agrees c a (map_of (lg_commands lg) s)"
    using restore_commands_fold [OF taken, of J F "new_ledger\<lparr>lg_invalid := inv_cs\<rparr>"] by auto
  have "restore_receipts J F value' new_ledger = Inr lg"
    using inv_cs(1) lg(1) unfolding restore_receipts_def v' option.case json.case by (simp add: new_ledger_def)
  moreover have "agrees c a (map_of (lg_commands lg) sc)"
    if sc: "(sc, Printed (JObj d)) \<in> set (newest_rows (cs_rows db))" "JList (item_scope d) = scope_json sc"
      "sc \<notin> the ` entry_scope ` set entries" "validated_receipt J F d = Inr (c, a)" for sc d c a
  proof -
    have mem: "(sc, Printed (JObj d)) \<in> set (cs_rows db)" by (rule subsetD [OF set_newest_rows sc(1)])
    have "row_item J (Printed (JObj d)) = Some (JObj d)" by (simp add: row_item_def)
    then have taken_item: "JObj d \<in> set ?items"
      using read_newest [OF rows(1,2) _ sc(1) _ sc(2), of J "[]" entries items] r(1) by auto
    then have item: "JObj d \<in> set items" by (rule in_set_dropD)
    have "proper_scope sc" using rows(1) mem by (auto simp: list_all_iff)
    then have s: "scope_of_item (JObj d) = Some sc" using sc(2) by (simp add: scope_of_item_def)
    then have fresh: "Some sc \<notin> entry_scope ` set bad" using r(6) item by (metis disjoint_iff image_eqI)
    have "sc \<notin> the ` entry_scope ` set bad"
    proof
      assume "sc \<in> the ` entry_scope ` set bad"
      then obtain e where e: "e \<in> set bad" "sc = the (entry_scope e)" by blast
      then have "entry_scope e \<noteq> None" using r(4) by (simp add: list_all_iff)
      then show False using e fresh by (metis image_eqI option.collapse)
    qed
    then have "sc \<notin> fst ` set inv_cs" using inv_cs(2) sc(3) by auto
    then show ?thesis using lg(3) taken_item s sc(4) by blast
  qed
  ultimately show ?thesis using load lg(2) inv_cs(2) by (intro exI [of _ value'] exI [of _ lg]) auto
qed

section \<open>The properties\<close>

definition quarantine :: "ledger_system \<Rightarrow> scope list" where
  "quarantine s = map fst (lg_invalid (sy_ledger s))"

text \<open>C4: whatever other snapshots, writes, failures and rollbacks happen in between, a call of
  \<open>_persist_local_state\<close> that returns has made its own snapshot or a newer one durable: the stored
  document and the rows of all its receipts are those of that snapshot; receipts it no longer holds
  have no row (unless the row was there, unread, since before the start); and the evidence of
  quarantined receipts is never replaced.\<close>

theorem returned_persist_is_durable:
  assumes "ledger_start s0" and "ledger_runs s0 s" and "w \<in> sy_waiting s"
    and "write_snapshot now fault w (sy_ledger s, sy_store s) = (Inr (), lg, db)"
  shows "\<exists>newest \<in> sy_taken s. pw_seq w \<le> pw_seq newest \<and> holds_snapshot (quarantine s0) newest db \<and>
    (\<forall>sc. sc \<notin> set (quarantine s0) \<and> map_of (pw_commands newest) sc = None \<longrightarrow>
       map_of (cs_rows db) sc = None \<or> map_of (cs_rows db) sc = map_of (cs_rows (sy_store s0)) sc) \<and>
    (\<forall>sc \<in> set (quarantine s0). map_of (cs_rows (sy_store s0)) sc \<noteq> None \<longrightarrow>
       map_of (cs_rows db) sc = map_of (cs_rows (sy_store s0)) sc)"
proof -
  let ?rows0 = "map_of (cs_rows (sy_store s0))"
  let ?t = "s\<lparr>sy_ledger := lg, sy_store := db, sy_waiting := sy_waiting s - {w}\<rparr>"
  have inv: "ledger_inv (quarantine s0) ?rows0 s"
    unfolding quarantine_def by (rule ledger_inv_runs [OF assms(2) ledger_inv_start [OF assms(1)]])
  have inv': "ledger_inv (quarantine s0) ?rows0 ?t" by (rule inv_write [OF inv assms(3,4)])
  have "0 < pw_seq w" using inv assms(3) by (auto simp: ledger_inv_def Let_def snapshots_ok_def)
  have ge: "pw_seq w \<le> lg_persisted_seq lg"
    using assms(4) by (cases rule: write_snapshot_cases) auto
  have parts: "rows_ok (quarantine s0) ?rows0 (lg_persisted lg) (cs_rows db)"
      "newest_ok (quarantine s0) (lg_persisted_seq lg) (sy_taken s) (lg_persisted lg) db"
    using inv' by (simp_all add: ledger_inv_def Let_def)
  obtain newest where n: "newest \<in> sy_taken s" "pw_seq newest = lg_persisted_seq lg"
      "lg_persisted lg = pw_commands newest" "holds_snapshot (quarantine s0) newest db"
    using parts(2) ge \<open>0 < pw_seq w\<close> by (auto simp: newest_ok_def)
  have ev: "\<forall>sc \<in> set (quarantine s0). ?rows0 sc \<noteq> None \<longrightarrow> map_of (cs_rows db) sc = ?rows0 sc"
    using parts(1) by (simp add: rows_ok_def)
  have gone: "map_of (cs_rows db) sc = None \<or> map_of (cs_rows db) sc = ?rows0 sc"
    if "sc \<notin> set (quarantine s0)" "map_of (pw_commands newest) sc = None" for sc
    using rows_okD(2) [OF parts(1)] that n(3) by simp
  show ?thesis
  proof (rule bexI [OF _ n(1)], intro conjI allI impI)
    show "pw_seq w \<le> pw_seq newest" using ge n(2) by simp
    show "holds_snapshot (quarantine s0) newest db" by (rule n(4))
  qed (use gone ev in blast)+
qed

text \<open>C22: A restart finds the durable receipts again.  Reading the database and restoring into a new process gives
  each durable receipt among the last 1,024 rows of the table that is readable as what it was (its body with sorted
  keys), and every quarantined identity is quarantined again.  Older rows are not taken up: rows of quarantined
  receipts stay in the table, so a table of more than 1,024 rows can hold durable receipts that a restart forgets;
  with at most 1,024 rows it finds them all.\<close>

theorem restart_finds_the_receipts:
  assumes "ledger_start s0" and "ledger_runs s0 s" and "lg_persisted_seq (sy_ledger s) \<noteq> 0"
  shows "\<exists>persisted lg. capture_state J (sy_store s) = Inr persisted \<and>
    restore_receipts J F persisted new_ledger = Inr lg \<and>
    set (quarantine s0) \<subseteq> fst ` set (lg_invalid lg) \<and>
    (\<forall>sc r c a. map_of (lg_persisted (sy_ledger s)) sc = Some r \<longrightarrow>
       (length (cs_rows (sy_store s)) \<le> remembered \<or> sc \<in> fst ` set (newest_rows (cs_rows (sy_store s)))) \<longrightarrow>
       validated_receipt J F (canon_obj (receipt_document sc r)) = Inr (c, a) \<longrightarrow>
       agrees (ct_canonical r)
         \<lparr>an_status = an_status (ct_answer r), an_body = canon (an_body (ct_answer r)), an_replayed = False\<rparr>
         (map_of (lg_commands lg) sc))"
proof -
  let ?qs = "quarantine s0" and ?db = "sy_store s"
  have inv: "ledger_inv ?qs (map_of (cs_rows (sy_store s0))) s"
    unfolding quarantine_def by (rule ledger_inv_runs [OF assms(2) ledger_inv_start [OF assms(1)]])
  have parts: "rows_ok ?qs (map_of (cs_rows (sy_store s0))) (lg_persisted (sy_ledger s)) (cs_rows ?db)"
      "list_all proper_scope ?qs" "known (sy_made s) (lg_persisted (sy_ledger s))"
      "ids_ok ?qs (lg_fresh (sy_ledger s)) (sy_made s)"
    using inv by (simp_all add: ledger_inv_def Let_def)
  obtain w where w: "well_written ?qs w" "holds_snapshot ?qs w ?db"
    using inv assms(3) by (auto simp: ledger_inv_def Let_def newest_ok_def snapshots_ok_def)
  obtain d entries where d: "stored_value ?qs w = JObj d" "map_of d ''commands'' = None"
      "map_of d ''invalid_commands'' = Some (JList entries)"
      "list_all (\<lambda>v. entry_scope v \<noteq> None) entries" "the ` entry_scope ` set entries = set ?qs"
    by (rule stored_lifecycle [OF w(1) parts(2)])
  have doc: "map_option body (documents (cs_tables ?db) ''capture'') = Some (JObj d)"
    using w(2) d(1) by (simp add: holds_snapshot_def)
  have rows: "list_all (\<lambda>x. proper_scope (fst x)) (cs_rows ?db)" "distinct (map fst (cs_rows ?db))"
    using parts(1) by (simp_all add: rows_ok_def)
  obtain persisted lg where lg: "capture_state J ?db = Inr persisted" "restore_receipts J F persisted new_ledger = Inr lg"
      "set ?qs \<subseteq> fst ` set (lg_invalid lg)"
      "\<And>sc e c a. (sc, Printed (JObj e)) \<in> set (newest_rows (cs_rows ?db)) \<Longrightarrow> JList (item_scope e) = scope_json sc \<Longrightarrow>
         sc \<notin> set ?qs \<Longrightarrow> validated_receipt J F e = Inr (c, a) \<Longrightarrow> agrees c a (map_of (lg_commands lg) sc)"
    using restart_from [OF doc d(2,3,4) rows, of J F] unfolding d(5) by metis
  have "agrees (ct_canonical r)
      \<lparr>an_status = an_status (ct_answer r), an_body = canon (an_body (ct_answer r)), an_replayed = False\<rparr>
      (map_of (lg_commands lg) sc)"
    if r: "map_of (lg_persisted (sy_ledger s)) sc = Some r"
      and n: "length (cs_rows ?db) \<le> remembered \<or> sc \<in> fst ` set (newest_rows (cs_rows ?db))"
      and v: "validated_receipt J F (canon_obj (receipt_document sc r)) = Inr (c, a)" for sc r c a
  proof -
    let ?e = "canon_obj (receipt_document sc r)"
    have "(sc, r) \<in> sy_made s" using r parts(3) by (auto simp: known_def dest!: map_of_SomeD)
    then have q: "sc \<notin> set ?qs" using parts(4) by (fastforce simp: ids_ok_def)
    have row: "map_of (cs_rows ?db) sc = Some (Printed (JObj ?e))"
      using rows_okD(1) [OF parts(1) r] by (simp add: printed_def)
    have new: "(sc, Printed (JObj ?e)) \<in> set (newest_rows (cs_rows ?db))"
    proof (cases "length (cs_rows ?db) \<le> remembered")
      case True
      then show ?thesis using map_of_SomeD [OF row] by (simp add: newest_rows_def)
    next
      case False
      then obtain t where "(sc, t) \<in> set (newest_rows (cs_rows ?db))" using n by force
      moreover have "t = Printed (JObj ?e)"
        using row map_of_is_SomeI [OF rows(2)] calculation set_newest_rows by fastforce
      ultimately show ?thesis by simp
    qed
    have scope: "JList (item_scope ?e) = scope_json sc"
      by (cases sc) (simp add: item_scope_def receipt_document_def scope_json_def)
    have fields: "c = ct_canonical r" "an_status a = an_status (ct_answer r)" "an_body a = canon (an_body (ct_answer r))"
        "an_replayed a = False"
      using validated_receipt_answer [OF v] by (cases sc; cases a; simp add: receipt_document_def)+
    then have "a = \<lparr>an_status = an_status (ct_answer r), an_body = canon (an_body (ct_answer r)), an_replayed = False\<rparr>"
      by (cases a) simp
    then show ?thesis using lg(4) [OF new scope q v] fields(1) by simp
  qed
  then show ?thesis using lg(1,2,3) by (intro exI [of _ persisted] exI [of _ lg] conjI) blast+
qed

section \<open>Witnesses\<close>

definition ex_scope :: scope where
  "ex_scope = (''operator'', ''stop'', ''key-1'')"

definition ex_answer :: answer where
  "ex_answer = \<lparr>an_status = 204, an_body = JNull, an_replayed = False\<rparr>"

definition ex_receipt :: receipt where
  "ex_receipt = \<lparr>ct_id = 0, ct_canonical = ''{}'', ct_answer = ex_answer\<rparr>"

definition ex_store :: capture_store where
  "ex_store = \<lparr>cs_tables = empty_database\<lparr>documents := [''capture'' \<mapsto> \<lparr>body = JObj [], revision = 1, updated_at = ''t0''\<rparr>]\<rparr>,
     cs_rows = []\<rparr>"

definition ex_start :: ledger_system where
  "ex_start = \<lparr>sy_ledger = new_ledger, sy_store = ex_store, sy_waiting = {}, sy_taken = {}, sy_made = {}\<rparr>"

definition ex_cached :: ledger where
  "ex_cached = cache_command ex_scope ''{}'' ex_answer new_ledger"

definition ex_write :: pending_write where
  "ex_write = fst (take_snapshot [(''active_session'', JNull)] ex_cached)"

definition ex_before :: ledger_system where
  "ex_before = \<lparr>sy_ledger = snd (take_snapshot [(''active_session'', JNull)] ex_cached), sy_store = ex_store,
     sy_waiting = {ex_write}, sy_taken = {ex_write}, sy_made = {(ex_scope, ex_receipt)}\<rparr>"

definition ex_after :: ledger_system where
  "ex_after = (case write_snapshot ''t1'' None ex_write (sy_ledger ex_before, ex_store) of
     (r, lg, db) \<Rightarrow> ex_before\<lparr>sy_ledger := lg, sy_store := db, sy_waiting := {}\<rparr>)"

lemma ex_run: "ledger_runs ex_start ex_before"
proof -
  have c: "ledger_step ex_start (ex_start\<lparr>sy_ledger := ex_cached, sy_made := {(ex_scope, ex_receipt)}\<rparr>)"
    using ledger_step.cache [of ex_scope ex_start "''{}''" ex_answer]
    by (simp add: ex_start_def new_ledger_def ex_cached_def ex_receipt_def proper_scope_def ex_scope_def)
  have "ledger_step (ex_start\<lparr>sy_ledger := ex_cached, sy_made := {(ex_scope, ex_receipt)}\<rparr>) ex_before"
    using ledger_step.snapshot [of "[(''active_session'', JNull)]"
      "ex_start\<lparr>sy_ledger := ex_cached, sy_made := {(ex_scope, ex_receipt)}\<rparr>"]
    by (simp add: lifecycle_fields_def ex_before_def ex_write_def ex_start_def)
  with c show ?thesis by (meson r_into_rtranclp rtranclp.rtrancl_into_rtrancl)
qed

lemma ex_start_ok: "ledger_start ex_start"
  by (simp add: ledger_start_def ex_start_def new_ledger_def ex_store_def)

lemma ex_cached_eq:
  "ex_cached = new_ledger\<lparr>lg_commands := [(ex_scope, ex_receipt)], lg_fresh := 1\<rparr>"
  by (simp add: ex_cached_def cache_command_def Let_def new_ledger_def remembered_def ex_receipt_def)

lemma ex_write_eq:
  "ex_write = \<lparr>pw_seq = 1,
     pw_value = [(''schema'', JStr ''ylx.capture-coordinator-state.v1''), (''invalid_commands'', JList []), (''active_session'', JNull)],
     pw_commands = [(ex_scope, ex_receipt)], pw_focus = None, pw_stop = None\<rparr>"
  by (simp add: ex_write_def take_snapshot_def ex_cached_eq new_ledger_def invalid_entries_def)

lemma ex_before_ledger:
  "sy_ledger ex_before = new_ledger\<lparr>lg_commands := [(ex_scope, ex_receipt)], lg_fresh := 1, lg_write_seq := 1\<rparr>"
  by (simp add: ex_before_def take_snapshot_def ex_cached_eq new_ledger_def)

lemma ex_written:
  "\<exists>db. write_snapshot ''t1'' None ex_write (sy_ledger ex_before, ex_store) =
     (Inr (), (sy_ledger ex_before)\<lparr>lg_persisted := [(ex_scope, ex_receipt)], lg_persisted_seq := 1\<rparr>, db) \<and>
     length (cs_rows db) = 1"
  by (simp add: write_snapshot_def ex_before_ledger ex_write_eq new_ledger_def focus_to_write_def
      put_capture_state_def quarantined_entries_def compact_value_def put_document_def ex_store_def empty_database_def
      new_receipts_def same_receipt_def dropped_scopes_def delete_rows_def insert_replace_def evidence_rows_def jset_def
      canon_obj_def)

theorem returned_persist_is_durable_witness:
  "\<exists>newest. newest \<in> sy_taken ex_before \<and> 1 \<le> pw_seq newest \<and>
     holds_snapshot [] newest (snd (snd (write_snapshot ''t1'' None ex_write (sy_ledger ex_before, ex_store))))"
proof -
  obtain lg db where w: "write_snapshot ''t1'' None ex_write (sy_ledger ex_before, ex_store) = (Inr (), lg, db)"
    using ex_written by blast
  have q: "quarantine ex_start = []" by (simp add: quarantine_def ex_start_def new_ledger_def)
  have s: "sy_store ex_before = ex_store" "ex_write \<in> sy_waiting ex_before" "pw_seq ex_write = 1"
    by (simp_all add: ex_before_def ex_write_eq)
  show ?thesis
    using returned_persist_is_durable [OF ex_start_ok ex_run s(2), of "''t1''" None lg db] w s q by auto
qed

definition ex_text :: json_text where
  "ex_text = \<lparr>jt_loads = (\<lambda>t. if t = ''{}'' then Some (JObj []) else None), jt_dumps = (\<lambda>v. ''{}'')\<rparr>"

definition ex_formats :: event_formats where
  "ex_formats = \<lparr>ef_date_time = (\<lambda>t. True), ef_recording_state = (\<lambda>v. True), ef_diagnostic = (\<lambda>v. True),
     ef_instant = (\<lambda>t. Inr 0)\<rparr>"

lemma ex_after_run: "ledger_runs ex_start ex_after"
proof -
  obtain lg db where w: "write_snapshot ''t1'' None ex_write (sy_ledger ex_before, ex_store) = (Inr (), lg, db)"
    using ex_written by blast
  have "ledger_step ex_before (ex_before\<lparr>sy_ledger := lg, sy_store := db, sy_waiting := sy_waiting ex_before - {ex_write}\<rparr>)"
    using w by (intro ledger_step.written [where now = "''t1''" and fault = None]) (simp_all add: ex_before_def)
  then have "ledger_step ex_before ex_after" using w by (simp add: ex_after_def ex_before_def)
  with ex_run show ?thesis by (rule rtranclp.rtrancl_into_rtrancl)
qed

lemma ex_readable:
  "validated_receipt ex_text ex_formats (canon_obj (receipt_document ex_scope ex_receipt)) = Inr (''{}'', ex_answer)"
proof -
  have k: "has_keys (canon_obj (receipt_document ex_scope ex_receipt)) receipt_keys"
    by (simp add: has_keys_def receipt_document_def ex_scope_def receipt_keys_def)
  show ?thesis
    unfolding validated_receipt_def
    using k by (simp add: receipt_document_def ex_scope_def ex_receipt_def ex_answer_def ex_text_def valid_answer_body_def)
qed

theorem restart_finds_the_receipts_witness:
  "\<exists>persisted lg. capture_state ex_text (sy_store ex_after) = Inr persisted \<and>
     restore_receipts ex_text ex_formats persisted new_ledger = Inr lg \<and>
     agrees ''{}'' ex_answer (map_of (lg_commands lg) ex_scope)"
proof -
  obtain db where w: "write_snapshot ''t1'' None ex_write (sy_ledger ex_before, ex_store) =
      (Inr (), (sy_ledger ex_before)\<lparr>lg_persisted := [(ex_scope, ex_receipt)], lg_persisted_seq := 1\<rparr>, db)"
      "length (cs_rows db) = 1"
    using ex_written by blast
  have a: "lg_persisted_seq (sy_ledger ex_after) \<noteq> 0" "length (cs_rows (sy_store ex_after)) \<le> remembered"
      "map_of (lg_persisted (sy_ledger ex_after)) ex_scope = Some ex_receipt"
    using w by (simp_all add: ex_after_def remembered_def)
  show ?thesis
    using restart_finds_the_receipts [OF ex_start_ok ex_after_run a(1), of ex_text ex_formats] a(2,3) ex_readable
    by (fastforce simp: ex_receipt_def ex_answer_def)
qed

end
