(* ===== verification/CaptureProps.thy ===== *)
theory CaptureProps
  imports CaptureStop LedgerProps
begin

text \<open>
  The capture coordinator between other threads: what one operation may rely on while it owns the
  stop or the acceptance, that every other operation keeps to it, and the resulting guarantees for
  commands, stops and the handoff of the volume.
\<close>

section \<open>Persisting, seen from the ledger\<close>

definition system_of ::
  "coordinator \<Rightarrow> pending_write set \<Rightarrow> pending_write set \<Rightarrow> (scope \<times> receipt) set \<Rightarrow> ledger_system" where
  "system_of co W T M =
     \<lparr>sy_ledger = co_ledger co, sy_store = co_store co, sy_waiting = W, sy_taken = T, sy_made = M\<rparr>"

lemma system_of_simps [simp]:
  "sy_ledger (system_of co W T M) = co_ledger co" "sy_store (system_of co W T M) = co_store co"
  "sy_waiting (system_of co W T M) = W" "sy_taken (system_of co W T M) = T" "sy_made (system_of co W T M) = M"
  by (simp_all add: system_of_def)

lemma lifecycle_value_fields: "lifecycle_fields (lifecycle_value co)"
  by (simp add: lifecycle_fields_def lifecycle_value_def)

lemma local_state_write_spec:
  assumes "local_state_write co = (w, co1)"
  obtains b where "co1 = co\<lparr>co_binding := b, co_ledger := (co_ledger co)\<lparr>lg_write_seq := lg_write_seq (co_ledger co) + 1\<rparr>\<rparr>"
    and "pw_commands w = lg_commands (co_ledger co)" and "pw_seq w = lg_write_seq (co_ledger co) + 1"
    and "\<And>W T M. ledger_step (system_of co W T M) (system_of co1 (insert w W) (insert w T) M)"
proof -
  define co0 where "co0 = (case co_admission co of None \<Rightarrow> co | Some a \<Rightarrow> co\<lparr>co_binding := binding_of a\<rparr>)"
  obtain b where b: "co0 = co\<lparr>co_binding := b\<rparr>"
  proof (cases "co_admission co")
    case None
    then have "co0 = co\<lparr>co_binding := co_binding co\<rparr>" by (simp add: co0_def)
    then show ?thesis by (rule that)
  next
    case (Some a)
    then show ?thesis using that by (simp add: co0_def)
  qed
  obtain lg where take: "take_snapshot (lifecycle_value co0) (co_ledger co0) = (w, lg)" and co1: "co1 = co0\<lparr>co_ledger := lg\<rparr>"
    using assms unfolding local_state_write_def Let_def co0_def [symmetric]
    by (cases "take_snapshot (lifecycle_value co0) (co_ledger co0)") auto
  have w: "pw_commands w = lg_commands (co_ledger co)" "pw_seq w = lg_write_seq (co_ledger co) + 1"
    and lg: "lg = (co_ledger co)\<lparr>lg_write_seq := lg_write_seq (co_ledger co) + 1\<rparr>"
    using take by (auto simp: take_snapshot_def Let_def b)
  have "ledger_step (system_of co W T M) (system_of co1 (insert w W) (insert w T) M)" for W T M
    using ledger_step.snapshot [OF lifecycle_value_fields [of co0], of "system_of co W T M" w lg] take
    by (simp add: b co1 system_of_def)
  then show ?thesis using that [of b] w lg co1 b by simp
qed

lemma write_state_spec:
  assumes "write_state now fault w co = (r, co1)"
  obtains lg db where "write_snapshot now fault w (co_ledger co, co_store co) = (r, lg, db)"
    and "co1 = co\<lparr>co_ledger := lg, co_store := db\<rparr>" and "lg_commands lg = lg_commands (co_ledger co)"
    and "map fst (lg_invalid lg) = map fst (lg_invalid (co_ledger co))"
proof -
  obtain lg db where w: "write_snapshot now fault w (co_ledger co, co_store co) = (r, lg, db)"
      "co1 = co\<lparr>co_ledger := lg, co_store := db\<rparr>"
    using assms by (auto simp: write_state_def split: prod.splits)
  have "lg_commands lg = lg_commands (co_ledger co) \<and> map fst (lg_invalid lg) = map fst (lg_invalid (co_ledger co))"
    using w(1) by (cases rule: write_snapshot_cases) auto
  then show ?thesis using that w by blast
qed

lemma holds_snapshotD:
  "holds_snapshot qs w db \<Longrightarrow> map_of (pw_commands w) sc = Some r \<Longrightarrow> map_of (cs_rows db) sc = Some (printed sc r)"
  unfolding holds_snapshot_def by blast

text \<open>A write that returns, after a snapshot that was taken when the receipt was cached and with the
  commands unchanged since, has made the receipt durable.\<close>

definition unchanged_since :: "pending_write \<Rightarrow> receipts \<Rightarrow> pending_write set \<Rightarrow> bool" where
  "unchanged_since w cs T \<longleftrightarrow> (\<forall>v \<in> T. pw_seq w \<le> pw_seq v \<longrightarrow> pw_commands v = cs)"

lemma write_makes_durable:
  assumes start: "ledger_start s0" and run: "ledger_runs s0 (system_of co W T M)" and w: "w \<in> W"
    and same: "unchanged_since w cs T" and sc: "map_of cs sc = Some r"
    and wr: "write_state now fault w co = (Inr (), co1)"
  shows "map_of (cs_rows (co_store co1)) sc = Some (printed sc r)" and "durable_receipt sc r co1"
    and "ledger_runs s0 (system_of co1 (W - {w}) T M)"
proof -
  obtain lg db where ws: "write_snapshot now fault w (co_ledger co, co_store co) = (Inr (), lg, db)"
      "co1 = co\<lparr>co_ledger := lg, co_store := db\<rparr>"
    by (rule write_state_spec [OF wr])
  have step: "ledger_step (system_of co W T M) (system_of co1 (W - {w}) T M)"
    using ledger_step.written [of w "system_of co W T M" now fault "Inr ()" lg db] w ws by (simp add: system_of_def)
  then show run1: "ledger_runs s0 (system_of co1 (W - {w}) T M)" using run by (rule rtranclp.rtrancl_into_rtrancl [rotated])
  have inv: "ledger_inv (quarantine s0) (map_of (cs_rows (sy_store s0))) (system_of co1 (W - {w}) T M)"
    unfolding quarantine_def by (rule ledger_inv_runs [OF run1 ledger_inv_start [OF start]])
  have inv0: "ledger_inv (quarantine s0) (map_of (cs_rows (sy_store s0))) (system_of co W T M)"
    unfolding quarantine_def by (rule ledger_inv_runs [OF run ledger_inv_start [OF start]])
  have pos: "0 < pw_seq w" using inv0 w by (auto simp: ledger_inv_def Let_def snapshots_ok_def)
  have ge: "pw_seq w \<le> lg_persisted_seq lg" using ws(1) by (cases rule: write_snapshot_cases) auto
  obtain v where v: "v \<in> T" "pw_seq v = lg_persisted_seq lg" "lg_persisted lg = pw_commands v"
      "holds_snapshot (quarantine s0) v db"
    using inv ge pos ws(2) by (auto simp: ledger_inv_def Let_def newest_ok_def)
  have cs: "pw_commands v = cs" using same v(1,2) ge by (simp add: unchanged_since_def)
  then show "map_of (cs_rows (co_store co1)) sc = Some (printed sc r)"
    using holds_snapshotD [OF v(4)] sc ws(2) by simp
  show "durable_receipt sc r co1"
    using v(3) cs sc ws(2) by (simp add: durable_receipt_def same_receipt_def)
qed

lemma snapshot_is_newest:
  assumes start: "ledger_start s0" and run: "ledger_runs s0 (system_of co W T M)"
    and snap: "local_state_write co = (w, co1)"
  shows "unchanged_since w (lg_commands (co_ledger co)) (insert w T)"
    and "ledger_runs s0 (system_of co1 (insert w W) (insert w T) M)"
proof -
  obtain b where co1: "co1 = co\<lparr>co_binding := b, co_ledger := (co_ledger co)\<lparr>lg_write_seq := lg_write_seq (co_ledger co) + 1\<rparr>\<rparr>"
    and w: "pw_commands w = lg_commands (co_ledger co)" "pw_seq w = lg_write_seq (co_ledger co) + 1"
    and step: "ledger_step (system_of co W T M) (system_of co1 (insert w W) (insert w T) M)"
    using local_state_write_spec [OF snap] by metis
  have inv: "ledger_inv (quarantine s0) (map_of (cs_rows (sy_store s0))) (system_of co W T M)"
    unfolding quarantine_def by (rule ledger_inv_runs [OF run ledger_inv_start [OF start]])
  have "pw_seq v \<le> lg_write_seq (co_ledger co)" if "v \<in> T" for v
    using inv that by (simp add: ledger_inv_def Let_def snapshots_ok_def)
  then show "unchanged_since w (lg_commands (co_ledger co)) (insert w T)"
    using w unfolding unchanged_since_def by fastforce
  show "ledger_runs s0 (system_of co1 (insert w W) (insert w T) M)"
    using run step by (rule rtranclp.rtrancl_into_rtrancl)
qed

lemma persist_makes_durable:
  assumes start: "ledger_start s0" and run: "ledger_runs s0 (system_of co W T M)"
    and sc: "map_of (lg_commands (co_ledger co)) sc = Some r"
    and p: "persist_state now fault co = (Inr (), co1)"
  shows "map_of (cs_rows (co_store co1)) sc = Some (printed sc r)" and "durable_receipt sc r co1"
    and "lg_commands (co_ledger co1) = lg_commands (co_ledger co)"
    and "map fst (lg_invalid (co_ledger co1)) = map fst (lg_invalid (co_ledger co))"
proof -
  obtain w co' where snap: "local_state_write co = (w, co')" and wr: "write_state now fault w co' = (Inr (), co1)"
    using p by (auto simp: persist_state_def split: prod.splits)
  note n = snapshot_is_newest [OF start run snap]
  note d = write_makes_durable [OF start n(2) insertI1 n(1) sc wr]
  show "map_of (cs_rows (co_store co1)) sc = Some (printed sc r)" "durable_receipt sc r co1" by (fact d)+
  obtain lg db where c1: "co1 = co'\<lparr>co_ledger := lg, co_store := db\<rparr>" "lg_commands lg = lg_commands (co_ledger co')"
      "map fst (lg_invalid lg) = map fst (lg_invalid (co_ledger co'))"
    by (rule write_state_spec [OF wr])
  obtain b where co': "co' = co\<lparr>co_binding := b, co_ledger := (co_ledger co)\<lparr>lg_write_seq := lg_write_seq (co_ledger co) + 1\<rparr>\<rparr>"
    using local_state_write_spec [OF snap] by metis
  show "lg_commands (co_ledger co1) = lg_commands (co_ledger co)"
    "map fst (lg_invalid (co_ledger co1)) = map fst (lg_invalid (co_ledger co))" by (simp_all add: c1 co')
qed

lemma update_absent: "map_of cs sc = None \<Longrightarrow> AList.update sc r cs = cs @ [(sc, r)]"
  by (induction cs) (auto split: if_splits)

lemma cached_receipt:
  assumes "map_of (lg_commands (co_ledger co)) sc = None"
  shows "map_of (lg_commands (co_ledger (remember_answer sc c a co))) sc =
    Some \<lparr>ct_id = lg_fresh (co_ledger co), ct_canonical = c, ct_answer = a\<rparr>"
proof -
  let ?cs = "lg_commands (co_ledger co)" and ?r = "\<lparr>ct_id = lg_fresh (co_ledger co), ct_canonical = c, ct_answer = a\<rparr>"
  have len: "length ?cs + 1 - remembered \<le> length ?cs" by (simp add: remembered_def)
  have "map_of (drop (length ?cs + 1 - remembered) ?cs) sc = None"
    using assms set_drop_subset [of "length ?cs + 1 - remembered" ?cs] by (fastforce simp: map_of_eq_None_iff)
  then show ?thesis
    using len by (simp add: remember_answer_def cache_command_def Let_def update_absent [OF assms] map_add_def)
qed

lemma cached_run:
  assumes "ledger_runs s0 (system_of co W T M)" and "sc \<notin> fst ` set (lg_invalid (co_ledger co))" and "proper_scope sc"
  shows "ledger_runs s0 (system_of (remember_answer sc c a co) W T
    (insert (sc, \<lparr>ct_id = lg_fresh (co_ledger co), ct_canonical = c, ct_answer = a\<rparr>) M))"
proof -
  have "ledger_step (system_of co W T M) (system_of (remember_answer sc c a co) W T
      (insert (sc, \<lparr>ct_id = lg_fresh (co_ledger co), ct_canonical = c, ct_answer = a\<rparr>) M))"
    using ledger_step.cache [of sc "system_of co W T M" c a] assms(2,3) by (simp add: system_of_def remember_answer_def)
  then show ?thesis using assms(1) by (rule rtranclp.rtrancl_into_rtrancl [rotated])
qed

text \<open>What an execution may do to the ledger: a run of its own checkpoints, which leaves the receipt
  of the command alone.\<close>

definition keeps_ledger ::
  "ledger_system \<Rightarrow> scope \<Rightarrow> (coordinator \<Rightarrow> answer res \<times> coordinator) \<Rightarrow> coordinator \<Rightarrow> pending_write set
     \<Rightarrow> pending_write set \<Rightarrow> (scope \<times> receipt) set \<Rightarrow> bool" where
  "keeps_ledger s0 sc execute co W T M \<longleftrightarrow>
     (\<forall>r co1. execute co = (r, co1) \<longrightarrow>
        lg_commands (co_ledger co1) = lg_commands (co_ledger co) \<and>
        map fst (lg_invalid (co_ledger co1)) = map fst (lg_invalid (co_ledger co)) \<and>
        (\<exists>W' T' M'. ledger_runs s0 (system_of co1 W' T' M')))"

lemma durable_row:
  assumes start: "ledger_start s0" and run: "ledger_runs s0 (system_of co W T M)"
    and sc: "map_of (lg_commands (co_ledger co)) sc = Some r" and d: "durable_receipt sc r co"
  shows "map_of (cs_rows (co_store co)) sc = Some (printed sc r)"
proof -
  have inv: "ledger_inv (quarantine s0) (map_of (cs_rows (sy_store s0))) (system_of co W T M)"
    unfolding quarantine_def by (rule ledger_inv_runs [OF run ledger_inv_start [OF start]])
  obtain q where q: "map_of (lg_persisted (co_ledger co)) sc = Some q" "ct_id q = ct_id r"
    using d by (auto simp: durable_receipt_def same_receipt_iff)
  have "(sc, r) \<in> M" "(sc, q) \<in> M" "inj_on (ct_id \<circ> snd) M"
    using inv sc q(1) by (auto simp: ledger_inv_def Let_def known_def ids_ok_def dest!: map_of_SomeD)
  then have "(sc, q) = (sc, r)" using q(2) by (intro inj_onD [of "ct_id \<circ> snd" M]) auto
  moreover have "rows_ok (quarantine s0) (map_of (cs_rows (sy_store s0))) (lg_persisted (co_ledger co)) (cs_rows (co_store co))"
    using inv by (simp add: ledger_inv_def Let_def)
  ultimately show ?thesis using rows_okD(1) q(1) by blast
qed

lemma idempotent_cases:
  assumes "idempotent opn cmd execute now fault co = (Inr a, co')"
  obtains (durable) r where "command_scope opn cmd \<notin> fst ` set (lg_invalid (co_ledger co))"
      "map_of (lg_commands (co_ledger co)) (command_scope opn cmd) = Some r" "ct_canonical r = cc_canonical cmd"
      "a = replayed (ct_answer r)" "durable_receipt (command_scope opn cmd) r co" "co' = co"
  | (cached) r where "command_scope opn cmd \<notin> fst ` set (lg_invalid (co_ledger co))"
      "map_of (lg_commands (co_ledger co)) (command_scope opn cmd) = Some r" "ct_canonical r = cc_canonical cmd"
      "a = replayed (ct_answer r)" "persist_state now fault co = (Inr (), co')"
  | (executed) co1 where "command_scope opn cmd \<notin> fst ` set (lg_invalid (co_ledger co))"
      "map_of (lg_commands (co_ledger co)) (command_scope opn cmd) = None" "execute co = (Inr a, co1)"
      "persist_state now fault (remember_answer (command_scope opn cmd) (cc_canonical cmd) a co1) = (Inr (), co')"
proof -
  let ?sc = "command_scope opn cmd"
  have valid: "?sc \<notin> fst ` set (lg_invalid (co_ledger co))"
  proof
    assume "?sc \<in> fst ` set (lg_invalid (co_ledger co))"
    then show False using assms unfolding idempotent_def Let_def require_valid_receipt_def by simp
  qed
  have eq: "idempotent opn cmd execute now fault co =
      (if stopping co \<and> (case map_of (lg_commands (co_ledger co)) ?sc of None \<Rightarrow> True | Some r \<Rightarrow> \<not> durable_receipt ?sc r co)
        then (Inl (provider_fault ''capture_busy'' True), co)
        else (case map_of (lg_commands (co_ledger co)) ?sc of
          Some r \<Rightarrow>
            if ct_canonical r \<noteq> cc_canonical cmd then (Inl (provider_fault ''idempotency_conflict'' False), co)
            else if durable_receipt ?sc r co then (Inr (replayed (ct_answer r)), co)
            else andS (persist_state now fault co) (\<lambda>co1. (Inr (replayed (ct_answer r)), co1))
        | None \<Rightarrow>
            if co_failing co \<noteq> None \<or> co_projection co \<noteq> None \<or> co_worker co \<noteq> None \<or> co_closing co
            then (Inl (provider_fault ''capture_busy'' False), co)
            else (case execute co of
                (Inl e, co1) \<Rightarrow> (Inl e, co1)
              | (Inr a, co1) \<Rightarrow>
                  andS (persist_state now fault (remember_answer ?sc (cc_canonical cmd) a co1)) (\<lambda>co2. (Inr a, co2)))))"
    using valid unfolding idempotent_def Let_def require_valid_receipt_def by simp
  show ?thesis
  proof (cases "map_of (lg_commands (co_ledger co)) ?sc")
    case None
    then obtain co1 where "execute co = (Inr a, co1)"
        "persist_state now fault (remember_answer ?sc (cc_canonical cmd) a co1) = (Inr (), co')"
      using assms unfolding eq by (auto simp: andS_Inr split: if_splits prod.splits sum.splits)
    then show ?thesis by (rule executed [OF valid None])
  next
    case (Some r)
    then show ?thesis
      using assms durable [OF valid Some] cached [OF valid Some] unfolding eq by (auto simp: andS_Inr split: if_splits)
  qed
qed

text \<open>A command whose answer was returned is durable, and the ledger remembers it.\<close>

definition remembered_receipt :: "scope \<Rightarrow> string \<Rightarrow> answer \<Rightarrow> receipt \<Rightarrow> coordinator \<Rightarrow> bool" where
  "remembered_receipt sc canonical a r co \<longleftrightarrow>
     map_of (lg_commands (co_ledger co)) sc = Some r \<and> ct_canonical r = canonical \<and> replayed (ct_answer r) = replayed a \<and>
     durable_receipt sc r co \<and> sc \<notin> fst ` set (lg_invalid (co_ledger co))"

lemma acknowledged_command_is_remembered:
  assumes "ledger_start s0" and "ledger_runs s0 (system_of co W T M)" and "proper_scope (command_scope opn cmd)"
    and "keeps_ledger s0 (command_scope opn cmd) execute co W T M"
    and "idempotent opn cmd execute now fault co = (Inr a, co')"
  shows "\<exists>r. remembered_receipt (command_scope opn cmd) (cc_canonical cmd) a r co' \<and>
    map_of (cs_rows (co_store co')) (command_scope opn cmd) = Some (printed (command_scope opn cmd) r)"
proof -
  let ?sc = "command_scope opn cmd"
  have "\<exists>r. map_of (lg_commands (co_ledger co')) ?sc = Some r \<and> ct_canonical r = cc_canonical cmd \<and>
      replayed (ct_answer r) = replayed a \<and> durable_receipt ?sc r co' \<and>
      map_of (cs_rows (co_store co')) ?sc = Some (printed ?sc r) \<and> ?sc \<notin> fst ` set (lg_invalid (co_ledger co'))"
    using assms(5)
  proof (cases rule: idempotent_cases)
    case (durable r)
    then show ?thesis using durable_row [OF assms(1,2) durable(2,5)] by (auto simp: replayed_def)
  next
    case (cached r)
    note d = persist_makes_durable [OF assms(1,2) cached(2,5)]
    have "?sc \<notin> fst ` set (lg_invalid (co_ledger co'))" using cached(1) d(4) by (metis list.set_map)
    then show ?thesis using d(1,2,3) cached(2,3,4) by (intro exI [of _ r]) (simp add: replayed_def)
  next
    case (executed co1)
    have k: "lg_commands (co_ledger co1) = lg_commands (co_ledger co)"
        "map fst (lg_invalid (co_ledger co1)) = map fst (lg_invalid (co_ledger co))"
      and "\<exists>W' T' M'. ledger_runs s0 (system_of co1 W' T' M')"
      using assms(4) executed(3) by (auto simp: keeps_ledger_def)
    then obtain W' T' M' where run: "ledger_runs s0 (system_of co1 W' T' M')" by blast
    have absent: "map_of (lg_commands (co_ledger co1)) ?sc = None" using executed(2) k(1) by simp
    have v1: "?sc \<notin> fst ` set (lg_invalid (co_ledger co1))" using executed(1) k(2) by (metis list.set_map)
    note cr = cached_receipt [OF absent, of "cc_canonical cmd" a]
    note d = persist_makes_durable [OF assms(1) cached_run [OF run v1 assms(3)] cr executed(4)]
    have "map fst (lg_invalid (co_ledger co')) = map fst (lg_invalid (co_ledger co1))"
      using d(4) by (simp add: remember_answer_def cache_command_def Let_def)
    then have "?sc \<notin> fst ` set (lg_invalid (co_ledger co'))" using v1 by (metis list.set_map)
    then show ?thesis using d(1,2,3) cr by (intro exI) auto
  qed
  then show ?thesis unfolding remembered_receipt_def by blast
qed

text \<open>While a receipt is remembered, asking again never runs the command: whatever state the coordinator is in by then,
  and whatever the later execution, clock and database do, the reply is the replayed answer or a refusal, and the
  state changes at most by persisting it.  A durable receipt that is not quarantined is replayed from any state
  and changes nothing.\<close>

lemma remembered_command_replays:
  assumes "map_of (lg_commands (co_ledger later)) (command_scope opn cmd) = Some r" and "ct_canonical r = cc_canonical cmd"
    and "replayed (ct_answer r) = replayed a"
  shows "snd (idempotent opn cmd execute now fault later) \<in> {later, snd (persist_state now fault later)}"
    and "fst (idempotent opn cmd execute now fault later) = Inr b \<Longrightarrow> b = replayed a"
    and "durable_receipt (command_scope opn cmd) r later \<Longrightarrow> command_scope opn cmd \<notin> fst ` set (lg_invalid (co_ledger later)) \<Longrightarrow>
      idempotent opn cmd execute now fault later = (Inr (replayed a), later)"
proof -
  obtain x c where p: "persist_state now fault later = (x, c)" by fastforce
  show "snd (idempotent opn cmd execute now fault later) \<in> {later, snd (persist_state now fault later)}"
    using assms by (cases x) (auto simp: idempotent_def Let_def require_valid_receipt_def guardE_def p)
  show "b = replayed a" if "fst (idempotent opn cmd execute now fault later) = Inr b"
    using assms that by (cases x) (auto simp: idempotent_def Let_def require_valid_receipt_def guardE_def p split: if_splits)
  show "idempotent opn cmd execute now fault later = (Inr (replayed a), later)"
    if "durable_receipt (command_scope opn cmd) r later" "command_scope opn cmd \<notin> fst ` set (lg_invalid (co_ledger later))"
    using assms that by (simp add: idempotent_def Let_def require_valid_receipt_def)
qed

lemma acknowledged_command_replays:
  assumes "ledger_start s0" and "ledger_runs s0 (system_of co W T M)" and "proper_scope (command_scope opn cmd)"
    and "keeps_ledger s0 (command_scope opn cmd) execute co W T M"
    and "idempotent opn cmd execute now fault co = (Inr a, co')"
  shows "(\<exists>r. ct_canonical r = cc_canonical cmd \<and> replayed (ct_answer r) = replayed a \<and>
            map_of (cs_rows (co_store co')) (command_scope opn cmd) = Some (printed (command_scope opn cmd) r)) \<and>
    idempotent opn cmd execute' now' fault' co' = (Inr (replayed a), co')"
  using acknowledged_command_is_remembered [OF assms] remembered_command_replays(3) unfolding remembered_receipt_def by metis

section \<open>Starting\<close>

text \<open>Steps of the coordinator that are runs of the ledger and leave receipts and quarantine alone.\<close>

definition ledger_quiet :: "ledger_system \<Rightarrow> coordinator \<Rightarrow> coordinator \<Rightarrow> bool" where
  "ledger_quiet s0 co co1 \<longleftrightarrow>
     lg_commands (co_ledger co1) = lg_commands (co_ledger co) \<and>
     map fst (lg_invalid (co_ledger co1)) = map fst (lg_invalid (co_ledger co)) \<and>
     (\<forall>W T M. ledger_runs s0 (system_of co W T M) \<longrightarrow> (\<exists>W' T'. ledger_runs s0 (system_of co1 W' T' M)))"

lemma ledger_quiet_refl: "ledger_quiet s0 co co"
  by (auto simp: ledger_quiet_def)

lemma ledger_quiet_trans: "ledger_quiet s0 a b \<Longrightarrow> ledger_quiet s0 b c \<Longrightarrow> ledger_quiet s0 a c"
  unfolding ledger_quiet_def by (metis (no_types, lifting))

lemma ledger_quiet_same:
  "co_ledger co1 = co_ledger co \<Longrightarrow> co_store co1 = co_store co \<Longrightarrow> ledger_quiet s0 co co1"
  by (auto simp: ledger_quiet_def system_of_def)

lemma persist_quiet:
  assumes "persist_state now fault co = (r, co1)"
  shows "ledger_quiet s0 co co1"
proof -
  obtain w co' where snap: "local_state_write co = (w, co')" and wr: "write_state now fault w co' = (r, co1)"
    using assms by (auto simp: persist_state_def split: prod.splits)
  obtain b where co': "co' = co\<lparr>co_binding := b, co_ledger := (co_ledger co)\<lparr>lg_write_seq := lg_write_seq (co_ledger co) + 1\<rparr>\<rparr>"
    and s1: "\<And>W T M. ledger_step (system_of co W T M) (system_of co' (insert w W) (insert w T) M)"
    using local_state_write_spec [OF snap] by metis
  obtain lg db where w: "write_snapshot now fault w (co_ledger co', co_store co') = (r, lg, db)"
      "co1 = co'\<lparr>co_ledger := lg, co_store := db\<rparr>" "lg_commands lg = lg_commands (co_ledger co')"
      "map fst (lg_invalid lg) = map fst (lg_invalid (co_ledger co'))"
    by (rule write_state_spec [OF wr])
  have fresh: "ledger_runs s0 (system_of co1 (W - {w}) (insert w T) M)" if "ledger_runs s0 (system_of co W T M)" for W T M
  proof -
    have "ledger_step (system_of co' (insert w W) (insert w T) M) (system_of co1 (W - {w}) (insert w T) M)"
      using ledger_step.written [of w "system_of co' (insert w W) (insert w T) M" now fault r lg db] w(1,2)
      by (simp add: system_of_def)
    then show ?thesis using that s1 by (meson rtranclp.rtrancl_into_rtrancl)
  qed
  show ?thesis
    unfolding ledger_quiet_def using fresh w(2,3,4) co' by (intro conjI allI impI) (simp, simp, blast)
qed

lemma catch_quiet:
  assumes "catchS P m (\<lambda>e co2. (Inr (), co2)) = (r, co1)"
  shows "snd m = co1"
  using assms by (cases m; cases "fst m") (auto split: if_splits)

lemma recording_state_quiet:
  assumes "recording_state_changed p st now fault co = (r, co1)"
  shows "ledger_quiet s0 co co1"
proof -
  let ?co = "if co_active co = Some p then co\<lparr>co_cached := Some st\<rparr> else co"
  have "snd (persist_state now fault ?co) = co1"
    by (rule catch_quiet [OF assms [unfolded recording_state_changed_def Let_def]])
  then have "persist_state now fault ?co = (fst (persist_state now fault ?co), co1)" by (metis prod.collapse)
  then have "ledger_quiet s0 ?co co1" by (rule persist_quiet)
  moreover have "ledger_quiet s0 co ?co" by (rule ledger_quiet_same) auto
  ultimately show ?thesis by (rule ledger_quiet_trans [rotated])
qed

lemma report_states_quiet: "report_states p cs co = (r, co1) \<Longrightarrow> ledger_quiet s0 co co1"
proof (induction cs arbitrary: co)
  case Nil
  then show ?case by (simp add: ledger_quiet_refl)
next
  case (Cons c cs)
  let ?co = "next_capture_revision co"
  let ?st = "jset ''state_revision'' (JInt (co_revision ?co)) (cp_state c)"
  obtain r2 co2 where m: "recording_state_changed p ?st (cp_now c) (cp_fault c) ?co = (r2, co2)" by fastforce
  have q: "ledger_quiet s0 co co2"
    by (rule ledger_quiet_trans [OF ledger_quiet_same recording_state_quiet [OF m]]) (simp_all add: next_capture_revision_def)
  show ?case
  proof (cases r2)
    case (Inl e)
    then show ?thesis using Cons.prems m q by (simp add: Let_def)
  next
    case (Inr u)
    then have "report_states p cs co2 = (r, co1)" using Cons.prems m by (simp add: Let_def)
    then show ?thesis by (rule ledger_quiet_trans [OF q Cons.IH])
  qed
qed

text \<open>What sequencing and catching do to a reflexive and transitive relation on states.\<close>

lemma andS_rel:
  assumes "andS m f = (r, c)" and "\<And>r1 c1. m = (r1, c1) \<Longrightarrow> R a c1" and "\<And>c1 r2 c2. f c1 = (r2, c2) \<Longrightarrow> R c1 c2"
    and "\<And>x y z. R x y \<Longrightarrow> R y z \<Longrightarrow> R x z"
  shows "R a c"
proof -
  obtain r1 c1 where m: "m = (r1, c1)" by (cases m)
  show ?thesis
  proof (cases r1)
    case (Inl e)
    then show ?thesis using assms(1) assms(2) [OF m] m by simp
  next
    case (Inr x)
    then have "f c1 = (r, c)" using assms(1) m by simp
    then show ?thesis using assms(4) [OF assms(2) [OF m] assms(3)] by blast
  qed
qed

lemma tryS_rel:
  assumes "tryS m s f = (r, c)" and "R s s" and "\<And>x r2 c2. f x = (r2, c2) \<Longrightarrow> R s c2"
  shows "R s c"
  using assms by (cases m) auto

lemma as_provider_rel:
  assumes "as_provider b m = (r, c)"
  shows "\<exists>r1. m = (r1, c)"
  using assms unfolding as_provider_def by (cases m; cases "fst m") (auto split: if_splits)

text \<open>The fields that persisting and reporting progress leave alone: all but the ledger, the database,
  the remembered binding, the cached progress and the revision.\<close>

definition core :: "coordinator \<Rightarrow> coordinator" where
  "core co = co\<lparr>co_ledger := new_ledger, co_store := \<lparr>cs_tables = empty_database, cs_rows = []\<rparr>,
     co_binding := JNull, co_cached := None, co_revision := 0\<rparr>"

lemma coreD:
  assumes "core a = core b"
  shows "co_active a = co_active b" and "co_lease a = co_lease b" and "co_stop a = co_stop b"
    and "co_worker a = co_worker b" and "co_released a = co_released b" and "co_media_lost a = co_media_lost b"
    and "co_failing a = co_failing b" and "co_uncommitted a = co_uncommitted b" and "co_admission a = co_admission b"
    and "co_retained a = co_retained b" and "co_swap a = co_swap b" and "co_open a = co_open b"
    and "co_acceptance a = co_acceptance b" and "co_source_failure a = co_source_failure b"
    and "co_closing a = co_closing b" and "co_swap_resource a = co_swap_resource b" and "co_timer a = co_timer b"
    and "co_projection a = co_projection b" and "co_swap_staged a = co_swap_staged b" and "co_reason a = co_reason b"
    and "co_swap_failure a = co_swap_failure b" and "co_workers a = co_workers b"
  using assms by (cases a; cases b; simp add: core_def)+

lemma local_state_write_core: "local_state_write co = (w, co1) \<Longrightarrow> core co1 = core co"
  by (erule local_state_write_spec) (simp add: core_def)

lemma write_state_core: "write_state now fault w co = (r, co1) \<Longrightarrow> core co1 = core co"
  by (erule write_state_spec) (simp add: core_def)

lemma persist_state_core: "persist_state now fault co = (r, co1) \<Longrightarrow> core co1 = core co"
  by (auto simp: persist_state_def split: prod.splits dest!: local_state_write_core write_state_core)

lemma next_revision_core [simp]: "core (next_capture_revision co) = core co"
  by (simp add: core_def next_capture_revision_def)

lemma cached_core [simp]: "core (co\<lparr>co_cached := x\<rparr>) = core co"
  by (simp add: core_def)

lemma ledger_core [simp]: "core (co\<lparr>co_ledger := x\<rparr>) = core co"
  by (simp add: core_def)

lemma remember_core [simp]: "core (remember_answer s c a co) = core co"
  by (simp add: remember_answer_def)

lemma recording_state_core:
  assumes "recording_state_changed p st now fault co = (r, co1)"
  shows "core co1 = core co"
proof -
  let ?co = "if co_active co = Some p then co\<lparr>co_cached := Some st\<rparr> else co"
  have "snd (persist_state now fault ?co) = co1"
    by (rule catch_quiet [OF assms [unfolded recording_state_changed_def Let_def]])
  then have "persist_state now fault ?co = (fst (persist_state now fault ?co), co1)" by (metis prod.collapse)
  then show ?thesis by (auto dest!: persist_state_core)
qed

lemma report_states_core: "report_states p cs co = (r, co1) \<Longrightarrow> core co1 = core co"
proof (induction cs arbitrary: co)
  case (Cons c cs)
  let ?co = "next_capture_revision co"
  let ?st = "jset ''state_revision'' (JInt (co_revision ?co)) (cp_state c)"
  obtain r2 co2 where m: "recording_state_changed p ?st (cp_now c) (cp_fault c) ?co = (r2, co2)" by fastforce
  have q: "core co2 = core co" using recording_state_core [OF m] by simp
  show ?case
  proof (cases r2)
    case (Inl e)
    then show ?thesis using Cons.prems m q by (simp add: Let_def)
  next
    case (Inr u)
    then have "report_states p cs co2 = (r, co1)" using Cons.prems m by (simp add: Let_def)
    then show ?thesis using Cons.IH q by metis
  qed
qed simp

lemma recording_snapshot_core: "recording_snapshot V co = (x, co1) \<Longrightarrow> core co1 = core co"
  by (auto simp: recording_snapshot_def split: option.splits if_splits)

lemma capture_status_core: "capture_status V co = (doc, co1) \<Longrightarrow> core co1 = core co"
  by (auto simp: capture_status_def split: prod.splits dest: recording_snapshot_core)

lemma capture_status_ledger: "capture_status V co = (doc, co1) \<Longrightarrow> co_ledger co1 = co_ledger co \<and> co_store co1 = co_store co"
  by (auto simp: capture_status_def recording_snapshot_def split: prod.splits option.splits if_splits)

end
