(* ===== verification/CaptureStartProps.thy ===== *)
theory CaptureStartProps
  imports CaptureProps
begin

text \<open>
  The start of a recording: answered once it is durable and never runs twice, and what the daemon
  holds when it has succeeded or failed.
\<close>

section \<open>The ledger during a start\<close>

definition quiet_step :: "ledger_system \<Rightarrow> (coordinator \<Rightarrow> 'a res \<times> coordinator) \<Rightarrow> bool" where
  "quiet_step s0 f \<longleftrightarrow> (\<forall>c r c'. f c = (r, c') \<longrightarrow> ledger_quiet s0 c c')"

lemma quiet_stepD: "quiet_step s0 f \<Longrightarrow> f c = (r, c') \<Longrightarrow> ledger_quiet s0 c c'"
  by (auto simp: quiet_step_def)

lemma capture_status_quiet: "capture_status V co = (doc, co1) \<Longrightarrow> ledger_quiet s0 co co1"
  using capture_status_ledger [of V co doc co1] by (intro ledger_quiet_same) auto

lemma abandon_start_quiet:
  assumes "abandon_start E p e co = (r, co1)"
  shows "ledger_quiet s0 co co1"
  using assms unfolding abandon_start_def
proof (rule andS_rel [where R = "ledger_quiet s0"])
  fix r1 c1
  assume "(if en_recorder_phase E = ''recording'' \<or> en_recorder_phase E = ''finalizing''
     then report_states p (en_fail_states E) co else (Inr (), co)) = (r1, c1)"
  then show "ledger_quiet s0 co c1" by (auto split: if_splits intro: report_states_quiet ledger_quiet_refl)
next
  fix c1 r2 c2
  assume m: "(let co2 = (case en_failed_state E of
              None \<Rightarrow> c1
            | Some st \<Rightarrow> c1\<lparr>co_retained := jset (pl_session p)
                (JObj [(''generation_id'', JStr (pl_generation p)), (''recording_state'', JObj st)]) (co_retained c1)\<rparr>);
           co3 = co2\<lparr>co_active := None, co_timer := None\<rparr> in
       andS (persist_state (en_now E) (en_fault E) co3) (\<lambda>co4.
         (Inl (provider_fault (error_code ''source_start_failed'' e) False), co4))) = (r2, c2)"
  define c3 where "c3 = (case en_failed_state E of
              None \<Rightarrow> c1
            | Some st \<Rightarrow> c1\<lparr>co_retained := jset (pl_session p)
                (JObj [(''generation_id'', JStr (pl_generation p)), (''recording_state'', JObj st)]) (co_retained c1)\<rparr>)
      \<lparr>co_active := None, co_timer := None\<rparr>"
  have m3: "andS (persist_state (en_now E) (en_fault E) c3) (\<lambda>co4.
         (Inl (provider_fault (error_code ''source_start_failed'' e) False), co4)) = (r2, c2)"
    using m unfolding c3_def Let_def .
  have same: "ledger_quiet s0 c1 c3"
    by (rule ledger_quiet_same) (auto simp: c3_def split: option.splits)
  obtain r3 c4 where p: "persist_state (en_now E) (en_fault E) c3 = (r3, c4)" by fastforce
  have "c2 = c4" using m3 unfolding p by (cases r3) simp_all
  then show "ledger_quiet s0 c1 c2" using ledger_quiet_trans [OF same persist_quiet [OF p]] by simp
qed (rule ledger_quiet_trans)

lemma run_recording_cases:
  assumes "run_recording E p co = (r, co')"
  obtains (running) co1 doc where "report_states p (en_states E) (claim_recording p co) = (Inr (), co1)" "en_started E = Inr ()"
      "capture_status (en_view E) (co1\<lparr>co_timer := map_option (\<lambda>d. (p, en_monotonic E + of_int d, d)) (en_timer E)\<rparr>) = (doc, co')"
      "r = Inr \<lparr>an_status = 202, an_body = doc, an_replayed = False\<rparr>"
  | (abandoned) r1 co1 e where "report_states p (en_states E) (claim_recording p co) = (r1, co1)" "abandon_start E p e co1 = (r, co')"
proof -
  obtain r1 co1 where m: "report_states p (en_states E) (claim_recording p co) = (r1, co1)" by fastforce
  show ?thesis
  proof (cases r1)
    case (Inl e)
    then show ?thesis using assms m abandoned by (simp add: run_recording_def)
  next
    case (Inr u)
    show ?thesis
    proof (cases "en_started E")
      case (Inl e)
      then show ?thesis using assms m Inr abandoned by (simp add: run_recording_def)
    next
      case (Inr v)
      then show ?thesis
        using assms m \<open>r1 = Inr u\<close> running by (auto simp: run_recording_def Let_def split: prod.splits)
    qed
  qed
qed

lemma run_recording_quiet:
  assumes "run_recording E p co = (r, co')"
  shows "ledger_quiet s0 co co'"
proof -
  have claim: "ledger_quiet s0 co (claim_recording p co)" by (rule ledger_quiet_same) (simp_all add: claim_recording_def)
  show ?thesis
    using assms
  proof (cases rule: run_recording_cases)
    case (running co1 doc)
    have t: "ledger_quiet s0 co1 (co1\<lparr>co_timer := map_option (\<lambda>d. (p, en_monotonic E + of_int d, d)) (en_timer E)\<rparr>)"
      by (rule ledger_quiet_same) simp_all
    show ?thesis
      by (rule ledger_quiet_trans [OF claim ledger_quiet_trans [OF report_states_quiet [OF running(1)]
            ledger_quiet_trans [OF t capture_status_quiet [OF running(3)]]]])
  next
    case (abandoned r1 co1 e)
    show ?thesis
      by (rule ledger_quiet_trans [OF claim ledger_quiet_trans [OF report_states_quiet [OF abandoned(1)]
            abandon_start_quiet [OF abandoned(2)]]])
  qed
qed

text \<open>The result of a branching section, by its branches.\<close>

definition ledger_alike :: "coordinator \<Rightarrow> 'a \<times> coordinator \<Rightarrow> bool" where
  "ledger_alike c m \<longleftrightarrow> co_ledger (snd m) = co_ledger c \<and> co_store (snd m) = co_store c"

lemma ledger_alike_intros:
  "ledger_alike c (r, c)"
  "ledger_alike c (r, c\<lparr>co_media_lost := b\<rparr>)"
  "ledger_alike c m1 \<Longrightarrow> ledger_alike c m2 \<Longrightarrow> ledger_alike c (if P then m1 else m2)"
  "ledger_alike c m1 \<Longrightarrow> (\<And>y. ledger_alike c (f y)) \<Longrightarrow> ledger_alike c (case x of None \<Rightarrow> m1 | Some y \<Rightarrow> f y)"
  "(\<And>e. ledger_alike c (h e)) \<Longrightarrow> (\<And>u. ledger_alike c (g u)) \<Longrightarrow> ledger_alike c (case z of Inl e \<Rightarrow> h e | Inr u \<Rightarrow> g u)"
  by (auto simp: ledger_alike_def split: option.split sum.split)

lemma check_generation_quiet:
  assumes "co_admission co = None \<Longrightarrow> quiet_step s0 admit" and "check_generation admit probe g force co = (r, co1)"
  shows "ledger_quiet s0 co co1"
proof -
  obtain x c where m: "(case co_admission co of Some a \<Rightarrow> (Inr a, co) | None \<Rightarrow> admit co) = (x, c)" by fastforce
  have q: "ledger_quiet s0 co c"
    using m assms(1) by (cases "co_admission co") (auto intro: ledger_quiet_refl dest: quiet_stepD)
  have "co_ledger co1 = co_ledger c \<and> co_store co1 = co_store c"
  proof (cases x)
    case (Inl e)
    then show ?thesis using assms(2) unfolding check_generation_def m by simp
  next
    case (Inr a)
    have "ledger_alike c (check_generation admit probe g force co)"
      unfolding check_generation_def m Inr sum.case prod.case by (intro ledger_alike_intros)
    then show ?thesis unfolding assms(2) ledger_alike_def by simp
  qed
  then show ?thesis using ledger_quiet_trans [OF q ledger_quiet_same] by simp
qed

lemma start_with_lease_eq:
  assumes "network_idle (en_network E) = Inr u"
    and "as_provider True (case co_admission co of Some a \<Rightarrow> (Inr a, co) | None \<Rightarrow> en_admit E co) = (Inr adm, c)"
  shows "start_with_lease E b co =
    (if jget b ''volume_id'' \<noteq> JNull \<and> \<not> eq_str (jget b ''volume_id'') (ad_volume adm)
     then (Inl (provider_fault ''volume_mismatch'' False), c)
     else andS (as_provider False (andS (check_generation (en_admit E) (en_probe E) None True c)
              (\<lambda>co2. tryS (en_reserve E) co2 (\<lambda>_. en_recover E co2))))
            (\<lambda>co2. tryS (requested_take E b) co2 (\<lambda>chosen. run_recording E (planned E b adm chosen) co2)))"
  using assms by (simp add: start_with_lease_def)

lemma start_with_lease_quiet:
  assumes "co_admission co = None \<Longrightarrow> quiet_step s0 (en_admit E)" and "quiet_step s0 (en_recover E)"
    and "start_with_lease E b co = (r, co1)"
  shows "ledger_quiet s0 co co1"
proof (cases "network_idle (en_network E)")
  case (Inl e)
  then show ?thesis using assms(3) by (simp add: start_with_lease_def ledger_quiet_refl)
next
  case (Inr u)
  obtain x c where m: "as_provider True (case co_admission co of Some a \<Rightarrow> (Inr a, co) | None \<Rightarrow> en_admit E co) = (x, c)" by fastforce
  obtain x' where m': "(case co_admission co of Some a \<Rightarrow> (Inr a, co) | None \<Rightarrow> en_admit E co) = (x', c)"
    using as_provider_rel [OF m] by blast
  have q: "ledger_quiet s0 co c"
    using m' assms(1) by (cases "co_admission co") (auto intro: ledger_quiet_refl dest: quiet_stepD)
  have adm: "co_admission c = None \<Longrightarrow> quiet_step s0 (en_admit E)"
    using m' assms(1) by (cases "co_admission co") auto
  show ?thesis
  proof (cases x)
    case (Inl e)
    then show ?thesis using assms(3) Inr m q by (simp add: start_with_lease_def)
  next
    case (Inr a)
    define checked where "checked = as_provider False
       (andS (check_generation (en_admit E) (en_probe E) None True c) (\<lambda>co2. tryS (en_reserve E) co2 (\<lambda>_. en_recover E co2)))"
    have rest: "start_with_lease E b co =
        (if jget b ''volume_id'' \<noteq> JNull \<and> \<not> eq_str (jget b ''volume_id'') (ad_volume a)
         then (Inl (provider_fault ''volume_mismatch'' False), c)
         else andS checked (\<lambda>co2. tryS (requested_take E b) co2 (\<lambda>chosen. run_recording E (planned E b a chosen) co2)))"
      using start_with_lease_eq [OF \<open>network_idle (en_network E) = Inr u\<close> m [unfolded Inr]] unfolding checked_def .
    have checks: "ledger_quiet s0 c c1" if ended: "checked = (r1, c1)" for r1 c1
    proof -
      obtain r2 where "andS (check_generation (en_admit E) (en_probe E) None True c)
          (\<lambda>co2. tryS (en_reserve E) co2 (\<lambda>_. en_recover E co2)) = (r2, c1)"
        using as_provider_rel [OF ended [unfolded checked_def]] by blast
      then show ?thesis
      proof (rule andS_rel [where R = "ledger_quiet s0"])
        fix r3 c3
        assume "check_generation (en_admit E) (en_probe E) None True c = (r3, c3)"
        then show "ledger_quiet s0 c c3" by (rule check_generation_quiet [rotated]) (rule adm)
      next
        fix c3 r4 c4
        assume "tryS (en_reserve E) c3 (\<lambda>_. en_recover E c3) = (r4, c4)"
        then show "ledger_quiet s0 c3 c4"
          using assms(2) by (cases "en_reserve E") (auto intro: ledger_quiet_refl quiet_stepD)
      qed (rule ledger_quiet_trans)
    qed
    show ?thesis
    proof (cases "jget b ''volume_id'' \<noteq> JNull \<and> \<not> eq_str (jget b ''volume_id'') (ad_volume a)")
      case True
      then show ?thesis using assms(3) q unfolding rest by simp
    next
      case False
      have "andS checked (\<lambda>co2. tryS (requested_take E b) co2 (\<lambda>chosen. run_recording E (planned E b a chosen) co2)) = (r, co1)"
        using assms(3) unfolding rest if_not_P [OF False] .
      then have "ledger_quiet s0 c co1"
      proof (rule andS_rel [where R = "ledger_quiet s0"])
        show "ledger_quiet s0 c c1" if "checked = (r1, c1)" for r1 c1 using that by (rule checks)
        show "ledger_quiet s0 c1 c2"
          if "tryS (requested_take E b) c1 (\<lambda>chosen. run_recording E (planned E b a chosen) c1) = (r2, c2)" for c1 r2 c2
          using that by (cases "requested_take E b") (auto intro: ledger_quiet_refl run_recording_quiet)
      qed (rule ledger_quiet_trans)
      then show ?thesis by (rule ledger_quiet_trans [OF q])
    qed
  qed
qed

lemma start_recording_quiet:
  assumes "co_admission co = None \<Longrightarrow> quiet_step s0 (en_admit E)" and "quiet_step s0 (en_recover E)"
    and "start_recording E b co = (r, co1)"
  shows "ledger_quiet s0 co co1"
proof -
  obtain x c where m: "start_with_lease E b (co\<lparr>co_lease := True\<rparr>) = (x, c)" by fastforce
  have q: "ledger_quiet s0 co c"
    by (rule ledger_quiet_trans [OF ledger_quiet_same start_with_lease_quiet [OF _ assms(2) m]]) (simp_all add: assms(1))
  have "co1 = co \<or> co1 = c \<or> co1 = release_lease c"
    using assms(3) m by (auto simp: start_recording_def tryS_def split: if_splits sum.splits)
  moreover have "ledger_quiet s0 c (release_lease c)" by (rule ledger_quiet_same) (simp_all add: release_lease_def)
  ultimately show ?thesis using q ledger_quiet_refl ledger_quiet_trans by metis
qed

section \<open>The device during a start\<close>

text \<open>What no step of a start may touch: the network lease, and, once the volume was checked, its
  release and loss.\<close>

definition device_step :: "(coordinator \<Rightarrow> 'a res \<times> coordinator) \<Rightarrow> bool" where
  "device_step f \<longleftrightarrow>
     (\<forall>c r c'. f c = (r, c') \<longrightarrow> co_lease c' = co_lease c \<and> co_active c' = co_active c)"

definition volume_step :: "(coordinator \<Rightarrow> 'a res \<times> coordinator) \<Rightarrow> bool" where
  "volume_step f \<longleftrightarrow>
     (\<forall>c r c'. f c = (r, c') \<longrightarrow> co_released c' = co_released c \<and> co_media_lost c' = co_media_lost c)"

lemma device_stepD: "device_step f \<Longrightarrow> f c = (r, c') \<Longrightarrow> co_lease c' = co_lease c \<and> co_active c' = co_active c"
  by (auto simp: device_step_def)

lemma volume_stepD: "volume_step f \<Longrightarrow> f c = (r, c') \<Longrightarrow> co_released c' = co_released c \<and> co_media_lost c' = co_media_lost c"
  by (auto simp: volume_step_def)

definition device_kept :: "coordinator \<Rightarrow> coordinator \<Rightarrow> bool" where
  "device_kept a b \<longleftrightarrow> co_lease b = co_lease a \<and> co_released b = co_released a \<and> co_media_lost b = co_media_lost a"

lemma device_kept_core: "core b = core a \<Longrightarrow> device_kept a b"
  using coreD [of b a] by (simp add: device_kept_def)

lemma device_kept_trans: "device_kept a b \<Longrightarrow> device_kept b c \<Longrightarrow> device_kept a c"
  by (simp add: device_kept_def)

lemma abandon_start_device:
  assumes "abandon_start E p e co = (r, co1)"
  shows "device_kept co co1 \<and> (\<exists>e'. r = Inl e')"
proof -
  obtain r1 c1 where m: "(if en_recorder_phase E = ''recording'' \<or> en_recorder_phase E = ''finalizing''
     then report_states p (en_fail_states E) co else (Inr (), co)) = (r1, c1)" by fastforce
  have k: "device_kept co c1"
    using m by (intro device_kept_core) (auto split: if_splits dest: report_states_core)
  show ?thesis
  proof (cases r1)
    case (Inl e')
    then show ?thesis using assms k unfolding abandon_start_def m by auto
  next
    case (Inr u)
    define c3 where "c3 = (case en_failed_state E of
              None \<Rightarrow> c1
            | Some st \<Rightarrow> c1\<lparr>co_retained := jset (pl_session p)
                (JObj [(''generation_id'', JStr (pl_generation p)), (''recording_state'', JObj st)]) (co_retained c1)\<rparr>)
      \<lparr>co_active := None, co_timer := None\<rparr>"
    have k3: "device_kept c1 c3" by (auto simp: c3_def device_kept_def split: option.splits)
    obtain r3 c4 where q: "persist_state (en_now E) (en_fault E) c3 = (r3, c4)" by fastforce
    have "andS (persist_state (en_now E) (en_fault E) c3) (\<lambda>co4.
         (Inl (provider_fault (error_code ''source_start_failed'' e) False), co4)) = (r, co1)"
      using assms unfolding abandon_start_def m Inr c3_def Let_def by simp
    then have "co1 = c4" "\<exists>e'. r = Inl e'" unfolding q by (cases r3; auto)+
    then show ?thesis
      using device_kept_trans [OF device_kept_trans [OF k k3] device_kept_core [OF persist_state_core [OF q]]] by simp
  qed
qed

lemma run_recording_device:
  assumes "run_recording E p co = (r, co')"
  shows "device_kept co co'" and "\<And>a. r = Inr a \<Longrightarrow> co_active co' = Some p \<and> an_status a = 202"
proof -
  have claim: "device_kept co (claim_recording p co)" by (simp add: claim_recording_def device_kept_def)
  have "device_kept co co' \<and> (\<forall>a. r = Inr a \<longrightarrow> co_active co' = Some p \<and> an_status a = 202)"
    using assms
  proof (cases rule: run_recording_cases)
    case (running co1 doc)
    have a: "core co1 = core (claim_recording p co)" by (rule report_states_core [OF running(1)])
    have b: "core co' = core (co1\<lparr>co_timer := map_option (\<lambda>d. (p, en_monotonic E + of_int d, d)) (en_timer E)\<rparr>)"
      by (rule capture_status_core [OF running(3)])
    have "device_kept co1 (co1\<lparr>co_timer := map_option (\<lambda>d. (p, en_monotonic E + of_int d, d)) (en_timer E)\<rparr>)"
      by (simp add: device_kept_def)
    then show ?thesis
      using device_kept_trans [OF claim device_kept_trans [OF device_kept_core [OF a] device_kept_trans
            [OF _ device_kept_core [OF b]]]] coreD(1) [OF a] coreD(1) [OF b] running(4)
      by (simp add: claim_recording_def)
  next
    case (abandoned r1 co1 e)
    show ?thesis
      using abandon_start_device [OF abandoned(2)]
        device_kept_trans [OF claim device_kept_core [OF report_states_core [OF abandoned(1)]]] device_kept_trans
      by fastforce
  qed
  then show "device_kept co co'" "\<And>a. r = Inr a \<Longrightarrow> co_active co' = Some p \<and> an_status a = 202" by auto
qed

text \<open>The check of the volume: when it passes the volume is held and present.\<close>

definition volume_checked :: "coordinator \<Rightarrow> unit res \<times> coordinator \<Rightarrow> bool" where
  "volume_checked c m \<longleftrightarrow> co_lease (snd m) = co_lease c \<and> co_active (snd m) = co_active c \<and>
     (\<forall>u. fst m = Inr u \<longrightarrow> \<not> co_released (snd m) \<and> \<not> co_media_lost (snd m))"

lemma volume_checked_intros:
  "volume_checked c (Inl e, c)"
  "volume_checked c (Inl e, c\<lparr>co_media_lost := True\<rparr>)"
  "\<not> co_released c \<Longrightarrow> \<not> co_media_lost c \<Longrightarrow> volume_checked c (Inr u, c)"
  "(P \<Longrightarrow> volume_checked c m1) \<Longrightarrow> (\<not> P \<Longrightarrow> volume_checked c m2) \<Longrightarrow> volume_checked c (if P then m1 else m2)"
  "volume_checked c m1 \<Longrightarrow> (\<And>y. volume_checked c (f y)) \<Longrightarrow> volume_checked c (case x of None \<Rightarrow> m1 | Some y \<Rightarrow> f y)"
  "(\<And>e. volume_checked c (h e)) \<Longrightarrow> (\<And>u. volume_checked c (g u)) \<Longrightarrow> volume_checked c (case z of Inl e \<Rightarrow> h e | Inr u \<Rightarrow> g u)"
  by (auto simp: volume_checked_def split: option.split sum.split)

lemma check_generation_volume:
  assumes "device_step admit" and "check_generation admit probe g force co = (r, co1)"
  shows "co_lease co1 = co_lease co \<and> co_active co1 = co_active co \<and>
    (\<forall>u. r = Inr u \<longrightarrow> \<not> co_released co1 \<and> \<not> co_media_lost co1)"
proof -
  obtain x c where m: "(case co_admission co of Some a \<Rightarrow> (Inr a, co) | None \<Rightarrow> admit co) = (x, c)" by fastforce
  have q: "co_lease c = co_lease co \<and> co_active c = co_active co"
    using m device_stepD [OF assms(1)] by (auto split: option.splits)
  have "volume_checked c (check_generation admit probe g force co)"
  proof (cases x)
    case (Inl e)
    show ?thesis unfolding check_generation_def m Inl sum.case prod.case by (rule volume_checked_intros)
  next
    case (Inr a)
    show ?thesis unfolding check_generation_def m Inr sum.case prod.case by (intro volume_checked_intros)
  qed
  then show ?thesis using q unfolding assms(2) by (simp add: volume_checked_def)
qed

lemma start_with_lease_device:
  assumes "device_step (en_admit E)" and "device_step (en_recover E)" and "volume_step (en_recover E)"
    and "start_with_lease E b co = (r, co1)" and "co_active co = None"
  shows "co_lease co1 = co_lease co"
    and "\<And>a. r = Inr a \<Longrightarrow> network_idle (en_network E) = Inr () \<and> an_status a = 202 \<and>
           (\<exists>adm chosen. requested_take E b = Inr chosen \<and> co_active co1 = Some (planned E b adm chosen) \<and>
              (jget b ''volume_id'' = JNull \<or> eq_str (jget b ''volume_id'') (ad_volume adm))) \<and>
           \<not> co_released co1 \<and> \<not> co_media_lost co1"
proof -
  have "co_lease co1 = co_lease co \<and> (\<forall>a. r = Inr a \<longrightarrow> network_idle (en_network E) = Inr () \<and> an_status a = 202 \<and>
           (\<exists>adm chosen. requested_take E b = Inr chosen \<and> co_active co1 = Some (planned E b adm chosen) \<and>
              (jget b ''volume_id'' = JNull \<or> eq_str (jget b ''volume_id'') (ad_volume adm))) \<and>
           \<not> co_released co1 \<and> \<not> co_media_lost co1)" (is "?goal r co1")
  proof (cases "network_idle (en_network E)")
    case (Inl e)
    then show ?thesis using assms(4) by (auto simp: start_with_lease_def)
  next
    case (Inr u)
    note idle = Inr
    obtain x c where m: "as_provider True (case co_admission co of Some a \<Rightarrow> (Inr a, co) | None \<Rightarrow> en_admit E co) = (x, c)" by fastforce
    have q: "co_lease c = co_lease co" "co_active c = co_active co"
      using as_provider_rel [OF m] device_stepD [OF assms(1)] by (auto split: option.splits)
    show ?thesis
    proof (cases x)
      case (Inl e)
      then show ?thesis using assms(4) idle m q by (auto simp: start_with_lease_def)
    next
      case (Inr adm)
      define volume_ok where "volume_ok = (jget b ''volume_id'' = JNull \<or> eq_str (jget b ''volume_id'') (ad_volume adm))"
      define checks where "checks = andS (check_generation (en_admit E) (en_probe E) None True c)
          (\<lambda>co2. tryS (en_reserve E) co2 (\<lambda>_. en_recover E co2))"
      obtain y c2 where ck: "as_provider False checks = (y, c2)" by fastforce
      have rest: "(if \<not> volume_ok then (Inl (provider_fault ''volume_mismatch'' False), c)
           else andS (y, c2) (\<lambda>co2. tryS (requested_take E b) co2 (\<lambda>chosen. run_recording E (planned E b adm chosen) co2)))
         = (r, co1)"
        using assms(4) unfolding start_with_lease_eq [OF idle m [unfolded Inr]] checks_def [symmetric] ck volume_ok_def de_Morgan_disj .
      obtain g c1 where g: "check_generation (en_admit E) (en_probe E) None True c = (g, c1)" by fastforce
      note gc = check_generation_volume [OF assms(1) g]
      obtain y' where y': "checks = (y', c2)" using as_provider_rel [OF ck] by blast
      have yy: "y' = y" if "y = Inr u2" for u2
        using ck that unfolding y' as_provider_def by (cases y') (auto split: if_splits)
      have c2: "co_lease c2 = co_lease c" "\<And>u2. y = Inr u2 \<Longrightarrow> \<not> co_released c2 \<and> \<not> co_media_lost c2"
      proof -
        have "co_lease c2 = co_lease c \<and> (\<forall>u2. y' = Inr u2 \<longrightarrow> \<not> co_released c2 \<and> \<not> co_media_lost c2)"
          using y' gc device_stepD [OF assms(2)] volume_stepD [OF assms(3)] unfolding checks_def g
          by (cases g; cases "en_reserve E"; fastforce)
        then show "co_lease c2 = co_lease c" "\<And>u2. y = Inr u2 \<Longrightarrow> \<not> co_released c2 \<and> \<not> co_media_lost c2" using yy by auto
      qed
      show ?thesis
      proof (cases volume_ok)
        case False
        then show ?thesis using rest q by auto
      next
        case True
        then have rest': "andS (y, c2) (\<lambda>co2. tryS (requested_take E b) co2 (\<lambda>chosen. run_recording E (planned E b adm chosen) co2))
            = (r, co1)" using rest by simp
        show ?thesis
        proof (cases y)
          case (Inl e)
          then show ?thesis using rest' c2 q by auto
        next
          case (Inr u2)
          show ?thesis
          proof (cases "requested_take E b")
            case (Inl e)
            then show ?thesis using rest' Inr c2 q by auto
          next
            case (Inr chosen)
            then have run: "run_recording E (planned E b adm chosen) c2 = (r, co1)" using rest' \<open>y = Inr u2\<close> by simp
            note d = run_recording_device [OF run]
            have "co_lease co1 = co_lease co" using d(1) c2(1) q(1) by (simp add: device_kept_def)
            moreover have "\<not> co_released co1 \<and> \<not> co_media_lost co1"
              using d(1) c2(2) [OF \<open>y = Inr u2\<close>] by (simp add: device_kept_def)
            ultimately show ?thesis using d(2) idle Inr True unfolding volume_ok_def by auto
          qed
        qed
      qed
    qed
  qed
  then show "co_lease co1 = co_lease co"
    "\<And>a. r = Inr a \<Longrightarrow> network_idle (en_network E) = Inr () \<and> an_status a = 202 \<and>
           (\<exists>adm chosen. requested_take E b = Inr chosen \<and> co_active co1 = Some (planned E b adm chosen) \<and>
              (jget b ''volume_id'' = JNull \<or> eq_str (jget b ''volume_id'') (ad_volume adm))) \<and>
           \<not> co_released co1 \<and> \<not> co_media_lost co1"
    by blast+
qed

text \<open>What a successful start went through, in the order of the code.\<close>

definition admitted_volume :: "start_env \<Rightarrow> coordinator \<Rightarrow> admission res" where
  "admitted_volume E co = fst (case co_admission co of Some a \<Rightarrow> (Inr a, co) | None \<Rightarrow> en_admit E co)"

lemma check_generation_passed:
  assumes "check_generation admit probe g True co = (Inr u, co1)"
  shows "mp_mounted probe = Some True \<and> mp_capacity probe = Inr ()"
  using assms by (auto simp: check_generation_def split: prod.splits sum.splits if_splits option.splits)

lemma as_provider_Inr: "as_provider b m = (Inr a, c) \<longleftrightarrow> m = (Inr a, c)"
  unfolding as_provider_def by (cases m; cases "fst m") (auto split: if_splits)

lemma start_with_lease_Inr:
  assumes "start_with_lease E b co = (Inr a, co1)"
  shows "\<exists>adm chosen. admitted_volume E co = Inr adm \<and> (jget b ''volume_id'' = JNull \<or> eq_str (jget b ''volume_id'') (ad_volume adm)) \<and>
    mp_mounted (en_probe E) = Some True \<and> mp_capacity (en_probe E) = Inr () \<and> en_reserve E = Inr () \<and>
    requested_take E b = Inr chosen \<and> (\<exists>c. run_recording E (planned E b adm chosen) c = (Inr a, co1))"
proof -
  obtain u where idle: "network_idle (en_network E) = Inr u"
    using assms by (cases "network_idle (en_network E)") (simp_all add: start_with_lease_def)
  obtain x c where m: "as_provider True (case co_admission co of Some a \<Rightarrow> (Inr a, co) | None \<Rightarrow> en_admit E co) = (x, c)" by fastforce
  then obtain adm where x: "x = Inr adm" using assms idle by (cases x) (simp_all add: start_with_lease_def)
  note eq = start_with_lease_eq [OF idle m [unfolded x], of b]
  have vol: "jget b ''volume_id'' = JNull \<or> eq_str (jget b ''volume_id'') (ad_volume adm)"
    using assms unfolding eq by (auto split: if_splits)
  then have run: "andS (as_provider False (andS (check_generation (en_admit E) (en_probe E) None True c)
              (\<lambda>co2. tryS (en_reserve E) co2 (\<lambda>_. en_recover E co2))))
            (\<lambda>co2. tryS (requested_take E b) co2 (\<lambda>chosen. run_recording E (planned E b adm chosen) co2)) = (Inr a, co1)"
    using assms unfolding eq by (auto split: if_splits)
  then obtain v c2 where ck: "andS (check_generation (en_admit E) (en_probe E) None True c)
        (\<lambda>co2. tryS (en_reserve E) co2 (\<lambda>_. en_recover E co2)) = (Inr v, c2)"
    and rest: "tryS (requested_take E b) c2 (\<lambda>chosen. run_recording E (planned E b adm chosen) c2) = (Inr a, co1)"
    by (auto simp: andS_Inr as_provider_Inr)
  obtain w c1 where g: "check_generation (en_admit E) (en_probe E) None True c = (Inr w, c1)" and "en_reserve E = Inr ()"
    using ck by (auto simp: andS_Inr tryS_Inr)
  moreover obtain chosen where "requested_take E b = Inr chosen" "run_recording E (planned E b adm chosen) c2 = (Inr a, co1)"
    using rest by (auto simp: tryS_Inr)
  moreover have "admitted_volume E co = Inr adm" using m [unfolded x as_provider_Inr] by (simp add: admitted_volume_def)
  ultimately show ?thesis using check_generation_passed [OF g] vol by blast
qed

section \<open>The guarantees of a start\<close>

lemma start_executes_quietly:
  assumes "co_admission co = None \<Longrightarrow> quiet_step s0 (en_admit E)" and "quiet_step s0 (en_recover E)"
    and "ledger_runs s0 (system_of co W T M)"
  shows "keeps_ledger s0 sc (start_recording E b) co W T M"
  unfolding keeps_ledger_def
proof (intro allI impI)
  fix r co1
  assume "start_recording E b co = (r, co1)"
  then have q: "ledger_quiet s0 co co1" by (rule start_recording_quiet [rotated 2]) (use assms(1,2) in auto)
  then show "lg_commands (co_ledger co1) = lg_commands (co_ledger co) \<and>
      map fst (lg_invalid (co_ledger co1)) = map fst (lg_invalid (co_ledger co)) \<and>
      (\<exists>W' T' M'. ledger_runs s0 (system_of co1 W' T' M'))"
    using assms(3) unfolding ledger_quiet_def by metis
qed

text \<open>C1: An answered start command is durable and does not run again while its receipt is remembered.  When
  \<open>start_capture\<close> returns an answer, the receipt is in the database and in the ledger, durable and not quarantined; so
  the next request with the same command, whatever the sources, the clock and the database then do, gets the same
  answer marked as replayed and changes nothing.  So does a request in every later state whose ledger still holds
  that receipt (it keeps the newest 1,024) durable and not quarantined.  In any state whose ledger holds it the
  start does not run: the request is answered by the replay or refused, and the state changes at most by
  persisting it.  Assumed: the volume is already admitted, or its admission leaves the receipts alone, and so does
  the deferred recovery of unfinished recordings, which is not modelled.\<close>

theorem start_is_exactly_once:
  assumes "ledger_start s0" and "ledger_runs s0 (system_of co W T M)"
    and "proper_scope (command_scope ''start'' cmd)"
    and "co_admission co = None \<Longrightarrow> quiet_step s0 (en_admit E)" and "quiet_step s0 (en_recover E)"
    and "start_capture E cmd now fault co = (Inr a, co')"
  shows "start_capture E' cmd now' fault' co' = (Inr (replayed a), co') \<and>
    (\<exists>r. map_of (cs_rows (co_store co')) (command_scope ''start'' cmd) = Some (printed (command_scope ''start'' cmd) r) \<and>
      remembered_receipt (command_scope ''start'' cmd) (cc_canonical cmd) a r co' \<and>
      (\<forall>later. remembered_receipt (command_scope ''start'' cmd) (cc_canonical cmd) a r later \<longrightarrow>
         start_capture E' cmd now' fault' later = (Inr (replayed a), later)) \<and>
      (\<forall>later. map_of (lg_commands (co_ledger later)) (command_scope ''start'' cmd) = Some r \<longrightarrow>
         snd (start_capture E' cmd now' fault' later) \<in> {later, snd (persist_state now' fault' later)} \<and>
         (\<forall>b. fst (start_capture E' cmd now' fault' later) = Inr b \<longrightarrow> b = replayed a)))"
proof -
  obtain r where r: "remembered_receipt (command_scope ''start'' cmd) (cc_canonical cmd) a r co'"
    "map_of (cs_rows (co_store co')) (command_scope ''start'' cmd) = Some (printed (command_scope ''start'' cmd) r)"
    using acknowledged_command_is_remembered [OF assms(1-3) start_executes_quietly [OF assms(4,5,2)]
        assms(6) [unfolded start_capture_def]] by blast
  have replays: "start_capture E' cmd now' fault' later = (Inr (replayed a), later)"
    if "remembered_receipt (command_scope ''start'' cmd) (cc_canonical cmd) a r later" for later
    using remembered_command_replays(3) that unfolding start_capture_def remembered_receipt_def by blast
  have never: "snd (start_capture E' cmd now' fault' later) \<in> {later, snd (persist_state now' fault' later)}"
    "fst (start_capture E' cmd now' fault' later) = Inr b \<Longrightarrow> b = replayed a"
    if "map_of (lg_commands (co_ledger later)) (command_scope ''start'' cmd) = Some r" for later b
    using remembered_command_replays(1,2) [OF that] r(1) unfolding start_capture_def remembered_receipt_def by blast+
  show ?thesis using r replays never by blast
qed

text \<open>C12: What a start leaves behind.  The network lease is held exactly while a recording is active, also when the
  start failed at any of its steps.  A start that succeeds found no recording, the camera and the network ready,
  the mount of the admitted volume in place with the device of the admission, its capacity readable and the
  reserve free; the recording it runs carries the volume and the generation of that admission (of the volume that
  was requested, if one was), the fresh session id and the requested take; and the volume is neither released nor
  lost.\<close>

theorem start_owns_the_device:
  assumes "device_step (en_admit E)" and "device_step (en_recover E)" and "volume_step (en_recover E)"
    and "co_lease co = (co_active co \<noteq> None)"
    and "start_recording E b co = (r, co')"
  shows "(case r of
       Inl e \<Rightarrow> co_active co' = None \<longrightarrow> \<not> co_lease co'
     | Inr a \<Rightarrow> an_status a = 202 \<and> co_active co = None \<and> en_camera E = Inr () \<and> network_idle (en_network E) = Inr () \<and>
         mp_mounted (en_probe E) = Some True \<and> mp_capacity (en_probe E) = Inr () \<and> en_reserve E = Inr () \<and>
         (\<exists>adm p. admitted_volume E (co\<lparr>co_lease := True\<rparr>) = Inr adm \<and> co_active co' = Some p \<and>
            pl_volume p = ad_volume adm \<and> pl_generation p = ad_generation adm \<and> pl_session p = en_session_id E \<and>
            requested_take E b = Inr (pl_take p, pl_sequence p, pl_continues p) \<and>
            (jget b ''volume_id'' = JNull \<or> eq_str (jget b ''volume_id'') (ad_volume adm))) \<and>
         \<not> co_released co' \<and> \<not> co_media_lost co') \<and>
    (co_active co' \<noteq> None \<longrightarrow> co_lease co')"
proof (cases "co_active co")
  case (Some p)
  then have "r = Inl (provider_fault (if en_timer_valid E then ''capture_busy'' else ''invalid_timer_settings'') False)" "co' = co"
    using assms(5) by (auto simp: start_recording_def split: if_splits)
  then show ?thesis using assms(4) Some by simp
next
  case None
  then have lease: "\<not> co_lease co" using assms(4) by simp
  obtain x c where m: "start_with_lease E b (co\<lparr>co_lease := True\<rparr>) = (x, c)" by fastforce
  have act: "co_active (co\<lparr>co_lease := True\<rparr>) = None" using None by simp
  note d = start_with_lease_device [OF assms(1,2,3) m act]
  have held: "co_lease c" using d(1) by simp
  have found: "mp_mounted (en_probe E) = Some True \<and> mp_capacity (en_probe E) = Inr () \<and> en_reserve E = Inr () \<and>
         (\<exists>adm p. admitted_volume E (co\<lparr>co_lease := True\<rparr>) = Inr adm \<and> co_active c = Some p \<and>
            pl_volume p = ad_volume adm \<and> pl_generation p = ad_generation adm \<and> pl_session p = en_session_id E \<and>
            requested_take E b = Inr (pl_take p, pl_sequence p, pl_continues p) \<and>
            (jget b ''volume_id'' = JNull \<or> eq_str (jget b ''volume_id'') (ad_volume adm)))" if x: "x = Inr a" for a
  proof -
    obtain adm chosen c2 where f: "admitted_volume E (co\<lparr>co_lease := True\<rparr>) = Inr adm"
        "jget b ''volume_id'' = JNull \<or> eq_str (jget b ''volume_id'') (ad_volume adm)" "mp_mounted (en_probe E) = Some True"
        "mp_capacity (en_probe E) = Inr ()" "en_reserve E = Inr ()" "requested_take E b = Inr chosen"
        "run_recording E (planned E b adm chosen) c2 = (Inr a, c)"
      using start_with_lease_Inr [OF m [unfolded x]] by blast
    moreover have "co_active c = Some (planned E b adm chosen)" using run_recording_device(2) [OF f(7) refl] by simp
    ultimately show ?thesis by (cases chosen) (simp add: planned_def)
  qed
  show ?thesis
  proof (cases "r = x \<and> co' = (case x of Inl e \<Rightarrow> if co_active c = None then release_lease c else c | Inr a \<Rightarrow> c)")
    case True
    show ?thesis
    proof (cases x)
      case (Inl e)
      then show ?thesis using True held by (auto simp: release_lease_def)
    next
      case (Inr a)
      have "en_camera E = Inr ()"
        using assms(5) m None lease True Inr
        by (cases "en_camera E"; cases "en_lease E") (auto simp: start_recording_def split: if_splits)
      then show ?thesis using True Inr d(2) held None found [OF Inr] by auto
    qed
  next
    case False
    then have "co' = co \<and> (\<exists>e. r = Inl e)"
      using assms(5) m None lease
      by (cases "en_camera E"; cases "en_lease E"; cases x) (auto simp: start_recording_def split: if_splits)
    then show ?thesis using None lease by auto
  qed
qed

section \<open>Witnesses\<close>

definition ex_adm :: admission where
  "ex_adm = \<lparr>ad_volume = ''vol'', ad_generation = ''gen'', ad_device = 1, ad_mount = ''m''\<rparr>"

definition ex_view :: status_view where
  "ex_view = \<lparr>vw_recording = None, vw_phase = ''recording'', vw_storage = None, vw_runtime = [], vw_live_imu = JNull\<rparr>"

definition ex_env :: start_env where
  "ex_env = \<lparr>en_timer_valid = True, en_timer = None, en_calibration = False, en_camera = Inr (), en_lease = Inr (),
     en_network = Some [(''ok'', JBool True), (''operation'', JStr ''status''), (''status'', JInt 200),
       (''body'', JObj [(''transaction'', JObj [(''current'', JNull)])])],
     en_admit = (\<lambda>c. (Inr ex_adm, c)), en_probe = \<lparr>mp_mounted = Some True, mp_cached = False, mp_capacity = Inr ()\<rparr>,
     en_reserve = Inr (), en_recover = (\<lambda>c. (Inr (), c)), en_previous = (\<lambda>s. None), en_take_id = ''take'',
     en_session_id = ''sid'', en_label = ''rec'', en_monotonic = 0, en_states = [], en_started = Inr (),
     en_recorder_phase = ''recording'', en_fail_states = [], en_failed_state = None, en_now = ''t1'', en_fault = None,
     en_view = ex_view\<rparr>"

definition ex_coordinator :: coordinator where
  "ex_coordinator = \<lparr>co_ledger = new_ledger, co_store = ex_store, co_epoch = ''epoch'', co_revision = 0,
     co_admission = Some ex_adm, co_binding = JNull, co_released = False, co_media_lost = False, co_closing = False,
     co_active = None, co_recovery = JNull, co_retained = [], co_stop = None, co_acceptance = None, co_worker = None,
     co_reason = JNull, co_failing = None, co_projection = None, co_uncommitted = None, co_source_failure = None,
     co_cached = None, co_swap = None, co_swap_failure = None, co_swap_resource = None, co_swap_staged = None,
     co_swap_clear = False, co_open = 0, co_lease = False, co_timer = None, co_workers = 0\<rparr>"

definition ex_command :: capture_command where
  "ex_command = \<lparr>cc_principal = ''operator'', cc_key = ''key-1'',
     cc_body = [(''mode'', JStr ''stereo''), (''take'', JObj [(''kind'', JStr ''new'')])], cc_canonical = ''{}''\<rparr>"

lemma ex_started:
  "\<exists>a c. start_recording ex_env (cc_body ex_command) ex_coordinator = (Inr a, c) \<and> co_ledger c = new_ledger \<and> co_store c = ex_store"
  by (simp add: start_recording_def start_with_lease_def ex_env_def ex_command_def ex_coordinator_def network_idle_def
      as_provider_def check_generation_def requested_take_def run_recording_def claim_recording_def capture_status_def
      recording_snapshot_def projected_state_def ex_view_def planned_def eq_str_def Let_def)

text \<open>A ledger with nothing quarantined, over a database with the capture document.\<close>

lemma persist_of_clean:
  assumes "co_store co = ex_store" and "lg_invalid (co_ledger co) = []" and "lg_persisted (co_ledger co) = []"
    and "lg_persisted_seq (co_ledger co) = 0" and "lg_focus (co_ledger co) = None"
  shows "\<exists>co'. persist_state now None co = (Inr (), co')"
proof -
  obtain w co1 where snap: "local_state_write co = (w, co1)" by fastforce
  obtain b where co1: "co1 = co\<lparr>co_binding := b, co_ledger := (co_ledger co)\<lparr>lg_write_seq := lg_write_seq (co_ledger co) + 1\<rparr>\<rparr>"
    and seq: "pw_seq w = lg_write_seq (co_ledger co) + 1"
    using local_state_write_spec [OF snap] by metis
  have w: "map_of (pw_value w) ''invalid_commands'' = Some (JList [])" "pw_focus w = None"
    using snap assms by (auto simp: local_state_write_def take_snapshot_def Let_def invalid_entries_def split: option.splits)
  obtain tables where t: "put_document ''capture'' (canon (JObj (compact_value [] (pw_value w)))) now False (cs_tables ex_store) = Inr tables"
    by (cases "put_document ''capture'' (canon (JObj (compact_value [] (pw_value w)))) now False (cs_tables ex_store)")
       (auto simp: put_document_def ex_store_def empty_database_def Let_def split: if_splits)
  obtain db where p: "put_capture_state now (pw_value w) (new_receipts [] (pw_commands w)) (dropped_scopes [] (pw_commands w)) None ex_store = Inr db"
    using w(1) t by (simp add: put_capture_state_def quarantined_entries_def list_ex_iff Let_def)
  have fresh: "lg_persisted_seq (co_ledger co1) = 0" "lg_persisted (co_ledger co1) = []" "co_store co1 = ex_store"
    using co1 assms by simp_all
  have f: "focus_to_write w (co_ledger co1) = None" using w(2) by (simp add: focus_to_write_def)
  show ?thesis
    unfolding persist_state_def snap prod.case write_state_def write_snapshot_def fresh f option.case p
    using seq by simp
qed

lemma ex_answered: "\<exists>a co'. start_capture ex_env ex_command ''t1'' None ex_coordinator = (Inr a, co')"
proof -
  obtain a c where s: "start_recording ex_env (cc_body ex_command) ex_coordinator = (Inr a, c)"
      "co_ledger c = new_ledger" "co_store c = ex_store" using ex_started by blast
  let ?c = "remember_answer (command_scope ''start'' ex_command) (cc_canonical ex_command) a c"
  obtain co' where p: "persist_state ''t1'' None ?c = (Inr (), co')"
    using persist_of_clean [of ?c "''t1''"] s(2,3) by (auto simp: remember_answer_def cache_command_def Let_def new_ledger_def)
  have e: "co_ledger ex_coordinator = new_ledger" "co_failing ex_coordinator = None" "co_projection ex_coordinator = None"
      "co_worker ex_coordinator = None" "\<not> co_closing ex_coordinator" "\<not> stopping ex_coordinator"
    by (simp_all add: ex_coordinator_def stopping_def new_ledger_def)
  show ?thesis
    using s(1) p e by (simp add: start_capture_def idempotent_def require_valid_receipt_def new_ledger_def Let_def)
qed

lemma ex_env_steps:
  "quiet_step s0 (en_recover ex_env)"
  "device_step (en_admit ex_env)" "device_step (en_recover ex_env)" "volume_step (en_recover ex_env)"
  by (simp_all add: quiet_step_def device_step_def volume_step_def ex_env_def ledger_quiet_refl)

theorem start_is_exactly_once_witness:
  "\<exists>a co'. start_capture ex_env ex_command ''t1'' None ex_coordinator = (Inr a, co') \<and>
     start_capture ex_env ex_command ''t2'' (Some OSError) co' = (Inr (replayed a), co')"
proof -
  obtain a co' where a: "start_capture ex_env ex_command ''t1'' None ex_coordinator = (Inr a, co')" using ex_answered by blast
  have run: "ledger_runs ex_start (system_of ex_coordinator {} {} {})" by (simp add: ex_start_def system_of_def ex_coordinator_def)
  have scope: "proper_scope (command_scope ''start'' ex_command)"
    by (simp add: proper_scope_def command_scope_def ex_command_def)
  have admit: "co_admission ex_coordinator = None \<Longrightarrow> quiet_step ex_start (en_admit ex_env)" by (simp add: ex_coordinator_def)
  show ?thesis
    using start_is_exactly_once [OF ex_start_ok run scope admit ex_env_steps(1) a, of ex_env "''t2''" "Some OSError"] a
    by blast
qed

theorem start_owns_the_device_witness:
  "\<exists>a co'. start_recording ex_env (cc_body ex_command) ex_coordinator = (Inr a, co') \<and> an_status a = 202 \<and>
     co_lease co' \<and> (\<exists>p. co_active co' = Some p \<and> pl_session p = ''sid'' \<and> pl_volume p = ''vol'' \<and> pl_generation p = ''gen'')"
proof -
  obtain a c where s: "start_recording ex_env (cc_body ex_command) ex_coordinator = (Inr a, c)" using ex_started by blast
  have lease: "co_lease ex_coordinator = (co_active ex_coordinator \<noteq> None)" by (simp add: ex_coordinator_def)
  have adm: "admitted_volume ex_env (ex_coordinator\<lparr>co_lease := True\<rparr>) = Inr ex_adm"
    by (simp add: admitted_volume_def ex_coordinator_def)
  have sid: "en_session_id ex_env = ''sid''" by (simp add: ex_env_def)
  show ?thesis
    using start_owns_the_device [OF ex_env_steps(2-4) lease s] s adm sid by (auto simp: ex_adm_def)
qed

end
