(* ===== verification/CaptureStopProps.thy ===== *)
theory CaptureStopProps
  imports CaptureStartProps
begin

text \<open>
  Stopping between other threads.  What one operation relies on while it owns the acceptance, the
  stop or the handoff is a relation on coordinators; the guarantees of the acceptance, of the owner of
  the stop and of the handoff follow from it, and the other operations are shown to keep to it.
\<close>

section \<open>The acceptance\<close>

text \<open>While a stop request is being committed nobody caches a receipt (every other command is refused
  then), so the others only take and write snapshots of the same receipts.\<close>

definition commit_rely :: "ledger_system \<Rightarrow> coordinator \<Rightarrow> coordinator \<Rightarrow> bool" where
  "commit_rely s0 a b \<longleftrightarrow>
     lg_commands (co_ledger b) = lg_commands (co_ledger a) \<and>
     (\<forall>w W T M. ledger_runs s0 (system_of a W T M) \<longrightarrow> w \<in> W \<longrightarrow> unchanged_since w (lg_commands (co_ledger a)) T \<longrightarrow>
        (\<exists>W' T'. ledger_runs s0 (system_of b W' T' M) \<and> w \<in> W' \<and> unchanged_since w (lg_commands (co_ledger a)) T'))"

lemma commit_rely_refl: "commit_rely s0 a a"
  unfolding commit_rely_def by blast

lemma commit_rely_same:
  "co_ledger b = co_ledger a \<Longrightarrow> co_store b = co_store a \<Longrightarrow> commit_rely s0 a b"
  unfolding commit_rely_def by (auto simp: system_of_def)

lemma commit_rely_trans:
  assumes "commit_rely s0 a b" and "commit_rely s0 b c"
  shows "commit_rely s0 a c"
  using assms unfolding commit_rely_def by (metis (no_types, lifting))

lemma persist_keeps_rely:
  assumes start: "ledger_start s0" and p: "persist_state now fault co = (r, co1)"
  shows "commit_rely s0 co co1"
proof -
  obtain w2 co' where snap: "local_state_write co = (w2, co')" and wr: "write_state now fault w2 co' = (r, co1)"
    using p by (auto simp: persist_state_def split: prod.splits)
  obtain b where co': "co' = co\<lparr>co_binding := b, co_ledger := (co_ledger co)\<lparr>lg_write_seq := lg_write_seq (co_ledger co) + 1\<rparr>\<rparr>"
    and w2: "pw_commands w2 = lg_commands (co_ledger co)" "pw_seq w2 = lg_write_seq (co_ledger co) + 1"
    and s1: "\<And>W T M. ledger_step (system_of co W T M) (system_of co' (insert w2 W) (insert w2 T) M)"
    using local_state_write_spec [OF snap] by metis
  obtain lg db where ws: "write_snapshot now fault w2 (co_ledger co', co_store co') = (r, lg, db)"
      "co1 = co'\<lparr>co_ledger := lg, co_store := db\<rparr>" "lg_commands lg = lg_commands (co_ledger co')"
    by (rule write_state_spec [OF wr])
  have "\<exists>W' T'. ledger_runs s0 (system_of co1 W' T' M) \<and> w \<in> W' \<and> unchanged_since w (lg_commands (co_ledger co)) T'"
    if run: "ledger_runs s0 (system_of co W T M)" and w: "w \<in> W" and u: "unchanged_since w (lg_commands (co_ledger co)) T" for w W T M
  proof -
    have inv: "ledger_inv (quarantine s0) (map_of (cs_rows (sy_store s0))) (system_of co W T M)"
      unfolding quarantine_def by (rule ledger_inv_runs [OF run ledger_inv_start [OF start]])
    have "pw_seq w \<le> lg_write_seq (co_ledger co)"
      using inv w by (auto simp: ledger_inv_def Let_def snapshots_ok_def)
    then have "w \<in> insert w2 W - {w2}" using w w2(2) by auto
    moreover have "ledger_step (system_of co' (insert w2 W) (insert w2 T) M) (system_of co1 (insert w2 W - {w2}) (insert w2 T) M)"
      using ledger_step.written [of w2 "system_of co' (insert w2 W) (insert w2 T) M" now fault r lg db] ws(1,2)
      by (simp add: system_of_def)
    then have "ledger_runs s0 (system_of co1 (insert w2 W - {w2}) (insert w2 T) M)"
      using run s1 by (meson rtranclp.rtrancl_into_rtrancl)
    moreover have "unchanged_since w (lg_commands (co_ledger co)) (insert w2 T)" using u w2(1) by (simp add: unchanged_since_def)
    ultimately show ?thesis by blast
  qed
  then show ?thesis unfolding commit_rely_def using ws(2,3) co' by simp
qed

lemma persist_at_durable:
  assumes start: "ledger_start s0" and run: "ledger_runs s0 (system_of co W T M)"
    and rely: "\<And>c. commit_rely s0 c (fe_between E point c)"
    and sc: "map_of (lg_commands (co_ledger co)) sc = Some r"
    and p: "persist_at E point co = (Inr (), co1)"
  shows "map_of (cs_rows (co_store co1)) sc = Some (printed sc r)" and "durable_receipt sc r co1"
proof -
  obtain w co' where snap: "local_state_write co = (w, co')"
    and wr: "write_state (fe_now E) (fe_fault E point) w (fe_between E point co') = (Inr (), co1)"
    using p by (auto simp: persist_at_def split: prod.splits)
  have cs: "lg_commands (co_ledger co') = lg_commands (co_ledger co)"
    by (rule local_state_write_spec [OF snap]) simp
  note n = snapshot_is_newest [OF start run snap]
  obtain W' T' where m: "ledger_runs s0 (system_of (fe_between E point co') W' T' M)" "w \<in> W'"
      "unchanged_since w (lg_commands (co_ledger co)) T'"
    using rely [of co'] n cs unfolding commit_rely_def by (metis insertI1)
  note d = write_makes_durable [OF start m(1,2,3) sc wr]
  show "map_of (cs_rows (co_store co1)) sc = Some (printed sc r)" "durable_receipt sc r co1" by (fact d)+
qed

text \<open>The shape of a prepared commit: the receipt was cached in a state \<open>c0\<close> whose ledger is that of
  the request up to checkpoints, or it was known already.\<close>

definition ledger_of :: "coordinator \<Rightarrow> ledger \<times> capture_store" where
  "ledger_of co = (co_ledger co, co_store co)"

definition known_receipt :: "capture_command \<Rightarrow> answer \<Rightarrow> coordinator \<Rightarrow> bool" where
  "known_receipt cmd a co \<longleftrightarrow>
     (\<exists>r. map_of (lg_commands (co_ledger co)) (stop_scope cmd) = Some r \<and> ct_canonical r = cc_canonical cmd \<and>
        replayed (ct_answer r) = replayed a)"

definition committed :: "capture_command \<Rightarrow> coordinator \<Rightarrow> acceptance \<Rightarrow> coordinator \<Rightarrow> bool" where
  "committed cmd c0 ac co1 \<longleftrightarrow>
     ac_scope ac = stop_scope cmd \<and> ac_old ac = lg_commands (co_ledger c0) \<and>
     (if map_of (lg_commands (co_ledger c0)) (stop_scope cmd) = None
      then ledger_of co1 = ledger_of (remember_answer (stop_scope cmd) (cc_canonical cmd) (ac_result ac) c0)
      else ledger_of co1 = ledger_of c0 \<and> known_receipt cmd (ac_result ac) c0)"

lemma prepare_receipt_new:
  assumes "prepare_receipt cmd a False co = (Inr (Commit ac), co1)"
    and "map_of (lg_commands (co_ledger co)) (stop_scope cmd) = None"
  shows "committed cmd co ac co1"
  using assms by (auto simp: prepare_receipt_def Let_def committed_def ledger_of_def)

lemma prepare_receipt_retry:
  assumes "prepare_receipt cmd (ct_answer r) True co = (Inr (Commit ac), co1)"
    and "map_of (lg_commands (co_ledger co)) (stop_scope cmd) = Some r" and "ct_canonical r = cc_canonical cmd"
  shows "committed cmd co ac co1"
  using assms by (auto simp: prepare_receipt_def Let_def committed_def ledger_of_def known_receipt_def)

text \<open>The receipt that is replayed, if any, is the remembered one.\<close>

definition replays :: "capture_command \<Rightarrow> answer option \<Rightarrow> coordinator \<Rightarrow> bool" where
  "replays cmd replay co \<longleftrightarrow>
     (case replay of
        None \<Rightarrow> map_of (lg_commands (co_ledger co)) (stop_scope cmd) = None
      | Some a \<Rightarrow> known_receipt cmd a co)"

lemma shown_or_replayed:
  assumes "(case replay of Some a \<Rightarrow> (replayed a, co)
      | None \<Rightarrow> (case capture_status V co of (doc, c) \<Rightarrow> (plain_answer 202 doc, c))) = (a, c1)"
  shows "ledger_of c1 = ledger_of co" and "core c1 = core co" and "replay = Some x \<Longrightarrow> a = replayed x \<and> c1 = co"
proof -
  have "ledger_of c1 = ledger_of co \<and> core c1 = core co \<and> (\<forall>x. replay = Some x \<longrightarrow> a = replayed x \<and> c1 = co)"
  proof (cases replay)
    case None
    obtain doc c where "capture_status V co = (doc, c)" by fastforce
    then show ?thesis
      using assms None capture_status_core [of V co doc c] capture_status_ledger [of V co doc c] by (simp add: ledger_of_def)
  qed (use assms in simp)
  then show "ledger_of c1 = ledger_of co" "core c1 = core co" "replay = Some x \<Longrightarrow> a = replayed x \<and> c1 = co" by blast+
qed

lemma committed_from:
  assumes "ledger_of c1 = ledger_of co" and "replays cmd replay co" and "\<And>x. replay = Some x \<Longrightarrow> a = replayed x"
    and "ac_scope ac = stop_scope cmd" "ac_old ac = lg_commands (co_ledger c1)" "ac_result ac = a"
    and "ledger_of co1 = ledger_of (if replay = None then remember_answer (stop_scope cmd) (cc_canonical cmd) a c1 else c1)"
  shows "committed cmd co ac co1"
proof -
  have eq: "co_ledger c1 = co_ledger co" "co_store c1 = co_store co" using assms(1) by (simp_all add: ledger_of_def)
  show ?thesis
  proof (cases replay)
    case None
    then show ?thesis
      using assms(2,4-7) eq by (simp add: committed_def replays_def ledger_of_def remember_answer_def)
  next
    case (Some x)
    have x: "known_receipt cmd x co" using assms(2) Some by (simp add: replays_def)
    then have k: "known_receipt cmd a co" using assms(3) [OF Some] by (simp add: known_receipt_def replayed_def)
    then have "map_of (lg_commands (co_ledger co)) (stop_scope cmd) \<noteq> None" unfolding known_receipt_def by fastforce
    then show ?thesis
      using Some assms(4-7) eq k unfolding committed_def by (simp add: ledger_of_def del: not_None_eq)
  qed
qed

lemma prepare_handoff_commit:
  assumes "prepare_handoff V l sp cmd replay co = (Inr (Commit ac), co1)" and "replays cmd replay co"
  shows "committed cmd co ac co1"
proof -
  obtain a c1 where m: "(case replay of Some a \<Rightarrow> (replayed a, co)
      | None \<Rightarrow> (case capture_status V co of (doc, c) \<Rightarrow> (plain_answer 202 doc, c))) = (a, c1)" by fastforce
  note sh = shown_or_replayed [OF m]
  show ?thesis
    using assms(1) unfolding prepare_handoff_def Let_def m prod.case tryS_Inr
    by (intro committed_from [OF sh(1) assms(2), of a])
       (use sh(3) in \<open>auto simp: ledger_of_def split: if_split_asm sum.split_asm\<close>)
qed

lemma prepare_worker_commit:
  assumes "prepare_worker V sp cmd rearmed co = (Inr (Commit ac), co1)" and "replays cmd rearmed co"
  shows "committed cmd co ac co1"
proof -
  obtain a c1 where m: "(case rearmed of Some a \<Rightarrow> (replayed a, co)
      | None \<Rightarrow> (case capture_status V co of (doc, c) \<Rightarrow> (plain_answer 202 doc, c))) = (a, c1)" by fastforce
  note sh = shown_or_replayed [OF m]
  show ?thesis
    using assms(1) unfolding prepare_worker_def Let_def m prod.case
    by (intro committed_from [OF sh(1) assms(2), of a])
       (use sh(3) in \<open>auto simp: ledger_of_def split: if_split_asm sum.split_asm\<close>)
qed

text \<open>The ways a request without a usable receipt is prepared for its commit.\<close>

lemma prepare_new_cases:
  assumes "prepare_new_stop SE cmd rearmed co = (Inr (Commit ac), co1)"
  obtains (joins) doc c where "co_worker co \<noteq> None" "stop_reason cmd = co_reason co" "capture_status (sq_view SE) co = (doc, c)"
      "prepare_receipt cmd (plain_answer 202 doc) False c = (Inr (Commit ac), co1)"
  | (handoff) "co_worker co = None" "co_stop co = None" "co_failing co = None" "co_active co = None" "for_swap cmd" "co_swap co \<noteq> None"
      "prepare_handoff (sq_view SE) (sq_lease SE) (sq_spawn SE) cmd None co = (Inr (Commit ac), co1)"
  | (idle) x c where "co_worker co = None" "co_stop co = None" "co_failing co = None" "co_active co = None"
      "as_provider True (case co_admission co of Some a \<Rightarrow> (Inr a, co) | None \<Rightarrow> sq_admit SE co) = (Inr x, c)"
      "prepare_receipt cmd (plain_answer 204 JNull) False c = (Inr (Commit ac), co1)"
  | (stops) "co_worker co = None" "co_stop co = None" "co_failing co = None" "co_active co \<noteq> None"
      "for_swap cmd \<longrightarrow> co_open co = 0" "prepare_worker (sq_view SE) (sq_spawn SE) cmd rearmed co = (Inr (Commit ac), co1)"
proof -
  have no_stop: "\<not> (co_stop co \<noteq> None \<and> co_active co = None)"
    using assms by (auto simp: prepare_new_stop_def)
  show ?thesis
  proof (cases "co_worker co = None")
    case False
    then have r: "stop_reason cmd = co_reason co"
      using assms no_stop by (simp add: prepare_new_stop_def split: if_split_asm)
    obtain doc c where m: "capture_status (sq_view SE) co = (doc, c)" by fastforce
    then have "prepare_receipt cmd (plain_answer 202 doc) False c = (Inr (Commit ac), co1)"
      using assms no_stop False r unfolding prepare_new_stop_def by (simp only: if_False if_True simp_thms prod.case m)
    then show ?thesis by (rule joins [OF False r m])
  next
    case True
    then have w: "\<not> co_worker co \<noteq> None" by simp
    have unowned: "\<not> (co_stop co \<noteq> None \<or> co_failing co \<noteq> None)"
    proof
      assume h: "co_stop co \<noteq> None \<or> co_failing co \<noteq> None"
      have "prepare_new_stop SE cmd rearmed co = (Inl (provider_fault ''capture_busy'' True), co)"
        unfolding prepare_new_stop_def if_not_P [OF no_stop] if_not_P [OF w] if_P [OF h] by (rule refl)
      then show False using assms by simp
    qed
    then have free: "co_stop co = None" "co_failing co = None" by blast+
    show ?thesis
    proof (cases "co_active co = None")
      case False
      have e: "prepare_new_stop SE cmd rearmed co =
          (if for_swap cmd \<and> co_open co \<noteq> 0 then (Inl (provider_fault ''safe_swap_blocked'' True), co)
           else prepare_worker (sq_view SE) (sq_spawn SE) cmd rearmed co)"
        unfolding prepare_new_stop_def if_not_P [OF no_stop] if_not_P [OF w] if_not_P [OF unowned] if_not_P [OF False] by (rule refl)
      then have "for_swap cmd \<longrightarrow> co_open co = 0" "prepare_worker (sq_view SE) (sq_spawn SE) cmd rearmed co = (Inr (Commit ac), co1)"
        using assms by (auto split: if_split_asm)
      then show ?thesis by (rule stops [OF True free False])
    next
      case no_recording: True
      show ?thesis
      proof (cases "for_swap cmd \<and> co_swap co \<noteq> None")
        case True
        have "prepare_handoff (sq_view SE) (sq_lease SE) (sq_spawn SE) cmd None co = (Inr (Commit ac), co1)"
          using assms \<open>co_worker co = None\<close> free no_recording True by (simp add: prepare_new_stop_def)
        then show ?thesis using handoff \<open>co_worker co = None\<close> free no_recording True by blast
      next
        case False
        obtain x c where m: "as_provider True (case co_admission co of Some a \<Rightarrow> (Inr a, co) | None \<Rightarrow> sq_admit SE co) = (x, c)" by fastforce
        have eq: "prepare_new_stop SE cmd rearmed co = (case (x, c) of (Inl e, co1) \<Rightarrow> (Inl e, co1)
           | (Inr a, co1) \<Rightarrow> prepare_receipt cmd (plain_answer 204 JNull) False co1)"
          using \<open>co_worker co = None\<close> free no_recording False unfolding prepare_new_stop_def m [symmetric]
          by (simp only: if_False if_True simp_thms)
        obtain y where y: "x = Inr y" "prepare_receipt cmd (plain_answer 204 JNull) False c = (Inr (Commit ac), co1)"
          using assms unfolding eq by (cases x) auto
        have m2: "as_provider True (case co_admission co of Some a \<Rightarrow> (Inr a, co) | None \<Rightarrow> sq_admit SE co) = (Inr y, c)"
          using m y(1) by simp
        show ?thesis by (rule idle) fact+
      qed
    qed
  qed
qed

lemma prepare_stop_cases:
  assumes "prepare_stop SE cmd co = (Inr (Commit ac), co1)"
  obtains (fresh) "map_of (lg_commands (co_ledger co)) (stop_scope cmd) = None" "co_acceptance co = None"
      "stop_scope cmd \<notin> fst ` set (lg_invalid (co_ledger co))" "prepare_new_stop SE cmd None co = (Inr (Commit ac), co1)"
  | (retry) r where "map_of (lg_commands (co_ledger co)) (stop_scope cmd) = Some r" "ct_canonical r = cc_canonical cmd" "co_acceptance co = None"
      "\<not> durable_receipt (stop_scope cmd) r co" "prepare_receipt cmd (ct_answer r) True co = (Inr (Commit ac), co1)"
  | (again) r where "map_of (lg_commands (co_ledger co)) (stop_scope cmd) = Some r" "ct_canonical r = cc_canonical cmd" "co_acceptance co = None"
      "durable_receipt (stop_scope cmd) r co" "for_swap cmd" "co_worker co = None" "co_swap co \<noteq> None"
      "prepare_handoff (sq_view SE) (sq_lease SE) (sq_spawn SE) cmd (Some (ct_answer r)) co = (Inr (Commit ac), co1)"
  | (rearmed) r where "map_of (lg_commands (co_ledger co)) (stop_scope cmd) = Some r" "ct_canonical r = cc_canonical cmd" "co_acceptance co = None"
      "durable_receipt (stop_scope cmd) r co" "unfinished_failure (ct_answer r) co"
      "prepare_new_stop SE cmd (Some (ct_answer r)) co = (Inr (Commit ac), co1)"
proof -
  let ?s = "stop_scope cmd"
  have open_: "\<not> co_closing co" using assms by (auto simp: prepare_stop_def Let_def)
  have valid: "?s \<notin> fst ` set (lg_invalid (co_ledger co))"
  proof
    assume "?s \<in> fst ` set (lg_invalid (co_ledger co))"
    then show False using assms open_ by (simp add: prepare_stop_def Let_def require_valid_receipt_def)
  qed
  show ?thesis
  proof (cases "map_of (lg_commands (co_ledger co)) ?s")
    case None
    then show ?thesis
      using assms open_ valid by (intro fresh) (auto simp: prepare_stop_def Let_def require_valid_receipt_def split: if_split_asm)
  next
    case (Some r)
    have e: "prepare_stop SE cmd co =
      (if ct_canonical r \<noteq> cc_canonical cmd then (Inl (provider_fault ''idempotency_conflict'' False), co)
             else if co_acceptance co \<noteq> None then
               (if durable_receipt ?s r co then (Inr (Ready (replayed (ct_answer r))), co)
                else (Inl (provider_fault ''capture_busy'' True), co))
             else if \<not> durable_receipt ?s r co then
               (if co_stop co \<noteq> None \<or> (co_active co = None \<and> (\<not> for_swap cmd \<or> co_swap co = None))
                then (Inl (provider_fault ''capture_busy'' True), co)
                else prepare_receipt cmd (ct_answer r) True co)
             else if for_swap cmd \<and> co_worker co = None \<and>
                     (case co_swap co of None \<Rightarrow> False | Some w \<Rightarrow> names_session (ct_answer r) (jget w ''session_id''))
             then prepare_handoff (sq_view SE) (sq_lease SE) (sq_spawn SE) cmd (Some (ct_answer r)) co
             else if unfinished_failure (ct_answer r) co then prepare_new_stop SE cmd (Some (ct_answer r)) co
             else (Inr (Ready (replayed (ct_answer r))), co))"
      using open_ valid Some by (simp add: prepare_stop_def Let_def require_valid_receipt_def)
    have c: "ct_canonical r = cc_canonical cmd" "co_acceptance co = None"
      using assms unfolding e by (auto split: if_split_asm simp del: not_None_eq split_paired_All split_paired_Ex)
    show ?thesis
    proof (cases "durable_receipt ?s r co")
      case False
      then have "prepare_receipt cmd (ct_answer r) True co = (Inr (Commit ac), co1)"
        using assms c unfolding e by (auto split: if_split_asm)
      then show ?thesis by (rule retry [OF Some c False])
    next
      case d: True
      show ?thesis
      proof (cases "for_swap cmd \<and> co_worker co = None \<and>
                     (case co_swap co of None \<Rightarrow> False | Some w \<Rightarrow> names_session (ct_answer r) (jget w ''session_id''))")
        case True
        then have "prepare_handoff (sq_view SE) (sq_lease SE) (sq_spawn SE) cmd (Some (ct_answer r)) co = (Inr (Commit ac), co1)"
          using assms c d unfolding e by simp
        moreover have "for_swap cmd" "co_worker co = None" "co_swap co \<noteq> None" using True by (auto split: option.splits)
        ultimately show ?thesis using again [OF Some c d] by blast
      next
        case False
        then have rest: "(if unfinished_failure (ct_answer r) co then prepare_new_stop SE cmd (Some (ct_answer r)) co
             else (Inr (Ready (replayed (ct_answer r))), co)) = (Inr (Commit ac), co1)"
          using assms c d unfolding e by (simp only: False if_False simp_thms c d)
        then have "unfinished_failure (ct_answer r) co" by (auto split: if_split_asm)
        then show ?thesis using rearmed [OF Some c d] rest by simp
      qed
    qed
  qed
qed

lemma prepare_new_committed:
  assumes "prepare_new_stop SE cmd rearmed co = (Inr (Commit ac), co1)" and "co_admission co = Some adm"
    and "replays cmd rearmed co" and "rearmed \<noteq> None \<Longrightarrow> co_active co \<noteq> None \<and> co_worker co = None"
  shows "\<exists>c0. ledger_quiet s0 co c0 \<and> committed cmd c0 ac co1"
  using assms(1)
proof (cases rule: prepare_new_cases)
  case (joins doc c)
  then have none: "map_of (lg_commands (co_ledger co)) (stop_scope cmd) = None"
    using assms(3,4) by (cases rearmed) (auto simp: replays_def)
  have eq: "co_ledger c = co_ledger co" "co_store c = co_store co" using capture_status_ledger [OF joins(3)] by simp_all
  have "committed cmd c ac co1" using prepare_receipt_new [OF joins(4)] none eq by simp
  moreover have "ledger_quiet s0 co c" by (rule ledger_quiet_same [OF eq])
  ultimately show ?thesis by blast
next
  case handoff
  then have "replays cmd None co" using assms(3,4) by (cases rearmed) auto
  then show ?thesis using prepare_handoff_commit [OF handoff(7)] ledger_quiet_refl by blast
next
  case (idle x c)
  then have none: "map_of (lg_commands (co_ledger co)) (stop_scope cmd) = None"
    using assms(3,4) by (cases rearmed) (auto simp: replays_def)
  have q: "ledger_quiet s0 co c"
    using idle(5) assms(2) by (simp add: as_provider_def ledger_quiet_refl)
  then have "map_of (lg_commands (co_ledger c)) (stop_scope cmd) = None" using none by (simp add: ledger_quiet_def)
  then show ?thesis using prepare_receipt_new [OF idle(6)] q by blast
next
  case stops
  then show ?thesis using prepare_worker_commit [OF stops(6) assms(3)] ledger_quiet_refl by blast
qed

lemma prepare_stop_committed:
  assumes "prepare_stop SE cmd co = (Inr (Commit ac), co1)" and "co_admission co = Some adm"
  obtains c0 where "ledger_quiet s0 co c0" and "committed cmd c0 ac co1"
    and "map_of (lg_commands (co_ledger co)) (stop_scope cmd) = None \<longrightarrow> stop_scope cmd \<notin> fst ` set (lg_invalid (co_ledger co))"
proof -
  have "\<exists>c0. ledger_quiet s0 co c0 \<and> committed cmd c0 ac co1 \<and>
      (map_of (lg_commands (co_ledger co)) (stop_scope cmd) = None \<longrightarrow> stop_scope cmd \<notin> fst ` set (lg_invalid (co_ledger co)))"
    using assms(1)
  proof (cases rule: prepare_stop_cases)
    case fresh
    then show ?thesis using prepare_new_committed [OF fresh(4) assms(2)] fresh(1,3) by (simp add: replays_def)
  next
    case (retry r)
    then show ?thesis using prepare_receipt_retry [OF retry(5,1,2)] ledger_quiet_refl [of s0 co] by (intro exI [of _ co]) simp
  next
    case (again r)
    have "replays cmd (Some (ct_answer r)) co" using again(1,2) by (auto simp: replays_def known_receipt_def)
    then show ?thesis using prepare_handoff_commit [OF again(8)] again(1) ledger_quiet_refl [of s0 co] by (intro exI [of _ co]) simp
  next
    case (rearmed r)
    have k: "replays cmd (Some (ct_answer r)) co" using rearmed(1,2) by (auto simp: replays_def known_receipt_def)
    have "co_active co \<noteq> None \<and> co_worker co = None" using rearmed(5) by (auto simp: unfinished_failure_def split: option.splits)
    then obtain c0 where "ledger_quiet s0 co c0" "committed cmd c0 ac co1"
      using prepare_new_committed [OF rearmed(6) assms(2) k] by blast
    then show ?thesis using rearmed(1) by (intro exI [of _ c0]) simp
  qed
  then obtain c0 where c: "ledger_quiet s0 co c0" "committed cmd c0 ac co1"
      "map_of (lg_commands (co_ledger co)) (stop_scope cmd) = None \<longrightarrow> stop_scope cmd \<notin> fst ` set (lg_invalid (co_ledger co))"
    by (elim exE conjE)
  show ?thesis by (rule that [OF c])
qed

text \<open>A commit that need not persist answers with a receipt that is durable already.\<close>

lemma prepare_stop_durable:
  assumes "prepare_stop SE cmd co = (Inr (Commit ac), co1)" and "\<not> ac_persist ac"
  shows "ledger_of co1 = ledger_of co \<and> (\<exists>r. map_of (lg_commands (co_ledger co)) (stop_scope cmd) = Some r \<and>
    durable_receipt (stop_scope cmd) r co \<and> ct_canonical r = cc_canonical cmd \<and> replayed (ct_answer r) = replayed (ac_result ac))"
  using assms(1)
proof (cases rule: prepare_stop_cases)
  case fresh
  from fresh(4) have False
  proof (cases rule: prepare_new_cases)
    case handoff
    then show False using assms(2) by (auto simp: prepare_handoff_def Let_def tryS_Inr split: prod.splits sum.split_asm)
  next
    case stops
    then show False using assms(2) by (auto simp: prepare_worker_def Let_def split: prod.splits sum.split_asm)
  qed (use assms(2) in \<open>auto simp: prepare_receipt_def Let_def\<close>)
  then show ?thesis ..
next
  case (retry r)
  then show ?thesis using assms(2) by (auto simp: prepare_receipt_def Let_def)
next
  case (again r)
  then have "ledger_of co1 = ledger_of co \<and> ac_result ac = replayed (ct_answer r)"
    by (auto simp: prepare_handoff_def Let_def tryS_Inr ledger_of_def split: sum.split_asm)
  then show ?thesis using again by (auto simp: replayed_def)
next
  case (rearmed r)
  have rec: "co_active co \<noteq> None \<and> co_worker co = None" using rearmed(5) by (auto simp: unfinished_failure_def split: option.splits)
  have "ledger_of co1 = ledger_of co \<and> ac_result ac = replayed (ct_answer r)"
    using rearmed(6)
  proof (cases rule: prepare_new_cases)
    case stops
    then show ?thesis by (auto simp: prepare_worker_def Let_def ledger_of_def split: sum.split_asm)
  qed (use rec in simp_all)
  then show ?thesis using rearmed by (auto simp: replayed_def)
qed

lemma system_of_ledger: "ledger_of a = ledger_of b \<Longrightarrow> system_of a W T M = system_of b W T M"
  by (simp add: ledger_of_def system_of_def)

lemma committed_known:
  assumes "ledger_runs s0 (system_of co W T M)" and "ledger_quiet s0 co c0" and "committed cmd c0 ac co1"
    and "proper_scope (stop_scope cmd)"
    and "map_of (lg_commands (co_ledger co)) (stop_scope cmd) = None \<Longrightarrow> stop_scope cmd \<notin> fst ` set (lg_invalid (co_ledger co))"
  obtains W' T' M' r where "ledger_runs s0 (system_of co1 W' T' M')"
    and "map_of (lg_commands (co_ledger co1)) (stop_scope cmd) = Some r" and "ct_canonical r = cc_canonical cmd"
    and "replayed (ct_answer r) = replayed (ac_result ac)"
proof -
  let ?s = "stop_scope cmd"
  obtain W' T' where run: "ledger_runs s0 (system_of c0 W' T' M)"
    using assms(1,2) unfolding ledger_quiet_def by blast
  have eq: "lg_commands (co_ledger c0) = lg_commands (co_ledger co)"
      "map fst (lg_invalid (co_ledger c0)) = map fst (lg_invalid (co_ledger co))"
    using assms(2) by (simp_all add: ledger_quiet_def)
  show ?thesis
  proof (cases "map_of (lg_commands (co_ledger c0)) ?s")
    case None
    have same: "fst ` set (lg_invalid (co_ledger c0)) = fst ` set (lg_invalid (co_ledger co))"
      using arg_cong [OF eq(2), of set] by simp
    have "map_of (lg_commands (co_ledger co)) ?s = None" using None eq(1) by simp
    from assms(5) [OF this] have "?s \<notin> fst ` set (lg_invalid (co_ledger c0))" unfolding same .
    from cached_run [OF run this assms(4), of "cc_canonical cmd" "ac_result ac"]
    have run1: "ledger_runs s0 (system_of co1 W' T' (insert (?s, \<lparr>ct_id = lg_fresh (co_ledger c0), ct_canonical = cc_canonical cmd,
        ct_answer = ac_result ac\<rparr>) M))"
      using assms(3) None
        system_of_ledger [of co1 "remember_answer ?s (cc_canonical cmd) (ac_result ac) c0" W' T'] by (simp add: committed_def)
    have "map_of (lg_commands (co_ledger co1)) ?s =
        Some \<lparr>ct_id = lg_fresh (co_ledger c0), ct_canonical = cc_canonical cmd, ct_answer = ac_result ac\<rparr>"
      using cached_receipt [OF None, of "cc_canonical cmd" "ac_result ac"] assms(3) None by (simp add: committed_def ledger_of_def)
    then show ?thesis using that [OF run1] by simp
  next
    case (Some q)
    then have "ledger_of co1 = ledger_of c0" "known_receipt cmd (ac_result ac) c0" using assms(3) by (simp_all add: committed_def)
    then show ?thesis using that run by (auto simp: known_receipt_def ledger_of_def system_of_def)
  qed
qed

text \<open>Taking back: what the failure path of the acceptance leaves of the request.\<close>

lemma claim_failure_keeps:
  "claim_failure device now f p from_stop co = (g, co1) \<Longrightarrow>
    co_ledger co1 = co_ledger co \<and> co_store co1 = co_store co \<and> co_stop co1 = co_stop co \<and> co_worker co1 = co_worker co \<and>
    co_active co1 = co_active co \<and> co_lease co1 = co_lease co \<and> co_swap co1 = co_swap co \<and> co_open co1 = co_open co \<and>
    co_acceptance co1 = co_acceptance co \<and> co_released co1 = co_released co \<and> co_reason co1 = co_reason co \<and>
    co_uncommitted co1 = co_uncommitted co \<and> co_closing co1 = co_closing co"
  by (auto simp: claim_failure_def Let_def next_capture_revision_def split: if_splits option.splits prod.splits)

lemma refused_acceptance:
  assumes "finish_acceptance E ac co = (Inl e, co1)"
  shows "lg_commands (co_ledger co1) = ac_old ac" and "co_acceptance co1 = None"
    and "ac_worker ac \<noteq> None \<or> ac_handoff ac \<Longrightarrow> co_worker co1 = None \<and> co_stop co1 = None"
    and "ac_handoff ac \<Longrightarrow> \<not> co_lease co1"
proof -
  obtain e' c1 where p: "(if ac_persist ac then persist_at E ''accept'' co else (Inr (), co)) = (Inl e', c1)"
    using assms by (cases "if ac_persist ac then persist_at E ''accept'' co else (Inr (), co)"; cases "fst (if ac_persist ac then persist_at E ''accept'' co else (Inr (), co))")
      (auto simp: finish_acceptance_def)
  define c2 where "c2 = take_back ac (fe_between E ''refused'' c1)"
  define c3 where "c3 = (case (co_source_failure c2, co_active c2) of
                   (Some f, Some p) \<Rightarrow> snd (claim_failure (fe_device E) (fe_now E) f p False c2)
                 | _ \<Rightarrow> c2)"
  have co1: "co1 = c3\<lparr>co_acceptance := None\<rparr>"
    using assms unfolding finish_acceptance_def p c3_def c2_def by (simp add: Let_def)
  have k: "co_ledger c3 = co_ledger c2 \<and> co_stop c3 = co_stop c2 \<and> co_worker c3 = co_worker c2 \<and> co_lease c3 = co_lease c2"
    using claim_failure_keeps [of "fe_device E" "fe_now E" _ _ False c2]
    unfolding c3_def by (simp split: option.split) (metis prod.collapse)
  have b: "lg_commands (co_ledger c2) = ac_old ac" "ac_worker ac \<noteq> None \<or> ac_handoff ac \<Longrightarrow> co_worker c2 = None \<and> co_stop c2 = None"
      "ac_handoff ac \<Longrightarrow> \<not> co_lease c2"
    by (auto simp: c2_def take_back_def Let_def)
  show "lg_commands (co_ledger co1) = ac_old ac" "co_acceptance co1 = None" using b(1) k by (simp_all add: co1)
  show "ac_worker ac \<noteq> None \<or> ac_handoff ac \<Longrightarrow> co_worker co1 = None \<and> co_stop co1 = None" using b(2) k by (simp add: co1)
  show "ac_handoff ac \<Longrightarrow> \<not> co_lease co1" using b(3) k by (simp add: co1)
qed

text \<open>C7: an accepted stop is durable, a refused one is forgotten.  When the acceptance of a prepared
  stop request returns an answer, a receipt with this answer is in the database at a moment before the
  gate of its worker is opened, although other threads may persist between the snapshot and the write;
  when it raises, the receipts are those from before the request, so that the same key can be tried
  again, the worker has lost the stop, and a lease taken for the handoff is released.\<close>

theorem accepted_stop_is_durable:
  assumes "ledger_start s0" and "ledger_runs s0 (system_of co W T M)" and "proper_scope (stop_scope cmd)"
    and "co_admission co = Some adm" and "\<forall>c. commit_rely s0 c (fe_between E ''accept'' c)"
    and "prepare_stop SE cmd co = (Inr (Commit ac), co1)" and "finish_acceptance E ac co1 = (r, co2)"
  shows "case r of
      Inr a \<Rightarrow>
        (\<exists>q c. ct_canonical q = cc_canonical cmd \<and> replayed (ct_answer q) = replayed a \<and>
           durable_receipt (stop_scope cmd) q c \<and>
           map_of (cs_rows (co_store c)) (stop_scope cmd) = Some (printed (stop_scope cmd) q) \<and>
           co2 = accept_stop ac (fe_between E ''accepted'' c))
    | Inl e \<Rightarrow>
        lg_commands (co_ledger co2) = lg_commands (co_ledger co) \<and> co_acceptance co2 = None \<and>
        (ac_worker ac \<noteq> None \<longrightarrow> co_worker co2 = None \<and> co_stop co2 = None) \<and> (ac_handoff ac \<longrightarrow> \<not> co_lease co2)"
proof -
  let ?s = "stop_scope cmd"
  obtain c0 where c0: "ledger_quiet s0 co c0" "committed cmd c0 ac co1"
      "map_of (lg_commands (co_ledger co)) ?s = None \<longrightarrow> ?s \<notin> fst ` set (lg_invalid (co_ledger co))"
    by (rule prepare_stop_committed [OF assms(6,4)])
  show ?thesis
  proof (cases r)
    case (Inl e)
    have old: "ac_old ac = lg_commands (co_ledger co)" using c0(1,2) by (simp add: committed_def ledger_quiet_def)
    show ?thesis using refused_acceptance [OF assms(7) [unfolded Inl]] Inl old by simp
  next
    case (Inr a)
    obtain c where p: "(if ac_persist ac then persist_at E ''accept'' co1 else (Inr (), co1)) = (Inr (), c)"
      and a: "a = ac_result ac" "co2 = accept_stop ac (fe_between E ''accepted'' c)"
      using assms(7) Inr by (auto simp: finish_acceptance_def Let_def split: prod.splits sum.splits)
    have "\<exists>q. ct_canonical q = cc_canonical cmd \<and> replayed (ct_answer q) = replayed a \<and> durable_receipt ?s q c \<and>
        map_of (cs_rows (co_store c)) ?s = Some (printed ?s q)"
    proof (cases "ac_persist ac")
      case True
      then have pa: "persist_at E ''accept'' co1 = (Inr (), c)" using p by simp
      obtain W' T' M' q where q: "ledger_runs s0 (system_of co1 W' T' M')" "map_of (lg_commands (co_ledger co1)) ?s = Some q"
          "ct_canonical q = cc_canonical cmd" "replayed (ct_answer q) = replayed (ac_result ac)"
        by (rule committed_known [OF assms(2) c0(1,2) assms(3) mp [OF c0(3)]])
      have rely: "commit_rely s0 x (fe_between E ''accept'' x)" for x using assms(5) by simp
      note d = persist_at_durable [OF assms(1) q(1) rely q(2) pa]
      show ?thesis using d q(3,4) a(1) by (intro exI [of _ q]) simp
    next
      case False
      have ci: "c = co1" using p False by simp
      obtain q where q: "ledger_of co1 = ledger_of co" "map_of (lg_commands (co_ledger co)) ?s = Some q"
          "durable_receipt ?s q co" "ct_canonical q = cc_canonical cmd" "replayed (ct_answer q) = replayed (ac_result ac)"
        using prepare_stop_durable [OF assms(6) False] by blast
      have "map_of (cs_rows (co_store co)) ?s = Some (printed ?s q)" by (rule durable_row [OF assms(1,2) q(2,3)])
      then show ?thesis
        using q ci a(1) by (intro exI [of _ q]) (simp add: ledger_of_def durable_receipt_def)
    qed
    then show ?thesis using Inr a(2) by auto
  qed
qed

section \<open>One owner\<close>

definition owned :: "capture_command \<Rightarrow> coordinator \<Rightarrow> acceptance \<Rightarrow> coordinator \<Rightarrow> bool" where
  "owned cmd co ac co1 \<longleftrightarrow>
     co_acceptance co1 = Some (stop_scope cmd) \<and>
     (case ac_worker ac of
        None \<Rightarrow> \<not> ac_handoff ac \<and> co_worker co1 = co_worker co \<and> co_stop co1 = co_stop co \<and> co_active co1 = co_active co \<and>
          co_lease co1 = co_lease co
      | Some n \<Rightarrow>
          co_worker co = None \<and> co_worker co1 = Some n \<and> co_stop co1 = Some (stop_scope cmd) \<and> co_active co1 = co_active co \<and>
          (if ac_handoff ac then for_swap cmd \<and> co_swap co \<noteq> None \<and> \<not> co_lease co \<and> co_lease co1
           else co_stop co = None \<and> co_failing co = None \<and> co_active co \<noteq> None \<and> co_lease co1 = co_lease co \<and>
             (for_swap cmd \<longrightarrow> co_open co = 0)))"

lemma prepare_receipt_owned:
  assumes "prepare_receipt cmd a retry c = (Inr (Commit ac), co1)"
    and "co_worker c = co_worker co" "co_stop c = co_stop co" "co_active c = co_active co" "co_lease c = co_lease co"
  shows "owned cmd co ac co1"
  using assms by (auto simp: prepare_receipt_def Let_def owned_def remember_answer_def)

lemma prepare_handoff_owned:
  assumes "prepare_handoff V l sp cmd replay co = (Inr (Commit ac), co1)" and "for_swap cmd" "co_worker co = None" "co_swap co \<noteq> None"
  shows "owned cmd co ac co1"
proof -
  obtain a c1 where m: "(case replay of Some a \<Rightarrow> (replayed a, co)
      | None \<Rightarrow> (case capture_status V co of (doc, c) \<Rightarrow> (plain_answer 202 doc, c))) = (a, c1)" by fastforce
  have eq: "co_active c1 = co_active co" "co_lease c1 = co_lease co"
    using coreD(1,2) [OF shown_or_replayed(2) [OF m]] by simp_all
  show ?thesis
    using assms eq unfolding prepare_handoff_def Let_def m prod.case tryS_Inr owned_def
    by (auto simp: remember_answer_def split: if_split_asm sum.split_asm)
qed

lemma prepare_worker_owned:
  assumes "prepare_worker V sp cmd rearmed co = (Inr (Commit ac), co1)"
    and "co_worker co = None" "co_stop co = None" "co_failing co = None" "co_active co \<noteq> None" "for_swap cmd \<longrightarrow> co_open co = 0"
  shows "owned cmd co ac co1"
proof -
  obtain a c1 where m: "(case rearmed of Some a \<Rightarrow> (replayed a, co)
      | None \<Rightarrow> (case capture_status V co of (doc, c) \<Rightarrow> (plain_answer 202 doc, c))) = (a, c1)" by fastforce
  have eq: "co_active c1 = co_active co" "co_lease c1 = co_lease co"
    using coreD(1,2) [OF shown_or_replayed(2) [OF m]] by simp_all
  show ?thesis
    using assms eq unfolding prepare_worker_def Let_def m prod.case owned_def
    by (auto simp: remember_answer_def split: if_split_asm sum.split_asm)
qed

lemma prepare_new_owned:
  assumes "prepare_new_stop SE cmd rearmed co = (Inr (Commit ac), co1)"
    and "\<And>c r c'. sq_admit SE c = (r, c') \<Longrightarrow> co_worker c' = co_worker c \<and> co_stop c' = co_stop c \<and> co_active c' = co_active c \<and> co_lease c' = co_lease c"
  shows "owned cmd co ac co1"
  using assms(1)
proof (cases rule: prepare_new_cases)
  case (joins doc c)
  note k = coreD [OF capture_status_core [OF joins(3)]]
  show ?thesis by (rule prepare_receipt_owned [OF joins(4) k(4,3,1,2)])
next
  case handoff
  then show ?thesis by (intro prepare_handoff_owned) auto
next
  case (idle x c)
  have "co_worker c = co_worker co \<and> co_stop c = co_stop co \<and> co_active c = co_active co \<and> co_lease c = co_lease co"
    using as_provider_rel [OF idle(5)] assms(2) by (auto split: option.splits)
  then show ?thesis by (intro prepare_receipt_owned [OF idle(6)]) auto
next
  case stops
  then show ?thesis by (intro prepare_worker_owned)
qed

lemma new_handoff_is_alone:
  assumes "prepare_new_stop SE cmd rearmed co = (Inr (Commit ac), co1)" and "ac_handoff ac" and "co_worker co = None"
  shows "co_stop co = None \<and> co_failing co = None \<and> co_active co = None"
  using assms(1)
proof (cases rule: prepare_new_cases)
  case stops
  have "\<not> ac_handoff ac"
    using prepare_worker_owned [OF stops(6,1,2,3,4,5)] stops(6)
    by (auto simp: prepare_worker_def Let_def split: prod.splits sum.splits)
  then show ?thesis using assms(2) by simp
qed (use assms(3) in simp_all)

text \<open>C11: A stop has one worker.  A prepared request finds no other acceptance under way.  When it brings a worker of
  its own, no worker owned a stop before, and the new one gets the stop slot.  Either it stops the active recording,
  which nobody else is stopping or failing, without open readers if the volume is to be handed over.  Or it completes
  the pending handoff with the network lease, which was free: for a new request nothing is stopping, failing or
  recording; a repeated request whose receipt is durable only needs the missing worker and the free lease, so another
  thread may still hold the stop slot while it commits a replayed receipt.  A request without a worker changes neither
  the owner nor the recording nor the lease.\<close>

theorem one_stop_owner:
  assumes "\<forall>c r c'. sq_admit SE c = (r, c') \<longrightarrow>
      co_worker c' = co_worker c \<and> co_stop c' = co_stop c \<and> co_active c' = co_active c \<and> co_lease c' = co_lease c"
    and "prepare_stop SE cmd co = (Inr (Commit ac), co1)"
  shows "co_acceptance co = None \<and> co_acceptance co1 = Some (stop_scope cmd) \<and>
    (case ac_worker ac of
       None \<Rightarrow> \<not> ac_handoff ac \<and> co_worker co1 = co_worker co \<and> co_stop co1 = co_stop co \<and> co_active co1 = co_active co \<and>
         co_lease co1 = co_lease co
     | Some n \<Rightarrow>
         co_worker co = None \<and> co_worker co1 = Some n \<and> co_stop co1 = Some (stop_scope cmd) \<and> co_active co1 = co_active co \<and>
         (if ac_handoff ac then for_swap cmd \<and> co_swap co \<noteq> None \<and> \<not> co_lease co \<and> co_lease co1 \<and>
            (map_of (lg_commands (co_ledger co)) (stop_scope cmd) = None \<longrightarrow>
               co_stop co = None \<and> co_failing co = None \<and> co_active co = None)
          else co_stop co = None \<and> co_failing co = None \<and> co_active co \<noteq> None \<and> co_lease co1 = co_lease co \<and>
            (for_swap cmd \<longrightarrow> co_open co = 0)))"
proof -
  have admit: "co_worker c' = co_worker c \<and> co_stop c' = co_stop c \<and> co_active c' = co_active c \<and> co_lease c' = co_lease c"
    if "sq_admit SE c = (r, c')" for c r c'
    using assms(1) that by blast
  have "co_acceptance co = None \<and> owned cmd co ac co1"
    using assms(2)
  proof (cases rule: prepare_stop_cases)
    case fresh
    then show ?thesis using prepare_new_owned [OF fresh(4) admit] by simp
  next
    case (retry r)
    then show ?thesis using prepare_receipt_owned [OF retry(5)] by simp
  next
    case (again r)
    then show ?thesis using prepare_handoff_owned [OF again(8,5,6,7)] by simp
  next
    case (rearmed r)
    then show ?thesis using prepare_new_owned [OF rearmed(6) admit] by simp
  qed
  moreover have "co_stop co = None \<and> co_failing co = None \<and> co_active co = None"
    if "map_of (lg_commands (co_ledger co)) (stop_scope cmd) = None" "ac_handoff ac" "co_worker co = None"
    using assms(2)
  proof (cases rule: prepare_stop_cases)
    case fresh
    then show ?thesis by (intro new_handoff_is_alone [OF _ that(2,3)])
  qed (use that(1) in simp_all)
  ultimately show ?thesis unfolding owned_def by (cases "ac_worker ac") auto
qed

section \<open>Witnesses\<close>

definition ex_plan :: plan where
  "ex_plan = \<lparr>pl_session = ''sid'', pl_volume = ''vol'', pl_generation = ''gen'', pl_mode = ''stereo'', pl_name = ''rec'',
     pl_take = ''take'', pl_sequence = 1, pl_continues = None\<rparr>"

definition ex_recording :: coordinator where
  "ex_recording = ex_coordinator\<lparr>co_active := Some ex_plan, co_lease := True\<rparr>"

definition ex_stop :: capture_command where
  "ex_stop = \<lparr>cc_principal = ''operator'', cc_key = ''key-2'', cc_body = [(''reason'', JStr ''requested'')],
     cc_canonical = ''{}''\<rparr>"

definition ex_stop_env :: stop_env where
  "ex_stop_env = \<lparr>sq_view = ex_view, sq_lease = Inr (), sq_spawn = Inr (), sq_admit = (\<lambda>c. (Inr ex_adm, c))\<rparr>"

definition ex_now :: string where
  "ex_now = ''2026-01-01T00:00:00Z''"

definition ex_finish :: finish_env where
  "ex_finish = \<lparr>fe_sources = None, fe_states = [], fe_refusal = (\<lambda>e. \<lparr>fl_code = ''seal_failed'', fl_message = ''seal''\<rparr>),
     fe_outcome = Sealed \<lparr>sd_manifest_id = ''mid'', sd_sha256 = ''sha'', sd_sealed_at = ''t0''\<rparr>,
     fe_fail_states = [], fe_fail_raised = Inr (), fe_failed_state = None, fe_prefix = None, fe_device = (''dev'', ''label''),
     fe_handles = 0, fe_manifest = Inr (), fe_formats = ex_formats, fe_now = ex_now, fe_fault = (\<lambda>point. None),
     fe_between = (\<lambda>point c. c), fe_view = ex_view\<rparr>"

lemma ex_finish_alone [simp]: "fe_between ex_finish point c = c"
  by (simp add: ex_finish_def)

lemma ex_persist_at: "persist_at ex_finish point co = persist_state ex_now None co"
  by (simp add: persist_at_def persist_state_def ex_finish_def)

lemma ex_prepared:
  "\<exists>ac co1. prepare_stop ex_stop_env ex_stop ex_recording = (Inr (Commit ac), co1) \<and> ac_persist ac \<and> ac_worker ac = Some 0 \<and>
     co_store co1 = ex_store \<and> (\<exists>a. co_ledger co1 = cache_command (stop_scope ex_stop) ''{}'' a new_ledger)"
  by (simp add: prepare_stop_def prepare_new_stop_def prepare_worker_def ex_stop_env_def ex_recording_def ex_coordinator_def
      ex_stop_def Let_def require_valid_receipt_def new_ledger_def for_swap_def stop_reason_def eq_str_def capture_status_def
      recording_snapshot_def projected_state_def ex_view_def remember_answer_def)
    (blast)

theorem accepted_stop_is_durable_witness:
  "\<exists>ac co1 a co2 q c. prepare_stop ex_stop_env ex_stop ex_recording = (Inr (Commit ac), co1) \<and>
     finish_acceptance ex_finish ac co1 = (Inr a, co2) \<and>
     map_of (cs_rows (co_store c)) (stop_scope ex_stop) = Some (printed (stop_scope ex_stop) q) \<and> co2 = accept_stop ac c"
proof -
  obtain ac co1 a0 where p: "prepare_stop ex_stop_env ex_stop ex_recording = (Inr (Commit ac), co1)" "ac_persist ac"
      "co_store co1 = ex_store" "co_ledger co1 = cache_command (stop_scope ex_stop) ''{}'' a0 new_ledger"
    using ex_prepared by blast
  obtain c where "persist_state ex_now None co1 = (Inr (), c)"
    using persist_of_clean [of co1 ex_now] p(3,4) by (auto simp: cache_command_def Let_def new_ledger_def)
  then have f: "finish_acceptance ex_finish ac co1 = (Inr (ac_result ac), accept_stop ac c)"
    using p(2) by (simp add: finish_acceptance_def ex_persist_at)
  have run: "ledger_runs ex_start (system_of ex_recording {} {} {})"
    by (simp add: ex_start_def system_of_def ex_recording_def ex_coordinator_def)
  have ok: "proper_scope (stop_scope ex_stop)" "co_admission ex_recording = Some ex_adm"
      "\<forall>c. commit_rely ex_start c (fe_between ex_finish ''accept'' c)"
    by (simp_all add: proper_scope_def stop_scope_def command_scope_def ex_stop_def ex_recording_def ex_coordinator_def
        commit_rely_refl)
  from accepted_stop_is_durable [OF ex_start_ok run ok p(1) f]
  obtain q c' where "map_of (cs_rows (co_store c')) (stop_scope ex_stop) = Some (printed (stop_scope ex_stop) q)"
      "accept_stop ac c = accept_stop ac c'"
    by auto
  then show ?thesis using p(1) f by blast
qed

theorem one_stop_owner_witness:
  "\<exists>ac co1. prepare_stop ex_stop_env ex_stop ex_recording = (Inr (Commit ac), co1) \<and> ac_worker ac = Some 0 \<and>
     co_worker co1 = Some 0 \<and> co_stop co1 = Some (stop_scope ex_stop) \<and> co_active co1 = Some ex_plan"
proof -
  obtain ac co1 where p: "prepare_stop ex_stop_env ex_stop ex_recording = (Inr (Commit ac), co1)" "ac_worker ac = Some 0"
    using ex_prepared by blast
  have "\<forall>c r c'. sq_admit ex_stop_env c = (r, c') \<longrightarrow>
      co_worker c' = co_worker c \<and> co_stop c' = co_stop c \<and> co_active c' = co_active c \<and> co_lease c' = co_lease c"
    by (simp add: ex_stop_env_def)
  from one_stop_owner [OF this p(1)] p show ?thesis by (auto simp: ex_recording_def)
qed

end
