(* ===== verification/CaptureFinishProps.thy ===== *)
theory CaptureFinishProps
  imports CaptureStopProps
begin

text \<open>
  The owner of a stop between other threads: what it relies on, that the operations of the other
  threads keep to it, how a stop ends, and when the volume is handed over.
\<close>

section \<open>What the owner relies on\<close>

text \<open>While a stop is owned the other threads change neither the owner, the recording, the network
  lease nor the handoff, and no reader opens a handle while a handoff is pending.\<close>

definition stop_rely :: "coordinator \<Rightarrow> coordinator \<Rightarrow> bool" where
  "stop_rely a b \<longleftrightarrow>
     co_stop b = co_stop a \<and> co_active b = co_active a \<and> co_lease b = co_lease a \<and> co_worker b = co_worker a \<and>
     co_swap b = co_swap a \<and> co_released b = co_released a \<and> co_swap_resource b = co_swap_resource a \<and>
     co_swap_staged b = co_swap_staged a \<and> co_uncommitted b = co_uncommitted a \<and>
     (co_swap a \<noteq> None \<or> co_released a \<longrightarrow> co_open b \<le> co_open a)"

lemma stop_rely_refl: "stop_rely a a"
  by (simp add: stop_rely_def)

lemma stop_rely_trans: "stop_rely a b \<Longrightarrow> stop_rely b c \<Longrightarrow> stop_rely a c"
  unfolding stop_rely_def by auto

lemma stop_rely_core: "core b = core a \<Longrightarrow> stop_rely a b"
  using coreD [of b a] by (simp add: stop_rely_def)

section \<open>The others keep to it\<close>

lemma idempotent_refused:
  assumes "stopping co" and "idempotent opn cmd execute now fault co = (r, co1)"
  shows "co1 = co"
proof -
  let ?s = "command_scope opn cmd"
  show ?thesis
  proof (cases "?s \<in> fst ` set (lg_invalid (co_ledger co))")
    case True
    then show ?thesis using assms(2) by (simp add: idempotent_def Let_def require_valid_receipt_def)
  next
    case False
    then have "idempotent opn cmd execute now fault co =
       (if (case map_of (lg_commands (co_ledger co)) ?s of None \<Rightarrow> True | Some r \<Rightarrow> \<not> durable_receipt ?s r co)
        then (Inl (provider_fault ''capture_busy'' True), co)
        else (case map_of (lg_commands (co_ledger co)) ?s of
          Some r \<Rightarrow>
            if ct_canonical r \<noteq> cc_canonical cmd then (Inl (provider_fault ''idempotency_conflict'' False), co)
            else if durable_receipt ?s r co then (Inr (replayed (ct_answer r)), co)
            else andS (persist_state now fault co) (\<lambda>co1. (Inr (replayed (ct_answer r)), co1))
        | None \<Rightarrow>
            if co_failing co \<noteq> None \<or> co_projection co \<noteq> None \<or> co_worker co \<noteq> None \<or> co_closing co
            then (Inl (provider_fault ''capture_busy'' False), co)
            else (case execute co of
                (Inl e, co1) \<Rightarrow> (Inl e, co1)
              | (Inr a, co1) \<Rightarrow>
                  andS (persist_state now fault (remember_answer ?s (cc_canonical cmd) a co1)) (\<lambda>co2. (Inr a, co2)))))"
      using assms(1) by (simp add: idempotent_def Let_def require_valid_receipt_def)
    then show ?thesis using assms(2) by (cases "map_of (lg_commands (co_ledger co)) ?s") (auto split: if_split_asm)
  qed
qed

lemma claim_failure_rely:
  assumes "claim_failure device now f p from_stop co = (g, co1)"
  shows "stop_rely co co1"
  using assms
  by (auto simp: claim_failure_def Let_def next_capture_revision_def stop_rely_def split: if_splits option.splits prod.splits)

definition rely_kept :: "coordinator \<Rightarrow> 'a \<times> coordinator \<Rightarrow> bool" where
  "rely_kept c m \<longleftrightarrow> stop_rely c (snd m) \<and> co_open (snd m) = co_open c"

lemma rely_kept_intros:
  "rely_kept c (r, c)"
  "rely_kept c (r, c\<lparr>co_media_lost := b\<rparr>)"
  "rely_kept c m1 \<Longrightarrow> rely_kept c m2 \<Longrightarrow> rely_kept c (if P then m1 else m2)"
  "rely_kept c m1 \<Longrightarrow> (\<And>y. rely_kept c (f y)) \<Longrightarrow> rely_kept c (case x of None \<Rightarrow> m1 | Some y \<Rightarrow> f y)"
  "(\<And>e. rely_kept c (h e)) \<Longrightarrow> (\<And>u. rely_kept c (g u)) \<Longrightarrow> rely_kept c (case z of Inl e \<Rightarrow> h e | Inr u \<Rightarrow> g u)"
  by (auto simp: rely_kept_def stop_rely_def split: option.split sum.split)

lemma check_generation_rely:
  assumes "co_admission co = Some adm" and "check_generation admit probe g force co = (r, co1)"
  shows "stop_rely co co1 \<and> co_open co1 = co_open co"
proof -
  obtain x c where m: "(case co_admission co of Some a \<Rightarrow> (Inr a, co) | None \<Rightarrow> admit co) = (x, c)" by fastforce
  have q: "stop_rely co c \<and> co_open c = co_open co"
    using m assms(1) by (simp add: stop_rely_refl)
  have "rely_kept c (check_generation admit probe g force co)"
    by (cases x; simp only: check_generation_def m sum.case prod.case; intro rely_kept_intros)
  then have "stop_rely c co1 \<and> co_open co1 = co_open c" unfolding assms(2) rely_kept_def by simp
  then show ?thesis using q stop_rely_trans by auto
qed

lemma acquire_rely:
  assumes "co_admission co = Some adm" and "acquire_representation admit probe co = (r, co1)"
  shows "stop_rely co co1"
proof (cases "co_released co \<or> co_swap co \<noteq> None \<or> eq_str (co_reason co) ''safe_swap''")
  case True
  have "co1 = co" using assms(2) unfolding acquire_representation_def if_P [OF True] by simp
  then show ?thesis by (simp add: stop_rely_refl)
next
  case False
  obtain x c where m: "as_provider True (check_generation admit probe None False co) = (x, c)" by fastforce
  have "andS (x, c) (\<lambda>co1. (Inr (), co1\<lparr>co_open := co_open co1 + 1\<rparr>)) = (r, co1)"
    using assms(2) unfolding acquire_representation_def if_not_P [OF False] m .
  then have c: "co1 = c \<or> co1 = c\<lparr>co_open := co_open c + 1\<rparr>" by (cases x) auto
  obtain y where "check_generation admit probe None False co = (y, c)" using as_provider_rel [OF m] by blast
  from check_generation_rely [OF assms(1) this] have "stop_rely co c" by simp
  then show ?thesis using c False by (auto simp: stop_rely_def)
qed

lemma prepare_receipt_rely:
  assumes "prepare_receipt cmd a retry co = (r, co1)"
  shows "stop_rely co co1"
  using assms by (cases retry) (auto simp: prepare_receipt_def Let_def stop_rely_def remember_answer_def)

lemma prepare_new_joined:
  assumes "co_worker co \<noteq> None" and "prepare_new_stop SE cmd rearmed co = (r, co1)"
  shows "stop_rely co co1"
proof (cases "co_stop co \<noteq> None \<and> co_active co = None")
  case True
  have "co1 = co" using assms(2) unfolding prepare_new_stop_def if_P [OF True] by simp
  then show ?thesis by (simp add: stop_rely_refl)
next
  case False
  obtain doc c where m: "capture_status (sq_view SE) co = (doc, c)" by fastforce
  have "(if stop_reason cmd \<noteq> co_reason co then (Inl (provider_fault ''stop_intent_conflict'' True), co)
      else prepare_receipt cmd (plain_answer 202 doc) False c) = (r, co1)"
    using assms(2) unfolding prepare_new_stop_def if_not_P [OF False] if_P [OF assms(1)] m prod.case .
  then show ?thesis
    using stop_rely_trans [OF stop_rely_core [OF capture_status_core [OF m]] prepare_receipt_rely [of cmd _ False c r co1]]
    by (auto simp: stop_rely_refl split: if_split_asm)
qed

lemma prepare_joined_rely:
  assumes "co_worker co \<noteq> None" and "prepare_stop SE cmd co = (r, co1)"
  shows "stop_rely co co1"
proof -
  have "unfinished_failure a co \<Longrightarrow> False" for a using assms(1) by (auto simp: unfinished_failure_def split: option.splits)
  then have no: "unfinished_failure a co = False" for a by blast
  have "co1 = co \<or> (\<exists>a. prepare_receipt cmd a True co = (r, co1)) \<or> prepare_new_stop SE cmd None co = (r, co1)"
    using assms unfolding prepare_stop_def Let_def no
    by (cases "require_valid_receipt (stop_scope cmd) co"; cases "map_of (lg_commands (co_ledger co)) (stop_scope cmd)")
       (auto split: if_split_asm)
  then show ?thesis using stop_rely_refl prepare_receipt_rely prepare_new_joined [OF assms(1)] by blast
qed

section \<open>How a stop ends\<close>

definition owner_rely :: "finish_env \<Rightarrow> bool" where
  "owner_rely E \<longleftrightarrow> (\<forall>point c. co_stop c \<noteq> None \<longrightarrow> stop_rely c (fe_between E point c))"

lemma owner_relyD: "owner_rely E \<Longrightarrow> co_stop c = Some s \<Longrightarrow> stop_rely c (fe_between E point c)"
  unfolding owner_rely_def by (metis option.distinct(1))

text \<open>The owner holds the stop, and the lease as long as its recording is active; \<open>idle\<close> says that the
  recording is over.\<close>

definition own :: "bool \<Rightarrow> scope \<Rightarrow> plan \<Rightarrow> coordinator \<Rightarrow> bool" where
  "own over s p c \<longleftrightarrow> co_stop c = Some s \<and> (co_active c = None \<or> \<not> over \<and> co_active c = Some p \<and> co_lease c)"

lemma own_over: "own True s p c \<Longrightarrow> own over s p c"
  by (auto simp: own_def)

lemma own_rely: "own over s p a \<Longrightarrow> stop_rely a b \<Longrightarrow> own over s p b"
  by (auto simp: own_def stop_rely_def)

lemma own_between: "owner_rely E \<Longrightarrow> own over s p c \<Longrightarrow> own over s p (fe_between E point c)"
  using own_rely owner_relyD by (metis own_def)

lemma own_core: "own over s p a \<Longrightarrow> core b = core a \<Longrightarrow> own over s p b"
  using own_rely stop_rely_core by blast

lemma own_persist_at:
  assumes "owner_rely E" and "own over s p co" and "persist_at E point co = (r, co1)"
  shows "own over s p co1"
proof -
  obtain w c where m: "local_state_write co = (w, c)" "write_state (fe_now E) (fe_fault E point) w (fe_between E point c) = (r, co1)"
    using assms(3) by (auto simp: persist_at_def split: prod.splits)
  show ?thesis
    by (rule own_core [OF own_between [OF assms(1) own_core [OF assms(2) local_state_write_core [OF m(1)]]] write_state_core [OF m(2)]])
qed

text \<open>The same for sequences: a section that keeps ownership, followed by one that does.\<close>

definition owns :: "bool \<Rightarrow> scope \<Rightarrow> plan \<Rightarrow> coordinator \<Rightarrow> coordinator \<Rightarrow> bool" where
  "owns over s p a b \<longleftrightarrow> (own over s p a \<longrightarrow> own over s p b)"

lemma owns_trans: "owns over s p a b \<Longrightarrow> owns over s p b c \<Longrightarrow> owns over s p a c"
  by (simp add: owns_def)

lemma settle_failure_own:
  assumes "own False s p co" and "settle_failure p co = (r, co1)"
  shows "own False s p co1 \<and> (\<forall>u. r = Inr u \<longrightarrow> co_active co1 = None)"
proof (cases "co_active co \<noteq> Some p \<or> co_uncommitted co \<noteq> Some p")
  case True
  have "co1 = co \<and> r = Inl AssertionError" using assms(2) unfolding settle_failure_def if_P [OF True] by simp
  then show ?thesis using assms(1) by simp
next
  case False
  show ?thesis using assms unfolding settle_failure_def if_not_P [OF False] by (auto simp: own_def)
qed

lemma commit_failure_own:
  assumes "owner_rely E" and "own False s p co" and "commit_failure E p co = (r, co1)"
  shows "own False s p co1 \<and> (\<forall>u. r = Inr u \<longrightarrow> co_active co1 = None)"
proof -
  obtain x c where m: "persist_at E ''failure'' co = (x, c)" by fastforce
  have o: "own False s p c" by (rule own_persist_at [OF assms(1,2) m])
  show ?thesis
  proof (cases x)
    case (Inl e)
    then show ?thesis using assms(3) m o by (auto simp: commit_failure_def)
  next
    case (Inr u)
    then have "settle_failure p (fe_between E ''settle'' c) = (r, co1)" using assms(3) m by (simp add: commit_failure_def)
    then show ?thesis by (rule settle_failure_own [OF own_between [OF assms(1) o]])
  qed
qed

lemma record_saved_prefix_fields:
  "co_stop (record_saved_prefix sid x co) = co_stop co \<and> co_active (record_saved_prefix sid x co) = co_active co \<and>
   co_lease (record_saved_prefix sid x co) = co_lease co"
  by (auto simp: record_saved_prefix_def Let_def next_capture_revision_def split: option.split json.split)

lemma retain_outcome_own: "own over s p co \<Longrightarrow> own over s p (retain_outcome E q f co)"
  unfolding own_def retain_outcome_def Let_def
  by (simp add: record_saved_prefix_fields next_capture_revision_def split: option.split if_split)

lemma finish_failure_own:
  assumes "owner_rely E" and "own False s p co" and "finish_failure E p f co = (r, co1)"
  shows "own False s p co1"
proof -
  obtain x c where m: "report_states p (fe_fail_states E) co = (x, c)" by fastforce
  have o: "own False s p c" by (rule own_core [OF assms(2) report_states_core [OF m]])
  have "co1 = c \<or> commit_failure E p (retain_outcome E p f (fe_between E ''failed'' c)) = (r, co1)"
    using assms(3) m by (cases x; cases "fe_fail_raised E") (auto simp: finish_failure_def)
  then show ?thesis using o commit_failure_own [OF assms(1) retain_outcome_own [OF own_between [OF assms(1) o]]] by blast
qed

lemma retain_failure_own:
  assumes "owner_rely E" and "own False s p co" and "retain_failure E f p from_stop co = (r, co1)"
  shows "own False s p co1"
proof -
  obtain g c where m: "claim_failure (fe_device E) (fe_now E) f p from_stop co = (g, c)" by fastforce
  have o: "own False s p c" by (rule own_rely [OF assms(2) claim_failure_rely [OF m]])
  show ?thesis
  proof (cases g)
    case None
    then show ?thesis using assms(3) m o by (simp add: retain_failure_def)
  next
    case (Some h)
    obtain y c2 where m2: "finish_failure E p h (fe_between E ''claimed'' c) = (y, c2)" by fastforce
    have "own False s p (fe_between E ''recovered'' c2)"
      by (rule own_between [OF assms(1) finish_failure_own [OF assms(1) own_between [OF assms(1) o] m2]])
    moreover have "co1 = unclaim_failure p (fe_between E ''recovered'' c2)"
      using assms(3) m m2 Some by (simp add: retain_failure_def)
    ultimately show ?thesis by (simp add: own_def unclaim_failure_def)
  qed
qed

lemma publish_own:
  assumes "owner_rely E" and "own over s p co" and "publish_safe_swap E co = (r, co1)"
  shows "own over s p co1"
proof (cases "pending_handoff E co")
  case (Inl e)
  then show ?thesis using assms by (simp add: publish_safe_swap_def)
next
  case (Inr w)
  let ?c = "fe_between E ''manifest'' co"
  have o: "own over s p ?c" by (rule own_between [OF assms(1,2)])
  obtain x c1 where st: "stage_receipt E w ?c = (x, c1)" by fastforce
  have o1: "own over s p c1"
    using o st by (cases "validate_safe_swap_v3_receipt (fe_formats E) (swap_receipt (fe_now E) w)")
      (auto simp: stage_receipt_def own_def next_capture_revision_def split: if_splits)
  obtain y c2 where pa: "persist_at E ''receipt'' c1 = (y, c2)" by fastforce
  have o2: "own over s p c2" by (rule own_persist_at [OF assms(1) o1 pa])
  have "co1 \<in> {?c, c1} \<or> (\<exists>e. unstage_receipt e (fe_between E ''unstage'' c2) = (r, co1)) \<or> co1 = show_receipt E w (fe_between E ''show'' c2)"
    using assms(3) Inr st pa by (cases "fe_manifest E"; cases x; cases y) (auto simp: publish_safe_swap_def)
  moreover have "own over s p co1" if "unstage_receipt e (fe_between E ''unstage'' c2) = (r, co1)" for e
    using that own_between [OF assms(1) o2, of "''unstage''"] by (auto simp: unstage_receipt_def own_def)
  moreover have "own over s p (show_receipt E w (fe_between E ''show'' c2))"
    using own_between [OF assms(1) o2, of "''show''"] by (simp add: show_receipt_def own_def next_capture_revision_def)
  ultimately show ?thesis using o o1 by blast
qed

lemma remember_at_own:
  assumes "owner_rely E" and "own over s p co" and "remember_at E point remember cmd sc a co = (r, co1)"
  shows "own over s p co1"
proof (cases remember)
  case True
  obtain x c where m: "persist_at E point (remember_answer sc (cc_canonical cmd) a co) = (x, c)" by fastforce
  have "own over s p c" by (rule own_persist_at [OF assms(1) own_core [OF assms(2)] m]) simp
  then show ?thesis using assms(3) True m by (cases x) (auto simp: remember_at_def)
qed (use assms in \<open>simp add: remember_at_def\<close>)

lemma commit_stop_own:
  assumes "owner_rely E" and "own True s p co" and "commit_stop E cmd sc remember a co = (r, co1)"
  shows "own True s p co1"
proof -
  obtain x c where m: "persist_at E ''stop'' co = (x, c)" by fastforce
  have o: "own True s p c" by (rule own_persist_at [OF assms(1,2) m])
  show ?thesis
  proof (cases x)
    case (Inl e)
    then show ?thesis using assms(3) m o by (simp add: commit_stop_def)
  next
    case (Inr u)
    show ?thesis
    proof (cases "for_swap cmd")
      case True
      obtain y c2 where p: "publish_safe_swap E (fe_between E ''publish'' c) = (y, c2)" by fastforce
      have o2: "own True s p c2" by (rule publish_own [OF assms(1) own_between [OF assms(1) o] p])
      have "co1 = c2 \<or> remember_at E ''answer'' remember cmd sc a (fe_between E ''published'' c2) = (r, co1)"
        using assms(3) m Inr True p by (cases y) (auto simp: commit_stop_def)
      then show ?thesis using o2 remember_at_own [OF assms(1) own_between [OF assms(1) o2]] by blast
    next
      case False
      then have "co1 = release_lease (clear_stop_commit (Some sc) (fe_between E ''committed'' c))"
        using assms(3) m Inr by (simp add: commit_stop_def)
      then show ?thesis
        using own_between [OF assms(1) o, of "''committed''"] by (simp add: own_def release_lease_def clear_stop_commit_def)
    qed
  qed
qed

lemma still_owned_leaves: "still_owned p c = Some (Leave r) \<Longrightarrow> \<exists>e. r = Inl e"
  by (auto simp: still_owned_def split: option.splits if_splits)

lemma seal_recording_own:
  assumes "owner_rely E" and "own over s p co" and "seal_recording E p co = (x, co1)"
  shows "own over s p co1 \<and> (\<forall>r. x = Inl (Leave r) \<longrightarrow> (\<exists>e. r = Inl e))"
proof (cases "co_source_failure co")
  case (Some f)
  then show ?thesis using assms by (auto simp: seal_recording_def)
next
  case None
  obtain y c where m: "report_states p (fe_states E) co = (y, c)" by fastforce
  have o: "own over s p c" by (rule own_core [OF assms(2) report_states_core [OF m]])
  let ?c2 = "fe_between E ''sealed'' c" and ?c3 = "fe_between E ''catalog'' (fe_between E ''sealed'' c)"
  have o2: "own over s p ?c2" by (rule own_between [OF assms(1) o])
  have o3: "own over s p ?c3" by (rule own_between [OF assms(1) o2])
  show ?thesis
  proof (cases y)
    case (Inl e)
    then show ?thesis using assms(3) None m o by (auto simp: seal_recording_def)
  next
    case (Inr u)
    show ?thesis
    proof (cases "fe_outcome E")
      case (Sealed sd)
      have e: "seal_recording E p co = (case still_owned p ?c2 of Some x \<Rightarrow> (Inl x, ?c2)
          | None \<Rightarrow> (case still_owned p ?c3 of Some x \<Rightarrow> (Inl x, ?c3) | None \<Rightarrow> (Inr sd, ?c3)))"
        using None m Inr Sealed unfolding seal_recording_def Let_def by simp
      show ?thesis
        using assms(3) o2 o3 still_owned_leaves unfolding e
        by (cases "still_owned p ?c2"; cases "still_owned p ?c3") auto
    qed (use assms(3) None m Inr o in \<open>auto simp: seal_recording_def\<close>)
  qed
qed

lemma end_recording_own:
  assumes "own False s p co" and "end_recording E cmd sc p sd remember co = (a, co1)"
  shows "own True s p co1"
proof -
  let ?c = "next_capture_revision (co\<lparr>co_active := None, co_timer := None\<rparr>)"
  have o: "own True s p ?c" using assms(1) by (simp add: own_def next_capture_revision_def)
  show ?thesis
  proof (cases "for_swap cmd")
    case True
    then show ?thesis using assms(2) o by (auto simp: end_recording_def Let_def own_def)
  next
    case False
    obtain doc c2 where m: "capture_status (fe_view E) ?c = (doc, c2)" by fastforce
    have "own True s p c2" by (rule own_core [OF o capture_status_core [OF m]])
    then show ?thesis
      using assms(2) False m by (auto simp: end_recording_def Let_def own_def remember_answer_def)
  qed
qed

lemma finish_body_own:
  assumes "owner_rely E" and "own False s p co" and "finish_body E cmd sc p remember co = (r, co1)"
  shows "own False s p co1 \<and> (\<forall>a. r = Inr a \<longrightarrow> co_active co1 = None)"
proof (cases "fe_sources E")
  case (Some f)
  obtain x c where m: "retain_failure E f p True co = (x, c)" by fastforce
  then have "co1 = c \<and> (\<exists>e. r = Inl e)" using assms(3) Some by (cases x) (auto simp: finish_body_def)
  then show ?thesis using retain_failure_own [OF assms(1,2) m] by auto
next
  case None
  let ?c = "fe_between E ''sources'' co"
  have o: "own False s p ?c" by (rule own_between [OF assms(1,2)])
  show ?thesis
  proof (cases "co_uncommitted ?c = Some p")
    case True
    obtain x c where m: "commit_failure E p ?c = (x, c)" by fastforce
    note k = commit_failure_own [OF assms(1) o m]
    show ?thesis
    proof (cases x)
      case (Inl e)
      then show ?thesis using assms(3) None True m k by (auto simp: finish_body_def)
    next
      case (Inr u)
      then have t: "own True s p c" using k by (auto simp: own_def)
      have "remember_at E ''answer'' remember cmd sc (plain_answer 204 JNull) (fe_between E ''published'' c) = (r, co1)"
        using assms(3) None True m Inr by (simp add: finish_body_def)
      from remember_at_own [OF assms(1) own_between [OF assms(1) t] this] show ?thesis by (auto simp: own_def)
    qed
  next
    case False
    obtain x c where m: "seal_recording E p ?c = (x, c)" by fastforce
    note k = seal_recording_own [OF assms(1) o m]
    have e: "finish_body E cmd sc p remember co =
      (case (x, c) of
                (Inl (Leave r), co2) \<Rightarrow> (r, co2)
              | (Inl (Device f), co2) \<Rightarrow>
                  andS (retain_failure E f p True co2) (\<lambda>co3. (Inl (provider_fault (fl_code f) False), co3))
              | (Inr sd, co2) \<Rightarrow>
                  (case end_recording E cmd sc p sd remember co2 of
                     (a, co3) \<Rightarrow> commit_stop E cmd sc remember a co3))"
      using None False m by (simp add: finish_body_def Let_def)
    show ?thesis
    proof (cases x)
      case (Inl st)
      show ?thesis
      proof (cases st)
        case (Leave r')
        then show ?thesis using assms(3) k Inl unfolding e by auto
      next
        case (Device f)
        obtain y c2 where q: "retain_failure E f p True c = (y, c2)" by fastforce
        then have "co1 = c2 \<and> (\<exists>e. r = Inl e)" using assms(3) Inl Device unfolding e by (cases y) auto
        then show ?thesis using retain_failure_own [OF assms(1) _ q] k by auto
      qed
    next
      case (Inr sd)
      obtain a c3 where q: "end_recording E cmd sc p sd remember c = (a, c3)" by fastforce
      have "commit_stop E cmd sc remember a c3 = (r, co1)" using assms(3) Inr q unfolding e by simp
      from commit_stop_own [OF assms(1) end_recording_own [OF _ q] this, of s] k
      show ?thesis by (auto simp: own_def)
    qed
  qed
qed

text \<open>C8: how a stop ends.  Whatever the sources, the recorder and the database do, and with the other
  threads at every point in between, the owner gives the stop back; the network lease is held
  afterwards exactly when the recording is still active, so that it can be stopped again; and when the
  stop is answered the recording is over.\<close>

theorem finished_stop_outcome:
  assumes "owner_rely E" and "co_stop co = Some s" and "co_active co = Some p" and "co_lease co"
    and "finish_stop E cmd s p remember co = (r, co')"
  shows "co_stop co' = None \<and> co_active co' \<in> {None, Some p} \<and> co_lease co' = (co_active co' \<noteq> None) \<and>
    (case r of Inr a \<Rightarrow> co_active co' = None | Inl e \<Rightarrow> True)"
proof -
  obtain x c where m: "finish_body E cmd s p remember co = (x, c)" by fastforce
  have "own False s p co" using assms(2-4) by (simp add: own_def)
  note k = finish_body_own [OF assms(1) this m]
  let ?c = "fe_between E ''leave'' c"
  have o: "own False s p ?c" using own_between [OF assms(1)] k by blast
  have co': "co' = leave_finish s ?c" "r = x" using assms(5) m by (simp_all add: finish_stop_def)
  have stop: "co_stop c = Some s" using k by (simp add: own_def)
  have over: "co_active ?c = co_active c"
    using owner_relyD [OF assms(1) stop] by (simp add: stop_rely_def)
  show ?thesis
    using o k over unfolding co'
    by (cases x) (auto simp: own_def leave_finish_def Let_def release_lease_def)
qed

section \<open>The handoff of the volume\<close>

lemma persist_at_core:
  assumes "owner_rely E" and "co_stop co = Some s" and "persist_at E point co = (r, co1)"
  shows "stop_rely co co1"
proof -
  obtain w c where m: "local_state_write co = (w, c)" "write_state (fe_now E) (fe_fault E point) w (fe_between E point c) = (r, co1)"
    using assms(3) by (auto simp: persist_at_def split: prod.splits)
  have k: "core c = core co" by (rule local_state_write_core [OF m(1)])
  then have "co_stop c = Some s" using coreD(3) [OF k] assms(2) by simp
  then show ?thesis
    using stop_rely_trans [OF stop_rely_core [OF k] stop_rely_trans [OF owner_relyD [OF assms(1)] stop_rely_core [OF write_state_core [OF m(2)]]]]
    by blast
qed

lemma publish_cases:
  assumes "owner_rely E" and "co_stop co = Some s" and "publish_safe_swap E co = (r, co')"
  obtains (early) e where "r = Inl e" "stop_rely co co'"
  | (unstaged) e e' w c where "r = Inl e" "co_swap co = Some w"
      "stop_rely (next_capture_revision ((fe_between E ''manifest'' co)\<lparr>co_swap_staged := Some (swap_document (fe_now E) w)\<rparr>)) c"
      "unstage_receipt e' c = (r, co')"
  | (shown) w c1 c2 where "r = Inr ()" "co_swap co = Some w" "fe_handles E + co_open co = 0" "fe_manifest E = Inr ()"
      "validate_safe_swap_v3_receipt (fe_formats E) (swap_receipt (fe_now E) w) = Inr ()"
      "c1 = next_capture_revision ((fe_between E ''manifest'' co)\<lparr>co_swap_staged := Some (swap_document (fe_now E) w)\<rparr>)"
      "persist_at E ''receipt'' c1 = (Inr (), c2)" "co' = show_receipt E w (fe_between E ''show'' c2)"
proof (cases "pending_handoff E co")
  case (Inl e)
  then show ?thesis using assms(3) by (intro early [of e]) (auto simp: publish_safe_swap_def stop_rely_refl)
next
  case (Inr w)
  have w: "co_swap co = Some w" "fe_handles E + co_open co = 0"
    using Inr by (auto simp: pending_handoff_def guardE_def split: option.splits if_splits)
  let ?c = "fe_between E ''manifest'' co"
  let ?c1 = "next_capture_revision (?c\<lparr>co_swap_staged := Some (swap_document (fe_now E) w)\<rparr>)"
  have r: "stop_rely co ?c" by (rule owner_relyD [OF assms(1,2)])
  have swap: "co_swap ?c = Some w" "co_stop ?c = Some s" using r w(1) assms(2) by (simp_all add: stop_rely_def)
  show ?thesis
  proof (cases "fe_manifest E")
    case (Inl e)
    then show ?thesis using assms(3) Inr r by (intro early [of e]) (auto simp: publish_safe_swap_def)
  next
    case m: (Inr u)
    show ?thesis
    proof (cases "validate_safe_swap_v3_receipt (fe_formats E) (swap_receipt (fe_now E) w)")
      case (Inl e)
      then show ?thesis
        using assms(3) Inr m r swap by (intro early [of e]) (auto simp: publish_safe_swap_def stage_receipt_def)
    next
      case v: (Inr u')
      obtain y c2 where pa: "persist_at E ''receipt'' ?c1 = (y, c2)" by fastforce
      have stop: "co_stop ?c1 = Some s" using swap(2) by (simp add: next_capture_revision_def)
      have k: "stop_rely ?c1 c2" by (rule persist_at_core [OF assms(1) stop pa])
      have e: "publish_safe_swap E co = (case (y, c2) of
          (Inl e, co2) \<Rightarrow> unstage_receipt e (fe_between E ''unstage'' co2)
        | (Inr u, co2) \<Rightarrow> (Inr (), show_receipt E w (fe_between E ''show'' co2)))"
        using Inr m v swap pa by (simp add: publish_safe_swap_def stage_receipt_def)
      show ?thesis
      proof (cases y)
        case (Inl e')
        have "co_stop c2 = Some s" using k stop by (simp add: stop_rely_def)
        then have "stop_rely ?c1 (fe_between E ''unstage'' c2)" by (rule stop_rely_trans [OF k owner_relyD [OF assms(1)]])
        moreover have u: "unstage_receipt e' (fe_between E ''unstage'' c2) = (r, co')" using assms(3) Inl unfolding e by simp
        moreover have "\<exists>x. r = Inl x" using u by (auto simp: unstage_receipt_def)
        ultimately show ?thesis using unstaged w(1) by blast
      next
        case y: (Inr u'')
        have "r = Inr ()" "co' = show_receipt E w (fe_between E ''show'' c2)" using assms(3) y unfolding e by simp_all
        then show ?thesis using w m v pa y by (intro shown [OF _ w _ _ refl, of c2]) simp_all
      qed
    qed
  qed
qed

text \<open>C10: the volume is handed over only when nobody uses it.  When the handoff is published there is a
  pending one, no handle of the recorder, the sources, the catalog or a reader was open, none is
  opened afterwards, the published receipt says so and was validated, and from then on readers are
  refused; when it fails, the volume is not released and the handoff stays pending.\<close>

theorem safe_swap_is_exclusive:
  assumes "owner_rely E" and "co_stop co = Some s" and "publish_safe_swap E co = (r, co')"
  shows "case r of
      Inr u \<Rightarrow>
        (\<exists>w. co_swap co = Some w \<and> fe_handles E + co_open co = 0 \<and> co_open co' \<le> co_open co \<and>
           validate_safe_swap_v3_receipt (fe_formats E) (swap_receipt (fe_now E) w) = Inr () \<and>
           co_swap_resource co' = Some (swap_document (fe_now E) w)) \<and>
        co_released co' \<and> co_swap co' = None \<and>
        acquire_representation admit probe co' = (Inl (provider_fault ''volume_releasing'' True), co')
    | Inl e \<Rightarrow> co_released co' = co_released co \<and> co_swap co' = co_swap co \<and> co_swap_resource co' = co_swap_resource co"
  using assms
proof (cases rule: publish_cases)
  case (early e)
  then show ?thesis by (simp add: stop_rely_def)
next
  case (unstaged e e' w c)
  have "stop_rely co (fe_between E ''manifest'' co)" by (rule owner_relyD [OF assms(1,2)])
  then show ?thesis
    using unstaged by (auto simp: stop_rely_def unstage_receipt_def next_capture_revision_def)
next
  case (shown w c1 c2)
  have r0: "stop_rely co (fe_between E ''manifest'' co)" by (rule owner_relyD [OF assms(1,2)])
  have stop: "co_stop c1 = Some s" using r0 assms(2) shown(6) by (simp add: stop_rely_def next_capture_revision_def)
  have r1: "stop_rely c1 c2" by (rule persist_at_core [OF assms(1) stop shown(7)])
  have stop2: "co_stop c2 = Some s" using r1 stop by (simp add: stop_rely_def)
  have r2: "stop_rely c2 (fe_between E ''show'' c2)" by (rule owner_relyD [OF assms(1) stop2])
  have swap: "co_swap c1 = Some w" "co_swap c2 = Some w" using r0 r1 shown(2,6) by (simp_all add: stop_rely_def next_capture_revision_def)
  have "co_open (fe_between E ''manifest'' co) \<le> co_open co" using r0 shown(2) by (simp add: stop_rely_def)
  moreover have "co_open c1 = co_open (fe_between E ''manifest'' co)" by (simp add: shown(6) next_capture_revision_def)
  moreover have "co_open c2 \<le> co_open c1" using r1 swap(1) by (simp add: stop_rely_def)
  moreover have "co_open (fe_between E ''show'' c2) \<le> co_open c2" using r2 swap(2) by (simp add: stop_rely_def)
  ultimately have "co_open co' \<le> co_open co" using shown(8) by (simp add: show_receipt_def next_capture_revision_def)
  then show ?thesis
    using shown by (simp add: show_receipt_def next_capture_revision_def acquire_representation_def)
qed

section \<open>The receipt of the handoff is durable first\<close>

definition shows_receipt :: "jobject \<Rightarrow> pending_write \<Rightarrow> bool" where
  "shows_receipt doc v \<longleftrightarrow> jget (pw_value v) ''safe_swap_resource'' = JObj doc"

definition shown_since :: "pending_write \<Rightarrow> jobject \<Rightarrow> pending_write set \<Rightarrow> bool" where
  "shown_since w doc T \<longleftrightarrow> (\<forall>v \<in> T. pw_seq w \<le> pw_seq v \<longrightarrow> shows_receipt doc v)"

text \<open>While the receipt is staged every snapshot shows it, whoever takes it.\<close>

definition staged_rely :: "ledger_system \<Rightarrow> coordinator \<Rightarrow> coordinator \<Rightarrow> bool" where
  "staged_rely s0 a b \<longleftrightarrow>
     co_swap_staged b = co_swap_staged a \<and>
     (\<forall>doc w W T M. co_swap_staged a = Some doc \<longrightarrow> ledger_runs s0 (system_of a W T M) \<longrightarrow> w \<in> W \<longrightarrow> shown_since w doc T \<longrightarrow>
        (\<exists>W' T' M'. ledger_runs s0 (system_of b W' T' M') \<and> w \<in> W' \<and> shown_since w doc T'))"

lemma staged_snapshot:
  assumes "local_state_write co = (w, co1)" and "co_swap_staged co = Some doc"
  shows "shows_receipt doc w" and "co_swap_staged co1 = Some doc"
proof -
  define c where "c = (case co_admission co of None \<Rightarrow> co | Some a \<Rightarrow> co\<lparr>co_binding := binding_of a\<rparr>)"
  have st: "co_swap_staged c = Some doc" using assms(2) by (simp add: c_def split: option.split)
  obtain lg where take: "take_snapshot (lifecycle_value c) (co_ledger c) = (w, lg)" and co1: "co1 = c\<lparr>co_ledger := lg\<rparr>"
    using assms(1) unfolding local_state_write_def Let_def c_def [symmetric]
    by (cases "take_snapshot (lifecycle_value c) (co_ledger c)") auto
  have "pw_value w = (''schema'', JStr ''ylx.capture-coordinator-state.v1'') #
      (''invalid_commands'', invalid_entries (lg_invalid (co_ledger c))) # lifecycle_value c"
    using take by (auto simp: take_snapshot_def Let_def)
  then show "shows_receipt doc w" using st by (simp add: shows_receipt_def lifecycle_value_def jget_def or_null_def)
  show "co_swap_staged co1 = Some doc" using st by (simp add: co1)
qed

lemma staged_snapshot_first:
  assumes start: "ledger_start s0" and run: "ledger_runs s0 (system_of co W T M)"
    and snap: "local_state_write co = (w, co1)" and "co_swap_staged co = Some doc"
  shows "shown_since w doc (insert w T)" and "ledger_runs s0 (system_of co1 (insert w W) (insert w T) M)"
proof -
  note n = snapshot_is_newest [OF start run snap]
  show "ledger_runs s0 (system_of co1 (insert w W) (insert w T) M)" by (fact n(2))
  have seq: "pw_seq w = lg_write_seq (co_ledger co) + 1" using local_state_write_spec [OF snap] by metis
  have inv: "ledger_inv (quarantine s0) (map_of (cs_rows (sy_store s0))) (system_of co W T M)"
    unfolding quarantine_def by (rule ledger_inv_runs [OF run ledger_inv_start [OF start]])
  have "pw_seq v \<le> lg_write_seq (co_ledger co)" if "v \<in> T" for v
    using inv that by (simp add: ledger_inv_def Let_def snapshots_ok_def)
  then show "shown_since w doc (insert w T)"
    using seq staged_snapshot(1) [OF snap assms(4)] unfolding shown_since_def by fastforce
qed

lemma persist_keeps_staged:
  assumes start: "ledger_start s0" and p: "persist_state now fault co = (r, co1)"
  shows "staged_rely s0 co co1"
proof -
  obtain w2 co' where snap: "local_state_write co = (w2, co')" and wr: "write_state now fault w2 co' = (r, co1)"
    using p by (auto simp: persist_state_def split: prod.splits)
  have seq: "pw_seq w2 = lg_write_seq (co_ledger co) + 1"
    and s1: "\<And>W T M. ledger_step (system_of co W T M) (system_of co' (insert w2 W) (insert w2 T) M)"
    using local_state_write_spec [OF snap] by metis+
  obtain lg db where ws: "write_snapshot now fault w2 (co_ledger co', co_store co') = (r, lg, db)"
      "co1 = co'\<lparr>co_ledger := lg, co_store := db\<rparr>"
    by (rule write_state_spec [OF wr])
  have "\<exists>W' T' M'. ledger_runs s0 (system_of co1 W' T' M') \<and> w \<in> W' \<and> shown_since w doc T'"
    if st: "co_swap_staged co = Some doc" and run: "ledger_runs s0 (system_of co W T M)" and w: "w \<in> W" and u: "shown_since w doc T"
    for doc w W T M
  proof -
    have inv: "ledger_inv (quarantine s0) (map_of (cs_rows (sy_store s0))) (system_of co W T M)"
      unfolding quarantine_def by (rule ledger_inv_runs [OF run ledger_inv_start [OF start]])
    have "pw_seq w \<le> lg_write_seq (co_ledger co)"
      using inv w by (auto simp: ledger_inv_def Let_def snapshots_ok_def)
    then have "w \<in> insert w2 W - {w2}" using w seq by auto
    moreover have "ledger_step (system_of co' (insert w2 W) (insert w2 T) M) (system_of co1 (insert w2 W - {w2}) (insert w2 T) M)"
      using ledger_step.written [of w2 "system_of co' (insert w2 W) (insert w2 T) M" now fault r lg db] ws(1,2)
      by (simp add: system_of_def)
    then have "ledger_runs s0 (system_of co1 (insert w2 W - {w2}) (insert w2 T) M)"
      using run s1 by (meson rtranclp.rtrancl_into_rtrancl)
    moreover have "shown_since w doc (insert w2 T)"
      using u staged_snapshot(1) [OF snap st] by (simp add: shown_since_def)
    ultimately show ?thesis by blast
  qed
  moreover have "co_swap_staged co1 = co_swap_staged co" using coreD(19) [OF persist_state_core [OF p]] .
  ultimately show ?thesis unfolding staged_rely_def by simp
qed

lemma staged_write_stored:
  assumes start: "ledger_start s0" and run: "ledger_runs s0 (system_of co W T M)" and w: "w \<in> W"
    and sh: "shown_since w doc T" and wr: "write_state now fault w co = (Inr (), co1)"
  shows "\<exists>v. shows_receipt doc v \<and> holds_snapshot (quarantine s0) v (co_store co1)"
proof -
  obtain lg db where ws: "write_snapshot now fault w (co_ledger co, co_store co) = (Inr (), lg, db)"
      "co1 = co\<lparr>co_ledger := lg, co_store := db\<rparr>"
    by (rule write_state_spec [OF wr])
  obtain v where "v \<in> T" "pw_seq w \<le> pw_seq v" "holds_snapshot (quarantine s0) v db"
  proof -
    have step: "ledger_step (system_of co W T M) (system_of co1 (W - {w}) T M)"
      using ledger_step.written [of w "system_of co W T M" now fault "Inr ()" lg db] w ws by (simp add: system_of_def)
    then have run1: "ledger_runs s0 (system_of co1 (W - {w}) T M)" using run by (rule rtranclp.rtrancl_into_rtrancl [rotated])
    have inv: "ledger_inv (quarantine s0) (map_of (cs_rows (sy_store s0))) (system_of co1 (W - {w}) T M)"
      unfolding quarantine_def by (rule ledger_inv_runs [OF run1 ledger_inv_start [OF start]])
    have inv0: "ledger_inv (quarantine s0) (map_of (cs_rows (sy_store s0))) (system_of co W T M)"
      unfolding quarantine_def by (rule ledger_inv_runs [OF run ledger_inv_start [OF start]])
    have pos: "0 < pw_seq w" using inv0 w by (auto simp: ledger_inv_def Let_def snapshots_ok_def)
    have ge: "pw_seq w \<le> lg_persisted_seq lg" using ws(1) by (cases rule: write_snapshot_cases) auto
    show ?thesis using inv ge pos ws(2) that by (auto simp: ledger_inv_def Let_def newest_ok_def)
  qed
  then show ?thesis using sh ws(2) by (auto simp: shown_since_def)
qed

text \<open>C2: the receipt of a handoff is durable before it is shown.  When the handoff is published, the
  database held, at a moment before the receipt and the release became visible, a snapshot of the
  daemon's state that contains this receipt, although other threads may persist between the snapshot
  and the write; their snapshots contain it as well, because it stays staged.\<close>

theorem safe_swap_is_durable:
  assumes "ledger_start s0" and "ledger_runs s0 (system_of co W T M)" and "owner_rely E" and "co_stop co = Some s"
    and "\<forall>c. (\<exists>W T M. ledger_runs s0 (system_of c W T M)) \<longrightarrow>
          (\<exists>W T M. ledger_runs s0 (system_of (fe_between E ''manifest'' c) W T M))"
    and "\<forall>c. staged_rely s0 c (fe_between E ''receipt'' c)"
    and "publish_safe_swap E co = (Inr (), co')"
  shows "\<exists>w c v. co_swap co = Some w \<and> shows_receipt (swap_document (fe_now E) w) v \<and>
    holds_snapshot (quarantine s0) v (co_store c) \<and> co' = show_receipt E w (fe_between E ''show'' c)"
  using assms(3,4,7)
proof (cases rule: publish_cases)
  case (shown w c1 c2)
  let ?doc = "swap_document (fe_now E) w"
  obtain W1 T1 M1 where "ledger_runs s0 (system_of (fe_between E ''manifest'' co) W1 T1 M1)" using assms(2,5) by blast
  then have run: "ledger_runs s0 (system_of c1 W1 T1 M1)"
    by (simp add: shown(6) system_of_def next_capture_revision_def)
  have st: "co_swap_staged c1 = Some ?doc" by (simp add: shown(6) next_capture_revision_def)
  obtain v c where snap: "local_state_write c1 = (v, c)"
    and wr: "write_state (fe_now E) (fe_fault E ''receipt'') v (fe_between E ''receipt'' c) = (Inr (), c2)"
    using shown(7) by (auto simp: persist_at_def split: prod.splits)
  note n = staged_snapshot_first [OF assms(1) run snap st]
  have stc: "co_swap_staged c = Some ?doc" by (rule staged_snapshot(2) [OF snap st])
  have rely: "staged_rely s0 c (fe_between E ''receipt'' c)" using assms(6) by blast
  obtain W2 T2 M2 where m: "ledger_runs s0 (system_of (fe_between E ''receipt'' c) W2 T2 M2)" "v \<in> W2" "shown_since v ?doc T2"
    using rely n stc unfolding staged_rely_def by (metis insertI1)
  show ?thesis
    using staged_write_stored [OF assms(1) m(1,2,3) wr] shown(2,8) by blast
qed simp_all

section \<open>Witnesses\<close>

definition ex_stopping :: coordinator where
  "ex_stopping = ex_recording\<lparr>co_stop := Some (stop_scope ex_stop), co_worker := Some 0, co_workers := 1,
     co_reason := JStr ''requested''\<rparr>"

definition ex_intent :: jobject where
  "ex_intent = [(''session_id'', JStr ''0190a000-0000-7000-8000-000000000001''),
     (''volume_id'', JStr ''00000000-0000-4000-8000-000000000001''),
     (''generation_id'', JStr ''00000000-0000-4000-8000-000000000002''),
     (''manifest_id'', JStr ''0190a000-0000-7000-8000-000000000002''),
     (''manifest_sha256'', JStr (replicate 64 CHR ''a'')), (''sealed_at'', JStr ex_now)]"

definition ex_handoff :: coordinator where
  "ex_handoff = ex_stopping\<lparr>co_active := None, co_swap := Some ex_intent\<rparr>"

lemma ex_receipt_valid: "validate_safe_swap_v3_receipt ex_formats (swap_receipt ex_now ex_intent) = Inr ()"
  unfolding ex_formats_def ex_intent_def ex_now_def by code_simp

lemma ex_owner: "owner_rely ex_finish"
  by (simp add: owner_rely_def stop_rely_refl)

lemma ex_ledger:
  "co_ledger ex_stopping = new_ledger" "co_store ex_stopping = ex_store"
  "co_ledger ex_handoff = new_ledger" "co_store ex_handoff = ex_store"
  by (simp_all add: ex_handoff_def ex_stopping_def ex_recording_def ex_coordinator_def)

text \<open>Sealing the sample recording succeeds.\<close>

lemma ex_ended:
  "end_recording ex_finish ex_stop (stop_scope ex_stop) ex_plan sd False ex_stopping = (a, c) \<Longrightarrow>
     co_store c = ex_store \<and> lg_invalid (co_ledger c) = [] \<and> lg_persisted (co_ledger c) = [] \<and>
     lg_persisted_seq (co_ledger c) = 0 \<and> lg_focus (co_ledger c) = None"
  by (auto simp: end_recording_def for_swap_def stop_reason_def ex_stop_def eq_str_def Let_def next_capture_revision_def ex_stopping_def
      ex_recording_def ex_coordinator_def capture_status_def recording_snapshot_def new_ledger_def)

lemma ex_finished: "\<exists>a co'. finish_stop ex_finish ex_stop (stop_scope ex_stop) ex_plan False ex_stopping = (Inr a, co')"
proof -
  obtain sd where seal: "seal_recording ex_finish ex_plan ex_stopping = (Inr sd, ex_stopping)"
    by (simp add: seal_recording_def still_owned_def ex_finish_def ex_stopping_def ex_recording_def ex_coordinator_def)
  obtain a c where e: "end_recording ex_finish ex_stop (stop_scope ex_stop) ex_plan sd False ex_stopping = (a, c)" by fastforce
  have clean: "co_store c = ex_store" "lg_invalid (co_ledger c) = []" "lg_persisted (co_ledger c) = []"
      "lg_persisted_seq (co_ledger c) = 0" "lg_focus (co_ledger c) = None" using ex_ended [OF e] by simp_all
  obtain c2 where "persist_state ex_now None c = (Inr (), c2)" using persist_of_clean [OF clean, of ex_now] by auto
  moreover have "\<not> for_swap ex_stop" by (simp add: for_swap_def stop_reason_def ex_stop_def eq_str_def)
  ultimately have "\<exists>c3. commit_stop ex_finish ex_stop (stop_scope ex_stop) False a c = (Inr a, c3)"
    by (simp add: commit_stop_def ex_persist_at)
  moreover have "fe_sources ex_finish = None" "co_uncommitted ex_stopping \<noteq> Some ex_plan"
    by (simp_all add: ex_finish_def ex_stopping_def ex_recording_def ex_coordinator_def)
  ultimately have "\<exists>c3. finish_body ex_finish ex_stop (stop_scope ex_stop) ex_plan False ex_stopping = (Inr a, c3)"
    using seal e by (simp add: finish_body_def)
  then show ?thesis by (auto simp: finish_stop_def)
qed

theorem finished_stop_outcome_witness:
  "\<exists>a co'. finish_stop ex_finish ex_stop (stop_scope ex_stop) ex_plan False ex_stopping = (Inr a, co') \<and>
     co_stop co' = None \<and> co_active co' = None \<and> \<not> co_lease co'"
proof -
  obtain a co' where f: "finish_stop ex_finish ex_stop (stop_scope ex_stop) ex_plan False ex_stopping = (Inr a, co')"
    using ex_finished by blast
  have h: "co_stop ex_stopping = Some (stop_scope ex_stop)" "co_active ex_stopping = Some ex_plan" "co_lease ex_stopping"
    by (simp_all add: ex_stopping_def ex_recording_def)
  from finished_stop_outcome [OF ex_owner h f] f show ?thesis by auto
qed

lemma ex_published: "\<exists>co'. publish_safe_swap ex_finish ex_handoff = (Inr (), co')"
proof -
  let ?c = "next_capture_revision (ex_handoff\<lparr>co_swap_staged := Some (swap_document ex_now ex_intent)\<rparr>)"
  have "pending_handoff ex_finish ex_handoff = Inr ex_intent"
    by (simp add: pending_handoff_def ex_handoff_def ex_stopping_def ex_recording_def ex_coordinator_def ex_finish_def)
  moreover have "fe_manifest ex_finish = Inr ()" by (simp add: ex_finish_def)
  moreover have "stage_receipt ex_finish ex_intent ex_handoff = (Inr (), ?c)"
    using ex_receipt_valid by (simp add: stage_receipt_def ex_handoff_def ex_finish_def)
  moreover obtain c2 where "persist_state ex_now None ?c = (Inr (), c2)"
    using persist_of_clean [of ?c ex_now] ex_ledger by (auto simp: next_capture_revision_def new_ledger_def)
  ultimately show ?thesis by (simp add: publish_safe_swap_def ex_persist_at)
qed

theorem safe_swap_is_exclusive_witness:
  "\<exists>co'. publish_safe_swap ex_finish ex_handoff = (Inr (), co') \<and> co_released co' \<and> co_swap co' = None \<and>
     acquire_representation (en_admit ex_env) (en_probe ex_env) co' = (Inl (provider_fault ''volume_releasing'' True), co')"
proof -
  obtain co' where p: "publish_safe_swap ex_finish ex_handoff = (Inr (), co')" using ex_published by blast
  have "co_stop ex_handoff = Some (stop_scope ex_stop)" by (simp add: ex_handoff_def ex_stopping_def)
  from safe_swap_is_exclusive [OF ex_owner this p] p show ?thesis by auto
qed

theorem safe_swap_is_durable_witness:
  "\<exists>co' v. publish_safe_swap ex_finish ex_handoff = (Inr (), co') \<and>
     shows_receipt (swap_document ex_now ex_intent) v \<and> holds_snapshot [] v (co_store co')"
proof -
  obtain co' where p: "publish_safe_swap ex_finish ex_handoff = (Inr (), co')" using ex_published by blast
  have run: "ledger_runs ex_start (system_of ex_handoff {} {} {})"
    by (simp add: ex_start_def system_of_def ex_ledger)
  have stop: "co_stop ex_handoff = Some (stop_scope ex_stop)" by (simp add: ex_handoff_def ex_stopping_def)
  have q: "quarantine ex_start = []" by (simp add: quarantine_def ex_start_def new_ledger_def)
  have alone: "\<forall>c. (\<exists>W T M. ledger_runs ex_start (system_of c W T M)) \<longrightarrow>
      (\<exists>W T M. ledger_runs ex_start (system_of (fe_between ex_finish ''manifest'' c) W T M))"
    by simp
  have staged: "\<forall>c. staged_rely ex_start c (fe_between ex_finish ''receipt'' c)"
    by (auto simp: staged_rely_def)
  obtain w c v where "co_swap ex_handoff = Some w" "shows_receipt (swap_document (fe_now ex_finish) w) v"
      "holds_snapshot (quarantine ex_start) v (co_store c)" "co' = show_receipt ex_finish w (fe_between ex_finish ''show'' c)"
    using safe_swap_is_durable [OF ex_start_ok run ex_owner stop alone staged p] by blast
  moreover have "w = ex_intent" using calculation(1) by (simp add: ex_handoff_def)
  moreover have "fe_now ex_finish = ex_now" by (simp add: ex_finish_def)
  moreover have "co_store co' = co_store c" using calculation(4) by (simp add: show_receipt_def next_capture_revision_def)
  ultimately show ?thesis using p q by auto
qed

end
