(* ===== verification/CaptureWaitProps.thy ===== *)
theory CaptureWaitProps
  imports CaptureWaits CaptureFinishProps
begin

text \<open>
  The waiting callers: a waiter stops only the recording it found, and is served as soon as nobody
  else stops; a deletion is answered once and runs only on a quiet device; the storage monitor stops
  a recording exactly when a start would be refused, on the budgets of every layer below the volume.
\<close>

section \<open>The waiting stop\<close>

lemma stop_turn_sleeps:
  assumes "stop_turn W cmd expected requested co = (Inr Sleep, co')"
  shows "stop_busy co \<and> co' = co"
proof -
  have t: "fst (take_stop W cmd co) \<noteq> Inr Sleep"
    by (auto simp: take_stop_def remember_settled_def andS_def tryS_def split: sum.split prod.split option.split)
  have r: "fst (remember_settled n f cmd a co) \<noteq> Inr Sleep" for n f a
    by (auto simp: remember_settled_def andS_def split: sum.split prod.split)
  show ?thesis
    using assms t r
    by (auto simp: stop_turn_def tryS_def split: if_split_asm sum.split_asm option.split_asm dest: arg_cong [of _ _ fst])
qed

lemma stop_turn_finishes:
  assumes "device_step (wa_admit W)" and "stop_turn W cmd expected requested co = (Inr (Finish p), co')"
  shows "requested = Some p \<and> (expected = None \<or> expected = Some (pl_session p)) \<and> \<not> stop_busy co \<and>
    co_active co = Some p \<and> co_active co' = Some p \<and> co_stop co' = Some (stop_scope cmd)"
proof -
  have r: "remember_settled n f cmd a c \<noteq> (Inr (Finish p), co')" for n f a c
    by (auto simp: remember_settled_def andS_def split: sum.split prod.split)
  have m: "take_stop W cmd co = (Inr (Finish p), co')" and g: "\<not> stop_busy co"
    "co_active co = None \<or> co_active co = requested" "expected = None \<or> map_option pl_session (co_active co) = expected"
    using assms(2) r by (auto simp: stop_turn_def tryS_def split: if_split_asm sum.split_asm option.split_asm)
  obtain x c where a: "as_provider True (case co_admission co of Some a \<Rightarrow> (Inr a, co) | None \<Rightarrow> wa_admit W co) = (x, c)"
    by fastforce
  have act: "co_active c = co_active co"
    using as_provider_rel [OF a] device_stepD [OF assms(1)] by (auto split: option.splits)
  have "co_active c = Some p \<and> co' = claim_stop cmd c"
    using m r unfolding take_stop_def a
    by (auto simp: tryS_def claim_stop_def split: sum.split_asm option.split_asm if_split_asm)
  then show ?thesis using g act by (auto simp: claim_stop_def)
qed

lemma stop_turns_finish:
  assumes "device_step (wa_admit W)"
    and "stop_turns (stop_turn W cmd expected requested) fs co = Some (Inr (Finish p), co')"
  shows "requested = Some p \<and> (expected = None \<or> expected = Some (pl_session p)) \<and>
    co_active co' = Some p \<and> co_stop co' = Some (stop_scope cmd) \<and>
    (\<exists>c. \<not> stop_busy c \<and> co_active c = Some p \<and> stop_turn W cmd expected requested c = (Inr (Finish p), co'))"
  using assms(2)
proof (induction fs arbitrary: co)
  case Nil
  then have "stop_turn W cmd expected requested co = (Inr (Finish p), co')"
    by (auto split: prod.splits sum.splits turn.splits)
  then show ?case using stop_turn_finishes [OF assms(1)] by blast
next
  case (Cons f fs)
  obtain x c where m: "stop_turn W cmd expected requested co = (x, c)" by fastforce
  show ?case
  proof (cases "x = Inr Sleep")
    case True
    then have "stop_turns (stop_turn W cmd expected requested) fs (f c) = Some (Inr (Finish p), co')"
      using Cons.prems m by simp
    then show ?thesis by (rule Cons.IH)
  next
    case False
    then have "stop_turn W cmd expected requested co = (Inr (Finish p), co')"
      using Cons.prems m by (auto split: sum.splits turn.splits)
    then show ?thesis using stop_turn_finishes [OF assms(1)] by blast
  qed
qed

text \<open>The recording \<open>stop_capture\<close> goes on to stop, if it comes to that: the plan its waiting loop ends with.\<close>

definition stops_take ::
  "wait_env \<Rightarrow> finish_env \<Rightarrow> capture_command \<Rightarrow> string option \<Rightarrow> (coordinator \<Rightarrow> coordinator) list
     \<Rightarrow> (coordinator \<Rightarrow> coordinator) list \<Rightarrow> coordinator \<Rightarrow> (plan \<times> coordinator) option" where
  "stops_take W E cmd expected gs fs co =
     (case before_stop E cmd expected gs co of
        Some (Inr c) \<Rightarrow>
          (case stop_turns (stop_turn W cmd expected (co_active c)) fs c of
             Some (Inr (Finish p), co') \<Rightarrow> Some (p, co')
           | _ \<Rightarrow> None)
      | _ \<Rightarrow> None)"

text \<open>C14: A waiting stop only ever stops one recording.  When \<open>stop_capture\<close> goes on to stop a recording \<open>p\<close>, then
  \<open>p\<close> was active when it first looked: at the call, when it names an expected session (the timer, the storage
  monitor and the button), and otherwise after the pending receipt of an earlier stop, if there was one, had
  been committed, which it may have waited for.  However long it then slept and whatever the other threads did, \<open>p\<close> is still the
  active recording, it is the expected session if one was named, nobody was stopping when it woke, the stop slot is the
  waiter's, and what \<open>stop_capture\<close> returns is the stop of \<open>p\<close>.\<close>

theorem waiter_stops_its_own_take:
  assumes "device_step (wa_admit W)" and "stops_take W E cmd expected gs fs co = Some (p, co')"
  shows "stop_capture W E cmd expected gs fs co = Some (finish_stop E cmd (stop_scope cmd) p True (fe_between E ''claimed'' co')) \<and>
    (\<exists>first. before_stop E cmd expected gs co = Some (Inr first) \<and> co_active first = Some p \<and>
       (expected \<noteq> None \<longrightarrow> first = co) \<and>
       (\<exists>c. \<not> stop_busy c \<and> co_active c = Some p \<and> stop_turn W cmd expected (Some p) c = (Inr (Finish p), co'))) \<and>
    (expected = None \<or> expected = Some (pl_session p)) \<and> co_active co' = Some p \<and> co_stop co' = Some (stop_scope cmd)"
proof -
  obtain c where c: "before_stop E cmd expected gs co = Some (Inr c)"
    "stop_turns (stop_turn W cmd expected (co_active c)) fs c = Some (Inr (Finish p), co')"
    using assms(2) by (auto simp: stops_take_def split: option.splits sum.splits prod.splits turn.splits)
  have "expected \<noteq> None \<longrightarrow> c = co" using c(1) by (auto simp: before_stop_def)
  moreover have "stop_capture W E cmd expected gs fs co = Some (finish_stop E cmd (stop_scope cmd) p True (fe_between E ''claimed'' co'))"
    using c by (simp add: stop_capture_def stop_now_def run_stop_def)
  ultimately show ?thesis using c stop_turns_finish [OF assms(1) c(2)] by metis
qed

text \<open>C15: a waiting stop is served: as soon as it wakes in a state in which nobody stops, accepts a stop
  or handles a failure, its turn ends with an answer, an error or the stop slot; it never sleeps on.
  (Its own turns change nothing while it sleeps, so the states it wakes in are those the others
  left.)\<close>

theorem waiter_is_served:
  assumes "n \<le> length fs" and "\<not> stop_busy (fold (\<lambda>f. f) (take n fs) co)"
  shows "\<exists>m. stop_turns (stop_turn W cmd expected requested) fs co = Some m \<and> fst m \<noteq> Inr Sleep"
  using assms
proof (induction fs arbitrary: n co)
  case Nil
  obtain x c where m: "stop_turn W cmd expected requested co = (x, c)" by fastforce
  have "x \<noteq> Inr Sleep" using stop_turn_sleeps [of W cmd expected requested co] Nil m by auto
  then show ?case using m by (auto split: sum.split turn.split)
next
  case (Cons f fs)
  obtain x c where m: "stop_turn W cmd expected requested co = (x, c)" by fastforce
  show ?case
  proof (cases "x = Inr Sleep")
    case True
    then have s: "stop_busy co" "c = co" using stop_turn_sleeps [of W cmd expected requested co c] m by auto
    then obtain k where "n = Suc k" using Cons.prems(2) by (cases n) auto
    then show ?thesis using Cons.IH [of k "f co"] Cons.prems m True s(2) by simp
  next
    case False
    then show ?thesis using m by (auto split: sum.split turn.split)
  qed
qed

section \<open>Deletions\<close>

definition remove_recordings ::
  "(coordinator \<Rightarrow> admission res \<times> coordinator) \<Rightarrow> mount_probe \<Rightarrow> bool \<Rightarrow> bool \<Rightarrow> (jobject \<Rightarrow> (json \<times> string list) res) \<Rightarrow>
     jobject \<Rightarrow> coordinator \<Rightarrow> answer res \<times> coordinator" where
  "remove_recordings admit probe verifying catalog_busy remove b co0 =
     andS (deletion_admitted admit probe verifying catalog_busy co0) (\<lambda>co1.
       tryS (remove b) co1 (\<lambda>(doc, gone). (Inr (plain_answer 200 doc), forget_outcomes gone co1)))"

lemma delete_sessions_eq:
  "delete_sessions admit probe verifying catalog_busy remove cmd now fault co =
     (if \<not> valid_delete_request (JObj (cc_body cmd)) then (Inl (provider_fault ''invalid_request'' False), co)
      else idempotent ''delete'' cmd (remove_recordings admit probe verifying catalog_busy remove (cc_body cmd)) now fault co)"
  unfolding delete_sessions_def remove_recordings_def by simp

lemma forget_outcomes_same:
  "co_ledger (forget_outcomes gone co) = co_ledger co" "co_store (forget_outcomes gone co) = co_store co"
  by (auto simp: forget_outcomes_def Let_def next_capture_revision_def split: json.split)

lemma forgotten_outcomes:
  assumes "s \<in> set gone"
  shows "s \<notin> fst ` set (co_retained (forget_outcomes gone co))"
proof (cases "filter (\<lambda>s. s \<in> set gone) (map fst (co_retained co)) = []")
  case True
  then have "s \<notin> set (map fst (co_retained co))" using assms by (simp add: filter_empty_conv) blast
  then show ?thesis using True by (simp add: forget_outcomes_def)
next
  case False
  have "co_retained (forget_outcomes gone co) =
      filter (\<lambda>(s, v). s \<notin> set (filter (\<lambda>s. s \<in> set gone) (map fst (co_retained co)))) (co_retained co)"
    unfolding forget_outcomes_def Let_def if_not_P [OF False]
    by (simp add: next_capture_revision_def split: json.split)
  then show ?thesis using assms by (auto simp: rev_image_eqI)
qed

lemma deletion_admitted_quiet:
  assumes "co_admission co = Some adm" and "deletion_admitted admit probe verifying catalog_busy co = (r, co1)"
  shows "ledger_quiet s0 co co1 \<and>
    (r = Inr () \<longrightarrow> co_active co = None \<and> co_stop co = None \<and> \<not> co_released co \<and> co_swap co = None \<and> co_open co = 0 \<and>
       \<not> verifying \<and> \<not> catalog_busy \<and> mp_mounted probe = Some True)"
proof -
  obtain x c where m: "as_provider False (check_generation admit probe None True co) = (x, c)" by fastforce
  obtain x1 where g: "check_generation admit probe None True co = (x1, c)" using as_provider_rel [OF m] by blast
  have q: "ledger_quiet s0 co c" by (rule check_generation_quiet [rotated, OF g]) (simp add: assms(1))
  have mounted: "mp_mounted probe = Some True" if "x = Inr ()"
  proof -
    have "x1 = Inr ()" using m that unfolding g by (cases x1) (auto simp: as_provider_def split: if_splits)
    then show ?thesis using g assms(1) by (auto simp: check_generation_def split: if_splits option.splits)
  qed
  show ?thesis
    using assms(2) q mounted unfolding deletion_admitted_def m
    by (cases x) (auto simp: ledger_quiet_refl simp del: not_None_eq split: if_split_asm)
qed

lemma remove_recordings_cases:
  assumes "co_admission co = Some adm" and "remove_recordings admit probe verifying catalog_busy remove b co = (r, co1)"
  shows "ledger_quiet s0 co co1 \<and>
    (\<forall>a. r = Inr a \<longrightarrow> co_active co = None \<and> co_stop co = None \<and> \<not> co_released co \<and> co_swap co = None \<and> co_open co = 0 \<and>
       \<not> verifying \<and> \<not> catalog_busy \<and> mp_mounted probe = Some True \<and>
       (\<exists>doc gone. remove b = Inr (doc, gone) \<and> a = plain_answer 200 doc \<and>
          (\<forall>s. s \<in> set gone \<longrightarrow> s \<notin> fst ` set (co_retained co1))))"
proof -
  obtain x c where m: "deletion_admitted admit probe verifying catalog_busy co = (x, c)" by fastforce
  note d = deletion_admitted_quiet [OF assms(1) m, of s0]
  show ?thesis
  proof (cases x)
    case (Inl e)
    then show ?thesis using assms(2) d unfolding remove_recordings_def m by auto
  next
    case (Inr u)
    show ?thesis
    proof (cases "remove b")
      case (Inl e)
      then show ?thesis using assms(2) d Inr unfolding remove_recordings_def m by auto
    next
      case rem: (Inr z)
      obtain doc gone where z: "z = (doc, gone)" by fastforce
      have e: "r = Inr (plain_answer 200 doc)" "co1 = forget_outcomes gone c"
        using assms(2) Inr rem z unfolding remove_recordings_def m by simp_all
      have "ledger_quiet s0 co co1"
        unfolding e(2) using d ledger_quiet_trans [OF _ ledger_quiet_same] forget_outcomes_same by metis
      then show ?thesis using d Inr rem z e forgotten_outcomes [of _ gone c] by simp
    qed
  qed
qed

text \<open>C13: deletions.  An answered deletion is durable and never removes anything twice: its receipt is in
  the database and every repetition, whatever the volume and the clock then do, gets the same answer
  and changes nothing.  And what answered it without being a replay ran on a quiet device: nothing was
  recorded, stopped, handed over, read or verified, the volume was there, and the retained outcomes of
  the removed recordings are gone.  The volume is admitted already.\<close>

theorem deletion_is_exactly_once:
  assumes "ledger_start s0" and "ledger_runs s0 (system_of co W T M)"
    and "proper_scope (command_scope ''delete'' cmd)" and "co_admission co = Some adm"
    and "delete_sessions admit probe verifying catalog_busy remove cmd now fault co = (Inr a, co')"
  shows "(\<exists>r. ct_canonical r = cc_canonical cmd \<and> replayed (ct_answer r) = replayed a \<and>
            map_of (cs_rows (co_store co')) (command_scope ''delete'' cmd) = Some (printed (command_scope ''delete'' cmd) r)) \<and>
    delete_sessions admit' probe' verifying' busy' remove' cmd now' fault' co' = (Inr (replayed a), co') \<and>
    (\<not> an_replayed a \<longrightarrow>
       co_active co = None \<and> co_stop co = None \<and> \<not> co_released co \<and> co_swap co = None \<and> co_open co = 0 \<and>
       \<not> verifying \<and> \<not> catalog_busy \<and> mp_mounted probe = Some True \<and>
       (\<exists>doc gone. remove (cc_body cmd) = Inr (doc, gone) \<and> a = plain_answer 200 doc \<and>
          (\<forall>s. s \<in> set gone \<longrightarrow> s \<notin> fst ` set (co_retained co'))))"
proof -
  let ?s = "command_scope ''delete'' cmd" and ?x = "remove_recordings admit probe verifying catalog_busy remove (cc_body cmd)"
  have valid: "valid_delete_request (JObj (cc_body cmd))" and run: "idempotent ''delete'' cmd ?x now fault co = (Inr a, co')"
    using assms(5) unfolding delete_sessions_eq by (auto split: if_splits)
  have keeps: "keeps_ledger s0 ?s ?x co W T M"
    unfolding keeps_ledger_def
  proof (intro allI impI)
    fix r co1
    assume "?x co = (r, co1)"
    then have "ledger_quiet s0 co co1" using remove_recordings_cases [OF assms(4)] by blast
    then show "lg_commands (co_ledger co1) = lg_commands (co_ledger co) \<and>
        map fst (lg_invalid (co_ledger co1)) = map fst (lg_invalid (co_ledger co)) \<and>
        (\<exists>W' T' M'. ledger_runs s0 (system_of co1 W' T' M'))"
      using assms(2) unfolding ledger_quiet_def by metis
  qed
  note replay = acknowledged_command_replays [OF assms(1-3) keeps run]
  have quiet: "co_active co = None \<and> co_stop co = None \<and> \<not> co_released co \<and> co_swap co = None \<and> co_open co = 0 \<and>
       \<not> verifying \<and> \<not> catalog_busy \<and> mp_mounted probe = Some True \<and>
       (\<exists>doc gone. remove (cc_body cmd) = Inr (doc, gone) \<and> a = plain_answer 200 doc \<and>
          (\<forall>s. s \<in> set gone \<longrightarrow> s \<notin> fst ` set (co_retained co')))" if fresh: "\<not> an_replayed a"
    using run
  proof (cases rule: idempotent_cases)
    case (executed co1)
    have "co_retained co' = co_retained co1"
      using coreD [OF persist_state_core [OF executed(4)]] by (simp add: remember_answer_def)
    then show ?thesis using remove_recordings_cases [OF assms(4) executed(3), of s0] by simp
  qed (use fresh in \<open>simp_all add: replayed_def\<close>)
  show ?thesis
    using replay quiet valid unfolding delete_sessions_eq by simp
qed

section \<open>What the other threads do to a stop\<close>

lemma stop_turn_rely:
  assumes "stop_busy co" and "stop_turn W cmd expected requested co = (r, co')"
  shows "stop_rely co co'"
proof -
  have settled: "stop_rely co c" if "remember_settled n f cmd a co = (x, c)" for n f a x c
  proof -
    obtain y c' where p: "persist_state n f (remember_answer (stop_scope cmd) (cc_canonical cmd) a co) = (y, c')" by fastforce
    moreover have "c' = c" using that p by (cases y) (simp_all add: remember_settled_def)
    ultimately have "persist_state n f (remember_answer (stop_scope cmd) (cc_canonical cmd) a co) = (y, c)" by simp
    from stop_rely_core [OF persist_state_core [OF this]] show ?thesis
      by (simp add: stop_rely_def remember_answer_def)
  qed
  show ?thesis
    using assms settled
    by (auto simp: stop_turn_def tryS_def stop_rely_refl split: if_split_asm sum.split_asm option.split_asm)
qed

text \<open>C9: What other threads do while a worker owns a stop and its recording or handoff is not over.  Another start, a
  deletion, another stop of the web (its preparation, its replay and the end of its acceptance when it joined), a turn of
  a waiting stop, a failure of the sources, a status, a checkpoint or another persisted state, and a reader that opens
  or closes a representation all leave the owner, the recording, the lease, the handoff and the published release alone, and no reader is
  let in while a handoff is pending or done; a failure is not claimed, and a shutdown waits.\<close>

theorem others_keep_to_the_stop:
  assumes "co_stop co \<noteq> None" and "co_worker co \<noteq> None" and "co_admission co = Some adm"
  shows "(start_capture SE cmd now fault co = (r1, c1) \<longrightarrow> stop_rely co c1) \<and>
    (prepare_stop PE cmd co = (r2, c2) \<longrightarrow> stop_rely co c2) \<and>
    (claim_replay cmd co = (r3, c3) \<longrightarrow> stop_rely co c3) \<and>
    (claim_failure device now f p False co = (r4, c4) \<longrightarrow> r4 = None \<and> stop_rely co c4) \<and>
    (capture_status V co = (r5, c5) \<longrightarrow> stop_rely co c5) \<and>
    (report_states p cps co = (r6, c6) \<longrightarrow> stop_rely co c6) \<and>
    (persist_state now fault co = (r7, c7) \<longrightarrow> stop_rely co c7) \<and>
    (acquire_representation admit probe co = (r8, c8) \<longrightarrow> stop_rely co c8) \<and>
    (delete_sessions admit probe verifying catalog_busy remove cmd now fault co = (r9, c9) \<longrightarrow> stop_rely co c9) \<and>
    (stop_turn W cmd expected requested co = (r10, c10) \<longrightarrow> stop_rely co c10) \<and>
    (ac_worker ac = None \<and> \<not> ac_handoff ac \<longrightarrow> stop_rely co (accept_stop ac co) \<and> stop_rely co (take_back ac co)) \<and>
    stop_rely co (release_representation co) \<and> close_waits verifying co"
proof (intro conjI impI)
  have st: "stopping co" using assms(1) by (simp add: stopping_def)
  have busy: "stop_busy co" using assms(1) by (simp add: stop_busy_def)
  show "stop_rely co c1" if "start_capture SE cmd now fault co = (r1, c1)"
    using idempotent_refused [OF st that [unfolded start_capture_def]] by (simp add: stop_rely_refl)
  show "stop_rely co c2" if "prepare_stop PE cmd co = (r2, c2)" by (rule prepare_joined_rely [OF assms(2) that])
  show "stop_rely co c3" if "claim_replay cmd co = (r3, c3)"
  proof -
    have "c3 = co" using that busy
      by (cases "require_valid_receipt (stop_scope cmd) co") (auto simp: claim_replay_def Let_def split: if_split_asm)
    then show ?thesis by (simp add: stop_rely_refl)
  qed
  show "r4 = None" if "claim_failure device now f p False co = (r4, c4)"
    using that assms(1) by (auto simp: claim_failure_def Let_def split: if_split_asm)
  show "stop_rely co c4" if "claim_failure device now f p False co = (r4, c4)" using that by (rule claim_failure_rely)
  show "stop_rely co c5" if "capture_status V co = (r5, c5)" by (rule stop_rely_core [OF capture_status_core [OF that]])
  show "stop_rely co c6" if "report_states p cps co = (r6, c6)" by (rule stop_rely_core [OF report_states_core [OF that]])
  show "stop_rely co c7" if "persist_state now fault co = (r7, c7)" by (rule stop_rely_core [OF persist_state_core [OF that]])
  show "stop_rely co c8" if "acquire_representation admit probe co = (r8, c8)" by (rule acquire_rely [OF assms(3) that])
  show "stop_rely co c9" if "delete_sessions admit probe verifying catalog_busy remove cmd now fault co = (r9, c9)"
  proof (cases "valid_delete_request (JObj (cc_body cmd))")
    case True
    then have "idempotent ''delete'' cmd (remove_recordings admit probe verifying catalog_busy remove (cc_body cmd)) now fault co = (r9, c9)"
      using that unfolding delete_sessions_eq by simp
    from idempotent_refused [OF st this] show ?thesis by (simp add: stop_rely_refl)
  next
    case False
    then show ?thesis using that unfolding delete_sessions_eq by (simp add: stop_rely_refl)
  qed
  show "stop_rely co c10" if "stop_turn W cmd expected requested co = (r10, c10)" by (rule stop_turn_rely [OF busy that])
  show "stop_rely co (accept_stop ac co)" "stop_rely co (take_back ac co)" if "ac_worker ac = None \<and> \<not> ac_handoff ac"
    using that by (simp_all add: accept_stop_def take_back_def stop_rely_def)
  show "stop_rely co (release_representation co)" by (simp add: stop_rely_def release_representation_def)
  show "close_waits verifying co" using busy by (simp add: close_waits_def)
qed

section \<open>The storage reserve\<close>

text \<open>The layers below a volume, as a relation: \<open>below look path budgets devices\<close> follows the loop
  files from \<open>path\<close> to the block device at the bottom, and collects the budget of every host file
  system and the devices it passed.\<close>

inductive below :: "(string \<Rightarrow> layer) \<Rightarrow> string \<Rightarrow> (int \<times> int) list \<Rightarrow> (int \<times> int) list \<Rightarrow> bool"
  for look :: "string \<Rightarrow> layer" where
  bottom: "ly_device (look path) = Some dev \<Longrightarrow> ly_node (look path) = Some None \<Longrightarrow> fst dev \<noteq> 7 \<Longrightarrow> below look path [] [dev]"
| disk: "ly_device (look path) = Some dev \<Longrightarrow> ly_node (look path) = Some (Some raw) \<Longrightarrow> removed_newline raw = backing_file \<Longrightarrow>
    backing_file \<noteq> [] \<Longrightarrow> hd backing_file = CHR ''/'' \<Longrightarrow> CHR 0x0A \<notin> set backing_file \<Longrightarrow>
    ly_backing (look path) backing_file = Block \<Longrightarrow> below look path [] [dev]"
| host: "ly_device (look path) = Some dev \<Longrightarrow> ly_node (look path) = Some (Some raw) \<Longrightarrow> removed_newline raw = backing_file \<Longrightarrow>
    backing_file \<noteq> [] \<Longrightarrow> hd backing_file = CHR ''/'' \<Longrightarrow> CHR 0x0A \<notin> set backing_file \<Longrightarrow>
    ly_backing (look path) backing_file = Regular b i \<Longrightarrow> below look backing_file budgets devices \<Longrightarrow>
    below look path ((b, i) # budgets) (dev # devices)"

definition tightest :: "(int \<times> int) option \<Rightarrow> (int \<times> int) list \<Rightarrow> (int \<times> int) option" where
  "tightest acc budgets = foldl (\<lambda>x y. Some (tighter x y)) acc budgets"

lemma below_nonempty: "below look path budgets devices \<Longrightarrow> \<exists>d ds. devices = d # ds \<and> ly_device (look path) = Some d"
  by (induction rule: below.induct) auto

lemma backing_walk_chain:
  assumes "backing_walk look n path seen acc = Inr r"
  shows "\<exists>budgets devices. below look path budgets devices \<and> length devices \<le> n \<and> distinct devices \<and>
    set devices \<inter> set seen = {} \<and> r = tightest acc budgets"
  using assms
proof (induction look n path seen acc rule: backing_walk.induct)
  case (2 look fuel current seen acc)
  obtain dev where dev: "ly_device (look current) = Some dev" "dev \<notin> set seen"
    using 2(2) by (auto simp: Let_def split: option.splits if_splits)
  show ?case
  proof (cases "ly_node (look current)")
    case None
    then show ?thesis using 2(2) dev by (simp add: Let_def)
  next
    case node: (Some v)
    show ?thesis
    proof (cases v)
      case None
      then have "fst dev \<noteq> 7" "r = acc" using 2(2) dev node by (auto simp: Let_def split: if_splits)
      then show ?thesis using below.bottom [of look current dev] node None dev
        by (intro exI [of _ "[]"] exI [of _ "[dev]"]) (simp add: tightest_def)
    next
      case (Some raw)
      let ?p = "removed_newline raw"
      have ok: "?p \<noteq> []" "hd ?p = CHR ''/''" "CHR 0x0A \<notin> set ?p"
        using 2(2) dev node Some by (auto simp: Let_def split: if_splits)
      show ?thesis
      proof (cases "ly_backing (look current) ?p")
        case Block
        then have "r = acc" using 2(2) dev node Some ok by (simp add: Let_def)
        then show ?thesis using below.disk [of look current dev raw ?p] node Some ok Block dev
          by (intro exI [of _ "[]"] exI [of _ "[dev]"]) (simp add: tightest_def)
      next
        case (Regular b i)
        then have w: "backing_walk look fuel ?p (dev # seen) (Some (tighter acc (b, i))) = Inr r"
          using 2(2) dev node Some ok by (simp add: Let_def)
        obtain budgets devices where ih: "below look ?p budgets devices" "length devices \<le> fuel" "distinct devices"
            "set devices \<inter> set (dev # seen) = {}" "r = tightest (Some (tighter acc (b, i))) budgets"
          using "2.IH" [OF refl dev(1) dev(2) node Some refl _ Regular w] ok by blast
        show ?thesis
          using below.host [of look current dev raw ?p b i budgets devices] node Some ok Regular ih dev
          by (intro exI [of _ "(b, i) # budgets"] exI [of _ "dev # devices"]) (simp add: tightest_def)
      qed (use 2(2) dev node Some ok in \<open>simp_all add: Let_def\<close>)
    qed
  qed
qed simp

lemma chain_backing_walk:
  assumes "below look path budgets devices"
  shows "length devices \<le> n \<Longrightarrow> distinct devices \<Longrightarrow> set devices \<inter> set seen = {} \<Longrightarrow>
    backing_walk look n path seen acc = Inr (tightest acc budgets)"
  using assms
proof (induction arbitrary: n seen acc rule: below.induct)
  case (bottom path dev)
  then show ?case by (cases n) (simp_all add: Let_def tightest_def)
next
  case (disk path dev raw backing_file)
  then show ?case by (cases n) (simp_all add: Let_def tightest_def)
next
  case (host path dev raw backing_file b i budgets devices)
  then obtain k where n: "n = Suc k" by (cases n) auto
  have "backing_walk look k backing_file (dev # seen) (Some (tighter acc (b, i))) = Inr (tightest (Some (tighter acc (b, i))) budgets)"
    using host.prems n by (intro host.IH) auto
  then show ?case using host n by (simp add: Let_def tightest_def)
qed

lemma tightest_ok:
  "(case tightest (Some a) budgets of None \<Rightarrow> True | Some c \<Rightarrow> x \<le> fst c \<and> y \<le> snd c) \<longleftrightarrow>
     x \<le> fst a \<and> y \<le> snd a \<and> (\<forall>(b, i) \<in> set budgets. x \<le> b \<and> y \<le> i)"
  by (induction budgets arbitrary: a) (auto simp: tightest_def tighter_def)

lemma tightest_none_ok:
  "(case tightest None budgets of None \<Rightarrow> True | Some c \<Rightarrow> x \<le> fst c \<and> y \<le> snd c) \<longleftrightarrow>
     (\<forall>(b, i) \<in> set budgets. x \<le> b \<and> y \<le> i)"
proof (cases budgets)
  case (Cons a l)
  then show ?thesis using tightest_ok [where a = a and budgets = l and x = x and y = y] by (auto simp: tightest_def tighter_def)
qed (simp add: tightest_def)

text \<open>C16: the reserve counts every layer.  A volume may record exactly when it has the reserve itself
  and the walk below it ends within eight distinct devices at a block device, and every host file
  system it passed has the reserve too; the monitor of a running recording decides the same, so it
  stops a recording exactly when a start would now be refused.\<close>

theorem reserve_covers_every_layer:
  "(require_capture_reserve look mountpoint least_bytes least_inodes free = Inr ()) =
     (\<exists>budgets devices. below look mountpoint budgets devices \<and> length devices \<le> 8 \<and> distinct devices \<and>
        list_all (\<lambda>(b, i). least_bytes \<le> b \<and> least_inodes \<le> i) (free # budgets)) \<and>
   (reserve_reason least_bytes least_inodes free (backing_capacity look mountpoint) = None) =
     (require_capture_reserve look mountpoint least_bytes least_inodes free = Inr ())"
proof
  let ?ok = "\<lambda>h. case h of None \<Rightarrow> True | Some c \<Rightarrow> least_bytes \<le> fst c \<and> least_inodes \<le> snd c"
  have req: "(require_capture_reserve look mountpoint least_bytes least_inodes free = Inr ()) =
      (\<exists>h. backing_capacity look mountpoint = Inr h \<and> ?ok h \<and> least_bytes \<le> fst free \<and> least_inodes \<le> snd free)"
    by (cases "backing_capacity look mountpoint")
      (auto simp: require_capture_reserve_def require_backing_reserve_def bindE_def guardE_def split: option.split)
  have walk: "(backing_capacity look mountpoint = Inr h) =
      (\<exists>budgets devices. below look mountpoint budgets devices \<and> length devices \<le> 8 \<and> distinct devices \<and> h = tightest None budgets)" for h
    unfolding backing_capacity_def using backing_walk_chain [of look 8 mountpoint "[]" None h] chain_backing_walk [of look mountpoint _ _ 8 "[]" None]
    by auto
  show "(require_capture_reserve look mountpoint least_bytes least_inodes free = Inr ()) =
     (\<exists>budgets devices. below look mountpoint budgets devices \<and> length devices \<le> 8 \<and> distinct devices \<and>
        list_all (\<lambda>(b, i). least_bytes \<le> b \<and> least_inodes \<le> i) (free # budgets))"
    unfolding list_all_iff
  proof
    assume "require_capture_reserve look mountpoint least_bytes least_inodes free = Inr ()"
    then obtain budgets devices where b: "below look mountpoint budgets devices" "length devices \<le> 8" "distinct devices"
        "?ok (tightest None budgets)" "least_bytes \<le> fst free" "least_inodes \<le> snd free"
      unfolding req walk by blast
    have "\<forall>(b, i) \<in> set (free # budgets). least_bytes \<le> b \<and> least_inodes \<le> i"
      using b(4-6) tightest_none_ok [where x = least_bytes and y = least_inodes and budgets = budgets] by (simp add: case_prod_unfold)
    then show "\<exists>budgets devices. below look mountpoint budgets devices \<and> length devices \<le> 8 \<and> distinct devices \<and>
        (\<forall>(b, i) \<in> set (free # budgets). least_bytes \<le> b \<and> least_inodes \<le> i)"
      using b(1-3) by blast
  next
    assume "\<exists>budgets devices. below look mountpoint budgets devices \<and> length devices \<le> 8 \<and> distinct devices \<and>
        (\<forall>(b, i) \<in> set (free # budgets). least_bytes \<le> b \<and> least_inodes \<le> i)"
    then obtain budgets devices where b: "below look mountpoint budgets devices" "length devices \<le> 8" "distinct devices"
        "\<forall>(b, i) \<in> set (free # budgets). least_bytes \<le> b \<and> least_inodes \<le> i" by blast
    have "?ok (tightest None budgets) \<and> least_bytes \<le> fst free \<and> least_inodes \<le> snd free"
      using b(4) tightest_none_ok [where x = least_bytes and y = least_inodes and budgets = budgets] by (simp add: case_prod_unfold)
    then show "require_capture_reserve look mountpoint least_bytes least_inodes free = Inr ()"
      unfolding req walk using b(1-3) by blast
  qed
  show "(reserve_reason least_bytes least_inodes free (backing_capacity look mountpoint) = None) =
     (require_capture_reserve look mountpoint least_bytes least_inodes free = Inr ())"
    unfolding req reserve_reason_def Let_def
    by (cases "backing_capacity look mountpoint"; cases free) (simp_all add: case_prod_unfold not_less split: option.split)
qed

section \<open>Witnesses\<close>

definition ex_waiter :: wait_env where
  "ex_waiter = \<lparr>wa_admit = (\<lambda>c. (Inr ex_adm, c)), wa_lease = Inr (), wa_now = ''t1'', wa_fault = None\<rparr>"

text \<open>While the waiter sleeps the acceptance of another stop is withdrawn.\<close>

definition ex_busy :: coordinator where
  "ex_busy = ex_recording\<lparr>co_acceptance := Some (''other'', ''stop'', ''k'')\<rparr>"

definition ex_withdrawn :: "coordinator \<Rightarrow> coordinator" where
  "ex_withdrawn co = co\<lparr>co_acceptance := None\<rparr>"

lemma ex_waiter_step: "device_step (wa_admit ex_waiter)"
  by (simp add: device_step_def ex_waiter_def)

lemmas ex_wait_simps = ex_waiter_def ex_busy_def ex_withdrawn_def ex_recording_def ex_coordinator_def ex_stop_def ex_plan_def
  stop_turn_def take_stop_def claim_stop_def stop_busy_def require_valid_receipt_def new_ledger_def as_provider_def
  for_swap_def stop_reason_def stop_scope_def command_scope_def

lemma ex_waits:
  "stop_turns (stop_turn ex_waiter ex_stop (Some ''sid'') (Some ex_plan)) [ex_withdrawn] ex_busy =
     Some (Inr (Finish ex_plan), claim_stop ex_stop (ex_withdrawn ex_busy))"
  by (simp add: ex_wait_simps)

theorem waiter_stops_its_own_take_witness:
  "stop_capture ex_waiter ex_finish ex_stop (Some ''sid'') [] [ex_withdrawn] ex_busy =
     Some (finish_stop ex_finish ex_stop (stop_scope ex_stop) ex_plan True
       (fe_between ex_finish ''claimed'' (claim_stop ex_stop (ex_withdrawn ex_busy)))) \<and> pl_session ex_plan = ''sid''"
proof -
  have active: "co_active ex_busy = Some ex_plan" by (simp add: ex_busy_def ex_recording_def)
  have "stops_take ex_waiter ex_finish ex_stop (Some ''sid'') [] [ex_withdrawn] ex_busy =
      Some (ex_plan, claim_stop ex_stop (ex_withdrawn ex_busy))"
    using ex_waits by (simp add: stops_take_def before_stop_def active)
  from waiter_stops_its_own_take [OF ex_waiter_step this] show ?thesis by auto
qed

theorem waiter_is_served_witness:
  "\<exists>m. stop_turns (stop_turn ex_waiter ex_stop None (Some ex_plan)) [ex_withdrawn] ex_busy = Some m \<and> fst m \<noteq> Inr Sleep"
  by (rule waiter_is_served [of 1]) (simp_all add: ex_wait_simps)

theorem others_keep_to_the_stop_witness:
  "stop_rely ex_stopping (snd (start_capture ex_env ex_command ''t2'' None ex_stopping)) \<and>
   stop_rely ex_stopping (snd (claim_failure (''dev'', ''label'') ''t2'' \<lparr>fl_code = ''media_lost'', fl_message = ''x''\<rparr> ex_plan False ex_stopping)) \<and>
   stop_rely ex_stopping (snd (acquire_representation (en_admit ex_env) (en_probe ex_env) ex_stopping))"
proof -
  have h: "co_stop ex_stopping \<noteq> None" "co_worker ex_stopping \<noteq> None" "co_admission ex_stopping = Some ex_adm"
    by (simp_all add: ex_stopping_def ex_recording_def ex_coordinator_def)
  note o = others_keep_to_the_stop [OF h, where p = ex_plan and now = "''t2''" and fault = None and SE = ex_env and cmd = ex_command
      and device = "(''dev'', ''label'')" and f = "\<lparr>fl_code = ''media_lost'', fl_message = ''x''\<rparr>" and probe = "en_probe ex_env"]
  obtain r1 c1 r4 c4 r8 c8 where "start_capture ex_env ex_command ''t2'' None ex_stopping = (r1, c1)"
      "claim_failure (''dev'', ''label'') ''t2'' \<lparr>fl_code = ''media_lost'', fl_message = ''x''\<rparr> ex_plan False ex_stopping = (r4, c4)"
      "acquire_representation (en_admit ex_env) (en_probe ex_env) ex_stopping = (r8, c8)"
    by (meson surj_pair)
  then show ?thesis using o by auto
qed

definition ex_delete :: capture_command where
  "ex_delete = \<lparr>cc_principal = ''operator'', cc_key = ''key-3'',
     cc_body = [(''schema'', JStr ''ylx.session-delete-request.v1''),
       (''sessions'', JList [JObj [(''session_id'', JStr first_id), (''manifest_sha256'', JStr (replicate 64 CHR ''a''))]])],
     cc_canonical = ''{}''\<rparr>"

definition ex_remove :: "jobject \<Rightarrow> (json \<times> string list) res" where
  "ex_remove b = Inr (JObj [(''deleted_session_ids'', JList [JStr first_id])], [first_id])"

lemma ex_delete_valid: "valid_delete_request (JObj (cc_body ex_delete))"
  by code_simp

lemma ex_deleted:
  "\<exists>co'. delete_sessions (en_admit ex_env) (en_probe ex_env) False False ex_remove ex_delete ''t1'' None ex_coordinator =
     (Inr (plain_answer 200 (JObj [(''deleted_session_ids'', JList [JStr first_id])])), co')"
proof -
  let ?a = "plain_answer 200 (JObj [(''deleted_session_ids'', JList [JStr first_id])])"
  let ?c = "remember_answer (command_scope ''delete'' ex_delete) (cc_canonical ex_delete) ?a ex_coordinator"
  have x: "remove_recordings (en_admit ex_env) (en_probe ex_env) False False ex_remove (cc_body ex_delete) ex_coordinator = (Inr ?a, ex_coordinator)"
    by (simp add: remove_recordings_def deletion_admitted_def ex_coordinator_def as_provider_def check_generation_def ex_env_def
        ex_remove_def forget_outcomes_def)
  obtain co' where p: "persist_state ''t1'' None ?c = (Inr (), co')"
    using persist_of_clean [of ?c "''t1''"] by (auto simp: remember_answer_def cache_command_def Let_def new_ledger_def ex_coordinator_def)
  have e: "co_ledger ex_coordinator = new_ledger" "co_failing ex_coordinator = None" "co_projection ex_coordinator = None"
      "co_worker ex_coordinator = None" "\<not> co_closing ex_coordinator" "\<not> stopping ex_coordinator"
    by (simp_all add: ex_coordinator_def stopping_def new_ledger_def)
  show ?thesis
    using x p e ex_delete_valid by (simp add: delete_sessions_eq idempotent_def require_valid_receipt_def new_ledger_def Let_def)
qed

theorem deletion_is_exactly_once_witness:
  "\<exists>a co'. delete_sessions (en_admit ex_env) (en_probe ex_env) False False ex_remove ex_delete ''t1'' None ex_coordinator = (Inr a, co') \<and>
     delete_sessions (en_admit ex_env) (en_probe ex_env) True True ex_remove ex_delete ''t2'' (Some OSError) co' = (Inr (replayed a), co') \<and>
     first_id \<notin> fst ` set (co_retained co')"
proof -
  obtain co' where d: "delete_sessions (en_admit ex_env) (en_probe ex_env) False False ex_remove ex_delete ''t1'' None ex_coordinator =
      (Inr (plain_answer 200 (JObj [(''deleted_session_ids'', JList [JStr first_id])])), co')" using ex_deleted by blast
  have run: "ledger_runs ex_start (system_of ex_coordinator {} {} {})" by (simp add: ex_start_def system_of_def ex_coordinator_def)
  have sc: "proper_scope (command_scope ''delete'' ex_delete)" by (simp add: proper_scope_def command_scope_def ex_delete_def)
  have adm: "co_admission ex_coordinator = Some ex_adm" by (simp add: ex_coordinator_def)
  note t = deletion_is_exactly_once [OF ex_start_ok run sc adm d, of "en_admit ex_env" "en_probe ex_env" True True ex_remove "''t2''" "Some OSError"]
  have "first_id \<notin> fst ` set (co_retained co')"
    using t by (auto simp: plain_answer_def ex_remove_def)
  then show ?thesis using d t by blast
qed

end
