(* ===== verification/RecoveryIndex.thy ===== *)
theory RecoveryIndex
  imports Prelude
begin

text \<open>
  \<open>recording/recovery_index.py\<close>: the derived index of a recovery, written block by block with
  checkpoints at complete frames.  Zstandard is a parameter: \<open>compress\<close> makes one complete
  frame of a block, and \<open>decode\<close> is the reader of such a file.  A SHA-256 object is the bytes it was fed;
  \<open>ie_accept\<close> says which of the low-level writes go through.
\<close>

section \<open>The writer\<close>

definition block_bytes :: nat where
  "block_bytes = 1048576"

record index_env =
  ie_compress :: "string \<Rightarrow> string"
  ie_accept :: "nat \<Rightarrow> bool"

record index_writer =
  iw_compressed :: bool
  iw_pending :: string
  iw_size :: nat
  iw_digest :: string
  iw_encoded_size :: nat
  iw_encoded_digest :: string
  iw_output :: string
  iw_writes :: nat

definition new_index :: "bool \<Rightarrow> index_writer" where
  "new_index compressed = \<lparr>iw_compressed = compressed, iw_pending = [], iw_size = 0, iw_digest = [],
     iw_encoded_size = 0, iw_encoded_digest = [], iw_output = [], iw_writes = 0\<rparr>"

text \<open>\<open>_write\<close>.\<close>

definition index_put :: "index_env \<Rightarrow> string \<Rightarrow> index_writer \<Rightarrow> unit res \<times> index_writer" where
  "index_put E payload w =
     (let w1 = w\<lparr>iw_writes := iw_writes w + 1\<rparr> in
      if \<not> ie_accept E (iw_writes w) then (Inl OSError, w1)
      else
        (let w2 = w1\<lparr>iw_output := iw_output w @ payload\<rparr> in
         (Inr (), if iw_compressed w
            then w2\<lparr>iw_encoded_size := iw_encoded_size w + length payload, iw_encoded_digest := iw_encoded_digest w @ payload\<rparr>
            else w2)))"

text \<open>\<open>_flush\<close>.\<close>

definition index_flush :: "index_env \<Rightarrow> index_writer \<Rightarrow> unit res \<times> index_writer" where
  "index_flush E w =
     (if iw_pending w = [] then (Inr (), w)
      else andS (index_put E (ie_compress E (iw_pending w)) w) (\<lambda>w1. (Inr (), w1\<lparr>iw_pending := []\<rparr>)))"

text \<open>The loop of \<open>write\<close>; a turn always makes progress because a full block is flushed at once, so a
  fuel of one more than the payload is enough.\<close>

fun index_fill :: "index_env \<Rightarrow> nat \<Rightarrow> string \<Rightarrow> index_writer \<Rightarrow> unit res \<times> index_writer" where
  "index_fill E 0 payload w = (Inl AssertionError, w)"
| "index_fill E (Suc fuel) payload w =
     (if payload = [] then (Inr (), w)
      else
        (let room = min (block_bytes - length (iw_pending w)) (length payload);
             w1 = w\<lparr>iw_pending := iw_pending w @ take room payload\<rparr> in
         andS (if length (iw_pending w1) = block_bytes then index_flush E w1 else (Inr (), w1))
           (index_fill E fuel (drop room payload))))"

definition index_write :: "index_env \<Rightarrow> string \<Rightarrow> index_writer \<Rightarrow> unit res \<times> index_writer" where
  "index_write E payload w =
     (if \<not> iw_compressed w then index_put E payload w
      else index_fill E (Suc (length payload)) payload
        (w\<lparr>iw_size := iw_size w + length payload, iw_digest := iw_digest w @ payload\<rparr>))"

record index_mark =
  ic_offset :: nat
  ic_size :: nat
  ic_digest :: string
  ic_encoded_size :: nat
  ic_encoded_digest :: string

definition index_checkpoint :: "index_env \<Rightarrow> index_writer \<Rightarrow> index_mark res \<times> index_writer" where
  "index_checkpoint E w =
     andS (index_flush E w) (\<lambda>w1.
       (Inr \<lparr>ic_offset = length (iw_output w1), ic_size = iw_size w1, ic_digest = iw_digest w1,
             ic_encoded_size = iw_encoded_size w1, ic_encoded_digest = iw_encoded_digest w1\<rparr>, w1))"

definition index_rollback :: "index_mark \<Rightarrow> index_writer \<Rightarrow> index_writer" where
  "index_rollback c w =
     w\<lparr>iw_size := ic_size c, iw_encoded_size := ic_encoded_size c, iw_encoded_digest := ic_encoded_digest c,
       iw_output := take (ic_offset c) (iw_output w), iw_pending := [], iw_digest := ic_digest c\<rparr>"

definition index_finish :: "index_env \<Rightarrow> index_writer \<Rightarrow> unit res \<times> index_writer" where
  "index_finish E w =
     (if \<not> iw_compressed w then (Inr (), w)
      else andS (index_flush E w) (\<lambda>w1.
        if iw_size w1 = 0 then index_put E (ie_compress E []) w1 else (Inr (), w1)))"

text \<open>\<open>verify\<close>: \<open>readback\<close> is what the temporary file holds when it is read again; the result is the
  storage encoding, its size and digest.\<close>

definition index_verify ::
  "(string \<Rightarrow> string) \<Rightarrow> (string \<Rightarrow> string option) \<Rightarrow> string \<Rightarrow> index_writer \<Rightarrow> (nat \<times> string) option res" where
  "index_verify hash decode readback w =
     (if \<not> iw_compressed w then Inr None
      else if length readback \<noteq> iw_encoded_size w \<or> hash readback \<noteq> hash (iw_encoded_digest w) then Inl ValueError
      else (case decode readback of
          None \<Rightarrow> Inl ValueError
        | Some d \<Rightarrow>
            if length d \<noteq> iw_size w \<or> hash d \<noteq> hash (iw_digest w) then Inl ValueError
            else Inr (Some (iw_size w, hash (iw_digest w)))))"

section \<open>What the writer holds\<close>

text \<open>The bytes written so far, whatever their representation: plainly in the output, or as frames of
  blocks followed by what is pending.\<close>

definition holds :: "index_env \<Rightarrow> index_writer \<Rightarrow> string \<Rightarrow> bool" where
  "holds E w data \<longleftrightarrow>
     (if iw_compressed w then
        (\<exists>blocks. iw_output w = concat (map (ie_compress E) blocks) \<and> data = concat blocks @ iw_pending w \<and>
           list_all (\<lambda>b. b \<noteq> [] \<and> length b \<le> block_bytes) blocks) \<and>
        length (iw_pending w) < block_bytes \<and> iw_size w = length data \<and> iw_digest w = data \<and>
        iw_encoded_size w = length (iw_output w) \<and> iw_encoded_digest w = iw_output w
      else iw_output w = data \<and> iw_pending w = [])"

lemma holds_new: "holds E (new_index compressed) []"
  by (auto simp: holds_def new_index_def block_bytes_def intro!: exI [of _ "[]"])

lemma index_put_Inr:
  assumes "index_put E payload w = (Inr (), w')"
  shows "iw_output w' = iw_output w @ payload" "iw_compressed w' = iw_compressed w" "iw_pending w' = iw_pending w"
    "iw_size w' = iw_size w" "iw_digest w' = iw_digest w"
    "iw_encoded_size w' = (if iw_compressed w then iw_encoded_size w + length payload else iw_encoded_size w)"
    "iw_encoded_digest w' = (if iw_compressed w then iw_encoded_digest w @ payload else iw_encoded_digest w)"
  using assms by (auto simp: index_put_def Let_def split: if_splits)

text \<open>Between the turns of the loop the sizes already count the rest of the payload.\<close>

definition filled :: "index_env \<Rightarrow> string \<Rightarrow> string \<Rightarrow> index_writer \<Rightarrow> bool" where
  "filled E data whole w \<longleftrightarrow>
     iw_compressed w \<and>
     (\<exists>blocks. iw_output w = concat (map (ie_compress E) blocks) \<and> data = concat blocks @ iw_pending w \<and>
        list_all (\<lambda>b. b \<noteq> [] \<and> length b \<le> block_bytes) blocks) \<and>
     iw_size w = length whole \<and> iw_digest w = whole \<and>
     iw_encoded_size w = length (iw_output w) \<and> iw_encoded_digest w = iw_output w"

lemma holds_filled: "iw_compressed w \<Longrightarrow> holds E w data \<longleftrightarrow> filled E data data w \<and> length (iw_pending w) < block_bytes"
  by (auto simp: holds_def filled_def)

lemma index_flush_filled:
  assumes "filled E data whole w" and "length (iw_pending w) \<le> block_bytes" and "index_flush E w = (Inr (), w')"
  shows "filled E data whole w' \<and> iw_pending w' = []"
proof (cases "iw_pending w = []")
  case True
  then show ?thesis using assms by (simp add: index_flush_def)
next
  case False
  obtain w1 where put: "index_put E (ie_compress E (iw_pending w)) w = (Inr (), w1)" and w': "w' = w1\<lparr>iw_pending := []\<rparr>"
    using assms(3) False by (auto simp: index_flush_def andS_Inr)
  obtain blocks where b: "iw_output w = concat (map (ie_compress E) blocks)" "data = concat blocks @ iw_pending w"
      "list_all (\<lambda>b. b \<noteq> [] \<and> length b \<le> block_bytes) blocks"
    using assms(1) by (auto simp: filled_def)
  let ?blocks = "blocks @ [iw_pending w]"
  have "iw_output w' = concat (map (ie_compress E) ?blocks) \<and> data = concat ?blocks @ iw_pending w' \<and>
      list_all (\<lambda>b. b \<noteq> [] \<and> length b \<le> block_bytes) ?blocks"
    using b index_put_Inr [OF put] w' False assms(2) by simp
  then have "\<exists>blocks. iw_output w' = concat (map (ie_compress E) blocks) \<and> data = concat blocks @ iw_pending w' \<and>
      list_all (\<lambda>b. b \<noteq> [] \<and> length b \<le> block_bytes) blocks" by blast
  then show ?thesis
    using assms(1) index_put_Inr [OF put] w' by (simp add: filled_def)
qed

lemma index_fill_filled:
  assumes "filled E data whole w" and "length (iw_pending w) < block_bytes" and "length payload < fuel"
    and "index_fill E fuel payload w = (r, w')"
  shows "(r = Inr () \<longrightarrow> filled E (data @ payload) whole w' \<and> length (iw_pending w') < block_bytes) \<and> r \<noteq> Inl AssertionError"
  using assms
proof (induction fuel arbitrary: data payload w)
  case (Suc fuel)
  show ?case
  proof (cases "payload = []")
    case True
    then show ?thesis using Suc.prems by auto
  next
    case False
    let ?n = "min (block_bytes - length (iw_pending w)) (length payload)"
    let ?w = "w\<lparr>iw_pending := iw_pending w @ take ?n payload\<rparr>"
    have n: "0 < ?n" "length (iw_pending ?w) \<le> block_bytes" using False Suc.prems(2) by auto
    have f: "filled E (data @ take ?n payload) whole ?w" using Suc.prems(1) by (auto simp: filled_def)
    obtain x w1 where m: "(if length (iw_pending ?w) = block_bytes then index_flush E ?w else (Inr (), ?w)) = (x, w1)" by fastforce
    have step: "andS (x, w1) (index_fill E fuel (drop ?n payload)) = (r, w')"
      using Suc.prems(4) False m by (simp add: Let_def)
    show ?thesis
    proof (cases x)
      case (Inl e)
      then have "e = OSError"
        using m by (auto simp: index_flush_def index_put_def Let_def andS_def split: if_splits)
      then show ?thesis using step Inl by auto
    next
      case (Inr u)
      have w1: "filled E (data @ take ?n payload) whole w1 \<and> length (iw_pending w1) < block_bytes"
      proof (cases "length (iw_pending ?w) = block_bytes")
        case True
        then have "index_flush E ?w = (Inr (), w1)" using m Inr unfolding if_P [OF True] by simp
        then have "filled E (data @ take ?n payload) whole w1 \<and> iw_pending w1 = []" by (rule index_flush_filled [OF f n(2)])
        then show ?thesis by (simp add: block_bytes_def)
      next
        case False
        then have "w1 = ?w" using m unfolding if_not_P [OF False] by simp
        then show ?thesis using f n(2) False by simp
      qed
      have "0 < length payload" using False by simp
      then have "length (drop ?n payload) < fuel" using n(1) Suc.prems(3) unfolding length_drop by linarith
      then show ?thesis
        using Suc.IH [of "data @ take ?n payload" w1 "drop ?n payload"] w1 step Inr by simp
    qed
  qed
qed simp

lemma index_write_holds:
  assumes "holds E w data" and "index_write E payload w = (r, w')"
  shows "(r = Inr () \<longrightarrow> holds E w' (data @ payload)) \<and> r \<noteq> Inl AssertionError \<and> (r = Inr () \<longrightarrow> iw_compressed w' = iw_compressed w)"
proof (cases "iw_compressed w")
  case True
  let ?w = "w\<lparr>iw_size := iw_size w + length payload, iw_digest := iw_digest w @ payload\<rparr>"
  have "filled E data (data @ payload) ?w" "length (iw_pending ?w) < block_bytes"
    using assms(1) True by (auto simp: holds_filled filled_def)
  then show ?thesis
    using index_fill_filled [of E data "data @ payload" ?w payload "Suc (length payload)" r w'] assms(2) True
    by (auto simp: index_write_def holds_filled filled_def)
next
  case False
  then have p: "index_put E payload w = (r, w')" using assms(2) by (simp add: index_write_def)
  have "r \<noteq> Inl AssertionError" using p by (auto simp: index_put_def Let_def split: if_splits)
  moreover have "holds E w' (data @ payload) \<and> iw_compressed w' = iw_compressed w" if "r = Inr ()"
  proof -
    have "index_put E payload w = (Inr (), w')" using p that by simp
    from index_put_Inr [OF this] show ?thesis using assms(1) False by (simp add: holds_def)
  qed
  ultimately show ?thesis by blast
qed

lemma index_checkpoint_holds:
  assumes "holds E w data" and "index_checkpoint E w = (Inr c, w')"
  shows "holds E w' data" and "iw_pending w' = []" and "iw_compressed w' = iw_compressed w"
    and "c = \<lparr>ic_offset = length (iw_output w'), ic_size = iw_size w', ic_digest = iw_digest w',
             ic_encoded_size = iw_encoded_size w', ic_encoded_digest = iw_encoded_digest w'\<rparr>"
proof -
  have f: "index_flush E w = (Inr (), w')" and c: "c = \<lparr>ic_offset = length (iw_output w'), ic_size = iw_size w',
      ic_digest = iw_digest w', ic_encoded_size = iw_encoded_size w', ic_encoded_digest = iw_encoded_digest w'\<rparr>"
    using assms(2) by (auto simp: index_checkpoint_def andS_Inr)
  have "holds E w' data \<and> iw_pending w' = [] \<and> iw_compressed w' = iw_compressed w"
  proof (cases "iw_compressed w")
    case True
    then show ?thesis
      using index_flush_filled [OF _ _ f, of data data] assms(1) by (auto simp: holds_filled filled_def block_bytes_def)
  next
    case False
    then have "w' = w" using f assms(1) by (simp add: holds_def index_flush_def)
    then show ?thesis using assms(1) False by (simp add: holds_def)
  qed
  then show "holds E w' data" "iw_pending w' = []" "iw_compressed w' = iw_compressed w" by simp_all
  show "c = \<lparr>ic_offset = length (iw_output w'), ic_size = iw_size w', ic_digest = iw_digest w',
             ic_encoded_size = iw_encoded_size w', ic_encoded_digest = iw_encoded_digest w'\<rparr>" by (rule c)
qed

text \<open>Whatever is written after a checkpoint, rolling back to it restores the bytes held then: the
  output only ever grows.\<close>

definition grown :: "index_writer \<Rightarrow> index_writer \<Rightarrow> bool" where
  "grown w w' \<longleftrightarrow> (\<exists>more. iw_output w' = iw_output w @ more) \<and> iw_compressed w' = iw_compressed w"

lemma grown_refl: "grown w w"
  by (simp add: grown_def)

lemma grown_trans: "grown a b \<Longrightarrow> grown b c \<Longrightarrow> grown a c"
  by (auto simp: grown_def)

lemma index_put_grown: "index_put E payload w = (r, w') \<Longrightarrow> grown w w'"
  by (auto simp: index_put_def Let_def grown_def split: if_splits)

lemma index_flush_grown: "index_flush E w = (r, w') \<Longrightarrow> grown w w'"
proof -
  assume f: "index_flush E w = (r, w')"
  obtain x w1 where m: "index_put E (ie_compress E (iw_pending w)) w = (x, w1)" by fastforce
  have "w' = w \<or> w' = w1 \<or> w' = w1\<lparr>iw_pending := []\<rparr>"
    using f m by (cases x) (auto simp: index_flush_def split: if_splits)
  then show ?thesis using index_put_grown [OF m] by (auto simp: grown_def)
qed

lemma index_fill_grown: "index_fill E fuel payload w = (r, w') \<Longrightarrow> grown w w'"
proof (induction fuel arbitrary: payload w)
  case (Suc fuel)
  let ?n = "min (block_bytes - length (iw_pending w)) (length payload)"
  let ?w = "w\<lparr>iw_pending := iw_pending w @ take ?n payload\<rparr>"
  obtain x w1 where m: "(if length (iw_pending ?w) = block_bytes then index_flush E ?w else (Inr (), ?w)) = (x, w1)" by fastforce
  have g: "grown w w1"
    using m index_flush_grown [of E ?w x w1] by (auto simp: grown_def split: if_splits)
  show ?case
  proof (cases "payload = []")
    case False
    then have "andS (x, w1) (index_fill E fuel (drop ?n payload)) = (r, w')" using Suc.prems m by (simp add: Let_def)
    then show ?thesis using Suc.IH g grown_trans by (cases x) auto
  qed (use Suc.prems in \<open>simp add: grown_refl\<close>)
qed (simp add: grown_refl)

lemma index_write_grown: "index_write E payload w = (r, w') \<Longrightarrow> grown w w'"
  using index_fill_grown [of E "Suc (length payload)" payload "w\<lparr>iw_size := iw_size w + length payload, iw_digest := iw_digest w @ payload\<rparr>" r w']
    index_put_grown [of E payload w r w']
  by (auto simp: index_write_def grown_def split: if_splits)

lemma index_rollback_holds:
  assumes "holds E w data" and "index_checkpoint E w = (Inr c, w1)" and "grown w1 w2"
  shows "holds E (index_rollback c w2) data"
proof -
  note k = index_checkpoint_holds [OF assms(1,2)]
  obtain more where m: "iw_output w2 = iw_output w1 @ more" "iw_compressed w2 = iw_compressed w1"
    using assms(3) by (auto simp: grown_def)
  show ?thesis
    using k(1,2) m unfolding k(4) by (auto simp: holds_def index_rollback_def block_bytes_def)
qed

lemma index_finish_holds:
  assumes "holds E w data" and "index_finish E w = (Inr (), w')"
  shows "(if iw_compressed w
          then \<exists>blocks. iw_output w' = concat (map (ie_compress E) blocks) \<and> blocks \<noteq> [] \<and> data = concat blocks \<and>
                 list_all (\<lambda>b. length b \<le> block_bytes) blocks \<and>
                 iw_size w' = length data \<and> iw_digest w' = data \<and> iw_encoded_size w' = length (iw_output w') \<and>
                 iw_encoded_digest w' = iw_output w'
          else iw_output w' = data) \<and> iw_compressed w' = iw_compressed w"
proof (cases "iw_compressed w")
  case False
  then show ?thesis using assms by (simp add: index_finish_def holds_def)
next
  case True
  obtain w1 where f: "index_flush E w = (Inr (), w1)"
    and n: "(if iw_size w1 = 0 then index_put E (ie_compress E []) w1 else (Inr (), w1)) = (Inr (), w')"
    using assms(2) True by (auto simp: index_finish_def andS_Inr)
  have "filled E data data w1 \<and> iw_pending w1 = []"
    using index_flush_filled [OF _ _ f, of data data] assms(1) True by (auto simp: holds_filled)
  then obtain blocks where b: "iw_output w1 = concat (map (ie_compress E) blocks)" "data = concat blocks"
      "list_all (\<lambda>b. b \<noteq> [] \<and> length b \<le> block_bytes) blocks" "iw_compressed w1" "iw_size w1 = length data" "iw_digest w1 = data"
      "iw_encoded_size w1 = length (iw_output w1)" "iw_encoded_digest w1 = iw_output w1"
    by (auto simp: filled_def)
  show ?thesis
  proof (cases "data = []")
    case True
    then have "blocks = []" using b(2,3) by (cases blocks) auto
    moreover have "index_put E (ie_compress E []) w1 = (Inr (), w')" using n b(5) True by simp
    ultimately show ?thesis
      using b True \<open>iw_compressed w\<close> index_put_Inr [OF \<open>index_put E (ie_compress E []) w1 = (Inr (), w')\<close>]
      by (auto intro!: exI [of _ "[[]]"])
  next
    case False
    then have "iw_size w1 \<noteq> 0" "blocks \<noteq> []" using b(2,5) by auto
    moreover from this have "w' = w1" using n by simp
    ultimately show ?thesis using b \<open>iw_compressed w\<close> by (auto simp: list_all_iff)
  qed
qed

text \<open>The only failure of the writer is a failed write.\<close>

definition refuses :: "index_env \<Rightarrow> bool" where
  "refuses E \<longleftrightarrow> (\<exists>n. \<not> ie_accept E n)"

lemma index_put_raises: "index_put E payload w = (Inl e, w') \<Longrightarrow> e = OSError \<and> refuses E"
  by (auto simp: index_put_def Let_def refuses_def split: if_splits)

lemma index_flush_raises: "index_flush E w = (Inl e, w') \<Longrightarrow> e = OSError \<and> refuses E"
  by (cases "index_put E (ie_compress E (iw_pending w)) w"; cases "fst (index_put E (ie_compress E (iw_pending w)) w)")
    (auto simp: index_flush_def dest: index_put_raises split: if_splits)

lemma index_fill_raises: "index_fill E fuel payload w = (Inl e, w') \<Longrightarrow> e = OSError \<and> refuses E \<or> e = AssertionError"
proof (induction fuel arbitrary: payload w)
  case (Suc fuel)
  let ?n = "min (block_bytes - length (iw_pending w)) (length payload)"
  let ?w = "w\<lparr>iw_pending := iw_pending w @ take ?n payload\<rparr>"
  obtain x w1 where m: "(if length (iw_pending ?w) = block_bytes then index_flush E ?w else (Inr (), ?w)) = (x, w1)" by fastforce
  have x: "x = Inl e' \<Longrightarrow> e' = OSError \<and> refuses E" for e'
    using m index_flush_raises [of E ?w e' w1] by (auto split: if_splits)
  have "payload \<noteq> []" using Suc.prems by auto
  then have "andS (x, w1) (index_fill E fuel (drop ?n payload)) = (Inl e, w')" using Suc.prems m by (simp add: Let_def)
  then show ?case using Suc.IH x by (cases x) auto
qed simp

lemma index_write_raises: "index_write E payload w = (Inl e, w') \<Longrightarrow> e = OSError \<and> refuses E \<or> e = AssertionError"
  by (auto simp: index_write_def simp del: index_fill.simps dest: index_put_raises index_fill_raises split: if_splits)

lemma index_checkpoint_raises: "index_checkpoint E w = (Inl e, w') \<Longrightarrow> e = OSError \<and> refuses E"
  by (cases "index_flush E w"; cases "fst (index_flush E w)") (auto simp: index_checkpoint_def dest: index_flush_raises)

lemma index_finish_raises: "index_finish E w = (Inl e, w') \<Longrightarrow> e = OSError \<and> refuses E"
  by (cases "index_flush E w"; cases "fst (index_flush E w)")
    (auto simp: index_finish_def dest: index_flush_raises index_put_raises split: if_splits)

text \<open>What the code relies on of Zstandard: a file of complete frames decodes to the blocks they were
  made of.\<close>

definition frame_codec :: "(string \<Rightarrow> string) \<Rightarrow> (string \<Rightarrow> string option) \<Rightarrow> bool" where
  "frame_codec compress decode \<longleftrightarrow>
     (\<forall>blocks. blocks \<noteq> [] \<longrightarrow> list_all (\<lambda>b. length b \<le> block_bytes) blocks \<longrightarrow>
        decode (concat (map compress blocks)) = Some (concat blocks))"

definition index_text :: "(string \<Rightarrow> string option) \<Rightarrow> bool \<Rightarrow> string \<Rightarrow> string option" where
  "index_text decode compressed file_bytes = (if compressed then decode file_bytes else Some file_bytes)"

lemma finished_index:
  assumes "frame_codec (ie_compress E) decode" and "holds E w data" and "index_finish E w = (Inr (), w')"
  shows "index_text decode (iw_compressed w) (iw_output w') = Some data"
    and "index_verify hash decode (iw_output w') w' = Inr (if iw_compressed w then Some (length data, hash data) else None)"
  using index_finish_holds [OF assms(2,3)] assms(1)
  by (auto simp: index_text_def index_verify_def frame_codec_def split: if_splits)

end
