(* ===== verification/SessionIdentity.thy ===== *)
theory SessionIdentity
  imports Persistence PyText "HOL-Library.Word"
begin

text \<open>
  Identities of \<open>recording/device_session.py\<close>: the UUIDv7 generator, monotone within the process, and the
  checks of a session plan and of the recorder's configuration.  Python's integers are unbounded, so
  the generator computes on \<open>nat\<close> with the bit operations of the code.  The clock and the two random
  draws of a call are its arguments.
\<close>

unbundle bit_operations_syntax

section \<open>UUID text\<close>

definition hex_char :: "nat \<Rightarrow> char" where
  "hex_char d = (if d < 10 then char_of (48 + d) else char_of (87 + d))"

text \<open>The \<open>n\<close> low hexadecimal digits of a number, most significant first.\<close>

fun hex_text :: "nat \<Rightarrow> nat \<Rightarrow> string" where
  "hex_text 0 v = []"
| "hex_text (Suc n) v = hex_text n (v div 16) @ [hex_char (v mod 16)]"

text \<open>\<open>str(uuid.UUID(int=v))\<close>.\<close>

definition hyphenated :: "string \<Rightarrow> string" where
  "hyphenated h =
     take 8 h @ ''-'' @ take 4 (drop 8 h) @ ''-'' @ take 4 (drop 12 h) @ ''-'' @ take 4 (drop 16 h) @ ''-'' @ drop 20 h"

definition uuid_text :: "nat \<Rightarrow> string" where
  "uuid_text v = hyphenated (hex_text 32 v)"

section \<open>The generator\<close>

record uuid_clock =
  uc_millisecond :: nat
  uc_counter :: nat

definition uuid7_value :: "nat \<Rightarrow> uuid_clock \<Rightarrow> nat" where
  "uuid7_value random_tail c =
     push_bit 80 (uc_millisecond c AND (2 ^ 48 - 1)) OR push_bit 76 7 OR push_bit 64 (uc_counter c) OR push_bit 62 2 OR random_tail"

definition uuid7_tick :: "nat \<Rightarrow> nat \<Rightarrow> uuid_clock \<Rightarrow> uuid_clock" where
  "uuid7_tick time_ns bits c =
     (let current = time_ns div 1000000 in
      if uc_millisecond c < current then \<lparr>uc_millisecond = current, uc_counter = bits\<rparr>
      else
        (let n = (uc_counter c + 1) AND 0xFFF in
         \<lparr>uc_millisecond = (if n = 0 then uc_millisecond c + 1 else uc_millisecond c), uc_counter = n\<rparr>))"

definition uuid7 :: "nat \<Rightarrow> nat \<Rightarrow> nat \<Rightarrow> uuid_clock \<Rightarrow> string \<times> uuid_clock" where
  "uuid7 time_ns bits random_tail c =
     (let c1 = uuid7_tick time_ns bits c in (uuid_text (uuid7_value random_tail c1), c1))"

section \<open>The session plan\<close>

record session_plan =
  sn_session :: string
  sn_volume :: string
  sn_generation :: string
  sn_mode :: string
  sn_name :: string
  sn_take :: string
  sn_sequence :: int
  sn_continues :: "string option"

definition valid_session_plan :: "session_plan \<Rightarrow> bool" where
  "valid_session_plan p \<longleftrightarrow>
     sn_mode p \<in> {''production'', ''calibration''} \<and>
     1 \<le> py_len (sn_name p) \<and> py_len (sn_name p) \<le> 160 \<and> 1 \<le> sn_sequence p \<and>
     uuid_v7 (sn_session p) \<and> uuid_v4 (sn_volume p) \<and> uuid_v4 (sn_generation p) \<and> uuid_v7 (sn_take p) \<and>
     (case sn_continues p of None \<Rightarrow> True | Some s \<Rightarrow> uuid_v7 s) \<and>
     (sn_sequence p = 1 \<longleftrightarrow> sn_continues p = None)"

section \<open>The recorder's configuration\<close>

text \<open>Floating-point parameters are the rationals they denote; \<open>round_half_even\<close> is Python's \<open>round\<close>.
  \<open>dc_encoding\<close> is the group-of-pictures length of the recording encoding, if there is one.\<close>

definition round_half_even :: "rat \<Rightarrow> int" where
  "round_half_even r =
     (let f = \<lfloor>r\<rfloor>; d = r - of_int f in
      if d < 1 / 2 then f else if 1 / 2 < d then f + 1 else if even f then f else f + 1)"

record device_config =
  dc_device_id :: string
  dc_label :: string
  dc_fingerprint :: string
  dc_platform :: string
  dc_version :: string
  dc_commit :: string
  dc_width :: int
  dc_height :: int
  dc_fps :: rat
  dc_decimation :: int
  dc_timezone_known :: bool
  dc_policy :: string
  dc_max_contiguous :: int
  dc_max_total :: int
  dc_max_fraction :: rat
  dc_window :: rat
  dc_max_window :: int
  dc_layout :: string
  dc_bitrate :: int
  dc_gop :: "int option"
  dc_segment_seconds :: rat
  dc_audio :: bool
  dc_audio_device :: string
  dc_audio_rate :: int
  dc_audio_channels :: int
  dc_audio_format :: string

definition upper_hex :: "char \<Rightarrow> bool" where
  "upper_hex ch \<longleftrightarrow> is_digit ch \<or> ch \<in> {CHR ''A'', CHR ''B'', CHR ''C'', CHR ''D'', CHR ''E'', CHR ''F''}"

definition device_segment_frames :: "device_config \<Rightarrow> rat" where
  "device_segment_frames c = dc_segment_seconds c * dc_fps c / of_int (dc_decimation c)"

definition valid_device_config :: "device_config \<Rightarrow> bool" where
  "valid_device_config c \<longleftrightarrow>
     dc_timezone_known c \<and> uuid_v4 (dc_device_id c) \<and>
     length (dc_label c) = 12 \<and> take 4 (dc_label c) = ''YLX-'' \<and> list_all upper_hex (drop 4 (dc_label c)) \<and>
     length (dc_fingerprint c) = 71 \<and> take 7 (dc_fingerprint c) = ''sha256:'' \<and> list_all is_hex (drop 7 (dc_fingerprint c)) \<and>
     dc_platform c \<noteq> [] \<and> dc_version c \<noteq> [] \<and> py_len (dc_version c) \<le> 64 \<and>
     length (dc_commit c) \<in> {40, 64} \<and> list_all is_hex (dc_commit c) \<and>
     0 < dc_width c \<and> even (dc_width c) \<and> 0 < dc_height c \<and> 0 < dc_fps c \<and> 0 < dc_decimation c \<and>
     dc_policy c = ''rdk-x5-lossless-v1'' \<and> dc_max_contiguous c = 0 \<and> dc_max_total c = 0 \<and> dc_max_fraction c = 0 \<and>
     dc_window c = 1 \<and> dc_max_window c = 0 \<and> dc_layout c = ''split-eyes'' \<and> 0 < dc_bitrate c \<and>
     0 < dc_segment_seconds c \<and> (dc_audio c \<longrightarrow> dc_audio_device c \<noteq> []) \<and>
     0 < dc_audio_rate c \<and> 0 < dc_audio_channels c \<and> dc_audio_format c = ''S16_LE'' \<and>
     (case dc_gop c of None \<Rightarrow> True | Some gop \<Rightarrow> round_half_even (device_segment_frames c) mod gop = 0)"

section \<open>The order of generated identities\<close>

text \<open>The calls of one process: each with its clock reading and its draws.\<close>

fun uuid7_run :: "(nat \<times> nat \<times> nat) list \<Rightarrow> uuid_clock \<Rightarrow> string list \<times> uuid_clock" where
  "uuid7_run [] c = ([], c)"
| "uuid7_run ((ns, bits, random_tail) # calls) c =
     (case uuid7 ns bits random_tail c of
        (s, c1) \<Rightarrow> (case uuid7_run calls c1 of (ss, c2) \<Rightarrow> (s # ss, c2)))"

lemma length_hex_text [simp]: "length (hex_text n v) = n"
  by (induction n v rule: hex_text.induct) auto

lemma or_push_bit:
  fixes x y :: nat
  assumes "x < 2 ^ n"
  shows "push_bit n y OR x = y * 2 ^ n + x"
proof -
  have "x = take_bit n x" using assms by (simp add: take_bit_nat_eq_self)
  then have small: "bit x m \<Longrightarrow> m < n" for m by (metis bit_take_bit_iff)
  have "push_bit n y AND x = 0"
    by (intro bit_eqI) (use small in \<open>force simp: bit_and_iff bit_push_bit_iff_nat\<close>)
  then show ?thesis
    using disjunctive_add_eq_or [of "push_bit n y" x] by (simp add: push_bit_eq_mult)
qed

lemma uuid7_value_sum:
  assumes "uc_millisecond c < 2 ^ 48" and "uc_counter c < 2 ^ 12" and "t < 2 ^ 62"
  shows "uuid7_value t c = uc_millisecond c * 2 ^ 80 + (7 * 2 ^ 76 + (uc_counter c * 2 ^ 64 + (2 * 2 ^ 62 + t)))"
proof -
  have ms: "uc_millisecond c AND (2 ^ 48 - 1) = uc_millisecond c"
    using take_bit_eq_mask [of 48 "uc_millisecond c"] take_bit_nat_eq_self [OF assms(1)]
    by (simp only: mask_eq_exp_minus_1)
  let ?a = "2 * 2 ^ 62 + t"
  let ?b = "uc_counter c * 2 ^ 64 + ?a"
  let ?d = "7 * 2 ^ 76 + ?b"
  have a: "?a < 2 ^ 64" "push_bit 62 2 OR t = ?a" using assms(3) by simp (rule or_push_bit [OF assms(3)])
  have b: "?b < 2 ^ 76" "push_bit 64 (uc_counter c) OR ?a = ?b" using assms(2) a(1) by simp (rule or_push_bit [OF a(1)])
  have d: "?d < 2 ^ 80" "push_bit 76 7 OR ?b = ?d" using b(1) by simp (rule or_push_bit [OF b(1)])
  show ?thesis
    unfolding uuid7_value_def ms or.assoc a(2) b(2) d(2) by (rule or_push_bit [OF d(1)])
qed

lemma list_less_append:
  fixes a :: "'a::linorder list"
  shows "length a = length a' \<Longrightarrow> (a @ b < a' @ b') = (a < a' \<or> a = a' \<and> b < b')"
  by (induction a a' rule: list_induct2) auto

lemma hex_char_less: "x < y \<Longrightarrow> y < 16 \<Longrightarrow> hex_char x < hex_char y"
  by (simp add: hex_char_def less_char_def)

lemma hex_text_less: "v < w \<Longrightarrow> w < 16 ^ n \<Longrightarrow> hex_text n v < hex_text n w"
proof (induction n arbitrary: v w)
  case (Suc n)
  have w: "w div 16 < 16 ^ n" using Suc.prems(2) by (simp add: less_mult_imp_div_less)
  consider "v div 16 < w div 16" | "v div 16 = w div 16" "v mod 16 < w mod 16"
  proof -
    have "v div 16 < w div 16 \<or> v div 16 = w div 16 \<and> v mod 16 < w mod 16" 
      using div_le_mono [of v w 16] Suc.prems(1) mult_div_mod_eq [of 16 v] mult_div_mod_eq [of 16 w] by linarith
    then show thesis using that by blast
  qed
  then show ?case
    by cases (simp_all add: list_less_append Suc.IH [OF _ w] hex_char_less)
qed simp

lemma hyphenated_less:
  assumes "length h = 32" and "length h' = 32" and "h < h'"
  shows "hyphenated h < hyphenated h'"
proof -
  have parts: "x = take 8 x @ take 4 (drop 8 x) @ take 4 (drop 12 x) @ take 4 (drop 16 x) @ drop 20 x" if "length x = 32" for x :: string
    using append_take_drop_id [of 8 x] append_take_drop_id [of 4 "drop 8 x"] append_take_drop_id [of 4 "drop 12 x"]
      append_take_drop_id [of 4 "drop 16 x"] by simp
  have "take 8 h @ take 4 (drop 8 h) @ take 4 (drop 12 h) @ take 4 (drop 16 h) @ drop 20 h <
      take 8 h' @ take 4 (drop 8 h') @ take 4 (drop 12 h') @ take 4 (drop 16 h') @ drop 20 h'"
    unfolding parts [OF assms(1), symmetric] parts [OF assms(2), symmetric] by (rule assms(3))
  then show ?thesis
    using assms(1,2) by (auto simp: hyphenated_def list_less_append)
qed

lemma hex_text_add: "hex_text (m + n) v = hex_text m (v div 16 ^ n) @ hex_text n v"
  by (induction n arbitrary: v) (simp_all add: div_mult2_eq)

lemma take_hex_text: "k \<le> n \<Longrightarrow> take k (hex_text n v) = hex_text k (v div 16 ^ (n - k))"
  using hex_text_add [of k "n - k" v] by simp

lemma drop_hex_text: "k \<le> n \<Longrightarrow> drop k (hex_text n v) = hex_text (n - k) v"
  using hex_text_add [of k "n - k" v] by simp

lemma is_hex_char [simp]: "is_hex (hex_char (v mod 16))"
proof -
  have "v mod 16 < 16" by simp
  then show ?thesis by (auto simp: hex_char_def is_hex_def is_digit_def)
qed

lemma hex_text_hex: "list_all is_hex (hex_text n v)"
  by (induction n v rule: hex_text.induct) auto

lemma match_classes_append:
  "length a = length ps \<Longrightarrow> match_classes (ps @ qs) (a @ b) \<longleftrightarrow> match_classes ps a \<and> match_classes qs b"
  by (auto simp: match_classes_iff list_all2_append dest: list_all2_lengthD)

lemma match_classes_replicate: "match_classes (replicate (length s) p) s = list_all p s"
  by (induction s) auto

lemma uuid_text_parts:
  "uuid_text v = hex_text 8 (v div 16 ^ 24) @ ''-'' @ hex_text 4 (v div 16 ^ 20) @ ''-'' @ hex_text 4 (v div 16 ^ 16) @ ''-'' @
     hex_text 4 (v div 16 ^ 12) @ ''-'' @ hex_text 12 v"
  by (simp add: uuid_text_def hyphenated_def drop_hex_text take_hex_text)

lemma uuid_text_v7:
  assumes "v div 2 ^ 76 mod 16 = 7" and "v div 2 ^ 62 mod 4 = 2"
  shows "uuid_v7 (uuid_text v)"
proof -
  have version: "hex_text 4 (v div 16 ^ 16) = CHR ''7'' # hex_text 3 (v div 16 ^ 16)"
  proof -
    have "v div 16 ^ 16 div 16 ^ 3 mod 16 = 7" using assms(1) by (simp flip: div_mult2_eq)
    moreover have "hex_char 7 = CHR ''7''" by code_simp
    ultimately show ?thesis using hex_text_add [of 1 3 "v div 16 ^ 16"] by simp
  qed
  have variant: "\<exists>ch. hex_text 4 (v div 16 ^ 12) = ch # hex_text 3 (v div 16 ^ 12) \<and> is_variant_char ch"
  proof -
    let ?d = "v div 16 ^ 12 div 16 ^ 3 mod 16"
    have d: "?d = v div 2 ^ 60 mod 16" by (simp flip: div_mult2_eq)
    have "v div 2 ^ 62 = v div 2 ^ 60 div 4" by (simp flip: div_mult2_eq)
    then have "v div 2 ^ 60 div 4 mod 4 = 2" using assms(2) by simp
    then have "?d = 8 + v div 2 ^ 60 mod 4"
      unfolding d using mod_mult2_eq [of "v div 2 ^ 60" 4 4] by simp
    moreover have "v div 2 ^ 60 mod 4 \<in> {0, 1, 2, 3}"
    proof -
      have "x mod 4 \<in> {0, 1, 2, 3}" for x :: nat by (simp; presburger)
      then show ?thesis .
    qed
    ultimately have "?d \<in> {8, 9, 10, 11}" by auto
    moreover have "list_all (\<lambda>d. is_variant_char (hex_char d)) [8, 9, 10, 11]" by code_simp
    ultimately have "is_variant_char (hex_char ?d)" by auto
    then show ?thesis using hex_text_add [of 1 3 "v div 16 ^ 12"] by simp
  qed
  have r: "match_classes (replicate n is_hex) (hex_text n x)" for n x
    using match_classes_replicate [of "hex_text n x" is_hex] hex_text_hex [of n x] by simp
  obtain ch where ch: "hex_text 4 (v div 16 ^ 12) = ch # hex_text 3 (v div 16 ^ 12)" "is_variant_char ch" using variant by blast
  have "uuid_text v = hex_text 8 (v div 16 ^ 24) @ ''-'' @ hex_text 4 (v div 16 ^ 20) @ ''-'' @ ''7'' @ hex_text 3 (v div 16 ^ 16) @ ''-'' @
     [ch] @ hex_text 3 (v div 16 ^ 12) @ ''-'' @ hex_text 12 v"
    unfolding uuid_text_parts version ch(1) by simp
  then show ?thesis
    unfolding uuid_v7_def uuid_classes_def by (simp only: match_classes_append length_hex_text length_replicate list.size r ch(2) match_classes.simps simp_thms)
qed

text \<open>The state of the generator grows with every call, and so does the identity.\<close>

definition clock_before :: "uuid_clock \<Rightarrow> uuid_clock \<Rightarrow> bool" where
  "clock_before a b \<longleftrightarrow>
     uc_millisecond a < uc_millisecond b \<or> uc_millisecond a = uc_millisecond b \<and> uc_counter a < uc_counter b"

lemma uuid7_tick_grows:
  assumes "uc_counter c < 2 ^ 12" and "bits < 2 ^ 12"
  shows "clock_before c (uuid7_tick ns bits c) \<and> uc_counter (uuid7_tick ns bits c) < 2 ^ 12"
proof -
  have "(uc_counter c + 1) AND 0xFFF = (uc_counter c + 1) mod 2 ^ 12"
    using take_bit_eq_mask [of 12 "uc_counter c + 1"] by (simp add: take_bit_eq_mod mask_eq_exp_minus_1)
  also have "\<dots> = (if uc_counter c = 4095 then 0 else uc_counter c + 1)"
    using assms(1) by auto
  finally have m: "(uc_counter c + 1) AND 0xFFF = (if uc_counter c = 4095 then 0 else uc_counter c + 1)" .
  show ?thesis
    unfolding uuid7_tick_def Let_def m using assms by (auto simp: clock_before_def)
qed

lemma clock_before_trans: "clock_before a b \<Longrightarrow> clock_before b c \<Longrightarrow> clock_before a c"
  by (auto simp: clock_before_def)

lemma uuid7_value_grows:
  assumes "clock_before a b" and "uc_millisecond b < 2 ^ 48" and "uc_counter a < 2 ^ 12" and "uc_counter b < 2 ^ 12"
    and "t < 2 ^ 62" and "t' < 2 ^ 62"
  shows "uuid7_value t a < uuid7_value t' b \<and> uuid7_value t' b < 16 ^ 32"
proof -
  have ms: "uc_millisecond a < 2 ^ 48" using assms(1,2) by (auto simp: clock_before_def)
  note v = uuid7_value_sum [OF ms assms(3,5)] uuid7_value_sum [OF assms(2,4,6)]
  have low: "7 * 2 ^ 76 + (uc_counter c * 2 ^ 64 + (2 * 2 ^ 62 + x)) < 2 ^ 80" if "uc_counter c < 2 ^ 12" "x < 2 ^ 62" for c :: uuid_clock and x :: nat
    using that by simp
  show ?thesis
    using assms v low [OF assms(3,5)] low [OF assms(4,6)] unfolding clock_before_def by auto
qed

lemma uuid7_value_v7:
  assumes "uc_millisecond c < 2 ^ 48" and "uc_counter c < 2 ^ 12" and "t < 2 ^ 62"
  shows "uuid_v7 (uuid_text (uuid7_value t c))"
proof -
  let ?ms = "uc_millisecond c" and ?n = "uc_counter c"
  have low: "2 * 2 ^ 62 + t < 2 ^ 64" "?n * 2 ^ 64 + (2 * 2 ^ 62 + t) < 2 ^ 76" using assms(2,3) by simp_all
  have "uuid7_value t c = (?ms * 16 + 7) * 2 ^ 76 + (?n * 2 ^ 64 + (2 * 2 ^ 62 + t))"
    unfolding uuid7_value_sum [OF assms] by (simp add: algebra_simps)
  then have "uuid7_value t c div 2 ^ 76 = ?ms * 16 + 7" using low(2) by simp
  then have "uuid7_value t c div 2 ^ 76 mod 16 = 7" by simp
  moreover have "uuid7_value t c = ((?ms * 2 ^ 16 + 7 * 2 ^ 12 + ?n) * 4 + 2) * 2 ^ 62 + t"
    unfolding uuid7_value_sum [OF assms] by (simp add: algebra_simps)
  then have "uuid7_value t c div 2 ^ 62 = (?ms * 2 ^ 16 + 7 * 2 ^ 12 + ?n) * 4 + 2" using assms(3) by simp
  then have "uuid7_value t c div 2 ^ 62 mod 4 = 2 mod 4" by (simp only: mod_mult_self3)
  then have "uuid7_value t c div 2 ^ 62 mod 4 = 2" by simp
  ultimately show ?thesis by (rule uuid_text_v7)
qed

definition proper_draw :: "nat \<times> nat \<times> nat \<Rightarrow> bool" where
  "proper_draw call \<longleftrightarrow> (case call of (ns, bits, t) \<Rightarrow> bits < 2 ^ 12 \<and> t < 2 ^ 62)"

definition generated_after :: "uuid_clock \<Rightarrow> string \<Rightarrow> bool" where
  "generated_after c s \<longleftrightarrow>
     (\<exists>d t. clock_before c d \<and> uc_counter d < 2 ^ 12 \<and> uc_millisecond d < 2 ^ 48 \<and> t < 2 ^ 62 \<and> s = uuid_text (uuid7_value t d))"

lemma uuid7_run_grows:
  assumes "list_all proper_draw calls" and "uc_counter c < 2 ^ 12" and "uuid7_run calls c = (ids, c')" and "uc_millisecond c' < 2 ^ 48"
  shows "(c' = c \<or> clock_before c c') \<and> list_all uuid_v7 ids \<and> sorted_wrt (<) ids \<and>
    (\<forall>s. s \<in> set ids \<longrightarrow> generated_after c s)"
  using assms
proof (induction calls arbitrary: c ids)
  case (Cons call calls)
  obtain ns bits t where call: "call = (ns, bits, t)" by (cases call)
  let ?d = "uuid7_tick ns bits c"
  obtain ss where run: "uuid7_run calls ?d = (ss, c')" "ids = uuid_text (uuid7_value t ?d) # ss"
    using Cons.prems(3) by (auto simp: call uuid7_def Let_def split: prod.splits)
  have draw: "bits < 2 ^ 12" "t < 2 ^ 62" using Cons.prems(1) by (simp_all add: call proper_draw_def)
  note g = uuid7_tick_grows [OF Cons.prems(2) draw(1), of ns]
  have ih: "(c' = ?d \<or> clock_before ?d c') \<and> list_all uuid_v7 ss \<and> sorted_wrt (<) ss \<and>
    (\<forall>s. s \<in> set ss \<longrightarrow> generated_after ?d s)"
    using Cons.prems(1,4) g by (intro Cons.IH [OF _ _ run(1)]) simp_all
  have ms: "uc_millisecond ?d < 2 ^ 48" using ih Cons.prems(4) by (auto simp: clock_before_def)
  have less: "uuid_text (uuid7_value t ?d) < s" if mem: "s \<in> set ss" for s
  proof -
    obtain d u where d: "clock_before ?d d" "uc_counter d < 2 ^ 12" "uc_millisecond d < 2 ^ 48" "u < 2 ^ 62" "s = uuid_text (uuid7_value u d)"
      using ih mem unfolding generated_after_def by blast
    have "uuid7_value t ?d < uuid7_value u d \<and> uuid7_value u d < 16 ^ 32"
      using g d draw by (intro uuid7_value_grows) simp_all
    then show ?thesis unfolding d(5) uuid_text_def by (intro hyphenated_less hex_text_less) simp_all
  qed
  have v7: "uuid_v7 (uuid_text (uuid7_value t ?d))" using ms g draw by (intro uuid7_value_v7) simp_all
  have own: "generated_after c (uuid_text (uuid7_value t ?d))" using ms g draw unfolding generated_after_def by blast
  have rest: "generated_after c s" if "s \<in> set ss" for s
    using ih that g clock_before_trans [of c ?d] unfolding generated_after_def by blast
  have "clock_before c c'" using ih g clock_before_trans [of c ?d c'] by auto
  then show ?case unfolding run(2) using ih v7 own rest less by simp
qed simp

text \<open>C33: the identities of one process are canonical UUIDv7 texts and strictly increase as strings, call by
  call, whatever the wall clock does (it may stand still or go back) and whatever is drawn, also when
  the 12-bit counter overflows into the millisecond; no identity is handed out twice.  The bound is
  the 48-bit millisecond field.\<close>

theorem identities_increase:
  assumes "list_all proper_draw calls" and "uc_counter c < 2 ^ 12"
    and "uuid7_run calls c = (ids, c')" and "uc_millisecond c' < 2 ^ 48"
  shows "list_all uuid_v7 ids \<and> sorted_wrt (<) ids \<and> distinct ids"
  using uuid7_run_grows [OF assms] strict_sorted_iff [of ids] by simp

theorem identities_increase_witness:
  "sorted_wrt (<) (fst (uuid7_run [(1700000000000000000, 4095, 1), (1699999999999000000, 7, 0), (0, 9, 2)]
     \<lparr>uc_millisecond = 0, uc_counter = 0\<rparr>))"
proof -
  let ?calls = "[(1700000000000000000, 4095, 1), (1699999999999000000, 7, 0), (0, 9, 2)] :: (nat \<times> nat \<times> nat) list"
  let ?c = "\<lparr>uc_millisecond = 0, uc_counter = 0\<rparr>"
  obtain ids c' where run: "uuid7_run ?calls ?c = (ids, c')" by fastforce
  have "uc_millisecond c' = 1700000000001"
    using run by (auto simp: uuid7_def uuid7_tick_def Let_def)
  then show ?thesis
    using identities_increase [of ?calls ?c ids c'] run by (simp add: proper_draw_def)
qed

end
