(* ===== verification/CrashRecovery.thy ===== *)
theory CrashRecovery
  imports RecoveryIndex SessionIdentity AudioJournal
begin

text \<open>
  \<open>recording/recovery.py\<close>: publishing the verified prefix of an interrupted recording.  JSON parsing and
  printing, the digests of files and the WAVE reader answer through arguments; a parser that answers
  \<open>None\<close> raised, and a printer that answers \<open>None\<close> met a text that UTF-8 cannot hold.
  Differences of floating-point sequence numbers are exact.
\<close>

section \<open>The committed segments\<close>

record closed_segment =
  sg_start :: int
  sg_end :: int
  sg_record :: jobject

text \<open>\<open>actual\<close> is \<open>_artifact\<close> of a path and a role: \<open>None\<close> when reading it failed.\<close>

definition segment_eye_ok :: "(string \<Rightarrow> string \<Rightarrow> json option) \<Rightarrow> jobject \<Rightarrow> string \<Rightarrow> bool" where
  "segment_eye_ok actual d eye \<longleftrightarrow>
     (case jget d ''artifacts'' of
        JObj a \<Rightarrow>
          (case jget a eye of
             JObj descriptor \<Rightarrow>
               (case jget descriptor ''path'' of
                  JStr path \<Rightarrow>
                    (case actual path (''video.'' @ eye) of None \<Rightarrow> False | Some v \<Rightarrow> py_eq v (JObj descriptor))
                | _ \<Rightarrow> False)
           | _ \<Rightarrow> False)
      | _ \<Rightarrow> False)"

fun committed_segments ::
  "(string \<Rightarrow> string \<Rightarrow> json option) \<Rightarrow> json list \<Rightarrow> int \<Rightarrow> int \<Rightarrow> closed_segment list" where
  "committed_segments actual [] n start = []"
| "committed_segments actual (v # vs) n start =
     (case v of
        JObj d \<Rightarrow>
          (case jget d ''end_ordinal'' of
             JInt stop \<Rightarrow>
               if eq_num (jget d ''index'') n \<and> eq_num (jget d ''start_ordinal'') start \<and> start < stop \<and>
                  segment_eye_ok actual d ''left'' \<and> segment_eye_ok actual d ''right''
               then \<lparr>sg_start = start, sg_end = stop, sg_record = d\<rparr> # committed_segments actual vs (n + 1) stop
               else []
           | _ \<Rightarrow> [])
      | _ \<Rightarrow> [])"

section \<open>The journals\<close>

definition max_journal_line :: nat where
  "max_journal_line = 1048576"

text \<open>\<open>_journal_lines\<close>: the complete lines before the first torn or oversized one.\<close>

definition torn :: "string \<Rightarrow> bool" where
  "torn line \<longleftrightarrow> max_journal_line < length line \<or> line = [] \<or> last line \<noteq> CHR 0x0A"

function journal_lines :: "string \<Rightarrow> string list" where
  "journal_lines bytes =
     (let line = read_line (max_journal_line + 1) bytes in
      if torn line then [] else line # journal_lines (drop (length line) bytes))"
  by pat_completeness auto
termination
  by (relation "measure length") (auto simp: torn_def read_line_def first_line_def Let_def split: if_splits)

declare journal_lines.simps [simp del]

section \<open>The frame index\<close>

record recovery_env =
  re_loads :: "string \<Rightarrow> json option"
  re_dumps :: "json \<Rightarrow> string option"
  re_index :: index_env
  re_hash :: "string \<Rightarrow> string"
  re_decode :: "string \<Rightarrow> string option"

text \<open>The tests on one row: the number of rows before it, the segment it belongs to and the row before.\<close>

definition follows_row :: "int \<Rightarrow> jobject \<Rightarrow> jobject \<Rightarrow> bool" where
  "follows_row decimation previous row \<longleftrightarrow>
     (case (num_value (jget row ''source_sequence''), num_value (jget previous ''source_sequence'')) of
        (Some a, Some b) \<Rightarrow> a - b = of_int decimation
      | _ \<Rightarrow> False) \<and>
     (case (jget row ''host_monotonic_ns'', jget previous ''host_monotonic_ns'') of
        (JInt t, JInt u) \<Rightarrow> u < t
      | _ \<Rightarrow> False)"

definition frame_row_ok ::
  "string \<Rightarrow> int \<Rightarrow> int \<Rightarrow> int \<Rightarrow> closed_segment \<Rightarrow> jobject option \<Rightarrow> jobject \<Rightarrow> bool" where
  "frame_row_ok sid decimation count segment_index segment previous row \<longleftrightarrow>
     eq_str (jget row ''session_id'') sid \<and>
     in_strs (jget row ''schema'') [''ylx.frame-index.v1'', ''ylx.frame-index.v2''] \<and>
     eq_num (jget row ''frame'') count \<and> eq_num (jget row ''segment_index'') segment_index \<and>
     eq_num (jget row ''segment_frame'') (count - sg_start segment) \<and>
     int_in (jget row ''host_monotonic_ns'') (\<lambda>t. 0 < t) \<and>
     (case previous of None \<Rightarrow> True | Some p \<Rightarrow> follows_row decimation p row)"

definition row_host :: "jobject \<Rightarrow> int" where
  "row_host row = (case jget row ''host_monotonic_ns'' of JInt t \<Rightarrow> t | _ \<Rightarrow> 0)"

record frame_scan =
  fs_segment :: nat
  fs_count :: int
  fs_committed :: int
  fs_checkpoint :: "index_mark option"
  fs_first :: "int option"
  fs_last :: "int option"
  fs_segment_first :: "int option"
  fs_previous :: "jobject option"
  fs_unencodable :: bool
  fs_boundaries :: "(int \<times> int option) list"
  fs_writer :: index_writer

definition new_scan :: "bool \<Rightarrow> frame_scan" where
  "new_scan compressed = \<lparr>fs_segment = 0, fs_count = 0, fs_committed = 0, fs_checkpoint = None, fs_first = None,
     fs_last = None, fs_segment_first = None, fs_previous = None, fs_unencodable = False, fs_boundaries = [],
     fs_writer = new_index compressed\<rparr>"

text \<open>The row goes to the index, unless one before it in the scan could not be encoded.\<close>

definition store_row :: "recovery_env \<Rightarrow> jobject \<Rightarrow> frame_scan \<Rightarrow> unit res \<times> frame_scan" where
  "store_row E row s =
     (if fs_unencodable s then (Inr (), s)
      else (case re_dumps E (JObj row) of
          None \<Rightarrow> (Inr (), s\<lparr>fs_unencodable := True\<rparr>)
        | Some payload \<Rightarrow>
            (case index_write (re_index E) payload (fs_writer s) of (r, w) \<Rightarrow> (r, s\<lparr>fs_writer := w\<rparr>))))"

text \<open>The end of a segment commits its rows.\<close>

definition commit_rows :: "recovery_env \<Rightarrow> closed_segment \<Rightarrow> jobject \<Rightarrow> frame_scan \<Rightarrow> unit res \<times> frame_scan" where
  "commit_rows E segment row s =
     (if fs_unencodable s then (Inl ValueError, s)
      else
        (case index_checkpoint (re_index E) (fs_writer s) of
           (Inl e, w) \<Rightarrow> (Inl e, s\<lparr>fs_writer := w\<rparr>)
         | (Inr c, w) \<Rightarrow>
             (Inr (), s\<lparr>fs_writer := w, fs_committed := fs_count s, fs_checkpoint := Some c, fs_last := Some (row_host row),
                        fs_boundaries := fs_boundaries s @ [(sg_start segment, fs_segment_first s)],
                        fs_segment := fs_segment s + 1\<rparr>)))"

definition take_row :: "recovery_env \<Rightarrow> closed_segment \<Rightarrow> jobject \<Rightarrow> frame_scan \<Rightarrow> unit res \<times> frame_scan" where
  "take_row E segment row s =
     (let s1 = s\<lparr>fs_first := (if fs_first s = None then Some (row_host row) else fs_first s),
                 fs_segment_first := (if fs_count s = sg_start segment then Some (row_host row) else fs_segment_first s)\<rparr> in
      andS (store_row E row s1) (\<lambda>s2.
        let s3 = s2\<lparr>fs_count := fs_count s2 + 1, fs_previous := Some row\<rparr> in
        if fs_count s3 = sg_end segment then commit_rows E segment row s3 else (Inr (), s3)))"

fun scan_frames ::
  "recovery_env \<Rightarrow> string \<Rightarrow> int \<Rightarrow> closed_segment list \<Rightarrow> string list \<Rightarrow> frame_scan \<Rightarrow> unit res \<times> frame_scan" where
  "scan_frames E sid decimation segments [] s = (Inr (), s)"
| "scan_frames E sid decimation segments (line # lines) s =
     (if length segments \<le> fs_segment s then (Inr (), s)
      else
        (let segment = segments ! fs_segment s in
         case re_loads E line of
           Some (JObj row) \<Rightarrow>
             if frame_row_ok sid decimation (fs_count s) (int (fs_segment s)) segment (fs_previous s) row
             then andS (take_row E segment row s) (scan_frames E sid decimation segments lines)
             else (Inr (), s)
         | _ \<Rightarrow> (Inr (), s)))"

record recovered_frames =
  rf_count :: int
  rf_first :: int
  rf_last :: int
  rf_boundaries :: "(int \<times> int option) list"
  rf_index :: string
  rf_encoding :: "(nat \<times> string) option"

text \<open>\<open>_frames\<close>, with the segments it keeps.  The index is what was written to the temporary file, and
  is read back unchanged.\<close>

definition recover_frames ::
  "recovery_env \<Rightarrow> string \<Rightarrow> int \<Rightarrow> int option \<Rightarrow> bool \<Rightarrow> closed_segment list \<Rightarrow> string
     \<Rightarrow> (recovered_frames \<times> closed_segment list) option res" where
  "recover_frames E sid decimation origin compressed segments recorded =
     (case scan_frames E sid decimation segments (journal_lines recorded) (new_scan compressed) of
        (Inl e, s) \<Rightarrow> Inl e
      | (Inr u, s) \<Rightarrow>
          (case (fs_checkpoint s, fs_first s, fs_last s) of
             (Some c, Some first, Some final) \<Rightarrow>
               guardE (case origin of None \<Rightarrow> True | Some t \<Rightarrow> \<not> (0 < t \<and> t \<le> first)) ValueError
                 (case index_finish (re_index E) (index_rollback c (fs_writer s)) of
                    (Inl e, w) \<Rightarrow> Inl e
                  | (Inr v, w) \<Rightarrow>
                      bindE (index_verify (re_hash E) (re_decode E) (iw_output w) w) (\<lambda>encoding.
                        Inr (Some (\<lparr>rf_count = fs_committed s, rf_first = first, rf_last = final,
                                    rf_boundaries = fs_boundaries s, rf_index = iw_output w, rf_encoding = encoding\<rparr>,
                                   take (fs_segment s) segments))))
           | _ \<Rightarrow> Inr None))"

section \<open>The committed prefix\<close>

text \<open>What the journal says: its rows, up to the first line that is no JSON object.\<close>

fun journal_rows :: "recovery_env \<Rightarrow> string list \<Rightarrow> jobject list" where
  "journal_rows E [] = []"
| "journal_rows E (line # lines) = (case re_loads E line of Some (JObj row) \<Rightarrow> row # journal_rows E lines | _ \<Rightarrow> [])"

text \<open>The segment a row belongs to, and the rows that continue each other from the first on.\<close>

definition row_place :: "closed_segment list \<Rightarrow> int \<Rightarrow> nat" where
  "row_place segments i = length (takeWhile (\<lambda>sg. sg_end sg \<le> i) segments)"

definition row_fits :: "string \<Rightarrow> int \<Rightarrow> closed_segment list \<Rightarrow> jobject list \<Rightarrow> nat \<Rightarrow> bool" where
  "row_fits sid decimation segments rows i \<longleftrightarrow>
     row_place segments (int i) < length segments \<and>
     frame_row_ok sid decimation (int i) (int (row_place segments (int i))) (segments ! row_place segments (int i))
       (if i = 0 then None else Some (rows ! (i - 1))) (rows ! i)"

definition chained :: "string \<Rightarrow> int \<Rightarrow> closed_segment list \<Rightarrow> jobject list \<Rightarrow> nat \<Rightarrow> bool" where
  "chained sid decimation segments rows n \<longleftrightarrow>
     n \<le> length rows \<and> list_all (row_fits sid decimation segments rows) [0..<n]"

fun contiguous :: "int \<Rightarrow> closed_segment list \<Rightarrow> bool" where
  "contiguous start [] = True"
| "contiguous start (sg # sgs) = (sg_start sg = start \<and> start < sg_end sg \<and> contiguous (sg_end sg) sgs)"

lemma committed_segments_contiguous: "contiguous start (committed_segments actual vs n start)"
  by (induction actual vs n start rule: committed_segments.induct) (auto split: json.splits)

lemma row_place_le: "row_place segments i \<le> length segments"
  by (simp add: row_place_def length_takeWhile_le)

lemma row_place_start: "contiguous start segments \<Longrightarrow> row_place segments start = 0"
  by (cases segments) (auto simp: row_place_def)

lemma row_place_step:
  assumes "contiguous start segments" and "start \<le> i" and "row_place segments i < length segments"
  shows "sg_start (segments ! row_place segments i) \<le> i \<and> i < sg_end (segments ! row_place segments i) \<and>
    row_place segments (i + 1) = (if i + 1 = sg_end (segments ! row_place segments i) then row_place segments i + 1 else row_place segments i)"
  using assms
proof (induction start segments rule: contiguous.induct)
  case (2 start sg sgs)
  show ?case
  proof (cases "sg_end sg \<le> i")
    case True
    then show ?thesis using 2 by (simp add: row_place_def)
  next
    case False
    then have "row_place (sg # sgs) i = 0" by (simp add: row_place_def)
    moreover have "row_place (sg # sgs) (i + 1) = (if i + 1 = sg_end sg then 1 else 0)"
      using False row_place_start [of "sg_end sg" sgs] 2(2) by (auto simp: row_place_def)
    ultimately show ?thesis using False 2(2,3) by simp
  qed
qed simp

lemma contiguous_ends:
  assumes "contiguous start segments" and "k < length segments"
  shows "start \<le> sg_start (segments ! k) \<and> sg_start (segments ! k) < sg_end (segments ! k)"
  using assms
proof (induction start segments arbitrary: k rule: contiguous.induct)
  case (2 start sg sgs)
  then show ?case
  proof (cases k)
    case (Suc m)
    then show ?thesis using 2 by force
  qed simp
qed simp

lemma contiguous_next:
  "contiguous start segments \<Longrightarrow> Suc k < length segments \<Longrightarrow> sg_start (segments ! Suc k) = sg_end (segments ! k)"
proof (induction start segments arbitrary: k rule: contiguous.induct)
  case (2 start sg sgs)
  then show ?case by (cases k; cases sgs) auto
qed simp

text \<open>The state of the scan after \<open>i\<close> rows that continue each other.\<close>

definition row_text :: "recovery_env \<Rightarrow> jobject \<Rightarrow> string" where
  "row_text E row = the (re_dumps E (JObj row))"

definition index_of :: "recovery_env \<Rightarrow> jobject list \<Rightarrow> nat \<Rightarrow> string" where
  "index_of E rows n = concat (map (row_text E) (take n rows))"

definition encodable :: "recovery_env \<Rightarrow> jobject list \<Rightarrow> nat \<Rightarrow> bool" where
  "encodable E rows n \<longleftrightarrow> list_all (\<lambda>row. re_dumps E (JObj row) \<noteq> None) (take n rows)"

definition first_host :: "jobject list \<Rightarrow> closed_segment \<Rightarrow> int \<times> int option" where
  "first_host rows sg = (sg_start sg, Some (row_host (rows ! nat (sg_start sg))))"

definition commit_inv :: "recovery_env \<Rightarrow> jobject list \<Rightarrow> closed_segment list \<Rightarrow> frame_scan \<Rightarrow> bool" where
  "commit_inv E rows kept s \<longleftrightarrow>
     fs_boundaries s = map (first_host rows) kept \<and>
     (if kept = [] then fs_checkpoint s = None
      else fs_committed s = sg_end (last kept) \<and> fs_last s = Some (row_host (rows ! nat (sg_end (last kept) - 1))) \<and>
        encodable E rows (nat (sg_end (last kept))) \<and>
        (\<exists>c w0 w1. fs_checkpoint s = Some c \<and> holds (re_index E) w0 (index_of E rows (nat (sg_end (last kept)))) \<and>
           index_checkpoint (re_index E) w0 = (Inr c, w1) \<and> grown w1 (fs_writer s)))"

definition scan_inv :: "recovery_env \<Rightarrow> bool \<Rightarrow> closed_segment list \<Rightarrow> jobject list \<Rightarrow> nat \<Rightarrow> frame_scan \<Rightarrow> bool" where
  "scan_inv E compressed segments rows i s \<longleftrightarrow>
     fs_count s = int i \<and> fs_segment s = row_place segments (int i) \<and>
     fs_previous s = (if i = 0 then None else Some (rows ! (i - 1))) \<and>
     fs_first s = (if i = 0 then None else Some (row_host (rows ! 0))) \<and>
     (fs_segment s < length segments \<longrightarrow> sg_start (segments ! fs_segment s) < int i \<longrightarrow>
        fs_segment_first s = Some (row_host (rows ! nat (sg_start (segments ! fs_segment s))))) \<and>
     fs_unencodable s = (\<not> encodable E rows i) \<and> iw_compressed (fs_writer s) = compressed \<and>
     (encodable E rows i \<longrightarrow> holds (re_index E) (fs_writer s) (index_of E rows i)) \<and>
     commit_inv E rows (take (fs_segment s) segments) s"

lemma scan_inv_new:
  assumes "contiguous 0 segments"
  shows "scan_inv E compressed segments rows 0 (new_scan compressed)"
proof -
  have "\<not> sg_start (segments ! k) < 0" if "k < length segments" for k
    using contiguous_ends [OF assms that] by simp
  then show ?thesis
    using row_place_start [OF assms] holds_new [of "re_index E" compressed]
    by (simp add: scan_inv_def new_scan_def commit_inv_def encodable_def index_of_def new_index_def)
qed

lemma commit_inv_grown: "commit_inv E rows kept s \<Longrightarrow> grown (fs_writer s) (fs_writer s') \<Longrightarrow>
    fs_boundaries s' = fs_boundaries s \<Longrightarrow> fs_checkpoint s' = fs_checkpoint s \<Longrightarrow> fs_committed s' = fs_committed s \<Longrightarrow>
    fs_last s' = fs_last s \<Longrightarrow> commit_inv E rows kept s'"
  unfolding commit_inv_def by (auto intro: grown_trans split: if_splits)

lemma encodable_Suc: "i < length rows \<Longrightarrow> encodable E rows (Suc i) \<longleftrightarrow> encodable E rows i \<and> re_dumps E (JObj (rows ! i)) \<noteq> None"
  by (simp add: encodable_def take_Suc_conv_app_nth)

lemma index_of_Suc: "i < length rows \<Longrightarrow> index_of E rows (Suc i) = index_of E rows i @ row_text E (rows ! i)"
  by (simp add: index_of_def take_Suc_conv_app_nth)

lemma store_row_inv:
  assumes "scan_inv E compressed segments rows i s" and "i < length rows"
    and "fs_writer s1 = fs_writer s" "fs_unencodable s1 = fs_unencodable s" and "store_row E (rows ! i) s1 = (r, s2)"
  shows "(r = Inl OSError \<and> refuses (re_index E) \<or> r = Inr ()) \<and>
    (r = Inr () \<longrightarrow> fs_unencodable s2 = (\<not> encodable E rows (Suc i)) \<and> iw_compressed (fs_writer s2) = compressed \<and>
       (encodable E rows (Suc i) \<longrightarrow> holds (re_index E) (fs_writer s2) (index_of E rows (Suc i))) \<and>
       grown (fs_writer s1) (fs_writer s2)) \<and>
    fs_count s2 = fs_count s1 \<and> fs_segment s2 = fs_segment s1 \<and> fs_boundaries s2 = fs_boundaries s1 \<and>
    fs_checkpoint s2 = fs_checkpoint s1 \<and> fs_committed s2 = fs_committed s1 \<and> fs_last s2 = fs_last s1 \<and>
    fs_first s2 = fs_first s1 \<and> fs_segment_first s2 = fs_segment_first s1"
proof (cases "encodable E rows i")
  case False
  then have "r = Inr ()" "s2 = s1" using assms by (auto simp: scan_inv_def store_row_def)
  then show ?thesis using assms(1-4) False encodable_Suc [OF assms(2)] by (simp add: scan_inv_def grown_refl)
next
  case True
  show ?thesis
  proof (cases "re_dumps E (JObj (rows ! i))")
    case None
    then have "r = Inr ()" "s2 = s1\<lparr>fs_unencodable := True\<rparr>" using assms True by (auto simp: scan_inv_def store_row_def)
    then show ?thesis using assms(1-4) None encodable_Suc [OF assms(2)] by (simp add: scan_inv_def grown_refl)
  next
    case (Some payload)
    obtain r1 w where m: "index_write (re_index E) payload (fs_writer s1) = (r1, w)" by fastforce
    have e: "r = r1" "s2 = s1\<lparr>fs_writer := w\<rparr>" using assms True Some m by (auto simp: scan_inv_def store_row_def)
    have h: "holds (re_index E) (fs_writer s1) (index_of E rows i)" using assms(1,3) True by (simp add: scan_inv_def)
    note w = index_write_holds [OF h m] index_write_grown [OF m]
    have "r1 = Inl OSError \<and> refuses (re_index E) \<or> r1 = Inr ()"
      using m w(1) index_write_raises [of "re_index E" payload "fs_writer s1"] by (cases r1) auto
    then show ?thesis
      using w e Some assms(1,3,4) True encodable_Suc [OF assms(2)] index_of_Suc [OF assms(2), of E]
      by (simp add: scan_inv_def row_text_def)
  qed
qed

lemma take_row_inv:
  assumes segs: "contiguous 0 segments" and inv: "scan_inv E compressed segments rows i s" and i: "i < length rows"
    and fits: "row_fits sid decimation segments rows i"
    and m: "take_row E (segments ! fs_segment s) (rows ! i) s = (r, s')"
  shows "(r = Inl OSError \<and> refuses (re_index E)) \<or>
    (r = Inl ValueError \<and> int (Suc i) = sg_end (segments ! fs_segment s) \<and> \<not> encodable E rows (Suc i)) \<or>
    (r = Inr () \<and> scan_inv E compressed segments rows (Suc i) s')"
proof -
  let ?p = "row_place segments (int i)"
  let ?sg = "segments ! ?p"
  let ?row = "rows ! i"
  define s1 where "s1 = s\<lparr>fs_first := (if fs_first s = None then Some (row_host ?row) else fs_first s),
               fs_segment_first := (if fs_count s = sg_start ?sg then Some (row_host ?row) else fs_segment_first s)\<rparr>"
  have place: "?p < length segments" using fits by (simp add: row_fits_def)
  note step = row_place_step [OF segs _ place]
  have seg: "fs_segment s = ?p" "fs_count s = int i" using inv by (simp_all add: scan_inv_def)
  obtain r1 s2 where st: "store_row E ?row s1 = (r1, s2)" by fastforce
  have s1: "fs_writer s1 = fs_writer s" "fs_unencodable s1 = fs_unencodable s" by (simp_all add: s1_def)
  note sr = store_row_inv [OF inv i s1 st]
  have tail: "andS (r1, s2) (\<lambda>s2.
        let s3 = s2\<lparr>fs_count := fs_count s2 + 1, fs_previous := Some ?row\<rparr> in
        if fs_count s3 = sg_end ?sg then commit_rows E ?sg ?row s3 else (Inr (), s3)) = (r, s')"
    using m st by (simp add: take_row_def s1_def seg)
  show ?thesis
  proof (cases r1)
    case (Inl e)
    then show ?thesis using tail sr by auto
  next
    case (Inr u)
    let ?s3 = "s2\<lparr>fs_count := fs_count s2 + 1, fs_previous := Some ?row\<rparr>"
    have s2: "fs_unencodable s2 = (\<not> encodable E rows (Suc i))" "iw_compressed (fs_writer s2) = compressed"
        "encodable E rows (Suc i) \<longrightarrow> holds (re_index E) (fs_writer s2) (index_of E rows (Suc i))"
        "grown (fs_writer s) (fs_writer s2)"
      using sr Inr s1(1) by simp_all
    have f: "fs_count s2 = int i" "fs_segment s2 = ?p" "fs_boundaries s2 = fs_boundaries s" "fs_checkpoint s2 = fs_checkpoint s"
        "fs_committed s2 = fs_committed s" "fs_last s2 = fs_last s" "fs_first s2 = Some (row_host (rows ! 0))"
        "fs_segment_first s2 = (if int i = sg_start ?sg then Some (row_host ?row) else fs_segment_first s)"
      using sr seg inv by (simp_all add: s1_def scan_inv_def)
    have tail: "(if fs_count ?s3 = sg_end ?sg then commit_rows E ?sg ?row ?s3 else (Inr (), ?s3)) = (r, s')"
      using tail Inr unfolding Let_def by simp
    have first: "fs_segment_first s2 = Some (row_host (rows ! nat (sg_start ?sg)))"
      using f(8) step inv seg place by (auto simp: scan_inv_def)
    have kept: "commit_inv E rows (take ?p segments) s2"
    proof -
      have "commit_inv E rows (take ?p segments) s" using inv seg by (simp add: scan_inv_def)
      then show ?thesis by (rule commit_inv_grown [OF _ s2(4) f(3-6)])
    qed
    show ?thesis
    proof (cases "int (Suc i) = sg_end ?sg")
      case False
      then have "r = Inr ()" "s' = ?s3" using tail f(1) by simp_all
      moreover have "row_place segments (int (Suc i)) = ?p" using step False by (simp add: ac_simps)
      moreover have "commit_inv E rows (take ?p segments) ?s3"
        by (rule commit_inv_grown [OF kept]) (simp_all add: grown_refl)
      ultimately show ?thesis using s2(1-3) f first by (simp add: scan_inv_def)
    next
      case True
      have next_place: "row_place segments (int (Suc i)) = Suc ?p" using step True by (simp add: ac_simps)
      show ?thesis
      proof (cases "encodable E rows (Suc i)")
        case False
        then show ?thesis using tail True f(1) s2(1) seg by (auto simp: commit_rows_def)
      next
        case enc: True
        obtain x w where c: "index_checkpoint (re_index E) (fs_writer s2) = (x, w)" by fastforce
        show ?thesis
        proof (cases x)
          case (Inl e)
          then show ?thesis using tail True f(1) s2(1) enc c index_checkpoint_raises [of "re_index E" "fs_writer s2" e w]
            by (auto simp: commit_rows_def)
        next
          case cp: (Inr cp)
          have h: "holds (re_index E) (fs_writer s2) (index_of E rows (Suc i))" using s2(3) enc by simp
          note k = index_checkpoint_holds [OF h c [unfolded cp]]
          have s': "r = Inr ()" "s' = ?s3\<lparr>fs_writer := w, fs_committed := int (Suc i), fs_checkpoint := Some cp,
              fs_last := Some (row_host ?row), fs_boundaries := fs_boundaries s @ [(sg_start ?sg, fs_segment_first s2)],
              fs_segment := Suc ?p\<rparr>"
            using tail True f s2(1) enc c cp by (auto simp: commit_rows_def)
          have t: "take (Suc ?p) segments = take ?p segments @ [?sg]" using place by (simp add: take_Suc_conv_app_nth)
          have "fs_boundaries s' = map (first_host rows) (take (Suc ?p) segments)"
            using kept s'(2) f(3) first by (simp add: t first_host_def commit_inv_def)
          moreover have "last (take (Suc ?p) segments) = ?sg" "take (Suc ?p) segments \<noteq> []" by (simp_all add: t)
          moreover have "nat (sg_end ?sg) = Suc i" "nat (sg_end ?sg - 1) = i" using True by simp_all
          ultimately have "commit_inv E rows (take (Suc ?p) segments) s'"
            using s'(2) True enc h c cp grown_refl [of w] by (auto simp: commit_inv_def)
          moreover have "\<not> sg_start (segments ! Suc ?p) < int (Suc i)" if "Suc ?p < length segments"
            using contiguous_next [OF segs that] True by simp
          ultimately show ?thesis
            using s' next_place s2(1) enc k(1,3) s2(2) f(1,7) unfolding scan_inv_def by simp
        qed
      qed
    qed
  qed
qed

lemma scan_frames_inv:
  assumes segs: "contiguous 0 segments"
  shows "scan_inv E compressed segments rows i s \<Longrightarrow> rows = take i rows @ journal_rows E lines \<Longrightarrow> i \<le> length rows \<Longrightarrow>
    chained sid decimation segments rows i \<Longrightarrow> scan_frames E sid decimation segments lines s = (r, s') \<Longrightarrow>
    (r = Inl OSError \<and> refuses (re_index E)) \<or>
    (r = Inl ValueError \<and> (\<exists>j sg. chained sid decimation segments rows j \<and> sg \<in> set segments \<and> sg_end sg = int j \<and> \<not> encodable E rows j)) \<or>
    (r = Inr () \<and> (\<exists>n. chained sid decimation segments rows n \<and> \<not> chained sid decimation segments rows (Suc n) \<and>
       scan_inv E compressed segments rows n s'))"
proof (induction lines arbitrary: i s)
  case Nil
  have "i = length rows" using arg_cong [OF Nil(2), of length] Nil(3) by simp
  then have "\<not> chained sid decimation segments rows (Suc i)" by (simp add: chained_def)
  then show ?case using Nil by auto
next
  case (Cons line lines)
  have seg: "fs_segment s = row_place segments (int i)" "fs_count s = int i" using Cons.prems(1) by (simp_all add: scan_inv_def)
  have stop: ?case if "(r, s') = (Inr (), s)" "\<not> chained sid decimation segments rows (Suc i)"
    using that Cons.prems(1,4) by auto
  show ?case
  proof (cases "length segments \<le> fs_segment s")
    case True
    then have "\<not> chained sid decimation segments rows (Suc i)"
      using seg by (auto simp: chained_def row_fits_def)
    then show ?thesis using Cons.prems(5) True by (intro stop) simp_all
  next
    case False
    show ?thesis
    proof (cases "\<exists>row. re_loads E line = Some (JObj row)")
      case no: False
      then have "journal_rows E (line # lines) = []" by (auto split: option.split json.split)
      then have "i = length rows" using arg_cong [OF Cons.prems(2), of length] Cons.prems(3) by simp
      then have "\<not> chained sid decimation segments rows (Suc i)" by (simp add: chained_def)
      moreover have "scan_frames E sid decimation segments (line # lines) s = (Inr (), s)"
        using False no by (auto simp: Let_def split: option.split json.split)
      ultimately show ?thesis using Cons.prems(5) by (intro stop) simp_all
    next
      case True
      then obtain row where row: "re_loads E line = Some (JObj row)" by blast
      have rows: "rows = take i rows @ row # journal_rows E lines" using Cons.prems(2) row by simp
      have i: "i < length rows" using arg_cong [OF rows, of length] Cons.prems(3) by simp
      have "rows ! i = (take i rows @ row # journal_rows E lines) ! i" by (rule arg_cong [OF rows])
      also have "\<dots> = row" using i by (simp add: nth_append)
      finally have at_i: "rows ! i = row" .
      have fits: "row_fits sid decimation segments rows i =
          frame_row_ok sid decimation (fs_count s) (int (fs_segment s)) (segments ! fs_segment s) (fs_previous s) row"
        using False seg at_i Cons.prems(1) by (simp add: row_fits_def scan_inv_def not_le)
      have eq: "scan_frames E sid decimation segments (line # lines) s =
          (if row_fits sid decimation segments rows i
           then andS (take_row E (segments ! fs_segment s) row s) (scan_frames E sid decimation segments lines) else (Inr (), s))"
        using False row fits by (simp add: Let_def)
      have chain: "chained sid decimation segments rows (Suc i) \<longleftrightarrow> row_fits sid decimation segments rows i"
        using Cons.prems(4) i by (simp add: chained_def)
      show ?thesis
      proof (cases "row_fits sid decimation segments rows i")
        case False
        then show ?thesis using Cons.prems(5) eq chain by (intro stop) simp_all
      next
        case ok: True
        obtain r1 s1 where t: "take_row E (segments ! fs_segment s) (rows ! i) s = (r1, s1)" by fastforce
        note tr = take_row_inv [OF segs Cons.prems(1) i ok t]
        have rest: "andS (r1, s1) (scan_frames E sid decimation segments lines) = (r, s')"
          using Cons.prems(5) eq ok t at_i by simp
        show ?thesis
        proof (cases r1)
          case (Inl e)
          then have "r = Inl e" using rest by simp
          moreover have "segments ! fs_segment s \<in> set segments" using False by (simp add: not_le)
          ultimately show ?thesis using tr Inl chain ok by (elim disjE conjE) (blast, metis, simp)
        next
          case (Inr u)
          then have inv: "scan_inv E compressed segments rows (Suc i) s1" using tr by simp
          have "rows = take (Suc i) rows @ journal_rows E lines"
            using rows i at_i by (simp add: take_Suc_conv_app_nth)
          then show ?thesis using Cons.IH [OF inv] i chain ok rest Inr by simp
        qed
      qed
    qed
  qed
qed

lemma chained_mono: "chained sid decimation segments rows n \<Longrightarrow> k \<le> n \<Longrightarrow> chained sid decimation segments rows k"
  by (auto simp: chained_def list_all_iff)

lemma chained_up_to:
  assumes "chained sid decimation segments rows j" and "\<not> chained sid decimation segments rows (Suc n)"
  shows "j \<le> n"
  using chained_mono [OF assms(1), of "Suc n"] assms(2) by (cases "j \<le> n") simp_all

lemma longest_chain: "\<exists>n. chained sid decimation segments rows n \<and> \<not> chained sid decimation segments rows (Suc n)"
proof (rule ccontr)
  assume "\<not> ?thesis"
  then have "chained sid decimation segments rows n" for n
    by (induction n) (auto simp: chained_def)
  then have "chained sid decimation segments rows (Suc (length rows))" .
  then show False by (simp add: chained_def)
qed

text \<open>The segments whose rows are all there.\<close>

definition whole_segments :: "nat \<Rightarrow> closed_segment list \<Rightarrow> closed_segment list" where
  "whole_segments n segments = takeWhile (\<lambda>sg. sg_end sg \<le> int n) segments"

lemma take_row_place: "take (row_place segments (int n)) segments = whole_segments n segments"
  by (simp add: row_place_def whole_segments_def flip: takeWhile_eq_take)

lemma whole_segments_mem:
  assumes "contiguous start segments" and "sg \<in> set segments" and "sg_end sg \<le> int n"
  shows "sg \<in> set (whole_segments n segments) \<and> sg_end sg \<le> sg_end (last (whole_segments n segments))"
  using assms
proof (induction start segments rule: contiguous.induct)
  case (2 start sg1 sgs)
  have later: "sg_end sg1 < sg_end x" if mem: "x \<in> set sgs" for x
  proof -
    obtain k where "k < length sgs" "sgs ! k = x" using mem by (auto simp: in_set_conv_nth)
    then show ?thesis using contiguous_ends [of "sg_end sg1" sgs k] 2(2) by force
  qed
  show ?case
  proof (cases "sg = sg1")
    case True
    have "sg_end sg1 \<le> sg_end (last (whole_segments n (sg1 # sgs)))"
    proof (cases "whole_segments n sgs = []")
      case False
      then have "last (whole_segments n sgs) \<in> set sgs"
        using last_in_set set_takeWhileD unfolding whole_segments_def by fast
      then show ?thesis using later False 2(4) True by (fastforce simp: whole_segments_def)
    qed (use 2(4) True in \<open>simp add: whole_segments_def\<close>)
    then show ?thesis using 2(4) True by (simp add: whole_segments_def)
  next
    case False
    then have mem: "sg \<in> set sgs" using 2(3) by simp
    then have ih: "sg \<in> set (whole_segments n sgs) \<and> sg_end sg \<le> sg_end (last (whole_segments n sgs))"
      using 2(1,2,4) by simp
    have "sg_end sg1 \<le> int n" using later [OF mem] 2(4) by simp
    then show ?thesis using ih by (auto simp: whole_segments_def)
  qed
qed simp

lemma scan_inv_commit:
  assumes "scan_inv E compressed segments rows n s"
  shows "take (fs_segment s) segments = whole_segments n segments" and "commit_inv E rows (whole_segments n segments) s"
proof -
  have "fs_segment s = row_place segments (int n)" using assms by (simp add: scan_inv_def)
  then show t: "take (fs_segment s) segments = whole_segments n segments" by (simp only: take_row_place)
  have "commit_inv E rows (take (fs_segment s) segments) s" using assms unfolding scan_inv_def by (elim conjE)
  then show "commit_inv E rows (whole_segments n segments) s" unfolding t .
qed

lemma recovered_commit:
  assumes codec: "frame_codec (ie_compress (re_index E)) (re_decode E)"
    and inv: "scan_inv E compressed segments rows n s" and kept: "whole_segments n segments \<noteq> []"
    and c: "fs_checkpoint s = Some c" and fin: "index_finish (re_index E) (index_rollback c (fs_writer s)) = (Inr (), w)"
  shows "index_text (re_decode E) compressed (iw_output w) = Some (index_of E rows (nat (sg_end (last (whole_segments n segments)))))"
    and "\<exists>encoding. index_verify (re_hash E) (re_decode E) (iw_output w) w = Inr encoding"
proof -
  obtain w0 w1 where h: "holds (re_index E) w0 (index_of E rows (nat (sg_end (last (whole_segments n segments)))))"
      "index_checkpoint (re_index E) w0 = (Inr c, w1)" "grown w1 (fs_writer s)"
    using scan_inv_commit(2) [OF inv] kept c by (auto simp: commit_inv_def)
  have comp: "iw_compressed (index_rollback c (fs_writer s)) = compressed"
    using inv by (simp add: scan_inv_def index_rollback_def)
  note f = finished_index [OF codec index_rollback_holds [OF h] fin]
  show "index_text (re_decode E) compressed (iw_output w) = Some (index_of E rows (nat (sg_end (last (whole_segments n segments)))))"
    using f(1) unfolding comp .
  show "\<exists>encoding. index_verify (re_hash E) (re_decode E) (iw_output w) w = Inr encoding"
    using f(2) by blast
qed

text \<open>The three ends of a scan: a refusal, nothing committed, and a committed prefix.\<close>

definition saved_prefix ::
  "recovery_env \<Rightarrow> jobject list \<Rightarrow> int option \<Rightarrow> bool \<Rightarrow> closed_segment list
     \<Rightarrow> (recovered_frames \<times> closed_segment list) option res \<Rightarrow> bool" where
  "saved_prefix E rows origin compressed kept result \<longleftrightarrow>
     (let count = nat (sg_end (last kept)) in
      if kept = [] then result = Inr None
      else if \<not> encodable E rows count \<or> (case origin of None \<Rightarrow> True | Some t \<Rightarrow> \<not> (0 < t \<and> t \<le> row_host (rows ! 0)))
        then result = Inl ValueError
      else (\<exists>rf. result = Inr (Some (rf, kept)) \<and> rf_count rf = int count \<and> rf_first rf = row_host (rows ! 0) \<and>
          rf_last rf = row_host (rows ! (count - 1)) \<and> rf_boundaries rf = map (first_host rows) kept \<and>
          index_text (re_decode E) compressed (rf_index rf) = Some (index_of E rows count)))"

lemma refused_prefix:
  assumes "contiguous 0 segments" and "chained sid decimation segments rows j" and "\<not> chained sid decimation segments rows (Suc n)"
    and "sg \<in> set segments" and "sg_end sg = int j" and "\<not> encodable E rows j"
  shows "saved_prefix E rows origin compressed (whole_segments n segments) (Inl ValueError)"
proof -
  have "j \<le> n" by (rule chained_up_to [OF assms(2,3)])
  then have mem: "sg \<in> set (whole_segments n segments)" "int j \<le> sg_end (last (whole_segments n segments))"
    using whole_segments_mem [OF assms(1,4), of n] assms(5) by auto
  have "set (take j rows) \<subseteq> set (take (nat (sg_end (last (whole_segments n segments)))) rows)"
    using mem(2) by (intro set_take_subset_set_take) simp
  then have "\<not> encodable E rows (nat (sg_end (last (whole_segments n segments))))"
    using assms(6) by (auto simp: encodable_def list_all_iff)
  then show ?thesis using mem(1) by (auto simp: saved_prefix_def Let_def)
qed

lemma committed_facts:
  assumes "contiguous 0 segments" and "scan_inv E compressed segments rows n s" and "whole_segments n segments \<noteq> []"
    and "kept = whole_segments n segments"
  shows "0 < sg_end (last kept)" and "fs_committed s = sg_end (last kept)"
    and "fs_last s = Some (row_host (rows ! (nat (sg_end (last kept)) - 1)))" and "encodable E rows (nat (sg_end (last kept)))"
    and "fs_boundaries s = map (first_host rows) kept" and "fs_first s = Some (row_host (rows ! 0))"
proof -
  note ci = scan_inv_commit [OF assms(2)]
  have last_in: "last kept \<in> set segments" "sg_end (last kept) \<le> int n"
    using last_in_set [OF assms(3)] set_takeWhileD unfolding assms(4) whole_segments_def by fast+
  obtain k where "k < length segments" "segments ! k = last kept" using last_in(1) by (auto simp: in_set_conv_nth)
  then show pos: "0 < sg_end (last kept)" using contiguous_ends [OF assms(1), of k] by simp
  have "nat (sg_end (last kept) - 1) = nat (sg_end (last kept)) - 1" by simp
  then show "fs_committed s = sg_end (last kept)" "fs_last s = Some (row_host (rows ! (nat (sg_end (last kept)) - 1)))"
    "encodable E rows (nat (sg_end (last kept)))" "fs_boundaries s = map (first_host rows) kept" "fs_first s = Some (row_host (rows ! 0))"
    using ci(2) assms(2,3) pos last_in(2) unfolding assms(4) by (auto simp: commit_inv_def scan_inv_def)
qed

lemma scanned_prefix:
  assumes codec: "frame_codec (ie_compress (re_index E)) (re_decode E)" and segs: "contiguous 0 segments"
    and scan: "scan_frames E sid decimation segments (journal_lines recorded) (new_scan compressed) = (Inr (), s)"
    and inv: "scan_inv E compressed segments rows n s" and kept: "kept = whole_segments n segments"
    and result: "recover_frames E sid decimation origin compressed segments recorded = result"
  shows "result = Inl OSError \<and> refuses (re_index E) \<or> saved_prefix E rows origin compressed kept result"
proof (cases "kept = []")
  case True
  then have "fs_checkpoint s = None" using scan_inv_commit(2) [OF inv] kept by (simp add: commit_inv_def)
  then show ?thesis using result scan True by (simp add: recover_frames_def saved_prefix_def)
next
  case False
  note facts = committed_facts [OF segs inv False [unfolded kept] kept]
  obtain c where c: "fs_checkpoint s = Some c" using scan_inv_commit(2) [OF inv] False kept by (auto simp: commit_inv_def)
  have t: "take (fs_segment s) segments = kept" using scan_inv_commit(1) [OF inv] kept by simp
  let ?count = "nat (sg_end (last kept))"
  let ?bad = "case origin of None \<Rightarrow> True | Some t \<Rightarrow> \<not> (0 < t \<and> t \<le> row_host (rows ! 0))"
  obtain x w where fin: "index_finish (re_index E) (index_rollback c (fs_writer s)) = (x, w)" by fastforce
  have res: "result = guardE ?bad ValueError (case x of Inl e \<Rightarrow> Inl e | Inr v \<Rightarrow>
      bindE (index_verify (re_hash E) (re_decode E) (iw_output w) w) (\<lambda>encoding.
        Inr (Some (\<lparr>rf_count = sg_end (last kept), rf_first = row_host (rows ! 0), rf_last = row_host (rows ! (?count - 1)),
                    rf_boundaries = map (first_host rows) kept, rf_index = iw_output w, rf_encoding = encoding\<rparr>, kept))))"
    unfolding result [symmetric] recover_frames_def
    by (simp only: scan prod.case sum.case c facts(2,3,5,6) option.case fin t)
  show ?thesis
  proof (cases "?bad \<or> (\<exists>e. x = Inl e)")
    case True
    show ?thesis
    proof (cases ?bad)
      case True
      then have "result = Inl ValueError" unfolding res guardE_def by (rule if_P)
      then show ?thesis unfolding saved_prefix_def Let_def using False True by (simp del: not_None_eq)
    next
      case origin: False
      then obtain e where e: "x = Inl e" using True by blast
      have "result = Inl e" unfolding res guardE_def if_not_P [OF origin] e by simp
      then show ?thesis using index_finish_raises [of "re_index E" "index_rollback c (fs_writer s)" e w] fin e by blast
    qed
  next
    case ok: False
    then have origin: "\<not> ?bad" by blast
    have x: "x = Inr ()" using ok by (cases x) auto
    have "index_finish (re_index E) (index_rollback c (fs_writer s)) = (Inr (), w)" using fin x by simp
    note rc = recovered_commit [OF codec inv False [unfolded kept] c this]
    obtain encoding where e: "index_verify (re_hash E) (re_decode E) (iw_output w) w = Inr encoding" using rc(2) by auto
    let ?rf = "\<lparr>rf_count = sg_end (last kept), rf_first = row_host (rows ! 0), rf_last = row_host (rows ! (?count - 1)),
        rf_boundaries = map (first_host rows) kept, rf_index = iw_output w, rf_encoding = encoding\<rparr>"
    have "result = Inr (Some (?rf, kept))" unfolding res guardE_def if_not_P [OF origin] x sum.case e by (simp add: bindE_def)
    moreover have "index_text (re_decode E) compressed (rf_index ?rf) = Some (index_of E rows ?count)" using rc(1) kept by simp
    moreover have "rf_count ?rf = int ?count" using facts(1) by simp
    ultimately have "\<exists>rf. result = Inr (Some (rf, kept)) \<and> rf_count rf = int ?count \<and> rf_first rf = row_host (rows ! 0) \<and>
        rf_last rf = row_host (rows ! (?count - 1)) \<and> rf_boundaries rf = map (first_host rows) kept \<and>
        index_text (re_decode E) compressed (rf_index rf) = Some (index_of E rows ?count)"
      by (intro exI [of _ ?rf]) simp
    then show ?thesis unfolding saved_prefix_def Let_def using False origin facts(4) by simp
  qed
qed

text \<open>C17: what recovery saves of an interrupted recording.  Among the segments that a checkpoint committed
  and whose files still have their digests, it keeps exactly those whose frames are all in the journal:
  the rows up to the first torn, oversized or foreign line, or the first that does not continue the
  one before.  The derived index, plain or compressed, holds exactly the rows of the kept segments;
  the counts, the first and last times and the boundaries are those of these rows.  Nothing is saved
  when no segment is whole; a row that cannot be encoded or a clock origin after the first frame is
  refused, and the only other failure is a refused write.\<close>

theorem committed_prefix_is_recovered:
  assumes "frame_codec (ie_compress (re_index E)) (re_decode E)"
    and "segments = committed_segments actual records 0 0" and "rows = journal_rows E (journal_lines recorded)"
    and "recover_frames E sid decimation origin compressed segments recorded = result"
  shows "(result = Inl OSError \<and> refuses (re_index E)) \<or>
    (\<exists>n. chained sid decimation segments rows n \<and> \<not> chained sid decimation segments rows (Suc n) \<and>
       saved_prefix E rows origin compressed (whole_segments n segments) result)"
proof -
  have segs: "contiguous 0 segments" unfolding assms(2) by (rule committed_segments_contiguous)
  obtain r s where scan: "scan_frames E sid decimation segments (journal_lines recorded) (new_scan compressed) = (r, s)" by fastforce
  have chain0: "chained sid decimation segments rows 0" by (simp add: chained_def)
  have "(r = Inl OSError \<and> refuses (re_index E)) \<or>
    (r = Inl ValueError \<and> (\<exists>j sg. chained sid decimation segments rows j \<and> sg \<in> set segments \<and> sg_end sg = int j \<and> \<not> encodable E rows j)) \<or>
    (r = Inr () \<and> (\<exists>n. chained sid decimation segments rows n \<and> \<not> chained sid decimation segments rows (Suc n) \<and>
       scan_inv E compressed segments rows n s))"
    by (rule scan_frames_inv [OF segs scan_inv_new [OF segs] _ _ chain0 scan]) (simp_all add: assms(3))
  then show ?thesis
  proof (elim disjE conjE exE)
    assume "r = Inl OSError" "refuses (re_index E)"
    then show ?thesis using assms(4) scan by (simp add: recover_frames_def)
  next
    fix j sg assume r: "r = Inl ValueError" and j: "chained sid decimation segments rows j" "sg \<in> set segments" "sg_end sg = int j" "\<not> encodable E rows j"
    obtain n where n: "chained sid decimation segments rows n" "\<not> chained sid decimation segments rows (Suc n)"
      using longest_chain by blast
    have "result = Inl ValueError" using assms(4) scan r by (simp add: recover_frames_def)
    then show ?thesis using refused_prefix [OF segs j(1) n(2) j(2-4)] n by blast
  next
    fix n assume "r = Inr ()" "chained sid decimation segments rows n" "\<not> chained sid decimation segments rows (Suc n)" "scan_inv E compressed segments rows n s"
    then show ?thesis using scanned_prefix [OF assms(1) segs _ _ refl assms(4)] scan by blast
  qed
qed

text \<open>One committed segment of one frame, and a journal with a torn second line.\<close>

definition sample_row :: jobject where
  "sample_row = [(''session_id'', JStr ''s''), (''schema'', JStr ''ylx.frame-index.v2''), (''frame'', JInt 0),
     (''segment_index'', JInt 0), (''segment_frame'', JInt 0), (''host_monotonic_ns'', JInt 7)]"

definition sample_recovery :: recovery_env where
  "sample_recovery = \<lparr>re_loads = (\<lambda>line. if line = [CHR ''f'', CHR 0x0A] then Some (JObj sample_row) else None),
     re_dumps = (\<lambda>v. Some ''row''), re_index = \<lparr>ie_compress = (\<lambda>b. b), ie_accept = (\<lambda>n. True)\<rparr>, re_hash = (\<lambda>b. b),
     re_decode = Some\<rparr>"

definition sample_segment :: jobject where
  "sample_segment = [(''index'', JInt 0), (''start_ordinal'', JInt 0), (''end_ordinal'', JInt 1),
     (''artifacts'', JObj [(''left'', JObj [(''path'', JStr ''l'')]), (''right'', JObj [(''path'', JStr ''r'')])])]"

definition sample_artifact :: "string \<Rightarrow> string \<Rightarrow> json option" where
  "sample_artifact path role = Some (JObj [(''path'', JStr path)])"

lemma sample_committed: "committed_segments sample_artifact [JObj sample_segment] 0 0 =
    [\<lparr>sg_start = 0, sg_end = 1, sg_record = sample_segment\<rparr>]"
  by (simp add: sample_segment_def segment_eye_ok_def sample_artifact_def jget_def scalar_eq_def)

lemma sample_rows: "journal_rows sample_recovery (journal_lines [CHR ''f'', CHR 0x0A, CHR ''g'']) = [sample_row]"
  by (simp add: journal_lines.simps torn_def read_line_def first_line_def max_journal_line_def sample_recovery_def)

lemma sample_codec: "frame_codec (\<lambda>b. b) Some"
  by (simp add: frame_codec_def)

theorem committed_prefix_is_recovered_witness:
  "\<exists>rf. recover_frames sample_recovery ''s'' 1 (Some 5) True [\<lparr>sg_start = 0, sg_end = 1, sg_record = sample_segment\<rparr>]
      [CHR ''f'', CHR 0x0A, CHR ''g''] = Inr (Some (rf, [\<lparr>sg_start = 0, sg_end = 1, sg_record = sample_segment\<rparr>])) \<and>
    rf_count rf = 1 \<and> rf_first rf = 7 \<and> index_text Some True (rf_index rf) = Some ''row''"
proof -
  let ?segments = "[\<lparr>sg_start = 0, sg_end = 1, sg_record = sample_segment\<rparr>]"
  have codec: "frame_codec (ie_compress (re_index sample_recovery)) (re_decode sample_recovery)"
    by (simp add: sample_recovery_def sample_codec)
  have fit: "row_fits ''s'' 1 ?segments [sample_row] 0"
    by (simp add: row_fits_def row_place_def frame_row_ok_def sample_row_def jget_def eq_str_def in_strs_def)
  have n: "n = 1" if "chained ''s'' 1 ?segments [sample_row] n" "\<not> chained ''s'' 1 ?segments [sample_row] (Suc n)" for n
    using that fit by (cases n) (auto simp: chained_def)
  show ?thesis
    using committed_prefix_is_recovered [OF codec sample_committed [symmetric] sample_rows [symmetric] refl,
        of "''s''" 1 "Some 5" True] n
    by (auto simp: saved_prefix_def refuses_def sample_recovery_def whole_segments_def encodable_def Let_def index_of_def row_text_def
        row_host_def sample_row_def jget_def)
qed

end
