(* ===== verification/AudioClock.thy ===== *)
theory AudioClock
  imports PyJson
begin

text \<open>
  \<open>audio_clock.py\<close>: the mapping of audio samples to the host's clock and the evidence for it.  \<open>fl\<close> is the
  rounding of a rational to a floating-point number; every floating-point operation of the code is the
  exact one followed by \<open>fl\<close>, an integer operand is converted first, and the division of two integers
  is rounded once.
\<close>

section \<open>Sample times\<close>

definition fdiv :: "(rat \<Rightarrow> rat) \<Rightarrow> int \<Rightarrow> int \<Rightarrow> rat" where
  "fdiv fl a b = fl (of_int a / of_int b)"

definition sample_line :: "(rat \<Rightarrow> rat) \<Rightarrow> int \<times> int \<Rightarrow> int \<times> int \<Rightarrow> int \<Rightarrow> rat" where
  "sample_line fl a b n = fl (fl (of_int (snd a)) + fdiv fl ((n - fst a) * (snd b - snd a)) (fst b - fst a))"

text \<open>\<open>bisect_right\<close> on the sorted points, and the neighbours it selects.\<close>

definition points_before :: "(int \<times> int) list \<Rightarrow> int \<Rightarrow> nat" where
  "points_before points n = length (takeWhile (\<lambda>p. fst p \<le> n) points)"

definition line_index :: "(int \<times> int) list \<Rightarrow> int \<Rightarrow> nat" where
  "line_index points n = min (max (points_before points n) 1) (length points - 1)"

definition audio_sample_time_ns :: "(rat \<Rightarrow> rat) \<Rightarrow> (int \<times> int) list \<Rightarrow> int \<Rightarrow> rat" where
  "audio_sample_time_ns fl points n =
     (let i = line_index points n in sample_line fl (points ! (i - 1)) (points ! i) n)"

section \<open>The raw clock model\<close>

record raw_anchor =
  ra_position :: int
  ra_raw :: int
  ra_mono :: int
  ra_before :: int
  ra_after :: int

fun pairs :: "'a list \<Rightarrow> ('a \<times> 'a) list" where
  "pairs (x # y # zs) = (x, y) # pairs (y # zs)"
| "pairs _ = []"

text \<open>A row of five integers between 0 and \<open>2 ^ 64\<close>.\<close>

definition raw_row :: "json \<Rightarrow> raw_anchor res" where
  "raw_row v =
     (case v of
        JList [JInt p, JInt r, JInt m, JInt b, JInt a] \<Rightarrow>
          if list_all (\<lambda>x. 0 < x \<and> x < 2 ^ 64) [p, r, m, b, a]
          then Inr \<lparr>ra_position = p, ra_raw = r, ra_mono = m, ra_before = b, ra_after = a\<rparr>
          else Inl ValueError
      | _ \<Rightarrow> Inl ValueError)"

definition mapped_time :: "raw_anchor \<Rightarrow> int" where
  "mapped_time a = ra_raw a + ra_mono a - (ra_before a + (ra_after a - ra_before a) div 2)"

definition raw_point :: "json \<Rightarrow> (raw_anchor \<times> int \<times> int) res" where
  "raw_point v =
     bindE (raw_row v) (\<lambda>a.
       guardE (\<not> (ra_raw a \<le> ra_before a \<and> ra_before a \<le> ra_after a) \<or> ra_after a - ra_before a > 1000000 \<or>
               ra_after a - ra_raw a > 20000000) ValueError
         (guardE (mapped_time a \<le> 0) ValueError (Inr (a, ra_position a, mapped_time a))))"

fun raw_points :: "json list \<Rightarrow> (raw_anchor \<times> int \<times> int) list res" where
  "raw_points [] = Inr []"
| "raw_points (v # vs) = bindE (raw_point v) (\<lambda>p. bindE (raw_points vs) (\<lambda>ps. Inr (p # ps)))"

definition raw_span :: "(rat \<Rightarrow> rat) \<Rightarrow> raw_anchor \<Rightarrow> raw_anchor \<Rightarrow> rat" where
  "raw_span fl a b = fl (fl (of_int (ra_before b - ra_before a)) + fdiv fl ((ra_after b - ra_before b) - (ra_after a - ra_before a)) 2)"

definition bridge_uncertainty :: "(rat \<Rightarrow> rat) \<Rightarrow> raw_anchor \<Rightarrow> raw_anchor \<Rightarrow> rat" where
  "bridge_uncertainty fl a b = fdiv fl (ra_after b - ra_before b + ra_after a - ra_before a) 2"

definition bridge_ok :: "(rat \<Rightarrow> rat) \<Rightarrow> int \<Rightarrow> int \<Rightarrow> (raw_anchor \<times> int \<times> int) \<times> (raw_anchor \<times> int \<times> int) \<Rightarrow> bool" where
  "bridge_ok fl rate buffer pair =
     (case pair of
        ((a, p), (b, q)) \<Rightarrow>
          ra_position a < ra_position b \<and> ra_raw a < ra_raw b \<and> snd p < snd q \<and> ra_after a < ra_before b \<and> ra_mono a < ra_mono b \<and>
          ra_position b - ra_position a \<le> rate + buffer \<and>
          \<bar>fl (fl (of_int (ra_mono b - ra_mono a)) - raw_span fl a b)\<bar> \<le>
            fl (fl (raw_span fl a b * fl (1 / 100)) + bridge_uncertainty fl a b))"

record clock_model =
  cm_points :: "(int \<times> int) list"
  cm_rate :: rat
  cm_residual :: rat
  cm_start :: rat
  cm_end :: rat

text \<open>The largest distance of the anchors from the line through the first and the last.\<close>

definition anchor_residual :: "(rat \<Rightarrow> rat) \<Rightarrow> rat \<Rightarrow> int \<times> int \<Rightarrow> int \<times> int \<Rightarrow> rat" where
  "anchor_residual fl slope first p = \<bar>fl (fl (of_int (snd p - snd first)) - fl (fl (of_int (fst p - fst first)) * slope))\<bar>"

definition max_residual :: "(rat \<Rightarrow> rat) \<Rightarrow> rat \<Rightarrow> (int \<times> int) list \<Rightarrow> rat" where
  "max_residual fl slope points = Max (set (map (anchor_residual fl slope (hd points)) points))"

definition anchor_slope :: "(rat \<Rightarrow> rat) \<Rightarrow> (int \<times> int) list \<Rightarrow> rat" where
  "anchor_slope fl points = fdiv fl (snd (last points) - snd (hd points)) (fst (last points) - fst (hd points))"

definition rate_error :: "(rat \<Rightarrow> rat) \<Rightarrow> rat \<Rightarrow> int \<Rightarrow> rat" where
  "rate_error fl actual rate = \<bar>fl (fl (actual / fl (of_int rate)) - 1)\<bar>"

definition raw_audio_clock_model ::
  "(rat \<Rightarrow> rat) \<Rightarrow> json \<Rightarrow> int \<Rightarrow> int \<Rightarrow> int \<Rightarrow> int \<Rightarrow> clock_model res" where
  "raw_audio_clock_model fl anchors rate count period buffer =
     guardE (rate \<le> 0 \<or> count \<le> 0 \<or> period \<le> 0 \<or> buffer \<le> 0 \<or> buffer < period) ValueError
      (case anchors of
         JList rows \<Rightarrow>
           guardE (length rows < 2) ValueError
            (bindE (raw_points rows) (\<lambda>ps.
               guardE (\<not> list_all (bridge_ok fl rate buffer) (pairs ps)) ValueError
                (let raws = map (\<lambda>(a, p). (ra_position a, ra_raw a)) ps; points = map snd ps;
                     final = fst (last raws); slope = anchor_slope fl raws; actual = fl (fl 1000000000 / slope);
                     residual = max_residual fl slope raws in
                 guardE (fst (hd raws) > buffer + period \<or> \<not> (count \<le> final \<and> final \<le> count + buffer)) ValueError
                 (guardE (rate_error fl actual rate > fl (1 / 100) \<or> residual > 20000000) ValueError
                   (Inr \<lparr>cm_points = points, cm_rate = actual, cm_residual = residual,
                         cm_start = audio_sample_time_ns fl points 0, cm_end = audio_sample_time_ns fl points count\<rparr>)))))
       | _ \<Rightarrow> Inl ValueError)"

section \<open>Accepted models\<close>

text \<open>What is needed of the rounding: it is monotone, and exact on the integers a model mentions.\<close>

definition rounding :: "(rat \<Rightarrow> rat) \<Rightarrow> bool" where
  "rounding fl \<longleftrightarrow> mono fl"

definition exact_on :: "(rat \<Rightarrow> rat) \<Rightarrow> (int \<times> int) list \<Rightarrow> bool" where
  "exact_on fl points \<longleftrightarrow> fl 0 = 0 \<and>
     list_all (\<lambda>p. fl (of_int (snd p)) = of_int (snd p) \<and> list_all (\<lambda>q. fl (of_int (snd p - snd q)) = of_int (snd p - snd q)) points) points"

definition increasing :: "(int \<times> int) list \<Rightarrow> bool" where
  "increasing points \<longleftrightarrow> sorted_wrt (\<lambda>p q. fst p < fst q \<and> snd p < snd q) points"

lemma pairs_increasing:
  "list_all (\<lambda>(p, q). fst p < fst q \<and> snd p < snd q) (pairs points) \<Longrightarrow> increasing (points :: (int \<times> int) list)"
proof (induction points rule: pairs.induct)
  case (1 x y zs)
  then have "increasing (y # zs)" "fst x < fst y" "snd x < snd y" by auto
  then show ?case by (fastforce simp: increasing_def)
qed (simp_all add: increasing_def)

lemma raw_point_position: "raw_point v = Inr (a, p) \<Longrightarrow> fst p = ra_position a"
  by (auto simp: raw_point_def bindE_eq_Inr)

lemma raw_points_positions: "raw_points vs = Inr ps \<Longrightarrow> list_all (\<lambda>(a, p). fst p = ra_position a) ps \<and> length ps = length vs"
  by (induction vs arbitrary: ps) (auto simp: bindE_eq_Inr dest: raw_point_position)

lemma bridges_increasing:
  "list_all (\<lambda>(a, p). fst p = ra_position a) ps \<Longrightarrow> list_all (bridge_ok fl rate buffer) (pairs ps) \<Longrightarrow>
     list_all (\<lambda>(p, q). fst p < fst q \<and> snd p < snd q) (pairs (map snd ps))"
  by (induction ps rule: pairs.induct) (auto simp: bridge_ok_def)

lemma accepted_model_increasing:
  assumes "raw_audio_clock_model fl anchors rate count period buffer = Inr m"
  shows "increasing (cm_points m)" and "2 \<le> length (cm_points m)"
proof -
  obtain rows ps where r: "anchors = JList rows" "2 \<le> length rows" "raw_points rows = Inr ps"
      "list_all (bridge_ok fl rate buffer) (pairs ps)" "cm_points m = map snd ps"
    using assms by (auto simp: raw_audio_clock_model_def Let_def bindE_eq_Inr guardE_def split: json.splits if_splits)
  note p = raw_points_positions [OF r(3)]
  show "increasing (cm_points m)"
    unfolding r(5) using bridges_increasing p r(4) by (intro pairs_increasing) blast
  show "2 \<le> length (cm_points m)" using r(2,5) p by simp
qed

text \<open>On the points of an accepted model the mapping never goes back.\<close>

lemma sample_line_mono:
  assumes "rounding fl" and "fst a < fst b" and "snd a < snd b" and "n \<le> m"
  shows "sample_line fl a b n \<le> sample_line fl a b m"
proof -
  have "of_int ((n - fst a) * (snd b - snd a)) / of_int (fst b - fst a) \<le> (of_int ((m - fst a) * (snd b - snd a)) / of_int (fst b - fst a) :: rat)"
    using assms(2-4) by (intro divide_right_mono) (simp_all add: mult_right_mono del: of_int_mult of_int_diff)
  then show ?thesis
    using assms(1) unfolding sample_line_def fdiv_def rounding_def by (meson add_left_mono monoD)
qed

lemma sample_line_knots:
  assumes "rounding fl" and "fl 0 = 0" and "fst a < fst b" and "snd a < snd b"
    and "fl (of_int (snd a)) = of_int (snd a)" "fl (of_int (snd b)) = of_int (snd b)"
    and "fl (of_int (snd b - snd a)) = of_int (snd b - snd a)"
  shows "n \<le> fst b \<Longrightarrow> sample_line fl a b n \<le> of_int (snd b)" and "fst a \<le> n \<Longrightarrow> of_int (snd a) \<le> sample_line fl a b n"
proof -
  let ?q = "of_int ((n - fst a) * (snd b - snd a)) / of_int (fst b - fst a) :: rat"
  have sum: "of_int (snd a) + of_int (snd b - snd a) = (of_int (snd b) :: rat)" by simp
  have mono_fl: "x \<le> y \<Longrightarrow> fl x \<le> fl y" for x y using assms(1) by (auto simp: rounding_def mono_def)
  show "sample_line fl a b n \<le> of_int (snd b)" if "n \<le> fst b"
  proof -
    have "?q \<le> of_int ((fst b - fst a) * (snd b - snd a)) / of_int (fst b - fst a)"
      using assms(3,4) that by (intro divide_right_mono) (simp_all add: mult_right_mono del: of_int_mult of_int_diff)
    also have "\<dots> = of_int (snd b - snd a)" using assms(3) by simp
    finally have "fl ?q \<le> of_int (snd b - snd a)" using mono_fl [of ?q] assms(7) by metis
    then have "fl (of_int (snd a)) + fl ?q \<le> of_int (snd b)" using assms(5) sum by linarith
    then show ?thesis unfolding sample_line_def fdiv_def using mono_fl assms(6) by metis
  qed
  show "of_int (snd a) \<le> sample_line fl a b n" if "fst a \<le> n"
  proof -
    have "0 \<le> ?q" using assms(3,4) that by (simp del: of_int_mult of_int_diff)
    then have "0 \<le> fl ?q" using mono_fl assms(2) by metis
    then have "of_int (snd a) \<le> fl (of_int (snd a)) + fl ?q" using assms(5) by simp
    then show ?thesis unfolding sample_line_def fdiv_def using mono_fl assms(5) by metis
  qed
qed

lemma points_before_mono: "n \<le> m \<Longrightarrow> points_before points n \<le> points_before points m"
  by (induction points) (auto simp: points_before_def)

lemma points_before_nth:
  assumes "increasing points" and "i < length points"
  shows "i < points_before points n \<longleftrightarrow> fst (points ! i) \<le> n"
  using assms
proof (induction points arbitrary: i)
  case (Cons p points)
  show ?case
  proof (cases i)
    case 0
    then show ?thesis by (simp add: points_before_def)
  next
    case (Suc k)
    have "fst p < fst (points ! k)" using Cons.prems Suc by (simp add: increasing_def)
    moreover have "k < points_before points n \<longleftrightarrow> fst (points ! k) \<le> n" using Cons Suc by (simp add: increasing_def)
    ultimately show ?thesis using Suc by (auto simp: points_before_def)
  qed
qed simp

lemma sample_time_mono:
  assumes "increasing points" and "2 \<le> length points" and "rounding fl" and "exact_on fl points" and "n \<le> m"
  shows "audio_sample_time_ns fl points n \<le> audio_sample_time_ns fl points m"
proof -
  let ?i = "line_index points n" and ?j = "line_index points m"
  have ij: "?i \<le> ?j" "1 \<le> ?i" "?j < length points"
    using points_before_mono [OF assms(5), of points] assms(2) by (auto simp: line_index_def)
  have up: "fst (points ! k) < fst (points ! l) \<and> snd (points ! k) < snd (points ! l)" if "k < l" "l < length points" for k l
    using assms(1) that by (simp add: increasing_def sorted_wrt_iff_nth_less)
  have ex: "fl 0 = 0" "k < length points \<Longrightarrow> fl (of_int (snd (points ! k))) = of_int (snd (points ! k))"
    "k < length points \<Longrightarrow> l < length points \<Longrightarrow> fl (of_int (snd (points ! k) - snd (points ! l))) = of_int (snd (points ! k) - snd (points ! l))" for k l
    using assms(4) by (auto simp: exact_on_def list_all_length)
  show ?thesis
  proof (cases "?i = ?j")
    case True
    then show ?thesis
      using sample_line_mono [OF assms(3) _ _ assms(5), of "points ! (?i - 1)" "points ! ?i"] up [of "?i - 1" ?i] ij
      by (simp add: audio_sample_time_ns_def Let_def)
  next
    case False
    then have lt: "?i < ?j" using ij(1) by simp
    have "points_before points n \<le> ?i" using lt ij(3) by (auto simp: line_index_def)
    then have n: "n < fst (points ! ?i)" using points_before_nth [OF assms(1), of ?i n] lt ij(3) by auto
    have "?j - 1 < points_before points m" using lt ij(2) by (auto simp: line_index_def)
    then have m: "fst (points ! (?j - 1)) \<le> m" using points_before_nth [OF assms(1), of "?j - 1" m] ij(3) by auto
    have "audio_sample_time_ns fl points n \<le> of_int (snd (points ! ?i))"
      unfolding audio_sample_time_ns_def Let_def
      by (rule sample_line_knots(1) [OF assms(3) ex(1)]) (use up [of "?i - 1" ?i] ex ij lt n in auto)
    also have "\<dots> \<le> of_int (snd (points ! (?j - 1)))"
    proof (cases "?i = ?j - 1")
      case False
      then have "?i < ?j - 1" "?j - 1 < length points" using lt ij(3) by linarith+
      then show ?thesis using up [of ?i "?j - 1"] by simp
    qed simp
    also have "\<dots> \<le> audio_sample_time_ns fl points m"
      unfolding audio_sample_time_ns_def Let_def
      by (rule sample_line_knots(2) [OF assms(3) ex(1)]) (use up [of "?j - 1" ?j] ex ij lt m in auto)
    finally show ?thesis .
  qed
qed

section \<open>The report\<close>

text \<open>\<open>type(value) in (int, float) and math.isfinite(value)\<close> with its value.\<close>

definition finite_number :: "json \<Rightarrow> rat option" where
  "finite_number v = (case v of JInt i \<Rightarrow> Some (of_int i) | JFloat (Fin r) \<Rightarrow> Some r | _ \<Rightarrow> None)"

definition near :: "(rat \<Rightarrow> rat) \<Rightarrow> json \<Rightarrow> rat \<Rightarrow> bool" where
  "near fl v expected =
     (case finite_number v of
        None \<Rightarrow> False
      | Some x \<Rightarrow> \<bar>fl (fl x - expected)\<bar> \<le> fl (1 / 1000000000))"

definition pcm_bytes_ok :: "int \<Rightarrow> int \<Rightarrow> json \<Rightarrow> bool" where
  "pcm_bytes_ok payload header v =
     (case v of
        JObj a \<Rightarrow>
          if eq_str (jget a ''media_type'') ''audio/flac''
          then (case jget a ''storage_encoding'' of JObj enc \<Rightarrow> eq_num (jget enc ''pcm_bytes'') payload | _ \<Rightarrow> False)
          else eq_num (jget a ''bytes'') (payload + header)
      | _ \<Rightarrow> False)"

definition audio_segment_end :: "(rat \<Rightarrow> rat) \<Rightarrow> int \<Rightarrow> int \<Rightarrow> int \<Rightarrow> int \<Rightarrow> json \<Rightarrow> int option" where
  "audio_segment_end fl rate channels index previous v =
     (case v of
        JObj s \<Rightarrow>
          (case (jget s ''start_sample'', jget s ''end_sample'', jget s ''index'', jget s ''pcm_payload_bytes'', jget s ''wav_header_bytes'') of
             (JInt first, JInt final, JInt n, JInt payload, JInt header) \<Rightarrow>
               if n = index \<and> first = previous \<and> first < final \<and>
                  near fl (jget s ''start_time_seconds'') (fdiv fl first rate) \<and>
                  near fl (jget s ''end_time_seconds'') (fdiv fl final rate) \<and>
                  44 \<le> header \<and> header \<le> 65536 \<and> payload = (final - first) * channels * 2 \<and>
                  pcm_bytes_ok payload header (jget s ''artifact'')
               then Some final else None
           | _ \<Rightarrow> None)
      | _ \<Rightarrow> None)"

fun audio_segments_end :: "(rat \<Rightarrow> rat) \<Rightarrow> int \<Rightarrow> int \<Rightarrow> int \<Rightarrow> int \<Rightarrow> json list \<Rightarrow> int option" where
  "audio_segments_end fl rate channels index previous [] = Some previous"
| "audio_segments_end fl rate channels index previous (v # vs) =
     (case audio_segment_end fl rate channels index previous v of
        None \<Rightarrow> None
      | Some final \<Rightarrow> audio_segments_end fl rate channels (index + 1) final vs)"

definition clock_keys :: "string list" where
  "clock_keys = [''schema'', ''clock'', ''timestamp_source'', ''continuity'', ''device'', ''anchors'', ''period_frames'',
     ''buffer_frames'', ''thread_started_monotonic_ns'', ''thread_stopped_monotonic_ns'', ''sample_start_monotonic_ns'',
     ''sample_end_monotonic_ns'', ''max_residual_ns'', ''queue_capacity_frames'', ''queue_peak_frames'', ''max_write_ns'',
     ''xrun_count'', ''suspend_count'', ''session_start_monotonic_ns'']"

definition clock_integers :: "string list" where
  "clock_integers = drop 6 clock_keys"

definition clock_int :: "jobject \<Rightarrow> string \<Rightarrow> int" where
  "clock_int clock key = (case jget clock key of JInt i \<Rightarrow> i | _ \<Rightarrow> 0)"

definition raw_clock :: "jobject \<Rightarrow> bool" where
  "raw_clock clock = eq_str (jget clock ''schema'') ''openaria.audio-clock.v2''"

definition clock_fields_ok :: "jobject \<Rightarrow> bool" where
  "clock_fields_ok clock \<longleftrightarrow>
     has_keys clock clock_keys \<and>
     in_strs (jget clock ''schema'') [''openaria.audio-clock.v1'', ''openaria.audio-clock.v2''] \<and>
     eq_str (jget clock ''clock'') ''host_monotonic'' \<and>
     eq_str (jget clock ''timestamp_source'') (if raw_clock clock then ''alsa_htimestamp_dma_raw'' else ''alsa_htimestamp_dma'') \<and>
     eq_str (jget clock ''continuity'') ''verified'' \<and> is_nonempty_str (jget clock ''device'') \<and>
     list_all (\<lambda>k. int_in (jget clock k) (\<lambda>n. 0 \<le> n)) clock_integers \<and>
     clock_int clock ''xrun_count'' = 0 \<and> clock_int clock ''suspend_count'' = 0 \<and>
     0 < clock_int clock ''period_frames'' \<and> clock_int clock ''period_frames'' \<le> clock_int clock ''buffer_frames'' \<and>
     0 < clock_int clock ''queue_peak_frames'' \<and> clock_int clock ''queue_peak_frames'' \<le> clock_int clock ''queue_capacity_frames'' \<and>
     clock_int clock ''max_residual_ns'' \<le> 20000000"

fun plain_anchors :: "json list \<Rightarrow> (int \<times> int) list option" where
  "plain_anchors [] = Some []"
| "plain_anchors (v # vs) =
     (case v of
        JList [JInt n, JInt t] \<Rightarrow>
          if 0 < n \<and> 0 < t then map_option (\<lambda>ps. (n, t) # ps) (plain_anchors vs) else None
      | _ \<Rightarrow> None)"

text \<open>The points of either schema, with the model of the raw one.\<close>

definition clock_points ::
  "(rat \<Rightarrow> rat) \<Rightarrow> jobject \<Rightarrow> int \<Rightarrow> int \<Rightarrow> ((int \<times> int) list \<times> clock_model option) res" where
  "clock_points fl clock rate count =
     (if raw_clock clock then
        bindE (raw_audio_clock_model fl (jget clock ''anchors'') rate count (clock_int clock ''period_frames'') (clock_int clock ''buffer_frames''))
          (\<lambda>m. Inr (cm_points m, Some m))
      else
        (case jget clock ''anchors'' of
           JList vs \<Rightarrow>
             (case plain_anchors vs of
                None \<Rightarrow> Inl ValueError
              | Some points \<Rightarrow> Inr (points, None))
         | _ \<Rightarrow> Inl ValueError))"

definition fitted_model :: "(rat \<Rightarrow> rat) \<Rightarrow> (int \<times> int) list \<Rightarrow> int \<Rightarrow> clock_model" where
  "fitted_model fl points count =
     (let slope = anchor_slope fl points; first = hd points;
          start = fl (fl (of_int (snd first)) - fl (fl (of_int (fst first)) * slope)) in
      \<lparr>cm_points = points, cm_rate = fl (fl 1000000000 / slope), cm_residual = max_residual fl slope points,
       cm_start = start, cm_end = fl (start + fl (fl (of_int count) * slope))\<rparr>)"

definition distance :: "(rat \<Rightarrow> rat) \<Rightarrow> rat \<Rightarrow> int \<Rightarrow> rat" where
  "distance fl x n = \<bar>fl (x - fl (of_int n))\<bar>"

definition clock_evidence_ok ::
  "(rat \<Rightarrow> rat) \<Rightarrow> jobject \<Rightarrow> int \<Rightarrow> int \<Rightarrow> rat \<Rightarrow> rat \<Rightarrow> rat \<Rightarrow> (int \<times> int) list \<Rightarrow> clock_model \<Rightarrow> bool" where
  "clock_evidence_ok fl clock rate count start stop session_duration points m \<longleftrightarrow>
     (let ci = clock_int clock; origin = ci ''session_start_monotonic_ns''; buffer = ci ''buffer_frames'' in
      rate_error fl (cm_rate m) rate \<le> fl (1 / 100) \<and>
      distance fl (cm_residual m) (ci ''max_residual_ns'') \<le> 2 \<and>
      distance fl (cm_start m) (ci ''sample_start_monotonic_ns'') \<le> 2 \<and>
      distance fl (cm_end m) (ci ''sample_end_monotonic_ns'') \<le> 2 \<and>
      distance fl (fl (fl start * fl 1000000000)) (ci ''sample_start_monotonic_ns'' - origin) \<le> 2 \<and>
      distance fl (fl (fl stop * fl 1000000000)) (ci ''sample_end_monotonic_ns'' - origin) \<le> 2 \<and>
      origin \<le> ci ''thread_started_monotonic_ns'' \<and> ci ''thread_started_monotonic_ns'' < ci ''thread_stopped_monotonic_ns'' \<and>
      of_int (ci ''thread_started_monotonic_ns'' - 20000000) \<le> cm_start m \<and>
      cm_end m \<le> of_int (ci ''thread_stopped_monotonic_ns'' + 20000000) \<and>
      of_int (ci ''thread_stopped_monotonic_ns'' - origin) \<le> fl (fl (fl session_duration * fl 1000000000) + 1000) \<and>
      fst (hd points) \<le> buffer + ci ''period_frames'' \<and> count \<le> fst (last points) \<and> fst (last points) \<le> count + buffer \<and>
      list_all (\<lambda>(a, b). fst b - fst a \<le> rate + buffer) (pairs points))"

record clock_report =
  cr_continuity :: string
  cr_rate :: "rat option"
  cr_timeline :: "(int \<times> rat) list"

text \<open>\<open>sample_timeline\<close> of a raw clock.\<close>

definition sample_timeline :: "(rat \<Rightarrow> rat) \<Rightarrow> jobject \<Rightarrow> int \<Rightarrow> (int \<times> int) list \<Rightarrow> (int \<times> rat) list" where
  "sample_timeline fl clock count points =
     (let ci = clock_int clock in
      map (\<lambda>(n, t). (n, fdiv fl (t - ci ''session_start_monotonic_ns'') 1000000000))
        ((0, ci ''sample_start_monotonic_ns'') # filter (\<lambda>p. 0 < fst p \<and> fst p < count) points @ [(count, ci ''sample_end_monotonic_ns'')]))"

definition verified_clock ::
  "(rat \<Rightarrow> rat) \<Rightarrow> jobject \<Rightarrow> int \<Rightarrow> int \<Rightarrow> rat \<Rightarrow> rat \<Rightarrow> rat \<Rightarrow> clock_report res" where
  "verified_clock fl clock rate count start stop session_duration =
     guardE (\<not> clock_fields_ok clock) ValueError
      (bindE (clock_points fl clock rate count) (\<lambda>(points, raw).
         guardE (length points < 2 \<or> list_ex (\<lambda>p. fst p \<le> 0 \<or> snd p \<le> 0) points \<or>
                 \<not> list_all (\<lambda>(a, b). fst a < fst b \<and> snd a < snd b) (pairs points)) ValueError
          (let m = (case raw of Some m \<Rightarrow> m | None \<Rightarrow> fitted_model fl points count) in
           guardE (\<not> clock_evidence_ok fl clock rate count start stop session_duration points m) ValueError
            (Inr \<lparr>cr_continuity = ''verified'', cr_rate = Some (cm_rate m),
                  cr_timeline = (if raw = None then [] else sample_timeline fl clock count points)\<rparr>))))"

text \<open>\<open>audio_clock_report\<close>.  Reading the required keys of a document that lacks them raises; the caller
  treats every failure alike, so each is a \<open>ValueError\<close> here.\<close>

definition audio_clock_report :: "(rat \<Rightarrow> rat) \<Rightarrow> jobject \<Rightarrow> json \<Rightarrow> clock_report res" where
  "audio_clock_report fl audio session_duration =
     (if eq_str (jget audio ''state'') ''not_recorded'' then Inr \<lparr>cr_continuity = ''no-audio'', cr_rate = None, cr_timeline = []\<rparr>
      else
        (case (jget audio ''sample_rate'', jget audio ''sample_count'', jget audio ''channels'', jget audio ''segments'', jget audio ''sync'') of
           (JInt rate, JInt count, JInt channels, JList segments, JObj sync) \<Rightarrow>
             guardE (rate \<le> 0 \<or> count \<le> 0 \<or> segments = [] \<or> channels \<le> 0) ValueError
             (guardE (audio_segments_end fl rate channels 0 0 segments \<noteq> Some count) ValueError
               (case (finite_number (jget sync ''start_time_seconds''), finite_number (jget sync ''end_time_seconds''),
                      finite_number session_duration) of
                  (Some start, Some stop, Some session) \<Rightarrow>
                    guardE (\<not> (0 \<le> start \<and> start < stop \<and> stop \<le> fl (fl session + fl (1 / 1000000)))) ValueError
                    (case jget audio ''capture_clock'' of
                       JNull \<Rightarrow> Inr \<lparr>cr_continuity = ''unknown'', cr_rate = None, cr_timeline = []\<rparr>
                     | JObj clock \<Rightarrow> verified_clock fl clock rate count start stop session
                     | _ \<Rightarrow> Inl ValueError)
                | _ \<Rightarrow> Inl ValueError))
         | _ \<Rightarrow> Inl ValueError))"

end
