(* ===== verification/RecoveryMedia.thy ===== *)
theory RecoveryMedia
  imports CrashRecovery AudioClock
begin

text \<open>
  \<open>recording/recovery.py\<close>, the other media of an interrupted recording: the IMU samples of the saved
  interval, the audio up to the last sample on the observed clock before the end of the saved video, and
  the publication of the recovered recording.
\<close>

section \<open>The IMU journal\<close>

text \<open>\<open>imu_prefix\<close>: the samples of the interval, up to the first bad line.\<close>

fun imu_prefix :: "(string \<Rightarrow> json option) \<Rightarrow> string \<Rightarrow> int \<Rightarrow> rat \<Rightarrow> string list \<Rightarrow> json list" where
  "imu_prefix loads sid origin limit [] = []"
| "imu_prefix loads sid origin limit (line # lines) =
     (case loads line of
        Some (JObj s) \<Rightarrow>
          (case jget s ''host_monotonic_ns'' of
             JInt t \<Rightarrow>
               if eq_str (jget s ''session_id'') sid \<and> 0 < t
               then (if origin \<le> t \<and> of_int t \<le> limit then [JObj s] else []) @ imu_prefix loads sid origin limit lines
               else []
           | _ \<Rightarrow> [])
      | _ \<Rightarrow> [])"

text \<open>\<open>_write_records\<close>.\<close>

fun put_records :: "recovery_env \<Rightarrow> json list \<Rightarrow> nat \<Rightarrow> index_writer \<Rightarrow> nat res \<times> index_writer" where
  "put_records E [] n w = (Inr n, w)"
| "put_records E (v # vs) n w =
     (case re_dumps E v of
        None \<Rightarrow> (Inr n, w)
      | Some payload \<Rightarrow> andS (index_write (re_index E) payload w) (put_records E vs (n + 1)))"

definition write_records :: "recovery_env \<Rightarrow> bool \<Rightarrow> json list \<Rightarrow> (nat \<times> string \<times> (nat \<times> string) option) res" where
  "write_records E compressed vs =
     (case put_records E vs 0 (new_index compressed) of
        (Inl e, w) \<Rightarrow> Inl e
      | (Inr n, w) \<Rightarrow>
          (case index_finish (re_index E) w of
             (Inl e, w1) \<Rightarrow> Inl e
           | (Inr u, w1) \<Rightarrow>
               bindE (index_verify (re_hash E) (re_decode E) (iw_output w1) w1) (\<lambda>encoding. Inr (n, iw_output w1, encoding))))"

definition encodable_prefix :: "recovery_env \<Rightarrow> json list \<Rightarrow> json list" where
  "encodable_prefix E vs = takeWhile (\<lambda>v. re_dumps E v \<noteq> None) vs"

section \<open>How many audio samples are kept\<close>

text \<open>The bisection over the samples of the raw clock.\<close>

function last_sample_before :: "(int \<Rightarrow> rat) \<Rightarrow> rat \<Rightarrow> int \<Rightarrow> int \<Rightarrow> int" where
  "last_sample_before time boundary low high =
     (if low < high then
        (let middle = (low + high + 1) div 2 in
         if time middle \<le> boundary then last_sample_before time boundary middle high
         else last_sample_before time boundary low (middle - 1))
      else low)"
  by pat_completeness auto
termination
  by (relation "measure (\<lambda>(t, b, low, high). nat (high - low))") auto

declare last_sample_before.simps [simp del]

text \<open>\<open>boundary\<close> is \<open>origin + video_end * 1e9\<close>.  For the checkpoints of the first schema, whose anchors lie on
  one line, the target is computed from that line.\<close>

definition raw_target :: "(rat \<Rightarrow> rat) \<Rightarrow> clock_model \<Rightarrow> int \<Rightarrow> int \<Rightarrow> rat \<Rightarrow> int" where
  "raw_target fl m stored final boundary =
     last_sample_before (audio_sample_time_ns fl (cm_points m)) boundary 0 (min stored final)"

definition line_target :: "(rat \<Rightarrow> rat) \<Rightarrow> (int \<times> int) list \<Rightarrow> int \<Rightarrow> int \<Rightarrow> rat \<Rightarrow> int option" where
  "line_target fl anchors stored rate boundary =
     (let slope = anchor_slope fl anchors;
          start = fl (fl (of_int (snd (hd anchors))) - fl (fl (of_int (fst (hd anchors))) * slope));
          target = min stored \<lfloor>fl (fl (boundary - start) / slope)\<rfloor> in
      if \<bar>fl (fl (fl (fl 1000000000 / slope) / fl (of_int rate)) - 1)\<bar> > fl (1 / 100) then None else Some target)"

section \<open>The audio segments\<close>

record wave_info =
  wi_frames :: int
  wi_channels :: int
  wi_width :: int
  wi_rate :: int
  wi_size :: int

record pcm_part =
  pp_start :: int
  pp_end :: int
  pp_path :: string
  pp_tail :: bool

text \<open>\<open>wave\<close> opens a file, \<open>tail\<close> copies the first samples of it to the recovered tail.\<close>

fun pcm_prefix ::
  "(string \<Rightarrow> wave_info res) \<Rightarrow> (string \<Rightarrow> int \<Rightarrow> unit res) \<Rightarrow> int \<Rightarrow> int \<Rightarrow> int \<Rightarrow> json list \<Rightarrow> int \<Rightarrow> pcm_part list res" where
  "pcm_prefix wave tail channels rate target [] samples = Inr []"
| "pcm_prefix wave tail channels rate target (v # vs) samples =
     (if target \<le> samples then Inr []
      else
        (case v of
           JObj d \<Rightarrow>
             (case jget d ''path'' of
                JStr path \<Rightarrow>
                  bindE (wave path) (\<lambda>w.
                    if wi_channels w \<noteq> channels \<or> wi_width w \<noteq> 2 \<or> wi_rate w \<noteq> rate \<or>
                       \<not> eq_num (jget d ''start_sample'') samples \<or> \<not> eq_num (jget d ''end_sample'') (samples + wi_frames w) \<or>
                       wi_size w \<noteq> 44 + wi_frames w * channels * 2
                    then Inr []
                    else
                      (let selected = min (wi_frames w) (target - samples) in
                       bindE (if selected \<noteq> wi_frames w then tail path selected else Inr ()) (\<lambda>_.
                       bindE (pcm_prefix wave tail channels rate target vs (samples + selected)) (\<lambda>parts.
                         Inr (\<lparr>pp_start = samples, pp_end = samples + selected,
                               pp_path = (if selected \<noteq> wi_frames w then ''recovery/audio-tail.wav'' else path),
                               pp_tail = (selected \<noteq> wi_frames w)\<rparr> # parts)))))
              | _ \<Rightarrow> Inl TypeError)
         | _ \<Rightarrow> Inl TypeError))"

text \<open>\<open>selected_anchors\<close>: the observations through the first one that covers the samples.\<close>

fun through :: "int \<Rightarrow> (int \<times> 'a) list \<Rightarrow> (int \<times> 'a) list" where
  "through samples [] = []"
| "through samples (a # as) = (if samples \<le> fst a then [a] else a # through samples as)"

section \<open>What is kept\<close>

lemma put_records_holds:
  assumes "holds (re_index E) w data" and "put_records E vs n w = (r, w')"
  shows "(r = Inl OSError \<and> refuses (re_index E)) \<or>
    (r = Inr (n + length (encodable_prefix E vs)) \<and> iw_compressed w' = iw_compressed w \<and>
     holds (re_index E) w' (data @ concat (map (\<lambda>v. the (re_dumps E v)) (encodable_prefix E vs))))"
  using assms
proof (induction vs arbitrary: n w data)
  case (Cons v vs)
  show ?case
  proof (cases "re_dumps E v")
    case None
    then show ?thesis using Cons.prems by (auto simp: encodable_prefix_def)
  next
    case (Some payload)
    obtain x w1 where m: "index_write (re_index E) payload w = (x, w1)" by fastforce
    note h = index_write_holds [OF Cons.prems(1) m]
    have rest: "andS (x, w1) (put_records E vs (n + 1)) = (r, w')" using Cons.prems(2) Some m by simp
    show ?thesis
    proof (cases x)
      case (Inl e)
      then show ?thesis using rest h m index_write_raises [of "re_index E" payload w e w1] by auto
    next
      case (Inr u)
      then have "holds (re_index E) w1 (data @ payload)" "iw_compressed w1 = iw_compressed w" using h by simp_all
      then show ?thesis using Cons.IH [of w1 "data @ payload" "n + 1"] rest Inr Some by (auto simp: encodable_prefix_def)
    qed
  qed
qed (simp add: encodable_prefix_def)

lemma write_records_text:
  assumes "frame_codec (ie_compress (re_index E)) (re_decode E)" and "write_records E compressed vs = r"
  shows "(r = Inl OSError \<and> refuses (re_index E)) \<or>
    (\<exists>bytes encoding. r = Inr (length (encodable_prefix E vs), bytes, encoding) \<and>
       index_text (re_decode E) compressed bytes = Some (concat (map (\<lambda>v. the (re_dumps E v)) (encodable_prefix E vs))))"
proof -
  obtain x w where p: "put_records E vs 0 (new_index compressed) = (x, w)" by fastforce
  note h = put_records_holds [OF holds_new p]
  show ?thesis
  proof (cases x)
    case (Inl e)
    then show ?thesis using assms(2) h p by (auto simp: write_records_def)
  next
    case (Inr n)
    obtain y w1 where f: "index_finish (re_index E) w = (y, w1)" by fastforce
    have w: "n = length (encodable_prefix E vs)" "iw_compressed w = compressed"
        "holds (re_index E) w (concat (map (\<lambda>v. the (re_dumps E v)) (encodable_prefix E vs)))"
      using h Inr by (auto simp: new_index_def)
    show ?thesis
    proof (cases y)
      case (Inl e)
      then show ?thesis using assms(2) p Inr f index_finish_raises [of "re_index E" w e w1] by (auto simp: write_records_def)
    next
      case u: (Inr u)
      then have fin: "index_finish (re_index E) w = (Inr (), w1)" using f by simp
      note g = finished_index [OF assms(1) w(3) fin]
      obtain encoding where e: "index_verify (re_hash E) (re_decode E) (iw_output w1) w1 = Inr encoding" using g(2) by blast
      have "r = Inr (n, iw_output w1, encoding)" using assms(2) p Inr fin e by (simp add: write_records_def bindE_def)
      then show ?thesis using g(1) w(1,2) by auto
    qed
  qed
qed

text \<open>The bisection finds the last sample whose time is not after the boundary.\<close>

lemma last_sample_before_correct:
  assumes "\<And>a b. low \<le> a \<Longrightarrow> a \<le> b \<Longrightarrow> b \<le> high \<Longrightarrow> time a \<le> (time b :: rat)" and "low \<le> high"
  shows "low \<le> last_sample_before time boundary low high \<and> last_sample_before time boundary low high \<le> high \<and>
    (last_sample_before time boundary low high = low \<or> time (last_sample_before time boundary low high) \<le> boundary) \<and>
    (\<forall>n. last_sample_before time boundary low high < n \<longrightarrow> n \<le> high \<longrightarrow> boundary < time n)"
  using assms
proof (induction time boundary low high rule: last_sample_before.induct)
  case (1 time boundary low high)
  let ?m = "(low + high + 1) div 2"
  show ?case
  proof (cases "low < high")
    case False
    then have "last_sample_before time boundary low high = low" by (simp add: last_sample_before.simps)
    then show ?thesis using False 1(4) by simp
  next
    case True
    then have m: "low < ?m" "?m \<le> high" by auto
    show ?thesis
    proof (cases "time ?m \<le> boundary")
      case le: True
      then have eq: "last_sample_before time boundary low high = last_sample_before time boundary ?m high"
        using True by (subst last_sample_before.simps) (simp add: Let_def)
      have "?m \<le> last_sample_before time boundary ?m high \<and> last_sample_before time boundary ?m high \<le> high \<and>
        (last_sample_before time boundary ?m high = ?m \<or> time (last_sample_before time boundary ?m high) \<le> boundary) \<and>
        (\<forall>n. last_sample_before time boundary ?m high < n \<longrightarrow> n \<le> high \<longrightarrow> boundary < time n)"
        using m by (intro "1.IH"(1) [OF True refl le] 1(3)) auto
      then show ?thesis using eq m le by auto
    next
      case gt: False
      then have eq: "last_sample_before time boundary low high = last_sample_before time boundary low (?m - 1)"
        using True by (subst last_sample_before.simps) (simp add: Let_def)
      have ih: "low \<le> last_sample_before time boundary low (?m - 1) \<and> last_sample_before time boundary low (?m - 1) \<le> ?m - 1 \<and>
        (last_sample_before time boundary low (?m - 1) = low \<or> time (last_sample_before time boundary low (?m - 1)) \<le> boundary) \<and>
        (\<forall>n. last_sample_before time boundary low (?m - 1) < n \<longrightarrow> n \<le> ?m - 1 \<longrightarrow> boundary < time n)"
        using m by (intro "1.IH"(2) [OF True refl gt] 1(3)) auto
      have "boundary < time n" if "?m \<le> n" "n \<le> high" for n
        using 1(3) [of ?m n] m that gt by auto
      then show ?thesis using eq m ih by (auto simp: not_le)
    qed
  qed
qed

lemma pcm_prefix_tiles:
  assumes "pcm_prefix wave tail channels rate target vs samples = Inr parts" and "samples \<le> target"
    and "\<And>path w. wave path = Inr w \<Longrightarrow> 0 \<le> wi_frames w"
  shows "(parts = [] \<or> pp_start (hd parts) = samples \<and> samples \<le> pp_end (last parts) \<and> pp_end (last parts) \<le> target) \<and>
    list_all (\<lambda>(p, q). pp_end p = pp_start q \<and> \<not> pp_tail p) (pairs parts) \<and>
    list_all (\<lambda>p. pp_start p \<le> pp_end p \<and> (pp_tail p \<longrightarrow> pp_end p = target)) parts"
  using assms(1,2)
proof (induction vs arbitrary: samples parts)
  case (Cons v vs)
  show ?case
  proof (cases "parts = []")
    case False
    then have lt: "samples < target" using Cons.prems by (auto split: if_splits)
    obtain d path w rest where d: "v = JObj d" "jget d ''path'' = JStr path" "wave path = Inr w"
      and rest: "pcm_prefix wave tail channels rate target vs (samples + min (wi_frames w) (target - samples)) = Inr rest"
      and parts: "parts = \<lparr>pp_start = samples, pp_end = samples + min (wi_frames w) (target - samples),
            pp_path = (if min (wi_frames w) (target - samples) \<noteq> wi_frames w then ''recovery/audio-tail.wav'' else path),
            pp_tail = (min (wi_frames w) (target - samples) \<noteq> wi_frames w)\<rparr> # rest"
      using Cons.prems(1) lt False
      by (auto simp: Let_def bindE_eq_Inr split: json.splits if_splits)
    let ?n = "min (wi_frames w) (target - samples)"
    have n: "0 \<le> ?n" "samples + ?n \<le> target" "?n \<noteq> wi_frames w \<Longrightarrow> samples + ?n = target" using assms(3) [OF d(3)] lt by auto
    note ih = Cons.IH [OF rest n(2)]
    have "rest = []" if "samples + ?n = target" using rest that by (cases vs) auto
    then have full: "?n = wi_frames w" if "rest \<noteq> []" using n(3) that by blast
    show ?thesis
    proof (cases rest)
      case Nil
      then show ?thesis using n unfolding parts by simp
    next
      case (Cons p ps)
      then have "?n = wi_frames w" using full by simp
      then show ?thesis using ih n(1,2) Cons unfolding parts by auto
    qed
  qed simp
qed simp

text \<open>C34: where the recovered audio ends.  On the raw clock the bisection finds the last stored sample that the
  observed mapping puts at or before the end of the saved video (none, when already the first is
  later), because the mapping of an accepted model never goes back, for every rounding that is
  monotone and exact on the model's integers.\<close>

theorem audio_ends_with_the_video:
  assumes "raw_audio_clock_model fl anchors rate count period buffer = Inr m"
    and "rounding fl" and "exact_on fl (cm_points m)" and "0 \<le> min stored final"
  shows "let target = raw_target fl m stored final boundary; time = audio_sample_time_ns fl (cm_points m) in
    0 \<le> target \<and> target \<le> stored \<and> target \<le> final \<and> (target = 0 \<or> time target \<le> boundary) \<and>
    (\<forall>n. target < n \<longrightarrow> n \<le> min stored final \<longrightarrow> boundary < time n)"
proof -
  have "audio_sample_time_ns fl (cm_points m) a \<le> audio_sample_time_ns fl (cm_points m) b" if "a \<le> b" for a b
    using accepted_model_increasing [OF assms(1)] assms(2,3) that by (intro sample_time_mono)
  then show ?thesis
    using last_sample_before_correct [of 0 "min stored final" "audio_sample_time_ns fl (cm_points m)" boundary] assms(4)
    unfolding raw_target_def Let_def by auto
qed

text \<open>Exact arithmetic, and a clock that runs at a thousand samples a second.\<close>

definition clock_row :: "int \<Rightarrow> int \<Rightarrow> json" where
  "clock_row position t = JList [JInt position, JInt t, JInt t, JInt t, JInt t]"

lemma clock_rows: "raw_audio_clock_model (\<lambda>r. r) (JList [clock_row 1 1000000, clock_row 1001 1001000000]) 1000 1000 10 100 =
    Inr \<lparr>cm_points = [(1, 1000000), (1001, 1001000000)], cm_rate = 1000, cm_residual = 0, cm_start = 0, cm_end = 1000000000\<rparr>"
  by (simp add: raw_audio_clock_model_def clock_row_def raw_point_def raw_row_def mapped_time_def bridge_ok_def raw_span_def
      bridge_uncertainty_def anchor_slope_def fdiv_def rate_error_def max_residual_def anchor_residual_def
      audio_sample_time_ns_def line_index_def points_before_def sample_line_def Let_def bindE_def guardE_def)

theorem audio_ends_with_the_video_witness:
  "raw_target (\<lambda>r. r) \<lparr>cm_points = [(1, 1000000), (1001, 1001000000)], cm_rate = 1000, cm_residual = 0, cm_start = 0,
      cm_end = 1000000000\<rparr> 900 1000 500000000 = 500"
proof -
  let ?m = "\<lparr>cm_points = [(1, 1000000), (1001, 1001000000)], cm_rate = 1000, cm_residual = 0, cm_start = 0, cm_end = 1000000000\<rparr>"
  have time: "audio_sample_time_ns (\<lambda>r. r) (cm_points ?m) n = of_int n * 1000000" for n
    by (simp add: audio_sample_time_ns_def line_index_def points_before_def sample_line_def fdiv_def Let_def field_simps)
  have r: "rounding (\<lambda>r. r)" "exact_on (\<lambda>r. r) (cm_points ?m)" by (simp_all add: rounding_def exact_on_def mono_def)
  have t: "let target = raw_target (\<lambda>r. r) ?m 900 1000 500000000 in
      target = 0 \<or> of_int target * 1000000 \<le> (500000000 :: rat)"
    "let target = raw_target (\<lambda>r. r) ?m 900 1000 500000000 in
      \<forall>n. target < n \<longrightarrow> n \<le> 900 \<longrightarrow> (500000000 :: rat) < of_int n * 1000000"
    using audio_ends_with_the_video [OF clock_rows r, of 900 1000 500000000] unfolding time Let_def by simp_all
  have "raw_target (\<lambda>r. r) ?m 900 1000 500000000 \<le> 500"
    using t(1) unfolding Let_def by linarith
  moreover have "\<not> raw_target (\<lambda>r. r) ?m 900 1000 500000000 < 500"
    using t(2) unfolding Let_def by (auto dest: spec [of _ 500])
  ultimately show ?thesis by simp
qed

text \<open>The recovered audio segments tile the samples from the first one without a gap or an overlap, end
  at or before the target, and only the last may be a cut one, which then ends exactly at it.\<close>

theorem recovered_audio_tiles:
  assumes "pcm_prefix wave tail channels rate target items 0 = Inr parts" and "0 \<le> target"
    and "\<And>path w. wave path = Inr w \<Longrightarrow> 0 \<le> wi_frames w"
  shows "(parts = [] \<or> pp_start (hd parts) = 0 \<and> 0 \<le> pp_end (last parts) \<and> pp_end (last parts) \<le> target) \<and>
    list_all (\<lambda>(p, q). pp_end p = pp_start q \<and> \<not> pp_tail p) (pairs parts) \<and>
    list_all (\<lambda>p. pp_start p \<le> pp_end p \<and> (pp_tail p \<longrightarrow> pp_end p = target)) parts"
  using pcm_prefix_tiles [OF assms] .

definition tone_segment :: "string \<Rightarrow> int \<Rightarrow> int \<Rightarrow> json" where
  "tone_segment path start stop = JObj [(''path'', JStr path), (''start_sample'', JInt start), (''end_sample'', JInt stop)]"

definition tone_wave :: "string \<Rightarrow> wave_info res" where
  "tone_wave path = Inr \<lparr>wi_frames = 10, wi_channels = 1, wi_width = 2, wi_rate = 1000, wi_size = 64\<rparr>"

definition tone_parts :: "pcm_part list" where
  "tone_parts = [\<lparr>pp_start = 0, pp_end = 10, pp_path = ''a'', pp_tail = False\<rparr>,
     \<lparr>pp_start = 10, pp_end = 15, pp_path = ''recovery/audio-tail.wav'', pp_tail = True\<rparr>]"

lemma tone_prefix: "pcm_prefix tone_wave (\<lambda>path n. Inr ()) 1 1000 15 [tone_segment ''a'' 0 10, tone_segment ''b'' 10 20] 0 = Inr tone_parts"
  by (simp add: tone_wave_def tone_segment_def tone_parts_def jget_def Let_def)

theorem recovered_audio_tiles_witness:
  "pp_end (hd tone_parts) = pp_start (last tone_parts) \<and> \<not> pp_tail (hd tone_parts) \<and> pp_end (last tone_parts) = 15"
  using recovered_audio_tiles [OF tone_prefix]
  by (simp add: tone_parts_def tone_wave_def)

end
