(* ===== verification/RecoveryPublication.thy ===== *)
theory RecoveryPublication
  imports Prelude
begin

text \<open>
  The publication of an interrupted recording: the end of \<open>recover_device_session\<close> in \<open>recording/recovery.py\<close>
  and the startup's \<open>_recover_partial_directory\<close> in \<open>recording/coordinator.py\<close>.  A take is one directory,
  under its partial or its final name, with the bytes of its files by relative path.  Every step the code makes
  durable is one effect, effects reach the disk in order, and a crash or an exception keeps a prefix of them.
  Temporary files are left out.  \<open>listing\<close> is the check of the manifest's text with the paths and sizes of its artifacts,
  \<open>rr_work\<close> what the recovery computes of the files, \<open>rr_settled\<close> the rewritten recording state.  The
  directory is not replaced by another process meanwhile.
\<close>

section \<open>The directory\<close>

type_synonym take_files = "string \<rightharpoonup> string"

record take_volume =
  vo_partial :: "take_files option"
  vo_final :: "take_files option"

datatype file_effect = FilePut string string | FileGone string | FileMoved string string | DirPublished

fun changed_files :: "file_effect \<Rightarrow> take_files \<Rightarrow> take_files" where
  "changed_files (FilePut p bytes) fs = fs(p \<mapsto> bytes)"
| "changed_files (FileGone p) fs = fs(p := None)"
| "changed_files (FileMoved p q) fs = fs(q := fs p, p := None)"
| "changed_files DirPublished fs = fs"

definition apply_effect :: "take_volume \<Rightarrow> file_effect \<Rightarrow> take_volume" where
  "apply_effect v e =
     (if e = DirPublished then v\<lparr>vo_partial := None, vo_final := vo_partial v\<rparr>
      else v\<lparr>vo_partial := map_option (changed_files e) (vo_partial v)\<rparr>)"

definition apply_effects :: "file_effect list \<Rightarrow> take_volume \<Rightarrow> take_volume" where
  "apply_effects es v = foldl apply_effect v es"

section \<open>The inspection\<close>

definition max_manifest_bytes :: nat where
  "max_manifest_bytes = 33554432"

text \<open>\<open>inspect_device_session_directory\<close>.\<close>

definition inspected :: "(string \<Rightarrow> (string \<times> nat) list option) \<Rightarrow> take_files \<Rightarrow> bool" where
  "inspected listing fs \<longleftrightarrow>
     (case fs ''manifest.json'' of
        None \<Rightarrow> False
      | Some m \<Rightarrow>
          length m \<le> max_manifest_bytes \<and>
          (case listing m of
             None \<Rightarrow> False
           | Some artifacts \<Rightarrow> list_all (\<lambda>(p, n). case fs p of None \<Rightarrow> False | Some bytes \<Rightarrow> length bytes = n) artifacts))"

section \<open>The recovery's effects\<close>

definition archived_controls :: "string list" where
  "archived_controls = [''capture.json'', ''recording.json'']"

definition archive_effects :: "take_files \<Rightarrow> file_effect list" where
  "archive_effects fs = map (\<lambda>c. FileMoved c (''recovery/'' @ c)) (filter (\<lambda>c. fs c \<noteq> None) archived_controls)"

record recovery_output =
  ro_compressed :: bool
  ro_frames :: string
  ro_imu :: string
  ro_tail :: "string option"
  ro_receipt :: string
  ro_manifest :: string

definition recovery_puts :: "recovery_output \<Rightarrow> file_effect list" where
  "recovery_puts w =
     (let z = if ro_compressed w then ''.zst'' else [] in
      [FilePut (''recovery/frames.ndjson'' @ z) (ro_frames w), FilePut (''recovery/imu.ndjson'' @ z) (ro_imu w)] @
      (case ro_tail w of None \<Rightarrow> [] | Some bytes \<Rightarrow> [FilePut ''recovery/audio-tail.wav'' bytes]) @
      [FilePut ''recovery/interruption.json'' (ro_receipt w), FilePut ''manifest.json'' (ro_manifest w)])"

text \<open>\<open>recover_device_session\<close>: the derived files, the receipt, the manifest, the inspection, and only then the
  archive of the control files and the rename.\<close>

definition recover_effects ::
  "(string \<Rightarrow> (string \<times> nat) list option) \<Rightarrow> bool \<Rightarrow> (take_files \<Rightarrow> recovery_output option) \<Rightarrow> take_volume \<Rightarrow> file_effect list" where
  "recover_effects listing readable recovered v =
     (case vo_partial v of
        None \<Rightarrow> []
      | Some fs \<Rightarrow>
          if fs ''capture.json'' = None \<or> fs ''segments.json'' = None \<or> vo_final v \<noteq> None then []
          else (case recovered fs of
              None \<Rightarrow> []
            | Some w \<Rightarrow>
                (let fs1 = fold changed_files (recovery_puts w) fs in
                 recovery_puts w @
                 (if readable \<and> inspected listing fs1 then archive_effects fs1 @ [DirPublished] else []))))"

section \<open>The startup\<close>

text \<open>\<open>_settle_partial\<close>: a failure to unlink the manifest is suppressed both times, and the second time the rewriting is
  skipped with it.\<close>

definition settle_effects :: "bool \<Rightarrow> (string \<Rightarrow> string option) \<Rightarrow> take_files \<Rightarrow> file_effect list" where
  "settle_effects unlinks settled fs =
     (if \<not> unlinks then []
      else FileGone ''manifest.json'' #
       (case fs ''recording.json'' of
          None \<Rightarrow> []
        | Some state \<Rightarrow>
            (case settled state of None \<Rightarrow> [] | Some state' \<Rightarrow> [FileGone ''manifest.json'', FilePut ''recording.json'' state'])))"

text \<open>One start of the daemon: whether the two inspections could read the disk, after how many of its effects the
  archive and the rename raise an exception, if they do, whether the manifest can be unlinked, and what the
  recovery and the settlement compute.\<close>

record restart_run =
  rr_check :: bool
  rr_raises :: "nat option"
  rr_unlinks :: bool
  rr_recheck :: bool
  rr_settled :: "string \<Rightarrow> string option"
  rr_work :: "take_files \<Rightarrow> recovery_output option"

text \<open>\<open>_recover_partial_directory\<close>.  Its end settles the directory and lets the recovery start over; its handler unlinks
  the manifest before, unless the recording has been renamed.\<close>

definition settle_and_recover ::
  "(string \<Rightarrow> (string \<times> nat) list option) \<Rightarrow> restart_run \<Rightarrow> take_volume \<Rightarrow> file_effect list" where
  "settle_and_recover listing r v =
     (case vo_partial v of
        None \<Rightarrow> []
      | Some fs \<Rightarrow>
          (let first = settle_effects (rr_unlinks r) (rr_settled r) fs in
           first @ recover_effects listing (rr_recheck r) (rr_work r) (apply_effects first v)))"

definition failure_effects ::
  "(string \<Rightarrow> (string \<times> nat) list option) \<Rightarrow> restart_run \<Rightarrow> take_volume \<Rightarrow> file_effect list" where
  "failure_effects listing r v =
     (let gone = (if rr_unlinks r then [FileGone ''manifest.json''] else []) in
      gone @ settle_and_recover listing r (apply_effects gone v))"

definition publish_effects :: "take_files \<Rightarrow> file_effect list" where
  "publish_effects fs = archive_effects fs @ [DirPublished]"

definition partial_effects :: "(string \<Rightarrow> (string \<times> nat) list option) \<Rightarrow> restart_run \<Rightarrow> take_volume \<Rightarrow> file_effect list" where
  "partial_effects listing r v =
     (case vo_partial v of
        None \<Rightarrow> []
      | Some fs \<Rightarrow>
          if fs ''manifest.json'' = None then settle_and_recover listing r v
          else if \<not> rr_check r \<or> \<not> inspected listing fs \<or> vo_final v \<noteq> None then failure_effects listing r v
          else
            (case rr_raises r of
               None \<Rightarrow> publish_effects fs
             | Some j \<Rightarrow>
                 (if length (publish_effects fs) \<le> j then publish_effects fs
                  else take j (publish_effects fs) @
                       failure_effects listing r (apply_effects (take j (publish_effects fs)) v))))"

text \<open>Starts of the daemon, each cut after some of its effects.\<close>

definition cut_start :: "(string \<Rightarrow> (string \<times> nat) list option) \<Rightarrow> restart_run \<times> nat \<Rightarrow> take_volume \<Rightarrow> take_volume" where
  "cut_start listing run v = (case run of (r, k) \<Rightarrow> apply_effects (take k (partial_effects listing r v)) v)"

fun cut_restarts :: "(string \<Rightarrow> (string \<times> nat) list option) \<Rightarrow> (restart_run \<times> nat) list \<Rightarrow> take_volume \<Rightarrow> take_volume" where
  "cut_restarts listing [] v = v"
| "cut_restarts listing (run # runs) v = cut_restarts listing runs (cut_start listing run v)"

text \<open>A start that strands the recording: an input or output error reaches the handler while the manifest has been
  checked and the capture plan is archived, and the handler deletes that manifest.\<close>

definition strands :: "(string \<Rightarrow> (string \<times> nat) list option) \<Rightarrow> restart_run \<Rightarrow> take_volume \<Rightarrow> bool" where
  "strands listing r v \<longleftrightarrow>
     (case vo_partial v of
        None \<Rightarrow> False
      | Some fs \<Rightarrow>
          inspected listing fs \<and> rr_unlinks r \<and>
          (if rr_check r
           then (case rr_raises r of
                   None \<Rightarrow> False
                 | Some j \<Rightarrow> j < length (publish_effects fs) \<and> (0 < j \<or> fs ''capture.json'' = None))
           else fs ''capture.json'' = None))"

fun along :: "('r \<Rightarrow> 's \<Rightarrow> bool) \<Rightarrow> ('r \<times> nat \<Rightarrow> 's \<Rightarrow> 's) \<Rightarrow> ('r \<times> nat) list \<Rightarrow> 's \<Rightarrow> bool" where
  "along ok next [] s = True"
| "along ok next (run # runs) s = (ok (fst run) s \<and> along ok next runs (next run s))"

abbreviation spared :: "(string \<Rightarrow> (string \<times> nat) list option) \<Rightarrow> (restart_run \<times> nat) list \<Rightarrow> take_volume \<Rightarrow> bool" where
  "spared listing runs v \<equiv> along (\<lambda>r v. \<not> strands listing r v) (cut_start listing) runs v"

section \<open>What no crash loses\<close>

definition replaced_path :: "string \<Rightarrow> bool" where
  "replaced_path p \<longleftrightarrow> p \<in> {''capture.json'', ''recording.json'', ''manifest.json''} \<or> take 9 p = ''recovery/''"

definition media_kept :: "(string \<times> string) list \<Rightarrow> take_files \<Rightarrow> bool" where
  "media_kept originals fs \<longleftrightarrow> list_all (\<lambda>(p, bytes). replaced_path p \<or> fs p = Some bytes) originals"

text \<open>The recording is there once, with its media: still to be recovered, checked against its manifest, or published.
  A recovery archives the capture plan, while the ordinary stop deletes it.\<close>

definition take_safe ::
  "(string \<Rightarrow> (string \<times> nat) list option) \<Rightarrow> (string \<times> string) list \<Rightarrow> string \<Rightarrow> bool \<Rightarrow> take_volume \<Rightarrow> bool" where
  "take_safe listing originals capture archived v \<longleftrightarrow>
     (case (vo_partial v, vo_final v) of
        (Some fs, None) \<Rightarrow>
          media_kept originals fs \<and>
          (fs ''capture.json'' = Some capture \<or>
           fs ''capture.json'' = None \<and> (archived \<longrightarrow> fs ''recovery/capture.json'' = Some capture) \<and> inspected listing fs)
      | (None, Some fs) \<Rightarrow> media_kept originals fs \<and> (archived \<longrightarrow> fs ''recovery/capture.json'' = Some capture) \<and> inspected listing fs
      | _ \<Rightarrow> False)"

text \<open>No manifest lists itself or a control file as an artifact.\<close>

definition controls_unlisted :: "(string \<Rightarrow> (string \<times> nat) list option) \<Rightarrow> bool" where
  "controls_unlisted listing \<longleftrightarrow>
     (\<forall>m artifacts. listing m = Some artifacts \<longrightarrow>
        list_all (\<lambda>(p, n). p \<noteq> ''manifest.json'' \<and> p \<notin> set archived_controls \<and> p \<notin> set (map (\<lambda>c. ''recovery/'' @ c) archived_controls)) artifacts)"

lemma apply_effects_Nil [simp]: "apply_effects [] v = v"
  by (simp add: apply_effects_def)

lemma apply_effects_Cons [simp]: "apply_effects (e # es) v = apply_effects es (apply_effect v e)"
  by (simp add: apply_effects_def)

lemma apply_effects_append: "apply_effects (xs @ ys) v = apply_effects ys (apply_effects xs v)"
  by (simp add: apply_effects_def)

lemma apply_effects_partial:
  "DirPublished \<notin> set es \<Longrightarrow> vo_partial v = Some fs \<Longrightarrow>
     apply_effects es v = v\<lparr>vo_partial := Some (fold changed_files es fs)\<rparr>"
  by (induction es arbitrary: v fs) (auto simp: apply_effect_def)

lemma media_kept_upd: "replaced_path p \<Longrightarrow> media_kept originals (fs(p := x)) = media_kept originals fs"
  unfolding media_kept_def by (intro list_all_cong) (auto split: if_splits)

lemma replaced_controls:
  "c \<in> set archived_controls \<Longrightarrow> replaced_path c" "replaced_path (''recovery/'' @ c)" "replaced_path ''manifest.json''"
  by (auto simp: replaced_path_def archived_controls_def)

text \<open>Effects that leave the media and the capture plan alone.\<close>

definition harmless :: "file_effect \<Rightarrow> bool" where
  "harmless e \<longleftrightarrow> (case e of
       FilePut p bytes \<Rightarrow> replaced_path p \<and> p \<noteq> ''capture.json''
     | FileGone p \<Rightarrow> p = ''manifest.json''
     | _ \<Rightarrow> False)"

lemma harmless_files:
  assumes "list_all harmless es" and "media_kept originals fs" and "fs ''capture.json'' = Some capture"
  shows "media_kept originals (fold changed_files es fs) \<and> fold changed_files es fs ''capture.json'' = Some capture"
  using assms
proof (induction es arbitrary: fs)
  case (Cons e es)
  have "media_kept originals (changed_files e fs)"
    using Cons.prems(1,2) by (cases e) (simp_all add: harmless_def media_kept_upd replaced_controls)
  moreover have "changed_files e fs ''capture.json'' = Some capture"
    using Cons.prems(1,3) by (cases e) (auto simp: harmless_def)
  ultimately show ?case using Cons.IH Cons.prems(1) by simp
qed simp

lemma harmless_no_rename: "list_all harmless es \<Longrightarrow> DirPublished \<notin> set es"
  by (auto simp: list_all_iff harmless_def)

lemma harmless_puts: "list_all harmless (recovery_puts w)"
  by (simp add: recovery_puts_def harmless_def replaced_path_def Let_def split: option.splits)

lemma harmless_settle: "list_all harmless (settle_effects unlinks settled fs)"
  by (simp add: settle_effects_def harmless_def replaced_path_def split: option.splits)

lemma inspected_moved:
  assumes "controls_unlisted listing" and "c \<in> set archived_controls" and "inspected listing fs"
  shows "inspected listing (fs(''recovery/'' @ c := x, c := None))"
proof -
  obtain m artifacts where m: "fs ''manifest.json'' = Some m" "length m \<le> max_manifest_bytes" "listing m = Some artifacts"
      "list_all (\<lambda>(p, n). case fs p of None \<Rightarrow> False | Some bytes \<Rightarrow> length bytes = n) artifacts"
    using assms(3) by (auto simp: inspected_def split: option.splits)
  have u: "list_all (\<lambda>(p, n). p \<noteq> ''manifest.json'' \<and> p \<notin> set archived_controls \<and> p \<notin> set (map (\<lambda>c. ''recovery/'' @ c) archived_controls)) artifacts"
    using assms(1) m(3) unfolding controls_unlisted_def by blast
  have c: "c \<noteq> ''manifest.json''" "''recovery/'' @ c \<noteq> ''manifest.json''" using assms(2) by (auto simp: archived_controls_def)
  have "list_all (\<lambda>(p, n). case (fs(''recovery/'' @ c := x, c := None)) p of None \<Rightarrow> False | Some bytes \<Rightarrow> length bytes = n) artifacts"
    unfolding list_all_iff
  proof (intro ballI)
    fix a assume a: "a \<in> set artifacts"
    then have "fst a \<notin> set archived_controls" "fst a \<notin> set (map (\<lambda>c. ''recovery/'' @ c) archived_controls)"
      using u by (auto simp: list_all_iff)
    then have "fst a \<noteq> c" "fst a \<noteq> ''recovery/'' @ c" using assms(2) by auto
    moreover have "case a of (p, n) \<Rightarrow> (case fs p of None \<Rightarrow> False | Some bytes \<Rightarrow> length bytes = n)"
      using m(4) a by (simp add: list_all_iff)
    ultimately show "case a of (p, n) \<Rightarrow> (case (fs(''recovery/'' @ c := x, c := None)) p of None \<Rightarrow> False | Some bytes \<Rightarrow> length bytes = n)"
      by (cases a) simp
  qed
  then show ?thesis using m c by (simp add: inspected_def)
qed

lemma media_kept_moved:
  "c \<in> set archived_controls \<Longrightarrow> media_kept originals (fs(''recovery/'' @ c := x, c := None)) = media_kept originals fs"
  by (simp add: media_kept_upd replaced_controls del: append.simps)

text \<open>The archive and the rename of an inspected recording, cut anywhere.\<close>

lemma archive_cut:
  assumes "controls_unlisted listing" and "media_kept originals fs" and "inspected listing fs"
    and "fs ''capture.json'' = Some capture \<or> fs ''capture.json'' = None \<and> (archived \<longrightarrow> fs ''recovery/capture.json'' = Some capture)"
  shows "take_safe listing originals capture archived
    (apply_effects (take k (archive_effects fs @ [DirPublished])) \<lparr>vo_partial = Some fs, vo_final = None\<rparr>)"
proof -
  note moved = inspected_moved [OF assms(1), of "''capture.json''"] inspected_moved [OF assms(1), of "''recording.json''"]
  note kept = media_kept_moved [of "''capture.json''" originals] media_kept_moved [of "''recording.json''" originals]
  show ?thesis
    using assms(2-4) moved kept
    by (cases "fs ''recording.json'' = None"; cases "fs ''capture.json'' = None")
      (auto simp: archive_effects_def archived_controls_def take_Cons apply_effect_def take_safe_def split: nat.splits)
qed

text \<open>The second branch of the startup: everything before the archive leaves the recording recoverable.\<close>

lemma recover_cut:
  assumes "controls_unlisted listing" and "media_kept originals fs" and "fs ''capture.json'' = Some capture"
  shows "take_safe listing originals capture archived
    (apply_effects (take k (recover_effects listing readable recovered \<lparr>vo_partial = Some fs, vo_final = None\<rparr>))
       \<lparr>vo_partial = Some fs, vo_final = None\<rparr>)"
proof (cases "fs ''segments.json'' = None \<or> recovered fs = None")
  case True
  then have "recover_effects listing readable recovered \<lparr>vo_partial = Some fs, vo_final = None\<rparr> = []"
    by (auto simp: recover_effects_def)
  then show ?thesis using assms by (simp add: take_safe_def)
next
  case False
  then obtain w where w: "recovered fs = Some w" by auto
  let ?v = "\<lparr>vo_partial = Some fs, vo_final = None\<rparr>"
  let ?puts = "recovery_puts w"
  let ?fs1 = "fold changed_files ?puts fs"
  let ?rest = "if readable \<and> inspected listing ?fs1 then archive_effects ?fs1 @ [DirPublished] else []"
  have es: "recover_effects listing readable recovered ?v = ?puts @ ?rest"
    using False w assms(3) by (auto simp: recover_effects_def Let_def)
  show ?thesis
  proof (cases "k \<le> length ?puts")
    case True
    have h: "list_all harmless (take k ?puts)"
      using harmless_puts [of w] by (auto simp: list_all_iff dest: in_set_takeD)
    have cut: "take k (?puts @ ?rest) = take k ?puts" using True by simp
    have "apply_effects (take k ?puts) ?v = ?v\<lparr>vo_partial := Some (fold changed_files (take k ?puts) fs)\<rparr>"
      by (rule apply_effects_partial [OF harmless_no_rename [OF h]]) simp
    then show ?thesis
      unfolding es cut using harmless_files [OF h assms(2,3)] by (simp add: take_safe_def)
  next
    case False
    note kept = harmless_files [OF harmless_puts assms(2,3), of w]
    have puts: "apply_effects ?puts ?v = \<lparr>vo_partial = Some ?fs1, vo_final = None\<rparr>"
      using apply_effects_partial [OF harmless_no_rename [OF harmless_puts], of ?v fs w] by simp
    have "take k (?puts @ ?rest) = ?puts @ take (k - length ?puts) ?rest" using False by simp
    then have "apply_effects (take k (?puts @ ?rest)) ?v = apply_effects (take (k - length ?puts) ?rest) \<lparr>vo_partial = Some ?fs1, vo_final = None\<rparr>"
      by (simp only: apply_effects_append puts)
    moreover have "take_safe listing originals capture archived (apply_effects (take (k - length ?puts) ?rest) \<lparr>vo_partial = Some ?fs1, vo_final = None\<rparr>)"
    proof (cases "readable \<and> inspected listing ?fs1")
      case True
      show ?thesis
        unfolding if_P [OF True] by (rule archive_cut [OF assms(1)]) (use True kept in auto)
    next
      case False
      show ?thesis unfolding if_not_P [OF False] using kept by (simp add: take_safe_def)
    qed
    ultimately show ?thesis unfolding es by (simp only:)
  qed
qed

text \<open>What the handler does is safe while the capture plan is there, or when it cannot delete the manifest.\<close>

lemma settle_cut:
  assumes "controls_unlisted listing" and "media_kept originals fs" and "fs ''capture.json'' = Some capture"
    and "list_all harmless es" and "v = \<lparr>vo_partial = Some fs, vo_final = None\<rparr>"
  shows "take_safe listing originals capture archived (apply_effects (take k (es @ settle_and_recover listing r (apply_effects es v))) v)"
proof -
  let ?fs0 = "fold changed_files es fs"
  have v0: "apply_effects es v = \<lparr>vo_partial = Some ?fs0, vo_final = None\<rparr>"
    using apply_effects_partial [OF harmless_no_rename [OF assms(4)], of v fs] by (simp add: assms(5))
  let ?first = "es @ settle_effects (rr_unlinks r) (rr_settled r) ?fs0"
  have h: "list_all harmless ?first" using assms(4) harmless_settle by simp
  let ?fs1 = "fold changed_files ?first fs"
  have first: "apply_effects ?first v = \<lparr>vo_partial = Some ?fs1, vo_final = None\<rparr>"
    using apply_effects_partial [OF harmless_no_rename [OF h], of v fs] by (simp add: assms(5))
  have es: "es @ settle_and_recover listing r (apply_effects es v) =
      ?first @ recover_effects listing (rr_recheck r) (rr_work r) (apply_effects ?first v)"
    by (simp add: settle_and_recover_def v0 Let_def apply_effects_append)
  show ?thesis
  proof (cases "k \<le> length ?first")
    case True
    have hk: "list_all harmless (take k ?first)" using h by (auto simp: list_all_iff dest: in_set_takeD)
    have cut: "take k (es @ settle_and_recover listing r (apply_effects es v)) = take k ?first" unfolding es using True by simp
    have "apply_effects (take k ?first) v = v\<lparr>vo_partial := Some (fold changed_files (take k ?first) fs)\<rparr>"
      by (rule apply_effects_partial [OF harmless_no_rename [OF hk]]) (simp add: assms(5))
    then show ?thesis
      unfolding cut using harmless_files [OF hk assms(2,3)] by (simp add: take_safe_def assms(5))
  next
    case False
    have "apply_effects (take k (es @ settle_and_recover listing r (apply_effects es v))) v =
        apply_effects (take (k - length ?first) (recover_effects listing (rr_recheck r) (rr_work r) (apply_effects ?first v))) (apply_effects ?first v)"
      unfolding es using False by (simp add: apply_effects_append)
    then show ?thesis
      using recover_cut [OF assms(1)] harmless_files [OF h assms(2,3)] unfolding first by simp
  qed
qed

lemma take_safe_partial:
  assumes "take_safe listing originals capture archived v" and "vo_partial v = Some fs"
  shows "v = \<lparr>vo_partial = Some fs, vo_final = None\<rparr>" and "media_kept originals fs"
    and "fs ''capture.json'' = Some capture \<or>
      fs ''capture.json'' = None \<and> (archived \<longrightarrow> fs ''recovery/capture.json'' = Some capture) \<and> inspected listing fs"
  using assms by (cases v; auto simp: take_safe_def split: option.splits)+

lemma failure_cut:
  assumes "controls_unlisted listing" and "take_safe listing originals capture archived v" and "vo_partial v = Some fs"
    and "fs ''capture.json'' \<noteq> None \<or> \<not> rr_unlinks r"
  shows "take_safe listing originals capture archived (apply_effects (take k (failure_effects listing r v)) v)"
proof (cases "fs ''capture.json'' = None")
  case True
  note v = take_safe_partial(1) [OF assms(2,3)]
  have "failure_effects listing r v = []"
    using assms(4) True by (simp add: failure_effects_def settle_and_recover_def settle_effects_def recover_effects_def v)
  then show ?thesis using assms(2) by simp
next
  case False
  note v = take_safe_partial [OF assms(2,3)]
  have c: "fs ''capture.json'' = Some capture" using v(3) False by simp
  have "list_all harmless (if rr_unlinks r then [FileGone ''manifest.json''] else [])" by (simp add: harmless_def)
  from settle_cut [OF assms(1) v(2) c this v(1)] show ?thesis unfolding failure_effects_def Let_def by blast
qed

lemma publish_prefix:
  assumes "j < length (publish_effects fs)"
  shows "DirPublished \<notin> set (take j (publish_effects fs))"
proof -
  have "take j (publish_effects fs) = take j (archive_effects fs)" using assms by (simp add: publish_effects_def)
  then show ?thesis by (auto simp: archive_effects_def dest: in_set_takeD)
qed

lemma startup_cut:
  assumes "controls_unlisted listing" and "take_safe listing originals capture archived v" and "\<not> strands listing r v"
  shows "take_safe listing originals capture archived (apply_effects (take k (partial_effects listing r v)) v)"
proof (cases "vo_partial v")
  case None
  then show ?thesis using assms(2) by (simp add: partial_effects_def)
next
  case (Some fs)
  note v = take_safe_partial [OF assms(2) Some]
  have archive: "take_safe listing originals capture archived (apply_effects (take k (publish_effects fs)) v)"
    if "inspected listing fs" for k
    unfolding publish_effects_def by (subst v(1), rule archive_cut [OF assms(1) v(2) that]) (use v(3) in blast)
  have fin: "vo_final v = None" by (subst v(1)) simp
  have es: "partial_effects listing r v =
      (if fs ''manifest.json'' = None then settle_and_recover listing r v
       else if \<not> rr_check r \<or> \<not> inspected listing fs then failure_effects listing r v
       else (case rr_raises r of None \<Rightarrow> publish_effects fs
         | Some j \<Rightarrow> if length (publish_effects fs) \<le> j then publish_effects fs
             else take j (publish_effects fs) @ failure_effects listing r (apply_effects (take j (publish_effects fs)) v)))"
    by (simp add: partial_effects_def Some fin)
  consider (fresh) "fs ''manifest.json'' = None"
    | (failed) "fs ''manifest.json'' \<noteq> None" "\<not> rr_check r \<or> \<not> inspected listing fs"
    | (published) "inspected listing fs" "partial_effects listing r v = publish_effects fs"
    | (raised) j where "inspected listing fs" "rr_check r" "rr_raises r = Some j" "j < length (publish_effects fs)"
        "partial_effects listing r v = take j (publish_effects fs) @ failure_effects listing r (apply_effects (take j (publish_effects fs)) v)"
  proof (cases "fs ''manifest.json'' = None \<or> \<not> rr_check r \<or> \<not> inspected listing fs")
    case True
    then show thesis using that(1,2) by blast
  next
    case ok: False
    show thesis
    proof (cases "rr_raises r")
      case None
      then have "partial_effects listing r v = publish_effects fs" unfolding es using ok by auto
      then show thesis using that(3) ok by blast
    next
      case (Some j)
      show thesis
      proof (cases "length (publish_effects fs) \<le> j")
        case True
        then have "partial_effects listing r v = publish_effects fs" unfolding es using ok Some by auto
        then show thesis using that(3) ok by blast
      next
        case False
        then have "partial_effects listing r v =
            take j (publish_effects fs) @ failure_effects listing r (apply_effects (take j (publish_effects fs)) v)"
          unfolding es using ok Some by auto
        then show thesis using that(4) ok Some False by (meson not_le)
      qed
    qed
  qed
  then show ?thesis
  proof cases
    case fresh
    then have "fs ''capture.json'' = Some capture" using v(3) by (auto simp: inspected_def)
    from settle_cut [OF assms(1) v(2) this _ v(1), of "[]"] fresh Some show ?thesis by (simp add: partial_effects_def)
  next
    case failed
    then have "fs ''capture.json'' \<noteq> None \<or> \<not> rr_unlinks r"
      using assms(3) Some v(3) by (auto simp: strands_def split: if_splits)
    from failure_cut [OF assms(1,2) Some this] failed show ?thesis by (auto simp: partial_effects_def Some)
  next
    case published
    then show ?thesis using archive by simp
  next
    case (raised j)
    let ?v1 = "apply_effects (take j (publish_effects fs)) v"
    have v1: "vo_partial ?v1 = Some (fold changed_files (take j (publish_effects fs)) fs)"
      using apply_effects_partial [OF publish_prefix [OF raised(4)] Some] by simp
    have late: "j = 0 \<and> fs ''capture.json'' \<noteq> None \<or> \<not> rr_unlinks r"
      using assms(3) raised(1-4) Some by (auto simp: strands_def)
    then have "fold changed_files (take j (publish_effects fs)) fs ''capture.json'' \<noteq> None \<or> \<not> rr_unlinks r" by auto
    note handled = failure_cut [OF assms(1) archive [OF raised(1)] v1 this]
    show ?thesis
    proof (cases "k \<le> j")
      case True
      then have "take k (partial_effects listing r v) = take k (publish_effects fs)"
        using raised(4,5) by (simp add: min_absorb1)
      then show ?thesis using archive [OF raised(1)] by simp
    next
      case False
      then have "apply_effects (take k (partial_effects listing r v)) v = apply_effects (take (k - j) (failure_effects listing r ?v1)) ?v1"
        using raised(4,5) by (simp add: apply_effects_append)
      then show ?thesis using handled by simp
    qed
  qed
qed

text \<open>The contract of work that may be cut: every prefix of the effects of a run that is admitted in its state keeps the
  invariant.  Then any sequence of runs, each admitted where it starts and cut anywhere, keeps it.\<close>

locale resumable =
  fixes effects :: "'r \<Rightarrow> 's \<Rightarrow> 'e list"
    and perform :: "'e list \<Rightarrow> 's \<Rightarrow> 's"
    and admitted :: "'r \<Rightarrow> 's \<Rightarrow> bool"
    and safe :: "'s \<Rightarrow> bool"
  assumes cut: "admitted r s \<Longrightarrow> safe s \<Longrightarrow> safe (perform (take k (effects r s)) s)"
begin

lemma whole: "admitted r s \<Longrightarrow> safe s \<Longrightarrow> safe (perform (effects r s) s)"
  using cut [of r s "length (effects r s)"] by simp

lemma runs:
  "safe s \<Longrightarrow> along admitted (\<lambda>(r, k) s. perform (take k (effects r s)) s) rs s \<Longrightarrow>
     safe (fold (\<lambda>(r, k) s. perform (take k (effects r s)) s) rs s)"
proof (induction rs arbitrary: s)
  case (Cons run rs)
  obtain r k where run: "run = (r, k)" by fastforce
  have "safe (perform (take k (effects r s)) s)" using Cons.prems run by (simp add: cut)
  then show ?case using Cons run by simp
qed simp

end

interpretation startup: resumable "partial_effects listing" apply_effects "\<lambda>r v. \<not> strands listing r v"
    "\<lambda>v. controls_unlisted listing \<and> take_safe listing originals capture archived v"
  by unfold_locales (auto intro: startup_cut)

lemma cut_start_step: "cut_start listing = (\<lambda>(r, k) s. apply_effects (take k (partial_effects listing r s)) s)"
  by (simp add: cut_start_def fun_eq_iff)

lemma cut_restarts_fold: "cut_restarts listing runs v = fold (cut_start listing) runs v"
  by (induction runs arbitrary: v) auto

lemma restarts_safe:
  assumes "controls_unlisted listing" and "take_safe listing originals capture archived v" and "spared listing runs v"
  shows "take_safe listing originals capture archived (cut_restarts listing runs v)"
  using startup.runs [of listing originals capture archived v runs] assms by (simp add: cut_restarts_fold cut_start_step)

text \<open>C18: No crash while an interrupted recording is recovered loses it.  However often the daemon is started and
  however early each start is cut, the recording exists once, with every media file as it was: still with its
  capture plan, so that the recovery can start over; or checked against its manifest with the plan archived, so
  that the next start publishes it; or published, checked.  Starts may also meet input and output errors, with one
  exception that \<open>spared\<close> names: no start whose inspection, archive or rename raises after the plan has been
  archived and before the recording is renamed, and which then deletes the checked manifest.\<close>

theorem no_crash_loses_the_recording:
  assumes "controls_unlisted listing" and "media_kept originals fs" and "fs ''capture.json'' = Some capture"
    and "spared listing runs \<lparr>vo_partial = Some fs, vo_final = None\<rparr>"
  shows "take_safe listing originals capture True (cut_restarts listing runs \<lparr>vo_partial = Some fs, vo_final = None\<rparr>)"
  by (rule restarts_safe [OF assms(1) _ assms(4)]) (simp add: take_safe_def assms(2,3))

text \<open>Without that exception the claim fails: after such a start the recording has neither a plan nor a manifest in its
  place, and no later start can publish it.\<close>

lemma stranded_take:
  assumes "fs ''capture.json'' = None" and "vo_partial v = Some fs" and "fs ''manifest.json'' = None"
  shows "vo_partial (cut_restarts listing runs v) \<noteq> None"
proof -
  have step: "\<exists>fs'. vo_partial (cut_start listing (r, k) v) = Some fs' \<and>
      fs' ''capture.json'' = None \<and> fs' ''manifest.json'' = None"
    if v: "vo_partial v = Some fs" and c: "fs ''capture.json'' = None" and m: "fs ''manifest.json'' = None" for r k v fs
  proof -
    let ?es = "settle_effects (rr_unlinks r) (rr_settled r) fs"
    have none: "fold changed_files (take j ?es) fs p = None" if "p \<in> {''capture.json'', ''manifest.json''}" for j p
      using c m that by (auto simp: settle_effects_def take_Cons split: option.splits nat.splits)
    have no: "DirPublished \<notin> set (take j ?es)" for j
      using harmless_no_rename [OF harmless_settle] in_set_takeD by fast
    have after: "vo_partial (apply_effects (take j ?es) v) = Some (fold changed_files (take j ?es) fs)" for j
      using apply_effects_partial [OF no v] by simp
    have "recover_effects listing (rr_recheck r) (rr_work r) (apply_effects ?es v) = []"
      using after [of "length ?es"] none [of "''capture.json''" "length ?es"] by (simp add: recover_effects_def)
    then have "partial_effects listing r v = ?es" using v m by (simp add: partial_effects_def settle_and_recover_def Let_def)
    then show ?thesis using after none by (auto simp: cut_start_def)
  qed
  have "\<exists>fs. vo_partial (cut_restarts listing runs v) = Some fs"
    if "\<exists>fs. vo_partial v = Some fs \<and> fs ''capture.json'' = None \<and> fs ''manifest.json'' = None" for v
    using that
  proof (induction runs arbitrary: v)
    case (Cons run runs)
    obtain r k where run: "run = (r, k)" by fastforce
    obtain fs where "vo_partial v = Some fs" "fs ''capture.json'' = None" "fs ''manifest.json'' = None" using Cons.prems by blast
    from Cons.IH [OF step [OF this, of r k]] show ?case by (simp add: run)
  qed auto
  then show ?thesis using assms by auto
qed

lemma late_failure_strands:
  assumes "v = \<lparr>vo_partial = Some fs, vo_final = None\<rparr>" and "inspected listing fs" and "fs ''capture.json'' = None"
    and "fs ''recording.json'' = None" and "rr_check r" "rr_unlinks r" "rr_raises r = Some 0"
  shows "vo_partial (cut_restarts listing runs (apply_effects (partial_effects listing r v) v)) \<noteq> None"
proof -
  have m: "fs ''manifest.json'' \<noteq> None" using assms(2) by (auto simp: inspected_def split: option.splits)
  have "partial_effects listing r v = [FileGone ''manifest.json'', FileGone ''manifest.json'']"
    using assms m by (simp add: partial_effects_def publish_effects_def failure_effects_def settle_and_recover_def
        settle_effects_def recover_effects_def apply_effect_def)
  then show ?thesis
    using assms(1,3) by (intro stranded_take [where fs = "fs(''manifest.json'' := None)"]) (simp_all add: apply_effect_def)
qed

lemma whole_archive:
  "apply_effects (publish_effects fs) \<lparr>vo_partial = Some fs, vo_final = None\<rparr> =
     \<lparr>vo_partial = None, vo_final = Some (fold changed_files (archive_effects fs) fs)\<rparr>"
proof -
  have "DirPublished \<notin> set (archive_effects fs)" by (auto simp: archive_effects_def)
  then show ?thesis
    by (simp add: publish_effects_def apply_effects_append apply_effects_partial [where fs = fs]) (simp add: apply_effect_def)
qed

lemma whole_recovery:
  assumes "fs ''capture.json'' \<noteq> None" and "fs ''segments.json'' \<noteq> None" and "recovered fs = Some w"
    and "inspected listing (fold changed_files (recovery_puts w) fs)"
  shows "vo_partial (apply_effects (recover_effects listing True recovered \<lparr>vo_partial = Some fs, vo_final = None\<rparr>)
      \<lparr>vo_partial = Some fs, vo_final = None\<rparr>) = None"
proof -
  let ?fs1 = "fold changed_files (recovery_puts w) fs"
  have "recover_effects listing True recovered \<lparr>vo_partial = Some fs, vo_final = None\<rparr> =
      recovery_puts w @ publish_effects ?fs1"
    using assms by (simp add: recover_effects_def publish_effects_def Let_def)
  then show ?thesis
    using apply_effects_partial [OF harmless_no_rename [OF harmless_puts [of w]], of "\<lparr>vo_partial = Some fs, vo_final = None\<rparr>" fs]
      whole_archive [of ?fs1]
    by (simp add: apply_effects_append)
qed

lemma failed_recovery:
  assumes "vo_partial (apply_effects (recover_effects listing True recovered \<lparr>vo_partial = Some fs, vo_final = None\<rparr>)
      \<lparr>vo_partial = Some fs, vo_final = None\<rparr>) \<noteq> None"
    and "fs ''capture.json'' \<noteq> None" and "fs ''segments.json'' \<noteq> None"
  shows "case recovered fs of None \<Rightarrow> True | Some w \<Rightarrow> \<not> inspected listing (fold changed_files (recovery_puts w) fs)"
  using whole_recovery [of fs recovered _ listing] assms by (auto split: option.splits)

lemma harmless_segments: "list_all harmless es \<Longrightarrow> fold changed_files es fs ''segments.json'' = fs ''segments.json''"
proof (induction es arbitrary: fs)
  case (Cons e es)
  have "changed_files e fs ''segments.json'' = fs ''segments.json''"
    using Cons.prems by (cases e) (auto simp: harmless_def replaced_path_def)
  then show ?case using Cons by simp
qed simp

lemma repeated_recovery:
  assumes "v = \<lparr>vo_partial = Some f, vo_final = None\<rparr>" and "media_kept originals f" and "f ''capture.json'' = Some capture"
    and "\<not> inspected listing f" and "(''segments.json'', checkpoint) \<in> set originals" and "rr_recheck r"
    and "vo_partial (apply_effects (partial_effects listing r v) v) \<noteq> None"
  shows "\<exists>fs'. media_kept originals fs' \<and> fs' ''capture.json'' = Some capture \<and>
    (case rr_work r fs' of None \<Rightarrow> True | Some w \<Rightarrow> \<not> inspected listing (fold changed_files (recovery_puts w) fs'))"
proof -
  let ?gone = "if f ''manifest.json'' \<noteq> None \<and> rr_unlinks r then [FileGone ''manifest.json''] else []"
  let ?first = "?gone @ settle_effects (rr_unlinks r) (rr_settled r) (fold changed_files ?gone f)"
  let ?f1 = "fold changed_files ?first f"
  let ?v1 = "\<lparr>vo_partial = Some ?f1, vo_final = None\<rparr>"
  have h: "list_all harmless ?first" using harmless_settle by (simp add: harmless_def)
  have first: "apply_effects ?first v = ?v1"
    using apply_effects_partial [OF harmless_no_rename [OF h], of v f] assms(1) by simp
  have gone: "apply_effects ?gone v = \<lparr>vo_partial = Some (fold changed_files ?gone f), vo_final = None\<rparr>"
    using assms(1) by (simp add: apply_effect_def)
  have "partial_effects listing r v = ?gone @ settle_and_recover listing r (apply_effects ?gone v)"
    using assms(4) by (simp add: partial_effects_def failure_effects_def assms(1))
  also have "\<dots> = ?first @ recover_effects listing True (rr_work r) ?v1"
    unfolding gone settle_and_recover_def Let_def using assms(6) first gone by (simp add: apply_effects_append)
  finally have es: "partial_effects listing r v = ?first @ recover_effects listing True (rr_work r) ?v1" .
  have f1: "media_kept originals ?f1" "?f1 ''capture.json'' = Some capture" using harmless_files [OF h assms(2,3)] by simp_all
  have "f ''segments.json'' = Some checkpoint"
    using assms(2,5) by (auto simp: media_kept_def list_all_iff replaced_path_def)
  then have seg: "?f1 ''segments.json'' \<noteq> None" by (simp only: harmless_segments [OF h] option.distinct not_False_eq_True)
  have unpublished: "vo_partial (apply_effects (recover_effects listing True (rr_work r) ?v1) ?v1) \<noteq> None"
    using assms(7) unfolding es apply_effects_append [of ?first] first .
  have "case rr_work r ?f1 of None \<Rightarrow> True | Some w \<Rightarrow> \<not> inspected listing (fold changed_files (recovery_puts w) ?f1)"
    by (rule failed_recovery [OF unpublished _ seg]) (simp only: f1(2) option.distinct not_False_eq_True)
  then show ?thesis using f1 by blast
qed

text \<open>C19: One undisturbed start settles what any number of crashed ones left, under the same exception for the earlier
  ones.  After a start whose inspections read the disk and whose archive and rename raise nothing, the recording
  is published, or the repeated recovery, with the media and the capture plan all there, found nothing to save or
  wrote a manifest that its files do not match; then nothing is lost either.\<close>

theorem undisturbed_start_publishes:
  assumes "controls_unlisted listing" and "media_kept originals fs" and "fs ''capture.json'' = Some capture"
    and "(''segments.json'', checkpoint) \<in> set originals"
    and "spared listing runs \<lparr>vo_partial = Some fs, vo_final = None\<rparr>"
    and "rr_check r" and "rr_raises r = None" and "rr_recheck r"
    and "v = cut_restarts listing runs \<lparr>vo_partial = Some fs, vo_final = None\<rparr>"
    and "v' = apply_effects (partial_effects listing r v) v"
  shows "take_safe listing originals capture True v' \<and>
    (vo_partial v' = None \<or>
     (\<exists>fs'. media_kept originals fs' \<and> fs' ''capture.json'' = Some capture \<and>
        (case rr_work r fs' of None \<Rightarrow> True | Some w \<Rightarrow> \<not> inspected listing (fold changed_files (recovery_puts w) fs'))))"
proof -
  have safe: "take_safe listing originals capture True v"
    unfolding assms(9) by (rule restarts_safe [OF assms(1) _ assms(5)]) (simp add: take_safe_def assms(2,3))
  have "\<not> strands listing r v" using assms(6,7) by (simp add: strands_def split: option.split)
  then have safe': "take_safe listing originals capture True v'"
    unfolding assms(10) using startup.whole [of listing r v originals capture True] assms(1) safe by blast
  show ?thesis
  proof (cases "vo_partial v' = None")
    case False
    then obtain f where f: "vo_partial v = Some f"
      unfolding assms(10) by (cases "vo_partial v") (simp_all add: partial_effects_def)
    note v = take_safe_partial [OF safe f]
    have "\<not> inspected listing f"
    proof
      assume i: "inspected listing f"
      then have "partial_effects listing r v = publish_effects f"
        using assms(6,7) by (auto simp: partial_effects_def v(1) inspected_def split: option.splits)
      then have "vo_partial v' = None" unfolding assms(10) v(1) using whole_archive by simp
      then show False using False by simp
    qed
    then show ?thesis
      using repeated_recovery [OF v(1,2) _ _ assms(4,8)] v(3) False safe' unfolding assms(10) by blast
  qed (use safe' in blast)
qed

section \<open>An interrupted recovery\<close>

text \<open>A recording of one segment whose recovery is cut after the manifest, and again after the first control file.\<close>

definition one_listing :: "string \<Rightarrow> (string \<times> nat) list option" where
  "one_listing m = (if m = ''manifest'' then Some [(''video'', 5), (''recovery/frames.ndjson'', 6)] else None)"

definition one_output :: "take_files \<Rightarrow> recovery_output option" where
  "one_output fs = Some \<lparr>ro_compressed = False, ro_frames = ''frames'', ro_imu = [], ro_tail = None, ro_receipt = ''receipt'',
     ro_manifest = ''manifest''\<rparr>"

definition one_run :: restart_run where
  "one_run = \<lparr>rr_check = True, rr_raises = None, rr_unlinks = True, rr_recheck = True, rr_settled = (\<lambda>state. Some ''settled''), rr_work = one_output\<rparr>"

definition one_take :: take_files where
  "one_take = [''video'' \<mapsto> ''bytes'', ''segments.json'' \<mapsto> ''segments'', ''capture.json'' \<mapsto> ''plan'', ''recording.json'' \<mapsto> ''recording'']"

definition one_media :: "(string \<times> string) list" where
  "one_media = [(''video'', ''bytes''), (''segments.json'', ''segments'')]"

lemma one_listing_controls: "controls_unlisted one_listing"
  by (auto simp: controls_unlisted_def one_listing_def archived_controls_def)

lemma one_take_media: "media_kept one_media one_take" "one_take ''capture.json'' = Some ''plan''"
  by (simp_all add: media_kept_def one_media_def one_take_def)

text \<open>A start whose archive fails at once, with the plan still in its place.\<close>

definition failing_run :: restart_run where
  "failing_run = one_run\<lparr>rr_raises := Some 0\<rparr>"

lemma spared_without_errors:
  "list_all (\<lambda>(r, k). rr_check r \<and> rr_raises r = None) runs \<Longrightarrow> spared listing runs v"
  by (induction runs arbitrary: v) (auto simp: strands_def split: option.split)

lemma spared_example:
  "spared one_listing [(one_run, 6), (failing_run, 9), (one_run, 8)] \<lparr>vo_partial = Some one_take, vo_final = None\<rparr>"
proof -
  have files: "one_take ''manifest.json'' = None" "one_take ''recording.json'' = Some ''recording''" "one_take ''capture.json'' = Some ''plan''"
    "one_take ''segments.json'' = Some ''segments''"
    by (simp_all add: one_take_def)
  let ?es = "[FileGone ''manifest.json'', FileGone ''manifest.json'', FilePut ''recording.json'' ''settled'']"
  let ?v = "\<lparr>vo_partial = Some one_take, vo_final = None\<rparr>"
  have puts: "recovery_puts w = FilePut ''recovery/frames.ndjson'' ''frames'' # FilePut ''recovery/imu.ndjson'' [] #
      FilePut ''recovery/interruption.json'' ''receipt'' # [FilePut ''manifest.json'' ''manifest'']"
    if "one_output fs = Some w" for fs w
    using that by (auto simp: one_output_def recovery_puts_def)
  have first: "settle_effects True (rr_settled one_run) one_take = ?es" by (simp add: settle_effects_def files one_run_def)
  obtain rest where "partial_effects one_listing one_run ?v = ?es @ FilePut ''recovery/frames.ndjson'' ''frames'' #
      FilePut ''recovery/imu.ndjson'' [] # FilePut ''recovery/interruption.json'' ''receipt'' # rest"
    using first puts
    by (simp add: partial_effects_def files settle_and_recover_def recover_effects_def Let_def one_run_def one_output_def apply_effect_def)
  then have "cut_start one_listing (one_run, 6) ?v = apply_effects (?es @ [FilePut ''recovery/frames.ndjson'' ''frames'',
      FilePut ''recovery/imu.ndjson'' [], FilePut ''recovery/interruption.json'' ''receipt'']) ?v"
    by (simp add: cut_start_def)
  then have v1: "\<exists>fs. vo_partial (cut_start one_listing (one_run, 6) ?v) = Some fs \<and> fs ''capture.json'' \<noteq> None"
    by (simp add: apply_effect_def files)
  have "\<not> strands one_listing failing_run (cut_start one_listing (one_run, 6) ?v)"
    using v1 by (auto simp: strands_def failing_run_def)
  moreover have "\<not> strands one_listing one_run v" for v
    by (simp add: strands_def one_run_def split: option.split)
  ultimately show ?thesis by simp
qed

theorem no_crash_loses_the_recording_witness:
  "take_safe one_listing one_media ''plan'' True
     (cut_restarts one_listing [(one_run, 6), (failing_run, 9), (one_run, 8)] \<lparr>vo_partial = Some one_take, vo_final = None\<rparr>)"
  by (rule no_crash_loses_the_recording [OF one_listing_controls one_take_media spared_example])

theorem undisturbed_start_publishes_witness:
  "let v = cut_restarts one_listing [(one_run, 6), (failing_run, 9), (one_run, 8)] \<lparr>vo_partial = Some one_take, vo_final = None\<rparr> in
   take_safe one_listing one_media ''plan'' True (apply_effects (partial_effects one_listing one_run v) v)"
proof -
  have s: "(''segments.json'', ''segments'') \<in> set one_media" and r: "rr_check one_run" "rr_raises one_run = None" "rr_recheck one_run"
    by (simp_all add: one_media_def one_run_def)
  show ?thesis
    unfolding Let_def using undisturbed_start_publishes [OF one_listing_controls one_take_media s spared_example r refl refl] by blast
qed

end
