(* ===== verification/SealPublication.thy ===== *)
theory SealPublication
  imports RecoveryPublication
begin

text \<open>
  The publication of an ordinary stop: the end of \<open>stop\<close> in \<open>recording/device_session.py\<close>, with the handler of its
  failures, on the directory of \<open>RecoveryPublication\<close>.  The manifest is not replaced atomically here, so a crash may leave
  any prefix of it.  The check before the publication and the check of the generation are guards.  The plain
  copies of compacted files, removed after the rename, and the native sealing are left out.
\<close>

section \<open>The stop's effects\<close>

text \<open>\<open>_validate_artifact_bytes\<close>: every artifact of the manifest has its size.\<close>

definition artifacts_sized :: "(string \<Rightarrow> (string \<times> nat) list option) \<Rightarrow> string \<Rightarrow> take_files \<Rightarrow> bool" where
  "artifacts_sized listing payload fs \<longleftrightarrow>
     (case listing payload of
        None \<Rightarrow> False
      | Some artifacts \<Rightarrow> list_all (\<lambda>(p, n). case fs p of None \<Rightarrow> False | Some bytes \<Rightarrow> length bytes = n) artifacts)"

text \<open>\<open>admitted\<close> is \<open>before_publish\<close>; the manifest must not exist yet (\<open>xb\<close>), and its first \<open>j\<close> bytes may reach the disk alone.\<close>

definition seal_effects ::
  "(string \<Rightarrow> (string \<times> nat) list option) \<Rightarrow> bool \<Rightarrow> nat \<Rightarrow> string \<Rightarrow> take_files \<Rightarrow> file_effect list" where
  "seal_effects listing admitted j payload fs =
     (if \<not> artifacts_sized listing payload fs \<or> \<not> admitted \<or> fs ''manifest.json'' \<noteq> None then []
      else [FilePut ''manifest.json'' (take j payload), FilePut ''manifest.json'' payload] @
           map FileGone (filter (\<lambda>c. fs c \<noteq> None) [''recording.json'', ''capture.json'']) @ [DirPublished])"

text \<open>The handler, when the recording has not been renamed: the manifest goes, and the state is rewritten.\<close>

definition seal_failure :: "string option \<Rightarrow> take_volume \<Rightarrow> file_effect list" where
  "seal_failure failed v =
     (if vo_partial v = None then []
      else FileGone ''manifest.json'' # FileGone ''manifest.json'' #
           (case failed of None \<Rightarrow> [] | Some state \<Rightarrow> [FilePut ''recording.json'' state]))"

text \<open>A stop that ends after \<open>k\<close> effects: the process dies there, or an exception runs the handler.\<close>

definition cut_seal ::
  "(string \<Rightarrow> (string \<times> nat) list option) \<Rightarrow> bool \<Rightarrow> nat \<Rightarrow> string \<Rightarrow> nat \<Rightarrow> take_volume \<Rightarrow> take_volume" where
  "cut_seal listing admitted j payload k v =
     (case vo_partial v of
        None \<Rightarrow> v
      | Some fs \<Rightarrow> apply_effects (take k (seal_effects listing admitted j payload fs)) v)"

definition failed_seal ::
  "(string \<Rightarrow> (string \<times> nat) list option) \<Rightarrow> bool \<Rightarrow> nat \<Rightarrow> string \<Rightarrow> nat \<Rightarrow> string option \<Rightarrow> take_volume \<Rightarrow> take_volume" where
  "failed_seal listing admitted j payload k failed v =
     (let v1 = cut_seal listing admitted j payload k v in apply_effects (seal_failure failed v1) v1)"

section \<open>No stop loses the recording\<close>

lemma inspected_sized:
  assumes "artifacts_sized listing payload fs" and "controls_unlisted listing" and "length payload \<le> max_manifest_bytes"
    and "fs' ''manifest.json'' = Some payload"
    and "\<And>p. p \<notin> set archived_controls \<Longrightarrow> p \<noteq> ''manifest.json'' \<Longrightarrow> fs' p = fs p"
  shows "inspected listing fs'"
proof -
  obtain artifacts where a: "listing payload = Some artifacts"
      "list_all (\<lambda>(p, n). case fs p of None \<Rightarrow> False | Some bytes \<Rightarrow> length bytes = n) artifacts"
    using assms(1) by (auto simp: artifacts_sized_def split: option.splits)
  have "list_all (\<lambda>(p, n). p \<noteq> ''manifest.json'' \<and> p \<notin> set archived_controls) artifacts"
    using assms(2) a(1) unfolding controls_unlisted_def list_all_iff by fast
  then have same: "fs' p = fs p" if "(p, n) \<in> set artifacts" for p n
    using assms(5) that by (fastforce simp: list_all_iff)
  have "list_all (\<lambda>(p, n). case fs' p of None \<Rightarrow> False | Some bytes \<Rightarrow> length bytes = n) artifacts"
    using a(2) same by (auto simp: list_all_iff)
  then show ?thesis using assms(3,4) a(1) by (simp add: inspected_def)
qed

lemma seal_cut:
  assumes "controls_unlisted listing" and "length payload \<le> max_manifest_bytes" and "media_kept originals fs" and "fs ''capture.json'' = Some capture"
  shows "take_safe listing originals capture False (cut_seal listing admitted j payload k \<lparr>vo_partial = Some fs, vo_final = None\<rparr>)"
proof (cases "artifacts_sized listing payload fs \<and> admitted \<and> fs ''manifest.json'' = None")
  case False
  then have "seal_effects listing admitted j payload fs = []" by (auto simp: seal_effects_def)
  then show ?thesis using assms(3,4) by (simp add: cut_seal_def take_safe_def)
next
  case True
  note ok = inspected_sized [OF _ assms(1), of payload fs]
  have i: "inspected listing (fs(''manifest.json'' \<mapsto> payload))"
    "inspected listing (fs(''manifest.json'' \<mapsto> payload, ''capture.json'' := None))"
    "inspected listing (fs(''manifest.json'' \<mapsto> payload, ''recording.json'' := None))"
    "inspected listing (fs(''manifest.json'' \<mapsto> payload, ''recording.json'' := None, ''capture.json'' := None))"
    using True assms(2) by (intro ok; simp add: archived_controls_def)+
  have kept: "replaced_path ''manifest.json''" "replaced_path ''capture.json''" "replaced_path ''recording.json''"
    by (simp_all add: replaced_path_def)
  have es: "seal_effects listing admitted j payload fs =
      [FilePut ''manifest.json'' (take j payload), FilePut ''manifest.json'' payload] @
      map FileGone (filter (\<lambda>c. fs c \<noteq> None) [''recording.json'', ''capture.json'']) @ [DirPublished]"
    using True by (auto simp: seal_effects_def)
  show ?thesis
    using assms(3,4) i kept
    by (cases "fs ''recording.json'' = None")
      (auto simp: cut_seal_def es take_Cons apply_effect_def take_safe_def media_kept_upd split: nat.splits)
qed

text \<open>C20: A crash anywhere in the publication of an ordinary stop is not the end of the recording.  The manifest may be
  torn or whole and the control files there or gone: however many starts, cut anywhere, follow, the recording
  exists once with its media, recoverable, checked or published; and nothing is published that does not match its
  manifest.  Two things are assumed: the manifest is within the limit of the readers, which the stop itself does not
  check, and no later start is one that \<open>spared\<close> excludes, whose inspection, archive or rename raises once the
  plan is gone and which then deletes the checked manifest.\<close>

theorem no_crash_loses_the_sealed_take:
  assumes "controls_unlisted listing" and "length payload \<le> max_manifest_bytes"
    and "media_kept originals fs" and "fs ''capture.json'' = Some capture"
    and "spared listing runs (cut_seal listing admitted j payload k \<lparr>vo_partial = Some fs, vo_final = None\<rparr>)"
  shows "take_safe listing originals capture False
    (cut_restarts listing runs (cut_seal listing admitted j payload k \<lparr>vo_partial = Some fs, vo_final = None\<rparr>))"
  by (rule restarts_safe [OF assms(1) seal_cut [OF assms(1-4)] assms(5)])

text \<open>An exception is safe before the control files go: the handler leaves the recording recoverable.  After that
  it deletes the manifest of a recording whose plan is gone as well.\<close>

lemma failed_seal_before_the_controls:
  assumes "fs ''capture.json'' = Some capture" and "media_kept originals fs" and "k \<le> 2"
  shows "take_safe listing originals capture archived (failed_seal listing admitted j payload k failed \<lparr>vo_partial = Some fs, vo_final = None\<rparr>)"
proof -
  let ?v = "\<lparr>vo_partial = Some fs, vo_final = None\<rparr>"
  have h: "list_all harmless (take k (seal_effects listing admitted j payload fs))"
    using assms(3) by (auto simp: seal_effects_def harmless_def replaced_path_def take_Cons split: nat.splits)
  have v1: "cut_seal listing admitted j payload k ?v =
      \<lparr>vo_partial = Some (fold changed_files (take k (seal_effects listing admitted j payload fs)) fs), vo_final = None\<rparr>" (is "_ = ?v1")
    using apply_effects_partial [OF harmless_no_rename [OF h], of ?v fs] by (simp add: cut_seal_def)
  have h2: "list_all harmless (seal_failure failed ?v1)"
    by (simp add: seal_failure_def harmless_def replaced_path_def split: option.splits)
  note k1 = harmless_files [OF h assms(2,1)]
  note k2 = harmless_files [OF h2 k1 [THEN conjunct1] k1 [THEN conjunct2]]
  have "failed_seal listing admitted j payload k failed ?v =
      ?v1\<lparr>vo_partial := Some (fold changed_files (seal_failure failed ?v1) (fold changed_files (take k (seal_effects listing admitted j payload fs)) fs))\<rparr>"
    unfolding failed_seal_def v1 Let_def by (rule apply_effects_partial [OF harmless_no_rename [OF h2]]) simp
  then show ?thesis using k2 by (simp add: take_safe_def)
qed

lemma failed_rename_strands:
  assumes "seal_effects listing admitted j payload fs \<noteq> []" and "fs ''capture.json'' \<noteq> None"
    and "k = length (seal_effects listing admitted j payload fs) - 1"
  shows "vo_partial (cut_restarts listing runs (failed_seal listing admitted j payload k failed \<lparr>vo_partial = Some fs, vo_final = None\<rparr>)) \<noteq> None"
proof -
  let ?v = "\<lparr>vo_partial = Some fs, vo_final = None\<rparr>"
  have es: "take k (seal_effects listing admitted j payload fs) =
      [FilePut ''manifest.json'' (take j payload), FilePut ''manifest.json'' payload] @
      map FileGone (filter (\<lambda>c. fs c \<noteq> None) [''recording.json'', ''capture.json''])"
    using assms unfolding seal_effects_def by (auto split: if_splits)
  have "\<exists>fs'. vo_partial (failed_seal listing admitted j payload k failed ?v) = Some fs' \<and> fs' ''capture.json'' = None \<and> fs' ''manifest.json'' = None"
    using assms(2) by (cases "fs ''recording.json''"; cases failed)
      (auto simp: failed_seal_def cut_seal_def es seal_failure_def apply_effect_def Let_def)
  then show ?thesis using stranded_take by blast
qed

section \<open>A torn manifest\<close>

definition stop_listing :: "string \<Rightarrow> (string \<times> nat) list option" where
  "stop_listing m = (if m = ''sealed'' then Some [(''video'', 5)] else one_listing m)"

lemma stop_listing_controls: "controls_unlisted stop_listing"
  by (auto simp: controls_unlisted_def stop_listing_def one_listing_def archived_controls_def)

theorem no_crash_loses_the_sealed_take_witness:
  "take_safe stop_listing one_media ''plan'' False
     (cut_restarts stop_listing [(one_run, 3), (one_run, 9)] (cut_seal stop_listing True 3 ''sealed'' 1 \<lparr>vo_partial = Some one_take, vo_final = None\<rparr>))"
proof (rule no_crash_loses_the_sealed_take [OF stop_listing_controls _ one_take_media])
  show "spared stop_listing [(one_run, 3), (one_run, 9)] v" for v
    by (rule spared_without_errors) (simp add: one_run_def)
qed (simp add: max_manifest_bytes_def)

end
