(* ===== verification/VideoSegments.thy ===== *)
theory VideoSegments
  imports CrashRecovery
begin

text \<open>
  \<open>recording/device_session.py\<close>: the video segments of a recording.  The harvester checks what the native encoder
  announces, hashes each closed pair, and writes a checkpoint that a recovery can start from; the manifest
  lists the pairs on the frame domain, and dropped frames are refused by the quality policy.  One turn of the
  harvester answers through arguments: the announcements since an offset, the frames indexed so far, the
  digest of a file, and whether the journals and the checkpoint reached the disk.  A recovery reads the checkpoint
  back through a limit of 8 MiB, which the harvester does not check.
\<close>

section \<open>Announcements\<close>

definition session_error :: "string \<Rightarrow> pyexc" where
  "session_error code = AppError code [] False"

record announced =
  gs_index :: int
  gs_start :: int
  gs_end :: int
  gs_left :: string
  gs_left_bytes :: int
  gs_right :: string
  gs_right_bytes :: int

definition native_segment_uint :: "json \<Rightarrow> int res" where
  "native_segment_uint v =
     (case v of JInt i \<Rightarrow> if 0 \<le> i then Inr i else Inl (session_error ''native_recording_segment_planner_failed'')
      | _ \<Rightarrow> Inl (session_error ''native_recording_segment_planner_failed''))"

text \<open>The parts of a path that \<open>PurePosixPath\<close> keeps: neither empty ones nor dots, so only \<open>..\<close> is left to refuse.\<close>

definition native_segment_path :: "json \<Rightarrow> string res" where
  "native_segment_path v =
     (case v of
        JStr s \<Rightarrow>
          if s = [] \<or> 1024 < py_len s \<or> CHR 0x5C \<in> set s \<or> hd s = CHR ''/'' \<or> ''..'' \<in> set (split_on (CHR ''/'') s)
          then Inl (session_error ''native_session_store_failed'') else Inr s
      | _ \<Rightarrow> Inl (session_error ''native_session_store_failed''))"

definition native_segment :: "json \<Rightarrow> announced res" where
  "native_segment v =
     (case v of
        JObj d \<Rightarrow>
          bindE (native_segment_uint (jget d ''index'')) (\<lambda>index.
          bindE (native_segment_uint (jget d ''start_frame'')) (\<lambda>start.
          bindE (native_segment_uint (jget d ''end_frame'')) (\<lambda>stop.
          bindE (native_segment_path (jget d ''left_path'')) (\<lambda>left.
          bindE (native_segment_uint (jget d ''left_bytes'')) (\<lambda>left_bytes.
          bindE (native_segment_path (jget d ''right_path'')) (\<lambda>right.
          bindE (native_segment_uint (jget d ''right_bytes'')) (\<lambda>right_bytes.
            Inr \<lparr>gs_index = index, gs_start = start, gs_end = stop, gs_left = left, gs_left_bytes = left_bytes,
                 gs_right = right, gs_right_bytes = right_bytes\<rparr>)))))))
      | _ \<Rightarrow> Inl AttributeError)"

fun native_segments :: "json list \<Rightarrow> announced list res" where
  "native_segments [] = Inr []"
| "native_segments (v # vs) = bindE (native_segment v) (\<lambda>g. bindE (native_segments vs) (\<lambda>gs. Inr (g # gs)))"

text \<open>Older native builds list everything.\<close>

definition later_segments :: "json list \<Rightarrow> nat \<Rightarrow> json list res" where
  "later_segments whole skipped =
     (if length whole < skipped then Inl (session_error ''segment_invalid'') else Inr (drop skipped whole))"

section \<open>The harvester\<close>

record segment_store =
  ss_records :: "jobject list"
  ss_harvested :: nat
  ss_bytes :: int
  ss_saved :: "json list option"

definition new_segments :: segment_store where
  "new_segments = \<lparr>ss_records = [], ss_harvested = 0, ss_bytes = 0, ss_saved = None\<rparr>"

definition eye_descriptor :: "string \<Rightarrow> string \<Rightarrow> string \<times> int \<Rightarrow> json" where
  "eye_descriptor eye path proof_of =
     JObj [(''artifact_id'', JStr (fst proof_of)), (''role'', JStr (''video.'' @ eye)), (''path'', JStr path),
       (''media_type'', JStr ''video/mp4''), (''bytes'', JInt (snd proof_of)), (''sha256'', JStr (fst proof_of))]"

text \<open>\<open>finalize\<close> is \<open>_finalize_for_seal\<close>: the digest and the size of a file with the declared size.\<close>

definition segment_record ::
  "(string \<Rightarrow> int \<Rightarrow> (string \<times> int) res) \<Rightarrow> announced \<Rightarrow> segment_store \<Rightarrow> jobject res \<times> segment_store" where
  "segment_record finalize g ss =
     tryS (finalize (gs_left g) (gs_left_bytes g)) ss (\<lambda>left.
       let ss1 = ss\<lparr>ss_bytes := ss_bytes ss + snd left\<rparr> in
       tryS (finalize (gs_right g) (gs_right_bytes g)) ss1 (\<lambda>right.
         (Inr [(''index'', JInt (gs_index g)), (''start_ordinal'', JInt (gs_start g)), (''end_ordinal'', JInt (gs_end g)),
               (''artifacts'', JObj [(''left'', eye_descriptor ''left'' (gs_left g) left),
                                    (''right'', eye_descriptor ''right'' (gs_right g) right)])],
          ss1\<lparr>ss_bytes := ss_bytes ss1 + snd right\<rparr>)))"

record harvest_turn =
  hv_since :: "nat \<Rightarrow> json list res"
  hv_indexed :: "nat \<Rightarrow> int"
  hv_finalize :: "string \<Rightarrow> int \<Rightarrow> (string \<times> int) res"
  hv_synced :: bool
  hv_stored :: bool
  hv_replaced :: bool

fun harvest_loop :: "harvest_turn \<Rightarrow> announced list \<Rightarrow> segment_store \<Rightarrow> unit res \<times> segment_store" where
  "harvest_loop t [] ss = (Inr (), ss)"
| "harvest_loop t (g # gs) ss =
     (if hv_indexed t (ss_harvested ss) < gs_end g then (Inr (), ss)
      else (case segment_record (hv_finalize t) g ss of
          (Inl e, ss1) \<Rightarrow> (Inl e, ss1)
        | (Inr row, ss1) \<Rightarrow>
            harvest_loop t gs (ss1\<lparr>ss_records := ss_records ss1 @ [row], ss_harvested := ss_harvested ss1 + 1\<rparr>)))"

text \<open>\<open>_harvest_segments\<close>, with a native transaction.  \<open>write_json_atomic\<close> may raise after it has replaced the file
  (\<open>hv_replaced\<close>).\<close>

definition harvest_segments :: "harvest_turn \<Rightarrow> segment_store \<Rightarrow> unit res \<times> segment_store" where
  "harvest_segments t ss =
     tryS (hv_since t (ss_harvested ss)) ss (\<lambda>raw.
     tryS (native_segments raw) ss (\<lambda>closed.
     andS (harvest_loop t closed ss) (\<lambda>ss1.
       if ss_harvested ss1 = ss_harvested ss then (Inr (), ss1)
       else if \<not> hv_synced t \<or> \<not> hv_stored t \<and> \<not> hv_replaced t then (Inl OSError, ss1)
       else (if hv_stored t then Inr () else Inl OSError, ss1\<lparr>ss_saved := Some (map JObj (ss_records ss1))\<rparr>))))"

definition harvest_turns :: "harvest_turn list \<Rightarrow> segment_store \<Rightarrow> segment_store" where
  "harvest_turns ts ss = fold (\<lambda>t ss. snd (harvest_segments t ss)) ts ss"

section \<open>Checkpoints and recovery\<close>

text \<open>The document of \<open>segments.json\<close>, and \<open>_read_json\<close>, where every failure of \<open>json.loads\<close> is a \<open>ValueError\<close>.\<close>

definition checkpoint_document :: "string \<Rightarrow> json list \<Rightarrow> json \<Rightarrow> jobject" where
  "checkpoint_document sid segments diagnostics =
     [(''schema'', JStr ''openaria.segment-checkpoint.v1''), (''session_id'', JStr sid),
      (''segments'', JList segments), (''diagnostics'', diagnostics)]"

definition max_recovery_metadata :: nat where
  "max_recovery_metadata = 8388608"

definition read_metadata :: "(string \<Rightarrow> json option) \<Rightarrow> string \<Rightarrow> jobject res" where
  "read_metadata loads bytes =
     (if max_recovery_metadata < length bytes then Inl ValueError
      else (case loads bytes of Some (JObj d) \<Rightarrow> Inr d | _ \<Rightarrow> Inl ValueError))"

text \<open>The segments that \<open>recover_device_session\<close> takes from the bytes of \<open>segments.json\<close>.  The loop stops at the first
  entry that is no segment, so a string or an object in the place of the list gives none.\<close>

definition recovered_segments ::
  "(string \<Rightarrow> json option) \<Rightarrow> (string \<Rightarrow> string \<Rightarrow> json option) \<Rightarrow> string \<Rightarrow> string \<Rightarrow> closed_segment list res" where
  "recovered_segments loads actual sid bytes =
     bindE (read_metadata loads bytes) (\<lambda>checkpoint.
       if \<not> eq_str (jget checkpoint ''schema'') ''openaria.segment-checkpoint.v1'' \<or> \<not> eq_str (jget checkpoint ''session_id'') sid
       then Inl ValueError
       else (case map_of checkpoint ''segments'' of
           None \<Rightarrow> Inl KeyError
         | Some (JList records) \<Rightarrow> Inr (committed_segments actual records 0 0)
         | Some (JStr s) \<Rightarrow> Inr []
         | Some (JObj d) \<Rightarrow> Inr []
         | Some _ \<Rightarrow> Inl TypeError))"

text \<open>The encoder's announcements are one growing list that tiles the frames; the files keep their contents.\<close>

fun announces :: "int \<Rightarrow> int \<Rightarrow> json list \<Rightarrow> bool" where
  "announces n start [] = True"
| "announces n start (v # vs) =
     (case native_segment v of
        Inr g \<Rightarrow> gs_index g = n \<and> gs_start g = start \<and> start < gs_end g \<and> announces (n + 1) (gs_end g) vs
      | Inl e \<Rightarrow> False)"

definition proper_turn :: "(string \<Rightarrow> string \<times> int) \<Rightarrow> json list \<Rightarrow> int \<Rightarrow> harvest_turn \<Rightarrow> bool" where
  "proper_turn held items indexed t \<longleftrightarrow>
     (\<forall>skipped. case hv_since t skipped of Inl e \<Rightarrow> True | Inr raw \<Rightarrow> raw = take (length raw) (drop skipped items)) \<and>
     (\<forall>k. hv_indexed t k \<le> indexed) \<and>
     (\<forall>path n. case hv_finalize t path n of Inl e \<Rightarrow> True | Inr proof_of \<Rightarrow> proof_of = held path)"

definition record_of :: "(string \<Rightarrow> string \<times> int) \<Rightarrow> json \<Rightarrow> jobject" where
  "record_of held v =
     (case native_segment v of
        Inl e \<Rightarrow> []
      | Inr g \<Rightarrow> [(''index'', JInt (gs_index g)), (''start_ordinal'', JInt (gs_start g)), (''end_ordinal'', JInt (gs_end g)),
               (''artifacts'', JObj [(''left'', eye_descriptor ''left'' (gs_left g) (held (gs_left g))),
                                    (''right'', eye_descriptor ''right'' (gs_right g) (held (gs_right g)))])])"

text \<open>\<open>_artifact\<close> of the recovery, which reads the file again.\<close>

definition read_back :: "(string \<Rightarrow> string \<times> int) \<Rightarrow> string \<Rightarrow> string \<Rightarrow> json option" where
  "read_back held path role =
     Some (JObj [(''artifact_id'', JStr (fst (held path))), (''sha256'', JStr (fst (held path))),
       (''bytes'', JInt (snd (held path))), (''path'', JStr path), (''role'', JStr role), (''media_type'', JStr ''video/mp4'')])"

definition announced_end :: "json \<Rightarrow> int" where
  "announced_end v = (case native_segment v of Inl e \<Rightarrow> 0 | Inr g \<Rightarrow> gs_end g)"

definition harvested :: "(string \<Rightarrow> string \<times> int) \<Rightarrow> json list \<Rightarrow> int \<Rightarrow> segment_store \<Rightarrow> bool" where
  "harvested held items indexed ss \<longleftrightarrow>
     ss_harvested ss \<le> length items \<and> ss_records ss = map (record_of held) (take (ss_harvested ss) items) \<and>
     list_all (\<lambda>v. announced_end v \<le> indexed) (take (ss_harvested ss) items)"

definition checkpointed :: "(string \<Rightarrow> string \<times> int) \<Rightarrow> json list \<Rightarrow> int \<Rightarrow> segment_store \<Rightarrow> bool" where
  "checkpointed held items indexed ss \<longleftrightarrow>
     (case ss_saved ss of
        None \<Rightarrow> True
      | Some vs \<Rightarrow> (\<exists>n \<le> length items. vs = map (JObj \<circ> record_of held) (take n items) \<and>
          list_all (\<lambda>v. announced_end v \<le> indexed) (take n items)))"

lemma segment_record_Inr:
  assumes "segment_record finalize g ss = (Inr row, ss1)" and "native_segment v = Inr g"
    and "\<And>path n proof_of. finalize path n = Inr proof_of \<Longrightarrow> proof_of = held path"
  shows "row = record_of held v" and "ss_records ss1 = ss_records ss" and "ss_harvested ss1 = ss_harvested ss"
    and "ss_saved ss1 = ss_saved ss"
  using assms(1,2) by (auto simp: segment_record_def record_of_def tryS_Inr Let_def dest!: assms(3))

lemma segment_record_frame:
  "segment_record finalize g ss = (r, ss1) \<Longrightarrow>
     ss_records ss1 = ss_records ss \<and> ss_harvested ss1 = ss_harvested ss \<and> ss_saved ss1 = ss_saved ss"
  by (auto simp: segment_record_def tryS_def Let_def split: sum.splits)

lemma announces_nth: "announces n start items \<Longrightarrow> k < length items \<Longrightarrow> \<exists>g. native_segment (items ! k) = Inr g"
proof (induction items arbitrary: n start k)
  case (Cons v vs)
  then show ?case by (cases k) (auto split: sum.splits)
qed simp

lemma native_segments_nth:
  "native_segments vs = Inr gs \<Longrightarrow> length gs = length vs \<and> (\<forall>k < length vs. native_segment (vs ! k) = Inr (gs ! k))"
proof (induction vs arbitrary: gs)
  case (Cons v vs)
  then obtain g gs' where g: "native_segment v = Inr g" "native_segments vs = Inr gs'" "gs = g # gs'" by (auto simp: bindE_eq_Inr)
  then show ?case using Cons.IH by (auto simp: nth_Cons split: nat.splits)
qed simp

lemma harvest_loop_harvested:
  assumes "harvested held items indexed ss" and "harvest_loop t gs ss = (r, ss')" and "proper_turn held items indexed t"
    and "native_segments raw = Inr gs" and "raw = take (length raw) (drop (ss_harvested ss) items)"
  shows "harvested held items indexed ss' \<and> ss_saved ss' = ss_saved ss"
  using assms
proof (induction gs arbitrary: ss raw)
  case (Cons g gs)
  obtain v vs where raw: "raw = v # vs" "native_segment v = Inr g" "native_segments vs = Inr gs"
    using Cons.prems(4) by (cases raw) (auto simp: bindE_eq_Inr)
  have lt: "ss_harvested ss < length items"
  proof (rule ccontr)
    assume "\<not> ?thesis"
    then have "raw = []" using Cons.prems(5) by simp
    then show False using raw(1) by simp
  qed
  have d: "drop (ss_harvested ss) items = items ! ss_harvested ss # drop (Suc (ss_harvested ss)) items"
    using lt by (simp add: Cons_nth_drop_Suc)
  have v: "v = items ! ss_harvested ss" "vs = take (length vs) (drop (Suc (ss_harvested ss)) items)"
    using Cons.prems(5) raw(1) d by auto
  show ?case
  proof (cases "hv_indexed t (ss_harvested ss) < gs_end g")
    case True
    then show ?thesis using Cons.prems by simp
  next
    case False
    obtain x ss1 where s: "segment_record (hv_finalize t) g ss = (x, ss1)" by fastforce
    note frame = segment_record_frame [OF s]
    show ?thesis
    proof (cases x)
      case (Inl e)
      then show ?thesis using Cons.prems(1,2) False s frame by (auto simp: harvested_def)
    next
      case (Inr row)
      let ?ss = "ss1\<lparr>ss_records := ss_records ss1 @ [row], ss_harvested := ss_harvested ss1 + 1\<rparr>"
      have "proof_of = held path" if "hv_finalize t path n = Inr proof_of" for path n proof_of
      proof -
        have "case hv_finalize t path n of Inl e \<Rightarrow> True | Inr proof_of \<Rightarrow> proof_of = held path"
          using Cons.prems(3) unfolding proper_turn_def by blast
        then show ?thesis using that by simp
      qed
      then have row: "row = record_of held v"
        using segment_record_Inr(1) [OF s [unfolded Inr] raw(2), of held] by blast
      have "gs_end g \<le> indexed" using Cons.prems(3) False unfolding proper_turn_def by (meson linorder_not_less order_trans)
      then have "harvested held items indexed ?ss"
        using Cons.prems(1) frame row v(1) lt raw(2) by (simp add: harvested_def take_Suc_conv_app_nth announced_end_def)
      moreover have "harvest_loop t gs ?ss = (r, ss')" using Cons.prems(2) False s Inr by simp
      moreover have "vs = take (length vs) (drop (ss_harvested ?ss) items)" using v(2) frame by simp
      ultimately have "harvested held items indexed ss' \<and> ss_saved ss' = ss_saved ?ss"
        by (intro Cons.IH [OF _ _ Cons.prems(3) raw(3)])
      then show ?thesis using frame by simp
    qed
  qed
qed simp

lemma harvest_segments_checkpoints:
  assumes "harvested held items indexed ss" and "checkpointed held items indexed ss" and "proper_turn held items indexed t"
    and "harvest_segments t ss = (r, ss')"
  shows "harvested held items indexed ss' \<and> checkpointed held items indexed ss'"
proof (cases "hv_since t (ss_harvested ss)")
  case (Inl e)
  then show ?thesis using assms by (simp add: harvest_segments_def)
next
  case raw: (Inr raw)
  show ?thesis
  proof (cases "native_segments raw")
    case (Inl e)
    then show ?thesis using assms raw by (simp add: harvest_segments_def)
  next
    case (Inr gs)
    obtain x ss1 where loop: "harvest_loop t gs ss = (x, ss1)" by fastforce
    have "case hv_since t (ss_harvested ss) of Inl e \<Rightarrow> True | Inr raw \<Rightarrow> raw = take (length raw) (drop (ss_harvested ss) items)"
      using assms(3) unfolding proper_turn_def by blast
    then have window: "raw = take (length raw) (drop (ss_harvested ss) items)" using raw by simp
    note h = harvest_loop_harvested [OF assms(1) loop assms(3) Inr window]
    have eq: "harvest_segments t ss = andS (x, ss1) (\<lambda>ss1.
       if ss_harvested ss1 = ss_harvested ss then (Inr (), ss1)
       else if \<not> hv_synced t \<or> \<not> hv_stored t \<and> \<not> hv_replaced t then (Inl OSError, ss1)
       else (if hv_stored t then Inr () else Inl OSError, ss1\<lparr>ss_saved := Some (map JObj (ss_records ss1))\<rparr>))"
      using raw Inr loop by (simp add: harvest_segments_def)
    have old: "checkpointed held items indexed ss1" using h assms(2) by (simp add: checkpointed_def)
    have new: "checkpointed held items indexed (ss1\<lparr>ss_saved := Some (map JObj (ss_records ss1))\<rparr>)"
      using h by (auto simp: checkpointed_def harvested_def intro!: exI [of _ "ss_harvested ss1"])
    have keep: "harvested held items indexed (ss1\<lparr>ss_saved := Some (map JObj (ss_records ss1))\<rparr>)"
      using h by (simp add: harvested_def)
    show ?thesis using assms(4) h old new keep unfolding eq by (cases x) (auto split: if_splits)
  qed
qed

lemma read_back_accepted:
  assumes "native_segment v = Inr g"
  shows "segment_eye_ok (read_back held) (record_of held v) ''left''" "segment_eye_ok (read_back held) (record_of held v) ''right''"
  by (auto simp: assms segment_eye_ok_def record_of_def eye_descriptor_def read_back_def jget_def scalar_eq_def)

lemma committed_announced:
  assumes "announces n start items"
  shows "map sg_record (committed_segments (read_back held) (map (JObj \<circ> record_of held) items) n start) = map (record_of held) items \<and>
    map sg_end (committed_segments (read_back held) (map (JObj \<circ> record_of held) items) n start) = map announced_end items"
  using assms
proof (induction items arbitrary: n start)
  case (Cons v vs)
  then obtain g where g: "native_segment v = Inr g" "gs_index g = n" "gs_start g = start" "start < gs_end g" "announces (n + 1) (gs_end g) vs"
    by (auto split: sum.splits)
  have f: "jget (record_of held v) ''end_ordinal'' = JInt (gs_end g)" "jget (record_of held v) ''index'' = JInt n"
    "jget (record_of held v) ''start_ordinal'' = JInt start"
    using g by (simp_all add: record_of_def jget_def)
  show ?case using Cons.IH [OF g(5)] read_back_accepted [OF g(1), of held] f g(1,4) by (simp add: announced_end_def)
qed simp

lemma announces_take: "announces n start items \<Longrightarrow> announces n start (take k items)"
proof (induction items arbitrary: n start k)
  case (Cons v vs)
  then show ?case by (cases k) (auto split: sum.splits)
qed simp

lemma checkpoints_are_accepted:
  assumes "announces 0 0 items" and "list_all (proper_turn held items indexed) turns"
    and "ss_saved (harvest_turns turns new_segments) = Some saved"
    and "segments = committed_segments (read_back held) saved 0 0"
  shows "\<exists>n \<le> length items. map (JObj \<circ> sg_record) segments = saved \<and> map sg_end segments = map announced_end (take n items) \<and>
    list_all (\<lambda>sg. sg_end sg \<le> indexed) segments"
proof -
  have "harvested held items indexed (harvest_turns ts ss) \<and> checkpointed held items indexed (harvest_turns ts ss)"
    if "list_all (proper_turn held items indexed) ts" "harvested held items indexed ss" "checkpointed held items indexed ss" for ts ss
    using that
  proof (induction ts arbitrary: ss)
    case (Cons t ts)
    obtain r ss1 where t: "harvest_segments t ss = (r, ss1)" by fastforce
    have "harvested held items indexed ss1 \<and> checkpointed held items indexed ss1"
      by (rule harvest_segments_checkpoints [OF Cons.prems(2,3) _ t]) (use Cons.prems(1) in simp)
    then show ?case using Cons.IH [of ss1] Cons.prems(1) t by (simp add: harvest_turns_def)
  qed (simp add: harvest_turns_def)
  moreover have "harvested held items indexed new_segments" "checkpointed held items indexed new_segments"
    by (simp_all add: harvested_def checkpointed_def new_segments_def)
  ultimately have "checkpointed held items indexed (harvest_turns turns new_segments)" using assms(2) by blast
  then obtain n where n: "n \<le> length items" "saved = map (JObj \<circ> record_of held) (take n items)"
      "list_all (\<lambda>v. announced_end v \<le> indexed) (take n items)"
    using assms(3) by (auto simp: checkpointed_def)
  note c = committed_announced [OF announces_take [OF assms(1), of n], of held]
  have r: "map sg_record segments = map (record_of held) (take n items)" "map sg_end segments = map announced_end (take n items)"
    using c unfolding assms(4) n(2) by simp_all
  have "map (JObj \<circ> sg_record) segments = saved"
    unfolding n(2) map_map [symmetric] r(1) by simp
  moreover have "list_all (\<lambda>sg. sg_end sg \<le> indexed) segments"
  proof -
    have "list_all (\<lambda>e. e \<le> indexed) (map sg_end segments)" unfolding r(2) using n(3) by (simp add: list_all_iff)
    then show ?thesis by (simp add: list_all_iff)
  qed
  ultimately show ?thesis using n(1) r(2) by blast
qed

text \<open>C21: What the harvester checkpoints is what a recovery accepts, up to the limit of its reader.  Whatever turns it
  takes, with announcements cut anywhere, failing digests and failing writes, every checkpoint on the disk lists a
  prefix of the announced pairs whose frames were all indexed when it was written; and the recovery, reading the
  text of that checkpoint and the same files again, takes every pair of it as committed.  If the text is longer
  than 8 MiB, which the harvester never checks, the recovery refuses the checkpoint as a whole.  \<open>bytes\<close> is the text
  that was written, so that \<open>json.loads\<close> gives the document back.\<close>

theorem recovery_accepts_every_checkpoint:
  assumes "announces 0 0 items" and "list_all (proper_turn held items indexed) turns"
    and "ss_saved (harvest_turns turns new_segments) = Some saved"
    and "loads bytes = Some (JObj (checkpoint_document sid saved diagnostics))"
  shows "if max_recovery_metadata < length bytes then recovered_segments loads (read_back held) sid bytes = Inl ValueError
    else (\<exists>segments. recovered_segments loads (read_back held) sid bytes = Inr segments \<and>
      (\<exists>n \<le> length items. map (JObj \<circ> sg_record) segments = saved \<and> map sg_end segments = map announced_end (take n items) \<and>
        list_all (\<lambda>sg. sg_end sg \<le> indexed) segments))"
proof (cases "max_recovery_metadata < length bytes")
  case True
  then show ?thesis by (simp add: recovered_segments_def read_metadata_def)
next
  case False
  then have "recovered_segments loads (read_back held) sid bytes = Inr (committed_segments (read_back held) saved 0 0)"
    by (simp add: recovered_segments_def read_metadata_def assms(4) checkpoint_document_def jget_def eq_str_def)
  then show ?thesis using checkpoints_are_accepted [OF assms(1-3) refl] False by simp
qed

text \<open>Two pairs, of which the frames of the first are indexed.\<close>

definition pair_item :: "int \<Rightarrow> json" where
  "pair_item i = JObj [(''index'', JInt i), (''start_frame'', JInt (i * 5)), (''end_frame'', JInt (i * 5 + 5)),
     (''left_path'', JStr ''l''), (''left_bytes'', JInt 3), (''right_path'', JStr ''r''), (''right_bytes'', JInt 3)]"

definition pair_turn :: "nat \<Rightarrow> harvest_turn" where
  "pair_turn k = \<lparr>hv_since = (\<lambda>skipped. Inr (take k (drop skipped [pair_item 0, pair_item 1]))), hv_indexed = (\<lambda>n. 7),
     hv_finalize = (\<lambda>path n. Inr (''d'', 3)), hv_synced = True, hv_stored = True, hv_replaced = True\<rparr>"

lemma pair_saved: "ss_saved (harvest_turns [pair_turn 0, pair_turn 2] new_segments) = Some [JObj (record_of (\<lambda>p. (''d'', 3)) (pair_item 0))]"
  by (simp add: harvest_turns_def harvest_segments_def pair_turn_def new_segments_def native_segment_def pair_item_def jget_def
      native_segment_uint_def native_segment_path_def py_len_def is_continuation_def segment_record_def record_of_def)

lemma pair_announces: "announces 0 0 [pair_item 0, pair_item 1]"
  by (simp add: native_segment_def pair_item_def jget_def native_segment_uint_def native_segment_path_def py_len_def is_continuation_def)

lemma pair_proper: "list_all (proper_turn (\<lambda>p. (''d'', 3)) [pair_item 0, pair_item 1] 7) [pair_turn 0, pair_turn 2]"
  by (simp add: proper_turn_def pair_turn_def)

lemma pair_ends: "announced_end (pair_item 0) = 5" "announced_end (pair_item 1) = 10"
  by (simp_all add: announced_end_def native_segment_def pair_item_def jget_def native_segment_uint_def native_segment_path_def
      py_len_def is_continuation_def)

definition pair_loads :: "string \<Rightarrow> json option" where
  "pair_loads bytes = (if bytes = ''C'' then Some (JObj (checkpoint_document ''s'' [JObj (record_of (\<lambda>p. (''d'', 3)) (pair_item 0))] (JList []))) else None)"

theorem recovery_accepts_every_checkpoint_witness:
  "\<exists>segments. recovered_segments pair_loads (read_back (\<lambda>p. (''d'', 3))) ''s'' ''C'' = Inr segments \<and> map sg_end segments = [5]"
proof -
  define document where "document = JObj (checkpoint_document ''s'' [JObj (record_of (\<lambda>p. (''d'', 3)) (pair_item 0))] (JList []))"
  have loads: "pair_loads ''C'' = Some document" by (simp add: pair_loads_def document_def)
  have small: "\<not> max_recovery_metadata < length ''C''" by (simp add: max_recovery_metadata_def)
  note accepted = recovery_accepts_every_checkpoint [where loads = pair_loads and bytes = "''C''" and sid = "''s''" and
      diagnostics = "JList []", OF pair_announces pair_proper pair_saved loads [unfolded document_def], unfolded if_not_P [OF small]]
  obtain segments n where s: "recovered_segments pair_loads (read_back (\<lambda>p. (''d'', 3))) ''s'' ''C'' = Inr segments"
    and n: "map (JObj \<circ> sg_record) segments = [JObj (record_of (\<lambda>p. (''d'', 3)) (pair_item 0))]"
      "map sg_end segments = map announced_end (take n [pair_item 0, pair_item 1])" "n \<le> 2"
    using accepted by auto
  have "length segments = 1" using arg_cong [OF n(1), of length] by simp
  then have "length (take n [pair_item 0, pair_item 1]) = 1" using arg_cong [OF n(2), of length] by simp
  then have "n = 1" using n(3) by simp
  then show ?thesis using s n(2) by (simp add: pair_ends)
qed

end
