(* ===== verification/VideoManifest.thy ===== *)
theory VideoManifest
  imports VideoSegments
begin

text \<open>
  \<open>recording/device_session.py\<close>: the video part of the manifest on the frame domain, the dropped frames and the
  quality policy.  A boundary answers through an argument, and \<open>fl\<close> rounds a floating-point operation.
\<close>

section \<open>Dropped frames\<close>

record drop_event =
  dv_start :: int
  dv_end :: int
  dv_at :: rat
  dv_dropped :: int

definition active_take_error :: pyexc where
  "active_take_error = session_error ''active_take_writer_failed''"

definition active_take_uint :: "json \<Rightarrow> int res" where
  "active_take_uint v = (case v of JInt i \<Rightarrow> if 0 \<le> i then Inr i else Inl active_take_error | _ \<Rightarrow> Inl active_take_error)"

definition active_take_float :: "json \<Rightarrow> rat res" where
  "active_take_float v =
     (case v of
        JInt i \<Rightarrow> if 0 \<le> i then Inr (of_int i) else Inl active_take_error
      | JFloat (Fin r) \<Rightarrow> if 0 \<le> r then Inr r else Inl active_take_error
      | _ \<Rightarrow> Inl active_take_error)"

definition active_take_drop :: "int \<Rightarrow> json \<Rightarrow> drop_event res" where
  "active_take_drop previous_end v =
     (case v of
        JObj d \<Rightarrow>
          bindE (active_take_uint (jget d ''start_frame'')) (\<lambda>start.
          bindE (active_take_uint (jget d ''end_frame'')) (\<lambda>stop.
          bindE (active_take_uint (jget d ''dropped'')) (\<lambda>dropped.
          bindE (active_take_float (jget d ''at_time_seconds'')) (\<lambda>at_time.
            if \<not> eq_str (jget d ''reason'') ''write_backpressure'' \<or> stop \<le> start \<or> dropped \<noteq> stop - start \<or> start < previous_end
            then Inl active_take_error
            else Inr \<lparr>dv_start = start, dv_end = stop, dv_at = at_time, dv_dropped = dropped\<rparr>))))
      | _ \<Rightarrow> Inl active_take_error)"

fun active_take_drops :: "int \<Rightarrow> json list \<Rightarrow> drop_event list res" where
  "active_take_drops previous_end [] = Inr []"
| "active_take_drops previous_end (v # vs) =
     bindE (active_take_drop previous_end v) (\<lambda>e. bindE (active_take_drops (dv_end e) vs) (\<lambda>es. Inr (e # es)))"

definition active_take_drop_events :: "json \<Rightarrow> drop_event list res" where
  "active_take_drop_events v = (case v of JList vs \<Rightarrow> active_take_drops 0 vs | _ \<Rightarrow> Inl active_take_error)"

text \<open>\<open>_record_drop\<close>: adjacent losses are one event.\<close>

definition record_drop :: "rat \<Rightarrow> int \<Rightarrow> int \<Rightarrow> drop_event list \<Rightarrow> drop_event list" where
  "record_drop elapsed start stop events =
     (if stop \<le> start then events
      else if events \<noteq> [] \<and> dv_end (last events) = start
        then butlast events @ [(last events)\<lparr>dv_end := stop, dv_dropped := dv_dropped (last events) + stop - start\<rparr>]
      else events @ [\<lparr>dv_start = start, dv_end = stop, dv_at = elapsed, dv_dropped = stop - start\<rparr>])"

section \<open>The quality policy\<close>

definition dropped_frames :: "drop_event list \<Rightarrow> int" where
  "dropped_frames events = sum_list (map dv_dropped events)"

definition largest :: "int list \<Rightarrow> int" where
  "largest ns = (if ns = [] then 0 else foldl max (hd ns) (tl ns))"

definition drops_from :: "(rat \<Rightarrow> rat) \<Rightarrow> rat \<Rightarrow> drop_event list \<Rightarrow> drop_event \<Rightarrow> int" where
  "drops_from fl window events e =
     sum_list (map dv_dropped (filter (\<lambda>other. dv_at e \<le> dv_at other \<and> dv_at other < fl (dv_at e + window)) events))"

definition drop_fraction :: "(rat \<Rightarrow> rat) \<Rightarrow> int \<Rightarrow> drop_event list \<Rightarrow> rat" where
  "drop_fraction fl frames_written events =
     (let dropped = dropped_frames events; whole = frames_written + dropped in
      if whole = 0 then 0 else fl (of_int dropped / of_int whole))"

definition quality_violations :: "(rat \<Rightarrow> rat) \<Rightarrow> device_config \<Rightarrow> int \<Rightarrow> drop_event list \<Rightarrow> string list" where
  "quality_violations fl c frames_written events =
     (if dc_max_contiguous c < largest (map dv_dropped events) then [''contiguous''] else []) @
     (if dc_max_total c < dropped_frames events then [''total''] else []) @
     (if dc_max_fraction c < drop_fraction fl frames_written events then [''fraction''] else []) @
     (if dc_max_window c < largest (map (drops_from fl (dc_window c) events) events) then [''window''] else [])"

definition enforce_quality_policy :: "(rat \<Rightarrow> rat) \<Rightarrow> device_config \<Rightarrow> int \<Rightarrow> drop_event list \<Rightarrow> unit res" where
  "enforce_quality_policy fl c frames_written events =
     (if quality_violations fl c frames_written events \<noteq> [] then Inl (session_error ''drop_quality_exceeded'') else Inr ())"

section \<open>The video block\<close>

record manifest_segment =
  ms_index :: int
  ms_start_frame :: int
  ms_end_frame :: int
  ms_start_time :: rat
  ms_end_time :: rat
  ms_artifacts :: json

fun video_segments :: "(int \<Rightarrow> (int \<times> rat) res) \<Rightarrow> jobject list \<Rightarrow> manifest_segment list res" where
  "video_segments boundary [] = Inr []"
| "video_segments boundary (row # rows) =
     (case (jget row ''index'', jget row ''start_ordinal'', jget row ''end_ordinal'') of
        (JInt index, JInt start, JInt stop) \<Rightarrow>
          bindE (boundary start) (\<lambda>(start_frame, start_time).
          bindE (boundary stop) (\<lambda>(end_frame, end_time).
            guardE (end_frame \<le> start_frame \<or> end_time \<le> start_time) (session_error ''segment_invalid'')
              (bindE (video_segments boundary rows) (\<lambda>later.
                Inr (\<lparr>ms_index = index, ms_start_frame = start_frame, ms_end_frame = end_frame, ms_start_time = start_time,
                      ms_end_time = end_time, ms_artifacts = jget row ''artifacts''\<rparr> # later)))))
      | _ \<Rightarrow> Inl TypeError)"

definition video_block :: "(int \<Rightarrow> (int \<times> rat) res) \<Rightarrow> jobject list \<Rightarrow> manifest_segment list res" where
  "video_block boundary rows = (if rows = [] then Inl (session_error ''no_frames'') else video_segments boundary rows)"

text \<open>\<open>_boundary\<close> without a native transaction: the marks of the writer, cut at the duration.\<close>

definition marked_boundary :: "(int \<rightharpoonup> int) \<Rightarrow> (int \<rightharpoonup> rat) \<Rightarrow> rat \<Rightarrow> int \<Rightarrow> (int \<times> rat) res" where
  "marked_boundary sequence_of elapsed_of duration ordinal =
     (case (sequence_of ordinal, elapsed_of ordinal) of
        (Some n, Some t) \<Rightarrow> Inr (n, min t duration)
      | _ \<Rightarrow> Inl (session_error ''segment_invalid''))"

section \<open>What is refused and what tiles\<close>

lemma largest_positive:
  assumes "ns \<noteq> []" and "list_all (\<lambda>n. 0 < n) ns"
  shows "0 < largest ns"
proof -
  have "a \<le> foldl max a xs" for a :: int and xs
    by (induction xs arbitrary: a) (auto intro: order_trans [OF max.cobounded1])
  then have "hd ns \<le> largest ns" using assms(1) by (simp add: largest_def)
  moreover have "0 < hd ns" using assms by (cases ns) auto
  ultimately show ?thesis by linarith
qed

lemma active_take_drops_positive: "active_take_drops previous_end vs = Inr events \<Longrightarrow> list_all (\<lambda>e. 0 < dv_dropped e) events"
  by (induction vs arbitrary: previous_end events)
    (auto simp: bindE_eq_Inr active_take_drop_def split: json.splits if_splits)

lemma active_take_drops_nil: "active_take_drops previous_end vs = Inr [] \<longleftrightarrow> vs = []"
  by (cases vs) (auto simp: bindE_eq_Inr)

text \<open>The quality policy of an accepted configuration lets a recording pass exactly when the producer reports
  no loss at all, for every rounding that keeps zero: every reported event is a positive loss, and each one
  exceeds the limits.\<close>

theorem quality_policy_is_no_loss:
  assumes "valid_device_config c" and "active_take_drop_events v = Inr events" and "fl 0 = 0"
  shows "enforce_quality_policy fl c frames_written events = Inr () \<longleftrightarrow> v = JList []"
proof -
  obtain vs where vs: "v = JList vs" "active_take_drops 0 vs = Inr events"
    using assms(2) by (auto simp: active_take_drop_events_def split: json.splits)
  note pos = active_take_drops_positive [OF vs(2)]
  have limits: "dc_max_contiguous c = 0" "dc_max_total c = 0" "dc_max_fraction c = 0" "dc_max_window c = 0"
    using assms(1) by (auto simp: valid_device_config_def)
  show ?thesis
  proof (cases "events = []")
    case True
    then have "vs = []" using vs(2) active_take_drops_nil by blast
    then show ?thesis
      using True limits vs(1) assms(3) by (simp add: enforce_quality_policy_def quality_violations_def largest_def dropped_frames_def drop_fraction_def)
  next
    case False
    have "0 < largest (map dv_dropped events)" using False pos by (intro largest_positive) (auto simp: list_all_iff)
    then have "quality_violations fl c frames_written events \<noteq> []" using limits by (simp add: quality_violations_def)
    moreover have "vs \<noteq> []" using vs(2) False by auto
    ultimately show ?thesis using vs(1) by (simp add: enforce_quality_policy_def)
  qed
qed

text \<open>Adjacent entries of the manifest share their boundary, because both ask for the same ordinal.\<close>

fun joined :: "manifest_segment list \<Rightarrow> bool" where
  "joined (a # b # rest) = (ms_end_frame a = ms_start_frame b \<and> ms_end_time a = ms_start_time b \<and> joined (b # rest))"
| "joined _ = True"

lemma video_segments_joined:
  assumes "announces n start items" and "video_segments boundary (map (record_of held) items) = Inr entries"
  shows "joined entries \<and> length entries = length items \<and>
    list_all (\<lambda>e. ms_start_frame e < ms_end_frame e \<and> ms_start_time e < ms_end_time e) entries \<and>
    (items \<noteq> [] \<longrightarrow> boundary start = Inr (ms_start_frame (hd entries), ms_start_time (hd entries)))"
  using assms
proof (induction items arbitrary: n start entries)
  case (Cons v vs)
  obtain g where g: "native_segment v = Inr g" "gs_index g = n" "gs_start g = start" "announces (n + 1) (gs_end g) vs"
    using Cons.prems(1) by (auto split: sum.splits)
  have f: "jget (record_of held v) ''end_ordinal'' = JInt (gs_end g)" "jget (record_of held v) ''index'' = JInt n"
    "jget (record_of held v) ''start_ordinal'' = JInt start"
    using g by (simp_all add: record_of_def jget_def)
  obtain a s b t later where e: "boundary start = Inr (a, s)" "boundary (gs_end g) = Inr (b, t)" "a < b" "s < t"
      "video_segments boundary (map (record_of held) vs) = Inr later"
      "entries = \<lparr>ms_index = n, ms_start_frame = a, ms_end_frame = b, ms_start_time = s, ms_end_time = t,
         ms_artifacts = jget (record_of held v) ''artifacts''\<rparr> # later"
    using Cons.prems(2) f by (auto simp: bindE_eq_Inr guardE_def split: if_splits)
  note ih = Cons.IH [OF g(4) e(5)]
  have "joined entries"
  proof (cases later)
    case (Cons x xs)
    then have "vs \<noteq> []" using ih by auto
    then have "boundary (gs_end g) = Inr (ms_start_frame x, ms_start_time x)" using ih Cons by simp
    then show ?thesis using ih e(2,6) Cons by simp
  qed (simp add: e(6))
  then show ?case using ih e by simp
qed simp

definition quality_config :: device_config where
  "quality_config = \<lparr>dc_device_id = ''01234567-89ab-4def-8123-456789abcdef'', dc_label = ''YLX-0123ABCD'',
     dc_fingerprint = ''sha256:'' @ replicate 64 (CHR ''0''), dc_platform = ''rdk'', dc_version = ''1'', dc_commit = replicate 40 (CHR ''a''),
     dc_width = 4, dc_height = 2, dc_fps = 30, dc_decimation = 1, dc_timezone_known = True, dc_policy = ''rdk-x5-lossless-v1'',
     dc_max_contiguous = 0, dc_max_total = 0, dc_max_fraction = 0, dc_window = 1, dc_max_window = 0, dc_layout = ''split-eyes'',
     dc_bitrate = 8192, dc_gop = Some 30, dc_segment_seconds = 5, dc_audio = False, dc_audio_device = [], dc_audio_rate = 48000,
     dc_audio_channels = 2, dc_audio_format = ''S16_LE''\<rparr>"

lemma quality_config_valid: "valid_device_config quality_config"
  by (simp add: valid_device_config_def quality_config_def uuid_v4_def upper_hex_def is_hex_def py_len_def is_continuation_def
      device_segment_frames_def round_half_even_def eval_nat_numeral uuid_classes_def is_variant_char_def is_digit_def)

definition lost_frame :: json where
  "lost_frame = JList [JObj [(''start_frame'', JInt 3), (''end_frame'', JInt 4), (''dropped'', JInt 1),
     (''at_time_seconds'', JInt 1), (''reason'', JStr ''write_backpressure'')]]"

lemma lost_frame_events: "active_take_drop_events lost_frame = Inr [\<lparr>dv_start = 3, dv_end = 4, dv_at = 1, dv_dropped = 1\<rparr>]"
  by (simp add: active_take_drop_events_def lost_frame_def active_take_drop_def active_take_uint_def active_take_float_def jget_def eq_str_def)

theorem quality_policy_is_no_loss_witness:
  "enforce_quality_policy (\<lambda>r. r) quality_config 10 [\<lparr>dv_start = 3, dv_end = 4, dv_at = 1, dv_dropped = 1\<rparr>] \<noteq> Inr ()"
  using quality_policy_is_no_loss [OF quality_config_valid lost_frame_events, of "\<lambda>r. r" 10] by (simp add: lost_frame_def)

end
