(* ===== verification/Spec2Isabelle.thy ===== *)
theory Spec2Isabelle
  imports NetworkMutationProps RecordingButton AudioJournal SessionProps ImuProps Deletion RecorderProps NetworkHealthProps
    EventProps NetworkEvents NetworkProfile NetworkStatusView NetworkScan CaptureWaitProps RecoveryMedia SealPublication VideoManifest
begin

text \<open>
  A verification development for the recorder daemon under \<open>src/src/rp_ylx\<close>: a device with a stereo camera, an IMU
  and a microphone that records takes onto a removable volume, serves them over an HTTP gateway, and whose
  network is configured by a privileged controller process.

  \<^bold>\<open>The parts and how they interact.\<close>  The capture coordinator owns the one recorder that may be active.  Its
  commands (start, stop, safe swap, delete) come from the gateway or from the recording button, carry an
  idempotency key, and leave a receipt in the command ledger, which is written to the state database
  together with the capture state.  A recorder writes journals and media into a partial directory and
  publishes it by one rename; after a crash the next start recovers the prefix that a checkpoint had
  committed.  Changes of state go out as events through a bounded replay buffer.  The network controller
  keeps one authority document in the same database; the gateway sends it validated requests, keeps
  credentials only until they are used, and projects the controller's state into its answers.

  \<^bold>\<open>Foundations.\<close>  \<open>Prelude\<close> has the error monad (\<open>res\<close>, a sum whose left side is the exception), its
  state-passing version, character classes and association lists; \<open>PyJson\<close> the JSON values with Python's
  equality and truth; \<open>PyText\<close> the text operations; \<open>Ipv4Text\<close> the \<open>ipaddress\<close> module as far as it is used;
  \<open>Persistence\<close> the documents of \<open>persistence.py\<close> with their revisions and change journal.

  \<^bold>\<open>Network.\<close>  \<open>NetworkState\<close> (with \<open>NetworkStateFacts\<close>, \<open>NetworkStateProps\<close>) is \<open>network_state.py\<close>: the validators of the
  authority document and every method of the store; the lemmas show that every run keeps a valid,
  secret-free document whose receipts replay.  \<open>NetworkCredentials\<close>, \<open>ContractChecks\<close>, \<open>NetworkControl\<close>, \<open>NetworkMutations\<close>,
  \<open>NetworkExecution\<close> and \<open>NetworkHealth\<close> are \<open>network_credentials.py\<close>, \<open>network_validation.py\<close> and \<open>network_control.py\<close>: acceptance
  of mutations, the worker that executes them, the health monitor and the boot reconciliation, with
  threads as interleaved steps; the worker records the calls it makes to NetworkManager in the trace \<open>ex_calls\<close>, which
  nothing reads.  Their \<open>Props\<close> theories show that a failed request leaves nothing behind,
  for the failures the code cleans up after, that outcomes are earned by calls made in the same turn, and that every
  transaction ends.  \<open>NetworkScan\<close>,
  \<open>NetworkConfig\<close>, \<open>NetworkProfile\<close> and \<open>NetworkStatusView\<close> are the scan, the configuration check, the key file and the status
  of \<open>network.py\<close> (\<open>NetworkProfile\<close> reads the printed text back only as a left inverse of the printer, inside proofs; how
  NetworkManager reads it is not modelled); \<open>GatewayNetwork\<close> and \<open>NetworkEvents\<close> the network contracts and the event log of \<open>api/gateway.py\<close>; \<open>ClockSync\<close>
  is \<open>clock_sync.py\<close>.

  \<^bold>\<open>Capture.\<close>  \<open>CaptureLedger\<close> (with \<open>LedgerRuns\<close>, \<open>LedgerProps\<close>) is the command ledger of \<open>recording/coordinator.py\<close> and its
  table, \<open>CaptureCoordinator\<close> the coordinator's state with start, status and persisting, \<open>CaptureStop\<close> the stop owner,
  its worker, failures and the safe swap, \<open>CaptureControls\<close> the capture timer and the storage reserve, \<open>CaptureWaits\<close> the
  waiting of concurrent stops, deletion and closing.  What other threads do between two critical sections is
  an argument constrained by a rely (\<open>CaptureProps\<close>, \<open>CaptureStopProps\<close>); the properties hold for every such environment.
  \<open>RecordingButton\<close> is \<open>recording_button.py\<close> and \<open>recording_indicator.py\<close>; \<open>Deletion\<close> is \<open>recording/deletion.py\<close>.

  \<^bold>\<open>Recordings.\<close>  \<open>SessionRecorder\<close> is \<open>recording/session.py\<close> with its writer thread as single steps; \<open>RecorderProps\<close> shows that a sealed
  session holds exactly what was accepted.  \<open>SessionFormat\<close> (\<open>SessionFacts\<close>, \<open>SessionProps\<close>) is \<open>contracts/session.py\<close>.  \<open>SessionIdentity\<close> has
  the identities, plan and configuration of \<open>recording/device_session.py\<close>, \<open>VideoSegments\<close> the harvester of closed video
  segments with its checkpoint, which a recovery is shown to accept, \<open>VideoManifest\<close> the video block, the
  reported losses and the quality policy, and \<open>SealPublication\<close> the publication of a stop;
  \<open>RecoveryIndex\<close>, \<open>CrashRecovery\<close>, \<open>RecoveryMedia\<close> and \<open>RecoveryPublication\<close> are \<open>recording/recovery_index.py\<close>, \<open>recording/recovery.py\<close> and the
  startup of the coordinator, with the handler that unlinks a checked manifest when the archive or the rename raises:
  what is recovered, that a crash at any step and any start that ran without such a late failure (\<open>spared\<close>) keep the recording
  recoverable, and that such a failure strands it.
  \<open>AudioClock\<close> is \<open>audio_clock.py\<close> and \<open>AudioJournal\<close> \<open>recording/audio_journal.py\<close>.  \<open>FrameStream\<close> is \<open>contracts/frame_stream.py\<close>; \<open>ImuPipeline\<close>, \<open>ImuSource\<close>
  (\<open>ImuFacts\<close>, \<open>ImuProps\<close>) are \<open>imu/\<close>.

  \<^bold>\<open>Events.\<close>  \<open>EventContracts\<close>, \<open>EventValidators\<close>, \<open>ResourceContracts\<close> and \<open>EventReplay\<close> are \<open>api/events.py\<close>; \<open>ReplayLog\<close> states the replay buffer's
  contract as a locale with an unbounded log behind it, and \<open>EventProps\<close> shows the refinement.

  \<^bold>\<open>Failures.\<close>  Exceptions are values of \<open>pyexc\<close>; a handler catches exactly the classes its \<open>except\<close> clause names, so
  \<open>DatabaseError\<close> (\<open>sqlite3.Error\<close>) is not an operating-system error.  A write of the authority document commits, refuses the
  path, or raises before or after its commit (\<open>commit_outcome\<close>); only the read-back decides which.  Other reads of the database succeed or
  raise before anything changed.  \<open>json.loads\<close> gives a value, a syntax error, the refusal of a long number or of deep nesting
  (\<open>loaded\<close>); a path resolves, is refused, or is a loop of links (\<open>lookup\<close>).  Recovery reads a checkpoint of at most 8 MiB
  (\<open>max_recovery_metadata\<close>), which the harvester does not enforce.  A restart takes up the last 1,024 receipts of the table.

  \<^bold>\<open>Parameters.\<close>  Clocks, random identifiers, hash functions, JSON text, date parsing, subprocess answers and the
  outcome of each file operation are arguments.  What the code relies on of them stands as named
  hypotheses: \<open>frame_codec\<close> for Zstandard, \<open>rounding\<close> for floating-point conversion, \<open>controls_unlisted\<close> for manifests.

  \<^bold>\<open>Bounds and fuel.\<close>  Loops that consume a list are structural.  \<open>index_fill\<close> has one unit of fuel more than its
  payload has bytes, and every turn consumes one; \<open>backing_walk\<close> has the eight turns of the code's \<open>range(8)\<close>; the
  worker and the source loops run over a given list of turns, and their claims say how many are enough.
  \<open>last_sample_before\<close> and \<open>journal_lines\<close> terminate by a measure.  Python integers are unbounded; the counters of identities
  are masked as in the code.

  \<^bold>\<open>Not modelled.\<close>  Pure I/O and glue: HTTP serving and routing (\<open>api/server.py\<close>, the handlers of \<open>api/gateway.py\<close>),
  download streaming (\<open>api/downloads.py\<close>), previews, \<open>daemon.py\<close>, \<open>cli.py\<close>, logging, settings, mDNS, web assets.  Hardware and
  native bindings: \<open>camera/\<close>, \<open>hardware/\<close>, \<open>native.py\<close>, \<open>recording/stereo_encoder.py\<close>, \<open>recording/sources.py\<close>.  Deployment tools: \<open>deployment.py\<close>,
  \<open>update.py\<close>, \<open>firmware_control.py\<close>, \<open>database_admin.py\<close>, \<open>scripts/\<close>, \<open>experiments/\<close>.  Offline exports: \<open>spectacular/\<close>, \<open>session_timestamps.py\<close>.
  Of modelled components: the video recorder's data plane in \<open>recording/device_session.py\<close> (threads over native
  objects), the admission of volumes and the session catalogue, the JSON text of recovered manifests,
  and the opening and backup of the database file.
\<close>

end
